(* ===== verification/Mh40_Prelude.thy ===== *)
theory Mh40_Prelude
  imports Main "HOL-Library.Word"
begin

text \<open>
  Shared vocabulary of the development.

  The firmware is C for a 32-bit little-endian applications processor. This theory fixes
  the machine integers, the result type of code that can panic or leave an allocated
  object, the array operations behind \<open>memmove\<close>/\<open>realloc\<close> and the search loops that
  occur in every component, and the interface of a reactive component whose handler keeps
  an invariant.
\<close>

unbundle bit_operations_syntax

section \<open>Machine integers\<close>

type_synonym u8 = "8 word"
type_synonym u16 = "16 word"
type_synonym u32 = "32 word"
type_synonym u64 = "64 word"

text \<open>Handles of tasks and message identifiers; \<open>0\<close> is \<open>NULL\<close> for a task.\<close>

type_synonym task = nat
type_synonym message_id = nat

named_theorems res_simps \<open>unfolding of the result monad\<close>
named_theorems word_facts \<open>word and byte conversions\<close>

lemma unat_of_nat_small [word_facts]:
  "k < 2 ^ LENGTH('a) \<Longrightarrow> unat (word_of_nat k :: 'a::len word) = k"
  by (simp add: unat_of_nat take_bit_nat_eq_self)

lemma unat_u16_less: "unat (x :: u16) < 65536"
  using unsigned_less [of x] by simp

lemma unat_u8_less: "unat (x :: u8) < 256"
  using unsigned_less [of x] by simp

lemma and_0xff [word_facts]: "x AND 0xff = take_bit 8 x" for x :: "'a::len word"
  by (simp add: take_bit_eq_mask mask_eq_exp_minus_1)

lemma bit_u8_ge: "8 \<le> n \<Longrightarrow> \<not> bit (b :: u8) n"
  using bit_imp_le_length [of b n] by auto

section \<open>Results\<close>

text \<open>
  \<open>Panic\<close> is a call of \<open>Panic()\<close> or one of its wrappers (\<open>PanicFalse\<close>, \<open>PanicNull\<close>, \<dots>);
  \<open>BadAccess\<close> is an access outside an allocated object or through \<open>NULL\<close>, which C leaves
  undefined; \<open>Hang\<close> is a loop that does not end; \<open>DivideByZero\<close> is a division by zero.
\<close>

datatype fault = Panic | BadAccess | Hang | DivideByZero

type_synonym 'a res = "fault + 'a"

definition res_bind :: "'a res \<Rightarrow> ('a \<Rightarrow> 'b res) \<Rightarrow> 'b res" where
  "res_bind m f = (case m of Inl e \<Rightarrow> Inl e | Inr x \<Rightarrow> f x)"

definition panic_unless :: "bool \<Rightarrow> unit res" where
  "panic_unless b = (if b then Inr () else Inl Panic)"

definition panic_null :: "'a option \<Rightarrow> 'a res" where
  "panic_null p = (case p of None \<Rightarrow> Inl Panic | Some x \<Rightarrow> Inr x)"

lemma panic_null_simps [simp]:
  "panic_null None = Inl Panic"
  "panic_null (Some x) = Inr x"
  by (simp_all add: panic_null_def)

lemma res_bind_simps [simp]:
  "res_bind (Inl e) f = Inl e"
  "res_bind (Inr x) f = f x"
  by (simp_all add: res_bind_def)

lemma res_bind_Inr_iff [res_simps]:
  "res_bind m f = Inr y \<longleftrightarrow> (\<exists>x. m = Inr x \<and> f x = Inr y)"
  by (cases m) auto

lemma res_bind_Inl_iff [res_simps]:
  "res_bind m f = Inl e \<longleftrightarrow> m = Inl e \<or> (\<exists>x. m = Inr x \<and> f x = Inl e)"
  by (cases m) auto

lemma res_bind_assoc [res_simps]:
  "res_bind (res_bind m f) g = res_bind m (\<lambda>x. res_bind (f x) g)"
  by (cases m) auto

lemma panic_unless_simps [simp]:
  "panic_unless True = Inr ()"
  "panic_unless False = Inl Panic"
  "panic_unless b = Inr u \<longleftrightarrow> b"
  by (auto simp: panic_unless_def)

text \<open>A \<open>for\<close> loop over the elements of an array whose body may fail.\<close>

fun for_res :: "('a \<Rightarrow> 's \<Rightarrow> 's res) \<Rightarrow> 'a list \<Rightarrow> 's \<Rightarrow> 's res" where
  "for_res f [] s = Inr s"
| "for_res f (x # xs) s = res_bind (f x s) (for_res f xs)"

lemma for_res_append:
  "for_res f (xs @ ys) s = res_bind (for_res f xs s) (for_res f ys)"
proof (induction xs arbitrary: s)
  case Nil
  show ?case by simp
next
  case (Cons x xs)
  then show ?case by (cases "f x s") auto
qed

lemma for_res_invariant:
  assumes "for_res f xs s = Inr t" and "P s"
    and "\<And>x s t. x \<in> set xs \<Longrightarrow> P s \<Longrightarrow> f x s = Inr t \<Longrightarrow> P t"
  shows "P t"
  using assms
proof (induction xs arbitrary: s)
  case Nil
  then show ?case by simp
next
  case (Cons x xs)
  from Cons.prems(1) obtain u where u: "f x s = Inr u" "for_res f xs u = Inr t"
    by (auto simp: res_simps)
  have "P u" using Cons.prems(2,3) u(1) by (meson list.set_intros(1))
  with u(2) show ?case using Cons.prems(3) by (intro Cons.IH) (auto intro: list.set_intros(2))
qed

lemma for_res_total:
  assumes "P s" and "\<And>x s. x \<in> set xs \<Longrightarrow> P s \<Longrightarrow> \<exists>t. f x s = Inr t \<and> P t"
  shows "\<exists>t. for_res f xs s = Inr t \<and> P t"
  using assms
proof (induction xs arbitrary: s)
  case Nil
  then show ?case by simp
next
  case (Cons x xs)
  then obtain u where "f x s = Inr u" "P u" by (meson list.set_intros(1))
  with Cons.IH [of u] Cons.prems(2) show ?case by (auto intro: list.set_intros(2))
qed

lemma for_res_map: "for_res f (map g xs) s = for_res (\<lambda>x. f (g x)) xs s"
  by (induction xs arbitrary: s) (auto intro!: arg_cong [where f = "res_bind _"])

lemma for_res_cong:
  "xs = ys \<Longrightarrow> (\<And>x s. x \<in> set ys \<Longrightarrow> f x s = g x s) \<Longrightarrow> for_res f xs s = for_res g ys s"
proof (induction ys arbitrary: xs s)
  case Nil
  then show ?case by simp
next
  case (Cons y ys)
  then have "for_res f ys = for_res g ys" by (intro ext Cons.IH) auto
  with Cons.prems show ?case by simp
qed

section \<open>Arrays\<close>

text \<open>Reading and writing an element, with the bounds the allocation gives.\<close>

definition array_get :: "'a list \<Rightarrow> nat \<Rightarrow> 'a res" where
  "array_get xs i = (if i < length xs then Inr (xs ! i) else Inl BadAccess)"

definition array_set :: "'a list \<Rightarrow> nat \<Rightarrow> 'a \<Rightarrow> 'a list res" where
  "array_set xs i x = (if i < length xs then Inr (xs[i := x]) else Inl BadAccess)"

lemma array_get_in [simp]: "i < length xs \<Longrightarrow> array_get xs i = Inr (xs ! i)"
  by (simp add: array_get_def)

lemma array_set_in [simp]: "i < length xs \<Longrightarrow> array_set xs i x = Inr (xs[i := x])"
  by (simp add: array_set_def)

lemma array_set_Inr_iff [res_simps]:
  "array_set xs i x = Inr ys \<longleftrightarrow> i < length xs \<and> ys = xs[i := x]"
  by (auto simp: array_set_def)

lemma array_get_Inr_iff [res_simps]:
  "array_get xs i = Inr y \<longleftrightarrow> i < length xs \<and> y = xs ! i"
  by (auto simp: array_get_def)

text \<open>
  Opening a gap at an index and closing one, the effect of the \<open>memmove\<close> before or after
  a \<open>realloc\<close>.
\<close>

definition insert_at :: "nat \<Rightarrow> 'a \<Rightarrow> 'a list \<Rightarrow> 'a list" where
  "insert_at i x xs = take i xs @ x # drop i xs"

definition remove_at :: "nat \<Rightarrow> 'a list \<Rightarrow> 'a list" where
  "remove_at i xs = take i xs @ drop (Suc i) xs"

lemma length_insert_at [simp]: "length (insert_at i x xs) = Suc (length xs)"
  by (simp add: insert_at_def)

lemma length_remove_at [simp]: "i < length xs \<Longrightarrow> length (remove_at i xs) = length xs - 1"
  by (auto simp: remove_at_def)

lemma set_insert_at [simp]: "set (insert_at i x xs) = insert x (set xs)"
  by (metis append_take_drop_id insert_at_def list.simps(15) set_append Un_insert_right)

lemma distinct_insert_at: "distinct xs \<Longrightarrow> x \<notin> set xs \<Longrightarrow> distinct (insert_at i x xs)"
  unfolding insert_at_def
  by (metis Un_iff append_take_drop_id distinct_append disjoint_insert(2) distinct.simps(2)
      list.simps(15) set_append)

lemma remove_at_append1: "i < length xs \<Longrightarrow> remove_at i (xs @ ys) = remove_at i xs @ ys"
  by (simp add: remove_at_def)

lemma remove_at_append2:
  "length xs \<le> i \<Longrightarrow> remove_at i (xs @ ys) = xs @ remove_at (i - length xs) ys"
  by (simp add: remove_at_def Suc_diff_le)

lemma mset_set_remove_at:
  assumes "i < length xs" and "distinct xs"
  shows "set (remove_at i xs) = set xs - {xs ! i}" and "distinct (remove_at i xs)"
proof -
  have split: "xs = take i xs @ xs ! i # drop (Suc i) xs"
    using assms(1) by (rule id_take_nth_drop)
  have "distinct (take i xs @ xs ! i # drop (Suc i) xs)"
    using assms(2) split by simp
  then show "distinct (remove_at i xs)" by (auto simp: remove_at_def)
  have "set xs = set (take i xs) \<union> insert (xs ! i) (set (drop (Suc i) xs))"
    using split by (metis list.simps(15) set_append)
  moreover have "xs ! i \<notin> set (take i xs)" "xs ! i \<notin> set (drop (Suc i) xs)"
    using \<open>distinct (take i xs @ xs ! i # drop (Suc i) xs)\<close> by auto
  ultimately show "set (remove_at i xs) = set xs - {xs ! i}"
    by (auto simp: remove_at_def)
qed

text \<open>Parallel key and value arrays, read as an association list.\<close>

lemma zip_insert_at:
  "length ks = length vs \<Longrightarrow>
   zip (insert_at i k ks) (insert_at i v vs) = insert_at i (k, v) (zip ks vs)"
  by (simp add: insert_at_def zip_append take_zip drop_zip)

lemma zip_remove_at:
  "length ks = length vs \<Longrightarrow> zip (remove_at i ks) (remove_at i vs) = remove_at i (zip ks vs)"
  by (simp add: remove_at_def zip_append take_zip drop_zip)

lemma insert_at_boundary [simp]: "insert_at (length xs) x (xs @ ys) = xs @ x # ys"
  by (simp add: insert_at_def)

lemma map_remove_at: "map f (remove_at i xs) = remove_at i (map f xs)"
  by (simp add: remove_at_def take_map drop_map)

lemma map_of_insert_at:
  "k \<notin> fst ` set xs \<Longrightarrow> map_of (insert_at i (k, v) xs) = (map_of xs)(k \<mapsto> v)"
proof -
  assume new: "k \<notin> fst ` set xs"
  then have "k \<notin> fst ` set (take i xs)" by (auto dest: in_set_takeD)
  then have "map_of (take i xs) k = None" by (simp add: map_of_eq_None_iff)
  then have "map_of (insert_at i (k, v) xs) = (map_of (take i xs @ drop i xs))(k \<mapsto> v)"
    by (auto simp: insert_at_def map_add_def fun_eq_iff simp del: append_take_drop_id
        split: option.splits)
  then show ?thesis by simp
qed

lemma map_of_remove_at:
  assumes "i < length xs" and "distinct (map fst xs)"
  shows "map_of (remove_at i xs) = (map_of xs)(fst (xs ! i) := None)"
proof -
  have split: "xs = take i xs @ xs ! i # drop (Suc i) xs"
    using assms(1) by (rule id_take_nth_drop)
  have "distinct (map fst (take i xs @ xs ! i # drop (Suc i) xs))"
    using assms(2) split by simp
  then have "fst (xs ! i) \<notin> fst ` set (take i xs)" "fst (xs ! i) \<notin> fst ` set (drop (Suc i) xs)"
    by auto
  then have n: "map_of (take i xs) (fst (xs ! i)) = None" "map_of (drop (Suc i) xs) (fst (xs ! i)) = None"
    by (simp_all add: map_of_eq_None_iff)
  have "map_of xs = map_of (take i xs @ xs ! i # drop (Suc i) xs)" using split by simp
  with n show ?thesis
    by (cases "xs ! i") (auto simp: remove_at_def map_add_def fun_eq_iff split: option.splits)
qed

lemma list_update_nth_same: "xs ! i = x \<Longrightarrow> xs = xs[i := x]"
  by auto

text \<open>A loop that fills an array from the front.\<close>

lemma for_res_fill:
  assumes "n \<le> length d"
    and "\<And>i d'. i < n \<Longrightarrow> length d' = length d \<Longrightarrow> d' ! i = d ! i \<Longrightarrow> body i d' = Inr (d'[i := g i])"
  shows "for_res body [0..<n] d = Inr (map g [0..<n] @ drop n d)"
  using assms
proof (induction n)
  case 0
  show ?case by simp
next
  case (Suc n)
  then have IH: "for_res body [0..<n] d = Inr (map g [0..<n] @ drop n d)" by simp
  have "body n (map g [0..<n] @ drop n d) = Inr ((map g [0..<n] @ drop n d)[n := g n])"
    using Suc.prems(1) by (intro Suc.prems(2)) (auto simp: nth_append)
  moreover have "(map g [0..<n] @ drop n d)[n := g n] = map g [0..<Suc n] @ drop (Suc n) d"
    using Suc.prems(1) by (simp add: list_update_append Cons_nth_drop_Suc [symmetric])
  ultimately show ?case by (simp add: for_res_append IH)
qed

section \<open>Search loops\<close>

text \<open>
  \<open>find_index\<close> is the loop that stops at the first match, \<open>find_last_index\<close> the one that
  keeps overwriting its result and so returns the last.
\<close>

fun find_index :: "('a \<Rightarrow> bool) \<Rightarrow> 'a list \<Rightarrow> nat option" where
  "find_index P [] = None"
| "find_index P (x # xs) = (if P x then Some 0 else map_option Suc (find_index P xs))"

fun find_last_index :: "('a \<Rightarrow> bool) \<Rightarrow> 'a list \<Rightarrow> nat option" where
  "find_last_index P [] = None"
| "find_last_index P (x # xs) =
     (case find_last_index P xs of Some i \<Rightarrow> Some (Suc i)
      | None \<Rightarrow> if P x then Some 0 else None)"

lemma find_index_None_iff: "find_index P xs = None \<longleftrightarrow> (\<forall>x \<in> set xs. \<not> P x)"
  by (induction xs) auto

lemma find_index_SomeD:
  "find_index P xs = Some i \<Longrightarrow> i < length xs \<and> P (xs ! i) \<and> (\<forall>j < i. \<not> P (xs ! j))"
proof (induction xs arbitrary: i)
  case Nil
  then show ?case by simp
next
  case (Cons x xs)
  show ?case
  proof (cases "P x")
    case True
    with Cons.prems show ?thesis by simp
  next
    case False
    with Cons.prems obtain k where "find_index P xs = Some k" "i = Suc k" by auto
    with Cons.IH [of k] False show ?thesis by (auto simp: less_Suc_eq_0_disj)
  qed
qed

lemma find_index_Some_iff:
  "find_index P xs = Some i \<longleftrightarrow> i < length xs \<and> P (xs ! i) \<and> (\<forall>j < i. \<not> P (xs ! j))"
proof
  assume R: "i < length xs \<and> P (xs ! i) \<and> (\<forall>j < i. \<not> P (xs ! j))"
  then obtain k where k: "find_index P xs = Some k"
    by (meson find_index_None_iff not_None_eq nth_mem)
  with R have "k = i" using find_index_SomeD [OF k] by (meson linorder_neqE_nat)
  with k show "find_index P xs = Some i" by simp
qed (rule find_index_SomeD)

lemma find_last_index_None_iff: "find_last_index P xs = None \<longleftrightarrow> (\<forall>x \<in> set xs. \<not> P x)"
  by (induction xs) (auto split: option.splits)

lemma find_last_index_SomeD:
  "find_last_index P xs = Some i \<Longrightarrow> i < length xs \<and> P (xs ! i)"
  by (induction xs arbitrary: i) (auto split: option.splits if_splits)

lemma find_last_index_eq_unique:
  assumes "distinct xs" and "i < length xs"
  shows "find_last_index (\<lambda>y. y = xs ! i) xs = Some i"
proof -
  have "xs ! i \<in> set xs" using assms(2) by (rule nth_mem)
  then have "find_last_index (\<lambda>y. y = xs ! i) xs \<noteq> None"
    by (simp add: find_last_index_None_iff)
  then obtain k where k: "find_last_index (\<lambda>y. y = xs ! i) xs = Some k"
    by blast
  from find_last_index_SomeD [OF k] assms have "k = i"
    by (auto simp: nth_eq_iff_index_eq)
  with k show ?thesis by simp
qed

text \<open>
  The search loop over \<open>n\<close> elements of an array from index \<open>i\<close>, with the bounds of the
  array.
\<close>

fun scan :: "('a \<Rightarrow> bool) \<Rightarrow> 'a list \<Rightarrow> nat \<Rightarrow> nat \<Rightarrow> nat option res" where
  "scan P xs i 0 = Inr None"
| "scan P xs i (Suc n) = res_bind (array_get xs i) (\<lambda>x. if P x then Inr (Some i) else scan P xs (Suc i) n)"

lemma scan_in:
  "i + n \<le> length xs \<Longrightarrow>
   scan P xs i n = Inr (map_option ((+) i) (find_index P (take n (drop i xs))))"
proof (induction n arbitrary: i)
  case 0
  show ?case by simp
next
  case (Suc n)
  have "take (Suc n) (drop i xs) = xs ! i # take n (drop (Suc i) xs)"
    using Suc.prems by (simp add: Cons_nth_drop_Suc [symmetric])
  then show ?case
    using Suc.IH [of "Suc i"] Suc.prems by (auto simp: option.map_comp comp_def)
qed

lemma scan_all: "n = length xs \<Longrightarrow> scan P xs 0 n = Inr (find_index P xs)"
  using scan_in [of 0 n xs P] by (simp add: option.map_ident cong: map_option_cong)

section \<open>Reactive components\<close>

text \<open>
  A component is a handler that takes its state and a message to a new state. Its contract
  is an invariant that holds initially and that every message keeps; then it holds after
  any sequence of messages.
\<close>

locale reactive =
  fixes start :: 's
    and handle :: "'s \<Rightarrow> 'm \<Rightarrow> 's"
    and ok :: "'s \<Rightarrow> bool"
  assumes ok_start: "ok start"
    and ok_handle: "ok s \<Longrightarrow> ok (handle s m)"
begin

inductive reaches :: "'s \<Rightarrow> bool" where
  reaches_start: "reaches start"
| reaches_handle: "reaches s \<Longrightarrow> reaches (handle s m)"

lemma reaches_ok: "reaches s \<Longrightarrow> ok s"
  by (induction rule: reaches.induct) (auto intro: ok_start ok_handle)

lemma foldl_ok: "ok s \<Longrightarrow> ok (foldl handle s ms)"
  by (induction ms arbitrary: s) (auto intro: ok_handle)

lemma run_ok: "ok (foldl handle start ms)"
  by (rule foldl_ok [OF ok_start])

lemma run_reaches: "reaches (foldl handle start ms)"
  by (induction ms rule: rev_induct) (auto intro: reaches.intros)

lemma reaches_iff_run: "reaches s \<longleftrightarrow> (\<exists>ms. s = foldl handle start ms)"
proof
  assume "reaches s"
  then show "\<exists>ms. s = foldl handle start ms"
  proof (induction rule: reaches.induct)
    case reaches_start
    show ?case by (rule exI [of _ "[]"]) simp
  next
    case (reaches_handle s m)
    then obtain ms where "s = foldl handle start ms" by blast
    then show ?case by (intro exI [of _ "ms @ [m]"]) simp
  qed
qed (auto intro: run_reaches)

end

end
