(* ===== verification/Task_List.thy ===== *)
theory Task_List
  imports Mh40_Prelude
begin

text \<open>
  Lists of tasks (\<^verbatim>\<open>adk/src/libs/task_list/task_list.c\<close>), through which every component
  notifies its clients. Tasks are placed in the flexible array behind the structure, then
  in the single task of the union, then in an allocated array that takes over the task of
  the union. The sizes are 4-bit fields. An all-zero union is \<open>UTask 0\<close>; a handle is an
  option whose \<open>None\<close> is \<open>NULL\<close>; an indeterminate data element is \<open>None\<close>.
\<close>

section \<open>Model\<close>

datatype task_list_type = TASKLIST_TYPE_STANDARD | TASKLIST_TYPE_WITH_DATA

type_synonym u4 = "4 word"

datatype task_union = UTask task | UTasks "task list"

record task_list =
  size_list :: u4
  size_flexible_tasks :: u4
  list_type :: task_list_type
  no_destroy :: bool
  u :: task_union
  flexible_tasks :: "task list"
  tl_data :: "u64 option list"

abbreviation TASK_LIST_MAX_TASKS :: nat where "TASK_LIST_MAX_TASKS \<equiv> 15"

text \<open>Reading the union as a task, and as a pointer to tasks (\<open>NULL\<close> is the empty array).\<close>

definition u_task :: "task_union \<Rightarrow> task res" where
  "u_task x = (case x of UTask t \<Rightarrow> Inr t | UTasks _ \<Rightarrow> Inl BadAccess)"

definition u_tasks :: "task_union \<Rightarrow> task list res" where
  "u_tasks x = (case x of UTasks ts \<Rightarrow> Inr ts | UTask t \<Rightarrow> if t = 0 then Inr [] else Inl BadAccess)"

text \<open>\<open>realloc\<close> of an array; the elements gained are not initialised.\<close>

definition realloc :: "nat \<Rightarrow> 'a \<Rightarrow> 'a list \<Rightarrow> 'a list" where
  "realloc n junk xs = take n xs @ replicate (n - length xs) junk"

definition taskList_GetTaskAtIndex :: "task_list \<Rightarrow> nat \<Rightarrow> task res" where
  "taskList_GetTaskAtIndex l index =
     (let flex_size = unat (size_flexible_tasks l); list_size = unat (size_list l) in
      if index < flex_size then array_get (flexible_tasks l) index
      else if index = flex_size \<and> list_size = index + 1 then u_task (u l)
      else res_bind (u_tasks (u l)) (\<lambda>ts. array_get ts (index - flex_size)))"

definition taskList_FindTaskIndex :: "task_list \<Rightarrow> task \<Rightarrow> nat option res" where
  "taskList_FindTaskIndex l search_task =
     for_res (\<lambda>iter r. res_bind (taskList_GetTaskAtIndex l iter) (\<lambda>t.
         Inr (if t = search_task then Some iter else r)))
       [0..<unat (size_list l)] None"

definition taskList_SetTaskAtIndex :: "task_list \<Rightarrow> task \<Rightarrow> nat \<Rightarrow> task_list res" where
  "taskList_SetTaskAtIndex l t index =
     (let flex_size = unat (size_flexible_tasks l); list_size = unat (size_list l) in
      if index < flex_size then
        res_bind (array_set (flexible_tasks l) index t) (\<lambda>ts. Inr (l\<lparr>flexible_tasks := ts\<rparr>))
      else if index = flex_size \<and> index + 1 = list_size then Inr (l\<lparr>u := UTask t\<rparr>)
      else res_bind (u_tasks (u l)) (\<lambda>ts.
           res_bind (array_set ts (index - flex_size) t) (\<lambda>ts'. Inr (l\<lparr>u := UTasks ts'\<rparr>))))"

definition resize_tasks :: "task_list \<Rightarrow> nat \<Rightarrow> task_list res" where
  "resize_tasks l new_size =
     (let flex_size = unat (size_flexible_tasks l); static_size = flex_size + 1;
          old_size = unat (size_list l) in
      if new_size = static_size then
        if old_size > static_size then
          res_bind (u_tasks (u l)) (\<lambda>ts.
          res_bind (array_get ts 0) (\<lambda>move_task. Inr (l\<lparr>u := UTask move_task\<rparr>)))
        else if old_size < static_size then Inr (l\<lparr>u := UTask 0\<rparr>)
        else Inr l
      else if new_size > static_size then
        if old_size = static_size then
          res_bind (u_task (u l)) (\<lambda>move_task.
            Inr (l\<lparr>u := UTasks (move_task # replicate (new_size - flex_size - 1) 0)\<rparr>))
        else
          res_bind (u_tasks (u l)) (\<lambda>ts. Inr (l\<lparr>u := UTasks (realloc (new_size - flex_size) 0 ts)\<rparr>))
      else
        if old_size > static_size then res_bind (u_tasks (u l)) (\<lambda>_. Inr (l\<lparr>u := UTask 0\<rparr>))
        else if old_size = static_size then Inr (l\<lparr>u := UTask 0\<rparr>)
        else Inr l)"

definition taskList_Resize :: "task_list \<Rightarrow> nat \<Rightarrow> task_list res" where
  "taskList_Resize l new_size =
     res_bind (resize_tasks l new_size) (\<lambda>l1.
       let l2 = (if list_type l1 = TASKLIST_TYPE_WITH_DATA
                 then l1\<lparr>tl_data := realloc new_size None (tl_data l1)\<rparr> else l1)
       in Inr (l2\<lparr>size_list := word_of_nat new_size\<rparr>))"

text \<open>
  \<open>iterateIndex\<close> takes the task iterated last; it returns whether there is a next one, the
  new value of \<open>next_task\<close> and the index, which is only written on success.
\<close>

definition iterateIndex :: "task_list option \<Rightarrow> task \<Rightarrow> (task \<times> nat option) res" where
  "iterateIndex list next_task = res_bind (panic_null list) (\<lambda>l.
     if size_list l \<noteq> 0 then
       if next_task = 0 then
         res_bind (taskList_GetTaskAtIndex l 0) (\<lambda>t. Inr (t, Some 0))
       else
         res_bind (taskList_FindTaskIndex l next_task) (\<lambda>r. case r of
           Some i \<Rightarrow>
             if i + 1 < unat (size_list l) then
               res_bind (taskList_GetTaskAtIndex l (i + 1)) (\<lambda>t. Inr (t, Some (i + 1)))
             else Inr (next_task, None)
         | None \<Rightarrow> Inr (0, None))
     else Inr (next_task, None))"

text \<open>
  The \<open>while\<close> loop over \<open>iterateIndex\<close>, with fuel: \<open>None\<close> is running out of it. \<open>arr\<close> is the
  array filled, \<open>lasti\<close> the index written last.
\<close>

fun array_loop :: "nat \<Rightarrow> task_list \<Rightarrow> task \<Rightarrow> nat \<Rightarrow> task list \<Rightarrow> (task list \<times> nat) res option" where
  "array_loop 0 l next_task lasti arr = None"
| "array_loop (Suc fuel) l next_task lasti arr =
     (case iterateIndex (Some l) next_task of
        Inl e \<Rightarrow> Some (Inl e)
      | Inr (t, None) \<Rightarrow> Some (Inr (arr, lasti))
      | Inr (t, Some i) \<Rightarrow>
          (case array_set arr i t of Inl e \<Rightarrow> Some (Inl e)
           | Inr arr' \<Rightarrow> array_loop fuel l t i arr'))"

definition taskList_CreateNullTerminatedTaskArray ::
  "nat \<Rightarrow> task_list \<Rightarrow> task list option res option" where
  "taskList_CreateNullTerminatedTaskArray fuel l =
     (if size_list l \<noteq> 0 then
        (case array_loop fuel l 0 0 (replicate (unat (size_list l) + 1) 0) of
           None \<Rightarrow> None
         | Some r \<Rightarrow> Some (res_bind r (\<lambda>(arr, lasti).
             res_bind (array_set arr (lasti + 1) 0) (\<lambda>arr'. Inr (Some arr')))))
      else Some (Inr None))"

definition TaskList_InitialiseWithCapacity :: "nat \<Rightarrow> task_list res" where
  "TaskList_InitialiseWithCapacity capacity =
     (if capacity \<le> TASK_LIST_MAX_TASKS then
        Inr \<lparr>size_list = 0, size_flexible_tasks = word_of_nat (capacity - 1),
            list_type = TASKLIST_TYPE_STANDARD, no_destroy = True, u = UTask 0,
            flexible_tasks = replicate (capacity - 1) 0, tl_data = []\<rparr>
      else Inl Panic)"

definition TaskList_CreateWithCapacity :: "nat \<Rightarrow> task_list res" where
  "TaskList_CreateWithCapacity capacity =
     res_bind (TaskList_InitialiseWithCapacity (if capacity = 0 then 1 else capacity)) (\<lambda>l.
       Inr (l\<lparr>no_destroy := False\<rparr>))"

definition TaskList_Create :: "task_list res" where
  "TaskList_Create = TaskList_CreateWithCapacity 1"

definition TaskList_Initialise :: "task_list res" where
  "TaskList_Initialise = TaskList_InitialiseWithCapacity 1"

definition TaskList_WithDataInitialise :: "task_list" where
  "TaskList_WithDataInitialise =
     \<lparr>size_list = 0, size_flexible_tasks = 0, list_type = TASKLIST_TYPE_WITH_DATA,
      no_destroy = True, u = UTask 0, flexible_tasks = [], tl_data = []\<rparr>"

definition TaskList_WithDataCreate :: "task_list" where
  "TaskList_WithDataCreate = TaskList_WithDataInitialise\<lparr>no_destroy := False\<rparr>"

text \<open>Destroying a list leaves nothing; the result says whether it was allowed.\<close>

definition TaskList_Destroy :: "task_list option \<Rightarrow> unit res" where
  "TaskList_Destroy list = res_bind (panic_null list) (\<lambda>l.
     if no_destroy l then Inl Panic else res_bind (taskList_Resize l 0) (\<lambda>_. Inr ()))"

definition TaskList_IsTaskOnList :: "task_list option \<Rightarrow> task \<Rightarrow> bool res" where
  "TaskList_IsTaskOnList list search_task = res_bind (panic_null list) (\<lambda>l.
     res_bind (taskList_FindTaskIndex l search_task) (\<lambda>r. Inr (r \<noteq> None)))"

text \<open>The index of the new task is \<open>size_list - 1\<close>, converted to \<open>uint16\<close>.\<close>

definition uint16_pred :: "nat \<Rightarrow> nat" where
  "uint16_pred n = (if n = 0 then 65535 else n - 1)"

definition TaskList_AddTask :: "task_list option \<Rightarrow> task \<Rightarrow> (task_list \<times> bool) res" where
  "TaskList_AddTask list add_task = res_bind (panic_null list) (\<lambda>l.
     res_bind (panic_unless (add_task \<noteq> 0)) (\<lambda>_.
     res_bind (TaskList_IsTaskOnList list add_task) (\<lambda>found.
       if \<not> found then
         res_bind (taskList_Resize l (unat (size_list l) + 1)) (\<lambda>l1.
         res_bind (taskList_SetTaskAtIndex l1 add_task
                    (uint16_pred (unat (size_list l1)))) (\<lambda>l2. Inr (l2, True)))
       else Inr (l, False))))"

definition TaskList_IsTaskListWithData :: "task_list option \<Rightarrow> bool res" where
  "TaskList_IsTaskListWithData list = res_bind (panic_null list) (\<lambda>l.
     Inr (list_type l = TASKLIST_TYPE_WITH_DATA))"

definition TaskList_AddTaskWithData :: "task_list option \<Rightarrow> task \<Rightarrow> u64 \<Rightarrow> (task_list \<times> bool) res" where
  "TaskList_AddTaskWithData list add_task data = res_bind (panic_null list) (\<lambda>l.
     res_bind (TaskList_IsTaskListWithData list) (\<lambda>with_data.
       if with_data then
         res_bind (TaskList_AddTask list add_task) (\<lambda>(l1, added).
           if added then
             res_bind (array_set (tl_data l1) (unat (size_list l1) - 1) (Some data)) (\<lambda>d.
               Inr (l1\<lparr>tl_data := d\<rparr>, True))
           else Inr (l1, False))
       else Inr (l, False)))"

text \<open>\<open>memmove\<close> of the elements behind index \<open>i\<close> of an array with \<open>n\<close> elements down by one.\<close>

definition memmove_down :: "nat \<Rightarrow> nat \<Rightarrow> 'a list \<Rightarrow> 'a list res" where
  "memmove_down n i xs =
     (if n \<le> length xs
      then Inr (take i xs @ take (n - i - 1) (drop (i + 1) xs) @ drop (n - 1) xs) else Inl BadAccess)"

definition TaskList_RemoveTask :: "task_list option \<Rightarrow> task \<Rightarrow> (task_list \<times> bool) res" where
  "TaskList_RemoveTask list del_task = res_bind (panic_null list) (\<lambda>l.
     res_bind (panic_unless (del_task \<noteq> 0)) (\<lambda>_.
     res_bind (taskList_FindTaskIndex l del_task) (\<lambda>r. case r of
       None \<Rightarrow> Inr (l, False)
     | Some index \<Rightarrow>
         res_bind
           (for_res (\<lambda>iter l. res_bind (taskList_GetTaskAtIndex l (iter + 1)) (\<lambda>next_task.
                taskList_SetTaskAtIndex l next_task iter))
              [index..<unat (size_list l) - 1] l) (\<lambda>l1.
         res_bind
           (if list_type l1 = TASKLIST_TYPE_WITH_DATA then
              res_bind (memmove_down (unat (size_list l1)) index (tl_data l1)) (\<lambda>d.
                Inr (l1\<lparr>tl_data := d\<rparr>))
            else Inr l1) (\<lambda>l2.
         res_bind (taskList_Resize l2 (unat (size_list l2) - 1)) (\<lambda>l3. Inr (l3, True)))))))"

definition TaskList_RemoveAllTasks :: "task_list option \<Rightarrow> task_list res" where
  "TaskList_RemoveAllTasks list = res_bind (panic_null list) (\<lambda>l.
     if list_type l = TASKLIST_TYPE_WITH_DATA then Inl Panic else taskList_Resize l 0)"

definition TaskList_Size :: "task_list option \<Rightarrow> nat" where
  "TaskList_Size list = (case list of Some l \<Rightarrow> unat (size_list l) | None \<Rightarrow> 0)"

definition TaskList_Iterate :: "task_list option \<Rightarrow> task \<Rightarrow> (task \<times> bool) res" where
  "TaskList_Iterate list next_task =
     res_bind (iterateIndex list next_task) (\<lambda>(t, i). Inr (t, i \<noteq> None))"

definition TaskList_IterateWithDataRaw :: "task_list option \<Rightarrow> task \<Rightarrow> (task \<times> nat option) res" where
  "TaskList_IterateWithDataRaw list next_task =
     res_bind (TaskList_IsTaskListWithData list) (\<lambda>with_data.
       if with_data then iterateIndex list next_task else Inr (next_task, None))"

text \<open>The data read through the raw pointer, which is an index into the data array.\<close>

definition TaskList_IterateWithData ::
  "task_list option \<Rightarrow> task \<Rightarrow> (task \<times> u64 option option) res" where
  "TaskList_IterateWithData list next_task = res_bind (panic_null list) (\<lambda>l.
     res_bind (TaskList_IterateWithDataRaw list next_task) (\<lambda>(t, r). case r of
       None \<Rightarrow> Inr (t, None)
     | Some i \<Rightarrow> res_bind (array_get (tl_data l) i) (\<lambda>d. Inr (t, Some d))))"

text \<open>
  The handler is given the task, the data (which it may change) and its argument; it tells
  whether to proceed.
\<close>

fun raw_function_loop ::
  "nat \<Rightarrow> (task \<Rightarrow> u64 option \<Rightarrow> 'a \<Rightarrow> u64 option \<times> 'a \<times> bool) \<Rightarrow> task_list \<Rightarrow> task \<Rightarrow> 'a \<Rightarrow>
   (task_list \<times> 'a \<times> bool) res option" where
  "raw_function_loop 0 handler l next_task arg = None"
| "raw_function_loop (Suc fuel) handler l next_task arg =
     (case iterateIndex (Some l) next_task of
        Inl e \<Rightarrow> Some (Inl e)
      | Inr (t, None) \<Rightarrow> Some (Inr (l, arg, True))
      | Inr (t, Some i) \<Rightarrow>
          if i < length (tl_data l) then
            (case handler t (tl_data l ! i) arg of (d, arg', proceed) \<Rightarrow>
               let l' = l\<lparr>tl_data := (tl_data l)[i := d]\<rparr> in
               if proceed then raw_function_loop fuel handler l' t arg'
               else Some (Inr (l', arg', False)))
          else Some (Inl BadAccess))"

definition TaskList_IterateWithDataRawFunction ::
  "nat \<Rightarrow> task_list option \<Rightarrow> (task \<Rightarrow> u64 option \<Rightarrow> 'a \<Rightarrow> u64 option \<times> 'a \<times> bool) \<Rightarrow> 'a \<Rightarrow>
   (task_list \<times> 'a \<times> bool) res option" where
  "TaskList_IterateWithDataRawFunction fuel list handler arg =
     (case TaskList_IsTaskListWithData list of
        Inl e \<Rightarrow> Some (Inl e)
      | Inr with_data \<Rightarrow>
          if with_data then raw_function_loop fuel handler (the list) 0 arg else Some (Inl Panic))"

definition TaskList_Duplicate :: "task_list option \<Rightarrow> task_list res" where
  "TaskList_Duplicate list = res_bind (panic_null list) (\<lambda>l.
     res_bind (if list_type l = TASKLIST_TYPE_STANDARD
               then TaskList_CreateWithCapacity (unat (size_flexible_tasks l))
               else Inr TaskList_WithDataCreate) (\<lambda>n.
     let n1 = n\<lparr>size_list := size_list l, size_flexible_tasks := size_flexible_tasks l,
                list_type := list_type l, no_destroy := False\<rparr> in
     res_bind (taskList_Resize n1 (unat (size_list l))) (\<lambda>n2.
     res_bind (for_res (\<lambda>index n. res_bind (taskList_GetTaskAtIndex l index) (\<lambda>copytask.
                  taskList_SetTaskAtIndex n copytask index)) [0..<unat (size_list l)] n2) (\<lambda>n3.
       if list_type n3 = TASKLIST_TYPE_WITH_DATA then
         if unat (size_list l) \<le> length (tl_data l) \<and> unat (size_list l) \<le> length (tl_data n3)
         then Inr (n3\<lparr>tl_data := take (unat (size_list l)) (tl_data l) @
                               drop (unat (size_list l)) (tl_data n3)\<rparr>)
         else Inl BadAccess
       else Inr n3))))"

text \<open>What a send does: the multicast of a message to a zero-terminated array of tasks.\<close>

datatype 'd task_list_send = MessageSendMulticastLater "task list" message_id "'d option" u32

definition TaskList_MessageSendLaterWithSize ::
  "nat \<Rightarrow> task_list option \<Rightarrow> message_id \<Rightarrow> 'd option \<Rightarrow> nat \<Rightarrow> u32 \<Rightarrow> 'd task_list_send list res option" where
  "TaskList_MessageSendLaterWithSize fuel list mid data size_data delay =
     (case list of None \<Rightarrow> Some (Inl Panic)
      | Some l \<Rightarrow>
          (case taskList_CreateNullTerminatedTaskArray fuel l of
             None \<Rightarrow> None
           | Some r \<Rightarrow> Some (res_bind r (\<lambda>a. case a of
               Some arr \<Rightarrow>
                 res_bind (panic_unless (size_data = 0 \<longrightarrow> data = None)) (\<lambda>_.
                   Inr [MessageSendMulticastLater arr mid data delay])
             | None \<Rightarrow> Inr []))))"

definition TaskList_MessageSendWithSize ::
  "nat \<Rightarrow> task_list option \<Rightarrow> message_id \<Rightarrow> 'd option \<Rightarrow> nat \<Rightarrow> 'd task_list_send list res option" where
  "TaskList_MessageSendWithSize fuel list mid data size_data =
     TaskList_MessageSendLaterWithSize fuel list mid data size_data 0"

text \<open>
  The macros that send from inside other components, with the fuel for the 15 tasks a list
  can hold.
\<close>

definition TaskList_MessageSend :: "task_list \<Rightarrow> message_id \<Rightarrow> 'd option \<Rightarrow> nat \<Rightarrow> 'd task_list_send list res" where
  "TaskList_MessageSend l mid data size_data =
     (case TaskList_MessageSendWithSize 16 (Some l) mid data size_data of
        None \<Rightarrow> Inl Hang | Some r \<Rightarrow> r)"

definition TaskList_MessageSendId :: "task_list \<Rightarrow> message_id \<Rightarrow> 'd task_list_send list res" where
  "TaskList_MessageSendId l mid = TaskList_MessageSend l mid None 0"

definition TaskList_GetDataForTaskRaw :: "task_list option \<Rightarrow> task \<Rightarrow> nat option res" where
  "TaskList_GetDataForTaskRaw list search_task = res_bind (panic_null list) (\<lambda>l.
     res_bind (TaskList_IsTaskListWithData list) (\<lambda>with_data.
       if with_data then taskList_FindTaskIndex l search_task else Inr None))"

definition TaskList_GetDataForTask :: "task_list option \<Rightarrow> task \<Rightarrow> u64 option option res" where
  "TaskList_GetDataForTask list search_task = res_bind (panic_null list) (\<lambda>l.
     res_bind (TaskList_GetDataForTaskRaw list search_task) (\<lambda>r. case r of
       None \<Rightarrow> Inr None | Some i \<Rightarrow> res_bind (array_get (tl_data l) i) (\<lambda>d. Inr (Some d))))"

definition TaskList_SetDataForTask :: "task_list option \<Rightarrow> task \<Rightarrow> u64 \<Rightarrow> (task_list \<times> bool) res" where
  "TaskList_SetDataForTask list search_task data = res_bind (panic_null list) (\<lambda>l.
     res_bind (TaskList_GetDataForTaskRaw list search_task) (\<lambda>r. case r of
       None \<Rightarrow> Inr (l, False)
     | Some i \<Rightarrow> res_bind (array_set (tl_data l) i (Some data)) (\<lambda>d.
         Inr (l\<lparr>tl_data := d\<rparr>, True))))"

section \<open>The tasks of a list\<close>

fun union_tasks :: "task_union \<Rightarrow> task list" where
  "union_tasks (UTask t) = [t]"
| "union_tasks (UTasks ts) = ts"

definition tasks :: "task_list \<Rightarrow> task list" where
  "tasks l = take (unat (size_list l)) (flexible_tasks l @ union_tasks (u l))"

text \<open>Where the tasks are, by the size of the list and of the flexible array.\<close>

definition tl_placed :: "nat \<Rightarrow> nat \<Rightarrow> task_union \<Rightarrow> bool" where
  "tl_placed n f x \<longleftrightarrow>
     (if n \<le> f then x = UTask 0 else if n = f + 1 then (\<exists>t. x = UTask t)
      else (\<exists>ts. x = UTasks ts \<and> length ts = n - f))"

definition tl_shape :: "task_list \<Rightarrow> bool" where
  "tl_shape l \<longleftrightarrow>
     length (flexible_tasks l) = unat (size_flexible_tasks l) \<and>
     tl_placed (unat (size_list l)) (unat (size_flexible_tasks l)) (u l) \<and>
     (list_type l = TASKLIST_TYPE_WITH_DATA \<longrightarrow> length (tl_data l) = unat (size_list l))"

definition tl_ok :: "task_list \<Rightarrow> bool" where
  "tl_ok l \<longleftrightarrow> tl_shape l \<and> distinct (tasks l) \<and> 0 \<notin> set (tasks l)"

lemma tasks_data [simp]: "tasks (l\<lparr>tl_data := d\<rparr>) = tasks l"
  by (simp add: tasks_def)

lemma length_tasks: "tl_shape l \<Longrightarrow> length (tasks l) = unat (size_list l)"
  by (auto simp: tl_shape_def tl_placed_def tasks_def split: if_splits)

lemma Get_tasks:
  "tl_shape l \<Longrightarrow> i < unat (size_list l) \<Longrightarrow> taskList_GetTaskAtIndex l i = Inr (tasks l ! i)"
  by (auto simp: taskList_GetTaskAtIndex_def tl_shape_def tl_placed_def tasks_def Let_def nth_append
      u_task_def u_tasks_def split: if_splits)

lemma Set_tasks:
  assumes "tl_shape l" and "i < unat (size_list l)"
  obtains l' where "taskList_SetTaskAtIndex l t i = Inr l'" "tl_shape l'" "tasks l' = (tasks l)[i := t]"
    "size_list l' = size_list l" "size_flexible_tasks l' = size_flexible_tasks l"
    "list_type l' = list_type l" "tl_data l' = tl_data l"
proof -
  have sh: "length (flexible_tasks l) = unat (size_flexible_tasks l)"
    "tl_placed (unat (size_list l)) (unat (size_flexible_tasks l)) (u l)"
    using assms(1) by (auto simp: tl_shape_def)
  note defs = taskList_SetTaskAtIndex_def Let_def tasks_def u_tasks_def
  consider "i < unat (size_flexible_tasks l)"
    | "i = unat (size_flexible_tasks l)" "unat (size_list l) = i + 1"
    | ts where "unat (size_flexible_tasks l) \<le> i" "u l = UTasks ts"
        "length ts = unat (size_list l) - unat (size_flexible_tasks l)"
        "unat (size_list l) > unat (size_flexible_tasks l) + 1"
    using sh(2) assms(2) unfolding tl_placed_def
    by (cases "i < unat (size_flexible_tasks l)"; cases "unat (size_list l) = unat (size_flexible_tasks l) + 1")
      (auto split: if_splits)
  then show thesis
  proof cases
    case 1
    show thesis
      by (rule that [of "l\<lparr>flexible_tasks := (flexible_tasks l)[i := t]\<rparr>"])
        (use 1 assms sh in \<open>simp_all add: defs tl_shape_def take_update_swap list_update_append\<close>)
  next
    case 2
    then obtain x where "u l = UTask x" using sh(2) by (auto simp: tl_placed_def)
    then show thesis
      by (intro that [of "l\<lparr>u := UTask t\<rparr>"])
        (use 2 assms sh in \<open>simp_all add: defs tl_shape_def tl_placed_def list_update_append\<close>)
  next
    case 3
    then have "taskList_SetTaskAtIndex l t i =
        Inr (l\<lparr>u := UTasks (ts[i - unat (size_flexible_tasks l) := t])\<rparr>)"
      using assms(2) by (auto simp: defs)
    then show thesis
      by (rule that) (use 3 assms sh in \<open>simp_all add: defs tl_shape_def tl_placed_def list_update_append\<close>)
  qed
qed

text \<open>The two steps of the size the operations use.\<close>

lemma unat_u4_less: "unat (x :: u4) < 16"
  using unsigned_less [of x] by simp

lemma update_u_same [simp]: "l\<lparr>u := u l\<rparr> = l"
  by (cases l) simp

lemma resize_up:
  assumes "tl_shape l" and "n = unat (size_list l)" and "f = unat (size_flexible_tasks l)"
  shows "\<exists>x t. resize_tasks l (n + 1) = Inr (l\<lparr>u := x\<rparr>) \<and> tl_placed (n + 1) f x \<and>
    take (n + 1) (flexible_tasks l @ union_tasks x) = tasks l @ [t]"
proof -
  have sh: "length (flexible_tasks l) = f" "tl_placed n f (u l)"
    using assms by (auto simp: tl_shape_def)
  note defs = resize_tasks_def Let_def assms(2,3) [symmetric] tasks_def u_task_def u_tasks_def
  consider "n < f" | "n = f" | "n = f + 1" | "n > f + 1" by linarith
  then show ?thesis
  proof cases
    case 1
    then have "resize_tasks l (n + 1) = Inr (l\<lparr>u := u l\<rparr>)" by (auto simp: defs)
    moreover have "tl_placed (n + 1) f (u l)" using 1 sh(2) by (auto simp: tl_placed_def)
    moreover have "take (n + 1) (flexible_tasks l @ union_tasks (u l)) = tasks l @ [flexible_tasks l ! n]"
      using 1 sh by (auto simp: defs take_Suc_conv_app_nth)
    ultimately show ?thesis by blast
  next
    case 2
    then have "resize_tasks l (n + 1) = Inr (l\<lparr>u := UTask 0\<rparr>)" by (auto simp: defs)
    moreover have "tl_placed (n + 1) f (UTask 0)" using 2 by (auto simp: tl_placed_def)
    moreover have "take (n + 1) (flexible_tasks l @ union_tasks (UTask 0)) = tasks l @ [0]"
      using 2 sh by (auto simp: defs)
    ultimately show ?thesis by blast
  next
    case 3
    then obtain t where t: "u l = UTask t" using sh(2) by (auto simp: tl_placed_def)
    with 3 have "resize_tasks l (n + 1) = Inr (l\<lparr>u := UTasks [t, 0]\<rparr>)" by (auto simp: defs)
    moreover have "tl_placed (n + 1) f (UTasks [t, 0])" using 3 by (auto simp: tl_placed_def)
    moreover have "take (n + 1) (flexible_tasks l @ union_tasks (UTasks [t, 0])) = tasks l @ [0]"
      using 3 sh t by (auto simp: defs)
    ultimately show ?thesis by blast
  next
    case 4
    then obtain ts where ts: "u l = UTasks ts" "length ts = n - f" using sh(2) by (auto simp: tl_placed_def)
    with 4 have "resize_tasks l (n + 1) = Inr (l\<lparr>u := UTasks (ts @ [0])\<rparr>)"
      by (auto simp: defs realloc_def Suc_diff_le)
    moreover have "tl_placed (n + 1) f (UTasks (ts @ [0]))" using 4 ts by (auto simp: tl_placed_def)
    moreover have "take (n + 1) (flexible_tasks l @ union_tasks (UTasks (ts @ [0]))) = tasks l @ [0]"
      using 4 sh ts by (auto simp: defs Suc_diff_le)
    ultimately show ?thesis by blast
  qed
qed

lemma resize_down:
  assumes "tl_shape l" and "unat (size_list l) = Suc n" and "f = unat (size_flexible_tasks l)"
  shows "\<exists>x. resize_tasks l n = Inr (l\<lparr>u := x\<rparr>) \<and> tl_placed n f x \<and>
    take n (flexible_tasks l @ union_tasks x) = take n (tasks l)"
proof -
  have sh: "length (flexible_tasks l) = f" "tl_placed (Suc n) f (u l)"
    using assms by (auto simp: tl_shape_def)
  note defs = resize_tasks_def Let_def assms(2) assms(3) [symmetric] tasks_def u_task_def u_tasks_def
  consider "n < f" | "n = f" | "n = f + 1" | "n > f + 1" by linarith
  then show ?thesis
  proof cases
    case 1
    then have "resize_tasks l n = Inr (l\<lparr>u := u l\<rparr>)" by (auto simp: defs)
    moreover have "tl_placed n f (u l)" using 1 sh(2) by (auto simp: tl_placed_def)
    moreover have "take n (flexible_tasks l @ union_tasks (u l)) = take n (tasks l)"
      using 1 sh by (auto simp: defs)
    ultimately show ?thesis by blast
  next
    case 2
    then have "resize_tasks l n = Inr (l\<lparr>u := UTask 0\<rparr>)" by (auto simp: defs)
    moreover have "tl_placed n f (UTask 0)" using 2 by (auto simp: tl_placed_def)
    moreover have "take n (flexible_tasks l @ union_tasks (UTask 0)) = take n (tasks l)"
      using 2 sh by (auto simp: defs)
    ultimately show ?thesis by blast
  next
    case 3
    then obtain t t' where ts: "u l = UTasks [t, t']"
      using sh(2) by (auto simp: tl_placed_def length_Suc_conv numeral_2_eq_2)
    with 3 have "resize_tasks l n = Inr (l\<lparr>u := UTask t\<rparr>)" by (auto simp: defs)
    moreover have "tl_placed n f (UTask t)" using 3 by (auto simp: tl_placed_def)
    moreover have "take n (flexible_tasks l @ union_tasks (UTask t)) = take n (tasks l)"
      using 3 sh ts by (auto simp: defs)
    ultimately show ?thesis by blast
  next
    case 4
    then obtain ts where ts: "u l = UTasks ts" "length ts = Suc n - f" using sh(2) by (auto simp: tl_placed_def)
    with 4 have "resize_tasks l n = Inr (l\<lparr>u := UTasks (take (n - f) ts)\<rparr>)"
      by (auto simp: defs realloc_def)
    moreover have "tl_placed n f (UTasks (take (n - f) ts))" using 4 ts by (auto simp: tl_placed_def)
    moreover have "take n (flexible_tasks l @ union_tasks (UTasks (take (n - f) ts))) = take n (tasks l)"
      using 4 sh ts by (auto simp: defs)
    ultimately show ?thesis by blast
  qed
qed

lemma Resize_placed:
  assumes "tl_shape l" and "resize_tasks l m = Inr (l\<lparr>u := x\<rparr>)" and "m < 16"
    and "tl_placed m (unat (size_flexible_tasks l)) x"
  obtains l' where "taskList_Resize l m = Inr l'" "tl_shape l'"
    "tasks l' = take m (flexible_tasks l @ union_tasks x)" "unat (size_list l') = m"
    "size_flexible_tasks l' = size_flexible_tasks l" "list_type l' = list_type l"
    "tl_data l' = (if list_type l = TASKLIST_TYPE_WITH_DATA then realloc m None (tl_data l) else tl_data l)"
proof -
  have w: "unat (word_of_nat m :: u4) = m" using assms(3) by (intro unat_of_nat_small) simp
  let ?l = "l\<lparr>u := x, tl_data := (if list_type l = TASKLIST_TYPE_WITH_DATA
      then realloc m None (tl_data l) else tl_data l), size_list := word_of_nat m\<rparr>"
  have "l\<lparr>u := x, tl_data := tl_data l\<rparr> = l\<lparr>u := x\<rparr>" by (cases l) simp
  then show thesis
    by (intro that [of ?l]) (use assms w in \<open>auto simp: taskList_Resize_def Let_def tl_shape_def tasks_def realloc_def\<close>)
qed

lemma Resize_grow:
  assumes "tl_shape l" and "unat (size_list l) < 15"
  obtains l' t where "taskList_Resize l (unat (size_list l) + 1) = Inr l'" "tl_shape l'"
    "tasks l' = tasks l @ [t]" "unat (size_list l') = unat (size_list l) + 1"
    "size_flexible_tasks l' = size_flexible_tasks l" "list_type l' = list_type l"
    "tl_data l' = (if list_type l = TASKLIST_TYPE_WITH_DATA then tl_data l @ [None] else tl_data l)"
proof -
  let ?n = "unat (size_list l)"
  obtain x t where x: "resize_tasks l (?n + 1) = Inr (l\<lparr>u := x\<rparr>)"
      "tl_placed (?n + 1) (unat (size_flexible_tasks l)) x"
      "take (?n + 1) (flexible_tasks l @ union_tasks x) = tasks l @ [t]"
    using resize_up [OF assms(1) refl refl] by blast
  have "?n + 1 < 16" using assms(2) by simp
  have d: "list_type l = TASKLIST_TYPE_WITH_DATA \<Longrightarrow> realloc (?n + 1) None (tl_data l) = tl_data l @ [None]"
    using assms(1) by (simp add: realloc_def tl_shape_def)
  from Resize_placed [OF assms(1) x(1) \<open>?n + 1 < 16\<close> x(2)] show thesis
    using that d x(3) by (metis (no_types, lifting))
qed

lemma Resize_shrink:
  assumes "tl_shape l" and "unat (size_list l) = Suc n"
  obtains l' where "taskList_Resize l n = Inr l'" "tl_shape l'"
    "tasks l' = take n (tasks l)" "unat (size_list l') = n"
    "size_flexible_tasks l' = size_flexible_tasks l" "list_type l' = list_type l"
    "tl_data l' = (if list_type l = TASKLIST_TYPE_WITH_DATA then take n (tl_data l) else tl_data l)"
proof -
  obtain x where x: "resize_tasks l n = Inr (l\<lparr>u := x\<rparr>)"
      "tl_placed n (unat (size_flexible_tasks l)) x"
      "take n (flexible_tasks l @ union_tasks x) = take n (tasks l)"
    using resize_down [OF assms refl] by blast
  have "n < 16" using assms(2) unat_u4_less [of "size_list l"] by linarith
  have d: "list_type l = TASKLIST_TYPE_WITH_DATA \<Longrightarrow> realloc n None (tl_data l) = take n (tl_data l)"
    using assms by (simp add: realloc_def tl_shape_def)
  from Resize_placed [OF assms(1) x(1) \<open>n < 16\<close> x(2)] show thesis
    using that d x(3) by (metis (no_types, lifting))
qed

section \<open>Operations on the tasks\<close>

lemma find_last_upt:
  assumes "k \<le> length ts" and "\<And>i. i < k \<Longrightarrow> get i = Inr (ts ! i)"
  shows "for_res (\<lambda>i r. res_bind (get i) (\<lambda>t. Inr (if t = x then Some i else r))) [0..<k] None =
    Inr (find_last_index (\<lambda>t. t = x) (take k ts))"
  using assms
proof (induction k)
  case 0
  show ?case by simp
next
  case (Suc k)
  have snoc: "find_last_index P (xs @ [y]) = (if P y then Some (length xs) else find_last_index P xs)"
    for P and xs :: "'a list" and y
    by (induction xs) auto
  from Suc show ?case by (simp add: for_res_append take_Suc_conv_app_nth snoc)
qed

lemma Find_tasks:
  assumes "tl_shape l"
  shows "taskList_FindTaskIndex l t = Inr (find_last_index (\<lambda>x. x = t) (tasks l))"
proof -
  have "for_res (\<lambda>iter r. res_bind (taskList_GetTaskAtIndex l iter) (\<lambda>x. Inr (if x = t then Some iter else r)))
      [0..<unat (size_list l)] None = Inr (find_last_index (\<lambda>x. x = t) (take (unat (size_list l)) (tasks l)))"
    using assms by (intro find_last_upt) (auto simp: length_tasks Get_tasks)
  then show ?thesis by (simp add: taskList_FindTaskIndex_def length_tasks [OF assms, symmetric])
qed

lemma Find_ok:
  assumes "tl_ok l"
  shows "t \<notin> set (tasks l) \<Longrightarrow> taskList_FindTaskIndex l t = Inr None"
    and "i < length (tasks l) \<Longrightarrow> taskList_FindTaskIndex l (tasks l ! i) = Inr (Some i)"
  using assms Find_tasks [of l] find_last_index_None_iff [of "\<lambda>x. x = t" "tasks l"]
    find_last_index_eq_unique [of "tasks l" i]
  by (auto simp: tl_ok_def)

lemma IsTaskOnList_ok: "tl_ok l \<Longrightarrow> TaskList_IsTaskOnList (Some l) t = Inr (t \<in> set (tasks l))"
  using find_last_index_None_iff [of "\<lambda>x. x = t" "tasks l"]
  by (auto simp: TaskList_IsTaskOnList_def Find_tasks tl_ok_def)

lemma AddTask_new:
  assumes "tl_ok l" and "t \<noteq> 0" and "t \<notin> set (tasks l)" and "length (tasks l) < 15"
  obtains l' where "TaskList_AddTask (Some l) t = Inr (l', True)" "tl_ok l'" "tasks l' = tasks l @ [t]"
    "list_type l' = list_type l"
    "tl_data l' = (if list_type l = TASKLIST_TYPE_WITH_DATA then tl_data l @ [None] else tl_data l)"
proof -
  have sh: "tl_shape l" using assms(1) by (simp add: tl_ok_def)
  then have n: "unat (size_list l) < 15" using assms(4) by (simp add: length_tasks)
  from Resize_grow [OF sh n] obtain l1 x where l1: "taskList_Resize l (unat (size_list l) + 1) = Inr l1"
      "tl_shape l1" "tasks l1 = tasks l @ [x]" "unat (size_list l1) = unat (size_list l) + 1"
      "list_type l1 = list_type l"
      "tl_data l1 = (if list_type l = TASKLIST_TYPE_WITH_DATA then tl_data l @ [None] else tl_data l)"
    by metis
  have i: "unat (size_list l) < unat (size_list l1)" using l1(4) by simp
  obtain l2 where l2: "taskList_SetTaskAtIndex l1 t (unat (size_list l)) = Inr l2" "tl_shape l2"
      "tasks l2 = (tasks l1)[unat (size_list l) := t]" "list_type l2 = list_type l1"
      "tl_data l2 = tl_data l1"
    by (rule Set_tasks [OF l1(2) i])
  have ts: "tasks l2 = tasks l @ [t]"
    using l2(3) l1(3) length_tasks [OF sh] by (simp add: list_update_append)
  have idx: "uint16_pred (unat (size_list l1)) = unat (size_list l)"
    using l1(4) by (simp add: uint16_pred_def)
  have "tl_ok l2" using assms(1-3) l2(2) ts by (simp add: tl_ok_def)
  moreover have "TaskList_AddTask (Some l) t = Inr (l2, True)"
    using assms(1-3) l1(1) l2(1) idx by (simp add: TaskList_AddTask_def IsTaskOnList_ok)
  ultimately show thesis using that ts l2(4,5) l1(5,6) by metis
qed

lemma AddTask_old:
  "tl_ok l \<Longrightarrow> t \<noteq> 0 \<Longrightarrow> t \<in> set (tasks l) \<Longrightarrow> TaskList_AddTask (Some l) t = Inr (l, False)"
  by (simp add: TaskList_AddTask_def IsTaskOnList_ok)

text \<open>The shift that closes the gap of a removed task.\<close>

definition shifted :: "nat \<Rightarrow> nat \<Rightarrow> 'a list \<Rightarrow> 'a list" where
  "shifted a b ts = take a ts @ take (b - a) (drop (a + 1) ts) @ drop b ts"

lemma length_shifted: "a \<le> b \<Longrightarrow> b < length ts \<Longrightarrow> length (shifted a b ts) = length ts"
  by (simp add: shifted_def)

lemma nth_shifted:
  "a \<le> b \<Longrightarrow> b < length ts \<Longrightarrow> i < length ts \<Longrightarrow>
   shifted a b ts ! i = (if a \<le> i \<and> i < b then ts ! Suc i else ts ! i)"
  by (auto simp: shifted_def nth_append)

lemma shifted_Suc:
  assumes "a \<le> b" and "Suc b < length ts"
  shows "(shifted a b ts)[b := ts ! Suc b] = shifted a (Suc b) ts"
  by (rule nth_equalityI) (use assms in \<open>auto simp: length_shifted nth_shifted nth_list_update less_Suc_eq\<close>)

lemma shift_loop:
  assumes "tl_shape l" and "a \<le> b" and "b < unat (size_list l)"
  shows "\<exists>l'. for_res (\<lambda>iter l. res_bind (taskList_GetTaskAtIndex l (iter + 1)) (\<lambda>next_task.
        taskList_SetTaskAtIndex l next_task iter)) [a..<b] l = Inr l' \<and> tl_shape l' \<and>
    tasks l' = shifted a b (tasks l) \<and> size_list l' = size_list l \<and> list_type l' = list_type l \<and>
    tl_data l' = tl_data l"
  using assms(2,3)
proof (induction rule: dec_induct)
  case base
  show ?case using assms(1) by (simp add: shifted_def Cons_nth_drop_Suc)
next
  case (step b)
  then obtain l1 where l1: "for_res (\<lambda>iter l. res_bind (taskList_GetTaskAtIndex l (iter + 1)) (\<lambda>next_task.
        taskList_SetTaskAtIndex l next_task iter)) [a..<b] l = Inr l1" "tl_shape l1"
      "tasks l1 = shifted a b (tasks l)" "size_list l1 = size_list l" "list_type l1 = list_type l"
      "tl_data l1 = tl_data l"
    by auto
  have b: "b < unat (size_list l1)" "Suc b < unat (size_list l1)" "Suc b < length (tasks l)"
    using step.prems l1(4) assms(1) by (auto simp: length_tasks)
  have "tasks l1 ! Suc b = tasks l ! Suc b" using l1(3) nth_shifted [OF step.hyps(1), of "tasks l" "Suc b"] b(3) by simp
  then have g: "taskList_GetTaskAtIndex l1 (b + 1) = Inr (tasks l ! Suc b)"
    using Get_tasks [OF l1(2) b(2)] by simp
  obtain l2 where "taskList_SetTaskAtIndex l1 (tasks l ! Suc b) b = Inr l2" "tl_shape l2"
      "tasks l2 = (tasks l1)[b := tasks l ! Suc b]" "size_list l2 = size_list l1"
      "list_type l2 = list_type l1" "tl_data l2 = tl_data l1"
    by (rule Set_tasks [OF l1(2) b(1)])
  with l1 g shifted_Suc [OF step.hyps(1) b(3)] step.hyps(1) show ?case
    by (simp add: for_res_append)
qed

lemma take_shifted: "i < length ts \<Longrightarrow> take (length ts - 1) (shifted i (length ts - 1) ts) = remove_at i ts"
  by (cases "i = length ts - 1") (auto simp: shifted_def remove_at_def min_def)

lemma remove_at_remove1: "distinct ts \<Longrightarrow> i < length ts \<Longrightarrow> remove_at i ts = remove1 (ts ! i) ts"
proof (induction ts arbitrary: i)
  case (Cons t ts)
  then show ?case by (cases i) (auto simp: remove_at_def)
qed simp

text \<open>
  Removal: the tasks behind the removed one move down, and so do their data. The data of
  the tasks that stay are kept.
\<close>

lemma RemoveTask_at:
  assumes "tl_ok l" and "i < length (tasks l)"
  obtains l' where "TaskList_RemoveTask (Some l) (tasks l ! i) = Inr (l', True)" "tl_ok l'"
    "tasks l' = remove_at i (tasks l)" "list_type l' = list_type l"
    "tl_data l' = (if list_type l = TASKLIST_TYPE_WITH_DATA then remove_at i (tl_data l) else tl_data l)"
proof -
  have sh: "tl_shape l" and dist: "distinct (tasks l)" using assms(1) by (auto simp: tl_ok_def)
  note n = length_tasks [OF sh]
  have nz: "tasks l ! i \<noteq> 0" using assms(1) nth_mem [OF assms(2)] by (metis tl_ok_def)
  have le: "i \<le> unat (size_list l) - 1" "unat (size_list l) - 1 < unat (size_list l)"
    using assms(2) n by auto
  obtain l1 where l1: "for_res (\<lambda>iter l. res_bind (taskList_GetTaskAtIndex l (iter + 1)) (\<lambda>next_task.
        taskList_SetTaskAtIndex l next_task iter)) [i..<unat (size_list l) - 1] l = Inr l1" "tl_shape l1"
      "tasks l1 = shifted i (unat (size_list l) - 1) (tasks l)" "size_list l1 = size_list l"
      "list_type l1 = list_type l" "tl_data l1 = tl_data l"
    using shift_loop [OF sh le] by blast
  let ?d = "if list_type l = TASKLIST_TYPE_WITH_DATA then shifted i (unat (size_list l) - 1) (tl_data l)
            else tl_data l"
  have lenD: "list_type l = TASKLIST_TYPE_WITH_DATA \<Longrightarrow> length (tl_data l) = unat (size_list l)"
    using sh by (simp add: tl_shape_def)
  have mm: "list_type l = TASKLIST_TYPE_WITH_DATA \<Longrightarrow>
      memmove_down (unat (size_list l)) i (tl_data l) = Inr ?d"
    using lenD by (simp add: memmove_down_def shifted_def)
  have data: "(if list_type l1 = TASKLIST_TYPE_WITH_DATA then
        res_bind (memmove_down (unat (size_list l1)) i (tl_data l1)) (\<lambda>d. Inr (l1\<lparr>tl_data := d\<rparr>))
      else Inr l1) = Inr (l1\<lparr>tl_data := ?d\<rparr>)"
    using mm l1(4-6) by (cases l1) auto
  have sh2: "tl_shape (l1\<lparr>tl_data := ?d\<rparr>)"
    using l1 lenD assms(2) n by (auto simp: tl_shape_def length_shifted)
  have pos: "unat (size_list (l1\<lparr>tl_data := ?d\<rparr>)) = Suc (length (tasks l) - 1)"
    using assms(2) n l1(4) by simp
  obtain l3 where l3: "taskList_Resize (l1\<lparr>tl_data := ?d\<rparr>) (length (tasks l) - 1) = Inr l3" "tl_shape l3"
      "tasks l3 = take (length (tasks l) - 1) (tasks (l1\<lparr>tl_data := ?d\<rparr>))"
      "list_type l3 = list_type (l1\<lparr>tl_data := ?d\<rparr>)"
      "tl_data l3 = (if list_type (l1\<lparr>tl_data := ?d\<rparr>) = TASKLIST_TYPE_WITH_DATA
         then take (length (tasks l) - 1) (tl_data (l1\<lparr>tl_data := ?d\<rparr>)) else tl_data (l1\<lparr>tl_data := ?d\<rparr>))"
    by (rule Resize_shrink [OF sh2 pos])
  have ts: "tasks l3 = remove_at i (tasks l)"
    using l3(3) l1(3) n take_shifted [OF assms(2)] by simp
  have "tl_ok l3"
    using l3(2) ts mset_set_remove_at [OF assms(2) dist] assms(1) by (simp add: tl_ok_def)
  moreover have "TaskList_RemoveTask (Some l) (tasks l ! i) = Inr (l3, True)"
    using Find_ok(2) [OF assms] nz l1(1) data l3(1) l1(4) n
    by (simp add: TaskList_RemoveTask_def)
  moreover have "tl_data l3 = (if list_type l = TASKLIST_TYPE_WITH_DATA then remove_at i (tl_data l) else tl_data l)"
    using l3(5) l1(5) lenD n take_shifted [of i "tl_data l"] assms(2) by (auto simp: l1(6))
  ultimately show thesis using that ts l3(4) l1(5) by simp
qed

lemma RemoveTask_absent:
  "tl_ok l \<Longrightarrow> t \<noteq> 0 \<Longrightarrow> t \<notin> set (tasks l) \<Longrightarrow> TaskList_RemoveTask (Some l) t = Inr (l, False)"
  using Find_ok(1) by (simp add: TaskList_RemoveTask_def)

section \<open>Iteration and multicast\<close>

lemma size_zero_iff: "tl_shape l \<Longrightarrow> size_list l = 0 \<longleftrightarrow> tasks l = []"
  using length_tasks [of l] by (auto simp: unat_eq_0)

lemma iterate_first: "tl_ok l \<Longrightarrow> tasks l \<noteq> [] \<Longrightarrow> iterateIndex (Some l) 0 = Inr (tasks l ! 0, Some 0)"
  using length_tasks [of l] Get_tasks [of l 0] length_greater_0_conv [of "tasks l"]
  by (auto simp: iterateIndex_def tl_ok_def size_zero_iff)

lemma iterate_next:
  assumes "tl_ok l" and "i < length (tasks l)"
  shows "iterateIndex (Some l) (tasks l ! i) =
    Inr (if Suc i < length (tasks l) then (tasks l ! Suc i, Some (Suc i)) else (tasks l ! i, None))"
proof -
  have sh: "tl_shape l" and "tasks l ! i \<noteq> 0"
    using assms(1) nth_mem [OF assms(2)] by (metis tl_ok_def)+
  moreover have "size_list l \<noteq> 0" using assms(2) size_zero_iff [OF sh] by auto
  ultimately show ?thesis
    using Find_ok(2) [OF assms] length_tasks [OF sh] Get_tasks [OF sh, of "Suc i"]
    by (simp add: iterateIndex_def)
qed

lemma array_loop_fills:
  assumes "tl_ok l" and "i < length (tasks l)" and "length (tasks l) - i < fuel + 1"
    and "length arr = Suc (length (tasks l))" and "0 < fuel"
  shows "array_loop fuel l (tasks l ! i) i arr =
    Some (Inr (take (Suc i) arr @ drop (Suc i) (tasks l) @ [last arr], length (tasks l) - 1))"
  using assms(2-5)
proof (induction fuel arbitrary: i arr)
  case 0
  then show ?case by simp
next
  case (Suc fuel)
  note it = iterate_next [OF assms(1) Suc.prems(1)]
  show ?case
  proof (cases "Suc i < length (tasks l)")
    case True
    have "array_loop fuel l (tasks l ! Suc i) (Suc i) (arr[Suc i := tasks l ! Suc i]) =
        Some (Inr (take (Suc (Suc i)) (arr[Suc i := tasks l ! Suc i]) @ drop (Suc (Suc i)) (tasks l) @
          [last (arr[Suc i := tasks l ! Suc i])], length (tasks l) - 1))"
      using Suc.prems True by (intro Suc.IH) auto
    moreover have "take (Suc (Suc i)) (arr[Suc i := tasks l ! Suc i]) = take (Suc i) arr @ [tasks l ! Suc i]"
      using Suc.prems True by (simp add: take_Suc_conv_app_nth)
    moreover have "last (arr[Suc i := tasks l ! Suc i]) = last arr"
      using Suc.prems True by (subst (1 2) last_conv_nth) auto
    ultimately show ?thesis
      using it True Suc.prems by (simp add: Cons_nth_drop_Suc)
  next
    case False
    then have "length (tasks l) = Suc i" using Suc.prems(1) by simp
    moreover have "take (Suc i) arr @ [last arr] = arr"
      using Suc.prems(3) calculation by (metis append_butlast_last_id butlast_conv_take diff_Suc_1
          length_0_conv nat.simps(3))
    ultimately show ?thesis using it by simp
  qed
qed

lemma null_terminated_array:
  assumes "tl_ok l" and "length (tasks l) < fuel"
  shows "taskList_CreateNullTerminatedTaskArray fuel l =
    Some (Inr (if tasks l = [] then None else Some (tasks l @ [0])))"
proof (cases "tasks l = []")
  case True
  then show ?thesis
    using assms(1) size_zero_iff [of l] by (simp add: taskList_CreateNullTerminatedTaskArray_def tl_ok_def)
next
  case False
  define n where "n = length (tasks l)"
  have n: "unat (size_list l) = n" "size_list l \<noteq> 0" "0 < n"
    using assms(1) False length_tasks [of l] size_zero_iff [of l] length_greater_0_conv [of "tasks l"]
    by (auto simp: n_def tl_ok_def simp del: length_greater_0_conv)
  obtain k where k: "fuel = Suc k" "0 < k" using assms(2) n(3) by (cases fuel) (auto simp: n_def)
  let ?a = "(replicate (Suc n) 0)[0 := tasks l ! 0]"
  have "array_loop k l (tasks l ! 0) 0 ?a =
      Some (Inr (take (Suc 0) ?a @ drop (Suc 0) (tasks l) @ [last ?a], length (tasks l) - 1))"
    using assms n(3) k by (intro array_loop_fills) (auto simp: n_def)
  moreover have "take (Suc 0) ?a @ drop (Suc 0) (tasks l) = tasks l"
    using False by (cases "tasks l") auto
  moreover have "last ?a = 0" using n(3) by (cases n) auto
  ultimately have "array_loop fuel l 0 0 (replicate (Suc n) 0) = Some (Inr (tasks l @ [0], n - 1))"
    using iterate_first [OF assms(1) False] k(1) by (simp add: n_def)
  with n False show ?thesis
    by (simp add: taskList_CreateNullTerminatedTaskArray_def list_update_append n_def)
qed

lemma length_tasks_less: "tl_ok l \<Longrightarrow> length (tasks l) < 16"
  using length_tasks [of l] unat_u4_less [of "size_list l"] by (simp add: tl_ok_def)

lemma MessageSend_ok:
  assumes "tl_ok l" and "size_data = 0 \<Longrightarrow> data = None"
  shows "TaskList_MessageSend l mid data size_data =
    Inr (if tasks l = [] then [] else [MessageSendMulticastLater (tasks l @ [0]) mid data 0])"
  using null_terminated_array [OF assms(1) length_tasks_less [OF assms(1)]] assms(2)
  by (auto simp: TaskList_MessageSend_def TaskList_MessageSendWithSize_def
      TaskList_MessageSendLaterWithSize_def)

lemma MessageSendId_ok:
  "tl_ok l \<Longrightarrow> TaskList_MessageSendId l mid =
    Inr (if tasks l = [] then [] else [MessageSendMulticastLater (tasks l @ [0]) mid None 0])"
  by (simp add: TaskList_MessageSendId_def MessageSend_ok)

section \<open>The interface of a client registry\<close>

text \<open>
  What the components that keep a list of client tasks rely on: registering appends a task
  that is not yet there, unregistering removes it, and both say whether they changed
  anything. The abstract registry is a list without repetitions.
\<close>

datatype 't registry_op = Register 't | Unregister 't

fun registry_step :: "'t list \<Rightarrow> 't registry_op \<Rightarrow> 't list" where
  "registry_step ts (Register t) = (if t \<in> set ts then ts else ts @ [t])"
| "registry_step ts (Unregister t) = remove1 t ts"

fun op_task :: "'t registry_op \<Rightarrow> 't" where
  "op_task (Register t) = t"
| "op_task (Unregister t) = t"

fun within :: "nat \<Rightarrow> 't list \<Rightarrow> 't registry_op list \<Rightarrow> bool" where
  "within cap ts [] = True"
| "within cap ts (x # xs) = (length (registry_step ts x) \<le> cap \<and> within cap (registry_step ts x) xs)"

locale task_registry =
  fixes members :: "'s \<Rightarrow> 't list"
    and add :: "'s \<Rightarrow> 't \<Rightarrow> ('s \<times> bool) res"
    and remove :: "'s \<Rightarrow> 't \<Rightarrow> ('s \<times> bool) res"
    and ok :: "'s \<Rightarrow> bool" and valid :: "'t \<Rightarrow> bool" and cap :: nat
  assumes add_new: "ok s \<Longrightarrow> valid t \<Longrightarrow> t \<notin> set (members s) \<Longrightarrow> length (members s) < cap \<Longrightarrow>
      \<exists>s'. add s t = Inr (s', True) \<and> ok s' \<and> members s' = members s @ [t]"
    and add_old: "ok s \<Longrightarrow> valid t \<Longrightarrow> t \<in> set (members s) \<Longrightarrow> add s t = Inr (s, False)"
    and remove_in: "ok s \<Longrightarrow> valid t \<Longrightarrow> t \<in> set (members s) \<Longrightarrow>
      \<exists>s'. remove s t = Inr (s', True) \<and> ok s' \<and> members s' = remove1 t (members s)"
    and remove_out: "ok s \<Longrightarrow> valid t \<Longrightarrow> t \<notin> set (members s) \<Longrightarrow> remove s t = Inr (s, False)"
begin

lemma step_refines:
  assumes "ok s" and "valid (op_task x)" and "length (registry_step (members s) x) \<le> cap"
  shows "\<exists>s' b. (case x of Register t \<Rightarrow> add s t | Unregister t \<Rightarrow> remove s t) = Inr (s', b) \<and> ok s' \<and>
    members s' = registry_step (members s) x \<and> (b \<longleftrightarrow> registry_step (members s) x \<noteq> members s)"
proof (cases x)
  case (Register t)
  show ?thesis
  proof (cases "t \<in> set (members s)")
    case True
    with assms Register add_old [of s t] show ?thesis by (auto intro: exI [of _ False])
  next
    case False
    with assms Register add_new [of s t] show ?thesis by fastforce
  qed
next
  case (Unregister t)
  show ?thesis
  proof (cases "t \<in> set (members s)")
    case True
    then have "remove1 t (members s) \<noteq> members s"
      by (metis length_remove1 length_pos_if_in_set diff_less less_irrefl zero_less_one)
    with True assms Unregister remove_in [of s t] show ?thesis by fastforce
  next
    case False
    with assms Unregister remove_out [of s t] show ?thesis
      by (auto simp: remove1_idem intro: exI [of _ False])
  qed
qed

lemma run_refines:
  assumes "ok s" and "\<forall>x \<in> set xs. valid (op_task x)" and "within cap (members s) xs"
  shows "\<exists>s'. for_res (\<lambda>x s. res_bind (case x of Register t \<Rightarrow> add s t | Unregister t \<Rightarrow> remove s t)
      (\<lambda>(s', _). Inr s')) xs s = Inr s' \<and> ok s' \<and> members s' = foldl registry_step (members s) xs"
  using assms
proof (induction xs arbitrary: s)
  case Nil
  then show ?case by simp
next
  case (Cons x xs)
  then have "ok s" "valid (op_task x)" "length (registry_step (members s) x) \<le> cap" by simp_all
  from step_refines [OF this] obtain s1 b where
    s1: "(case x of Register t \<Rightarrow> add s t | Unregister t \<Rightarrow> remove s t) = Inr (s1, b)" "ok s1"
      "members s1 = registry_step (members s) x"
    by blast
  with Cons.IH [of s1] Cons.prems show ?case by simp
qed

end

interpretation tl: task_registry tasks "\<lambda>l. TaskList_AddTask (Some l)" "\<lambda>l. TaskList_RemoveTask (Some l)"
  tl_ok "\<lambda>t. t \<noteq> 0" 15
proof unfold_locales
  fix l and t :: task
  assume "tl_ok l" "t \<noteq> 0" "t \<notin> set (tasks l)" "length (tasks l) < 15"
  then show "\<exists>l'. TaskList_AddTask (Some l) t = Inr (l', True) \<and> tl_ok l' \<and> tasks l' = tasks l @ [t]"
    by (metis AddTask_new)
next
  fix l and t :: task
  assume "tl_ok l" "t \<noteq> 0" "t \<in> set (tasks l)"
  then show "TaskList_AddTask (Some l) t = Inr (l, False)" by (rule AddTask_old)
next
  fix l and t :: task
  assume a: "tl_ok l" "t \<noteq> 0" "t \<in> set (tasks l)"
  then obtain i where "i < length (tasks l)" "t = tasks l ! i" by (metis in_set_conv_nth)
  with a(1) remove_at_remove1 [of "tasks l" i] show
    "\<exists>l'. TaskList_RemoveTask (Some l) t = Inr (l', True) \<and> tl_ok l' \<and> tasks l' = remove1 t (tasks l)"
    by (metis RemoveTask_at tl_ok_def)
next
  fix l and t :: task
  assume "tl_ok l" "t \<noteq> 0" "t \<notin> set (tasks l)"
  then show "TaskList_RemoveTask (Some l) t = Inr (l, False)" by (rule RemoveTask_absent)
qed

section \<open>Properties\<close>

lemma Create_ok:
  assumes "capacity \<le> 15"
  obtains l where "TaskList_CreateWithCapacity capacity = Inr l" "tl_ok l" "tasks l = []"
proof -
  define c where "c = (if capacity = 0 then 1 else capacity)"
  have w: "unat (word_of_nat (c - 1) :: u4) = c - 1" using assms by (intro unat_of_nat_small) (auto simp: c_def)
  have c: "TaskList_CreateWithCapacity capacity = Inr \<lparr>size_list = 0, size_flexible_tasks = word_of_nat (c - 1),
      list_type = TASKLIST_TYPE_STANDARD, no_destroy = False, u = UTask 0,
      flexible_tasks = replicate (c - 1) 0, tl_data = []\<rparr>"
    using assms
    by (simp add: TaskList_CreateWithCapacity_def TaskList_InitialiseWithCapacity_def c_def [symmetric])
      (simp add: c_def)
  show thesis
    by (rule that [OF c]) (use w in \<open>simp_all add: tl_ok_def tl_shape_def tl_placed_def tasks_def\<close>)
qed



text \<open>
  C29. Notification reaches every client once: a send over a well-formed list terminates and
  issues one multicast to the zero-terminated array of exactly its tasks, in order; over an
  empty list nothing is sent. A message without size must have no body.
\<close>

theorem task_list_multicast:
  assumes "tl_ok l" and "length (tasks l) < fuel" and "size_data = 0 \<longrightarrow> data = None"
  shows "TaskList_MessageSendLaterWithSize fuel (Some l) mid data size_data delay =
    Some (Inr (if tasks l = [] then []
               else [MessageSendMulticastLater (tasks l @ [0]) mid data delay]))"
  using null_terminated_array [OF assms(1,2)] assms(3)
  by (auto simp: TaskList_MessageSendLaterWithSize_def)

definition example_list :: task_list where
  "example_list = \<lparr>size_list = 3, size_flexible_tasks = 1, list_type = TASKLIST_TYPE_STANDARD,
     no_destroy = False, u = UTasks [6, 7], flexible_tasks = [5], tl_data = []\<rparr>"

lemma example_list_ok: "tl_ok example_list" "tasks example_list = [5, 6, 7]"
  by (simp_all add: example_list_def tl_ok_def tl_shape_def tl_placed_def tasks_def)

theorem task_list_multicast_witness:
  "TaskList_MessageSendLaterWithSize 16 (Some example_list) 9 (Some ''x'') 1 0 =
     Some (Inr [MessageSendMulticastLater [5, 6, 7, 0] 9 (Some ''x'') 0])"
  using task_list_multicast [of example_list 16 1 "Some ''x''" 9 0] by (simp add: example_list_ok)

text \<open>
  The limit of 15 tasks is not enforced: adding a task to a well-formed list that is
  full wraps the 4-bit size to zero and stores the task far outside the allocated array.
\<close>

theorem task_list_sixteenth_task:
  assumes "tl_ok l" and "length (tasks l) = 15" and "t \<noteq> 0" and "t \<notin> set (tasks l)"
  shows "\<exists>l1. taskList_Resize l 16 = Inr l1 \<and> size_list l1 = 0 \<and>
    TaskList_AddTask (Some l) t = Inl BadAccess"
proof -
  have sh: "tl_shape l" using assms(1) by (simp add: tl_ok_def)
  have n: "unat (size_list l) = 15" using length_tasks [OF sh] assms(2) by simp
  obtain x where x: "resize_tasks l 16 = Inr (l\<lparr>u := x\<rparr>)" "tl_placed 16 (unat (size_flexible_tasks l)) x"
    using resize_up [OF sh refl refl] n by auto
  obtain l1 where l1: "taskList_Resize l 16 = Inr l1" "size_list l1 = 0"
      "u l1 = x" "size_flexible_tasks l1 = size_flexible_tasks l"
    using x(1) by (auto simp: taskList_Resize_def Let_def)
  have f: "unat (size_flexible_tasks l) < 16" by (rule unat_u4_less)
  have "u_tasks x = Inl BadAccess \<or> (\<exists>ts. u_tasks x = Inr ts \<and> length ts \<le> 16)"
    using x(2) by (auto simp: tl_placed_def u_tasks_def split: if_splits)
  then have "taskList_SetTaskAtIndex l1 t 65535 = Inl BadAccess"
    using f l1(3,4) by (auto simp: taskList_SetTaskAtIndex_def Let_def array_set_def)
  with l1(1,2) n assms(1,3,4) show ?thesis
    by (simp add: TaskList_AddTask_def IsTaskOnList_ok uint16_pred_def)
qed

definition full_list :: task_list where
  "full_list = \<lparr>size_list = 15, size_flexible_tasks = 0, list_type = TASKLIST_TYPE_STANDARD,
     no_destroy = False, u = UTasks [1..<16], flexible_tasks = [], tl_data = []\<rparr>"

theorem task_list_sixteenth_task_witness:
  "TaskList_AddTask (Some full_list) 99 = Inl BadAccess"
proof -
  have t: "tasks full_list = [1..<16]" by (simp add: full_list_def tasks_def)
  have "tl_ok full_list" unfolding tl_ok_def t by (simp add: full_list_def tl_shape_def tl_placed_def)
  with task_list_sixteenth_task [of full_list 99] t show ?thesis by auto
qed

text \<open>
  Duplicating a list whose flexible array is full writes behind the copy: the copy is
  created with one slot less than the flexible array of the original and then given the
  original's sizes.
\<close>

theorem task_list_duplicate_overflow:
  assumes "tl_ok l" and "list_type l = TASKLIST_TYPE_STANDARD"
    and "0 < size_flexible_tasks l" and "unat (size_flexible_tasks l) \<le> length (tasks l)"
  shows "TaskList_Duplicate (Some l) = Inl BadAccess"
proof -
  let ?f = "unat (size_flexible_tasks l)" and ?n = "unat (size_list l)"
  have sh: "tl_shape l" using assms(1) by (simp add: tl_ok_def)
  have f: "0 < ?f" "?f < 16" "?f \<le> ?n" "?n < 16"
    using assms(3,4) length_tasks [OF sh] unat_u4_less by (auto simp: word_less_nat_alt)
  let ?copy = "\<lparr>size_list = size_list l, size_flexible_tasks = size_flexible_tasks l,
      list_type = TASKLIST_TYPE_STANDARD, no_destroy = False, u = UTask 0,
      flexible_tasks = replicate (?f - 1) 0, tl_data = []\<rparr>"
  let ?P = "\<lambda>c :: task_list. size_flexible_tasks c = size_flexible_tasks l \<and> length (flexible_tasks c) = ?f - 1"
  have "\<exists>c. taskList_Resize ?copy ?n = Inr c \<and> ?P c"
    by (cases "?n = ?f + 1"; cases "?f + 1 < ?n")
      (simp_all add: taskList_Resize_def resize_tasks_def Let_def u_tasks_def)
  then obtain c where c: "taskList_Resize ?copy ?n = Inr c" "?P c" by blast
  let ?body = "\<lambda>index n. res_bind (taskList_GetTaskAtIndex l index) (\<lambda>t. taskList_SetTaskAtIndex n t index)"
  have "\<exists>c'. for_res ?body [0..<?f - 1] c = Inr c' \<and> ?P c'"
  proof (rule for_res_total [of ?P])
    fix i and c :: task_list
    assume "i \<in> set [0..<?f - 1]" "?P c"
    then show "\<exists>c'. ?body i c = Inr c' \<and> ?P c'"
      using f Get_tasks [OF sh, of i] by (auto simp: taskList_SetTaskAtIndex_def Let_def)
  qed (rule c(2))
  then obtain c' where c': "for_res ?body [0..<?f - 1] c = Inr c'" "?P c'" by blast
  have "?body (?f - 1) c' = Inl BadAccess"
    using f c'(2) Get_tasks [OF sh, of "?f - 1"]
    by (auto simp: taskList_SetTaskAtIndex_def Let_def array_set_def)
  moreover have "[0..<?n] = [0..<?f - 1] @ (?f - 1) # [?f..<?n]"
    using f upt_add_eq_append [of 0 "?f - 1" "?n - (?f - 1)"] upt_conv_Cons [of "?f - 1" ?n] by simp
  ultimately have "for_res ?body [0..<?n] c = Inl BadAccess"
    using c'(1) by (simp add: for_res_append)
  with c(1) f(1,2) assms(2) show ?thesis
    by (simp add: TaskList_Duplicate_def TaskList_CreateWithCapacity_def
        TaskList_InitialiseWithCapacity_def Let_def)
qed

theorem task_list_duplicate_overflow_witness:
  "TaskList_Duplicate (Some example_list) = Inl BadAccess"
  using task_list_duplicate_overflow [of example_list] example_list_ok
  by (simp add: example_list_def)

end
