(* ===== verification/Pio_Monitor.thy ===== *)
theory Pio_Monitor
  imports Mh40_Prelude
begin

text \<open>
  The PIO monitor (\<^verbatim>\<open>adk/src/libs/pio_monitor/pio_monitor.c\<close>): tasks register for input pins and
  are told when one of their pins changes. A client object holds up to nine pins of a task
  and one bit per pin with the level last seen; the objects are linked in the order of
  their creation, here the list of clients. The pins of the chip are a parameter: a function from
  a bank to the levels of its 32 pins. Messages and calls of the operating system are
  outputs.
\<close>

section \<open>Model\<close>

type_synonym pio = nat

definition MAX_PIOS_PER_TASK :: nat where "MAX_PIOS_PER_TASK = 9"
definition EMPTY_PIO :: pio where "EMPTY_PIO = 255"
definition PIOM_NUM_BANKS :: nat where "PIOM_NUM_BANKS = 96 div 32"

record PioMonitorClient =
  pm_task :: task
  states :: u16
  numPios :: nat
  pios :: "pio list"

record PioMonitorState =
  pm_clients :: "PioMonitorClient list"
  debounce_reads :: u16
  debounce_period :: u16

record MessagePioChanged =
  mpc_state :: u16
  mpc_state16to31 :: u16
  mpc_bank :: u16

datatype pio_output =
    SendPioChanged task MessagePioChanged
  | SendEnableCfm task
  | PioDebounce32Bank nat u32 u16 u16
  | MessagePioTask

definition PioCommonPioBank :: "pio \<Rightarrow> nat" where
  "PioCommonPioBank p = p div 32"

definition PioCommonPioMask :: "pio \<Rightarrow> u32" where
  "PioCommonPioMask p = push_bit (p mod 32) 1"

text \<open>The answer is the level of the pin, if the message covers it.\<close>

definition message_state :: "MessagePioChanged \<Rightarrow> u32" where
  "message_state m = push_bit 16 (ucast (mpc_state16to31 m)) + ucast (mpc_state m)"

definition PioMonitorIsPioInMessage :: "MessagePioChanged \<Rightarrow> pio \<Rightarrow> bool option" where
  "PioMonitorIsPioInMessage m p =
     (if unat (mpc_bank m) = PioCommonPioBank p
      then Some (message_state m AND PioCommonPioMask p \<noteq> 0) else None)"

definition pio_changed ::
  "MessagePioChanged \<Rightarrow> nat \<Rightarrow> PioMonitorClient \<times> pio_output list \<Rightarrow> (PioMonitorClient \<times> pio_output list) res" where
  "pio_changed m p = (\<lambda>(c, out). res_bind (array_get (pios c) p) (\<lambda>pin.
     case PioMonitorIsPioInMessage m pin of
       Some pio_set \<Rightarrow>
         if pio_set \<noteq> (states c AND push_bit p 1 \<noteq> 0)
         then Inr (c\<lparr>states := states c XOR push_bit p 1\<rparr>, out @ [SendPioChanged (pm_task c) m])
         else Inr (c, out)
     | None \<Rightarrow> Inr (c, out)))"

definition client_changed :: "MessagePioChanged \<Rightarrow> PioMonitorClient \<Rightarrow> (PioMonitorClient \<times> pio_output list) res" where
  "client_changed m c = for_res (pio_changed m) [0..<numPios c] (c, [])"

fun clients_changed ::
  "MessagePioChanged \<Rightarrow> PioMonitorClient list \<Rightarrow> (PioMonitorClient list \<times> pio_output list) res" where
  "clients_changed m [] = Inr ([], [])"
| "clients_changed m (c # cs) =
     res_bind (client_changed m c) (\<lambda>(c', out).
     res_bind (clients_changed m cs) (\<lambda>(cs', outs). Inr (c' # cs', out @ outs)))"

definition handleMessagePioChangedClients ::
  "PioMonitorState \<Rightarrow> MessagePioChanged \<Rightarrow> (PioMonitorState \<times> pio_output list) res" where
  "handleMessagePioChangedClients s m = res_bind (clients_changed m (pm_clients s)) (\<lambda>(cs, out).
     Inr (s\<lparr>pm_clients := cs\<rparr>, out))"

text \<open>The messages the task of the monitor receives; it reacts to one of them.\<close>

datatype pio_message = MESSAGE_PIO_CHANGED MessagePioChanged | OtherPioMessage

definition pioHandler :: "PioMonitorState \<Rightarrow> pio_message \<Rightarrow> (PioMonitorState \<times> pio_output list) res" where
  "pioHandler s msg = (case msg of
     MESSAGE_PIO_CHANGED m \<Rightarrow> handleMessagePioChangedClients s m
   | OtherPioMessage \<Rightarrow> Inr (s, []))"

text \<open>Clients are found and changed by their position in the list.\<close>

definition findClient :: "PioMonitorState \<Rightarrow> task \<Rightarrow> nat option" where
  "findClient s t = find_index (\<lambda>c. pm_task c = t \<and> numPios c < MAX_PIOS_PER_TASK) (pm_clients s)"

definition newClient :: "task \<Rightarrow> PioMonitorClient" where
  "newClient t = \<lparr>pm_task = t, states = 0, numPios = 0, pios = replicate MAX_PIOS_PER_TASK EMPTY_PIO\<rparr>"

definition addPioToClient :: "(nat \<Rightarrow> u32) \<Rightarrow> PioMonitorClient \<Rightarrow> pio \<Rightarrow> PioMonitorClient res" where
  "addPioToClient PioGet32Bank c p =
     (let pin_state = (if PioGet32Bank (PioCommonPioBank p) AND PioCommonPioMask p \<noteq> 0 then 1 else 0 :: u32) in
      res_bind (panic_unless (numPios c < MAX_PIOS_PER_TASK)) (\<lambda>_.
        let pin_state = push_bit (numPios c) pin_state in
        res_bind (array_set (pios c) (numPios c) p) (\<lambda>ps.
          Inr (c\<lparr>pios := ps, numPios := numPios c + 1, states := ucast (ucast (states c) OR pin_state)\<rparr>))))"

definition findPioInClient :: "PioMonitorClient \<Rightarrow> pio \<Rightarrow> nat option res" where
  "findPioInClient c p = scan (\<lambda>q. q = p) (pios c) 0 (numPios c)"

text \<open>
  The removal walks along the pins with the two masks; at the pin it splices the bits,
  moves the later pins down and stops.
\<close>

definition removePioAt :: "PioMonitorClient \<Rightarrow> nat \<Rightarrow> u16 \<Rightarrow> u16 \<Rightarrow> PioMonitorClient res" where
  "removePioAt c i mask_a mask_c =
     (let left_a = drop_bit 1 (states c AND mask_a); right_c = states c AND mask_c in
      res_bind (for_res (\<lambda>k ps. res_bind (array_get ps k) (array_set ps (k - 1)))
          [Suc i..<numPios c] (pios c)) (\<lambda>ps.
        res_bind (array_set ps (numPios c - 1) EMPTY_PIO) (\<lambda>ps.
          Inr (c\<lparr>states := left_a OR right_c, pios := ps, numPios := numPios c - 1\<rparr>))))"

fun remove_pio_loop :: "PioMonitorClient \<Rightarrow> pio \<Rightarrow> nat \<Rightarrow> nat \<Rightarrow> u16 \<Rightarrow> u16 \<Rightarrow> PioMonitorClient res" where
  "remove_pio_loop c p i 0 mask_a mask_c = Inr c"
| "remove_pio_loop c p i (Suc n) mask_a mask_c = res_bind (array_get (pios c) i) (\<lambda>q.
     if q = p then removePioAt c i mask_a mask_c
     else remove_pio_loop c p (Suc i) n (push_bit 1 mask_a) (push_bit 1 mask_c OR 1))"

definition removePioFromClient :: "PioMonitorClient \<Rightarrow> pio \<Rightarrow> PioMonitorClient res" where
  "removePioFromClient c p = remove_pio_loop c p 0 (numPios c) 0xfffe 0"

definition addClient :: "(nat \<Rightarrow> u32) \<Rightarrow> PioMonitorState \<Rightarrow> task \<Rightarrow> pio \<Rightarrow> PioMonitorState res" where
  "addClient PioGet32Bank s t p =
     (let (s, i) = (case findClient s t of
            Some i \<Rightarrow> (s, i)
          | None \<Rightarrow> (s\<lparr>pm_clients := pm_clients s @ [newClient t]\<rparr>, length (pm_clients s)))
      in res_bind (addPioToClient PioGet32Bank (pm_clients s ! i) p) (\<lambda>c.
           Inr (s\<lparr>pm_clients := (pm_clients s)[i := c]\<rparr>)))"

text \<open>
  The loop over the clients goes on after a pin was removed, unless the client became empty:
  then the client is unlinked and freed and the loop stops.
\<close>

fun remove_client_loop :: "task \<Rightarrow> pio \<Rightarrow> PioMonitorClient list \<Rightarrow> PioMonitorClient list res" where
  "remove_client_loop t p [] = Inr []"
| "remove_client_loop t p (c # cs) =
     res_bind (if pm_task c = t then findPioInClient c p else Inr None) (\<lambda>found.
       case found of
         None \<Rightarrow> res_bind (remove_client_loop t p cs) (\<lambda>cs'. Inr (c # cs'))
       | Some _ \<Rightarrow> res_bind (removePioFromClient c p) (\<lambda>c'.
           if numPios c' = 0 then Inr cs
           else res_bind (remove_client_loop t p cs) (\<lambda>cs'. Inr (c' # cs'))))"

definition removeClient :: "PioMonitorState \<Rightarrow> task \<Rightarrow> pio \<Rightarrow> PioMonitorState res" where
  "removeClient s t p = res_bind (remove_client_loop t p (pm_clients s)) (\<lambda>cs. Inr (s\<lparr>pm_clients := cs\<rparr>))"

definition setPioBounce :: "PioMonitorState \<Rightarrow> nat \<Rightarrow> u32 \<Rightarrow> pio_output list" where
  "setPioBounce s bank msk = [PioDebounce32Bank bank msk (debounce_reads s) (debounce_period s)]"

definition updateDebounced :: "PioMonitorState \<Rightarrow> pio \<Rightarrow> pio_output list res" where
  "updateDebounced s p =
     res_bind (for_res (\<lambda>c msk. for_res (\<lambda>i msk. res_bind (array_get (pios c) i) (\<lambda>q.
           Inr (if PioCommonPioBank q = PioCommonPioBank p then msk OR PioCommonPioMask q else msk)))
         [0..<numPios c] msk) (pm_clients s) 0) (\<lambda>msk.
     Inr (setPioBounce s (PioCommonPioBank p) msk))"

definition updateAllDebounced :: "PioMonitorState \<Rightarrow> pio_output list res" where
  "updateAllDebounced s =
     res_bind (for_res (\<lambda>c masks. for_res (\<lambda>i masks. res_bind (array_get (pios c) i) (\<lambda>q.
           res_bind (array_get masks (PioCommonPioBank q)) (\<lambda>msk.
             array_set masks (PioCommonPioBank q) (msk OR PioCommonPioMask q))))
         [0..<numPios c] masks) (pm_clients s) (replicate PIOM_NUM_BANKS 0)) (\<lambda>masks.
     Inr (concat (map (\<lambda>bank. setPioBounce s bank (masks ! bank)) [0..<PIOM_NUM_BANKS])))"

definition PioMonitorInit :: PioMonitorState where
  "PioMonitorInit = \<lparr>pm_clients = [], debounce_reads = 0, debounce_period = 0\<rparr>"

definition PioMonitorSetDebounceParameters :: "PioMonitorState \<Rightarrow> u16 \<Rightarrow> u16 \<Rightarrow> PioMonitorState" where
  "PioMonitorSetDebounceParameters s reads period = s\<lparr>debounce_reads := reads, debounce_period := period\<rparr>"

definition enableClients :: "PioMonitorState \<Rightarrow> pio_output list res" where
  "enableClients s = res_bind (updateAllDebounced s) (\<lambda>out.
     Inr (out @ map (\<lambda>c. SendEnableCfm (pm_task c)) (pm_clients s)))"

definition PioMonitorEnable :: "PioMonitorState \<Rightarrow> pio_output list res" where
  "PioMonitorEnable s = res_bind (enableClients s) (\<lambda>out. Inr (MessagePioTask # out))"

definition PioMonitorRegisterTask :: "(nat \<Rightarrow> u32) \<Rightarrow> PioMonitorState \<Rightarrow> task \<Rightarrow> pio \<Rightarrow> PioMonitorState res" where
  "PioMonitorRegisterTask PioGet32Bank s t p = addClient PioGet32Bank s t p"

definition PioMonitorUnregisterTask :: "PioMonitorState \<Rightarrow> task \<Rightarrow> pio \<Rightarrow> (PioMonitorState \<times> pio_output list) res" where
  "PioMonitorUnregisterTask s t p = res_bind (removeClient s t p) (\<lambda>s.
     res_bind (updateDebounced s p) (\<lambda>out. Inr (s, out)))"

section \<open>A client as a list of pins with their levels\<close>

declare push_bit_of_1 [simp del]

definition pins :: "PioMonitorClient \<Rightarrow> (pio \<times> bool) list" where
  "pins c = map (\<lambda>i. (pios c ! i, bit (states c) i)) [0..<numPios c]"

definition client_ok :: "PioMonitorClient \<Rightarrow> bool" where
  "client_ok c \<longleftrightarrow> length (pios c) = MAX_PIOS_PER_TASK \<and> numPios c \<le> MAX_PIOS_PER_TASK
     \<and> (\<forall>i \<ge> numPios c. \<not> bit (states c) i)"

lemma length_pins [simp]: "length (pins c) = numPios c"
  by (simp add: pins_def)

lemma pins_nth: "i < numPios c \<Longrightarrow> pins c ! i = (pios c ! i, bit (states c) i)"
  by (simp add: pins_def)

lemma and_bit_nonzero [word_facts]: "(x AND push_bit n 1 \<noteq> 0) = bit x n" for x :: "'a::len word"
proof -
  have "x AND push_bit n 1 = (if bit x n then push_bit n 1 else 0)"
    by (rule bit_eqI) (auto simp: bit_simps)
  moreover have "push_bit n 1 \<noteq> (0 :: 'a word)" if "bit x n"
    using that bit_imp_le_length [of x n] by (auto dest!: arg_cong [where f = "\<lambda>w. bit w n"] simp: bit_simps)
  ultimately show ?thesis by auto
qed

text \<open>A change of the pins' levels.\<close>

definition pin_update :: "MessagePioChanged \<Rightarrow> pio \<times> bool \<Rightarrow> pio \<times> bool" where
  "pin_update m = (\<lambda>(p, b). (p, case PioMonitorIsPioInMessage m p of Some v \<Rightarrow> v | None \<Rightarrow> b))"

lemma pio_changed_in:
  assumes "i < numPios c" and "client_ok c"
  shows "pio_changed m i (c, out) = Inr
    (if pin_update m (pins c ! i) = pins c ! i then (c, out)
     else (c\<lparr>states := states c XOR push_bit i 1\<rparr>, out @ [SendPioChanged (pm_task c) m]))"
  using assms
  by (auto simp: pio_changed_def client_ok_def pin_update_def pins_nth word_facts split: option.splits)

lemma pins_flip:
  assumes "i < numPios c" and "client_ok c"
  shows "pins (c\<lparr>states := states c XOR push_bit i 1\<rparr>) = (pins c)[i := (fst (pins c ! i), \<not> snd (pins c ! i))]"
    and "client_ok (c\<lparr>states := states c XOR push_bit i 1\<rparr>)"
proof -
  have "i < 16" using assms by (simp add: client_ok_def MAX_PIOS_PER_TASK_def)
  then have b: "bit (states c XOR push_bit i 1) k = (if k = i then \<not> bit (states c) k else bit (states c) k)" for k
    by (auto simp: bit_simps)
  show "pins (c\<lparr>states := states c XOR push_bit i 1\<rparr>) = (pins c)[i := (fst (pins c ! i), \<not> snd (pins c ! i))]"
    by (rule nth_equalityI) (auto simp: pins_nth b nth_list_update)
  show "client_ok (c\<lparr>states := states c XOR push_bit i 1\<rparr>)"
    using assms by (auto simp: client_ok_def b)
qed

lemma pin_update_flip: "pin_update m x \<noteq> x \<Longrightarrow> pin_update m x = (fst x, \<not> snd x)"
  by (cases x) (auto simp: pin_update_def split: option.splits)

text \<open>
  A change updates the levels of the pins the message covers and sends one copy of it for
  each pin whose level changed.
\<close>

lemma pio_changed_prefix:
  assumes "client_ok c" and "n \<le> numPios c"
  shows "\<exists>c'. for_res (pio_changed m) [0..<n] (c, []) =
      Inr (c', replicate (length (filter (\<lambda>x. pin_update m x \<noteq> x) (take n (pins c)))) (SendPioChanged (pm_task c) m))
    \<and> client_ok c' \<and> pm_task c' = pm_task c \<and> numPios c' = numPios c
    \<and> pins c' = map (pin_update m) (take n (pins c)) @ drop n (pins c)"
  using assms(2)
proof (induction n)
  case 0
  show ?case using assms(1) by simp
next
  case (Suc n)
  then obtain c' where c': "for_res (pio_changed m) [0..<n] (c, []) =
      Inr (c', replicate (length (filter (\<lambda>x. pin_update m x \<noteq> x) (take n (pins c)))) (SendPioChanged (pm_task c) m))"
    "client_ok c'" "pm_task c' = pm_task c" "numPios c' = numPios c"
    "pins c' = map (pin_update m) (take n (pins c)) @ drop n (pins c)"
    by auto
  have n: "n < numPios c'" "n < length (pins c)" using Suc.prems c'(4) by simp_all
  have x: "pins c' ! n = pins c ! n" using n(2) by (simp add: c'(5) nth_append)
  have tk: "take (Suc n) (pins c) = take n (pins c) @ [pins c ! n]" using n(2) by (rule take_Suc_conv_app_nth)
  show ?case
  proof (cases "pin_update m (pins c ! n) = pins c ! n")
    case True
    then have "pins c' = map (pin_update m) (take (Suc n) (pins c)) @ drop (Suc n) (pins c)"
      using n(2) by (simp add: c'(5) tk Cons_nth_drop_Suc [symmetric])
    with True c' x n(1) show ?thesis by (simp add: for_res_append pio_changed_in tk)
  next
    case False
    let ?c = "c'\<lparr>states := states c' XOR push_bit n 1\<rparr>"
    have "pins ?c = map (pin_update m) (take (Suc n) (pins c)) @ drop (Suc n) (pins c)"
      using n(2) pin_update_flip [OF False]
      by (simp add: pins_flip(1) [OF n(1) c'(2)] x)
        (simp add: c'(5) tk list_update_append Cons_nth_drop_Suc [symmetric])
    with False c' x n(1) pins_flip(2) [OF n(1) c'(2)] show ?thesis
      by (simp add: for_res_append pio_changed_in tk replicate_append_same)
  qed
qed

lemma client_changed_ok:
  assumes "client_ok c"
  shows "\<exists>c'. client_changed m c =
      Inr (c', replicate (length (filter (\<lambda>x. pin_update m x \<noteq> x) (pins c))) (SendPioChanged (pm_task c) m))
    \<and> client_ok c' \<and> pm_task c' = pm_task c \<and> pins c' = map (pin_update m) (pins c)"
  using pio_changed_prefix [OF assms, of "numPios c" m] by (auto simp: client_changed_def)

lemma addPioToClient_ok:
  assumes "client_ok c" and "numPios c < MAX_PIOS_PER_TASK"
  shows "\<exists>c'. addPioToClient g c p = Inr c' \<and> client_ok c' \<and> pm_task c' = pm_task c
    \<and> pins c' = pins c @ [(p, g (PioCommonPioBank p) AND PioCommonPioMask p \<noteq> 0)]"
proof -
  let ?v = "g (PioCommonPioBank p) AND PioCommonPioMask p \<noteq> 0"
  let ?n = "numPios c"
  define st :: u16 where "st = ucast (ucast (states c) OR push_bit ?n (if ?v then 1 else 0 :: u32))"
  let ?c = "c\<lparr>pios := (pios c)[?n := p], numPios := ?n + 1, states := st\<rparr>"
  have n: "?n < 16" "?n < length (pios c)" using assms by (simp_all add: client_ok_def MAX_PIOS_PER_TASK_def)
  have b: "bit st k = (if k = ?n then ?v else bit (states c) k)" for k
    using assms n(1) bit_imp_le_length [of "states c" k] by (auto simp: st_def bit_simps client_ok_def)
  have "pins ?c = pins c @ [(p, ?v)]"
    using n(2) by (intro nth_equalityI) (auto simp: nth_append pins_nth b less_Suc_eq)
  moreover have "client_ok ?c" using assms n by (simp add: client_ok_def b)
  moreover have "addPioToClient g c p = Inr ?c"
    using assms(2) n(2) by (simp add: addPioToClient_def Let_def st_def)
  ultimately show ?thesis by auto
qed

text \<open>The masks of the removal at pin \<open>i\<close>: the bits behind it and the bits before it.\<close>

definition bits_behind :: "nat \<Rightarrow> u16" where
  "bits_behind i = push_bit i 0xfffe"

lemma mask_a_step: "push_bit 1 (bits_behind i) = bits_behind (Suc i)"
  by (simp only: bits_behind_def push_bit_push_bit plus_1_eq_Suc)

lemma mask_c_step: "push_bit 1 (mask i) OR 1 = (mask (Suc i) :: u16)"
  by (simp add: mask_Suc_double or.commute mult.commute)

lemma bit_bits_behind: "bit (bits_behind i) k \<longleftrightarrow> i < k \<and> k < 16"
proof -
  have "bits_behind i = push_bit (Suc i) (mask 15)"
    by (simp add: bits_behind_def mask_eq_exp_minus_1)
  then show ?thesis by (auto simp: bit_push_bit_iff bit_mask_iff simp del: push_bit_Suc)
qed

lemma remove_pio_loop_find:
  assumes "i + n \<le> length (pios c)" and "find_index (\<lambda>q. q = p) (take n (drop i (pios c))) = Some k"
  shows "remove_pio_loop c p i n (bits_behind i) (mask i) =
    removePioAt c (i + k) (bits_behind (i + k)) (mask (i + k))"
  using assms
proof (induction n arbitrary: i k)
  case 0
  then show ?case by simp
next
  case (Suc n)
  have "take (Suc n) (drop i (pios c)) = pios c ! i # take n (drop (Suc i) (pios c))"
    using Suc.prems(1) by (simp add: Cons_nth_drop_Suc [symmetric])
  with Suc.prems Suc.IH [of "Suc i"] show ?case
    by (auto simp: mask_a_step mask_c_step simp del: push_bit_Suc One_nat_def split: if_splits)
qed

lemma shift_down:
  assumes "i < m" and "m \<le> length ps"
  shows "\<exists>ps'. for_res (\<lambda>k ps. res_bind (array_get ps k) (array_set ps (k - 1))) [Suc i..<m] ps = Inr ps'
    \<and> length ps' = length ps \<and> (\<forall>k < length ps. ps' ! k = (if i \<le> k \<and> Suc k < m then ps ! Suc k else ps ! k))"
  using assms
proof (induction m)
  case 0
  then show ?case by simp
next
  case (Suc m)
  show ?case
  proof (cases "i = m")
    case True
    then show ?thesis by auto
  next
    case False
    with Suc obtain ps' where ps': "for_res (\<lambda>k ps. res_bind (array_get ps k) (array_set ps (k - 1))) [Suc i..<m] ps = Inr ps'"
      "length ps' = length ps" "\<And>k. k < length ps \<Longrightarrow> ps' ! k = (if i \<le> k \<and> Suc k < m then ps ! Suc k else ps ! k)"
      by auto
    have m: "i < m" "m < length ps" using False Suc.prems by simp_all
    then have "for_res (\<lambda>k ps. res_bind (array_get ps k) (array_set ps (k - 1))) [Suc i..<Suc m] ps = Inr (ps'[m - 1 := ps ! m])"
      using ps' by (simp add: for_res_append)
    moreover have "ps'[m - 1 := ps ! m] ! k = (if i \<le> k \<and> Suc k < Suc m then ps ! Suc k else ps ! k)"
      if "k < length ps" for k
      using ps'(2,3) m that by (cases "k = m - 1") auto
    ultimately show ?thesis using ps'(2) by auto
  qed
qed

lemma splice_bits:
  assumes "i < 16"
  shows "bit (drop_bit 1 (x AND bits_behind i) OR x AND mask i) k =
    (if k < i then bit x k else bit (x :: u16) (Suc k))"
proof -
  have "Suc k < 16" if "bit x (Suc k)" using bit_imp_le_length [OF that] by simp
  with assms show ?thesis
    by (auto simp: bit_or_iff bit_and_iff bit_drop_bit_eq bit_bits_behind bit_mask_iff)
qed

lemma removePioAt_ok:
  assumes "client_ok c" and "i < numPios c"
  shows "\<exists>c'. removePioAt c i (bits_behind i) (mask i) = Inr c' \<and> client_ok c'
    \<and> pm_task c' = pm_task c \<and> pins c' = remove_at i (pins c)"
proof -
  let ?n = "numPios c"
  have n: "?n \<le> length (pios c)" "i < 16" "?n \<le> 9"
    using assms by (simp_all add: client_ok_def MAX_PIOS_PER_TASK_def)
  obtain ps where ps: "for_res (\<lambda>k ps. res_bind (array_get ps k) (array_set ps (k - 1))) [Suc i..<?n] (pios c) = Inr ps"
    "length ps = length (pios c)"
    "\<forall>k < length (pios c). ps ! k = (if i \<le> k \<and> Suc k < ?n then pios c ! Suc k else pios c ! k)"
    using shift_down [OF assms(2) n(1)] by blast
  define st where "st = drop_bit 1 (states c AND bits_behind i) OR states c AND mask i"
  have b: "bit st k = (if k < i then bit (states c) k else bit (states c) (Suc k))" for k
    unfolding st_def by (rule splice_bits [OF n(2)])
  let ?c = "c\<lparr>states := st, pios := ps[?n - 1 := EMPTY_PIO], numPios := ?n - 1\<rparr>"
  have "removePioAt c i (bits_behind i) (mask i) = Inr ?c"
    using n assms(2) ps(1,2) by (simp add: removePioAt_def Let_def st_def)
  moreover have "client_ok ?c"
    using assms ps(2) by (auto simp: client_ok_def b)
  moreover have "pins ?c = remove_at i (pins c)"
    using assms(2) n(1) ps(3)
    by (intro nth_equalityI)
      (auto simp: pins_nth b remove_at_def nth_append min_def)
  ultimately show ?thesis by auto
qed

lemma map_fst_pins: "client_ok c \<Longrightarrow> map fst (pins c) = take (numPios c) (pios c)"
  by (intro nth_equalityI) (auto simp: client_ok_def pins_nth)

lemma findPioInClient_ok:
  "client_ok c \<Longrightarrow> findPioInClient c p = Inr (find_index (\<lambda>x. fst x = p) (pins c))"
proof -
  assume c: "client_ok c"
  have "find_index (\<lambda>q. q = p) (map fst xs) = find_index (\<lambda>x. fst x = p) xs" for xs :: "(pio \<times> bool) list"
    by (induction xs) auto
  with c show ?thesis
    using scan_in [of 0 "numPios c" "pios c" "\<lambda>q. q = p"]
    by (simp add: findPioInClient_def client_ok_def option.map_ident flip: map_fst_pins [OF c] cong: map_option_cong)
qed

lemma removePioFromClient_ok:
  assumes "client_ok c" and "find_index (\<lambda>x. fst x = p) (pins c) = Some i"
  shows "\<exists>c'. removePioFromClient c p = Inr c' \<and> client_ok c' \<and> pm_task c' = pm_task c
    \<and> pins c' = remove_at i (pins c)"
proof -
  have "find_index (\<lambda>q. q = p) (take (numPios c) (pios c)) = Some i"
    using findPioInClient_ok [OF assms(1), of p] assms scan_in [of 0 "numPios c" "pios c" "\<lambda>q. q = p"]
    by (simp add: findPioInClient_def client_ok_def option.map_ident cong: map_option_cong)
  moreover have "i < numPios c" using find_index_SomeD [OF assms(2)] by simp
  ultimately show ?thesis
    using remove_pio_loop_find [of 0 "numPios c" c p i] removePioAt_ok [OF assms(1), of i] assms(1)
    by (simp add: removePioFromClient_def client_ok_def bits_behind_def)
qed

section \<open>The monitor as a map from tasks and pins to levels\<close>

definition client_entries :: "PioMonitorClient \<Rightarrow> ((task \<times> pio) \<times> bool) list" where
  "client_entries c = map (\<lambda>(p, b). ((pm_task c, p), b)) (pins c)"

definition entries :: "PioMonitorClient list \<Rightarrow> ((task \<times> pio) \<times> bool) list" where
  "entries cs = concat (map client_entries cs)"

definition clients_ok :: "PioMonitorClient list \<Rightarrow> bool" where
  "clients_ok cs \<longleftrightarrow> (\<forall>c \<in> set cs. client_ok c \<and> 0 < numPios c) \<and> distinct (map fst (entries cs))"

definition monitor_ok :: "PioMonitorState \<Rightarrow> bool" where
  "monitor_ok s \<longleftrightarrow> clients_ok (pm_clients s)"

definition level :: "PioMonitorState \<Rightarrow> task \<times> pio \<Rightarrow> bool option" where
  "level s = map_of (entries (pm_clients s))"

lemma entries_simps [simp]:
  "entries [] = []"
  "entries (c # cs) = client_entries c @ entries cs"
  "entries (cs @ ds) = entries cs @ entries ds"
  by (simp_all add: entries_def)

lemma clients_ok_Cons:
  "clients_ok (c # cs) \<longleftrightarrow> client_ok c \<and> 0 < numPios c \<and> clients_ok cs \<and> distinct (map fst (client_entries c))
    \<and> fst ` set (client_entries c) \<inter> fst ` set (entries cs) = {}"
  by (auto simp: clients_ok_def)

definition entry_update :: "MessagePioChanged \<Rightarrow> (task \<times> pio) \<times> bool \<Rightarrow> (task \<times> pio) \<times> bool" where
  "entry_update m = (\<lambda>((t, p), b). ((t, p), case PioMonitorIsPioInMessage m p of Some v \<Rightarrow> v | None \<Rightarrow> b))"

lemma entry_update_client:
  "map (\<lambda>(p, b). ((t, p), b)) (map (pin_update m) xs) = map (entry_update m) (map (\<lambda>(p, b). ((t, p), b)) xs)"
  by (auto simp: entry_update_def pin_update_def)

lemma fst_entry_update [simp]: "fst (entry_update m x) = fst x"
  by (auto simp: entry_update_def split: prod.splits)

lemma changed_entries:
  "length (filter (\<lambda>x. pin_update m x \<noteq> x) xs) =
   length (filter (\<lambda>x. entry_update m x \<noteq> x) (map (\<lambda>(p, b). ((t, p), b)) xs))"
  by (induction xs) (auto simp: entry_update_def pin_update_def)

definition copies :: "task \<Rightarrow> pio_output list \<Rightarrow> nat" where
  "copies t out = length (filter (\<lambda>x. case x of SendPioChanged t' _ \<Rightarrow> t' = t | _ \<Rightarrow> False) out)"

lemma copies_append [simp]: "copies t (xs @ ys) = copies t xs + copies t ys"
  by (simp add: copies_def)

lemma copies_replicate [simp]: "copies t (replicate n (SendPioChanged t' m)) = (if t' = t then n else 0)"
  by (simp add: copies_def)

lemma clients_changed_ok:
  assumes "clients_ok cs"
  shows "\<exists>cs' out. clients_changed m cs = Inr (cs', out) \<and> clients_ok cs'
    \<and> entries cs' = map (entry_update m) (entries cs)
    \<and> (\<forall>t. copies t out = length (filter (\<lambda>x. fst (fst x) = t \<and> entry_update m x \<noteq> x) (entries cs)))
    \<and> set out \<subseteq> {SendPioChanged t m | t. True}"
  using assms
proof (induction cs)
  case Nil
  then show ?case by (simp add: copies_def)
next
  case (Cons c cs)
  from Cons.prems have c: "client_ok c" "clients_ok cs" by (simp_all add: clients_ok_Cons)
  from client_changed_ok [OF c(1), of m] obtain c' where c':
    "client_changed m c = Inr (c', replicate (length (filter (\<lambda>x. pin_update m x \<noteq> x) (pins c))) (SendPioChanged (pm_task c) m))"
    "client_ok c'" "pm_task c' = pm_task c" "pins c' = map (pin_update m) (pins c)" by blast
  from Cons.IH [OF c(2)] obtain cs' out where cs': "clients_changed m cs = Inr (cs', out)" "clients_ok cs'"
    "entries cs' = map (entry_update m) (entries cs)"
    "\<forall>t. copies t out = length (filter (\<lambda>x. fst (fst x) = t \<and> entry_update m x \<noteq> x) (entries cs))"
    "set out \<subseteq> {SendPioChanged t m | t. True}" by blast
  have e: "client_entries c' = map (entry_update m) (client_entries c)"
    unfolding client_entries_def c'(3,4) by (rule entry_update_client)
  have "numPios c' = numPios c" using c'(4) by (metis length_map length_pins)
  then have "clients_ok (c' # cs')"
    using Cons.prems c' cs'(2,3) by (simp add: clients_ok_Cons e comp_def image_image)
  moreover have "filter (\<lambda>x. fst (fst x) = t \<and> entry_update m x \<noteq> x) (client_entries c) =
      (if pm_task c = t then filter (\<lambda>x. entry_update m x \<noteq> x) (client_entries c) else [])" for t
    by (auto simp: client_entries_def filter_map comp_def split_beta intro!: filter_cong)
  moreover have "length (filter (\<lambda>x. pin_update m x \<noteq> x) (pins c)) =
      length (filter (\<lambda>x. entry_update m x \<noteq> x) (client_entries c))"
    unfolding client_entries_def by (rule changed_entries)
  ultimately show ?case using c'(1) cs' e by auto
qed

lemma insert_at_append: "insert_at (length xs + i) x (xs @ ys) = xs @ insert_at i x ys"
  by (simp add: insert_at_def)

text \<open>A new pin goes behind the pins of the client that takes it.\<close>

lemma addClient_entries:
  assumes "monitor_ok s"
  shows "\<exists>s' k. addClient g s t p = Inr s' \<and> (\<forall>c \<in> set (pm_clients s'). client_ok c \<and> 0 < numPios c)
    \<and> entries (pm_clients s') =
        insert_at k ((t, p), g (PioCommonPioBank p) AND PioCommonPioMask p \<noteq> 0) (entries (pm_clients s))"
proof -
  let ?v = "g (PioCommonPioBank p) AND PioCommonPioMask p \<noteq> 0"
  have ok: "\<forall>c \<in> set (pm_clients s). client_ok c \<and> 0 < numPios c"
    using assms by (simp add: monitor_ok_def clients_ok_def)
  have n: "numPios c' = Suc (numPios c)" if "pins c' = pins c @ [x]" for c c' x
    using that by (metis length_append_singleton length_pins)
  show ?thesis
  proof (cases "findClient s t")
    case None
    have "client_ok (newClient t)" "numPios (newClient t) < MAX_PIOS_PER_TASK"
      by (simp_all add: newClient_def client_ok_def MAX_PIOS_PER_TASK_def)
    from addPioToClient_ok [OF this, of g p] obtain c where
      c: "addPioToClient g (newClient t) p = Inr c" "client_ok c" "pm_task c = t" "pins c = [((p, ?v))]"
      by (auto simp: newClient_def pins_def)
    then have "client_entries c = [((t, p), ?v)]" by (simp add: client_entries_def)
    moreover have "numPios c = 1" using c(4) by (metis One_nat_def length_Cons length_pins list.size(3))
    ultimately show ?thesis using None c ok
      by (intro exI [of _ "s\<lparr>pm_clients := pm_clients s @ [c]\<rparr>"] exI [of _ "length (entries (pm_clients s))"])
        (auto simp: addClient_def insert_at_def)
  next
    case (Some i)
    then have i: "i < length (pm_clients s)" "pm_task (pm_clients s ! i) = t"
      "numPios (pm_clients s ! i) < MAX_PIOS_PER_TASK"
      unfolding findClient_def by (auto dest!: find_index_SomeD)
    define c where "c = pm_clients s ! i"
    obtain c' where c': "addPioToClient g c p = Inr c'" "client_ok c'" "pm_task c' = t" "pins c' = pins c @ [(p, ?v)]"
      using addPioToClient_ok [of c g p] ok i by (auto simp: c_def)
    define A B where "A = take i (pm_clients s)" and "B = drop (Suc i) (pm_clients s)"
    have s: "pm_clients s = A @ c # B" "(pm_clients s)[i := c'] = A @ c' # B"
      using i(1) by (simp_all add: A_def B_def c_def id_take_nth_drop upd_conv_take_nth_drop)
    have "client_entries c' = client_entries c @ [((t, p), ?v)]"
      using c'(3,4) i(2) by (simp add: client_entries_def c_def)
    then have "entries (A @ c' # B) =
        insert_at (length (entries A) + length (client_entries c)) ((t, p), ?v) (entries (A @ c # B))"
      by (simp add: insert_at_append)
    moreover have "\<forall>c \<in> set (A @ c' # B). client_ok c \<and> 0 < numPios c"
      using ok c'(2) n [OF c'(4)] by (auto simp: s(1))
    moreover have "addClient g s t p = Inr (s\<lparr>pm_clients := A @ c' # B\<rparr>)"
      using Some c'(1) s(2) by (simp add: addClient_def c_def)
    ultimately show ?thesis by (auto simp: s(1))
  qed
qed

lemma addClient_ok:
  assumes "monitor_ok s" and "level s (t, p) = None"
  shows "\<exists>s'. addClient g s t p = Inr s' \<and> monitor_ok s'
    \<and> level s' = (level s)((t, p) \<mapsto> g (PioCommonPioBank p) AND PioCommonPioMask p \<noteq> 0)"
proof -
  let ?e = "entries (pm_clients s)"
  have new: "(t, p) \<notin> fst ` set ?e" using assms(2) by (simp add: level_def map_of_eq_None_iff)
  obtain s' k where s': "addClient g s t p = Inr s'" "\<forall>c \<in> set (pm_clients s'). client_ok c \<and> 0 < numPios c"
    "entries (pm_clients s') = insert_at k ((t, p), g (PioCommonPioBank p) AND PioCommonPioMask p \<noteq> 0) ?e"
    using addClient_entries [OF assms(1)] by blast
  have "map fst (insert_at k x xs) = insert_at k (fst x) (map fst xs)" for x and xs :: "((task \<times> pio) \<times> bool) list"
    by (simp add: insert_at_def take_map drop_map)
  then have "distinct (map fst (entries (pm_clients s')))"
    using assms(1) new by (auto simp: s'(3) monitor_ok_def clients_ok_def intro!: distinct_insert_at)
  with s' new show ?thesis by (auto simp: monitor_ok_def clients_ok_def level_def map_of_insert_at)
qed

lemma remove_at_filter:
  assumes "distinct (map f xs)" and "find_index (\<lambda>x. f x = k) xs = Some i"
  shows "remove_at i xs = filter (\<lambda>x. f x \<noteq> k) xs"
proof -
  have i: "i < length xs" "f (xs ! i) = k" using find_index_SomeD [OF assms(2)] by simp_all
  have split: "xs = take i xs @ xs ! i # drop (Suc i) xs" using i(1) by (rule id_take_nth_drop)
  have "distinct (map f (take i xs @ xs ! i # drop (Suc i) xs))" using assms(1) split by simp
  then have "k \<notin> f ` set (take i xs)" "k \<notin> f ` set (drop (Suc i) xs)" using i(2) by simp_all
  then have "\<forall>x \<in> set (take i xs). f x \<noteq> k" "\<forall>x \<in> set (drop (Suc i) xs). f x \<noteq> k" by auto
  then have "filter (\<lambda>x. f x \<noteq> k) (take i xs @ xs ! i # drop (Suc i) xs) = take i xs @ drop (Suc i) xs"
    using i(2) by (simp add: filter_id_conv)
  with split show ?thesis by (simp add: remove_at_def)
qed

abbreviation without :: "task \<times> pio \<Rightarrow> ((task \<times> pio) \<times> bool) list \<Rightarrow> ((task \<times> pio) \<times> bool) list" where
  "without k \<equiv> filter (\<lambda>x. fst x \<noteq> k)"

lemma without_absent: "k \<notin> fst ` set xs \<Longrightarrow> without k xs = xs"
  by (force simp: filter_id_conv)

lemma client_entries_without:
  "client_entries c = xs \<Longrightarrow> pm_task c' = pm_task c \<Longrightarrow> pins c' = filter (\<lambda>x. fst x \<noteq> p) (pins c) \<Longrightarrow>
   client_entries c' = without (pm_task c, p) xs"
  by (auto simp: client_entries_def filter_map comp_def split_beta)

lemma remove_client_loop_ok:
  assumes "clients_ok cs"
  shows "\<exists>cs'. remove_client_loop t p cs = Inr cs' \<and> clients_ok cs' \<and> entries cs' = without (t, p) (entries cs)"
  using assms
proof (induction cs)
  case Nil
  then show ?case by simp
next
  case (Cons c cs)
  from Cons.prems have c: "client_ok c" "clients_ok cs" "0 < numPios c" "distinct (map fst (client_entries c))"
    "fst ` set (client_entries c) \<inter> fst ` set (entries cs) = {}" by (simp_all add: clients_ok_Cons)
  from Cons.IH [OF c(2)] obtain cs' where
    cs': "remove_client_loop t p cs = Inr cs'" "clients_ok cs'" "entries cs' = without (t, p) (entries cs)" by blast
  show ?case
  proof (cases "pm_task c = t \<and> find_index (\<lambda>x. fst x = p) (pins c) \<noteq> None")
    case False
    then have "without (t, p) (client_entries c) = client_entries c"
      by (intro without_absent) (auto simp: client_entries_def find_index_None_iff)
    with False c cs' show ?thesis
      by (auto simp: clients_ok_Cons findPioInClient_ok)
  next
    case True
    then obtain i where i: "pm_task c = t" "find_index (\<lambda>x. fst x = p) (pins c) = Some i" by auto
    obtain c' where c': "removePioFromClient c p = Inr c'" "client_ok c'" "pm_task c' = pm_task c"
      "pins c' = remove_at i (pins c)" using removePioFromClient_ok [OF c(1) i(2)] by blast
    have "distinct (map fst (pins c))"
      using c(4) by (auto simp: client_entries_def distinct_map inj_on_def split_beta)
    then have e: "client_entries c' = without (t, p) (client_entries c)"
      using client_entries_without [OF refl c'(3)] i by (simp add: c'(4) remove_at_filter)
    obtain b where "(p, b) \<in> set (pins c)" using find_index_SomeD [OF i(2)] by (metis nth_mem prod.collapse)
    then have "(t, p) \<in> fst ` set (client_entries c)" using i(1) by (force simp: client_entries_def)
    then have "without (t, p) (entries cs) = entries cs" using c(5) by (intro without_absent) blast
    moreover have "client_entries c' = []" if "numPios c' = 0" using that by (simp add: client_entries_def pins_def)
    moreover have "fst ` set (without k xs) \<subseteq> fst ` set xs" for k xs by auto
    ultimately show ?thesis using c cs' c'(1,2) i e
      by (auto simp: clients_ok_Cons findPioInClient_ok distinct_map_filter)
  qed
qed

lemma map_of_without: "map_of (without k xs) = (map_of xs)(k := None)"
  by (induction xs) auto

lemma updateDebounced_ok: "monitor_ok s \<Longrightarrow> \<exists>msk. updateDebounced s p = Inr (setPioBounce s (PioCommonPioBank p) msk)"
proof -
  assume ok: "monitor_ok s"
  let ?inner = "\<lambda>c i (msk :: u32). res_bind (array_get (pios c) i) (\<lambda>q.
      Inr (if PioCommonPioBank q = PioCommonPioBank p then msk OR PioCommonPioMask q else msk))"
  have "\<exists>msk. for_res (\<lambda>c msk. for_res (?inner c) [0..<numPios c] msk) (pm_clients s) 0 = Inr msk \<and> True"
  proof (rule for_res_total)
    fix c msk
    assume "c \<in> set (pm_clients s)"
    then have "numPios c \<le> length (pios c)" using ok by (auto simp: monitor_ok_def clients_ok_def client_ok_def)
    then show "\<exists>msk'. for_res (?inner c) [0..<numPios c] msk = Inr msk' \<and> True"
      by (intro for_res_total) auto
  qed simp
  then show ?thesis by (auto simp: updateDebounced_def)
qed

lemma unregister_ok:
  assumes "monitor_ok s"
  shows "\<exists>s' out. PioMonitorUnregisterTask s t p = Inr (s', out) \<and> monitor_ok s' \<and> level s' = (level s)((t, p) := None)"
proof -
  obtain cs where cs: "remove_client_loop t p (pm_clients s) = Inr cs" "clients_ok cs"
    "entries cs = without (t, p) (entries (pm_clients s))"
    using remove_client_loop_ok assms unfolding monitor_ok_def by blast
  then have "monitor_ok (s\<lparr>pm_clients := cs\<rparr>)" by (simp add: monitor_ok_def)
  with updateDebounced_ok [OF this, of p] cs show ?thesis
    by (auto simp: PioMonitorUnregisterTask_def removeClient_def level_def map_of_without)
qed

text \<open>What a change message does to the levels, and to how many pins of a task.\<close>

definition changed_pins :: "(task \<times> pio \<Rightarrow> bool option) \<Rightarrow> MessagePioChanged \<Rightarrow> task \<Rightarrow> pio set" where
  "changed_pins L m t = {p. \<exists>b v. L (t, p) = Some b \<and> PioMonitorIsPioInMessage m p = Some v \<and> v \<noteq> b}"

definition level_update :: "(task \<times> pio \<Rightarrow> bool option) \<Rightarrow> MessagePioChanged \<Rightarrow> task \<times> pio \<Rightarrow> bool option" where
  "level_update L m = (\<lambda>(t, p). map_option (\<lambda>b. case PioMonitorIsPioInMessage m p of Some v \<Rightarrow> v | None \<Rightarrow> b) (L (t, p)))"

lemma map_of_entry_update: "map_of (map (entry_update m) xs) = level_update (map_of xs) m"
  by (induction xs) (auto simp: level_update_def entry_update_def split_beta fun_eq_iff)

lemma changed_count:
  assumes "distinct (map fst xs)"
  shows "length (filter (\<lambda>x. fst (fst x) = t \<and> entry_update m x \<noteq> x) xs) = card (changed_pins (map_of xs) m t)"
proof -
  let ?f = "filter (\<lambda>x. fst (fst x) = t \<and> entry_update m x \<noteq> x) xs"
  have "inj_on (snd \<circ> fst) (set ?f)"
  proof (rule inj_onI)
    fix x y
    assume "x \<in> set ?f" "y \<in> set ?f" "(snd \<circ> fst) x = (snd \<circ> fst) y"
    then have "x \<in> set xs" "y \<in> set xs" "fst x = fst y" by (auto intro: prod_eqI)
    with assms show "x = y" by (auto simp: distinct_map dest: inj_onD)
  qed
  then have "card ((snd \<circ> fst) ` set ?f) = card (set ?f)" by (rule card_image)
  also have "distinct ?f" using assms by (simp add: distinct_map)
  then have "card (set ?f) = length ?f" by (rule distinct_card)
  finally have "length ?f = card ((snd \<circ> fst) ` set ?f)" by (rule sym)
  also have "(snd \<circ> fst) ` set ?f = changed_pins (map_of xs) m t"
    using assms
    by (fastforce simp: changed_pins_def entry_update_def image_iff map_of_eq_Some_iff split: option.splits)
  finally show ?thesis .
qed

lemma deliver_ok:
  assumes "monitor_ok s"
  shows "\<exists>s' out. pioHandler s (MESSAGE_PIO_CHANGED m) = Inr (s', out) \<and> monitor_ok s'
    \<and> level s' = level_update (level s) m \<and> (\<forall>t. copies t out = card (changed_pins (level s) m t))
    \<and> set out \<subseteq> {SendPioChanged t m | t. True}"
proof -
  from assms have ok: "clients_ok (pm_clients s)" "distinct (map fst (entries (pm_clients s)))"
    by (simp_all add: monitor_ok_def clients_ok_def)
  obtain cs out where "clients_changed m (pm_clients s) = Inr (cs, out)" "clients_ok cs"
    "entries cs = map (entry_update m) (entries (pm_clients s))"
    "\<forall>t. copies t out = length (filter (\<lambda>x. fst (fst x) = t \<and> entry_update m x \<noteq> x) (entries (pm_clients s)))"
    "set out \<subseteq> {SendPioChanged t m | t. True}"
    using clients_changed_ok [OF ok(1), of m] by blast
  then show ?thesis
    by (simp add: pioHandler_def handleMessagePioChangedClients_def monitor_ok_def level_def
        map_of_entry_update changed_count [OF ok(2)])
qed

section \<open>The contract of the monitor\<close>

text \<open>
  What the tasks rely on: registering a pin starts watching it at its present level,
  unregistering stops, and a change message brings the levels up to date and tells exactly
  the tasks one of whose pins changed. The history of these operations determines the
  levels.
\<close>

datatype watch_op = Watch "nat \<Rightarrow> u32" task pio | Unwatch task pio | Change MessagePioChanged

fun watch_step :: "(task \<times> pio \<Rightarrow> bool option) \<Rightarrow> watch_op \<Rightarrow> task \<times> pio \<Rightarrow> bool option" where
  "watch_step L (Watch g t p) = L((t, p) \<mapsto> g (PioCommonPioBank p) AND PioCommonPioMask p \<noteq> 0)"
| "watch_step L (Unwatch t p) = L((t, p) := None)"
| "watch_step L (Change m) = level_update L m"

text \<open>No pin is registered twice by the same task.\<close>

fun watch_once :: "(task \<times> pio \<Rightarrow> bool option) \<Rightarrow> watch_op list \<Rightarrow> bool" where
  "watch_once L [] = True"
| "watch_once L (x # xs) =
     ((case x of Watch g t p \<Rightarrow> L (t, p) = None | _ \<Rightarrow> True) \<and> watch_once (watch_step L x) xs)"

locale pio_watch =
  fixes levels :: "'s \<Rightarrow> task \<times> pio \<Rightarrow> bool option"
    and watch :: "(nat \<Rightarrow> u32) \<Rightarrow> 's \<Rightarrow> task \<Rightarrow> pio \<Rightarrow> 's res"
    and unwatch :: "'s \<Rightarrow> task \<Rightarrow> pio \<Rightarrow> ('s \<times> pio_output list) res"
    and deliver :: "'s \<Rightarrow> MessagePioChanged \<Rightarrow> ('s \<times> pio_output list) res"
    and ok :: "'s \<Rightarrow> bool"
  assumes watch_law: "ok s \<Longrightarrow> levels s (t, p) = None \<Longrightarrow>
      \<exists>s'. watch g s t p = Inr s' \<and> ok s' \<and> levels s' = watch_step (levels s) (Watch g t p)"
    and unwatch_law: "ok s \<Longrightarrow>
      \<exists>s' out. unwatch s t p = Inr (s', out) \<and> ok s' \<and> levels s' = watch_step (levels s) (Unwatch t p)"
    and deliver_law: "ok s \<Longrightarrow>
      \<exists>s' out. deliver s m = Inr (s', out) \<and> ok s' \<and> levels s' = watch_step (levels s) (Change m)
        \<and> (\<forall>t. copies t out = card (changed_pins (levels s) m t))"
begin

definition watch_run :: "watch_op \<Rightarrow> 's \<Rightarrow> 's res" where
  "watch_run x s = (case x of Watch g t p \<Rightarrow> watch g s t p
     | Unwatch t p \<Rightarrow> res_bind (unwatch s t p) (\<lambda>(s, _). Inr s)
     | Change m \<Rightarrow> res_bind (deliver s m) (\<lambda>(s, _). Inr s))"

lemma run_refines:
  assumes "ok s" and "watch_once (levels s) xs"
  shows "\<exists>s'. for_res watch_run xs s = Inr s' \<and> ok s' \<and> levels s' = foldl watch_step (levels s) xs"
  using assms
proof (induction xs arbitrary: s)
  case Nil
  then show ?case by simp
next
  case (Cons x xs)
  have "\<exists>s'. watch_run x s = Inr s' \<and> ok s' \<and> levels s' = watch_step (levels s) x"
  proof (cases x)
    case (Watch g t p)
    with Cons.prems watch_law [of s t p g] show ?thesis by (simp add: watch_run_def)
  next
    case (Unwatch t p)
    with Cons.prems(1) unwatch_law [of s t p] show ?thesis by (force simp: watch_run_def)
  next
    case (Change m)
    with Cons.prems(1) deliver_law [of s m] show ?thesis by (force simp: watch_run_def)
  qed
  then obtain s' where "watch_run x s = Inr s'" "ok s'" "levels s' = watch_step (levels s) x" by blast
  with Cons.IH [of s'] Cons.prems(2) show ?case by simp
qed

end

interpretation pm: pio_watch level PioMonitorRegisterTask PioMonitorUnregisterTask
  "\<lambda>s m. pioHandler s (MESSAGE_PIO_CHANGED m)" monitor_ok
proof unfold_locales
  show "\<exists>s'. PioMonitorRegisterTask g s t p = Inr s' \<and> monitor_ok s' \<and> level s' = watch_step (level s) (Watch g t p)"
    if "monitor_ok s" "level s (t, p) = None" for s t p g
    using addClient_ok [OF that] by (simp add: PioMonitorRegisterTask_def)
  show "\<exists>s' out. PioMonitorUnregisterTask s t p = Inr (s', out) \<and> monitor_ok s' \<and>
      level s' = watch_step (level s) (Unwatch t p)" if "monitor_ok s" for s t p
    using unregister_ok [OF that] by simp
  show "\<exists>s' out. pioHandler s (MESSAGE_PIO_CHANGED m) = Inr (s', out) \<and> monitor_ok s' \<and>
      level s' = watch_step (level s) (Change m) \<and> (\<forall>t. copies t out = card (changed_pins (level s) m t))"
    if "monitor_ok s" for s m
    using deliver_ok [OF that, of m] by auto
qed

definition pio_run :: "watch_op \<Rightarrow> PioMonitorState \<Rightarrow> PioMonitorState res" where
  "pio_run x s = (case x of Watch g t p \<Rightarrow> PioMonitorRegisterTask g s t p
     | Unwatch t p \<Rightarrow> res_bind (PioMonitorUnregisterTask s t p) (\<lambda>(s, _). Inr s)
     | Change m \<Rightarrow> res_bind (pioHandler s (MESSAGE_PIO_CHANGED m)) (\<lambda>(s, _). Inr s))"

lemma pio_run_is: "pio_run = pm.watch_run"
  by (intro ext) (simp add: pio_run_def pm.watch_run_def)

lemma monitor_start: "monitor_ok PioMonitorInit" "level PioMonitorInit = (\<lambda>_. None)"
  by (simp_all add: PioMonitorInit_def monitor_ok_def clients_ok_def level_def fun_eq_iff)

section \<open>The debounce masks\<close>

lemma bit_PioCommonPioMask: "bit (PioCommonPioMask q) b \<longleftrightarrow> b = q mod 32"
  by (auto simp: PioCommonPioMask_def bit_push_bit_iff bit_1_iff)

lemma for_res_concat: "for_res (\<lambda>c s. for_res f (g c) s) cs s = for_res f (concat (map g cs)) s"
proof (induction cs arbitrary: s)
  case Nil
  show ?case by simp
next
  case (Cons c cs)
  then have "for_res (\<lambda>c s. for_res f (g c) s) cs = for_res f (concat (map g cs))" by (intro ext)
  then show ?case by (simp add: for_res_append)
qed

definition mask_pin :: "pio \<Rightarrow> u32 list \<Rightarrow> u32 list res" where
  "mask_pin q masks = res_bind (array_get masks (PioCommonPioBank q)) (\<lambda>msk.
     array_set masks (PioCommonPioBank q) (msk OR PioCommonPioMask q))"

lemma mask_pins:
  assumes "\<forall>q \<in> set qs. q < 96" and "length ms = 3"
  shows "\<exists>ms'. for_res mask_pin qs ms = Inr ms' \<and> length ms' = 3
    \<and> (\<forall>k < 3. \<forall>b. bit (ms' ! k) b \<longleftrightarrow> bit (ms ! k) b \<or> b < 32 \<and> 32 * k + b \<in> set qs)"
  using assms
proof (induction qs arbitrary: ms)
  case Nil
  then show ?case by simp
next
  case (Cons q qs)
  let ?k = "PioCommonPioBank q"
  let ?ms = "ms[?k := ms ! ?k OR PioCommonPioMask q]"
  have k: "?k < 3" using Cons.prems(1) by (auto simp: PioCommonPioBank_def)
  have step: "mask_pin q ms = Inr ?ms" using k Cons.prems(2) by (simp add: mask_pin_def)
  from Cons.IH [of ?ms] Cons.prems obtain ms' where ms': "for_res mask_pin qs ?ms = Inr ms'" "length ms' = 3"
    "\<forall>k < 3. \<forall>b. bit (ms' ! k) b \<longleftrightarrow> bit (?ms ! k) b \<or> b < 32 \<and> 32 * k + b \<in> set qs" by auto
  have "bit (?ms ! k) b \<longleftrightarrow> bit (ms ! k) b \<or> b < 32 \<and> 32 * k + b = q" if "k < 3" for k b
  proof -
    have "32 * k + b = q \<and> b < 32 \<longleftrightarrow> k = ?k \<and> b = q mod 32"
      by (auto simp: PioCommonPioBank_def)
    then have iff: "b < 32 \<and> 32 * k + b = q \<longleftrightarrow> k = ?k \<and> b = q mod 32" by blast
    show ?thesis unfolding iff using that Cons.prems(2) k
      by (cases "k = ?k") (simp_all add: bit_or_iff bit_PioCommonPioMask)
  qed
  with ms' step show ?case by auto
qed

lemma watched_entries: "level s (t, p) \<noteq> None \<longleftrightarrow> (t, p) \<in> fst ` set (entries (pm_clients s))"
  by (simp add: level_def map_of_eq_None_iff)

lemma all_pins: "set (concat (map (\<lambda>c. map fst (pins c)) cs)) = snd ` fst ` set (entries cs)"
  by (force simp: entries_def client_entries_def image_iff)

lemma updateAllDebounced_ok:
  assumes "monitor_ok s" and "\<And>t p. level s (t, p) \<noteq> None \<Longrightarrow> p < 96"
  shows "\<exists>masks. updateAllDebounced s = Inr (map (\<lambda>bank. PioDebounce32Bank bank (masks bank) (debounce_reads s) (debounce_period s)) [0..<3])
    \<and> (\<forall>bank < 3. \<forall>b. bit (masks bank) b \<longleftrightarrow> b < 32 \<and> (\<exists>t. level s (t, 32 * bank + b) \<noteq> None))"
proof -
  let ?qs = "concat (map (\<lambda>c. map fst (pins c)) (pm_clients s))"
  have qs: "q \<in> set ?qs \<longleftrightarrow> (\<exists>t. level s (t, q) \<noteq> None)" for q
    unfolding watched_entries all_pins by force
  with assms(2) have "\<forall>q \<in> set ?qs. q < 96" by blast
  from mask_pins [OF this, of "replicate 3 0"] obtain ms where ms: "for_res mask_pin ?qs (replicate 3 0) = Inr ms"
    "\<forall>k < 3. \<forall>b. bit (ms ! k) b \<longleftrightarrow> b < 32 \<and> 32 * k + b \<in> set ?qs" by auto
  have "for_res (\<lambda>c masks. for_res (\<lambda>i masks. res_bind (array_get (pios c) i) (\<lambda>q. mask_pin q masks)) [0..<numPios c] masks)
      (pm_clients s) (replicate 3 0) = for_res (\<lambda>c masks. for_res mask_pin (map fst (pins c)) masks) (pm_clients s) (replicate 3 0)"
  proof (rule for_res_cong [OF refl])
    fix c and masks :: "u32 list"
    assume "c \<in> set (pm_clients s)"
    then have "numPios c \<le> length (pios c)" using assms(1) by (auto simp: monitor_ok_def clients_ok_def client_ok_def)
    then show "for_res (\<lambda>i masks. res_bind (array_get (pios c) i) (\<lambda>q. mask_pin q masks)) [0..<numPios c] masks =
        for_res mask_pin (map fst (pins c)) masks"
      by (auto simp: pins_def for_res_map comp_def intro!: for_res_cong)
  qed
  also have "\<dots> = Inr ms" using ms(1) by (simp add: for_res_concat)
  finally have "updateAllDebounced s =
      Inr (map (\<lambda>bank. PioDebounce32Bank bank (ms ! bank) (debounce_reads s) (debounce_period s)) [0..<3])"
    by (simp add: updateAllDebounced_def mask_pin_def PIOM_NUM_BANKS_def setPioBounce_def upt_rec)
  with ms(2) show ?thesis unfolding qs by (intro exI [of _ "(!) ms"]) auto
qed

section \<open>Properties\<close>

text \<open>
  C11. The monitor tells whom it should: after any history of registrations, removals and
  change messages in which no task registers a pin it already has, the level it keeps for
  each task and pin is the one the history determines, in however many client objects
  the pins of a task are held, and a further change message is copied to a task once for each of
  its pins whose level it changes, so to no task without such a pin.
\<close>

theorem pio_monitor_refines_watch:
  assumes "watch_once (\<lambda>_. None) xs"
  shows "\<exists>s s' out. for_res pio_run xs PioMonitorInit = Inr s \<and> level s = foldl watch_step (\<lambda>_. None) xs
    \<and> pioHandler s (MESSAGE_PIO_CHANGED m) = Inr (s', out)
    \<and> (\<forall>t. copies t out = card (changed_pins (foldl watch_step (\<lambda>_. None) xs) m t))"
proof -
  from pm.run_refines [OF monitor_start(1)] assms obtain s where
    s: "for_res pio_run xs PioMonitorInit = Inr s" "monitor_ok s" "level s = foldl watch_step (\<lambda>_. None) xs"
    by (auto simp: monitor_start(2) pio_run_is)
  with pm.deliver_law [OF s(2), of m] show ?thesis by auto
qed

text \<open>Two tasks watch the same pin; one of them stops.\<close>

definition watch_example :: "watch_op list" where
  "watch_example = [Watch (\<lambda>_. 0) 5 3, Watch (\<lambda>_. 8) 6 3, Watch (\<lambda>_. 8) 6 40, Unwatch 5 3]"

theorem pio_monitor_refines_watch_witness:
  "\<exists>s s' out. for_res pio_run watch_example PioMonitorInit = Inr s
    \<and> pioHandler s (MESSAGE_PIO_CHANGED \<lparr>mpc_state = 0, mpc_state16to31 = 0, mpc_bank = 0\<rparr>) = Inr (s', out)
    \<and> copies 5 out = 0 \<and> copies 6 out = 1"
proof -
  let ?L = "foldl watch_step (\<lambda>_. None) watch_example"
  let ?m = "\<lparr>mpc_state = 0, mpc_state16to31 = 0, mpc_bank = 0\<rparr>"
  have L: "?L (t, p) = (if t = 6 \<and> p = 3 then Some True else if t = 6 \<and> p = 40 then Some False else None)" for t p
    by (simp add: watch_example_def PioCommonPioBank_def PioCommonPioMask_def push_bit_of_1)
  have "changed_pins ?L ?m 5 = {}" "changed_pins ?L ?m 6 = {3}"
    unfolding changed_pins_def
    by (auto simp: L PioMonitorIsPioInMessage_def PioCommonPioBank_def message_state_def split: if_splits)
  moreover have "watch_once (\<lambda>_. None) watch_example" by (simp add: watch_example_def)
  ultimately show ?thesis
    using pio_monitor_refines_watch [of watch_example ?m] by (auto simp del: foldl_Cons)
qed

text \<open>
  Enabling the monitor debounces exactly the watched pins: after any history as above
  over the 96 pins, the monitor hands each of the three banks to the debouncing hardware with the mask of
  the pins some task watches and the parameters that were set, and then confirms to the
  clients. Nothing outside the array of masks is written.
\<close>

theorem pio_monitor_debounces_watched:
  assumes "watch_once (\<lambda>_. None) xs" and "\<forall>t p. foldl watch_step (\<lambda>_. None) xs (t, p) \<noteq> None \<longrightarrow> p < 96"
  shows "\<exists>s masks. for_res pio_run xs PioMonitorInit = Inr s
    \<and> PioMonitorEnable (PioMonitorSetDebounceParameters s reads period) =
        Inr (MessagePioTask # map (\<lambda>bank. PioDebounce32Bank bank (masks bank) reads period) [0..<PIOM_NUM_BANKS]
          @ map (\<lambda>c. SendEnableCfm (pm_task c)) (pm_clients s))
    \<and> (\<forall>bank < PIOM_NUM_BANKS. \<forall>b < 32.
        bit (masks bank) b = (\<exists>t. foldl watch_step (\<lambda>_. None) xs (t, 32 * bank + b) \<noteq> None))"
proof -
  from pm.run_refines [OF monitor_start(1)] assms(1) obtain s where
    s: "for_res pio_run xs PioMonitorInit = Inr s" "monitor_ok s" "level s = foldl watch_step (\<lambda>_. None) xs"
    by (auto simp: monitor_start(2) pio_run_is)
  let ?s = "PioMonitorSetDebounceParameters s reads period"
  have "monitor_ok ?s" "level ?s = level s"
    using s(2) by (simp_all add: PioMonitorSetDebounceParameters_def monitor_ok_def level_def)
  with updateAllDebounced_ok [of ?s] assms(2) s(3) obtain masks where
    "updateAllDebounced ?s = Inr (map (\<lambda>bank. PioDebounce32Bank bank (masks bank) reads period) [0..<3])"
    "\<forall>bank < 3. \<forall>b. bit (masks bank) b \<longleftrightarrow> b < 32 \<and> (\<exists>t. level s (t, 32 * bank + b) \<noteq> None)"
    by (auto simp: PioMonitorSetDebounceParameters_def)
  then show ?thesis using s(1,3)
    by (intro exI [of _ s] exI [of _ masks])
      (auto simp: PioMonitorEnable_def enableClients_def PIOM_NUM_BANKS_def PioMonitorSetDebounceParameters_def)
qed

theorem pio_monitor_debounces_watched_witness:
  "\<exists>s masks. for_res pio_run watch_example PioMonitorInit = Inr s
    \<and> PioMonitorEnable (PioMonitorSetDebounceParameters s 4 5) =
        Inr (MessagePioTask # map (\<lambda>bank. PioDebounce32Bank bank (masks bank) 4 5) [0..<PIOM_NUM_BANKS]
          @ map (\<lambda>c. SendEnableCfm (pm_task c)) (pm_clients s))
    \<and> bit (masks 0) 3 \<and> bit (masks 1) 8 \<and> \<not> bit (masks 1) 9"
proof -
  have L: "foldl watch_step (\<lambda>_. None) watch_example (t, p) \<noteq> None \<longleftrightarrow> t = 6 \<and> (p = 3 \<or> p = 40)" for t p
    by (auto simp: watch_example_def)
  have once: "watch_once (\<lambda>_. None) watch_example" by (simp add: watch_example_def)
  have bound: "\<forall>t p. foldl watch_step (\<lambda>_. None) watch_example (t, p) \<noteq> None \<longrightarrow> p < 96"
    unfolding L by auto
  from pio_monitor_debounces_watched [where reads = 4 and period = 5, OF once bound] obtain s masks where
    s: "for_res pio_run watch_example PioMonitorInit = Inr s"
    "PioMonitorEnable (PioMonitorSetDebounceParameters s 4 5) =
        Inr (MessagePioTask # map (\<lambda>bank. PioDebounce32Bank bank (masks bank) 4 5) [0..<PIOM_NUM_BANKS]
          @ map (\<lambda>c. SendEnableCfm (pm_task c)) (pm_clients s))"
    "\<forall>bank < PIOM_NUM_BANKS. \<forall>b < 32. bit (masks bank) b =
       (\<exists>t. foldl watch_step (\<lambda>_. None) watch_example (t, 32 * bank + b) \<noteq> None)"
    by blast
  from s(3) have "bit (masks 0) 3" "bit (masks 1) 8" "\<not> bit (masks 1) 9"
    unfolding L by (simp_all add: PIOM_NUM_BANKS_def)
  with s(1,2) show ?thesis by blast
qed

end
