(* ===== verification/Input_Event_Manager.thy ===== *)
theory Input_Event_Manager
  imports Task_List Pio_Monitor
begin

text \<open>
  The input event manager (\<^verbatim>\<open>adk/src/libs/input_event_manager/input_event_manager.c\<close>): it turns
  the levels of the input pins into button messages, by a table of actions. An action is
  entered when all its input events are on, released when one of them goes off; messages are
  sent on entry, on release, after being held for a time, on release after that time, and
  for a number of clicks.

  A pointer to an action is its index in the table. The timers are the messages the manager
  sends to itself with a delay: the list of messages not yet delivered, in the order they
  were sent. Any of them may be delivered next, so what is shown holds whatever the delays
  are. The button tables, the pins and the answers of the operating system are parameters.
\<close>

section \<open>Model\<close>

definition NUMBER_OF_PIO_BANKS :: nat where "NUMBER_OF_PIO_BANKS = 3"
definition IEM_NUM_PIOS :: nat where "IEM_NUM_PIOS = NUMBER_OF_PIO_BANKS * 32"
definition MULTI_CLICK_TIMEOUT :: u32 where "MULTI_CLICK_TIMEOUT = 500"

datatype InputEventAction = ENTER | HELD | RELEASE | HELD_RELEASE | MULTI_CLICK

record InputActionMessage =
  ia_bits :: u32
  ia_mask :: u32
  ia_action :: InputEventAction
  ia_timeout :: u16
  ia_repeat :: u16
  ia_count :: u16
  ia_message :: message_id

record InputEventConfig =
  pio_to_iem_id :: "int list"
  pio_input_mask :: "u32 list"
  cfg_debounce_reads :: u16
  cfg_debounce_period :: u16

datatype multiclick_state = IEM_STATE_MULTICLICK_IDLE | IEM_STATE_MULTICLICK_COUNTING

record InputMultiClickState =
  mc_mask :: u32
  mc_state :: multiclick_state
  n_clicks :: u16

text \<open>A message to itself, with the action it carries and its delay.\<close>

datatype iem_timer =
    IEM_INTERNAL_HELD_TIMER nat u32
  | IEM_INTERNAL_REPEAT_TIMER u32
  | IEM_INTERNAL_HELD_RELEASE_TIMER nat u32
  | IEM_INTERNAL_MULTI_CLICK_TIMER nat u32

fun is_held_timer :: "iem_timer \<Rightarrow> bool" where
  "is_held_timer (IEM_INTERNAL_HELD_TIMER _ _) = True"
| "is_held_timer _ = False"

fun is_repeat_timer :: "iem_timer \<Rightarrow> bool" where
  "is_repeat_timer (IEM_INTERNAL_REPEAT_TIMER _) = True"
| "is_repeat_timer _ = False"

fun is_held_release_timer :: "iem_timer \<Rightarrow> bool" where
  "is_held_release_timer (IEM_INTERNAL_HELD_RELEASE_TIMER _ _) = True"
| "is_held_release_timer _ = False"

fun is_multi_click_timer :: "iem_timer \<Rightarrow> bool" where
  "is_multi_click_timer (IEM_INTERNAL_MULTI_CLICK_TIMER _ _) = True"
| "is_multi_click_timer _ = False"

text \<open>The state, with the messages that wait for the task and those sent to the clients.\<close>

record InputEventState =
  client_tasks :: task_list
  action_table :: "InputActionMessage list"
  num_action_messages :: nat
  multi_click_state :: InputMultiClickState
  input_event_bits :: u32
  repeat_action :: "nat option"
  held_release :: "nat option"
  input_config :: InputEventConfig
  pio_state :: "u32 list"
  numActivePios :: u16
  maxActivePios :: u16
  pending :: "iem_timer list"
  sent :: "unit task_list_send list"

definition MessageSendLater :: "InputEventState \<Rightarrow> iem_timer \<Rightarrow> InputEventState" where
  "MessageSendLater s t = s\<lparr>pending := pending s @ [t]\<rparr>"

text \<open>Cancelling tells whether there was a message to cancel.\<close>

definition MessageCancelAll :: "InputEventState \<Rightarrow> (iem_timer \<Rightarrow> bool) \<Rightarrow> InputEventState \<times> bool" where
  "MessageCancelAll s P = (s\<lparr>pending := filter (\<lambda>t. \<not> P t) (pending s)\<rparr>, \<exists>t \<in> set (pending s). P t)"

definition send_clients :: "InputEventState \<Rightarrow> message_id \<Rightarrow> InputEventState res" where
  "send_clients s mid = res_bind (TaskList_MessageSendId (client_tasks s) mid) (\<lambda>out.
     Inr (s\<lparr>sent := sent s @ out\<rparr>))"

definition actionIsPress :: "u32 \<Rightarrow> InputActionMessage \<Rightarrow> bool" where
  "actionIsPress bits a \<longleftrightarrow> ia_bits a = (bits AND ia_mask a)"

definition getPreviousBitState :: "InputEventState \<Rightarrow> InputActionMessage \<Rightarrow> bool" where
  "getPreviousBitState s a \<longleftrightarrow> ia_bits a = (input_event_bits s AND ia_mask a)"

definition actionIsRelease :: "InputEventState \<Rightarrow> InputActionMessage \<Rightarrow> u32 \<Rightarrow> bool" where
  "actionIsRelease s a bits \<longleftrightarrow> getPreviousBitState s a \<and> \<not> actionIsPress bits a"

definition enterAction :: "InputEventState \<Rightarrow> nat \<Rightarrow> InputActionMessage \<Rightarrow> u32 \<Rightarrow> InputEventState res" where
  "enterAction s i a bits =
     (if actionIsPress bits a then
        res_bind (send_clients (fst (MessageCancelAll s is_repeat_timer)) (ia_message a)) (\<lambda>s.
          Inr (if ia_repeat a \<noteq> 0
               then MessageSendLater (s\<lparr>repeat_action := Some i\<rparr>) (IEM_INTERNAL_REPEAT_TIMER (ucast (ia_repeat a)))
               else s\<lparr>repeat_action := None\<rparr>))
      else if ia_repeat a \<noteq> 0 \<and> repeat_action s = Some i \<and> actionIsRelease s a bits
      then Inr ((fst (MessageCancelAll s is_repeat_timer))\<lparr>repeat_action := None\<rparr>)
      else Inr s)"

definition releaseAction :: "InputEventState \<Rightarrow> InputActionMessage \<Rightarrow> u32 \<Rightarrow> InputEventState res" where
  "releaseAction s a bits = (if actionIsRelease s a bits then send_clients s (ia_message a) else Inr s)"

definition heldActionButtonDownAction :: "InputEventState \<Rightarrow> nat \<Rightarrow> InputActionMessage \<Rightarrow> InputEventState" where
  "heldActionButtonDownAction s i a = MessageSendLater s (IEM_INTERNAL_HELD_TIMER i (ucast (ia_timeout a)))"

definition heldActionButtonReleaseAction :: "InputEventState \<Rightarrow> InputEventState" where
  "heldActionButtonReleaseAction s = (case MessageCancelAll s is_held_timer of (s, cancelled) \<Rightarrow>
     if \<not> cancelled then fst (MessageCancelAll s is_repeat_timer) else s)"

definition heldAction :: "InputEventState \<Rightarrow> nat \<Rightarrow> InputActionMessage \<Rightarrow> u32 \<Rightarrow> InputEventState" where
  "heldAction s i a bits =
     (if actionIsPress bits a then heldActionButtonDownAction s i a
      else if actionIsRelease s a bits then heldActionButtonReleaseAction s
      else s)"

definition heldReleaseButtonDownAction :: "InputEventState \<Rightarrow> nat \<Rightarrow> InputActionMessage \<Rightarrow> InputEventState" where
  "heldReleaseButtonDownAction s i a =
     (MessageSendLater s (IEM_INTERNAL_HELD_RELEASE_TIMER i (ucast (ia_timeout a))))\<lparr>held_release := None\<rparr>"

definition heldReleaseButtonReleaseAction :: "InputEventState \<Rightarrow> nat \<Rightarrow> InputActionMessage \<Rightarrow> InputEventState res" where
  "heldReleaseButtonReleaseAction s i a =
     (let s = fst (MessageCancelAll s is_held_release_timer) in
      if held_release s = Some i then send_clients (s\<lparr>held_release := None\<rparr>) (ia_message a) else Inr s)"

definition heldReleaseAction :: "InputEventState \<Rightarrow> nat \<Rightarrow> InputActionMessage \<Rightarrow> u32 \<Rightarrow> InputEventState res" where
  "heldReleaseAction s i a bits =
     (if actionIsPress bits a then Inr (heldReleaseButtonDownAction s i a)
      else if actionIsRelease s a bits then heldReleaseButtonReleaseAction s i a
      else Inr s)"

definition multiClickEnd :: "InputEventState \<Rightarrow> InputEventState" where
  "multiClickEnd s = (fst (MessageCancelAll s is_multi_click_timer))\<lparr>multi_click_state :=
     \<lparr>mc_mask = 0, mc_state = IEM_STATE_MULTICLICK_IDLE, n_clicks = 0\<rparr>\<rparr>"

definition multiClickReStartTimer :: "InputEventState \<Rightarrow> nat \<Rightarrow> InputEventState" where
  "multiClickReStartTimer s i =
     MessageSendLater (fst (MessageCancelAll s is_multi_click_timer)) (IEM_INTERNAL_MULTI_CLICK_TIMER i MULTI_CLICK_TIMEOUT)"

definition multiClickCount :: "InputEventState \<Rightarrow> InputEventState" where
  "multiClickCount s = s\<lparr>multi_click_state := (multi_click_state s)\<lparr>n_clicks := n_clicks (multi_click_state s) + 1\<rparr>\<rparr>"

definition multiClickStart :: "InputEventState \<Rightarrow> nat \<Rightarrow> InputActionMessage \<Rightarrow> InputEventState" where
  "multiClickStart s i a =
     (let s = fst (MessageCancelAll s is_multi_click_timer);
          s = s\<lparr>multi_click_state :=
                \<lparr>mc_mask = ia_mask a, mc_state = IEM_STATE_MULTICLICK_COUNTING, n_clicks = 0\<rparr>\<rparr>
      in multiClickReStartTimer s i)"

definition multiClickAction :: "InputEventState \<Rightarrow> nat \<Rightarrow> InputActionMessage \<Rightarrow> u32 \<Rightarrow> InputEventState" where
  "multiClickAction s i a bits = (case mc_state (multi_click_state s) of
     IEM_STATE_MULTICLICK_IDLE \<Rightarrow> if actionIsPress bits a then multiClickStart s i a else s
   | IEM_STATE_MULTICLICK_COUNTING \<Rightarrow>
       if actionIsPress bits a then
         if mc_mask (multi_click_state s) \<noteq> ia_mask a then multiClickStart s i a else multiClickReStartTimer s i
       else if actionIsRelease s a bits then
         if mc_mask (multi_click_state s) = ia_mask a then multiClickCount s else s
       else s)"

text \<open>One turn of the loop over the table; the flag says that a multi-click entry was processed.\<close>

definition process_action ::
  "u32 \<Rightarrow> nat \<Rightarrow> InputEventState \<times> bool \<Rightarrow> (InputEventState \<times> bool) res" where
  "process_action bits i = (\<lambda>(s, flag_multiclick_processed).
     res_bind (array_get (action_table s) i) (\<lambda>a.
       if (input_event_bits s XOR bits) AND ia_mask a \<noteq> 0 then
         case ia_action a of
           ENTER \<Rightarrow> res_bind (enterAction s i a bits) (\<lambda>s. Inr (s, flag_multiclick_processed))
         | RELEASE \<Rightarrow> res_bind (releaseAction s a bits) (\<lambda>s. Inr (s, flag_multiclick_processed))
         | MULTI_CLICK \<Rightarrow>
             if \<not> flag_multiclick_processed then Inr (multiClickAction s i a bits, True)
             else Inr (s, flag_multiclick_processed)
         | HELD \<Rightarrow> Inr (heldAction s i a bits, flag_multiclick_processed)
         | HELD_RELEASE \<Rightarrow> res_bind (heldReleaseAction s i a bits) (\<lambda>s. Inr (s, flag_multiclick_processed))
       else Inr (s, flag_multiclick_processed)))"

definition inputEventsChanged :: "InputEventState \<Rightarrow> u32 \<Rightarrow> InputEventState res" where
  "inputEventsChanged s bits =
     res_bind (for_res (process_action bits) [0..<num_action_messages s] (s, False)) (\<lambda>(s, _).
       Inr (s\<lparr>input_event_bits := bits\<rparr>))"

text \<open>
  Shifting by a negative number or by the width and more is undefined; it counts as a bad
  access here.
\<close>

definition shift_1UL :: "int \<Rightarrow> u32 res" where
  "shift_1UL n = (if 0 \<le> n \<and> n < 32 then Inr (push_bit (nat n) 1) else Inl BadAccess)"

definition calculateInputEvents :: "InputEventState \<Rightarrow> u32 res" where
  "calculateInputEvents s =
     for_res (\<lambda>bank bits. res_bind (array_get (pio_state s) bank) (\<lambda>st.
         for_res (\<lambda>p bits.
             if st AND push_bit p 1 \<noteq> 0
             then res_bind (array_get (pio_to_iem_id (input_config s)) (bank * 32 + p)) (\<lambda>n.
                    res_bind (shift_1UL n) (\<lambda>b. Inr (bits OR b)))
             else Inr bits) [0..<32] bits))
       [0..<NUMBER_OF_PIO_BANKS] 0"

definition handleMessagePioChangedEvents :: "InputEventState \<Rightarrow> MessagePioChanged \<Rightarrow> InputEventState res" where
  "handleMessagePioChangedEvents s mpc =
     (let st = (ucast (mpc_state mpc) + push_bit 16 (ucast (mpc_state16to31 mpc))) XOR 0x1C;
          bank = unat (mpc_bank mpc) in
      res_bind (array_get (pio_input_mask (input_config s)) bank) (\<lambda>msk.
      res_bind (array_get (pio_state s) bank) (\<lambda>old.
        if old \<noteq> (st AND msk) then
          let s = s\<lparr>pio_state := (pio_state s)[bank := st AND msk]\<rparr> in
          res_bind (calculateInputEvents s) (inputEventsChanged s)
        else Inr s)))"

text \<open>The levels of the pins when the confirmation arrives are a parameter.\<close>

definition waitForEnableConfirmation :: "(nat \<Rightarrow> u32) \<Rightarrow> InputEventState \<Rightarrow> InputEventState res" where
  "waitForEnableConfirmation PioGet32Bank s =
     (let s = s\<lparr>numActivePios := numActivePios s + 1\<rparr> in
      if numActivePios s = maxActivePios s then
        for_res (\<lambda>bank s. handleMessagePioChangedEvents s
            \<lparr>mpc_state = ucast (PioGet32Bank bank AND 0xFFFF),
             mpc_state16to31 = ucast (drop_bit 16 (PioGet32Bank bank) AND 0xFFFF),
             mpc_bank = word_of_nat bank\<rparr>)
          [0..<NUMBER_OF_PIO_BANKS] s
      else Inr s)"

definition send_multi_clicks :: "InputEventState \<Rightarrow> InputActionMessage \<Rightarrow> InputEventState res" where
  "send_multi_clicks s a = for_res (\<lambda>i s. res_bind (array_get (action_table s) i) (\<lambda>e.
       if ia_action e = MULTI_CLICK \<and> ia_count e = n_clicks (multi_click_state s)
          \<and> ia_bits e = ia_bits a \<and> ia_mask e = ia_mask a
       then send_clients s (ia_message e) else Inr s))
     [0..<num_action_messages s] s"

definition handle_timer :: "InputEventState \<Rightarrow> iem_timer \<Rightarrow> InputEventState res" where
  "handle_timer s t = (case t of
     IEM_INTERNAL_HELD_TIMER i _ \<Rightarrow> res_bind (array_get (action_table s) i) (\<lambda>a.
       res_bind (send_clients (multiClickEnd s) (ia_message a)) (\<lambda>s.
         let s = fst (MessageCancelAll s is_repeat_timer) in
         Inr (if ia_repeat a \<noteq> 0
              then (MessageSendLater s (IEM_INTERNAL_REPEAT_TIMER (ucast (ia_repeat a))))\<lparr>repeat_action := Some i\<rparr>
              else s)))
   | IEM_INTERNAL_REPEAT_TIMER _ \<Rightarrow> (case repeat_action s of
       None \<Rightarrow> Inr s
     | Some i \<Rightarrow> res_bind (array_get (action_table s) i) (\<lambda>a.
         res_bind (send_clients s (ia_message a)) (\<lambda>s.
           Inr (MessageSendLater s (IEM_INTERNAL_REPEAT_TIMER (ucast (ia_repeat a)))))))
   | IEM_INTERNAL_HELD_RELEASE_TIMER i _ \<Rightarrow> Inr (multiClickEnd (s\<lparr>held_release := Some i\<rparr>))
   | IEM_INTERNAL_MULTI_CLICK_TIMER i _ \<Rightarrow> res_bind (array_get (action_table s) i) (\<lambda>a.
       res_bind (if \<not> actionIsPress (input_event_bits s) a then send_multi_clicks s a else Inr s) (\<lambda>s.
         Inr (multiClickEnd s))))"

text \<open>
  The messages of the handler; a message to itself is the one at a position of those that
  wait, from where the operating system takes it before it calls the handler.
\<close>

datatype iem_message =
    IemPioChanged MessagePioChanged
  | IEM_PIO_MONITOR_ENABLE_CFM "nat \<Rightarrow> u32"
  | IemTimer nat
  | IemOther

definition iemHandler :: "InputEventState \<Rightarrow> iem_message \<Rightarrow> InputEventState res" where
  "iemHandler s m = (case m of
     IemPioChanged mpc \<Rightarrow> handleMessagePioChangedEvents s mpc
   | IEM_PIO_MONITOR_ENABLE_CFM g \<Rightarrow> waitForEnableConfirmation g s
   | IemTimer k \<Rightarrow> if k < length (pending s)
       then handle_timer (s\<lparr>pending := remove_at k (pending s)\<rparr>) (pending s ! k) else Inr s
   | IemOther \<Rightarrow> Inr s)"

text \<open>The calls on the pins, with the answers of those that report errors as parameters.\<close>

datatype pio_setup =
    PioSetMapPins32Bank nat u32 u32
  | PioSetDeepSleepEitherLevelBank nat u32 u32
  | PioSetDir32Bank nat u32 u32

definition configurePioHardware ::
  "(nat \<Rightarrow> u32 \<Rightarrow> u32) \<Rightarrow> (nat \<Rightarrow> u32 \<Rightarrow> u32) \<Rightarrow> InputEventConfig \<Rightarrow> pio_setup list res" where
  "configurePioHardware map_result dir_result cfg =
     for_res (\<lambda>bank out. res_bind (array_get (pio_input_mask cfg) bank) (\<lambda>msk.
         res_bind (panic_unless (map_result bank msk = 0)) (\<lambda>_.
         res_bind (panic_unless (dir_result bank msk = 0)) (\<lambda>_.
           Inr (out @ [PioSetMapPins32Bank bank msk msk, PioSetDeepSleepEitherLevelBank bank msk msk,
                       PioSetDir32Bank bank msk 0])))))
       [0..<NUMBER_OF_PIO_BANKS] []"

definition registerForPioEvents ::
  "(nat \<Rightarrow> u32) \<Rightarrow> task \<Rightarrow> InputEventConfig \<Rightarrow> PioMonitorState \<Rightarrow> PioMonitorState res" where
  "registerForPioEvents PioGet32Bank self cfg =
     for_res (\<lambda>p monitor. res_bind (array_get (pio_to_iem_id cfg) p) (\<lambda>n.
       if n \<noteq> - 1 then PioMonitorRegisterTask PioGet32Bank monitor self p else Inr monitor))
     [0..<IEM_NUM_PIOS]"

definition InputEventManager_RegisterClient :: "InputEventState \<Rightarrow> task \<Rightarrow> InputEventState res" where
  "InputEventManager_RegisterClient s t = res_bind (TaskList_AddTask (Some (client_tasks s)) t) (\<lambda>(l, _).
     Inr (s\<lparr>client_tasks := l\<rparr>))"

text \<open>The task of the manager, \<open>self\<close>, is what the monitor is given.\<close>

definition InputEventManagerInit ::
  "(nat \<Rightarrow> u32) \<Rightarrow> (nat \<Rightarrow> u32 \<Rightarrow> u32) \<Rightarrow> (nat \<Rightarrow> u32 \<Rightarrow> u32) \<Rightarrow> task \<Rightarrow> PioMonitorState \<Rightarrow> task \<Rightarrow>
   InputActionMessage list \<Rightarrow> nat \<Rightarrow> InputEventConfig \<Rightarrow>
   (InputEventState \<times> PioMonitorState \<times> pio_setup list) res" where
  "InputEventManagerInit PioGet32Bank map_result dir_result self monitor client table dim cfg =
     res_bind TaskList_Create (\<lambda>l.
     res_bind (TaskList_AddTask (Some l) client) (\<lambda>(l, _).
     res_bind (configurePioHardware map_result dir_result cfg) (\<lambda>out.
     res_bind (registerForPioEvents PioGet32Bank self cfg monitor) (\<lambda>monitor.
       let s = \<lparr>client_tasks = l, action_table = table, num_action_messages = dim,
                multi_click_state = \<lparr>mc_mask = 0, mc_state = IEM_STATE_MULTICLICK_IDLE, n_clicks = 0\<rparr>,
                input_event_bits = 0, repeat_action = None, held_release = None, input_config = cfg,
                pio_state = replicate NUMBER_OF_PIO_BANKS 0, numActivePios = 0, maxActivePios = 1,
                pending = [], sent = []\<rparr>
       in Inr (s, PioMonitorSetDebounceParameters monitor (cfg_debounce_period cfg) (cfg_debounce_reads cfg), out)))))"

section \<open>Sending, and the part of the state that stays\<close>

definition to_clients :: "InputEventState \<Rightarrow> message_id \<Rightarrow> unit task_list_send list" where
  "to_clients s mid = (if tasks (client_tasks s) = [] then []
     else [MessageSendMulticastLater (tasks (client_tasks s) @ [0]) mid None 0])"

lemma send_clients_ok:
  assumes "tl_ok (client_tasks s)"
  shows "send_clients s mid = Inr (s\<lparr>sent := sent s @ to_clients s mid\<rparr>)"
  by (simp add: send_clients_def TaskList_MessageSendId_def to_clients_def MessageSend_ok [OF assms])

definition same_setup :: "InputEventState \<Rightarrow> InputEventState \<Rightarrow> bool" where
  "same_setup s s' \<longleftrightarrow> client_tasks s' = client_tasks s \<and> action_table s' = action_table s
     \<and> num_action_messages s' = num_action_messages s \<and> input_config s' = input_config s
     \<and> pio_state s' = pio_state s \<and> input_event_bits s' = input_event_bits s
     \<and> numActivePios s' = numActivePios s \<and> maxActivePios s' = maxActivePios s"

lemmas iem_defs = MessageSendLater_def MessageCancelAll_def heldActionButtonDownAction_def
  heldActionButtonReleaseAction_def heldAction_def heldReleaseButtonDownAction_def
  heldReleaseButtonReleaseAction_def heldReleaseAction_def multiClickEnd_def multiClickReStartTimer_def
  multiClickCount_def multiClickStart_def multiClickAction_def enterAction_def releaseAction_def

section \<open>The timers\<close>

text \<open>
  An armed action: a held timer or a held-release timer runs for it, or the latter has
  expired and waits for the release. Only pressed actions are armed, and each has at most one timer.
\<close>

definition entry_is :: "InputEventState \<Rightarrow> nat \<Rightarrow> InputEventAction \<Rightarrow> bool" where
  "entry_is s i k \<longleftrightarrow> i < num_action_messages s \<and> ia_action (action_table s ! i) = k"

fun held_index :: "iem_timer \<Rightarrow> nat list" where
  "held_index (IEM_INTERNAL_HELD_TIMER i _) = [i]"
| "held_index _ = []"

fun held_release_index :: "iem_timer \<Rightarrow> nat list" where
  "held_release_index (IEM_INTERNAL_HELD_RELEASE_TIMER i _) = [i]"
| "held_release_index _ = []"

definition held_timers :: "iem_timer list \<Rightarrow> nat list" where
  "held_timers ts = concat (map held_index ts)"

definition held_release_timers :: "iem_timer list \<Rightarrow> nat list" where
  "held_release_timers ts = concat (map held_release_index ts)"

definition armed_ok :: "(nat \<Rightarrow> bool) \<Rightarrow> InputEventState \<Rightarrow> bool" where
  "armed_ok pressed s \<longleftrightarrow>
     distinct (held_timers (pending s)) \<and> (\<forall>i \<in> set (held_timers (pending s)). entry_is s i HELD \<and> pressed i)
   \<and> distinct (held_release_timers (pending s))
   \<and> (\<forall>i \<in> set (held_release_timers (pending s)). entry_is s i HELD_RELEASE \<and> pressed i)
   \<and> (\<forall>i. held_release s = Some i \<longrightarrow> entry_is s i HELD_RELEASE \<and> pressed i)"

definition repeat_ok :: "InputEventState \<Rightarrow> bool" where
  "repeat_ok s \<longleftrightarrow> length (filter is_repeat_timer (pending s)) \<le> 1
     \<and> (filter is_repeat_timer (pending s) \<noteq> [] \<longrightarrow> repeat_action s \<noteq> None)
     \<and> (\<forall>i. repeat_action s = Some i \<longrightarrow> i < num_action_messages s \<and> ia_repeat (action_table s ! i) \<noteq> 0)"

definition clicks_ok :: "InputEventState \<Rightarrow> bool" where
  "clicks_ok s \<longleftrightarrow> (case mc_state (multi_click_state s) of
     IEM_STATE_MULTICLICK_IDLE \<Rightarrow> filter is_multi_click_timer (pending s) = []
       \<and> n_clicks (multi_click_state s) = 0 \<and> mc_mask (multi_click_state s) = 0
   | IEM_STATE_MULTICLICK_COUNTING \<Rightarrow> \<exists>i d. filter is_multi_click_timer (pending s) = [IEM_INTERNAL_MULTI_CLICK_TIMER i d]
       \<and> entry_is s i MULTI_CLICK \<and> mc_mask (multi_click_state s) = ia_mask (action_table s ! i))"

definition timers_ok :: "(nat \<Rightarrow> bool) \<Rightarrow> InputEventState \<Rightarrow> bool" where
  "timers_ok pressed s \<longleftrightarrow> armed_ok pressed s \<and> repeat_ok s \<and> clicks_ok s"

text \<open>Cancelling messages of one kind leaves those of the other kinds.\<close>

lemma held_timers_simps [simp]:
  "held_timers [] = []"
  "held_timers (t # ts) = held_index t @ held_timers ts"
  "held_timers (ts @ us) = held_timers ts @ held_timers us"
  by (simp_all add: held_timers_def)

lemma held_release_timers_simps [simp]:
  "held_release_timers [] = []"
  "held_release_timers (t # ts) = held_release_index t @ held_release_timers ts"
  "held_release_timers (ts @ us) = held_release_timers ts @ held_release_timers us"
  by (simp_all add: held_release_timers_def)

lemma timer_kinds [simp]:
  "\<not> is_held_timer t \<Longrightarrow> held_index t = []"
  "is_repeat_timer t \<Longrightarrow> held_index t = []"
  "is_held_release_timer t \<Longrightarrow> held_index t = []"
  "is_multi_click_timer t \<Longrightarrow> held_index t = []"
  "\<not> is_held_release_timer t \<Longrightarrow> held_release_index t = []"
  "is_held_timer t \<Longrightarrow> held_release_index t = []"
  "is_repeat_timer t \<Longrightarrow> held_release_index t = []"
  "is_multi_click_timer t \<Longrightarrow> held_release_index t = []"
  by (cases t; simp)+

lemma timers_filter [simp]:
  "held_timers (filter (\<lambda>t. \<not> is_held_timer t) ts) = []"
  "held_timers (filter (\<lambda>t. \<not> is_repeat_timer t) ts) = held_timers ts"
  "held_timers (filter (\<lambda>t. \<not> is_held_release_timer t) ts) = held_timers ts"
  "held_timers (filter (\<lambda>t. \<not> is_multi_click_timer t) ts) = held_timers ts"
  "held_release_timers (filter (\<lambda>t. \<not> is_held_release_timer t) ts) = []"
  "held_release_timers (filter (\<lambda>t. \<not> is_held_timer t) ts) = held_release_timers ts"
  "held_release_timers (filter (\<lambda>t. \<not> is_repeat_timer t) ts) = held_release_timers ts"
  "held_release_timers (filter (\<lambda>t. \<not> is_multi_click_timer t) ts) = held_release_timers ts"
  by (induction ts; simp)+

lemma held_timers_none: "\<forall>t \<in> set ts. \<not> is_held_timer t \<Longrightarrow> held_timers ts = []"
  by (induction ts) auto

lemma one_kind [simp]:
  "is_repeat_timer t \<Longrightarrow> \<not> is_held_timer t"
  "is_repeat_timer t \<Longrightarrow> \<not> is_held_release_timer t"
  "is_repeat_timer t \<Longrightarrow> \<not> is_multi_click_timer t"
  "is_multi_click_timer t \<Longrightarrow> \<not> is_held_timer t"
  "is_multi_click_timer t \<Longrightarrow> \<not> is_held_release_timer t"
  "is_multi_click_timer t \<Longrightarrow> \<not> is_repeat_timer t"
  by (cases t; simp)+

lemma filter_other_kind [simp]:
  "filter (\<lambda>t. \<not> is_held_timer t \<and> is_repeat_timer t) ts = filter is_repeat_timer ts"
  "filter (\<lambda>t. \<not> is_held_release_timer t \<and> is_repeat_timer t) ts = filter is_repeat_timer ts"
  "filter (\<lambda>t. \<not> is_multi_click_timer t \<and> is_repeat_timer t) ts = filter is_repeat_timer ts"
  "filter (\<lambda>t. \<not> is_held_timer t \<and> is_multi_click_timer t) ts = filter is_multi_click_timer ts"
  "filter (\<lambda>t. \<not> is_held_release_timer t \<and> is_multi_click_timer t) ts = filter is_multi_click_timer ts"
  "filter (\<lambda>t. \<not> is_repeat_timer t \<and> is_multi_click_timer t) ts = filter is_multi_click_timer ts"
  by (auto intro!: filter_cong)

section \<open>One turn of the loop keeps the timers right\<close>

lemma press_unchanged:
  assumes "(old XOR new) AND ia_mask a = 0"
  shows "actionIsPress new a \<longleftrightarrow> actionIsPress old a"
proof -
  have "(old AND ia_mask a) XOR (new AND ia_mask a) = 0"
    using assms by (simp add: bit_eq_iff bit_simps) blast
  then have "old AND ia_mask a = new AND ia_mask a" by (simp add: bit_eq_iff bit_simps)
  then show ?thesis by (simp add: actionIsPress_def)
qed

lemma press_changed:
  assumes "(old XOR new) AND ia_mask a \<noteq> 0" and "actionIsPress new a"
  shows "\<not> actionIsPress old a"
proof
  assume "actionIsPress old a"
  with assms(2) have "old AND ia_mask a = new AND ia_mask a" by (simp add: actionIsPress_def)
  then have "(old XOR new) AND ia_mask a = 0" by (auto simp: bit_eq_iff bit_simps)
  with assms(1) show False by simp
qed

text \<open>While the loop runs, the entries before the current one are judged by the new events.\<close>

definition pressed_at :: "InputEventState \<Rightarrow> u32 \<Rightarrow> nat \<Rightarrow> nat \<Rightarrow> bool" where
  "pressed_at s new k i = actionIsPress (if i < k then new else input_event_bits s) (action_table s ! i)"

lemma pressed_at_Suc: "pressed_at s new (Suc k) i = (if i = k then actionIsPress new (action_table s ! k) else pressed_at s new k i)"
  by (auto simp: pressed_at_def)

lemma armed_Suc:
  assumes "armed_ok (pressed_at s new k) s"
    and "entry_is s k HELD \<or> entry_is s k HELD_RELEASE \<Longrightarrow> actionIsPress (input_event_bits s) (action_table s ! k) \<Longrightarrow> actionIsPress new (action_table s ! k)"
  shows "armed_ok (pressed_at s new (Suc k)) s"
  using assms by (auto simp: armed_ok_def pressed_at_Suc) (auto simp: pressed_at_def)

lemma entry_is_unique: "entry_is s i k \<Longrightarrow> entry_is s i k' \<longleftrightarrow> k' = k"
  by (auto simp: entry_is_def)

lemma entry_is_setup: "same_setup s s' \<Longrightarrow> entry_is s' = entry_is s"
  by (simp add: entry_is_def same_setup_def fun_eq_iff)

lemma repeat_ok_cong:
  "same_setup s s' \<Longrightarrow> filter is_repeat_timer (pending s') = filter is_repeat_timer (pending s) \<Longrightarrow>
   repeat_action s' = repeat_action s \<Longrightarrow> repeat_ok s' = repeat_ok s"
  by (simp add: repeat_ok_def same_setup_def)

lemma repeat_ok_cancelled:
  "same_setup s s' \<Longrightarrow> filter is_repeat_timer (pending s') = [] \<Longrightarrow>
   repeat_action s' = repeat_action s \<Longrightarrow> repeat_ok s \<Longrightarrow> repeat_ok s'"
  by (simp add: repeat_ok_def same_setup_def)

lemma clicks_ok_cong:
  "same_setup s s' \<Longrightarrow> filter is_multi_click_timer (pending s') = filter is_multi_click_timer (pending s) \<Longrightarrow>
   multi_click_state s' = multi_click_state s \<Longrightarrow> clicks_ok s' = clicks_ok s"
  by (cases "mc_state (multi_click_state s)") (simp_all add: clicks_ok_def entry_is_def same_setup_def)

lemma armed_ok_cong:
  "same_setup s s' \<Longrightarrow> held_timers (pending s') = held_timers (pending s) \<Longrightarrow>
   held_release_timers (pending s') = held_release_timers (pending s) \<Longrightarrow>
   held_release s' = held_release s \<Longrightarrow> armed_ok P s' = armed_ok P s"
  by (simp add: armed_ok_def entry_is_setup)

lemma heldAction_ok:
  assumes ok: "timers_ok (pressed_at s new k) s" and k: "entry_is s k HELD"
    and changed: "(input_event_bits s XOR new) AND ia_mask (action_table s ! k) \<noteq> 0"
  shows "same_setup s (heldAction s k (action_table s ! k) new)
    \<and> timers_ok (pressed_at s new (Suc k)) (heldAction s k (action_table s ! k) new)"
proof -
  have other: "k \<notin> set (held_release_timers (pending s))" "held_release s \<noteq> Some k"
    using ok entry_is_unique [OF k] by (auto simp: timers_ok_def armed_ok_def)
  consider (press) "actionIsPress new (action_table s ! k)"
    | (release) "\<not> actionIsPress new (action_table s ! k)" "actionIsPress (input_event_bits s) (action_table s ! k)"
    | (none) "\<not> actionIsPress new (action_table s ! k)" "\<not> actionIsPress (input_event_bits s) (action_table s ! k)"
    by blast
  then show ?thesis
  proof cases
    case press
    let ?s = "heldActionButtonDownAction s k (action_table s ! k)"
    have f: "same_setup s ?s" "held_timers (pending ?s) = held_timers (pending s) @ [k]"
      "held_release_timers (pending ?s) = held_release_timers (pending s)" "held_release ?s = held_release s"
      by (simp_all add: iem_defs same_setup_def)
    have g: "repeat_ok ?s = repeat_ok s" "clicks_ok ?s = clicks_ok s"
      by (rule repeat_ok_cong [OF f(1)] clicks_ok_cong [OF f(1)]; simp add: iem_defs)+
    have "k \<notin> set (held_timers (pending s))"
      using ok press_changed [OF changed press] by (auto simp: timers_ok_def armed_ok_def pressed_at_def)
    then have "armed_ok (pressed_at s new (Suc k)) ?s"
      using ok f k press other by (auto simp: timers_ok_def armed_ok_def pressed_at_Suc entry_is_setup [OF f(1)])
    with f g ok press show ?thesis by (simp add: heldAction_def timers_ok_def)
  next
    case release
    let ?s = "heldActionButtonReleaseAction s"
    have f: "same_setup s ?s" "held_timers (pending ?s) = []"
      "held_release_timers (pending ?s) = held_release_timers (pending s)" "held_release ?s = held_release s"
      by (simp_all add: iem_defs same_setup_def held_timers_none)
    have "armed_ok (pressed_at s new (Suc k)) ?s"
      using ok f other by (auto simp: timers_ok_def armed_ok_def pressed_at_Suc entry_is_setup [OF f(1)])
    moreover have "clicks_ok ?s = clicks_ok s" by (rule clicks_ok_cong [OF f(1)]; simp add: iem_defs)
    moreover have "repeat_ok s \<longrightarrow> repeat_ok ?s"
      by (auto simp: iem_defs repeat_ok_def)
    ultimately show ?thesis using f(1) ok release
      by (simp add: heldAction_def timers_ok_def actionIsRelease_def getPreviousBitState_def actionIsPress_def)
  next
    case none
    then have "heldAction s k (action_table s ! k) new = s"
      by (simp add: heldAction_def actionIsRelease_def getPreviousBitState_def actionIsPress_def)
    then show ?thesis using ok armed_Suc [of s new k] none by (auto simp: timers_ok_def same_setup_def)
  qed
qed

lemma heldReleaseAction_ok:
  assumes tl: "tl_ok (client_tasks s)" and ok: "timers_ok (pressed_at s new k) s" and k: "entry_is s k HELD_RELEASE"
    and changed: "(input_event_bits s XOR new) AND ia_mask (action_table s ! k) \<noteq> 0"
  shows "\<exists>s'. heldReleaseAction s k (action_table s ! k) new = Inr s' \<and> same_setup s s'
    \<and> timers_ok (pressed_at s new (Suc k)) s'"
proof -
  have other: "k \<notin> set (held_timers (pending s))"
    using ok entry_is_unique [OF k] by (auto simp: timers_ok_def armed_ok_def)
  consider (press) "actionIsPress new (action_table s ! k)"
    | (release) "\<not> actionIsPress new (action_table s ! k)" "actionIsPress (input_event_bits s) (action_table s ! k)"
    | (none) "\<not> actionIsPress new (action_table s ! k)" "\<not> actionIsPress (input_event_bits s) (action_table s ! k)"
    by blast
  then show ?thesis
  proof cases
    case press
    let ?s = "heldReleaseButtonDownAction s k (action_table s ! k)"
    have f: "same_setup s ?s" "held_timers (pending ?s) = held_timers (pending s)"
      "held_release_timers (pending ?s) = held_release_timers (pending s) @ [k]" "held_release ?s = None"
      by (simp_all add: iem_defs same_setup_def)
    have g: "repeat_ok ?s = repeat_ok s" "clicks_ok ?s = clicks_ok s"
      by (rule repeat_ok_cong [OF f(1)] clicks_ok_cong [OF f(1)]; simp add: iem_defs)+
    have "k \<notin> set (held_release_timers (pending s))"
      using ok press_changed [OF changed press] by (auto simp: timers_ok_def armed_ok_def pressed_at_def)
    then have "armed_ok (pressed_at s new (Suc k)) ?s"
      using ok f k press other by (auto simp: timers_ok_def armed_ok_def pressed_at_Suc entry_is_setup [OF f(1)])
    with f g ok press show ?thesis by (simp add: heldReleaseAction_def timers_ok_def)
  next
    case release
    let ?c = "fst (MessageCancelAll s is_held_release_timer)"
    let ?s = "if held_release s = Some k
      then ?c\<lparr>held_release := None, sent := sent s @ to_clients s (ia_message (action_table s ! k))\<rparr> else ?c"
    have "heldReleaseButtonReleaseAction s k (action_table s ! k) = Inr ?s"
      using tl by (simp add: heldReleaseButtonReleaseAction_def MessageCancelAll_def send_clients_ok to_clients_def)
    then have h: "heldReleaseAction s k (action_table s ! k) new = Inr ?s"
      using release by (simp add: heldReleaseAction_def actionIsRelease_def getPreviousBitState_def actionIsPress_def)
    have f: "same_setup s ?s" "held_timers (pending ?s) = held_timers (pending s)" "held_release_timers (pending ?s) = []"
      "held_release ?s \<noteq> Some k" "held_release ?s = None \<or> held_release ?s = held_release s"
      by (simp_all add: MessageCancelAll_def same_setup_def)
    have g: "repeat_ok ?s = repeat_ok s" "clicks_ok ?s = clicks_ok s"
      by (rule repeat_ok_cong [OF f(1)] clicks_ok_cong [OF f(1)]; simp add: MessageCancelAll_def)+
    have "armed_ok (pressed_at s new (Suc k)) ?s"
      unfolding armed_ok_def f(2,3) entry_is_setup [OF f(1)]
      using ok f(4,5) other by (auto simp: timers_ok_def armed_ok_def pressed_at_Suc)
    with f(1) g ok h show ?thesis by (auto simp: timers_ok_def)
  next
    case none
    then have "heldReleaseAction s k (action_table s ! k) new = Inr s"
      by (simp add: heldReleaseAction_def actionIsRelease_def getPreviousBitState_def actionIsPress_def)
    then show ?thesis using ok armed_Suc [of s new k] none by (auto simp: timers_ok_def same_setup_def)
  qed
qed

text \<open>The other actions leave the held timers alone.\<close>

lemma timers_Suc_other:
  assumes ok: "timers_ok (pressed_at s new k) s" and "same_setup s s'"
    and "\<not> entry_is s k HELD" and "\<not> entry_is s k HELD_RELEASE"
    and "held_timers (pending s') = held_timers (pending s)"
    and "held_release_timers (pending s') = held_release_timers (pending s)"
    and "held_release s' = held_release s" and "repeat_ok s'" and "clicks_ok s'"
  shows "timers_ok (pressed_at s new (Suc k)) s'"
proof -
  have "armed_ok (pressed_at s new (Suc k)) s"
    using ok assms(3,4) by (intro armed_Suc) (auto simp: timers_ok_def)
  with armed_ok_cong [OF assms(2,5-7)] assms(8,9) show ?thesis by (simp add: timers_ok_def)
qed

lemma enterAction_ok:
  assumes tl: "tl_ok (client_tasks s)" and ok: "timers_ok (pressed_at s new k) s" and k: "entry_is s k ENTER"
  shows "\<exists>s'. enterAction s k (action_table s ! k) new = Inr s' \<and> same_setup s s'
    \<and> timers_ok (pressed_at s new (Suc k)) s'"
proof -
  let ?a = "action_table s ! k"
  let ?c = "fst (MessageCancelAll s is_repeat_timer)"
  let ?p = "?c\<lparr>sent := sent s @ to_clients s (ia_message ?a)\<rparr>"
  let ?s = "if actionIsPress new ?a then
      (if ia_repeat ?a \<noteq> 0 then ?p\<lparr>repeat_action := Some k, pending := pending ?c @ [IEM_INTERNAL_REPEAT_TIMER (ucast (ia_repeat ?a))]\<rparr>
       else ?p\<lparr>repeat_action := None\<rparr>)
    else if ia_repeat ?a \<noteq> 0 \<and> repeat_action s = Some k \<and> actionIsRelease s ?a new then ?c\<lparr>repeat_action := None\<rparr> else s"
  have e: "enterAction s k ?a new = Inr ?s"
    using tl by (simp add: enterAction_def MessageCancelAll_def MessageSendLater_def send_clients_ok to_clients_def)
  have f: "same_setup s ?s" "held_timers (pending ?s) = held_timers (pending s)"
    "held_release_timers (pending ?s) = held_release_timers (pending s)" "held_release ?s = held_release s"
    by (simp_all add: MessageCancelAll_def same_setup_def)
  have "clicks_ok ?s = clicks_ok s" by (rule clicks_ok_cong [OF f(1)]; simp add: MessageCancelAll_def)
  with ok have c: "clicks_ok ?s" by (simp only: timers_ok_def)
  have r: "repeat_ok ?s"
    using ok k by (auto simp: repeat_ok_def timers_ok_def MessageCancelAll_def entry_is_def)
  have n: "\<not> entry_is s k HELD" "\<not> entry_is s k HELD_RELEASE" using entry_is_unique [OF k] by simp_all
  from timers_Suc_other [OF ok f(1) n f(2-4) r c] e f(1) show ?thesis by blast
qed

lemma releaseAction_ok:
  assumes tl: "tl_ok (client_tasks s)" and ok: "timers_ok (pressed_at s new k) s" and k: "entry_is s k RELEASE"
  shows "\<exists>s'. releaseAction s (action_table s ! k) new = Inr s' \<and> same_setup s s'
    \<and> timers_ok (pressed_at s new (Suc k)) s'"
proof -
  let ?s = "if actionIsRelease s (action_table s ! k) new
    then s\<lparr>sent := sent s @ to_clients s (ia_message (action_table s ! k))\<rparr> else s"
  have e: "releaseAction s (action_table s ! k) new = Inr ?s" using tl by (simp add: releaseAction_def send_clients_ok)
  have f: "same_setup s ?s" by (simp add: same_setup_def)
  have "repeat_ok ?s = repeat_ok s" "clicks_ok ?s = clicks_ok s"
    by (rule repeat_ok_cong [OF f] clicks_ok_cong [OF f]; simp)+
  with f have "timers_ok (pressed_at s new (Suc k)) ?s"
    using ok by (intro timers_Suc_other [OF ok f]) (auto simp: timers_ok_def entry_is_unique [OF k])
  with e f show ?thesis by auto
qed

definition clicks_only :: "InputEventState \<Rightarrow> InputEventState \<Rightarrow> bool" where
  "clicks_only s s' \<longleftrightarrow> same_setup s s' \<and> held_timers (pending s') = held_timers (pending s)
     \<and> held_release_timers (pending s') = held_release_timers (pending s) \<and> held_release s' = held_release s
     \<and> filter is_repeat_timer (pending s') = filter is_repeat_timer (pending s)
     \<and> repeat_action s' = repeat_action s \<and> sent s' = sent s"

lemma clicks_only_simps [simp]:
  "clicks_only s s"
  "clicks_only s (multiClickEnd s)"
  "clicks_only s (multiClickReStartTimer s i)"
  "clicks_only s (multiClickCount s)"
  "clicks_only s (multiClickStart s i a)"
  by (simp_all add: clicks_only_def same_setup_def multiClickEnd_def multiClickReStartTimer_def
      multiClickCount_def multiClickStart_def MessageCancelAll_def MessageSendLater_def)

lemma clicks_only_action: "clicks_only s (multiClickAction s i a bits)"
  by (cases "mc_state (multi_click_state s)") (simp_all add: multiClickAction_def)

lemma clicks_ok_end: "clicks_ok (multiClickEnd s)"
  by (simp add: clicks_ok_def multiClickEnd_def MessageCancelAll_def)

lemma clicks_ok_start: "entry_is s i MULTI_CLICK \<Longrightarrow> clicks_ok (multiClickStart s i (action_table s ! i))"
  by (simp add: clicks_ok_def multiClickStart_def multiClickReStartTimer_def MessageCancelAll_def
      MessageSendLater_def entry_is_def)

lemma clicks_ok_action:
  assumes "clicks_ok s" and "entry_is s i MULTI_CLICK"
  shows "clicks_ok (multiClickAction s i (action_table s ! i) bits)"
proof (cases "mc_state (multi_click_state s)")
  case IEM_STATE_MULTICLICK_IDLE
  with assms show ?thesis by (simp add: multiClickAction_def clicks_ok_start)
next
  case IEM_STATE_MULTICLICK_COUNTING
  have "clicks_ok (multiClickReStartTimer s i)" if "mc_mask (multi_click_state s) = ia_mask (action_table s ! i)"
    using that assms IEM_STATE_MULTICLICK_COUNTING
    by (simp add: clicks_ok_def multiClickReStartTimer_def MessageCancelAll_def MessageSendLater_def entry_is_def)
  moreover have "clicks_ok (multiClickCount s)"
    using assms IEM_STATE_MULTICLICK_COUNTING by (auto simp: clicks_ok_def multiClickCount_def entry_is_def)
  ultimately show ?thesis using assms IEM_STATE_MULTICLICK_COUNTING
    by (simp add: multiClickAction_def clicks_ok_start)
qed

lemma multiClickAction_ok:
  assumes ok: "timers_ok (pressed_at s new k) s" and k: "entry_is s k MULTI_CLICK"
  shows "same_setup s (multiClickAction s k (action_table s ! k) new)
    \<and> timers_ok (pressed_at s new (Suc k)) (multiClickAction s k (action_table s ! k) new)"
proof -
  let ?s = "multiClickAction s k (action_table s ! k) new"
  have f: "same_setup s ?s" "held_timers (pending ?s) = held_timers (pending s)"
    "held_release_timers (pending ?s) = held_release_timers (pending s)" "held_release ?s = held_release s"
    "filter is_repeat_timer (pending ?s) = filter is_repeat_timer (pending s)" "repeat_action ?s = repeat_action s"
    using clicks_only_action [of s k "action_table s ! k" new] by (simp_all add: clicks_only_def)
  have "repeat_ok ?s = repeat_ok s" by (rule repeat_ok_cong [OF f(1,5,6)])
  with ok have r: "repeat_ok ?s" by (simp only: timers_ok_def)
  have c: "clicks_ok ?s" using ok k clicks_ok_action by (simp add: timers_ok_def)
  have n: "\<not> entry_is s k HELD" "\<not> entry_is s k HELD_RELEASE" using entry_is_unique [OF k] by simp_all
  from timers_Suc_other [OF ok f(1) n f(2-4) r c] f(1) show ?thesis by blast
qed

lemma process_action_ok:
  assumes tl: "tl_ok (client_tasks s)" and ok: "timers_ok (pressed_at s new k) s"
    and k: "k < num_action_messages s" "num_action_messages s \<le> length (action_table s)"
  shows "\<exists>s' f'. process_action new k (s, f) = Inr (s', f') \<and> same_setup s s' \<and> timers_ok (pressed_at s new (Suc k)) s'"
proof (cases "(input_event_bits s XOR new) AND ia_mask (action_table s ! k) = 0")
  case True
  then have "timers_ok (pressed_at s new (Suc k)) s"
    using ok press_unchanged armed_Suc [of s new k] by (auto simp: timers_ok_def)
  with True k show ?thesis by (simp add: process_action_def same_setup_def)
next
  case False
  show ?thesis
  proof (cases "ia_action (action_table s ! k)")
    case ENTER
    with enterAction_ok [OF tl ok] k(1) obtain s' where
      "enterAction s k (action_table s ! k) new = Inr s'" "same_setup s s'" "timers_ok (pressed_at s new (Suc k)) s'"
      by (auto simp: entry_is_def)
    with False ENTER k show ?thesis by (simp add: process_action_def)
  next
    case HELD
    with heldAction_ok [OF ok _ False] False k show ?thesis by (simp add: process_action_def entry_is_def)
  next
    case RELEASE
    with releaseAction_ok [OF tl ok] k(1) obtain s' where
      "releaseAction s (action_table s ! k) new = Inr s'" "same_setup s s'" "timers_ok (pressed_at s new (Suc k)) s'"
      by (auto simp: entry_is_def)
    with False RELEASE k show ?thesis by (simp add: process_action_def)
  next
    case HELD_RELEASE
    with heldReleaseAction_ok [OF tl ok _ False] k(1) obtain s' where
      "heldReleaseAction s k (action_table s ! k) new = Inr s'" "same_setup s s'" "timers_ok (pressed_at s new (Suc k)) s'"
      by (auto simp: entry_is_def)
    with False HELD_RELEASE k show ?thesis by (simp add: process_action_def)
  next
    case MULTI_CLICK
    have "timers_ok (pressed_at s new (Suc k)) s"
      using ok MULTI_CLICK armed_Suc [of s new k] by (auto simp: timers_ok_def entry_is_def)
    with multiClickAction_ok [OF ok] False MULTI_CLICK k show ?thesis
      by (auto simp: process_action_def entry_is_def same_setup_def)
  qed
qed

lemma same_setup_trans: "same_setup s s' \<Longrightarrow> same_setup s' s'' \<Longrightarrow> same_setup s s''"
  by (simp add: same_setup_def)

lemma process_loop_ok:
  assumes "tl_ok (client_tasks s)" and "timers_ok (\<lambda>i. actionIsPress (input_event_bits s) (action_table s ! i)) s"
    and "num_action_messages s \<le> length (action_table s)" and "n \<le> num_action_messages s"
  shows "\<exists>s' f'. for_res (process_action new) [0..<n] (s, f) = Inr (s', f') \<and> same_setup s s' \<and> timers_ok (pressed_at s new n) s'"
  using assms(4)
proof (induction n)
  case 0
  show ?case using assms(2) by (simp add: same_setup_def pressed_at_def [abs_def])
next
  case (Suc n)
  then obtain s' f' where s': "for_res (process_action new) [0..<n] (s, f) = Inr (s', f')" "same_setup s s'"
    "timers_ok (pressed_at s new n) s'" by auto
  have p: "pressed_at s' = pressed_at s" using s'(2) by (simp add: pressed_at_def [abs_def] same_setup_def)
  have "tl_ok (client_tasks s')" "n < num_action_messages s'" "num_action_messages s' \<le> length (action_table s')"
    using s'(2) assms(1,3) Suc.prems by (simp_all add: same_setup_def)
  with process_action_ok [of s' new n f'] s'(3) obtain s'' f'' where
    "process_action new n (s', f') = Inr (s'', f'')" "same_setup s' s''" "timers_ok (pressed_at s new (Suc n)) s''"
    unfolding p by blast
  with s'(1,2) show ?case by (auto simp: for_res_append intro: same_setup_trans)
qed

definition timers_now :: "InputEventState \<Rightarrow> bool" where
  "timers_now s \<longleftrightarrow> timers_ok (\<lambda>i. actionIsPress (input_event_bits s) (action_table s ! i)) s"

lemma inputEventsChanged_ok:
  assumes "tl_ok (client_tasks s)" and "timers_now s" and "num_action_messages s \<le> length (action_table s)"
  shows "\<exists>s'. inputEventsChanged s new = Inr s' \<and> same_setup (s\<lparr>input_event_bits := new\<rparr>) s' \<and> timers_now s'"
proof -
  obtain s1 f1 where s1: "for_res (process_action new) [0..<num_action_messages s] (s, False) = Inr (s1, f1)"
    "same_setup s s1" "timers_ok (pressed_at s new (num_action_messages s)) s1"
    using process_loop_ok [OF assms(1) _ assms(3) order_refl] assms(2) unfolding timers_now_def by blast
  let ?s = "s1\<lparr>input_event_bits := new\<rparr>"
  have "timers_now ?s"
    using s1(2,3)
    by (auto simp: timers_now_def timers_ok_def armed_ok_def repeat_ok_def clicks_ok_def entry_is_def
        pressed_at_def same_setup_def split: multiclick_state.splits)
  with s1(1,2) show ?thesis by (auto simp: inputEventsChanged_def same_setup_def)
qed

section \<open>The input events of the pins\<close>

declare push_bit_of_1 [simp del]

text \<open>
  A configuration that gives every input pin an event number; the build generates such tables.
\<close>

definition config_ok :: "InputEventConfig \<Rightarrow> bool" where
  "config_ok cfg \<longleftrightarrow> length (pio_to_iem_id cfg) = IEM_NUM_PIOS \<and> length (pio_input_mask cfg) = NUMBER_OF_PIO_BANKS
     \<and> (\<forall>bank < NUMBER_OF_PIO_BANKS. \<forall>p < 32. bit (pio_input_mask cfg ! bank) p \<longrightarrow>
          0 \<le> pio_to_iem_id cfg ! (bank * 32 + p) \<and> pio_to_iem_id cfg ! (bank * 32 + p) < 32)"

definition pins_ok :: "InputEventConfig \<Rightarrow> u32 list \<Rightarrow> bool" where
  "pins_ok cfg ps \<longleftrightarrow> length ps = NUMBER_OF_PIO_BANKS
     \<and> (\<forall>bank < NUMBER_OF_PIO_BANKS. \<forall>p. bit (ps ! bank) p \<longrightarrow> bit (pio_input_mask cfg ! bank) p)"

definition bank_events :: "int list \<Rightarrow> nat \<Rightarrow> u32 \<Rightarrow> nat \<Rightarrow> u32 \<Rightarrow> u32 res" where
  "bank_events ids bank st p bits =
     (if st AND push_bit p 1 \<noteq> 0
      then res_bind (array_get ids (bank * 32 + p)) (\<lambda>n. res_bind (shift_1UL n) (\<lambda>b. Inr (bits OR b)))
      else Inr bits)"

lemma bank_events_loop:
  assumes "n \<le> 32" and "bank * 32 + 32 \<le> length ids"
    and "\<And>p. p < 32 \<Longrightarrow> bit st p \<Longrightarrow> 0 \<le> ids ! (bank * 32 + p) \<and> ids ! (bank * 32 + p) < 32"
  shows "\<exists>w. for_res (bank_events ids bank st) [0..<n] bits = Inr w
    \<and> (\<forall>b. bit w b \<longleftrightarrow> bit bits b \<or> (\<exists>p < n. bit st p \<and> ids ! (bank * 32 + p) = int b))"
  using assms(1)
proof (induction n)
  case 0
  show ?case by simp
next
  case (Suc n)
  then obtain w where w: "for_res (bank_events ids bank st) [0..<n] bits = Inr w"
    "\<forall>b. bit w b \<longleftrightarrow> bit bits b \<or> (\<exists>p < n. bit st p \<and> ids ! (bank * 32 + p) = int b)" by auto
  show ?case
  proof (cases "bit st n")
    case False
    then have "bank_events ids bank st n w = Inr w" by (simp add: bank_events_def and_bit_nonzero)
    with w False show ?thesis by (auto simp: for_res_append less_Suc_eq)
  next
    case True
    let ?i = "ids ! (bank * 32 + n)"
    have i: "0 \<le> ?i" "?i < 32" using assms(3) [of n] True Suc.prems by simp_all
    have "bank_events ids bank st n w = Inr (w OR push_bit (nat ?i) 1)"
      using True i assms(2) Suc.prems by (simp add: bank_events_def and_bit_nonzero shift_1UL_def)
    moreover have "bit (w OR push_bit (nat ?i) 1) b \<longleftrightarrow> bit w b \<or> ?i = int b" for b
      using i by (auto simp: bit_or_iff bit_push_bit_iff bit_1_iff)
    ultimately show ?thesis using w True by (auto simp: for_res_append less_Suc_eq)
  qed
qed

lemma calculateInputEvents_ok:
  assumes "config_ok (input_config s)" and "pins_ok (input_config s) (pio_state s)"
  shows "\<exists>w. calculateInputEvents s = Inr w \<and> (\<forall>b. bit w b \<longleftrightarrow>
    (\<exists>bank < NUMBER_OF_PIO_BANKS. \<exists>p < 32. bit (pio_state s ! bank) p
       \<and> pio_to_iem_id (input_config s) ! (bank * 32 + p) = int b))"
proof -
  let ?ids = "pio_to_iem_id (input_config s)"
  let ?outer = "\<lambda>bank bits. res_bind (array_get (pio_state s) bank) (\<lambda>st. for_res (bank_events ?ids bank st) [0..<32] bits)"
  have "n \<le> NUMBER_OF_PIO_BANKS \<Longrightarrow> \<exists>w. for_res ?outer [0..<n] 0 = Inr w \<and> (\<forall>b. bit w b \<longleftrightarrow>
      (\<exists>bank < n. \<exists>p < 32. bit (pio_state s ! bank) p \<and> ?ids ! (bank * 32 + p) = int b))" for n
  proof (induction n)
    case 0
    show ?case by simp
  next
    case (Suc n)
    then obtain w where w: "for_res ?outer [0..<n] 0 = Inr w" "\<forall>b. bit w b \<longleftrightarrow>
      (\<exists>bank < n. \<exists>p < 32. bit (pio_state s ! bank) p \<and> ?ids ! (bank * 32 + p) = int b)" by auto
    have n: "n < NUMBER_OF_PIO_BANKS" "n < length (pio_state s)" "n * 32 + 32 \<le> length ?ids"
      using Suc.prems assms by (auto simp: config_ok_def pins_ok_def IEM_NUM_PIOS_def)
    have "0 \<le> ?ids ! (n * 32 + p) \<and> ?ids ! (n * 32 + p) < 32" if "p < 32" "bit (pio_state s ! n) p" for p
      using assms that n(1) by (auto simp: config_ok_def pins_ok_def)
    then obtain w' where "for_res (bank_events ?ids n (pio_state s ! n)) [0..<32] w = Inr w'"
      "\<forall>b. bit w' b \<longleftrightarrow> bit w b \<or> (\<exists>p < 32. bit (pio_state s ! n) p \<and> ?ids ! (n * 32 + p) = int b)"
      using bank_events_loop [OF order_refl n(3), of "pio_state s ! n" w] by blast
    with n(2) w show ?case by (auto simp: for_res_append less_Suc_eq)
  qed
  from this [OF order_refl] show ?thesis by (simp add: calculateInputEvents_def bank_events_def [abs_def])
qed

lemma calculateInputEvents_cong:
  "pio_state s' = pio_state s \<Longrightarrow> input_config s' = input_config s \<Longrightarrow> calculateInputEvents s' = calculateInputEvents s"
  by (simp add: calculateInputEvents_def cong: if_cong)

section \<open>The invariant\<close>

definition iem_ok :: "InputEventState \<Rightarrow> bool" where
  "iem_ok s \<longleftrightarrow> tl_ok (client_tasks s) \<and> num_action_messages s \<le> length (action_table s)
     \<and> config_ok (input_config s) \<and> pins_ok (input_config s) (pio_state s)
     \<and> calculateInputEvents s = Inr (input_event_bits s) \<and> timers_now s"

definition same_tables :: "InputEventState \<Rightarrow> InputEventState \<Rightarrow> bool" where
  "same_tables s s' \<longleftrightarrow> client_tasks s' = client_tasks s \<and> action_table s' = action_table s
     \<and> num_action_messages s' = num_action_messages s \<and> input_config s' = input_config s"

lemma timers_now_cong:
  assumes "same_tables s s'" and "input_event_bits s' = input_event_bits s" and "pending s' = pending s"
    and "held_release s' = held_release s" and "repeat_action s' = repeat_action s"
    and "multi_click_state s' = multi_click_state s"
  shows "timers_now s' = timers_now s"
proof -
  have "entry_is s' = entry_is s" using assms(1) by (simp add: entry_is_def [abs_def] same_tables_def)
  then show ?thesis using assms
    by (cases "mc_state (multi_click_state s)")
      (simp_all add: timers_now_def timers_ok_def armed_ok_def repeat_ok_def clicks_ok_def same_tables_def)
qed

lemma handle_pio_ok:
  assumes ok: "iem_ok s" and bank: "unat (mpc_bank m) < NUMBER_OF_PIO_BANKS"
  shows "\<exists>s'. handleMessagePioChangedEvents s m = Inr s' \<and> iem_ok s' \<and> same_tables s s'"
proof -
  let ?k = "unat (mpc_bank m)" and ?cfg = "input_config s"
  define st where "st = (ucast (mpc_state m) + push_bit 16 (ucast (mpc_state16to31 m)) :: u32) XOR 0x1C"
  define msk where "msk = pio_input_mask ?cfg ! ?k"
  have l: "length (pio_input_mask ?cfg) = NUMBER_OF_PIO_BANKS" "length (pio_state s) = NUMBER_OF_PIO_BANKS"
    using ok by (simp_all add: iem_ok_def config_ok_def pins_ok_def)
  show ?thesis
  proof (cases "pio_state s ! ?k = (st AND msk)")
    case True
    then have "handleMessagePioChangedEvents s m = Inr s"
      using l bank by (simp add: handleMessagePioChangedEvents_def Let_def st_def msk_def)
    with ok show ?thesis by (simp add: same_tables_def)
  next
    case False
    let ?s = "s\<lparr>pio_state := (pio_state s)[?k := st AND msk]\<rparr>"
    have p: "pins_ok ?cfg (pio_state ?s)"
      using ok bank l by (auto simp: iem_ok_def pins_ok_def nth_list_update msk_def bit_and_iff)
    obtain w where w: "calculateInputEvents ?s = Inr w"
      using calculateInputEvents_ok [of ?s] ok p by (auto simp: iem_ok_def)
    have "timers_now ?s = timers_now s" by (rule timers_now_cong) (simp_all add: same_tables_def)
    with ok inputEventsChanged_ok [of ?s w] obtain s' where
      s': "inputEventsChanged ?s w = Inr s'" "same_setup (?s\<lparr>input_event_bits := w\<rparr>) s'" "timers_now s'"
      by (auto simp: iem_ok_def)
    have "handleMessagePioChangedEvents s m = Inr s'"
      using False l bank w s'(1) by (simp add: handleMessagePioChangedEvents_def Let_def st_def msk_def)
    moreover have "calculateInputEvents s' = calculateInputEvents ?s"
      using s'(2) by (intro calculateInputEvents_cong) (simp_all add: same_setup_def)
    ultimately show ?thesis using ok p w s'(2,3) by (auto simp: iem_ok_def same_setup_def same_tables_def)
  qed
qed

lemma handle_banks_ok:
  assumes "iem_ok s" and "\<forall>bank \<in> set banks. bank < NUMBER_OF_PIO_BANKS"
  shows "\<exists>s'. for_res (\<lambda>bank s. handleMessagePioChangedEvents s
      \<lparr>mpc_state = lo bank, mpc_state16to31 = hi bank, mpc_bank = word_of_nat bank\<rparr>) banks s = Inr s'
    \<and> iem_ok s' \<and> same_tables s s'"
proof (rule for_res_total)
  show "iem_ok s \<and> same_tables s s" using assms(1) by (simp add: same_tables_def)
next
  fix bank s'
  assume "bank \<in> set banks" and s': "iem_ok s' \<and> same_tables s s'"
  then have "unat (word_of_nat bank :: u16) < NUMBER_OF_PIO_BANKS"
    using assms(2) by (auto simp: NUMBER_OF_PIO_BANKS_def unat_of_nat_small)
  with handle_pio_ok s' show "\<exists>t. handleMessagePioChangedEvents s'
      \<lparr>mpc_state = lo bank, mpc_state16to31 = hi bank, mpc_bank = word_of_nat bank\<rparr> = Inr t \<and> iem_ok t \<and> same_tables s t"
    by (fastforce simp: same_tables_def)
qed

lemma iem_ok_count: "iem_ok s \<Longrightarrow> iem_ok (s\<lparr>numActivePios := n\<rparr>) \<and> same_tables s (s\<lparr>numActivePios := n\<rparr>)"
proof -
  assume ok: "iem_ok s"
  let ?s = "s\<lparr>numActivePios := n\<rparr>"
  have "timers_now ?s = timers_now s" "calculateInputEvents ?s = calculateInputEvents s"
    by (rule timers_now_cong calculateInputEvents_cong; simp add: same_tables_def)+
  with ok show ?thesis by (simp add: iem_ok_def same_tables_def)
qed

lemma waitForEnableConfirmation_ok:
  assumes "iem_ok s"
  shows "\<exists>s'. waitForEnableConfirmation g s = Inr s' \<and> iem_ok s' \<and> same_tables s s'"
proof -
  let ?s = "s\<lparr>numActivePios := numActivePios s + 1\<rparr>"
  have s: "iem_ok ?s" "same_tables s ?s" using iem_ok_count [OF assms] by blast+
  obtain s' where "for_res (\<lambda>bank s. handleMessagePioChangedEvents s
            \<lparr>mpc_state = ucast (g bank AND 0xFFFF), mpc_state16to31 = ucast (drop_bit 16 (g bank) AND 0xFFFF),
             mpc_bank = word_of_nat bank\<rparr>) [0..<NUMBER_OF_PIO_BANKS] ?s = Inr s'" "iem_ok s'" "same_tables ?s s'"
    using handle_banks_ok [OF s(1), of "[0..<NUMBER_OF_PIO_BANKS]" "\<lambda>bank. ucast (g bank AND 0xFFFF)"
        "\<lambda>bank. ucast (drop_bit 16 (g bank) AND 0xFFFF)"] by auto
  with s show ?thesis
    by (cases "numActivePios ?s = maxActivePios ?s")
      (simp_all add: waitForEnableConfirmation_def Let_def same_tables_def)
qed

text \<open>Taking a message from those that wait.\<close>

lemma take_message:
  assumes ok: "timers_ok P s" and p: "pending s = A @ t # B"
  defines "s1 \<equiv> s\<lparr>pending := A @ B\<rparr>"
  shows "armed_ok P s1" and "\<not> is_repeat_timer t \<Longrightarrow> repeat_ok s1" and "\<not> is_multi_click_timer t \<Longrightarrow> clicks_ok s1"
    and "is_repeat_timer t \<Longrightarrow> filter is_repeat_timer (A @ B) = [] \<and> repeat_action s \<noteq> None"
    and "\<And>i. i \<in> set (held_index t) \<Longrightarrow> entry_is s i HELD \<and> P i"
    and "\<And>i. i \<in> set (held_release_index t) \<Longrightarrow> entry_is s i HELD_RELEASE \<and> P i \<and> i \<notin> set (held_release_timers (A @ B))"
    and "\<And>i d. t = IEM_INTERNAL_MULTI_CLICK_TIMER i d \<Longrightarrow> entry_is s i MULTI_CLICK"
proof -
  have e: "entry_is s1 = entry_is s" by (simp add: s1_def entry_is_def [abs_def])
  have q: "pending s1 = A @ B" "held_release s1 = held_release s" by (simp_all add: s1_def)
  from ok have "armed_ok P s" by (simp add: timers_ok_def)
  then show "armed_ok P s1" unfolding armed_ok_def e q p by simp blast
  show "\<not> is_repeat_timer t \<Longrightarrow> repeat_ok s1" using ok by (simp add: timers_ok_def repeat_ok_def s1_def p)
  show "clicks_ok s1" if "\<not> is_multi_click_timer t"
  proof -
    have "clicks_ok s1 = clicks_ok s"
      using that by (intro clicks_ok_cong) (simp_all add: s1_def p same_setup_def)
    with ok show ?thesis by (simp add: timers_ok_def)
  qed
  show "is_repeat_timer t \<Longrightarrow> filter is_repeat_timer (A @ B) = [] \<and> repeat_action s \<noteq> None"
    using ok by (simp add: timers_ok_def repeat_ok_def p)
  show "\<And>i. i \<in> set (held_index t) \<Longrightarrow> entry_is s i HELD \<and> P i"
    using ok by (auto simp: timers_ok_def armed_ok_def p)
  show "\<And>i. i \<in> set (held_release_index t) \<Longrightarrow> entry_is s i HELD_RELEASE \<and> P i \<and> i \<notin> set (held_release_timers (A @ B))"
    using ok by (auto simp: timers_ok_def armed_ok_def p)
  show "entry_is s i MULTI_CLICK" if "t = IEM_INTERNAL_MULTI_CLICK_TIMER i d" for i d
    using ok that by (cases "mc_state (multi_click_state s)") (auto simp: timers_ok_def clicks_ok_def p append_eq_Cons_conv)
qed

lemma send_multi_clicks_ok:
  assumes "tl_ok (client_tasks s)" and "num_action_messages s \<le> length (action_table s)"
  shows "send_multi_clicks s a = Inr (s\<lparr>sent := sent s @ concat (map (\<lambda>e. to_clients s (ia_message e))
    (filter (\<lambda>e. ia_action e = MULTI_CLICK \<and> ia_count e = n_clicks (multi_click_state s)
        \<and> ia_bits e = ia_bits a \<and> ia_mask e = ia_mask a) (take (num_action_messages s) (action_table s))))\<rparr>)"
proof -
  let ?Q = "\<lambda>e. ia_action e = MULTI_CLICK \<and> ia_count e = n_clicks (multi_click_state s)
        \<and> ia_bits e = ia_bits a \<and> ia_mask e = ia_mask a"
  let ?body = "\<lambda>i s. res_bind (array_get (action_table s) i) (\<lambda>e.
       if ia_action e = MULTI_CLICK \<and> ia_count e = n_clicks (multi_click_state s)
          \<and> ia_bits e = ia_bits a \<and> ia_mask e = ia_mask a
       then send_clients s (ia_message e) else Inr s)"
  have "n \<le> num_action_messages s \<Longrightarrow> for_res ?body [0..<n] s = Inr (s\<lparr>sent := sent s @
      concat (map (\<lambda>e. to_clients s (ia_message e)) (filter ?Q (take n (action_table s))))\<rparr>)" for n
  proof (induction n)
    case 0
    show ?case by simp
  next
    case (Suc n)
    let ?s = "s\<lparr>sent := sent s @ concat (map (\<lambda>e. to_clients s (ia_message e)) (filter ?Q (take n (action_table s))))\<rparr>"
    have "n < length (action_table s)" using Suc.prems assms(2) by simp
    moreover have "tl_ok (client_tasks ?s)" "to_clients ?s = to_clients s"
      using assms(1) by (simp_all add: to_clients_def fun_eq_iff)
    ultimately show ?case using Suc
      by (simp add: for_res_append take_Suc_conv_app_nth send_clients_ok)
  qed
  from this [OF order_refl] show ?thesis by (simp add: send_multi_clicks_def)
qed

lemma timers_now_clicks:
  assumes "clicks_only s s'" and "clicks_ok s'" and "armed_ok P s" and "repeat_ok s"
    and "P = (\<lambda>i. actionIsPress (input_event_bits s) (action_table s ! i))"
  shows "timers_now s'"
proof -
  have s': "same_setup s s'" using assms(1) by (simp add: clicks_only_def)
  then have "P = (\<lambda>i. actionIsPress (input_event_bits s') (action_table s' ! i))"
    using assms(5) by (simp add: same_setup_def)
  moreover have "armed_ok P s'" using armed_ok_cong [OF s'] assms(1,3) by (simp add: clicks_only_def)
  moreover have "repeat_ok s'" using repeat_ok_cong [OF s'] assms(1,4) by (simp add: clicks_only_def)
  ultimately show ?thesis using assms(2) by (simp add: timers_now_def timers_ok_def)
qed

lemma iem_ok_setup: "iem_ok s \<Longrightarrow> same_setup s s' \<Longrightarrow> timers_now s' \<Longrightarrow> iem_ok s' \<and> same_tables s s'"
  using calculateInputEvents_cong [of s' s] by (simp add: iem_ok_def same_setup_def same_tables_def)

definition held_repeat :: "InputEventState \<Rightarrow> nat \<Rightarrow> InputActionMessage \<Rightarrow> InputEventState" where
  "held_repeat s i a = (if ia_repeat a \<noteq> 0
     then s\<lparr>pending := filter (\<lambda>t. \<not> is_repeat_timer t) (pending s) @ [IEM_INTERNAL_REPEAT_TIMER (ucast (ia_repeat a))],
            repeat_action := Some i\<rparr>
     else s\<lparr>pending := filter (\<lambda>t. \<not> is_repeat_timer t) (pending s)\<rparr>)"

lemma timers_now_held_repeat:
  assumes "timers_now s" and "i < num_action_messages s"
  shows "timers_now (held_repeat s i (action_table s ! i))" and "same_setup s (held_repeat s i a)"
proof -
  show f: "same_setup s (held_repeat s i a)" for a by (simp add: held_repeat_def same_setup_def)
  let ?s = "held_repeat s i (action_table s ! i)"
  have "armed_ok P ?s = armed_ok P s" for P by (rule armed_ok_cong [OF f]; simp add: held_repeat_def)
  moreover have "clicks_ok ?s = clicks_ok s" by (rule clicks_ok_cong [OF f]; simp add: held_repeat_def)
  moreover have "repeat_ok ?s"
    using assms by (auto simp: timers_now_def timers_ok_def repeat_ok_def held_repeat_def)
  ultimately show "timers_now ?s"
    using assms(1) f [of "action_table s ! i"] by (simp add: timers_now_def timers_ok_def same_setup_def)
qed

lemma handle_timer_ok:
  assumes ok: "iem_ok s" and p: "pending s = A @ t # B"
  shows "\<exists>s'. handle_timer (s\<lparr>pending := A @ B\<rparr>) t = Inr s' \<and> iem_ok s' \<and> same_tables s s'"
proof -
  let ?P = "\<lambda>i. actionIsPress (input_event_bits s) (action_table s ! i)"
  let ?s = "s\<lparr>pending := A @ B\<rparr>"
  have ok': "tl_ok (client_tasks s)" "num_action_messages s \<le> length (action_table s)" "timers_ok ?P s"
    using ok by (simp_all add: iem_ok_def timers_now_def)
  note tm = take_message [OF ok'(3) p]
  have fin: "\<exists>s'. handle_timer ?s t = Inr s' \<and> iem_ok s' \<and> same_tables s s'"
    if "handle_timer ?s t = Inr s'" "same_setup s s'" "timers_now s'" for s'
    using iem_ok_setup [OF ok that(2,3)] that(1) by blast
  show ?thesis
  proof (cases t)
    case (IEM_INTERNAL_HELD_TIMER i d)
    let ?a = "action_table s ! i"
    have i: "i < num_action_messages s" "i < length (action_table s)"
      using tm(5) [of i] IEM_INTERNAL_HELD_TIMER ok'(2) by (auto simp: entry_is_def)
    let ?e = "multiClickEnd ?s"
    let ?m = "?e\<lparr>sent := sent ?e @ to_clients ?e (ia_message ?a)\<rparr>"
    have e: "same_setup s ?e" by (simp add: multiClickEnd_def MessageCancelAll_def same_setup_def)
    have "timers_now ?e"
      using tm(1,2) IEM_INTERNAL_HELD_TIMER
      by (intro timers_now_clicks [where s = ?s and P = ?P]) (simp_all add: clicks_ok_end)
    moreover have "timers_now ?m = timers_now ?e" by (rule timers_now_cong) (simp_all add: same_tables_def)
    moreover have m: "same_setup s ?m" using e by (simp add: same_setup_def)
    ultimately have "timers_now (held_repeat ?m i ?a)" "same_setup s (held_repeat ?m i ?a)"
      using timers_now_held_repeat [of ?m i] i(1) same_setup_trans [OF m] by (simp_all add: same_setup_def)
    moreover have "handle_timer ?s t = Inr (held_repeat ?m i ?a)"
      using IEM_INTERNAL_HELD_TIMER i(2) ok'(1) e
      by (simp add: handle_timer_def send_clients_ok same_setup_def held_repeat_def MessageCancelAll_def MessageSendLater_def)
    ultimately show ?thesis by (intro fin)
  next
    case (IEM_INTERNAL_REPEAT_TIMER d)
    then have r: "filter is_repeat_timer (A @ B) = []" "repeat_action s \<noteq> None" using tm(4) by auto
    then obtain i where i: "repeat_action s = Some i" by blast
    have r2: "i < num_action_messages s" "ia_repeat (action_table s ! i) \<noteq> 0"
      using ok'(3) i by (auto simp: timers_ok_def repeat_ok_def)
    let ?a = "action_table s ! i"
    let ?r = "s\<lparr>pending := (A @ B) @ [IEM_INTERNAL_REPEAT_TIMER (ucast (ia_repeat ?a))],
        sent := sent s @ to_clients s (ia_message ?a)\<rparr>"
    have f: "same_setup ?s ?r" "same_setup s ?r" by (simp_all add: same_setup_def)
    have "armed_ok ?P ?r" using armed_ok_cong [OF f(1)] tm(1) by simp
    moreover have "clicks_ok ?r" using clicks_ok_cong [OF f(1)] tm(3) IEM_INTERNAL_REPEAT_TIMER by simp
    moreover have "repeat_ok ?r" using r i r2 by (simp add: repeat_ok_def)
    ultimately have "timers_now ?r" by (simp add: timers_now_def timers_ok_def)
    moreover have "handle_timer ?s t = Inr ?r"
      using IEM_INTERNAL_REPEAT_TIMER i r2(1) ok'(1,2)
      by (simp add: handle_timer_def send_clients_ok MessageSendLater_def to_clients_def)
    ultimately show ?thesis using f(2) by (intro fin)
  next
    case (IEM_INTERNAL_HELD_RELEASE_TIMER i d)
    let ?h = "?s\<lparr>held_release := Some i\<rparr>"
    have "armed_ok ?P ?h"
      using tm(1) tm(6) [of i] IEM_INTERNAL_HELD_RELEASE_TIMER by (auto simp: armed_ok_def entry_is_def)
    moreover have "repeat_ok ?h" using tm(2) IEM_INTERNAL_HELD_RELEASE_TIMER by (simp add: repeat_ok_def)
    ultimately have "timers_now (multiClickEnd ?h)"
      by (intro timers_now_clicks [where s = ?h and P = ?P]) (simp_all add: clicks_ok_end)
    moreover have "same_setup s (multiClickEnd ?h)" by (simp add: multiClickEnd_def MessageCancelAll_def same_setup_def)
    moreover have "handle_timer ?s t = Inr (multiClickEnd ?h)"
      using IEM_INTERNAL_HELD_RELEASE_TIMER by (simp add: handle_timer_def)
    ultimately show ?thesis by (intro fin)
  next
    case (IEM_INTERNAL_MULTI_CLICK_TIMER i d)
    have i: "i < length (action_table s)"
      using tm(7) IEM_INTERNAL_MULTI_CLICK_TIMER ok'(2) by (auto simp: entry_is_def)
    have same: "?s\<lparr>sent := sent s\<rparr> = ?s" by (cases s) simp
    have "\<exists>out. handle_timer ?s t = Inr (multiClickEnd (?s\<lparr>sent := out\<rparr>))"
    proof (cases "actionIsPress (input_event_bits s) (action_table s ! i)")
      case True
      then show ?thesis using IEM_INTERNAL_MULTI_CLICK_TIMER i
        by (intro exI [of _ "sent s"]) (simp add: handle_timer_def same)
    next
      case False
      then show ?thesis using IEM_INTERNAL_MULTI_CLICK_TIMER i ok'(1,2)
        by (auto simp: handle_timer_def send_multi_clicks_ok)
    qed
    then obtain out where h: "handle_timer ?s t = Inr (multiClickEnd (?s\<lparr>sent := out\<rparr>))" by blast
    let ?h = "?s\<lparr>sent := out\<rparr>"
    have "armed_ok ?P ?h" using tm(1) by (simp add: armed_ok_def entry_is_def)
    moreover have "repeat_ok ?h" using tm(2) IEM_INTERNAL_MULTI_CLICK_TIMER by (simp add: repeat_ok_def)
    ultimately have "timers_now (multiClickEnd ?h)"
      by (intro timers_now_clicks [where s = ?h and P = ?P]) (simp_all add: clicks_ok_end)
    moreover have "same_setup s (multiClickEnd ?h)" by (simp add: multiClickEnd_def MessageCancelAll_def same_setup_def)
    ultimately show ?thesis using h by (intro fin)
  qed
qed

lemma iemHandler_ok:
  assumes ok: "iem_ok s" and "\<And>m. msg = IemPioChanged m \<Longrightarrow> unat (mpc_bank m) < NUMBER_OF_PIO_BANKS"
  shows "\<exists>s'. iemHandler s msg = Inr s' \<and> iem_ok s' \<and> same_tables s s'"
proof (cases msg)
  case (IemPioChanged m)
  with handle_pio_ok [OF ok, of m] assms(2) show ?thesis by (simp add: iemHandler_def)
next
  case (IEM_PIO_MONITOR_ENABLE_CFM g)
  with waitForEnableConfirmation_ok [OF ok, of g] show ?thesis by (simp add: iemHandler_def)
next
  case (IemTimer k)
  show ?thesis
  proof (cases "k < length (pending s)")
    case True
    then have "pending s = take k (pending s) @ pending s ! k # drop (Suc k) (pending s)" by (rule id_take_nth_drop)
    from handle_timer_ok [OF ok this] True IemTimer show ?thesis by (simp add: iemHandler_def remove_at_def)
  next
    case False
    with IemTimer ok show ?thesis by (simp add: iemHandler_def same_tables_def)
  qed
next
  case IemOther
  with ok show ?thesis by (simp add: iemHandler_def same_tables_def)
qed

text \<open>Registering a client while there is room.\<close>

lemma RegisterClient_ok:
  assumes ok: "iem_ok s" and "t \<noteq> 0" and "t \<in> C" and "set (tasks (client_tasks s)) \<subseteq> C" and "finite C" and "card C \<le> 15"
  shows "\<exists>s'. InputEventManager_RegisterClient s t = Inr s' \<and> iem_ok s' \<and> set (tasks (client_tasks s')) \<subseteq> C
    \<and> action_table s' = action_table s \<and> num_action_messages s' = num_action_messages s"
proof -
  have tl: "tl_ok (client_tasks s)" using ok by (simp add: iem_ok_def)
  have "\<exists>l b. TaskList_AddTask (Some (client_tasks s)) t = Inr (l, b) \<and> tl_ok l \<and> set (tasks l) \<subseteq> C"
  proof (cases "t \<in> set (tasks (client_tasks s))")
    case True
    with tl.add_old [OF tl assms(2)] tl assms(4) show ?thesis by auto
  next
    case False
    with assms(3,4) have "set (tasks (client_tasks s)) \<subset> C" by blast
    then have "card (set (tasks (client_tasks s))) < 15" using psubset_card_mono [OF assms(5)] assms(6) by (meson order_less_le_trans)
    moreover have "distinct (tasks (client_tasks s))" using tl by (simp add: tl_ok_def)
    ultimately have "length (tasks (client_tasks s)) < 15" by (simp add: distinct_card)
    with tl.add_new [OF tl assms(2) False] assms(3,4) show ?thesis by auto
  qed
  then obtain l b where l: "TaskList_AddTask (Some (client_tasks s)) t = Inr (l, b)" "tl_ok l" "set (tasks l) \<subseteq> C" by blast
  let ?s = "s\<lparr>client_tasks := l\<rparr>"
  have "calculateInputEvents ?s = calculateInputEvents s" by (rule calculateInputEvents_cong) simp_all
  moreover have e: "entry_is ?s = entry_is s" by (intro ext) (simp add: entry_is_def)
  have "armed_ok P ?s = armed_ok P s" "repeat_ok ?s = repeat_ok s" "clicks_ok ?s = clicks_ok s" for P
    unfolding armed_ok_def repeat_ok_def clicks_ok_def e by (simp_all cong: multiclick_state.case_cong)
  then have "timers_now ?s = timers_now s" by (simp add: timers_now_def timers_ok_def)
  ultimately have "iem_ok ?s" using ok l(2) by (simp add: iem_ok_def)
  with l show ?thesis by (simp add: InputEventManager_RegisterClient_def)
qed

section \<open>From the start\<close>

datatype iem_event = IemMessage iem_message | RegisterClient task

definition iem_step :: "iem_event \<Rightarrow> InputEventState \<Rightarrow> InputEventState res" where
  "iem_step e s = (case e of IemMessage m \<Rightarrow> iemHandler s m | RegisterClient t \<Rightarrow> InputEventManager_RegisterClient s t)"

text \<open>Messages name an existing bank; clients are tasks.\<close>

fun iem_event_ok :: "iem_event \<Rightarrow> bool" where
  "iem_event_ok (IemMessage (IemPioChanged m)) = (unat (mpc_bank m) < NUMBER_OF_PIO_BANKS)"
| "iem_event_ok (IemMessage _) = True"
| "iem_event_ok (RegisterClient t) = (t \<noteq> 0)"

fun event_clients :: "iem_event \<Rightarrow> task list" where
  "event_clients (RegisterClient t) = [t]"
| "event_clients (IemMessage _) = []"

lemma iem_step_ok:
  assumes "iem_ok s" and "set (tasks (client_tasks s)) \<subseteq> C" and "iem_event_ok e" and "set (event_clients e) \<subseteq> C"
    and "finite C" and "card C \<le> 15"
  shows "\<exists>s'. iem_step e s = Inr s' \<and> iem_ok s' \<and> set (tasks (client_tasks s')) \<subseteq> C \<and> action_table s' = action_table s
    \<and> num_action_messages s' = num_action_messages s"
proof (cases e)
  case (IemMessage m)
  then have "unat (mpc_bank mpc) < NUMBER_OF_PIO_BANKS" if "m = IemPioChanged mpc" for mpc
    using assms(3) that by simp
  from iemHandler_ok [of s m, OF assms(1) this] IemMessage assms(2) show ?thesis
    by (auto simp: iem_step_def same_tables_def)
next
  case (RegisterClient t)
  with RegisterClient_ok [OF assms(1) _ _ assms(2,5,6)] assms(3,4) show ?thesis by (simp add: iem_step_def)
qed

lemma iem_run_ok:
  assumes "iem_ok s" and "set (tasks (client_tasks s)) \<subseteq> C" and "\<forall>e \<in> set es. iem_event_ok e"
    and "\<Union> (set ` event_clients ` set es) \<subseteq> C" and "finite C" and "card C \<le> 15"
  shows "\<exists>s'. for_res iem_step es s = Inr s' \<and> iem_ok s' \<and> action_table s' = action_table s
    \<and> num_action_messages s' = num_action_messages s"
proof -
  let ?Q = "\<lambda>s'. iem_ok s' \<and> set (tasks (client_tasks s')) \<subseteq> C \<and> action_table s' = action_table s
    \<and> num_action_messages s' = num_action_messages s"
  have "\<exists>s'. for_res iem_step es s = Inr s' \<and> ?Q s'"
  proof (rule for_res_total)
    show "?Q s" using assms(1,2) by simp
  next
    fix e s'
    assume e: "e \<in> set es" and q: "?Q s'"
    then have "set (event_clients e) \<subseteq> C" using assms(4) by blast
    with iem_step_ok [of s' C e] e q assms(3,5,6) show "\<exists>t. iem_step e s' = Inr t \<and> ?Q t" by auto
  qed
  then show ?thesis by blast
qed

lemma configurePioHardware_ok:
  assumes "config_ok cfg" and "\<forall>b m. map_result b m = 0" and "\<forall>b m. dir_result b m = 0"
  shows "\<exists>out. configurePioHardware map_result dir_result cfg = Inr out"
proof -
  let ?body = "\<lambda>bank out. res_bind (array_get (pio_input_mask cfg) bank) (\<lambda>msk.
      res_bind (panic_unless (map_result bank msk = 0)) (\<lambda>_.
      res_bind (panic_unless (dir_result bank msk = 0)) (\<lambda>_.
        Inr (out @ [PioSetMapPins32Bank bank msk msk, PioSetDeepSleepEitherLevelBank bank msk msk,
                    PioSetDir32Bank bank msk 0]))))"
  have "\<exists>out. for_res ?body [0..<NUMBER_OF_PIO_BANKS] [] = Inr out \<and> True"
    by (rule for_res_total) (use assms in \<open>auto simp: config_ok_def\<close>)
  then show ?thesis by (simp add: configurePioHardware_def)
qed

text \<open>The pins the manager asks the monitor for are those with an event number.\<close>

lemma registerForPioEvents_ok:
  assumes "config_ok cfg" and "monitor_ok m" and "\<forall>p. level m (self, p) = None"
  shows "\<exists>m'. registerForPioEvents g self cfg m = Inr m' \<and> monitor_ok m'
    \<and> (\<forall>t p. level m' (t, p) = (if t = self \<and> p < IEM_NUM_PIOS \<and> pio_to_iem_id cfg ! p \<noteq> - 1
         then Some (g (PioCommonPioBank p) AND PioCommonPioMask p \<noteq> 0) else level m (t, p)))"
proof -
  let ?body = "\<lambda>p monitor. res_bind (array_get (pio_to_iem_id cfg) p) (\<lambda>n.
       if n \<noteq> - 1 then PioMonitorRegisterTask g monitor self p else Inr monitor)"
  have "n \<le> IEM_NUM_PIOS \<Longrightarrow> \<exists>m'. for_res ?body [0..<n] m = Inr m' \<and> monitor_ok m'
    \<and> (\<forall>t p. level m' (t, p) = (if t = self \<and> p < n \<and> pio_to_iem_id cfg ! p \<noteq> - 1
         then Some (g (PioCommonPioBank p) AND PioCommonPioMask p \<noteq> 0) else level m (t, p)))" for n
  proof (induction n)
    case 0
    show ?case using assms(2) by simp
  next
    case (Suc n)
    then obtain m' where m': "for_res ?body [0..<n] m = Inr m'" "monitor_ok m'"
      "\<forall>t p. level m' (t, p) = (if t = self \<and> p < n \<and> pio_to_iem_id cfg ! p \<noteq> - 1
         then Some (g (PioCommonPioBank p) AND PioCommonPioMask p \<noteq> 0) else level m (t, p))" by auto
    have n: "n < length (pio_to_iem_id cfg)" using Suc.prems assms(1) by (simp add: config_ok_def)
    show ?case
    proof (cases "pio_to_iem_id cfg ! n = - 1")
      case True
      with m' n show ?thesis by (auto simp: for_res_append less_Suc_eq)
    next
      case False
      have "level m' (self, n) = None" using m'(3) assms(3) by simp
      from addClient_ok [OF m'(2) this, of g] obtain m'' where "PioMonitorRegisterTask g m' self n = Inr m''"
        "monitor_ok m''" "level m'' = (level m')((self, n) \<mapsto> g (PioCommonPioBank n) AND PioCommonPioMask n \<noteq> 0)"
        by (auto simp: PioMonitorRegisterTask_def)
      with False m' n show ?thesis by (auto simp: for_res_append less_Suc_eq)
    qed
  qed
  from this [OF order_refl] show ?thesis by (simp add: registerForPioEvents_def)
qed

definition iem_start :: "InputEventState \<Rightarrow> bool" where
  "iem_start s \<longleftrightarrow> multi_click_state s = \<lparr>mc_mask = 0, mc_state = IEM_STATE_MULTICLICK_IDLE, n_clicks = 0\<rparr>
     \<and> input_event_bits s = 0 \<and> repeat_action s = None \<and> held_release s = None
     \<and> pio_state s = replicate NUMBER_OF_PIO_BANKS 0 \<and> pending s = [] \<and> sent s = [] \<and> numActivePios s = 0
     \<and> maxActivePios s = 1"

lemma iem_start_ok:
  assumes "iem_start s" and "tl_ok (client_tasks s)" and "num_action_messages s \<le> length (action_table s)"
    and "config_ok (input_config s)"
  shows "iem_ok s"
proof -
  have p: "pins_ok (input_config s) (pio_state s)" using assms(1) by (simp add: iem_start_def pins_ok_def)
  obtain w where "calculateInputEvents s = Inr w" "\<forall>b. \<not> bit w b"
    using calculateInputEvents_ok [OF assms(4) p] assms(1) by (auto simp: iem_start_def)
  then have "calculateInputEvents s = Inr (input_event_bits s)"
    using assms(1) by (auto simp: iem_start_def bit_eq_iff)
  then show ?thesis using assms p
    by (simp add: iem_ok_def timers_now_def timers_ok_def armed_ok_def repeat_ok_def clicks_ok_def iem_start_def)
qed

lemma InputEventManagerInit_ok:
  assumes cfg: "config_ok cfg" and res: "\<forall>b m. map_result b m = 0" "\<forall>b m. dir_result b m = 0"
    and m: "monitor_ok m" "\<forall>p. level m (self, p) = None" and client: "client \<noteq> 0" and dim: "dim \<le> length table"
  shows "\<exists>s m' out. InputEventManagerInit g map_result dir_result self m client table dim cfg =
      Inr (s, PioMonitorSetDebounceParameters m' (cfg_debounce_period cfg) (cfg_debounce_reads cfg), out)
    \<and> iem_ok s \<and> iem_start s \<and> tasks (client_tasks s) = [client] \<and> action_table s = table \<and> num_action_messages s = dim
    \<and> input_config s = cfg \<and> registerForPioEvents g self cfg m = Inr m'"
proof -
  obtain l where l: "TaskList_Create = Inr l" "tl_ok l" "tasks l = []"
    using Create_ok [of 1] by (auto simp: TaskList_Create_def)
  obtain l' where l': "TaskList_AddTask (Some l) client = Inr (l', True)" "tl_ok l'" "tasks l' = [client]"
    using tl.add_new [OF l(2) client] l(3) by auto
  obtain out where out: "configurePioHardware map_result dir_result cfg = Inr out"
    using configurePioHardware_ok [OF cfg res] by blast
  obtain m' where m': "registerForPioEvents g self cfg m = Inr m'"
    using registerForPioEvents_ok [OF cfg m] by blast
  let ?s = "\<lparr>client_tasks = l', action_table = table, num_action_messages = dim,
                multi_click_state = \<lparr>mc_mask = 0, mc_state = IEM_STATE_MULTICLICK_IDLE, n_clicks = 0\<rparr>,
                input_event_bits = 0, repeat_action = None, held_release = None, input_config = cfg,
                pio_state = replicate NUMBER_OF_PIO_BANKS 0, numActivePios = 0, maxActivePios = 1,
                pending = [], sent = []\<rparr>"
  have "iem_start ?s" by (simp add: iem_start_def)
  moreover from this have "iem_ok ?s" using l'(2) dim cfg by (intro iem_start_ok) simp_all
  moreover have "InputEventManagerInit g map_result dir_result self m client table dim cfg =
      Inr (?s, PioMonitorSetDebounceParameters m' (cfg_debounce_period cfg) (cfg_debounce_reads cfg), out)"
    unfolding InputEventManagerInit_def l(1) res_bind_simps l'(1) out m' prod.case Let_def ..
  ultimately show ?thesis using l'(3) m' by auto
qed

end
