(* ===== verification/Input_Event_Properties.thy ===== *)
theory Input_Event_Properties
  imports Input_Event_Manager
begin

text \<open>
  What the input event manager promises: the clicks it reports, the messages of held buttons,
  the pins it watches through the PIO monitor, and where the code does not do what it means to.
\<close>

section \<open>Counting clicks\<close>

text \<open>The part of the state that counts clicks.\<close>

definition click_view :: "InputEventState \<Rightarrow> InputMultiClickState \<times> iem_timer list" where
  "click_view s = (multi_click_state s, filter is_multi_click_timer (pending s))"

text \<open>What a press and a release of the button with the given mask do to it.\<close>

definition click_press :: "nat \<Rightarrow> u32 \<Rightarrow> InputMultiClickState \<times> iem_timer list \<Rightarrow> InputMultiClickState \<times> iem_timer list" where
  "click_press i m = (\<lambda>(mc, ts).
     (if mc_state mc = IEM_STATE_MULTICLICK_IDLE \<or> mc_mask mc \<noteq> m
      then \<lparr>mc_mask = m, mc_state = IEM_STATE_MULTICLICK_COUNTING, n_clicks = 0\<rparr> else mc,
      [IEM_INTERNAL_MULTI_CLICK_TIMER i MULTI_CLICK_TIMEOUT]))"

definition click_release :: "u32 \<Rightarrow> InputMultiClickState \<times> iem_timer list \<Rightarrow> InputMultiClickState \<times> iem_timer list" where
  "click_release m = (\<lambda>(mc, ts).
     (if mc_state mc = IEM_STATE_MULTICLICK_COUNTING \<and> mc_mask mc = m then mc\<lparr>n_clicks := n_clicks mc + 1\<rparr> else mc, ts))"

lemma click_view_action:
  "click_view (multiClickAction s i a bits) =
     (if actionIsPress bits a then click_press i (ia_mask a) (click_view s)
      else if actionIsRelease s a bits then click_release (ia_mask a) (click_view s) else click_view s)"
  by (cases "mc_state (multi_click_state s)")
    (simp_all add: click_view_def click_press_def click_release_def multiClickAction_def multiClickStart_def
      multiClickReStartTimer_def multiClickCount_def MessageCancelAll_def MessageSendLater_def)

lemma process_action_clicks:
  assumes "process_action new k (s, f) = Inr (s', f')" and "tl_ok (client_tasks s)" and "k < length (action_table s)"
  shows "click_view s' = (if (input_event_bits s XOR new) AND ia_mask (action_table s ! k) \<noteq> 0
        \<and> ia_action (action_table s ! k) = MULTI_CLICK \<and> \<not> f
      then click_view (multiClickAction s k (action_table s ! k) new) else click_view s)
    \<and> f' = (f \<or> (input_event_bits s XOR new) AND ia_mask (action_table s ! k) \<noteq> 0
        \<and> ia_action (action_table s ! k) = MULTI_CLICK)"
proof -
  have e: "click_view s' = click_view s" if "enterAction s k (action_table s ! k) new = Inr s'" for s'
    using that assms(2) by (auto simp: enterAction_def click_view_def send_clients_ok MessageCancelAll_def MessageSendLater_def
        split: if_splits)
  have r: "click_view s' = click_view s" if "releaseAction s (action_table s ! k) new = Inr s'" for s'
    using that assms(2) by (auto simp: releaseAction_def click_view_def send_clients_ok split: if_splits)
  have h: "click_view (heldAction s k (action_table s ! k) new) = click_view s"
    by (simp add: heldAction_def click_view_def heldActionButtonDownAction_def heldActionButtonReleaseAction_def
        MessageCancelAll_def MessageSendLater_def)
  have hr: "click_view s' = click_view s" if "heldReleaseAction s k (action_table s ! k) new = Inr s'" for s'
    using that assms(2) by (auto simp: heldReleaseAction_def click_view_def heldReleaseButtonDownAction_def
        heldReleaseButtonReleaseAction_def send_clients_ok MessageCancelAll_def MessageSendLater_def Let_def split: if_splits)
  show ?thesis
    using assms(1,3) e r h hr
    by (cases "ia_action (action_table s ! k)") (auto simp: process_action_def res_simps split: if_splits)
qed

text \<open>
  The first multi-click entry with a changed event is the one that counts.
\<close>

definition click_entry :: "InputEventState \<Rightarrow> u32 \<Rightarrow> nat \<Rightarrow> bool" where
  "click_entry s m i \<longleftrightarrow> entry_is s i MULTI_CLICK \<and> ia_mask (action_table s ! i) = m \<and> ia_bits (action_table s ! i) = m
     \<and> (\<forall>j < i. entry_is s j MULTI_CLICK \<longrightarrow> ia_mask (action_table s ! j) AND m = 0)"

definition iem_ready :: "InputEventState \<Rightarrow> bool" where
  "iem_ready s \<longleftrightarrow> tl_ok (client_tasks s) \<and> num_action_messages s \<le> length (action_table s) \<and> timers_now s"

lemma click_loop:
  assumes r: "iem_ready s" and c: "click_entry s m i" and x: "input_event_bits s XOR new = m" and m: "m \<noteq> 0"
    and n: "n \<le> num_action_messages s"
  shows "\<exists>s'. for_res (process_action new) [0..<n] (s, False) = Inr (s', i < n) \<and> same_setup s s'
    \<and> click_view s' = (if i < n then click_view (multiClickAction s i (action_table s ! i) new) else click_view s)"
  using n
proof (induction n)
  case 0
  show ?case by (simp add: same_setup_def)
next
  case (Suc n)
  then obtain s' where s': "for_res (process_action new) [0..<n] (s, False) = Inr (s', i < n)" "same_setup s s'"
    "click_view s' = (if i < n then click_view (multiClickAction s i (action_table s ! i) new) else click_view s)" by auto
  obtain s'' f'' where s'': "for_res (process_action new) [0..<Suc n] (s, False) = Inr (s'', f'')" "same_setup s s''"
    using process_loop_ok [of s "Suc n" new False] r Suc.prems unfolding iem_ready_def timers_now_def by auto
  then have p: "process_action new n (s', i < n) = Inr (s'', f'')" using s'(1) by (auto simp: for_res_append res_simps)
  have t: "tl_ok (client_tasks s')" "n < length (action_table s')" "action_table s' = action_table s"
    "input_event_bits s' = input_event_bits s"
    using s'(2) r Suc.prems by (auto simp: same_setup_def iem_ready_def)
  let ?new = "m AND ia_mask (action_table s ! n) \<noteq> 0 \<and> ia_action (action_table s ! n) = MULTI_CLICK"
  have act: "?new \<and> \<not> i < n \<longleftrightarrow> n = i"
  proof
    assume a: "?new \<and> \<not> i < n"
    then have "entry_is s n MULTI_CLICK" using Suc.prems by (simp add: entry_is_def)
    moreover have "ia_mask (action_table s ! n) AND m \<noteq> 0" using a by (simp add: and.commute)
    ultimately have "\<not> n < i" using c unfolding click_entry_def by blast
    with a show "n = i" by simp
  next
    assume "n = i"
    with c m show "?new \<and> \<not> i < n" by (simp add: click_entry_def entry_is_def)
  qed
  have v: "click_view (multiClickAction s' i a new) = click_view (multiClickAction s i a new)" if "click_view s' = click_view s" for a
    using that t(4) by (simp add: click_view_action actionIsRelease_def getPreviousBitState_def)
  from process_action_clicks [OF p t(1,2)] s'(3) act v show ?case
    using s'' unfolding t(3,4) x by (cases "n = i") auto
qed

lemma inputEventsChanged_clicks:
  assumes "iem_ready s" and "click_entry s m i" and "input_event_bits s XOR new = m" and "m \<noteq> 0"
  shows "\<exists>s'. inputEventsChanged s new = Inr s' \<and> iem_ready s' \<and> same_setup (s\<lparr>input_event_bits := new\<rparr>) s'
    \<and> click_view s' = click_view (multiClickAction s i (action_table s ! i) new)"
proof -
  obtain s' where s': "inputEventsChanged s new = Inr s'" "same_setup (s\<lparr>input_event_bits := new\<rparr>) s'" "timers_now s'"
    using inputEventsChanged_ok [of s new] assms(1) by (auto simp: iem_ready_def)
  have i: "i < num_action_messages s" using assms(2) by (simp add: click_entry_def entry_is_def)
  obtain s1 where "for_res (process_action new) [0..<num_action_messages s] (s, False) = Inr (s1, i < num_action_messages s)"
    "click_view s1 = click_view (multiClickAction s i (action_table s ! i) new)"
    using click_loop [OF assms order_refl] i by auto
  then have "click_view s' = click_view (multiClickAction s i (action_table s ! i) new)"
    using s'(1) by (auto simp: inputEventsChanged_def click_view_def)
  with s' assms(1) show ?thesis by (auto simp: iem_ready_def same_setup_def)
qed

definition click_cycle :: "nat \<Rightarrow> u32 \<Rightarrow> InputMultiClickState \<times> iem_timer list \<Rightarrow> InputMultiClickState \<times> iem_timer list" where
  "click_cycle i m v = click_release m (click_press i m v)"

lemma click_entry_setup: "same_setup (s\<lparr>input_event_bits := x\<rparr>) s' \<Longrightarrow> click_entry s' m i = click_entry s m i"
  by (simp add: click_entry_def entry_is_def same_setup_def)

text \<open>One press and release of a button: from idle the count is one, then it grows.\<close>

lemma click_once:
  assumes r: "iem_ready s" and c: "click_entry s m i" and b: "input_event_bits s AND m = 0" and m: "m \<noteq> 0"
  shows "\<exists>s'. for_res (\<lambda>new s. inputEventsChanged s new) [input_event_bits s OR m, input_event_bits s] s = Inr s'
    \<and> iem_ready s' \<and> same_setup s s' \<and> click_view s' = click_cycle i m (click_view s)"
proof -
  let ?b = "input_event_bits s" and ?a = "action_table s ! i"
  have a: "ia_mask ?a = m" "ia_bits ?a = m" using c by (simp_all add: click_entry_def)
  have x: "?b XOR (?b OR m) = m" "(?b OR m) XOR ?b = m" "(?b OR m) AND m = m"
    using b by (auto simp: bit_eq_iff bit_simps)
  have p: "actionIsPress (?b OR m) ?a" "\<not> actionIsPress ?b ?a"
    using a b m x(3) by (simp_all add: actionIsPress_def)
  obtain s1 where s1: "inputEventsChanged s (?b OR m) = Inr s1" "iem_ready s1"
    "same_setup (s\<lparr>input_event_bits := ?b OR m\<rparr>) s1"
    "click_view s1 = click_view (multiClickAction s i ?a (?b OR m))"
    using inputEventsChanged_clicks [OF r c x(1) m] by blast
  have t: "input_event_bits s1 = ?b OR m" "action_table s1 = action_table s" using s1(3) by (simp_all add: same_setup_def)
  have "click_entry s1 m i" using c click_entry_setup [OF s1(3)] by simp
  from inputEventsChanged_clicks [OF s1(2) this _ m] x(2) obtain s2 where
    s2: "inputEventsChanged s1 ?b = Inr s2" "iem_ready s2" "same_setup (s1\<lparr>input_event_bits := ?b\<rparr>) s2"
    "click_view s2 = click_view (multiClickAction s1 i ?a ?b)"
    unfolding t by blast
  have "click_view s2 = click_cycle i m (click_view s)"
    unfolding click_cycle_def
    using s1(4) s2(4) p a t by (simp add: click_view_action actionIsRelease_def getPreviousBitState_def actionIsPress_def)
  moreover have "same_setup s s2" using s1(3) s2(3) by (simp add: same_setup_def)
  ultimately show ?thesis using s1(1) s2(1,2) by simp
qed

lemma click_many:
  assumes "iem_ready s" and "click_entry s m i" and "input_event_bits s AND m = 0" and "m \<noteq> 0"
  shows "\<exists>s'. for_res (\<lambda>new s. inputEventsChanged s new)
        (concat (replicate n [input_event_bits s OR m, input_event_bits s])) s = Inr s'
    \<and> iem_ready s' \<and> same_setup s s'
    \<and> click_view s' = (click_cycle i m ^^ n) (click_view s)"
proof (induction n)
  case 0
  show ?case using assms(1) by (simp add: same_setup_def)
next
  case (Suc n)
  then obtain s' where s': "for_res (\<lambda>new s. inputEventsChanged s new)
        (concat (replicate n [input_event_bits s OR m, input_event_bits s])) s = Inr s'" "iem_ready s'" "same_setup s s'"
    "click_view s' = (click_cycle i m ^^ n) (click_view s)" by blast
  have "click_entry s' m i" "input_event_bits s' = input_event_bits s"
    using s'(3) assms(2) by (simp_all add: click_entry_def entry_is_def same_setup_def)
  with click_once [OF s'(2), of m i] assms(3,4) obtain s'' where
    s'': "for_res (\<lambda>new s. inputEventsChanged s new) [input_event_bits s OR m, input_event_bits s] s' = Inr s''"
    "iem_ready s''" "same_setup s' s''" "click_view s'' = click_cycle i m (click_view s')"
    by auto
  have "concat (replicate (Suc n) [input_event_bits s OR m, input_event_bits s]) =
      concat (replicate n [input_event_bits s OR m, input_event_bits s]) @ [input_event_bits s OR m, input_event_bits s]"
    by (simp only: replicate_Suc flip: replicate_append_same) simp
  with s' s'' same_setup_trans [OF s'(3) s''(3)] show ?case by (simp add: for_res_append)
qed

lemma clicks_counted:
  "mc_state (fst v) = IEM_STATE_MULTICLICK_IDLE \<Longrightarrow>
   (click_cycle i m ^^ Suc n) v =
     (\<lparr>mc_mask = m, mc_state = IEM_STATE_MULTICLICK_COUNTING, n_clicks = word_of_nat (Suc n)\<rparr>,
      [IEM_INTERNAL_MULTI_CLICK_TIMER i MULTI_CLICK_TIMEOUT])"
  by (induction n) (auto simp: click_cycle_def click_press_def click_release_def split_beta add.commute)

section \<open>Properties\<close>

text \<open>
  A table with the keys of the two-button product: the power key on event 0 and the
  volume-up key on event 1, both on bank 0. The volume keys of the product are active low
  and arrive inverted.
\<close>

definition two_button_actions :: "InputActionMessage list" where
  "two_button_actions =
    [\<lparr>ia_bits = 1, ia_mask = 1, ia_action = MULTI_CLICK, ia_timeout = 0, ia_repeat = 0, ia_count = 1, ia_message = 100\<rparr>,
     \<lparr>ia_bits = 1, ia_mask = 1, ia_action = HELD, ia_timeout = 3300, ia_repeat = 0, ia_count = 0, ia_message = 101\<rparr>,
     \<lparr>ia_bits = 1, ia_mask = 1, ia_action = HELD_RELEASE, ia_timeout = 3300, ia_repeat = 0, ia_count = 0, ia_message = 102\<rparr>,
     \<lparr>ia_bits = 1, ia_mask = 1, ia_action = MULTI_CLICK, ia_timeout = 0, ia_repeat = 0, ia_count = 2, ia_message = 105\<rparr>,
     \<lparr>ia_bits = 2, ia_mask = 2, ia_action = HELD, ia_timeout = 500, ia_repeat = 200, ia_count = 0, ia_message = 103\<rparr>,
     \<lparr>ia_bits = 2, ia_mask = 2, ia_action = RELEASE, ia_timeout = 0, ia_repeat = 0, ia_count = 0, ia_message = 104\<rparr>]"

definition two_button_config :: InputEventConfig where
  "two_button_config = \<lparr>pio_to_iem_id = (replicate 96 (- 1))[0 := 0, 2 := 1], pio_input_mask = [5, 0, 0],
     cfg_debounce_reads = 4, cfg_debounce_period = 5\<rparr>"

lemma two_button_config_ok: "config_ok two_button_config"
proof -
  have "bit (5 :: u32) p \<Longrightarrow> p = 0 \<or> p = 2" for p
    by (cases p; cases "p - 1"; cases "p - 2"; simp add: bit_Suc bit_numeral_rec)
  then show ?thesis
    by (auto simp: config_ok_def two_button_config_def IEM_NUM_PIOS_def NUMBER_OF_PIO_BANKS_def
        less_Suc_eq numeral_3_eq_3 nth_list_update)
qed


definition key_change :: "u16 \<Rightarrow> iem_event" where
  "key_change st = IemMessage (IemPioChanged \<lparr>mpc_state = st, mpc_state16to31 = 0, mpc_bank = 0\<rparr>)"


lemma handle_pio_again:
  assumes ok: "iem_ok s" and bank: "unat (mpc_bank m) < NUMBER_OF_PIO_BANKS"
    and h: "handleMessagePioChangedEvents s m = Inr s'"
  shows "handleMessagePioChangedEvents s' m = Inr s'"
proof -
  define st where "st = (ucast (mpc_state m) + push_bit 16 (ucast (mpc_state16to31 m)) :: u32) XOR 0x1C"
  let ?k = "unat (mpc_bank m)"
  define msk where "msk = pio_input_mask (input_config s) ! ?k"
  have l: "?k < length (pio_input_mask (input_config s))" "?k < length (pio_state s)"
    using ok bank by (simp_all add: iem_ok_def config_ok_def pins_ok_def)
  show ?thesis
  proof (cases "pio_state s ! ?k = (st AND msk)")
    case True
    then have "handleMessagePioChangedEvents s m = Inr s"
      using l by (simp add: handleMessagePioChangedEvents_def Let_def st_def msk_def)
    with h show ?thesis by simp
  next
    case False
    let ?s = "s\<lparr>pio_state := (pio_state s)[?k := st AND msk]\<rparr>"
    obtain w where w: "inputEventsChanged ?s w = Inr s'"
      using h False l by (auto simp: handleMessagePioChangedEvents_def Let_def st_def msk_def res_simps)
    have "timers_now ?s = timers_now s" by (rule timers_now_cong) (simp_all add: same_tables_def)
    with inputEventsChanged_ok [of ?s w] ok w have "same_setup (?s\<lparr>input_event_bits := w\<rparr>) s'"
      by (simp add: iem_ok_def)
    then have "pio_state s' = (pio_state s)[?k := st AND msk]" "input_config s' = input_config s"
      by (simp_all add: same_setup_def)
    with l show ?thesis by (simp add: handleMessagePioChangedEvents_def Let_def st_def [symmetric] msk_def [symmetric])
  qed
qed

lemma handle_copies:
  assumes "iem_ok s" and "unat (mpc_bank m) < NUMBER_OF_PIO_BANKS"
  shows "for_res (\<lambda>_ s. iemHandler s (IemPioChanged m)) (replicate (Suc n) x) s = iemHandler s (IemPioChanged m)"
proof -
  obtain s' where s': "handleMessagePioChangedEvents s m = Inr s'" using handle_pio_ok [OF assms] by blast
  note again = handle_pio_again [OF assms s']
  have "for_res (\<lambda>_ s. iemHandler s (IemPioChanged m)) (replicate n x) s' = Inr s'"
    by (induction n) (simp_all add: iemHandler_def again)
  with s' show ?thesis by (simp add: iemHandler_def)
qed

text \<open>
  C30. Several copies of one change act once: the monitor sends a task one copy of a change
  message for each of its pins that changed; however many these are, the manager handles
  them as it handles one, and if none of its pins changed it gets none.
\<close>

theorem iem_copies_act_once:
  assumes "monitor_ok monitor" and "pioHandler monitor (MESSAGE_PIO_CHANGED m) = Inr (monitor', out)"
    and "iem_ok s" and "unat (mpc_bank m) < NUMBER_OF_PIO_BANKS"
  shows "for_res (\<lambda>_ s. iemHandler s (IemPioChanged m)) (replicate (copies self out) m) s =
    (if \<exists>p. p \<in> changed_pins (level monitor) m self then iemHandler s (IemPioChanged m) else Inr s)"
proof -
  have c: "copies self out = card (changed_pins (level monitor) m self)"
    using pm.deliver_law [OF assms(1), of m] assms(2) by auto
  have "changed_pins (level monitor) m self \<subseteq> (snd \<circ> fst) ` set (entries (pm_clients monitor))"
    by (force simp: changed_pins_def level_def dest: map_of_SomeD)
  then have "finite (changed_pins (level monitor) m self)" by (rule finite_subset) simp
  then have "copies self out = 0 \<longleftrightarrow> changed_pins (level monitor) m self = {}" using c by simp
  then show ?thesis
    by (cases "copies self out") (auto simp: handle_copies [OF assms(3,4)] simp del: replicate_Suc)
qed

text \<open>The two-button product, at rest, and a monitor that watches its pins.\<close>

definition two_button_start :: InputEventState where
  "two_button_start = \<lparr>client_tasks = example_list, action_table = two_button_actions, num_action_messages = 6,
     multi_click_state = \<lparr>mc_mask = 0, mc_state = IEM_STATE_MULTICLICK_IDLE, n_clicks = 0\<rparr>,
     input_event_bits = 0, repeat_action = None, held_release = None, input_config = two_button_config,
     pio_state = [0, 0, 0], numActivePios = 0, maxActivePios = 1, pending = [], sent = []\<rparr>"

lemma two_button_start_ok: "iem_ok two_button_start"
proof (rule iem_start_ok)
  show "iem_start two_button_start"
    by (simp add: iem_start_def two_button_start_def NUMBER_OF_PIO_BANKS_def numeral_3_eq_3)
  show "config_ok (input_config two_button_start)" by (simp add: two_button_start_def two_button_config_ok)
qed (simp_all add: two_button_start_def example_list_ok two_button_actions_def)

definition two_pin_monitor :: PioMonitorState where
  "two_pin_monitor = \<lparr>pm_clients = [\<lparr>pm_task = 1, states = 2, numPios = 2, pios = [0, 2, 255, 255, 255, 255, 255, 255, 255]\<rparr>],
     debounce_reads = 0, debounce_period = 0\<rparr>"

lemma two_pin_monitor_ok: "monitor_ok two_pin_monitor"
proof -
  have "\<not> bit (2 :: u16) i" if "2 \<le> i" for i using that by (cases i; cases "i - 1"; simp add: bit_Suc bit_numeral_rec)
  then show ?thesis
    by (simp add: two_pin_monitor_def monitor_ok_def clients_ok_def client_ok_def MAX_PIOS_PER_TASK_def
        client_entries_def pins_def upt_rec)
qed

text \<open>Both keys are pressed at once: two copies, one press of each.\<close>

theorem iem_copies_act_once_witness:
  "case pioHandler two_pin_monitor (MESSAGE_PIO_CHANGED \<lparr>mpc_state = 0x19, mpc_state16to31 = 0, mpc_bank = 0\<rparr>) of
     Inr (monitor', out) \<Rightarrow> copies 1 out = 2
       \<and> for_res (\<lambda>_ s. iemHandler s (IemPioChanged \<lparr>mpc_state = 0x19, mpc_state16to31 = 0, mpc_bank = 0\<rparr>))
           (replicate (copies 1 out) \<lparr>mpc_state = 0x19, mpc_state16to31 = 0, mpc_bank = 0\<rparr>) two_button_start
         = iemHandler two_button_start (IemPioChanged \<lparr>mpc_state = 0x19, mpc_state16to31 = 0, mpc_bank = 0\<rparr>)
   | Inl _ \<Rightarrow> False"
proof -
  let ?m = "\<lparr>mpc_state = 0x19, mpc_state16to31 = 0, mpc_bank = 0\<rparr> :: MessagePioChanged"
  have r: "map_sum id (\<lambda>(_, out). copies 1 out) (pioHandler two_pin_monitor (MESSAGE_PIO_CHANGED ?m)) = Inr 2"
    by code_simp
  then obtain monitor' out where h: "pioHandler two_pin_monitor (MESSAGE_PIO_CHANGED ?m) = Inr (monitor', out)" "copies 1 out = 2"
    by (cases "pioHandler two_pin_monitor (MESSAGE_PIO_CHANGED ?m)") auto
  have "card (changed_pins (level two_pin_monitor) ?m 1) = 2"
    using pm.deliver_law [OF two_pin_monitor_ok, of ?m] h by auto
  then have "\<exists>p. p \<in> changed_pins (level two_pin_monitor) ?m 1" by (metis card.empty ex_in_conv zero_neq_numeral)
  with iem_copies_act_once [OF two_pin_monitor_ok h(1) two_button_start_ok, of 1] h show ?thesis
    by (simp add: NUMBER_OF_PIO_BANKS_def)
qed

text \<open>
  C10. Clicks are counted: when a button whose multi-click entry comes first among those sharing an
  event is pressed and released n times from rest, whatever other entries the table has and
  whatever they send, then exactly the click timer of that entry runs, and when it expires the
  messages of all entries for that number of clicks (modulo the 16 bits of the counter) of
  that button are sent, in the order of the table, and the manager is at rest again.
\<close>

theorem iem_clicks_reported:
  assumes "iem_ready s" and "click_entry s m i" and "input_event_bits s AND m = 0" and "m \<noteq> 0"
    and "mc_state (multi_click_state s) = IEM_STATE_MULTICLICK_IDLE"
  shows "\<exists>s1 A B s2. for_res (\<lambda>new s. inputEventsChanged s new)
        (concat (replicate (Suc n) [input_event_bits s OR m, input_event_bits s])) s = Inr s1
    \<and> pending s1 = A @ IEM_INTERNAL_MULTI_CLICK_TIMER i MULTI_CLICK_TIMEOUT # B
    \<and> iemHandler s1 (IemTimer (length A)) = Inr s2
    \<and> sent s2 = sent s1 @ concat (map (\<lambda>e. to_clients s (ia_message e))
        (filter (\<lambda>e. ia_action e = MULTI_CLICK \<and> ia_count e = word_of_nat (Suc n) \<and> ia_bits e = m \<and> ia_mask e = m)
          (take (num_action_messages s) (action_table s))))
    \<and> pending s2 = A @ B \<and> mc_state (multi_click_state s2) = IEM_STATE_MULTICLICK_IDLE
    \<and> n_clicks (multi_click_state s2) = 0"
proof -
  obtain s1 where s1: "for_res (\<lambda>new s. inputEventsChanged s new)
        (concat (replicate (Suc n) [input_event_bits s OR m, input_event_bits s])) s = Inr s1" "iem_ready s1" "same_setup s s1"
    "click_view s1 = (click_cycle i m ^^ Suc n) (click_view s)"
    using click_many [OF assms(1-4)] by blast
  have v: "multi_click_state s1 = \<lparr>mc_mask = m, mc_state = IEM_STATE_MULTICLICK_COUNTING, n_clicks = word_of_nat (Suc n)\<rparr>"
    "filter is_multi_click_timer (pending s1) = [IEM_INTERNAL_MULTI_CLICK_TIMER i MULTI_CLICK_TIMEOUT]"
    using s1(4) clicks_counted [where v = "click_view s" and m = m and i = i and n = n] assms(5) by (simp_all add: click_view_def)
  obtain A B where p: "pending s1 = A @ IEM_INTERNAL_MULTI_CLICK_TIMER i MULTI_CLICK_TIMEOUT # B"
    "\<forall>t \<in> set A. \<not> is_multi_click_timer t" "filter is_multi_click_timer B = []"
    using v(2) by (auto simp: filter_eq_Cons_iff)
  have ab: "filter (\<lambda>t. \<not> is_multi_click_timer t) (A @ B) = A @ B"
    using p(2,3) by (auto simp: filter_empty_conv)
  let ?s = "s1\<lparr>pending := A @ B\<rparr>"
  let ?out = "concat (map (\<lambda>e. to_clients s (ia_message e))
        (filter (\<lambda>e. ia_action e = MULTI_CLICK \<and> ia_count e = word_of_nat (Suc n) \<and> ia_bits e = m \<and> ia_mask e = m)
          (take (num_action_messages s) (action_table s))))"
  define s2 where "s2 = multiClickEnd (?s\<lparr>sent := sent s1 @ ?out\<rparr>)"
  have i: "ia_bits (action_table s1 ! i) = m" "ia_mask (action_table s1 ! i) = m" "i < length (action_table s1)"
    "input_event_bits s1 = input_event_bits s" "client_tasks s1 = client_tasks s"
    "action_table s1 = action_table s" "num_action_messages s1 = num_action_messages s"
    using assms(1,2) s1(3) by (auto simp: click_entry_def entry_is_def same_setup_def iem_ready_def)
  have "\<not> actionIsPress (input_event_bits s1) (action_table s1 ! i)"
    using i assms(3,4) by (simp add: actionIsPress_def)
  moreover have "tl_ok (client_tasks ?s)" "num_action_messages ?s \<le> length (action_table ?s)"
    using s1(2) by (simp_all add: iem_ready_def)
  moreover have "to_clients ?s = to_clients s" using i(5) by (simp add: to_clients_def fun_eq_iff)
  ultimately have "iemHandler s1 (IemTimer (length A)) = Inr s2"
    using i v(1) p(1) by (simp add: s2_def iemHandler_def handle_timer_def remove_at_def send_multi_clicks_ok)
  moreover have "sent s2 = sent s1 @ ?out" "pending s2 = A @ B"
    "mc_state (multi_click_state s2) = IEM_STATE_MULTICLICK_IDLE" "n_clicks (multi_click_state s2) = 0"
    using ab by (simp_all add: s2_def multiClickEnd_def MessageCancelAll_def del: filter_append)
  ultimately show ?thesis using s1(1) p(1) by blast
qed

text \<open>The clicks of the power key: two of them, by the theorem above.\<close>

lemma two_button_clicks: "iem_ready two_button_start" "click_entry two_button_start 1 0"
  using two_button_start_ok
  by (simp_all add: iem_ready_def iem_ok_def click_entry_def entry_is_def) (simp_all add: two_button_start_def two_button_actions_def)

section \<open>Where held buttons interfere\<close>

lemma process_action_held:
  assumes "process_action new k (s, f) = Inr (s', f')" and "tl_ok (client_tasks s)" and "k < length (action_table s)"
    and "(input_event_bits s XOR new) AND ia_mask (action_table s ! k) \<noteq> 0 \<Longrightarrow> \<not> actionIsPress new (action_table s ! k)"
  shows "held_timers (pending s') = [] \<or>
    \<not> (ia_action (action_table s ! k) = HELD \<and> actionIsPress (input_event_bits s) (action_table s ! k)
       \<and> \<not> actionIsPress new (action_table s ! k)) \<and> held_timers (pending s') = held_timers (pending s)"
proof (cases "(input_event_bits s XOR new) AND ia_mask (action_table s ! k) = 0")
  case True
  with assms(1,3) press_unchanged [OF True] show ?thesis by (auto simp: process_action_def)
next
  case False
  let ?a = "action_table s ! k"
  have n: "\<not> actionIsPress new ?a" using assms(4) False by simp
  have "held_timers (pending s') = held_timers (pending s)" if "enterAction s k ?a new = Inr s'" for s'
    using that n by (auto simp: enterAction_def MessageCancelAll_def split: if_splits)
  moreover have "held_timers (pending s') = held_timers (pending s)" if "releaseAction s ?a new = Inr s'" for s'
    using that assms(2) by (auto simp: releaseAction_def send_clients_ok split: if_splits)
  moreover have "held_timers (pending s') = held_timers (pending s)" if "heldReleaseAction s k ?a new = Inr s'" for s'
    using that n assms(2) by (auto simp: heldReleaseAction_def heldReleaseButtonReleaseAction_def send_clients_ok
        MessageCancelAll_def Let_def split: if_splits)
  moreover have "held_timers (pending (multiClickAction s k ?a new)) = held_timers (pending s)"
    using clicks_only_action [of s k ?a new] by (simp add: clicks_only_def)
  moreover have "held_timers (pending (heldAction s k ?a new)) = (if actionIsRelease s ?a new then [] else held_timers (pending s))"
    using n by (simp add: heldAction_def heldActionButtonReleaseAction_def MessageCancelAll_def held_timers_none)
  moreover have "actionIsRelease s ?a new = actionIsPress (input_event_bits s) ?a"
    using n by (simp add: actionIsRelease_def getPreviousBitState_def actionIsPress_def)
  ultimately show ?thesis
    using assms(1,3) n False
    by (cases "ia_action ?a") (auto simp: process_action_def res_simps split: if_splits)
qed


text \<open>
  The power key is held, then the volume-up key is tapped: no held message for power-off
  can come any more, although the power key is still pressed.
\<close>

definition two_keys_down :: InputEventState where
  "two_keys_down = two_button_start\<lparr>input_event_bits := 3, pio_state := [5, 0, 0],
     pending := [IEM_INTERNAL_HELD_TIMER 1 3300, IEM_INTERNAL_HELD_RELEASE_TIMER 2 3300, IEM_INTERNAL_HELD_TIMER 4 500]\<rparr>"

lemma two_keys_down_ready: "iem_ready two_keys_down"
  using two_button_start_ok
  by (simp add: iem_ready_def iem_ok_def two_keys_down_def timers_now_def timers_ok_def armed_ok_def repeat_ok_def clicks_ok_def)
    (simp add: two_button_start_def two_button_actions_def entry_is_def actionIsPress_def)


theorem iem_clicks_reported_witness:
  "\<exists>s1 A B s2. for_res (\<lambda>new s. inputEventsChanged s new) [1, 0, 1, 0] two_button_start = Inr s1
    \<and> pending s1 = A @ IEM_INTERNAL_MULTI_CLICK_TIMER 0 MULTI_CLICK_TIMEOUT # B
    \<and> iemHandler s1 (IemTimer (length A)) = Inr s2
    \<and> sent s2 = sent s1 @ [MessageSendMulticastLater [5, 6, 7, 0] 105 None 0]"
proof -
  have "mc_state (multi_click_state two_button_start) = IEM_STATE_MULTICLICK_IDLE"
    "input_event_bits two_button_start = 0" "action_table two_button_start = two_button_actions"
    "num_action_messages two_button_start = 6" "client_tasks two_button_start = example_list"
    by (simp_all add: two_button_start_def)
  moreover have "filter (\<lambda>e. ia_action e = MULTI_CLICK \<and> ia_count e = word_of_nat (Suc 1) \<and> ia_bits e = 1 \<and> ia_mask e = 1)
      (take 6 two_button_actions) = [two_button_actions ! 3]"
    by (simp add: two_button_actions_def)
  moreover have "to_clients two_button_start (ia_message (two_button_actions ! 3)) =
      [MessageSendMulticastLater [5, 6, 7, 0] 105 None 0]"
    by (simp add: to_clients_def two_button_start_def example_list_ok two_button_actions_def)
  ultimately show ?thesis
    using iem_clicks_reported [OF two_button_clicks, of 1] by (simp del: for_res.simps) blast
qed

definition bank0 :: "u16 \<Rightarrow> iem_message" where
  "bank0 st = IemPioChanged \<lparr>mpc_state = st, mpc_state16to31 = 0, mpc_bank = 0\<rparr>"

definition observe_iem :: "InputEventState res \<Rightarrow> (u32 \<times> iem_timer list \<times> message_id list) res" where
  "observe_iem r = res_bind r (\<lambda>s. Inr (input_event_bits s, pending s,
     map (\<lambda>x. case x of MessageSendMulticastLater _ mid _ _ \<Rightarrow> mid) (sent s)))"

text \<open>
  A repeating message can go on after its button was released: a volume key is held and
  repeats, the power key is pressed too, then the volume key is released. The release finds
  the power key's held timer to cancel and so leaves the repeat timer: the volume message is
  sent again and again with only the power key down.
\<close>

theorem iem_repeat_after_release:
  "observe_iem (for_res (\<lambda>m s. iemHandler s m)
      [bank0 0x18, IemTimer 0, bank0 0x19, bank0 0x1D, IemTimer 0, IemTimer 2, IemTimer 2] two_button_start) =
    Inr (1, [IEM_INTERNAL_MULTI_CLICK_TIMER 0 500, IEM_INTERNAL_HELD_RELEASE_TIMER 2 3300,
             IEM_INTERNAL_REPEAT_TIMER 200], [103, 104, 103, 103, 103])"
  by code_simp

section \<open>The start-up of the pins\<close>

text \<open>
  The debounce parameters are swapped: after the initialisation with a valid configuration
  and the start of the monitor, the pins handed to the debouncing hardware are exactly those with an event
  number, but the number of reads is the configured period and the period is the configured
  number of reads, because the manager passes the two in the opposite order to the one the
  monitor takes them in.
\<close>

theorem iem_debounce_swapped:
  assumes "config_ok cfg" and "\<forall>b m. map_result b m = 0" and "\<forall>b m. dir_result b m = 0"
    and "dim \<le> length table" and "client \<noteq> 0"
  shows "\<exists>s monitor out masks cfms.
    InputEventManagerInit g map_result dir_result self PioMonitorInit client table dim cfg = Inr (s, monitor, out)
    \<and> PioMonitorEnable monitor = Inr (MessagePioTask #
        map (\<lambda>bank. PioDebounce32Bank bank (masks bank) (cfg_debounce_period cfg) (cfg_debounce_reads cfg)) [0..<PIOM_NUM_BANKS] @ cfms)
    \<and> (\<forall>bank < PIOM_NUM_BANKS. \<forall>p < 32. bit (masks bank) p = (pio_to_iem_id cfg ! (32 * bank + p) \<noteq> - 1))"
proof -
  have none: "\<forall>p. level PioMonitorInit (self, p) = None" by (simp add: monitor_start(2))
  obtain s0 m' out where s0: "InputEventManagerInit g map_result dir_result self PioMonitorInit client table dim cfg =
      Inr (s0, PioMonitorSetDebounceParameters m' (cfg_debounce_period cfg) (cfg_debounce_reads cfg), out)"
    "registerForPioEvents g self cfg PioMonitorInit = Inr m'"
    using InputEventManagerInit_ok [where g = g and self = self, OF assms(1-3) monitor_start(1) none assms(5,4)] by blast
  have m': "monitor_ok m'" "\<And>t p. level m' (t, p) = (if t = self \<and> p < IEM_NUM_PIOS \<and> pio_to_iem_id cfg ! p \<noteq> - 1
      then Some (g (PioCommonPioBank p) AND PioCommonPioMask p \<noteq> 0) else None)"
    using registerForPioEvents_ok [OF assms(1) monitor_start(1) none, of g] s0(2) by (auto simp: monitor_start(2))
  let ?m = "PioMonitorSetDebounceParameters m' (cfg_debounce_period cfg) (cfg_debounce_reads cfg)"
  have "monitor_ok ?m" "level ?m = level m'"
    using m'(1) by (simp_all add: PioMonitorSetDebounceParameters_def monitor_ok_def level_def)
  moreover have "p < 96" if "level m' (t, p) \<noteq> None" for t p
    using that by (simp add: m'(2) IEM_NUM_PIOS_def NUMBER_OF_PIO_BANKS_def split: if_splits)
  ultimately obtain masks where masks: "updateAllDebounced ?m = Inr (map (\<lambda>bank. PioDebounce32Bank bank (masks bank)
        (debounce_reads ?m) (debounce_period ?m)) [0..<3])"
    "\<forall>bank < 3. \<forall>b. bit (masks bank) b \<longleftrightarrow> b < 32 \<and> (\<exists>t. level m' (t, 32 * bank + b) \<noteq> None)"
    using updateAllDebounced_ok [of ?m] by auto
  have "bit (masks bank) p = (pio_to_iem_id cfg ! (32 * bank + p) \<noteq> - 1)" if "bank < 3" "p < 32" for bank p
    using masks(2) that by (simp add: m'(2) IEM_NUM_PIOS_def NUMBER_OF_PIO_BANKS_def)
  moreover have "PioMonitorEnable ?m = Inr (MessagePioTask #
        map (\<lambda>bank. PioDebounce32Bank bank (masks bank) (cfg_debounce_period cfg) (cfg_debounce_reads cfg)) [0..<PIOM_NUM_BANKS]
        @ map (\<lambda>c. SendEnableCfm (pm_task c)) (pm_clients ?m))"
    using masks(1) by (simp add: PioMonitorEnable_def enableClients_def PioMonitorSetDebounceParameters_def PIOM_NUM_BANKS_def)
  ultimately show ?thesis using s0(1) by (fastforce simp: PIOM_NUM_BANKS_def)
qed

theorem iem_debounce_swapped_witness:
  "\<exists>s monitor out masks cfms.
    InputEventManagerInit (\<lambda>_. 0x1C) (\<lambda>_ _. 0) (\<lambda>_ _. 0) 1 PioMonitorInit 9 two_button_actions 6 two_button_config =
      Inr (s, monitor, out)
    \<and> PioMonitorEnable monitor = Inr (MessagePioTask #
        map (\<lambda>bank. PioDebounce32Bank bank (masks bank) 5 4) [0..<PIOM_NUM_BANKS] @ cfms)"
  using iem_debounce_swapped [OF two_button_config_ok, of "\<lambda>_ _. 0" "\<lambda>_ _. 0" 6 two_button_actions 9 "\<lambda>_. 0x1C" 1]
  by (simp add: two_button_actions_def) (simp add: two_button_config_def, blast)

end
