(* ===== verification/Feature_Manager.thy ===== *)
theory Feature_Manager
  imports Mh40_Prelude
begin

text \<open>
  The feature manager (\<^verbatim>\<open>adk/src/domains/feature_manager/feature_manager.c\<close>). Lists of features
  in order of priority say which features exclude each other. A feature asks before it starts:
  it may not start while a feature before it on one of its lists runs, and the features behind
  it are suspended; when it stops they are resumed. A feature is a client with three
  functions; the state they work on belongs to the clients and is here an arbitrary world
  \<open>'w\<close>. The contract of the clients is the locale \<open>features\<close>, and the theorems about mutual
  exclusion are proved in it.
\<close>

section \<open>Model\<close>

datatype feature_id =
    feature_id_sco
  | feature_id_va
  | feature_id_handset_multipoint
  | feature_id_wired_analog_audio

definition feature_ids :: "feature_id list" where
  "feature_ids = [feature_id_sco, feature_id_va, feature_id_handset_multipoint, feature_id_wired_analog_audio]"

datatype feature_state = feature_state_idle | feature_state_running | feature_state_suspended

type_synonym feature_priority_lists = "feature_id list list"

record 'w feature_interface =
  GetState :: "('w \<Rightarrow> feature_state) option"
  Suspend :: "('w \<Rightarrow> 'w res) option"
  Resume :: "('w \<Rightarrow> 'w res) option"

record 'w feature_client =
  client_id :: feature_id
  client_interface :: "'w feature_interface option"

text \<open>
  A handle is the pointer to the client, which does not change after registration, so it
  is represented by the client itself. The table has one slot per identifier.
\<close>

type_synonym 'w feature_handle = "'w feature_client option"

record 'w feature_manager =
  priority_lists :: "feature_priority_lists option"
  feature_handles :: "feature_id \<Rightarrow> 'w feature_handle"

definition feature_manager_start :: "'w feature_manager" where
  "feature_manager_start = \<lparr>priority_lists = None, feature_handles = (\<lambda>_. None)\<rparr>"

definition featureManager_GetIndexForFeatureInPriorityList :: "feature_id list \<Rightarrow> feature_id \<Rightarrow> nat option" where
  "featureManager_GetIndexForFeatureInPriorityList l i = find_index (\<lambda>j. j = i) l"

definition featureManager_IsHighestPriorityFeatureOnAllLists :: "feature_priority_lists \<Rightarrow> feature_id \<Rightarrow> bool" where
  "featureManager_IsHighestPriorityFeatureOnAllLists ls i =
     list_all (\<lambda>l. case featureManager_GetIndexForFeatureInPriorityList l i of
       None \<Rightarrow> True | Some k \<Rightarrow> \<not> 0 < k) ls"

definition featureManager_VerifyClient :: "feature_priority_lists \<Rightarrow> 'w feature_client \<Rightarrow> unit res" where
  "featureManager_VerifyClient ls c =
     res_bind (panic_null (client_interface c)) (\<lambda>itf.
     res_bind (panic_null (GetState itf)) (\<lambda>_.
       if featureManager_IsHighestPriorityFeatureOnAllLists ls (client_id c) then Inr ()
       else res_bind (panic_null (Suspend itf)) (\<lambda>_. res_bind (panic_null (Resume itf)) (\<lambda>_. Inr ()))))"

text \<open>The last slot with the identifier wins, as the loop does not stop at the first.\<close>

definition featureManager_GetClientFromId :: "'w feature_manager \<Rightarrow> feature_id \<Rightarrow> 'w feature_client option" where
  "featureManager_GetClientFromId fm i =
     fold (\<lambda>k client. case feature_handles fm k of
         Some c \<Rightarrow> if client_id c = i then Some c else client
       | None \<Rightarrow> client) feature_ids None"

definition client_GetState :: "'w feature_client \<Rightarrow> 'w \<Rightarrow> feature_state res" where
  "client_GetState c w = (case client_interface c of
       None \<Rightarrow> Inl BadAccess
     | Some itf \<Rightarrow> (case GetState itf of None \<Rightarrow> Inl BadAccess | Some f \<Rightarrow> Inr (f w)))"

text \<open>The walk from the index before the feature to the head of the list stops at the first feature that runs.\<close>

fun higher_running :: "'w feature_manager \<Rightarrow> feature_id list \<Rightarrow> 'w \<Rightarrow> bool res" where
  "higher_running fm [] w = Inr False"
| "higher_running fm (i # is) w = (case featureManager_GetClientFromId fm i of
       None \<Rightarrow> higher_running fm is w
     | Some c \<Rightarrow> res_bind (client_GetState c w) (\<lambda>st.
         if st = feature_state_running then Inr True else higher_running fm is w))"

definition higher_running_on_list ::
  "'w feature_manager \<Rightarrow> 'w feature_client \<Rightarrow> 'w \<Rightarrow> feature_id list \<Rightarrow> bool \<Rightarrow> bool res" where
  "higher_running_on_list fm c w l found =
     (case featureManager_GetIndexForFeatureInPriorityList l (client_id c) of
       None \<Rightarrow> Inr found
     | Some k \<Rightarrow> res_bind (higher_running fm (rev (take k l)) w) (\<lambda>r. Inr (found \<or> r)))"

definition featureManager_IsHigherPriorityFeatureRunning ::
  "'w feature_manager \<Rightarrow> feature_priority_lists \<Rightarrow> 'w feature_client \<Rightarrow> 'w \<Rightarrow> bool res" where
  "featureManager_IsHigherPriorityFeatureRunning fm ls c w =
     for_res (higher_running_on_list fm c w) ls False"

definition featureManager_SuspendClient :: "'w feature_client \<Rightarrow> 'w \<Rightarrow> 'w res" where
  "featureManager_SuspendClient c w = res_bind (client_GetState c w) (\<lambda>st.
     case Option.bind (client_interface c) Suspend of
       Some f \<Rightarrow> if st = feature_state_running then f w else Inr w
     | None \<Rightarrow> Inr w)"

definition featureManager_ResumeClient ::
  "'w feature_manager \<Rightarrow> feature_priority_lists \<Rightarrow> 'w feature_client \<Rightarrow> 'w \<Rightarrow> 'w res" where
  "featureManager_ResumeClient fm ls c w = res_bind (client_GetState c w) (\<lambda>st.
     case Option.bind (client_interface c) Resume of
       Some f \<Rightarrow>
         if st = feature_state_suspended
         then res_bind (featureManager_IsHigherPriorityFeatureRunning fm ls c w) (\<lambda>higher.
           if higher then Inr w else f w)
         else Inr w
     | None \<Rightarrow> Inr w)"

definition action_on_list ::
  "'w feature_manager \<Rightarrow> 'w feature_client \<Rightarrow> ('w feature_client \<Rightarrow> 'w \<Rightarrow> 'w res) \<Rightarrow> feature_id list \<Rightarrow> 'w \<Rightarrow> 'w res" where
  "action_on_list fm c action l w =
     (case featureManager_GetIndexForFeatureInPriorityList l (client_id c) of
       None \<Rightarrow> Inr w
     | Some k \<Rightarrow> for_res (\<lambda>i w. case featureManager_GetClientFromId fm i of
           Some client \<Rightarrow> action client w
         | None \<Rightarrow> Inr w) (drop (Suc k) l) w)"

definition featureManager_PerformActionOnLowerPriorityFeatures ::
  "'w feature_manager \<Rightarrow> feature_priority_lists \<Rightarrow> 'w feature_client \<Rightarrow>
   ('w feature_client \<Rightarrow> 'w \<Rightarrow> 'w res) \<Rightarrow> 'w \<Rightarrow> 'w res" where
  "featureManager_PerformActionOnLowerPriorityFeatures fm ls c action w =
     for_res (action_on_list fm c action) ls w"

definition FeatureManager_SetPriorities :: "'w feature_manager \<Rightarrow> feature_priority_lists option \<Rightarrow> 'w feature_manager" where
  "FeatureManager_SetPriorities fm ls = fm\<lparr>priority_lists := ls\<rparr>"

definition FeatureManager_Register ::
  "'w feature_manager \<Rightarrow> feature_id \<Rightarrow> 'w feature_interface option \<Rightarrow> ('w feature_manager \<times> 'w feature_handle) res" where
  "FeatureManager_Register fm i itf =
     res_bind (panic_null (priority_lists fm)) (\<lambda>ls.
     res_bind (panic_unless (feature_handles fm i = None)) (\<lambda>_.
       let handle = \<lparr>client_id = i, client_interface = itf\<rparr> in
       res_bind (featureManager_VerifyClient ls handle) (\<lambda>_.
         Inr (fm\<lparr>feature_handles := (feature_handles fm)(i := Some handle)\<rparr>, Some handle))))"

definition FeatureManager_StartFeatureRequest ::
  "'w feature_manager \<Rightarrow> 'w feature_handle \<Rightarrow> 'w \<Rightarrow> ('w \<times> bool) res" where
  "FeatureManager_StartFeatureRequest fm h w =
     res_bind (panic_null (priority_lists fm)) (\<lambda>ls.
     res_bind (panic_null h) (\<lambda>c.
     res_bind (featureManager_IsHigherPriorityFeatureRunning fm ls c w) (\<lambda>higher.
       if higher then Inr (w, False)
       else res_bind (featureManager_PerformActionOnLowerPriorityFeatures fm ls c featureManager_SuspendClient w)
         (\<lambda>w. Inr (w, True)))))"

definition FeatureManager_StopFeatureIndication :: "'w feature_manager \<Rightarrow> 'w feature_handle \<Rightarrow> 'w \<Rightarrow> 'w res" where
  "FeatureManager_StopFeatureIndication fm h w =
     res_bind (panic_null (priority_lists fm)) (\<lambda>ls.
     res_bind (panic_null h) (\<lambda>c.
       featureManager_PerformActionOnLowerPriorityFeatures fm ls c (featureManager_ResumeClient fm ls) w))"

definition FeatureManager_CanFeatureStart :: "'w feature_manager \<Rightarrow> 'w feature_handle \<Rightarrow> 'w \<Rightarrow> bool res" where
  "FeatureManager_CanFeatureStart fm h w =
     res_bind (panic_null (priority_lists fm)) (\<lambda>ls.
     res_bind (panic_null h) (\<lambda>c.
     res_bind (featureManager_IsHigherPriorityFeatureRunning fm ls c w) (\<lambda>higher. Inr (\<not> higher))))"

text \<open>The lists of the headset: a call and the analog input each come before the voice assistant.\<close>

definition Headset_GetFeatureManagerPriorityLists :: feature_priority_lists where
  "Headset_GetFeatureManagerPriorityLists =
     [[feature_id_sco, feature_id_va], [feature_id_wired_analog_audio, feature_id_va]]"


section \<open>Order of the features\<close>

text \<open>The order a list gives, and the order of all lists together.\<close>

fun before_on :: "feature_id list \<Rightarrow> feature_id \<Rightarrow> feature_id \<Rightarrow> bool" where
  "before_on [] i j = False"
| "before_on (k # l) i j = (if k = i then j \<in> set l else before_on l i j)"

definition before :: "feature_priority_lists \<Rightarrow> feature_id \<Rightarrow> feature_id \<Rightarrow> bool" where
  "before ls i j = list_ex (\<lambda>l. before_on l i j) ls"

text \<open>
  The order is one the feature manager can keep: no list names a feature twice, the order is
  transitive, and where a list has two features, it has every feature between them, in its place.
\<close>

definition coherent :: "feature_priority_lists \<Rightarrow> bool" where
  "coherent ls =
     (list_all distinct ls \<and>
      list_all (\<lambda>i. list_all (\<lambda>j. list_all (\<lambda>k.
        before ls i j \<longrightarrow> before ls j k \<longrightarrow>
          before ls i k \<and> list_all (\<lambda>l. before_on l i k \<longrightarrow> before_on l i j \<and> before_on l j k) ls)
        feature_ids) feature_ids) feature_ids)"

lemma feature_ids_all [simp]: "i \<in> set feature_ids"
  by (cases i) (simp_all add: feature_ids_def)

lemma before_iff: "before ls i j \<longleftrightarrow> (\<exists>l \<in> set ls. before_on l i j)"
  by (simp add: before_def list_ex_iff)

lemma coherentD:
  assumes "coherent ls"
  shows "\<forall>l \<in> set ls. distinct l"
    and "\<forall>i j k. before ls i j \<longrightarrow> before ls j k \<longrightarrow>
           before ls i k \<and> (\<forall>l \<in> set ls. before_on l i k \<longrightarrow> before_on l i j \<and> before_on l j k)"
  using assms feature_ids_all unfolding coherent_def list_all_iff by blast+

lemma coherent_distinct: "coherent ls \<Longrightarrow> l \<in> set ls \<Longrightarrow> distinct l"
  using coherentD(1) by blast

lemma coherent_trans: "coherent ls \<Longrightarrow> before ls i j \<Longrightarrow> before ls j k \<Longrightarrow> before ls i k"
  using coherentD(2) by blast

lemma coherent_between:
  "coherent ls \<Longrightarrow> before ls i j \<Longrightarrow> before ls j k \<Longrightarrow> l \<in> set ls \<Longrightarrow> before_on l i k \<Longrightarrow>
   before_on l i j \<and> before_on l j k"
  using coherentD(2) by blast

lemma before_on_mem: "before_on l i j \<Longrightarrow> i \<in> set l \<and> j \<in> set l"
  by (induction l) (auto split: if_splits)

lemma before_on_not_refl: "distinct l \<Longrightarrow> \<not> before_on l i i"
  by (induction l) auto

lemma before_irrefl: "coherent ls \<Longrightarrow> \<not> before ls i i"
  using before_on_not_refl coherent_distinct unfolding before_iff by blast

lemma before_asym: "coherent ls \<Longrightarrow> before ls i j \<Longrightarrow> \<not> before ls j i"
  using before_irrefl coherent_trans by blast

lemma index_nth: "find_index (\<lambda>j. j = i) l = Some k \<Longrightarrow> k < length l \<and> l ! k = i"
  by (drule find_index_SomeD) simp

lemma before_on_index_None: "find_index (\<lambda>j. j = i) l = None \<Longrightarrow> \<not> before_on l i j"
  by (induction l) (auto split: if_splits)

lemma before_on_index_None': "find_index (\<lambda>j. j = i) l = None \<Longrightarrow> \<not> before_on l j i"
  by (induction l) (auto split: if_splits simp: find_index_None_iff)

lemma before_on_behind: "find_index (\<lambda>j. j = i) l = Some k \<Longrightarrow> before_on l i j \<longleftrightarrow> j \<in> set (drop (Suc k) l)"
  by (induction l arbitrary: k) (auto split: if_splits)

lemma before_on_ahead:
  "distinct l \<Longrightarrow> find_index (\<lambda>j. j = i) l = Some k \<Longrightarrow> before_on l j i \<longleftrightarrow> j \<in> set (take k l)"
proof (induction l arbitrary: k)
  case (Cons a l)
  then show ?case
  proof (cases "a = i")
    case False
    then obtain k' where k': "find_index (\<lambda>j. j = i) l = Some k'" "k = Suc k'"
      using Cons.prems by auto
    have "i \<in> set l"
      using index_nth [OF k'(1)] nth_mem by metis
    then show ?thesis
      using Cons.IH [OF _ k'(1)] Cons.prems k' False by auto
  qed (auto dest: before_on_mem split: if_splits)
qed simp

text \<open>The feature at a position of the tail is visited after exactly the features before it.\<close>

lemma before_on_position:
  assumes "distinct l" and "find_index (\<lambda>j. j = i) l = Some k"
    and "drop (Suc k) l = xs @ j # ys" and "before_on l i i'" and "before_on l i' j"
  shows "i' \<in> set xs"
proof -
  have "l = take k l @ i # drop (Suc k) l"
    using index_nth [OF assms(2)] id_take_nth_drop by metis
  then obtain pre where l: "l = pre @ i # xs @ j # ys"
    using assms(3) by metis
  have split: "before_on (us @ vs) a b \<longleftrightarrow> (if a \<in> set us then before_on us a b \<or> b \<in> set vs else before_on vs a b)"
    for us vs a b by (induction us) auto
  show ?thesis
    using assms(1,4,5) unfolding l by (auto simp: split dest: before_on_mem split: if_splits)
qed

section \<open>What the clients see\<close>

text \<open>A registered feature that runs, and one that waits to be resumed.\<close>

definition runs :: "'w feature_manager \<Rightarrow> (feature_id \<Rightarrow> 'w \<Rightarrow> feature_state) \<Rightarrow> 'w \<Rightarrow> feature_id \<Rightarrow> bool" where
  "runs fm st w i \<longleftrightarrow> feature_handles fm i \<noteq> None \<and> st i w = feature_state_running"

definition waits :: "'w feature_manager \<Rightarrow> (feature_id \<Rightarrow> 'w \<Rightarrow> feature_state) \<Rightarrow> 'w \<Rightarrow> feature_id \<Rightarrow> bool" where
  "waits fm st w i \<longleftrightarrow> feature_handles fm i \<noteq> None \<and> st i w = feature_state_suspended"

text \<open>Features of a list exclude each other, and a feature waits only while one before it runs.\<close>

definition exclusive ::
  "'w feature_manager \<Rightarrow> feature_priority_lists \<Rightarrow> (feature_id \<Rightarrow> 'w \<Rightarrow> feature_state) \<Rightarrow> 'w \<Rightarrow> bool" where
  "exclusive fm ls st w \<longleftrightarrow> (\<forall>i j. before ls i j \<longrightarrow> \<not> (runs fm st w i \<and> runs fm st w j))"

definition waiting ::
  "'w feature_manager \<Rightarrow> feature_priority_lists \<Rightarrow> (feature_id \<Rightarrow> 'w \<Rightarrow> feature_state) \<Rightarrow> 'w \<Rightarrow> bool" where
  "waiting fm ls st w \<longleftrightarrow> (\<forall>j. waits fm st w j \<longrightarrow> (\<exists>h. before ls h j \<and> runs fm st w h))"

text \<open>
  The contract of the features: a registered client reports its state; its functions to suspend
  and resume change its own state only and keep what the clients rely on.
\<close>

locale features =
  fixes fm :: "'w feature_manager"
    and ls :: feature_priority_lists
    and st :: "feature_id \<Rightarrow> 'w \<Rightarrow> feature_state"
    and ok :: "'w \<Rightarrow> bool"
  assumes lists: "priority_lists fm = Some ls"
    and order: "coherent ls"
    and client: "feature_handles fm i = Some c \<Longrightarrow>
      client_id c = i \<and> (\<exists>itf. client_interface c = Some itf \<and> GetState itf = Some (st i) \<and>
        ((\<exists>h. before ls h i) \<longrightarrow> Suspend itf \<noteq> None \<and> Resume itf \<noteq> None))"
    and suspend: "feature_handles fm i = Some c \<Longrightarrow> Option.bind (client_interface c) Suspend = Some f \<Longrightarrow>
      ok w \<Longrightarrow> st i w = feature_state_running \<Longrightarrow>
      \<exists>w'. f w = Inr w' \<and> ok w' \<and> st i w' \<noteq> feature_state_running \<and> (\<forall>j. j \<noteq> i \<longrightarrow> st j w' = st j w)"
    and resume: "feature_handles fm i = Some c \<Longrightarrow> Option.bind (client_interface c) Resume = Some f \<Longrightarrow>
      ok w \<Longrightarrow> st i w = feature_state_suspended \<Longrightarrow>
      \<exists>w'. f w = Inr w' \<and> ok w' \<and> st i w' = feature_state_running \<and> (\<forall>j. j \<noteq> i \<longrightarrow> st j w' = st j w)"
begin

abbreviation run :: "'w \<Rightarrow> feature_id \<Rightarrow> bool" where "run w i \<equiv> runs fm st w i"
abbreviation susp :: "'w \<Rightarrow> feature_id \<Rightarrow> bool" where "susp w i \<equiv> waits fm st w i"

lemma client_state: "feature_handles fm i = Some c \<Longrightarrow> client_GetState c w = Inr (st i w)"
  using client [of i c] by (auto simp: client_GetState_def)

lemma client_found: "featureManager_GetClientFromId fm i = feature_handles fm i"
proof -
  have "client_id c = k" if "feature_handles fm k = Some c" for k c
    using client [OF that] by simp
  then show ?thesis
    by (cases i) (auto simp: featureManager_GetClientFromId_def feature_ids_def split: option.splits)
qed

lemma higher_running_eq: "higher_running fm is w = Inr (\<exists>i \<in> set is. run w i)"
  by (induction "is") (auto simp: client_found client_state runs_def split: option.splits)

lemma higher_on_list_eq:
  assumes "feature_handles fm i = Some c" and "l \<in> set ls"
  shows "higher_running_on_list fm c w l b = Inr (b \<or> (\<exists>h. before_on l h i \<and> run w h))"
proof (cases "find_index (\<lambda>j. j = i) l")
  case None
  then show ?thesis
    using assms client before_on_index_None'
    by (auto simp: higher_running_on_list_def featureManager_GetIndexForFeatureInPriorityList_def)
next
  case (Some k)
  then show ?thesis
    using assms client [OF assms(1)] before_on_ahead [OF coherent_distinct [OF order assms(2)] Some]
    by (auto simp: higher_running_on_list_def featureManager_GetIndexForFeatureInPriorityList_def
        higher_running_eq)
qed

lemma higher_eq:
  assumes "feature_handles fm i = Some c"
  shows "featureManager_IsHigherPriorityFeatureRunning fm ls c w = Inr (\<exists>h. before ls h i \<and> run w h)"
proof -
  have "for_res (higher_running_on_list fm c w) ls' b = Inr (b \<or> (\<exists>h. (\<exists>l \<in> set ls'. before_on l h i) \<and> run w h))"
    if "set ls' \<subseteq> set ls" for ls' b
    using that by (induction ls' arbitrary: b) (auto simp: higher_on_list_eq [OF assms])
  then show ?thesis
    by (simp add: featureManager_IsHigherPriorityFeatureRunning_def before_iff)
qed

text \<open>An action on the features behind one visits each after those between.\<close>

lemma perform_visits:
  assumes reg: "feature_handles fm i = Some c" and start: "I V w"
    and visit: "\<And>V w j d. I V w \<Longrightarrow> feature_handles fm j = Some d \<Longrightarrow> before ls i j \<Longrightarrow>
      (\<forall>k. before ls i k \<longrightarrow> before ls k j \<longrightarrow> k \<in> V) \<Longrightarrow> \<exists>w'. action d w = Inr w' \<and> I (insert j V) w'"
    and skip: "\<And>V w j. I V w \<Longrightarrow> feature_handles fm j = None \<Longrightarrow> I (insert j V) w"
  shows "\<exists>w'. featureManager_PerformActionOnLowerPriorityFeatures fm ls c action w = Inr w' \<and>
    I (V \<union> {j. before ls i j}) w'"
proof -
  define g where "g = (\<lambda>i w. case featureManager_GetClientFromId fm i of Some client \<Rightarrow> action client w | None \<Rightarrow> Inr w)"
  have on_list: "\<exists>w'. action_on_list fm c action l w = Inr w' \<and> I (V \<union> {j. before_on l i j}) w'"
    if l: "l \<in> set ls" and I: "I V w" for l V w
  proof (cases "find_index (\<lambda>j. j = i) l")
    case None
    then show ?thesis
      using I client [OF reg] before_on_index_None [OF None]
      by (simp add: action_on_list_def featureManager_GetIndexForFeatureInPriorityList_def)
  next
    case (Some k)
    note dl = coherent_distinct [OF order l]
    have walk: "\<exists>w'. for_res g xs w = Inr w' \<and> I (V \<union> set xs) w'" if "drop (Suc k) l = xs @ ys" for xs ys
      using that
    proof (induction xs arbitrary: ys rule: rev_induct)
      case (snoc j xs)
      then obtain w1 where w1: "for_res g xs w = Inr w1" "I (V \<union> set xs) w1"
        by (metis append.assoc)
      have pos: "drop (Suc k) l = xs @ j # ys"
        using snoc.prems by simp
      then have ij: "before_on l i j"
        using before_on_behind [OF Some] by simp
      have vis: "k' \<in> V \<union> set xs" if "before ls i k'" "before ls k' j" for k'
        using before_on_position [OF dl Some pos] coherent_between [OF order that l ij] by blast
      have "\<exists>w2. g j w1 = Inr w2 \<and> I (insert j (V \<union> set xs)) w2"
        using visit [OF w1(2) _ _ ] skip [OF w1(2)] ij l vis
        unfolding g_def client_found by (cases "feature_handles fm j") (auto simp: before_iff)
      then show ?case
        using w1(1) by (auto simp: for_res_append)
    qed (use I in simp)
    obtain w' where "for_res g (drop (Suc k) l) w = Inr w'" "I (V \<union> set (drop (Suc k) l)) w'"
      using walk [of _ "[]"] by auto
    moreover have "set (drop (Suc k) l) = {j. before_on l i j}"
      using before_on_behind [OF Some] by auto
    ultimately show ?thesis
      using Some client [OF reg]
      by (simp add: action_on_list_def featureManager_GetIndexForFeatureInPriorityList_def g_def)
  qed
  have "\<exists>w'. for_res (action_on_list fm c action) ls' w = Inr w' \<and> I (V \<union> {j. \<exists>l \<in> set ls'. before_on l i j}) w'"
    if "set ls' \<subseteq> set ls" "I V w" for ls' V w
    using that
  proof (induction ls' arbitrary: V w)
    case (Cons l ls')
    obtain w1 where w1: "action_on_list fm c action l w = Inr w1" "I (V \<union> {j. before_on l i j}) w1"
      using on_list Cons.prems by fastforce
    obtain w2 where "for_res (action_on_list fm c action) ls' w1 = Inr w2"
      "I (V \<union> {j. before_on l i j} \<union> {j. \<exists>l \<in> set ls'. before_on l i j}) w2"
      using Cons.IH [OF _ w1(2)] Cons.prems(1) by auto
    moreover have "V \<union> {j. before_on l i j} \<union> {j. \<exists>l \<in> set ls'. before_on l i j} =
      V \<union> {j. \<exists>l \<in> set (l # ls'). before_on l i j}" by auto
    ultimately show ?case
      using w1(1) by auto
  qed simp
  from this [OF order.refl start] show ?thesis
    by (simp add: featureManager_PerformActionOnLowerPriorityFeatures_def before_iff)
qed

lemma suspend_client:
  assumes "feature_handles fm j = Some d" and "ok w" and "before ls i j"
  shows "\<exists>w'. featureManager_SuspendClient d w = Inr w' \<and> ok w' \<and> st j w' \<noteq> feature_state_running \<and>
    (\<forall>k. k \<noteq> j \<longrightarrow> st k w' = st k w) \<and> (st j w \<noteq> feature_state_running \<longrightarrow> st j w' = st j w)"
proof -
  obtain f where f: "Option.bind (client_interface d) Suspend = Some f"
    using client [OF assms(1)] assms(3) by auto
  show ?thesis
    using suspend [OF assms(1) f assms(2)] assms(2) f client_state [OF assms(1)]
    by (auto simp: featureManager_SuspendClient_def)
qed

lemma resume_client:
  assumes "feature_handles fm j = Some d" and "ok w" and "before ls i j"
  shows "\<exists>w'. featureManager_ResumeClient fm ls d w = Inr w' \<and> ok w' \<and> (\<forall>k. k \<noteq> j \<longrightarrow> st k w' = st k w) \<and>
    st j w' = (if susp w j \<and> \<not> (\<exists>h. before ls h j \<and> run w h) then feature_state_running else st j w)"
proof -
  obtain f where f: "Option.bind (client_interface d) Resume = Some f"
    using client [OF assms(1)] assms(3) by auto
  show ?thesis
    using resume [OF assms(1) f assms(2)] assms(1,2) f client_state [OF assms(1)] higher_eq [OF assms(1)]
    by (auto simp: featureManager_ResumeClient_def waits_def)
qed

text \<open>
  A request to start is granted unless a feature before it runs; then nothing behind it runs
  any more, and what was suspended waits.
\<close>

lemma start_request:
  assumes reg: "feature_handles fm i = Some c" and ok: "ok w"
  shows "\<exists>w'. FeatureManager_StartFeatureRequest fm (Some c) w = Inr (w', \<not> (\<exists>h. before ls h i \<and> run w h)) \<and>
    ok w' \<and> ((\<exists>h. before ls h i \<and> run w h) \<longrightarrow> w' = w) \<and>
    (\<not> (\<exists>h. before ls h i \<and> run w h) \<longrightarrow> (\<forall>j. before ls i j \<longrightarrow> \<not> run w' j)) \<and>
    (\<forall>j. \<not> before ls i j \<longrightarrow> st j w' = st j w) \<and>
    (\<forall>j. \<not> run w j \<longrightarrow> st j w' = st j w \<or> feature_handles fm j = None)"
proof (cases "\<exists>h. before ls h i \<and> run w h")
  case True
  then show ?thesis
    using ok higher_eq [OF reg, of w] by (auto simp: FeatureManager_StartFeatureRequest_def lists)
next
  case False
  define I where "I V w1 \<longleftrightarrow> ok w1 \<and> (\<forall>j \<in> V. \<not> run w1 j) \<and> (\<forall>j. \<not> before ls i j \<longrightarrow> st j w1 = st j w) \<and>
    (\<forall>j. \<not> run w j \<longrightarrow> st j w1 = st j w \<or> feature_handles fm j = None)" for V w1
  have "\<exists>w'. featureManager_PerformActionOnLowerPriorityFeatures fm ls c featureManager_SuspendClient w = Inr w' \<and>
    I ({} \<union> {j. before ls i j}) w'"
  proof (rule perform_visits [OF reg, where I = I])
    show "I {} w"
      using ok by (simp add: I_def)
  next
    fix V w1 j d
    assume a: "I V w1" "feature_handles fm j = Some d" "before ls i j"
    have ok1: "ok w1"
      using a(1) by (simp add: I_def)
    obtain w2 where w2: "featureManager_SuspendClient d w1 = Inr w2" "ok w2" "st j w2 \<noteq> feature_state_running"
      "\<forall>k. k \<noteq> j \<longrightarrow> st k w2 = st k w1" "st j w1 \<noteq> feature_state_running \<longrightarrow> st j w2 = st j w1"
      using suspend_client [OF a(2) ok1 a(3)] by blast
    have "I (insert j V) w2"
      using a w2 unfolding I_def runs_def by (metis insertE)
    then show "\<exists>w'. featureManager_SuspendClient d w1 = Inr w' \<and> I (insert j V) w'"
      using w2(1) by blast
  qed (auto simp: I_def runs_def)
  then show ?thesis
    using False higher_eq [OF reg, of w] by (auto simp: FeatureManager_StartFeatureRequest_def lists I_def)
qed

text \<open>What the manager needs when a feature stops; it is left with features that wait for a reason.\<close>

definition quiet :: "'w \<Rightarrow> bool" where
  "quiet w \<longleftrightarrow> (\<forall>j k. susp w j \<longrightarrow> before ls j k \<longrightarrow> \<not> run w k)"

lemma waiting_quiet: "exclusive fm ls st w \<Longrightarrow> waiting fm ls st w \<Longrightarrow> quiet w"
  unfolding exclusive_def waiting_def quiet_def using coherent_trans [OF order] by blast

lemma stop_indication:
  assumes reg: "feature_handles fm i = Some c" and ok: "ok w" and excl: "exclusive fm ls st w"
    and quiet: "quiet w" and reason: "\<forall>j. susp w j \<longrightarrow> before ls i j \<or> (\<exists>h. before ls h j \<and> run w h)"
  shows "\<exists>w'. FeatureManager_StopFeatureIndication fm (Some c) w = Inr w' \<and> ok w' \<and>
    exclusive fm ls st w' \<and> waiting fm ls st w' \<and> (\<forall>j. \<not> susp w j \<longrightarrow> st j w' = st j w) \<and>
    (\<forall>j. susp w j \<longrightarrow> susp w' j \<or> run w' j)"
proof -
  define I where "I V w1 \<longleftrightarrow> ok w1 \<and> exclusive fm ls st w1 \<and> quiet w1 \<and>
    (\<forall>j. susp w1 j \<longrightarrow> (\<exists>h. before ls h j \<and> run w1 h) \<or> (before ls i j \<and> j \<notin> V)) \<and>
    (\<forall>j. \<not> susp w j \<longrightarrow> st j w1 = st j w) \<and> (\<forall>j. susp w j \<longrightarrow> susp w1 j \<or> run w1 j)" for V w1
  have "\<exists>w'. featureManager_PerformActionOnLowerPriorityFeatures fm ls c (featureManager_ResumeClient fm ls) w = Inr w' \<and>
    I ({} \<union> {j. before ls i j}) w'"
  proof (rule perform_visits [OF reg, where I = I])
    show "I {} w"
      using ok excl quiet reason by (simp add: I_def) blast
  next
    fix V w1 j d
    assume a: "I V w1" "feature_handles fm j = Some d" "before ls i j"
      and between: "\<forall>k. before ls i k \<longrightarrow> before ls k j \<longrightarrow> k \<in> V"
    have ok1: "ok w1"
      using a(1) by (simp add: I_def)
    obtain w2 where w2: "featureManager_ResumeClient fm ls d w1 = Inr w2" "ok w2" "\<forall>k. k \<noteq> j \<longrightarrow> st k w2 = st k w1"
      "st j w2 = (if susp w1 j \<and> \<not> (\<exists>h. before ls h j \<and> run w1 h) then feature_state_running else st j w1)"
      using resume_client [OF a(2) ok1 a(3)] by blast
    have "I (insert j V) w2"
    proof (cases "susp w1 j \<and> \<not> (\<exists>h. before ls h j \<and> run w1 h)")
      case False
      then have same: "st k w2 = st k w1" for k
        using w2(3,4) by (cases "k = j") auto
      then show ?thesis
        using a(1) False w2(2) unfolding I_def runs_def waits_def exclusive_def quiet_def by auto
    next
      case True
      have run2: "run w2 k \<longleftrightarrow> k = j \<or> run w1 k" for k
        using True w2(3,4) a(2) by (cases "k = j") (auto simp: runs_def waits_def)
      have susp2: "susp w2 k \<longleftrightarrow> k \<noteq> j \<and> susp w1 k" for k
        using True w2(3,4) by (cases "k = j") (auto simp: waits_def)
      have unresumed: "\<not> susp w1 k" if "before ls k j" for k
      proof
        assume s: "susp w1 k"
        then have "before ls i k \<and> k \<notin> V"
          using a(1) True that coherent_trans [OF order] unfolding I_def by blast
        then show False
          using between that by blast
      qed
      have "exclusive fm ls st w2"
        using a(1) True before_irrefl [OF order] unfolding I_def exclusive_def quiet_def run2 by blast
      moreover have "quiet w2"
        using a(1) unresumed unfolding I_def quiet_def run2 susp2 by blast
      moreover have "\<forall>k. susp w2 k \<longrightarrow> (\<exists>h. before ls h k \<and> run w2 h) \<or> (before ls i k \<and> k \<notin> insert j V)"
        using a(1) unfolding I_def run2 susp2 by blast
      moreover have "\<forall>k. \<not> susp w k \<longrightarrow> st k w2 = st k w"
        using a(1) True w2(3) unfolding I_def runs_def waits_def by (metis feature_state.distinct(5))
      moreover have "\<forall>k. susp w k \<longrightarrow> susp w2 k \<or> run w2 k"
        using a(1) unfolding I_def run2 susp2 by blast
      ultimately show ?thesis
        using w2(2) unfolding I_def by blast
    qed
    then show "\<exists>w'. featureManager_ResumeClient fm ls d w1 = Inr w' \<and> I (insert j V) w'"
      using w2(1) by blast
  next
    fix V w1 j
    assume "I V w1" "feature_handles fm j = None"
    then show "I (insert j V) w1"
      unfolding I_def by (auto simp: waits_def)
  qed
  then obtain w' where w': "featureManager_PerformActionOnLowerPriorityFeatures fm ls c (featureManager_ResumeClient fm ls) w = Inr w'"
    "I {j. before ls i j} w'" by auto
  then have "waiting fm ls st w'"
    unfolding I_def waiting_def by blast
  then show ?thesis
    using w' unfolding I_def FeatureManager_StopFeatureIndication_def lists by simp
qed

text \<open>
  The three things a feature does: it starts when it may, it waits when it may not, and it
  stops; and it may give up after it was granted the start. Each keeps the order.
\<close>

lemma granted_keeps:
  assumes "feature_handles fm i = Some c" and "ok w" and "exclusive fm ls st w" and "waiting fm ls st w"
    and "FeatureManager_StartFeatureRequest fm (Some c) w = Inr (w1, True)"
    and "st i w2 = feature_state_running" and "\<forall>j. j \<noteq> i \<longrightarrow> st j w2 = st j w1"
  shows "exclusive fm ls st w2 \<and> waiting fm ls st w2"
proof -
  have none: "\<not> (\<exists>h. before ls h i \<and> run w h)" and below: "\<forall>j. before ls i j \<longrightarrow> \<not> run w1 j"
    and same: "\<forall>j. \<not> before ls i j \<longrightarrow> st j w1 = st j w" and idle: "\<forall>j. \<not> run w j \<longrightarrow> \<not> run w1 j"
    using start_request [OF assms(1,2)] assms(5) by (auto simp: runs_def)
  have r2: "run w2 j \<longleftrightarrow> j = i \<or> (\<not> before ls i j \<and> run w j)" for j
    using assms(1,6,7) below same unfolding runs_def by (cases "j = i"; cases "before ls i j") auto
  have s2: "susp w2 j \<Longrightarrow> j \<noteq> i \<and> (susp w j \<or> before ls i j)" for j
    using assms(6,7) same by (cases "j = i") (auto simp: waits_def)
  have "exclusive fm ls st w2"
    using assms(3) none before_irrefl [OF order] unfolding exclusive_def r2 by blast
  moreover have "waiting fm ls st w2"
    unfolding waiting_def r2
    using s2 assms(4) coherent_trans [OF order] unfolding waiting_def by blast
  ultimately show ?thesis ..
qed

lemma refused_keeps:
  assumes "feature_handles fm i = Some c" and "ok w" and "exclusive fm ls st w" and "waiting fm ls st w"
    and "FeatureManager_StartFeatureRequest fm (Some c) w = Inr (w1, False)"
    and "st i w2 = feature_state_suspended" and "\<forall>j. j \<noteq> i \<longrightarrow> st j w2 = st j w1" and "\<not> run w i"
  shows "exclusive fm ls st w2 \<and> waiting fm ls st w2"
proof -
  have higher: "\<exists>h. before ls h i \<and> run w h" and same: "w1 = w"
    using start_request [OF assms(1,2)] assms(5) by auto
  have r2: "run w2 j \<longleftrightarrow> run w j" for j
    using assms(6,7,8) same by (cases "j = i") (auto simp: runs_def)
  have s2: "susp w2 j \<Longrightarrow> j = i \<or> susp w j" for j
    using assms(7) same by (cases "j = i") (auto simp: waits_def)
  show ?thesis
    using assms(3,4) higher s2 unfolding exclusive_def waiting_def r2 by blast
qed

lemma stopped_keeps:
  assumes "feature_handles fm i = Some c" and "ok w0" and "exclusive fm ls st w" and "waiting fm ls st w"
    and "st i w0 = feature_state_idle" and "\<forall>j. j \<noteq> i \<longrightarrow> st j w0 = st j w"
  shows "\<exists>w1. FeatureManager_StopFeatureIndication fm (Some c) w0 = Inr w1 \<and> ok w1 \<and>
    exclusive fm ls st w1 \<and> waiting fm ls st w1 \<and> (\<forall>j. \<not> susp w0 j \<longrightarrow> st j w1 = st j w0) \<and>
    (\<forall>j. susp w0 j \<longrightarrow> susp w1 j \<or> run w1 j)"
proof (rule stop_indication [OF assms(1,2)])
  have r0: "run w0 j \<longleftrightarrow> j \<noteq> i \<and> run w j" and s0: "susp w0 j \<longleftrightarrow> j \<noteq> i \<and> susp w j" for j
    using assms(5,6) by (cases "j = i"; auto simp: runs_def waits_def)+
  show "exclusive fm ls st w0"
    using assms(3) unfolding exclusive_def r0 by blast
  show "quiet w0"
    using waiting_quiet [OF assms(3,4)] unfolding quiet_def r0 s0 by blast
  show "\<forall>j. susp w0 j \<longrightarrow> before ls i j \<or> (\<exists>h. before ls h j \<and> run w0 h)"
    using assms(4) unfolding waiting_def r0 s0 by blast
qed

lemma given_up_keeps:
  assumes "feature_handles fm i = Some c" and "ok w" and "exclusive fm ls st w" and "waiting fm ls st w"
    and "FeatureManager_StartFeatureRequest fm (Some c) w = Inr (w1, True)"
  shows "\<exists>w2. FeatureManager_StopFeatureIndication fm (Some c) w1 = Inr w2 \<and> ok w2 \<and>
    exclusive fm ls st w2 \<and> waiting fm ls st w2 \<and> (\<forall>j. \<not> susp w1 j \<longrightarrow> st j w2 = st j w1) \<and>
    (\<forall>j. susp w1 j \<longrightarrow> susp w2 j \<or> run w2 j)"
proof -
  have ok1: "ok w1" and none: "\<not> (\<exists>h. before ls h i \<and> run w h)" and below: "\<forall>j. before ls i j \<longrightarrow> \<not> run w1 j"
    and same: "\<forall>j. \<not> before ls i j \<longrightarrow> st j w1 = st j w" and idle: "\<forall>j. \<not> run w j \<longrightarrow> \<not> run w1 j"
    using start_request [OF assms(1,2)] assms(5) by (auto simp: runs_def)
  have r1: "run w1 j \<longleftrightarrow> \<not> before ls i j \<and> run w j" for j
    using below same unfolding runs_def by (cases "before ls i j") auto
  have s1: "susp w1 j \<Longrightarrow> susp w j \<or> before ls i j" for j
    using same by (auto simp: waits_def)
  show ?thesis
  proof (rule stop_indication [OF assms(1) ok1])
    show "exclusive fm ls st w1"
      using assms(3) unfolding exclusive_def r1 by blast
    show "quiet w1"
      using waiting_quiet [OF assms(3,4)] s1 coherent_trans [OF order] unfolding quiet_def r1 by blast
    show "\<forall>j. susp w1 j \<longrightarrow> before ls i j \<or> (\<exists>h. before ls h j \<and> run w1 h)"
      using assms(4) s1 coherent_trans [OF order] unfolding waiting_def r1 by blast
  qed
qed

end

section \<open>Registration\<close>

text \<open>
  Registering never replaces a client, and a client that may be suspended brings both
  functions, whichever lists are in force.
\<close>

lemma register_client:
  assumes "FeatureManager_Register fm i itf = Inr (fm', h)"
  shows "feature_handles fm i = None" and "feature_handles fm' = (feature_handles fm)(i := h)"
    and "priority_lists fm' = priority_lists fm"
    and "h = Some \<lparr>client_id = i, client_interface = itf\<rparr>"
    and "\<exists>ls f. priority_lists fm = Some ls \<and> itf = Some f \<and> GetState f \<noteq> None \<and>
      ((\<exists>j. before ls j i) \<longrightarrow> list_all distinct ls \<longrightarrow> Suspend f \<noteq> None \<and> Resume f \<noteq> None)"
proof -
  let ?h = "\<lparr>client_id = i, client_interface = itf\<rparr>"
  obtain ls where ls1: "priority_lists fm = Some ls"
    using assms by (cases "priority_lists fm") (simp_all add: FeatureManager_Register_def)
  have ls2: "feature_handles fm i = None"
    using assms ls1 by (cases "feature_handles fm i") (simp_all add: FeatureManager_Register_def)
  have ls3: "featureManager_VerifyClient ls ?h = Inr ()"
    using assms ls1 ls2
    by (cases "featureManager_VerifyClient ls ?h") (simp_all add: FeatureManager_Register_def Let_def)
  have "Inr (fm\<lparr>feature_handles := (feature_handles fm)(i \<mapsto> ?h)\<rparr>, Some ?h) = FeatureManager_Register fm i itf"
    using ls1 ls2 ls3 by (simp add: FeatureManager_Register_def Let_def)
  then have ls4: "fm' = fm\<lparr>feature_handles := (feature_handles fm)(i \<mapsto> ?h)\<rparr>" "h = Some ?h"
    using assms by auto
  note ls = ls1 ls3
  show "feature_handles fm i = None" by (rule ls2)
  show "feature_handles fm' = (feature_handles fm)(i := h)"
    "priority_lists fm' = priority_lists fm" "h = Some \<lparr>client_id = i, client_interface = itf\<rparr>"
    using ls4 by simp_all
  have lowest: "\<not> featureManager_IsHighestPriorityFeatureOnAllLists ls i"
    if ji: "before ls j i" and dls: "list_all distinct ls" for j
  proof -
    obtain l where l: "l \<in> set ls" "before_on l j i"
      using ji by (auto simp: before_iff)
    have dl: "distinct l"
      using dls l(1) by (simp add: list_all_iff)
    have "find_index (\<lambda>j. j = i) l \<noteq> None"
      using l(2) before_on_index_None' [of i l j] by blast
    then obtain k where k: "find_index (\<lambda>j. j = i) l = Some k"
      by blast
    have "0 < k"
      using before_on_ahead [OF dl k, of j] l(2) by (cases k) simp_all
    then show ?thesis
      using l(1) k unfolding featureManager_IsHighestPriorityFeatureOnAllLists_def list_all_iff
        featureManager_GetIndexForFeatureInPriorityList_def by (auto intro!: bexI [of _ l])
  qed
  show "\<exists>ls f. priority_lists fm = Some ls \<and> itf = Some f \<and> GetState f \<noteq> None \<and>
      ((\<exists>j. before ls j i) \<longrightarrow> list_all distinct ls \<longrightarrow> Suspend f \<noteq> None \<and> Resume f \<noteq> None)"
    using ls lowest
    by (auto simp: featureManager_VerifyClient_def panic_null_def split: option.splits if_splits)
qed


section \<open>Plain features\<close>

text \<open>
  Features that keep their state in a variable and do nothing else, as the call and the analog input
  do, start and stop in any order. Their world is the state of each.
\<close>

type_synonym feature_world = "feature_id \<Rightarrow> feature_state"

definition plain_interface :: "feature_id \<Rightarrow> feature_world feature_interface" where
  "plain_interface i = \<lparr>GetState = Some (\<lambda>w. w i),
     Suspend = Some (\<lambda>w. Inr (w(i := feature_state_suspended))),
     Resume = Some (\<lambda>w. Inr (w(i := feature_state_running)))\<rparr>"

definition plain_manager :: "feature_priority_lists \<Rightarrow> feature_world feature_manager res" where
  "plain_manager ls =
     for_res (\<lambda>i fm. res_bind (FeatureManager_Register fm i (Some (plain_interface i))) (\<lambda>(fm, _). Inr fm))
       feature_ids (FeatureManager_SetPriorities feature_manager_start (Some ls))"

datatype feature_event = FeatureStarts feature_id | FeatureGivesUp feature_id | FeatureStops feature_id

definition feature_step ::
  "feature_world feature_manager \<Rightarrow> feature_event \<Rightarrow> feature_world \<Rightarrow> feature_world res" where
  "feature_step fm e w = (case e of
     FeatureStarts i \<Rightarrow>
       if w i = feature_state_idle
       then res_bind (FeatureManager_StartFeatureRequest fm (feature_handles fm i) w) (\<lambda>(w, granted).
         Inr (w(i := if granted then feature_state_running else feature_state_suspended)))
       else Inr w
   | FeatureGivesUp i \<Rightarrow>
       if w i = feature_state_idle
       then res_bind (FeatureManager_StartFeatureRequest fm (feature_handles fm i) w) (\<lambda>(w, granted).
         if granted then FeatureManager_StopFeatureIndication fm (feature_handles fm i) w else Inr w)
       else Inr w
   | FeatureStops i \<Rightarrow>
       if w i \<noteq> feature_state_idle
       then FeatureManager_StopFeatureIndication fm (feature_handles fm i) (w(i := feature_state_idle))
       else Inr w)"

definition run_features :: "feature_priority_lists \<Rightarrow> feature_event list \<Rightarrow> feature_world res" where
  "run_features ls es =
     res_bind (plain_manager ls) (\<lambda>fm. for_res (feature_step fm) es (\<lambda>_. feature_state_idle))"

definition plain_fm :: "feature_priority_lists \<Rightarrow> feature_world feature_manager" where
  "plain_fm ls = \<lparr>priority_lists = Some ls,
     feature_handles = (\<lambda>i. Some \<lparr>client_id = i, client_interface = Some (plain_interface i)\<rparr>)\<rparr>"

lemma plain_manager_eq: "plain_manager ls = Inr (plain_fm ls)"
proof -
  have verify: "featureManager_VerifyClient ls \<lparr>client_id = i, client_interface = Some (plain_interface i)\<rparr> = Inr ()" for i
    by (simp add: featureManager_VerifyClient_def plain_interface_def)
  have all: "(\<lambda>_. None)(feature_id_sco := f feature_id_sco, feature_id_va := f feature_id_va,
    feature_id_handset_multipoint := f feature_id_handset_multipoint,
    feature_id_wired_analog_audio := f feature_id_wired_analog_audio) = f" for f :: "feature_id \<Rightarrow> 'a option"
  proof
    show "((\<lambda>_. None)(feature_id_sco := f feature_id_sco, feature_id_va := f feature_id_va,
      feature_id_handset_multipoint := f feature_id_handset_multipoint,
      feature_id_wired_analog_audio := f feature_id_wired_analog_audio)) i = f i" for i
      by (cases i) simp_all
  qed
  show ?thesis
    by (simp add: plain_manager_def feature_ids_def FeatureManager_Register_def FeatureManager_SetPriorities_def
        feature_manager_start_def verify Let_def plain_fm_def all [of "\<lambda>i. Some \<lparr>client_id = i, client_interface = Some (plain_interface i)\<rparr>"])
qed

lemma plain_features: "coherent ls \<Longrightarrow> features (plain_fm ls) ls (\<lambda>i w. w i) (\<lambda>_. True)"
  by unfold_locales (auto simp: plain_fm_def plain_interface_def)

lemma plain_step:
  assumes "coherent ls" and "exclusive (plain_fm ls) ls (\<lambda>i w. w i) w" and "waiting (plain_fm ls) ls (\<lambda>i w. w i) w"
  shows "\<exists>w'. feature_step (plain_fm ls) e w = Inr w' \<and>
    exclusive (plain_fm ls) ls (\<lambda>i w. w i) w' \<and> waiting (plain_fm ls) ls (\<lambda>i w. w i) w'"
proof -
  let ?fm = "plain_fm ls" and ?st = "\<lambda>i w. w i"
  have reg: "\<exists>c. feature_handles ?fm i = Some c" for i
    by (simp add: plain_fm_def)
  have start: "\<exists>w1. FeatureManager_StartFeatureRequest ?fm (feature_handles ?fm i) w =
      Inr (w1, \<not> (\<exists>h. before ls h i \<and> runs ?fm ?st w h))" for i
    using reg [of i] features.start_request [OF plain_features [OF assms(1)]] by fastforce
  show ?thesis
  proof (cases e)
    case (FeatureStarts i)
    show ?thesis
    proof (cases "w i = feature_state_idle")
      case True
      obtain c where c: "feature_handles ?fm i = Some c"
        using reg by blast
      obtain w1 b where w1: "FeatureManager_StartFeatureRequest ?fm (Some c) w = Inr (w1, b)"
        using start [of i] c by auto
      let ?w2 = "w1(i := if b then feature_state_running else feature_state_suspended)"
      have "exclusive ?fm ls ?st ?w2 \<and> waiting ?fm ls ?st ?w2"
        using features.granted_keeps [OF plain_features [OF assms(1)] c _ assms(2,3)]
          features.refused_keeps [OF plain_features [OF assms(1)] c _ assms(2,3)] w1 True
        by (cases b) (simp_all add: runs_def)
      then show ?thesis
        using w1 c True FeatureStarts by (auto simp: feature_step_def)
    qed (use assms FeatureStarts in \<open>auto simp: feature_step_def\<close>)
  next
    case (FeatureGivesUp i)
    show ?thesis
    proof (cases "w i = feature_state_idle")
      case True
      obtain c where c: "feature_handles ?fm i = Some c"
        using reg by blast
      obtain w1 b where w1: "FeatureManager_StartFeatureRequest ?fm (Some c) w = Inr (w1, b)"
        using start [of i] c by auto
      show ?thesis
      proof (cases b)
        case True
        then show ?thesis
          using features.given_up_keeps [OF plain_features [OF assms(1)] c _ assms(2,3)] w1 c
            \<open>w i = feature_state_idle\<close> FeatureGivesUp
          by (auto simp: feature_step_def)
      next
        case False
        then have "w1 = w"
          using features.start_request [OF plain_features [OF assms(1)] c, of w] w1 by auto
        then show ?thesis
          using assms w1 c False \<open>w i = feature_state_idle\<close> FeatureGivesUp by (auto simp: feature_step_def)
      qed
    qed (use assms FeatureGivesUp in \<open>auto simp: feature_step_def\<close>)
  next
    case (FeatureStops i)
    obtain c where c: "feature_handles ?fm i = Some c"
      using reg by blast
    show ?thesis
      using features.stopped_keeps [OF plain_features [OF assms(1)] c _ assms(2,3), of "w(i := feature_state_idle)"]
        assms c FeatureStops by (cases "w i = feature_state_idle") (auto simp: feature_step_def)
  qed
qed



text \<open>
  Without that order exclusion fails: with lists that put the call before the voice assistant and
  the voice assistant before a third feature, the end of the call resumes the voice assistant beside
  the third feature, since resuming looks at what is before a feature but not at what is behind it.
\<close>

theorem resume_ignores_lower_features:
  "map_sum id (\<lambda>w. (w feature_id_va, w feature_id_handset_multipoint))
     (run_features [[feature_id_sco, feature_id_va], [feature_id_va, feature_id_handset_multipoint]]
       [FeatureStarts feature_id_va, FeatureStarts feature_id_sco, FeatureStarts feature_id_handset_multipoint,
        FeatureStops feature_id_sco]) =
   Inr (feature_state_running, feature_state_running)"
  by code_simp

end
