(* ===== verification/Audio_Registry.thy ===== *)
theory Audio_Registry
  imports Mh40_Prelude
begin

text \<open>
  The sources of audio and the registry of their interfaces
  (\<^verbatim>\<open>adk/src/domains/audio/audio_sources/audio_sources_interface_registry.c\<close>): for every source and every
  type of interface an array of pointers to function tables, filled from the front. The
  registry is shown to refine a map from source and type to a list of bounded length.
\<close>

section \<open>Model\<close>

definition max_voice_sources :: nat where "max_voice_sources = 5"
definition max_audio_sources :: nat where "max_audio_sources = 7"

datatype generic_source = source_type_voice nat | source_type_audio nat | source_type_other

text \<open>Pointers to constant tables are numbers; \<open>None\<close> is \<open>NULL\<close>.\<close>

type_synonym ptr = nat

datatype interface_type =
    audio_interface_type_audio_source_registry
  | audio_interface_type_media_control
  | audio_interface_type_volume_registry
  | audio_interface_type_volume_control
  | audio_interface_type_observer_registry

definition MAX_AUDIO_INTERFACES :: nat where "MAX_AUDIO_INTERFACES = 1"
definition MAX_MEDIA_CONTROL_INTERFACES :: nat where "MAX_MEDIA_CONTROL_INTERFACES = 1"
definition MAX_VOLUME_INTERFACES :: nat where "MAX_VOLUME_INTERFACES = 1"
definition MAX_VOLUME_CONTROL_INTERFACES :: nat where "MAX_VOLUME_CONTROL_INTERFACES = 1"
definition MAX_OBSERVER_INTERFACES :: nat where "MAX_OBSERVER_INTERFACES = 6"

record audio_interfaces =
  source_id :: nat
  audio_interface :: "ptr option list"
  media_control_interface :: "ptr option list"
  volume_interface :: "ptr option list"
  volume_control_interface :: "ptr option list"
  observer_interface :: "ptr option list"

record audio_source_interface_registry =
  interfaces :: "audio_interfaces list"
  number_of_registered_sources :: nat

text \<open>All octets zero.\<close>

definition no_interfaces :: audio_interfaces where
  "no_interfaces = \<lparr>source_id = 0, audio_interface = replicate MAX_AUDIO_INTERFACES None,
     media_control_interface = replicate MAX_MEDIA_CONTROL_INTERFACES None,
     volume_interface = replicate MAX_VOLUME_INTERFACES None,
     volume_control_interface = replicate MAX_VOLUME_CONTROL_INTERFACES None,
     observer_interface = replicate MAX_OBSERVER_INTERFACES None\<rparr>"

definition AudioInterface_Init :: audio_source_interface_registry where
  "AudioInterface_Init =
     \<lparr>interfaces = replicate (max_audio_sources - 1) no_interfaces, number_of_registered_sources = 0\<rparr>"

definition audioInterface_SourceIsValid :: "nat \<Rightarrow> bool" where
  "audioInterface_SourceIsValid s \<longleftrightarrow> 0 < s \<and> s < max_audio_sources"

text \<open>
  The storage of a type is an array of the entry; what the code writes through the pointer
  is stored back with \<open>store_interfaces\<close>.
\<close>

fun audioInterface_GetInterfaceRegistryStorage :: "audio_interfaces \<Rightarrow> interface_type \<Rightarrow> ptr option list" where
  "audioInterface_GetInterfaceRegistryStorage e audio_interface_type_audio_source_registry = audio_interface e"
| "audioInterface_GetInterfaceRegistryStorage e audio_interface_type_media_control = media_control_interface e"
| "audioInterface_GetInterfaceRegistryStorage e audio_interface_type_volume_registry = volume_interface e"
| "audioInterface_GetInterfaceRegistryStorage e audio_interface_type_volume_control = volume_control_interface e"
| "audioInterface_GetInterfaceRegistryStorage e audio_interface_type_observer_registry = observer_interface e"

fun store_interfaces :: "interface_type \<Rightarrow> ptr option list \<Rightarrow> audio_interfaces \<Rightarrow> audio_interfaces" where
  "store_interfaces audio_interface_type_audio_source_registry l e = e\<lparr>audio_interface := l\<rparr>"
| "store_interfaces audio_interface_type_media_control l e = e\<lparr>media_control_interface := l\<rparr>"
| "store_interfaces audio_interface_type_volume_registry l e = e\<lparr>volume_interface := l\<rparr>"
| "store_interfaces audio_interface_type_volume_control l e = e\<lparr>volume_control_interface := l\<rparr>"
| "store_interfaces audio_interface_type_observer_registry l e = e\<lparr>observer_interface := l\<rparr>"

definition audioInterface_GetRegistryIndexBySource ::
  "nat \<Rightarrow> audio_source_interface_registry \<Rightarrow> (audio_source_interface_registry \<times> nat) res" where
  "audioInterface_GetRegistryIndexBySource s r =
     (case find_index (\<lambda>e. source_id e = s) (take (number_of_registered_sources r) (interfaces r)) of
       Some i \<Rightarrow> Inr (r, i)
     | None \<Rightarrow>
         let n = number_of_registered_sources r in
         if n < max_audio_sources - 1
         then Inr (r\<lparr>interfaces := (interfaces r)[n := (interfaces r ! n)\<lparr>source_id := s\<rparr>],
                     number_of_registered_sources := n + 1\<rparr>, n)
         else Inl Panic)"

definition audioInterface_CreateInterfaceRegistryEntry ::
  "audio_interfaces \<Rightarrow> interface_type \<Rightarrow> ptr \<Rightarrow> audio_interfaces option" where
  "audioInterface_CreateInterfaceRegistryEntry e ty p =
     (let l = audioInterface_GetInterfaceRegistryStorage e ty in
      case find_index (\<lambda>x. x = None) l of
        Some i \<Rightarrow> Some (store_interfaces ty (l[i := Some p]) e)
      | None \<Rightarrow> None)"

function adjust_loop :: "ptr option list \<Rightarrow> nat \<Rightarrow> ptr option list \<times> nat" where
  "adjust_loop l i =
     (if i + 1 < length l \<and> l ! (i + 1) \<noteq> None then adjust_loop (l[i := l ! (i + 1)]) (i + 1) else (l, i))"
  by auto
termination by (relation "measure (\<lambda>(l, i). length l - i)") auto

declare adjust_loop.simps [simp del]

definition audioInterface_AdjustInterfaceList :: "ptr option list \<Rightarrow> nat \<Rightarrow> ptr option list" where
  "audioInterface_AdjustInterfaceList l deleted_index = (case adjust_loop l deleted_index of (l, i) \<Rightarrow> l[i := None])"

definition registered :: "ptr option list \<Rightarrow> ptr option list" where
  "registered l = takeWhile (\<lambda>x. x \<noteq> None) l"

definition audioInterface_RemoveInterfaceRegistryEntry ::
  "audio_interfaces \<Rightarrow> interface_type \<Rightarrow> ptr \<Rightarrow> audio_interfaces" where
  "audioInterface_RemoveInterfaceRegistryEntry e ty p =
     (let l = audioInterface_GetInterfaceRegistryStorage e ty in
      case find_index (\<lambda>x. x = Some p) (registered l) of
        Some i \<Rightarrow> store_interfaces ty (audioInterface_AdjustInterfaceList l i) e
      | None \<Rightarrow> e)"

text \<open>The list with its full array and the number of interfaces registered in it.\<close>

definition audioInterface_GetRegisteredInterfaceList :: "audio_interfaces \<Rightarrow> interface_type \<Rightarrow> ptr option list \<times> nat" where
  "audioInterface_GetRegisteredInterfaceList e ty =
     (let l = audioInterface_GetInterfaceRegistryStorage e ty in (l, length (registered l)))"

definition AudioInterface_Register ::
  "nat \<Rightarrow> interface_type \<Rightarrow> ptr option \<Rightarrow> audio_source_interface_registry \<Rightarrow> audio_source_interface_registry res" where
  "AudioInterface_Register s ty p r =
     res_bind (panic_unless (audioInterface_SourceIsValid s)) (\<lambda>_.
     res_bind (panic_null p) (\<lambda>p.
     res_bind (audioInterface_GetRegistryIndexBySource s r) (\<lambda>(r, i).
     res_bind (panic_null (audioInterface_CreateInterfaceRegistryEntry (interfaces r ! i) ty p)) (\<lambda>e.
       Inr (r\<lparr>interfaces := (interfaces r)[i := e]\<rparr>)))))"

definition AudioInterface_UnRegister ::
  "nat \<Rightarrow> interface_type \<Rightarrow> ptr option \<Rightarrow> audio_source_interface_registry \<Rightarrow> audio_source_interface_registry res" where
  "AudioInterface_UnRegister s ty p r =
     res_bind (panic_unless (audioInterface_SourceIsValid s)) (\<lambda>_.
     res_bind (panic_null p) (\<lambda>p.
     res_bind (audioInterface_GetRegistryIndexBySource s r) (\<lambda>(r, i).
       Inr (r\<lparr>interfaces := (interfaces r)[i := audioInterface_RemoveInterfaceRegistryEntry (interfaces r ! i) ty p]\<rparr>))))"

definition AudioInterface_Get ::
  "nat \<Rightarrow> interface_type \<Rightarrow> audio_source_interface_registry \<Rightarrow>
   (audio_source_interface_registry \<times> ptr option list \<times> nat) res" where
  "AudioInterface_Get s ty r =
     res_bind (panic_unless (audioInterface_SourceIsValid s)) (\<lambda>_.
     res_bind (audioInterface_GetRegistryIndexBySource s r) (\<lambda>(r, i).
       Inr (r, audioInterface_GetRegisteredInterfaceList (interfaces r ! i) ty)))"

section \<open>Arrays filled from the front\<close>

definition max_interfaces :: "interface_type \<Rightarrow> nat" where
  "max_interfaces ty = (if ty = audio_interface_type_observer_registry then 6 else 1)"

definition padded :: "nat \<Rightarrow> ptr list \<Rightarrow> ptr option list" where
  "padded n ps = map Some ps @ replicate (n - length ps) None"

lemma length_padded [simp]: "length ps \<le> n \<Longrightarrow> length (padded n ps) = n"
  by (simp add: padded_def)

lemma registered_padded: "length ps \<le> n \<Longrightarrow> registered (padded n ps) = map Some ps"
  by (simp add: registered_def padded_def takeWhile_append)

lemma padded_eq_iff: "length ps \<le> n \<Longrightarrow> length qs \<le> n \<Longrightarrow> padded n ps = padded n qs \<longleftrightarrow> ps = qs"
  by (metis registered_padded list.inj_map_strong option.inject)

lemma find_index_append: 
  "find_index P (xs @ ys) = (case find_index P xs of Some i \<Rightarrow> Some i | None \<Rightarrow> map_option ((+) (length xs)) (find_index P ys))"
  by (induction xs; cases "find_index P ys") (auto split: option.splits)

lemma find_free_slot:
  assumes "length ps \<le> n"
  shows "find_index (\<lambda>x. x = None) (padded n ps) = (if length ps < n then Some (length ps) else None)"
proof -
  have "find_index (\<lambda>x. x = None) (map Some ps) = None"
    by (simp add: find_index_None_iff)
  moreover have "find_index (\<lambda>x. x = None) (replicate k (None :: ptr option)) = (if 0 < k then Some 0 else None)" for k
    by (cases k) simp_all
  ultimately show ?thesis
    using assms by (simp add: padded_def find_index_append)
qed

lemma padded_snoc: "length ps < n \<Longrightarrow> (padded n ps)[length ps := Some p] = padded n (ps @ [p])"
  by (cases "n - length ps") (auto simp: padded_def list_update_append Suc_diff_Suc)

lemma adjust_loop_padded:
  "adjust_loop (map Some a @ Some x # map Some b @ replicate k None) (length a) =
    (map Some a @ map Some b @ (case b of [] \<Rightarrow> [Some x] | _ \<Rightarrow> [Some (last b)]) @ replicate k None, length a + length b)"
proof (induction b arbitrary: a x)
  case Nil
  show ?case
    by (subst adjust_loop.simps) (cases k, auto simp: nth_append)
next
  case (Cons y b)
  have "adjust_loop (map Some a @ Some x # map Some (y # b) @ replicate k None) (length a) =
      adjust_loop (map Some (a @ [y]) @ Some y # map Some b @ replicate k None) (length (a @ [y]))"
    by (subst adjust_loop.simps) (simp add: nth_append list_update_append)
  then show ?case
    unfolding Cons.IH by (cases b) simp_all
qed

lemma adjust_padded:
  assumes "length (a @ x # b) \<le> n"
  shows "audioInterface_AdjustInterfaceList (padded n (a @ x # b)) (length a) = padded n (a @ b)"
proof -
  have "padded n (a @ x # b) = map Some a @ Some x # map Some b @ replicate (n - length (a @ x # b)) None"
    by (simp add: padded_def)
  then have "audioInterface_AdjustInterfaceList (padded n (a @ x # b)) (length a) =
      map Some (a @ b) @ None # replicate (n - length (a @ x # b)) None"
    by (simp add: audioInterface_AdjustInterfaceList_def adjust_loop_padded list_update_append split: list.splits)
  also have "\<dots> = padded n (a @ b)"
    using assms by (simp add: padded_def replicate_Suc [symmetric] Suc_diff_Suc del: replicate_Suc)
  finally show ?thesis .
qed

section \<open>The registry refines a map\<close>

definition registry_map :: "audio_source_interface_registry \<Rightarrow> nat \<Rightarrow> interface_type \<Rightarrow> ptr list" where
  "registry_map r s ty =
     (case find_index (\<lambda>e. source_id e = s) (take (number_of_registered_sources r) (interfaces r)) of
       Some i \<Rightarrow> map the (registered (audioInterface_GetInterfaceRegistryStorage (interfaces r ! i) ty))
     | None \<Rightarrow> [])"

definition entry_ok :: "audio_interfaces \<Rightarrow> bool" where
  "entry_ok e \<longleftrightarrow> (\<forall>ty. \<exists>ps. length ps \<le> max_interfaces ty \<and>
     audioInterface_GetInterfaceRegistryStorage e ty = padded (max_interfaces ty) ps)"

definition registry_ok :: "audio_source_interface_registry \<Rightarrow> bool" where
  "registry_ok r \<longleftrightarrow>
     length (interfaces r) = max_audio_sources - 1 \<and> number_of_registered_sources r \<le> max_audio_sources - 1 \<and>
     distinct (map source_id (take (number_of_registered_sources r) (interfaces r))) \<and>
     (\<forall>e \<in> set (take (number_of_registered_sources r) (interfaces r)). audioInterface_SourceIsValid (source_id e) \<and> entry_ok e) \<and>
     (\<forall>e \<in> set (drop (number_of_registered_sources r) (interfaces r)). e = no_interfaces)"

lemma storage_store [simp]:
  "audioInterface_GetInterfaceRegistryStorage (store_interfaces ty l e) ty' =
    (if ty' = ty then l else audioInterface_GetInterfaceRegistryStorage e ty')"
  "source_id (store_interfaces ty l e) = source_id e"
  by (cases ty; cases ty'; simp)+

lemma storage_none [simp]: "audioInterface_GetInterfaceRegistryStorage (no_interfaces\<lparr>source_id := s\<rparr>) ty = padded (max_interfaces ty) []"
  by (cases ty) (simp_all add: no_interfaces_def padded_def max_interfaces_def MAX_AUDIO_INTERFACES_def
      MAX_MEDIA_CONTROL_INTERFACES_def MAX_VOLUME_INTERFACES_def MAX_VOLUME_CONTROL_INTERFACES_def MAX_OBSERVER_INTERFACES_def)

lemma entry_ok_none: "entry_ok (no_interfaces\<lparr>source_id := s\<rparr>)"
  by (auto simp: entry_ok_def intro: exI [of _ "[]"])

lemma registry_ok_init: "registry_ok AudioInterface_Init"
  by (simp add: registry_ok_def AudioInterface_Init_def max_audio_sources_def)

lemma registry_map_init: "registry_map AudioInterface_Init s ty = []"
  by (simp add: registry_map_def AudioInterface_Init_def)

text \<open>There are as many padded as sources, so a valid source always finds one.\<close>

lemma room_for_source:
  assumes "registry_ok r" and "audioInterface_SourceIsValid s"
    and "s \<notin> source_id ` set (take (number_of_registered_sources r) (interfaces r))"
  shows "number_of_registered_sources r < max_audio_sources - 1"
proof -
  let ?S = "source_id ` set (take (number_of_registered_sources r) (interfaces r))"
  have "card ?S = number_of_registered_sources r"
    using assms(1) distinct_card [of "map source_id (take (number_of_registered_sources r) (interfaces r))"]
    by (simp add: registry_ok_def)
  moreover have "?S \<subset> {1..max_audio_sources - 1}"
    using assms by (auto simp: registry_ok_def audioInterface_SourceIsValid_def)
  then have "card ?S < card {1..max_audio_sources - 1}"
    by (intro psubset_card_mono) simp_all
  ultimately show ?thesis
    by simp
qed

lemma index_of_source:
  assumes ok: "registry_ok r" and valid: "audioInterface_SourceIsValid s"
  shows "\<exists>r' i. audioInterface_GetRegistryIndexBySource s r = Inr (r', i) \<and> registry_ok r' \<and>
    i < number_of_registered_sources r' \<and> source_id (interfaces r' ! i) = s \<and>
    registry_map r' = registry_map r"
proof -
  define n where "n = number_of_registered_sources r"
  define es where "es = interfaces r"
  show ?thesis
  proof (cases "find_index (\<lambda>e. source_id e = s) (take n es)")
    case (Some i)
    then have "i < n" "source_id (es ! i) = s"
      by (auto dest: find_index_SomeD)
    then show ?thesis
      using Some ok by (simp add: audioInterface_GetRegistryIndexBySource_def n_def es_def)
  next
    case None
    then have new: "s \<notin> source_id ` set (take n es)"
      by (auto simp: find_index_None_iff)
    then have n: "n < max_audio_sources - 1"
      using room_for_source [OF ok valid] by (simp add: n_def es_def)
    have len: "length es = max_audio_sources - 1"
      using ok by (simp add: registry_ok_def es_def)
    have "es ! n \<in> set (drop n es)"
      using n len by (metis Cons_nth_drop_Suc list.set_intros(1))
    then have e: "es ! n = no_interfaces"
      using ok by (simp add: registry_ok_def n_def es_def)
    define e' where "e' = no_interfaces\<lparr>source_id := s\<rparr>"
    define r' where "r' = r\<lparr>interfaces := es[n := e'], number_of_registered_sources := n + 1\<rparr>"
    have idx: "audioInterface_GetRegistryIndexBySource s r = Inr (r', n)"
      using None n e by (simp add: audioInterface_GetRegistryIndexBySource_def Let_def r'_def e'_def n_def es_def)
    have take': "take (n + 1) (es[n := e']) = take n es @ [e']"
      using n len by (simp add: take_Suc_conv_app_nth)
    have drop': "set (drop (n + 1) (es[n := e'])) \<subseteq> set (drop n es)"
      by (simp add: set_drop_subset_set_drop)
    have ok': "registry_ok r'"
      using ok n len new valid take' drop' entry_ok_none
      by (auto simp: registry_ok_def r'_def n_def [symmetric] es_def [symmetric] e'_def simp del: take_Suc)
    have sel: "number_of_registered_sources r' = Suc n" "interfaces r' = es[n := e']" "source_id e' = s"
      "\<And>ty. audioInterface_GetInterfaceRegistryStorage e' ty = padded (max_interfaces ty) []"
      by (simp_all add: r'_def e'_def)
    have map: "registry_map r' t ty = registry_map r t ty" for t ty
    proof (cases "find_index (\<lambda>e. source_id e = t) (take n es)")
      case None
      then show ?thesis
        using len n unfolding registry_map_def sel take' [unfolded Suc_eq_plus1 [symmetric]]
        by (simp add: find_index_append n_def [symmetric] es_def [symmetric] sel registered_padded)
    next
      case (Some i)
      then have "i < n"
        by (auto dest: find_index_SomeD)
      then show ?thesis
        using Some unfolding registry_map_def sel take' [unfolded Suc_eq_plus1 [symmetric]]
        by (simp add: find_index_append n_def [symmetric] es_def [symmetric])
    qed
    have "source_id (interfaces r' ! n) = s"
      using n len by (simp add: r'_def e'_def)
    then show ?thesis
      using idx ok' map by (intro exI [of _ r'] exI [of _ n]) (auto simp: r'_def)
  qed
qed

lemma find_index_map: "find_index (\<lambda>e. f e = t) xs = find_index (\<lambda>x. x = t) (map f xs)"
  by (induction xs) simp_all

text \<open>Replacing the array of one type in the entry of a source.\<close>

lemma registry_entry:
  assumes "registry_ok r" and "i < number_of_registered_sources r" and "source_id (interfaces r ! i) = s"
  shows "audioInterface_GetInterfaceRegistryStorage (interfaces r ! i) ty = padded (max_interfaces ty) (registry_map r s ty)"
    and "length (registry_map r s ty) \<le> max_interfaces ty"
    and "find_index (\<lambda>e. source_id e = s) (take (number_of_registered_sources r) (interfaces r)) = Some i"
proof -
  define es where "es = take (number_of_registered_sources r) (interfaces r)"
  have es: "i < length es" "es ! i = interfaces r ! i" "distinct (map source_id es)"
    using assms by (simp_all add: es_def registry_ok_def)
  have "source_id (es ! j) \<noteq> s" if "j < i" for j
  proof -
    have "map source_id es ! j \<noteq> map source_id es ! i"
      using es that by (subst nth_eq_iff_index_eq) auto
    then show ?thesis
      using es assms(3) that by simp
  qed
  then show idx: "find_index (\<lambda>e. source_id e = s) es = Some i"
    using es assms(3) by (simp add: find_index_Some_iff)
  have "entry_ok (interfaces r ! i)"
    using assms(1) es(1) nth_mem [OF es(1)] unfolding registry_ok_def es_def [symmetric] es(2) by simp
  then obtain ps where ps: "length ps \<le> max_interfaces ty"
    "audioInterface_GetInterfaceRegistryStorage (interfaces r ! i) ty = padded (max_interfaces ty) ps"
    unfolding entry_ok_def by blast
  then have "registry_map r s ty = ps"
    using idx by (simp add: registry_map_def es_def [symmetric] registered_padded comp_def)
  with ps show "audioInterface_GetInterfaceRegistryStorage (interfaces r ! i) ty = padded (max_interfaces ty) (registry_map r s ty)"
    "length (registry_map r s ty) \<le> max_interfaces ty"
    by simp_all
qed

lemma store_refines:
  assumes ok: "registry_ok r" and i: "i < number_of_registered_sources r" and s: "source_id (interfaces r ! i) = s"
    and ps: "length ps \<le> max_interfaces ty"
    and r': "r' = r\<lparr>interfaces := (interfaces r)[i := store_interfaces ty (padded (max_interfaces ty) ps) (interfaces r ! i)]\<rparr>"
  shows "registry_ok r'" and "registry_map r' = (registry_map r)(s := (registry_map r s)(ty := ps))"
proof -
  define n es e where "n = number_of_registered_sources r" and "es = interfaces r"
    and "e = store_interfaces ty (padded (max_interfaces ty) ps) (interfaces r ! i)"
  have len: "length es = max_audio_sources - 1" "n \<le> max_audio_sources - 1"
    using ok by (simp_all add: registry_ok_def n_def es_def)
  have sel: "number_of_registered_sources r' = n" "interfaces r' = es[i := e]"
    by (simp_all add: r' n_def es_def e_def)
  have take': "take n (es[i := e]) = (take n es)[i := e]" and drop': "drop n (es[i := e]) = drop n es"
    using i by (simp_all add: take_update_swap n_def)
  have id: "source_id e = source_id (es ! i)"
    by (simp add: e_def es_def)
  then have ids: "map source_id ((take n es)[i := e]) = map source_id (take n es)"
    using i len by (simp add: map_update n_def take_map [symmetric] list_update_same_conv nth_map)
  have mem: "es ! i \<in> set (take n es)"
    using i len nth_mem [of i "take n es"] by (simp add: n_def)
  then have old: "audioInterface_SourceIsValid (source_id (es ! i))" "entry_ok (es ! i)"
    using ok by (auto simp: registry_ok_def n_def es_def)
  have "entry_ok e"
    unfolding entry_ok_def
  proof
    fix ty'
    show "\<exists>ps. length ps \<le> max_interfaces ty' \<and>
        audioInterface_GetInterfaceRegistryStorage e ty' = padded (max_interfaces ty') ps"
      using old(2) ps unfolding entry_ok_def by (cases "ty' = ty") (auto simp: e_def es_def)
  qed
  then have "\<forall>x \<in> set ((take n es)[i := e]). audioInterface_SourceIsValid (source_id x) \<and> entry_ok x"
    using ok old id set_update_subset_insert [of "take n es" i e]
    by (auto simp: registry_ok_def n_def es_def)
  then show "registry_ok r'"
    using ok unfolding registry_ok_def sel take' drop' ids by (simp add: n_def es_def)
  have find: "find_index (\<lambda>e. source_id e = t) (take n (es[i := e])) = find_index (\<lambda>e. source_id e = t) (take n es)" for t
    unfolding find_index_map [of source_id] take' ids ..
  have idx: "find_index (\<lambda>e. source_id e = s) (take n es) = Some i"
    using registry_entry(3) [OF ok i s] by (simp add: n_def es_def)
  show "registry_map r' = (registry_map r)(s := (registry_map r s)(ty := ps))"
  proof (intro ext)
    fix t ty'
    show "registry_map r' t ty' = ((registry_map r)(s := (registry_map r s)(ty := ps))) t ty'"
    proof (cases "t = s")
      case True
      then show ?thesis
        using idx i len ps unfolding registry_map_def sel find n_def [symmetric] es_def [symmetric]
        by (simp add: e_def es_def [symmetric] registered_padded comp_def n_def)
    next
      case False
      have "j \<noteq> i" if "find_index (\<lambda>e. source_id e = t) (take n es) = Some j" for j
        using that False idx find_index_SomeD [OF that] find_index_SomeD [OF idx] by auto
      then show ?thesis
        using False unfolding registry_map_def sel find n_def [symmetric] es_def [symmetric]
        by (auto split: option.splits)
    qed
  qed
qed

lemma register_refines:
  assumes "registry_ok r" and "audioInterface_SourceIsValid s"
  shows "if length (registry_map r s ty) < max_interfaces ty
    then \<exists>r'. AudioInterface_Register s ty (Some p) r = Inr r' \<and> registry_ok r' \<and>
      registry_map r' = (registry_map r)(s := (registry_map r s)(ty := registry_map r s ty @ [p]))
    else AudioInterface_Register s ty (Some p) r = Inl Panic"
proof -
  obtain q i where q: "audioInterface_GetRegistryIndexBySource s r = Inr (q, i)" "registry_ok q"
    "i < number_of_registered_sources q" "source_id (interfaces q ! i) = s" "registry_map q = registry_map r"
    using index_of_source [OF assms] by blast
  note e = registry_entry(1,2) [OF q(2,3,4), of ty, unfolded q(5)]
  note c = audioInterface_CreateInterfaceRegistryEntry_def [of "interfaces q ! i" ty p, unfolded e(1) find_free_slot [OF e(2)] Let_def]
  show ?thesis
  proof (cases "length (registry_map r s ty) < max_interfaces ty")
    case True
    define r' where "r' = q\<lparr>interfaces := (interfaces q)[i := store_interfaces ty
        (padded (max_interfaces ty) (registry_map r s ty @ [p])) (interfaces q ! i)]\<rparr>"
    have "length (registry_map r s ty @ [p]) \<le> max_interfaces ty"
      using True by simp
    from store_refines [OF q(2,3,4) this r'_def] q(5) True show ?thesis
      using assms(2) by (simp add: AudioInterface_Register_def q(1) c r'_def padded_snoc)
  next
    case False
    then show ?thesis
      using assms(2) by (simp add: AudioInterface_Register_def q(1) c)
  qed
qed

lemma find_first:
  "x \<in> set xs \<Longrightarrow> \<exists>a b. xs = a @ x # b \<and> x \<notin> set a \<and> find_index (\<lambda>y. y = Some x) (map Some xs) = Some (length a) \<and>
    remove1 x xs = a @ b"
proof -
  assume "x \<in> set xs"
  then obtain a b where ab: "xs = a @ x # b" "x \<notin> set a"
    by (meson split_list_first)
  then have "find_index (\<lambda>y. y = Some x) (map Some xs) = Some (length a)"
    by (auto simp: find_index_Some_iff nth_append)
  moreover have "remove1 x xs = a @ b"
    using ab by (simp add: remove1_append)
  ultimately show ?thesis
    using ab by blast
qed

lemma unregister_refines:
  assumes "registry_ok r" and "audioInterface_SourceIsValid s"
  shows "\<exists>r'. AudioInterface_UnRegister s ty (Some p) r = Inr r' \<and> registry_ok r' \<and>
      registry_map r' = (registry_map r)(s := (registry_map r s)(ty := remove1 p (registry_map r s ty)))"
proof -
  obtain q i where q: "audioInterface_GetRegistryIndexBySource s r = Inr (q, i)" "registry_ok q"
    "i < number_of_registered_sources q" "source_id (interfaces q ! i) = s" "registry_map q = registry_map r"
    using index_of_source [OF assms] by blast
  define ps where "ps = registry_map r s ty"
  note e = registry_entry(1,2) [OF q(2,3,4), of ty, unfolded q(5), folded ps_def]
  have "audioInterface_RemoveInterfaceRegistryEntry (interfaces q ! i) ty p =
      store_interfaces ty (padded (max_interfaces ty) (remove1 p ps)) (interfaces q ! i)"
  proof (cases "p \<in> set ps")
    case True
    from find_first [OF this] obtain a b where ab: "ps = a @ p # b"
      "find_index (\<lambda>y. y = Some p) (map Some ps) = Some (length a)" "remove1 p ps = a @ b"
      by blast
    then show ?thesis
      using adjust_padded [of a p b "max_interfaces ty"] e
      by (simp add: audioInterface_RemoveInterfaceRegistryEntry_def Let_def registered_padded)
  next
    case False
    then have "find_index (\<lambda>y. y = Some p) (map Some ps) = None"
      by (auto simp: find_index_None_iff)
    moreover have "store_interfaces ty (audioInterface_GetInterfaceRegistryStorage x ty) x = x" for x
      by (cases ty) simp_all
    ultimately show ?thesis
      using False e by (metis (no_types, lifting) audioInterface_RemoveInterfaceRegistryEntry_def option.simps(4)
          registered_padded remove1_idem)
  qed
  moreover have "length (remove1 p ps) \<le> max_interfaces ty"
    using e(2) by (auto simp: length_remove1)
  ultimately show ?thesis
    using store_refines [OF q(2,3,4) _ refl, of "remove1 p ps" ty] q(5) assms(2)
    by (simp add: AudioInterface_UnRegister_def q(1) ps_def [symmetric])
qed

lemma get_refines:
  assumes "registry_ok r" and "audioInterface_SourceIsValid s"
  shows "\<exists>r'. AudioInterface_Get s ty r = Inr (r', padded (max_interfaces ty) (registry_map r s ty), length (registry_map r s ty)) \<and>
    registry_ok r' \<and> registry_map r' = registry_map r"
proof -
  obtain q i where q: "audioInterface_GetRegistryIndexBySource s r = Inr (q, i)" "registry_ok q"
    "i < number_of_registered_sources q" "source_id (interfaces q ! i) = s" "registry_map q = registry_map r"
    using index_of_source [OF assms] by blast
  note e = registry_entry(1,2) [OF q(2,3,4), of ty, unfolded q(5)]
  show ?thesis
    using assms(2) q e by (simp add: AudioInterface_Get_def audioInterface_GetRegisteredInterfaceList_def Let_def registered_padded)
qed

section \<open>Properties\<close>

datatype registry_op =
    RegisterOp nat interface_type "ptr option"
  | UnRegisterOp nat interface_type "ptr option"
  | GetOp nat interface_type

definition registry_step ::
  "registry_op \<Rightarrow> audio_source_interface_registry \<times> ptr list list \<Rightarrow> (audio_source_interface_registry \<times> ptr list list) res" where
  "registry_step oper = (\<lambda>(r, outs). case oper of
     RegisterOp s ty p \<Rightarrow> res_bind (AudioInterface_Register s ty p r) (\<lambda>r. Inr (r, outs))
   | UnRegisterOp s ty p \<Rightarrow> res_bind (AudioInterface_UnRegister s ty p r) (\<lambda>r. Inr (r, outs))
   | GetOp s ty \<Rightarrow> res_bind (AudioInterface_Get s ty r) (\<lambda>(r, l, n). Inr (r, outs @ [map the (take n l)])))"

text \<open>The specification: a map from source and type to a list of at most the given length.\<close>

definition map_step ::
  "registry_op \<Rightarrow> (nat \<Rightarrow> interface_type \<Rightarrow> ptr list) \<times> ptr list list \<Rightarrow> ((nat \<Rightarrow> interface_type \<Rightarrow> ptr list) \<times> ptr list list) res" where
  "map_step oper = (\<lambda>(f, outs). case oper of
     RegisterOp s ty p \<Rightarrow>
       if audioInterface_SourceIsValid s \<and> p \<noteq> None \<and> length (f s ty) < max_interfaces ty
       then Inr (f(s := (f s)(ty := f s ty @ [the p])), outs) else Inl Panic
   | UnRegisterOp s ty p \<Rightarrow>
       if audioInterface_SourceIsValid s \<and> p \<noteq> None
       then Inr (f(s := (f s)(ty := remove1 (the p) (f s ty))), outs) else Inl Panic
   | GetOp s ty \<Rightarrow> if audioInterface_SourceIsValid s then Inr (f, outs @ [f s ty]) else Inl Panic)"

lemma registry_step_refines:
  assumes "registry_ok r"
  shows "case registry_step oper (r, outs) of
      Inl e \<Rightarrow> map_step oper (registry_map r, outs) = Inl e
    | Inr (r', outs') \<Rightarrow> registry_ok r' \<and> map_step oper (registry_map r, outs) = Inr (registry_map r', outs')"
proof (cases oper)
  case (RegisterOp s ty p)
  show ?thesis
  proof (cases "audioInterface_SourceIsValid s \<and> p \<noteq> None")
    case True
    then show ?thesis
      using register_refines [OF assms, of s ty "the p"]
      by (auto simp: RegisterOp registry_step_def map_step_def split: if_splits)
  next
    case False
    then show ?thesis
      by (auto simp: RegisterOp registry_step_def map_step_def AudioInterface_Register_def panic_unless_def)
  qed
next
  case (UnRegisterOp s ty p)
  show ?thesis
  proof (cases "audioInterface_SourceIsValid s \<and> p \<noteq> None")
    case True
    then show ?thesis
      using unregister_refines [OF assms, of s ty "the p"]
      by (auto simp: UnRegisterOp registry_step_def map_step_def)
  next
    case False
    then show ?thesis
      by (auto simp: UnRegisterOp registry_step_def map_step_def AudioInterface_UnRegister_def panic_unless_def)
  qed
next
  case (GetOp s ty)
  show ?thesis
  proof (cases "audioInterface_SourceIsValid s")
    case True
    then show ?thesis
      using get_refines [OF assms True, of ty] by (auto simp: GetOp registry_step_def map_step_def padded_def comp_def)
  next
    case False
    then show ?thesis
      by (auto simp: GetOp registry_step_def map_step_def AudioInterface_Get_def panic_unless_def)
  qed
qed

lemma registry_run_refines:
  "registry_ok r \<Longrightarrow>
   map_sum id (\<lambda>(r, outs). (registry_map r, outs)) (for_res registry_step ops (r, outs)) =
   for_res map_step ops (registry_map r, outs)"
proof (induction ops arbitrary: r outs)
  case Nil
  show ?case by simp
next
  case (Cons oper ops)
  then show ?case
    using registry_step_refines [of r oper outs] by (cases "registry_step oper (r, outs)") auto
qed

text \<open>
  C20. The registry of audio interfaces refines a map from source and type to the list of registered tables in
  order of registration: for every sequence of registrations, deregistrations and lookups
  after initialisation both give the same lookups and panic at the same operation, which is one with
  an invalid source, a null table or a full list; so the registry never runs out of entries for sources.
\<close>

theorem audio_registry_refines_map:
  "map_sum id (\<lambda>(r, lookups). (registry_map r, lookups)) (for_res registry_step ops (AudioInterface_Init, [])) =
   for_res map_step ops (\<lambda>_ _. [], [])"
proof -
  have "registry_map AudioInterface_Init = (\<lambda>_ _. [])"
    by (intro ext registry_map_init)
  with registry_run_refines [OF registry_ok_init] show ?thesis
    by simp
qed

end
