(* ===== verification/Voice_Ui.thy ===== *)
theory Voice_Ui
  imports Feature_Manager Audio_Registry
begin

text \<open>
  The microphone of the headset and who may use it: the voice audio manager
  (\<^verbatim>\<open>adk/src/services/voice_ui/voice_audio_manager\<close>) with its state machine of capture and
  wake-up-word detection, the audio part, the session and the container of the voice user interface
  (\<^verbatim>\<open>voice_ui_audio.c\<close>, \<^verbatim>\<open>voice_ui_session.c\<close>, \<^verbatim>\<open>voice_ui_container.c\<close> of
  \<^verbatim>\<open>adk/src/services/voice_ui/voice_ui\<close>), and the two features that come before it: calls, routed by
  \<^verbatim>\<open>audio_router.c\<close>, and the analog input, \<^verbatim>\<open>wired_audio_source.c\<close>. They meet in the feature
  manager. One record holds the static data of all; calls of the audio framework, the
  voice assistants and the operating system are outputs in the order of the code, and their
  answers are arguments.
\<close>

section \<open>Data\<close>

datatype vam_state =
    vam_idle
  | live_capturing
  | wuw_detecting
  | live_capturing_detect_pending
  | wuw_capturing_detect_pending
  | wuw_capturing

datatype vam_event =
    live_capture_start
  | wuw_capture_start
  | capture_stop
  | wuw_detect_start
  | wuw_detect_stop

record va_audio_mic_config =
  sample_rate :: u32
  max_number_of_mics :: u8
  min_number_of_mics :: u8

record va_audio_wuw_config =
  engine :: u8
  model :: u16
  LoadWakeUpWordModel :: nat
  engine_init_preroll_ms :: u16

record va_audio_wuw_detection_params =
  max_pre_roll_in_ms :: u16
  wuw_config :: va_audio_wuw_config
  mic_config :: va_audio_mic_config

text \<open>The parameters of a capture are handed on unread; a number stands for them.\<close>

type_synonym capture_params = nat

type_synonym source = nat

text \<open>
  The table of a voice assistant: which of its functions it has, and what \<open>GetBtAddress\<close>
  answers, an address or \<open>NULL\<close>.
\<close>

record voice_ui_if =
  va_provider :: u8
  EventHandler :: bool
  reboot_required_on_provider_switch :: bool
  DeselectVoiceAssistant :: bool
  SelectVoiceAssistant :: bool
  GetBtAddress :: "nat option option"
  AdjustBtBandwidthUsage :: bool
  SetWakeUpWordDetectionEnable :: bool
  SetPrivacyModeEnable :: bool
  SessionCancelled :: bool
  BatteryUpdate :: bool
  CaptureDataReceived :: bool
  WakeUpWordDetected :: bool

text \<open>
  A handle points to the constant table of its assistant; the number tells handles apart.
\<close>

type_synonym va_handle = "(nat \<times> voice_ui_if) option"

datatype voice_output =
    StartVoiceCapture capture_params
  | StopVoiceCapture
  | StartWakeUpWordDetection va_audio_wuw_detection_params
  | StopWakeUpWordDetection
  | RegisterSource source
  | DeregisterSource source
  | FlushMicTask
  | CancelMicTimeout
  | SendMicTimeout nat
  | SendCaptureErrorTimeout
  | CancelCaptureErrorTimeout
  | BandwidthFeatureStart
  | BandwidthFeatureStop
  | LinkPolicyUpdateReq nat
  | LowLatencyKick
  | VaCaptureData source
  | VaWakeUpWord
  | VaSessionCancelled bool
  | VaAdjustBandwidth bool
  | VaDeselected nat
  | VaSelected nat
  | VaBatteryUpdate
  | VaEvent nat
  | VaPrivacyMode bool
  | VaWuwEnable bool
  | AudioRouterUpdate
  | SendSessionEndingTimeout
  | CancelSessionEndingTimeout
  | SerialiseDevices
  | NotifyAssistantChanged u8
  | RebootLater
  | ConnectVoice nat
  | ConnectAudio nat
  | DisconnectVoice nat
  | DisconnectAudio nat
  | StoreLastRoutedAudio nat
  | AudioRoutingChange nat bool
  | ContextUpdate

record voice_world =
  current_state :: vam_state
  mic_data_available :: bool
  capture_source :: source
  wuw_detected :: bool
  detection_suspended :: bool
  capture_active :: bool
  detection_active :: bool
  detection_start_pending :: bool
  detection_config :: va_audio_wuw_detection_params
  va_session_in_progress :: bool
  va_session_ending :: bool
  voice_assistant_list :: "va_handle list"
  active_va :: va_handle
  my_device_va :: "u8 option option"
  my_va_flags :: "u8 option"
  my_va_locale :: "u8 list option"
  voice_feature_state :: feature_state
  analog_audio_feature_state :: feature_state
  outputs :: "voice_output list"

definition emit :: "voice_output \<Rightarrow> voice_world \<Rightarrow> voice_world" where
  "emit o1 w = w\<lparr>outputs := outputs w @ [o1]\<rparr>"

definition VA_AUDIO_MIC_CONFIG_EQUAL :: "va_audio_mic_config \<Rightarrow> va_audio_mic_config \<Rightarrow> bool" where
  "VA_AUDIO_MIC_CONFIG_EQUAL a b \<longleftrightarrow>
     sample_rate a = sample_rate b \<and> max_number_of_mics a = max_number_of_mics b \<and>
     min_number_of_mics a = min_number_of_mics b"

definition VA_AUDIO_WUW_CONFIG_EQUAL :: "va_audio_wuw_config \<Rightarrow> va_audio_wuw_config \<Rightarrow> bool" where
  "VA_AUDIO_WUW_CONFIG_EQUAL a b \<longleftrightarrow>
     engine a = engine b \<and> model a = model b \<and> LoadWakeUpWordModel a = LoadWakeUpWordModel b \<and>
     engine_init_preroll_ms a = engine_init_preroll_ms b"

definition VA_AUDIO_DETECTION_PARAMS_EQUAL ::
  "va_audio_wuw_detection_params \<Rightarrow> va_audio_wuw_detection_params \<Rightarrow> bool" where
  "VA_AUDIO_DETECTION_PARAMS_EQUAL a b \<longleftrightarrow>
     max_pre_roll_in_ms a = max_pre_roll_in_ms b \<and> VA_AUDIO_WUW_CONFIG_EQUAL (wuw_config a) (wuw_config b) \<and>
     VA_AUDIO_MIC_CONFIG_EQUAL (mic_config a) (mic_config b)"

section \<open>The state machine of the voice audio manager\<close>

definition state_transitions :: "(vam_state \<times> vam_event \<times> vam_state) list" where
  "state_transitions =
    [(vam_idle, live_capture_start, live_capturing),
     (vam_idle, wuw_detect_start, wuw_detecting),
     (live_capturing, capture_stop, vam_idle),
     (wuw_detecting, live_capture_start, live_capturing_detect_pending),
     (wuw_detecting, wuw_capture_start, wuw_capturing_detect_pending),
     (wuw_detecting, wuw_detect_stop, vam_idle),
     (live_capturing_detect_pending, capture_stop, wuw_detecting),
     (live_capturing_detect_pending, wuw_detect_stop, live_capturing),
     (wuw_capturing_detect_pending, capture_stop, wuw_detecting),
     (wuw_capturing_detect_pending, wuw_detect_stop, wuw_capturing),
     (wuw_capturing, capture_stop, vam_idle)]"

definition voiceAudioManager_GetStateTransition ::
  "vam_state \<Rightarrow> vam_event \<Rightarrow> (vam_state \<times> vam_event \<times> vam_state) option" where
  "voiceAudioManager_GetStateTransition s e = find (\<lambda>(s', e', _). s' = s \<and> e' = e) state_transitions"

definition VoiceAudioManager_UpdateState :: "vam_event \<Rightarrow> voice_world \<Rightarrow> voice_world \<times> bool" where
  "VoiceAudioManager_UpdateState e w = (case voiceAudioManager_GetStateTransition (current_state w) e of
     Some (_, _, new_state) \<Rightarrow> (w\<lparr>current_state := new_state\<rparr>, True)
   | None \<Rightarrow> (w, False))"

definition VoiceAudioManager_IsMicDataExpected :: "voice_world \<Rightarrow> bool" where
  "VoiceAudioManager_IsMicDataExpected w \<longleftrightarrow>
     current_state w = live_capturing \<or> current_state w = live_capturing_detect_pending \<or>
     current_state w = wuw_capturing_detect_pending \<or> current_state w = wuw_capturing"

definition VoiceAudioManager_IsWuwDetectionExpected :: "voice_world \<Rightarrow> bool" where
  "VoiceAudioManager_IsWuwDetectionExpected w \<longleftrightarrow> current_state w = wuw_detecting"

section \<open>The functions the voice user interface hands to the voice audio manager\<close>

definition va_handle_if :: "va_handle \<Rightarrow> voice_ui_if res" where
  "va_handle_if h = (case h of None \<Rightarrow> Inl BadAccess | Some (_, itf) \<Rightarrow> Inr itf)"

definition voiceUi_CaptureStarted :: "voice_world \<Rightarrow> voice_world" where
  "voiceUi_CaptureStarted w =
     (emit BandwidthFeatureStart (emit SendCaptureErrorTimeout w))\<lparr>capture_active := True\<rparr>"

definition voiceUi_AdjustBtBandwidthUsage :: "bool \<Rightarrow> voice_world \<Rightarrow> voice_world res" where
  "voiceUi_AdjustBtBandwidthUsage throttle w =
     res_bind (va_handle_if (active_va w)) (\<lambda>itf.
       if AdjustBtBandwidthUsage itf then Inr (emit (VaAdjustBandwidth throttle) w) else Inr w)"

definition voiceUi_CaptureDataReceived :: "source \<Rightarrow> bool \<Rightarrow> voice_world \<Rightarrow> voice_world res" where
  "voiceUi_CaptureDataReceived src data_processed w =
     res_bind (va_handle_if (active_va w)) (\<lambda>itf.
     res_bind (panic_unless (CaptureDataReceived itf)) (\<lambda>_.
       let w = emit (VaCaptureData src) w in
       Inr (if data_processed then emit SendCaptureErrorTimeout (emit CancelCaptureErrorTimeout w) else w)))"

definition voiceUi_WakeUpWordDetected :: "bool \<Rightarrow> voice_world \<Rightarrow> voice_world res" where
  "voiceUi_WakeUpWordDetected start_capture w =
     (let w1 = emit LowLatencyKick w in
      res_bind (va_handle_if (active_va w)) (\<lambda>itf.
      res_bind (panic_unless (WakeUpWordDetected itf)) (\<lambda>_.
        let w2 = emit VaWakeUpWord w1 in
        Inr (if start_capture then voiceUi_CaptureStarted w2 else w2))))"

section \<open>Capture and detection\<close>

text \<open>
  The size of the data in the source and whether the assistant consumed them are arguments.
\<close>

definition voiceAudioManager_MicDataReceived :: "source \<Rightarrow> nat \<Rightarrow> bool \<Rightarrow> voice_world \<Rightarrow> voice_world res" where
  "voiceAudioManager_MicDataReceived src avail data_processed w =
     (let w = emit CancelMicTimeout w in
      if VoiceAudioManager_IsMicDataExpected w
      then res_bind (panic_unless (mic_data_available w)) (\<lambda>_.
        if avail \<noteq> 0
        then res_bind (voiceUi_CaptureDataReceived src data_processed w) (\<lambda>w.
          Inr (emit (SendMicTimeout (if data_processed then 5 else 30)) w))
        else Inr (emit (SendMicTimeout 5) w))
      else Inr w)"

datatype mic_message =
    MESSAGE_MORE_DATA source nat bool
  | CAPTURE_DATA_RECEIVED_TIMEOUT nat bool

definition voiceAudioManager_MsgHandler :: "mic_message \<Rightarrow> voice_world \<Rightarrow> voice_world res" where
  "voiceAudioManager_MsgHandler m w = (case m of
     MESSAGE_MORE_DATA src avail data_processed \<Rightarrow>
       if src = capture_source w then voiceAudioManager_MicDataReceived src avail data_processed w else Inr w
   | CAPTURE_DATA_RECEIVED_TIMEOUT avail data_processed \<Rightarrow>
       voiceAudioManager_MicDataReceived (capture_source w) avail data_processed w)"

definition VoiceAudioManager_CaptureStopping :: "voice_world \<Rightarrow> voice_world" where
  "VoiceAudioManager_CaptureStopping w =
     (if capture_source w \<noteq> 0
      then (emit FlushMicTask (emit (DeregisterSource (capture_source w)) w))\<lparr>capture_source := 0\<rparr>
      else w)"

definition VoiceAudioManager_CaptureStarting :: "voice_world \<Rightarrow> voice_world" where
  "VoiceAudioManager_CaptureStarting w = w\<lparr>mic_data_available := True\<rparr>"

definition VoiceAudioManager_CaptureStarted :: "source \<Rightarrow> nat \<Rightarrow> bool \<Rightarrow> voice_world \<Rightarrow> voice_world res" where
  "VoiceAudioManager_CaptureStarted src avail data_processed w =
     (if VoiceAudioManager_IsMicDataExpected w
      then voiceAudioManager_MicDataReceived src avail data_processed
        (emit (RegisterSource src) (w\<lparr>capture_source := src\<rparr>))
      else Inr w)"

definition VoiceAudioManager_StartCapture :: "capture_params \<Rightarrow> voice_world \<Rightarrow> voice_world \<times> bool" where
  "VoiceAudioManager_StartCapture p w = (case VoiceAudioManager_UpdateState live_capture_start w of
     (w, True) \<Rightarrow> (emit (StartVoiceCapture p) (VoiceAudioManager_CaptureStarting w), True)
   | (w, False) \<Rightarrow> (w, False))"

definition VoiceAudioManager_StopCapture :: "voice_world \<Rightarrow> voice_world \<times> bool" where
  "VoiceAudioManager_StopCapture w = (case VoiceAudioManager_UpdateState capture_stop w of
     (w, True) \<Rightarrow> (emit StopVoiceCapture (VoiceAudioManager_CaptureStopping w), True)
   | (w, False) \<Rightarrow> (w, False))"

definition VoiceAudioManager_StartDetection ::
  "va_audio_wuw_detection_params \<Rightarrow> voice_world \<Rightarrow> voice_world \<times> bool" where
  "VoiceAudioManager_StartDetection p w = (case VoiceAudioManager_UpdateState wuw_detect_start w of
     (w, True) \<Rightarrow> (emit (StartWakeUpWordDetection p) (w\<lparr>wuw_detected := True\<rparr>), True)
   | (w, False) \<Rightarrow> (w, False))"

definition VoiceAudioManager_StopDetection :: "voice_world \<Rightarrow> voice_world \<times> bool" where
  "VoiceAudioManager_StopDetection w = (case VoiceAudioManager_UpdateState wuw_detect_stop w of
     (w, True) \<Rightarrow> (emit StopWakeUpWordDetection w, True)
   | (w, False) \<Rightarrow> (w, False))"

text \<open>The answer tells the audio framework whether to start the capture.\<close>

definition VoiceAudioManager_WuwDetected :: "bool \<Rightarrow> voice_world \<Rightarrow> (voice_world \<times> bool) res" where
  "VoiceAudioManager_WuwDetected start_capture w =
     (if VoiceAudioManager_IsWuwDetectionExpected w
      then res_bind (panic_unless (wuw_detected w)) (\<lambda>_.
        res_bind (voiceUi_WakeUpWordDetected start_capture w) (\<lambda>w.
          if start_capture
          then (case VoiceAudioManager_UpdateState wuw_capture_start w of (w, ok) \<Rightarrow>
            res_bind (panic_unless ok) (\<lambda>_. Inr (VoiceAudioManager_CaptureStarting w, True)))
          else Inr (w, False)))
      else Inr (w, False))"

section \<open>The audio of the voice user interface\<close>

text \<open>
  What initialisation leaves in the static variables: the feature manager with its clients and
  the handles of the three features.
\<close>

record voice_env =
  env_fm :: "voice_world feature_manager"
  feature_manager_handle :: "voice_world feature_handle"
  voice_feature_manager_handle :: "voice_world feature_handle"
  analog_audio_feature_manager_handle :: "voice_world feature_handle"
  VOICE_UI_PROVIDER_DEFAULT :: u8
  VoiceUi_IsWakeUpWordFeatureIncluded :: bool

definition link_policy_update :: "voice_world \<Rightarrow> voice_world" where
  "link_policy_update w = (case active_va w of
     None \<Rightarrow> w
   | Some (_, itf) \<Rightarrow> (case Option.bind (GetBtAddress itf) (\<lambda>a. a) of
       Some a \<Rightarrow> emit (LinkPolicyUpdateReq a) w | None \<Rightarrow> w))"

definition voiceUi_StartCapture :: "capture_params \<Rightarrow> voice_world \<Rightarrow> voice_world \<times> bool" where
  "voiceUi_StartCapture p w = (case VoiceAudioManager_StartCapture p w of
     (w, status) \<Rightarrow> (if status then voiceUi_CaptureStarted w else w, status))"

definition voiceUi_StopCapture :: "voice_world \<Rightarrow> voice_world" where
  "voiceUi_StopCapture w = (case VoiceAudioManager_StopCapture w of
     (w, stopped) \<Rightarrow>
       (if stopped then emit BandwidthFeatureStop (emit CancelCaptureErrorTimeout w) else w)\<lparr>capture_active := False\<rparr>)"

definition voiceUi_StartDetection :: "va_audio_wuw_detection_params \<Rightarrow> voice_world \<Rightarrow> voice_world \<times> bool" where
  "voiceUi_StartDetection p w = (case VoiceAudioManager_StartDetection p w of
     (w, status) \<Rightarrow> (if status then link_policy_update (w\<lparr>detection_active := True\<rparr>) else w, status))"

definition voiceUi_StopDetection :: "voice_world \<Rightarrow> voice_world" where
  "voiceUi_StopDetection w = (case VoiceAudioManager_StopDetection w of
     (w, _) \<Rightarrow> link_policy_update (w\<lparr>detection_start_pending := False, detection_active := False\<rparr>))"

definition VoiceUi_IsVaActive :: "voice_world \<Rightarrow> bool" where
  "VoiceUi_IsVaActive w \<longleftrightarrow> detection_active w \<or> capture_active w"

definition voiceUi_SendSessionCancelledInd :: "voice_world \<Rightarrow> voice_world" where
  "voiceUi_SendSessionCancelledInd w = (case active_va w of
     None \<Rightarrow> w
   | Some (_, itf) \<Rightarrow> if SessionCancelled itf then emit (VaSessionCancelled (capture_active w)) w else w)"

definition VoiceUi_VaSessionReset :: "voice_world \<Rightarrow> voice_world" where
  "VoiceUi_VaSessionReset w = w\<lparr>va_session_in_progress := False\<rparr>"

definition voiceUi_CancelVaSession :: "voice_world \<Rightarrow> voice_world" where
  "voiceUi_CancelVaSession w =
     (let w = (if capture_active w \<or> va_session_in_progress w then voiceUi_SendSessionCancelledInd w else w);
          w = (if capture_active w then voiceUi_StopCapture w else w) in
      VoiceUi_VaSessionReset w)"

definition voiceUi_UpdateFeatureStoppedState :: "voice_env \<Rightarrow> voice_world \<Rightarrow> voice_world res" where
  "voiceUi_UpdateFeatureStoppedState env w =
     (if \<not> VoiceUi_IsVaActive w
      then FeatureManager_StopFeatureIndication (env_fm env) (feature_manager_handle env) w
      else Inr w)"

text \<open>The message handler reacts to \<open>CAPTURE_ERROR_TIMEOUT\<close>.\<close>

definition voiceUi_AudioMsgHandler :: "voice_world \<Rightarrow> voice_world" where
  "voiceUi_AudioMsgHandler w = voiceUi_CancelVaSession w"

definition VoiceUi_SuspendAudio :: "voice_world \<Rightarrow> voice_world" where
  "VoiceUi_SuspendAudio w =
     (let w = voiceUi_CancelVaSession w;
          w = (if detection_active w then (voiceUi_StopDetection w)\<lparr>detection_suspended := True\<rparr> else w) in
      if detection_start_pending w
      then w\<lparr>detection_start_pending := False, detection_suspended := True\<rparr> else w)"

definition VoiceUi_ResumeAudio :: "voice_world \<Rightarrow> voice_world res" where
  "VoiceUi_ResumeAudio w = (case voiceUi_StartDetection (detection_config w) w of
     (w, started) \<Rightarrow> res_bind (panic_unless started) (\<lambda>_. Inr (w\<lparr>detection_suspended := False\<rparr>)))"

definition VoiceUi_UnrouteAudio :: "voice_env \<Rightarrow> voice_world \<Rightarrow> voice_world res" where
  "VoiceUi_UnrouteAudio env w =
     voiceUi_UpdateFeatureStoppedState env
       ((voiceUi_StopDetection (voiceUi_StopCapture w))
         \<lparr>detection_suspended := False, capture_active := False, detection_active := False,
          detection_start_pending := False\<rparr>)"

definition VoiceUi_IsActiveAssistant :: "va_handle \<Rightarrow> voice_world \<Rightarrow> bool" where
  "VoiceUi_IsActiveAssistant h w \<longleftrightarrow> h \<noteq> None \<and> h = active_va w"

definition VoiceUi_IsAudioSuspended :: "voice_env \<Rightarrow> va_handle \<Rightarrow> voice_world \<Rightarrow> bool res" where
  "VoiceUi_IsAudioSuspended env h w =
     (if \<not> VoiceUi_IsActiveAssistant h w then Inr True
      else res_bind (FeatureManager_CanFeatureStart (env_fm env) (feature_manager_handle env) w) (\<lambda>b. Inr (\<not> b)))"

definition VoiceUi_IsDetectionSuspended :: "va_handle \<Rightarrow> voice_world \<Rightarrow> bool" where
  "VoiceUi_IsDetectionSuspended h w =
     (if \<not> VoiceUi_IsActiveAssistant h w \<and> h \<noteq> None then True else detection_suspended w)"

definition voiceUi_GetFeatureState :: "voice_world \<Rightarrow> feature_state" where
  "voiceUi_GetFeatureState w =
     (if VoiceUi_IsDetectionSuspended (active_va w) w then feature_state_suspended
      else if VoiceUi_IsVaActive w then feature_state_running else feature_state_idle)"

datatype voice_ui_audio_status =
    voice_ui_audio_success
  | voice_ui_audio_suspended
  | voice_ui_audio_not_active
  | voice_ui_audio_already_started
  | voice_ui_audio_failed

definition VoiceUi_StartAudioCapture ::
  "voice_env \<Rightarrow> va_handle \<Rightarrow> capture_params \<Rightarrow> voice_world \<Rightarrow> (voice_world \<times> voice_ui_audio_status) res" where
  "VoiceUi_StartAudioCapture env h p w =
     (if \<not> VoiceUi_IsActiveAssistant h w then Inr (w, voice_ui_audio_not_active)
      else res_bind (FeatureManager_StartFeatureRequest (env_fm env) (feature_manager_handle env) w) (\<lambda>(w, granted).
        if granted
        then (case voiceUi_StartCapture p w of
            (w, True) \<Rightarrow> Inr (w, voice_ui_audio_success)
          | (w, False) \<Rightarrow> res_bind (voiceUi_UpdateFeatureStoppedState env w) (\<lambda>w. Inr (w, voice_ui_audio_failed)))
        else Inr (w, voice_ui_audio_suspended)))"

definition start_wuw_detection ::
  "voice_env \<Rightarrow> va_audio_wuw_detection_params \<Rightarrow> voice_world \<Rightarrow> (voice_world \<times> voice_ui_audio_status) res" where
  "start_wuw_detection env p w =
     res_bind (FeatureManager_StartFeatureRequest (env_fm env) (feature_manager_handle env) w) (\<lambda>(w, granted).
       if granted
       then (case voiceUi_StartDetection p w of
           (w, True) \<Rightarrow> Inr (w\<lparr>detection_config := p\<rparr>, voice_ui_audio_success)
         | (w, False) \<Rightarrow>
             if capture_active w
             then Inr (w\<lparr>detection_config := p, detection_start_pending := True\<rparr>, voice_ui_audio_success)
             else res_bind (voiceUi_UpdateFeatureStoppedState env w) (\<lambda>w. Inr (w, voice_ui_audio_failed)))
       else Inr (w\<lparr>detection_config := p, detection_suspended := True\<rparr>, voice_ui_audio_suspended))"

definition VoiceUi_StartWakeUpWordDetection ::
  "voice_env \<Rightarrow> va_handle \<Rightarrow> va_audio_wuw_detection_params \<Rightarrow> voice_world \<Rightarrow> (voice_world \<times> voice_ui_audio_status) res" where
  "VoiceUi_StartWakeUpWordDetection env h p w =
     (if \<not> VoiceUi_IsActiveAssistant h w then Inr (w, voice_ui_audio_not_active)
      else if detection_active w
      then (if VA_AUDIO_DETECTION_PARAMS_EQUAL (detection_config w) p
            then Inr (w, voice_ui_audio_already_started)
            else start_wuw_detection env p (voiceUi_StopDetection w))
      else start_wuw_detection env p w)"

definition VoiceUi_StopAudioCapture :: "voice_env \<Rightarrow> va_handle \<Rightarrow> voice_world \<Rightarrow> voice_world res" where
  "VoiceUi_StopAudioCapture env h w =
     res_bind
       (if VoiceUi_IsActiveAssistant h w
        then let w = voiceUi_StopCapture w in
          if detection_start_pending w
          then res_bind (VoiceUi_StartWakeUpWordDetection env h (detection_config w) w) (\<lambda>(w, _).
            Inr (w\<lparr>detection_start_pending := False\<rparr>))
          else Inr w
        else Inr w)
       (voiceUi_UpdateFeatureStoppedState env)"

definition VoiceUi_StopWakeUpWordDetection :: "voice_env \<Rightarrow> va_handle \<Rightarrow> voice_world \<Rightarrow> voice_world res" where
  "VoiceUi_StopWakeUpWordDetection env h w =
     res_bind (voiceUi_UpdateFeatureStoppedState env
         (if VoiceUi_IsActiveAssistant h w then voiceUi_StopDetection w else w))
       (\<lambda>w. Inr (w\<lparr>detection_suspended := False\<rparr>))"

section \<open>Sessions\<close>

definition voiceUi_StartVaSessionEndInProgressTimer :: "voice_world \<Rightarrow> voice_world" where
  "voiceUi_StartVaSessionEndInProgressTimer w =
     emit SendSessionEndingTimeout (emit CancelSessionEndingTimeout (w\<lparr>va_session_ending := True\<rparr>))"

definition VoiceUi_VaSessionStarted :: "va_handle \<Rightarrow> voice_world \<Rightarrow> voice_world" where
  "VoiceUi_VaSessionStarted h w =
     (if VoiceUi_IsActiveAssistant h w \<and> \<not> va_session_in_progress w
      then emit AudioRouterUpdate (w\<lparr>va_session_in_progress := True, va_session_ending := False\<rparr>) else w)"

definition VoiceUi_VaSessionEnded :: "va_handle \<Rightarrow> voice_world \<Rightarrow> voice_world" where
  "VoiceUi_VaSessionEnded h w =
     (if VoiceUi_IsActiveAssistant h w
      then emit AudioRouterUpdate (VoiceUi_VaSessionReset (voiceUi_StartVaSessionEndInProgressTimer w)) else w)"

definition voiceUi_VaSessionInternalMsgHandler :: "voice_world \<Rightarrow> voice_world" where
  "voiceUi_VaSessionInternalMsgHandler w = emit AudioRouterUpdate (w\<lparr>va_session_ending := False\<rparr>)"

section \<open>The container of the voice assistants\<close>

text \<open>
  \<open>voice_assistant_list\<close> has \<open>MAX_NO_VA_SUPPORTED\<close> slots. The selected assistant is a property of the
  device the headset keeps of itself, which may not exist yet.
\<close>

definition voice_ui_provider_none :: u8 where "voice_ui_provider_none = 0"

definition voiceUi_SetActiveVa :: "voice_env \<Rightarrow> va_handle \<Rightarrow> voice_world \<Rightarrow> voice_world res" where
  "voiceUi_SetActiveVa env va w =
     res_bind
       (if active_va w \<noteq> va
        then res_bind (VoiceUi_UnrouteAudio env w) (\<lambda>w. Inr (emit AudioRouterUpdate (VoiceUi_VaSessionReset w)))
        else Inr w)
       (\<lambda>w. Inr (w\<lparr>active_va := va\<rparr>))"

definition voiceUi_FindHandleForProvider :: "voice_world \<Rightarrow> u8 \<Rightarrow> va_handle" where
  "voiceUi_FindHandleForProvider w p =
     Option.bind (find (\<lambda>h. case h of None \<Rightarrow> False | Some (_, itf) \<Rightarrow> va_provider itf = p) (voice_assistant_list w))
       (\<lambda>h. h)"

definition VoiceUi_GetBatteryUpdate :: "voice_world \<Rightarrow> voice_world" where
  "VoiceUi_GetBatteryUpdate w = (case active_va w of
     None \<Rightarrow> w | Some (_, itf) \<Rightarrow> if BatteryUpdate itf then emit VaBatteryUpdate w else w)"

definition VoiceUi_SetSelectedVoiceAssistantInterface :: "voice_env \<Rightarrow> u8 \<Rightarrow> voice_world \<Rightarrow> voice_world res" where
  "VoiceUi_SetSelectedVoiceAssistantInterface env p w =
     res_bind (panic_unless (p \<noteq> voice_ui_provider_none)) (\<lambda>_.
     res_bind (panic_null (voiceUi_FindHandleForProvider w p)) (\<lambda>h.
     res_bind (voiceUi_SetActiveVa env (Some h) w) (\<lambda>w.
       if SelectVoiceAssistant (snd h) then Inr (VoiceUi_GetBatteryUpdate (emit (VaSelected (fst h)) w))
       else Inl BadAccess)))"

definition VoiceUi_SetSelectedAssistant :: "u8 \<Rightarrow> voice_world \<Rightarrow> voice_world" where
  "VoiceUi_SetSelectedAssistant p w =
     emit (NotifyAssistantChanged p)
       (case my_device_va w of
          None \<Rightarrow> w
        | Some _ \<Rightarrow> emit SerialiseDevices (w\<lparr>my_device_va := Some (Some p)\<rparr>))"

definition VoiceUi_GetSelectedAssistant :: "voice_env \<Rightarrow> voice_world \<Rightarrow> u8" where
  "VoiceUi_GetSelectedAssistant env w = (case my_device_va w of
     Some (Some p) \<Rightarrow> p | _ \<Rightarrow> VOICE_UI_PROVIDER_DEFAULT env)"

definition VoiceUi_Register :: "voice_env \<Rightarrow> voice_ui_if \<Rightarrow> voice_world \<Rightarrow> (voice_world \<times> va_handle) res" where
  "VoiceUi_Register env itf w =
     res_bind (panic_null (find_index (\<lambda>h. h = None) (voice_assistant_list w))) (\<lambda>i.
       let h = Some (i, itf); w = w\<lparr>voice_assistant_list := (voice_assistant_list w)[i := h]\<rparr> in
       if VoiceUi_GetSelectedAssistant env w = va_provider itf
       then res_bind (voiceUi_SetActiveVa env h w) (\<lambda>w. Inr (w, h))
       else Inr (w, h))"

definition VoiceUi_GetSupportedAssistants :: "voice_world \<Rightarrow> u8 list" where
  "VoiceUi_GetSupportedAssistants w =
     voice_ui_provider_none # concat (map (\<lambda>h. case h of None \<Rightarrow> [] | Some (_, itf) \<Rightarrow> [va_provider itf]) (voice_assistant_list w))"

definition VoiceUi_DeselectCurrentAssistant :: "voice_env \<Rightarrow> voice_world \<Rightarrow> voice_world res" where
  "VoiceUi_DeselectCurrentAssistant env w = (case active_va w of
     None \<Rightarrow> Inr w
   | Some (i, itf) \<Rightarrow>
       if DeselectVoiceAssistant itf then voiceUi_SetActiveVa env None (emit (VaDeselected i) w) else Inr w)"

text \<open>In a headset without a peer the reboot is requested here.\<close>

definition VoiceUi_SelectVoiceAssistant :: "voice_env \<Rightarrow> u8 \<Rightarrow> bool \<Rightarrow> voice_world \<Rightarrow> (voice_world \<times> bool) res" where
  "VoiceUi_SelectVoiceAssistant env p reboot_allowed w =
     res_bind
       (if active_va w \<noteq> None \<and> p = VoiceUi_GetSelectedAssistant env w then Inr (w, True, False)
        else if p = voice_ui_provider_none
        then res_bind (VoiceUi_DeselectCurrentAssistant env w) (\<lambda>w. Inr (w, True, False))
        else if voiceUi_FindHandleForProvider w p \<noteq> None
        then res_bind (VoiceUi_DeselectCurrentAssistant env w) (\<lambda>w.
          res_bind (VoiceUi_SetSelectedVoiceAssistantInterface env p w) (\<lambda>w.
            if reboot_allowed
            then res_bind (va_handle_if (active_va w)) (\<lambda>itf. Inr (w, True, reboot_required_on_provider_switch itf))
            else Inr (w, True, False)))
        else Inr (w, False, False))
       (\<lambda>(w, status, reboot).
         let w = (if status then VoiceUi_SetSelectedAssistant p w else w) in
         Inr (if status \<and> reboot then emit RebootLater w else w, status))"

definition VoiceUi_EventHandler :: "va_handle \<Rightarrow> nat \<Rightarrow> voice_world \<Rightarrow> voice_world" where
  "VoiceUi_EventHandler h event w = (case h of
     None \<Rightarrow> w | Some (_, itf) \<Rightarrow> if EventHandler itf then emit (VaEvent event) w else w)"

definition voiceUi_HandleUiInput :: "nat \<Rightarrow> voice_world \<Rightarrow> voice_world" where
  "voiceUi_HandleUiInput ui_input w = (if active_va w \<noteq> None then VoiceUi_EventHandler (active_va w) ui_input w else w)"

subsection \<open>Flags and locale\<close>

text \<open>
  Two more properties of the headset's own device; they are set and read only when there is
  one. The second field of the device is absent until it is set for the first time.
\<close>

definition device_va_flag_wuw_enabled :: u8 where "device_va_flag_wuw_enabled = 1"
definition device_va_flag_privacy_mode_enabled :: u8 where "device_va_flag_privacy_mode_enabled = 2"
definition DEVICE_SIZEOF_VA_LOCALE :: nat where "DEVICE_SIZEOF_VA_LOCALE = 4"

definition VoiceUi_GetDeviceFlags :: "voice_world \<Rightarrow> u8" where
  "VoiceUi_GetDeviceFlags w = (if my_device_va w \<noteq> None then (case my_va_flags w of Some f \<Rightarrow> f | None \<Rightarrow> 0) else 0)"

definition VoiceUi_GetDeviceFlag :: "u8 \<Rightarrow> voice_world \<Rightarrow> bool" where
  "VoiceUi_GetDeviceFlag flag w = (VoiceUi_GetDeviceFlags w AND flag = flag)"

definition VoiceUi_SetDeviceFlag :: "u8 \<Rightarrow> bool \<Rightarrow> voice_world \<Rightarrow> voice_world" where
  "VoiceUi_SetDeviceFlag flag on w =
     (if my_device_va w \<noteq> None
      then let flags = (case my_va_flags w of Some f \<Rightarrow> f | None \<Rightarrow> device_va_flag_wuw_enabled);
               flags = (if on then flags OR flag else flags AND NOT flag) in
        emit SerialiseDevices (w\<lparr>my_va_flags := Some flags\<rparr>)
      else w)"

definition VoiceUi_GetPackedLocale :: "u8 list \<Rightarrow> voice_world \<Rightarrow> u8 list" where
  "VoiceUi_GetPackedLocale buf w =
     (let buf = buf[0 := 0] in
      case my_va_locale w of
        Some l \<Rightarrow> if my_device_va w \<noteq> None \<and> length l = DEVICE_SIZEOF_VA_LOCALE then l @ drop DEVICE_SIZEOF_VA_LOCALE buf else buf
      | None \<Rightarrow> buf)"

definition VoiceUi_SetPackedLocale :: "u8 list \<Rightarrow> voice_world \<Rightarrow> voice_world" where
  "VoiceUi_SetPackedLocale l w =
     (if my_device_va w \<noteq> None
      then emit SerialiseDevices (w\<lparr>my_va_locale := Some (take DEVICE_SIZEOF_VA_LOCALE l)\<rparr>) else w)"

definition VoiceUi_SetPrivacyModeEnable :: "bool \<Rightarrow> voice_world \<Rightarrow> voice_world" where
  "VoiceUi_SetPrivacyModeEnable on w =
     (let w = VoiceUi_SetDeviceFlag device_va_flag_privacy_mode_enabled on w in
      case active_va w of
        None \<Rightarrow> w | Some (_, itf) \<Rightarrow> if SetPrivacyModeEnable itf then emit (VaPrivacyMode on) w else w)"

definition VoiceUi_IsPrivacyModeEnabled :: "voice_world \<Rightarrow> bool" where
  "VoiceUi_IsPrivacyModeEnabled w = VoiceUi_GetDeviceFlag device_va_flag_privacy_mode_enabled w"

definition VoiceUi_SetWakeUpWordDetectionEnable :: "voice_env \<Rightarrow> bool \<Rightarrow> voice_world \<Rightarrow> voice_world" where
  "VoiceUi_SetWakeUpWordDetectionEnable env on w =
     (if VoiceUi_IsWakeUpWordFeatureIncluded env
      then let w = VoiceUi_SetDeviceFlag device_va_flag_wuw_enabled on w in
        (case active_va w of
          None \<Rightarrow> w | Some (_, itf) \<Rightarrow> if SetWakeUpWordDetectionEnable itf then emit (VaWuwEnable on) w else w)
      else w)"

definition VoiceUi_IsWakeUpWordDetectionEnabled :: "voice_world \<Rightarrow> bool" where
  "VoiceUi_IsWakeUpWordDetectionEnabled w = VoiceUi_GetDeviceFlag device_va_flag_wuw_enabled w"

definition voiceUi_GetDefaultFlags :: "voice_env \<Rightarrow> u8" where
  "voiceUi_GetDefaultFlags env = (if VoiceUi_IsWakeUpWordFeatureIncluded env then device_va_flag_wuw_enabled else 0)"

text \<open>The device of the headset itself was created.\<close>

definition voiceUi_HandleBtDeviceSelfCreated :: "voice_env \<Rightarrow> voice_world \<Rightarrow> voice_world" where
  "voiceUi_HandleBtDeviceSelfCreated env w =
     emit SerialiseDevices (w\<lparr>my_device_va := Some (Some (VOICE_UI_PROVIDER_DEFAULT env)),
       my_va_flags := Some (voiceUi_GetDefaultFlags env),
       my_va_locale := Some (replicate DEVICE_SIZEOF_VA_LOCALE 0)\<rparr>)"

section \<open>Calls and the analog input\<close>

definition audioRouter_GetVoiceFeatureState :: "voice_world \<Rightarrow> feature_state" where
  "audioRouter_GetVoiceFeatureState w = voice_feature_state w"

definition audioRouter_PanicIfSourceInvalid :: "generic_source \<Rightarrow> unit res" where
  "audioRouter_PanicIfSourceInvalid src = (case src of
     source_type_voice v \<Rightarrow> panic_unless (v < max_voice_sources)
   | source_type_audio a \<Rightarrow> panic_unless (a < max_audio_sources)
   | source_type_other \<Rightarrow> Inl Panic)"

text \<open>The argument \<open>params\<close> is whether the source gave its parameters.\<close>

definition audioRouter_CommonConnectAudioSource :: "nat \<Rightarrow> bool \<Rightarrow> voice_world \<Rightarrow> voice_world \<times> bool" where
  "audioRouter_CommonConnectAudioSource a params w =
     (if params then (emit (AudioRoutingChange a True) (emit (StoreLastRoutedAudio a) (emit (ConnectAudio a) w)), True)
      else (w, False))"

definition audioRouter_CommonDisconnectAudioSource :: "nat \<Rightarrow> bool \<Rightarrow> voice_world \<Rightarrow> voice_world \<times> bool" where
  "audioRouter_CommonDisconnectAudioSource a params w =
     (if params then (emit (AudioRoutingChange a False) (emit (DisconnectAudio a) w), True) else (w, False))"

definition audioRouter_CommonConnectVoiceSource :: "voice_env \<Rightarrow> nat \<Rightarrow> bool \<Rightarrow> voice_world \<Rightarrow> (voice_world \<times> bool) res" where
  "audioRouter_CommonConnectVoiceSource env v params w =
     res_bind (FeatureManager_StartFeatureRequest (env_fm env) (voice_feature_manager_handle env) w) (\<lambda>(w, granted).
       if granted
       then if params
         then Inr (emit (ConnectVoice v) (w\<lparr>voice_feature_state := feature_state_running\<rparr>), True)
         else res_bind (FeatureManager_StopFeatureIndication (env_fm env) (voice_feature_manager_handle env) w)
           (\<lambda>w. Inr (w, False))
       else Inr (w, False))"

definition AudioRouter_CommonConnectSource :: "voice_env \<Rightarrow> generic_source \<Rightarrow> bool \<Rightarrow> voice_world \<Rightarrow> (voice_world \<times> bool) res" where
  "AudioRouter_CommonConnectSource env src params w =
     res_bind (audioRouter_PanicIfSourceInvalid src) (\<lambda>_.
     res_bind
       (case src of
          source_type_voice v \<Rightarrow> audioRouter_CommonConnectVoiceSource env v params w
        | source_type_audio a \<Rightarrow> Inr (audioRouter_CommonConnectAudioSource a params w)
        | source_type_other \<Rightarrow> Inr (w, False))
       (\<lambda>(w, success). Inr (if success then emit ContextUpdate w else w, success)))"

definition audioRouter_CommonDisconnectVoiceSource :: "voice_env \<Rightarrow> nat \<Rightarrow> bool \<Rightarrow> voice_world \<Rightarrow> (voice_world \<times> bool) res" where
  "audioRouter_CommonDisconnectVoiceSource env v params w =
     (if params
      then res_bind (FeatureManager_StopFeatureIndication (env_fm env) (voice_feature_manager_handle env)
             ((emit (DisconnectVoice v) w)\<lparr>voice_feature_state := feature_state_idle\<rparr>))
           (\<lambda>w. Inr (w, True))
      else Inr (w, False))"

definition AudioRouter_CommonDisconnectSource :: "voice_env \<Rightarrow> generic_source \<Rightarrow> bool \<Rightarrow> voice_world \<Rightarrow> (voice_world \<times> bool) res" where
  "AudioRouter_CommonDisconnectSource env src params w =
     res_bind (audioRouter_PanicIfSourceInvalid src) (\<lambda>_.
     res_bind
       (case src of
          source_type_voice v \<Rightarrow> audioRouter_CommonDisconnectVoiceSource env v params w
        | source_type_audio a \<Rightarrow> Inr (audioRouter_CommonDisconnectAudioSource a params w)
        | source_type_other \<Rightarrow> Inr (w, False))
       (\<lambda>(w, success). Inr (if success then emit ContextUpdate w else w, success)))"

definition wiredAudioSource_GetFeatureState :: "voice_world \<Rightarrow> feature_state" where
  "wiredAudioSource_GetFeatureState w = analog_audio_feature_state w"

definition WiredAudioSource_SetFeatureState :: "feature_state \<Rightarrow> voice_world \<Rightarrow> voice_world" where
  "WiredAudioSource_SetFeatureState s w = w\<lparr>analog_audio_feature_state := s\<rparr>"

definition WiredAudioSource_StartFeature :: "voice_env \<Rightarrow> voice_world \<Rightarrow> (voice_world \<times> bool) res" where
  "WiredAudioSource_StartFeature env w =
     FeatureManager_StartFeatureRequest (env_fm env) (analog_audio_feature_manager_handle env) w"

definition WiredAudioSource_StopFeature :: "voice_env \<Rightarrow> voice_world \<Rightarrow> voice_world res" where
  "WiredAudioSource_StopFeature env w =
     FeatureManager_StopFeatureIndication (env_fm env) (analog_audio_feature_manager_handle env) w"

datatype source_state =
    source_state_disconnected
  | source_state_connecting
  | source_state_connected
  | source_state_disconnecting
  | source_state_invalid

text \<open>The answer is whether the status is \<open>source_status_ready\<close>, and not an error.\<close>

definition wiredAudio_SetState :: "voice_env \<Rightarrow> source_state \<Rightarrow> voice_world \<Rightarrow> (voice_world \<times> bool) res" where
  "wiredAudio_SetState env state w = (case state of
     source_state_connecting \<Rightarrow>
       res_bind (WiredAudioSource_StartFeature env w) (\<lambda>(w, started).
         if \<not> started then Inr (WiredAudioSource_SetFeatureState feature_state_idle w, False)
         else Inr (WiredAudioSource_SetFeatureState feature_state_running w, True))
   | source_state_disconnecting \<Rightarrow>
       res_bind (WiredAudioSource_StopFeature env (WiredAudioSource_SetFeatureState feature_state_idle w))
         (\<lambda>w. Inr (w, True))
   | _ \<Rightarrow> Inr (w, True))"

section \<open>Initialisation\<close>

definition voice_feature_manager_if :: "voice_world feature_interface" where
  "voice_feature_manager_if = \<lparr>GetState = Some audioRouter_GetVoiceFeatureState, Suspend = None, Resume = None\<rparr>"

definition analog_audio_feature_manager_if :: "voice_world feature_interface" where
  "analog_audio_feature_manager_if = \<lparr>GetState = Some wiredAudioSource_GetFeatureState, Suspend = None, Resume = None\<rparr>"

definition voice_ui_feature_manager_if :: "voice_world feature_interface" where
  "voice_ui_feature_manager_if =
     \<lparr>GetState = Some voiceUi_GetFeatureState, Suspend = Some (\<lambda>w. Inr (VoiceUi_SuspendAudio w)),
      Resume = Some VoiceUi_ResumeAudio\<rparr>"

text \<open>
  The order of the table of initialisation functions of the headset: the priorities, the
  audio router, the analog input, the voice user interface.
\<close>

definition headset_features_init :: "u8 \<Rightarrow> bool \<Rightarrow> voice_env res" where
  "headset_features_init provider_default wuw_included =
     (let fm = FeatureManager_SetPriorities feature_manager_start (Some Headset_GetFeatureManagerPriorityLists) in
      res_bind (FeatureManager_Register fm feature_id_sco (Some voice_feature_manager_if)) (\<lambda>(fm, sco).
      res_bind (FeatureManager_Register fm feature_id_wired_analog_audio (Some analog_audio_feature_manager_if)) (\<lambda>(fm, analog).
      res_bind (FeatureManager_Register fm feature_id_va (Some voice_ui_feature_manager_if)) (\<lambda>(fm, va).
        Inr \<lparr>env_fm = fm, feature_manager_handle = va, voice_feature_manager_handle = sco,
             analog_audio_feature_manager_handle = analog, VOICE_UI_PROVIDER_DEFAULT = provider_default,
             VoiceUi_IsWakeUpWordFeatureIncluded = wuw_included\<rparr>))))"

end
