(* ===== verification/Voice_Ui_Control.thy ===== *)
theory Voice_Ui_Control
  imports Voice_Ui
begin

text \<open>
  The events the parts of \<open>Voice_Ui\<close> react to, and what holds in every state they can reach in any
  order. The contract of the feature manager's clients, the locale \<open>features\<close>, is interpreted here on the
  headset's own clients; the invariant adds that the voice user interface and the voice audio
  manager agree. The properties that follow are in \<open>Voice_Ui_Properties\<close>.
\<close>

section \<open>The events\<close>

datatype voice_event =
    ConnectSource generic_source bool
  | DisconnectSource generic_source bool
  | WiredSetState source_state
  | StartAudioCapture va_handle capture_params
  | StopAudioCapture va_handle
  | StartDetection va_handle va_audio_wuw_detection_params
  | StopDetection va_handle
  | SessionStarted va_handle
  | SessionEnded va_handle
  | SessionEndingTimeout
  | CaptureErrorTimeout
  | MicMessage mic_message
  | CaptureStarted source nat bool
  | WuwDetected bool
  | RegisterAssistant voice_ui_if
  | SelectAssistant u8 bool
  | UiInput nat
  | PrivacyMode bool
  | WuwEnable bool
  | SetLocale "u8 list"
  | SelfDeviceCreated
  | AdjustBandwidth bool

definition voice_step :: "voice_env \<Rightarrow> voice_event \<Rightarrow> voice_world \<Rightarrow> voice_world res" where
  "voice_step env e w = (case e of
     ConnectSource src params \<Rightarrow> res_bind (AudioRouter_CommonConnectSource env src params w) (\<lambda>(w, _). Inr w)
   | DisconnectSource src params \<Rightarrow> res_bind (AudioRouter_CommonDisconnectSource env src params w) (\<lambda>(w, _). Inr w)
   | WiredSetState st \<Rightarrow> res_bind (wiredAudio_SetState env st w) (\<lambda>(w, _). Inr w)
   | StartAudioCapture h p \<Rightarrow> res_bind (VoiceUi_StartAudioCapture env h p w) (\<lambda>(w, _). Inr w)
   | StopAudioCapture h \<Rightarrow> VoiceUi_StopAudioCapture env h w
   | StartDetection h p \<Rightarrow> res_bind (VoiceUi_StartWakeUpWordDetection env h p w) (\<lambda>(w, _). Inr w)
   | StopDetection h \<Rightarrow> VoiceUi_StopWakeUpWordDetection env h w
   | SessionStarted h \<Rightarrow> Inr (VoiceUi_VaSessionStarted h w)
   | SessionEnded h \<Rightarrow> Inr (VoiceUi_VaSessionEnded h w)
   | SessionEndingTimeout \<Rightarrow> Inr (voiceUi_VaSessionInternalMsgHandler w)
   | CaptureErrorTimeout \<Rightarrow> Inr (voiceUi_AudioMsgHandler w)
   | MicMessage m \<Rightarrow> voiceAudioManager_MsgHandler m w
   | CaptureStarted src avail processed \<Rightarrow> VoiceAudioManager_CaptureStarted src avail processed w
   | WuwDetected start_capture \<Rightarrow> res_bind (VoiceAudioManager_WuwDetected start_capture w) (\<lambda>(w, _). Inr w)
   | RegisterAssistant itf \<Rightarrow> res_bind (VoiceUi_Register env itf w) (\<lambda>(w, _). Inr w)
   | SelectAssistant p reboot_allowed \<Rightarrow> res_bind (VoiceUi_SelectVoiceAssistant env p reboot_allowed w) (\<lambda>(w, _). Inr w)
   | UiInput i \<Rightarrow> Inr (voiceUi_HandleUiInput i w)
   | PrivacyMode on \<Rightarrow> Inr (VoiceUi_SetPrivacyModeEnable on w)
   | WuwEnable on \<Rightarrow> Inr (VoiceUi_SetWakeUpWordDetectionEnable env on w)
   | SetLocale l \<Rightarrow> Inr (VoiceUi_SetPackedLocale l w)
   | SelfDeviceCreated \<Rightarrow> Inr (voiceUi_HandleBtDeviceSelfCreated env w)
   | AdjustBandwidth throttle \<Rightarrow> voiceUi_AdjustBtBandwidthUsage throttle w)"

definition no_params :: va_audio_wuw_detection_params where
  "no_params = \<lparr>max_pre_roll_in_ms = 0,
     wuw_config = \<lparr>engine = 0, model = 0, LoadWakeUpWordModel = 0, engine_init_preroll_ms = 0\<rparr>,
     mic_config = \<lparr>sample_rate = 0, max_number_of_mics = 0, min_number_of_mics = 0\<rparr>\<rparr>"

definition voice_start :: "nat \<Rightarrow> u8 option option \<Rightarrow> voice_world" where
  "voice_start slots device = \<lparr>current_state = vam_idle, mic_data_available = False, capture_source = 0,
     wuw_detected = False, detection_suspended = False, capture_active = False, detection_active = False,
     detection_start_pending = False, detection_config = no_params, va_session_in_progress = False,
     va_session_ending = False, voice_assistant_list = replicate slots None, active_va = None,
     my_device_va = device, my_va_flags = None, my_va_locale = None, voice_feature_state = feature_state_idle,
     analog_audio_feature_state = feature_state_idle, outputs = []\<rparr>"

text \<open>An event that faults resets the headset; others lead on.\<close>

inductive voice_reach :: "voice_env \<Rightarrow> voice_world \<Rightarrow> bool" for env where
  voice_reach_start: "voice_reach env (voice_start slots device)"
| voice_reach_step: "voice_reach env w \<Longrightarrow> voice_step env e w = Inr w' \<Longrightarrow> voice_reach env w'"

section \<open>The environment of the headset\<close>

definition headset_env :: "u8 \<Rightarrow> bool \<Rightarrow> voice_env" where
  "headset_env p wi = (case headset_features_init p wi of Inr env \<Rightarrow> env | Inl _ \<Rightarrow> undefined)"

definition headset_fm :: "voice_world feature_manager" where
  "headset_fm = \<lparr>priority_lists = Some Headset_GetFeatureManagerPriorityLists,
     feature_handles = (\<lambda>_. None)
       (feature_id_sco \<mapsto> \<lparr>client_id = feature_id_sco, client_interface = Some voice_feature_manager_if\<rparr>,
        feature_id_wired_analog_audio \<mapsto>
          \<lparr>client_id = feature_id_wired_analog_audio, client_interface = Some analog_audio_feature_manager_if\<rparr>,
        feature_id_va \<mapsto> \<lparr>client_id = feature_id_va, client_interface = Some voice_ui_feature_manager_if\<rparr>)\<rparr>"

lemma headset_features_init_ok:
  "headset_features_init p wi = Inr \<lparr>env_fm = headset_fm,
     feature_manager_handle = feature_handles headset_fm feature_id_va,
     voice_feature_manager_handle = feature_handles headset_fm feature_id_sco,
     analog_audio_feature_manager_handle = feature_handles headset_fm feature_id_wired_analog_audio,
     VOICE_UI_PROVIDER_DEFAULT = p, VoiceUi_IsWakeUpWordFeatureIncluded = wi\<rparr>"
  by (simp add: headset_features_init_def FeatureManager_Register_def FeatureManager_SetPriorities_def
      feature_manager_start_def featureManager_VerifyClient_def headset_fm_def Let_def
      voice_feature_manager_if_def analog_audio_feature_manager_if_def voice_ui_feature_manager_if_def
      featureManager_IsHighestPriorityFeatureOnAllLists_def Headset_GetFeatureManagerPriorityLists_def
      featureManager_GetIndexForFeatureInPriorityList_def)

lemma headset_env_sel [simp]:
  "env_fm (headset_env p wi) = headset_fm"
  "feature_manager_handle (headset_env p wi) = feature_handles headset_fm feature_id_va"
  "voice_feature_manager_handle (headset_env p wi) = feature_handles headset_fm feature_id_sco"
  "analog_audio_feature_manager_handle (headset_env p wi) = feature_handles headset_fm feature_id_wired_analog_audio"
  by (simp_all add: headset_env_def headset_features_init_ok)

fun headset_feature :: "feature_id \<Rightarrow> voice_world \<Rightarrow> feature_state" where
  "headset_feature feature_id_sco w = voice_feature_state w"
| "headset_feature feature_id_va w = voiceUi_GetFeatureState w"
| "headset_feature feature_id_wired_analog_audio w = analog_audio_feature_state w"
| "headset_feature feature_id_handset_multipoint w = feature_state_idle"

section \<open>The voice user interface and the voice audio manager agree\<close>

definition detecting :: "vam_state \<Rightarrow> bool" where
  "detecting s \<longleftrightarrow> s = wuw_detecting \<or> s = live_capturing_detect_pending \<or> s = wuw_capturing_detect_pending"

definition capturing :: "vam_state \<Rightarrow> bool" where
  "capturing s \<longleftrightarrow> s \<noteq> vam_idle \<and> s \<noteq> wuw_detecting"

definition voice_ok :: "voice_world \<Rightarrow> bool" where
  "voice_ok w \<longleftrightarrow>
     detection_active w = detecting (current_state w) \<and> capture_active w = capturing (current_state w) \<and>
     (detection_suspended w \<longrightarrow> current_state w = vam_idle) \<and>
     (detection_active w \<longrightarrow> wuw_detected w) \<and> (capture_active w \<longrightarrow> mic_data_available w) \<and>
     (capture_source w \<noteq> 0 \<longrightarrow> capture_active w) \<and>
     (VoiceUi_IsVaActive w \<or> detection_suspended w \<or> detection_start_pending w \<longrightarrow> active_va w \<noteq> None)"

lemmas vam_defs = VoiceAudioManager_UpdateState_def voiceAudioManager_GetStateTransition_def state_transitions_def
  VoiceAudioManager_StartCapture_def VoiceAudioManager_StopCapture_def VoiceAudioManager_StartDetection_def
  VoiceAudioManager_StopDetection_def VoiceAudioManager_CaptureStarting_def VoiceAudioManager_CaptureStopping_def
  VoiceAudioManager_IsMicDataExpected_def VoiceAudioManager_IsWuwDetectionExpected_def

lemma emit_sel [simp]:
  "current_state (emit o1 w) = current_state w"
  "mic_data_available (emit o1 w) = mic_data_available w"
  "capture_source (emit o1 w) = capture_source w"
  "wuw_detected (emit o1 w) = wuw_detected w"
  "detection_suspended (emit o1 w) = detection_suspended w"
  "capture_active (emit o1 w) = capture_active w"
  "detection_active (emit o1 w) = detection_active w"
  "detection_start_pending (emit o1 w) = detection_start_pending w"
  "detection_config (emit o1 w) = detection_config w"
  "va_session_in_progress (emit o1 w) = va_session_in_progress w"
  "va_session_ending (emit o1 w) = va_session_ending w"
  "voice_assistant_list (emit o1 w) = voice_assistant_list w"
  "active_va (emit o1 w) = active_va w"
  "my_device_va (emit o1 w) = my_device_va w"
  "my_va_flags (emit o1 w) = my_va_flags w"
  "my_va_locale (emit o1 w) = my_va_locale w"
  "voice_feature_state (emit o1 w) = voice_feature_state w"
  "analog_audio_feature_state (emit o1 w) = analog_audio_feature_state w"
  by (simp_all add: emit_def)

lemma link_policy_update_sel [simp]:
  "current_state (link_policy_update w) = current_state w"
  "mic_data_available (link_policy_update w) = mic_data_available w"
  "capture_source (link_policy_update w) = capture_source w"
  "wuw_detected (link_policy_update w) = wuw_detected w"
  "detection_suspended (link_policy_update w) = detection_suspended w"
  "capture_active (link_policy_update w) = capture_active w"
  "detection_active (link_policy_update w) = detection_active w"
  "detection_start_pending (link_policy_update w) = detection_start_pending w"
  "detection_config (link_policy_update w) = detection_config w"
  "va_session_in_progress (link_policy_update w) = va_session_in_progress w"
  "va_session_ending (link_policy_update w) = va_session_ending w"
  "voice_assistant_list (link_policy_update w) = voice_assistant_list w"
  "active_va (link_policy_update w) = active_va w"
  "my_device_va (link_policy_update w) = my_device_va w"
  "my_va_flags (link_policy_update w) = my_va_flags w"
  "my_va_locale (link_policy_update w) = my_va_locale w"
  "voice_feature_state (link_policy_update w) = voice_feature_state w"
  "analog_audio_feature_state (link_policy_update w) = analog_audio_feature_state w"
  by (auto simp: link_policy_update_def split: option.splits)

lemma cancelled_ind_sel [simp]:
  "current_state (voiceUi_SendSessionCancelledInd w) = current_state w"
  "mic_data_available (voiceUi_SendSessionCancelledInd w) = mic_data_available w"
  "capture_source (voiceUi_SendSessionCancelledInd w) = capture_source w"
  "wuw_detected (voiceUi_SendSessionCancelledInd w) = wuw_detected w"
  "detection_suspended (voiceUi_SendSessionCancelledInd w) = detection_suspended w"
  "capture_active (voiceUi_SendSessionCancelledInd w) = capture_active w"
  "detection_active (voiceUi_SendSessionCancelledInd w) = detection_active w"
  "detection_start_pending (voiceUi_SendSessionCancelledInd w) = detection_start_pending w"
  "detection_config (voiceUi_SendSessionCancelledInd w) = detection_config w"
  "va_session_in_progress (voiceUi_SendSessionCancelledInd w) = va_session_in_progress w"
  "va_session_ending (voiceUi_SendSessionCancelledInd w) = va_session_ending w"
  "voice_assistant_list (voiceUi_SendSessionCancelledInd w) = voice_assistant_list w"
  "active_va (voiceUi_SendSessionCancelledInd w) = active_va w"
  "my_device_va (voiceUi_SendSessionCancelledInd w) = my_device_va w"
  "my_va_flags (voiceUi_SendSessionCancelledInd w) = my_va_flags w"
  "my_va_locale (voiceUi_SendSessionCancelledInd w) = my_va_locale w"
  "voice_feature_state (voiceUi_SendSessionCancelledInd w) = voice_feature_state w"
  "analog_audio_feature_state (voiceUi_SendSessionCancelledInd w) = analog_audio_feature_state w"
  by (auto simp: voiceUi_SendSessionCancelledInd_def split: option.splits)

text \<open>What capture and detection leave alone.\<close>

definition same_outside :: "voice_world \<Rightarrow> voice_world \<Rightarrow> bool" where
  "same_outside w w' \<longleftrightarrow>
     voice_feature_state w' = voice_feature_state w \<and> analog_audio_feature_state w' = analog_audio_feature_state w \<and>
     voice_assistant_list w' = voice_assistant_list w \<and> my_device_va w' = my_device_va w"

lemma same_outside_refl [simp]: "same_outside w w"
  by (simp add: same_outside_def)

lemma same_outside_trans: "same_outside u v \<Longrightarrow> same_outside v w \<Longrightarrow> same_outside u w"
  by (simp add: same_outside_def)

lemma voiceUi_GetFeatureState_eq: "voiceUi_GetFeatureState w =
  (if detection_suspended w then feature_state_suspended
   else if detection_active w \<or> capture_active w then feature_state_running else feature_state_idle)"
  by (cases "active_va w") (simp_all add: voiceUi_GetFeatureState_def VoiceUi_IsDetectionSuspended_def
      VoiceUi_IsActiveAssistant_def VoiceUi_IsVaActive_def)

lemma stop_capture:
  assumes "voice_ok w"
  shows "voice_ok (voiceUi_StopCapture w)" and "\<not> capture_active (voiceUi_StopCapture w)"
    and "detection_active (voiceUi_StopCapture w) = detection_active w"
    and "detection_suspended (voiceUi_StopCapture w) = detection_suspended w"
    and "detection_start_pending (voiceUi_StopCapture w) = detection_start_pending w"
    and "detection_config (voiceUi_StopCapture w) = detection_config w"
    and "active_va (voiceUi_StopCapture w) = active_va w"
    and "same_outside w (voiceUi_StopCapture w)"
  using assms
  by (cases "current_state w"; simp add: voiceUi_StopCapture_def vam_defs voice_ok_def detecting_def capturing_def
      VoiceUi_IsVaActive_def same_outside_def)+

lemma stop_detection:
  assumes "voice_ok w"
  shows "voice_ok (voiceUi_StopDetection w)" and "\<not> detection_active (voiceUi_StopDetection w)"
    and "\<not> detection_start_pending (voiceUi_StopDetection w)"
    and "capture_active (voiceUi_StopDetection w) = capture_active w"
    and "detection_suspended (voiceUi_StopDetection w) = detection_suspended w"
    and "detection_config (voiceUi_StopDetection w) = detection_config w"
    and "active_va (voiceUi_StopDetection w) = active_va w"
    and "same_outside w (voiceUi_StopDetection w)"
  using assms
  by (cases "current_state w"; simp add: voiceUi_StopDetection_def vam_defs voice_ok_def detecting_def capturing_def
      VoiceUi_IsVaActive_def same_outside_def)+

lemma start_capture:
  assumes "voice_ok w" and "\<not> detection_suspended w" and "active_va w \<noteq> None"
    and "voiceUi_StartCapture p w = (w', b)"
  shows "voice_ok w'" and "b = (\<not> capture_active w)" and "capture_active w'" and "\<not> detection_suspended w'"
    and "active_va w' = active_va w" and "same_outside w w'"
  using assms
  by (cases "current_state w"; auto simp: voiceUi_StartCapture_def vam_defs voice_ok_def detecting_def capturing_def
      VoiceUi_IsVaActive_def same_outside_def voiceUi_CaptureStarted_def)+

lemma start_detection:
  assumes "voice_ok w" and "\<not> detection_suspended w" and "active_va w \<noteq> None"
    and "voiceUi_StartDetection p w = (w', b)"
  shows "voice_ok w'" and "b = (current_state w = vam_idle)" and "b \<Longrightarrow> detection_active w'"
    and "\<not> b \<Longrightarrow> w' = w" and "\<not> detection_suspended w'" and "active_va w' = active_va w" and "same_outside w w'"
    and "detection_start_pending w' = detection_start_pending w"
  using assms
  by (cases "current_state w"; auto simp: voiceUi_StartDetection_def vam_defs voice_ok_def detecting_def capturing_def
      VoiceUi_IsVaActive_def same_outside_def)+

lemma cancel_session:
  assumes "voice_ok w"
  shows "voice_ok (voiceUi_CancelVaSession w)" and "\<not> capture_active (voiceUi_CancelVaSession w)"
    and "detection_active (voiceUi_CancelVaSession w) = detection_active w"
    and "detection_suspended (voiceUi_CancelVaSession w) = detection_suspended w"
    and "detection_start_pending (voiceUi_CancelVaSession w) = detection_start_pending w"
    and "detection_config (voiceUi_CancelVaSession w) = detection_config w"
    and "active_va (voiceUi_CancelVaSession w) = active_va w"
    and "same_outside w (voiceUi_CancelVaSession w)"
proof -
  define u where "u = (if capture_active w \<or> va_session_in_progress w then voiceUi_SendSessionCancelledInd w else w)"
  define v where "v = (if capture_active u then voiceUi_StopCapture u else u)"
  have eq: "voiceUi_CancelVaSession w = v\<lparr>va_session_in_progress := False\<rparr>"
    by (simp add: voiceUi_CancelVaSession_def VoiceUi_VaSessionReset_def u_def v_def Let_def)
  have u: "voice_ok u" "detection_active u = detection_active w" "detection_suspended u = detection_suspended w"
    "detection_start_pending u = detection_start_pending w" "detection_config u = detection_config w"
    "active_va u = active_va w" "same_outside w u"
    using assms by (auto simp: u_def voice_ok_def VoiceUi_IsVaActive_def same_outside_def)
  have v: "voice_ok v" "\<not> capture_active v" "detection_active v = detection_active u"
    "detection_suspended v = detection_suspended u" "detection_start_pending v = detection_start_pending u"
    "detection_config v = detection_config u" "active_va v = active_va u" "same_outside u v"
    using stop_capture [OF u(1)] u(1) by (auto simp: v_def)
  show "voice_ok (voiceUi_CancelVaSession w)"
    using v(1) by (auto simp: eq voice_ok_def VoiceUi_IsVaActive_def)
  show "\<not> capture_active (voiceUi_CancelVaSession w)"
    "detection_active (voiceUi_CancelVaSession w) = detection_active w"
    "detection_suspended (voiceUi_CancelVaSession w) = detection_suspended w"
    "detection_start_pending (voiceUi_CancelVaSession w) = detection_start_pending w"
    "detection_config (voiceUi_CancelVaSession w) = detection_config w"
    "active_va (voiceUi_CancelVaSession w) = active_va w"
    "same_outside w (voiceUi_CancelVaSession w)"
    using u v by (auto simp: eq same_outside_def)
qed

lemma suspend_audio:
  assumes "voice_ok w" and "\<not> detection_suspended w"
  shows "voice_ok (VoiceUi_SuspendAudio w)" and "voiceUi_GetFeatureState (VoiceUi_SuspendAudio w) \<noteq> feature_state_running"
    and "same_outside w (VoiceUi_SuspendAudio w)" and "active_va (VoiceUi_SuspendAudio w) = active_va w"
    and "detection_config (VoiceUi_SuspendAudio w) = detection_config w"
    and "detection_active w \<Longrightarrow> detection_suspended (VoiceUi_SuspendAudio w)"
proof -
  define u where "u = voiceUi_CancelVaSession w"
  define v where "v = (if detection_active u then (voiceUi_StopDetection u)\<lparr>detection_suspended := True\<rparr> else u)"
  have eq: "VoiceUi_SuspendAudio w =
    (if detection_start_pending v then v\<lparr>detection_start_pending := False, detection_suspended := True\<rparr> else v)"
    by (simp add: VoiceUi_SuspendAudio_def u_def v_def Let_def)
  note u = cancel_session [OF assms(1), folded u_def]
  have v: "voice_ok v" "\<not> capture_active v" "\<not> detection_active v" "same_outside w v" "active_va v = active_va w"
    "detection_config v = detection_config w" "detection_active w \<Longrightarrow> detection_suspended v"
  proof -
    show "voice_ok v"
    proof (cases "detection_active u")
      case True
      define x where "x = voiceUi_StopDetection u"
      note x = stop_detection [OF u(1), folded x_def]
      have "active_va x \<noteq> None"
        using u(1) True x(7) by (auto simp: voice_ok_def VoiceUi_IsVaActive_def)
      moreover have "current_state x = vam_idle"
        using x(1,2,4) u(2) by (cases "current_state x") (auto simp: voice_ok_def detecting_def capturing_def)
      ultimately show ?thesis
        using x(1,2) True unfolding v_def x_def [symmetric] by (auto simp: voice_ok_def VoiceUi_IsVaActive_def)
    qed (use u(1) in \<open>simp add: v_def\<close>)
  qed (use u stop_detection [OF u(1)] in \<open>auto simp: v_def same_outside_def\<close>)
  have idle: "current_state v = vam_idle"
    using v(1-3) by (cases "current_state v") (auto simp: voice_ok_def detecting_def capturing_def)
  show "voice_ok (VoiceUi_SuspendAudio w)"
    using v(1) idle by (auto simp: eq voice_ok_def VoiceUi_IsVaActive_def)
  show "voiceUi_GetFeatureState (VoiceUi_SuspendAudio w) \<noteq> feature_state_running"
    using v(2,3) by (auto simp: eq voiceUi_GetFeatureState_eq)
  show "same_outside w (VoiceUi_SuspendAudio w)" "active_va (VoiceUi_SuspendAudio w) = active_va w"
    "detection_config (VoiceUi_SuspendAudio w) = detection_config w"
    "detection_active w \<Longrightarrow> detection_suspended (VoiceUi_SuspendAudio w)"
    using v by (auto simp: eq same_outside_def)
qed

lemma resume_audio:
  assumes "voice_ok w" and "detection_suspended w"
  shows "\<exists>w'. VoiceUi_ResumeAudio w = Inr w' \<and> voice_ok w' \<and> detection_active w' \<and> \<not> detection_suspended w' \<and>
    same_outside w w' \<and> active_va w' = active_va w \<and> detection_config w' = detection_config w \<and>
    StartWakeUpWordDetection (detection_config w) \<in> set (outputs w')"
proof -
  have idle: "current_state w = vam_idle"
    using assms by (simp add: voice_ok_def)
  have out: "StartWakeUpWordDetection p \<in> set (outputs (link_policy_update u))"
    if "StartWakeUpWordDetection p \<in> set (outputs u)" for p u
    using that by (auto simp: link_policy_update_def emit_def split: option.splits)
  show ?thesis
    using assms idle
    by (auto simp: VoiceUi_ResumeAudio_def voiceUi_StartDetection_def vam_defs voice_ok_def detecting_def capturing_def
        VoiceUi_IsVaActive_def same_outside_def intro!: out) (auto simp: emit_def)
qed

text \<open>The contract of the feature manager, on the headset's own clients.\<close>

lemma headset_coherent: "coherent Headset_GetFeatureManagerPriorityLists"
  by code_simp

interpretation hf: features headset_fm Headset_GetFeatureManagerPriorityLists headset_feature voice_ok
proof unfold_locales
  show "coherent Headset_GetFeatureManagerPriorityLists"
    by (rule headset_coherent)
  show "priority_lists headset_fm = Some Headset_GetFeatureManagerPriorityLists"
    by (simp add: headset_fm_def)
next
  fix i c
  assume "feature_handles headset_fm i = Some c"
  then show "client_id c = i \<and> (\<exists>itf. client_interface c = Some itf \<and> GetState itf = Some (headset_feature i) \<and>
      ((\<exists>h. before Headset_GetFeatureManagerPriorityLists h i) \<longrightarrow> Suspend itf \<noteq> None \<and> Resume itf \<noteq> None))"
    by (cases i) (auto simp: headset_fm_def voice_feature_manager_if_def analog_audio_feature_manager_if_def
        voice_ui_feature_manager_if_def fun_eq_iff audioRouter_GetVoiceFeatureState_def
        wiredAudioSource_GetFeatureState_def before_def Headset_GetFeatureManagerPriorityLists_def)
next
  fix i c f w
  assume c: "feature_handles headset_fm i = Some c" "Option.bind (client_interface c) Suspend = Some f"
    and w: "voice_ok w" "headset_feature i w = feature_state_running"
  have i: "i = feature_id_va" and f: "f = (\<lambda>w. Inr (VoiceUi_SuspendAudio w))"
    using c by (cases i; auto simp: headset_fm_def voice_feature_manager_if_def analog_audio_feature_manager_if_def
        voice_ui_feature_manager_if_def)+
  have "\<not> detection_suspended w"
    using w(2) i by (auto simp: voiceUi_GetFeatureState_eq split: if_splits)
  note s = suspend_audio [OF w(1) this]
  have "headset_feature j (VoiceUi_SuspendAudio w) = headset_feature j w" if "j \<noteq> i" for j
    using that s(3) i by (cases j) (auto simp: same_outside_def)
  then show "\<exists>w'. f w = Inr w' \<and> voice_ok w' \<and> headset_feature i w' \<noteq> feature_state_running \<and>
      (\<forall>j. j \<noteq> i \<longrightarrow> headset_feature j w' = headset_feature j w)"
    using s(1,2) i f by simp
next
  fix i c f w
  assume c: "feature_handles headset_fm i = Some c" "Option.bind (client_interface c) Resume = Some f"
    and w: "voice_ok w" "headset_feature i w = feature_state_suspended"
  have i: "i = feature_id_va" and f: "f = VoiceUi_ResumeAudio"
    using c by (cases i; auto simp: headset_fm_def voice_feature_manager_if_def analog_audio_feature_manager_if_def
        voice_ui_feature_manager_if_def)+
  have "detection_suspended w"
    using w(2) i by (auto simp: voiceUi_GetFeatureState_eq split: if_splits)
  then obtain w' where w': "VoiceUi_ResumeAudio w = Inr w'" "voice_ok w'" "detection_active w'"
    "\<not> detection_suspended w'" "same_outside w w'"
    using resume_audio [OF w(1)] by blast
  have "headset_feature j w' = headset_feature j w" if "j \<noteq> i" for j
    using that w'(5) i by (cases j) (auto simp: same_outside_def)
  then show "\<exists>w'. f w = Inr w' \<and> voice_ok w' \<and> headset_feature i w' = feature_state_running \<and>
      (\<forall>j. j \<noteq> i \<longrightarrow> headset_feature j w' = headset_feature j w)"
    using w' i f by (auto simp: voiceUi_GetFeatureState_eq)
qed

section \<open>The invariant\<close>

definition voice_inv :: "voice_world \<Rightarrow> bool" where
  "voice_inv w \<longleftrightarrow> voice_ok w \<and>
     exclusive headset_fm Headset_GetFeatureManagerPriorityLists headset_feature w \<and>
     waiting headset_fm Headset_GetFeatureManagerPriorityLists headset_feature w"

text \<open>The microphone is free for the assistant.\<close>

definition mic_free :: "voice_world \<Rightarrow> bool" where
  "mic_free w \<longleftrightarrow> voice_feature_state w \<noteq> feature_state_running \<and> analog_audio_feature_state w \<noteq> feature_state_running"

lemma headset_before: "before Headset_GetFeatureManagerPriorityLists i j \<longleftrightarrow>
  j = feature_id_va \<and> (i = feature_id_sco \<or> i = feature_id_wired_analog_audio)"
  by (cases i; cases j) (simp_all add: before_def Headset_GetFeatureManagerPriorityLists_def)

lemma headset_registered: "feature_handles headset_fm i \<noteq> None \<longleftrightarrow> i \<noteq> feature_id_handset_multipoint"
  by (cases i) (simp_all add: headset_fm_def)

lemma all_features: "(\<forall>i. P i) \<longleftrightarrow>
  P feature_id_sco \<and> P feature_id_va \<and> P feature_id_handset_multipoint \<and> P feature_id_wired_analog_audio"
  by (metis feature_id.exhaust)

lemma voice_inv_iff: "voice_inv w \<longleftrightarrow> voice_ok w \<and>
  voice_feature_state w \<noteq> feature_state_suspended \<and> analog_audio_feature_state w \<noteq> feature_state_suspended \<and>
  (if mic_free w then \<not> detection_suspended w else \<not> detection_active w \<and> \<not> capture_active w)"
proof (cases "voice_ok w")
  case True
  then have idle: "\<not> detection_active w \<and> \<not> capture_active w" if "detection_suspended w"
    using that by (simp add: voice_ok_def detecting_def capturing_def)
  have excl: "exclusive headset_fm Headset_GetFeatureManagerPriorityLists headset_feature w \<longleftrightarrow>
      (mic_free w \<or> voiceUi_GetFeatureState w \<noteq> feature_state_running)"
    unfolding exclusive_def runs_def headset_registered headset_before mic_free_def by auto
  have wait: "waiting headset_fm Headset_GetFeatureManagerPriorityLists headset_feature w \<longleftrightarrow>
      voice_feature_state w \<noteq> feature_state_suspended \<and> analog_audio_feature_state w \<noteq> feature_state_suspended \<and>
      (mic_free w \<longrightarrow> voiceUi_GetFeatureState w \<noteq> feature_state_suspended)"
    unfolding waiting_def runs_def waits_def headset_registered headset_before mic_free_def all_features by auto
  show ?thesis
    unfolding voice_inv_def excl wait using True idle by (auto simp: voiceUi_GetFeatureState_eq)
qed (simp add: voice_inv_def)

lemma va_start: "FeatureManager_StartFeatureRequest headset_fm (feature_handles headset_fm feature_id_va) w = Inr (w, mic_free w)"
  by (simp add: FeatureManager_StartFeatureRequest_def headset_fm_def Headset_GetFeatureManagerPriorityLists_def
      featureManager_IsHigherPriorityFeatureRunning_def higher_running_on_list_def
      featureManager_GetIndexForFeatureInPriorityList_def featureManager_GetClientFromId_def feature_ids_def
      client_GetState_def voice_feature_manager_if_def analog_audio_feature_manager_if_def mic_free_def
      featureManager_PerformActionOnLowerPriorityFeatures_def action_on_list_def
      audioRouter_GetVoiceFeatureState_def wiredAudioSource_GetFeatureState_def)

lemma va_stop: "FeatureManager_StopFeatureIndication headset_fm (feature_handles headset_fm feature_id_va) w = Inr w"
  by (simp add: FeatureManager_StopFeatureIndication_def headset_fm_def Headset_GetFeatureManagerPriorityLists_def
      featureManager_GetIndexForFeatureInPriorityList_def
      featureManager_PerformActionOnLowerPriorityFeatures_def action_on_list_def)

lemma voice_ok_other [simp]:
  "voice_ok (emit o1 w) = voice_ok w" "voice_ok (w\<lparr>voice_feature_state := x\<rparr>) = voice_ok w"
  "voice_ok (w\<lparr>analog_audio_feature_state := x\<rparr>) = voice_ok w"
  "voice_ok (w\<lparr>detection_config := d\<rparr>) = voice_ok w" "voice_ok (w\<lparr>va_session_in_progress := b\<rparr>) = voice_ok w"
  "voice_ok (w\<lparr>va_session_ending := b\<rparr>) = voice_ok w" "voice_ok (w\<lparr>voice_assistant_list := l\<rparr>) = voice_ok w"
  "voice_ok (w\<lparr>my_device_va := m\<rparr>) = voice_ok w"
  "voice_ok (w\<lparr>my_va_flags := f\<rparr>) = voice_ok w" "voice_ok (w\<lparr>my_va_locale := lc\<rparr>) = voice_ok w"
  by (simp_all add: voice_ok_def VoiceUi_IsVaActive_def)

lemma mic_free_other [simp]:
  "mic_free (emit o1 w) = mic_free w" "mic_free (w\<lparr>detection_config := d\<rparr>) = mic_free w"
  "mic_free (w\<lparr>va_session_in_progress := b\<rparr>) = mic_free w" "mic_free (w\<lparr>va_session_ending := b\<rparr>) = mic_free w"
  "mic_free (w\<lparr>voice_assistant_list := l\<rparr>) = mic_free w" "mic_free (w\<lparr>my_device_va := m\<rparr>) = mic_free w"
  "mic_free (w\<lparr>my_va_flags := f\<rparr>) = mic_free w" "mic_free (w\<lparr>my_va_locale := lc\<rparr>) = mic_free w"
  "mic_free (w\<lparr>active_va := h\<rparr>) = mic_free w" "mic_free (w\<lparr>detection_start_pending := b\<rparr>) = mic_free w"
  "mic_free (w\<lparr>detection_suspended := b\<rparr>) = mic_free w"
  by (simp_all add: mic_free_def)

lemma voice_inv_other [simp]:
  "voice_inv (emit o1 w) = voice_inv w" "voice_inv (w\<lparr>detection_config := d\<rparr>) = voice_inv w"
  "voice_inv (w\<lparr>va_session_in_progress := b\<rparr>) = voice_inv w" "voice_inv (w\<lparr>va_session_ending := b\<rparr>) = voice_inv w"
  "voice_inv (w\<lparr>voice_assistant_list := l\<rparr>) = voice_inv w" "voice_inv (w\<lparr>my_device_va := m\<rparr>) = voice_inv w"
  "voice_inv (w\<lparr>my_va_flags := f\<rparr>) = voice_inv w" "voice_inv (w\<lparr>my_va_locale := lc\<rparr>) = voice_inv w"
  by (simp_all add: voice_inv_iff)

lemma same_outside_mic_free: "same_outside w w' \<Longrightarrow> mic_free w' = mic_free w"
  by (simp add: same_outside_def mic_free_def)

lemma voice_inv_same:
  "voice_inv w \<Longrightarrow> voice_ok w' \<Longrightarrow> same_outside w w' \<Longrightarrow>
   (mic_free w \<Longrightarrow> \<not> detection_suspended w') \<Longrightarrow> (\<not> mic_free w \<Longrightarrow> \<not> detection_active w' \<and> \<not> capture_active w') \<Longrightarrow>
   voice_inv w'"
  unfolding voice_inv_iff using same_outside_mic_free [of w w'] by (auto simp: same_outside_def)

subsection \<open>Calls and the analog input\<close>

lemma sco_reg: "\<exists>c. feature_handles headset_fm feature_id_sco = Some c"
  and analog_reg: "\<exists>c. feature_handles headset_fm feature_id_wired_analog_audio = Some c"
  by (simp_all add: headset_fm_def)

lemma first_feature_start:
  assumes "voice_inv w" and "i = feature_id_sco \<or> i = feature_id_wired_analog_audio"
  obtains w1 c where "feature_handles headset_fm i = Some c"
    and "FeatureManager_StartFeatureRequest headset_fm (Some c) w = Inr (w1, True)" and "voice_ok w1"
proof -
  obtain c where c: "feature_handles headset_fm i = Some c"
    using assms(2) sco_reg analog_reg by blast
  have none: "(\<not> (\<exists>h. before Headset_GetFeatureManagerPriorityLists h i \<and> runs headset_fm headset_feature w h)) = True"
    using assms(2) by (auto simp: headset_before)
  have "voice_ok w"
    using assms(1) by (simp add: voice_inv_def)
  then obtain w1 where "FeatureManager_StartFeatureRequest headset_fm (Some c) w = Inr (w1, True)" "voice_ok w1"
    using hf.start_request [OF c, of w] unfolding none by blast
  then show thesis
    using that c by blast
qed

lemma connect_voice:
  assumes "voice_inv w"
  shows "\<exists>w'. audioRouter_CommonConnectVoiceSource (headset_env p wi) v params w = Inr (w', params) \<and> voice_inv w'"
proof -
  obtain w1 c where c: "feature_handles headset_fm feature_id_sco = Some c"
    and w1: "FeatureManager_StartFeatureRequest headset_fm (Some c) w = Inr (w1, True)" "voice_ok w1"
    using first_feature_start [OF assms] by blast
  show ?thesis
  proof (cases params)
    case True
    let ?w2 = "emit (ConnectVoice v) (w1\<lparr>voice_feature_state := feature_state_running\<rparr>)"
    have "headset_feature j ?w2 = headset_feature j w1" if "j \<noteq> feature_id_sco" for j
      using that by (cases j) (simp_all add: voiceUi_GetFeatureState_eq)
    then have "voice_inv ?w2"
      using hf.granted_keeps [OF c _ _ _ w1(1), of ?w2] assms w1(2) unfolding voice_inv_def by simp
    then show ?thesis
      using w1 c True by (simp add: audioRouter_CommonConnectVoiceSource_def)
  next
    case False
    then show ?thesis
      using hf.given_up_keeps [OF c _ _ _ w1(1)] assms w1 c
      unfolding voice_inv_def by (auto simp: audioRouter_CommonConnectVoiceSource_def)
  qed
qed

lemma disconnect_voice:
  assumes "voice_inv w"
  shows "\<exists>w'. audioRouter_CommonDisconnectVoiceSource (headset_env p wi) v params w = Inr (w', params) \<and> voice_inv w'"
proof -
  let ?w0 = "(emit (DisconnectVoice v) w)\<lparr>voice_feature_state := feature_state_idle\<rparr>"
  obtain c where c: "feature_handles headset_fm feature_id_sco = Some c"
    using sco_reg by blast
  have "headset_feature j ?w0 = headset_feature j w" if "j \<noteq> feature_id_sco" for j
    using that by (cases j) (simp_all add: voiceUi_GetFeatureState_eq)
  then show ?thesis
    using hf.stopped_keeps [OF c, of ?w0 w] assms c unfolding voice_inv_def
    by (auto simp: audioRouter_CommonDisconnectVoiceSource_def)
qed

lemma wired_set_state:
  assumes "voice_inv w"
  shows "\<exists>w'. wiredAudio_SetState (headset_env p wi) state w = Inr (w', True) \<and> voice_inv w'"
proof (cases state)
  case source_state_connecting
  obtain w1 c where c: "feature_handles headset_fm feature_id_wired_analog_audio = Some c"
    and w1: "FeatureManager_StartFeatureRequest headset_fm (Some c) w = Inr (w1, True)" "voice_ok w1"
    using first_feature_start [OF assms] by blast
  let ?w2 = "w1\<lparr>analog_audio_feature_state := feature_state_running\<rparr>"
  have "headset_feature j ?w2 = headset_feature j w1" if "j \<noteq> feature_id_wired_analog_audio" for j
    using that by (cases j) (simp_all add: voiceUi_GetFeatureState_eq)
  then have "voice_inv ?w2"
    using hf.granted_keeps [OF c _ _ _ w1(1), of ?w2] assms w1(2) unfolding voice_inv_def by simp
  then show ?thesis
    using w1 c source_state_connecting
    by (simp add: wiredAudio_SetState_def WiredAudioSource_StartFeature_def WiredAudioSource_SetFeatureState_def)
next
  case source_state_disconnecting
  let ?w0 = "w\<lparr>analog_audio_feature_state := feature_state_idle\<rparr>"
  obtain c where c: "feature_handles headset_fm feature_id_wired_analog_audio = Some c"
    using analog_reg by blast
  have "headset_feature j ?w0 = headset_feature j w" if "j \<noteq> feature_id_wired_analog_audio" for j
    using that by (cases j) (simp_all add: voiceUi_GetFeatureState_eq)
  then show ?thesis
    using hf.stopped_keeps [OF c, of ?w0 w] assms c source_state_disconnecting unfolding voice_inv_def
    by (auto simp: wiredAudio_SetState_def WiredAudioSource_StopFeature_def WiredAudioSource_SetFeatureState_def)
qed (use assms in \<open>auto simp: wiredAudio_SetState_def\<close>)

subsection \<open>The voice assistants\<close>

lemma update_stopped [simp]: "voiceUi_UpdateFeatureStoppedState (headset_env p wi) w = Inr w"
  by (simp add: voiceUi_UpdateFeatureStoppedState_def va_stop)

lemma voice_inv_ok: "voice_inv w \<Longrightarrow> voice_ok w"
  by (simp add: voice_inv_def)

lemma stop_capture_inv:
  assumes "voice_inv w"
  shows "voice_inv (voiceUi_StopCapture w)"
  using stop_capture [OF voice_inv_ok [OF assms]] assms
  by (intro voice_inv_same [OF assms]) (auto simp: voice_inv_iff)

lemma stop_detection_inv:
  assumes "voice_inv w"
  shows "voice_inv (voiceUi_StopDetection w)"
  using stop_detection [OF voice_inv_ok [OF assms]] assms
  by (intro voice_inv_same [OF assms]) (auto simp: voice_inv_iff)

lemma cancel_session_inv:
  assumes "voice_inv w"
  shows "voice_inv (voiceUi_CancelVaSession w)"
  using cancel_session [OF voice_inv_ok [OF assms]] assms
  by (intro voice_inv_same [OF assms]) (auto simp: voice_inv_iff)

lemma unroute_audio:
  assumes "voice_ok w"
  shows "\<exists>w'. VoiceUi_UnrouteAudio (headset_env p wi) w = Inr w' \<and> voice_ok w' \<and> same_outside w w' \<and>
    \<not> detection_suspended w' \<and> \<not> VoiceUi_IsVaActive w' \<and> \<not> detection_start_pending w'"
proof -
  define u where "u = voiceUi_StopDetection (voiceUi_StopCapture w)"
  note c = stop_capture [OF assms]
  note u = stop_detection [OF c(1), folded u_def]
  have "same_outside w u"
    using c(8) u(8) same_outside_trans by blast
  moreover have "\<not> capture_active u"
    using c(2) u(4) by simp
  ultimately show ?thesis
    using u(1,2,3) unfolding VoiceUi_UnrouteAudio_def u_def [symmetric] update_stopped
    by (auto simp: voice_ok_def VoiceUi_IsVaActive_def same_outside_def)
qed

lemma set_active_va:
  assumes "voice_inv w"
  shows "\<exists>w'. voiceUi_SetActiveVa (headset_env p wi) va w = Inr w' \<and> voice_inv w' \<and> active_va w' = va \<and>
    voice_assistant_list w' = voice_assistant_list w \<and> my_device_va w' = my_device_va w"
proof (cases "active_va w = va")
  case True
  then show ?thesis
    using assms by (auto simp: voiceUi_SetActiveVa_def intro!: exI [of _ w])
next
  case False
  obtain u where u: "VoiceUi_UnrouteAudio (headset_env p wi) w = Inr u" "voice_ok u" "same_outside w u"
    "\<not> detection_suspended u" "\<not> VoiceUi_IsVaActive u" "\<not> detection_start_pending u"
    using unroute_audio [OF voice_inv_ok [OF assms]] by blast
  have "voice_inv u"
    using u assms by (intro voice_inv_same [OF assms]) (auto simp: VoiceUi_IsVaActive_def)
  then have "voice_inv (u\<lparr>active_va := va\<rparr>)"
    using u(4-6) by (auto simp: voice_inv_iff voice_ok_def VoiceUi_IsVaActive_def)
  moreover have "emit AudioRouterUpdate (u\<lparr>va_session_in_progress := False\<rparr>)\<lparr>active_va := va\<rparr> =
      emit AudioRouterUpdate (u\<lparr>active_va := va\<rparr>\<lparr>va_session_in_progress := False\<rparr>)"
    by (simp add: emit_def)
  ultimately have "voice_inv (emit AudioRouterUpdate (u\<lparr>va_session_in_progress := False\<rparr>)\<lparr>active_va := va\<rparr>)"
    by (simp only: voice_inv_other)
  then show ?thesis
    using u(1,3) False by (auto simp: voiceUi_SetActiveVa_def VoiceUi_VaSessionReset_def same_outside_def)
qed

lemma start_audio_capture:
  assumes "voice_inv w"
  shows "\<exists>w' st. VoiceUi_StartAudioCapture (headset_env p wi) h c w = Inr (w', st) \<and> voice_inv w' \<and> same_outside w w' \<and>
    active_va w' = active_va w \<and>
    st = (if \<not> VoiceUi_IsActiveAssistant h w then voice_ui_audio_not_active
          else if \<not> mic_free w then voice_ui_audio_suspended
          else if capture_active w then voice_ui_audio_failed else voice_ui_audio_success) \<and>
    (st = voice_ui_audio_success \<longrightarrow> capture_active w') \<and> (st \<noteq> voice_ui_audio_success \<longrightarrow> w' = w)"
proof (cases "VoiceUi_IsActiveAssistant h w \<and> mic_free w")
  case True
  have susp: "\<not> detection_suspended w"
    using assms True by (simp add: voice_inv_iff)
  have act: "active_va w \<noteq> None"
    using True by (cases "active_va w") (auto simp: VoiceUi_IsActiveAssistant_def)
  obtain w' b where w': "voiceUi_StartCapture c w = (w', b)"
    by fastforce
  note r = start_capture [OF voice_inv_ok [OF assms] susp act w']
  have "voice_inv w'"
    using voice_inv_same [OF assms r(1,6)] r(4) True by auto
  moreover have "w' = w" if "\<not> b"
    using w' that by (auto simp: voiceUi_StartCapture_def VoiceAudioManager_StartCapture_def
        VoiceAudioManager_UpdateState_def split: option.splits if_splits prod.splits bool.splits)
  ultimately show ?thesis
    using r w' True by (cases b) (auto simp: VoiceUi_StartAudioCapture_def va_start)
next
  case False
  then show ?thesis
    using assms by (auto simp: VoiceUi_StartAudioCapture_def va_start)
qed

text \<open>
  What remains of a request to detect: it detects at once, waits for the capture that is going on,
  or waits for the microphone to be free; the parameters are kept for then.
\<close>

lemma start_wuw:
  assumes "voice_inv w" and "active_va w \<noteq> None" and "\<not> detection_active w"
  shows "\<exists>w' st. start_wuw_detection (headset_env p wi) d w = Inr (w', st) \<and> voice_inv w' \<and> same_outside w w' \<and>
    active_va w' = active_va w \<and> detection_config w' = d \<and>
    st = (if mic_free w then voice_ui_audio_success else voice_ui_audio_suspended) \<and>
    detection_active w' = (mic_free w \<and> \<not> capture_active w) \<and>
    (mic_free w \<and> capture_active w \<longrightarrow> detection_start_pending w') \<and> detection_suspended w' = (\<not> mic_free w)"
proof (cases "mic_free w")
  case True
  have susp: "\<not> detection_suspended w"
    using assms(1) True by (simp add: voice_inv_iff)
  obtain w' b where w': "voiceUi_StartDetection d w = (w', b)"
    by fastforce
  note r = start_detection [OF voice_inv_ok [OF assms(1)] susp assms(2) w']
  have inv: "voice_inv w'"
    using voice_inv_same [OF assms(1) r(1,7)] r(5) True by auto
  have b: "b = (\<not> capture_active w)"
    using r(2) voice_inv_ok [OF assms(1)] assms(3)
    by (cases "current_state w") (auto simp: voice_ok_def detecting_def capturing_def)
  show ?thesis
  proof (cases b)
    case True
    then show ?thesis
      using w' r inv b \<open>mic_free w\<close> by (auto simp: start_wuw_detection_def va_start same_outside_def)
  next
    case False
    then have "w' = w" "capture_active w"
      using r(4) b by auto
    moreover have "voice_inv (w\<lparr>detection_config := d, detection_start_pending := True\<rparr>)"
      using assms by (auto simp: voice_inv_iff voice_ok_def VoiceUi_IsVaActive_def)
    ultimately show ?thesis
      using w' False assms \<open>mic_free w\<close> susp by (auto simp: start_wuw_detection_def va_start same_outside_def)
  qed
next
  case False
  then have "\<not> detection_active w" "\<not> capture_active w"
    using assms(1) by (auto simp: voice_inv_iff)
  then have "current_state w = vam_idle"
    using voice_inv_ok [OF assms(1)] by (cases "current_state w") (auto simp: voice_ok_def detecting_def capturing_def)
  then have "voice_inv (w\<lparr>detection_config := d, detection_suspended := True\<rparr>)"
    using assms(1,2) False by (auto simp: voice_inv_iff voice_ok_def VoiceUi_IsVaActive_def)
  then show ?thesis
    using False assms by (auto simp: start_wuw_detection_def va_start same_outside_def)
qed

lemma start_wake_up_word_detection:
  assumes "voice_inv w"
  shows "\<exists>w' st. VoiceUi_StartWakeUpWordDetection (headset_env p wi) h d w = Inr (w', st) \<and> voice_inv w' \<and>
    same_outside w w' \<and> active_va w' = active_va w"
proof (cases "VoiceUi_IsActiveAssistant h w")
  case True
  then have act: "active_va w \<noteq> None"
    by (cases "active_va w") (auto simp: VoiceUi_IsActiveAssistant_def)
  note s = stop_detection [OF voice_inv_ok [OF assms]]
  have act': "active_va (voiceUi_StopDetection w) \<noteq> None"
    using act s(7) by simp
  show ?thesis
    using start_wuw [OF assms act, of p wi d] start_wuw [OF stop_detection_inv [OF assms] act' s(2), of p wi d]
      same_outside_trans [OF s(8)] s(7) assms True
    by (auto simp: VoiceUi_StartWakeUpWordDetection_def)
next
  case False
  then show ?thesis
    using assms by (auto simp: VoiceUi_StartWakeUpWordDetection_def)
qed

lemma pending_false_inv: "voice_inv w \<Longrightarrow> voice_inv (w\<lparr>detection_start_pending := False\<rparr>)"
  by (auto simp: voice_inv_iff voice_ok_def VoiceUi_IsVaActive_def)

lemma stop_audio_capture:
  assumes "voice_inv w"
  shows "\<exists>w'. VoiceUi_StopAudioCapture (headset_env p wi) h w = Inr w' \<and> voice_inv w' \<and> same_outside w w' \<and>
    active_va w' = active_va w"
proof -
  define u where "u = voiceUi_StopCapture w"
  note u = stop_capture [OF voice_inv_ok [OF assms], folded u_def] and ui = stop_capture_inv [OF assms, folded u_def]
  obtain v st where v: "VoiceUi_StartWakeUpWordDetection (headset_env p wi) h (detection_config u) u = Inr (v, st)"
    "voice_inv v" "same_outside u v" "active_va v = active_va u"
    using start_wake_up_word_detection [OF ui] by blast
  have "same_outside w v"
    using same_outside_trans [OF u(8) v(3)] .
  then show ?thesis
    using assms ui u v pending_false_inv [OF v(2)]
    by (auto simp: VoiceUi_StopAudioCapture_def u_def [symmetric] Let_def same_outside_def)
qed

lemma stop_wake_up_word_detection:
  assumes "voice_inv w"
  shows "\<exists>w'. VoiceUi_StopWakeUpWordDetection (headset_env p wi) h w = Inr w' \<and> voice_inv w' \<and> same_outside w w' \<and>
    active_va w' = active_va w"
proof -
  have drop: "voice_inv (v\<lparr>detection_suspended := False\<rparr>)" if "voice_inv v" for v
    using that by (auto simp: voice_inv_iff voice_ok_def VoiceUi_IsVaActive_def)
  show ?thesis
    using drop [OF assms] drop [OF stop_detection_inv [OF assms]] stop_detection [OF voice_inv_ok [OF assms]]
    by (auto simp: VoiceUi_StopWakeUpWordDetection_def same_outside_def)
qed

subsection \<open>Registration and selection\<close>

definition registered_ok :: "voice_world \<Rightarrow> bool" where
  "registered_ok w \<longleftrightarrow> active_va w = None \<or> active_va w \<in> set (voice_assistant_list w)"

lemma register_inv:
  assumes "voice_inv w" and "registered_ok w" and "VoiceUi_Register (headset_env p wi) itf w = Inr (w', h)"
  shows "voice_inv w' \<and> registered_ok w'"
proof -
  obtain i where i: "find_index (\<lambda>h. h = None) (voice_assistant_list w) = Some i"
    using assms(3) by (cases "find_index (\<lambda>h. h = None) (voice_assistant_list w)") (simp_all add: VoiceUi_Register_def)
  have free: "i < length (voice_assistant_list w)" "voice_assistant_list w ! i = None"
    using i by (auto dest: find_index_SomeD)
  define u where "u = w\<lparr>voice_assistant_list := (voice_assistant_list w)[i := Some (i, itf)]\<rparr>"
  have u: "voice_inv u"
    using assms(1) by (simp add: u_def)
  have kept: "x \<in> set ((voice_assistant_list w)[i := Some (i, itf)])" if "x \<in> set (voice_assistant_list w)" "x \<noteq> None" for x
    using that free by (metis in_set_conv_nth length_list_update nth_list_update_neq)
  obtain v where v: "voiceUi_SetActiveVa (headset_env p wi) (Some (i, itf)) u = Inr v" "voice_inv v"
    "active_va v = Some (i, itf)" "voice_assistant_list v = voice_assistant_list u"
    using set_active_va [OF u] by blast
  have cases: "w' = v \<or> w' = u"
    using assms(3) i v(1) by (auto simp: VoiceUi_Register_def u_def Let_def split: if_splits)
  have "registered_ok v"
    using v(3,4) free(1) by (auto simp: registered_ok_def u_def set_update_memI)
  moreover have "registered_ok u"
    using assms(2) kept [of "active_va w"] by (cases "active_va w") (simp_all add: registered_ok_def u_def)
  ultimately show ?thesis
    using cases u v(2) by blast
qed

lemma deselect:
  assumes "voice_inv w"
  shows "\<exists>w'. VoiceUi_DeselectCurrentAssistant (headset_env p wi) w = Inr w' \<and> voice_inv w' \<and>
    voice_assistant_list w' = voice_assistant_list w \<and> my_device_va w' = my_device_va w \<and>
    (active_va w' = None \<or> active_va w' = active_va w)"
proof (cases "active_va w")
  case (Some a)
  then show ?thesis
    using assms set_active_va [of "emit (VaDeselected (fst a)) w" p wi None]
    by (cases a) (auto simp: VoiceUi_DeselectCurrentAssistant_def)
qed (use assms in \<open>auto simp: VoiceUi_DeselectCurrentAssistant_def\<close>)

lemma find_handle_mem: "voiceUi_FindHandleForProvider w p = Some (i, itf) \<Longrightarrow>
  Some (i, itf) \<in> set (voice_assistant_list w) \<and> va_provider itf = p"
proof -
  assume "voiceUi_FindHandleForProvider w p = Some (i, itf)"
  then have "find (\<lambda>h. case h of None \<Rightarrow> False | Some (_, itf) \<Rightarrow> va_provider itf = p) (voice_assistant_list w) =
      Some (Some (i, itf))"
    by (simp add: voiceUi_FindHandleForProvider_def bind_eq_Some_conv)
  then obtain k where k: "k < length (voice_assistant_list w)" "Some (i, itf) = voice_assistant_list w ! k"
    "case voice_assistant_list w ! k of None \<Rightarrow> False | Some (_, itf) \<Rightarrow> va_provider itf = p"
    unfolding find_Some_iff by blast
  have "va_provider itf = p"
    using k(3) unfolding k(2) [symmetric] by simp
  then show ?thesis
    using k(1,2) nth_mem by metis
qed

lemma set_selected_interface:
  assumes "voice_inv w" and "VoiceUi_SetSelectedVoiceAssistantInterface (headset_env q wi) p w = Inr w'"
  shows "voice_inv w' \<and> registered_ok w' \<and> voice_assistant_list w' = voice_assistant_list w \<and>
    my_device_va w' = my_device_va w \<and> (\<exists>i itf. active_va w' = Some (i, itf) \<and> va_provider itf = p)"
proof -
  obtain i itf where h: "voiceUi_FindHandleForProvider w p = Some (i, itf)"
    using assms(2) by (cases "voiceUi_FindHandleForProvider w p")
      (auto simp: VoiceUi_SetSelectedVoiceAssistantInterface_def res_simps)
  obtain v where v: "voiceUi_SetActiveVa (headset_env q wi) (Some (i, itf)) w = Inr v" "voice_inv v"
    "active_va v = Some (i, itf)" "voice_assistant_list v = voice_assistant_list w" "my_device_va v = my_device_va w"
    using set_active_va [OF assms(1)] by blast
  have "w' = VoiceUi_GetBatteryUpdate (emit (VaSelected i) v)"
    using assms(2) h v(1) by (auto simp: VoiceUi_SetSelectedVoiceAssistantInterface_def res_simps split: if_splits)
  then show ?thesis
    using v find_handle_mem [OF h] by (auto simp: VoiceUi_GetBatteryUpdate_def registered_ok_def)
qed

text \<open>
  A successful selection makes an assistant of the provider active and the provider the property
  of the device, unless there is no device yet or no assistant was asked for.
\<close>

lemma select_inv:
  assumes "voice_inv w" and "registered_ok w"
    and "VoiceUi_SelectVoiceAssistant (headset_env q wi) p reboot w = Inr (w', status)"
  shows "voice_inv w' \<and> registered_ok w' \<and> (status \<longrightarrow> my_device_va w \<noteq> None \<longrightarrow> my_device_va w' = Some (Some p)) \<and>
    (status \<longrightarrow> p \<noteq> voice_ui_provider_none \<longrightarrow>
      active_va w' = active_va w \<and> p = VoiceUi_GetSelectedAssistant (headset_env q wi) w \<or>
      (\<exists>i itf. active_va w' = Some (i, itf) \<and> va_provider itf = p)) \<and>
    (\<not> status \<longrightarrow> w' = w)"
proof -
  obtain d where d: "VoiceUi_DeselectCurrentAssistant (headset_env q wi) w = Inr d" "voice_inv d"
    "voice_assistant_list d = voice_assistant_list w" "my_device_va d = my_device_va w"
    "active_va d = None \<or> active_va d = active_va w"
    using deselect [OF assms(1)] by blast
  have fin: "voice_inv (if b then emit RebootLater (VoiceUi_SetSelectedAssistant p x) else VoiceUi_SetSelectedAssistant p x)"
    "registered_ok (if b then emit RebootLater (VoiceUi_SetSelectedAssistant p x) else VoiceUi_SetSelectedAssistant p x)"
    "active_va (if b then emit RebootLater (VoiceUi_SetSelectedAssistant p x) else VoiceUi_SetSelectedAssistant p x) = active_va x"
    "my_device_va x \<noteq> None \<Longrightarrow>
      my_device_va (if b then emit RebootLater (VoiceUi_SetSelectedAssistant p x) else VoiceUi_SetSelectedAssistant p x) = Some (Some p)"
    if "voice_inv x" "registered_ok x" for x b
    using that by (auto simp: VoiceUi_SetSelectedAssistant_def registered_ok_def split: option.splits)
  consider (same) "active_va w \<noteq> None" "p = VoiceUi_GetSelectedAssistant (headset_env q wi) w"
      "w' = VoiceUi_SetSelectedAssistant p w" status
    | (none) "p = voice_ui_provider_none" "w' = VoiceUi_SetSelectedAssistant p d" status
    | (other) x b where "VoiceUi_SetSelectedVoiceAssistantInterface (headset_env q wi) p d = Inr x" status
        "w' = (if b then emit RebootLater (VoiceUi_SetSelectedAssistant p x) else VoiceUi_SetSelectedAssistant p x)"
    | (fail) "w' = w" "\<not> status"
  proof (cases "active_va w \<noteq> None \<and> p = VoiceUi_GetSelectedAssistant (headset_env q wi) w")
    case True
    then show ?thesis
      using same assms(3) by (auto simp: VoiceUi_SelectVoiceAssistant_def)
  next
    case notsame: False
    show ?thesis
    proof (cases "p = voice_ui_provider_none")
      case True
      then show ?thesis
        using none notsame assms(3) d(1) unfolding VoiceUi_SelectVoiceAssistant_def by (auto simp: Let_def)
    next
      case False
      show ?thesis
      proof (cases "voiceUi_FindHandleForProvider w p")
        case None
        then show ?thesis
          using fail notsame False assms(3) unfolding VoiceUi_SelectVoiceAssistant_def by (auto simp: Let_def)
      next
        case (Some h)
        obtain x where x: "VoiceUi_SetSelectedVoiceAssistantInterface (headset_env q wi) p d = Inr x"
          using notsame False Some assms(3) d(1)
          by (cases "VoiceUi_SetSelectedVoiceAssistantInterface (headset_env q wi) p d")
            (auto simp: VoiceUi_SelectVoiceAssistant_def)
        obtain i itf where itf: "active_va x = Some (i, itf)"
          using set_selected_interface [OF d(2) x] by blast
        show ?thesis
          by (rule other [of x "reboot \<and> reboot_required_on_provider_switch itf"])
            (use notsame False Some assms(3) d(1) x itf in
              \<open>auto simp: VoiceUi_SelectVoiceAssistant_def va_handle_if_def Let_def split: if_splits\<close>)
      qed
    qed
  qed
  then show ?thesis
  proof cases
    case same
    then show ?thesis
      using fin [OF assms(1,2), of False] by auto
  next
    case none
    have "registered_ok d"
      using d(3,5) assms(2) by (auto simp: registered_ok_def)
    then show ?thesis
      using none fin [OF d(2), of False] d(4) by auto
  next
    case other
    note x = set_selected_interface [OF d(2) other(1)]
    then show ?thesis
      using other fin [of x b] d(4) by auto
  next
    case fail
    then show ?thesis
      using assms by simp
  qed
qed

subsection \<open>The microphone\<close>

lemma capture_data:
  assumes "voiceUi_CaptureDataReceived src b w = Inr w'"
  shows "\<exists>os. w' = w\<lparr>outputs := os\<rparr>"
  using assms by (auto simp: voiceUi_CaptureDataReceived_def res_simps emit_def Let_def split: if_splits)

lemma mic_data:
  assumes "voiceAudioManager_MicDataReceived src avail b w = Inr w'"
  shows "\<exists>os. w' = w\<lparr>outputs := os\<rparr>"
  using assms
  by (auto simp: voiceAudioManager_MicDataReceived_def res_simps emit_def Let_def split: if_splits dest!: capture_data)

lemma outputs_inv [simp]:
  "voice_inv (w\<lparr>outputs := os\<rparr>) = voice_inv w" "registered_ok (w\<lparr>outputs := os\<rparr>) = registered_ok w"
  by (simp_all add: voice_inv_iff voice_ok_def VoiceUi_IsVaActive_def mic_free_def registered_ok_def)

lemma mic_message_inv:
  assumes "voiceAudioManager_MsgHandler m w = Inr w'"
  shows "\<exists>os. w' = w\<lparr>outputs := os\<rparr>"
  using assms by (auto simp: voiceAudioManager_MsgHandler_def split: mic_message.splits if_splits dest: mic_data)
    (auto intro: exI [of _ "outputs w"])

lemma mic_expected: "voice_ok w \<Longrightarrow> VoiceAudioManager_IsMicDataExpected w = capture_active w"
  by (cases "current_state w") (auto simp: VoiceAudioManager_IsMicDataExpected_def voice_ok_def capturing_def)

lemma capture_started_inv:
  assumes "voice_inv w" and "VoiceAudioManager_CaptureStarted src avail b w = Inr w'"
  shows "voice_inv w'" and "registered_ok w' = registered_ok w"
proof -
  have "voice_inv (w\<lparr>capture_source := src\<rparr>)" if "capture_active w"
    using assms(1) that by (auto simp: voice_inv_iff voice_ok_def VoiceUi_IsVaActive_def mic_free_def split: if_splits)
  then show "voice_inv w'"
    using assms mic_expected [OF voice_inv_ok [OF assms(1)]]
    by (auto simp: VoiceAudioManager_CaptureStarted_def split: if_splits dest!: mic_data)
  show "registered_ok w' = registered_ok w"
    using assms(2) by (auto simp: VoiceAudioManager_CaptureStarted_def emit_def registered_ok_def split: if_splits dest!: mic_data)
qed

lemma wake_up_word:
  assumes "voiceUi_WakeUpWordDetected start w = Inr w'"
  shows "\<exists>os. w' = w\<lparr>outputs := os, capture_active := start \<or> capture_active w\<rparr>"
proof -
  obtain itf where "va_handle_if (active_va w) = Inr itf" "WakeUpWordDetected itf"
    using assms by (auto simp: voiceUi_WakeUpWordDetected_def res_simps emit_def Let_def panic_unless_def split: if_splits)
  then show ?thesis
    using assms by (cases start) (auto simp: voiceUi_WakeUpWordDetected_def voiceUi_CaptureStarted_def emit_def Let_def)
qed

lemma wuw_detected_inv:
  assumes "voice_inv w" and "VoiceAudioManager_WuwDetected start w = Inr (w', ans)"
  shows "voice_inv w'" and "registered_ok w' = registered_ok w"
proof -
  consider "w' = w" | os where "w' = w\<lparr>outputs := os\<rparr>"
    | os where "current_state w = wuw_detecting" "w' = w\<lparr>outputs := os, capture_active := True,
        current_state := wuw_capturing_detect_pending, mic_data_available := True\<rparr>"
  proof (cases "current_state w = wuw_detecting")
    case True
    obtain u where u: "voiceUi_WakeUpWordDetected start w = Inr u"
      using assms(2) True by (auto simp: VoiceAudioManager_WuwDetected_def VoiceAudioManager_IsWuwDetectionExpected_def res_simps)
    obtain os where os: "u = w\<lparr>outputs := os, capture_active := start \<or> capture_active w\<rparr>"
      using wake_up_word [OF u] by blast
    have not_cap: "\<not> capture_active w"
      using True voice_inv_ok [OF assms(1)] by (simp add: voice_ok_def capturing_def)
    have wd: "wuw_detected w"
      using assms(2) True by (cases "wuw_detected w") (simp_all add: VoiceAudioManager_WuwDetected_def VoiceAudioManager_IsWuwDetectionExpected_def)
    show ?thesis
    proof (cases start)
      case False
      have "u = w\<lparr>outputs := os\<rparr>"
        using os not_cap False by simp
      then show ?thesis
        using that(2) [of os] assms(2) True wd u False
        by (auto simp: VoiceAudioManager_WuwDetected_def VoiceAudioManager_IsWuwDetectionExpected_def)
    next
      case start: True
      show ?thesis
        using that(3) [OF True, of os] assms(2) True wd u start os
        by (simp add: VoiceAudioManager_WuwDetected_def VoiceAudioManager_IsWuwDetectionExpected_def
            VoiceAudioManager_UpdateState_def voiceAudioManager_GetStateTransition_def state_transitions_def
            VoiceAudioManager_CaptureStarting_def)
    qed
  next
    case False
    then show ?thesis
      using that(1) assms(2) by (simp add: VoiceAudioManager_WuwDetected_def VoiceAudioManager_IsWuwDetectionExpected_def)
  qed
  then have "voice_inv w' \<and> registered_ok w' = registered_ok w"
  proof cases
    case 3
    then have "detection_active w"
      using voice_inv_ok [OF assms(1)] by (simp add: voice_ok_def detecting_def)
    then have "mic_free w"
      using assms(1) by (auto simp: voice_inv_iff split: if_splits)
    then show ?thesis
      using 3 assms(1) \<open>detection_active w\<close>
      by (auto simp: voice_inv_iff voice_ok_def VoiceUi_IsVaActive_def mic_free_def registered_ok_def
          detecting_def capturing_def)
  qed (use assms(1) in simp_all)
  then show "voice_inv w'" "registered_ok w' = registered_ok w"
    by simp_all
qed

section \<open>Every reachable state\<close>

lemma registered_same: "same_outside w w' \<Longrightarrow> active_va w' = active_va w \<Longrightarrow> registered_ok w' = registered_ok w"
  by (simp add: registered_ok_def same_outside_def)

lemma suspend_outside: "voice_ok w \<Longrightarrow> \<not> detection_suspended w \<Longrightarrow>
  same_outside w (VoiceUi_SuspendAudio w) \<and> active_va (VoiceUi_SuspendAudio w) = active_va w"
  using suspend_audio by blast

text \<open>What the start and the end of the two features before the assistant do to it.\<close>

lemma first_start_eq:
  assumes "i = feature_id_sco \<or> i = feature_id_wired_analog_audio"
  shows "FeatureManager_StartFeatureRequest headset_fm (feature_handles headset_fm i) w =
    Inr (if voiceUi_GetFeatureState w = feature_state_running then VoiceUi_SuspendAudio w else w, True)"
  using assms
  by (elim disjE) (simp_all add: FeatureManager_StartFeatureRequest_def headset_fm_def Headset_GetFeatureManagerPriorityLists_def
      featureManager_IsHigherPriorityFeatureRunning_def higher_running_on_list_def
      featureManager_GetIndexForFeatureInPriorityList_def featureManager_GetClientFromId_def feature_ids_def
      client_GetState_def featureManager_SuspendClient_def voice_ui_feature_manager_if_def
      featureManager_PerformActionOnLowerPriorityFeatures_def action_on_list_def)

lemma first_stop_eq:
  assumes "i = feature_id_sco \<or> i = feature_id_wired_analog_audio"
  shows "FeatureManager_StopFeatureIndication headset_fm (feature_handles headset_fm i) w =
    (if voiceUi_GetFeatureState w = feature_state_suspended \<and> mic_free w then VoiceUi_ResumeAudio w else Inr w)"
  using assms
  by (elim disjE; cases "VoiceUi_ResumeAudio w") (auto simp: FeatureManager_StopFeatureIndication_def headset_fm_def Headset_GetFeatureManagerPriorityLists_def
      featureManager_GetIndexForFeatureInPriorityList_def featureManager_GetClientFromId_def feature_ids_def
      featureManager_PerformActionOnLowerPriorityFeatures_def action_on_list_def featureManager_ResumeClient_def
      client_GetState_def voice_ui_feature_manager_if_def featureManager_IsHigherPriorityFeatureRunning_def
      higher_running_on_list_def voice_feature_manager_if_def analog_audio_feature_manager_if_def mic_free_def
      audioRouter_GetVoiceFeatureState_def wiredAudioSource_GetFeatureState_def)

lemma first_start_keeps:
  assumes "voice_ok w" and "i = feature_id_sco \<or> i = feature_id_wired_analog_audio"
    and "FeatureManager_StartFeatureRequest headset_fm (feature_handles headset_fm i) w = Inr (w1, b)"
  shows "b \<and> voice_ok w1 \<and> same_outside w w1 \<and> active_va w1 = active_va w \<and> detection_config w1 = detection_config w"
  using assms suspend_audio [OF assms(1)]
  by (auto simp: first_start_eq voiceUi_GetFeatureState_eq split: if_splits)

lemma first_stop_keeps:
  assumes "voice_ok w" and "i = feature_id_sco \<or> i = feature_id_wired_analog_audio"
    and "FeatureManager_StopFeatureIndication headset_fm (feature_handles headset_fm i) w = Inr w1"
  shows "voice_ok w1 \<and> same_outside w w1 \<and> active_va w1 = active_va w \<and> detection_config w1 = detection_config w"
  using assms resume_audio [OF assms(1)]
  by (auto simp: first_stop_eq voiceUi_GetFeatureState_eq split: if_splits)

lemma registered_cong: "voice_assistant_list w' = voice_assistant_list w \<Longrightarrow> active_va w' = active_va w \<Longrightarrow>
  registered_ok w' = registered_ok w"
  by (simp add: registered_ok_def)

lemma connect_voice_registered:
  assumes "voice_ok w" and "audioRouter_CommonConnectVoiceSource (headset_env p wi) v params w = Inr (w', b)"
  shows "registered_ok w' = registered_ok w"
proof -
  let ?h = "feature_handles headset_fm feature_id_sco"
  obtain w1 g where w1: "FeatureManager_StartFeatureRequest headset_fm ?h w = Inr (w1, g)"
    using first_start_eq by blast
  note k1 = first_start_keeps [OF assms(1) _ w1]
  show ?thesis
  proof (cases params)
    case True
    then show ?thesis
      using assms(2) w1 k1 by (auto simp: audioRouter_CommonConnectVoiceSource_def same_outside_def intro!: registered_cong)
  next
    case False
    then obtain w2 where w2: "FeatureManager_StopFeatureIndication headset_fm ?h w1 = Inr w2" "w' = w2"
      using assms(2) w1 k1 by (auto simp: audioRouter_CommonConnectVoiceSource_def res_simps)
    have "voice_ok w1"
      using k1 by simp
    then show ?thesis
      using first_stop_keeps [OF _ _ w2(1)] k1 w2(2) by (auto simp: same_outside_def intro!: registered_cong)
  qed
qed

lemma disconnect_voice_registered:
  assumes "voice_ok w" and "audioRouter_CommonDisconnectVoiceSource (headset_env p wi) v params w = Inr (w', b)"
  shows "registered_ok w' = registered_ok w"
proof (cases params)
  case True
  let ?w0 = "(emit (DisconnectVoice v) w)\<lparr>voice_feature_state := feature_state_idle\<rparr>"
  have w1: "FeatureManager_StopFeatureIndication headset_fm (feature_handles headset_fm feature_id_sco) ?w0 = Inr w'"
    using assms(2) True by (auto simp: audioRouter_CommonDisconnectVoiceSource_def res_simps)
  show ?thesis
    using first_stop_keeps [OF _ _ w1] assms(1) by (auto simp: same_outside_def intro!: registered_cong)
qed (use assms in \<open>simp add: audioRouter_CommonDisconnectVoiceSource_def\<close>)

lemma wired_registered:
  assumes "voice_ok w" and "wiredAudio_SetState (headset_env p wi) st w = Inr (w', b)"
  shows "registered_ok w' = registered_ok w"
proof (cases st)
  case source_state_connecting
  obtain w1 g where w1: "FeatureManager_StartFeatureRequest headset_fm (feature_handles headset_fm feature_id_wired_analog_audio) w = Inr (w1, g)"
    using first_start_eq by blast
  show ?thesis
    using first_start_keeps [OF assms(1) _ w1] assms(2) w1 source_state_connecting
    by (auto simp: wiredAudio_SetState_def WiredAudioSource_StartFeature_def WiredAudioSource_SetFeatureState_def
        same_outside_def intro!: registered_cong)
next
  case source_state_disconnecting
  let ?w0 = "w\<lparr>analog_audio_feature_state := feature_state_idle\<rparr>"
  have w1: "FeatureManager_StopFeatureIndication headset_fm (feature_handles headset_fm feature_id_wired_analog_audio) ?w0 = Inr w'"
    using assms(2) source_state_disconnecting
    by (auto simp: wiredAudio_SetState_def WiredAudioSource_StopFeature_def WiredAudioSource_SetFeatureState_def res_simps)
  show ?thesis
    using first_stop_keeps [OF _ _ w1] assms(1) by (auto simp: same_outside_def intro!: registered_cong)
qed (use assms in \<open>simp_all add: wiredAudio_SetState_def\<close>)

lemma registered_emit [simp]: "registered_ok (emit o1 w) = registered_ok w"
  "registered_ok (w\<lparr>va_session_in_progress := b\<rparr>) = registered_ok w"
  "registered_ok (w\<lparr>va_session_ending := b\<rparr>) = registered_ok w"
  "registered_ok (w\<lparr>my_device_va := m\<rparr>) = registered_ok w" "registered_ok (w\<lparr>my_va_flags := f\<rparr>) = registered_ok w"
  "registered_ok (w\<lparr>my_va_locale := lc\<rparr>) = registered_ok w"
  by (simp_all add: registered_ok_def)

lemma connect_audio_fields: "audioRouter_CommonConnectAudioSource a params w = (w', b) \<Longrightarrow>
    voice_inv w' = voice_inv w \<and> registered_ok w' = registered_ok w"
  and disconnect_audio_fields: "audioRouter_CommonDisconnectAudioSource a params w = (w', b) \<Longrightarrow>
    voice_inv w' = voice_inv w \<and> registered_ok w' = registered_ok w"
  by (auto simp: audioRouter_CommonConnectAudioSource_def audioRouter_CommonDisconnectAudioSource_def split: if_splits)

lemma connect_source_inv:
  assumes "voice_inv w" and "AudioRouter_CommonConnectSource (headset_env p wi) src params w = Inr (w', b)"
  shows "voice_inv w'" and "registered_ok w' = registered_ok w"
proof -
  have "voice_inv w' \<and> registered_ok w' = registered_ok w"
  proof (cases src)
    case (source_type_voice v)
    obtain x where x: "audioRouter_CommonConnectVoiceSource (headset_env p wi) v params w = Inr (x, params)" "voice_inv x"
      using connect_voice [OF assms(1)] by blast
    then show ?thesis
      using assms(2) connect_voice_registered [OF voice_inv_ok [OF assms(1)] x(1)] source_type_voice
      by (auto simp: AudioRouter_CommonConnectSource_def res_simps split: if_splits)
  next
    case (source_type_audio a)
    obtain x c where x: "audioRouter_CommonConnectAudioSource a params w = (x, c)"
      by fastforce
    then show ?thesis
      using assms connect_audio_fields [OF x] source_type_audio
      by (auto simp: AudioRouter_CommonConnectSource_def res_simps split: if_splits)
  next
    case source_type_other
    then show ?thesis
      using assms by (simp add: AudioRouter_CommonConnectSource_def audioRouter_PanicIfSourceInvalid_def)
  qed
  then show "voice_inv w'" "registered_ok w' = registered_ok w"
    by simp_all
qed

lemma disconnect_source_inv:
  assumes "voice_inv w" and "AudioRouter_CommonDisconnectSource (headset_env p wi) src params w = Inr (w', b)"
  shows "voice_inv w'" and "registered_ok w' = registered_ok w"
proof -
  have "voice_inv w' \<and> registered_ok w' = registered_ok w"
  proof (cases src)
    case (source_type_voice v)
    obtain x where x: "audioRouter_CommonDisconnectVoiceSource (headset_env p wi) v params w = Inr (x, params)" "voice_inv x"
      using disconnect_voice [OF assms(1)] by blast
    then show ?thesis
      using assms(2) disconnect_voice_registered [OF voice_inv_ok [OF assms(1)] x(1)] source_type_voice
      by (auto simp: AudioRouter_CommonDisconnectSource_def res_simps split: if_splits)
  next
    case (source_type_audio a)
    obtain x c where x: "audioRouter_CommonDisconnectAudioSource a params w = (x, c)"
      by fastforce
    then show ?thesis
      using assms disconnect_audio_fields [OF x] source_type_audio
      by (auto simp: AudioRouter_CommonDisconnectSource_def res_simps split: if_splits)
  next
    case source_type_other
    then show ?thesis
      using assms by (simp add: AudioRouter_CommonDisconnectSource_def audioRouter_PanicIfSourceInvalid_def)
  qed
  then show "voice_inv w'" "registered_ok w' = registered_ok w"
    by simp_all
qed

lemma voice_step_inv:
  assumes "voice_inv w" and "registered_ok w" and "voice_step (headset_env p wi) e w = Inr w'"
  shows "voice_inv w' \<and> registered_ok w'"
proof (cases e)
  case (ConnectSource src params)
  then show ?thesis
    using connect_source_inv [OF assms(1)] assms(2,3) by (fastforce simp: voice_step_def res_simps)
next
  case (DisconnectSource src params)
  then show ?thesis
    using disconnect_source_inv [OF assms(1)] assms(2,3) by (fastforce simp: voice_step_def res_simps)
next
  case (WiredSetState st)
  obtain x where x: "wiredAudio_SetState (headset_env p wi) st w = Inr (x, True)" "voice_inv x"
    using wired_set_state [OF assms(1)] by blast
  then show ?thesis
    using wired_registered [OF voice_inv_ok [OF assms(1)] x(1)] assms(2,3) WiredSetState
    by (simp add: voice_step_def)
next
  case (StartAudioCapture h c)
  obtain x st where "VoiceUi_StartAudioCapture (headset_env p wi) h c w = Inr (x, st)" "voice_inv x"
    "same_outside w x" "active_va x = active_va w"
    using start_audio_capture [OF assms(1), of p wi h c] by blast
  then show ?thesis
    using assms(2,3) StartAudioCapture registered_same by (simp add: voice_step_def)
next
  case (StopAudioCapture h)
  then show ?thesis
    using stop_audio_capture [OF assms(1), of p wi h] assms(2,3) registered_same by (auto simp: voice_step_def)
next
  case (StartDetection h d)
  obtain x st where "VoiceUi_StartWakeUpWordDetection (headset_env p wi) h d w = Inr (x, st)" "voice_inv x"
    "same_outside w x" "active_va x = active_va w"
    using start_wake_up_word_detection [OF assms(1), of p wi h d] by blast
  then show ?thesis
    using assms(2,3) StartDetection registered_same by (simp add: voice_step_def)
next
  case (StopDetection h)
  then show ?thesis
    using stop_wake_up_word_detection [OF assms(1), of p wi h] assms(2,3) registered_same by (auto simp: voice_step_def)
next
  case CaptureErrorTimeout
  then have "w' = voiceUi_CancelVaSession w"
    using assms(3) by (simp add: voice_step_def voiceUi_AudioMsgHandler_def)
  then show ?thesis
    using cancel_session [OF voice_inv_ok [OF assms(1)]] cancel_session_inv [OF assms(1)] assms(2) registered_same by blast
next
  case (MicMessage m)
  then show ?thesis
    using mic_message_inv [of m w w'] assms by (auto simp: voice_step_def)
next
  case (CaptureStarted src avail b)
  then show ?thesis
    using capture_started_inv [OF assms(1)] assms(2,3) by (auto simp: voice_step_def)
next
  case (WuwDetected b)
  then show ?thesis
    using wuw_detected_inv [OF assms(1)] assms(2,3) by (fastforce simp: voice_step_def res_simps)
next
  case (RegisterAssistant itf)
  then show ?thesis
    using register_inv [OF assms(1,2)] assms(3) by (fastforce simp: voice_step_def res_simps)
next
  case (SelectAssistant q reboot)
  then show ?thesis
    using select_inv [OF assms(1,2)] assms(3) by (fastforce simp: voice_step_def res_simps)
qed (use assms in \<open>auto simp: voice_step_def VoiceUi_VaSessionStarted_def VoiceUi_VaSessionEnded_def
    voiceUi_VaSessionInternalMsgHandler_def voiceUi_StartVaSessionEndInProgressTimer_def VoiceUi_VaSessionReset_def
    voiceUi_HandleUiInput_def VoiceUi_EventHandler_def VoiceUi_SetPrivacyModeEnable_def VoiceUi_SetDeviceFlag_def
    VoiceUi_SetWakeUpWordDetectionEnable_def VoiceUi_SetPackedLocale_def voiceUi_HandleBtDeviceSelfCreated_def
    voiceUi_AdjustBtBandwidthUsage_def va_handle_if_def Let_def split: option.splits if_splits\<close>)

lemma voice_start_inv: "voice_inv (voice_start slots device) \<and> registered_ok (voice_start slots device)"
  by (simp add: voice_inv_iff voice_ok_def voice_start_def detecting_def capturing_def VoiceUi_IsVaActive_def
      mic_free_def registered_ok_def)

lemma voice_reach_inv: "voice_reach (headset_env p wi) w \<Longrightarrow> voice_inv w \<and> registered_ok w"
  by (induction rule: voice_reach.induct) (use voice_start_inv voice_step_inv in blast)+

end
