(* ===== verification/Voice_Ui_Properties.thy ===== *)
theory Voice_Ui_Properties
  imports Voice_Ui_Control
begin

text \<open>
  What follows for the microphone: it is never captured for an assistant during a call, a detection
  that a call suspended comes back, the state machine of the voice audio manager is what it is
  meant to be, and nothing faults; and two ways in which a detection gets lost.
\<close>

text \<open>
  C12. The microphone is exclusive: in every state that calls, analog input, voice assistants,
  the audio framework and time-outs can reach in any order, the voice audio manager captures or detects
  only while neither a call nor the analog input runs, its state is what the voice user interface
  believes, some assistant is active then, and a detection is held suspended only while a call or the
  analog input runs.
\<close>

theorem microphone_exclusive:
  assumes "voice_reach (headset_env p wi) w"
  shows "(current_state w \<noteq> vam_idle \<longrightarrow>
      voice_feature_state w \<noteq> feature_state_running \<and> analog_audio_feature_state w \<noteq> feature_state_running \<and>
      active_va w \<noteq> None) \<and>
    capture_active w = VoiceAudioManager_IsMicDataExpected w \<and>
    (VoiceAudioManager_IsWuwDetectionExpected w \<longrightarrow> detection_active w) \<and>
    (detection_suspended w \<longrightarrow> current_state w = vam_idle \<and>
      (voice_feature_state w = feature_state_running \<or> analog_audio_feature_state w = feature_state_running))"
proof -
  have inv: "voice_inv w" and ok: "voice_ok w"
    using voice_reach_inv [OF assms] voice_inv_ok by blast+
  have active: "VoiceUi_IsVaActive w" if "current_state w \<noteq> vam_idle"
    using that ok by (cases "current_state w") (auto simp: voice_ok_def detecting_def capturing_def VoiceUi_IsVaActive_def)
  then have free: "current_state w \<noteq> vam_idle \<longrightarrow> mic_free w"
    using inv by (auto simp: voice_inv_iff VoiceUi_IsVaActive_def split: if_splits)
  have va: "current_state w \<noteq> vam_idle \<longrightarrow> active_va w \<noteq> None"
    using active ok unfolding voice_ok_def by blast
  have susp: "detection_suspended w \<longrightarrow> current_state w = vam_idle \<and> \<not> mic_free w"
    using inv ok by (auto simp: voice_inv_iff voice_ok_def split: if_splits)
  have wuw: "VoiceAudioManager_IsWuwDetectionExpected w \<longrightarrow> detection_active w"
    using ok by (auto simp: VoiceAudioManager_IsWuwDetectionExpected_def voice_ok_def detecting_def)
  show ?thesis
    using free va susp wuw mic_expected [OF ok] unfolding mic_free_def by blast
qed

definition demo_assistant :: "u8 \<Rightarrow> voice_ui_if" where
  "demo_assistant p = \<lparr>va_provider = p, EventHandler = True, reboot_required_on_provider_switch = False,
     DeselectVoiceAssistant = True, SelectVoiceAssistant = True, GetBtAddress = Some None,
     AdjustBtBandwidthUsage = False, SetWakeUpWordDetectionEnable = True, SetPrivacyModeEnable = True, SessionCancelled = True, BatteryUpdate = False,
     CaptureDataReceived = True, WakeUpWordDetected = True\<rparr>"

definition demo_handle :: "nat \<Rightarrow> u8 \<Rightarrow> va_handle" where
  "demo_handle i p = Some (i, demo_assistant p)"

definition voice_run :: "voice_env \<Rightarrow> voice_event list \<Rightarrow> voice_world \<Rightarrow> voice_world res" where
  "voice_run env es w = for_res (voice_step env) es w"

lemma voice_run_reach: "voice_reach env w \<Longrightarrow> voice_run env es w = Inr w' \<Longrightarrow> voice_reach env w'"
  unfolding voice_run_def by (erule for_res_invariant [where P = "voice_reach env"]) (auto intro: voice_reach_step)

text \<open>Two assistants; the first detects, then a call comes in.\<close>

definition demo_events :: "voice_event list" where
  "demo_events = [RegisterAssistant (demo_assistant 2), RegisterAssistant (demo_assistant 3),
     StartDetection (demo_handle 0 2) no_params, ConnectSource (source_type_voice 1) True]"

definition demo_world :: voice_world where
  "demo_world = (case voice_run (headset_env 2 True) demo_events (voice_start 2 None) of Inr w \<Rightarrow> w | Inl _ \<Rightarrow> voice_start 2 None)"

lemma demo_world_run: "voice_run (headset_env 2 True) demo_events (voice_start 2 None) = Inr demo_world"
proof -
  have "case_sum (\<lambda>_. False) (\<lambda>_. True) (voice_run (headset_env 2 True) demo_events (voice_start 2 None))"
    by code_simp
  then show ?thesis
    by (simp add: demo_world_def split: sum.splits)
qed

lemma demo_world_reach: "voice_reach (headset_env 2 True) demo_world"
  by (rule voice_run_reach [OF voice_reach_start demo_world_run])

lemma demo_world_facts:
  "detection_suspended demo_world" "voice_feature_state demo_world = feature_state_running"
  "active_va demo_world = demo_handle 0 2"
  by code_simp+

theorem microphone_exclusive_witness:
  "detection_suspended demo_world \<and> current_state demo_world = vam_idle"
  using microphone_exclusive [OF demo_world_reach] demo_world_facts(1) by blast

text \<open>
  C13. A suspended detection comes back: in every reachable state with a suspended detection, the
  end of a call or of the analog input that leaves the microphone free starts the detection again, with
  the parameters it was asked for, for the same assistant, and it never fails to start.
\<close>

theorem suspended_detection_resumes:
  assumes "voice_reach (headset_env p wi) w" and "detection_suspended w"
    and "e = DisconnectSource (source_type_voice v) True \<and> v < max_voice_sources \<and>
           analog_audio_feature_state w \<noteq> feature_state_running \<or>
         e = WiredSetState source_state_disconnecting \<and> voice_feature_state w \<noteq> feature_state_running"
  shows "\<exists>w'. voice_step (headset_env p wi) e w = Inr w' \<and> detection_active w' \<and> \<not> detection_suspended w' \<and>
    current_state w' = wuw_detecting \<and> active_va w' = active_va w \<and> detection_config w' = detection_config w \<and>
    StartWakeUpWordDetection (detection_config w) \<in> set (outputs w')"
proof -
  have ok: "voice_ok w"
    using voice_reach_inv [OF assms(1)] voice_inv_ok by blast
  have detects: "current_state x = wuw_detecting" if "voice_ok x" "detection_active x" "\<not> capture_active x" for x
    using that by (cases "current_state x") (auto simp: voice_ok_def detecting_def capturing_def)
  have idle: "\<not> capture_active w"
    using ok assms(2) by (auto simp: voice_ok_def capturing_def)
  have resumed: "\<exists>x. VoiceUi_ResumeAudio u = Inr x \<and> detection_active x \<and> \<not> detection_suspended x \<and>
      current_state x = wuw_detecting \<and> active_va x = active_va u \<and> detection_config x = detection_config u \<and>
      StartWakeUpWordDetection (detection_config u) \<in> set (outputs x)"
    if u: "voice_ok u" "detection_suspended u" for u
  proof -
    have "current_state u = vam_idle"
      using u by (simp add: voice_ok_def)
    then have "\<not> capture_active x" if "VoiceUi_ResumeAudio u = Inr x" for x
      using that u(1) by (auto simp: VoiceUi_ResumeAudio_def voiceUi_StartDetection_def vam_defs res_simps
          voice_ok_def capturing_def)
    then show ?thesis
      using resume_audio [OF u] detects by blast
  qed
  from assms(3) show ?thesis
  proof (elim disjE conjE)
    assume e: "e = DisconnectSource (source_type_voice v) True" "v < max_voice_sources"
      and analog: "analog_audio_feature_state w \<noteq> feature_state_running"
    let ?u = "(emit (DisconnectVoice v) w)\<lparr>voice_feature_state := feature_state_idle\<rparr>"
    have u: "voice_ok ?u" "detection_suspended ?u" "mic_free ?u"
      using ok assms(2) analog by (simp_all add: mic_free_def)
    have stop: "FeatureManager_StopFeatureIndication headset_fm (feature_handles headset_fm feature_id_sco) ?u = VoiceUi_ResumeAudio ?u"
      using u by (simp add: first_stop_eq voiceUi_GetFeatureState_eq)
    obtain x where x: "VoiceUi_ResumeAudio ?u = Inr x" "detection_active x" "\<not> detection_suspended x"
      "current_state x = wuw_detecting" "active_va x = active_va ?u" "detection_config x = detection_config ?u"
      "StartWakeUpWordDetection (detection_config ?u) \<in> set (outputs x)"
      using resumed [OF u(1,2)] by blast
    have "voice_step (headset_env p wi) e w = Inr (emit ContextUpdate x)"
      using e stop x(1) by (simp add: voice_step_def AudioRouter_CommonDisconnectSource_def
          audioRouter_PanicIfSourceInvalid_def audioRouter_CommonDisconnectVoiceSource_def)
    then show ?thesis
      using x by (simp add: emit_def)
  next
    assume e: "e = WiredSetState source_state_disconnecting" and call: "voice_feature_state w \<noteq> feature_state_running"
    let ?u = "w\<lparr>analog_audio_feature_state := feature_state_idle\<rparr>"
    have u: "voice_ok ?u" "detection_suspended ?u" "mic_free ?u"
      using ok assms(2) call by (simp_all add: mic_free_def)
    have stop: "FeatureManager_StopFeatureIndication headset_fm (feature_handles headset_fm feature_id_wired_analog_audio) ?u =
        VoiceUi_ResumeAudio ?u"
      using u by (simp add: first_stop_eq voiceUi_GetFeatureState_eq)
    obtain x where x: "VoiceUi_ResumeAudio ?u = Inr x" "detection_active x" "\<not> detection_suspended x"
      "current_state x = wuw_detecting" "active_va x = active_va ?u" "detection_config x = detection_config ?u"
      "StartWakeUpWordDetection (detection_config ?u) \<in> set (outputs x)"
      using resumed [OF u(1,2)] by blast
    then show ?thesis
      using e stop by (simp add: voice_step_def wiredAudio_SetState_def WiredAudioSource_StopFeature_def
          WiredAudioSource_SetFeatureState_def)
  qed
qed

theorem suspended_detection_resumes_witness:
  "\<exists>w'. voice_step (headset_env 2 True) (DisconnectSource (source_type_voice 1) True) demo_world = Inr w' \<and> detection_active w'"
proof -
  have "analog_audio_feature_state demo_world \<noteq> feature_state_running"
    by code_simp
  then show ?thesis
    using suspended_detection_resumes [OF demo_world_reach demo_world_facts(1),
        of "DisconnectSource (source_type_voice 1) True" 1]
    by (auto simp: max_voice_sources_def)
qed

text \<open>The two facts, and the specification over them.\<close>

definition vam_abs :: "voice_world \<Rightarrow> bool \<times> bool" where
  "vam_abs w = (capturing (current_state w), detecting (current_state w))"

fun vam_accepts :: "vam_event \<Rightarrow> bool \<times> bool \<Rightarrow> bool" where
  "vam_accepts live_capture_start (c, d) = (\<not> c)"
| "vam_accepts wuw_capture_start (c, d) = (d \<and> \<not> c)"
| "vam_accepts capture_stop (c, d) = c"
| "vam_accepts wuw_detect_start (c, d) = (\<not> c \<and> \<not> d)"
| "vam_accepts wuw_detect_stop (c, d) = d"

fun vam_spec :: "vam_event \<Rightarrow> bool \<times> bool \<Rightarrow> bool \<times> bool" where
  "vam_spec live_capture_start (c, d) = (True, d)"
| "vam_spec wuw_capture_start (c, d) = (True, d)"
| "vam_spec capture_stop (c, d) = (False, d)"
| "vam_spec wuw_detect_start (c, d) = (c, True)"
| "vam_spec wuw_detect_stop (c, d) = (c, False)"

text \<open>
  C19. The state machine of the voice audio manager is two independent facts, whether it captures and
  whether a detection was asked for: an event is accepted exactly when it makes sense for them, and
  changes the one it is about.
\<close>

theorem vam_refines_capture_detection:
  "snd (VoiceAudioManager_UpdateState ev w) = vam_accepts ev (vam_abs w) \<and>
   vam_abs (fst (VoiceAudioManager_UpdateState ev w)) =
     (if vam_accepts ev (vam_abs w) then vam_spec ev (vam_abs w) else vam_abs w)"
  by (cases "current_state w"; cases ev)
    (simp_all add: VoiceAudioManager_UpdateState_def voiceAudioManager_GetStateTransition_def state_transitions_def
      vam_abs_def capturing_def detecting_def)

text \<open>
  C38. An assistant that is not active can cancel the detection of the active one: while a call has
  suspended the detection, \<open>VoiceUi_StopWakeUpWordDetection\<close> called with any other handle clears the mark
  that it is suspended, so the end of the call no longer starts it, although its assistant never
  stopped it.
\<close>

theorem inactive_stop_drops_detection:
  assumes "voice_reach (headset_env p wi) w" and "detection_suspended w" and "h \<noteq> active_va w"
    and "v < max_voice_sources"
  shows "\<exists>w1 w2. voice_step (headset_env p wi) (StopDetection h) w = Inr w1 \<and> active_va w1 = active_va w \<and>
    voice_step (headset_env p wi) (DisconnectSource (source_type_voice v) True) w1 = Inr w2 \<and>
    current_state w2 = vam_idle \<and> \<not> detection_active w2 \<and> \<not> detection_suspended w2"
proof -
  have ok: "voice_ok w"
    using voice_reach_inv [OF assms(1)] voice_inv_ok by blast
  have idle: "current_state w = vam_idle" "\<not> detection_active w" "\<not> capture_active w"
    using ok assms(2) by (auto simp: voice_ok_def detecting_def capturing_def)
  let ?w1 = "w\<lparr>detection_suspended := False\<rparr>"
  let ?u = "(emit (DisconnectVoice v) ?w1)\<lparr>voice_feature_state := feature_state_idle\<rparr>"
  have "voice_step (headset_env p wi) (StopDetection h) w = Inr ?w1"
    using assms(3) by (simp add: voice_step_def VoiceUi_StopWakeUpWordDetection_def VoiceUi_IsActiveAssistant_def)
  moreover have "FeatureManager_StopFeatureIndication headset_fm (feature_handles headset_fm feature_id_sco) ?u = Inr ?u"
    using idle by (simp add: first_stop_eq voiceUi_GetFeatureState_eq)
  then have "voice_step (headset_env p wi) (DisconnectSource (source_type_voice v) True) ?w1 = Inr (emit ContextUpdate ?u)"
    using assms(4) by (simp add: voice_step_def AudioRouter_CommonDisconnectSource_def
        audioRouter_PanicIfSourceInvalid_def audioRouter_CommonDisconnectVoiceSource_def)
  ultimately show ?thesis
    using idle by (intro exI [of _ ?w1] exI [of _ "emit ContextUpdate ?u"]) simp
qed

theorem inactive_stop_drops_detection_witness:
  "\<exists>w1 w2. voice_step (headset_env 2 True) (StopDetection (demo_handle 1 3)) demo_world = Inr w1 \<and>
    voice_step (headset_env 2 True) (DisconnectSource (source_type_voice 1) True) w1 = Inr w2 \<and> current_state w2 = vam_idle"
proof -
  have "demo_handle 1 3 \<noteq> active_va demo_world"
    by (simp add: demo_world_facts demo_handle_def)
  then show ?thesis
    using inactive_stop_drops_detection [OF demo_world_reach demo_world_facts(1), of "demo_handle 1 3" 1]
    by (auto simp: max_voice_sources_def)
qed

text \<open>
  A detection that waits for a live capture to end is not started when the capture ends by its time-out: it
  stays pending, with nothing running, until the assistant itself stops the capture that has ended.
\<close>

theorem capture_timeout_leaves_detection_pending:
  "map_sum id (\<lambda>w. (current_state w, detection_start_pending w, detection_active w))
     (voice_run (headset_env 2 True)
       [RegisterAssistant (demo_assistant 2), StartAudioCapture (demo_handle 0 2) 0,
        StartDetection (demo_handle 0 2) no_params, CaptureErrorTimeout] (voice_start 1 None)) =
   Inr (vam_idle, True, False)"
  by code_simp

text \<open>
  The audio of an assistant never faults: events of the audio framework, of time-outs, of calls and of
  the assistants other than registration and selection succeed, as long as the active assistant
  has the two functions for captured data and wake-up words, and sources are valid.
\<close>

fun audio_event :: "voice_event \<Rightarrow> bool" where
  "audio_event (ConnectSource src _) = (audioRouter_PanicIfSourceInvalid src = Inr ())"
| "audio_event (DisconnectSource src _) = (audioRouter_PanicIfSourceInvalid src = Inr ())"
| "audio_event (RegisterAssistant _) = False"
| "audio_event (SelectAssistant _ _) = False"
| "audio_event (AdjustBandwidth _) = False"
| "audio_event _ = True"

definition assistant_complete :: "voice_world \<Rightarrow> bool" where
  "assistant_complete w \<longleftrightarrow> (case active_va w of None \<Rightarrow> True | Some (_, itf) \<Rightarrow> CaptureDataReceived itf \<and> WakeUpWordDetected itf)"

lemma mic_data_total:
  assumes "voice_ok w" and "assistant_complete w"
  shows "\<exists>w'. voiceAudioManager_MicDataReceived src avail b w = Inr w'"
proof (cases "VoiceAudioManager_IsMicDataExpected w")
  case True
  then have "mic_data_available w" "active_va w \<noteq> None"
    using assms(1) mic_expected [OF assms(1)] by (auto simp: voice_ok_def VoiceUi_IsVaActive_def)
  then show ?thesis
    using assms(2) True by (auto simp: voiceAudioManager_MicDataReceived_def voiceUi_CaptureDataReceived_def va_handle_if_def
        assistant_complete_def Let_def VoiceAudioManager_IsMicDataExpected_def)
qed (simp add: voiceAudioManager_MicDataReceived_def Let_def VoiceAudioManager_IsMicDataExpected_def)

lemma wuw_detected_total:
  assumes "voice_ok w" and "assistant_complete w"
  shows "\<exists>x. VoiceAudioManager_WuwDetected b w = Inr x"
proof (cases "VoiceAudioManager_IsWuwDetectionExpected w")
  case True
  then have s: "current_state w = wuw_detecting"
    by (simp add: VoiceAudioManager_IsWuwDetectionExpected_def)
  then have wd: "wuw_detected w" "active_va w \<noteq> None"
    using assms(1) by (auto simp: voice_ok_def VoiceUi_IsVaActive_def detecting_def)
  then obtain u where u: "voiceUi_WakeUpWordDetected b w = Inr u"
    using assms(2) by (auto simp: voiceUi_WakeUpWordDetected_def va_handle_if_def assistant_complete_def Let_def)
  obtain os where os: "u = w\<lparr>outputs := os, capture_active := b \<or> capture_active w\<rparr>"
    using wake_up_word [OF u] by blast
  show ?thesis
    using True wd u os s by (auto simp: VoiceAudioManager_WuwDetected_def VoiceAudioManager_UpdateState_def
        voiceAudioManager_GetStateTransition_def state_transitions_def)
qed (auto simp: VoiceAudioManager_WuwDetected_def)

theorem audio_events_do_not_fault:
  assumes "voice_reach (headset_env p wi) w" and "assistant_complete w" and "audio_event e"
  shows "\<exists>w'. voice_step (headset_env p wi) e w = Inr w'"
proof -
  have inv: "voice_inv w" and ok: "voice_ok w"
    using voice_reach_inv [OF assms(1)] voice_inv_ok by blast+
  show ?thesis
  proof (cases e)
    case (ConnectSource src params)
    show ?thesis
    proof (cases src)
      case (source_type_voice v)
      then show ?thesis
        using connect_voice [OF inv, of p wi v params] assms(3) ConnectSource
        by (auto simp: voice_step_def AudioRouter_CommonConnectSource_def)
    qed (use assms(3) ConnectSource in
        \<open>auto simp: voice_step_def AudioRouter_CommonConnectSource_def res_bind_def split: sum.splits prod.splits\<close>)
  next
    case (DisconnectSource src params)
    show ?thesis
    proof (cases src)
      case (source_type_voice v)
      then show ?thesis
        using disconnect_voice [OF inv, of p wi v params] assms(3) DisconnectSource
        by (auto simp: voice_step_def AudioRouter_CommonDisconnectSource_def)
    qed (use assms(3) DisconnectSource in
        \<open>auto simp: voice_step_def AudioRouter_CommonDisconnectSource_def res_bind_def split: sum.splits prod.splits\<close>)
  next
    case (WiredSetState st)
    then show ?thesis
      using wired_set_state [OF inv, of p wi st] by (auto simp: voice_step_def)
  next
    case (StartAudioCapture h c)
    then show ?thesis
      using start_audio_capture [OF inv, of p wi h c] by (auto simp: voice_step_def)
  next
    case (StopAudioCapture h)
    then show ?thesis
      using stop_audio_capture [OF inv, of p wi h] by (auto simp: voice_step_def)
  next
    case (StartDetection h d)
    then show ?thesis
      using start_wake_up_word_detection [OF inv, of p wi h d] by (auto simp: voice_step_def)
  next
    case (StopDetection h)
    then show ?thesis
      using stop_wake_up_word_detection [OF inv, of p wi h] by (auto simp: voice_step_def)
  next
    case (MicMessage m)
    then show ?thesis
      using mic_data_total [OF ok assms(2)] by (cases m) (auto simp: voice_step_def voiceAudioManager_MsgHandler_def)
  next
    case (CaptureStarted src avail b)
    have "voice_ok (emit (RegisterSource src) (w\<lparr>capture_source := src\<rparr>))" if "VoiceAudioManager_IsMicDataExpected w"
      using ok that mic_expected [OF ok] by (auto simp: voice_ok_def VoiceUi_IsVaActive_def)
    moreover have "assistant_complete (emit (RegisterSource src) (w\<lparr>capture_source := src\<rparr>))"
      using assms(2) by (simp add: assistant_complete_def)
    ultimately show ?thesis
      using mic_data_total CaptureStarted by (auto simp: voice_step_def VoiceAudioManager_CaptureStarted_def)
  next
    case (WuwDetected b)
    then show ?thesis
      using wuw_detected_total [OF ok assms(2), of b] by (auto simp: voice_step_def)
  qed (use assms(3) in \<open>simp_all add: voice_step_def\<close>)
qed

theorem audio_events_do_not_fault_witness:
  "\<exists>w'. voice_step (headset_env 2 True) (MicMessage (MESSAGE_MORE_DATA 0 5 True)) demo_world = Inr w'"
  by (rule audio_events_do_not_fault [OF demo_world_reach])
    (simp_all add: assistant_complete_def demo_world_facts demo_handle_def demo_assistant_def)

text \<open>Flags read back, and one flag does not change another.\<close>

lemma device_flag_set_get:
  assumes "my_device_va w \<noteq> None" and "flag \<noteq> 0"
  shows "VoiceUi_GetDeviceFlag flag (VoiceUi_SetDeviceFlag flag on w) = on"
    and "flag AND other = 0 \<Longrightarrow> my_va_flags w \<noteq> None \<Longrightarrow>
      VoiceUi_GetDeviceFlag other (VoiceUi_SetDeviceFlag flag on w) = VoiceUi_GetDeviceFlag other w"
proof -
  obtain f where f: "my_va_flags (VoiceUi_SetDeviceFlag flag on w) = Some (if on then f OR flag else f AND NOT flag)"
    "my_va_flags w \<noteq> None \<Longrightarrow> my_va_flags w = Some f"
    using assms(1) by (cases "my_va_flags w") (auto simp: VoiceUi_SetDeviceFlag_def emit_def Let_def)
  have dev: "my_device_va (VoiceUi_SetDeviceFlag flag on w) \<noteq> None"
    using assms(1) by (simp add: VoiceUi_SetDeviceFlag_def emit_def Let_def)
  have "(f OR flag) AND flag = flag"
    by (auto simp: bit_eq_iff bit_simps)
  moreover have "(f AND NOT flag) AND flag = 0"
    by (simp add: bit_eq_iff bit_simps)
  ultimately show "VoiceUi_GetDeviceFlag flag (VoiceUi_SetDeviceFlag flag on w) = on"
    using dev f(1) assms(2) by (simp add: VoiceUi_GetDeviceFlag_def VoiceUi_GetDeviceFlags_def)
  assume disj: "flag AND other = 0" and set: "my_va_flags w \<noteq> None"
  have "(f OR flag) AND other = f AND other" "(f AND NOT flag) AND other = f AND other"
    using disj by (auto simp: bit_eq_iff bit_simps)
  then show "VoiceUi_GetDeviceFlag other (VoiceUi_SetDeviceFlag flag on w) = VoiceUi_GetDeviceFlag other w"
    using dev f set assms(1) by (simp add: VoiceUi_GetDeviceFlag_def VoiceUi_GetDeviceFlags_def)
qed

text \<open>
  Before the flags were ever set, reading takes them to be clear, while setting one starts from the flag of
  the wake-up word being set: turning the privacy mode on turns the wake-up word on as well.
\<close>

lemma first_privacy_sets_wake_up_word:
  assumes "my_device_va w \<noteq> None" and "my_va_flags w = None" and "active_va w = None"
  shows "\<not> VoiceUi_IsWakeUpWordDetectionEnabled w \<and>
    VoiceUi_IsWakeUpWordDetectionEnabled (VoiceUi_SetPrivacyModeEnable True w)"
  using assms by (simp add: VoiceUi_IsWakeUpWordDetectionEnabled_def VoiceUi_SetPrivacyModeEnable_def
      VoiceUi_SetDeviceFlag_def VoiceUi_GetDeviceFlag_def VoiceUi_GetDeviceFlags_def emit_def Let_def
      device_va_flag_wuw_enabled_def device_va_flag_privacy_mode_enabled_def)

end
