(* ===== verification/Volume.thy ===== *)
theory Volume
  imports Mh40_Prelude "HOL-Library.Signed_Division"
begin

text \<open>
  The volume domain (\<^verbatim>\<open>adk/src/domains/audio/volume\<close>): a volume is a value in a range that is
  divided into steps; volumes are converted between ranges, limited, muted and scaled by the
  system volume. The arithmetic of C is written out: an \<^verbatim>\<open>int\<close> is an integer reduced to 32 signed
  bits after every operation (\<open>i32\<close>), an \<^verbatim>\<open>int16\<close> to 16 (\<open>i16\<close>), an \<^verbatim>\<open>unsigned\<close> to 32 unsigned bits (\<open>u32'\<close>);
  division truncates, and division by zero is a fault.
\<close>

section \<open>Model\<close>

definition i32 :: "int \<Rightarrow> int" where "i32 x = signed_take_bit 31 x"
definition i16 :: "int \<Rightarrow> int" where "i16 x = signed_take_bit 15 x"
definition u32' :: "int \<Rightarrow> int" where "u32' x = take_bit 32 x"

record volume_range =
  range_min :: int
  range_max :: int

record volume_config =
  vrange :: volume_range
  number_of_steps :: int

record volume =
  config :: volume_config
  vvalue :: int

definition FULL_SCALE_VOLUME :: volume where
  "FULL_SCALE_VOLUME =
     \<lparr>config = \<lparr>vrange = \<lparr>range_min = 0, range_max = 1\<rparr>, number_of_steps = 1\<rparr>, vvalue = 1\<rparr>"

definition VOLUME_LIMIT_DISABLED :: volume where "VOLUME_LIMIT_DISABLED = FULL_SCALE_VOLUME"

definition VOLUME_MUTE_IN_DB :: int where "VOLUME_MUTE_IN_DB = -90"
definition appConfigMinVolumedB :: int where "appConfigMinVolumedB = -45"
definition appConfigMaxVolumedB :: int where "appConfigMaxVolumedB = 0"

definition volumeUtils_GetOutputVolumeConfig :: volume_config where
  "volumeUtils_GetOutputVolumeConfig =
     \<lparr>vrange = \<lparr>range_min = appConfigMinVolumedB, range_max = appConfigMaxVolumedB\<rparr>,
      number_of_steps = appConfigMaxVolumedB - appConfigMinVolumedB + 1\<rparr>"

definition VolumeUtils_LimitVolumeToRange :: "int \<Rightarrow> volume_range \<Rightarrow> int" where
  "VolumeUtils_LimitVolumeToRange v r =
     (let volume_result = v;
          volume_result = (if v \<ge> range_max r then range_max r else volume_result) in
      if v \<le> range_min r then range_min r else volume_result)"

text \<open>The number of steps is unsigned, so the division is unsigned as well.\<close>

definition VolumeUtils_GetStepSize :: "volume_config \<Rightarrow> int" where
  "VolumeUtils_GetStepSize c =
     (let steps = u32' (if number_of_steps c > 1 then i32 (number_of_steps c - 1) else 1) in
      i32 (u32' (i32 (range_max (vrange c) - range_min (vrange c))) div steps))"

definition volumeUtils_GetRange :: "volume_config \<Rightarrow> int" where
  "volumeUtils_GetRange c = i16 (i32 (range_max (vrange c) - range_min (vrange c)))"

definition cdiv :: "int \<Rightarrow> int \<Rightarrow> int res" where
  "cdiv a b = (if b = 0 then Inl DivideByZero else Inr (a sdiv b))"

definition VolumeUtils_ConvertToVolumeConfig :: "volume \<Rightarrow> volume_config \<Rightarrow> int res" where
  "VolumeUtils_ConvertToVolumeConfig v out =
     (let input_range = volumeUtils_GetRange (config v); output_range = volumeUtils_GetRange out in
      res_bind (cdiv (i32 (i32 (i32 (vvalue v - range_min (vrange (config v))) * output_range) + input_range sdiv 2))
                  input_range) (\<lambda>q.
        let converted_value = i16 q; output_step_size = i16 (VolumeUtils_GetStepSize out) in
        res_bind (cdiv converted_value output_step_size) (\<lambda>level.
          let converted_value =
                (if converted_value smod output_step_size \<noteq> 0
                 then let output_step_level = i16 level;
                          output_step_level = (if i32 (2 * (converted_value smod output_step_size)) > output_step_size
                            then i16 (output_step_level + 1) else output_step_level) in
                   i16 (i32 (output_step_level * output_step_size))
                 else converted_value);
              converted_value = i16 (converted_value + range_min (vrange out)) in
          Inr (i16 (VolumeUtils_LimitVolumeToRange converted_value (vrange out))))))"

definition VolumeUtils_VolumeIsEqual :: "volume \<Rightarrow> volume \<Rightarrow> bool" where
  "VolumeUtils_VolumeIsEqual v1 v2 \<longleftrightarrow>
     vvalue v1 = vvalue v2 \<and> number_of_steps (config v1) = number_of_steps (config v2) \<and>
     range_min (vrange (config v1)) = range_min (vrange (config v2)) \<and>
     range_max (vrange (config v1)) = range_max (vrange (config v2))"

definition VolumeUtils_IncrementVolume :: "volume \<Rightarrow> int" where
  "VolumeUtils_IncrementVolume v =
     VolumeUtils_LimitVolumeToRange (i32 (vvalue v + VolumeUtils_GetStepSize (config v))) (vrange (config v))"

definition VolumeUtils_DecrementVolume :: "volume \<Rightarrow> int" where
  "VolumeUtils_DecrementVolume v =
     VolumeUtils_LimitVolumeToRange (i32 (vvalue v - VolumeUtils_GetStepSize (config v))) (vrange (config v))"

definition VolumeUtils_GetVolumeInPercent :: "volume \<Rightarrow> int res" where
  "VolumeUtils_GetVolumeInPercent v =
     res_bind (cdiv (i32 (i32 (vvalue v - range_min (vrange (config v))) * 100))
                  (i32 (range_max (vrange (config v)) - range_min (vrange (config v)))))
       (\<lambda>q. Inr (u32' q))"

definition VolumeUtils_GetLimitedVolume :: "volume \<Rightarrow> volume \<Rightarrow> int res" where
  "VolumeUtils_GetLimitedVolume v limit =
     res_bind (VolumeUtils_ConvertToVolumeConfig limit (config v)) (\<lambda>limited_value.
       Inr (if vvalue v > limited_value then limited_value else vvalue v))"

definition VolumeUtils_GetVolumeInDb :: "volume \<Rightarrow> int res" where
  "VolumeUtils_GetVolumeInDb v =
     (if vvalue v > range_min (vrange (config v))
      then VolumeUtils_ConvertToVolumeConfig v volumeUtils_GetOutputVolumeConfig
      else Inr VOLUME_MUTE_IN_DB)"

text \<open>The static data of the limit, the mute state and the system volume.\<close>

record volume_state =
  limit :: volume
  mute_state :: bool
  system_volume :: volume

definition volume_start :: volume_state where
  "volume_start = \<lparr>limit = VOLUME_LIMIT_DISABLED, mute_state = False, system_volume = FULL_SCALE_VOLUME\<rparr>"

definition Volume_SetLimit :: "volume \<Rightarrow> volume_state \<Rightarrow> volume_state" where
  "Volume_SetLimit v s = s\<lparr>limit := v\<rparr>"

definition Volume_RemoveLimit :: "volume_state \<Rightarrow> volume_state" where
  "Volume_RemoveLimit s = s\<lparr>limit := VOLUME_LIMIT_DISABLED\<rparr>"

definition Volume_IsLimitSet :: "volume_state \<Rightarrow> bool" where
  "Volume_IsLimitSet s = (\<not> VolumeUtils_VolumeIsEqual (limit s) VOLUME_LIMIT_DISABLED)"

definition Volume_SetMuteState :: "bool \<Rightarrow> volume_state \<Rightarrow> volume_state" where
  "Volume_SetMuteState m s = s\<lparr>mute_state := m\<rparr>"

definition Volume_SetSystemVolume :: "volume \<Rightarrow> volume_state \<Rightarrow> volume_state" where
  "Volume_SetSystemVolume v s = s\<lparr>system_volume := v\<rparr>"

definition volume_ApplyLimiterToVolume :: "volume_state \<Rightarrow> volume \<Rightarrow> int res" where
  "volume_ApplyLimiterToVolume s v =
     (if Volume_IsLimitSet s then VolumeUtils_GetLimitedVolume v (limit s) else Inr (vvalue v))"

text \<open>The product with the unsigned percentage is unsigned.\<close>

definition Volume_CalculateOutputVolume :: "volume_state \<Rightarrow> volume \<Rightarrow> bool \<Rightarrow> volume res" where
  "Volume_CalculateOutputVolume s trim_volume muted =
     (if mute_state s \<or> muted then Inr (trim_volume\<lparr>vvalue := range_min (vrange (config trim_volume))\<rparr>)
      else res_bind (VolumeUtils_GetVolumeInPercent (system_volume s)) (\<lambda>percent.
        let output_volume = trim_volume\<lparr>vvalue := i32 (u32' (u32' (vvalue trim_volume) * percent) div 100)\<rparr> in
        res_bind (volume_ApplyLimiterToVolume s output_volume) (\<lambda>v.
          Inr (output_volume\<lparr>vvalue := v\<rparr>))))"

section \<open>Specification\<close>

text \<open>
  Conversion in unbounded arithmetic: the offset in the range is scaled, rounded to the nearest
  whole value and then to the nearest step, ties down, and cut off at the end of the range.
\<close>

definition config_ok :: "volume_config \<Rightarrow> bool" where
  "config_ok c \<longleftrightarrow>
     -16384 \<le> range_min (vrange c) \<and> range_max (vrange c) \<le> 16383 \<and>
     range_min (vrange c) < range_max (vrange c) \<and> range_max (vrange c) - range_min (vrange c) \<le> 16383 \<and>
     1 \<le> number_of_steps c \<and> number_of_steps c \<le> range_max (vrange c) - range_min (vrange c) + 1"

definition volume_ok :: "volume \<Rightarrow> bool" where
  "volume_ok v \<longleftrightarrow> config_ok (config v) \<and>
     range_min (vrange (config v)) \<le> vvalue v \<and> vvalue v \<le> range_max (vrange (config v))"

definition extent :: "volume_config \<Rightarrow> int" where
  "extent c = range_max (vrange c) - range_min (vrange c)"

definition step_of :: "volume_config \<Rightarrow> int" where
  "step_of c = extent c div (if number_of_steps c > 1 then number_of_steps c - 1 else 1)"

definition rescale :: "int \<Rightarrow> int \<Rightarrow> int \<Rightarrow> int" where
  "rescale i j d = (d * j + i div 2) div i"

definition nearest_step :: "int \<Rightarrow> int \<Rightarrow> int" where
  "nearest_step s c = s * ((2 * c + s - 1) div (2 * s))"

definition converted :: "volume \<Rightarrow> volume_config \<Rightarrow> int" where
  "converted v out = range_min (vrange out) +
     min (extent out) (nearest_step (step_of out)
       (rescale (extent (config v)) (extent out) (vvalue v - range_min (vrange (config v)))))"

section \<open>Arithmetic\<close>

lemma i32_id: "-2147483648 \<le> x \<Longrightarrow> x < 2147483648 \<Longrightarrow> i32 x = x"
  unfolding i32_def by (rule signed_take_bit_int_eq_self) simp_all

lemma i16_id: "-32768 \<le> x \<Longrightarrow> x < 32768 \<Longrightarrow> i16 x = x"
  unfolding i16_def by (rule signed_take_bit_int_eq_self) simp_all

lemma u32_id: "0 \<le> x \<Longrightarrow> x < 4294967296 \<Longrightarrow> u32' x = x"
  unfolding u32'_def by (rule take_bit_int_eq_self) simp_all

lemma sdiv_pos: "0 \<le> a \<Longrightarrow> 0 < b \<Longrightarrow> a sdiv b = a div b" for a b :: int
  by (cases "a = 0") (simp_all add: signed_divide_int_def sgn_if)

lemma smod_pos: "0 \<le> a \<Longrightarrow> 0 < b \<Longrightarrow> a smod b = a mod b" for a b :: int
  by (cases "a = 0") (simp_all add: signed_modulo_int_def sgn_if)

lemma config_okD:
  assumes "config_ok c"
  shows "1 \<le> extent c" "extent c \<le> 16383" "-16384 \<le> range_min (vrange c)" "range_max (vrange c) \<le> 16383"
    "range_max (vrange c) = range_min (vrange c) + extent c"
    "1 \<le> number_of_steps c" "number_of_steps c \<le> extent c + 1"
  using assms by (auto simp: config_ok_def extent_def)

lemma step_of_bounds:
  assumes "config_ok c"
  shows "1 \<le> step_of c" and "step_of c \<le> extent c"
proof -
  define n where "n = (if number_of_steps c > 1 then number_of_steps c - 1 else 1)"
  have n: "1 \<le> n" "n \<le> extent c"
    using config_okD [OF assms] by (auto simp: n_def)
  have "n * 1 \<le> extent c"
    using n by simp
  then show "1 \<le> step_of c"
    using n unfolding step_of_def n_def [symmetric] by (simp add: pos_imp_zdiv_pos_iff int_one_le_iff_zero_less)
  have "extent c div n \<le> extent c div 1"
    using n by (intro zdiv_mono2) simp_all
  then show "step_of c \<le> extent c"
    unfolding step_of_def n_def [symmetric] by simp
qed

lemma step_size_eq:
  assumes "config_ok c"
  shows "VolumeUtils_GetStepSize c = step_of c"
proof -
  note c = config_okD [OF assms] and b = step_of_bounds [OF assms]
  have e: "i32 (range_max (vrange c) - range_min (vrange c)) = extent c"
    using assms by (simp add: i32_id extent_def config_ok_def)
  have n: "u32' (if number_of_steps c > 1 then i32 (number_of_steps c - 1) else 1) =
      (if number_of_steps c > 1 then number_of_steps c - 1 else 1)"
    using c by (simp add: i32_id u32_id)
  show ?thesis
    unfolding VolumeUtils_GetStepSize_def e n Let_def using c b
    by (simp add: u32_id step_of_def [symmetric] i32_id)
qed

lemma get_range_eq: "config_ok c \<Longrightarrow> volumeUtils_GetRange c = extent c"
  by (simp add: volumeUtils_GetRange_def extent_def i32_id i16_id config_ok_def)

lemma rescale_bounds:
  assumes "1 \<le> i" and "0 \<le> d" and "d \<le> i" and "0 \<le> j"
  shows "0 \<le> rescale i j d" and "rescale i j d \<le> j"
proof -
  show "0 \<le> rescale i j d"
    using assms by (simp add: rescale_def pos_imp_zdiv_nonneg_iff)
  have "d * j \<le> i * j"
    using assms by (simp add: mult_right_mono)
  then have "d * j + i div 2 < (j + 1) * i"
    using assms by (simp add: algebra_simps)
  then have "rescale i j d \<le> (i - 1 + j * i) div i"
    unfolding rescale_def using assms by (intro zdiv_mono1) (simp_all add: algebra_simps)
  also have "\<dots> = j"
    using assms by simp
  finally show "rescale i j d \<le> j" .
qed

text \<open>The rounding of the code is the nearest step.\<close>

lemma nearest_step_eq:
  assumes "0 \<le> c" and "0 < s"
  shows "nearest_step s c = (if 2 * (c mod s) > s then (c div s + 1) * s else c div s * s)"
proof -
  define q r where "q = c div s" and "r = c mod s"
  have c: "c = q * s + r" and r: "0 \<le> r" "r < s"
    using assms by (simp_all add: q_def r_def)
  have "(2 * c + s - 1) div (2 * s) = q + (2 * r + s - 1) div (2 * s)"
  proof -
    have eq: "2 * c + s - 1 = (2 * r + s - 1) + q * (2 * s)"
      by (simp add: c algebra_simps)
    show ?thesis
      unfolding eq by (rule div_mult_self1) (use assms in simp)
  qed
  moreover have "(2 * r + s - 1) div (2 * s) = (if 2 * r > s then 1 else 0)"
  proof (cases "2 * r > s")
    case True
    have "(2 * r + s - 1) div (2 * s) = 1"
      by (rule int_div_pos_eq [where r = "2 * r - s - 1"]) (use True r in auto)
    then show ?thesis
      using True by simp
  qed (use r assms in simp)
  ultimately show ?thesis
    unfolding nearest_step_def q_def [symmetric] r_def [symmetric] by (simp add: algebra_simps)
qed

lemma nearest_step_bounds:
  assumes "0 \<le> c" and "0 < s"
  shows "0 \<le> nearest_step s c" and "2 * nearest_step s c < 2 * c + s" and "2 * c \<le> 2 * nearest_step s c + s"
    and "s dvd nearest_step s c"
proof -
  define q r where "q = c div s * s" and "r = c mod s"
  have m: "c = q + r" "0 \<le> r" "r < s"
    using assms by (simp_all add: q_def r_def)
  show "0 \<le> nearest_step s c"
    using assms by (simp add: nearest_step_eq pos_imp_zdiv_nonneg_iff)
  show "2 * nearest_step s c < 2 * c + s" "2 * c \<le> 2 * nearest_step s c + s"
    unfolding nearest_step_eq [OF assms] distrib_right q_def [symmetric] r_def [symmetric] using m by auto
  show "s dvd nearest_step s c"
    by (simp add: nearest_step_def)
qed

lemma limit_to_range:
  assumes "range_min r \<le> range_max r"
  shows "VolumeUtils_LimitVolumeToRange v r = max (range_min r) (min (range_max r) v)"
  using assms by (auto simp: VolumeUtils_LimitVolumeToRange_def)

lemma convert_eq:
  assumes "volume_ok v" and "config_ok out"
  shows "VolumeUtils_ConvertToVolumeConfig v out = Inr (converted v out)"
proof -
  define i j s d where "i = extent (config v)" and "j = extent out" and "s = step_of out"
    and "d = vvalue v - range_min (vrange (config v))"
  have ci: "config_ok (config v)"
    using assms(1) by (simp add: volume_ok_def)
  have i: "1 \<le> i" "i \<le> 16383" and j: "1 \<le> j" "j \<le> 16383" and d: "0 \<le> d" "d \<le> i"
    using config_okD [OF ci] config_okD [OF assms(2)] assms(1) by (auto simp: i_def j_def d_def volume_ok_def)
  have s: "1 \<le> s" "s \<le> j"
    using step_of_bounds [OF assms(2)] by (simp_all add: s_def j_def)
  have mn: "-16384 \<le> range_min (vrange out)" "range_max (vrange out) = range_min (vrange out) + j"
    "range_max (vrange out) \<le> 16383"
    using config_okD [OF assms(2)] by (simp_all add: j_def)
  have "d * j \<le> 16383 * 16383"
    using i j d by (intro mult_mono) auto
  then have prod: "0 \<le> d * j" "d * j \<le> 268402689"
    using d j by simp_all
  have num: "i32 (i32 (i32 (vvalue v - range_min (vrange (config v))) * j) + i sdiv 2) = d * j + i div 2"
    unfolding d_def [symmetric] using prod d i by (simp add: i32_id sdiv_pos)
  define c where "c = rescale i j d"
  have c: "0 \<le> c" "c \<le> j"
    using rescale_bounds [of i d j] i j d by (simp_all add: c_def)
  have quot: "cdiv (d * j + i div 2) i = Inr c"
    using prod i by (simp add: cdiv_def sdiv_pos c_def rescale_def)
  have c16: "i16 c = c" and s16: "i16 s = s"
    using c j s by (simp_all add: i16_id)
  have lvl: "cdiv c s = Inr (c div s)"
    using c s by (simp add: cdiv_def sdiv_pos)
  define x where "x = nearest_step s c"
  have x: "0 \<le> x" "2 * x < 2 * c + s"
    using nearest_step_bounds [of c s] c s by (simp_all add: x_def)
  have cs: "0 \<le> c div s" "c div s \<le> 16383"
    using c j s by (simp_all add: pos_imp_zdiv_nonneg_iff) (smt (verit) div_by_1 zdiv_mono2)
  have cm: "0 \<le> c mod s" "c mod s < s"
    using s by simp_all
  have rounded: "(if c smod s \<noteq> 0
      then let output_step_level = i16 (c div s);
               output_step_level = (if i32 (2 * (c smod s)) > s then i16 (output_step_level + 1) else output_step_level)
        in i16 (i32 (output_step_level * s)) else c) = x"
  proof -
    have "(if 2 * (c mod s) > s then c div s + 1 else c div s) * s = x"
      using nearest_step_eq [of c s] c s by (simp add: x_def)
    moreover have "i16 (i32 x) = x"
      using x c j s by (simp add: i32_id i16_id)
    moreover have "x = c" if "c mod s = 0"
      using nearest_step_eq [of c s] c s that by (simp add: x_def) (metis add.right_neutral div_mult_mod_eq)
    ultimately show ?thesis
      using c s cs cm j by (auto simp: smod_pos i32_id i16_id Let_def)
  qed
  have sum16: "i16 (x + range_min (vrange out)) = x + range_min (vrange out)"
    using x c j s mn by (simp add: i16_id)
  have "VolumeUtils_LimitVolumeToRange (x + range_min (vrange out)) (vrange out) = range_min (vrange out) + min j x"
    using x(1) j mn(2) by (simp add: limit_to_range)
  moreover have "i16 (range_min (vrange out) + min j x) = range_min (vrange out) + min j x"
    using x(1) j mn by (simp add: i16_id)
  ultimately show ?thesis
    unfolding VolumeUtils_ConvertToVolumeConfig_def get_range_eq [OF ci] get_range_eq [OF assms(2)]
      step_size_eq [OF assms(2)] i_def [symmetric] j_def [symmetric] s_def [symmetric] Let_def num quot
      res_bind_simps c16 s16 lvl
    using rounded [unfolded Let_def] sum16
    by (simp add: converted_def i_def [symmetric] j_def [symmetric] s_def [symmetric] d_def [symmetric]
        c_def [symmetric] x_def [symmetric])
qed

section \<open>Properties\<close>

lemma rescale_mono: "1 \<le> i \<Longrightarrow> 0 \<le> j \<Longrightarrow> d \<le> e \<Longrightarrow> rescale i j d \<le> rescale i j e"
  unfolding rescale_def by (intro zdiv_mono1) (simp_all add: mult_right_mono)

lemma nearest_step_mono: "0 < s \<Longrightarrow> c \<le> d \<Longrightarrow> nearest_step s c \<le> nearest_step s d"
  unfolding nearest_step_def by (intro mult_left_mono zdiv_mono1) simp_all

lemma rescale_back:
  assumes "1 \<le> i" and "i \<le> j"
  shows "rescale j i (rescale i j d) = d"
proof -
  define r where "r = (d * j + i div 2) mod i"
  have r: "0 \<le> r" "r < i"
    using assms by (simp_all add: r_def)
  have x: "rescale i j d * i = d * j + i div 2 - r"
    unfolding rescale_def r_def by (simp add: minus_mod_eq_div_mult)
  define t where "t = i div 2 - r + j div 2"
  have "t < j"
  proof (cases "i = j")
    case True
    have "r = i div 2"
      unfolding r_def using assms True by simp
    then show ?thesis
      unfolding t_def using assms by simp
  qed (use r assms in \<open>simp add: t_def\<close>)
  moreover have "0 \<le> t"
    using r assms by (simp add: t_def)
  moreover have "rescale i j d * i + j div 2 = t + d * j"
    unfolding x t_def by simp
  ultimately show ?thesis
    unfolding rescale_def [of j i] using assms by simp
qed

lemma nearest_step_one: "nearest_step 1 c = c"
  by (simp add: nearest_step_def)

text \<open>
  C26. Conversion between volume ranges: for every volume within a range that fits the 16-bit arithmetic,
  and every such target, the conversion succeeds without overflow, stays in the target
  range, is a whole number of target steps above its minimum or its maximum, is within half a step and one
  half of the exact proportion, and keeps the order of volumes.
\<close>

theorem volume_conversion:
  assumes "volume_ok v" and "volume_ok u" and "config v = config u" and "vvalue u \<le> vvalue v" and "config_ok out"
  shows "\<exists>x y. VolumeUtils_ConvertToVolumeConfig u out = Inr x \<and> VolumeUtils_ConvertToVolumeConfig v out = Inr y \<and>
    x \<le> y \<and> range_min (vrange out) \<le> x \<and> y \<le> range_max (vrange out) \<and>
    (VolumeUtils_GetStepSize out dvd x - range_min (vrange out) \<or> x = range_max (vrange out)) \<and>
    2 * \<bar>(x - range_min (vrange out)) * extent (config u) -
         (vvalue u - range_min (vrange (config u))) * extent out\<bar> \<le>
      (VolumeUtils_GetStepSize out + 1) * extent (config u)"
proof -
  define i j s d where "i = extent (config u)" and "j = extent out" and "s = step_of out"
    and "d = vvalue u - range_min (vrange (config u))"
  have i: "1 \<le> i" and j: "1 \<le> j" and d: "0 \<le> d" "d \<le> i"
    and mx: "range_max (vrange out) = range_min (vrange out) + j"
    using config_okD [of "config u"] config_okD [OF assms(5)] assms(2)
    by (auto simp: volume_ok_def i_def j_def d_def)
  have s: "1 \<le> s"
    using step_of_bounds [OF assms(5)] by (simp add: s_def)
  define c where "c = rescale i j d"
  have c: "0 \<le> c" "c \<le> j"
    using rescale_bounds [OF i d, of j] j by (simp_all add: c_def)
  define x where "x = nearest_step s c"
  have x: "0 \<le> x" "2 * x < 2 * c + s" "2 * c \<le> 2 * x + s" "s dvd x"
    using nearest_step_bounds [of c s] c s by (simp_all add: x_def)
  have r: "c * i \<le> d * j + i div 2" "d * j + i div 2 < c * i + i"
  proof -
    have "(d * j + i div 2) div i * i + (d * j + i div 2) mod i = d * j + i div 2"
      by (rule div_mult_mod_eq)
    then show "c * i \<le> d * j + i div 2" "d * j + i div 2 < c * i + i"
      using i pos_mod_bound [of i "d * j + i div 2"] pos_mod_sign [of i "d * j + i div 2"]
      unfolding c_def rescale_def by linarith+
  qed
  have exact: "d * j \<le> j * i"
    using d j by (simp add: mult.commute mult_right_mono)
  have cx: "converted u out = range_min (vrange out) + min j x"
    by (simp add: converted_def i_def j_def s_def d_def c_def x_def)
  have "2 * x * i \<le> (2 * c + s - 1) * i" "(2 * c - s) * i \<le> 2 * x * i"
    using x i by (intro mult_right_mono; simp)+
  then have up: "2 * (x * i) \<le> 2 * (c * i) + s * i - i" and low: "2 * (c * i) - s * i \<le> 2 * (x * i)"
    by (simp_all add: algebra_simps)
  have half: "2 * (i div 2) \<le> i" "i \<le> 2 * (i div 2) + 1"
    by simp_all
  have dist: "2 * (x * i) \<le> 2 * (d * j) + s * i" "2 * (d * j) - s * i - i \<le> 2 * (x * i)"
    using up low r half by linarith+
  have near: "2 * \<bar>min j x * i - d * j\<bar> \<le> (s + 1) * i"
  proof (cases "x \<le> j")
    case True
    then have m: "min j x = x"
      by simp
    have "2 * (x * i - d * j) \<le> s * i + i" "- (2 * (x * i - d * j)) \<le> s * i + i"
      unfolding right_diff_distrib using dist i by simp_all
    then have "\<bar>2 * (x * i - d * j)\<bar> \<le> (s + 1) * i"
      unfolding distrib_right mult_1 by (rule abs_leI)
    then show ?thesis
      unfolding m abs_mult by simp
  next
    case False
    then have "j * i \<le> x * i"
      using i by (intro mult_right_mono) simp_all
    then have "2 * (j * i - d * j) \<le> s * i"
      unfolding right_diff_distrib using dist(1) by simp
    then show ?thesis
      using False exact i by (simp add: min_def distrib_right)
  qed
  have mono: "converted u out \<le> converted v out"
  proof -
    have "nearest_step s c \<le> nearest_step s (rescale i j (vvalue v - range_min (vrange (config u))))"
      unfolding c_def using s i j assms(4) by (intro nearest_step_mono rescale_mono) (simp_all add: d_def)
    then show ?thesis
      unfolding converted_def assms(3) i_def [symmetric] j_def [symmetric] s_def [symmetric] d_def [symmetric]
        c_def [symmetric] by simp
  qed
  have le: "converted v out \<le> range_max (vrange out)"
    unfolding converted_def mx j_def by simp
  have ge: "range_min (vrange out) \<le> converted u out"
    unfolding cx using x(1) j by simp
  have steps: "s dvd converted u out - range_min (vrange out) \<or> converted u out = range_max (vrange out)"
    unfolding cx mx using x(4) by (simp add: min_def)
  have dist': "2 * \<bar>(converted u out - range_min (vrange out)) * i - d * j\<bar> \<le> (s + 1) * i"
    unfolding cx using near by simp
  show ?thesis
    using convert_eq [OF assms(2,5)] convert_eq [OF assms(1,5)] mono le ge steps dist'
    unfolding step_size_eq [OF assms(5)] s_def [symmetric] i_def [symmetric] j_def [symmetric] d_def [symmetric]
    by (intro exI [of _ "converted u out"] exI [of _ "converted v out"]) simp
qed

definition volume_of :: "int \<Rightarrow> int \<Rightarrow> int \<Rightarrow> int \<Rightarrow> volume" where
  "volume_of lo hi n v = \<lparr>config = \<lparr>vrange = \<lparr>range_min = lo, range_max = hi\<rparr>, number_of_steps = n\<rparr>, vvalue = v\<rparr>"

theorem volume_conversion_witness:
  "\<exists>x y. VolumeUtils_ConvertToVolumeConfig (volume_of 0 127 128 40) volumeUtils_GetOutputVolumeConfig = Inr x \<and>
     VolumeUtils_ConvertToVolumeConfig (volume_of 0 127 128 90) volumeUtils_GetOutputVolumeConfig = Inr y \<and> x \<le> y"
proof -
  have ok: "volume_ok (volume_of 0 127 128 90)" "volume_ok (volume_of 0 127 128 40)"
    "config (volume_of 0 127 128 90) = config (volume_of 0 127 128 40)"
    "vvalue (volume_of 0 127 128 40) \<le> vvalue (volume_of 0 127 128 90)" "config_ok volumeUtils_GetOutputVolumeConfig"
    by (simp_all add: volume_ok_def config_ok_def volume_of_def volumeUtils_GetOutputVolumeConfig_def
        appConfigMinVolumedB_def appConfigMaxVolumedB_def)
  show ?thesis
    using volume_conversion [OF ok] by blast
qed

lemma convert_back:
  assumes "volume_ok v" and "config_ok out" and "VolumeUtils_GetStepSize (config v) = 1"
    and "VolumeUtils_GetStepSize out = 1" and "extent (config v) \<le> extent out"
  shows "\<exists>x. VolumeUtils_ConvertToVolumeConfig v out = Inr x \<and>
    VolumeUtils_ConvertToVolumeConfig \<lparr>config = out, vvalue = x\<rparr> (config v) = Inr (vvalue v)"
proof -
  define i j d where "i = extent (config v)" and "j = extent out" and "d = vvalue v - range_min (vrange (config v))"
  have ci: "config_ok (config v)"
    using assms(1) by (simp add: volume_ok_def)
  have s: "step_of (config v) = 1" "step_of out = 1"
    using assms(3,4) step_size_eq [OF ci] step_size_eq [OF assms(2)] by simp_all
  have i: "1 \<le> i" "i \<le> j" and d: "0 \<le> d" "d \<le> i"
    using config_okD [OF ci] assms(1,5) by (auto simp: i_def j_def d_def volume_ok_def)
  define c where "c = rescale i j d"
  have c: "0 \<le> c" "c \<le> j"
    using rescale_bounds [OF i(1) d, of j] i by (simp_all add: c_def)
  have x: "converted v out = range_min (vrange out) + c"
    using c by (simp add: converted_def s nearest_step_one i_def [symmetric] j_def [symmetric] d_def [symmetric]
        c_def [symmetric])
  let ?w = "\<lparr>config = out, vvalue = converted v out\<rparr>"
  have w: "volume_ok ?w"
    using assms(2) c config_okD(5) [OF assms(2)] by (simp add: volume_ok_def x j_def)
  have bk: "rescale j i c = d"
    using rescale_back [OF i, of d] by (simp add: c_def)
  have "vvalue ?w - range_min (vrange (config ?w)) = c" "extent (config ?w) = j"
    by (simp_all add: x j_def)
  then have "converted ?w (config v) = range_min (vrange (config v)) + min i d"
    unfolding converted_def [of ?w] s i_def [symmetric] nearest_step_one by (simp only: bk)
  then have "converted ?w (config v) = vvalue v"
    using d by (simp add: d_def)
  then show ?thesis
    using convert_eq [OF assms(1,2)] convert_eq [OF w ci] by simp
qed

text \<open>
  Conversions do not drift: a volume converted to any range with steps of one that is at least as wide,
  and back, is the same volume again.
\<close>

theorem volume_conversion_roundtrip:
  assumes "volume_ok v" and "config_ok out" and "VolumeUtils_GetStepSize (config v) = 1"
    and "VolumeUtils_GetStepSize out = 1" and "extent (config v) \<le> extent out"
  shows "\<exists>x. VolumeUtils_ConvertToVolumeConfig v out = Inr x \<and>
    VolumeUtils_ConvertToVolumeConfig \<lparr>config = out, vvalue = x\<rparr> (config v) = Inr (vvalue v)"
  by (rule convert_back [OF assms])

theorem volume_conversion_roundtrip_witness:
  "\<exists>x. VolumeUtils_ConvertToVolumeConfig (volume_of 0 15 16 7) (config (volume_of 0 127 128 0)) = Inr x \<and>
     VolumeUtils_ConvertToVolumeConfig \<lparr>config = config (volume_of 0 127 128 0), vvalue = x\<rparr> (config (volume_of 0 15 16 7)) = Inr 7"
proof -
  have ok: "volume_ok (volume_of 0 15 16 7)" "config_ok (config (volume_of 0 127 128 0))"
    by (simp_all add: volume_ok_def config_ok_def volume_of_def)
  have step: "VolumeUtils_GetStepSize (config (volume_of 0 15 16 7)) = 1"
    "VolumeUtils_GetStepSize (config (volume_of 0 127 128 0)) = 1"
    by code_simp+
  have "extent (config (volume_of 0 15 16 7)) \<le> extent (config (volume_of 0 127 128 0))"
    by (simp add: extent_def volume_of_def)
  from volume_conversion_roundtrip [OF ok step this] show ?thesis
    by (simp add: volume_of_def)
qed

lemma percent_eq:
  assumes "volume_ok v"
  shows "VolumeUtils_GetVolumeInPercent v =
      Inr ((vvalue v - range_min (vrange (config v))) * 100 div extent (config v))"
    and "0 \<le> (vvalue v - range_min (vrange (config v))) * 100 div extent (config v)"
    and "(vvalue v - range_min (vrange (config v))) * 100 div extent (config v) \<le> 100"
proof -
  define d i where "d = vvalue v - range_min (vrange (config v))" and "i = extent (config v)"
  have ci: "config_ok (config v)"
    using assms by (simp add: volume_ok_def)
  have d: "0 \<le> d" "d \<le> i" "1 \<le> i" "i \<le> 16383"
    using config_okD [OF ci] assms by (auto simp: i_def d_def volume_ok_def)
  have ext: "range_max (vrange (config v)) - range_min (vrange (config v)) = i"
    by (simp add: i_def extent_def)
  have "d * 100 div i \<le> (100 * i) div i"
    using d by (intro zdiv_mono1) simp_all
  then have le: "d * 100 div i \<le> 100"
    using d by simp
  have ge: "0 \<le> d * 100 div i"
    using d by (simp add: pos_imp_zdiv_nonneg_iff)
  show "0 \<le> (vvalue v - range_min (vrange (config v))) * 100 div extent (config v)"
    "(vvalue v - range_min (vrange (config v))) * 100 div extent (config v) \<le> 100"
    using ge le by (simp_all add: d_def i_def)
  show "VolumeUtils_GetVolumeInPercent v = Inr ((vvalue v - range_min (vrange (config v))) * 100 div extent (config v))"
    unfolding VolumeUtils_GetVolumeInPercent_def ext d_def [symmetric] i_def [symmetric]
    using d ge le by (simp add: i32_id cdiv_def sdiv_pos u32_id)
qed

lemma limited_eq:
  assumes "config_ok (config v)" and "volume_ok l"
  shows "VolumeUtils_GetLimitedVolume v l = Inr (min (vvalue v) (converted l (config v)))"
  using convert_eq [OF assms(2,1)] by (simp add: VolumeUtils_GetLimitedVolume_def min_def)

lemma converted_range: 
  assumes "volume_ok v" and "config_ok out"
  shows "range_min (vrange out) \<le> converted v out" and "converted v out \<le> range_max (vrange out)"
proof -
  have ci: "config_ok (config v)"
    using assms(1) by (simp add: volume_ok_def)
  have "0 \<le> rescale (extent (config v)) (extent out) (vvalue v - range_min (vrange (config v)))"
    using rescale_bounds [of "extent (config v)" "vvalue v - range_min (vrange (config v))" "extent out"]
      config_okD [OF ci] config_okD [OF assms(2)] assms(1) by (auto simp: volume_ok_def)
  then show "range_min (vrange out) \<le> converted v out"
    using nearest_step_bounds(1) [of _ "step_of out"] step_of_bounds [OF assms(2)] config_okD [OF assms(2)]
    by (simp add: converted_def)
  show "converted v out \<le> range_max (vrange out)"
    using config_okD(5) [OF assms(2)] by (simp add: converted_def)
qed

lemma output_volume:
  assumes "volume_ok trim" and "range_min (vrange (config trim)) = 0" and "volume_ok (system_volume s)"
    and "Volume_IsLimitSet s \<longrightarrow> volume_ok (limit s)"
  shows "\<exists>out. Volume_CalculateOutputVolume s trim muted = Inr out \<and> config out = config trim \<and>
    0 \<le> vvalue out \<and> vvalue out \<le> vvalue trim \<and>
    (mute_state s \<or> muted \<longrightarrow> vvalue out = 0) \<and>
    (Volume_IsLimitSet s \<longrightarrow> VolumeUtils_ConvertToVolumeConfig (limit s) (config trim) = Inr (converted (limit s) (config trim)) \<and>
      vvalue out \<le> converted (limit s) (config trim)) \<and>
    (\<not> mute_state s \<and> \<not> muted \<and> \<not> Volume_IsLimitSet s \<and>
      vvalue (system_volume s) = range_max (vrange (config (system_volume s))) \<longrightarrow> vvalue out = vvalue trim)"
proof -
  define p where "p = (vvalue (system_volume s) - range_min (vrange (config (system_volume s)))) * 100 div
    extent (config (system_volume s))"
  have p: "VolumeUtils_GetVolumeInPercent (system_volume s) = Inr p" "0 \<le> p" "p \<le> 100"
    using percent_eq [OF assms(3)] by (simp_all add: p_def)
  have ct: "config_ok (config trim)"
    using assms(1) by (simp add: volume_ok_def)
  have t: "0 \<le> vvalue trim" "vvalue trim \<le> 16383"
    using assms(1,2) config_okD(4) [OF ct] by (auto simp: volume_ok_def)
  define x where "x = vvalue trim * p div 100"
  have "vvalue trim * p \<le> vvalue trim * 100"
    using t p by (intro mult_left_mono) simp_all
  then have prod: "0 \<le> vvalue trim * p" "vvalue trim * p \<le> vvalue trim * 100" "vvalue trim * p \<le> 1638300"
    using t p by simp_all
  have x: "0 \<le> x" "x \<le> vvalue trim" "x \<le> 16383"
    using prod t zdiv_mono1 [OF prod(2), of 100] by (simp_all add: x_def pos_imp_zdiv_nonneg_iff)
  have val: "i32 (u32' (u32' (vvalue trim) * p) div 100) = x"
    using prod t x by (simp add: u32_id i32_id x_def [symmetric])
  have full: "x = vvalue trim" if "vvalue (system_volume s) = range_max (vrange (config (system_volume s)))"
  proof -
    have "1 \<le> extent (config (system_volume s))"
      using assms(3) config_okD(1) by (simp add: volume_ok_def)
    then have "p = 100"
      unfolding p_def that extent_def [symmetric] by simp
    then show ?thesis
      by (simp add: x_def)
  qed
  show ?thesis
  proof (cases "mute_state s \<or> muted")
    case True
    then show ?thesis
      using assms(2,4) t convert_eq [OF _ ct] converted_range(1) [OF _ ct]
      by (auto simp: Volume_CalculateOutputVolume_def)
  next
    case False
    show ?thesis
    proof (cases "Volume_IsLimitSet s")
      case True
      then have l: "volume_ok (limit s)"
        using assms(4) by simp
      have "0 \<le> converted (limit s) (config trim)"
        using converted_range(1) [OF l ct] assms(2) by simp
      then show ?thesis
        using False True p val x limited_eq [of "trim\<lparr>vvalue := x\<rparr>", OF _ l] ct convert_eq [OF l ct]
        by (simp add: Volume_CalculateOutputVolume_def volume_ApplyLimiterToVolume_def)
    next
      case no: False
      then show ?thesis
        using False p val x full by (simp add: Volume_CalculateOutputVolume_def volume_ApplyLimiterToVolume_def)
    qed
  qed
qed

text \<open>
  C27. The output volume: for a source whose range starts at 0 the computation succeeds, the result is never
  louder than the source's own volume nor than the limit, it is the minimum when the system or the source
  is muted, and the source's own volume at full system volume without a limit.
\<close>

theorem output_volume_bounded:
  assumes "volume_ok trim" and "range_min (vrange (config trim)) = 0" and "volume_ok (system_volume s)"
    and "Volume_IsLimitSet s \<longrightarrow> volume_ok (limit s)"
  shows "\<exists>out. Volume_CalculateOutputVolume s trim muted = Inr out \<and> config out = config trim \<and>
    0 \<le> vvalue out \<and> vvalue out \<le> vvalue trim \<and>
    (mute_state s \<or> muted \<longrightarrow> vvalue out = 0) \<and>
    (Volume_IsLimitSet s \<longrightarrow> VolumeUtils_ConvertToVolumeConfig (limit s) (config trim) = Inr (converted (limit s) (config trim)) \<and>
      vvalue out \<le> converted (limit s) (config trim)) \<and>
    (\<not> mute_state s \<and> \<not> muted \<and> \<not> Volume_IsLimitSet s \<and>
      vvalue (system_volume s) = range_max (vrange (config (system_volume s))) \<longrightarrow> vvalue out = vvalue trim)"
  by (rule output_volume [OF assms])

theorem output_volume_bounded_witness:
  "\<exists>out. Volume_CalculateOutputVolume (Volume_SetLimit (volume_of 0 100 101 50) volume_start) (volume_of 0 127 128 90) False = Inr out \<and>
     vvalue out \<le> 90"
proof -
  let ?s = "Volume_SetLimit (volume_of 0 100 101 50) volume_start"
  have ok: "volume_ok (volume_of 0 127 128 90)" "range_min (vrange (config (volume_of 0 127 128 90))) = 0"
    "volume_ok (system_volume ?s)" "Volume_IsLimitSet ?s \<longrightarrow> volume_ok (limit ?s)"
    by (simp_all add: volume_ok_def config_ok_def volume_of_def Volume_SetLimit_def volume_start_def FULL_SCALE_VOLUME_def)
  show ?thesis
    using output_volume_bounded [OF ok, of False] by (auto simp: volume_of_def)
qed

text \<open>
  For a source whose range does not start at 0 the same computation goes wrong: the product with the
  unsigned percentage turns a negative volume into a huge one, outside the range.
\<close>

theorem negative_volume_explodes:
  "map_sum id vvalue (Volume_CalculateOutputVolume (Volume_SetSystemVolume (volume_of 0 100 101 50) volume_start)
     (volume_of (-45) 0 46 (-20)) False) = Inr 42949662"
  by code_simp

text \<open>A range without extent, or one with more steps than values, divides by zero.\<close>

theorem empty_range_divides_by_zero:
  "VolumeUtils_ConvertToVolumeConfig (volume_of 5 5 1 5) (config (volume_of 0 127 128 0)) = Inl DivideByZero \<and>
   VolumeUtils_ConvertToVolumeConfig (volume_of 0 15 16 5) (config (volume_of 0 10 100 0)) = Inl DivideByZero"
  by code_simp

text \<open>Steps that do not divide the range leave its end out of reach of conversion.\<close>

theorem maximum_not_reached:
  "VolumeUtils_ConvertToVolumeConfig (volume_of 0 15 16 15) (config (volume_of 0 100 12 0)) = Inr 99"
  by code_simp

lemma volume_in_db:
  assumes "volume_ok v"
  shows "\<exists>g. VolumeUtils_GetVolumeInDb v = Inr g \<and> g \<le> 0 \<and> (g = VOLUME_MUTE_IN_DB \<or> appConfigMinVolumedB \<le> g)"
proof -
  have out: "config_ok volumeUtils_GetOutputVolumeConfig"
    by (simp add: config_ok_def volumeUtils_GetOutputVolumeConfig_def appConfigMinVolumedB_def appConfigMaxVolumedB_def)
  show ?thesis
    using convert_eq [OF assms out] converted_range [OF assms out]
    by (auto simp: VolumeUtils_GetVolumeInDb_def volumeUtils_GetOutputVolumeConfig_def appConfigMaxVolumedB_def VOLUME_MUTE_IN_DB_def)
qed

lemma increment_in_range:
  assumes "volume_ok v"
  shows "vvalue v \<le> VolumeUtils_IncrementVolume v" and "VolumeUtils_IncrementVolume v \<le> range_max (vrange (config v))"
    and "VolumeUtils_DecrementVolume v \<le> vvalue v" and "range_min (vrange (config v)) \<le> VolumeUtils_DecrementVolume v"
    and "vvalue v < range_max (vrange (config v)) \<Longrightarrow> vvalue v < VolumeUtils_IncrementVolume v"
    and "range_min (vrange (config v)) < vvalue v \<Longrightarrow> VolumeUtils_DecrementVolume v < vvalue v"
proof -
  have c: "config_ok (config v)"
    using assms by (simp add: volume_ok_def)
  note s = step_of_bounds [OF c] and d = config_okD [OF c]
  have r: "range_min (vrange (config v)) \<le> vvalue v" "vvalue v \<le> range_max (vrange (config v))"
    using assms by (simp_all add: volume_ok_def)
  have "i32 (vvalue v + step_of (config v)) = vvalue v + step_of (config v)"
    "i32 (vvalue v - step_of (config v)) = vvalue v - step_of (config v)"
    using s d r by (simp_all add: i32_id)
  then have eq: "VolumeUtils_IncrementVolume v = max (range_min (vrange (config v)))
      (min (range_max (vrange (config v))) (vvalue v + step_of (config v)))"
    "VolumeUtils_DecrementVolume v = max (range_min (vrange (config v)))
      (min (range_max (vrange (config v))) (vvalue v - step_of (config v)))"
    using d by (simp_all add: VolumeUtils_IncrementVolume_def VolumeUtils_DecrementVolume_def step_size_eq [OF c] limit_to_range)
  show "vvalue v \<le> VolumeUtils_IncrementVolume v" "VolumeUtils_IncrementVolume v \<le> range_max (vrange (config v))"
    "VolumeUtils_DecrementVolume v \<le> vvalue v" "range_min (vrange (config v)) \<le> VolumeUtils_DecrementVolume v"
    "vvalue v < range_max (vrange (config v)) \<Longrightarrow> vvalue v < VolumeUtils_IncrementVolume v"
    "range_min (vrange (config v)) < vvalue v \<Longrightarrow> VolumeUtils_DecrementVolume v < vvalue v"
    unfolding eq using r s d by auto
qed

end
