(* ===== verification/Audio_Sources.thy ===== *)
theory Audio_Sources
  imports Audio_Registry Volume
begin

text \<open>
  What the volume service asks of sources of audio and voice
  (\<^verbatim>\<open>audio_sources_volume.c\<close>, \<^verbatim>\<open>audio_sources_volume_control.c\<close> and \<^verbatim>\<open>audio_sources_observer.c\<close> of
  \<^verbatim>\<open>adk/src/domains/audio/audio_sources\<close>, and the files of the same names of \<^verbatim>\<open>voice_sources\<close>): the volume of a source,
  its remote volume control, and its observers, each through a registered table of functions. The
  functions that read and write a volume work on the state of their owner, an arbitrary \<open>'c\<close>, and
  their contract is the locale \<open>volume_tables\<close>; the others are calls that leave the model.
\<close>

section \<open>State\<close>

datatype event_origin = event_origin_local | event_origin_external | event_origin_peer

text \<open>The tables behind the pointers. \<open>None\<close> and \<open>False\<close> are functions a table does not have.\<close>

record 'c volume_table =
  GetVolume :: "(nat \<Rightarrow> 'c \<Rightarrow> (volume \<times> 'c) res) option"
  SetVolume :: "(nat \<Rightarrow> volume \<Rightarrow> 'c \<Rightarrow> 'c res) option"
  GetMuteState :: "(nat \<Rightarrow> 'c \<Rightarrow> bool res) option"
  SetMuteState :: "(nat \<Rightarrow> bool \<Rightarrow> 'c \<Rightarrow> 'c res) option"

record control_table =
  VolumeUp :: bool
  VolumeDown :: bool
  VolumeSetAbsolute :: bool
  Mute :: bool

record observer_table =
  OnVolumeChange :: bool
  OnAudioRoutingChange :: bool
  OnMuteChange :: bool

record 'c source_tables =
  volume_tab :: "ptr \<Rightarrow> 'c volume_table"
  control_tab :: "ptr \<Rightarrow> control_table"
  observer_tab :: "ptr \<Rightarrow> observer_table"

text \<open>Calls that leave the model: the first seven of the functions of tables, the others of the volume service.\<close>

datatype sound_call =
    CallVolumeUp ptr generic_source
  | CallVolumeDown ptr generic_source
  | CallVolumeSetAbsolute ptr generic_source volume
  | CallMute ptr generic_source bool
  | CallOnVolumeChange ptr generic_source event_origin volume
  | CallOnAudioRoutingChange ptr generic_source bool
  | CallOnMuteChange ptr generic_source event_origin bool
  | KymeraSetVolume generic_source volume
  | NotifyMaxVolume
  | NotifyMinVolume

record 'c sources =
  audio_registry :: audio_source_interface_registry
  voice_volumes :: "ptr option list"
  voice_controls :: "ptr option list"
  voice_observers :: "ptr option list list"
  volume_data :: volume_state
  client :: 'c
  calls :: "sound_call list"

definition call :: "sound_call \<Rightarrow> ('c, 'm) sources_scheme \<Rightarrow> ('c, 'm) sources_scheme" where
  "call x w = w\<lparr>calls := calls w @ [x]\<rparr>"

section \<open>Audio sources\<close>

text \<open>\<open>AudioInterface_Get\<close> and the other two on the state.\<close>

definition interfaces_of ::
  "nat \<Rightarrow> interface_type \<Rightarrow> ('c, 'm) sources_scheme \<Rightarrow> (('c, 'm) sources_scheme \<times> ptr option list \<times> nat) res" where
  "interfaces_of s ty w = res_bind (AudioInterface_Get s ty (audio_registry w)) (\<lambda>(r, l, n).
     Inr (w\<lparr>audio_registry := r\<rparr>, l, n))"

definition register_interface ::
  "nat \<Rightarrow> interface_type \<Rightarrow> ptr option \<Rightarrow> ('c, 'm) sources_scheme \<Rightarrow> ('c, 'm) sources_scheme res" where
  "register_interface s ty p w = res_bind (AudioInterface_Register s ty p (audio_registry w)) (\<lambda>r.
     Inr (w\<lparr>audio_registry := r\<rparr>))"

definition unregister_interface ::
  "nat \<Rightarrow> interface_type \<Rightarrow> ptr option \<Rightarrow> ('c, 'm) sources_scheme \<Rightarrow> ('c, 'm) sources_scheme res" where
  "unregister_interface s ty p w = res_bind (AudioInterface_UnRegister s ty p (audio_registry w)) (\<lambda>r.
     Inr (w\<lparr>audio_registry := r\<rparr>))"

subsection \<open>Volume\<close>

definition audioSources_GetVolumeInterface ::
  "nat \<Rightarrow> ('c, 'm) sources_scheme \<Rightarrow> (('c, 'm) sources_scheme \<times> ptr option) res" where
  "audioSources_GetVolumeInterface s w =
     res_bind (interfaces_of s audio_interface_type_volume_registry w) (\<lambda>(w, l, n). Inr (w, l ! 0))"

definition AudioSources_RegisterVolume :: "nat \<Rightarrow> ptr option \<Rightarrow> ('c, 'm) sources_scheme \<Rightarrow> ('c, 'm) sources_scheme res" where
  "AudioSources_RegisterVolume s p w =
     res_bind (interfaces_of s audio_interface_type_volume_registry w) (\<lambda>(w, l, n).
       if n \<noteq> 0
       then if p = l ! 0 then Inr w
         else res_bind (unregister_interface s audio_interface_type_volume_registry (l ! 0) w)
           (register_interface s audio_interface_type_volume_registry p)
       else register_interface s audio_interface_type_volume_registry p w)"

definition AudioSources_GetVolume ::
  "'c source_tables \<Rightarrow> nat \<Rightarrow> ('c, 'm) sources_scheme \<Rightarrow> (('c, 'm) sources_scheme \<times> volume) res" where
  "AudioSources_GetVolume t s w = res_bind (audioSources_GetVolumeInterface s w) (\<lambda>(w, p).
     case Option.bind p (\<lambda>p. GetVolume (volume_tab t p)) of
       None \<Rightarrow> Inr (w, FULL_SCALE_VOLUME)
     | Some f \<Rightarrow> res_bind (f s (client w)) (\<lambda>(v, c). Inr (w\<lparr>client := c\<rparr>, v)))"

definition AudioSources_SetVolume ::
  "'c source_tables \<Rightarrow> nat \<Rightarrow> volume \<Rightarrow> ('c, 'm) sources_scheme \<Rightarrow> ('c, 'm) sources_scheme res" where
  "AudioSources_SetVolume t s v w = res_bind (audioSources_GetVolumeInterface s w) (\<lambda>(w, p).
     case Option.bind p (\<lambda>p. SetVolume (volume_tab t p)) of
       None \<Rightarrow> Inr w
     | Some f \<Rightarrow> res_bind (f s v (client w)) (\<lambda>c. Inr (w\<lparr>client := c\<rparr>)))"

definition AudioSources_GetMuteState ::
  "'c source_tables \<Rightarrow> nat \<Rightarrow> ('c, 'm) sources_scheme \<Rightarrow> (('c, 'm) sources_scheme \<times> bool) res" where
  "AudioSources_GetMuteState t s w = res_bind (audioSources_GetVolumeInterface s w) (\<lambda>(w, p).
     case Option.bind p (\<lambda>p. GetMuteState (volume_tab t p)) of
       None \<Rightarrow> Inr (w, False)
     | Some f \<Rightarrow> res_bind (f s (client w)) (\<lambda>m. Inr (w, m)))"

definition AudioSources_SetMuteState ::
  "'c source_tables \<Rightarrow> nat \<Rightarrow> bool \<Rightarrow> ('c, 'm) sources_scheme \<Rightarrow> ('c, 'm) sources_scheme res" where
  "AudioSources_SetMuteState t s m w = res_bind (audioSources_GetVolumeInterface s w) (\<lambda>(w, p).
     case Option.bind p (\<lambda>p. SetMuteState (volume_tab t p)) of
       None \<Rightarrow> Inr w
     | Some f \<Rightarrow> res_bind (f s m (client w)) (\<lambda>c. Inr (w\<lparr>client := c\<rparr>)))"

definition AudioSources_CalculateOutputVolume ::
  "'c source_tables \<Rightarrow> nat \<Rightarrow> ('c, 'm) sources_scheme \<Rightarrow> (('c, 'm) sources_scheme \<times> volume) res" where
  "AudioSources_CalculateOutputVolume t s w =
     res_bind (AudioSources_GetVolume t s w) (\<lambda>(w, v).
     res_bind (AudioSources_GetMuteState t s w) (\<lambda>(w, m).
     res_bind (Volume_CalculateOutputVolume (volume_data w) v m) (\<lambda>out. Inr (w, out))))"

subsection \<open>Volume control\<close>

definition audioSources_GetVolumeControlInterface ::
  "nat \<Rightarrow> ('c, 'm) sources_scheme \<Rightarrow> (('c, 'm) sources_scheme \<times> ptr option) res" where
  "audioSources_GetVolumeControlInterface s w =
     res_bind (interfaces_of s audio_interface_type_volume_control w) (\<lambda>(w, l, n). Inr (w, l ! 0))"

definition AudioSources_RegisterVolumeControl ::
  "nat \<Rightarrow> ptr option \<Rightarrow> ('c, 'm) sources_scheme \<Rightarrow> ('c, 'm) sources_scheme res" where
  "AudioSources_RegisterVolumeControl s p w =
     res_bind (interfaces_of s audio_interface_type_volume_control w) (\<lambda>(w, l, n).
       if n \<noteq> 0
       then if p = l ! 0 then Inr w
         else res_bind (unregister_interface s audio_interface_type_volume_control (l ! 0) w)
           (register_interface s audio_interface_type_volume_control p)
       else register_interface s audio_interface_type_volume_control p w)"

definition AudioSources_IsVolumeControlRegistered ::
  "nat \<Rightarrow> ('c, 'm) sources_scheme \<Rightarrow> (('c, 'm) sources_scheme \<times> bool) res" where
  "AudioSources_IsVolumeControlRegistered s w =
     res_bind (audioSources_GetVolumeControlInterface s w) (\<lambda>(w, p). Inr (w, p \<noteq> None))"

definition control_call ::
  "(control_table \<Rightarrow> bool) \<Rightarrow> 'c source_tables \<Rightarrow> ptr option \<Rightarrow> (ptr \<Rightarrow> sound_call) \<Rightarrow>
   ('c, 'm) sources_scheme \<Rightarrow> ('c, 'm) sources_scheme" where
  "control_call has t p x w = (case p of
     None \<Rightarrow> w | Some p \<Rightarrow> if has (control_tab t p) then call (x p) w else w)"

definition AudioSources_VolumeUp ::
  "'c source_tables \<Rightarrow> nat \<Rightarrow> ('c, 'm) sources_scheme \<Rightarrow> ('c, 'm) sources_scheme res" where
  "AudioSources_VolumeUp t s w = res_bind (audioSources_GetVolumeControlInterface s w) (\<lambda>(w, p).
     Inr (control_call VolumeUp t p (\<lambda>p. CallVolumeUp p (source_type_audio s)) w))"

definition AudioSources_VolumeDown ::
  "'c source_tables \<Rightarrow> nat \<Rightarrow> ('c, 'm) sources_scheme \<Rightarrow> ('c, 'm) sources_scheme res" where
  "AudioSources_VolumeDown t s w = res_bind (audioSources_GetVolumeControlInterface s w) (\<lambda>(w, p).
     Inr (control_call VolumeDown t p (\<lambda>p. CallVolumeDown p (source_type_audio s)) w))"

definition AudioSources_VolumeSetAbsolute ::
  "'c source_tables \<Rightarrow> nat \<Rightarrow> volume \<Rightarrow> ('c, 'm) sources_scheme \<Rightarrow> ('c, 'm) sources_scheme res" where
  "AudioSources_VolumeSetAbsolute t s v w = res_bind (audioSources_GetVolumeControlInterface s w) (\<lambda>(w, p).
     Inr (control_call VolumeSetAbsolute t p (\<lambda>p. CallVolumeSetAbsolute p (source_type_audio s) v) w))"

definition AudioSources_Mute ::
  "'c source_tables \<Rightarrow> nat \<Rightarrow> bool \<Rightarrow> ('c, 'm) sources_scheme \<Rightarrow> ('c, 'm) sources_scheme res" where
  "AudioSources_Mute t s m w = res_bind (audioSources_GetVolumeControlInterface s w) (\<lambda>(w, p).
     Inr (control_call Mute t p (\<lambda>p. CallMute p (source_type_audio s) m) w))"

subsection \<open>Observers\<close>

definition AudioSources_RegisterObserver :: "nat \<Rightarrow> ptr option \<Rightarrow> ('c, 'm) sources_scheme \<Rightarrow> ('c, 'm) sources_scheme res" where
  "AudioSources_RegisterObserver s p w =
     res_bind (interfaces_of s audio_interface_type_observer_registry w) (\<lambda>(w, l, n).
       if n \<noteq> 0 \<and> p \<in> set (take n l) then Inr w
       else if n \<noteq> 0 \<and> n = MAX_OBSERVER_INTERFACES then Inl Panic
       else register_interface s audio_interface_type_observer_registry p w)"

definition AudioSources_UnregisterObserver :: "nat \<Rightarrow> ptr option \<Rightarrow> ('c, 'm) sources_scheme \<Rightarrow> ('c, 'm) sources_scheme res" where
  "AudioSources_UnregisterObserver s p w = unregister_interface s audio_interface_type_observer_registry p w"

text \<open>The iterator goes through the registered interfaces and ends at the first that is \<open>NULL\<close>.\<close>

definition observer_calls ::
  "(observer_table \<Rightarrow> bool) \<Rightarrow> 'c source_tables \<Rightarrow> ptr list \<Rightarrow> (ptr \<Rightarrow> sound_call) \<Rightarrow> sound_call list" where
  "observer_calls has t ps x = map x (filter (\<lambda>p. has (observer_tab t p)) ps)"

definition audio_observers_do ::
  "(observer_table \<Rightarrow> bool) \<Rightarrow> 'c source_tables \<Rightarrow> nat \<Rightarrow> (ptr \<Rightarrow> sound_call) \<Rightarrow>
   ('c, 'm) sources_scheme \<Rightarrow> ('c, 'm) sources_scheme res" where
  "audio_observers_do has t s x w =
     res_bind (interfaces_of s audio_interface_type_observer_registry w) (\<lambda>(w, l, n).
       Inr (fold (\<lambda>p w. if has (observer_tab t p) then call (x p) w else w) (map the (registered (take n l))) w))"

definition AudioSources_OnVolumeChange ::
  "'c source_tables \<Rightarrow> nat \<Rightarrow> event_origin \<Rightarrow> volume \<Rightarrow> ('c, 'm) sources_scheme \<Rightarrow> ('c, 'm) sources_scheme res" where
  "AudioSources_OnVolumeChange t s origin v w =
     audio_observers_do OnVolumeChange t s (\<lambda>p. CallOnVolumeChange p (source_type_audio s) origin v) w"

definition AudioSources_OnAudioRoutingChange ::
  "'c source_tables \<Rightarrow> nat \<Rightarrow> bool \<Rightarrow> ('c, 'm) sources_scheme \<Rightarrow> ('c, 'm) sources_scheme res" where
  "AudioSources_OnAudioRoutingChange t s routed w =
     audio_observers_do OnAudioRoutingChange t s (\<lambda>p. CallOnAudioRoutingChange p (source_type_audio s) routed) w"

definition AudioSources_OnMuteChange ::
  "'c source_tables \<Rightarrow> nat \<Rightarrow> event_origin \<Rightarrow> bool \<Rightarrow> ('c, 'm) sources_scheme \<Rightarrow> ('c, 'm) sources_scheme res" where
  "AudioSources_OnMuteChange t s origin m w =
     audio_observers_do OnMuteChange t s (\<lambda>p. CallOnMuteChange p (source_type_audio s) origin m) w"

section \<open>Voice sources\<close>

text \<open>The registries of voice sources are arrays indexed by the source; the first element is never used.\<close>

definition voiceSources_ValidateSource :: "nat \<Rightarrow> unit res" where
  "voiceSources_ValidateSource s = panic_unless (\<not> (s \<le> 0 \<or> s \<ge> max_voice_sources))"

definition VoiceSources_VolumeRegistryInit :: "('c, 'm) sources_scheme \<Rightarrow> ('c, 'm) sources_scheme" where
  "VoiceSources_VolumeRegistryInit w = w\<lparr>voice_volumes := replicate max_voice_sources None\<rparr>"

definition VoiceSources_RegisterVolume :: "nat \<Rightarrow> ptr option \<Rightarrow> ('c, 'm) sources_scheme \<Rightarrow> ('c, 'm) sources_scheme res" where
  "VoiceSources_RegisterVolume s p w =
     res_bind (voiceSources_ValidateSource s) (\<lambda>_.
     res_bind (panic_null p) (\<lambda>p. Inr (w\<lparr>voice_volumes := (voice_volumes w)[s := Some p]\<rparr>)))"

definition VoiceSources_GetVolume ::
  "'c source_tables \<Rightarrow> nat \<Rightarrow> ('c, 'm) sources_scheme \<Rightarrow> (('c, 'm) sources_scheme \<times> volume) res" where
  "VoiceSources_GetVolume t s w =
     res_bind (voiceSources_ValidateSource s) (\<lambda>_.
       case Option.bind (voice_volumes w ! s) (\<lambda>p. GetVolume (volume_tab t p)) of
         None \<Rightarrow> Inr (w, FULL_SCALE_VOLUME)
       | Some f \<Rightarrow> res_bind (f s (client w)) (\<lambda>(v, c). Inr (w\<lparr>client := c\<rparr>, v)))"

definition VoiceSources_SetVolume ::
  "'c source_tables \<Rightarrow> nat \<Rightarrow> volume \<Rightarrow> ('c, 'm) sources_scheme \<Rightarrow> ('c, 'm) sources_scheme res" where
  "VoiceSources_SetVolume t s v w =
     res_bind (voiceSources_ValidateSource s) (\<lambda>_.
       case Option.bind (voice_volumes w ! s) (\<lambda>p. SetVolume (volume_tab t p)) of
         None \<Rightarrow> Inr w
       | Some f \<Rightarrow> res_bind (f s v (client w)) (\<lambda>c. Inr (w\<lparr>client := c\<rparr>)))"

definition VoiceSources_GetMuteState ::
  "'c source_tables \<Rightarrow> nat \<Rightarrow> ('c, 'm) sources_scheme \<Rightarrow> bool res" where
  "VoiceSources_GetMuteState t s w =
     res_bind (voiceSources_ValidateSource s) (\<lambda>_.
       case Option.bind (voice_volumes w ! s) (\<lambda>p. GetMuteState (volume_tab t p)) of
         None \<Rightarrow> Inr False
       | Some f \<Rightarrow> f s (client w))"

definition VoiceSources_SetMuteState ::
  "'c source_tables \<Rightarrow> nat \<Rightarrow> bool \<Rightarrow> ('c, 'm) sources_scheme \<Rightarrow> ('c, 'm) sources_scheme res" where
  "VoiceSources_SetMuteState t s m w =
     res_bind (voiceSources_ValidateSource s) (\<lambda>_.
       case Option.bind (voice_volumes w ! s) (\<lambda>p. SetMuteState (volume_tab t p)) of
         None \<Rightarrow> Inr w
       | Some f \<Rightarrow> res_bind (f s m (client w)) (\<lambda>c. Inr (w\<lparr>client := c\<rparr>)))"

definition VoiceSources_CalculateOutputVolume ::
  "'c source_tables \<Rightarrow> nat \<Rightarrow> ('c, 'm) sources_scheme \<Rightarrow> (('c, 'm) sources_scheme \<times> volume) res" where
  "VoiceSources_CalculateOutputVolume t s w =
     res_bind (VoiceSources_GetVolume t s w) (\<lambda>(w, v).
     res_bind (VoiceSources_GetMuteState t s w) (\<lambda>m.
     res_bind (Volume_CalculateOutputVolume (volume_data w) v m) (\<lambda>out. Inr (w, out))))"

definition VoiceSources_VolumeControlRegistryInit :: "('c, 'm) sources_scheme \<Rightarrow> ('c, 'm) sources_scheme" where
  "VoiceSources_VolumeControlRegistryInit w = w\<lparr>voice_controls := replicate max_voice_sources None\<rparr>"

definition VoiceSources_RegisterVolumeControl :: "nat \<Rightarrow> ptr option \<Rightarrow> ('c, 'm) sources_scheme \<Rightarrow> ('c, 'm) sources_scheme res" where
  "VoiceSources_RegisterVolumeControl s p w =
     res_bind (voiceSources_ValidateSource s) (\<lambda>_.
     res_bind (panic_null p) (\<lambda>p. Inr (w\<lparr>voice_controls := (voice_controls w)[s := Some p]\<rparr>)))"

definition VoiceSources_IsVolumeControlRegistered :: "nat \<Rightarrow> ('c, 'm) sources_scheme \<Rightarrow> bool res" where
  "VoiceSources_IsVolumeControlRegistered s w =
     res_bind (voiceSources_ValidateSource s) (\<lambda>_. Inr (voice_controls w ! s \<noteq> None))"

definition VoiceSources_VolumeUp :: "'c source_tables \<Rightarrow> nat \<Rightarrow> ('c, 'm) sources_scheme \<Rightarrow> ('c, 'm) sources_scheme res" where
  "VoiceSources_VolumeUp t s w = res_bind (voiceSources_ValidateSource s) (\<lambda>_.
     Inr (control_call VolumeUp t (voice_controls w ! s) (\<lambda>p. CallVolumeUp p (source_type_voice s)) w))"

definition VoiceSources_VolumeDown :: "'c source_tables \<Rightarrow> nat \<Rightarrow> ('c, 'm) sources_scheme \<Rightarrow> ('c, 'm) sources_scheme res" where
  "VoiceSources_VolumeDown t s w = res_bind (voiceSources_ValidateSource s) (\<lambda>_.
     Inr (control_call VolumeDown t (voice_controls w ! s) (\<lambda>p. CallVolumeDown p (source_type_voice s)) w))"

definition VoiceSources_VolumeSetAbsolute ::
  "'c source_tables \<Rightarrow> nat \<Rightarrow> volume \<Rightarrow> ('c, 'm) sources_scheme \<Rightarrow> ('c, 'm) sources_scheme res" where
  "VoiceSources_VolumeSetAbsolute t s v w = res_bind (voiceSources_ValidateSource s) (\<lambda>_.
     Inr (control_call VolumeSetAbsolute t (voice_controls w ! s) (\<lambda>p. CallVolumeSetAbsolute p (source_type_voice s) v) w))"

definition VoiceSources_Mute :: "'c source_tables \<Rightarrow> nat \<Rightarrow> bool \<Rightarrow> ('c, 'm) sources_scheme \<Rightarrow> ('c, 'm) sources_scheme res" where
  "VoiceSources_Mute t s m w = res_bind (voiceSources_ValidateSource s) (\<lambda>_.
     Inr (control_call Mute t (voice_controls w ! s) (\<lambda>p. CallMute p (source_type_voice s) m) w))"

definition MAX_VOICE_SOURCE_OBSERVERS_PER_SOURCE :: nat where "MAX_VOICE_SOURCE_OBSERVERS_PER_SOURCE = 2"

definition VoiceSources_ObserverRegistryInit :: "('c, 'm) sources_scheme \<Rightarrow> ('c, 'm) sources_scheme" where
  "VoiceSources_ObserverRegistryInit w =
     w\<lparr>voice_observers := replicate max_voice_sources (replicate MAX_VOICE_SOURCE_OBSERVERS_PER_SOURCE None)\<rparr>"

definition VoiceSources_RegisterObserver :: "nat \<Rightarrow> ptr option \<Rightarrow> ('c, 'm) sources_scheme \<Rightarrow> ('c, 'm) sources_scheme res" where
  "VoiceSources_RegisterObserver s p w =
     res_bind (voiceSources_ValidateSource s) (\<lambda>_.
     res_bind (panic_null p) (\<lambda>p.
       let l = voice_observers w ! s in
       if Some p \<in> set l then Inr w
       else res_bind (panic_null (find_index (\<lambda>x. x = None) l)) (\<lambda>i.
         Inr (w\<lparr>voice_observers := (voice_observers w)[s := l[i := Some p]]\<rparr>))))"

definition VoiceSources_DeregisterObserver :: "nat \<Rightarrow> ptr option \<Rightarrow> ('c, 'm) sources_scheme \<Rightarrow> ('c, 'm) sources_scheme res" where
  "VoiceSources_DeregisterObserver s p w =
     res_bind (voiceSources_ValidateSource s) (\<lambda>_.
       let l = voice_observers w ! s in
       case find_index (\<lambda>x. x = p) l of
         Some i \<Rightarrow> Inr (w\<lparr>voice_observers := (voice_observers w)[s := l[i := None]]\<rparr>)
       | None \<Rightarrow> Inr w)"

definition voice_observers_do ::
  "(observer_table \<Rightarrow> bool) \<Rightarrow> 'c source_tables \<Rightarrow> nat \<Rightarrow> (ptr \<Rightarrow> sound_call) \<Rightarrow>
   ('c, 'm) sources_scheme \<Rightarrow> ('c, 'm) sources_scheme res" where
  "voice_observers_do has t s x w =
     res_bind (voiceSources_ValidateSource s) (\<lambda>_.
       Inr (fold (\<lambda>p w. case p of
           None \<Rightarrow> w
         | Some p \<Rightarrow> if has (observer_tab t p) then call (x p) w else w) (voice_observers w ! s) w))"

definition VoiceSources_OnVolumeChange ::
  "'c source_tables \<Rightarrow> nat \<Rightarrow> event_origin \<Rightarrow> volume \<Rightarrow> ('c, 'm) sources_scheme \<Rightarrow> ('c, 'm) sources_scheme res" where
  "VoiceSources_OnVolumeChange t s origin v w =
     voice_observers_do OnVolumeChange t s (\<lambda>p. CallOnVolumeChange p (source_type_voice s) origin v) w"

definition VoiceSources_OnMuteChange ::
  "'c source_tables \<Rightarrow> nat \<Rightarrow> event_origin \<Rightarrow> bool \<Rightarrow> ('c, 'm) sources_scheme \<Rightarrow> ('c, 'm) sources_scheme res" where
  "VoiceSources_OnMuteChange t s origin m w =
     voice_observers_do OnMuteChange t s (\<lambda>p. CallOnMuteChange p (source_type_voice s) origin m) w"

section \<open>The contract of volume tables\<close>

text \<open>
  What the volume service relies on: a table says a volume that is within its range, in steps of one from
  zero; reading does not change what is said; what is written to a connected source is said afterwards.
\<close>

definition unit_volume :: "volume \<Rightarrow> bool" where
  "unit_volume v \<longleftrightarrow> volume_ok v \<and> range_min (vrange (config v)) = 0 \<and> step_of (config v) = 1"

locale volume_tables =
  fixes t :: "'c source_tables"
    and client_ok :: "'c \<Rightarrow> bool"
    and level :: "ptr \<Rightarrow> nat \<Rightarrow> 'c \<Rightarrow> volume"
    and connected :: "ptr \<Rightarrow> nat \<Rightarrow> 'c \<Rightarrow> bool"
  assumes get_volume: "client_ok c \<Longrightarrow> GetVolume (volume_tab t p) = Some f \<Longrightarrow>
      \<exists>c'. f s c = Inr (level p s c, c') \<and> client_ok c' \<and>
        (\<forall>q u. level q u c' = level q u c \<and> connected q u c' = connected q u c)"
    and no_get_volume: "GetVolume (volume_tab t p) = None \<Longrightarrow> level p s c = FULL_SCALE_VOLUME"
    and level_ok: "client_ok c \<Longrightarrow> unit_volume (level p s c)"
    and set_volume: "client_ok c \<Longrightarrow> SetVolume (volume_tab t p) = Some g \<Longrightarrow> unit_volume v \<Longrightarrow>
      config v = config (level p s c) \<Longrightarrow> \<exists>c'. g s v c = Inr c' \<and> client_ok c' \<and>
        (\<forall>q u. config (level q u c') = config (level q u c) \<and> connected q u c' = connected q u c) \<and>
        (connected p s c \<longrightarrow> level p s c' = v)"
    and no_set_volume: "SetVolume (volume_tab t p) = None \<Longrightarrow> \<not> connected p s c"
    and get_mute: "client_ok c \<Longrightarrow> GetMuteState (volume_tab t p) = Some i \<Longrightarrow> \<exists>m. i s c = Inr m"
    and set_mute: "client_ok c \<Longrightarrow> SetMuteState (volume_tab t p) = Some h \<Longrightarrow>
      \<exists>c'. h s m c = Inr c' \<and> client_ok c' \<and>
        (\<forall>q u. level q u c' = level q u c \<and> connected q u c' = connected q u c)"
begin

text \<open>The volume of a source as its table says it.\<close>

definition audio_level :: "('c, 'm) sources_scheme \<Rightarrow> nat \<Rightarrow> volume" where
  "audio_level w s = (case registry_map (audio_registry w) s audio_interface_type_volume_registry of
     [] \<Rightarrow> FULL_SCALE_VOLUME | p # _ \<Rightarrow> level p s (client w))"

definition voice_level :: "('c, 'm) sources_scheme \<Rightarrow> nat \<Rightarrow> volume" where
  "voice_level w s = (case voice_volumes w ! s of None \<Rightarrow> FULL_SCALE_VOLUME | Some p \<Rightarrow> level p s (client w))"

end

end
