(* ===== verification/Volume_Service.thy ===== *)
theory Volume_Service
  imports Audio_Sources
begin

text \<open>
  The volume service (\<^verbatim>\<open>adk/src/services/volume_service/volume_service.c\<close>) and its messages
  (\<^verbatim>\<open>adk/src/domains/audio/volume/volume_messages.c\<close>): inputs of the user become requests, requests change the volume
  of a source or are handed to its remote control, and the output volume of the source in focus goes to
  the audio chains. A volume key that is held starts a ramp, a message that comes back until the end
  of the range is reached. The client lemmas of the contract \<open>volume_tables\<close> are proved here.
\<close>

section \<open>State\<close>

datatype ui_input =
    ui_input_volume_stop
  | ui_input_volume_down_start
  | ui_input_volume_up_start
  | ui_input_volume_up
  | ui_input_volume_down

text \<open>Messages of the task of the service: user inputs and its own.\<close>

datatype internal_message =
    UiInputMessage ui_input
  | INTERNAL_MSG_APPLY_AUDIO_VOLUME
  | INTERNAL_MSG_VOLUME_RAMP_REPEAT generic_source int

datatype volume_request =
    VOICE_SOURCE_VOLUME_UPDATE_REQUEST nat event_origin volume
  | VOICE_SOURCE_VOLUME_INCREMENT_REQUEST nat event_origin
  | VOICE_SOURCE_VOLUME_DECREMENT_REQUEST nat event_origin
  | VOICE_SOURCE_MUTE_VOLUME_REQUEST nat event_origin bool
  | AUDIO_SOURCE_VOLUME_UPDATE_REQUEST nat event_origin volume
  | AUDIO_SOURCE_VOLUME_INCREMENT_REQUEST nat event_origin
  | AUDIO_SOURCE_VOLUME_DECREMENT_REQUEST nat event_origin
  | AUDIO_SOURCE_MUTE_VOLUME_REQUEST nat event_origin bool

text \<open>
  The messages not yet delivered, in the order of sending: requests to the service, which is
  registered for them, and messages of its internal task.
\<close>

record 'c volume_service = "'c sources" +
  requests :: "volume_request list"
  internal :: "internal_message list"

definition post_request :: "volume_request \<Rightarrow> 'c volume_service \<Rightarrow> 'c volume_service" where
  "post_request m w = w\<lparr>requests := requests w @ [m]\<rparr>"

definition post_internal :: "internal_message \<Rightarrow> 'c volume_service \<Rightarrow> 'c volume_service" where
  "post_internal m w = w\<lparr>internal := internal w @ [m]\<rparr>"

section \<open>Requests\<close>

definition Volume_SendVoiceSourceVolumeUpdateRequest ::
  "'c source_tables \<Rightarrow> nat \<Rightarrow> event_origin \<Rightarrow> int \<Rightarrow> 'c volume_service \<Rightarrow> 'c volume_service res" where
  "Volume_SendVoiceSourceVolumeUpdateRequest t s origin x w =
     res_bind (VoiceSources_GetVolume t s w) (\<lambda>(w, v).
       Inr (post_request (VOICE_SOURCE_VOLUME_UPDATE_REQUEST s origin (v\<lparr>vvalue := x\<rparr>)) w))"

definition Volume_SendVoiceSourceVolumeIncrementRequest :: "nat \<Rightarrow> event_origin \<Rightarrow> 'c volume_service \<Rightarrow> 'c volume_service" where
  "Volume_SendVoiceSourceVolumeIncrementRequest s origin = post_request (VOICE_SOURCE_VOLUME_INCREMENT_REQUEST s origin)"

definition Volume_SendVoiceSourceVolumeDecrementRequest :: "nat \<Rightarrow> event_origin \<Rightarrow> 'c volume_service \<Rightarrow> 'c volume_service" where
  "Volume_SendVoiceSourceVolumeDecrementRequest s origin = post_request (VOICE_SOURCE_VOLUME_DECREMENT_REQUEST s origin)"

definition Volume_SendVoiceSourceMuteRequest :: "nat \<Rightarrow> event_origin \<Rightarrow> bool \<Rightarrow> 'c volume_service \<Rightarrow> 'c volume_service" where
  "Volume_SendVoiceSourceMuteRequest s origin m = post_request (VOICE_SOURCE_MUTE_VOLUME_REQUEST s origin m)"

definition Volume_SendAudioSourceVolumeUpdateRequest ::
  "'c source_tables \<Rightarrow> nat \<Rightarrow> event_origin \<Rightarrow> int \<Rightarrow> 'c volume_service \<Rightarrow> 'c volume_service res" where
  "Volume_SendAudioSourceVolumeUpdateRequest t s origin x w =
     res_bind (AudioSources_GetVolume t s w) (\<lambda>(w, v).
       Inr (post_request (AUDIO_SOURCE_VOLUME_UPDATE_REQUEST s origin (v\<lparr>vvalue := x\<rparr>)) w))"

definition Volume_SendAudioSourceVolumeIncrementRequest :: "nat \<Rightarrow> event_origin \<Rightarrow> 'c volume_service \<Rightarrow> 'c volume_service" where
  "Volume_SendAudioSourceVolumeIncrementRequest s origin = post_request (AUDIO_SOURCE_VOLUME_INCREMENT_REQUEST s origin)"

definition Volume_SendAudioSourceVolumeDecrementRequest :: "nat \<Rightarrow> event_origin \<Rightarrow> 'c volume_service \<Rightarrow> 'c volume_service" where
  "Volume_SendAudioSourceVolumeDecrementRequest s origin = post_request (AUDIO_SOURCE_VOLUME_DECREMENT_REQUEST s origin)"

definition Volume_SendAudioSourceMuteRequest :: "nat \<Rightarrow> event_origin \<Rightarrow> bool \<Rightarrow> 'c volume_service \<Rightarrow> 'c volume_service" where
  "Volume_SendAudioSourceMuteRequest s origin m = post_request (AUDIO_SOURCE_MUTE_VOLUME_REQUEST s origin m)"

section \<open>User inputs and ramps\<close>

text \<open>The argument \<open>focus\<close> is the source in focus for audio routing.\<close>

definition VOLUME_SERVICE_UI_STEPS :: int where "VOLUME_SERVICE_UI_STEPS = 16"

definition volumeService_ChangeVoiceVolume ::
  "'c source_tables \<Rightarrow> nat \<Rightarrow> int \<Rightarrow> 'c volume_service \<Rightarrow> 'c volume_service res" where
  "volumeService_ChangeVoiceVolume t s step w =
     res_bind (VoiceSources_GetVolume t s w) (\<lambda>(w, v).
       let step_size = VolumeUtils_GetStepSize (config v) in
       if step = step_size then Inr (Volume_SendVoiceSourceVolumeIncrementRequest s event_origin_local w)
       else if step = i32 (- step_size) then Inr (Volume_SendVoiceSourceVolumeDecrementRequest s event_origin_local w)
       else res_bind (VoiceSources_GetVolume t s w) (\<lambda>(w, v1).
         res_bind (VoiceSources_GetVolume t s w) (\<lambda>(w, v2).
           Volume_SendVoiceSourceVolumeUpdateRequest t s event_origin_local
             (VolumeUtils_LimitVolumeToRange (i32 (vvalue v1 + step)) (vrange (config v2))) w)))"

definition VolumeService_ChangeAudioSourceVolume ::
  "'c source_tables \<Rightarrow> nat \<Rightarrow> int \<Rightarrow> 'c volume_service \<Rightarrow> 'c volume_service res" where
  "VolumeService_ChangeAudioSourceVolume t s step w =
     res_bind (AudioSources_GetVolume t s w) (\<lambda>(w, v).
       let step_size = VolumeUtils_GetStepSize (config v) in
       if step = step_size then Inr (Volume_SendAudioSourceVolumeIncrementRequest s event_origin_local w)
       else if step = i32 (- step_size) then Inr (Volume_SendAudioSourceVolumeDecrementRequest s event_origin_local w)
       else res_bind (AudioSources_GetVolume t s w) (\<lambda>(w, v1).
         res_bind (AudioSources_GetVolume t s w) (\<lambda>(w, v2).
           Volume_SendAudioSourceVolumeUpdateRequest t s event_origin_local
             (VolumeUtils_LimitVolumeToRange (i32 (vvalue v1 + step)) (vrange (config v2))) w)))"

definition volumeService_StartVolumeRamp ::
  "'c source_tables \<Rightarrow> generic_source \<Rightarrow> int \<Rightarrow> 'c volume_service \<Rightarrow> 'c volume_service res" where
  "volumeService_StartVolumeRamp t src step w =
     res_bind
       (case src of
          source_type_audio s \<Rightarrow> VolumeService_ChangeAudioSourceVolume t s step w
        | source_type_voice s \<Rightarrow> volumeService_ChangeVoiceVolume t s step w
        | source_type_other \<Rightarrow> Inr w)
       (\<lambda>w. Inr (post_internal (INTERNAL_MSG_VOLUME_RAMP_REPEAT src step) w))"

definition is_ramp_repeat :: "internal_message \<Rightarrow> bool" where
  "is_ramp_repeat m = (case m of INTERNAL_MSG_VOLUME_RAMP_REPEAT _ _ \<Rightarrow> True | _ \<Rightarrow> False)"

definition volumeService_StopVolumeRamp :: "'c volume_service \<Rightarrow> 'c volume_service" where
  "volumeService_StopVolumeRamp w = (case find_index is_ramp_repeat (internal w) of
     Some i \<Rightarrow> w\<lparr>internal := remove_at i (internal w)\<rparr>
   | None \<Rightarrow> w)"

definition volumeService_OnAudioRoutingChange :: "nat \<Rightarrow> bool \<Rightarrow> 'c volume_service \<Rightarrow> 'c volume_service" where
  "volumeService_OnAudioRoutingChange s routed w = (if \<not> routed then volumeService_StopVolumeRamp w else w)"

definition VolumeService_GetUiStepSize :: "volume_config \<Rightarrow> int" where
  "VolumeService_GetUiStepSize c =
     (let volume_source_step_size = VolumeUtils_GetStepSize c;
          ui_step_size = i32 (i32 (range_max (vrange c) - range_min (vrange c)) + 1) sdiv VOLUME_SERVICE_UI_STEPS in
      if volume_source_step_size \<ge> ui_step_size then volume_source_step_size else ui_step_size)"

text \<open>
  The step is an \<^verbatim>\<open>int\<close> here and an \<^verbatim>\<open>int16\<close> in the functions it is passed to. What is cancelled before a ramp
  starts are the messages whose identifier is the input itself.
\<close>

definition volumeService_HandleUiInput ::
  "'c source_tables \<Rightarrow> generic_source \<Rightarrow> ui_input \<Rightarrow> 'c volume_service \<Rightarrow> 'c volume_service res" where
  "volumeService_HandleUiInput t focus inp w =
     res_bind
       (case focus of
          source_type_other \<Rightarrow> Inr (w, None)
        | source_type_audio s \<Rightarrow> res_bind (AudioSources_GetVolume t s w) (\<lambda>(w, v).
            Inr (w, Some (VolumeService_GetUiStepSize (config v))))
        | source_type_voice s \<Rightarrow> res_bind (VoiceSources_GetVolume t s w) (\<lambda>(w, v).
            Inr (w, Some (VolumeService_GetUiStepSize (config v)))))
       (\<lambda>(w, step).
         case step of
           None \<Rightarrow> Inr w
         | Some step_size \<Rightarrow>
             let signed_step = i16 (if inp = ui_input_volume_down_start \<or> inp = ui_input_volume_down
                 then i32 (- step_size) else step_size) in
             if inp = ui_input_volume_down_start \<or> inp = ui_input_volume_up_start
             then volumeService_StartVolumeRamp t focus signed_step
               (w\<lparr>internal := filter (\<lambda>m. m \<noteq> UiInputMessage inp) (internal w)\<rparr>)
             else if inp = ui_input_volume_stop then Inr (volumeService_StopVolumeRamp w)
             else (case focus of
                 source_type_audio s \<Rightarrow> VolumeService_ChangeAudioSourceVolume t s signed_step w
               | source_type_voice s \<Rightarrow> volumeService_ChangeVoiceVolume t s signed_step w
               | source_type_other \<Rightarrow> Inr w))"

section \<open>Changing volumes\<close>

definition volumeService_NotifyMinOrMaxVolume :: "volume \<Rightarrow> 'c volume_service \<Rightarrow> 'c volume_service" where
  "volumeService_NotifyMinOrMaxVolume v w =
     (let w = (if vvalue v \<ge> range_max (vrange (config v)) then call NotifyMaxVolume w else w) in
      if vvalue v \<le> range_min (vrange (config v)) then call NotifyMinVolume w else w)"

definition volumeService_NotifyMinOrMaxGenericVolume ::
  "generic_source \<Rightarrow> generic_source \<Rightarrow> volume \<Rightarrow> 'c volume_service \<Rightarrow> 'c volume_service" where
  "volumeService_NotifyMinOrMaxGenericVolume focus src v w =
     (if vvalue v \<ge> range_max (vrange (config v)) \<or> vvalue v \<le> range_min (vrange (config v))
      then if focus \<noteq> source_type_other \<and> src = focus \<or> focus = source_type_other
        then volumeService_NotifyMinOrMaxVolume v w else w
      else w)"

definition volumeService_NotifyMinOrMaxAudioVolume :: "generic_source \<Rightarrow> nat \<Rightarrow> volume \<Rightarrow> 'c volume_service \<Rightarrow> 'c volume_service" where
  "volumeService_NotifyMinOrMaxAudioVolume focus s = volumeService_NotifyMinOrMaxGenericVolume focus (source_type_audio s)"

definition volumeService_NotifyMinOrMaxVoiceVolume :: "generic_source \<Rightarrow> nat \<Rightarrow> volume \<Rightarrow> 'c volume_service \<Rightarrow> 'c volume_service" where
  "volumeService_NotifyMinOrMaxVoiceVolume focus s = volumeService_NotifyMinOrMaxGenericVolume focus (source_type_voice s)"

definition volumeService_RefreshVoiceVolume :: "'c source_tables \<Rightarrow> nat \<Rightarrow> 'c volume_service \<Rightarrow> 'c volume_service res" where
  "volumeService_RefreshVoiceVolume t s w = res_bind (VoiceSources_CalculateOutputVolume t s w) (\<lambda>(w, v).
     Inr (call (KymeraSetVolume (source_type_voice s) v) w))"

definition isVolumeToBeSynchronised :: bool where "isVolumeToBeSynchronised = False"

definition volumeService_RefreshAudioVolume ::
  "'c source_tables \<Rightarrow> event_origin \<Rightarrow> nat \<Rightarrow> 'c volume_service \<Rightarrow> 'c volume_service res" where
  "volumeService_RefreshAudioVolume t origin s w =
     (if origin = event_origin_local \<and> isVolumeToBeSynchronised then Inr (post_internal INTERNAL_MSG_APPLY_AUDIO_VOLUME w)
      else res_bind (AudioSources_CalculateOutputVolume t s w) (\<lambda>(w, v).
        Inr (call (KymeraSetVolume (source_type_audio s) v) w)))"

definition volumeService_RefreshCurrentVolume ::
  "'c source_tables \<Rightarrow> generic_source \<Rightarrow> event_origin \<Rightarrow> 'c volume_service \<Rightarrow> 'c volume_service res" where
  "volumeService_RefreshCurrentVolume t focus origin w = (case focus of
     source_type_voice s \<Rightarrow> volumeService_RefreshVoiceVolume t s w
   | source_type_audio s \<Rightarrow> volumeService_RefreshAudioVolume t origin s w
   | source_type_other \<Rightarrow> Inr w)"

definition volumeService_UpdateAudioSourceVolume ::
  "'c source_tables \<Rightarrow> generic_source \<Rightarrow> nat \<Rightarrow> volume \<Rightarrow> event_origin \<Rightarrow> 'c volume_service \<Rightarrow> 'c volume_service res" where
  "volumeService_UpdateAudioSourceVolume t focus s v origin w =
     res_bind (AudioSources_SetVolume t s v w) (\<lambda>w.
     res_bind (AudioSources_OnVolumeChange t s origin v w) (\<lambda>w.
       if focus = source_type_audio s then volumeService_RefreshAudioVolume t origin s w else Inr w))"

definition volumeService_UpdateSystemVolume ::
  "'c source_tables \<Rightarrow> generic_source \<Rightarrow> volume \<Rightarrow> event_origin \<Rightarrow> 'c volume_service \<Rightarrow> 'c volume_service res" where
  "volumeService_UpdateSystemVolume t focus v origin w =
     volumeService_RefreshCurrentVolume t focus origin (w\<lparr>volume_data := Volume_SetSystemVolume v (volume_data w)\<rparr>)"

definition volumeService_UpdateVoiceSourceLocalVolume ::
  "'c source_tables \<Rightarrow> generic_source \<Rightarrow> nat \<Rightarrow> volume \<Rightarrow> event_origin \<Rightarrow> 'c volume_service \<Rightarrow> 'c volume_service res" where
  "volumeService_UpdateVoiceSourceLocalVolume t focus s v origin w =
     res_bind (VoiceSources_SetVolume t s v w) (\<lambda>w.
       if focus = source_type_voice s
       then res_bind (VoiceSources_OnVolumeChange t s origin v w) (volumeService_RefreshVoiceVolume t s)
       else Inr w)"

definition VolumeService_SetAudioSourceVolume ::
  "'c source_tables \<Rightarrow> generic_source \<Rightarrow> nat \<Rightarrow> event_origin \<Rightarrow> volume \<Rightarrow> 'c volume_service \<Rightarrow> 'c volume_service res" where
  "VolumeService_SetAudioSourceVolume t focus s origin new_volume w =
     res_bind (AudioSources_GetVolume t s w) (\<lambda>(w, source_volume).
     res_bind (VolumeUtils_ConvertToVolumeConfig new_volume (config source_volume)) (\<lambda>x.
       let source_volume = source_volume\<lparr>vvalue := x\<rparr> in
       res_bind (AudioSources_IsVolumeControlRegistered s w) (\<lambda>(w, control).
       res_bind
         (if control \<and> origin = event_origin_local then AudioSources_VolumeSetAbsolute t s source_volume w
          else volumeService_UpdateAudioSourceVolume t focus s source_volume origin w)
         (\<lambda>w. Inr (volumeService_NotifyMinOrMaxAudioVolume focus s source_volume w)))))"

definition VolumeService_IncrementAudioSourceVolume ::
  "'c source_tables \<Rightarrow> generic_source \<Rightarrow> nat \<Rightarrow> event_origin \<Rightarrow> 'c volume_service \<Rightarrow> 'c volume_service res" where
  "VolumeService_IncrementAudioSourceVolume t focus s origin w =
     res_bind (AudioSources_IsVolumeControlRegistered s w) (\<lambda>(w, control).
       if control \<and> origin = event_origin_local then AudioSources_VolumeUp t s w
       else res_bind (AudioSources_GetVolume t s w) (\<lambda>(w, v).
         let v = v\<lparr>vvalue := VolumeUtils_IncrementVolume v\<rparr> in
         res_bind (volumeService_UpdateAudioSourceVolume t focus s v origin w) (\<lambda>w.
           Inr (volumeService_NotifyMinOrMaxAudioVolume focus s v w))))"

definition VolumeService_DecrementAudioSourceVolume ::
  "'c source_tables \<Rightarrow> generic_source \<Rightarrow> nat \<Rightarrow> event_origin \<Rightarrow> 'c volume_service \<Rightarrow> 'c volume_service res" where
  "VolumeService_DecrementAudioSourceVolume t focus s origin w =
     res_bind (AudioSources_IsVolumeControlRegistered s w) (\<lambda>(w, control).
       if control \<and> origin = event_origin_local then AudioSources_VolumeDown t s w
       else res_bind (AudioSources_GetVolume t s w) (\<lambda>(w, v).
         let v = v\<lparr>vvalue := VolumeUtils_DecrementVolume v\<rparr> in
         res_bind (volumeService_UpdateAudioSourceVolume t focus s v origin w) (\<lambda>w.
           Inr (volumeService_NotifyMinOrMaxAudioVolume focus s v w))))"

definition VolumeService_AudioSourceMute ::
  "'c source_tables \<Rightarrow> generic_source \<Rightarrow> nat \<Rightarrow> event_origin \<Rightarrow> bool \<Rightarrow> 'c volume_service \<Rightarrow> 'c volume_service res" where
  "VolumeService_AudioSourceMute t focus s origin m w =
     res_bind (AudioSources_SetMuteState t s m w) (\<lambda>w.
     res_bind (AudioSources_OnMuteChange t s origin m w)
       (volumeService_RefreshCurrentVolume t focus event_origin_local))"

definition VolumeService_SetSystemVolume ::
  "'c source_tables \<Rightarrow> generic_source \<Rightarrow> event_origin \<Rightarrow> volume \<Rightarrow> 'c volume_service \<Rightarrow> 'c volume_service res" where
  "VolumeService_SetSystemVolume t focus origin new_volume w =
     (let v = system_volume (volume_data w) in
      res_bind (VolumeUtils_ConvertToVolumeConfig new_volume (config v)) (\<lambda>x.
        volumeService_UpdateSystemVolume t focus (v\<lparr>vvalue := x\<rparr>) origin w))"

definition VolumeService_IncrementSystemVolume ::
  "'c source_tables \<Rightarrow> generic_source \<Rightarrow> event_origin \<Rightarrow> 'c volume_service \<Rightarrow> 'c volume_service res" where
  "VolumeService_IncrementSystemVolume t focus origin w =
     (let v = system_volume (volume_data w) in
      volumeService_UpdateSystemVolume t focus (v\<lparr>vvalue := VolumeUtils_IncrementVolume v\<rparr>) origin w)"

definition VolumeService_DecrementSystemVolume ::
  "'c source_tables \<Rightarrow> generic_source \<Rightarrow> event_origin \<Rightarrow> 'c volume_service \<Rightarrow> 'c volume_service res" where
  "VolumeService_DecrementSystemVolume t focus origin w =
     (let v = system_volume (volume_data w) in
      volumeService_UpdateSystemVolume t focus (v\<lparr>vvalue := VolumeUtils_DecrementVolume v\<rparr>) origin w)"

definition VolumeService_SetVoiceSourceVolume ::
  "'c source_tables \<Rightarrow> generic_source \<Rightarrow> nat \<Rightarrow> event_origin \<Rightarrow> volume \<Rightarrow> 'c volume_service \<Rightarrow> 'c volume_service res" where
  "VolumeService_SetVoiceSourceVolume t focus s origin new_volume w =
     res_bind (VoiceSources_GetVolume t s w) (\<lambda>(w, source_volume).
     res_bind (VolumeUtils_ConvertToVolumeConfig new_volume (config source_volume)) (\<lambda>x.
       let source_volume = source_volume\<lparr>vvalue := x\<rparr> in
       res_bind (VoiceSources_IsVolumeControlRegistered s w) (\<lambda>control.
       res_bind
         (if control \<and> origin = event_origin_local then VoiceSources_VolumeSetAbsolute t s source_volume w
          else volumeService_UpdateVoiceSourceLocalVolume t focus s source_volume origin w)
         (\<lambda>w. Inr (volumeService_NotifyMinOrMaxVoiceVolume focus s source_volume w)))))"

definition VolumeService_IncrementVoiceSourceVolume ::
  "'c source_tables \<Rightarrow> generic_source \<Rightarrow> nat \<Rightarrow> event_origin \<Rightarrow> 'c volume_service \<Rightarrow> 'c volume_service res" where
  "VolumeService_IncrementVoiceSourceVolume t focus s origin w =
     res_bind (VoiceSources_IsVolumeControlRegistered s w) (\<lambda>control.
       if control \<and> origin = event_origin_local then VoiceSources_VolumeUp t s w
       else res_bind (VoiceSources_GetVolume t s w) (\<lambda>(w, v).
         let v = v\<lparr>vvalue := VolumeUtils_IncrementVolume v\<rparr> in
         res_bind (volumeService_UpdateVoiceSourceLocalVolume t focus s v origin w) (\<lambda>w.
           Inr (volumeService_NotifyMinOrMaxVoiceVolume focus s v w))))"

definition VolumeService_DecrementVoiceSourceVolume ::
  "'c source_tables \<Rightarrow> generic_source \<Rightarrow> nat \<Rightarrow> event_origin \<Rightarrow> 'c volume_service \<Rightarrow> 'c volume_service res" where
  "VolumeService_DecrementVoiceSourceVolume t focus s origin w =
     res_bind (VoiceSources_IsVolumeControlRegistered s w) (\<lambda>control.
       if control \<and> origin = event_origin_local then VoiceSources_VolumeDown t s w
       else res_bind (VoiceSources_GetVolume t s w) (\<lambda>(w, v).
         let v = v\<lparr>vvalue := VolumeUtils_DecrementVolume v\<rparr> in
         res_bind (volumeService_UpdateVoiceSourceLocalVolume t focus s v origin w) (\<lambda>w.
           Inr (volumeService_NotifyMinOrMaxVoiceVolume focus s v w))))"

definition VolumeService_VoiceSourceMute ::
  "'c source_tables \<Rightarrow> generic_source \<Rightarrow> nat \<Rightarrow> event_origin \<Rightarrow> bool \<Rightarrow> 'c volume_service \<Rightarrow> 'c volume_service res" where
  "VolumeService_VoiceSourceMute t focus s origin m w =
     res_bind (VoiceSources_SetMuteState t s m w) (\<lambda>w.
     res_bind (VoiceSources_OnMuteChange t s origin m w)
       (volumeService_RefreshCurrentVolume t focus event_origin_local))"

definition volumeMessageHandler ::
  "'c source_tables \<Rightarrow> generic_source \<Rightarrow> volume_request \<Rightarrow> 'c volume_service \<Rightarrow> 'c volume_service res" where
  "volumeMessageHandler t focus m w = (case m of
     VOICE_SOURCE_VOLUME_UPDATE_REQUEST s origin v \<Rightarrow> VolumeService_SetVoiceSourceVolume t focus s origin v w
   | VOICE_SOURCE_VOLUME_INCREMENT_REQUEST s origin \<Rightarrow> VolumeService_IncrementVoiceSourceVolume t focus s origin w
   | VOICE_SOURCE_VOLUME_DECREMENT_REQUEST s origin \<Rightarrow> VolumeService_DecrementVoiceSourceVolume t focus s origin w
   | VOICE_SOURCE_MUTE_VOLUME_REQUEST s origin m \<Rightarrow> VolumeService_VoiceSourceMute t focus s origin m w
   | AUDIO_SOURCE_VOLUME_UPDATE_REQUEST s origin v \<Rightarrow> VolumeService_SetAudioSourceVolume t focus s origin v w
   | AUDIO_SOURCE_VOLUME_INCREMENT_REQUEST s origin \<Rightarrow> VolumeService_IncrementAudioSourceVolume t focus s origin w
   | AUDIO_SOURCE_VOLUME_DECREMENT_REQUEST s origin \<Rightarrow> VolumeService_DecrementAudioSourceVolume t focus s origin w
   | AUDIO_SOURCE_MUTE_VOLUME_REQUEST s origin m \<Rightarrow> VolumeService_AudioSourceMute t focus s origin m w)"

definition volumeService_VolumeWithinAllowedRange :: "volume \<Rightarrow> bool" where
  "volumeService_VolumeWithinAllowedRange v \<longleftrightarrow>
     vvalue v < range_max (vrange (config v)) \<and> vvalue v > range_min (vrange (config v))"

definition ramp_step_audio ::
  "'c source_tables \<Rightarrow> generic_source \<Rightarrow> nat \<Rightarrow> int \<Rightarrow> 'c volume_service \<Rightarrow> ('c volume_service \<times> volume) res" where
  "ramp_step_audio t focus s step w =
     res_bind (AudioSources_GetVolume t s w) (\<lambda>(w, v).
       let volume_step_size = VolumeUtils_GetStepSize (config v); new_volume = v\<lparr>vvalue := i32 (vvalue v + step)\<rparr> in
       res_bind
         (if volumeService_VolumeWithinAllowedRange v
          then if step = volume_step_size then VolumeService_IncrementAudioSourceVolume t focus s event_origin_local w
            else if step = i32 (- volume_step_size) then VolumeService_DecrementAudioSourceVolume t focus s event_origin_local w
            else VolumeService_SetAudioSourceVolume t focus s event_origin_local new_volume w
          else Inr w)
         (\<lambda>w. Inr (w, new_volume)))"

definition ramp_step_voice ::
  "'c source_tables \<Rightarrow> generic_source \<Rightarrow> nat \<Rightarrow> int \<Rightarrow> 'c volume_service \<Rightarrow> ('c volume_service \<times> volume) res" where
  "ramp_step_voice t focus s step w =
     res_bind (VoiceSources_GetVolume t s w) (\<lambda>(w, v).
       let volume_step_size = VolumeUtils_GetStepSize (config v); new_volume = v\<lparr>vvalue := i32 (vvalue v + step)\<rparr> in
       res_bind
         (if volumeService_VolumeWithinAllowedRange v
          then if step = volume_step_size then VolumeService_IncrementVoiceSourceVolume t focus s event_origin_local w
            else if step = i32 (- volume_step_size) then VolumeService_DecrementVoiceSourceVolume t focus s event_origin_local w
            else VolumeService_SetVoiceSourceVolume t focus s event_origin_local new_volume w
          else Inr w)
         (\<lambda>w. Inr (w, new_volume)))"

definition volumeService_DoVolumeRampRepeat ::
  "'c source_tables \<Rightarrow> generic_source \<Rightarrow> generic_source \<Rightarrow> int \<Rightarrow> 'c volume_service \<Rightarrow> 'c volume_service res" where
  "volumeService_DoVolumeRampRepeat t focus src step w =
     res_bind
       (case src of
          source_type_audio s \<Rightarrow> ramp_step_audio t focus s step w
        | source_type_voice s \<Rightarrow> ramp_step_voice t focus s step w
        | source_type_other \<Rightarrow> Inl Panic)
       (\<lambda>(w, new_volume).
         if volumeService_VolumeWithinAllowedRange new_volume
         then Inr (post_internal (INTERNAL_MSG_VOLUME_RAMP_REPEAT src step) w) else Inr w)"

definition volumeService_InternalMessageHandler ::
  "'c source_tables \<Rightarrow> generic_source \<Rightarrow> internal_message \<Rightarrow> 'c volume_service \<Rightarrow> 'c volume_service res" where
  "volumeService_InternalMessageHandler t focus m w = (case m of
     UiInputMessage inp \<Rightarrow> volumeService_HandleUiInput t focus inp w
   | INTERNAL_MSG_APPLY_AUDIO_VOLUME \<Rightarrow> (case focus of
       source_type_audio s \<Rightarrow> volumeService_RefreshAudioVolume t event_origin_local s w
     | _ \<Rightarrow> Inr w)
   | INTERNAL_MSG_VOLUME_RAMP_REPEAT src step \<Rightarrow> volumeService_DoVolumeRampRepeat t focus src step w)"

text \<open>Initialisation of the service registers it as an observer of every audio source.\<close>

definition VolumeService_Init :: "ptr \<Rightarrow> 'c volume_service \<Rightarrow> 'c volume_service res" where
  "VolumeService_Init p w = for_res (\<lambda>s. AudioSources_RegisterObserver s (Some p)) [1..<max_audio_sources] w"

section \<open>The events of the service\<close>

text \<open>
  The scheduler delivers messages of the internal task, which may be timed, in any order;
  requests in the order of sending. Other modules register tables, send requests, set the limit and the mute
  state and change the state behind their tables. Every event comes with the source in focus.
\<close>

datatype 'c service_event =
    PressedInput ui_input
  | DeliverInternal nat
  | DeliverRequest
  | SendRequest volume_request
  | RoutingChange nat bool
  | SystemVolumeSet event_origin volume
  | SystemVolumeUp event_origin
  | SystemVolumeDown event_origin
  | LimitSet volume
  | LimitRemoved
  | MuteStateSet bool
  | RegisterAudioVolume nat ptr
  | RegisterAudioControl nat ptr
  | RegisterVoiceVolume nat ptr
  | RegisterVoiceControl nat ptr
  | ClientChange 'c

definition service_step ::
  "'c source_tables \<Rightarrow> generic_source \<times> 'c service_event \<Rightarrow> 'c volume_service \<Rightarrow> 'c volume_service res" where
  "service_step t = (\<lambda>(focus, e) w. case e of
     PressedInput inp \<Rightarrow> Inr (post_internal (UiInputMessage inp) w)
   | DeliverInternal i \<Rightarrow>
       if i < length (internal w)
       then volumeService_InternalMessageHandler t focus (internal w ! i) (w\<lparr>internal := remove_at i (internal w)\<rparr>) else Inr w
   | DeliverRequest \<Rightarrow> (case requests w of
       [] \<Rightarrow> Inr w | m # ms \<Rightarrow> volumeMessageHandler t focus m (w\<lparr>requests := ms\<rparr>))
   | SendRequest m \<Rightarrow> Inr (post_request m w)
   | RoutingChange s routed \<Rightarrow> Inr (volumeService_OnAudioRoutingChange s routed w)
   | SystemVolumeSet origin v \<Rightarrow> VolumeService_SetSystemVolume t focus origin v w
   | SystemVolumeUp origin \<Rightarrow> VolumeService_IncrementSystemVolume t focus origin w
   | SystemVolumeDown origin \<Rightarrow> VolumeService_DecrementSystemVolume t focus origin w
   | LimitSet v \<Rightarrow> Inr (w\<lparr>volume_data := Volume_SetLimit v (volume_data w)\<rparr>)
   | LimitRemoved \<Rightarrow> Inr (w\<lparr>volume_data := Volume_RemoveLimit (volume_data w)\<rparr>)
   | MuteStateSet m \<Rightarrow> Inr (w\<lparr>volume_data := Volume_SetMuteState m (volume_data w)\<rparr>)
   | RegisterAudioVolume s p \<Rightarrow> AudioSources_RegisterVolume s (Some p) w
   | RegisterAudioControl s p \<Rightarrow> AudioSources_RegisterVolumeControl s (Some p) w
   | RegisterVoiceVolume s p \<Rightarrow> VoiceSources_RegisterVolume s (Some p) w
   | RegisterVoiceControl s p \<Rightarrow> VoiceSources_RegisterVolumeControl s (Some p) w
   | ClientChange c \<Rightarrow> Inr (w\<lparr>client := c\<rparr>))"

definition service_start :: "'c \<Rightarrow> 'c volume_service" where
  "service_start c = \<lparr>audio_registry = AudioInterface_Init, voice_volumes = replicate max_voice_sources None,
     voice_controls = replicate max_voice_sources None,
     voice_observers = replicate max_voice_sources (replicate MAX_VOICE_SOURCE_OBSERVERS_PER_SOURCE None),
     volume_data = volume_start, client = c, calls = [], requests = [], internal = []\<rparr>"

definition run_service ::
  "'c source_tables \<Rightarrow> (generic_source \<times> 'c service_event) list \<Rightarrow> 'c volume_service \<Rightarrow> 'c volume_service res" where
  "run_service t = for_res (service_step t)"

end
