(* ===== verification/Volume_Safety.thy ===== *)
theory Volume_Safety
  imports Volume_Service
begin

text \<open>
  The client lemmas of the contract \<open>volume_tables\<close>: no function of the volume service faults in a state in
  order, and it leaves the state in order. They are weakest preconditions of the functions, put together
  along the code.
\<close>

section \<open>Weakest preconditions\<close>

definition wp :: "'a res \<Rightarrow> ('a \<Rightarrow> bool) \<Rightarrow> bool" where
  "wp m P = (case m of Inl _ \<Rightarrow> False | Inr x \<Rightarrow> P x)"

lemma wp_simps [simp]:
  "wp (Inr x) P = P x"
  "wp (Inl e) P = False"
  by (simp_all add: wp_def)

lemma wp_bind: "wp (res_bind m f) P = wp m (\<lambda>x. wp (f x) P)"
  by (cases m) simp_all

lemma wp_bindI: "wp m Q \<Longrightarrow> (\<And>x. Q x \<Longrightarrow> wp (f x) P) \<Longrightarrow> wp (res_bind m f) P"
  by (cases m) simp_all

lemma wp_bind2I: "wp m (\<lambda>(x, y). Q x y) \<Longrightarrow> (\<And>x y. Q x y \<Longrightarrow> wp (f (x, y)) P) \<Longrightarrow> wp (res_bind m f) P"
  by (cases m) auto

lemma wp_panic_unless [simp]: "wp (panic_unless b) P = (b \<and> P ())"
  by (cases b) simp_all

lemma wpI: "m = Inr x \<Longrightarrow> P x \<Longrightarrow> wp m P"
  by simp

lemma wpD: "wp m P \<Longrightarrow> \<exists>x. m = Inr x \<and> P x"
  by (cases m) simp_all

lemma wp_mono: "wp m Q \<Longrightarrow> (\<And>x. Q x \<Longrightarrow> P x) \<Longrightarrow> wp m P"
  by (cases m) simp_all

lemma wp_mono2: "wp m (\<lambda>(x, y). Q x y) \<Longrightarrow> (\<And>x y. Q x y \<Longrightarrow> P (x, y)) \<Longrightarrow> wp m P"
  by (cases m) auto

section \<open>Volumes in steps of one\<close>

text \<open>A value outside the range, as a ramp produces it, is cut off by conversion to its own range.\<close>

lemma convert_same:
  assumes v: "unit_volume v" and y: "-2048 \<le> y" "y \<le> 18432"
  shows "VolumeUtils_ConvertToVolumeConfig (v\<lparr>vvalue := y\<rparr>) (config v) = Inr (max 0 (min (range_max (vrange (config v))) y))"
proof -
  define i where "i = extent (config v)"
  have c: "config_ok (config v)" and s: "step_of (config v) = 1" and mn: "range_min (vrange (config v)) = 0"
    using v by (simp_all add: unit_volume_def volume_ok_def)
  have i: "1 \<le> i" "i \<le> 16383"
    using config_okD(1,2) [OF c] by (simp_all add: i_def)
  have mx: "range_max (vrange (config v)) = i"
    by (simp add: i_def extent_def mn)
  define q where "q = (y * i + i div 2) sdiv i"
  have q: "-2048 \<le> q" "q \<le> 18432" "max 0 (min i q) = max 0 (min i y)"
  proof -
    show "-2048 \<le> q" "q \<le> 18432" "max 0 (min i q) = max 0 (min i y)"
    proof (atomize (full), cases "0 \<le> y")
      case True
      have "(y * i + i div 2) div i = y"
        using i by simp
      then have "q = y"
        unfolding q_def using True i by (simp add: sdiv_pos)
      then show "-2048 \<le> q \<and> q \<le> 18432 \<and> max 0 (min i q) = max 0 (min i y)"
        using y by simp
    next
      case False
      define n where "n = - (y * i + i div 2)"
      have "i \<le> - y * i"
        using False i mult_right_mono [of 1 "- y" i] by simp
      then have n: "0 \<le> n" "n \<le> - y * i"
        using i by (simp_all add: n_def)
      have "(- n) sdiv i = - (n div i)"
        using n i by (cases "n = 0") (simp_all add: signed_divide_int_def sgn_if)
      moreover have "q = (- n) sdiv i"
        by (simp only: q_def n_def minus_minus)
      ultimately have q: "q = - (n div i)"
        by simp
      have "n div i \<le> (- y * i) div i"
        using n i by (intro zdiv_mono1) simp_all
      also have "\<dots> = - y"
        using i by (intro nonzero_mult_div_cancel_right) simp
      finally have "n div i \<le> - y" .
      moreover have "0 \<le> n div i"
        using n i by (simp add: pos_imp_zdiv_nonneg_iff)
      ultimately have "0 \<le> n div i" "n div i \<le> - y"
        by simp_all
      then show "-2048 \<le> q \<and> q \<le> 18432 \<and> max 0 (min i q) = max 0 (min i y)"
        using False q y i by (auto simp: max_def min_def)
    qed
  qed
  have "\<bar>y * i\<bar> \<le> 18432 * 16383"
    unfolding abs_mult using y i by (intro mult_mono) auto
  then have b: "-301971456 \<le> y * i" "y * i \<le> 301971456"
    by auto
  have num: "i32 (i32 (i32 (y - 0) * i) + i sdiv 2) = y * i + i div 2"
    using b i y by (simp add: i32_id sdiv_pos)
  have quot: "cdiv (y * i + i div 2) i = Inr q"
    using i by (simp add: cdiv_def q_def)
  have q16: "i16 q = q" and one: "i16 1 = 1"
    using q by (simp_all add: i16_id)
  have lvl: "cdiv q 1 = Inr q" and no_rest: "q smod 1 = 0"
    by (simp_all add: cdiv_def signed_modulo_int_def)
  have "VolumeUtils_LimitVolumeToRange q (vrange (config v)) = max 0 (min i q)"
    using limit_to_range [of "vrange (config v)" q] mn mx i by simp
  moreover have "i16 (max 0 (min i q)) = max 0 (min i q)"
    using i by (simp add: i16_id)
  ultimately show ?thesis
    unfolding VolumeUtils_ConvertToVolumeConfig_def get_range_eq [OF c] step_size_eq [OF c] s
    using num quot q16 one lvl no_rest q(3)
    by (simp add: mn mx i_def [symmetric] get_range_eq [OF c])
qed

lemma unit_steps:
  assumes "unit_volume v"
  shows "VolumeUtils_IncrementVolume v = min (range_max (vrange (config v))) (vvalue v + 1)"
    and "VolumeUtils_DecrementVolume v = max 0 (vvalue v - 1)"
    and "VolumeUtils_GetStepSize (config v) = 1"
    and "0 \<le> vvalue v" and "vvalue v \<le> range_max (vrange (config v))"
    and "1 \<le> range_max (vrange (config v))" and "range_max (vrange (config v)) \<le> 16383"
proof -
  have c: "config_ok (config v)" and s: "step_of (config v) = 1" and mn: "range_min (vrange (config v)) = 0"
    and r: "0 \<le> vvalue v" "vvalue v \<le> range_max (vrange (config v))"
    using assms by (simp_all add: unit_volume_def volume_ok_def)
  have mx: "1 \<le> range_max (vrange (config v))" "range_max (vrange (config v)) \<le> 16383"
    using config_okD(1,4) [OF c] by (simp_all add: extent_def mn)
  have "i32 (vvalue v + 1) = vvalue v + 1" "i32 (vvalue v - 1) = vvalue v - 1"
    using r mx by (simp_all add: i32_id)
  then show "VolumeUtils_IncrementVolume v = min (range_max (vrange (config v))) (vvalue v + 1)"
    "VolumeUtils_DecrementVolume v = max 0 (vvalue v - 1)"
    using r mx mn by (simp_all add: VolumeUtils_IncrementVolume_def VolumeUtils_DecrementVolume_def step_size_eq [OF c] s
        limit_to_range)
  show "VolumeUtils_GetStepSize (config v) = 1"
    by (simp add: step_size_eq [OF c] s)
  show "0 \<le> vvalue v" "vvalue v \<le> range_max (vrange (config v))"
    "1 \<le> range_max (vrange (config v))" "range_max (vrange (config v)) \<le> 16383"
    using r mx by simp_all
qed

lemma ui_step:
  assumes "unit_volume v"
  shows "VolumeService_GetUiStepSize (config v) = max 1 ((range_max (vrange (config v)) + 1) div 16)"
    and "1 \<le> VolumeService_GetUiStepSize (config v)" and "VolumeService_GetUiStepSize (config v) \<le> 1024"
proof -
  note st = unit_steps [OF assms]
  have mn: "range_min (vrange (config v)) = 0"
    using assms by (simp add: unit_volume_def)
  have "i32 (i32 (range_max (vrange (config v)) - range_min (vrange (config v))) + 1) sdiv VOLUME_SERVICE_UI_STEPS =
      (range_max (vrange (config v)) + 1) div 16"
    using st by (simp add: mn i32_id VOLUME_SERVICE_UI_STEPS_def sdiv_pos)
  then show eq: "VolumeService_GetUiStepSize (config v) = max 1 ((range_max (vrange (config v)) + 1) div 16)"
    by (simp add: VolumeService_GetUiStepSize_def st(3) max_def)
  have "(range_max (vrange (config v)) + 1) div 16 \<le> 16384 div 16"
    using st(7) by (intro zdiv_mono1) simp_all
  then show "1 \<le> VolumeService_GetUiStepSize (config v)" "VolumeService_GetUiStepSize (config v) \<le> 1024"
    by (simp_all add: eq)
qed

lemma limit_unit:
  assumes "unit_volume v"
  shows "VolumeUtils_LimitVolumeToRange x (vrange (config v)) = max 0 (min (range_max (vrange (config v))) x)"
  using assms unit_steps(6) [OF assms] by (simp add: limit_to_range unit_volume_def)

section \<open>States in order\<close>

definition voice_source_ok :: "nat \<Rightarrow> bool" where
  "voice_source_ok s \<longleftrightarrow> 0 < s \<and> s < max_voice_sources"

definition source_ok :: "generic_source \<Rightarrow> bool" where
  "source_ok src = (case src of
     source_type_audio s \<Rightarrow> audioInterface_SourceIsValid s | source_type_voice s \<Rightarrow> voice_source_ok s | source_type_other \<Rightarrow> False)"

definition volume_data_ok :: "volume_state \<Rightarrow> bool" where
  "volume_data_ok d \<longleftrightarrow> volume_ok (system_volume d) \<and> (Volume_IsLimitSet d \<longrightarrow> volume_ok (limit d))"

text \<open>A volume that is sent to the audio chains is within its range.\<close>

definition call_ok :: "sound_call \<Rightarrow> bool" where
  "call_ok x = (case x of
     KymeraSetVolume _ v \<Rightarrow> range_min (vrange (config v)) \<le> vvalue v \<and> vvalue v \<le> range_max (vrange (config v)) | _ \<Rightarrow> True)"

definition step_ok :: "int \<Rightarrow> bool" where
  "step_ok x \<longleftrightarrow> -1024 \<le> x \<and> x \<le> 1024"

definition request_ok :: "volume_request \<Rightarrow> bool" where
  "request_ok m = (case m of
     VOICE_SOURCE_VOLUME_UPDATE_REQUEST s _ v \<Rightarrow> voice_source_ok s \<and> volume_ok v
   | VOICE_SOURCE_VOLUME_INCREMENT_REQUEST s _ \<Rightarrow> voice_source_ok s
   | VOICE_SOURCE_VOLUME_DECREMENT_REQUEST s _ \<Rightarrow> voice_source_ok s
   | VOICE_SOURCE_MUTE_VOLUME_REQUEST s _ _ \<Rightarrow> voice_source_ok s
   | AUDIO_SOURCE_VOLUME_UPDATE_REQUEST s _ v \<Rightarrow> audioInterface_SourceIsValid s \<and> volume_ok v
   | AUDIO_SOURCE_VOLUME_INCREMENT_REQUEST s _ \<Rightarrow> audioInterface_SourceIsValid s
   | AUDIO_SOURCE_VOLUME_DECREMENT_REQUEST s _ \<Rightarrow> audioInterface_SourceIsValid s
   | AUDIO_SOURCE_MUTE_VOLUME_REQUEST s _ _ \<Rightarrow> audioInterface_SourceIsValid s)"

definition internal_ok :: "internal_message \<Rightarrow> bool" where
  "internal_ok m = (case m of INTERNAL_MSG_VOLUME_RAMP_REPEAT src step \<Rightarrow> source_ok src \<and> step_ok step | _ \<Rightarrow> True)"

context volume_tables
begin

definition sources_ok :: "('c, 'm) sources_scheme \<Rightarrow> bool" where
  "sources_ok w \<longleftrightarrow> registry_ok (audio_registry w) \<and> length (voice_volumes w) = max_voice_sources \<and>
     length (voice_controls w) = max_voice_sources \<and> length (voice_observers w) = max_voice_sources \<and>
     volume_data_ok (volume_data w) \<and> client_ok (client w) \<and> list_all call_ok (calls w)"

text \<open>What every change of a volume keeps, and what reading keeps as well.\<close>

definition keeps :: "('c, 'm) sources_scheme \<Rightarrow> ('c, 'm) sources_scheme \<Rightarrow> bool" where
  "keeps w w' \<longleftrightarrow> sources_ok w' \<and> sources.more w' = sources.more w \<and>
     registry_map (audio_registry w') = registry_map (audio_registry w) \<and>
     voice_volumes w' = voice_volumes w \<and> voice_controls w' = voice_controls w \<and> voice_observers w' = voice_observers w \<and>
     volume_data w' = volume_data w \<and>
     (\<forall>p s. config (level p s (client w')) = config (level p s (client w)) \<and> connected p s (client w') = connected p s (client w))"

definition reads :: "('c, 'm) sources_scheme \<Rightarrow> ('c, 'm) sources_scheme \<Rightarrow> bool" where
  "reads w w' \<longleftrightarrow> keeps w w' \<and> calls w' = calls w \<and> (\<forall>p s. level p s (client w') = level p s (client w))"

definition tells :: "('c, 'm) sources_scheme \<Rightarrow> ('c, 'm) sources_scheme \<Rightarrow> bool" where
  "tells w w' \<longleftrightarrow> keeps w w' \<and> (\<forall>p s. level p s (client w') = level p s (client w))"

lemma tells_trans: "tells u v \<Longrightarrow> tells v w \<Longrightarrow> tells u w"
  by (simp add: tells_def keeps_def)

lemma tells_keeps: "tells w w' \<Longrightarrow> keeps w w'"
  by (simp add: tells_def)

lemma reads_tells: "reads w w' \<Longrightarrow> tells w w'"
  by (simp add: reads_def tells_def)

lemma tells_ok: "tells w w' \<Longrightarrow> sources_ok w'"
  by (simp add: tells_def keeps_def)

lemma tells_level: "tells w w' \<Longrightarrow> audio_level w' s = audio_level w s \<and> voice_level w' s = voice_level w s"
  by (simp add: tells_def keeps_def audio_level_def voice_level_def split: list.splits option.splits)

lemma keeps_refl: "sources_ok w \<Longrightarrow> keeps w w"
  by (simp add: keeps_def)

lemma keeps_trans: "keeps u v \<Longrightarrow> keeps v w \<Longrightarrow> keeps u w"
  by (simp add: keeps_def)

lemma keeps_ok: "keeps w w' \<Longrightarrow> sources_ok w'"
  by (simp add: keeps_def)

lemma reads_refl: "sources_ok w \<Longrightarrow> reads w w"
  by (simp add: reads_def keeps_refl)

lemma reads_trans: "reads u v \<Longrightarrow> reads v w \<Longrightarrow> reads u w"
  by (auto simp: reads_def intro: keeps_trans)

lemma reads_keeps: "reads w w' \<Longrightarrow> keeps w w'"
  by (simp add: reads_def)

lemma reads_ok: "reads w w' \<Longrightarrow> sources_ok w'"
  by (simp add: reads_def keeps_def)

lemma reads_level: "reads w w' \<Longrightarrow> audio_level w' s = audio_level w s \<and> voice_level w' s = voice_level w s"
  by (simp add: reads_def keeps_def audio_level_def voice_level_def split: list.splits option.splits)

lemma keeps_config: "keeps w w' \<Longrightarrow> config (audio_level w' s) = config (audio_level w s)"
  "keeps w w' \<Longrightarrow> config (voice_level w' s) = config (voice_level w s)"
  by (simp_all add: keeps_def audio_level_def voice_level_def split: list.splits option.splits)

lemma unit_full: "unit_volume FULL_SCALE_VOLUME"
  by (simp add: unit_volume_def FULL_SCALE_VOLUME_def volume_ok_def config_ok_def step_of_def extent_def)

lemma levels_unit:
  assumes "sources_ok w"
  shows "unit_volume (audio_level w s)" and "unit_volume (voice_level w s)"
  using assms level_ok unit_full by (auto simp: sources_ok_def audio_level_def voice_level_def split: list.splits option.splits)

lemma call_keeps: "sources_ok w \<Longrightarrow> call_ok x \<Longrightarrow> keeps w (call x w)"
  by (simp add: keeps_def sources_ok_def call_def)

lemma interfaces_wp:
  assumes "sources_ok w" and "audioInterface_SourceIsValid s"
  shows "wp (interfaces_of s ty w) (\<lambda>(w', l, n). reads w w' \<and>
    l = padded (max_interfaces ty) (registry_map (audio_registry w) s ty) \<and> n = length (registry_map (audio_registry w) s ty) \<and>
    n \<le> max_interfaces ty)"
proof -
  have ok: "registry_ok (audio_registry w)"
    using assms(1) by (simp add: sources_ok_def)
  obtain r i where r: "audioInterface_GetRegistryIndexBySource s (audio_registry w) = Inr (r, i)" "registry_ok r"
    "i < number_of_registered_sources r" "source_id (interfaces r ! i) = s"
    "registry_map r = registry_map (audio_registry w)"
    using index_of_source [OF ok assms(2)] by blast
  have "length (registry_map (audio_registry w) s ty) \<le> max_interfaces ty"
    using registry_entry(2) [OF r(2,3,4)] r(5) by simp
  then show ?thesis
    using get_refines [OF ok assms(2), of ty] assms(1)
    by (auto simp: interfaces_of_def reads_def keeps_def sources_ok_def)
qed

lemma padded_first: "length ps \<le> n \<Longrightarrow> 0 < n \<Longrightarrow> padded n ps ! 0 = (case ps of [] \<Rightarrow> None | p # _ \<Rightarrow> Some p)"
  by (cases ps) (simp_all add: padded_def)

lemma max_interfaces_pos [simp]: "0 < max_interfaces ty"
  by (simp add: max_interfaces_def)

definition first_interface :: "('c, 'm) sources_scheme \<Rightarrow> nat \<Rightarrow> interface_type \<Rightarrow> ptr option" where
  "first_interface w s ty = (case registry_map (audio_registry w) s ty of [] \<Rightarrow> None | p # _ \<Rightarrow> Some p)"

lemma GetVolumeInterface_wp:
  assumes "sources_ok w" and "audioInterface_SourceIsValid s"
  shows "wp (audioSources_GetVolumeInterface s w) (\<lambda>(w', p). reads w w' \<and>
    p = first_interface w s audio_interface_type_volume_registry)"
  unfolding audioSources_GetVolumeInterface_def wp_bind
  by (rule wp_mono [OF interfaces_wp [OF assms]]) (auto simp: padded_first first_interface_def)

lemma GetVolumeControlInterface_wp:
  assumes "sources_ok w" and "audioInterface_SourceIsValid s"
  shows "wp (audioSources_GetVolumeControlInterface s w) (\<lambda>(w', p). reads w w' \<and>
    p = first_interface w s audio_interface_type_volume_control)"
  unfolding audioSources_GetVolumeControlInterface_def wp_bind
  by (rule wp_mono [OF interfaces_wp [OF assms]]) (auto simp: padded_first first_interface_def)

lemma client_reads:
  assumes "sources_ok w" and "client_ok c" and "\<And>p s. level p s c = level p s (client w)"
    and "\<And>p s. connected p s c = connected p s (client w)"
  shows "reads w (w\<lparr>client := c\<rparr>)"
  using assms by (simp add: reads_def keeps_def sources_ok_def)

lemma AudioSources_GetVolume_wp:
  assumes "sources_ok w" and "audioInterface_SourceIsValid s"
  shows "wp (AudioSources_GetVolume t s w) (\<lambda>(w', v). reads w w' \<and> v = audio_level w s)"
proof -
  define ps where "ps = registry_map (audio_registry w) s audio_interface_type_volume_registry"
  obtain w1 where w1: "audioSources_GetVolumeInterface s w = Inr (w1, first_interface w s audio_interface_type_volume_registry)"
    "reads w w1"
    using wpD [OF GetVolumeInterface_wp [OF assms]] by auto
  have lv: "audio_level w1 s = audio_level w s"
    using reads_level [OF w1(2)] by simp
  have map1: "registry_map (audio_registry w1) s audio_interface_type_volume_registry = ps"
    using w1(2) by (simp add: reads_def keeps_def ps_def)
  show ?thesis
  proof (cases "Option.bind (first_interface w s audio_interface_type_volume_registry) (\<lambda>p. GetVolume (volume_tab t p))")
    case None
    then have "audio_level w s = FULL_SCALE_VOLUME"
      by (auto simp: first_interface_def audio_level_def no_get_volume split: list.splits)
    then show ?thesis
      using w1 None by (simp add: AudioSources_GetVolume_def)
  next
    case (Some f)
    then obtain p qs where p: "ps = p # qs" "GetVolume (volume_tab t p) = Some f"
      by (auto simp: first_interface_def ps_def split: list.splits)
    have "client_ok (client w1)"
      using reads_ok [OF w1(2)] by (simp add: sources_ok_def)
    from get_volume [OF this p(2), of s] obtain c where
      c: "f s (client w1) = Inr (level p s (client w1), c)" "client_ok c"
      "\<And>q u. level q u c = level q u (client w1)" "\<And>q u. connected q u c = connected q u (client w1)"
      by blast
    have "level p s (client w1) = audio_level w s"
      using lv by (simp add: audio_level_def map1 p(1))
    moreover have "reads w (w1\<lparr>client := c\<rparr>)"
      by (rule reads_trans [OF w1(2) client_reads [OF reads_ok [OF w1(2)] c(2-4)]])
    ultimately show ?thesis
      using w1(1) Some c(1) by (simp add: AudioSources_GetVolume_def)
  qed
qed

definition audio_connected :: "('c, 'm) sources_scheme \<Rightarrow> nat \<Rightarrow> bool" where
  "audio_connected w s = (case registry_map (audio_registry w) s audio_interface_type_volume_registry of
     [] \<Rightarrow> False | p # _ \<Rightarrow> connected p s (client w))"

definition voice_connected :: "('c, 'm) sources_scheme \<Rightarrow> nat \<Rightarrow> bool" where
  "voice_connected w s = (case voice_volumes w ! s of None \<Rightarrow> False | Some p \<Rightarrow> connected p s (client w))"

lemma keeps_connected: "keeps w w' \<Longrightarrow> audio_connected w' s = audio_connected w s"
  "keeps w w' \<Longrightarrow> voice_connected w' s = voice_connected w s"
  by (simp_all add: keeps_def audio_connected_def voice_connected_def split: list.splits option.splits)

lemma client_keeps:
  assumes "sources_ok w" and "client_ok c" and "\<And>p s. config (level p s c) = config (level p s (client w))"
    and "\<And>p s. connected p s c = connected p s (client w)"
  shows "keeps w (w\<lparr>client := c\<rparr>)"
  using assms by (simp add: keeps_def sources_ok_def)

lemma AudioSources_SetVolume_wp:
  assumes "sources_ok w" and "audioInterface_SourceIsValid s" and "unit_volume v" and "config v = config (audio_level w s)"
  shows "wp (AudioSources_SetVolume t s v w) (\<lambda>w'. keeps w w' \<and> calls w' = calls w \<and>
    (audio_connected w s \<longrightarrow> audio_level w' s = v))"
proof -
  define ps where "ps = registry_map (audio_registry w) s audio_interface_type_volume_registry"
  obtain w1 where w1: "audioSources_GetVolumeInterface s w = Inr (w1, first_interface w s audio_interface_type_volume_registry)"
    "reads w w1"
    using wpD [OF GetVolumeInterface_wp [OF assms(1,2)]] by auto
  have lv: "audio_level w1 s = audio_level w s" and calls1: "calls w1 = calls w"
    using reads_level [OF w1(2)] w1(2) by (simp_all add: reads_def)
  have map1: "registry_map (audio_registry w1) s audio_interface_type_volume_registry = ps"
    using w1(2) by (simp add: reads_def keeps_def ps_def)
  show ?thesis
  proof (cases "Option.bind (first_interface w s audio_interface_type_volume_registry) (\<lambda>p. SetVolume (volume_tab t p))")
    case None
    then have "\<not> audio_connected w s"
      by (auto simp: first_interface_def audio_connected_def no_set_volume split: list.splits)
    then show ?thesis
      using w1 None calls1 by (simp add: AudioSources_SetVolume_def reads_keeps)
  next
    case (Some f)
    then obtain p qs where p: "ps = p # qs" "SetVolume (volume_tab t p) = Some f"
      by (auto simp: first_interface_def ps_def split: list.splits)
    have ok: "client_ok (client w1)"
      using reads_ok [OF w1(2)] by (simp add: sources_ok_def)
    have "config v = config (level p s (client w1))"
      using assms(4) lv by (simp add: audio_level_def map1 p(1))
    from set_volume [OF ok p(2) assms(3) this] obtain c where
      c: "client_ok c" "\<And>q u. config (level q u c) = config (level q u (client w1))"
      "\<And>q u. connected q u c = connected q u (client w1)"
      "connected p s (client w1) \<Longrightarrow> level p s c = v" "f s v (client w1) = Inr c"
      by blast
    have k: "keeps w (w1\<lparr>client := c\<rparr>)"
      by (rule keeps_trans [OF reads_keeps [OF w1(2)] client_keeps [OF reads_ok [OF w1(2)] c(1-3)]])
    have "audio_level (w1\<lparr>client := c\<rparr>) s = v" if "audio_connected w s"
      using that keeps_connected(1) [OF reads_keeps [OF w1(2)], of s] c(4)
      by (simp add: audio_connected_def audio_level_def map1 p(1))
    then show ?thesis
      using w1(1) Some k calls1 c(5) by (simp add: AudioSources_SetVolume_def)
  qed
qed

lemma AudioSources_GetMuteState_wp:
  assumes "sources_ok w" and "audioInterface_SourceIsValid s"
  shows "wp (AudioSources_GetMuteState t s w) (\<lambda>(w', m). reads w w')"
  unfolding AudioSources_GetMuteState_def
proof (rule wp_bind2I [OF GetVolumeInterface_wp [OF assms]], clarify)
  fix w1
  assume r: "reads w w1"
  have "client_ok (client w1)"
    using reads_ok [OF r] by (simp add: sources_ok_def)
  note mute = get_mute [OF this, of _ _ s]
  show "wp (case Option.bind (first_interface w s audio_interface_type_volume_registry) (\<lambda>p. GetMuteState (volume_tab t p)) of
      None \<Rightarrow> Inr (w1, False) | Some f \<Rightarrow> res_bind (f s (client w1)) (\<lambda>m. Inr (w1, m))) (\<lambda>(w', m). reads w w')"
    using r mute by (fastforce simp: bind_eq_Some_conv split: option.splits)
qed

lemma AudioSources_SetMuteState_wp:
  assumes "sources_ok w" and "audioInterface_SourceIsValid s"
  shows "wp (AudioSources_SetMuteState t s m w) (reads w)"
  unfolding AudioSources_SetMuteState_def wp_bind
proof (rule wp_mono [OF GetVolumeInterface_wp [OF assms]], clarsimp)
  fix w1
  assume r: "reads w w1"
  show "wp (case Option.bind (first_interface w s audio_interface_type_volume_registry) (\<lambda>p. SetMuteState (volume_tab t p)) of
      None \<Rightarrow> Inr w1 | Some f \<Rightarrow> res_bind (f s m (client w1)) (\<lambda>c. Inr (w1\<lparr>client := c\<rparr>))) (reads w)"
  proof (cases "Option.bind (first_interface w s audio_interface_type_volume_registry) (\<lambda>p. SetMuteState (volume_tab t p))")
    case None
    then show ?thesis
      using r by simp
  next
    case (Some f)
    then obtain p where p: "SetMuteState (volume_tab t p) = Some f"
      by (auto simp: bind_eq_Some_conv)
    have "client_ok (client w1)"
      using reads_ok [OF r] by (simp add: sources_ok_def)
    from set_mute [OF this p] obtain c where c: "f s m (client w1) = Inr c" "client_ok c"
      "\<And>q u. level q u c = level q u (client w1)" "\<And>q u. connected q u c = connected q u (client w1)"
      by blast
    from client_reads [OF reads_ok [OF r] c(2-4)] c(1) show ?thesis
      using Some reads_trans [OF r] by simp
  qed
qed

lemma output_ok:
  assumes "unit_volume v" and "volume_data_ok d"
  shows "wp (Volume_CalculateOutputVolume d v m) (\<lambda>out. config out = config v \<and> 0 \<le> vvalue out \<and> vvalue out \<le> vvalue v \<and>
    (\<forall>src. call_ok (KymeraSetVolume src out)))"
proof -
  have v: "volume_ok v" "range_min (vrange (config v)) = 0"
    using assms(1) by (simp_all add: unit_volume_def)
  have d: "volume_ok (system_volume d)" "Volume_IsLimitSet d \<longrightarrow> volume_ok (limit d)"
    using assms(2) by (simp_all add: volume_data_ok_def)
  have "vvalue v \<le> range_max (vrange (config v))"
    using v(1) by (simp add: volume_ok_def)
  then show ?thesis
    using output_volume [OF v d, of m] v(2) by (auto simp: call_ok_def)
qed

lemma AudioSources_CalculateOutputVolume_wp:
  assumes "sources_ok w" and "audioInterface_SourceIsValid s"
  shows "wp (AudioSources_CalculateOutputVolume t s w) (\<lambda>(w', v). reads w w' \<and> config v = config (audio_level w s) \<and>
    0 \<le> vvalue v \<and> vvalue v \<le> vvalue (audio_level w s) \<and> (\<forall>src. call_ok (KymeraSetVolume src v)))"
  unfolding AudioSources_CalculateOutputVolume_def
  apply (rule wp_bind2I [OF AudioSources_GetVolume_wp [OF assms]], clarsimp)
  apply (rule wp_bind2I [OF AudioSources_GetMuteState_wp [OF reads_ok assms(2)]], assumption, clarsimp)
  apply (rule wp_bindI [OF output_ok [OF levels_unit(1) [OF assms(1)]]])
   apply (simp add: reads_def keeps_def sources_ok_def)
  apply (auto intro: reads_trans)
  done

lemma call_tells: "sources_ok w \<Longrightarrow> call_ok x \<Longrightarrow> tells w (call x w)"
  by (simp add: tells_def call_keeps) (simp add: call_def)

lemma control_call_tells: "sources_ok w \<Longrightarrow> (\<And>p. call_ok (x p)) \<Longrightarrow> tells w (control_call has t p x w)"
  by (auto simp: control_call_def call_tells reads_tells reads_refl split: option.splits)

lemma IsVolumeControlRegistered_wp:
  assumes "sources_ok w" and "audioInterface_SourceIsValid s"
  shows "wp (AudioSources_IsVolumeControlRegistered s w) (\<lambda>(w', b). reads w w' \<and>
    b = (first_interface w s audio_interface_type_volume_control \<noteq> None))"
  unfolding AudioSources_IsVolumeControlRegistered_def
  by (rule wp_bind2I [OF GetVolumeControlInterface_wp [OF assms]]) simp

lemma reads_control: "reads w w' \<Longrightarrow> (\<And>p. call_ok (x p)) \<Longrightarrow> tells w (control_call has t q x w')"
  by (meson control_call_tells reads_ok reads_tells tells_trans)

lemma audio_control_wp:
  assumes "sources_ok w" and "audioInterface_SourceIsValid s"
  shows "wp (AudioSources_VolumeUp t s w) (tells w)" and "wp (AudioSources_VolumeDown t s w) (tells w)"
    and "wp (AudioSources_VolumeSetAbsolute t s v w) (tells w)" and "wp (AudioSources_Mute t s m w) (tells w)"
  unfolding AudioSources_VolumeUp_def AudioSources_VolumeDown_def AudioSources_VolumeSetAbsolute_def AudioSources_Mute_def
  by (rule wp_bind2I [OF GetVolumeControlInterface_wp [OF assms]], simp add: reads_control call_ok_def)+

lemma registered_map: "registered (map Some ps) = map Some ps"
  by (induction ps) (simp_all add: registered_def)

lemma fold_observers:
  assumes "sources_ok w" and "\<And>p. call_ok (x p)"
  shows "tells w (fold (\<lambda>p w. if has (observer_tab t p) then call (x p) w else w) ps w) \<and>
    calls (fold (\<lambda>p w. if has (observer_tab t p) then call (x p) w else w) ps w) = calls w @ observer_calls has t ps x"
  using assms(1)
proof (induction ps arbitrary: w)
  case Nil
  then show ?case
    by (simp add: observer_calls_def reads_tells reads_refl)
next
  case (Cons p ps)
  have "tells w (if has (observer_tab t p) then call (x p) w else w)"
    using Cons.prems assms(2) by (simp add: call_tells reads_tells reads_refl)
  with Cons.IH [OF tells_ok [OF this]] show ?case
    by (auto simp: observer_calls_def call_def intro: tells_trans)
qed

definition audio_observers :: "('c, 'm) sources_scheme \<Rightarrow> nat \<Rightarrow> ptr list" where
  "audio_observers w s = registry_map (audio_registry w) s audio_interface_type_observer_registry"

lemma audio_observers_wp:
  assumes "sources_ok w" and "audioInterface_SourceIsValid s" and "\<And>p. call_ok (x p)"
  shows "wp (audio_observers_do has t s x w) (\<lambda>w'. tells w w' \<and>
    calls w' = calls w @ observer_calls has t (audio_observers w s) x)"
  unfolding audio_observers_do_def
proof (rule wp_bind2I [OF interfaces_wp [OF assms(1,2)]], clarsimp)
  fix w1
  let ?ps = "registry_map (audio_registry w) s audio_interface_type_observer_registry"
  assume r: "reads w w1" and n: "length ?ps \<le> max_interfaces audio_interface_type_observer_registry"
  have eq: "map the (registered (take (length ?ps) (padded (max_interfaces audio_interface_type_observer_registry) ?ps))) = ?ps"
    by (simp add: padded_def registered_map)
  show "tells w (fold (\<lambda>p w. if has (observer_tab t p) then call (x p) w else w)
        (map the (registered (take (length ?ps) (padded (max_interfaces audio_interface_type_observer_registry) ?ps)))) w1) \<and>
      calls (fold (\<lambda>p w. if has (observer_tab t p) then call (x p) w else w)
        (map the (registered (take (length ?ps) (padded (max_interfaces audio_interface_type_observer_registry) ?ps)))) w1) =
      calls w @ observer_calls has t (audio_observers w s) x"
    unfolding eq using fold_observers [OF reads_ok [OF r] assms(3), where has = has and ps = ?ps] tells_trans [OF reads_tells [OF r]] r
    by (auto simp: audio_observers_def reads_def)
qed

lemma audio_changes_wp:
  assumes "sources_ok w" and "audioInterface_SourceIsValid s"
  shows "wp (AudioSources_OnVolumeChange t s origin v w) (\<lambda>w'. tells w w' \<and> calls w' = calls w @
      observer_calls OnVolumeChange t (audio_observers w s) (\<lambda>p. CallOnVolumeChange p (source_type_audio s) origin v))"
    and "wp (AudioSources_OnMuteChange t s origin m w) (\<lambda>w'. tells w w' \<and> calls w' = calls w @
      observer_calls OnMuteChange t (audio_observers w s) (\<lambda>p. CallOnMuteChange p (source_type_audio s) origin m))"
  unfolding AudioSources_OnVolumeChange_def AudioSources_OnMuteChange_def
  by (rule audio_observers_wp [OF assms]; simp add: call_ok_def)+

subsection \<open>Voice sources\<close>

lemma validate_voice [simp]: "voice_source_ok s \<Longrightarrow> voiceSources_ValidateSource s = Inr ()"
  by (simp add: voiceSources_ValidateSource_def voice_source_ok_def panic_unless_def)

lemma VoiceSources_GetVolume_wp:
  assumes "sources_ok w" and "voice_source_ok s"
  shows "wp (VoiceSources_GetVolume t s w) (\<lambda>(w', v). reads w w' \<and> v = voice_level w s)"
proof (cases "Option.bind (voice_volumes w ! s) (\<lambda>p. GetVolume (volume_tab t p))")
  case None
  then have "voice_level w s = FULL_SCALE_VOLUME"
    by (auto simp: voice_level_def no_get_volume split: option.splits)
  then show ?thesis
    using None assms by (simp add: VoiceSources_GetVolume_def reads_refl)
next
  case (Some f)
  then obtain p where p: "voice_volumes w ! s = Some p" "GetVolume (volume_tab t p) = Some f"
    by (auto simp: bind_eq_Some_conv)
  have "client_ok (client w)"
    using assms(1) by (simp add: sources_ok_def)
  from get_volume [OF this p(2), of s] obtain c where
    c: "f s (client w) = Inr (level p s (client w), c)" "client_ok c"
    "\<And>q u. level q u c = level q u (client w)" "\<And>q u. connected q u c = connected q u (client w)"
    by blast
  then show ?thesis
    using p assms client_reads [OF assms(1) c(2-4)] by (simp add: VoiceSources_GetVolume_def voice_level_def)
qed

lemma VoiceSources_SetVolume_wp:
  assumes "sources_ok w" and "voice_source_ok s" and "unit_volume v" and "config v = config (voice_level w s)"
  shows "wp (VoiceSources_SetVolume t s v w) (\<lambda>w'. keeps w w' \<and> calls w' = calls w \<and>
    (voice_connected w s \<longrightarrow> voice_level w' s = v))"
proof (cases "Option.bind (voice_volumes w ! s) (\<lambda>p. SetVolume (volume_tab t p))")
  case None
  then have "\<not> voice_connected w s"
    by (auto simp: voice_connected_def no_set_volume split: option.splits)
  then show ?thesis
    using None assms by (simp add: VoiceSources_SetVolume_def keeps_refl)
next
  case (Some f)
  then obtain p where p: "voice_volumes w ! s = Some p" "SetVolume (volume_tab t p) = Some f"
    by (auto simp: bind_eq_Some_conv)
  have ok: "client_ok (client w)"
    using assms(1) by (simp add: sources_ok_def)
  have "config v = config (level p s (client w))"
    using assms(4) p by (simp add: voice_level_def)
  from set_volume [OF ok p(2) assms(3) this] obtain c where
    c: "client_ok c" "\<And>q u. config (level q u c) = config (level q u (client w))"
    "\<And>q u. connected q u c = connected q u (client w)"
    "connected p s (client w) \<Longrightarrow> level p s c = v" "f s v (client w) = Inr c"
    by blast
  then show ?thesis
    using p assms(2) client_keeps [OF assms(1) c(1-3)]
    by (simp add: VoiceSources_SetVolume_def voice_level_def voice_connected_def)
qed

lemma VoiceSources_SetMuteState_wp:
  assumes "sources_ok w" and "voice_source_ok s"
  shows "wp (VoiceSources_SetMuteState t s m w) (reads w)"
proof (cases "Option.bind (voice_volumes w ! s) (\<lambda>p. SetMuteState (volume_tab t p))")
  case None
  then show ?thesis
    using assms by (simp add: VoiceSources_SetMuteState_def reads_refl)
next
  case (Some f)
  then obtain p where p: "voice_volumes w ! s = Some p" "SetMuteState (volume_tab t p) = Some f"
    by (auto simp: bind_eq_Some_conv)
  have "client_ok (client w)"
    using assms(1) by (simp add: sources_ok_def)
  from set_mute [OF this p(2)] obtain c where c: "f s m (client w) = Inr c" "client_ok c"
    "\<And>q u. level q u c = level q u (client w)" "\<And>q u. connected q u c = connected q u (client w)"
    by blast
  from client_reads [OF assms(1) c(2-4)] show ?thesis
    using p assms(2) c(1) by (simp add: VoiceSources_SetMuteState_def)
qed

lemma VoiceSources_CalculateOutputVolume_wp:
  assumes "sources_ok w" and "voice_source_ok s"
  shows "wp (VoiceSources_CalculateOutputVolume t s w) (\<lambda>(w', v). reads w w' \<and> config v = config (voice_level w s) \<and>
    0 \<le> vvalue v \<and> vvalue v \<le> vvalue (voice_level w s) \<and> (\<forall>src. call_ok (KymeraSetVolume src v)))"
proof -
  have mute: "wp (VoiceSources_GetMuteState t s w1) (\<lambda>_. True)" if "reads w w1" for w1
  proof -
    have "client_ok (client w1)"
      using reads_ok [OF that] by (simp add: sources_ok_def)
    from get_mute [OF this, of _ _ s] assms(2) show ?thesis
      by (fastforce simp: VoiceSources_GetMuteState_def bind_eq_Some_conv split: option.splits)
  qed
  show ?thesis
    unfolding VoiceSources_CalculateOutputVolume_def
    apply (rule wp_bind2I [OF VoiceSources_GetVolume_wp [OF assms]], clarsimp)
    apply (rule wp_bindI [OF mute], assumption)
    apply (rule wp_bindI [OF output_ok [OF levels_unit(2) [OF assms(1)]]])
     apply (simp add: reads_def keeps_def sources_ok_def)
    apply auto
    done
qed

lemma voice_control_wp:
  assumes "sources_ok w" and "voice_source_ok s"
  shows "wp (VoiceSources_VolumeUp t s w) (tells w)" and "wp (VoiceSources_VolumeDown t s w) (tells w)"
    and "wp (VoiceSources_VolumeSetAbsolute t s v w) (tells w)" and "wp (VoiceSources_Mute t s m w) (tells w)"
  using assms
  by (auto simp: VoiceSources_VolumeUp_def VoiceSources_VolumeDown_def VoiceSources_VolumeSetAbsolute_def VoiceSources_Mute_def
      call_ok_def intro!: control_call_tells)

lemma fold_voice_observers:
  assumes "sources_ok w" and "\<And>p. call_ok (x p)"
  shows "tells w (fold (\<lambda>p w. case p of None \<Rightarrow> w | Some p \<Rightarrow> if has (observer_tab t p) then call (x p) w else w) ps w)"
  using assms(1)
proof (induction ps arbitrary: w)
  case Nil
  then show ?case
    by (simp add: reads_tells reads_refl)
next
  case (Cons p ps)
  have "tells w (case p of None \<Rightarrow> w | Some p \<Rightarrow> if has (observer_tab t p) then call (x p) w else w)"
    using Cons.prems assms(2) by (simp add: call_tells reads_tells reads_refl split: option.splits)
  with Cons.IH [OF tells_ok [OF this]] show ?case
    by (auto intro: tells_trans)
qed

lemma voice_changes_wp:
  assumes "sources_ok w" and "voice_source_ok s"
  shows "wp (VoiceSources_OnVolumeChange t s origin v w) (tells w)" and "wp (VoiceSources_OnMuteChange t s origin m w) (tells w)"
  unfolding VoiceSources_OnVolumeChange_def VoiceSources_OnMuteChange_def voice_observers_do_def
    validate_voice [OF assms(2)] res_bind_simps wp_simps
  by (rule fold_voice_observers [OF assms(1)], simp add: call_ok_def)+

subsection \<open>Changing volumes\<close>

lemma keeps_messages: "keeps w w' \<Longrightarrow> requests w' = requests w \<and> internal w' = internal w"
  for w w' :: "'c volume_service"
  by (cases w; cases w') (simp add: keeps_def)

lemma messages_ok [simp]:
  fixes w :: "'c volume_service"
  shows "sources_ok (w\<lparr>internal := x\<rparr>) = sources_ok w" and "sources_ok (w\<lparr>requests := y\<rparr>) = sources_ok w"
    and "audio_level (w\<lparr>internal := x\<rparr>) = audio_level w" and "audio_level (w\<lparr>requests := y\<rparr>) = audio_level w"
    and "voice_level (w\<lparr>internal := x\<rparr>) = voice_level w" and "voice_level (w\<lparr>requests := y\<rparr>) = voice_level w"
  by (auto simp: sources_ok_def audio_level_def voice_level_def fun_eq_iff split: list.splits option.splits)

lemma RefreshVoiceVolume_wp:
  "sources_ok w \<Longrightarrow> voice_source_ok s \<Longrightarrow> wp (volumeService_RefreshVoiceVolume t s w) (tells w)"
  unfolding volumeService_RefreshVoiceVolume_def
  by (rule wp_bind2I [OF VoiceSources_CalculateOutputVolume_wp])
    (auto intro: tells_trans [OF reads_tells call_tells] reads_ok)

lemma RefreshAudioVolume_wp:
  "sources_ok w \<Longrightarrow> audioInterface_SourceIsValid s \<Longrightarrow> wp (volumeService_RefreshAudioVolume t origin s w) (tells w)"
  unfolding volumeService_RefreshAudioVolume_def isVolumeToBeSynchronised_def
  by simp (rule wp_bind2I [OF AudioSources_CalculateOutputVolume_wp],
    auto intro: tells_trans [OF reads_tells call_tells] reads_ok)

lemma RefreshCurrentVolume_wp:
  assumes "sources_ok w" and "focus = source_type_other \<or> source_ok focus"
  shows "wp (volumeService_RefreshCurrentVolume t focus origin w) (tells w)"
  using assms RefreshVoiceVolume_wp RefreshAudioVolume_wp
  by (cases focus) (auto simp: volumeService_RefreshCurrentVolume_def source_ok_def reads_tells reads_refl)

lemma Notify_tells:
  fixes w :: "'c volume_service"
  assumes "sources_ok w"
  shows "tells w (volumeService_NotifyMinOrMaxGenericVolume focus src v w)"
proof -
  have 1: "tells u (call NotifyMaxVolume u)" "tells u (call NotifyMinVolume u)" if "sources_ok u" for u :: "'c volume_service"
    using that by (simp_all add: call_tells call_ok_def)
  then show ?thesis
    using assms by (auto simp: volumeService_NotifyMinOrMaxGenericVolume_def volumeService_NotifyMinOrMaxVolume_def Let_def
        intro: reads_tells reads_refl tells_trans tells_ok)
qed

text \<open>The volume of an audio source after a change that arrives at its table.\<close>

definition changed :: "'c volume_service \<Rightarrow> nat \<Rightarrow> volume \<Rightarrow> 'c volume_service \<Rightarrow> bool" where
  "changed w s v w' \<longleftrightarrow> keeps w w' \<and> (audio_connected w s \<longrightarrow> audio_level w' s = v)"

lemma changed_tells: "changed w s v w1 \<Longrightarrow> tells w1 w2 \<Longrightarrow> changed w s v w2"
  unfolding changed_def using keeps_trans tells_keeps tells_level by metis

lemma changed_ok: "changed w s v w' \<Longrightarrow> sources_ok w'"
  by (auto simp: changed_def dest: keeps_ok)

lemma reads_changed:
  assumes "reads w w1" and "changed w1 s v w2"
  shows "changed w s v w2"
  using assms keeps_trans [OF reads_keeps [OF assms(1)]] keeps_connected(1) [OF reads_keeps [OF assms(1)], of s]
  by (simp add: changed_def)

lemma UpdateAudioSourceVolume_wp:
  assumes "sources_ok w" and "audioInterface_SourceIsValid s" and "unit_volume v" and "config v = config (audio_level w s)"
  shows "wp (volumeService_UpdateAudioSourceVolume t focus s v origin w) (changed w s v)"
  unfolding volumeService_UpdateAudioSourceVolume_def
proof (rule wp_bindI [OF AudioSources_SetVolume_wp [OF assms]], clarify)
  fix w1
  assume k: "keeps w w1" and lv: "audio_connected w s \<longrightarrow> audio_level w1 s = v"
  have c1: "changed w s v w1"
    using k lv by (simp add: changed_def)
  show "wp (res_bind (AudioSources_OnVolumeChange t s origin v w1) (\<lambda>w.
      if focus = source_type_audio s then volumeService_RefreshAudioVolume t origin s w else Inr w)) (changed w s v)"
  proof (rule wp_bindI [OF audio_changes_wp(1) [OF keeps_ok [OF k] assms(2)]], clarify)
    fix w2
    assume t: "tells w1 w2"
    have c2: "changed w s v w2"
      by (rule changed_tells [OF c1 t])
    have "wp (volumeService_RefreshAudioVolume t origin s w2) (changed w s v)"
      by (rule wp_mono [OF RefreshAudioVolume_wp [OF tells_ok [OF t] assms(2)] changed_tells [OF c2]])
    then show "wp (if focus = source_type_audio s then volumeService_RefreshAudioVolume t origin s w2 else Inr w2) (changed w s v)"
      using c2 by simp
  qed
qed

text \<open>A volume with a remote control is not changed here by a local request.\<close>

definition remote :: "'c volume_service \<Rightarrow> nat \<Rightarrow> event_origin \<Rightarrow> bool" where
  "remote w s origin \<longleftrightarrow>
     origin = event_origin_local \<and> first_interface w s audio_interface_type_volume_control \<noteq> None"

lemma reads_remote: "reads w w' \<Longrightarrow> remote w' s origin = remote w s origin"
  by (simp add: remote_def first_interface_def reads_def keeps_def)

lemma unit_change:
  "unit_volume v \<Longrightarrow> 0 \<le> x \<Longrightarrow> x \<le> range_max (vrange (config v)) \<Longrightarrow> unit_volume (v\<lparr>vvalue := x\<rparr>)"
  by (simp add: unit_volume_def volume_ok_def)

lemma remote_or_update_wp:
  assumes ok: "sources_ok w" "audioInterface_SourceIsValid s" and v: "unit_volume v" "config v = config (audio_level w s)"
  shows "wp (res_bind (if b then AudioSources_VolumeSetAbsolute t s v w
        else volumeService_UpdateAudioSourceVolume t focus s v origin w)
      (\<lambda>w. Inr (volumeService_NotifyMinOrMaxAudioVolume focus s v w)))
    (\<lambda>w'. if b then tells w w' else changed w s v w')"
proof -
  have notify: "tells u (volumeService_NotifyMinOrMaxAudioVolume focus s v u)" if "sources_ok u" for u
    using that by (simp add: volumeService_NotifyMinOrMaxAudioVolume_def Notify_tells)
  show ?thesis
    by (cases b)
      (auto intro!: wp_bindI [OF audio_control_wp(3) [OF ok]] wp_bindI [OF UpdateAudioSourceVolume_wp [OF ok v]]
          tells_trans [OF _ notify] changed_tells [OF _ notify] dest: changed_ok tells_ok)
qed

lemma SetAudioSourceVolume_wp:
  assumes ok: "sources_ok w" "audioInterface_SourceIsValid s"
    and conv: "VolumeUtils_ConvertToVolumeConfig v (config (audio_level w s)) = Inr x"
    and x: "0 \<le> x" "x \<le> range_max (vrange (config (audio_level w s)))"
  shows "wp (VolumeService_SetAudioSourceVolume t focus s origin v w) (\<lambda>w'.
    if remote w s origin then tells w w' else changed w s ((audio_level w s)\<lparr>vvalue := x\<rparr>) w')"
proof -
  let ?v = "(audio_level w s)\<lparr>vvalue := x\<rparr>"
  have u: "unit_volume ?v"
    using levels_unit(1) [OF ok(1)] x by (simp add: unit_change)
  show ?thesis
    unfolding VolumeService_SetAudioSourceVolume_def
    apply (rule wp_bind2I [OF AudioSources_GetVolume_wp [OF ok]], clarsimp simp: conv Let_def)
    apply (rule wp_bind2I [OF IsVolumeControlRegistered_wp [OF reads_ok ok(2)]], assumption, clarsimp)
    subgoal premises r for w1 w2
    proof -
      have r12: "reads w w2"
        by (rule reads_trans [OF r(1,2)])
      have c: "config ?v = config (audio_level w2 s)"
        using reads_level [OF r12] by simp
      note both = remote_or_update_wp [OF reads_ok [OF r12] ok(2) u c, where focus = focus and origin = origin]
      have rem: "remote w s origin \<longleftrightarrow>
          origin = event_origin_local \<and> (\<exists>y. first_interface w1 s audio_interface_type_volume_control = Some y)"
        using reads_remote [OF r(1), of s origin] by (auto simp: remote_def)
      show ?thesis
      proof (cases "remote w s origin")
        case True
        then show ?thesis
          using rem wp_mono [OF both [where b = True, simplified], of "tells w"] tells_trans [OF reads_tells [OF r12]]
          by auto
      next
        case False
        then show ?thesis
          using rem wp_mono [OF both [where b = False, simplified], of "changed w s ?v"] reads_changed [OF r12]
          by auto
      qed
    qed
    done
qed

lemma update_and_notify_wp:
  assumes ok: "sources_ok w" "audioInterface_SourceIsValid s" and v: "unit_volume v" "config v = config (audio_level w s)"
  shows "wp (res_bind (volumeService_UpdateAudioSourceVolume t focus s v origin w)
      (\<lambda>w. Inr (volumeService_NotifyMinOrMaxAudioVolume focus s v w))) (changed w s v)"
  using remote_or_update_wp [OF ok v, of False focus origin] by simp

lemma control_or_update_wp:
  assumes ok: "sources_ok w" "audioInterface_SourceIsValid s"
    and up: "\<And>u :: 'c volume_service. sources_ok u \<Longrightarrow> wp (up u) (tells u)"
    and v: "unit_volume ((audio_level w s)\<lparr>vvalue := g (audio_level w s)\<rparr>)"
  shows "wp (res_bind (AudioSources_IsVolumeControlRegistered s w) (\<lambda>(w, control).
       if control \<and> origin = event_origin_local then up w
       else res_bind (AudioSources_GetVolume t s w) (\<lambda>(w, v).
         let v = v\<lparr>vvalue := g v\<rparr> in
         res_bind (volumeService_UpdateAudioSourceVolume t focus s v origin w) (\<lambda>w.
           Inr (volumeService_NotifyMinOrMaxAudioVolume focus s v w)))))
     (\<lambda>w'. if remote w s origin then tells w w' else changed w s ((audio_level w s)\<lparr>vvalue := g (audio_level w s)\<rparr>) w')"
proof -
  obtain w1 where w1: "AudioSources_IsVolumeControlRegistered s w =
      Inr (w1, first_interface w s audio_interface_type_volume_control \<noteq> None)" "reads w w1"
    using wpD [OF IsVolumeControlRegistered_wp [OF ok]] by auto
  note ok1 = reads_ok [OF w1(2)]
  show ?thesis
  proof (cases "remote w s origin")
    case True
    then show ?thesis
      using wp_mono [OF up [OF ok1], of "tells w"] tells_trans [OF reads_tells [OF w1(2)]]
      by (auto simp: w1(1) remote_def)
  next
    case False
    obtain w2 where w2: "AudioSources_GetVolume t s w1 = Inr (w2, audio_level w s)" "reads w1 w2"
      using wpD [OF AudioSources_GetVolume_wp [OF ok1 ok(2)]] reads_level [OF w1(2), of s] by auto
    have r: "reads w w2"
      by (rule reads_trans [OF w1(2) w2(2)])
    have c: "config ((audio_level w s)\<lparr>vvalue := g (audio_level w s)\<rparr>) = config (audio_level w2 s)"
      using reads_level [OF r] by simp
    have "wp (res_bind (volumeService_UpdateAudioSourceVolume t focus s ((audio_level w s)\<lparr>vvalue := g (audio_level w s)\<rparr>) origin w2)
        (\<lambda>wa. Inr (volumeService_NotifyMinOrMaxAudioVolume focus s ((audio_level w s)\<lparr>vvalue := g (audio_level w s)\<rparr>) wa)))
      (changed w s ((audio_level w s)\<lparr>vvalue := g (audio_level w s)\<rparr>))"
      by (rule wp_mono [OF update_and_notify_wp [OF reads_ok [OF r] ok(2) v c] reads_changed [OF r]])
    then show ?thesis
      using False by (auto simp: w1(1) w2(1) remote_def Let_def)
  qed
qed

lemma AudioSourceVolume_step_wp:
  assumes ok: "sources_ok w" "audioInterface_SourceIsValid s"
  shows "wp (VolumeService_IncrementAudioSourceVolume t focus s origin w) (\<lambda>w'. if remote w s origin then tells w w'
      else changed w s ((audio_level w s)\<lparr>vvalue := VolumeUtils_IncrementVolume (audio_level w s)\<rparr>) w')"
    and "wp (VolumeService_DecrementAudioSourceVolume t focus s origin w) (\<lambda>w'. if remote w s origin then tells w w'
      else changed w s ((audio_level w s)\<lparr>vvalue := VolumeUtils_DecrementVolume (audio_level w s)\<rparr>) w')"
proof -
  note u = levels_unit(1) [OF ok(1), of s]
  note st = unit_steps [OF u]
  show "wp (VolumeService_IncrementAudioSourceVolume t focus s origin w) (\<lambda>w'. if remote w s origin then tells w w'
      else changed w s ((audio_level w s)\<lparr>vvalue := VolumeUtils_IncrementVolume (audio_level w s)\<rparr>) w')"
    unfolding VolumeService_IncrementAudioSourceVolume_def
    by (rule control_or_update_wp [OF ok audio_control_wp(1) [OF _ ok(2)] unit_change [OF u]]) (use st in auto)
  show "wp (VolumeService_DecrementAudioSourceVolume t focus s origin w) (\<lambda>w'. if remote w s origin then tells w w'
      else changed w s ((audio_level w s)\<lparr>vvalue := VolumeUtils_DecrementVolume (audio_level w s)\<rparr>) w')"
    unfolding VolumeService_DecrementAudioSourceVolume_def
    by (rule control_or_update_wp [OF ok audio_control_wp(2) [OF _ ok(2)] unit_change [OF u]]) (use st in auto)
qed

lemma AudioSourceMute_wp:
  assumes "sources_ok w" and "audioInterface_SourceIsValid s" and "focus = source_type_other \<or> source_ok focus"
  shows "wp (VolumeService_AudioSourceMute t focus s origin m w) (tells w)"
proof -
  obtain w1 where w1: "AudioSources_SetMuteState t s m w = Inr w1" "reads w w1"
    using wpD [OF AudioSources_SetMuteState_wp [OF assms(1,2)]] by auto
  obtain w2 where w2: "AudioSources_OnMuteChange t s origin m w1 = Inr w2" "tells w1 w2"
    using wpD [OF audio_changes_wp(2) [OF reads_ok [OF w1(2)] assms(2)]] by auto
  have "tells w w2"
    by (rule tells_trans [OF reads_tells [OF w1(2)] w2(2)])
  from wp_mono [OF RefreshCurrentVolume_wp [OF tells_ok [OF w2(2)] assms(3)] tells_trans [OF this]] show ?thesis
    by (simp add: VolumeService_AudioSourceMute_def w1(1) w2(1))
qed

subsection \<open>Voice\<close>

lemma UpdateVoiceSourceLocalVolume_wp:
  assumes "sources_ok w" and "voice_source_ok s" and "unit_volume v" and "config v = config (voice_level w s)"
  shows "wp (volumeService_UpdateVoiceSourceLocalVolume t focus s v origin w) (keeps w)"
proof -
  obtain w1 where w1: "VoiceSources_SetVolume t s v w = Inr w1" "keeps w w1"
    using wpD [OF VoiceSources_SetVolume_wp [OF assms]] by auto
  obtain w2 where w2: "VoiceSources_OnVolumeChange t s origin v w1 = Inr w2" "tells w1 w2"
    using wpD [OF voice_changes_wp(1) [OF keeps_ok [OF w1(2)] assms(2)]] by auto
  have "wp (volumeService_RefreshVoiceVolume t s w2) (keeps w)"
    by (rule wp_mono [OF RefreshVoiceVolume_wp [OF tells_ok [OF w2(2)] assms(2)]])
      (use w1(2) w2(2) keeps_trans tells_keeps in metis)
  then show ?thesis
    by (simp add: volumeService_UpdateVoiceSourceLocalVolume_def w1 w2(1))
qed

lemma voice_or_update_wp:
  assumes ok: "sources_ok w" "voice_source_ok s" and v: "unit_volume v" "config v = config (voice_level w s)"
  shows "wp (res_bind (if b then VoiceSources_VolumeSetAbsolute t s v w
        else volumeService_UpdateVoiceSourceLocalVolume t focus s v origin w)
      (\<lambda>w. Inr (volumeService_NotifyMinOrMaxVoiceVolume focus s v w))) (keeps w)"
proof -
  have notify: "keeps u (volumeService_NotifyMinOrMaxVoiceVolume focus s v u)" if "sources_ok u" for u
    using that by (simp add: volumeService_NotifyMinOrMaxVoiceVolume_def Notify_tells tells_keeps)
  show ?thesis
    by (cases b)
      (auto intro!: wp_bindI [OF voice_control_wp(3) [OF ok]] wp_bindI [OF UpdateVoiceSourceLocalVolume_wp [OF ok v]]
          keeps_trans [OF _ notify] dest: keeps_ok tells_ok tells_keeps)
qed

lemma SetVoiceSourceVolume_wp:
  assumes ok: "sources_ok w" "voice_source_ok s"
    and conv: "VolumeUtils_ConvertToVolumeConfig v (config (voice_level w s)) = Inr x"
    and x: "0 \<le> x" "x \<le> range_max (vrange (config (voice_level w s)))"
  shows "wp (VolumeService_SetVoiceSourceVolume t focus s origin v w) (keeps w)"
proof -
  obtain w1 where w1: "VoiceSources_GetVolume t s w = Inr (w1, voice_level w s)" "reads w w1"
    using wpD [OF VoiceSources_GetVolume_wp [OF ok]] by auto
  have c: "config ((voice_level w s)\<lparr>vvalue := x\<rparr>) = config (voice_level w1 s)"
    using reads_level [OF w1(2)] by simp
  have u: "unit_volume ((voice_level w s)\<lparr>vvalue := x\<rparr>)"
    using levels_unit(2) [OF ok(1)] x by (simp add: unit_change)
  show ?thesis
    using wp_mono [OF voice_or_update_wp [OF reads_ok [OF w1(2)] ok(2) u c] keeps_trans [OF reads_keeps [OF w1(2)]]] ok(2)
    by (simp add: VolumeService_SetVoiceSourceVolume_def w1(1) conv Let_def VoiceSources_IsVolumeControlRegistered_def)
qed

lemma voice_control_or_update_wp:
  assumes ok: "sources_ok w" "voice_source_ok s"
    and up: "wp (up w) (tells w)"
    and v: "unit_volume ((voice_level w s)\<lparr>vvalue := g (voice_level w s)\<rparr>)"
  shows "wp (res_bind (VoiceSources_IsVolumeControlRegistered s w) (\<lambda>control.
       if control \<and> origin = event_origin_local then up w
       else res_bind (VoiceSources_GetVolume t s w) (\<lambda>(w, v).
         let v = v\<lparr>vvalue := g v\<rparr> in
         res_bind (volumeService_UpdateVoiceSourceLocalVolume t focus s v origin w) (\<lambda>w.
           Inr (volumeService_NotifyMinOrMaxVoiceVolume focus s v w))))) (keeps w)"
proof -
  obtain w1 where w1: "VoiceSources_GetVolume t s w = Inr (w1, voice_level w s)" "reads w w1"
    using wpD [OF VoiceSources_GetVolume_wp [OF ok]] by auto
  have c: "config ((voice_level w s)\<lparr>vvalue := g (voice_level w s)\<rparr>) = config (voice_level w1 s)"
    using reads_level [OF w1(2)] by simp
  have "wp (up w) (keeps w)"
    by (rule wp_mono [OF up tells_keeps])
  then show ?thesis
    using wp_mono [OF voice_or_update_wp [OF reads_ok [OF w1(2)] ok(2) v c, of False focus origin] keeps_trans [OF reads_keeps [OF w1(2)]]] ok(2)
    by (simp add: w1(1) Let_def VoiceSources_IsVolumeControlRegistered_def)
qed

lemma VoiceSourceVolume_step_wp:
  assumes ok: "sources_ok w" "voice_source_ok s"
  shows "wp (VolumeService_IncrementVoiceSourceVolume t focus s origin w) (keeps w)"
    and "wp (VolumeService_DecrementVoiceSourceVolume t focus s origin w) (keeps w)"
proof -
  note u = levels_unit(2) [OF ok(1), of s]
  note st = unit_steps [OF u]
  show "wp (VolumeService_IncrementVoiceSourceVolume t focus s origin w) (keeps w)"
    unfolding VolumeService_IncrementVoiceSourceVolume_def
    by (rule voice_control_or_update_wp [where up = "VoiceSources_VolumeUp t s" and g = VolumeUtils_IncrementVolume,
          OF ok voice_control_wp(1) [OF ok] unit_change [OF u]]) (use st in auto)
  show "wp (VolumeService_DecrementVoiceSourceVolume t focus s origin w) (keeps w)"
    unfolding VolumeService_DecrementVoiceSourceVolume_def
    by (rule voice_control_or_update_wp [where up = "VoiceSources_VolumeDown t s" and g = VolumeUtils_DecrementVolume,
          OF ok voice_control_wp(2) [OF ok] unit_change [OF u]]) (use st in auto)
qed

lemma VoiceSourceMute_wp:
  assumes "sources_ok w" and "voice_source_ok s" and "focus = source_type_other \<or> source_ok focus"
  shows "wp (VolumeService_VoiceSourceMute t focus s origin m w) (tells w)"
proof -
  obtain w1 where w1: "VoiceSources_SetMuteState t s m w = Inr w1" "reads w w1"
    using wpD [OF VoiceSources_SetMuteState_wp [OF assms(1,2)]] by auto
  obtain w2 where w2: "VoiceSources_OnMuteChange t s origin m w1 = Inr w2" "tells w1 w2"
    using wpD [OF voice_changes_wp(2) [OF reads_ok [OF w1(2)] assms(2)]] by auto
  have "tells w w2"
    by (rule tells_trans [OF reads_tells [OF w1(2)] w2(2)])
  from wp_mono [OF RefreshCurrentVolume_wp [OF tells_ok [OF w2(2)] assms(3)] tells_trans [OF this]] show ?thesis
    by (simp add: VolumeService_VoiceSourceMute_def w1(1) w2(1))
qed

subsection \<open>User inputs\<close>

definition moved :: "volume \<Rightarrow> int \<Rightarrow> volume" where
  "moved v step = v\<lparr>vvalue := max 0 (min (range_max (vrange (config v))) (vvalue v + step))\<rparr>"

lemma unit_moved: "unit_volume v \<Longrightarrow> unit_volume (moved v step)"
  unfolding moved_def using unit_steps(6) [of v] by (intro unit_change) auto

definition audio_request :: "nat \<Rightarrow> volume \<Rightarrow> int \<Rightarrow> volume_request" where
  "audio_request s v step =
     (if step = 1 then AUDIO_SOURCE_VOLUME_INCREMENT_REQUEST s event_origin_local
      else if step = -1 then AUDIO_SOURCE_VOLUME_DECREMENT_REQUEST s event_origin_local
      else AUDIO_SOURCE_VOLUME_UPDATE_REQUEST s event_origin_local (moved v step))"

definition voice_request :: "nat \<Rightarrow> volume \<Rightarrow> int \<Rightarrow> volume_request" where
  "voice_request s v step =
     (if step = 1 then VOICE_SOURCE_VOLUME_INCREMENT_REQUEST s event_origin_local
      else if step = -1 then VOICE_SOURCE_VOLUME_DECREMENT_REQUEST s event_origin_local
      else VOICE_SOURCE_VOLUME_UPDATE_REQUEST s event_origin_local (moved v step))"

definition posts :: "'c volume_service \<Rightarrow> volume_request \<Rightarrow> 'c volume_service \<Rightarrow> bool" where
  "posts w m w' \<longleftrightarrow> (\<exists>w1. reads w w1 \<and> w' = post_request m w1)"

lemma step_arith:
  assumes "unit_volume v" and "step_ok step"
  shows "i32 (vvalue v + step) = vvalue v + step" and "i32 (- 1) = -1"
    and "-2048 \<le> vvalue v + step" and "vvalue v + step \<le> 18432"
  using unit_steps(4,5,7) [OF assms(1)] assms(2) by (simp_all add: step_ok_def i32_id)

lemma ChangeAudio_wp:
  assumes ok: "sources_ok w" "audioInterface_SourceIsValid s" and "step_ok step"
  shows "wp (VolumeService_ChangeAudioSourceVolume t s step w) (posts w (audio_request s (audio_level w s) step))"
proof -
  note u = levels_unit(1) [OF ok(1), of s]
  have get: "\<exists>u'. AudioSources_GetVolume t s u = Inr (u', audio_level w s) \<and> reads w u'" if "reads w u" for u
    using wpD [OF AudioSources_GetVolume_wp [OF reads_ok [OF that] ok(2)]] reads_level [OF that, of s] reads_trans [OF that] by auto
  obtain w1 where w1: "AudioSources_GetVolume t s w = Inr (w1, audio_level w s)" "reads w w1"
    using get [OF reads_refl [OF ok(1)]] by blast
  obtain w2 where w2: "AudioSources_GetVolume t s w1 = Inr (w2, audio_level w s)" "reads w w2"
    using get [OF w1(2)] by blast
  obtain w3 where w3: "AudioSources_GetVolume t s w2 = Inr (w3, audio_level w s)" "reads w w3"
    using get [OF w2(2)] by blast
  obtain w4 where w4: "AudioSources_GetVolume t s w3 = Inr (w4, audio_level w s)" "reads w w4"
    using get [OF w3(2)] by blast
  show ?thesis
    using w1(2) w4(2)
    by (auto simp: VolumeService_ChangeAudioSourceVolume_def w1(1) w2(1) w3(1) w4(1) Let_def unit_steps(3) [OF u]
        step_arith [OF u assms(3)] limit_unit [OF u] posts_def audio_request_def moved_def
        Volume_SendAudioSourceVolumeIncrementRequest_def Volume_SendAudioSourceVolumeDecrementRequest_def
        Volume_SendAudioSourceVolumeUpdateRequest_def)
qed

lemma ChangeVoice_wp:
  assumes ok: "sources_ok w" "voice_source_ok s" and "step_ok step"
  shows "wp (volumeService_ChangeVoiceVolume t s step w) (posts w (voice_request s (voice_level w s) step))"
proof -
  note u = levels_unit(2) [OF ok(1), of s]
  have get: "\<exists>u'. VoiceSources_GetVolume t s u = Inr (u', voice_level w s) \<and> reads w u'" if "reads w u" for u
    using wpD [OF VoiceSources_GetVolume_wp [OF reads_ok [OF that] ok(2)]] reads_level [OF that, of s] reads_trans [OF that] by auto
  obtain w1 where w1: "VoiceSources_GetVolume t s w = Inr (w1, voice_level w s)" "reads w w1"
    using get [OF reads_refl [OF ok(1)]] by blast
  obtain w2 where w2: "VoiceSources_GetVolume t s w1 = Inr (w2, voice_level w s)" "reads w w2"
    using get [OF w1(2)] by blast
  obtain w3 where w3: "VoiceSources_GetVolume t s w2 = Inr (w3, voice_level w s)" "reads w w3"
    using get [OF w2(2)] by blast
  obtain w4 where w4: "VoiceSources_GetVolume t s w3 = Inr (w4, voice_level w s)" "reads w w4"
    using get [OF w3(2)] by blast
  show ?thesis
    using w1(2) w4(2)
    by (auto simp: volumeService_ChangeVoiceVolume_def w1(1) w2(1) w3(1) w4(1) Let_def unit_steps(3) [OF u]
        step_arith [OF u assms(3)] limit_unit [OF u] posts_def voice_request_def moved_def
        Volume_SendVoiceSourceVolumeIncrementRequest_def Volume_SendVoiceSourceVolumeDecrementRequest_def
        Volume_SendVoiceSourceVolumeUpdateRequest_def)
qed

text \<open>One repetition of a ramp.\<close>

lemma increment_moved:
  "unit_volume v \<Longrightarrow> v\<lparr>vvalue := VolumeUtils_IncrementVolume v\<rparr> = moved v 1"
  "unit_volume v \<Longrightarrow> v\<lparr>vvalue := VolumeUtils_DecrementVolume v\<rparr> = moved v (-1)"
  using unit_steps [of v] by (simp_all add: moved_def)

lemma within_unit: "unit_volume v \<Longrightarrow> volumeService_VolumeWithinAllowedRange v \<longleftrightarrow> 0 < vvalue v \<and> vvalue v < range_max (vrange (config v))"
  by (auto simp: volumeService_VolumeWithinAllowedRange_def unit_volume_def)

lemma ramp_step_audio_wp:
  assumes ok: "sources_ok w" "audioInterface_SourceIsValid s" and st: "step_ok step"
  shows "wp (ramp_step_audio t focus s step w) (\<lambda>(w', v). v = (audio_level w s)\<lparr>vvalue := vvalue (audio_level w s) + step\<rparr> \<and>
    (if volumeService_VolumeWithinAllowedRange (audio_level w s) \<and> \<not> remote w s event_origin_local
     then changed w s (moved (audio_level w s) step) w' else tells w w'))"
proof -
  define lv where "lv = audio_level w s"
  have u: "unit_volume lv"
    using levels_unit(1) [OF ok(1)] by (simp add: lv_def)
  obtain w1 where w1: "AudioSources_GetVolume t s w = Inr (w1, lv)" "reads w w1"
    using wpD [OF AudioSources_GetVolume_wp [OF ok]] by (auto simp: lv_def)
  have lv1: "audio_level w1 s = lv" and rem: "remote w1 s event_origin_local = remote w s event_origin_local"
    using reads_level [OF w1(2)] reads_remote [OF w1(2)] by (simp_all add: lv_def)
  note ok1 = reads_ok [OF w1(2)] ok(2)
  have conv: "VolumeUtils_ConvertToVolumeConfig (lv\<lparr>vvalue := vvalue lv + step\<rparr>) (config (audio_level w1 s)) =
      Inr (vvalue (moved lv step))"
    using convert_same [OF u step_arith(3,4) [OF u st]] by (simp add: lv1 moved_def)
  have mv: "0 \<le> vvalue (moved lv step)" "vvalue (moved lv step) \<le> range_max (vrange (config (audio_level w1 s)))"
    using unit_steps(6) [OF u] by (simp_all add: moved_def lv1)
  have mv': "lv\<lparr>vvalue := vvalue (moved lv step)\<rparr> = moved lv step"
    by (simp add: moved_def)
  have "wp (if step = 1 then VolumeService_IncrementAudioSourceVolume t focus s event_origin_local w1
      else if step = i32 (- 1) then VolumeService_DecrementAudioSourceVolume t focus s event_origin_local w1
      else VolumeService_SetAudioSourceVolume t focus s event_origin_local (lv\<lparr>vvalue := vvalue lv + step\<rparr>) w1)
    (\<lambda>w'. if remote w s event_origin_local then tells w1 w' else changed w1 s (moved lv step) w')"
  proof -
    note inc_dec = AudioSourceVolume_step_wp [OF ok1, of focus event_origin_local, unfolded rem lv1 increment_moved [OF u]]
    consider (up) "step = 1" | (down) "step = -1" | (other) "step \<noteq> 1" "step \<noteq> -1"
      by blast
    then show ?thesis
    proof cases
      case up
      show ?thesis
        unfolding up using inc_dec(1) by (simp split del: if_split)
    next
      case down
      show ?thesis
        unfolding down using inc_dec(2) by (simp add: step_arith(2) [OF u st] split del: if_split)
    next
      case other
      then show ?thesis
        using SetAudioSourceVolume_wp [OF ok1 conv mv, of focus event_origin_local, unfolded rem lv1 mv']
        by (simp add: step_arith(2) [OF u st] split del: if_split)
    qed
  qed
  then have "wp (if step = 1 then VolumeService_IncrementAudioSourceVolume t focus s event_origin_local w1
      else if step = i32 (- 1) then VolumeService_DecrementAudioSourceVolume t focus s event_origin_local w1
      else VolumeService_SetAudioSourceVolume t focus s event_origin_local (lv\<lparr>vvalue := vvalue lv + step\<rparr>) w1)
    (\<lambda>w'. if \<not> remote w s event_origin_local then changed w s (moved lv step) w' else tells w w')"
    by (rule wp_mono) (use tells_trans [OF reads_tells [OF w1(2)]] reads_changed [OF w1(2)] in \<open>auto split: if_splits\<close>)
  note changes = this
  have "ramp_step_audio t focus s step w = res_bind
      (if volumeService_VolumeWithinAllowedRange lv
       then if step = 1 then VolumeService_IncrementAudioSourceVolume t focus s event_origin_local w1
         else if step = i32 (- 1) then VolumeService_DecrementAudioSourceVolume t focus s event_origin_local w1
         else VolumeService_SetAudioSourceVolume t focus s event_origin_local (lv\<lparr>vvalue := vvalue lv + step\<rparr>) w1
       else Inr w1)
      (\<lambda>w. Inr (w, lv\<lparr>vvalue := vvalue lv + step\<rparr>))"
    unfolding ramp_step_audio_def w1(1) res_bind_simps prod.case Let_def unit_steps(3) [OF u] step_arith(1) [OF u st]
    by (rule refl)
  then show ?thesis
    unfolding lv_def [symmetric] using changes reads_tells [OF w1(2)]
    by (cases "volumeService_VolumeWithinAllowedRange lv") (simp_all only: wp_bind wp_simps if_True if_False prod.case simp_thms)
qed

lemma ramp_step_voice_wp:
  assumes ok: "sources_ok w" "voice_source_ok s" and st: "step_ok step"
  shows "wp (ramp_step_voice t focus s step w) (\<lambda>(w', v). keeps w w')"
proof -
  define lv where "lv = voice_level w s"
  have u: "unit_volume lv"
    using levels_unit(2) [OF ok(1)] by (simp add: lv_def)
  obtain w1 where w1: "VoiceSources_GetVolume t s w = Inr (w1, lv)" "reads w w1"
    using wpD [OF VoiceSources_GetVolume_wp [OF ok]] by (auto simp: lv_def)
  have lv1: "voice_level w1 s = lv"
    using reads_level [OF w1(2)] by (simp add: lv_def)
  note ok1 = reads_ok [OF w1(2)] ok(2)
  have conv: "VolumeUtils_ConvertToVolumeConfig (lv\<lparr>vvalue := vvalue lv + step\<rparr>) (config (voice_level w1 s)) =
      Inr (vvalue (moved lv step))"
    using convert_same [OF u step_arith(3,4) [OF u st]] by (simp add: lv1 moved_def)
  have mv: "0 \<le> vvalue (moved lv step)" "vvalue (moved lv step) \<le> range_max (vrange (config (voice_level w1 s)))"
    using unit_steps(6) [OF u] by (simp_all add: moved_def lv1)
  have "wp (if step = 1 then VolumeService_IncrementVoiceSourceVolume t focus s event_origin_local w1
      else if step = i32 (- 1) then VolumeService_DecrementVoiceSourceVolume t focus s event_origin_local w1
      else VolumeService_SetVoiceSourceVolume t focus s event_origin_local (lv\<lparr>vvalue := vvalue lv + step\<rparr>) w1) (keeps w1)"
    using VoiceSourceVolume_step_wp [OF ok1] SetVoiceSourceVolume_wp [OF ok1 conv mv] by simp
  then have "wp (if step = 1 then VolumeService_IncrementVoiceSourceVolume t focus s event_origin_local w1
      else if step = i32 (- 1) then VolumeService_DecrementVoiceSourceVolume t focus s event_origin_local w1
      else VolumeService_SetVoiceSourceVolume t focus s event_origin_local (lv\<lparr>vvalue := vvalue lv + step\<rparr>) w1) (keeps w)"
    by (rule wp_mono) (rule keeps_trans [OF reads_keeps [OF w1(2)]])
  note changes = this
  have "ramp_step_voice t focus s step w = res_bind
      (if volumeService_VolumeWithinAllowedRange lv
       then if step = 1 then VolumeService_IncrementVoiceSourceVolume t focus s event_origin_local w1
         else if step = i32 (- 1) then VolumeService_DecrementVoiceSourceVolume t focus s event_origin_local w1
         else VolumeService_SetVoiceSourceVolume t focus s event_origin_local (lv\<lparr>vvalue := vvalue lv + step\<rparr>) w1
       else Inr w1)
      (\<lambda>w. Inr (w, lv\<lparr>vvalue := vvalue lv + step\<rparr>))"
    unfolding ramp_step_voice_def w1(1) res_bind_simps prod.case Let_def unit_steps(3) [OF u] step_arith(1) [OF u st]
    by (rule refl)
  then show ?thesis
    using changes reads_keeps [OF w1(2)]
    by (cases "volumeService_VolumeWithinAllowedRange lv") (simp_all only: wp_bind wp_simps if_True if_False prod.case)
qed

end

end
