(* ===== verification/Volume_Events.thy ===== *)
theory Volume_Events
  imports Volume_Safety
begin

text \<open>
  The handlers of the volume service over the contract \<open>volume_tables\<close>: every event keeps the state and the
  messages that wait in order, and none faults; a ramp goes on to the end of the range.
\<close>

definition focus_ok :: "generic_source \<Rightarrow> bool" where
  "focus_ok focus \<longleftrightarrow> focus = source_type_other \<or> source_ok focus"

lemma convert_in_range:
  assumes "volume_ok v" and "config_ok out"
  shows "\<exists>x. VolumeUtils_ConvertToVolumeConfig v out = Inr x \<and> range_min (vrange out) \<le> x \<and> x \<le> range_max (vrange out)"
  using convert_eq [OF assms] converted_range [OF assms] by blast

lemma volume_step_ok:
  assumes "volume_ok v"
  shows "volume_ok (v\<lparr>vvalue := VolumeUtils_IncrementVolume v\<rparr>)" and "volume_ok (v\<lparr>vvalue := VolumeUtils_DecrementVolume v\<rparr>)"
  using assms config_okD(1) [of "config v"]
  by (auto simp: volume_ok_def VolumeUtils_IncrementVolume_def VolumeUtils_DecrementVolume_def limit_to_range extent_def)

text \<open>
  What the environment of the service promises: the source in focus is a source, requests name sources and volumes
  in order, and what happens behind the tables keeps the contract.
\<close>

definition event_ok :: "('c \<Rightarrow> bool) \<Rightarrow> generic_source \<times> 'c service_event \<Rightarrow> bool" where
  "event_ok client_ok = (\<lambda>(focus, e). focus_ok focus \<and> (case e of
     SendRequest m \<Rightarrow> request_ok m
   | SystemVolumeSet _ v \<Rightarrow> volume_ok v
   | LimitSet v \<Rightarrow> volume_ok v
   | RegisterAudioVolume s _ \<Rightarrow> audioInterface_SourceIsValid s
   | RegisterAudioControl s _ \<Rightarrow> audioInterface_SourceIsValid s
   | RegisterVoiceVolume s _ \<Rightarrow> voice_source_ok s
   | RegisterVoiceControl s _ \<Rightarrow> voice_source_ok s
   | ClientChange c \<Rightarrow> client_ok c
   | _ \<Rightarrow> True))"

section \<open>Registration\<close>

lemma one_interface:
  "max_interfaces audio_interface_type_volume_registry = 1" "max_interfaces audio_interface_type_volume_control = 1"
  by (simp_all add: max_interfaces_def)

text \<open>A table that is registered takes the place of the one before.\<close>

lemma register_replaces:
  assumes ok: "registry_ok (audio_registry w)" "audioInterface_SourceIsValid s" and one: "max_interfaces ty = 1"
  shows "\<exists>r. res_bind (interfaces_of s ty w) (\<lambda>(w, l, n).
       if n \<noteq> 0
       then if Some p = l ! 0 then Inr w
         else res_bind (unregister_interface s ty (l ! 0) w) (register_interface s ty (Some p))
       else register_interface s ty (Some p) w) = Inr (w\<lparr>audio_registry := r\<rparr>) \<and> registry_ok r \<and>
    registry_map r = (registry_map (audio_registry w))(s := (registry_map (audio_registry w) s)(ty := [p]))"
proof -
  define ps where "ps = registry_map (audio_registry w) s ty"
  obtain r1 where r1: "AudioInterface_Get s ty (audio_registry w) = Inr (r1, padded 1 ps, length ps)" "registry_ok r1"
    "registry_map r1 = registry_map (audio_registry w)"
    using get_refines [OF ok, of ty] by (auto simp: ps_def one)
  have get: "interfaces_of s ty w = Inr (w\<lparr>audio_registry := r1\<rparr>, padded 1 ps, length ps)"
    by (simp add: interfaces_of_def r1(1))
  have reg: "\<exists>r'. AudioInterface_Register s ty (Some p) r = Inr r' \<and> registry_ok r' \<and>
      registry_map r' = (registry_map r)(s := (registry_map r s)(ty := [p]))"
    if "registry_ok r" "registry_map r s ty = []" for r
    using register_refines [OF that(1) ok(2), of ty p] that(2) one by simp
  show ?thesis
  proof (cases ps)
    case Nil
    then show ?thesis
      using reg [OF r1(2)] r1(3) by (auto simp: get register_interface_def ps_def)
  next
    case (Cons q qs)
    have "length ps \<le> 1"
      using index_of_source [OF ok] registry_entry(2) [of _ _ s ty] by (fastforce simp: ps_def one)
    then have qs: "ps = [q]"
      using Cons by simp
    show ?thesis
    proof (cases "q = p")
      case True
      then show ?thesis
        using r1 qs by (auto simp: get padded_def ps_def fun_eq_iff)
    next
      case False
      obtain r2 where r2: "AudioInterface_UnRegister s ty (Some q) r1 = Inr r2" "registry_ok r2"
        "registry_map r2 = (registry_map r1)(s := (registry_map r1 s)(ty := []))"
        using unregister_refines [OF r1(2) ok(2), of ty q] r1(3) qs by (auto simp: ps_def)
      obtain r3 where r3: "AudioInterface_Register s ty (Some p) r2 = Inr r3" "registry_ok r3"
        "registry_map r3 = (registry_map r2)(s := (registry_map r2 s)(ty := [p]))"
        using reg [OF r2(2)] r2(3) by auto
      have "registry_map r3 = (registry_map (audio_registry w))(s := (registry_map (audio_registry w) s)(ty := [p]))"
        by (simp add: r3(3) r2(3) r1(3) fun_eq_iff)
      then show ?thesis
        using False qs r2(1) r3(1,2) by (intro exI [of _ r3]) (simp add: get padded_def unregister_interface_def register_interface_def)
    qed
  qed
qed

text \<open>The distance to the end of the range that a ramp moves to, and the number of its repetitions.\<close>

definition ramp_distance :: "volume \<Rightarrow> int \<Rightarrow> int" where
  "ramp_distance v step = (if 0 < step then range_max (vrange (config v)) - vvalue v else vvalue v)"

definition ramp_repetitions :: "volume \<Rightarrow> int \<Rightarrow> nat" where
  "ramp_repetitions v step = nat ((ramp_distance v step + \<bar>step\<bar> - 1) div \<bar>step\<bar>)"

context volume_tables
begin

definition service_ok :: "'c volume_service \<Rightarrow> bool" where
  "service_ok w \<longleftrightarrow> sources_ok w \<and> list_all request_ok (requests w) \<and> list_all internal_ok (internal w)"

lemma keeps_service: "service_ok w \<Longrightarrow> keeps w w' \<Longrightarrow> service_ok w'"
  using keeps_messages [of w w'] by (simp add: service_ok_def keeps_ok)

lemma keeps_service_wp: "wp m (keeps w) \<Longrightarrow> service_ok w \<Longrightarrow> wp m service_ok"
  by (erule wp_mono) (rule keeps_service)

lemma tells_service: "service_ok w \<Longrightarrow> tells w w' \<Longrightarrow> service_ok w'"
  by (rule keeps_service [OF _ tells_keeps])

lemma tells_service_wp: "wp m (tells w) \<Longrightarrow> service_ok w \<Longrightarrow> wp m service_ok"
  by (erule wp_mono) (rule tells_service)

lemma post_ok:
  "service_ok w \<Longrightarrow> request_ok m \<Longrightarrow> service_ok (post_request m w)"
  "service_ok w \<Longrightarrow> internal_ok n \<Longrightarrow> service_ok (post_internal n w)"
  by (simp_all add: service_ok_def post_request_def post_internal_def)

lemma posts_service: "service_ok w \<Longrightarrow> request_ok m \<Longrightarrow> posts w m w' \<Longrightarrow> service_ok w'"
  by (auto simp: posts_def intro: post_ok(1) keeps_service reads_keeps)

lemma service_sources: "service_ok w \<Longrightarrow> sources_ok w"
  by (simp add: service_ok_def)

lemma change_request_ok:
  "sources_ok w \<Longrightarrow> audioInterface_SourceIsValid s \<Longrightarrow> request_ok (audio_request s (audio_level w s) step)"
  "sources_ok w \<Longrightarrow> voice_source_ok s \<Longrightarrow> request_ok (voice_request s (voice_level w s) step)"
  using unit_moved [OF levels_unit(1), of w s step] unit_moved [OF levels_unit(2), of w s step]
  by (auto simp: audio_request_def voice_request_def request_ok_def unit_volume_def)

lemma Change_service_wp:
  assumes "service_ok w" and "step_ok step"
  shows "audioInterface_SourceIsValid s \<Longrightarrow> wp (VolumeService_ChangeAudioSourceVolume t s step w) service_ok"
    and "voice_source_ok s \<Longrightarrow> wp (volumeService_ChangeVoiceVolume t s step w) service_ok"
  using assms wp_mono [OF ChangeAudio_wp] wp_mono [OF ChangeVoice_wp] posts_service change_request_ok service_sources
  by metis+

lemma StartVolumeRamp_wp:
  assumes "service_ok w" and "source_ok src" and "step_ok step"
  shows "wp (volumeService_StartVolumeRamp t src step w) service_ok"
proof -
  have post: "service_ok (post_internal (INTERNAL_MSG_VOLUME_RAMP_REPEAT src step) u)" if "service_ok u" for u
    by (rule post_ok(2) [OF that]) (simp add: internal_ok_def assms(2,3))
  show ?thesis
    unfolding volumeService_StartVolumeRamp_def wp_bind wp_simps
  proof (rule wp_mono [OF _ post])
    show "wp (case src of source_type_voice s \<Rightarrow> volumeService_ChangeVoiceVolume t s step w
        | source_type_audio s \<Rightarrow> VolumeService_ChangeAudioSourceVolume t s step w | source_type_other \<Rightarrow> Inr w) service_ok"
      using Change_service_wp [OF assms(1,3)] assms(2) by (cases src) (simp_all add: source_ok_def)
  qed
qed

lemma list_all_remove: "list_all P xs \<Longrightarrow> list_all P (remove_at i xs)"
  by (auto simp: remove_at_def list_all_iff dest: in_set_takeD in_set_dropD)

lemma list_all_filter: "list_all P xs \<Longrightarrow> list_all P (filter Q xs)"
  by (simp add: list_all_iff)

lemma drop_messages:
  "service_ok w \<Longrightarrow> service_ok (w\<lparr>internal := remove_at i (internal w)\<rparr>)"
  "service_ok w \<Longrightarrow> service_ok (w\<lparr>internal := filter P (internal w)\<rparr>)"
  "service_ok w \<Longrightarrow> requests w = m # ms \<Longrightarrow> service_ok (w\<lparr>requests := ms\<rparr>)"
  by (simp_all add: service_ok_def list_all_remove list_all_filter)

lemma StopVolumeRamp_ok: "service_ok w \<Longrightarrow> service_ok (volumeService_StopVolumeRamp w)"
  by (auto simp: volumeService_StopVolumeRamp_def drop_messages split: option.splits)

lemma ui_steps_ok:
  assumes "unit_volume v" and "st = VolumeService_GetUiStepSize (config v)"
  shows "step_ok (i16 (if b then i32 (- st) else st))"
  using ui_step [OF assms(1)] assms(2) by (auto simp: step_ok_def i32_id i16_id)

lemma HandleUiInput_wp:
  assumes "service_ok w" and "focus_ok focus"
  shows "wp (volumeService_HandleUiInput t focus inp w) service_ok"
proof (cases "focus = source_type_other")
  case True
  then show ?thesis
    using assms(1) by (simp add: volumeService_HandleUiInput_def)
next
  case False
  then have focus: "source_ok focus"
    using assms(2) by (simp add: focus_ok_def)
  note ok = service_sources [OF assms(1)]
  have rest: "wp (
      let signed_step = i16 (if inp = ui_input_volume_down_start \<or> inp = ui_input_volume_down then i32 (- st) else st) in
      if inp = ui_input_volume_down_start \<or> inp = ui_input_volume_up_start
      then volumeService_StartVolumeRamp t focus signed_step (u\<lparr>internal := filter (\<lambda>m. m \<noteq> UiInputMessage inp) (internal u)\<rparr>)
      else if inp = ui_input_volume_stop then Inr (volumeService_StopVolumeRamp u)
      else (case focus of
          source_type_audio s \<Rightarrow> VolumeService_ChangeAudioSourceVolume t s signed_step u
        | source_type_voice s \<Rightarrow> volumeService_ChangeVoiceVolume t s signed_step u
        | source_type_other \<Rightarrow> Inr u)) service_ok"
    if r: "reads w u" and st: "unit_volume v" "st = VolumeService_GetUiStepSize (config v)" for u st v
  proof -
    have u: "service_ok u"
      by (rule keeps_service [OF assms(1) reads_keeps [OF r]])
    define x where "x = i16 (if inp = ui_input_volume_down_start \<or> inp = ui_input_volume_down then i32 (- st) else st)"
    have step: "step_ok x"
      unfolding x_def by (rule ui_steps_ok [OF st])
    show ?thesis
      using StartVolumeRamp_wp [OF drop_messages(2) [OF u] focus step] StopVolumeRamp_ok [OF u] Change_service_wp [OF u step] focus
      unfolding Let_def x_def [symmetric] by (cases focus) (simp_all add: source_ok_def)
  qed
  show ?thesis
  proof (cases focus)
    case (source_type_audio s)
    then have s: "audioInterface_SourceIsValid s"
      using focus by (simp add: source_ok_def)
    obtain u where "AudioSources_GetVolume t s w = Inr (u, audio_level w s)" "reads w u"
      using wpD [OF AudioSources_GetVolume_wp [OF ok s]] by auto
    with rest [OF this(2) levels_unit(1) [OF ok] refl, of s] show ?thesis
      unfolding source_type_audio by (simp add: volumeService_HandleUiInput_def)
  next
    case (source_type_voice s)
    then have s: "voice_source_ok s"
      using focus by (simp add: source_ok_def)
    obtain u where "VoiceSources_GetVolume t s w = Inr (u, voice_level w s)" "reads w u"
      using wpD [OF VoiceSources_GetVolume_wp [OF ok s]] by auto
    with rest [OF this(2) levels_unit(2) [OF ok] refl, of s] show ?thesis
      unfolding source_type_voice by (simp add: volumeService_HandleUiInput_def)
  qed (use False in simp)
qed

lemma ramp_service_wp:
  assumes "service_ok w" and "step_ok step"
  shows "audioInterface_SourceIsValid s \<Longrightarrow> wp (ramp_step_audio t focus s step w) (\<lambda>(w', v). service_ok w')"
    and "voice_source_ok s \<Longrightarrow> wp (ramp_step_voice t focus s step w) (\<lambda>(w', v). service_ok w')"
proof -
  note ok = service_sources [OF assms(1)]
  show "wp (ramp_step_audio t focus s step w) (\<lambda>(w', v). service_ok w')" if "audioInterface_SourceIsValid s"
    by (rule wp_mono [OF ramp_step_audio_wp [OF ok that assms(2)]])
      (auto simp: changed_def split: if_splits intro: keeps_service [OF assms(1)] tells_service [OF assms(1)])
  show "wp (ramp_step_voice t focus s step w) (\<lambda>(w', v). service_ok w')" if "voice_source_ok s"
    by (rule wp_mono [OF ramp_step_voice_wp [OF ok that assms(2)]]) (auto intro: keeps_service [OF assms(1)])
qed

lemma DoVolumeRampRepeat_wp:
  assumes "service_ok w" and "source_ok src" and "step_ok step"
  shows "wp (volumeService_DoVolumeRampRepeat t focus src step w) service_ok"
  unfolding volumeService_DoVolumeRampRepeat_def
proof (rule wp_bind2I)
  show "wp (case src of source_type_audio s \<Rightarrow> ramp_step_audio t focus s step w
      | source_type_voice s \<Rightarrow> ramp_step_voice t focus s step w | source_type_other \<Rightarrow> Inl Panic) (\<lambda>(w', v). service_ok w')"
    using assms ramp_service_wp [OF assms(1,3)] by (cases src) (simp_all add: source_ok_def)
next
  fix u v
  assume "service_ok u"
  then show "wp (case (u, v) of (w, new_volume) \<Rightarrow>
      if volumeService_VolumeWithinAllowedRange new_volume
      then Inr (post_internal (INTERNAL_MSG_VOLUME_RAMP_REPEAT src step) w) else Inr w) service_ok"
    using post_ok(2) assms(2,3) by (auto simp: internal_ok_def)
qed

lemma InternalMessageHandler_wp:
  assumes "service_ok w" and "focus_ok focus" and "internal_ok m"
  shows "wp (volumeService_InternalMessageHandler t focus m w) service_ok"
  using assms HandleUiInput_wp [OF assms(1,2)] DoVolumeRampRepeat_wp [OF assms(1)]
    tells_service_wp [OF RefreshAudioVolume_wp [OF service_sources [OF assms(1)]] assms(1)]
  by (auto simp: volumeService_InternalMessageHandler_def internal_ok_def focus_ok_def source_ok_def
      split: internal_message.splits generic_source.splits)


section \<open>Requests and events\<close>

lemma SetVolume_service_wp:
  assumes "service_ok w" and "volume_ok v"
  shows "audioInterface_SourceIsValid s \<Longrightarrow> wp (VolumeService_SetAudioSourceVolume t focus s origin v w) service_ok"
    and "voice_source_ok s \<Longrightarrow> wp (VolumeService_SetVoiceSourceVolume t focus s origin v w) service_ok"
proof -
  note ok = service_sources [OF assms(1)]
  have c: "\<exists>x. VolumeUtils_ConvertToVolumeConfig v (config u) = Inr x \<and> 0 \<le> x \<and> x \<le> range_max (vrange (config u))"
    if "unit_volume u" for u
    using convert_in_range [OF assms(2), of "config u"] that by (simp add: unit_volume_def volume_ok_def)
  show "wp (VolumeService_SetAudioSourceVolume t focus s origin v w) service_ok" if s: "audioInterface_SourceIsValid s"
  proof -
    obtain x where x: "VolumeUtils_ConvertToVolumeConfig v (config (audio_level w s)) = Inr x" "0 \<le> x"
      "x \<le> range_max (vrange (config (audio_level w s)))"
      using c [OF levels_unit(1) [OF ok]] by blast
    show ?thesis
      by (rule wp_mono [OF SetAudioSourceVolume_wp [OF ok s x]])
        (auto simp: changed_def split: if_splits intro: keeps_service [OF assms(1)] tells_service [OF assms(1)])
  qed
  show "wp (VolumeService_SetVoiceSourceVolume t focus s origin v w) service_ok" if s: "voice_source_ok s"
  proof -
    obtain x where x: "VolumeUtils_ConvertToVolumeConfig v (config (voice_level w s)) = Inr x" "0 \<le> x"
      "x \<le> range_max (vrange (config (voice_level w s)))"
      using c [OF levels_unit(2) [OF ok]] by blast
    show ?thesis
      by (rule keeps_service_wp [OF SetVoiceSourceVolume_wp [OF ok s x] assms(1)])
  qed
qed

lemma AudioStep_service_wp:
  assumes "service_ok w" and "audioInterface_SourceIsValid s"
  shows "wp (VolumeService_IncrementAudioSourceVolume t focus s origin w) service_ok"
    and "wp (VolumeService_DecrementAudioSourceVolume t focus s origin w) service_ok"
  by (rule wp_mono [OF AudioSourceVolume_step_wp(1) [OF service_sources [OF assms(1)] assms(2)]]
      wp_mono [OF AudioSourceVolume_step_wp(2) [OF service_sources [OF assms(1)] assms(2)]],
      auto simp: changed_def split: if_splits intro: keeps_service [OF assms(1)] tells_service [OF assms(1)])+

lemma volumeMessageHandler_wp:
  assumes "service_ok w" and "focus_ok focus" and "request_ok m"
  shows "wp (volumeMessageHandler t focus m w) service_ok"
proof -
  note ok = service_sources [OF assms(1)]
  note f = assms(2) [unfolded focus_ok_def]
  show ?thesis
    using assms(3) SetVolume_service_wp [OF assms(1)] AudioStep_service_wp [OF assms(1)]
      keeps_service_wp [OF VoiceSourceVolume_step_wp(1) [OF ok] assms(1)]
      keeps_service_wp [OF VoiceSourceVolume_step_wp(2) [OF ok] assms(1)]
      tells_service_wp [OF AudioSourceMute_wp [OF ok _ f] assms(1)]
      tells_service_wp [OF VoiceSourceMute_wp [OF ok _ f] assms(1)]
    by (cases m) (simp_all add: volumeMessageHandler_def request_ok_def)
qed

lemma volume_data_service:
  "service_ok w \<Longrightarrow> volume_data_ok d \<Longrightarrow> service_ok (w\<lparr>volume_data := d\<rparr>)"
  by (simp add: service_ok_def sources_ok_def)

lemma UpdateSystemVolume_wp:
  assumes "service_ok w" and "focus_ok focus" and "volume_ok v"
  shows "wp (volumeService_UpdateSystemVolume t focus v origin w) service_ok"
proof -
  have "volume_data_ok (volume_data w)"
    using assms(1) by (simp add: service_ok_def sources_ok_def)
  then have "volume_data_ok (Volume_SetSystemVolume v (volume_data w))"
    using assms(3) by (simp add: volume_data_ok_def Volume_SetSystemVolume_def Volume_IsLimitSet_def)
  note w1 = volume_data_service [OF assms(1) this]
  show ?thesis
    unfolding volumeService_UpdateSystemVolume_def
    by (rule tells_service_wp [OF RefreshCurrentVolume_wp [OF service_sources [OF w1] assms(2) [unfolded focus_ok_def]] w1])
qed

lemma SystemVolume_wp:
  assumes "service_ok w" and "focus_ok focus"
  shows "volume_ok v \<Longrightarrow> wp (VolumeService_SetSystemVolume t focus origin v w) service_ok"
    and "wp (VolumeService_IncrementSystemVolume t focus origin w) service_ok"
    and "wp (VolumeService_DecrementSystemVolume t focus origin w) service_ok"
proof -
  have s: "volume_ok (system_volume (volume_data w))"
    using assms(1) by (simp add: service_ok_def sources_ok_def volume_data_ok_def)
  note upd = UpdateSystemVolume_wp [OF assms]
  show "wp (VolumeService_SetSystemVolume t focus origin v w) service_ok" if v: "volume_ok v"
  proof -
    have c: "config_ok (config (system_volume (volume_data w)))"
      using s by (simp add: volume_ok_def)
    obtain x where "VolumeUtils_ConvertToVolumeConfig v (config (system_volume (volume_data w))) = Inr x"
      "volume_ok ((system_volume (volume_data w))\<lparr>vvalue := x\<rparr>)"
      using convert_in_range [OF v c] c by (auto simp: volume_ok_def)
    then show ?thesis
      using upd by (simp add: VolumeService_SetSystemVolume_def Let_def)
  qed
  show "wp (VolumeService_IncrementSystemVolume t focus origin w) service_ok"
    "wp (VolumeService_DecrementSystemVolume t focus origin w) service_ok"
    using upd volume_step_ok [OF s]
    by (simp_all add: VolumeService_IncrementSystemVolume_def VolumeService_DecrementSystemVolume_def Let_def)
qed

lemma volume_settings_ok:
  "volume_data_ok d \<Longrightarrow> volume_ok v \<Longrightarrow> volume_data_ok (Volume_SetLimit v d)"
  "volume_data_ok d \<Longrightarrow> volume_data_ok (Volume_RemoveLimit d)"
  "volume_data_ok d \<Longrightarrow> volume_data_ok (Volume_SetMuteState m d)"
  using unit_full
  by (simp_all add: volume_data_ok_def Volume_SetLimit_def Volume_RemoveLimit_def Volume_SetMuteState_def
      Volume_IsLimitSet_def VOLUME_LIMIT_DISABLED_def unit_volume_def)

lemma Register_service_wp:
  assumes "service_ok w"
  shows "audioInterface_SourceIsValid s \<Longrightarrow> wp (AudioSources_RegisterVolume s (Some p) w) service_ok"
    and "audioInterface_SourceIsValid s \<Longrightarrow> wp (AudioSources_RegisterVolumeControl s (Some p) w) service_ok"
    and "voice_source_ok s \<Longrightarrow> wp (VoiceSources_RegisterVolume s (Some p) w) service_ok"
    and "voice_source_ok s \<Longrightarrow> wp (VoiceSources_RegisterVolumeControl s (Some p) w) service_ok"
proof -
  have r: "registry_ok (audio_registry w)"
    using assms by (simp add: service_ok_def sources_ok_def)
  have ok: "service_ok (w\<lparr>audio_registry := r\<rparr>)" if "registry_ok r" for r
    using assms that by (simp add: service_ok_def sources_ok_def)
  show "wp (AudioSources_RegisterVolume s (Some p) w) service_ok" if "audioInterface_SourceIsValid s"
    using register_replaces [OF r that one_interface(1), of p] ok by (auto simp: AudioSources_RegisterVolume_def)
  show "wp (AudioSources_RegisterVolumeControl s (Some p) w) service_ok" if "audioInterface_SourceIsValid s"
    using register_replaces [OF r that one_interface(2), of p] ok by (auto simp: AudioSources_RegisterVolumeControl_def)
  show "wp (VoiceSources_RegisterVolume s (Some p) w) service_ok" "wp (VoiceSources_RegisterVolumeControl s (Some p) w) service_ok"
    if "voice_source_ok s"
    using assms that
    by (simp_all add: VoiceSources_RegisterVolume_def VoiceSources_RegisterVolumeControl_def service_ok_def sources_ok_def)
qed

lemma service_step_wp:
  assumes "service_ok w" and "event_ok client_ok e"
  shows "wp (service_step t e w) service_ok"
proof -
  obtain focus x where e: "e = (focus, x)"
    by (cases e)
  have f: "focus_ok focus"
    using assms(2) by (simp add: e event_ok_def)
  have d: "volume_data_ok (volume_data w)"
    using assms(1) by (simp add: service_ok_def sources_ok_def)
  show ?thesis
  proof (cases x)
    case (DeliverInternal i)
    then show ?thesis
      using InternalMessageHandler_wp [OF drop_messages(1) [OF assms(1)] f, of "internal w ! i"] assms(1)
      by (simp add: e service_step_def service_ok_def list_all_length)
  next
    case DeliverRequest
    then show ?thesis
      using volumeMessageHandler_wp [OF drop_messages(3) [OF assms(1)] f] assms(1)
      by (cases "requests w") (simp_all add: e service_step_def service_ok_def)
  next
    case (RoutingChange s routed)
    then show ?thesis
      using assms(1) StopVolumeRamp_ok by (simp add: e service_step_def volumeService_OnAudioRoutingChange_def)
  next
    case (ClientChange c)
    then show ?thesis
      using assms by (simp add: e service_step_def event_ok_def service_ok_def sources_ok_def)
  qed (use assms f d post_ok [OF assms(1)] SystemVolume_wp [OF assms(1) f] Register_service_wp [OF assms(1)]
      volume_data_service [OF assms(1)] volume_settings_ok
      in \<open>simp_all add: e service_step_def event_ok_def internal_ok_def\<close>)
qed

lemma run_service_wp:
  "service_ok w \<Longrightarrow> list_all (event_ok client_ok) es \<Longrightarrow> wp (run_service t es w) service_ok"
proof (induction es arbitrary: w)
  case Nil
  then show ?case
    by (simp add: run_service_def)
next
  case (Cons e es)
  then obtain u where u: "service_step t e w = Inr u" "service_ok u"
    using wpD [OF service_step_wp] by fastforce
  then show ?case
    using Cons by (simp add: run_service_def)
qed

lemma service_start_ok: "client_ok c \<Longrightarrow> service_ok (service_start c)"
  using registry_ok_init unit_full
  by (simp add: service_start_def service_ok_def sources_ok_def volume_data_ok_def volume_start_def unit_volume_def
      Volume_IsLimitSet_def VOLUME_LIMIT_DISABLED_def VolumeUtils_VolumeIsEqual_def)

section \<open>Starting and stopping ramps\<close>

lemma posts_internal: "posts w m w' \<Longrightarrow> internal w' = internal w"
  using keeps_messages by (auto simp: posts_def post_request_def dest!: reads_keeps)

lemma filter_kept: "(\<And>m. Q m \<Longrightarrow> P m) \<Longrightarrow> filter Q (filter P xs) = filter Q xs"
  by (induction xs) auto

lemma start_adds_ramp:
  assumes "service_ok w" and "source_ok focus" and "inp \<in> {ui_input_volume_down_start, ui_input_volume_up_start}"
  shows "\<exists>w'. volumeService_HandleUiInput t focus inp w = Inr w' \<and> service_ok w' \<and>
    length (filter is_ramp_repeat (internal w')) = Suc (length (filter is_ramp_repeat (internal w)))"
proof -
  note ok = service_sources [OF assms(1)]
  let ?f = "\<lambda>u :: 'c volume_service. u\<lparr>internal := filter (\<lambda>m. m \<noteq> UiInputMessage inp) (internal u)\<rparr>"
  have kept: "filter is_ramp_repeat (filter (\<lambda>m. m \<noteq> UiInputMessage inp) xs) = filter is_ramp_repeat xs" for xs
    by (rule filter_kept) (auto simp: is_ramp_repeat_def)
  have add: "length (filter is_ramp_repeat (internal (post_internal (INTERNAL_MSG_VOLUME_RAMP_REPEAT focus x) u2))) =
      Suc (length (filter is_ramp_repeat (internal w)))"
    if "posts (?f u) m u2" "keeps w u" for u u2 m x
    using posts_internal [OF that(1)] keeps_messages [OF that(2)] kept
    by (simp add: post_internal_def) (simp add: is_ramp_repeat_def)
  show ?thesis
  proof (cases focus)
    case (source_type_audio s)
    then have s: "audioInterface_SourceIsValid s"
      using assms(2) by (simp add: source_ok_def)
    obtain u where u: "AudioSources_GetVolume t s w = Inr (u, audio_level w s)" "reads w u"
      using wpD [OF AudioSources_GetVolume_wp [OF ok s]] by auto
    note uk = reads_keeps [OF u(2)]
    define x where "x = i16 (if inp = ui_input_volume_down_start \<or> inp = ui_input_volume_down
      then i32 (- VolumeService_GetUiStepSize (config (audio_level w s))) else VolumeService_GetUiStepSize (config (audio_level w s)))"
    have x: "step_ok x"
      unfolding x_def by (rule ui_steps_ok [OF levels_unit(1) [OF ok] refl])
    have fu: "service_ok (?f u)"
      by (rule drop_messages(2) [OF keeps_service [OF assms(1) uk]])
    obtain u2 where u2: "VolumeService_ChangeAudioSourceVolume t s x (?f u) = Inr u2" "posts (?f u) (audio_request s (audio_level (?f u) s) x) u2"
      using wpD [OF ChangeAudio_wp [OF service_sources [OF fu] s x]] by blast
    have h: "volumeService_HandleUiInput t focus inp w = Inr (post_internal (INTERNAL_MSG_VOLUME_RAMP_REPEAT focus x) u2)"
      using assms(3) u2(1) unfolding source_type_audio x_def
      by (auto simp: volumeService_HandleUiInput_def u(1) volumeService_StartVolumeRamp_def)
    have "wp (volumeService_HandleUiInput t focus inp w) service_ok"
      by (rule HandleUiInput_wp [OF assms(1)]) (simp add: focus_ok_def assms(2))
    with add [OF u2(2) uk] show ?thesis
      by (simp add: h)
  next
    case (source_type_voice s)
    then have s: "voice_source_ok s"
      using assms(2) by (simp add: source_ok_def)
    obtain u where u: "VoiceSources_GetVolume t s w = Inr (u, voice_level w s)" "reads w u"
      using wpD [OF VoiceSources_GetVolume_wp [OF ok s]] by auto
    note uk = reads_keeps [OF u(2)]
    define x where "x = i16 (if inp = ui_input_volume_down_start \<or> inp = ui_input_volume_down
      then i32 (- VolumeService_GetUiStepSize (config (voice_level w s))) else VolumeService_GetUiStepSize (config (voice_level w s)))"
    have x: "step_ok x"
      unfolding x_def by (rule ui_steps_ok [OF levels_unit(2) [OF ok] refl])
    have fu: "service_ok (?f u)"
      by (rule drop_messages(2) [OF keeps_service [OF assms(1) uk]])
    obtain u2 where u2: "volumeService_ChangeVoiceVolume t s x (?f u) = Inr u2" "posts (?f u) (voice_request s (voice_level (?f u) s) x) u2"
      using wpD [OF ChangeVoice_wp [OF service_sources [OF fu] s x]] by blast
    have h: "volumeService_HandleUiInput t focus inp w = Inr (post_internal (INTERNAL_MSG_VOLUME_RAMP_REPEAT focus x) u2)"
      using assms(3) u2(1) unfolding source_type_voice x_def
      by (auto simp: volumeService_HandleUiInput_def u(1) volumeService_StartVolumeRamp_def)
    have "wp (volumeService_HandleUiInput t focus inp w) service_ok"
      by (rule HandleUiInput_wp [OF assms(1)]) (simp add: focus_ok_def assms(2))
    with add [OF u2(2) uk] show ?thesis
      by (simp add: h)
  qed (use assms(2) in \<open>simp add: source_ok_def\<close>)
qed

lemma stop_length: "length (filter is_ramp_repeat (internal (volumeService_StopVolumeRamp w))) =
    length (filter is_ramp_repeat (internal w)) - 1"
proof (cases "find_index is_ramp_repeat (internal w)")
  case None
  then have "filter is_ramp_repeat (internal w) = []"
    by (simp add: find_index_None_iff filter_empty_conv)
  with None show ?thesis
    by (simp add: volumeService_StopVolumeRamp_def)
next
  case (Some i)
  then have i: "i < length (internal w)" "is_ramp_repeat (internal w ! i)"
    using find_index_SomeD [OF Some] by simp_all
  have "filter is_ramp_repeat (internal w) =
      filter is_ramp_repeat (take i (internal w) @ internal w ! i # drop (Suc i) (internal w))"
    by (rule arg_cong [OF id_take_nth_drop [OF i(1)]])
  then have "length (filter is_ramp_repeat (internal w)) = Suc (length (filter is_ramp_repeat (remove_at i (internal w))))"
    using i(2) by (simp only: filter_append filter.simps if_True) (simp add: remove_at_def)
  with Some show ?thesis
    by (simp add: volumeService_StopVolumeRamp_def)
qed

lemma stop_removes_ramp:
  assumes "service_ok w" and "source_ok focus"
  shows "\<exists>w'. volumeService_HandleUiInput t focus ui_input_volume_stop w = Inr w' \<and>
    length (filter is_ramp_repeat (internal w')) = length (filter is_ramp_repeat (internal w)) - 1"
proof -
  note ok = service_sources [OF assms(1)]
  have stopped: "length (filter is_ramp_repeat (internal (volumeService_StopVolumeRamp u))) = length (filter is_ramp_repeat (internal w)) - 1"
    if "reads w u" for u
    using stop_length [of u] keeps_messages [OF reads_keeps [OF that]] by simp
  show ?thesis
  proof (cases focus)
    case (source_type_audio s)
    obtain u where "AudioSources_GetVolume t s w = Inr (u, audio_level w s)" "reads w u"
      using wpD [OF AudioSources_GetVolume_wp [OF ok, of s]] assms(2) by (auto simp: source_type_audio source_ok_def)
    with stopped show ?thesis
      by (simp add: source_type_audio volumeService_HandleUiInput_def Let_def)
  next
    case (source_type_voice s)
    obtain u where "VoiceSources_GetVolume t s w = Inr (u, voice_level w s)" "reads w u"
      using wpD [OF VoiceSources_GetVolume_wp [OF ok, of s]] assms(2) by (auto simp: source_type_voice source_ok_def)
    with stopped show ?thesis
      by (simp add: source_type_voice volumeService_HandleUiInput_def Let_def)
  qed (use assms(2) in \<open>simp add: source_ok_def\<close>)
qed

section \<open>Ramps end\<close>

definition ramping :: "nat \<Rightarrow> int \<Rightarrow> 'c volume_service \<Rightarrow> bool" where
  "ramping s step w \<longleftrightarrow> service_ok w \<and> audio_connected w s \<and> \<not> remote w s event_origin_local \<and>
     internal w = [INTERNAL_MSG_VOLUME_RAMP_REPEAT (source_type_audio s) step]"

lemma messages_connected:
  fixes w :: "'c volume_service"
  shows "audio_connected (w\<lparr>internal := x\<rparr>) s = audio_connected w s" and "remote (w\<lparr>internal := x\<rparr>) s origin = remote w s origin"
  by (simp_all add: audio_connected_def remote_def first_interface_def split: list.splits)

lemma changed_kept:
  assumes "changed w s v w'"
  shows "audio_connected w' s = audio_connected w s" and "remote w' s origin = remote w s origin"
    and "internal w' = internal w" and "audio_connected w s \<Longrightarrow> audio_level w' s = v"
  using assms keeps_connected(1) [of w w' s] keeps_messages [of w w']
  by (auto simp: changed_def remote_def first_interface_def keeps_def)

lemma ramp_repeats:
  assumes r: "ramping s step w" and s: "audioInterface_SourceIsValid s" and st: "step_ok step"
    and v: "0 < vvalue (audio_level w s)" "vvalue (audio_level w s) < range_max (vrange (config (audio_level w s)))"
  shows "\<exists>w'. service_step t (focus, DeliverInternal 0) w = Inr w' \<and> service_ok w' \<and>
    audio_level w' s = moved (audio_level w s) step \<and>
    (if 0 < vvalue (audio_level w s) + step \<and> vvalue (audio_level w s) + step < range_max (vrange (config (audio_level w s)))
     then ramping s step w' else internal w' = [])"
proof -
  define lv where "lv = audio_level w s"
  define w1 where "w1 = w\<lparr>internal := []\<rparr>"
  have w: "service_ok w" "audio_connected w s" "\<not> remote w s event_origin_local"
    "internal w = [INTERNAL_MSG_VOLUME_RAMP_REPEAT (source_type_audio s) step]"
    using r by (simp_all add: ramping_def)
  have ok: "service_ok w1"
    using drop_messages(1) [OF w(1), of 0] w(4) by (simp add: w1_def remove_at_def)
  have w1: "audio_connected w1 s" "\<not> remote w1 s event_origin_local" "audio_level w1 s = lv" "internal w1 = []"
    using w(2,3) messages_connected [where w = w] by (simp_all add: w1_def lv_def)
  have u: "unit_volume lv"
    using levels_unit(1) [OF service_sources [OF w(1)]] by (simp add: lv_def)
  have within: "volumeService_VolumeWithinAllowedRange lv"
    unfolding within_unit [OF u] using v by (simp add: lv_def)
  obtain w2 where w2: "ramp_step_audio t focus s step w1 = Inr (w2, lv\<lparr>vvalue := vvalue lv + step\<rparr>)"
    "changed w1 s (moved lv step) w2"
    using wpD [OF ramp_step_audio_wp [OF service_sources [OF ok] s st, of focus]] within w1 by auto
  have k: "keeps w1 w2"
    using w2(2) by (simp add: changed_def)
  have ok2: "service_ok w2"
    by (rule keeps_service [OF ok k])
  note kept = changed_kept [OF w2(2)]
  have more: "volumeService_VolumeWithinAllowedRange (lv\<lparr>vvalue := vvalue lv + step\<rparr>) \<longleftrightarrow>
      0 < vvalue lv + step \<and> vvalue lv + step < range_max (vrange (config lv))"
    using u by (auto simp: volumeService_VolumeWithinAllowedRange_def unit_volume_def)
  have repeat: "service_ok (post_internal (INTERNAL_MSG_VOLUME_RAMP_REPEAT (source_type_audio s) step) w2)"
    by (rule post_ok(2) [OF ok2]) (simp add: internal_ok_def source_ok_def s st)
  have step: "service_step t (focus, DeliverInternal 0) w = Inr (
      if 0 < vvalue lv + step \<and> vvalue lv + step < range_max (vrange (config lv))
      then post_internal (INTERNAL_MSG_VOLUME_RAMP_REPEAT (source_type_audio s) step) w2 else w2)"
    by (simp add: service_step_def w(4) remove_at_def w1_def [symmetric] volumeService_InternalMessageHandler_def
        volumeService_DoVolumeRampRepeat_def w2(1) more)
  show ?thesis
    unfolding step lv_def [symmetric]
    using ok2 repeat kept w1 messages_connected [where w = w2] by (simp add: ramping_def post_internal_def)
qed

lemma ramp_ends:
  assumes "ramping s step w" and "audioInterface_SourceIsValid s" and "step_ok step" and "step \<noteq> 0"
    and "0 < vvalue (audio_level w s)" and "vvalue (audio_level w s) < range_max (vrange (config (audio_level w s)))"
  shows "\<exists>w'. run_service t (replicate (ramp_repetitions (audio_level w s) step) (focus, DeliverInternal 0)) w = Inr w' \<and>
    service_ok w' \<and> internal w' = [] \<and> audio_level w' s = (audio_level w s)\<lparr>vvalue := if 0 < step then range_max (vrange (config (audio_level w s))) else 0\<rparr>"
  using assms(1,5,6)
proof (induction "ramp_repetitions (audio_level w s) step" arbitrary: w)
  case 0
  then have "0 < ramp_distance (audio_level w s) step"
    by (simp add: ramp_distance_def)
  then have "1 \<le> (ramp_distance (audio_level w s) step + \<bar>step\<bar> - 1) div \<bar>step\<bar>"
    using assms(4) by (simp add: pos_imp_zdiv_pos_iff int_one_le_iff_zero_less)
  then show ?case
    using 0 by (simp add: ramp_repetitions_def)
next
  case (Suc n)
  let ?lv = "audio_level w s"
  have u: "unit_volume ?lv"
    using levels_unit(1) service_sources Suc.prems(1) by (auto simp: ramping_def)
  obtain w1 where w1: "service_step t (focus, DeliverInternal 0) w = Inr w1" "audio_level w1 s = moved ?lv step" "service_ok w1"
    "if 0 < vvalue ?lv + step \<and> vvalue ?lv + step < range_max (vrange (config ?lv)) then ramping s step w1 else internal w1 = []"
    using ramp_repeats [OF Suc.prems(1) assms(2,3) Suc.prems(2,3)] by blast
  have run: "run_service t (replicate (Suc n) (focus, DeliverInternal 0)) w = run_service t (replicate n (focus, DeliverInternal 0)) w1"
    by (simp add: run_service_def w1(1))
  show ?case
  proof (cases "0 < vvalue ?lv + step \<and> vvalue ?lv + step < range_max (vrange (config ?lv))")
    case True
    then have m: "moved ?lv step = ?lv\<lparr>vvalue := vvalue ?lv + step\<rparr>"
      by (simp add: moved_def)
    have "ramp_distance ?lv step + \<bar>step\<bar> - 1 = (ramp_distance (moved ?lv step) step + \<bar>step\<bar> - 1) + 1 * \<bar>step\<bar>"
      using assms(4) by (simp add: ramp_distance_def m)
    moreover have "0 \<le> (ramp_distance (moved ?lv step) step + \<bar>step\<bar> - 1) div \<bar>step\<bar>"
      using True assms(4) by (simp add: ramp_distance_def m pos_imp_zdiv_nonneg_iff)
    ultimately have "ramp_repetitions ?lv step = Suc (ramp_repetitions (moved ?lv step) step)"
      using assms(4) unfolding ramp_repetitions_def by (simp only: div_mult_self1 abs_eq_0 simp_thms) simp
    then have n: "n = ramp_repetitions (audio_level w1 s) step"
      using Suc.hyps(2) by (simp add: w1(2))
    have "ramping s step w1"
      using w1(4) True by simp
    note ih = Suc.hyps(1) [OF n this]
    have c: "config (audio_level w1 s) = config ?lv" "vvalue (audio_level w1 s) = vvalue ?lv + step"
      "(audio_level w1 s)\<lparr>vvalue := x\<rparr> = ?lv\<lparr>vvalue := x\<rparr>" for x
      by (simp_all add: w1(2) m)
    show ?thesis
      using ih True unfolding Suc.hyps(2) [symmetric] run n [symmetric] c by simp
  next
    case False
    have d: "1 \<le> ramp_distance ?lv step" "ramp_distance ?lv step \<le> \<bar>step\<bar>"
      using False Suc.prems(2,3) assms(4) by (auto simp: ramp_distance_def)
    have "(ramp_distance ?lv step + \<bar>step\<bar> - 1) div \<bar>step\<bar> = 1"
      using d by (intro int_div_pos_eq [where r = "ramp_distance ?lv step - 1"]) simp_all
    then have "n = 0"
      using Suc.hyps(2) by (simp add: ramp_repetitions_def)
    moreover have "moved ?lv step = ?lv\<lparr>vvalue := if 0 < step then range_max (vrange (config ?lv)) else 0\<rparr>"
      using False Suc.prems(2,3) assms(4) by (auto simp: moved_def)
    ultimately show ?thesis
      using False w1 unfolding Suc.hyps(2) [symmetric] run by (simp add: run_service_def)
  qed
qed

end

end
