(* ===== verification/Key_Value_List.thy ===== *)
theory Key_Value_List
  imports Mh40_Prelude
begin

text \<open>
  The key-value list (\<^verbatim>\<open>adk/src/libs/key_value_list/key_value_list.c\<close>) that holds the
  properties of a device. Values of one, two or four octets live in three dynamic arrays
  whose keys share one array; other values are in a linked list. Array lengths are kept in
  octets. An empty list is the \<open>NULL\<close> array; a handle is an option whose \<open>None\<close> is \<open>NULL\<close>.
  A pointer returned to a value is the list of octets it points to.
\<close>

section \<open>Model\<close>

record large_kv_element =
  ele_len :: u16
  ele_key :: u16
  ele_data :: "u8 list"

record key_value_list =
  len_keys :: u8
  len8 :: u8
  len16 :: u8
  len32 :: u8
  keys :: "u16 list"
  values8 :: "u8 list"
  values16 :: "u16 list"
  values32 :: "u32 list"
  head :: "large_kv_element list"

text \<open>Object representation of the little-endian processor.\<close>

definition le16 :: "u8 list \<Rightarrow> u16" where
  "le16 bs = ucast (bs ! 0) OR push_bit 8 (ucast (bs ! 1))"

definition le32 :: "u8 list \<Rightarrow> u32" where
  "le32 bs = ucast (bs ! 0) OR push_bit 8 (ucast (bs ! 1)) OR push_bit 16 (ucast (bs ! 2)) OR
             push_bit 24 (ucast (bs ! 3))"

definition bytes16 :: "u16 \<Rightarrow> u8 list" where
  "bytes16 w = [ucast w, ucast (drop_bit 8 w)]"

definition bytes32 :: "u32 \<Rightarrow> u8 list" where
  "bytes32 w = [ucast w, ucast (drop_bit 8 w), ucast (drop_bit 16 w), ucast (drop_bit 24 w)]"

text \<open>\<open>realloc\<close> to one more element and a store into it: \<open>n\<close> is the old length.\<close>

definition grow :: "nat \<Rightarrow> 'a \<Rightarrow> 'a list \<Rightarrow> 'a list res" where
  "grow n x xs = (if n \<le> length xs then Inr (take n xs @ [x]) else Inl BadAccess)"

text \<open>
  The key array after its \<open>realloc\<close>: the tail from \<open>i\<close> moves up by one. The count
  \<open>len_keys - key_index\<close> is unsigned, so an index above the length leaves the array.
\<close>

definition open_key_gap :: "nat \<Rightarrow> nat \<Rightarrow> u16 \<Rightarrow> u16 list \<Rightarrow> u16 list res" where
  "open_key_gap n i key ks =
     (if i \<le> n \<and> n \<le> length ks then Inr (insert_at i key (take n ks)) else Inl BadAccess)"

definition keyValueList_addKeyValuePair ::
  "key_value_list \<Rightarrow> u16 \<Rightarrow> u8 list \<Rightarrow> nat \<Rightarrow> (key_value_list \<times> bool) res" where
  "keyValueList_addKeyValuePair l key value sz =
     (if length value < sz then Inl BadAccess
      else if sz = 1 then
        res_bind (grow (unat (len8 l)) (value ! 0) (values8 l)) (\<lambda>vs.
        res_bind (open_key_gap (unat (len_keys l)) (unat (len8 l)) key (keys l)) (\<lambda>ks.
          Inr (l\<lparr>values8 := vs, len8 := len8 l + 1, keys := ks, len_keys := len_keys l + 1\<rparr>, True)))
      else if sz = 2 then
        res_bind (grow (unat (len16 l)) (le16 value) (values16 l)) (\<lambda>vs.
        res_bind (open_key_gap (unat (len_keys l)) (unat (len8 l) + unat (len16 l)) key (keys l)) (\<lambda>ks.
          Inr (l\<lparr>values16 := vs, len16 := len16 l + 1, keys := ks, len_keys := len_keys l + 1\<rparr>, True)))
      else if sz = 4 then
        res_bind (grow (unat (len32 l)) (le32 value) (values32 l)) (\<lambda>vs.
        res_bind (open_key_gap (unat (len_keys l))
                   (unat (len8 l) + unat (len16 l) + unat (len32 l)) key (keys l)) (\<lambda>ks.
          Inr (l\<lparr>values32 := vs, len32 := len32 l + 1, keys := ks, len_keys := len_keys l + 1\<rparr>, True)))
      else Inr (l\<lparr>head := \<lparr>ele_len = word_of_nat sz, ele_key = key, ele_data = take sz value\<rparr>
                           # head l\<rparr>, True))"

definition KeyValueList_Create :: "key_value_list option" where
  "KeyValueList_Create = Some \<lparr>len_keys = 0, len8 = 0, len16 = 0, len32 = 0, keys = [],
     values8 = [], values16 = [], values32 = [], head = []\<rparr>"

text \<open>The loop over \<open>n\<close> keys from index \<open>i\<close>, stopping at the first match.\<close>

definition scan_keys :: "u16 list \<Rightarrow> nat \<Rightarrow> nat \<Rightarrow> u16 \<Rightarrow> nat option res" where
  "scan_keys ks i n key = scan (\<lambda>k. k = key) ks i n"

text \<open>The value behind a position of the key array, as \<open>KeyValueList_Get\<close> computes it.\<close>

definition fixed_value :: "key_value_list \<Rightarrow> nat \<Rightarrow> (u8 list \<times> nat) res" where
  "fixed_value l i =
     (if i < unat (len8 l) then res_bind (array_get (values8 l) i) (\<lambda>v. Inr ([v], 1))
      else if i - unat (len8 l) < unat (len16 l) then
        res_bind (array_get (values16 l) (i - unat (len8 l))) (\<lambda>v. Inr (bytes16 v, 2))
      else res_bind (array_get (values32 l) (i - unat (len8 l) - unat (len16 l)))
             (\<lambda>v. Inr (bytes32 v, 4)))"

definition KeyValueList_Get :: "key_value_list option \<Rightarrow> u16 \<Rightarrow> (u8 list \<times> nat) option res" where
  "KeyValueList_Get list key = res_bind (panic_null list) (\<lambda>l.
     case find (\<lambda>e. ele_key e = key) (head l) of
       Some e \<Rightarrow> Inr (Some (ele_data e, unat (ele_len e)))
     | None \<Rightarrow>
         res_bind (scan_keys (keys l) 0 (unat (len_keys l)) key) (\<lambda>r.
           case r of None \<Rightarrow> Inr None
           | Some i \<Rightarrow> res_bind (fixed_value l i) (\<lambda>v. Inr (Some v))))"

definition KeyValueList_IsSet :: "key_value_list option \<Rightarrow> u16 \<Rightarrow> bool res" where
  "KeyValueList_IsSet list key = res_bind (KeyValueList_Get list key) (\<lambda>r. Inr (r \<noteq> None))"

text \<open>
  A call of the registered add callback: key, value and size. The first argument of the
  functions below tells whether a callback is registered.
\<close>

type_synonym kv_call = "u16 \<times> u8 list \<times> nat"

definition KeyValueList_Add ::
  "bool \<Rightarrow> key_value_list option \<Rightarrow> u16 \<Rightarrow> u8 list \<Rightarrow> nat \<Rightarrow>
   (key_value_list \<times> bool \<times> kv_call list) res" where
  "KeyValueList_Add cb list key value sz = res_bind (panic_null list) (\<lambda>l.
     res_bind (KeyValueList_IsSet list key) (\<lambda>set.
       if \<not> set then
         res_bind (keyValueList_addKeyValuePair l key value sz) (\<lambda>(l', success).
           Inr (l', success, if success \<and> cb then [(key, value, sz)] else []))
       else Inr (l, False, [])))"

definition KeyValueList_GetSized :: "key_value_list option \<Rightarrow> u16 \<Rightarrow> nat \<Rightarrow> u8 list option res" where
  "KeyValueList_GetSized list key sz = res_bind (panic_null list) (\<lambda>l.
     let missing = res_bind (KeyValueList_IsSet list key) (\<lambda>set.
           res_bind (panic_unless (\<not> set)) (\<lambda>_. Inr None));
         n8 = unat (len8 l); n16 = unat (len16 l); n32 = unat (len32 l)
     in
       if sz = 1 then
         res_bind (scan_keys (keys l) 0 n8 key) (\<lambda>r. case r of None \<Rightarrow> missing
           | Some i \<Rightarrow> res_bind (array_get (values8 l) i) (\<lambda>v. Inr (Some [v])))
       else if sz = 2 then
         res_bind (scan_keys (keys l) n8 n16 key) (\<lambda>r. case r of None \<Rightarrow> missing
           | Some i \<Rightarrow> res_bind (array_get (values16 l) (i - n8)) (\<lambda>v. Inr (Some (bytes16 v))))
       else if sz = 4 then
         res_bind (scan_keys (keys l) (n8 + n16) n32 key) (\<lambda>r. case r of None \<Rightarrow> missing
           | Some i \<Rightarrow> res_bind (array_get (values32 l) (i - (n8 + n16))) (\<lambda>v. Inr (Some (bytes32 v))))
       else (case find (\<lambda>e. ele_key e = key) (head l) of
               Some e \<Rightarrow> Inr (Some (ele_data e))
             | None \<Rightarrow> missing))"

text \<open>
  \<open>memmove(dest, dest + 1, len - index)\<close> followed by \<open>realloc\<close> to \<open>len - 1\<close> elements. The
  count is one too large: the element \<open>beyond\<close> the array is read and lands in the slot
  the \<open>realloc\<close> drops.
\<close>

definition close_gap :: "'a \<Rightarrow> nat \<Rightarrow> nat \<Rightarrow> 'a list \<Rightarrow> 'a list res" where
  "close_gap beyond n i xs =
     (if i < n \<and> n \<le> length xs
      then Inr (take (n - 1) (take i xs @ drop (Suc i) (take n xs) @ [beyond]))
      else Inl BadAccess)"

fun remove_large :: "u16 \<Rightarrow> large_kv_element list \<Rightarrow> large_kv_element list option" where
  "remove_large key [] = None"
| "remove_large key (e # es) =
     (if ele_key e = key then Some es else map_option ((#) e) (remove_large key es))"

definition KeyValueList_Remove ::
  "u32 \<Rightarrow> key_value_list option \<Rightarrow> u16 \<Rightarrow> key_value_list res" where
  "KeyValueList_Remove beyond list key = res_bind (panic_null list) (\<lambda>l.
     case remove_large key (head l) of
       Some es \<Rightarrow> Inr (l\<lparr>head := es\<rparr>)
     | None \<Rightarrow>
         res_bind (scan_keys (keys l) 0 (unat (len_keys l)) key) (\<lambda>r. case r of None \<Rightarrow> Inr l
           | Some k \<Rightarrow>
             res_bind
               (if k < unat (len8 l) then
                  res_bind (close_gap (ucast beyond) (unat (len8 l)) k (values8 l)) (\<lambda>vs.
                    Inr (l\<lparr>values8 := vs, len8 := len8 l - 1\<rparr>))
                else if k - unat (len8 l) < unat (len16 l) then
                  res_bind (close_gap (ucast beyond) (unat (len16 l)) (k - unat (len8 l)) (values16 l)) (\<lambda>vs.
                    Inr (l\<lparr>values16 := vs, len16 := len16 l - 1\<rparr>))
                else if k - unat (len8 l) - unat (len16 l) < unat (len32 l) then
                  res_bind (close_gap beyond (unat (len32 l)) (k - unat (len8 l) - unat (len16 l)) (values32 l)) (\<lambda>vs.
                    Inr (l\<lparr>values32 := vs, len32 := len32 l - 1\<rparr>))
                else Inl Panic)
               (\<lambda>l'. res_bind (close_gap (ucast beyond) (unat (len_keys l)) k (keys l)) (\<lambda>ks.
                  Inr (l'\<lparr>keys := ks, len_keys := len_keys l - 1\<rparr>)))))"

definition KeyValueList_RemoveAll :: "key_value_list option \<Rightarrow> key_value_list res" where
  "KeyValueList_RemoveAll list = (case list of None \<Rightarrow> Inl BadAccess
     | Some l \<Rightarrow> Inr \<lparr>len_keys = 0, len8 = 0, len16 = 0, len32 = 0, keys = [],
         values8 = [], values16 = [], values32 = [], head = []\<rparr>)"

definition KeyValueList_Destroy :: "key_value_list option option \<Rightarrow> key_value_list option res" where
  "KeyValueList_Destroy list = res_bind (panic_null list) (\<lambda>p.
     res_bind (KeyValueList_RemoveAll p) (\<lambda>_. Inr None))"

text \<open>
  The resolve callback sees both lists and changes the target; \<open>None\<close> is a \<open>NULL\<close> callback.
  It is a parameter of the merge.
\<close>

type_synonym merge_resolve_callback =
  "key_value_list \<Rightarrow> key_value_list \<Rightarrow> u16 \<Rightarrow> key_value_list \<times> bool"

definition keyValueList_MergeKey ::
  "bool \<Rightarrow> merge_resolve_callback option \<Rightarrow> key_value_list \<Rightarrow> u16 \<Rightarrow> u8 list \<Rightarrow> nat \<Rightarrow>
   key_value_list \<times> kv_call list \<Rightarrow> (key_value_list \<times> kv_call list) res" where
  "keyValueList_MergeKey cb resolve source key data n = (\<lambda>(target, calls).
     res_bind (KeyValueList_Get (Some target) key) (\<lambda>r. case r of
       Some (tv, tn) \<Rightarrow>
         if tn \<noteq> n \<or> take tn tv \<noteq> take tn data then
           res_bind (panic_null resolve) (\<lambda>f.
             case f source target key of (target', ok) \<Rightarrow>
               res_bind (panic_unless ok) (\<lambda>_. Inr (target', calls)))
         else Inr (target, calls)
     | None \<Rightarrow>
         res_bind (KeyValueList_Add cb (Some target) key data n) (\<lambda>(target', _, cs).
           Inr (target', calls @ cs))))"

definition KeyValueList_Merge ::
  "bool \<Rightarrow> merge_resolve_callback option \<Rightarrow> key_value_list option \<Rightarrow> key_value_list option \<Rightarrow>
   (key_value_list \<times> kv_call list) res" where
  "KeyValueList_Merge cb resolve source target =
     res_bind (panic_null source) (\<lambda>s. res_bind (panic_null target) (\<lambda>t.
     res_bind
       (for_res (\<lambda>e. keyValueList_MergeKey cb resolve s (ele_key e) (ele_data e) (unat (ele_len e)))
          (head s) (t, []))
       (for_res (\<lambda>i ts.
           res_bind (array_get (keys s) i) (\<lambda>key.
             if unat (len8 s) + unat (len16 s) + unat (len32 s) \<le> i then Inl Panic
             else res_bind (fixed_value s i) (\<lambda>(v, n).
               keyValueList_MergeKey cb resolve s key v n ts)))
          [0..<unat (len_keys s)])))"

definition KeyValueList_RegisterAddCallback :: "bool \<Rightarrow> bool" where
  "KeyValueList_RegisterAddCallback callback = callback"

section \<open>The list as a finite map\<close>

definition "values" :: "key_value_list \<Rightarrow> u8 list list" where
  "values l = map (\<lambda>v. [v]) (values8 l) @ map bytes16 (values16 l) @ map bytes32 (values32 l)"

definition large_bindings :: "key_value_list \<Rightarrow> (u16 \<times> u8 list) list" where
  "large_bindings l = map (\<lambda>e. (ele_key e, ele_data e)) (head l)"

definition kv_lookup :: "key_value_list \<Rightarrow> u16 \<Rightarrow> u8 list option" where
  "kv_lookup l = map_of (large_bindings l @ zip (keys l) (values l))"

text \<open>
  Well-formed lists: the stored lengths are the lengths of the arrays, the key array covers
  the three value arrays, and no key occurs twice.
\<close>

definition large_ok :: "large_kv_element \<Rightarrow> bool" where
  "large_ok e \<longleftrightarrow> length (ele_data e) = unat (ele_len e) \<and> length (ele_data e) \<notin> {1, 2, 4}"

definition kv_lengths :: "key_value_list \<Rightarrow> bool" where
  "kv_lengths l \<longleftrightarrow>
     length (keys l) = unat (len_keys l) \<and> length (values8 l) = unat (len8 l) \<and>
     length (values16 l) = unat (len16 l) \<and> length (values32 l) = unat (len32 l) \<and>
     length (keys l) = length (values8 l) + length (values16 l) + length (values32 l) \<and>
     (\<forall>e \<in> set (head l). large_ok e)"

definition kv_ok :: "key_value_list \<Rightarrow> bool" where
  "kv_ok l \<longleftrightarrow> kv_lengths l \<and> distinct (keys l @ map ele_key (head l))"

text \<open>How many more fixed-size values the octet-sized counters can take.\<close>

definition kv_free :: "key_value_list \<Rightarrow> nat" where
  "kv_free l = 255 - length (keys l)"

lemma length_values: "kv_lengths l \<Longrightarrow> length (values l) = length (keys l)"
  by (simp add: values_def kv_lengths_def)

lemma length_bytes [simp]: "length (bytes16 w) = 2" "length (bytes32 v) = 4"
  by (simp_all add: bytes16_def bytes32_def)

lemma take_eq_nths: "n \<le> length bs \<Longrightarrow> take n bs = map ((!) bs) [0..<n]"
  by (rule nth_equalityI) auto

lemma bytes16_le16 [word_facts]: "bytes16 (le16 bs) = take 2 bs" if "2 \<le> length bs"
proof -
  have "ucast (le16 bs) = bs ! 0" "ucast (drop_bit 8 (le16 bs)) = bs ! 1"
    unfolding le16_def by (rule bit_word_eqI, auto simp: bit_simps bit_u8_ge)+
  with that take_eq_nths [of 2 bs] show ?thesis by (simp add: bytes16_def upt_rec)
qed

lemma bytes32_le32 [word_facts]: "bytes32 (le32 bs) = take 4 bs" if "4 \<le> length bs"
proof -
  have "ucast (le32 bs) = bs ! 0" "ucast (drop_bit 8 (le32 bs)) = bs ! 1"
    "ucast (drop_bit 16 (le32 bs)) = bs ! 2" "ucast (drop_bit 24 (le32 bs)) = bs ! 3"
    unfolding le32_def by (rule bit_word_eqI, auto simp: bit_simps bit_u8_ge)+
  with that take_eq_nths [of 4 bs] show ?thesis 
    by (simp add: bytes32_def upt_rec numeral_2_eq_2 numeral_3_eq_3)
qed

lemma fixed_value_ok:
  assumes "kv_lengths l" and "i < length (keys l)"
  shows "fixed_value l i = Inr (values l ! i, length (values l ! i))"
  using assms by (auto simp: fixed_value_def kv_lengths_def values_def nth_append)

lemma scan_keys_in:
  "i + n \<le> length ks \<Longrightarrow>
   scan_keys ks i n key = Inr (map_option ((+) i) (find_index (\<lambda>k. k = key) (take n (drop i ks))))"
  by (simp add: scan_keys_def scan_in)

lemma scan_all_keys: "n = length ks \<Longrightarrow> scan_keys ks 0 n key = Inr (find_index (\<lambda>k. k = key) ks)"
  by (simp add: scan_keys_def scan_all)

lemma scan_no_keys [simp]: "scan_keys ks i 0 key = Inr None"
  by (simp add: scan_keys_def)

lemma find_large:
  "find (\<lambda>e. ele_key e = key) es = None \<longleftrightarrow> map_of (map (\<lambda>e. (ele_key e, ele_data e)) es) key = None"
  "find (\<lambda>e. ele_key e = key) es = Some e \<Longrightarrow>
     map_of (map (\<lambda>e. (ele_key e, ele_data e)) es) key = Some (ele_data e) \<and> e \<in> set es"
  by (induction es) (auto split: if_splits)

lemma map_of_zip_find_index:
  "length ks = length vs \<Longrightarrow>
   map_of (zip ks vs) key = map_option ((!) vs) (find_index (\<lambda>k. k = key) ks)"
  by (induction ks vs rule: list_induct2) (auto simp: option.map_comp comp_def)

lemma Get_lookup:
  assumes "kv_ok l"
  shows "KeyValueList_Get (Some l) key = Inr (map_option (\<lambda>v. (v, length v)) (kv_lookup l key))"
proof (cases "find (\<lambda>e. ele_key e = key) (head l)")
  case None
  have len: "kv_lengths l" "unat (len_keys l) = length (keys l)"
    using assms by (auto simp: kv_ok_def kv_lengths_def)
  have "kv_lookup l key = map_option ((!) (values l)) (find_index (\<lambda>k. k = key) (keys l))"
    using None find_large(1) [of key "head l"] map_of_zip_find_index [OF length_values [OF len(1), symmetric]]
    by (auto simp: kv_lookup_def large_bindings_def map_add_def)
  moreover have "fixed_value l i = Inr (values l ! i, length (values l ! i))"
    if "find_index (\<lambda>k. k = key) (keys l) = Some i" for i
    using find_index_SomeD [OF that] len(1) by (intro fixed_value_ok) auto
  ultimately show ?thesis
    using None len(2)
    by (auto simp: KeyValueList_Get_def scan_all_keys split: option.splits)
next
  case (Some e)
  with find_large(2) [OF Some] assms show ?thesis
    by (auto simp: KeyValueList_Get_def kv_lookup_def large_bindings_def kv_ok_def kv_lengths_def
        large_ok_def map_add_def)
qed

lemma IsSet_lookup: "kv_ok l \<Longrightarrow> KeyValueList_IsSet (Some l) key = Inr (kv_lookup l key \<noteq> None)"
  by (simp add: KeyValueList_IsSet_def Get_lookup)

section \<open>Insertion\<close>

lemma lookup_None_iff:
  assumes "kv_lengths l"
  shows "kv_lookup l key = None \<longleftrightarrow> key \<notin> set (keys l) \<and> key \<notin> ele_key ` set (head l)"
  using length_values [OF assms]
  by (auto simp: kv_lookup_def large_bindings_def map_of_eq_None_iff map_add_None image_image
      set_zip_leftD map_of_zip_find_index find_index_None_iff)

lemma lookup_insert:
  assumes "kv_lengths l" and "kv_lookup l key = None"
    and "keys l' = insert_at i key (keys l)" "values l' = insert_at i v (values l)" "head l' = head l"
  shows "kv_lookup l' = (kv_lookup l)(key \<mapsto> v)"
proof -
  have new: "key \<notin> set (keys l)" "key \<notin> ele_key ` set (head l)"
    using assms(1,2) lookup_None_iff by auto
  have len: "length (keys l) = length (values l)" using length_values [OF assms(1)] by simp
  have "key \<notin> fst ` set (zip (keys l) (values l))" using new(1) by (auto dest: set_zip_leftD)
  then have "map_of (zip (keys l') (values l')) = (map_of (zip (keys l) (values l)))(key \<mapsto> v)"
    using assms(3,4) len by (simp add: zip_insert_at map_of_insert_at)
  moreover have "map_of (large_bindings l) key = None"
    using new(2) by (auto simp: large_bindings_def map_of_eq_None_iff)
  ultimately show ?thesis
    using assms(5)
    by (auto simp: kv_lookup_def large_bindings_def map_add_def fun_eq_iff split: option.splits)
qed

lemma unat_u8_Suc: "unat x < 255 \<Longrightarrow> unat (x + 1) = Suc (unat x)" for x :: u8
  by (subst unat_add_lem [THEN iffD1]) auto

lemma grow_ok [simp]: "grow (length xs) x xs = Inr (xs @ [x])"
  by (simp add: grow_def)

lemma open_key_gap_ok [simp]:
  "n = length ks \<Longrightarrow> i \<le> n \<Longrightarrow> open_key_gap n i key ks = Inr (insert_at i key ks)"
  by (simp add: open_key_gap_def)

lemma add_pair_ok:
  assumes "kv_ok l" and "0 < kv_free l" and "kv_lookup l key = None"
    and "length v < 65536"
  shows "\<exists>l'. keyValueList_addKeyValuePair l key v (length v) = Inr (l', True) \<and> kv_ok l' \<and>
    kv_lookup l' = (kv_lookup l)(key \<mapsto> v) \<and> kv_free l \<le> Suc (kv_free l')"
proof -
  have len: "kv_lengths l" using assms(1) by (simp add: kv_ok_def)
  then have new: "key \<notin> set (keys l)" "key \<notin> ele_key ` set (head l)"
    using assms(3) lookup_None_iff by auto
  have small: "length (keys l) < 255" using assms(2) by (simp add: kv_free_def)
  have u: "unat (len_keys l) = length (keys l)" "unat (len8 l) = length (values8 l)"
    "unat (len16 l) = length (values16 l)" "unat (len32 l) = length (values32 l)"
    "length (keys l) = length (values8 l) + length (values16 l) + length (values32 l)"
    using len by (auto simp: kv_lengths_def)
  have inc: "unat (len_keys l + 1) = Suc (length (keys l))"
    "unat (len8 l + 1) = Suc (length (values8 l))" "unat (len16 l + 1) = Suc (length (values16 l))"
    "unat (len32 l + 1) = Suc (length (values32 l))"
    using small u by (simp_all add: unat_u8_Suc)
  have fixed: ?thesis
    if add: "keyValueList_addKeyValuePair l key v (length v) = Inr (l', True)"
      and l': "values l' = insert_at i v (values l)" "keys l' = insert_at i key (keys l)"
        "head l' = head l" "kv_lengths l'" for l' i
  proof -
    have "kv_ok l'"
      using l' new assms(1)
      by (auto simp: kv_ok_def distinct_insert_at)
    moreover have "kv_free l \<le> Suc (kv_free l')" by (simp add: kv_free_def l'(2))
    ultimately show ?thesis using add lookup_insert [OF len assms(3) l'(2,1,3)] by blast
  qed
  consider "length v = 1" | "length v = 2" | "length v = 4" | "length v \<notin> {1, 2, 4}" by auto
  then show ?thesis
  proof cases
    case 1
    let ?l = "l\<lparr>values8 := values8 l @ [v ! 0], len8 := len8 l + 1,
      keys := insert_at (length (values8 l)) key (keys l), len_keys := len_keys l + 1\<rparr>"
    have "keyValueList_addKeyValuePair l key v (length v) = Inr (?l, True)"
      using 1 u by (simp add: keyValueList_addKeyValuePair_def)
    moreover have "values ?l = insert_at (length (values8 l)) v (values l)"
      using 1 by (cases v) (auto simp: values_def insert_at_def)
    ultimately show ?thesis
      by (rule fixed) (use u inc len in \<open>auto simp: kv_lengths_def\<close>)
  next
    case 2
    let ?l = "l\<lparr>values16 := values16 l @ [le16 v], len16 := len16 l + 1,
      keys := insert_at (length (values8 l) + length (values16 l)) key (keys l), len_keys := len_keys l + 1\<rparr>"
    have "keyValueList_addKeyValuePair l key v (length v) = Inr (?l, True)"
      using 2 u by (simp add: keyValueList_addKeyValuePair_def)
    moreover have "values ?l = insert_at (length (values8 l) + length (values16 l)) v (values l)"
      using 2 by (simp add: values_def insert_at_def bytes16_le16)
    ultimately show ?thesis
      by (rule fixed) (use u inc len in \<open>auto simp: kv_lengths_def\<close>)
  next
    case 3
    let ?l = "l\<lparr>values32 := values32 l @ [le32 v], len32 := len32 l + 1,
      keys := insert_at (length (values8 l) + length (values16 l) + length (values32 l)) key (keys l), len_keys := len_keys l + 1\<rparr>"
    have "keyValueList_addKeyValuePair l key v (length v) = Inr (?l, True)"
      using 3 u by (simp add: keyValueList_addKeyValuePair_def)
    moreover have "values ?l = insert_at (length (values8 l) + length (values16 l) + length (values32 l)) v (values l)"
      using 3 by (simp add: values_def insert_at_def bytes32_le32)
    ultimately show ?thesis
      by (rule fixed) (use u inc len in \<open>auto simp: kv_lengths_def\<close>)
  next
    case 4
    let ?l = "l\<lparr>head := \<lparr>ele_len = word_of_nat (length v), ele_key = key, ele_data = v\<rparr> # head l\<rparr>"
    have "kv_ok ?l"
      using assms(1,4) 4 new unat_of_nat_small [of "length v", where 'a = 16]
      by (auto simp: kv_ok_def kv_lengths_def large_ok_def)
    moreover have "kv_lookup ?l = (kv_lookup l)(key \<mapsto> v)"
      by (auto simp: kv_lookup_def large_bindings_def values_def)
    ultimately show ?thesis
      using 4 by (auto simp: keyValueList_addKeyValuePair_def kv_free_def)
  qed
qed

section \<open>Removal\<close>

lemma close_gap_ok: "n = length xs \<Longrightarrow> i < n \<Longrightarrow> close_gap b n i xs = Inr (remove_at i xs)"
  by (simp add: close_gap_def remove_at_def)

lemma remove_large_Some:
  assumes "remove_large key es = Some es'" and "distinct (map ele_key es)"
  shows "key \<in> ele_key ` set es \<and> set es' \<subseteq> set es \<and> distinct (map ele_key es') \<and>
    map_of (map (\<lambda>e. (ele_key e, ele_data e)) es') =
      (map_of (map (\<lambda>e. (ele_key e, ele_data e)) es))(key := None)"
  using assms
proof (induction es arbitrary: es')
  case Nil
  then show ?case by simp
next
  case (Cons e es)
  show ?case
  proof (cases "ele_key e = key")
    case True
    with Cons.prems have "map_of (map (\<lambda>e. (ele_key e, ele_data e)) es) key = None"
      by (auto simp: map_of_eq_None_iff)
    with True Cons.prems show ?thesis by (auto simp: fun_eq_iff)
  next
    case False
    with Cons.prems obtain r where "remove_large key es = Some r" "es' = e # r" by auto
    with Cons.IH [of r] Cons.prems False show ?thesis by (auto simp: fun_eq_iff)
  qed
qed

lemma remove_large_None: "remove_large key es = None \<longleftrightarrow> key \<notin> ele_key ` set es"
  by (induction es) auto

lemma lookup_remove:
  assumes "kv_lengths l" and "distinct (keys l)" and "keys l ! i \<notin> ele_key ` set (head l)"
    and "i < length (keys l)"
    and "keys l' = remove_at i (keys l)" "values l' = remove_at i (values l)" "head l' = head l"
  shows "kv_lookup l' = (kv_lookup l)(keys l ! i := None)"
proof -
  have len: "length (keys l) = length (values l)" using length_values [OF assms(1)] by simp
  have "map_of (zip (keys l') (values l')) = (map_of (zip (keys l) (values l)))(keys l ! i := None)"
    using assms(2,4-6) len map_of_remove_at [of i "zip (keys l) (values l)"]
    by (simp add: zip_remove_at)
  moreover have "map_of (large_bindings l) (keys l ! i) = None"
    using assms(3) by (auto simp: large_bindings_def map_of_eq_None_iff)
  ultimately show ?thesis
    using assms(7)
    by (auto simp: kv_lookup_def large_bindings_def map_add_def fun_eq_iff split: option.splits)
qed

lemma unat_u8_pred: "0 < unat x \<Longrightarrow> unat (x - 1) = unat x - 1" for x :: u8
  by (simp add: unat_minus_one unat_gt_0)

lemma Remove_fixed:
  assumes "kv_ok l" and "i < length (keys l)" and "keys l ! i = key"
  shows "\<exists>l'. KeyValueList_Remove b (Some l) key = Inr l' \<and> kv_lengths l' \<and>
    keys l' = remove_at i (keys l) \<and> values l' = remove_at i (values l) \<and> head l' = head l"
proof -
  have len: "kv_lengths l" and dist: "distinct (keys l)"
    and nolarge: "key \<notin> ele_key ` set (head l)"
    using assms nth_mem [OF assms(2)] by (auto simp: kv_ok_def)
  have u: "unat (len_keys l) = length (keys l)" "unat (len8 l) = length (values8 l)"
    "unat (len16 l) = length (values16 l)" "unat (len32 l) = length (values32 l)"
    "length (keys l) = length (values8 l) + length (values16 l) + length (values32 l)"
    using len by (auto simp: kv_lengths_def)
  have f: "find_index (\<lambda>k. k = key) (keys l) = Some i"
    using assms(2,3) dist by (auto simp: find_index_Some_iff nth_eq_iff_index_eq)
  have r: "remove_large key (head l) = None" using nolarge by (simp add: remove_large_None)
  have dec: "unat (len_keys l - 1) = length (keys l) - 1"
    using assms(2) u(1) by (subst unat_u8_pred) auto
  note rm = KeyValueList_Remove_def r scan_all_keys f close_gap_ok u
  consider "i < length (values8 l)"
    | "length (values8 l) \<le> i" "i - length (values8 l) < length (values16 l)"
    | "length (values8 l) + length (values16 l) \<le> i"
      "i - length (values8 l) - length (values16 l) < length (values32 l)"
    using assms(2) u(5) by linarith
  then show ?thesis
  proof cases
    case 1
    then have "unat (len8 l - 1) = length (values8 l) - 1" using u by (subst unat_u8_pred) auto
    with 1 len dec assms(2) show ?thesis
      by (simp add: rm kv_lengths_def values_def remove_at_append1 map_remove_at)
  next
    case 2
    then have "unat (len16 l - 1) = length (values16 l) - 1" using u by (subst unat_u8_pred) auto
    with 2 len dec assms(2) show ?thesis
      by (simp add: rm kv_lengths_def values_def remove_at_append1 remove_at_append2 map_remove_at)
  next
    case 3
    then have "unat (len32 l - 1) = length (values32 l) - 1" using u by (subst unat_u8_pred) auto
    moreover have "\<not> i - length (values8 l) < length (values16 l)" using 3(1) by simp
    ultimately show ?thesis using 3 len dec assms(2)
      by (simp add: rm kv_lengths_def values_def remove_at_append2 map_remove_at)
  qed
qed

lemma close_gap_independent: "close_gap b n i xs = close_gap c n i xs"
  by (simp add: close_gap_def)

lemma Remove_independent: "KeyValueList_Remove b l key = KeyValueList_Remove c l key"
  unfolding KeyValueList_Remove_def
  by (simp only: close_gap_independent [of "ucast b" _ _ _ "ucast c"] close_gap_independent [of b _ _ _ c])

lemma Remove_ok:
  assumes "kv_ok l"
  shows "\<exists>l'. KeyValueList_Remove b (Some l) key = Inr l' \<and> kv_ok l' \<and>
    kv_lookup l' = (kv_lookup l)(key := None) \<and> kv_free l \<le> kv_free l'"
proof (cases "remove_large key (head l)")
  case (Some es)
  have d: "distinct (map ele_key (head l))" "kv_lengths l" using assms by (simp_all add: kv_ok_def)
  note s = remove_large_Some [OF Some d(1)]
  have "key \<notin> set (keys l)" using assms s by (auto simp: kv_ok_def)
  then have "map_of (zip (keys l) (values l)) key = None"
    by (auto simp: map_of_eq_None_iff dest: set_zip_leftD)
  then have "kv_lookup (l\<lparr>head := es\<rparr>) = (kv_lookup l)(key := None)"
    using s by (auto simp: kv_lookup_def large_bindings_def map_add_def fun_eq_iff values_def
        split: option.splits)
  moreover have "kv_ok (l\<lparr>head := es\<rparr>)" using assms s by (auto simp: kv_ok_def kv_lengths_def)
  ultimately show ?thesis using Some by (simp add: KeyValueList_Remove_def kv_free_def)
next
  case None
  have len: "kv_lengths l" "unat (len_keys l) = length (keys l)" and dist: "distinct (keys l)"
    using assms by (auto simp: kv_ok_def kv_lengths_def)
  show ?thesis
  proof (cases "find_index (\<lambda>k. k = key) (keys l)")
    case none: None
    then have "kv_lookup l key = None"
      using None len lookup_None_iff by (auto simp: find_index_None_iff remove_large_None)
    with none None assms len(2) show ?thesis
      by (simp add: KeyValueList_Remove_def scan_all_keys fun_upd_idem)
  next
    case (Some i)
    then have i: "i < length (keys l)" "keys l ! i = key" by (auto dest: find_index_SomeD)
    from Remove_fixed [OF assms this] obtain l' where
      l': "KeyValueList_Remove b (Some l) key = Inr l'" "kv_lengths l'"
        "keys l' = remove_at i (keys l)" "values l' = remove_at i (values l)" "head l' = head l"
      by blast
    have nolarge: "keys l ! i \<notin> ele_key ` set (head l)"
      using None i(2) by (simp add: remove_large_None)
    have "kv_ok l'"
      using l' assms mset_set_remove_at [OF i(1) dist] by (auto simp: kv_ok_def)
    moreover have "kv_free l \<le> kv_free l'" using i(1) by (auto simp: kv_free_def l'(3))
    ultimately show ?thesis
      using l'(1) lookup_remove [OF len(1) dist nolarge i(1) l'(3-5)] i(2) by auto
  qed
qed

section \<open>The interface of a key-value store\<close>

text \<open>
  What the clients of the list rely on: a lookup sees the last value added, adding never
  replaces, removing forgets one key, and both keep the store well formed. \<open>free\<close> bounds
  the number of additions that are sure to succeed.
\<close>

locale kv_store =
  fixes get :: "'s \<Rightarrow> 'k \<Rightarrow> 'v option"
    and add :: "'s \<Rightarrow> 'k \<Rightarrow> 'v \<Rightarrow> ('s \<times> bool) res"
    and remove :: "'s \<Rightarrow> 'k \<Rightarrow> 's res"
    and ok :: "'s \<Rightarrow> bool" and fits :: "'v \<Rightarrow> bool" and free :: "'s \<Rightarrow> nat"
  assumes add_new: "ok s \<Longrightarrow> 0 < free s \<Longrightarrow> fits v \<Longrightarrow> get s k = None \<Longrightarrow>
      \<exists>s'. add s k v = Inr (s', True) \<and> ok s' \<and> get s' = (get s)(k \<mapsto> v) \<and> free s \<le> Suc (free s')"
    and add_old: "ok s \<Longrightarrow> get s k \<noteq> None \<Longrightarrow> add s k v = Inr (s, False)"
    and remove: "ok s \<Longrightarrow>
      \<exists>s'. remove s k = Inr s' \<and> ok s' \<and> get s' = (get s)(k := None) \<and> free s \<le> free s'"
begin

text \<open>Replacing a value: add, and on failure remove and add again.\<close>

lemma replace_ok:
  assumes "ok s" and "0 < free s" and "fits v"
  shows "\<exists>s'. res_bind (add s k v) (\<lambda>(s1, b). if b then Inr s1 else
      res_bind (remove s1 k) (\<lambda>s2. res_bind (add s2 k v) (\<lambda>(s3, b). if b then Inr s3 else Inl Panic)))
      = Inr s' \<and> ok s' \<and> get s' = (get s)(k \<mapsto> v)"
proof (cases "get s k")
  case None
  with add_new [OF assms] show ?thesis by force
next
  case (Some w)
  then have a: "add s k v = Inr (s, False)" by (intro add_old assms(1)) simp
  from remove [OF assms(1)] obtain s2 where s2: "remove s k = Inr s2" "ok s2"
      "get s2 = (get s)(k := None)" "free s \<le> free s2"
    by blast
  with assms(2) have "0 < free s2" by simp
  from add_new [OF s2(2) this assms(3), of k] s2(3) obtain s3 where
    "add s2 k v = Inr (s3, True)" "ok s3" "get s3 = (get s2)(k \<mapsto> v)"
    by auto
  with a s2(1,3) show ?thesis by simp
qed

end

definition kv_get :: "key_value_list \<Rightarrow> u16 \<Rightarrow> u8 list option" where
  "kv_get l k = (case KeyValueList_Get (Some l) k of
     Inr r \<Rightarrow> map_option (\<lambda>(v, n). take n v) r | Inl _ \<Rightarrow> None)"

definition kv_add :: "key_value_list \<Rightarrow> u16 \<Rightarrow> u8 list \<Rightarrow> (key_value_list \<times> bool) res" where
  "kv_add l k v = res_bind (KeyValueList_Add False (Some l) k v (length v)) (\<lambda>(l', b, _). Inr (l', b))"

lemma kv_get_ok: "kv_ok l \<Longrightarrow> kv_get l = kv_lookup l"
  by (auto simp: kv_get_def Get_lookup option.map_comp comp_def option.map_ident)

lemma Add_new:
  assumes "kv_ok l" and "0 < kv_free l" and "length v < 65536" and "kv_lookup l k = None"
  shows "\<exists>l'. KeyValueList_Add cb (Some l) k v (length v) =
      Inr (l', True, if cb then [(k, v, length v)] else []) \<and> kv_ok l' \<and>
    kv_lookup l' = (kv_lookup l)(k \<mapsto> v) \<and> kv_free l \<le> Suc (kv_free l')"
  using add_pair_ok [OF assms(1,2,4,3)] assms(1,4)
  by (auto simp: KeyValueList_Add_def IsSet_lookup)

lemma Add_old:
  "kv_ok l \<Longrightarrow> kv_lookup l k \<noteq> None \<Longrightarrow> KeyValueList_Add cb (Some l) k v n = Inr (l, False, [])"
  by (simp add: KeyValueList_Add_def IsSet_lookup)

interpretation kv: kv_store kv_get kv_add "\<lambda>l. KeyValueList_Remove b (Some l)" kv_ok
  "\<lambda>v. length v < 65536" kv_free
proof unfold_locales
  fix s k and v :: "u8 list"
  assume "kv_ok s" "0 < kv_free s" "length v < 65536" "kv_get s k = None"
  then show "\<exists>s'. kv_add s k v = Inr (s', True) \<and> kv_ok s' \<and> kv_get s' = (kv_get s)(k \<mapsto> v) \<and>
      kv_free s \<le> Suc (kv_free s')"
    using Add_new [of s v k False] by (auto simp: kv_add_def kv_get_ok)
next
  fix s k and v :: "u8 list"
  assume "kv_ok s" "kv_get s k \<noteq> None"
  then show "kv_add s k v = Inr (s, False)" by (simp add: kv_add_def kv_get_ok Add_old)
next
  fix s k
  assume "kv_ok s"
  then show "\<exists>s'. KeyValueList_Remove b (Some s) k = Inr s' \<and> kv_ok s' \<and>
      kv_get s' = (kv_get s)(k := None) \<and> kv_free s \<le> kv_free s'"
    using Remove_ok [of s b k] by (auto simp: kv_get_ok)
qed

section \<open>Merging\<close>

text \<open>One key of the merge, on a well-formed target that does not disagree.\<close>

lemma MergeKey_step:
  assumes "kv_ok t" and "0 < kv_free t" and "length v < 65536"
    and "kv_lookup t k = None \<or> kv_lookup t k = Some v"
  shows "\<exists>t' cs'. keyValueList_MergeKey cb r s k v (length v) (t, cs) = Inr (t', cs') \<and> kv_ok t' \<and>
     kv_lookup t' = (kv_lookup t)(k \<mapsto> v) \<and> kv_free t \<le> Suc (kv_free t')"
proof (cases "kv_lookup t k")
  case None
  with Add_new [OF assms(1-3) None, of cb] assms(1) show ?thesis
    by (auto simp: keyValueList_MergeKey_def Get_lookup)
next
  case (Some w)
  with assms(1,4) show ?thesis
    by (auto simp: keyValueList_MergeKey_def Get_lookup fun_upd_idem)
qed

lemma merge_loop:
  assumes "kv_ok t" and "length kvs \<le> kv_free t" and "distinct (map fst kvs)"
    and "\<forall>(k, v) \<in> set kvs. length v < 65536 \<and> (kv_lookup t k = None \<or> kv_lookup t k = Some v)"
  shows "\<exists>t' cs'. for_res (\<lambda>(k, v). keyValueList_MergeKey cb r s k v (length v)) kvs (t, cs) = Inr (t', cs') \<and>
    kv_ok t' \<and> kv_lookup t' = kv_lookup t ++ map_of kvs"
  using assms
proof (induction kvs arbitrary: t cs)
  case Nil
  then show ?case by simp
next
  case (Cons kv kvs)
  obtain k v where kv: "kv = (k, v)" by (cases kv)
  have "0 < kv_free t" "length v < 65536" "kv_lookup t k = None \<or> kv_lookup t k = Some v"
    using Cons.prems(2,4) kv by auto
  from MergeKey_step [OF Cons.prems(1) this, of cb r s cs] obtain t1 cs1 where
    t1: "keyValueList_MergeKey cb r s k v (length v) (t, cs) = Inr (t1, cs1)" "kv_ok t1"
      "kv_lookup t1 = (kv_lookup t)(k \<mapsto> v)" "kv_free t \<le> Suc (kv_free t1)"
    by blast
  have new: "k \<notin> fst ` set kvs" using Cons.prems(3) kv by simp
  then have "kv_lookup t1 k' = kv_lookup t k'" if "(k', w) \<in> set kvs" for k' w
    using that t1(3) by (auto simp: rev_image_eqI)
  then have agree: "\<forall>(k', w) \<in> set kvs. length w < 65536 \<and>
      (kv_lookup t1 k' = None \<or> kv_lookup t1 k' = Some w)"
    using Cons.prems(4) by fastforce
  have "length kvs \<le> kv_free t1" "distinct (map fst kvs)" using Cons.prems(2,3) t1(4) by auto
  from Cons.IH [OF t1(2) this agree, of cs1] obtain t' cs' where
    t': "for_res (\<lambda>(k, v). keyValueList_MergeKey cb r s k v (length v)) kvs (t1, cs1) = Inr (t', cs')"
    "kv_ok t'" "kv_lookup t' = kv_lookup t1 ++ map_of kvs"
    by blast
  have "map_of kvs k = None" using new by (simp add: map_of_eq_None_iff)
  then have "kv_lookup t1 ++ map_of kvs = kv_lookup t ++ map_of (kv # kvs)"
    using t1(3) kv by (auto simp: map_add_def fun_eq_iff split: option.splits)
  moreover have "for_res (\<lambda>(k, v). keyValueList_MergeKey cb r s k v (length v)) (kv # kvs) (t, cs) =
      Inr (t', cs')"
    using t'(1) t1(1) kv by simp
  ultimately show ?case using t'(2,3) by metis
qed

lemma Merge_loop:
  assumes "kv_ok s"
  shows "KeyValueList_Merge cb r (Some s) (Some t) =
    for_res (\<lambda>(k, v). keyValueList_MergeKey cb r s k v (length v))
      (large_bindings s @ zip (keys s) (values s)) (t, [])"
proof -
  have len: "kv_lengths s" "unat (len_keys s) = length (keys s)"
    "unat (len8 s) + unat (len16 s) + unat (len32 s) = length (keys s)"
    using assms by (auto simp: kv_ok_def kv_lengths_def)
  let ?m = "\<lambda>(k, v). keyValueList_MergeKey cb r s k v (length v)"
  have "for_res (\<lambda>e. keyValueList_MergeKey cb r s (ele_key e) (ele_data e) (unat (ele_len e)))
      (head s) x = for_res ?m (large_bindings s) x" for x
    using len(1)
    by (auto simp: large_bindings_def for_res_map kv_lengths_def large_ok_def intro!: for_res_cong)
  moreover have z: "zip (keys s) (values s) = map (\<lambda>i. (keys s ! i, values s ! i)) [0..<length (keys s)]"
    using length_values [OF len(1)] by (intro nth_equalityI) auto
  have "for_res (\<lambda>i ts. res_bind (array_get (keys s) i) (\<lambda>key.
             if unat (len8 s) + unat (len16 s) + unat (len32 s) \<le> i then Inl Panic
             else res_bind (fixed_value s i) (\<lambda>(v, n). keyValueList_MergeKey cb r s key v n ts)))
          [0..<unat (len_keys s)] = for_res ?m (zip (keys s) (values s))"
    unfolding z len(2,3)
    by (rule ext, unfold for_res_map) (rule for_res_cong, auto simp: fixed_value_ok [OF len(1)])
  ultimately show ?thesis
    by (simp add: KeyValueList_Merge_def for_res_append)
qed

section \<open>Lookup by size\<close>

lemma scan_section:
  assumes "distinct ks" and "i0 + n \<le> length ks"
  shows "scan_keys ks i0 n key = Inr (case find_index (\<lambda>k. k = key) ks of None \<Rightarrow> None
    | Some i \<Rightarrow> if i0 \<le> i \<and> i < i0 + n then Some i else None)"
proof (cases "find_index (\<lambda>k. k = key) (take n (drop i0 ks))")
  case None
  then have no: "key \<notin> set (take n (drop i0 ks))" by (auto simp: find_index_None_iff)
  have False if "find_index (\<lambda>k. k = key) ks = Some i" "i0 \<le> i" "i < i0 + n" for i
  proof -
    have "ks ! i = key" using that(1) by (auto dest: find_index_SomeD)
    then have "take n (drop i0 ks) ! (i - i0) = key" using that(2,3) assms(2) by simp
    moreover have "i - i0 < length (take n (drop i0 ks))" using that(2,3) assms(2) by simp
    ultimately show False using no by (metis nth_mem)
  qed
  then show ?thesis using None assms(2) by (auto simp: scan_keys_in split: option.splits)
next
  case (Some j)
  then have "j < n" "ks ! (i0 + j) = key" using assms(2) by (auto dest: find_index_SomeD)
  then have "find_index (\<lambda>k. k = key) ks = Some (i0 + j)"
    using assms by (auto simp: find_index_Some_iff nth_eq_iff_index_eq)
  then show ?thesis using Some assms(2) \<open>j < n\<close> by (simp add: scan_keys_in)
qed

lemma length_value_section:
  assumes "kv_lengths l" and "i < length (keys l)"
  shows "length (values l ! i) = (if i < length (values8 l) then 1
    else if i < length (values8 l) + length (values16 l) then 2 else 4)"
  using assms by (auto simp: values_def nth_append kv_lengths_def)

lemma lookup_fixed:
  assumes "kv_ok l" and "find_index (\<lambda>k. k = key) (keys l) = Some i"
  shows "kv_lookup l key = Some (values l ! i)" "i < length (keys l)"
    "find (\<lambda>e. ele_key e = key) (head l) = None"
proof -
  have i: "i < length (keys l)" "keys l ! i = key" using find_index_SomeD [OF assms(2)] by auto
  then have nolarge: "key \<notin> ele_key ` set (head l)"
    using assms(1) nth_mem [OF i(1)] by (auto simp: kv_ok_def)
  then show f: "find (\<lambda>e. ele_key e = key) (head l) = None" by (auto simp: find_None_iff)
  have len: "length (keys l) = length (values l)" using assms(1) length_values by (simp add: kv_ok_def)
  show "kv_lookup l key = Some (values l ! i)"
    using f find_large(1) [of key "head l"] map_of_zip_find_index [OF len, of key] assms(2)
    by (simp add: kv_lookup_def large_bindings_def map_add_def)
  show "i < length (keys l)" by (rule i(1))
qed

lemma lookup_not_fixed:
  assumes "kv_ok l" and "find_index (\<lambda>k. k = key) (keys l) = None"
  shows "kv_lookup l key = map_option ele_data (find (\<lambda>e. ele_key e = key) (head l))"
proof -
  have len: "length (keys l) = length (values l)" using assms(1) length_values by (simp add: kv_ok_def)
  show ?thesis
    using find_large [of key "head l"] map_of_zip_find_index [OF len, of key] assms(2)
    by (cases "find (\<lambda>e. ele_key e = key) (head l)")
      (auto simp: kv_lookup_def large_bindings_def map_add_def)
qed

lemma GetSized_lookup:
  assumes "kv_ok l"
  shows "KeyValueList_GetSized (Some l) k sz = (case kv_lookup l k of None \<Rightarrow> Inr None
    | Some v \<Rightarrow> if (if sz \<in> {1, 2, 4} then length v = sz else length v \<notin> {1, 2, 4})
               then Inr (Some v) else Inl Panic)"
proof -
  have len: "kv_lengths l" and dist: "distinct (keys l)"
    and large: "\<forall>e \<in> set (head l). length (ele_data e) \<notin> {1, 2, 4}"
    using assms by (auto simp: kv_ok_def kv_lengths_def large_ok_def)
  have u: "unat (len8 l) = length (values8 l)" "unat (len16 l) = length (values16 l)"
    "unat (len32 l) = length (values32 l)"
    "length (keys l) = length (values8 l) + length (values16 l) + length (values32 l)"
    using len by (auto simp: kv_lengths_def)
  note gs = KeyValueList_GetSized_def Let_def u scan_section [OF dist] IsSet_lookup [OF assms]
  show ?thesis
  proof (cases "find_index (\<lambda>k'. k' = k) (keys l)")
    case None
    have "ele_data e \<in> ele_data ` set (head l)" if "find (\<lambda>e. ele_key e = k) (head l) = Some e" for e
      using find_large(2) [OF that] by auto
    with None large show ?thesis
      using lookup_not_fixed [OF assms None]
      by (cases "find (\<lambda>e. ele_key e = k) (head l)") (auto simp: gs)
  next
    case (Some i)
    note f = lookup_fixed [OF assms Some]
    show ?thesis
      using Some f u length_value_section [OF len f(2)]
      by (auto simp: gs values_def nth_append)
  qed
qed

section \<open>Properties\<close>

definition kv_empty :: key_value_list where
  "kv_empty = \<lparr>len_keys = 0, len8 = 0, len16 = 0, len32 = 0, keys = [],
     values8 = [], values16 = [], values32 = [], head = []\<rparr>"

lemma kv_empty_ok [simp]: "kv_ok kv_empty" "kv_lookup kv_empty k = None" "kv_free kv_empty = 255"
  by (simp_all add: kv_empty_def kv_ok_def kv_lengths_def kv_lookup_def large_bindings_def kv_free_def)

text \<open>
  Adding a key: while the list has room, a key that is not set is added, the lookup
  finds exactly the octets stored, every other lookup is as before, the registered callback
  is called once, and the list stays well formed. A key that is set is refused and nothing
  changes.
\<close>

theorem kv_add_get:
  assumes "kv_ok l" and "0 < kv_free l" and "length v < 65536"
  shows "(KeyValueList_IsSet (Some l) k = Inr False \<longrightarrow>
      (\<exists>l'. KeyValueList_Add cb (Some l) k v (length v) =
              Inr (l', True, if cb then [(k, v, length v)] else []) \<and> kv_ok l' \<and>
            KeyValueList_Get (Some l') k = Inr (Some (v, length v)) \<and>
            (\<forall>j. j \<noteq> k \<longrightarrow> KeyValueList_Get (Some l') j = KeyValueList_Get (Some l) j))) \<and>
    (KeyValueList_IsSet (Some l) k = Inr True \<longrightarrow>
      KeyValueList_Add cb (Some l) k v (length v) = Inr (l, False, []))"
  using Add_new [OF assms, of k cb] Add_old [OF assms(1), of k cb v "length v"] assms(1)
  by (auto simp: IsSet_lookup Get_lookup)

theorem kv_add_get_witness:
  "\<exists>l'. KeyValueList_Add True (Some kv_empty) 7 [1, 2] 2 = Inr (l', True, [(7, [1, 2], 2)]) \<and>
     KeyValueList_Get (Some l') 7 = Inr (Some ([1, 2], 2))"
proof -
  have "KeyValueList_IsSet (Some kv_empty) 7 = Inr False" by (simp add: IsSet_lookup)
  with kv_add_get [of kv_empty "[1, 2]" 7 True] show ?thesis by (auto simp: numeral_2_eq_2)
qed

text \<open>
  Removing a key: on a well-formed list the removal succeeds, exactly that key is
  forgotten, the list stays well formed, and the result does not depend on the memory
  behind the arrays although each \<open>memmove\<close> reads one element of it.
\<close>

theorem kv_remove_get:
  assumes "kv_ok l"
  shows "\<exists>l'. (\<forall>beyond. KeyValueList_Remove beyond (Some l) k = Inr l') \<and> kv_ok l' \<and>
    (\<forall>j. KeyValueList_Get (Some l') j =
           (if j = k then Inr None else KeyValueList_Get (Some l) j))"
proof -
  have same: "KeyValueList_Remove b (Some l) k = KeyValueList_Remove 0 (Some l) k" for b
    by (rule Remove_independent)
  from Remove_ok [OF assms, of 0 k] obtain l' where
    "KeyValueList_Remove 0 (Some l) k = Inr l'" "kv_ok l'" "kv_lookup l' = (kv_lookup l)(k := None)"
    by blast
  with same assms show ?thesis by (auto simp: Get_lookup)
qed

theorem kv_remove_get_witness:
  "\<exists>l'. (\<forall>beyond. KeyValueList_Remove beyond
            (Some (kv_empty\<lparr>len8 := 2, len_keys := 2, keys := [5, 6], values8 := [50, 60]\<rparr>)) 5 = Inr l') \<and>
     KeyValueList_Get (Some l') 5 = Inr None"
proof -
  have "kv_ok (kv_empty\<lparr>len8 := 2, len_keys := 2, keys := [5, 6], values8 := [50, 60]\<rparr>)"
    by (simp add: kv_ok_def kv_lengths_def kv_empty_def)
  from kv_remove_get [OF this, of 5] show ?thesis by auto
qed

lemma large_value_small: "kv_lengths s \<Longrightarrow> (k, v) \<in> set (large_bindings s) \<Longrightarrow> length v < 65536"
  using unat_u16_less by (auto simp: large_bindings_def kv_lengths_def large_ok_def)

lemma fixed_value_small: "(k, v) \<in> set (zip ks (values s)) \<Longrightarrow> length v < 65536"
  by (auto simp: values_def dest!: set_zip_rightD)

lemma distinct_bindings: "kv_ok s \<Longrightarrow> distinct (map fst (large_bindings s @ zip (keys s) (values s)))"
  using length_values [of s] by (auto simp: kv_ok_def large_bindings_def comp_def)

text \<open>
  Merging: when no key is bound to different values in the two lists and the target
  has room for all of the source, the merge succeeds without the conflict callback, and a
  lookup in the merged list finds the source's binding if there is one and the target's
  otherwise.
\<close>

theorem kv_merge_get:
  assumes "kv_ok s" and "kv_ok t"
    and "length (keys s) + length (head s) \<le> kv_free t"
    and "\<forall>k v w. KeyValueList_Get (Some s) k = Inr (Some v) \<longrightarrow>
            KeyValueList_Get (Some t) k = Inr (Some w) \<longrightarrow> v = w"
  shows "\<exists>t' calls. KeyValueList_Merge cb None (Some s) (Some t) = Inr (t', calls) \<and> kv_ok t' \<and>
    (\<forall>k. KeyValueList_Get (Some t') k =
      (if KeyValueList_IsSet (Some s) k = Inr True then KeyValueList_Get (Some s) k
       else KeyValueList_Get (Some t) k))"
proof -
  let ?kvs = "large_bindings s @ zip (keys s) (values s)"
  have len: "kv_lengths s" using assms(1) by (simp add: kv_ok_def)
  have d: "distinct (map fst ?kvs)" using assms(1) by (rule distinct_bindings)
  have "length v < 65536 \<and> (kv_lookup t k = None \<or> kv_lookup t k = Some v)"
    if "(k, v) \<in> set ?kvs" for k v
  proof -
    have "kv_lookup s k = Some v"
      unfolding kv_lookup_def using d that by (rule map_of_is_SomeI)
    then show ?thesis
      using that assms(1,2,4) large_value_small [OF len] fixed_value_small
      by (cases "kv_lookup t k") (fastforce simp: Get_lookup)+
  qed
  moreover have "length ?kvs \<le> kv_free t"
    using assms(3) length_values [OF len] by (simp add: large_bindings_def)
  ultimately obtain t' calls where "for_res (\<lambda>(k, v). keyValueList_MergeKey cb None s k v (length v))
      ?kvs (t, []) = Inr (t', calls)" "kv_ok t'" "kv_lookup t' = kv_lookup t ++ kv_lookup s"
    using merge_loop [OF assms(2) _ d, of cb None s "[]"] by (auto simp: kv_lookup_def)
  then show ?thesis
    using assms(1,2)
    by (auto simp: Merge_loop Get_lookup IsSet_lookup map_add_def split: option.splits)
qed

theorem kv_merge_get_witness:
  "\<exists>t' calls. KeyValueList_Merge True None
       (Some (kv_empty\<lparr>len8 := 2, len_keys := 2, keys := [5, 6], values8 := [50, 60]\<rparr>))
       (Some kv_empty) = Inr (t', calls) \<and>
     KeyValueList_Get (Some t') 6 =
       KeyValueList_Get (Some (kv_empty\<lparr>len8 := 2, len_keys := 2, keys := [5, 6], values8 := [50, 60]\<rparr>)) 6"
proof -
  let ?s = "kv_empty\<lparr>len8 := 2, len_keys := 2, keys := [5, 6], values8 := [50, 60]\<rparr>"
  have ok: "kv_ok ?s" by (simp add: kv_ok_def kv_lengths_def kv_empty_def)
  have "length (keys ?s) + length (head ?s) \<le> kv_free kv_empty" by (simp add: kv_empty_def kv_free_def)
  from kv_merge_get [OF ok _ this, of True] show ?thesis
    using ok by (auto simp: Get_lookup IsSet_lookup)
qed

text \<open>
  The octet counter wraps: with 255 fixed-size values stored, one more one-octet value
  is still accepted, and afterwards the list finds none of its 256 fixed-size keys.
\<close>

theorem kv_counter_wraps:
  assumes "kv_ok l" and "length (keys l) = 255" and "KeyValueList_IsSet (Some l) k = Inr False"
  shows "\<exists>l'. KeyValueList_Add cb (Some l) k [b] 1 = Inr (l', True, if cb then [(k, [b], 1)] else []) \<and>
    (\<forall>j. j \<in> set (k # keys l) \<longrightarrow> KeyValueList_Get (Some l') j = Inr None)"
proof -
  have u: "unat (len_keys l) = 255" "unat (len8 l) = length (values8 l)" "length (values8 l) \<le> 255"
    using assms(1,2) by (auto simp: kv_ok_def kv_lengths_def)
  then have "len_keys l = 255" by (simp add: word_unat_eq_iff)
  moreover have "find (\<lambda>e. ele_key e = j) (head l) = None" if "j \<in> set (k # keys l)" for j
    using assms(1,3) that lookup_None_iff [of l k]
    by (auto simp: find_None_iff kv_ok_def IsSet_lookup)
  ultimately show ?thesis
    using assms(3) u assms(2)
    by (auto simp: KeyValueList_Add_def keyValueList_addKeyValuePair_def KeyValueList_Get_def)
qed

definition kv_full :: key_value_list where
  "kv_full = kv_empty\<lparr>len8 := 255, len_keys := 255, keys := map word_of_nat [0..<255],
     values8 := replicate 255 9\<rparr>"

lemma kv_full_ok: "kv_ok kv_full"
proof -
  have "distinct (map (word_of_nat :: nat \<Rightarrow> u16) [0..<255])"
    by (auto simp: distinct_map inj_on_def word_unat_eq_iff unat_of_nat_small)
  then show ?thesis by (simp add: kv_full_def kv_ok_def kv_lengths_def kv_empty_def)
qed

theorem kv_counter_wraps_witness:
  "\<exists>l'. KeyValueList_Add False (Some kv_full) 300 [1] 1 = Inr (l', True, []) \<and>
     KeyValueList_Get (Some l') 300 = Inr None \<and> KeyValueList_Get (Some l') 0 = Inr None"
proof -
  have "300 \<notin> set (keys kv_full)"
    by (auto simp: kv_full_def word_unat_eq_iff unat_of_nat_small)
  then have "KeyValueList_IsSet (Some kv_full) 300 = Inr False"
    using kv_full_ok lookup_None_iff [of kv_full 300]
    by (simp add: IsSet_lookup kv_ok_def) (simp add: kv_full_def kv_empty_def)
  moreover have "length (keys kv_full) = 255" "0 \<in> set (keys kv_full)"
    by (auto simp: kv_full_def intro: image_eqI [of _ _ 0])
  ultimately show ?thesis
    using kv_counter_wraps [of kv_full 300 False 1] kv_full_ok by auto
qed

end
