(* ===== verification/Device.thy ===== *)
theory Device
  imports Key_Value_List
begin

text \<open>
  A device (\<^verbatim>\<open>adk/src/libs/device/device.c\<close>) is a key-value list of properties. The two
  globals are the handler told about new properties and whether the key-value list calls
  back. Every setter returns the device, its result and the handler calls it caused.
  Pointers are 32-bit words; \<open>beyond\<close> is the memory behind the arrays that a removal reads.
\<close>

section \<open>Model\<close>

record device_globals =
  onPropertySetHandler :: "nat option"
  kv_add_callback :: bool

definition device_KeyValueAddedCallback :: "device_globals \<Rightarrow> kv_call \<Rightarrow> (nat \<times> kv_call) list" where
  "device_KeyValueAddedCallback g c =
     (case onPropertySetHandler g of Some h \<Rightarrow> [(h, c)] | None \<Rightarrow> [])"

type_synonym device_set = "key_value_list \<times> bool \<times> (nat \<times> kv_call) list"

definition device_Add ::
  "device_globals \<Rightarrow> key_value_list option \<Rightarrow> u16 \<Rightarrow> u8 list \<Rightarrow> nat \<Rightarrow> device_set res" where
  "device_Add g device pid value sz =
     res_bind (KeyValueList_Add (kv_add_callback g) device pid value sz) (\<lambda>(d, ok, cs).
       Inr (d, ok, concat (map (device_KeyValueAddedCallback g) cs)))"

definition Device_RemoveProperty :: "u32 \<Rightarrow> key_value_list option \<Rightarrow> u16 \<Rightarrow> key_value_list res" where
  "Device_RemoveProperty beyond device pid = KeyValueList_Remove beyond device pid"

text \<open>\<open>&value\<close> points to a \<open>uint32\<close>, of which the first \<open>sz\<close> octets are stored.\<close>

definition device_UpdatePropertyIfExistingHelper ::
  "device_globals \<Rightarrow> u32 \<Rightarrow> key_value_list option \<Rightarrow> u16 \<Rightarrow> u32 \<Rightarrow> nat \<Rightarrow> device_set res" where
  "device_UpdatePropertyIfExistingHelper g beyond device pid value sz =
     res_bind (device_Add g device pid (bytes32 value) sz) (\<lambda>(d, ok, ev).
       if \<not> ok then
         res_bind (Device_RemoveProperty beyond (Some d) pid) (\<lambda>d1.
         res_bind (device_Add g (Some d1) pid (bytes32 value) sz) (\<lambda>(d2, ok2, ev2).
           if \<not> ok2 then Inl Panic else Inr (d2, True, ev @ ev2)))
       else Inr (d, True, ev))"

definition Device_Create :: "key_value_list option" where
  "Device_Create = KeyValueList_Create"

definition Device_Destroy :: "key_value_list option option \<Rightarrow> key_value_list option res" where
  "Device_Destroy device = KeyValueList_Destroy device"

definition Device_IsPropertySet :: "key_value_list option \<Rightarrow> u16 \<Rightarrow> bool res" where
  "Device_IsPropertySet device pid = KeyValueList_IsSet device pid"

definition Device_SetProperty ::
  "device_globals \<Rightarrow> u32 \<Rightarrow> key_value_list option \<Rightarrow> u16 \<Rightarrow> u8 list \<Rightarrow> nat \<Rightarrow> device_set res" where
  "Device_SetProperty g beyond device pid value sz =
     res_bind (device_Add g device pid value sz) (\<lambda>(d, ok, ev).
       if \<not> ok then
         res_bind (Device_RemoveProperty beyond (Some d) pid) (\<lambda>d1.
         res_bind (device_Add g (Some d1) pid value sz) (\<lambda>(d2, ok2, ev2).
         res_bind (panic_unless ok2) (\<lambda>_. Inr (d2, True, ev @ ev2))))
       else Inr (d, True, ev))"

definition Device_GetProperty :: "key_value_list option \<Rightarrow> u16 \<Rightarrow> (u8 list \<times> nat) option res" where
  "Device_GetProperty device pid = KeyValueList_Get device pid"

definition Device_GetPropertySized :: "key_value_list option \<Rightarrow> u16 \<Rightarrow> nat \<Rightarrow> u8 list option res" where
  "Device_GetPropertySized device pid sz = KeyValueList_GetSized device pid sz"

definition Device_SetPropertyPtr ::
  "device_globals \<Rightarrow> key_value_list option \<Rightarrow> u16 \<Rightarrow> u32 \<Rightarrow> device_set res" where
  "Device_SetPropertyPtr g device pid value = device_Add g device pid (bytes32 value) 4"

definition Device_GetPropertyPtr :: "key_value_list option \<Rightarrow> u16 \<Rightarrow> u32 res" where
  "Device_GetPropertyPtr device pid =
     res_bind (KeyValueList_GetSized device pid 4) (\<lambda>r.
       Inr (case r of Some v \<Rightarrow> le32 v | None \<Rightarrow> 0))"

definition Device_SetPropertyU32 ::
  "device_globals \<Rightarrow> u32 \<Rightarrow> key_value_list option \<Rightarrow> u16 \<Rightarrow> u32 \<Rightarrow> device_set res" where
  "Device_SetPropertyU32 g beyond device pid value =
     device_UpdatePropertyIfExistingHelper g beyond device pid value 4"

definition Device_GetPropertyU32 :: "key_value_list option \<Rightarrow> u16 \<Rightarrow> u32 option res" where
  "Device_GetPropertyU32 device pid =
     res_bind (KeyValueList_GetSized device pid 4) (\<lambda>r. Inr (map_option le32 r))"

definition Device_SetPropertyU16 ::
  "device_globals \<Rightarrow> u32 \<Rightarrow> key_value_list option \<Rightarrow> u16 \<Rightarrow> u16 \<Rightarrow> device_set res" where
  "Device_SetPropertyU16 g beyond device pid value =
     device_UpdatePropertyIfExistingHelper g beyond device pid (ucast value) 2"

definition Device_GetPropertyU16 :: "key_value_list option \<Rightarrow> u16 \<Rightarrow> u16 option res" where
  "Device_GetPropertyU16 device pid =
     res_bind (KeyValueList_GetSized device pid 2) (\<lambda>r. Inr (map_option le16 r))"

definition Device_SetPropertyU8 ::
  "device_globals \<Rightarrow> u32 \<Rightarrow> key_value_list option \<Rightarrow> u16 \<Rightarrow> u8 \<Rightarrow> device_set res" where
  "Device_SetPropertyU8 g beyond device pid value =
     device_UpdatePropertyIfExistingHelper g beyond device pid (ucast value) 1"

definition Device_GetPropertyU8 :: "key_value_list option \<Rightarrow> u16 \<Rightarrow> u8 option res" where
  "Device_GetPropertyU8 device pid =
     res_bind (KeyValueList_GetSized device pid 1) (\<lambda>r. Inr (map_option (\<lambda>v. v ! 0) r))"

definition Device_RegisterOnPropertySetHandler ::
  "device_globals \<Rightarrow> nat option \<Rightarrow> device_globals res" where
  "Device_RegisterOnPropertySetHandler g handler =
     (if onPropertySetHandler g \<noteq> None \<and> handler \<noteq> None then Inl Panic
      else Inr (g\<lparr>onPropertySetHandler := handler,
                 kv_add_callback := KeyValueList_RegisterAddCallback True\<rparr>))"

definition Device_Merge ::
  "device_globals \<Rightarrow> merge_resolve_callback option \<Rightarrow> key_value_list option \<Rightarrow> key_value_list option \<Rightarrow>
   (key_value_list \<times> (nat \<times> kv_call) list) res" where
  "Device_Merge g resolve source target =
     res_bind (KeyValueList_Merge (kv_add_callback g) resolve source target) (\<lambda>(t, cs).
       Inr (t, concat (map (device_KeyValueAddedCallback g) cs)))"

section \<open>Setting and reading a property\<close>

lemma add_pair_takes:
  "n \<le> length w \<Longrightarrow>
   keyValueList_addKeyValuePair l k w n = keyValueList_addKeyValuePair l k (take n w) n"
  by (auto simp: keyValueList_addKeyValuePair_def le16_def le32_def)

lemma device_Add_res:
  assumes "n \<le> length w"
  shows "device_Add g (Some d) k w n =
     res_bind (kv_add d k (take n w)) (\<lambda>(d', ok). Inr (d', ok,
       if ok \<and> kv_add_callback g then device_KeyValueAddedCallback g (k, w, n) else []))"
  using assms add_pair_takes [OF assms, of d k]
  by (cases "KeyValueList_IsSet (Some d) k"; cases "keyValueList_addKeyValuePair d k (take n w) n")
    (auto simp: device_Add_def kv_add_def KeyValueList_Add_def min_absorb2 split: prod.splits)

lemma SetProperty_ok:
  assumes "kv_ok d" and "0 < kv_free d" and "n < 65536" and "n \<le> length w"
  shows "\<exists>d' ev. Device_SetProperty g b (Some d) k w n = Inr (d', True, ev) \<and> kv_ok d' \<and>
    kv_lookup d' = (kv_lookup d)(k \<mapsto> take n w)"
proof -
  have "length (take n w) < 65536" using assms(3,4) by simp
  from kv.replace_ok [OF assms(1,2) this, of k b] obtain d' where
    r: "res_bind (kv_add d k (take n w)) (\<lambda>(s1, ok). if ok then Inr s1 else
      res_bind (KeyValueList_Remove b (Some s1) k) (\<lambda>s2. res_bind (kv_add s2 k (take n w)) (\<lambda>(s3, ok).
        if ok then Inr s3 else Inl Panic))) = Inr d'"
    and d': "kv_ok d'" "kv_get d' = (kv_get d)(k \<mapsto> take n w)"
    by blast
  from r obtain s1 ok where a: "kv_add d k (take n w) = Inr (s1, ok)" by (auto simp: res_simps)
  have "\<exists>ev. Device_SetProperty g b (Some d) k w n = Inr (d', True, ev)"
  proof (cases ok)
    case True
    with r a assms(4) show ?thesis by (simp add: Device_SetProperty_def device_Add_res)
  next
    case False
    with r a obtain s2 s3 where "KeyValueList_Remove b (Some s1) k = Inr s2"
        "kv_add s2 k (take n w) = Inr (s3, True)" "d' = s3"
      by (auto simp: res_simps split: if_splits)
    with False a assms(4) show ?thesis
      by (simp add: Device_SetProperty_def device_Add_res Device_RemoveProperty_def)
  qed
  with d' assms(1) show ?thesis by (auto simp: kv_get_ok)
qed

lemma panic_unless_if: "res_bind (panic_unless ok) (\<lambda>_. x) = (if \<not> ok then Inl Panic else x)"
  by simp

lemma Update_SetProperty:
  "device_UpdatePropertyIfExistingHelper g b d k value n = Device_SetProperty g b d k (bytes32 value) n"
  by (simp only: device_UpdatePropertyIfExistingHelper_def Device_SetProperty_def panic_unless_if)

section \<open>Typed values\<close>

lemma le32_bytes32 [word_facts]: "le32 (bytes32 x) = x"
proof (rule bit_word_eqI)
  fix n
  assume "n < LENGTH(32)"
  then show "bit (le32 (bytes32 x)) n = bit x n"
    unfolding le32_def bytes32_def
    by (cases "n < 8"; cases "n < 16"; cases "n < 24") (auto simp: bit_simps numeral_2_eq_2 numeral_3_eq_3)
qed

lemma le16_bytes32 [word_facts]: "le16 (take 2 (bytes32 (ucast x))) = x" for x :: u16
  unfolding le16_def bytes32_def by (rule bit_word_eqI) (auto simp: bit_simps)

lemma u8_bytes32 [word_facts]: "bytes32 (ucast x) ! 0 = x" for x :: u8
  unfolding bytes32_def by (rule bit_word_eqI) (auto simp: bit_simps)

lemmas device_readers = Device_GetPropertyU8_def Device_GetPropertyU16_def Device_GetPropertyU32_def
  GetSized_lookup

lemmas device_writers = Device_SetPropertyU8_def Device_SetPropertyU16_def Device_SetPropertyU32_def
  Update_SetProperty

section \<open>Properties\<close>

text \<open>
  Setting a property replaces: on a well-formed device with room, setting a property of
  any size succeeds whether or not it was set before, a read returns the new octets and
  their number, and all other properties keep their values.
\<close>

theorem device_set_get:
  assumes "kv_ok d" and "0 < kv_free d" and "length v < 65536"
  shows "\<exists>d' ev. Device_SetProperty g b (Some d) k v (length v) = Inr (d', True, ev) \<and> kv_ok d' \<and>
    (\<forall>j. Device_GetProperty (Some d') j =
      (if j = k then Inr (Some (v, length v)) else Device_GetProperty (Some d) j))"
  using SetProperty_ok [OF assms, of v g b k] assms(1)
  by (auto simp: Device_GetProperty_def Get_lookup)

theorem device_set_get_witness:
  "\<exists>d' ev. Device_SetProperty \<lparr>onPropertySetHandler = Some 3, kv_add_callback = True\<rparr> 99
      (Some (kv_empty\<lparr>len8 := 2, len_keys := 2, keys := [5, 6], values8 := [50, 60]\<rparr>)) 5 [1, 2, 3] 3 =
      Inr (d', True, ev) \<and> Device_GetProperty (Some d') 5 = Inr (Some ([1, 2, 3], 3))"
proof -
  let ?d = "kv_empty\<lparr>len8 := 2, len_keys := 2, keys := [5, 6], values8 := [50, 60]\<rparr>"
  have "kv_ok ?d" "0 < kv_free ?d" by (simp_all add: kv_ok_def kv_lengths_def kv_empty_def kv_free_def)
  from device_set_get [OF this, of "[1, 2, 3]" "\<lparr>onPropertySetHandler = Some 3, kv_add_callback = True\<rparr>" 99 5]
  show ?thesis by (auto simp: numeral_3_eq_3)
qed

text \<open>
  Typed properties: a value set with the 8, 16 or 32 bit setter is read back by the
  getter of the same width, and reading it with a getter of another width panics.
\<close>

theorem device_typed_roundtrip:
  assumes "kv_ok d" and "0 < kv_free d"
  shows "\<exists>d1 e1 d2 e2 d4 e4.
    Device_SetPropertyU8 g b (Some d) k x8 = Inr (d1, True, e1) \<and>
      Device_GetPropertyU8 (Some d1) k = Inr (Some x8) \<and> Device_GetPropertyU16 (Some d1) k = Inl Panic \<and>
    Device_SetPropertyU16 g b (Some d) k x16 = Inr (d2, True, e2) \<and>
      Device_GetPropertyU16 (Some d2) k = Inr (Some x16) \<and> Device_GetPropertyU32 (Some d2) k = Inl Panic \<and>
    Device_SetPropertyU32 g b (Some d) k x32 = Inr (d4, True, e4) \<and>
      Device_GetPropertyU32 (Some d4) k = Inr (Some x32) \<and> Device_GetPropertyU8 (Some d4) k = Inl Panic"
proof -
  have set: "\<exists>d' ev. Device_SetProperty g b (Some d) k (bytes32 x) n = Inr (d', True, ev) \<and> kv_ok d' \<and>
      kv_lookup d' k = Some (take n (bytes32 x))" if "n \<le> 4" for x n
    using SetProperty_ok [OF assms, of n "bytes32 x" g b k] that by auto
  obtain d1 e1 where 1: "Device_SetProperty g b (Some d) k (bytes32 (ucast x8)) 1 = Inr (d1, True, e1)"
      "kv_ok d1" "kv_lookup d1 k = Some (take 1 (bytes32 (ucast x8)))"
    using set [of 1 "ucast x8"] by auto
  obtain d2 e2 where 2: "Device_SetProperty g b (Some d) k (bytes32 (ucast x16)) 2 = Inr (d2, True, e2)"
      "kv_ok d2" "kv_lookup d2 k = Some (take 2 (bytes32 (ucast x16)))"
    using set [of 2 "ucast x16"] by auto
  obtain d4 e4 where 4: "Device_SetProperty g b (Some d) k (bytes32 x32) 4 = Inr (d4, True, e4)"
      "kv_ok d4" "kv_lookup d4 k = Some (take 4 (bytes32 x32))"
    using set [of 4 x32] by auto
  show ?thesis
    using 1 2 4 by (auto simp: device_readers device_writers word_facts)
qed

theorem device_typed_roundtrip_witness:
  "\<exists>d2 e2. Device_SetPropertyU16 \<lparr>onPropertySetHandler = None, kv_add_callback = True\<rparr> 0
      (Some kv_empty) 7 0xABCD = Inr (d2, True, e2) \<and>
    Device_GetPropertyU16 (Some d2) 7 = Inr (Some 0xABCD) \<and> Device_GetPropertyU32 (Some d2) 7 = Inl Panic"
  using device_typed_roundtrip [of kv_empty "\<lparr>onPropertySetHandler = None, kv_add_callback = True\<rparr>" 0 7 0
      "0xABCD" 0]
  by (simp del: One_nat_def) blast

end
