(* ===== verification/Device_List.thy ===== *)
theory Device_List
  imports Device
begin

text \<open>
  The list of trusted devices (\<^verbatim>\<open>adk/src/libs/device_list/device_list.c\<close>): an array of
  device handles whose empty slots are \<open>0\<close>. The properties of a device are found through
  \<open>heap\<close>, which maps a handle to its key-value list.
\<close>

section \<open>Model\<close>

record device_list_state =
  device_list :: "nat list option"
  trusted_device_list :: u8

type_synonym device_heap = "nat \<Rightarrow> key_value_list option"

text \<open>The array; through \<open>NULL\<close> every access is out of bounds.\<close>

definition slots :: "device_list_state \<Rightarrow> nat list" where
  "slots s = (case device_list s of None \<Rightarrow> [] | Some a \<Rightarrow> a)"

definition num_slots :: "device_list_state \<Rightarrow> nat" where
  "num_slots s = unat (trusted_device_list s)"

definition DeviceList_Init :: "device_list_state \<Rightarrow> u8 \<Rightarrow> device_list_state res" where
  "DeviceList_Init s num_devices =
     (if device_list s \<noteq> None then Inl Panic
      else Inr (s\<lparr>trusted_device_list := num_devices,
                 device_list := Some (replicate (unat num_devices) 0)\<rparr>))"

definition DeviceList_GetNumOfDevices :: "device_list_state \<Rightarrow> nat res" where
  "DeviceList_GetNumOfDevices s =
     for_res (\<lambda>i count. res_bind (array_get (slots s) i) (\<lambda>d. Inr (if d \<noteq> 0 then count + 1 else count)))
       [0..<num_slots s] 0"

definition DeviceList_RemoveAllDevices :: "device_list_state \<Rightarrow> device_list_state res" where
  "DeviceList_RemoveAllDevices s =
     res_bind
       (for_res (\<lambda>i a. res_bind (array_get a i) (\<lambda>d. if d \<noteq> 0 then array_set a i 0 else Inr a))
          [0..<num_slots s] (slots s))
       (\<lambda>_. Inr (s\<lparr>device_list := None\<rparr>))"

definition DeviceList_AddDevice :: "device_list_state \<Rightarrow> nat \<Rightarrow> (device_list_state \<times> bool) res" where
  "DeviceList_AddDevice s device =
     res_bind (scan (\<lambda>d. d = 0 \<or> d = device) (slots s) 0 (num_slots s)) (\<lambda>r. case r of
       Some i \<Rightarrow>
         if slots s ! i = 0 then
           res_bind (array_set (slots s) i device) (\<lambda>a. Inr (s\<lparr>device_list := Some a\<rparr>, True))
         else Inr (s, False)
     | None \<Rightarrow> Inr (s, False))"

definition DeviceList_RemoveDevice :: "device_list_state \<Rightarrow> nat \<Rightarrow> device_list_state res" where
  "DeviceList_RemoveDevice s device =
     res_bind (scan (\<lambda>d. d = device) (slots s) 0 (num_slots s)) (\<lambda>r. case r of
       Some i \<Rightarrow> res_bind (array_set (slots s) i 0) (\<lambda>a. Inr (s\<lparr>device_list := Some a\<rparr>))
     | None \<Rightarrow> Inr s)"

definition DeviceList_IsDeviceOnList :: "device_list_state \<Rightarrow> nat \<Rightarrow> bool res" where
  "DeviceList_IsDeviceOnList s device =
     (if device = 0 then Inr False
      else res_bind (scan (\<lambda>d. d = device) (slots s) 0 (num_slots s)) (\<lambda>r. Inr (r \<noteq> None)))"

text \<open>
  The two search loops: \<open>hit\<close> is the test on a device, \<open>room\<close> the size of the array the
  handles are stored into.
\<close>

fun find_loop :: "(nat \<Rightarrow> bool res) \<Rightarrow> nat \<Rightarrow> bool \<Rightarrow> nat list \<Rightarrow> nat \<Rightarrow> nat \<Rightarrow> nat list \<Rightarrow> nat list res" where
  "find_loop hit room just_first a i 0 found = Inr found"
| "find_loop hit room just_first a i (Suc n) found =
     res_bind (array_get a i) (\<lambda>d.
       if d \<noteq> 0 then
         res_bind (hit d) (\<lambda>h.
           if h then
             if length found < room then
               if just_first then Inr (found @ [d])
               else find_loop hit room just_first a (Suc i) n (found @ [d])
             else Inl BadAccess
           else find_loop hit room just_first a (Suc i) n found)
       else find_loop hit room just_first a (Suc i) n found)"

definition property_equals :: "device_heap \<Rightarrow> u16 \<Rightarrow> u8 list \<Rightarrow> nat \<Rightarrow> nat \<Rightarrow> bool res" where
  "property_equals heap pid value sz d =
     res_bind (Device_GetProperty (heap d) pid) (\<lambda>r. case r of None \<Rightarrow> Inr False
       | Some (property, property_size) \<Rightarrow>
           Inr (sz = property_size \<and> take sz value = take sz property))"

definition has_property :: "device_heap \<Rightarrow> u16 \<Rightarrow> nat \<Rightarrow> bool res" where
  "has_property heap pid d = res_bind (Device_GetProperty (heap d) pid) (\<lambda>r. Inr (r \<noteq> None))"

definition deviceList_FindMatchingDevices ::
  "device_list_state \<Rightarrow> device_heap \<Rightarrow> u16 \<Rightarrow> u8 list \<Rightarrow> nat \<Rightarrow> bool \<Rightarrow> nat \<Rightarrow> nat list res" where
  "deviceList_FindMatchingDevices s heap pid value sz just_first room =
     find_loop (property_equals heap pid value sz) room just_first (slots s) 0 (num_slots s) []"

definition deviceList_FindDevicesWithProperty ::
  "device_list_state \<Rightarrow> device_heap \<Rightarrow> u16 \<Rightarrow> nat \<Rightarrow> nat list res" where
  "deviceList_FindDevicesWithProperty s heap pid room =
     find_loop (has_property heap pid) room False (slots s) 0 (num_slots s) []"

definition DeviceList_GetFirstDeviceWithPropertyValue ::
  "device_list_state \<Rightarrow> device_heap \<Rightarrow> u16 \<Rightarrow> u8 list \<Rightarrow> nat \<Rightarrow> nat res" where
  "DeviceList_GetFirstDeviceWithPropertyValue s heap pid value sz =
     res_bind (deviceList_FindMatchingDevices s heap pid value sz True 1) (\<lambda>found.
     res_bind (panic_unless (length found \<le> 1)) (\<lambda>_.
       Inr (case found of [] \<Rightarrow> 0 | d # _ \<Rightarrow> d)))"

text \<open>The returned array has a slot per trusted device, zero behind the ones found.\<close>

definition DeviceList_GetAllDevicesWithPropertyValue ::
  "device_list_state \<Rightarrow> device_heap \<Rightarrow> u16 \<Rightarrow> u8 list \<Rightarrow> nat \<Rightarrow> (nat list \<times> nat) res" where
  "DeviceList_GetAllDevicesWithPropertyValue s heap pid value sz =
     res_bind (deviceList_FindMatchingDevices s heap pid value sz False (num_slots s)) (\<lambda>found.
       Inr (found @ replicate (num_slots s - length found) 0, length found))"

definition DeviceList_GetAllDevicesWithProperty ::
  "device_list_state \<Rightarrow> device_heap \<Rightarrow> u16 \<Rightarrow> (nat list \<times> nat) res" where
  "DeviceList_GetAllDevicesWithProperty s heap pid =
     res_bind (deviceList_FindDevicesWithProperty s heap pid (num_slots s)) (\<lambda>found.
       Inr (found @ replicate (num_slots s - length found) 0, length found))"

definition DeviceList_Iterate ::
  "device_list_state \<Rightarrow> (nat \<Rightarrow> 'd \<Rightarrow> 'd) option \<Rightarrow> 'd \<Rightarrow> 'd res" where
  "DeviceList_Iterate s action action_data =
     res_bind (panic_null action) (\<lambda>act.
       for_res (\<lambda>i data. res_bind (array_get (slots s) i) (\<lambda>d.
           Inr (if d \<noteq> 0 then act d data else data)))
         [0..<num_slots s] action_data)"

definition DeviceList_GetMaxTrustedDevices :: "device_list_state \<Rightarrow> u8 res" where
  "DeviceList_GetMaxTrustedDevices s =
     res_bind (panic_unless (trusted_device_list s \<noteq> 0)) (\<lambda>_. Inr (trusted_device_list s))"

definition DeviceList_GetIndexOfDevice :: "device_list_state \<Rightarrow> nat \<Rightarrow> u8 res" where
  "DeviceList_GetIndexOfDevice s device =
     (if device = 0 then Inr 0xFF
      else res_bind (scan (\<lambda>d. d = device) (slots s) 0 (num_slots s)) (\<lambda>r.
        Inr (case r of Some i \<Rightarrow> word_of_nat i | None \<Rightarrow> 0xFF)))"

definition DeviceList_GetDeviceAtIndex :: "device_list_state \<Rightarrow> u8 \<Rightarrow> nat res" where
  "DeviceList_GetDeviceAtIndex s index =
     (if index < trusted_device_list s then array_get (slots s) (unat index) else Inr 0)"

section \<open>Search\<close>

definition dl_ok :: "device_list_state \<Rightarrow> bool" where
  "dl_ok s \<longleftrightarrow> device_list s \<noteq> None \<and> length (slots s) = num_slots s"

lemma Init_ok: "DeviceList_Init s n = Inr s' \<Longrightarrow> dl_ok s'"
  by (auto simp: DeviceList_Init_def dl_ok_def slots_def num_slots_def split: if_splits)

lemma find_loop_all:
  assumes "\<forall>d \<in> set a. d \<noteq> 0 \<longrightarrow> hit d = Inr (P d)" and "i + n \<le> length a"
    and "length found + n \<le> room"
  shows "find_loop hit room False a i n found =
    Inr (found @ filter (\<lambda>d. d \<noteq> 0 \<and> P d) (take n (drop i a)))"
  using assms(2,3)
proof (induction n arbitrary: i found)
  case 0
  show ?case by simp
next
  case (Suc n)
  have t: "take (Suc n) (drop i a) = a ! i # take n (drop (Suc i) a)"
    using Suc.prems by (simp add: Cons_nth_drop_Suc [symmetric])
  have "a ! i \<noteq> 0 \<Longrightarrow> hit (a ! i) = Inr (P (a ! i))" using assms(1) Suc.prems by simp
  with Suc.IH [of "Suc i"] Suc.prems t show ?case by simp
qed

lemma find_loop_first:
  assumes "\<forall>d \<in> set a. d \<noteq> 0 \<longrightarrow> hit d = Inr (P d)" and "i + n \<le> length a" and "0 < room"
  shows "find_loop hit room True a i n [] =
    Inr (take 1 (filter (\<lambda>d. d \<noteq> 0 \<and> P d) (take n (drop i a))))"
  using assms(2)
proof (induction n arbitrary: i)
  case 0
  show ?case by simp
next
  case (Suc n)
  have t: "take (Suc n) (drop i a) = a ! i # take n (drop (Suc i) a)"
    using Suc.prems by (simp add: Cons_nth_drop_Suc [symmetric])
  have "a ! i \<noteq> 0 \<Longrightarrow> hit (a ! i) = Inr (P (a ! i))" using assms(1) Suc.prems by simp
  with Suc.IH [of "Suc i"] Suc.prems t assms(3) show ?case by simp
qed

lemma property_equals_ok:
  assumes "heap d = Some l" and "kv_ok l" and "sz \<le> length value"
  shows "property_equals heap pid value sz d =
    Inr (Device_GetProperty (heap d) pid = Inr (Some (take sz value, sz)))"
  using assms
  by (cases "kv_lookup l pid") (auto simp: property_equals_def Device_GetProperty_def Get_lookup)

text \<open>
  Device lookup by property: on an initialised list whose devices are well formed, the
  search for all devices returns exactly the devices whose property has the given octets,
  in slot order, zero padded, with their number; the search for the first returns the
  first of them, or \<open>NULL\<close> when there is none.
\<close>

theorem device_list_find:
  assumes "dl_ok s" and "\<forall>d \<in> set (slots s). d \<noteq> 0 \<longrightarrow> (\<exists>l. heap d = Some l \<and> kv_ok l)"
    and "sz \<le> length value"
    and "found = filter (\<lambda>d. d \<noteq> 0 \<and>
           Device_GetProperty (heap d) pid = Inr (Some (take sz value, sz))) (slots s)"
  shows "DeviceList_GetAllDevicesWithPropertyValue s heap pid value sz =
           Inr (found @ replicate (num_slots s - length found) 0, length found) \<and>
         DeviceList_GetFirstDeviceWithPropertyValue s heap pid value sz =
           Inr (case found of [] \<Rightarrow> 0 | d # _ \<Rightarrow> d)"
proof -
  let ?P = "\<lambda>d. Device_GetProperty (heap d) pid = Inr (Some (take sz value, sz))"
  have hit: "\<forall>d \<in> set (slots s). d \<noteq> 0 \<longrightarrow> property_equals heap pid value sz d = Inr (?P d)"
    using assms(2,3) property_equals_ok by blast
  have n: "num_slots s = length (slots s)" using assms(1) by (simp add: dl_ok_def)
  show ?thesis
    using find_loop_all [OF hit, of 0 "num_slots s" "[]" "num_slots s"]
      find_loop_first [OF hit, of 0 "num_slots s" 1] assms(4)
    by (auto simp: DeviceList_GetAllDevicesWithPropertyValue_def n
        DeviceList_GetFirstDeviceWithPropertyValue_def deviceList_FindMatchingDevices_def
        split: list.splits)
qed

definition example_device :: "u8 \<Rightarrow> key_value_list" where
  "example_device v = kv_empty\<lparr>len8 := 1, len_keys := 1, keys := [5], values8 := [v]\<rparr>"

lemma example_device_ok:
  "kv_ok (example_device v)" "Device_GetProperty (Some (example_device v)) 5 = Inr (Some ([v], 1))"
proof -
  show ok: "kv_ok (example_device v)"
    by (simp add: example_device_def kv_ok_def kv_lengths_def kv_empty_def)
  show "Device_GetProperty (Some (example_device v)) 5 = Inr (Some ([v], 1))"
    by (simp add: Device_GetProperty_def Get_lookup [OF ok])
      (simp add: example_device_def kv_lookup_def large_bindings_def values_def kv_empty_def)
qed

theorem device_list_find_witness:
  "DeviceList_GetFirstDeviceWithPropertyValue
     \<lparr>device_list = Some [0, 11, 12, 0], trusted_device_list = 4\<rparr>
     (\<lambda>d. Some (example_device (if d = 12 then 3 else 2))) 5 [3] 1 = Inr 12"
proof -
  let ?s = "\<lparr>device_list = Some [0, 11, 12, 0], trusted_device_list = 4\<rparr> :: device_list_state"
  have "dl_ok ?s" by (simp add: dl_ok_def slots_def num_slots_def)
  from device_list_find [OF this, of "\<lambda>d. Some (example_device (if d = 12 then 3 else 2))" 1 "[3]" _ 5]
  show ?thesis by (auto simp: example_device_ok slots_def)
qed

section \<open>Indices and membership\<close>

lemma scan_slots: "dl_ok s \<Longrightarrow> scan P (slots s) 0 (num_slots s) = Inr (find_index P (slots s))"
  by (intro scan_all) (simp add: dl_ok_def)

lemma slot_index:
  assumes "dl_ok s" and "i < length (slots s)"
  shows "unat (word_of_nat i :: u8) = i" "(word_of_nat i :: u8) < trusted_device_list s"
proof -
  have i: "i < unat (trusted_device_list s)" using assms by (simp add: dl_ok_def num_slots_def)
  then have "i < 256" using unat_u8_less [of "trusted_device_list s"] by linarith
  then show u: "unat (word_of_nat i :: u8) = i" by (intro unat_of_nat_small) simp
  show "(word_of_nat i :: u8) < trusted_device_list s" using i u by (simp add: word_less_nat_alt)
qed

text \<open>
  Index and handle are inverse: a device that is on the list has an index below the
  capacity that leads back to it, and a device that is not has the index 255, which leads
  to no device.
\<close>

theorem device_index_roundtrip:
  assumes "dl_ok s" and "device \<noteq> 0"
  shows "\<exists>i b. DeviceList_GetIndexOfDevice s device = Inr i \<and>
    DeviceList_IsDeviceOnList s device = Inr b \<and> (b \<longleftrightarrow> i < trusted_device_list s) \<and>
    DeviceList_GetDeviceAtIndex s i = Inr (if b then device else 0)"
proof (cases "find_index (\<lambda>d. d = device) (slots s)")
  case None
  have "\<not> 0xFF < trusted_device_list s"
    using unat_u8_less [of "trusted_device_list s"] by (simp add: word_less_nat_alt)
  with None assms show ?thesis
    by (auto simp: DeviceList_GetIndexOfDevice_def DeviceList_IsDeviceOnList_def
        DeviceList_GetDeviceAtIndex_def scan_slots)
next
  case (Some i)
  then have i: "i < length (slots s)" "slots s ! i = device" by (auto dest: find_index_SomeD)
  with Some assms slot_index [OF assms(1) i(1)] show ?thesis
    by (auto simp: DeviceList_GetIndexOfDevice_def DeviceList_IsDeviceOnList_def
        DeviceList_GetDeviceAtIndex_def scan_slots)
qed

theorem device_index_roundtrip_witness:
  "\<exists>i b. DeviceList_GetIndexOfDevice \<lparr>device_list = Some [0, 11, 12, 0], trusted_device_list = 4\<rparr> 12 = Inr i \<and>
    DeviceList_IsDeviceOnList \<lparr>device_list = Some [0, 11, 12, 0], trusted_device_list = 4\<rparr> 12 = Inr b \<and>
    DeviceList_GetDeviceAtIndex \<lparr>device_list = Some [0, 11, 12, 0], trusted_device_list = 4\<rparr> i =
      Inr (if b then 12 else 0)"
proof -
  have "dl_ok \<lparr>device_list = Some [0, 11, 12, 0], trusted_device_list = 4\<rparr>"
    by (simp add: dl_ok_def slots_def num_slots_def)
  moreover have "(12 :: nat) \<noteq> 0" by simp
  ultimately show ?thesis using device_index_roundtrip by blast
qed

text \<open>
  A device can be on the list twice: when the device in the first slot is removed, the
  one in the second slot is added again instead of being recognised, and one removal then
  leaves it on the list.
\<close>

theorem device_list_add_duplicate:
  assumes "dl_ok s" and "slots s = a # b # rest" and "a \<noteq> 0" "b \<noteq> 0" "a \<noteq> b"
  shows "\<exists>s1 s2 s3. DeviceList_RemoveDevice s a = Inr s1 \<and>
    DeviceList_IsDeviceOnList s1 b = Inr True \<and>
    DeviceList_AddDevice s1 b = Inr (s2, True) \<and> slots s2 = b # b # rest \<and>
    DeviceList_RemoveDevice s2 b = Inr s3 \<and> DeviceList_IsDeviceOnList s3 b = Inr True"
proof -
  have ok: "dl_ok (s\<lparr>device_list := Some (x # b # rest)\<rparr>)" for x
    using assms(1,2) by (simp add: dl_ok_def slots_def num_slots_def)
  have sl: "slots (s\<lparr>device_list := Some xs\<rparr>) = xs" for xs by (simp add: slots_def)
  show ?thesis
    using assms scan_slots [OF assms(1)] scan_slots [OF ok]
    by (simp add: DeviceList_RemoveDevice_def DeviceList_AddDevice_def DeviceList_IsDeviceOnList_def sl)
qed

theorem device_list_add_duplicate_witness:
  "\<exists>s2. DeviceList_AddDevice \<lparr>device_list = Some [0, 12, 0], trusted_device_list = 3\<rparr> 12 = Inr (s2, True) \<and>
     slots s2 = [12, 12, 0]"
proof -
  have ok: "dl_ok \<lparr>device_list = Some [11, 12, 0], trusted_device_list = 3\<rparr>"
    by (simp add: dl_ok_def slots_def num_slots_def)
  have "DeviceList_RemoveDevice \<lparr>device_list = Some [11, 12, 0], trusted_device_list = 3\<rparr> 11 =
      Inr \<lparr>device_list = Some [0, 12, 0], trusted_device_list = 3\<rparr>"
    by (simp add: DeviceList_RemoveDevice_def scan_slots [OF ok]) (simp add: slots_def)
  with device_list_add_duplicate [OF ok, of 11 12 "[0]"] show ?thesis by (auto simp: slots_def)
qed

end
