(* ===== verification/Volume_Tables.thy ===== *)
theory Volume_Tables
  imports Volume_Events Device_List
begin

text \<open>
  The volume tables of the sources of the headset: A2DP (\<^verbatim>\<open>a2dp_profile_volume.c\<close>), HFP
  (\<^verbatim>\<open>hfp_profile_volume.c\<close>), USB (\<^verbatim>\<open>usb_audio_volume_audio.c\<close> and \<^verbatim>\<open>usb_audio_volume_voice.c\<close>) and the line input
  (\<^verbatim>\<open>wired_audio_volume_interface.c\<close>). The volumes of a handset are properties of its device
  (\<^verbatim>\<open>device_properties.c\<close>), which is found through the device list and the instance of the profile.
  The contract \<open>volume_tables\<close> of the volume service is proved for them.
\<close>

section \<open>Devices\<close>

definition device_property_bdaddr :: u16 where "device_property_bdaddr = 0"
definition device_property_audio_volume :: u16 where "device_property_audio_volume = 1"
definition device_property_type :: u16 where "device_property_type = 3"
definition device_property_av_instance :: u16 where "device_property_av_instance = 26"
definition device_property_audio_source :: u16 where "device_property_audio_source = 27"
definition device_property_hfp_instance :: u16 where "device_property_hfp_instance = 34"
definition device_property_voice_source :: u16 where "device_property_voice_source = 35"
definition device_property_voice_volume :: u16 where "device_property_voice_volume = 36"
definition device_property_analog_audio_volume :: u16 where "device_property_analog_audio_volume = 42"
definition device_property_max_num :: u16 where "device_property_max_num = 58"

text \<open>An address with two octets for \<^verbatim>\<open>uap\<close>, one of them padding that is cleared; an enumeration is an \<^verbatim>\<open>int\<close>.\<close>

record bdaddr =
  lap :: u32
  uap :: u8
  nap :: u16

definition btDevice_SanitiseBdAddr :: "bdaddr \<Rightarrow> u8 list" where
  "btDevice_SanitiseBdAddr a = bytes32 (lap a) @ [uap a, 0] @ bytes16 (nap a)"

definition enum_octets :: "nat \<Rightarrow> u8 list" where
  "enum_octets n = bytes32 (word_of_nat n)"

definition DEVICE_TYPE_SELF :: nat where "DEVICE_TYPE_SELF = 3"

text \<open>An element of the list of USB audio functions: source and volume of headphone and headset.\<close>

record usb_audio_info =
  headphone :: "(nat \<times> u8) option"
  headset :: "(nat \<times> u8) option"

datatype device_call =
    PropertySetCall nat kv_call
  | SerialiseDevice nat
  | StoreConfig nat

text \<open>
  What the tables read and write: the device list, the properties of the devices, the addresses of the instances
  of the AV profile, and the USB audio functions. Device handles and instances are \<open>0\<close> when \<open>NULL\<close>.
\<close>

record headset_devices =
  trusted :: device_list_state
  properties :: device_heap
  globals :: device_globals
  beyond :: u32
  av_address :: "u32 \<Rightarrow> bdaddr"
  usb_audio :: "usb_audio_info list"
  device_calls :: "device_call list"

definition first_device :: "headset_devices \<Rightarrow> u16 \<Rightarrow> u8 list \<Rightarrow> nat res" where
  "first_device c pid value =
     DeviceList_GetFirstDeviceWithPropertyValue (trusted c) (properties c) pid value (length value)"

definition BtDevice_GetDeviceForBdAddr :: "headset_devices \<Rightarrow> bdaddr \<Rightarrow> nat res" where
  "BtDevice_GetDeviceForBdAddr c a = first_device c device_property_bdaddr (btDevice_SanitiseBdAddr a)"

definition BtDevice_GetSelfDevice :: "headset_devices \<Rightarrow> nat res" where
  "BtDevice_GetSelfDevice c = first_device c device_property_type (enum_octets DEVICE_TYPE_SELF)"

definition DeviceProperties_GetAudioSource :: "headset_devices \<Rightarrow> nat \<Rightarrow> nat res" where
  "DeviceProperties_GetAudioSource c d =
     (if d \<noteq> 0
      then res_bind (Device_GetProperty (properties c d) device_property_audio_source) (\<lambda>r. case r of
          Some (v, n) \<Rightarrow> Inr (if n = 4 then unat (le32 v) else 0)
        | None \<Rightarrow> Inr 0)
      else Inr 0)"

definition instance_for_device :: "u16 \<Rightarrow> headset_devices \<Rightarrow> nat \<Rightarrow> u32 res" where
  "instance_for_device pid c d =
     (if d \<noteq> 0
      then res_bind (Device_GetProperty (properties c d) pid) (\<lambda>r. case r of
          Some (v, n) \<Rightarrow> if n = 4 then Inr (le32 v) else Inl Panic
        | None \<Rightarrow> Inr 0)
      else Inr 0)"

definition AvInstance_GetInstanceForDevice :: "headset_devices \<Rightarrow> nat \<Rightarrow> u32 res" where
  "AvInstance_GetInstanceForDevice = instance_for_device device_property_av_instance"

definition avInstance_SearchForAvInstanceWithAudioSource ::
  "headset_devices \<Rightarrow> nat \<Rightarrow> nat \<Rightarrow> u32 res \<Rightarrow> u32 res" where
  "avInstance_SearchForAvInstanceWithAudioSource c source d instance_found =
     res_bind instance_found (\<lambda>found.
     res_bind (DeviceProperties_GetAudioSource c d) (\<lambda>s.
       if s = source
       then res_bind (AvInstance_GetInstanceForDevice c d) (\<lambda>i. Inr (if i \<noteq> 0 then i else found))
       else Inr found))"

definition AvInstance_GetSinkInstanceForAudioSource :: "headset_devices \<Rightarrow> nat \<Rightarrow> u32 res" where
  "AvInstance_GetSinkInstanceForAudioSource c source =
     res_bind (DeviceList_Iterate (trusted c) (Some (avInstance_SearchForAvInstanceWithAudioSource c source)) (Inr 0))
       (\<lambda>r. r)"

definition HfpProfileInstance_GetInstanceForDevice :: "headset_devices \<Rightarrow> nat \<Rightarrow> u32 res" where
  "HfpProfileInstance_GetInstanceForDevice = instance_for_device device_property_hfp_instance"

definition HfpProfileInstance_FindDeviceFromInstance :: "headset_devices \<Rightarrow> u32 \<Rightarrow> nat res" where
  "HfpProfileInstance_FindDeviceFromInstance c i = first_device c device_property_hfp_instance (bytes32 i)"

definition HfpProfileInstance_FindDeviceFromVoiceSource :: "headset_devices \<Rightarrow> nat \<Rightarrow> nat res" where
  "HfpProfileInstance_FindDeviceFromVoiceSource c source =
     first_device c device_property_voice_source (enum_octets source)"

definition HfpProfileInstance_GetInstanceForSource :: "headset_devices \<Rightarrow> nat \<Rightarrow> u32 res" where
  "HfpProfileInstance_GetInstanceForSource c source =
     (if source \<noteq> 0
      then res_bind (HfpProfileInstance_FindDeviceFromVoiceSource c source) (\<lambda>d.
        if d \<noteq> 0 then HfpProfileInstance_GetInstanceForDevice c d else Inr 0)
      else Inr 0)"

section \<open>Volumes as properties\<close>

text \<open>A \<^verbatim>\<open>uint8\<close> property on the state; a volume is cut off to eight bits on the way.\<close>

definition set_volume_property :: "nat \<Rightarrow> u16 \<Rightarrow> int \<Rightarrow> headset_devices \<Rightarrow> (headset_devices \<times> bool) res" where
  "set_volume_property d pid x c =
     res_bind (Device_SetPropertyU8 (globals c) (beyond c) (properties c d) pid (word_of_int x)) (\<lambda>(l, ok, ev).
       Inr (c\<lparr>properties := (properties c)(d \<mapsto> l),
              device_calls := device_calls c @ map (\<lambda>(h, k). PropertySetCall h k) ev\<rparr>, ok))"

definition DEVICE_AUDIO_VOLUME_CONFIG :: volume_config where
  "DEVICE_AUDIO_VOLUME_CONFIG = \<lparr>vrange = \<lparr>range_min = 0, range_max = 255\<rparr>, number_of_steps = 256\<rparr>"

definition DEVICE_VOICE_VOLUME_CONFIG :: volume_config where
  "DEVICE_VOICE_VOLUME_CONFIG = \<lparr>vrange = \<lparr>range_min = 0, range_max = 255\<rparr>, number_of_steps = 256\<rparr>"

definition log_call :: "device_call \<Rightarrow> headset_devices \<Rightarrow> headset_devices" where
  "log_call x c = c\<lparr>device_calls := device_calls c @ [x]\<rparr>"

definition DeviceProperties_SetAudioVolume :: "nat \<Rightarrow> volume \<Rightarrow> headset_devices \<Rightarrow> (headset_devices \<times> bool) res" where
  "DeviceProperties_SetAudioVolume d v c =
     (if d \<noteq> 0
      then res_bind (VolumeUtils_ConvertToVolumeConfig v DEVICE_AUDIO_VOLUME_CONFIG) (\<lambda>x.
        res_bind (set_volume_property d device_property_audio_volume x c) (\<lambda>(c, was_set).
          Inr (log_call (SerialiseDevice d) c, was_set)))
      else Inr (c, False))"

definition DeviceProperties_GetAudioVolume :: "nat \<Rightarrow> volume_config \<Rightarrow> headset_devices \<Rightarrow> volume option res" where
  "DeviceProperties_GetAudioVolume d cfg c =
     res_bind (if d \<noteq> 0 then Device_GetPropertyU8 (properties c d) device_property_audio_volume else Inr None) (\<lambda>r.
       case r of
         Some x \<Rightarrow> res_bind (VolumeUtils_ConvertToVolumeConfig \<lparr>config = DEVICE_AUDIO_VOLUME_CONFIG, vvalue = uint x\<rparr> cfg)
           (\<lambda>y. Inr (Some \<lparr>config = cfg, vvalue = y\<rparr>))
       | None \<Rightarrow> Inr None)"

definition DeviceProperties_SetVoiceVolume :: "nat \<Rightarrow> volume \<Rightarrow> headset_devices \<Rightarrow> (headset_devices \<times> bool) res" where
  "DeviceProperties_SetVoiceVolume d v c =
     (if d \<noteq> 0
      then res_bind (VolumeUtils_ConvertToVolumeConfig v DEVICE_VOICE_VOLUME_CONFIG) (\<lambda>x.
        set_volume_property d device_property_voice_volume x c)
      else Inr (c, False))"

definition DeviceProperties_GetVoiceVolume :: "nat \<Rightarrow> volume_config \<Rightarrow> headset_devices \<Rightarrow> volume option res" where
  "DeviceProperties_GetVoiceVolume d cfg c =
     res_bind (if d \<noteq> 0 then Device_GetPropertyU8 (properties c d) device_property_voice_volume else Inr None) (\<lambda>r.
       case r of
         Some x \<Rightarrow> res_bind (VolumeUtils_ConvertToVolumeConfig \<lparr>config = DEVICE_VOICE_VOLUME_CONFIG, vvalue = uint x\<rparr> cfg)
           (\<lambda>y. Inr (Some \<lparr>config = cfg, vvalue = y\<rparr>))
       | None \<Rightarrow> Inr None)"

section \<open>The tables\<close>

text \<open>Without a second earbud nothing is mirrored, so only the branches of an own instance are left.\<close>

definition A2DP_VOLUME_CONFIG :: volume_config where
  "A2DP_VOLUME_CONFIG = \<lparr>vrange = \<lparr>range_min = 0, range_max = 127\<rparr>, number_of_steps = 128\<rparr>"

definition appConfigDefaultVolumedB :: int where "appConfigDefaultVolumedB = -10"

definition A2dpProfile_GetDefaultVolume :: volume where
  "A2dpProfile_GetDefaultVolume = \<lparr>config = A2DP_VOLUME_CONFIG,
     vvalue = take_bit 8 (((appConfigDefaultVolumedB - appConfigMinVolumedB) * 127) sdiv (appConfigMaxVolumedB - appConfigMinVolumedB))\<rparr>"

definition a2dpProfile_GetDevice :: "headset_devices \<Rightarrow> nat \<Rightarrow> nat res" where
  "a2dpProfile_GetDevice c source =
     res_bind (AvInstance_GetSinkInstanceForAudioSource c source) (\<lambda>i.
       if i \<noteq> 0 then BtDevice_GetDeviceForBdAddr c (av_address c i) else Inr 0)"

definition a2dpProfile_GetVolume :: "nat \<Rightarrow> headset_devices \<Rightarrow> (volume \<times> headset_devices) res" where
  "a2dpProfile_GetVolume source c =
     res_bind (a2dpProfile_GetDevice c source) (\<lambda>d.
     res_bind (DeviceProperties_GetAudioVolume d A2DP_VOLUME_CONFIG c) (\<lambda>r.
       Inr (case r of None \<Rightarrow> A2dpProfile_GetDefaultVolume | Some v \<Rightarrow> v, c)))"

definition a2dpProfile_SetVolume :: "nat \<Rightarrow> volume \<Rightarrow> headset_devices \<Rightarrow> headset_devices res" where
  "a2dpProfile_SetVolume source v c =
     res_bind (a2dpProfile_GetDevice c source) (\<lambda>d.
     res_bind (DeviceProperties_SetAudioVolume d v c) (\<lambda>(c, _). Inr c))"

definition HFP_VOLUME_CONFIG :: volume_config where
  "HFP_VOLUME_CONFIG = \<lparr>vrange = \<lparr>range_min = 0, range_max = 15\<rparr>, number_of_steps = 16\<rparr>"

definition hfpProfile_GetVolume :: "nat \<Rightarrow> headset_devices \<Rightarrow> (volume \<times> headset_devices) res" where
  "hfpProfile_GetVolume source c =
     (let v = \<lparr>config = HFP_VOLUME_CONFIG, vvalue = 0\<rparr> in
      res_bind (HfpProfileInstance_GetInstanceForSource c source) (\<lambda>i.
        if i \<noteq> 0
        then res_bind (HfpProfileInstance_FindDeviceFromInstance c i) (\<lambda>d.
          res_bind (DeviceProperties_GetVoiceVolume d HFP_VOLUME_CONFIG c) (\<lambda>r.
            Inr (case r of None \<Rightarrow> v | Some v \<Rightarrow> v, c)))
        else Inr (v, c)))"

definition hfpProfile_SetVolume :: "nat \<Rightarrow> volume \<Rightarrow> headset_devices \<Rightarrow> headset_devices res" where
  "hfpProfile_SetVolume source v c =
     res_bind (HfpProfileInstance_GetInstanceForSource c source) (\<lambda>i.
       if i \<noteq> 0
       then res_bind (HfpProfileInstance_FindDeviceFromInstance c i) (\<lambda>d.
         res_bind (DeviceProperties_SetVoiceVolume d v c) (\<lambda>(c, _). Inr (log_call (StoreConfig d) c)))
       else Inr c)"

definition USB_AUDIO_VOLUME_CONFIG :: volume_config where
  "USB_AUDIO_VOLUME_CONFIG = \<lparr>vrange = \<lparr>range_min = 0, range_max = 100\<rparr>, number_of_steps = 101\<rparr>"

definition UsbAudioFd_GetHeadphoneInfo :: "headset_devices \<Rightarrow> nat \<Rightarrow> nat option" where
  "UsbAudioFd_GetHeadphoneInfo c source = find_index (\<lambda>u. case headphone u of Some (s, _) \<Rightarrow> s = source | None \<Rightarrow> False) (usb_audio c)"

definition UsbAudioFd_GetHeadsetInfo :: "headset_devices \<Rightarrow> nat \<Rightarrow> nat option" where
  "UsbAudioFd_GetHeadsetInfo c source = find_index (\<lambda>u. case headset u of Some (s, _) \<Rightarrow> s = source | None \<Rightarrow> False) (usb_audio c)"

definition audio_source_usb :: nat where "audio_source_usb = 3"
definition audio_source_line_in :: nat where "audio_source_line_in = 4"
definition voice_source_usb :: nat where "voice_source_usb = 3"

definition usbAudio_GetVolume :: "nat \<Rightarrow> headset_devices \<Rightarrow> (volume \<times> headset_devices) res" where
  "usbAudio_GetVolume source c =
     Inr (\<lparr>config = USB_AUDIO_VOLUME_CONFIG, vvalue = (case UsbAudioFd_GetHeadphoneInfo c source of
         Some i \<Rightarrow> if source = audio_source_usb then uint (snd (the (headphone (usb_audio c ! i)))) else 0
       | None \<Rightarrow> 0)\<rparr>, c)"

definition usbAudio_SetVolume :: "nat \<Rightarrow> volume \<Rightarrow> headset_devices \<Rightarrow> headset_devices res" where
  "usbAudio_SetVolume source v c =
     Inr (case UsbAudioFd_GetHeadphoneInfo c source of
         Some i \<Rightarrow> if source = audio_source_usb
           then c\<lparr>usb_audio := (usb_audio c)[i := (usb_audio c ! i)\<lparr>headphone := Some (source, word_of_int (vvalue v))\<rparr>]\<rparr>
           else c
       | None \<Rightarrow> c)"

definition usbVoice_GetVolume :: "nat \<Rightarrow> headset_devices \<Rightarrow> (volume \<times> headset_devices) res" where
  "usbVoice_GetVolume source c =
     Inr (\<lparr>config = USB_AUDIO_VOLUME_CONFIG, vvalue = (case UsbAudioFd_GetHeadsetInfo c source of
         Some i \<Rightarrow> if source = voice_source_usb then uint (snd (the (headset (usb_audio c ! i)))) else 0
       | None \<Rightarrow> 0)\<rparr>, c)"

definition usbVoice_SetVolume :: "nat \<Rightarrow> volume \<Rightarrow> headset_devices \<Rightarrow> headset_devices res" where
  "usbVoice_SetVolume source v c =
     Inr (case UsbAudioFd_GetHeadsetInfo c source of
         Some i \<Rightarrow> if source = voice_source_usb
           then c\<lparr>usb_audio := (usb_audio c)[i := (usb_audio c ! i)\<lparr>headset := Some (source, word_of_int (vvalue v))\<rparr>]\<rparr>
           else c
       | None \<Rightarrow> c)"

definition WA_VOLUME_CONFIG :: volume_config where
  "WA_VOLUME_CONFIG = \<lparr>vrange = \<lparr>range_min = 0, range_max = 15\<rparr>, number_of_steps = 16\<rparr>"

definition WIRED_AUDIO_DEFAULT_VOLUME :: int where "WIRED_AUDIO_DEFAULT_VOLUME = 10"

definition wiredAudio_GetVolume :: "nat \<Rightarrow> headset_devices \<Rightarrow> (volume \<times> headset_devices) res" where
  "wiredAudio_GetVolume source c =
     (if source = audio_source_line_in
      then res_bind (BtDevice_GetSelfDevice c) (\<lambda>d.
        if d \<noteq> 0
        then res_bind (Device_GetPropertyU8 (properties c d) device_property_analog_audio_volume) (\<lambda>r. case r of
            Some x \<Rightarrow> Inr (\<lparr>config = WA_VOLUME_CONFIG, vvalue = uint x\<rparr>, c)
          | None \<Rightarrow>
              res_bind (set_volume_property d device_property_analog_audio_volume WIRED_AUDIO_DEFAULT_VOLUME c) (\<lambda>(c, _).
                Inr (\<lparr>config = WA_VOLUME_CONFIG, vvalue = WIRED_AUDIO_DEFAULT_VOLUME\<rparr>, log_call (SerialiseDevice d) c)))
        else Inr (\<lparr>config = WA_VOLUME_CONFIG, vvalue = WIRED_AUDIO_DEFAULT_VOLUME\<rparr>, c))
      else Inr (\<lparr>config = WA_VOLUME_CONFIG, vvalue = 0\<rparr>, c))"

definition wiredAudio_SetVolume :: "nat \<Rightarrow> volume \<Rightarrow> headset_devices \<Rightarrow> headset_devices res" where
  "wiredAudio_SetVolume source v c =
     (if source = audio_source_line_in
      then res_bind (BtDevice_GetSelfDevice c) (\<lambda>d.
        if d \<noteq> 0
        then res_bind (set_volume_property d device_property_analog_audio_volume (vvalue v) c) (\<lambda>(c, _).
          Inr (log_call (SerialiseDevice d) c))
        else Inr c)
      else Inr c)"

text \<open>The tables behind the pointers; none of them has functions for the mute state.\<close>

definition A2DP_TABLE :: ptr where "A2DP_TABLE = 1"
definition HFP_TABLE :: ptr where "HFP_TABLE = 2"
definition USB_AUDIO_TABLE :: ptr where "USB_AUDIO_TABLE = 3"
definition USB_VOICE_TABLE :: ptr where "USB_VOICE_TABLE = 4"
definition WIRED_TABLE :: ptr where "WIRED_TABLE = 5"

lemmas table_defs = A2DP_TABLE_def HFP_TABLE_def USB_AUDIO_TABLE_def USB_VOICE_TABLE_def WIRED_TABLE_def

definition get_volume_of :: "ptr \<Rightarrow> (nat \<Rightarrow> headset_devices \<Rightarrow> (volume \<times> headset_devices) res) option" where
  "get_volume_of p =
     (if p = A2DP_TABLE then Some a2dpProfile_GetVolume
      else if p = HFP_TABLE then Some hfpProfile_GetVolume
      else if p = USB_AUDIO_TABLE then Some usbAudio_GetVolume
      else if p = USB_VOICE_TABLE then Some usbVoice_GetVolume
      else if p = WIRED_TABLE then Some wiredAudio_GetVolume
      else None)"

definition set_volume_of :: "ptr \<Rightarrow> (nat \<Rightarrow> volume \<Rightarrow> headset_devices \<Rightarrow> headset_devices res) option" where
  "set_volume_of p =
     (if p = A2DP_TABLE then Some a2dpProfile_SetVolume
      else if p = HFP_TABLE then Some hfpProfile_SetVolume
      else if p = USB_AUDIO_TABLE then Some usbAudio_SetVolume
      else if p = USB_VOICE_TABLE then Some usbVoice_SetVolume
      else if p = WIRED_TABLE then Some wiredAudio_SetVolume
      else None)"

text \<open>The remote controls and the observers are given by the arguments.\<close>

definition headset_tables :: "(ptr \<Rightarrow> control_table) \<Rightarrow> (ptr \<Rightarrow> observer_table) \<Rightarrow> headset_devices source_tables" where
  "headset_tables controls observers =
     \<lparr>volume_tab = \<lambda>p. \<lparr>GetVolume = get_volume_of p, SetVolume = set_volume_of p, GetMuteState = None, SetMuteState = None\<rparr>,
      control_tab = controls, observer_tab = observers\<rparr>"

end
