(* ===== verification/Volume_Control.thy ===== *)
theory Volume_Control
  imports Volume_Tables
begin

text \<open>
  The tables of the headset keep the contract \<open>volume_tables\<close>, and with it the properties of the volume service:
  no event faults, what is sent to the audio chains is in range, and a ramp goes to the end of the range.
\<close>

section \<open>Devices as maps\<close>

definition property_of :: "headset_devices \<Rightarrow> nat \<Rightarrow> u16 \<Rightarrow> u8 list option" where
  "property_of c d k = Option.bind (properties c d) (\<lambda>l. kv_lookup l k)"

definition volume_keys :: "u16 set" where
  "volume_keys = {device_property_audio_volume, device_property_voice_volume, device_property_analog_audio_volume}"

text \<open>A device in order has known properties, with values of the sizes they are read with.\<close>

definition device_ok :: "key_value_list \<Rightarrow> bool" where
  "device_ok l \<longleftrightarrow> kv_ok l \<and> (\<forall>k v. kv_lookup l k = Some v \<longrightarrow> k < device_property_max_num \<and>
     (k \<in> volume_keys \<longrightarrow> length v = 1) \<and>
     (k \<in> {device_property_av_instance, device_property_hfp_instance} \<longrightarrow> length v = 4) \<and>
     (k = device_property_analog_audio_volume \<longrightarrow> v ! 0 \<le> 15))"

definition listed :: "headset_devices \<Rightarrow> nat \<Rightarrow> bool" where
  "listed c d \<longleftrightarrow> d \<noteq> 0 \<and> d \<in> set (Device_List.slots (trusted c))"

definition usb_ok :: "usb_audio_info \<Rightarrow> bool" where
  "usb_ok u \<longleftrightarrow> (\<forall>s x. headphone u = Some (s, x) \<or> headset u = Some (s, x) \<longrightarrow> x \<le> 100)"

definition devices_ok :: "headset_devices \<Rightarrow> bool" where
  "devices_ok c \<longleftrightarrow> dl_ok (trusted c) \<and> (\<forall>d. listed c d \<longrightarrow> (\<exists>l. properties c d = Some l \<and> device_ok l)) \<and>
     list_all usb_ok (usb_audio c)"

lemma devices_okD:
  assumes "devices_ok c" and "listed c d"
  obtains l where "properties c d = Some l" "device_ok l" "kv_ok l" "property_of c d = kv_lookup l"
proof -
  obtain l where l: "properties c d = Some l" "device_ok l"
    using assms by (auto simp: devices_ok_def)
  show thesis
    by (rule that [OF l]) (use l in \<open>simp_all add: device_ok_def property_of_def fun_eq_iff\<close>)
qed

lemma GetProperty_of:
  assumes "devices_ok c" and "listed c d"
  shows "Device_GetProperty (properties c d) k = Inr (map_option (\<lambda>v. (v, length v)) (property_of c d k))"
proof -
  from assms obtain l where "properties c d = Some l" "kv_ok l" "property_of c d = kv_lookup l"
    by (rule devices_okD)
  then show ?thesis
    by (simp add: Device_GetProperty_def Get_lookup)
qed

lemma GetU8_of:
  assumes "devices_ok c" and "listed c d" and "k \<in> volume_keys"
  shows "Device_GetPropertyU8 (properties c d) k = Inr (map_option (\<lambda>v. v ! 0) (property_of c d k))"
  using assms(1,2)
proof (rule devices_okD)
  fix l
  assume l: "properties c d = Some l" "device_ok l" "kv_ok l" "property_of c d = kv_lookup l"
  then have "kv_lookup l k = Some v \<Longrightarrow> length v = 1" for v
    using assms(3) by (simp add: device_ok_def)
  then show ?thesis
    using l by (auto simp: Device_GetPropertyU8_def GetSized_lookup split: option.splits)
qed

lemma card_below: "card {k :: u16. k < device_property_max_num} \<le> 58"
proof -
  have "unat ` {k :: u16. k < device_property_max_num} \<subseteq> {..<58}"
    by (auto simp: device_property_max_num_def word_less_nat_alt)
  then have "card (unat ` {k :: u16. k < device_property_max_num}) \<le> card {..<58::nat}"
    by (intro card_mono) simp_all
  moreover have "card (unat ` {k :: u16. k < device_property_max_num}) = card {k :: u16. k < device_property_max_num}"
    by (rule card_image) (auto simp: inj_on_def word_unat_eq_iff)
  ultimately show ?thesis
    by simp
qed

lemma device_has_room:
  assumes "device_ok l"
  shows "0 < kv_free l"
proof -
  have ok: "kv_ok l" "kv_lengths l"
    using assms by (simp_all add: device_ok_def kv_ok_def)
  have "kv_lookup l k \<noteq> None" if "k \<in> set (keys l)" for k
  proof -
    have "fst ` set (zip (keys l) (values l)) = set (keys l)"
      using length_values [OF ok(2)] by (simp add: set_map [symmetric] del: set_map)
    then show ?thesis
      using that by (simp add: kv_lookup_def map_of_eq_None_iff image_Un)
  qed
  then have "set (keys l) \<subseteq> {k. k < device_property_max_num}"
    using assms by (fastforce simp: device_ok_def)
  then have "card (set (keys l)) \<le> 58"
    by (rule order_trans [OF card_mono [OF finite] card_below])
  moreover have "distinct (keys l)"
    using ok(1) by (simp add: kv_ok_def)
  ultimately show ?thesis
    by (simp add: kv_free_def distinct_card)
qed

text \<open>What finding a device depends on is not changed by setting a volume.\<close>

definition same_devices :: "headset_devices \<Rightarrow> headset_devices \<Rightarrow> bool" where
  "same_devices c c' \<longleftrightarrow> trusted c' = trusted c \<and> av_address c' = av_address c \<and>
     (\<forall>d k. k \<notin> volume_keys \<longrightarrow> property_of c' d k = property_of c d k)"

lemma set_volume_property_ok:
  assumes "devices_ok c" and "listed c d" and "k \<in> volume_keys" and "0 \<le> x" "x \<le> 255"
    and "k = device_property_analog_audio_volume \<longrightarrow> x \<le> 15"
  shows "\<exists>c'. set_volume_property d k x c = Inr (c', True) \<and> devices_ok c' \<and> same_devices c c' \<and> usb_audio c' = usb_audio c \<and>
    property_of c' = (property_of c)(d := (property_of c d)(k \<mapsto> [word_of_int x]))"
  using assms(1,2)
proof (rule devices_okD)
  fix l
  assume l: "properties c d = Some l" "device_ok l" "kv_ok l" "property_of c d = kv_lookup l"
  obtain l' ev where l': "Device_SetProperty (globals c) (beyond c) (Some l) k (bytes32 (ucast (word_of_int x :: u8))) 1 = Inr (l', True, ev)"
    "kv_ok l'" "kv_lookup l' = (kv_lookup l)(k \<mapsto> take 1 (bytes32 (ucast (word_of_int x :: u8))))"
    using SetProperty_ok [OF l(3) device_has_room [OF l(2)], of 1 "bytes32 (ucast (word_of_int x :: u8))" "globals c" "beyond c" k]
    by auto
  have one: "take 1 (bytes32 (ucast (word_of_int x :: u8))) = [word_of_int x]"
    using u8_bytes32 [of "word_of_int x"] by (simp add: bytes32_def)
  define c' where "c' = c\<lparr>properties := (properties c)(d \<mapsto> l'),
    device_calls := device_calls c @ map (\<lambda>(h, k). PropertySetCall h k) ev\<rparr>"
  have set: "set_volume_property d k x c = Inr (c', True)"
    by (simp add: set_volume_property_def Device_SetPropertyU8_def Update_SetProperty l(1) l'(1) c'_def del: One_nat_def)
  have props: "property_of c' = (property_of c)(d := (property_of c d)(k \<mapsto> [word_of_int x]))"
    using l(4) l'(3) one by (auto simp: fun_eq_iff c'_def property_of_def)
  have small: "(word_of_int x :: u8) \<le> 15" if "x \<le> 15"
    using that assms(4,5) by (simp add: word_le_def uint_word_of_int)
  have "k < device_property_max_num" "k \<notin> {device_property_av_instance, device_property_hfp_instance}"
    using assms(3) by (auto simp: volume_keys_def device_property_max_num_def device_property_audio_volume_def
        device_property_voice_volume_def device_property_analog_audio_volume_def device_property_av_instance_def
        device_property_hfp_instance_def)
  then have "device_ok l'"
    using l(2) l'(2,3) one small assms(6) by (auto simp: device_ok_def)
  then have "devices_ok c'"
    using assms(1) by (auto simp: devices_ok_def listed_def c'_def)
  moreover have "same_devices c c'"
    using assms(3) by (auto simp: same_devices_def props) (simp_all add: c'_def)
  ultimately show ?thesis
    using set props by (auto simp: c'_def)
qed

section \<open>Finding devices\<close>

definition first_with :: "headset_devices \<Rightarrow> u16 \<Rightarrow> u8 list \<Rightarrow> nat" where
  "first_with c k v = (case filter (\<lambda>d. d \<noteq> 0 \<and> property_of c d k = Some v) (Device_List.slots (trusted c)) of [] \<Rightarrow> 0 | d # _ \<Rightarrow> d)"

lemma first_device_with:
  assumes "devices_ok c"
  shows "first_device c k v = Inr (first_with c k v)"
proof -
  let ?P = "\<lambda>d. property_of c d k = Some v"
  have dl: "dl_ok (trusted c)"
    using assms by (simp add: devices_ok_def)
  then have n: "num_slots (trusted c) = length (Device_List.slots (trusted c))"
    by (simp add: dl_ok_def)
  have "property_equals (properties c) k v (length v) d = Inr (?P d)" if d: "listed c d" for d
  proof -
    from assms d obtain l where "properties c d = Some l" "kv_ok l"
      by (elim devices_okD) blast
    then show ?thesis
      using property_equals_ok [of "properties c" d l "length v" v k] GetProperty_of [OF assms d, of k]
      by (auto split: option.splits)
  qed
  then have hit: "\<forall>d \<in> set (Device_List.slots (trusted c)). d \<noteq> 0 \<longrightarrow> property_equals (properties c) k v (length v) d = Inr (?P d)"
    by (simp add: listed_def)
  show ?thesis
    using find_loop_first [OF hit, of 0 "num_slots (trusted c)" 1]
    by (auto simp: first_device_def first_with_def DeviceList_GetFirstDeviceWithPropertyValue_def
        deviceList_FindMatchingDevices_def n split: list.splits)
qed

lemma first_listed: "first_with c k v \<noteq> 0 \<Longrightarrow> listed c (first_with c k v)"
  by (auto simp: first_with_def listed_def dest!: filter_eq_ConsD split: list.splits)

lemma first_same: "same_devices c c' \<Longrightarrow> k \<notin> volume_keys \<Longrightarrow> first_with c' k v = first_with c k v"
  by (simp add: first_with_def same_devices_def)

definition source_of :: "headset_devices \<Rightarrow> nat \<Rightarrow> nat" where
  "source_of c d = (case property_of c d device_property_audio_source of
     Some v \<Rightarrow> if length v = 4 then unat (le32 v) else 0 | None \<Rightarrow> 0)"

definition instance_of :: "headset_devices \<Rightarrow> u16 \<Rightarrow> nat \<Rightarrow> u32" where
  "instance_of c k d = (case property_of c d k of Some v \<Rightarrow> le32 v | None \<Rightarrow> 0)"

definition av_instance_with :: "headset_devices \<Rightarrow> nat \<Rightarrow> u32" where
  "av_instance_with c s = fold (\<lambda>d i.
     if d \<noteq> 0 \<and> source_of c d = s \<and> instance_of c device_property_av_instance d \<noteq> 0
     then instance_of c device_property_av_instance d else i) (Device_List.slots (trusted c)) 0"

lemma instance_for:
  assumes "devices_ok c" and "listed c d" and "k \<in> {device_property_av_instance, device_property_hfp_instance}"
  shows "instance_for_device k c d = Inr (instance_of c k d)"
  using assms(1,2)
proof (rule devices_okD)
  fix l
  assume l: "properties c d = Some l" "device_ok l" "kv_ok l" "property_of c d = kv_lookup l"
  then have "kv_lookup l k = Some v \<Longrightarrow> length v = 4" for v
    using assms(3) by (auto simp: device_ok_def)
  then show ?thesis
    using l GetProperty_of [OF assms(1,2), of k] assms(2)
    by (auto simp: instance_for_device_def instance_of_def listed_def split: option.splits)
qed

lemma iterate_fold:
  assumes "\<And>d x. d \<in> set a \<Longrightarrow> d \<noteq> 0 \<Longrightarrow> act d (Inr x) = Inr (g d x)"
  shows "for_res (\<lambda>i data. res_bind (array_get a i) (\<lambda>d. Inr (if d \<noteq> 0 then act d data else data))) [0..<length a] (Inr x) =
    Inr (Inr (fold (\<lambda>d x. if d \<noteq> 0 then g d x else x) a x))"
proof -
  have "for_res (\<lambda>i data. res_bind (array_get a i) (\<lambda>d. Inr (if d \<noteq> 0 then act d data else data))) [0..<n] (Inr x) =
      Inr (Inr (fold (\<lambda>d x. if d \<noteq> 0 then g d x else x) (take n a) x))" if "n \<le> length a" for n
    using that
  proof (induction n)
    case 0
    then show ?case by simp
  next
    case (Suc n)
    then show ?case
      using assms [of "a ! n"] by (simp add: for_res_append take_Suc_conv_app_nth)
  qed
  from this [of "length a"] show ?thesis
    by simp
qed

lemma sink_instance:
  assumes "devices_ok c"
  shows "AvInstance_GetSinkInstanceForAudioSource c s = Inr (av_instance_with c s)"
proof -
  let ?g = "\<lambda>d i. if source_of c d = s \<and> instance_of c device_property_av_instance d \<noteq> 0
     then instance_of c device_property_av_instance d else i"
  have act: "avInstance_SearchForAvInstanceWithAudioSource c s d (Inr i) = Inr (?g d i)"
    if "d \<in> set (Device_List.slots (trusted c))" "d \<noteq> 0" for d i
  proof -
    have d: "listed c d"
      using that by (simp add: listed_def)
    have "DeviceProperties_GetAudioSource c d = Inr (source_of c d)"
      using GetProperty_of [OF assms d] that(2)
      by (simp add: DeviceProperties_GetAudioSource_def source_of_def split: option.splits)
    then show ?thesis
      using instance_for [OF assms d, of device_property_av_instance]
      by (simp add: avInstance_SearchForAvInstanceWithAudioSource_def AvInstance_GetInstanceForDevice_def)
  qed
  have n: "num_slots (trusted c) = length (Device_List.slots (trusted c))"
    using assms by (simp add: devices_ok_def dl_ok_def)
  have "fold (\<lambda>d x. if d \<noteq> 0 then ?g d x else x) xs 0 = fold (\<lambda>d i.
     if d \<noteq> 0 \<and> source_of c d = s \<and> instance_of c device_property_av_instance d \<noteq> 0
     then instance_of c device_property_av_instance d else i) xs 0" for xs
    by (intro fold_cong) auto
  then show ?thesis
    using iterate_fold [of "Device_List.slots (trusted c)" "avInstance_SearchForAvInstanceWithAudioSource c s" ?g 0, OF act]
    by (simp add: AvInstance_GetSinkInstanceForAudioSource_def DeviceList_Iterate_def n av_instance_with_def)
qed

text \<open>The devices that hold the volumes of the sources; a source without one is not connected.\<close>

definition a2dp_device :: "headset_devices \<Rightarrow> nat \<Rightarrow> nat" where
  "a2dp_device c s = (let i = av_instance_with c s in
     if i \<noteq> 0 then first_with c device_property_bdaddr (btDevice_SanitiseBdAddr (av_address c i)) else 0)"

definition hfp_instance :: "headset_devices \<Rightarrow> nat \<Rightarrow> u32" where
  "hfp_instance c s = (let d = first_with c device_property_voice_source (enum_octets s) in
     if s \<noteq> 0 \<and> d \<noteq> 0 then instance_of c device_property_hfp_instance d else 0)"

definition hfp_device :: "headset_devices \<Rightarrow> nat \<Rightarrow> nat" where
  "hfp_device c s = (let i = hfp_instance c s in
     if i \<noteq> 0 then first_with c device_property_hfp_instance (bytes32 i) else 0)"

definition self_device :: "headset_devices \<Rightarrow> nat" where
  "self_device c = first_with c device_property_type (enum_octets DEVICE_TYPE_SELF)"

lemmas property_ids = device_property_bdaddr_def device_property_audio_volume_def device_property_type_def
  device_property_av_instance_def device_property_audio_source_def device_property_hfp_instance_def
  device_property_voice_source_def device_property_voice_volume_def device_property_analog_audio_volume_def

lemma other_keys [simp]:
  "device_property_bdaddr \<notin> volume_keys" "device_property_type \<notin> volume_keys" "device_property_av_instance \<notin> volume_keys"
  "device_property_audio_source \<notin> volume_keys" "device_property_hfp_instance \<notin> volume_keys"
  "device_property_voice_source \<notin> volume_keys"
  by (simp_all add: volume_keys_def property_ids)

lemma volume_keys_differ [simp]:
  "device_property_audio_volume \<noteq> device_property_analog_audio_volume"
  "device_property_voice_volume \<noteq> device_property_analog_audio_volume"
  by (simp_all add: property_ids)

lemma volume_keys_in [simp]:
  "device_property_audio_volume \<in> volume_keys" "device_property_voice_volume \<in> volume_keys"
  "device_property_analog_audio_volume \<in> volume_keys"
  by (simp_all add: volume_keys_def)

lemma same_finds:
  assumes "same_devices c c'"
  shows "a2dp_device c' s = a2dp_device c s" and "hfp_device c' s = hfp_device c s" and "hfp_instance c' s = hfp_instance c s"
    and "self_device c' = self_device c"
proof -
  note same = first_same [OF assms other_keys(1)] first_same [OF assms other_keys(2)] first_same [OF assms other_keys(5)]
    first_same [OF assms other_keys(6)]
  have p: "\<And>d k. k \<notin> volume_keys \<Longrightarrow> property_of c' d k = property_of c d k" "trusted c' = trusted c" "av_address c' = av_address c"
    using assms by (simp_all add: same_devices_def)
  have at_devices: "source_of c' = source_of c" "instance_of c' device_property_av_instance = instance_of c device_property_av_instance"
    "instance_of c' device_property_hfp_instance = instance_of c device_property_hfp_instance"
    by (simp_all add: fun_eq_iff source_of_def instance_of_def p)
  have av: "av_instance_with c' s = av_instance_with c s"
    unfolding av_instance_with_def at_devices p(2) by (rule refl)
  show hfp: "hfp_instance c' s = hfp_instance c s"
    unfolding hfp_instance_def same at_devices by (rule refl)
  show "a2dp_device c' s = a2dp_device c s" "hfp_device c' s = hfp_device c s" "self_device c' = self_device c"
    unfolding a2dp_device_def hfp_device_def self_device_def same av hfp p(3) by (rule refl)+
qed

lemma finds_listed:
  "a2dp_device c s \<noteq> 0 \<Longrightarrow> listed c (a2dp_device c s)"
  "hfp_device c s \<noteq> 0 \<Longrightarrow> listed c (hfp_device c s)"
  "self_device c \<noteq> 0 \<Longrightarrow> listed c (self_device c)"
  unfolding a2dp_device_def hfp_device_def self_device_def Let_def by (auto simp del: neq0_conv split: if_splits intro: first_listed)

lemma finds:
  assumes "devices_ok c"
  shows "a2dpProfile_GetDevice c s = Inr (a2dp_device c s)"
    and "HfpProfileInstance_GetInstanceForSource c s = Inr (hfp_instance c s)"
    and "hfp_instance c s \<noteq> 0 \<Longrightarrow> HfpProfileInstance_FindDeviceFromInstance c (hfp_instance c s) = Inr (hfp_device c s)"
    and "BtDevice_GetSelfDevice c = Inr (self_device c)"
proof -
  note first = first_device_with [OF assms]
  show "a2dpProfile_GetDevice c s = Inr (a2dp_device c s)"
    by (simp add: a2dpProfile_GetDevice_def sink_instance [OF assms] BtDevice_GetDeviceForBdAddr_def first a2dp_device_def)
  show "HfpProfileInstance_GetInstanceForSource c s = Inr (hfp_instance c s)"
    using instance_for [OF assms first_listed, of device_property_voice_source "enum_octets s" device_property_hfp_instance]
    by (simp add: HfpProfileInstance_GetInstanceForSource_def HfpProfileInstance_FindDeviceFromVoiceSource_def first
        hfp_instance_def HfpProfileInstance_GetInstanceForDevice_def)
  show "HfpProfileInstance_FindDeviceFromInstance c (hfp_instance c s) = Inr (hfp_device c s)" if "hfp_instance c s \<noteq> 0"
    using that by (simp add: HfpProfileInstance_FindDeviceFromInstance_def first hfp_device_def)
  show "BtDevice_GetSelfDevice c = Inr (self_device c)"
    by (simp add: BtDevice_GetSelfDevice_def first self_device_def)
qed

section \<open>The contract\<close>

definition scaled :: "volume_config \<Rightarrow> u8 \<Rightarrow> int" where
  "scaled cfg x = converted \<lparr>config = DEVICE_AUDIO_VOLUME_CONFIG, vvalue = uint x\<rparr> cfg"

definition a2dp_level :: "headset_devices \<Rightarrow> nat \<Rightarrow> volume" where
  "a2dp_level c s = (case if a2dp_device c s = 0 then None else property_of c (a2dp_device c s) device_property_audio_volume of
     None \<Rightarrow> A2dpProfile_GetDefaultVolume
   | Some v \<Rightarrow> \<lparr>config = A2DP_VOLUME_CONFIG, vvalue = scaled A2DP_VOLUME_CONFIG (v ! 0)\<rparr>)"

definition hfp_level :: "headset_devices \<Rightarrow> nat \<Rightarrow> volume" where
  "hfp_level c s = \<lparr>config = HFP_VOLUME_CONFIG,
     vvalue = (case if hfp_device c s = 0 then None else property_of c (hfp_device c s) device_property_voice_volume of
       None \<Rightarrow> 0 | Some v \<Rightarrow> scaled HFP_VOLUME_CONFIG (v ! 0))\<rparr>"

definition wired_level :: "headset_devices \<Rightarrow> nat \<Rightarrow> volume" where
  "wired_level c s = \<lparr>config = WA_VOLUME_CONFIG,
     vvalue = (if s = audio_source_line_in
       then (case if self_device c = 0 then None else property_of c (self_device c) device_property_analog_audio_volume of
         None \<Rightarrow> WIRED_AUDIO_DEFAULT_VOLUME | Some v \<Rightarrow> uint (v ! 0))
       else 0)\<rparr>"

definition usb_level :: "(usb_audio_info \<Rightarrow> (nat \<times> u8) option) \<Rightarrow> headset_devices \<Rightarrow> nat \<Rightarrow> volume" where
  "usb_level part c s = \<lparr>config = USB_AUDIO_VOLUME_CONFIG,
     vvalue = (case find_index (\<lambda>u. case part u of Some (s', _) \<Rightarrow> s' = s | None \<Rightarrow> False) (usb_audio c) of
       Some i \<Rightarrow> if s = 3 then uint (snd (the (part (usb_audio c ! i)))) else 0 | None \<Rightarrow> 0)\<rparr>"

definition headset_level :: "ptr \<Rightarrow> nat \<Rightarrow> headset_devices \<Rightarrow> volume" where
  "headset_level p s c =
     (if p = A2DP_TABLE then a2dp_level c s
      else if p = HFP_TABLE then hfp_level c s
      else if p = USB_AUDIO_TABLE then usb_level headphone c s
      else if p = USB_VOICE_TABLE then usb_level headset c s
      else if p = WIRED_TABLE then wired_level c s
      else FULL_SCALE_VOLUME)"

definition headset_connected :: "ptr \<Rightarrow> nat \<Rightarrow> headset_devices \<Rightarrow> bool" where
  "headset_connected p s c =
     (if p = A2DP_TABLE then a2dp_device c s \<noteq> 0
      else if p = HFP_TABLE then hfp_device c s \<noteq> 0
      else if p = USB_AUDIO_TABLE then s = 3 \<and> UsbAudioFd_GetHeadphoneInfo c s \<noteq> None
      else if p = USB_VOICE_TABLE then s = 3 \<and> UsbAudioFd_GetHeadsetInfo c s \<noteq> None
      else p = WIRED_TABLE \<and> s = audio_source_line_in \<and> self_device c \<noteq> 0)"

lemmas volume_configs = DEVICE_AUDIO_VOLUME_CONFIG_def DEVICE_VOICE_VOLUME_CONFIG_def A2DP_VOLUME_CONFIG_def
  HFP_VOLUME_CONFIG_def USB_AUDIO_VOLUME_CONFIG_def WA_VOLUME_CONFIG_def

lemma configs_ok:
  "config_ok DEVICE_AUDIO_VOLUME_CONFIG" "config_ok A2DP_VOLUME_CONFIG" "config_ok HFP_VOLUME_CONFIG"
  "config_ok USB_AUDIO_VOLUME_CONFIG" "config_ok WA_VOLUME_CONFIG"
  "step_of DEVICE_AUDIO_VOLUME_CONFIG = 1" "step_of A2DP_VOLUME_CONFIG = 1" "step_of HFP_VOLUME_CONFIG = 1"
  "step_of USB_AUDIO_VOLUME_CONFIG = 1" "step_of WA_VOLUME_CONFIG = 1"
  by (simp_all add: config_ok_def step_of_def extent_def volume_configs)

lemma voice_config: "DEVICE_VOICE_VOLUME_CONFIG = DEVICE_AUDIO_VOLUME_CONFIG"
  by (simp add: volume_configs)

lemma device_volume_ok: "volume_ok \<lparr>config = DEVICE_AUDIO_VOLUME_CONFIG, vvalue = uint (x :: u8)\<rparr>"
  using configs_ok(1) uint_lt2p [of x] by (simp add: volume_ok_def DEVICE_AUDIO_VOLUME_CONFIG_def)

lemma scaled_convert:
  assumes "config_ok cfg"
  shows "VolumeUtils_ConvertToVolumeConfig \<lparr>config = DEVICE_AUDIO_VOLUME_CONFIG, vvalue = uint x\<rparr> cfg = Inr (scaled cfg x)"
    and "range_min (vrange cfg) \<le> scaled cfg x" and "scaled cfg x \<le> range_max (vrange cfg)"
  using convert_eq [OF device_volume_ok assms] converted_range [OF device_volume_ok assms] by (simp_all add: scaled_def)

text \<open>A volume in the range of a profile survives the octet it is stored in.\<close>

lemma stored_volume:
  assumes v: "unit_volume v" and w: "range_max (vrange (config v)) \<le> 255"
  shows "\<exists>x. VolumeUtils_ConvertToVolumeConfig v DEVICE_AUDIO_VOLUME_CONFIG = Inr x \<and> 0 \<le> x \<and> x \<le> 255 \<and>
    scaled (config v) (word_of_int x) = vvalue v"
proof -
  have ok: "volume_ok v" "config_ok (config v)" "step_of (config v) = 1" "range_min (vrange (config v)) = 0"
    using v by (simp_all add: unit_volume_def volume_ok_def)
  have st: "VolumeUtils_GetStepSize (config v) = 1" "VolumeUtils_GetStepSize DEVICE_AUDIO_VOLUME_CONFIG = 1"
    using ok configs_ok(1,6) by (simp_all add: step_size_eq)
  have ext: "extent (config v) \<le> extent DEVICE_AUDIO_VOLUME_CONFIG"
    using w ok(4) by (simp add: extent_def DEVICE_AUDIO_VOLUME_CONFIG_def)
  obtain x where x: "VolumeUtils_ConvertToVolumeConfig v DEVICE_AUDIO_VOLUME_CONFIG = Inr x"
    "VolumeUtils_ConvertToVolumeConfig \<lparr>config = DEVICE_AUDIO_VOLUME_CONFIG, vvalue = x\<rparr> (config v) = Inr (vvalue v)"
    using convert_back [OF ok(1) configs_ok(1) st ext] by blast
  have r: "0 \<le> x" "x \<le> 255"
    using convert_in_range [OF ok(1) configs_ok(1)] x(1) by (auto simp: DEVICE_AUDIO_VOLUME_CONFIG_def)
  then have "uint (word_of_int x :: u8) = x"
    by (simp add: uint_word_of_int)
  then show ?thesis
    using x r scaled_convert(1) [OF ok(2), of "word_of_int x"] by auto
qed

lemma headset_levels_ok:
  assumes "devices_ok c"
  shows "unit_volume (headset_level p s c)"
proof -
  have default: "unit_volume A2dpProfile_GetDefaultVolume"
    using configs_ok by (simp add: unit_volume_def volume_ok_def A2dpProfile_GetDefaultVolume_def A2DP_VOLUME_CONFIG_def
        appConfigDefaultVolumedB_def appConfigMinVolumedB_def appConfigMaxVolumedB_def sdiv_pos)
  have a2dp: "unit_volume (a2dp_level c s)"
    using default scaled_convert(2,3) [OF configs_ok(2)] configs_ok(2,7)
    by (auto simp: a2dp_level_def unit_volume_def volume_ok_def A2DP_VOLUME_CONFIG_def split: option.splits)
  have hfp: "unit_volume (hfp_level c s)"
    using scaled_convert(2,3) [OF configs_ok(3)] configs_ok(3,8)
    by (auto simp: hfp_level_def unit_volume_def volume_ok_def HFP_VOLUME_CONFIG_def split: option.splits)
  have bound: "x \<le> 15 \<Longrightarrow> uint x \<le> 15" "x \<le> 100 \<Longrightarrow> uint x \<le> 100" for x :: u8
    by (simp_all add: word_le_def)
  have wired: "unit_volume (wired_level c s)"
  proof -
    have "v ! 0 \<le> 15" if "property_of c (self_device c) device_property_analog_audio_volume = Some v" "self_device c \<noteq> 0" for v
    proof -
      note self = finds_listed(3) [OF that(2)]
      obtain l where "device_ok l" "property_of c (self_device c) = kv_lookup l"
        by (rule devices_okD [OF assms self])
      then show ?thesis
        using that(1) by (simp add: device_ok_def)
    qed
    then show ?thesis
      using configs_ok(5,10) bound(1)
      by (auto simp: wired_level_def unit_volume_def volume_ok_def WA_VOLUME_CONFIG_def WIRED_AUDIO_DEFAULT_VOLUME_def
          split: option.splits)
  qed
  have usb: "unit_volume (usb_level part c s)" if part: "part = headphone \<or> part = headset" for part
  proof -
    have "uint (snd (the (part (usb_audio c ! i)))) \<le> 100"
      if "find_index (\<lambda>u. case part u of Some (s', _) \<Rightarrow> s' = s | None \<Rightarrow> False) (usb_audio c) = Some i" for i
    proof -
      have "usb_ok (usb_audio c ! i)"
        using assms find_index_SomeD [OF that] by (simp add: devices_ok_def list_all_length)
      then show ?thesis
        using find_index_SomeD [OF that] bound(2) part by (auto simp: usb_ok_def split: option.splits prod.splits)
    qed
    then show ?thesis
      using configs_ok(4,9)
      by (auto simp: usb_level_def unit_volume_def volume_ok_def USB_AUDIO_VOLUME_CONFIG_def split: option.splits)
  qed
  have "unit_volume FULL_SCALE_VOLUME"
    by (simp add: unit_volume_def FULL_SCALE_VOLUME_def volume_ok_def config_ok_def step_of_def extent_def)
  then show ?thesis
    using a2dp hfp wired usb by (simp add: headset_level_def)
qed

lemma log_call_keeps [simp]:
  "devices_ok (log_call x c) = devices_ok c" "same_devices c' (log_call x c) = same_devices c' c"
  "property_of (log_call x c) = property_of c" "usb_audio (log_call x c) = usb_audio c"
  by (auto simp: log_call_def devices_ok_def same_devices_def property_of_def listed_def fun_eq_iff)

lemma same_refl: "same_devices c c"
  by (simp add: same_devices_def)

lemma same_connected:
  assumes "same_devices c c'" and "usb_audio c' = usb_audio c"
  shows "headset_connected q u c' = headset_connected q u c"
  using assms by (simp add: headset_connected_def same_finds UsbAudioFd_GetHeadphoneInfo_def UsbAudioFd_GetHeadsetInfo_def)

lemma level_config:
  "config (headset_level p s c) =
     (if p = A2DP_TABLE then A2DP_VOLUME_CONFIG
      else if p = HFP_TABLE then HFP_VOLUME_CONFIG
      else if p = USB_AUDIO_TABLE \<or> p = USB_VOICE_TABLE then USB_AUDIO_VOLUME_CONFIG
      else if p = WIRED_TABLE then WA_VOLUME_CONFIG
      else config FULL_SCALE_VOLUME)"
  by (simp add: headset_level_def a2dp_level_def hfp_level_def usb_level_def wired_level_def A2dpProfile_GetDefaultVolume_def
      split: option.splits)

lemma same_levels:
  assumes "same_devices c c'" and "usb_audio c' = usb_audio c"
    and "\<And>d. property_of c' d device_property_audio_volume = property_of c d device_property_audio_volume"
    and "\<And>d. property_of c' d device_property_voice_volume = property_of c d device_property_voice_volume"
    and "wired_level c' s = wired_level c s"
  shows "headset_level p s c' = headset_level p s c"
proof -
  have "a2dp_level c' s = a2dp_level c s" "hfp_level c' s = hfp_level c s"
    unfolding a2dp_level_def hfp_level_def same_finds [OF assms(1)] assms(3,4) by (rule refl)+
  moreover have "usb_level part c' s = usb_level part c s" for part
    unfolding usb_level_def assms(2) by (rule refl)
  ultimately show ?thesis
    using assms(5) by (simp add: headset_level_def)
qed

lemma log_call_levels [simp]:
  "headset_level q u (log_call x c) = headset_level q u c" "headset_connected q u (log_call x c) = headset_connected q u c"
proof -
  have same: "same_devices c (log_call x c)"
    by (simp add: same_refl)
  have "wired_level (log_call x c) u = wired_level c u"
    unfolding wired_level_def same_finds [OF same] log_call_keeps by (rule refl)
  with same show "headset_level q u (log_call x c) = headset_level q u c"
    by (intro same_levels) simp_all
  show "headset_connected q u (log_call x c) = headset_connected q u c"
    by (rule same_connected [OF same]) simp
qed

lemma get_audio_volume:
  assumes "devices_ok c" and "d \<noteq> 0 \<Longrightarrow> listed c d" and "config_ok cfg"
  shows "DeviceProperties_GetAudioVolume d cfg c = Inr (case if d = 0 then None else property_of c d device_property_audio_volume of
      None \<Rightarrow> None | Some v \<Rightarrow> Some \<lparr>config = cfg, vvalue = scaled cfg (v ! 0)\<rparr>)"
    and "DeviceProperties_GetVoiceVolume d cfg c = Inr (case if d = 0 then None else property_of c d device_property_voice_volume of
      None \<Rightarrow> None | Some v \<Rightarrow> Some \<lparr>config = cfg, vvalue = scaled cfg (v ! 0)\<rparr>)"
  using GetU8_of [OF assms(1,2)] scaled_convert(1) [OF assms(3)]
  by (auto simp: DeviceProperties_GetAudioVolume_def DeviceProperties_GetVoiceVolume_def voice_config split: option.splits)

lemma set_audio_volume:
  assumes "devices_ok c" and "d \<noteq> 0 \<Longrightarrow> listed c d" and "unit_volume v" and "range_max (vrange (config v)) \<le> 255"
  shows "\<exists>c' b. DeviceProperties_SetAudioVolume d v c = Inr (c', b) \<and> devices_ok c' \<and> same_devices c c' \<and> usb_audio c' = usb_audio c \<and>
      (d \<noteq> 0 \<longrightarrow> (\<exists>x. property_of c' d device_property_audio_volume = Some [x] \<and> scaled (config v) x = vvalue v))"
    and "\<exists>c' b. DeviceProperties_SetVoiceVolume d v c = Inr (c', b) \<and> devices_ok c' \<and> same_devices c c' \<and> usb_audio c' = usb_audio c \<and>
      (d \<noteq> 0 \<longrightarrow> (\<exists>x. property_of c' d device_property_voice_volume = Some [x] \<and> scaled (config v) x = vvalue v))"
proof -
  obtain x where x: "VolumeUtils_ConvertToVolumeConfig v DEVICE_AUDIO_VOLUME_CONFIG = Inr x" "0 \<le> x" "x \<le> 255"
    "scaled (config v) (word_of_int x) = vvalue v"
    using stored_volume [OF assms(3,4)] by blast
  have set: "\<exists>c'. set_volume_property d k x c = Inr (c', True) \<and> devices_ok c' \<and> same_devices c c' \<and> usb_audio c' = usb_audio c \<and>
      property_of c' d k = Some [word_of_int x]"
    if "d \<noteq> 0" "k \<in> volume_keys" "k \<noteq> device_property_analog_audio_volume" for k
    using set_volume_property_ok [OF assms(1,2) that(2) x(2,3)] that by (auto simp: fun_upd_same)
  show "\<exists>c' b. DeviceProperties_SetAudioVolume d v c = Inr (c', b) \<and> devices_ok c' \<and> same_devices c c' \<and> usb_audio c' = usb_audio c \<and>
      (d \<noteq> 0 \<longrightarrow> (\<exists>x. property_of c' d device_property_audio_volume = Some [x] \<and> scaled (config v) x = vvalue v))"
    using set [of device_property_audio_volume] x(1,4) assms(1)
    by (cases "d = 0") (auto simp: DeviceProperties_SetAudioVolume_def same_refl)
  show "\<exists>c' b. DeviceProperties_SetVoiceVolume d v c = Inr (c', b) \<and> devices_ok c' \<and> same_devices c c' \<and> usb_audio c' = usb_audio c \<and>
      (d \<noteq> 0 \<longrightarrow> (\<exists>x. property_of c' d device_property_voice_volume = Some [x] \<and> scaled (config v) x = vvalue v))"
    using set [of device_property_voice_volume] x(1,4) assms(1)
    by (cases "d = 0") (auto simp: DeviceProperties_SetVoiceVolume_def voice_config same_refl)
qed

lemma wired_get:
  assumes "devices_ok c"
  shows "\<exists>c'. wiredAudio_GetVolume s c = Inr (wired_level c s, c') \<and> devices_ok c' \<and>
    (\<forall>q u. headset_level q u c' = headset_level q u c \<and> headset_connected q u c' = headset_connected q u c)"
proof -
  let ?k = device_property_analog_audio_volume
  let ?d = "self_device c"
  show ?thesis
  proof (cases "s = audio_source_line_in \<and> ?d \<noteq> 0 \<and> property_of c ?d ?k = None")
    case True
    then have set: "s = audio_source_line_in" "?d \<noteq> 0" "property_of c ?d ?k = None"
      by simp_all
    obtain c' where c': "set_volume_property ?d ?k WIRED_AUDIO_DEFAULT_VOLUME c = Inr (c', True)" "devices_ok c'" "same_devices c c'"
      "usb_audio c' = usb_audio c" "property_of c' = (property_of c)(?d := (property_of c ?d)(?k \<mapsto> [10]))"
      using set_volume_property_ok [OF assms finds_listed(3) [OF set(2)], of ?k WIRED_AUDIO_DEFAULT_VOLUME]
      by (auto simp: WIRED_AUDIO_DEFAULT_VOLUME_def)
    have keys: "property_of c' d device_property_audio_volume = property_of c d device_property_audio_volume"
      "property_of c' d device_property_voice_volume = property_of c d device_property_voice_volume" for d
      using volume_keys_differ by (auto simp: c'(5))
    have "wired_level c' u = wired_level c u" for u
      using set(2,3) by (simp add: wired_level_def same_finds [OF c'(3)] c'(5) WIRED_AUDIO_DEFAULT_VOLUME_def)
    note lv = same_levels [OF c'(3,4) keys this]
    let ?c = "log_call (SerialiseDevice ?d) c'"
    have "wiredAudio_GetVolume s c = Inr (wired_level c s, ?c)"
      using set GetU8_of [OF assms finds_listed(3) [OF set(2)], of ?k] c'(1)
      by (simp add: wiredAudio_GetVolume_def finds(4) [OF assms] wired_level_def WIRED_AUDIO_DEFAULT_VOLUME_def)
    then show ?thesis
      using c'(2) lv same_connected [OF c'(3,4)] by simp
  next
    case False
    then have "wiredAudio_GetVolume s c = Inr (wired_level c s, c)"
      using GetU8_of [OF assms finds_listed(3), of ?k]
      by (auto simp: wiredAudio_GetVolume_def finds(4) [OF assms] wired_level_def split: option.splits)
    then show ?thesis
      using assms by simp
  qed
qed

lemma headset_get:
  assumes "devices_ok c" and "get_volume_of p = Some f"
  shows "\<exists>c'. f s c = Inr (headset_level p s c, c') \<and> devices_ok c' \<and>
    (\<forall>q u. headset_level q u c' = headset_level q u c \<and> headset_connected q u c' = headset_connected q u c)"
proof -
  have a2dp: "a2dpProfile_GetVolume s c = Inr (a2dp_level c s, c)"
    using get_audio_volume(1) [OF assms(1) finds_listed(1) configs_ok(2), of s]
    by (simp add: a2dpProfile_GetVolume_def finds(1) [OF assms(1)] a2dp_level_def split: option.splits)
  have hfp: "hfpProfile_GetVolume s c = Inr (hfp_level c s, c)"
    using get_audio_volume(2) [OF assms(1) finds_listed(2) configs_ok(3), of s] finds(3) [OF assms(1), of s]
    by (auto simp: hfpProfile_GetVolume_def finds(2) [OF assms(1)] hfp_level_def hfp_device_def Let_def split: option.splits)
  have usb: "usbAudio_GetVolume s c = Inr (usb_level headphone c s, c)" "usbVoice_GetVolume s c = Inr (usb_level headset c s, c)"
    unfolding usbAudio_GetVolume_def usbVoice_GetVolume_def usb_level_def UsbAudioFd_GetHeadphoneInfo_def
      UsbAudioFd_GetHeadsetInfo_def audio_source_usb_def voice_source_usb_def by (rule refl)+
  have keeps: ?thesis if "f s c = Inr (headset_level p s c, c)"
    using that assms(1) by simp
  from assms(2) consider "p = A2DP_TABLE" "f = a2dpProfile_GetVolume" | "p = HFP_TABLE" "f = hfpProfile_GetVolume"
    | "p = USB_AUDIO_TABLE" "f = usbAudio_GetVolume" | "p = USB_VOICE_TABLE" "f = usbVoice_GetVolume"
    | "p = WIRED_TABLE" "f = wiredAudio_GetVolume"
    unfolding get_volume_of_def by (simp split: if_splits)
  then show ?thesis
  proof cases
    case 5
    then show ?thesis
      using wired_get [OF assms(1), of s] by (simp add: headset_level_def table_defs)
  qed (rule keeps, simp add: a2dp hfp usb headset_level_def table_defs)+
qed

subsection \<open>Writing\<close>

lemma levels_config: "config (headset_level q u c') = config (headset_level q u c)"
  by (simp only: level_config)

lemma usb_index: "find_index (\<lambda>u. case part u of Some (s', _) \<Rightarrow> s' = s | None \<Rightarrow> False) us =
    find_index (\<lambda>x. x = Some s) (map (\<lambda>u. map_option fst (part u)) us)"
  by (induction us) (auto split: option.splits)

lemma usb_update:
  assumes us: "find_index (\<lambda>u. case part u of Some (s', _) \<Rightarrow> s' = s | None \<Rightarrow> False) (usb_audio c) = Some i"
    and c': "c' = c\<lparr>usb_audio := (usb_audio c)[i := y]\<rparr>"
    and y: "usb_ok y" "map_option fst (headphone y) = map_option fst (headphone (usb_audio c ! i))"
    "map_option fst (headset y) = map_option fst (headset (usb_audio c ! i))"
    and ok: "devices_ok c"
  shows "devices_ok c'" and "headset_connected q u c' = headset_connected q u c"
    and "map_option fst (part y) = Some s \<Longrightarrow>
      find_index (\<lambda>u. case part u of Some (s', _) \<Rightarrow> s' = s | None \<Rightarrow> False) (usb_audio c') = Some i"
    and "usb_audio c' ! i = y"
proof -
  have i: "i < length (usb_audio c)"
    using find_index_SomeD [OF us] by simp
  have same: "same_devices c c'"
    by (auto simp: same_devices_def c' property_of_def)
  have "list_all usb_ok (usb_audio c')"
    using ok y(1) set_update_subset_insert [of "usb_audio c" i y] by (auto simp: c' devices_ok_def list_all_iff)
  then show "devices_ok c'"
    using ok by (simp add: devices_ok_def c' listed_def)
  have parts: "map (\<lambda>u. map_option fst (headphone u)) (usb_audio c') = map (\<lambda>u. map_option fst (headphone u)) (usb_audio c)"
    "map (\<lambda>u. map_option fst (headset u)) (usb_audio c') = map (\<lambda>u. map_option fst (headset u)) (usb_audio c)"
    using i y(2,3) by (simp_all add: c' map_update list_update_same_conv nth_map)
  then show "headset_connected q u c' = headset_connected q u c"
    by (simp add: headset_connected_def same_finds [OF same] UsbAudioFd_GetHeadphoneInfo_def UsbAudioFd_GetHeadsetInfo_def
        usb_index)
  show "find_index (\<lambda>u. case part u of Some (s', _) \<Rightarrow> s' = s | None \<Rightarrow> False) (usb_audio c') = Some i"
    if "map_option fst (part y) = Some s"
  proof -
    have "map (\<lambda>u. map_option fst (part u)) (usb_audio c') = map (\<lambda>u. map_option fst (part u)) (usb_audio c)"
      using find_index_SomeD [OF us] i that by (auto simp: c' map_update list_update_same_conv nth_map split: option.splits)
    then show ?thesis
      using us by (simp add: usb_index)
  qed
  show "usb_audio c' ! i = y"
    using i by (simp add: c')
qed

definition writes :: "ptr \<Rightarrow> nat \<Rightarrow> volume \<Rightarrow> headset_devices \<Rightarrow> headset_devices \<Rightarrow> bool" where
  "writes p s v c c' \<longleftrightarrow> devices_ok c' \<and> (\<forall>q u. headset_connected q u c' = headset_connected q u c) \<and>
     (headset_connected p s c \<longrightarrow> headset_level p s c' = v)"

lemma set_a2dp:
  assumes "devices_ok c" and "unit_volume v" and "config v = A2DP_VOLUME_CONFIG"
  shows "\<exists>c'. a2dpProfile_SetVolume s v c = Inr c' \<and> writes A2DP_TABLE s v c c'"
proof -
  have r: "range_max (vrange (config v)) \<le> 255"
    by (simp add: assms(3) A2DP_VOLUME_CONFIG_def)
  obtain c' b where c': "DeviceProperties_SetAudioVolume (a2dp_device c s) v c = Inr (c', b)" "devices_ok c'" "same_devices c c'"
    "usb_audio c' = usb_audio c"
    "a2dp_device c s \<noteq> 0 \<longrightarrow> (\<exists>x. property_of c' (a2dp_device c s) device_property_audio_volume = Some [x] \<and> scaled (config v) x = vvalue v)"
    using set_audio_volume(1) [OF assms(1) finds_listed(1) assms(2) r, of s] by blast
  have "headset_level A2DP_TABLE s c' = v" if "a2dp_device c s \<noteq> 0"
    using that c'(5) assms(3) by (auto simp: headset_level_def a2dp_level_def same_finds [OF c'(3)])
  then show ?thesis
    using c'(1,2) same_connected [OF c'(3,4)]
    by (auto simp: a2dpProfile_SetVolume_def finds(1) [OF assms(1)] writes_def) (simp add: headset_connected_def)
qed

lemma set_hfp:
  assumes "devices_ok c" and "unit_volume v" and "config v = HFP_VOLUME_CONFIG"
  shows "\<exists>c'. hfpProfile_SetVolume s v c = Inr c' \<and> writes HFP_TABLE s v c c'"
proof (cases "hfp_instance c s = 0")
  case True
  then have "hfp_device c s = 0"
    by (simp add: hfp_device_def)
  with True assms(1) show ?thesis
    by (simp add: hfpProfile_SetVolume_def finds(2) [OF assms(1)] writes_def headset_connected_def table_defs)
next
  case False
  have r: "range_max (vrange (config v)) \<le> 255"
    by (simp add: assms(3) HFP_VOLUME_CONFIG_def)
  obtain c' b where c': "DeviceProperties_SetVoiceVolume (hfp_device c s) v c = Inr (c', b)" "devices_ok c'" "same_devices c c'"
    "usb_audio c' = usb_audio c"
    "hfp_device c s \<noteq> 0 \<longrightarrow> (\<exists>x. property_of c' (hfp_device c s) device_property_voice_volume = Some [x] \<and> scaled (config v) x = vvalue v)"
    using set_audio_volume(2) [OF assms(1) finds_listed(2) assms(2) r, of s] by blast
  have "headset_level HFP_TABLE s c' = v" if "hfp_device c s \<noteq> 0"
    using that c'(5) assms(3) by (auto simp: headset_level_def hfp_level_def same_finds [OF c'(3)] table_defs)
  then show ?thesis
    using False c'(1,2) same_connected [OF c'(3,4)]
    by (auto simp: hfpProfile_SetVolume_def finds(2,3) [OF assms(1)] writes_def) (simp add: headset_connected_def table_defs)
qed

lemma set_wired:
  assumes "devices_ok c" and "unit_volume v" and "config v = WA_VOLUME_CONFIG"
  shows "\<exists>c'. wiredAudio_SetVolume s v c = Inr c' \<and> writes WIRED_TABLE s v c c'"
proof (cases "s = audio_source_line_in \<and> self_device c \<noteq> 0")
  case True
  let ?k = device_property_analog_audio_volume
  have r: "0 \<le> vvalue v" "vvalue v \<le> 15"
    using unit_steps(4,5) [OF assms(2)] by (simp_all add: assms(3) WA_VOLUME_CONFIG_def)
  obtain c' where c': "set_volume_property (self_device c) ?k (vvalue v) c = Inr (c', True)" "devices_ok c'" "same_devices c c'"
    "usb_audio c' = usb_audio c"
    "property_of c' = (property_of c)(self_device c := (property_of c (self_device c))(?k \<mapsto> [word_of_int (vvalue v)]))"
    using set_volume_property_ok [OF assms(1) finds_listed(3), of ?k "vvalue v"] True r by auto
  have "uint (word_of_int (vvalue v) :: u8) = vvalue v"
    using r by (simp add: uint_word_of_int)
  then have "headset_level WIRED_TABLE s c' = v"
    using True assms(3) by (simp add: headset_level_def wired_level_def same_finds [OF c'(3)] c'(5) table_defs)
  then show ?thesis
    using True c'(1,2) same_connected [OF c'(3,4)]
    by (simp add: wiredAudio_SetVolume_def finds(4) [OF assms(1)] writes_def)
next
  case False
  then show ?thesis
    using assms(1)
    by (auto simp: wiredAudio_SetVolume_def finds(4) [OF assms(1)] writes_def headset_connected_def table_defs)
qed

lemma set_usb:
  assumes "devices_ok c" and "unit_volume v" and "config v = USB_AUDIO_VOLUME_CONFIG"
  shows "\<exists>c'. usbAudio_SetVolume s v c = Inr c' \<and> writes USB_AUDIO_TABLE s v c c'"
    and "\<exists>c'. usbVoice_SetVolume s v c = Inr c' \<and> writes USB_VOICE_TABLE s v c c'"
proof -
  have r: "0 \<le> vvalue v" "vvalue v \<le> 100"
    using unit_steps(4,5) [OF assms(2)] by (simp_all add: assms(3) USB_AUDIO_VOLUME_CONFIG_def)
  then have u: "uint (word_of_int (vvalue v) :: u8) = vvalue v" "(word_of_int (vvalue v) :: u8) \<le> 100"
    by (simp_all add: uint_word_of_int word_le_def)
  have old: "usb_ok (usb_audio c ! i)" if "i < length (usb_audio c)" for i
    using assms(1) that by (simp add: devices_ok_def list_all_length)
  show "\<exists>c'. usbAudio_SetVolume s v c = Inr c' \<and> writes USB_AUDIO_TABLE s v c c'"
  proof (cases "if s = 3 then UsbAudioFd_GetHeadphoneInfo c s else None")
    case None
    then show ?thesis
      using assms(1) by (auto simp: usbAudio_SetVolume_def audio_source_usb_def writes_def headset_connected_def table_defs
          split: if_splits option.splits)
  next
    case (Some i)
    then have s: "s = 3"
      by (simp split: if_splits)
    have idx: "find_index (\<lambda>u. case headphone u of Some (s', _) \<Rightarrow> s' = s | None \<Rightarrow> False) (usb_audio c) = Some i"
      using Some s unfolding UsbAudioFd_GetHeadphoneInfo_def [symmetric] by simp
    define y where "y = (usb_audio c ! i)\<lparr>headphone := Some (s, word_of_int (vvalue v))\<rparr>"
    define c' where "c' = c\<lparr>usb_audio := (usb_audio c)[i := y]\<rparr>"
    have y: "usb_ok y" "map_option fst (headphone y) = map_option fst (headphone (usb_audio c ! i))"
      "map_option fst (headset y) = map_option fst (headset (usb_audio c ! i))"
      using find_index_SomeD [OF idx] old u(2) by (auto simp: y_def usb_ok_def split: option.splits)
    note upd = usb_update [OF idx c'_def y assms(1)]
    have "map_option fst (headphone y) = Some s"
      by (simp add: y_def)
    from upd(3) [OF this] have "usb_level headphone c' s = v"
      unfolding usb_level_def using upd(4) s u(1) assms(3) by (simp only: option.case if_True) (simp add: y_def)
    then have "headset_level USB_AUDIO_TABLE s c' = v"
      by (simp add: headset_level_def table_defs)
    moreover have "usbAudio_SetVolume s v c = Inr c'"
      using s idx unfolding UsbAudioFd_GetHeadphoneInfo_def [symmetric]
      by (simp add: usbAudio_SetVolume_def audio_source_usb_def c'_def y_def)
    ultimately show ?thesis
      using upd(1,2) by (simp add: writes_def)
  qed
  show "\<exists>c'. usbVoice_SetVolume s v c = Inr c' \<and> writes USB_VOICE_TABLE s v c c'"
  proof (cases "if s = 3 then UsbAudioFd_GetHeadsetInfo c s else None")
    case None
    then show ?thesis
      using assms(1) by (auto simp: usbVoice_SetVolume_def voice_source_usb_def writes_def headset_connected_def table_defs
          split: if_splits option.splits)
  next
    case (Some i)
    then have s: "s = 3"
      by (simp split: if_splits)
    have idx: "find_index (\<lambda>u. case headset u of Some (s', _) \<Rightarrow> s' = s | None \<Rightarrow> False) (usb_audio c) = Some i"
      using Some s unfolding UsbAudioFd_GetHeadsetInfo_def [symmetric] by simp
    define y where "y = (usb_audio c ! i)\<lparr>headset := Some (s, word_of_int (vvalue v))\<rparr>"
    define c' where "c' = c\<lparr>usb_audio := (usb_audio c)[i := y]\<rparr>"
    have y: "usb_ok y" "map_option fst (headphone y) = map_option fst (headphone (usb_audio c ! i))"
      "map_option fst (headset y) = map_option fst (headset (usb_audio c ! i))"
      using find_index_SomeD [OF idx] old u(2) by (auto simp: y_def usb_ok_def split: option.splits)
    note upd = usb_update [OF idx c'_def y assms(1)]
    have "map_option fst (headset y) = Some s"
      by (simp add: y_def)
    from upd(3) [OF this] have "usb_level headset c' s = v"
      unfolding usb_level_def using upd(4) s u(1) assms(3) by (simp only: option.case if_True) (simp add: y_def)
    then have "headset_level USB_VOICE_TABLE s c' = v"
      by (simp add: headset_level_def table_defs)
    moreover have "usbVoice_SetVolume s v c = Inr c'"
      using s idx unfolding UsbAudioFd_GetHeadsetInfo_def [symmetric]
      by (simp add: usbVoice_SetVolume_def voice_source_usb_def c'_def y_def)
    ultimately show ?thesis
      using upd(1,2) by (simp add: writes_def)
  qed
qed

lemma headset_set:
  assumes "devices_ok c" and "set_volume_of p = Some g" and "unit_volume v" and "config v = config (headset_level p s c)"
  shows "\<exists>c'. g s v c = Inr c' \<and> writes p s v c c'"
proof -
  from assms(2) consider "p = A2DP_TABLE" "g = a2dpProfile_SetVolume" | "p = HFP_TABLE" "g = hfpProfile_SetVolume"
    | "p = USB_AUDIO_TABLE" "g = usbAudio_SetVolume" | "p = USB_VOICE_TABLE" "g = usbVoice_SetVolume"
    | "p = WIRED_TABLE" "g = wiredAudio_SetVolume"
    unfolding set_volume_of_def by (simp split: if_splits)
  then show ?thesis
    by cases (use assms set_a2dp set_hfp set_wired set_usb in \<open>simp_all add: level_config table_defs\<close>)
qed

lemma missing_functions:
  "get_volume_of p = None \<Longrightarrow> headset_level p s c = FULL_SCALE_VOLUME"
  "set_volume_of p = None \<Longrightarrow> \<not> headset_connected p s c"
  by (simp_all add: get_volume_of_def headset_level_def set_volume_of_def headset_connected_def split: if_splits)

interpretation sv: volume_tables "headset_tables controls observers" devices_ok headset_level headset_connected
  for controls :: "ptr \<Rightarrow> control_table" and observers :: "ptr \<Rightarrow> observer_table"
proof unfold_locales
  fix c p f s
  assume "devices_ok c" "GetVolume (volume_tab (headset_tables controls observers) p) = Some f"
  then show "\<exists>c'. f s c = Inr (headset_level p s c, c') \<and> devices_ok c' \<and>
      (\<forall>q u. headset_level q u c' = headset_level q u c \<and> headset_connected q u c' = headset_connected q u c)"
    using headset_get by (simp add: headset_tables_def)
next
  fix c p g v s
  assume "devices_ok c" "SetVolume (volume_tab (headset_tables controls observers) p) = Some g" "unit_volume v"
    "config v = config (headset_level p s c)"
  then show "\<exists>c'. g s v c = Inr c' \<and> devices_ok c' \<and>
      (\<forall>q u. config (headset_level q u c') = config (headset_level q u c) \<and> headset_connected q u c' = headset_connected q u c) \<and>
      (headset_connected p s c \<longrightarrow> headset_level p s c' = v)"
    using headset_set levels_config by (fastforce simp: headset_tables_def writes_def)
qed (simp_all add: headset_tables_def missing_functions headset_levels_ok)

end
