(* ===== verification/Volume_Properties.thy ===== *)
theory Volume_Properties
  imports Volume_Control
begin

text \<open>
  Properties of the volume service on the tables of the headset, for every run of events from the start. The remote
  controls and the observers are arbitrary.
\<close>

section \<open>Safety\<close>

text \<open>
  C14. The volume service on the tables of the headset never faults: from a start with devices in order, every sequence of user inputs,
  deliveries of messages, requests, registrations, changes of focus and of settings runs through, without division
  by zero, panic or access out of bounds; afterwards the devices are in order, and every volume that went to the audio
  chains was within its range.
\<close>

theorem volume_service_safe:
  assumes "devices_ok c" and "list_all (event_ok devices_ok) es"
  shows "\<exists>w. run_service (headset_tables controls observers) es (service_start c) = Inr w \<and>
    devices_ok (client w) \<and> list_all call_ok (calls w)"
  using wpD [OF sv.run_service_wp [OF sv.service_start_ok [OF assms(1)] assms(2), of controls observers]]
  by (auto simp: sv.service_ok_def sv.sources_ok_def)

text \<open>A headset with an empty device list and a USB headphone at volume \<open>50\<close>.\<close>

definition example_devices :: headset_devices where
  "example_devices = \<lparr>trusted = \<lparr>device_list = Some [0, 0], trusted_device_list = 2\<rparr>, properties = Map.empty,
     globals = \<lparr>onPropertySetHandler = None, kv_add_callback = False\<rparr>, beyond = 0,
     av_address = (\<lambda>_. \<lparr>lap = 0, uap = 0, nap = 0\<rparr>), usb_audio = [\<lparr>headphone = Some (3, 50), headset = None\<rparr>], device_calls = []\<rparr>"

definition no_controls :: "ptr \<Rightarrow> control_table" where
  "no_controls p = \<lparr>VolumeUp = False, VolumeDown = False, VolumeSetAbsolute = False, Mute = False\<rparr>"

definition no_observers :: "ptr \<Rightarrow> observer_table" where
  "no_observers p = \<lparr>OnVolumeChange = False, OnAudioRoutingChange = False, OnMuteChange = False\<rparr>"

lemma example_devices_ok: "devices_ok example_devices"
  by (simp add: devices_ok_def example_devices_def dl_ok_def Device_List.slots_def num_slots_def listed_def usb_ok_def
      del: neq0_conv)

definition usb_focus :: generic_source where "usb_focus = source_type_audio 3"

definition example_events :: "(generic_source \<times> headset_devices service_event) list" where
  "example_events = [(usb_focus, RegisterAudioVolume 3 USB_AUDIO_TABLE), (usb_focus, PressedInput ui_input_volume_up_start),
     (usb_focus, DeliverInternal 0), (usb_focus, DeliverRequest)]"

lemma example_events_ok: "list_all (event_ok devices_ok) example_events"
  by (simp add: example_events_def event_ok_def usb_focus_def focus_ok_def source_ok_def audioInterface_SourceIsValid_def
      max_audio_sources_def)

theorem volume_service_safe_witness:
  "\<exists>w. run_service (headset_tables no_controls no_observers) example_events (service_start example_devices) = Inr w \<and>
    devices_ok (client w) \<and> list_all call_ok (calls w)"
  by (rule volume_service_safe [OF example_devices_ok example_events_ok])

section \<open>Ramps\<close>

lemma reached_ok:
  assumes "devices_ok c" and "list_all (event_ok devices_ok) es"
    and "run_service (headset_tables controls observers) es (service_start c) = Inr w"
  shows "sv.service_ok w"
  using wpD [OF sv.run_service_wp [OF sv.service_start_ok [OF assms(1)] assms(2), of controls observers]] assms(3) by simp

text \<open>
  C15. A ramp ends: in every state the volume service reaches, when all that waits is the repetition of a ramp of
  an audio source with a connected volume table, without remote control and with a volume inside its range, then the
  repetitions go on, each in time, for exactly the distance to the end of the range divided by the step, rounded up; after the last
  one no message waits and the source is at the end of the range.
\<close>

theorem volume_ramp_ends:
  assumes "devices_ok c" and "list_all (event_ok devices_ok) es"
    and "run_service (headset_tables controls observers) es (service_start c) = Inr w"
    and "internal w = [INTERNAL_MSG_VOLUME_RAMP_REPEAT (source_type_audio s) step]"
    and "registry_map (audio_registry w) s audio_interface_type_volume_registry = [p]" and "headset_connected p s (client w)"
    and "registry_map (audio_registry w) s audio_interface_type_volume_control = []"
    and "v = headset_level p s (client w)" and "0 < vvalue v" and "vvalue v < range_max (vrange (config v))" and "step \<noteq> 0"
  shows "\<exists>w' w''. run_service (headset_tables controls observers)
      (replicate (ramp_repetitions v step) (focus, DeliverInternal 0)) w = Inr w' \<and> internal w' = [] \<and>
    AudioSources_GetVolume (headset_tables controls observers) s w' =
      Inr (w'', v\<lparr>vvalue := if 0 < step then range_max (vrange (config v)) else 0\<rparr>)"
proof -
  have ok: "sv.service_ok w"
    by (rule reached_ok [OF assms(1-3)])
  have s: "audioInterface_SourceIsValid s" and st: "step_ok step"
    using ok assms(4) by (simp_all add: sv.service_ok_def internal_ok_def source_ok_def)
  have lv: "sv.audio_level w s = v"
    using assms(5,8) by (simp add: sv.audio_level_def)
  have "sv.ramping s step w"
    using ok assms(4-7) by (simp add: sv.ramping_def sv.audio_connected_def sv.remote_def sv.first_interface_def)
  from sv.ramp_ends [OF this s st assms(11), of controls observers focus] obtain w' where
    w': "run_service (headset_tables controls observers) (replicate (ramp_repetitions v step) (focus, DeliverInternal 0)) w = Inr w'"
    "internal w' = []" "sv.audio_level w' s = v\<lparr>vvalue := if 0 < step then range_max (vrange (config v)) else 0\<rparr>"
    "sv.service_ok w'"
    using assms(9,10) by (auto simp: lv)
  from wpD [OF sv.AudioSources_GetVolume_wp [OF sv.service_sources [OF w'(4)] s, of controls observers]] show ?thesis
    using w' by auto
qed

text \<open>The state the example run ends in, and the facts the witnesses need of it.\<close>

lemma example_reached:
  obtains w where "run_service (headset_tables no_controls no_observers) example_events (service_start example_devices) = Inr w"
    "internal w = [INTERNAL_MSG_VOLUME_RAMP_REPEAT (source_type_audio 3) 6]"
    "registry_map (audio_registry w) 3 audio_interface_type_volume_registry = [USB_AUDIO_TABLE]"
    "registry_map (audio_registry w) 3 audio_interface_type_volume_control = []"
    "headset_connected USB_AUDIO_TABLE 3 (client w)"
    "headset_level USB_AUDIO_TABLE 3 (client w) = \<lparr>config = USB_AUDIO_VOLUME_CONFIG, vvalue = 56\<rparr>"
proof -
  let ?run = "run_service (headset_tables no_controls no_observers) example_events (service_start example_devices)"
  have i: "map_sum id internal ?run = Inr [INTERNAL_MSG_VOLUME_RAMP_REPEAT usb_focus 6]"
    by code_simp
  then obtain w where w: "?run = Inr w" "internal w = [INTERNAL_MSG_VOLUME_RAMP_REPEAT usb_focus 6]"
    by (cases ?run) simp_all
  have "map_sum id (\<lambda>w. registry_map (audio_registry w) 3 audio_interface_type_volume_registry) ?run = Inr [USB_AUDIO_TABLE]"
    "map_sum id (\<lambda>w. registry_map (audio_registry w) 3 audio_interface_type_volume_control) ?run = Inr []"
    "map_sum id (\<lambda>w. headset_connected USB_AUDIO_TABLE 3 (client w)) ?run = Inr True"
    "map_sum id (\<lambda>w. headset_level USB_AUDIO_TABLE 3 (client w)) ?run = Inr \<lparr>config = USB_AUDIO_VOLUME_CONFIG, vvalue = 56\<rparr>"
    by code_simp+
  with w show thesis
    by (intro that [of w]) (simp_all add: usb_focus_def)
qed

theorem volume_ramp_ends_witness:
  "\<exists>w w' w''. run_service (headset_tables no_controls no_observers) example_events (service_start example_devices) = Inr w \<and>
     run_service (headset_tables no_controls no_observers) (replicate 8 (usb_focus, DeliverInternal 0)) w = Inr w' \<and> internal w' = [] \<and>
     AudioSources_GetVolume (headset_tables no_controls no_observers) 3 w' =
       Inr (w'', \<lparr>config = USB_AUDIO_VOLUME_CONFIG, vvalue = 100\<rparr>)"
proof (rule example_reached)
  fix w
  let ?v = "\<lparr>config = USB_AUDIO_VOLUME_CONFIG, vvalue = 56\<rparr>"
  assume w: "run_service (headset_tables no_controls no_observers) example_events (service_start example_devices) = Inr w"
    "internal w = [INTERNAL_MSG_VOLUME_RAMP_REPEAT (source_type_audio 3) 6]"
    "registry_map (audio_registry w) 3 audio_interface_type_volume_registry = [USB_AUDIO_TABLE]"
    "registry_map (audio_registry w) 3 audio_interface_type_volume_control = []"
    "headset_connected USB_AUDIO_TABLE 3 (client w)" "headset_level USB_AUDIO_TABLE 3 (client w) = ?v"
  have n: "ramp_repetitions ?v 6 = 8" "range_max (vrange (config ?v)) = 100"
    by (simp_all add: ramp_repetitions_def ramp_distance_def USB_AUDIO_VOLUME_CONFIG_def)
  have "0 < vvalue ?v" "vvalue ?v < range_max (vrange (config ?v))" "(6 :: int) \<noteq> 0"
    by (simp_all add: USB_AUDIO_VOLUME_CONFIG_def)
  from volume_ramp_ends [OF example_devices_ok example_events_ok w(1,2,3,5,4) w(6) [symmetric] this, of usb_focus]
  show ?thesis
    using w(1) unfolding n by auto
qed

text \<open>
  C35. Ramps pile up: a start input, in every state that is reached and with a source in focus, adds the repetition of a ramp to those
  that wait, because what it cancels are messages with the number of the input, of which the service has none but the
  inputs themselves; a stop input, or the loss of the route, takes only one of them away. So two starts and one stop leave a
  volume that keeps moving.
\<close>

theorem volume_ramps_pile_up:
  assumes "devices_ok c" and "list_all (event_ok devices_ok) es"
    and "run_service (headset_tables controls observers) es (service_start c) = Inr w"
    and "source_ok focus" and "inp \<in> {ui_input_volume_down_start, ui_input_volume_up_start}"
  shows "\<exists>w' w''. volumeService_HandleUiInput (headset_tables controls observers) focus inp w = Inr w' \<and>
    length (filter is_ramp_repeat (internal w')) = Suc (length (filter is_ramp_repeat (internal w))) \<and>
    volumeService_HandleUiInput (headset_tables controls observers) focus ui_input_volume_stop w' = Inr w'' \<and>
    length (filter is_ramp_repeat (internal w'')) = length (filter is_ramp_repeat (internal w))"
proof -
  have ok: "sv.service_ok w"
    by (rule reached_ok [OF assms(1-3)])
  from sv.start_adds_ramp [OF ok assms(4,5), of controls observers] obtain w' where
    w': "volumeService_HandleUiInput (headset_tables controls observers) focus inp w = Inr w'" "sv.service_ok w'"
    "length (filter is_ramp_repeat (internal w')) = Suc (length (filter is_ramp_repeat (internal w)))"
    by blast
  from sv.stop_removes_ramp [OF w'(2) assms(4), of controls observers] obtain w'' where
    "volumeService_HandleUiInput (headset_tables controls observers) focus ui_input_volume_stop w' = Inr w''"
    "length (filter is_ramp_repeat (internal w'')) = length (filter is_ramp_repeat (internal w')) - 1"
    by blast
  with w' show ?thesis
    by auto
qed

theorem volume_ramps_pile_up_witness:
  "\<exists>w w' w''. run_service (headset_tables no_controls no_observers) example_events (service_start example_devices) = Inr w \<and>
    length (filter is_ramp_repeat (internal w)) = 1 \<and>
    volumeService_HandleUiInput (headset_tables no_controls no_observers) usb_focus ui_input_volume_up_start w = Inr w' \<and>
    volumeService_HandleUiInput (headset_tables no_controls no_observers) usb_focus ui_input_volume_stop w' = Inr w'' \<and>
    length (filter is_ramp_repeat (internal w'')) = 1"
proof (rule example_reached)
  fix w
  assume w: "run_service (headset_tables no_controls no_observers) example_events (service_start example_devices) = Inr w"
    "internal w = [INTERNAL_MSG_VOLUME_RAMP_REPEAT (source_type_audio 3) 6]"
  have "source_ok usb_focus" "ui_input_volume_up_start \<in> {ui_input_volume_down_start, ui_input_volume_up_start}"
    by (simp_all add: usb_focus_def source_ok_def audioInterface_SourceIsValid_def max_audio_sources_def)
  from volume_ramps_pile_up [OF example_devices_ok example_events_ok w(1) this] show ?thesis
    using w by (auto simp: is_ramp_repeat_def)
qed

text \<open>
  C16. What is requested is what is kept: in every state that is reached, a volume request for an audio source whose table is connected, from
  elsewhere or without remote control, succeeds, and the source then says the requested volume, converted to
  its own range to the nearest step; for a handset this goes through the octet stored as a property of its device.
\<close>

theorem volume_request_kept:
  assumes "devices_ok c" and "list_all (event_ok devices_ok) es"
    and "run_service (headset_tables controls observers) es (service_start c) = Inr w"
    and "registry_map (audio_registry w) s audio_interface_type_volume_registry = [p]" and "headset_connected p s (client w)"
    and "origin \<noteq> event_origin_local \<or> registry_map (audio_registry w) s audio_interface_type_volume_control = []"
    and "audioInterface_SourceIsValid s" and "volume_ok new" and "cfg = config (headset_level p s (client w))"
  shows "\<exists>w' w''. volumeMessageHandler (headset_tables controls observers) focus (AUDIO_SOURCE_VOLUME_UPDATE_REQUEST s origin new) w = Inr w' \<and>
    AudioSources_GetVolume (headset_tables controls observers) s w' = Inr (w'', \<lparr>config = cfg, vvalue = converted new cfg\<rparr>)"
proof -
  have ok: "sv.service_ok w"
    by (rule reached_ok [OF assms(1-3)])
  note src = sv.service_sources [OF ok] assms(7)
  have lv: "config (sv.audio_level w s) = cfg"
    using assms(4,9) by (simp add: sv.audio_level_def)
  have cfg: "config_ok cfg" "range_min (vrange cfg) = 0"
    using sv.levels_unit(1) [OF src(1), of s] lv by (simp_all add: unit_volume_def volume_ok_def)
  have conv: "VolumeUtils_ConvertToVolumeConfig new (config (sv.audio_level w s)) = Inr (converted new cfg)"
    "0 \<le> converted new cfg" "converted new cfg \<le> range_max (vrange (config (sv.audio_level w s)))"
    using convert_eq [OF assms(8) cfg(1)] converted_range [OF assms(8) cfg(1)] cfg(2) lv by simp_all
  have rem: "\<not> sv.remote w s origin"
    using assms(6) by (auto simp: sv.remote_def sv.first_interface_def)
  obtain w' where w': "VolumeService_SetAudioSourceVolume (headset_tables controls observers) focus s origin new w = Inr w'"
    "sv.changed w s ((sv.audio_level w s)\<lparr>vvalue := converted new cfg\<rparr>) w'"
    using wpD [OF sv.SetAudioSourceVolume_wp [OF src conv, of controls observers focus origin]] rem by auto
  have "sv.audio_connected w s"
    using assms(4,5) by (simp add: sv.audio_connected_def)
  then have "sv.audio_level w' s = \<lparr>config = cfg, vvalue = converted new cfg\<rparr>"
    using sv.changed_kept(4) [OF w'(2)] lv by (cases "sv.audio_level w s") simp
  with wpD [OF sv.AudioSources_GetVolume_wp [OF sv.changed_ok [OF w'(2)] src(2), of controls observers]] show ?thesis
    using w'(1) by (auto simp: volumeMessageHandler_def)
qed

theorem volume_request_kept_witness:
  "\<exists>w w' w''. run_service (headset_tables no_controls no_observers) example_events (service_start example_devices) = Inr w \<and>
    volumeMessageHandler (headset_tables no_controls no_observers) usb_focus
      (AUDIO_SOURCE_VOLUME_UPDATE_REQUEST 3 event_origin_external (volume_of 0 127 128 64)) w = Inr w' \<and>
    AudioSources_GetVolume (headset_tables no_controls no_observers) 3 w' = Inr (w'', \<lparr>config = USB_AUDIO_VOLUME_CONFIG, vvalue = 50\<rparr>)"
proof (rule example_reached)
  fix w
  assume w: "run_service (headset_tables no_controls no_observers) example_events (service_start example_devices) = Inr w"
    "registry_map (audio_registry w) 3 audio_interface_type_volume_registry = [USB_AUDIO_TABLE]"
    "headset_connected USB_AUDIO_TABLE 3 (client w)"
    "headset_level USB_AUDIO_TABLE 3 (client w) = \<lparr>config = USB_AUDIO_VOLUME_CONFIG, vvalue = 56\<rparr>"
  have h: "event_origin_external \<noteq> event_origin_local \<or> registry_map (audio_registry w) 3 audio_interface_type_volume_control = []"
    "audioInterface_SourceIsValid 3" "volume_ok (volume_of 0 127 128 64)"
    "USB_AUDIO_VOLUME_CONFIG = config (headset_level USB_AUDIO_TABLE 3 (client w))"
    by (simp_all add: w(4) audioInterface_SourceIsValid_def max_audio_sources_def volume_ok_def config_ok_def volume_of_def)
  have "converted (volume_of 0 127 128 64) USB_AUDIO_VOLUME_CONFIG = 50"
    by code_simp
  with volume_request_kept [OF example_devices_ok example_events_ok w(1-3) h, of usb_focus] w(1) show ?thesis
    by auto
qed

end
