(* ===== verification/Focus_Select.thy ===== *)
theory Focus_Select
  imports Volume_Control
begin

text \<open>
  The focus (\<^verbatim>\<open>adk/src/domains/focus/focus_select\<close>, \<^verbatim>\<open>adk/src/domains/audio/types/sources_iterator.c\<close>): which
  source of voice or audio is routed to the ears, which one a key press is for, and which handset is
  connected or disconnected next. Every registered source gets a priority from its context; a tie between the best
  is broken by an order of the product. What the profiles answer through the tables they registered is
  the record \<open>focus_env\<close>.
\<close>

section \<open>State\<close>

text \<open>Contexts are \<^verbatim>\<open>unsigned\<close> in the code, the enumerators of two types.\<close>

definition context_audio_disconnected :: nat where "context_audio_disconnected = 0"
definition context_audio_connected :: nat where "context_audio_connected = 1"
definition context_audio_is_streaming :: nat where "context_audio_is_streaming = 2"
definition context_audio_is_playing :: nat where "context_audio_is_playing = 3"
definition context_audio_is_va_response :: nat where "context_audio_is_va_response = 4"
definition context_audio_is_paused :: nat where "context_audio_is_paused = 5"
definition context_audio_is_high_priority :: nat where "context_audio_is_high_priority = 6"
definition context_audio_is_broadcast :: nat where "context_audio_is_broadcast = 7"
definition max_audio_contexts :: nat where "max_audio_contexts = 8"

definition context_voice_disconnected :: nat where "context_voice_disconnected = 0"
definition context_voice_connected :: nat where "context_voice_connected = 1"
definition max_voice_contexts :: nat where "max_voice_contexts = 10"

definition BAD_CONTEXT :: nat where "BAD_CONTEXT = 127"

lemmas context_defs = context_audio_disconnected_def context_audio_connected_def context_audio_is_streaming_def
  context_audio_is_playing_def context_audio_is_va_response_def context_audio_is_paused_def
  context_audio_is_high_priority_def context_audio_is_broadcast_def max_audio_contexts_def
  context_voice_disconnected_def context_voice_connected_def max_voice_contexts_def BAD_CONTEXT_def

text \<open>
  The answers of the tables behind the pointers (\<open>None\<close> is a function a table does not have), of the connection manager, and
  of the connection library.
\<close>

record focus_env =
  Context :: "ptr \<Rightarrow> (nat \<Rightarrow> nat) option"
  ContextOverride :: "(nat \<Rightarrow> nat \<Rightarrow> nat) option"
  GetUiProviderContext :: "ptr \<Rightarrow> (nat \<Rightarrow> nat) option"
  VoiceChannelAvailable :: "ptr \<Rightarrow> (nat \<Rightarrow> bool) option"
  connected_handsets :: "nat list"
  connected_to :: "u8 list \<Rightarrow> bool"
  indexed_address :: "nat \<Rightarrow> bdaddr option"

datatype focus_select_audio_tie_break =
    FOCUS_SELECT_AUDIO_LINE_IN
  | FOCUS_SELECT_AUDIO_USB
  | FOCUS_SELECT_AUDIO_A2DP
  | FOCUS_SELECT_AUDIO_LEA_UNICAST
  | FOCUS_SELECT_AUDIO_LEA_BROADCAST

definition FOCUS_SELECT_AUDIO_MAX_SOURCES :: nat where "FOCUS_SELECT_AUDIO_MAX_SOURCES = 5"

datatype focus_select_voice_tie_break =
    FOCUS_SELECT_VOICE_USB
  | FOCUS_SELECT_VOICE_HFP
  | FOCUS_SELECT_VOICE_LEA_UNICAST

definition FOCUS_SELECT_VOICE_MAX_SOURCES :: nat where "FOCUS_SELECT_VOICE_MAX_SOURCES = 3"

text \<open>
  The volume service with its registry of audio sources and the devices, the two registries of voice sources, the
  source the audio router has routed last, and the static variables of the tie break.
\<close>

record focus_world =
  service :: "headset_devices volume_service"
  telephony_control_interface :: "ptr option list"
  voice_source_audio_interfaces :: "ptr option list"
  last_routed_audio_source :: nat
  audio_source_tie_break_ordering :: "focus_select_audio_tie_break list option"
  voice_source_tie_break_ordering :: "focus_select_voice_tie_break list option"
  a2dp_barge_in_enabled :: bool
  a2dp_barge_in_enabled_for_sass :: bool

section \<open>Contexts of sources\<close>

definition AudioSources_GetSourceContext :: "focus_env \<Rightarrow> nat \<Rightarrow> focus_world \<Rightarrow> (focus_world \<times> nat) res" where
  "AudioSources_GetSourceContext env s w =
     res_bind (interfaces_of s audio_interface_type_media_control (service w)) (\<lambda>(v, l, n).
       Inr (w\<lparr>service := v\<rparr>, case Option.bind (l ! 0) (Context env) of
           None \<Rightarrow> BAD_CONTEXT
         | Some f \<Rightarrow> (case ContextOverride env of None \<Rightarrow> f s | Some g \<Rightarrow> g s (f s))))"

definition AudioSources_RegisterMediaControlInterface :: "nat \<Rightarrow> ptr option \<Rightarrow> focus_world \<Rightarrow> focus_world res" where
  "AudioSources_RegisterMediaControlInterface s p w =
     res_bind (interfaces_of s audio_interface_type_media_control (service w)) (\<lambda>(v, l, n).
       if n \<noteq> 0 \<and> p = l ! 0 then Inr (w\<lparr>service := v\<rparr>)
       else res_bind (if n \<noteq> 0 then unregister_interface s audio_interface_type_media_control (l ! 0) v else Inr v) (\<lambda>v.
         res_bind (register_interface s audio_interface_type_media_control p v) (\<lambda>v. Inr (w\<lparr>service := v\<rparr>))))"

definition VoiceSources_TelephonyControlRegistryInit :: "focus_world \<Rightarrow> focus_world" where
  "VoiceSources_TelephonyControlRegistryInit w = w\<lparr>telephony_control_interface := replicate max_voice_sources None\<rparr>"

definition VoiceSources_RegisterTelephonyControlInterface :: "nat \<Rightarrow> ptr option \<Rightarrow> focus_world \<Rightarrow> focus_world res" where
  "VoiceSources_RegisterTelephonyControlInterface s p w =
     res_bind (voiceSources_ValidateSource s) (\<lambda>_.
     res_bind (panic_null p) (\<lambda>p.
       Inr (w\<lparr>telephony_control_interface := (telephony_control_interface w)[s := Some p]\<rparr>)))"

definition VoiceSources_DeregisterTelephonyControlInterface :: "nat \<Rightarrow> ptr option \<Rightarrow> focus_world \<Rightarrow> focus_world res" where
  "VoiceSources_DeregisterTelephonyControlInterface s p w =
     res_bind (voiceSources_ValidateSource s) (\<lambda>_.
       Inr (if telephony_control_interface w ! s = p
         then w\<lparr>telephony_control_interface := (telephony_control_interface w)[s := None]\<rparr> else w))"

definition VoiceSources_IsSourceRegisteredForTelephonyControl :: "nat \<Rightarrow> focus_world \<Rightarrow> bool res" where
  "VoiceSources_IsSourceRegisteredForTelephonyControl s w =
     res_bind (voiceSources_ValidateSource s) (\<lambda>_. Inr (telephony_control_interface w ! s \<noteq> None))"

definition VoiceSources_GetSourceContext :: "focus_env \<Rightarrow> nat \<Rightarrow> focus_world \<Rightarrow> nat res" where
  "VoiceSources_GetSourceContext env s w =
     res_bind (voiceSources_ValidateSource s) (\<lambda>_.
       Inr (case Option.bind (telephony_control_interface w ! s) (GetUiProviderContext env) of
           None \<Rightarrow> context_voice_disconnected
         | Some f \<Rightarrow> f s))"

definition VoiceSources_AudioRegistryInit :: "focus_world \<Rightarrow> focus_world" where
  "VoiceSources_AudioRegistryInit w = w\<lparr>voice_source_audio_interfaces := replicate max_voice_sources None\<rparr>"

definition VoiceSources_RegisterAudioInterface :: "nat \<Rightarrow> ptr option \<Rightarrow> focus_world \<Rightarrow> focus_world res" where
  "VoiceSources_RegisterAudioInterface s p w =
     res_bind (voiceSources_ValidateSource s) (\<lambda>_.
     res_bind (panic_null p) (\<lambda>p.
       Inr (w\<lparr>voice_source_audio_interfaces := (voice_source_audio_interfaces w)[s := Some p]\<rparr>)))"

definition VoiceSources_IsVoiceChannelAvailable :: "focus_env \<Rightarrow> nat \<Rightarrow> focus_world \<Rightarrow> bool res" where
  "VoiceSources_IsVoiceChannelAvailable env s w =
     res_bind (voiceSources_ValidateSource s) (\<lambda>_.
       Inr (case Option.bind (voice_source_audio_interfaces w ! s) (VoiceChannelAvailable env) of
           None \<Rightarrow> False
         | Some f \<Rightarrow> f s))"

section \<open>The iterator over sources\<close>

text \<open>The sources that have not been visited, in an array of fixed size.\<close>

type_synonym sources_iterator = "generic_source list"

definition sourcesIterator_GetSourceContext :: "focus_env \<Rightarrow> generic_source \<Rightarrow> focus_world \<Rightarrow> (focus_world \<times> nat) res" where
  "sourcesIterator_GetSourceContext env src w = (case src of
     source_type_voice s \<Rightarrow> res_bind (VoiceSources_GetSourceContext env s w) (\<lambda>x. Inr (w, x))
   | source_type_audio s \<Rightarrow> AudioSources_GetSourceContext env s w
   | source_type_other \<Rightarrow> Inl Panic)"

definition sourcesIterator_SourceContextIsAllowed ::
  "focus_env \<Rightarrow> generic_source \<Rightarrow> nat list \<Rightarrow> focus_world \<Rightarrow> (focus_world \<times> bool) res" where
  "sourcesIterator_SourceContextIsAllowed env src contexts w =
     (if contexts = [] then Inr (w, True)
      else res_bind (sourcesIterator_GetSourceContext env src w) (\<lambda>(w, x). Inr (w, x \<in> set contexts)))"

definition sourcesIterator_AddSource :: "generic_source \<Rightarrow> sources_iterator \<Rightarrow> sources_iterator res" where
  "sourcesIterator_AddSource src it =
     (if length it < max_audio_sources + max_voice_sources then Inr (it @ [src]) else Inl BadAccess)"

definition sourcesIterator_AddVoiceSourcesWithContextFilter ::
  "focus_env \<Rightarrow> nat list \<Rightarrow> focus_world \<times> sources_iterator \<Rightarrow> (focus_world \<times> sources_iterator) res" where
  "sourcesIterator_AddVoiceSourcesWithContextFilter env contexts =
     for_res (\<lambda>s (w, it).
       res_bind (VoiceSources_IsSourceRegisteredForTelephonyControl s w) (\<lambda>reg.
         if reg
         then res_bind (sourcesIterator_SourceContextIsAllowed env (source_type_voice s) contexts w) (\<lambda>(w, allowed).
           if allowed then res_bind (sourcesIterator_AddSource (source_type_voice s) it) (\<lambda>it. Inr (w, it)) else Inr (w, it))
         else Inr (w, it)))
       [1..<max_voice_sources]"

definition sourcesIterator_AddAudioSourcesWithContextFilter ::
  "focus_env \<Rightarrow> nat list \<Rightarrow> focus_world \<times> sources_iterator \<Rightarrow> (focus_world \<times> sources_iterator) res" where
  "sourcesIterator_AddAudioSourcesWithContextFilter env contexts =
     for_res (\<lambda>s (w, it).
       res_bind (interfaces_of s audio_interface_type_media_control (service w)) (\<lambda>(v, l, n).
         let w = w\<lparr>service := v\<rparr> in
         if n \<ge> 1
         then res_bind (sourcesIterator_SourceContextIsAllowed env (source_type_audio s) contexts w) (\<lambda>(w, allowed).
           if allowed then res_bind (sourcesIterator_AddSource (source_type_audio s) it) (\<lambda>it. Inr (w, it)) else Inr (w, it))
         else Inr (w, it)))
       [1..<max_audio_sources]"

text \<open>
  The two arguments say whether the type asked for includes voice and audio: both for
  \<^verbatim>\<open>source_type_max\<close>, none for \<^verbatim>\<open>source_type_invalid\<close>.
\<close>

definition SourcesIterator_Create :: "focus_env \<Rightarrow> bool \<Rightarrow> bool \<Rightarrow> focus_world \<Rightarrow> (focus_world \<times> sources_iterator) res" where
  "SourcesIterator_Create env voice audio w =
     res_bind (if voice then sourcesIterator_AddVoiceSourcesWithContextFilter env [] (w, []) else Inr (w, []))
       (if audio then sourcesIterator_AddAudioSourcesWithContextFilter env [] else Inr)"

definition SourcesIterator_AddSourcesInContextArray ::
  "focus_env \<Rightarrow> bool \<Rightarrow> bool \<Rightarrow> nat list \<Rightarrow> focus_world \<times> sources_iterator \<Rightarrow> (focus_world \<times> sources_iterator) res" where
  "SourcesIterator_AddSourcesInContextArray env voice audio contexts =
     (if audio \<and> \<not> voice then sourcesIterator_AddAudioSourcesWithContextFilter env contexts
      else if voice \<and> \<not> audio then sourcesIterator_AddVoiceSourcesWithContextFilter env contexts
      else Inr)"

definition SourcesIterator_RemoveSource :: "generic_source \<Rightarrow> sources_iterator \<Rightarrow> sources_iterator" where
  "SourcesIterator_RemoveSource src it = (case find_index (\<lambda>x. x = src \<and> src \<noteq> source_type_other) it of
     Some i \<Rightarrow> remove_at i it
   | None \<Rightarrow> it)"

definition SourcesIterator_RemoveVoiceSource :: "nat \<Rightarrow> sources_iterator \<Rightarrow> sources_iterator" where
  "SourcesIterator_RemoveVoiceSource s = SourcesIterator_RemoveSource (source_type_voice s)"

definition SourcesIterator_RemoveAudioSource :: "nat \<Rightarrow> sources_iterator \<Rightarrow> sources_iterator" where
  "SourcesIterator_RemoveAudioSource s = SourcesIterator_RemoveSource (source_type_audio s)"

definition SourcesIterator_NextGenericSource :: "sources_iterator \<Rightarrow> generic_source \<times> sources_iterator" where
  "SourcesIterator_NextGenericSource it = (case it of [] \<Rightarrow> (source_type_other, []) | src # it \<Rightarrow> (src, it))"

section \<open>The status of the sources\<close>

record source_cache_data =
  cache_context :: nat
  cache_has_audio :: bool
  cache_priority :: u8

record focus_status =
  cache_data_by_voice_source_array :: "source_cache_data list"
  cache_data_by_audio_source_array :: "source_cache_data list"
  highest_priority_source :: generic_source
  highest_priority_source_has_audio :: bool
  highest_priority_context :: nat
  highest_priority :: u8
  num_highest_priority_sources :: u8

text \<open>All octets zero.\<close>

definition no_status :: focus_status where
  "no_status = (let c = \<lparr>cache_context = 0, cache_has_audio = False, cache_priority = 0\<rparr> in
     \<lparr>cache_data_by_voice_source_array = replicate (max_voice_sources - 1) c,
      cache_data_by_audio_source_array = replicate (max_audio_sources - 1) c,
      highest_priority_source = source_type_other, highest_priority_source_has_audio = False,
      highest_priority_context = 0, highest_priority = 0, num_highest_priority_sources = 0\<rparr>)"

definition VoiceSource_IsValid :: "nat \<Rightarrow> bool" where
  "VoiceSource_IsValid s \<longleftrightarrow> s > 0 \<and> s < max_voice_sources"

definition AudioSource_IsValid :: "nat \<Rightarrow> bool" where
  "AudioSource_IsValid s \<longleftrightarrow> s > 0 \<and> s < max_audio_sources"

definition focusSelect_GetCacheDataForVoiceSource :: "focus_status \<Rightarrow> nat \<Rightarrow> source_cache_data res" where
  "focusSelect_GetCacheDataForVoiceSource fs s = res_bind (panic_unless (VoiceSource_IsValid s)) (\<lambda>_.
     Inr (cache_data_by_voice_source_array fs ! (s - 1)))"

definition focusSelect_GetCacheDataForAudioSource :: "focus_status \<Rightarrow> nat \<Rightarrow> source_cache_data res" where
  "focusSelect_GetCacheDataForAudioSource fs s = res_bind (panic_unless (AudioSource_IsValid s)) (\<lambda>_.
     Inr (cache_data_by_audio_source_array fs ! (s - 1)))"

definition focusSelect_GetCacheDataForSource :: "focus_status \<Rightarrow> generic_source \<Rightarrow> source_cache_data res" where
  "focusSelect_GetCacheDataForSource fs src = (case src of
     source_type_audio s \<Rightarrow> focusSelect_GetCacheDataForAudioSource fs s
   | source_type_voice s \<Rightarrow> focusSelect_GetCacheDataForVoiceSource fs s
   | source_type_other \<Rightarrow> Inl Panic)"

definition FocusSelect_SetCacheDataForSource ::
  "focus_status \<Rightarrow> generic_source \<Rightarrow> nat \<Rightarrow> bool \<Rightarrow> u8 \<Rightarrow> (focus_status \<times> source_cache_data) res" where
  "FocusSelect_SetCacheDataForSource fs src x audio prio =
     res_bind (focusSelect_GetCacheDataForSource fs src) (\<lambda>_.
       let c = \<lparr>cache_context = x, cache_has_audio = audio, cache_priority = prio\<rparr> in
       Inr (case src of
           source_type_audio s \<Rightarrow>
             fs\<lparr>cache_data_by_audio_source_array := (cache_data_by_audio_source_array fs)[s - 1 := c]\<rparr>
         | source_type_voice s \<Rightarrow>
             fs\<lparr>cache_data_by_voice_source_array := (cache_data_by_voice_source_array fs)[s - 1 := c]\<rparr>
         | source_type_other \<Rightarrow> fs, c))"

definition focusSelect_GetContext :: "focus_status \<Rightarrow> generic_source \<Rightarrow> nat res" where
  "focusSelect_GetContext fs src = res_bind (focusSelect_GetCacheDataForSource fs src) (\<lambda>c. Inr (cache_context c))"

definition FocusSelect_IsAudioSourceContextConnected :: "focus_status \<Rightarrow> nat \<Rightarrow> bool res" where
  "FocusSelect_IsAudioSourceContextConnected fs s =
     res_bind (focusSelect_GetContext fs (source_type_audio s)) (\<lambda>x. Inr (x = context_audio_connected))"

definition FocusSelect_IsSourceContextHighestPriority :: "focus_status \<Rightarrow> generic_source \<Rightarrow> bool res" where
  "FocusSelect_IsSourceContextHighestPriority fs src =
     res_bind (focusSelect_GetCacheDataForSource fs src) (\<lambda>c. Inr (cache_priority c = highest_priority fs))"

type_synonym priority_calculator =
  "focus_status \<Rightarrow> generic_source \<Rightarrow> focus_world \<Rightarrow> (focus_world \<times> focus_status \<times> source_cache_data) res"

definition compile_source ::
  "priority_calculator \<Rightarrow> generic_source \<Rightarrow> focus_world \<times> focus_status \<times> bool \<Rightarrow> (focus_world \<times> focus_status \<times> bool) res" where
  "compile_source calculate src = (\<lambda>(w, fs, found).
     res_bind (calculate fs src w) (\<lambda>(w, fs, c).
       Inr (if \<not> found \<or> cache_priority c > highest_priority fs
         then (w, fs\<lparr>highest_priority_source := src, highest_priority_context := cache_context c,
             highest_priority_source_has_audio := cache_has_audio c, highest_priority := cache_priority c,
             num_highest_priority_sources := 1\<rparr>, True)
         else if cache_priority c = highest_priority fs
         then (w, fs\<lparr>num_highest_priority_sources := num_highest_priority_sources fs + 1\<rparr>, found)
         else (w, fs, found))))"

definition FocusSelect_CompileFocusStatus ::
  "priority_calculator \<Rightarrow> sources_iterator \<Rightarrow> focus_world \<times> focus_status \<Rightarrow> (focus_world \<times> focus_status \<times> bool) res" where
  "FocusSelect_CompileFocusStatus calculate it = (\<lambda>(w, fs). for_res (compile_source calculate) it (w, fs, False))"

section \<open>Tie breaks\<close>

definition device_property_mru :: u16 where "device_property_mru = 11"
definition device_property_upgrade_transport_connected :: u16 where "device_property_upgrade_transport_connected = 43"
definition device_property_handset_context :: u16 where "device_property_handset_context = 50"

definition DEVICE_TYPE_HANDSET :: nat where "DEVICE_TYPE_HANDSET = 2"
definition DEVICE_TYPE_SINK :: nat where "DEVICE_TYPE_SINK = 4"

definition voice_source_hfp_1 :: nat where "voice_source_hfp_1 = 1"
definition voice_source_hfp_2 :: nat where "voice_source_hfp_2 = 2"
definition voice_source_le_audio_unicast :: nat where "voice_source_le_audio_unicast = 4"
definition audio_source_a2dp_1 :: nat where "audio_source_a2dp_1 = 1"
definition audio_source_a2dp_2 :: nat where "audio_source_a2dp_2 = 2"
definition audio_source_le_audio_unicast :: nat where "audio_source_le_audio_unicast = 5"
definition audio_source_le_audio_broadcast :: nat where "audio_source_le_audio_broadcast = 6"

definition DeviceProperties_GetVoiceSource :: "headset_devices \<Rightarrow> nat \<Rightarrow> nat res" where
  "DeviceProperties_GetVoiceSource c d =
     (if d \<noteq> 0
      then res_bind (Device_GetProperty (properties c d) device_property_voice_source) (\<lambda>r. case r of
          Some (v, n) \<Rightarrow> Inr (if n = 4 then unat (le32 v) else 0)
        | None \<Rightarrow> Inr 0)
      else Inr 0)"

text \<open>The devices are the state behind the volume tables.\<close>

definition focus_devices :: "focus_world \<Rightarrow> headset_devices" where
  "focus_devices w = client (service w)"

definition FocusSelect_GetMruAudioSource :: "focus_world \<Rightarrow> nat res" where
  "FocusSelect_GetMruAudioSource w =
     res_bind (first_device (focus_devices w) device_property_mru [1]) (\<lambda>d.
     res_bind (if d = 0 then first_device (focus_devices w) device_property_type (enum_octets DEVICE_TYPE_HANDSET) else Inr d) (\<lambda>d.
       if d \<noteq> 0 then DeviceProperties_GetAudioSource (focus_devices w) d else Inr 0))"

definition FocusSelect_GetMruVoiceSource :: "focus_world \<Rightarrow> nat res" where
  "FocusSelect_GetMruVoiceSource w =
     res_bind (first_device (focus_devices w) device_property_mru [1]) (\<lambda>d.
       if d \<noteq> 0 then DeviceProperties_GetVoiceSource (focus_devices w) d else Inr 0)"

definition audio_tie_break_default :: "focus_select_audio_tie_break list" where
  "audio_tie_break_default = [FOCUS_SELECT_AUDIO_A2DP, FOCUS_SELECT_AUDIO_USB, FOCUS_SELECT_AUDIO_LINE_IN,
     FOCUS_SELECT_AUDIO_LEA_UNICAST, FOCUS_SELECT_AUDIO_LEA_BROADCAST]"

definition voice_tie_break_default :: "focus_select_voice_tie_break list" where
  "voice_tie_break_default = [FOCUS_SELECT_VOICE_HFP, FOCUS_SELECT_VOICE_USB, FOCUS_SELECT_VOICE_LEA_UNICAST]"

definition ENABLE_A2DP_BARGE_IN :: bool where "ENABLE_A2DP_BARGE_IN = False"

definition FocusSelect_TieBreakInit :: "focus_world \<Rightarrow> focus_world" where
  "FocusSelect_TieBreakInit w = w\<lparr>audio_source_tie_break_ordering := Some audio_tie_break_default,
     voice_source_tie_break_ordering := Some voice_tie_break_default,
     a2dp_barge_in_enabled := ENABLE_A2DP_BARGE_IN, a2dp_barge_in_enabled_for_sass := False\<rparr>"

definition FocusSelect_ConfigureAudioSourceTieBreakOrder :: "focus_select_audio_tie_break list option \<Rightarrow> focus_world \<Rightarrow> focus_world" where
  "FocusSelect_ConfigureAudioSourceTieBreakOrder order w = w\<lparr>audio_source_tie_break_ordering := order\<rparr>"

definition FocusSelect_ConfigureVoiceSourceTieBreakOrder :: "focus_select_voice_tie_break list option \<Rightarrow> focus_world \<Rightarrow> focus_world" where
  "FocusSelect_ConfigureVoiceSourceTieBreakOrder order w = w\<lparr>voice_source_tie_break_ordering := order\<rparr>"

definition FocusSelect_EnableA2dpBargeIn :: "bool \<Rightarrow> focus_world \<Rightarrow> focus_world" where
  "FocusSelect_EnableA2dpBargeIn b w = w\<lparr>a2dp_barge_in_enabled := b\<rparr>"

definition FocusSelect_IsA2dpBargeInEnabled :: "focus_world \<Rightarrow> bool" where
  "FocusSelect_IsA2dpBargeInEnabled w = a2dp_barge_in_enabled w"

definition FocusSelect_EnableA2dpBargeInForSASS :: "bool \<Rightarrow> focus_world \<Rightarrow> focus_world" where
  "FocusSelect_EnableA2dpBargeInForSASS b w = w\<lparr>a2dp_barge_in_enabled_for_sass := b\<rparr>"

text \<open>The orders of the headset.\<close>

definition audio_source_focus_priority :: "focus_select_audio_tie_break list" where
  "audio_source_focus_priority = [FOCUS_SELECT_AUDIO_LINE_IN, FOCUS_SELECT_AUDIO_USB, FOCUS_SELECT_AUDIO_A2DP]"

definition voice_source_focus_priority :: "focus_select_voice_tie_break list" where
  "voice_source_focus_priority = [FOCUS_SELECT_VOICE_HFP, FOCUS_SELECT_VOICE_USB]"

definition HeadsetUi_ConfigureFocusSelection :: "focus_world \<Rightarrow> focus_world" where
  "HeadsetUi_ConfigureFocusSelection w =
     FocusSelect_ConfigureVoiceSourceTieBreakOrder (Some voice_source_focus_priority)
       (FocusSelect_ConfigureAudioSourceTieBreakOrder (Some audio_source_focus_priority) w)"

definition focusSelect_ConvertAudioTieBreakToSource :: "focus_world \<Rightarrow> focus_select_audio_tie_break \<Rightarrow> nat res" where
  "focusSelect_ConvertAudioTieBreakToSource w prio = (case prio of
     FOCUS_SELECT_AUDIO_LINE_IN \<Rightarrow> Inr audio_source_line_in
   | FOCUS_SELECT_AUDIO_USB \<Rightarrow> Inr audio_source_usb
   | FOCUS_SELECT_AUDIO_A2DP \<Rightarrow>
       if a2dp_barge_in_enabled w \<or> a2dp_barge_in_enabled_for_sass w \<or> last_routed_audio_source w = 0
       then FocusSelect_GetMruAudioSource w else Inr (last_routed_audio_source w)
   | FOCUS_SELECT_AUDIO_LEA_UNICAST \<Rightarrow> Inr audio_source_le_audio_unicast
   | FOCUS_SELECT_AUDIO_LEA_BROADCAST \<Rightarrow> Inr audio_source_le_audio_broadcast)"

fun audio_tie_break_loop ::
  "focus_world \<Rightarrow> focus_select_audio_tie_break list \<Rightarrow> nat list \<Rightarrow> focus_status \<Rightarrow> focus_status res" where
  "audio_tie_break_loop w order [] fs = Inr fs"
| "audio_tie_break_loop w order (i # is) fs =
     res_bind (array_get order i) (\<lambda>prio.
     res_bind (focusSelect_ConvertAudioTieBreakToSource w prio) (\<lambda>s.
     res_bind (if s \<noteq> 0 then FocusSelect_IsSourceContextHighestPriority fs (source_type_audio s) else Inr False) (\<lambda>hit.
       if hit then Inr (fs\<lparr>highest_priority_source := source_type_audio s\<rparr>) else audio_tie_break_loop w order is fs)))"

definition FocusSelect_HandleTieBreak :: "focus_world \<Rightarrow> focus_status \<Rightarrow> focus_status res" where
  "FocusSelect_HandleTieBreak w fs =
     (if highest_priority_context fs = context_audio_disconnected \<or> num_highest_priority_sources fs = 1 then Inr fs
      else
        let last_routed_audio = last_routed_audio_source w in
        res_bind (if last_routed_audio \<noteq> 0 \<and> last_routed_audio < max_audio_sources
            then FocusSelect_IsAudioSourceContextConnected fs last_routed_audio else Inr False) (\<lambda>keep.
          if keep then Inr (fs\<lparr>highest_priority_source := source_type_audio last_routed_audio\<rparr>)
          else res_bind (panic_null (audio_source_tie_break_ordering w)) (\<lambda>order.
            audio_tie_break_loop w order [0..<FOCUS_SELECT_AUDIO_MAX_SOURCES] fs)))"

definition focusSelect_ConvertVoiceTieBreakToSource ::
  "focus_world \<Rightarrow> focus_status \<Rightarrow> focus_select_voice_tie_break \<Rightarrow> nat res" where
  "focusSelect_ConvertVoiceTieBreakToSource w fs prio = (case prio of
     FOCUS_SELECT_VOICE_USB \<Rightarrow> Inr voice_source_usb
   | FOCUS_SELECT_VOICE_LEA_UNICAST \<Rightarrow> Inr voice_source_le_audio_unicast
   | FOCUS_SELECT_VOICE_HFP \<Rightarrow>
       res_bind (FocusSelect_IsSourceContextHighestPriority fs (source_type_voice voice_source_hfp_1)) (\<lambda>one.
       res_bind (FocusSelect_IsSourceContextHighestPriority fs (source_type_voice voice_source_hfp_2)) (\<lambda>two.
         if one \<and> two
         then res_bind (FocusSelect_GetMruVoiceSource w) (\<lambda>mru.
           res_bind (if mru \<noteq> 0 then FocusSelect_IsSourceContextHighestPriority fs (source_type_voice mru) else Inr False) (\<lambda>hit.
             Inr (if hit then mru else voice_source_hfp_1)))
         else Inr (if one then voice_source_hfp_1 else if two then voice_source_hfp_2 else 0))))"

fun voice_tie_break_loop ::
  "focus_world \<Rightarrow> focus_select_voice_tie_break list \<Rightarrow> nat list \<Rightarrow> focus_status \<Rightarrow> focus_status res" where
  "voice_tie_break_loop w order [] fs = Inr fs"
| "voice_tie_break_loop w order (i # is) fs =
     res_bind (array_get order i) (\<lambda>prio.
     res_bind (focusSelect_ConvertVoiceTieBreakToSource w fs prio) (\<lambda>s.
     res_bind (if s \<noteq> 0 then FocusSelect_IsSourceContextHighestPriority fs (source_type_voice s) else Inr False) (\<lambda>hit.
       if hit then Inr (fs\<lparr>highest_priority_source := source_type_voice s\<rparr>) else voice_tie_break_loop w order is fs)))"

definition FocusSelect_HandleVoiceTieBreak :: "focus_world \<Rightarrow> focus_status \<Rightarrow> focus_status res" where
  "FocusSelect_HandleVoiceTieBreak w fs =
     (if highest_priority_context fs = context_voice_disconnected \<or> num_highest_priority_sources fs = 1 then Inr fs
      else res_bind (panic_null (voice_source_tie_break_ordering w)) (\<lambda>order.
        voice_tie_break_loop w order [0..<FOCUS_SELECT_VOICE_MAX_SOURCES] fs))"

section \<open>Focus for audio routing\<close>

definition SOURCE_TYPE_HAS_PRIORITY :: u8 where "SOURCE_TYPE_HAS_PRIORITY = 0x01"
definition SOURCE_HAS_AUDIO :: u8 where "SOURCE_HAS_AUDIO = 0x40"
definition voice_sources_have_priority :: bool where "voice_sources_have_priority = True"

text \<open>The tables, in the order of the contexts.\<close>

definition audio_context_to_audio_prio_mapping :: "u8 list" where
  "audio_context_to_audio_prio_mapping = [0, 1, 4, 5, 7, 2, 6, 3]"

definition voice_context_to_audio_prio_mapping :: "u8 list" where
  "voice_context_to_audio_prio_mapping = [0, 1, 8, 7, 8, 8, 8, 8, 7, 8]"

definition set_priority ::
  "generic_source \<Rightarrow> nat \<Rightarrow> bool \<Rightarrow> u8 \<Rightarrow> focus_world \<Rightarrow> focus_status \<Rightarrow> (focus_world \<times> focus_status \<times> source_cache_data) res" where
  "set_priority src x audio prio w fs =
     res_bind (panic_unless (x \<noteq> BAD_CONTEXT)) (\<lambda>_.
     res_bind (FocusSelect_SetCacheDataForSource fs src x audio prio) (\<lambda>(fs, c). Inr (w, fs, c)))"

definition focusSelect_CalculatePriorityForAudio :: "focus_env \<Rightarrow> priority_calculator" where
  "focusSelect_CalculatePriorityForAudio env fs src w = (case src of
     source_type_voice s \<Rightarrow>
       res_bind (VoiceSources_IsVoiceChannelAvailable env s w) (\<lambda>audio.
       res_bind (VoiceSources_GetSourceContext env s w) (\<lambda>x.
       res_bind (array_get voice_context_to_audio_prio_mapping x) (\<lambda>p.
         set_priority src x audio
           (push_bit 1 (p OR (if audio then SOURCE_HAS_AUDIO else 0)) OR
            (if voice_sources_have_priority then SOURCE_TYPE_HAS_PRIORITY else 0)) w fs)))
   | source_type_audio s \<Rightarrow>
       res_bind (AudioSources_GetSourceContext env s w) (\<lambda>(w, x).
       res_bind (array_get audio_context_to_audio_prio_mapping x) (\<lambda>p.
         set_priority src x False
           (push_bit 1 p OR (if \<not> voice_sources_have_priority then SOURCE_TYPE_HAS_PRIORITY else 0)) w fs))
   | source_type_other \<Rightarrow> Inl Panic)"

definition focusSelect_VoiceSourceIsActive :: "focus_env \<Rightarrow> focus_status \<Rightarrow> focus_world \<Rightarrow> bool res" where
  "focusSelect_VoiceSourceIsActive env fs w = (case highest_priority_source fs of
     source_type_voice s \<Rightarrow>
       if highest_priority_context fs = context_voice_disconnected then Inr False
       else if highest_priority_context fs = context_voice_connected then VoiceSources_IsVoiceChannelAvailable env s w
       else if highest_priority_context fs = max_voice_contexts then Inl Panic
       else Inr True
   | _ \<Rightarrow> Inr False)"

definition focusSelect_AudioSourceIsActive :: "focus_status \<Rightarrow> bool res" where
  "focusSelect_AudioSourceIsActive fs = (case highest_priority_source fs of
     source_type_audio s \<Rightarrow>
       if highest_priority_context fs = context_audio_disconnected \<or> highest_priority_context fs = context_audio_connected
       then Inr False
       else if highest_priority_context fs = max_audio_contexts then Inl Panic
       else Inr True
   | _ \<Rightarrow> Inr False)"

definition FocusSelect_GetFocusedSourceForAudioRouting :: "focus_env \<Rightarrow> focus_world \<Rightarrow> (focus_world \<times> generic_source) res" where
  "FocusSelect_GetFocusedSourceForAudioRouting env w =
     res_bind (SourcesIterator_Create env True True w) (\<lambda>(w, it).
     res_bind (FocusSelect_CompileFocusStatus (focusSelect_CalculatePriorityForAudio env) it (w, no_status)) (\<lambda>(w, fs, _).
     res_bind (if num_highest_priority_sources fs \<noteq> 1
         then (case highest_priority_source fs of
             source_type_voice _ \<Rightarrow> FocusSelect_HandleVoiceTieBreak w fs
           | source_type_audio _ \<Rightarrow> FocusSelect_HandleTieBreak w fs
           | source_type_other \<Rightarrow> Inr fs)
         else Inr fs) (\<lambda>fs.
     res_bind (focusSelect_VoiceSourceIsActive env fs w) (\<lambda>voice.
     res_bind (if voice then Inr True else focusSelect_AudioSourceIsActive fs) (\<lambda>active.
       Inr (w, if active \<or> highest_priority_source_has_audio fs then highest_priority_source fs else source_type_other))))))"

text \<open>The answer is whether the focus is \<^verbatim>\<open>focus_foreground\<close>, and not \<^verbatim>\<open>focus_none\<close>.\<close>

definition FocusSelect_GetFocusForAudioSource :: "focus_env \<Rightarrow> nat \<Rightarrow> focus_world \<Rightarrow> (focus_world \<times> bool) res" where
  "FocusSelect_GetFocusForAudioSource env s w =
     res_bind (FocusSelect_GetFocusedSourceForAudioRouting env w) (\<lambda>(w, src). Inr (w, src = source_type_audio s))"

definition FocusSelect_GetFocusForVoiceSource :: "focus_env \<Rightarrow> nat \<Rightarrow> focus_world \<Rightarrow> (focus_world \<times> bool) res" where
  "FocusSelect_GetFocusForVoiceSource env s w =
     res_bind (FocusSelect_GetFocusedSourceForAudioRouting env w) (\<lambda>(w, src). Inr (w, src = source_type_voice s))"

definition FocusSelect_DeviceHasVoiceOrAudioForegroundFocus :: "focus_env \<Rightarrow> nat \<Rightarrow> focus_world \<Rightarrow> (focus_world \<times> bool) res" where
  "FocusSelect_DeviceHasVoiceOrAudioForegroundFocus env d w =
     res_bind (DeviceProperties_GetVoiceSource (focus_devices w) d) (\<lambda>v.
     res_bind (DeviceProperties_GetAudioSource (focus_devices w) d) (\<lambda>a.
     res_bind (FocusSelect_GetFocusForVoiceSource env v w) (\<lambda>(w, voice).
       if voice then Inr (w, True) else FocusSelect_GetFocusForAudioSource env a w)))"

definition BtDevice_GetDeviceType :: "headset_devices \<Rightarrow> nat \<Rightarrow> nat res" where
  "BtDevice_GetDeviceType c d =
     res_bind (Device_GetProperty (properties c d) device_property_type) (\<lambda>r.
       Inr (case r of Some (v, n) \<Rightarrow> unat (le32 v) | None \<Rightarrow> 0))"

definition DeviceProperties_GetBdAddr :: "headset_devices \<Rightarrow> nat \<Rightarrow> u8 list res" where
  "DeviceProperties_GetBdAddr c d =
     res_bind (Device_GetProperty (properties c d) device_property_bdaddr) (\<lambda>r.
     res_bind (panic_null r) (\<lambda>(v, n).
     res_bind (panic_unless (n = 8)) (\<lambda>_. Inr v)))"

definition FocusSelect_GetFocusForDevice :: "focus_env \<Rightarrow> nat \<Rightarrow> focus_world \<Rightarrow> (focus_world \<times> bool) res" where
  "FocusSelect_GetFocusForDevice env d w =
     res_bind (BtDevice_GetDeviceType (focus_devices w) d) (\<lambda>ty.
       if ty = DEVICE_TYPE_SINK
       then res_bind (DeviceProperties_GetBdAddr (focus_devices w) d) (\<lambda>a.
         if connected_to env a
         then res_bind (DeviceList_IsDeviceOnList (trusted (focus_devices w)) d) (\<lambda>b. Inr (w, b))
         else Inr (w, False))
       else FocusSelect_DeviceHasVoiceOrAudioForegroundFocus env d w)"

section \<open>Focus for user inputs\<close>

definition audio_context_to_ui_prio_mapping :: "u8 list" where
  "audio_context_to_ui_prio_mapping = [0, 1, 2, 3, 4, 2, 5, 6]"

definition voice_context_to_ui_prio_mapping :: "u8 list" where
  "voice_context_to_ui_prio_mapping = [0, 1, 4, 5, 3, 5, 4, 3, 2, 3]"

definition focusSelect_AudioSourceCalculatePriorityForUi :: "focus_env \<Rightarrow> priority_calculator" where
  "focusSelect_AudioSourceCalculatePriorityForUi env fs src w = (case src of
     source_type_audio s \<Rightarrow>
       res_bind (AudioSources_GetSourceContext env s w) (\<lambda>(w, x).
       res_bind (array_get audio_context_to_ui_prio_mapping x) (\<lambda>p. set_priority src x False p w fs))
   | _ \<Rightarrow> Inl Panic)"

definition focusSelect_VoiceSourceCalculatePriorityForUi :: "focus_env \<Rightarrow> priority_calculator" where
  "focusSelect_VoiceSourceCalculatePriorityForUi env fs src w = (case src of
     source_type_voice s \<Rightarrow>
       res_bind (VoiceSources_GetSourceContext env s w) (\<lambda>x.
       res_bind (array_get voice_context_to_ui_prio_mapping x) (\<lambda>p. set_priority src x False p w fs))
   | _ \<Rightarrow> Inl Panic)"

text \<open>The source found, if any. The input is not looked at.\<close>

definition FocusSelect_GetAudioSourceForContext :: "focus_env \<Rightarrow> focus_world \<Rightarrow> (focus_world \<times> nat option) res" where
  "FocusSelect_GetAudioSourceForContext env w =
     res_bind (SourcesIterator_Create env False True w) (\<lambda>(w, it).
     res_bind (FocusSelect_CompileFocusStatus (focusSelect_AudioSourceCalculatePriorityForUi env) it (w, no_status)) (\<lambda>(w, fs, found).
       if found
       then res_bind (FocusSelect_HandleTieBreak w fs) (\<lambda>fs.
         Inr (w, case highest_priority_source fs of source_type_audio s \<Rightarrow> Some s | source_type_voice s \<Rightarrow> Some s | source_type_other \<Rightarrow> Some 0))
       else Inr (w, None)))"

definition FocusSelect_GetAudioSourceForUiInput :: "focus_env \<Rightarrow> focus_world \<Rightarrow> (focus_world \<times> nat option) res" where
  "FocusSelect_GetAudioSourceForUiInput env w =
     res_bind (SourcesIterator_Create env False True w) (\<lambda>(w, it).
     res_bind (FocusSelect_CompileFocusStatus (focusSelect_AudioSourceCalculatePriorityForUi env) it (w, no_status)) (\<lambda>(w, fs, found).
       if found
       then res_bind (FocusSelect_HandleTieBreak w fs) (\<lambda>fs.
         Inr (w, case highest_priority_source fs of source_type_audio s \<Rightarrow> Some s | source_type_voice s \<Rightarrow> Some s | source_type_other \<Rightarrow> Some 0))
       else Inr (w, None)))"

definition focusSelect_GetVoiceSourceForUiInteractionWithIterator ::
  "focus_env \<Rightarrow> sources_iterator \<Rightarrow> focus_world \<Rightarrow> (focus_world \<times> nat option) res" where
  "focusSelect_GetVoiceSourceForUiInteractionWithIterator env it w =
     res_bind (FocusSelect_CompileFocusStatus (focusSelect_VoiceSourceCalculatePriorityForUi env) it (w, no_status)) (\<lambda>(w, fs, found).
       if found
       then res_bind (FocusSelect_HandleVoiceTieBreak w fs) (\<lambda>fs.
         Inr (w, case highest_priority_source fs of source_type_voice s \<Rightarrow> Some s | source_type_audio s \<Rightarrow> Some s | source_type_other \<Rightarrow> Some 0))
       else Inr (w, None))"

definition focusSelect_GetVoiceSourceForUiInteraction :: "focus_env \<Rightarrow> focus_world \<Rightarrow> (focus_world \<times> nat option) res" where
  "focusSelect_GetVoiceSourceForUiInteraction env w =
     res_bind (SourcesIterator_Create env True False w) (\<lambda>(w, it).
       focusSelect_GetVoiceSourceForUiInteractionWithIterator env it w)"

definition FocusSelect_GetVoiceSourceForContext :: "focus_env \<Rightarrow> focus_world \<Rightarrow> (focus_world \<times> nat option) res" where
  "FocusSelect_GetVoiceSourceForContext = focusSelect_GetVoiceSourceForUiInteraction"

definition FocusSelect_GetVoiceSourceForUiInput :: "focus_env \<Rightarrow> focus_world \<Rightarrow> (focus_world \<times> nat option) res" where
  "FocusSelect_GetVoiceSourceForUiInput = focusSelect_GetVoiceSourceForUiInteraction"

definition FocusSelect_GetVoiceSourceInContextArray ::
  "focus_env \<Rightarrow> nat \<Rightarrow> nat list \<Rightarrow> focus_world \<Rightarrow> (focus_world \<times> nat option) res" where
  "FocusSelect_GetVoiceSourceInContextArray env voice_source contexts w =
     res_bind (SourcesIterator_Create env False False w) (\<lambda>(w, it).
     res_bind (SourcesIterator_AddSourcesInContextArray env True False contexts (w, it)) (\<lambda>(w, it).
       focusSelect_GetVoiceSourceForUiInteractionWithIterator env (SourcesIterator_RemoveVoiceSource voice_source it) w))"

section \<open>Focus for handsets\<close>

definition handset_context_link_loss :: nat where "handset_context_link_loss = 2"
definition handset_context_connecting :: nat where "handset_context_connecting = 4"

definition DeviceProperties_GetHandsetContext :: "headset_devices \<Rightarrow> nat \<Rightarrow> nat res" where
  "DeviceProperties_GetHandsetContext c d =
     (if d \<noteq> 0
      then res_bind (Device_GetProperty (properties c d) device_property_handset_context) (\<lambda>r. case r of
          Some (v, n) \<Rightarrow> Inr (if n = 4 then unat (le32 v) else 0)
        | None \<Rightarrow> Inr 0)
      else Inr 0)"

definition DeviceProperties_IsUpgradeTransportConnected :: "headset_devices \<Rightarrow> nat \<Rightarrow> bool res" where
  "DeviceProperties_IsUpgradeTransportConnected c d =
     res_bind (Device_GetPropertyU8 (properties c d) device_property_upgrade_transport_connected) (\<lambda>r.
       Inr (case r of Some x \<Rightarrow> x \<noteq> 0 | None \<Rightarrow> False))"

definition DeviceProperties_DeviceIsMruHandset :: "headset_devices \<Rightarrow> nat \<Rightarrow> bool res" where
  "DeviceProperties_DeviceIsMruHandset c d =
     res_bind (Device_GetPropertyU8 (properties c d) device_property_mru) (\<lambda>r.
       Inr (case r of Some x \<Rightarrow> x \<noteq> 0 | None \<Rightarrow> False))"

definition BtDevice_GetIndexedDevice :: "focus_env \<Rightarrow> headset_devices \<Rightarrow> nat \<Rightarrow> nat res" where
  "BtDevice_GetIndexedDevice env c i = (case indexed_address env i of
     Some a \<Rightarrow> BtDevice_GetDeviceForBdAddr c a
   | None \<Rightarrow> Inr 0)"

fun first_device_of :: "(nat \<Rightarrow> bool res) \<Rightarrow> nat list \<Rightarrow> nat option res" where
  "first_device_of hit [] = Inr None"
| "first_device_of hit (d # ds) = res_bind (hit d) (\<lambda>h. if h then Inr (Some d) else first_device_of hit ds)"

definition focusSelect_GetLinkLossHandsetDevice :: "headset_devices \<Rightarrow> nat option res" where
  "focusSelect_GetLinkLossHandsetDevice c =
     res_bind (DeviceList_GetAllDevicesWithPropertyValue (trusted c) (properties c) device_property_type
         (enum_octets DEVICE_TYPE_HANDSET) 4) (\<lambda>(ds, n).
       first_device_of (\<lambda>d. res_bind (DeviceProperties_GetHandsetContext c d) (\<lambda>x. Inr (x = handset_context_link_loss))) (take n ds))"

fun next_handset_loop :: "focus_env \<Rightarrow> headset_devices \<Rightarrow> nat list \<Rightarrow> nat option res" where
  "next_handset_loop env c [] = Inr None"
| "next_handset_loop env c (i # is) =
     res_bind (BtDevice_GetIndexedDevice env c i) (\<lambda>d.
     res_bind
       (if d \<noteq> 0
        then res_bind (BtDevice_GetDeviceType c d) (\<lambda>ty.
          if ty = DEVICE_TYPE_HANDSET
          then res_bind (DeviceProperties_GetHandsetContext c d) (\<lambda>x. Inr (x \<le> handset_context_connecting))
          else Inr False)
        else Inr False)
       (\<lambda>h. if h then Inr (Some d) else next_handset_loop env c is))"

definition focusSelect_GetNextHandsetToConnect :: "focus_env \<Rightarrow> headset_devices \<Rightarrow> nat option res" where
  "focusSelect_GetNextHandsetToConnect env c =
     res_bind (DeviceList_GetMaxTrustedDevices (trusted c)) (\<lambda>n. next_handset_loop env c [0..<unat n])"

definition disconnect_priority_blocked :: nat where "disconnect_priority_blocked = 0"
definition disconnect_priority_lru :: nat where "disconnect_priority_lru = 1"
definition disconnect_priority_audio :: nat where "disconnect_priority_audio = 2"
definition disconnect_priority_dfu :: nat where "disconnect_priority_dfu = 4"
definition disconnect_priority_idle :: nat where "disconnect_priority_idle = 8"

definition focusSelect_GetHandsetDisconnectPriority :: "focus_env \<Rightarrow> nat \<Rightarrow> focus_world \<Rightarrow> (focus_world \<times> nat) res" where
  "focusSelect_GetHandsetDisconnectPriority env d w =
     (if d \<noteq> 0
      then res_bind (FocusSelect_DeviceHasVoiceOrAudioForegroundFocus env d w) (\<lambda>(w, foreground).
        res_bind
          (if foreground then Inr disconnect_priority_audio
           else res_bind (DeviceProperties_IsUpgradeTransportConnected (focus_devices w) d) (\<lambda>dfu.
             Inr (if dfu then disconnect_priority_dfu else disconnect_priority_idle)))
          (\<lambda>p. res_bind (DeviceProperties_DeviceIsMruHandset (focus_devices w) d) (\<lambda>mru.
            Inr (w, if p > disconnect_priority_blocked \<and> \<not> mru then p OR disconnect_priority_lru else p))))
      else Inr (w, disconnect_priority_blocked))"

text \<open>The handset to disconnect, if any: only the first two are looked at.\<close>

definition focusSelect_CompileDisconnectFocusStatus :: "focus_env \<Rightarrow> focus_world \<Rightarrow> (focus_world \<times> nat option) res" where
  "focusSelect_CompileDisconnectFocusStatus env w = (case connected_handsets env of
     [] \<Rightarrow> Inr (w, None)
   | d # ds \<Rightarrow>
       res_bind (focusSelect_GetHandsetDisconnectPriority env d w) (\<lambda>(w, p).
       res_bind
         (case ds of
            [] \<Rightarrow> Inr (w, d, p)
          | d2 # _ \<Rightarrow> res_bind (focusSelect_GetHandsetDisconnectPriority env d2 w) (\<lambda>(w, p2).
              Inr (if p2 > p then (w, d2, p2) else (w, d, p))))
         (\<lambda>(w, d, p). Inr (w, if p > disconnect_priority_blocked then Some d else None))))"

datatype handset_input = ui_input_connect_handset | ui_input_disconnect_lru_handset | ui_input_connect_handset_link_loss | other_input

definition FocusSelect_GetDeviceForUiInput :: "focus_env \<Rightarrow> handset_input \<Rightarrow> focus_world \<Rightarrow> (focus_world \<times> nat option) res" where
  "FocusSelect_GetDeviceForUiInput env inp w = (case inp of
     ui_input_connect_handset \<Rightarrow> res_bind (focusSelect_GetNextHandsetToConnect env (focus_devices w)) (\<lambda>d. Inr (w, d))
   | ui_input_disconnect_lru_handset \<Rightarrow> focusSelect_CompileDisconnectFocusStatus env w
   | ui_input_connect_handset_link_loss \<Rightarrow> res_bind (focusSelect_GetLinkLossHandsetDevice (focus_devices w)) (\<lambda>d. Inr (w, d))
   | other_input \<Rightarrow> Inr (w, None))"

end
