(* ===== verification/Focus_Control.thy ===== *)
theory Focus_Control
  imports Focus_Select
begin

text \<open>
  What the selection of the focus computes: the compiled status holds the priorities of the registered sources
  and the best of them, and a tie break stays among the best, but for the source routed last.
\<close>

section \<open>Well-formedness\<close>

definition media_context :: "focus_env \<Rightarrow> ptr \<Rightarrow> nat \<Rightarrow> nat" where
  "media_context env p s = (case Context env p of
     None \<Rightarrow> BAD_CONTEXT
   | Some f \<Rightarrow> (case ContextOverride env of None \<Rightarrow> f s | Some g \<Rightarrow> g s (f s)))"

definition call_context :: "focus_env \<Rightarrow> ptr \<Rightarrow> nat \<Rightarrow> nat" where
  "call_context env p s = (case GetUiProviderContext env p of None \<Rightarrow> context_voice_disconnected | Some f \<Rightarrow> f s)"

text \<open>The profiles answer with contexts of their type.\<close>

definition env_ok :: "focus_env \<Rightarrow> bool" where
  "env_ok env \<longleftrightarrow> (\<forall>p s. media_context env p s < max_audio_contexts \<and> call_context env p s < max_voice_contexts)"

definition voice_source_of :: "headset_devices \<Rightarrow> nat \<Rightarrow> nat" where
  "voice_source_of c d = (case property_of c d device_property_voice_source of
     Some v \<Rightarrow> if length v = 4 then unat (le32 v) else 0 | None \<Rightarrow> 0)"

definition sources_recorded :: "headset_devices \<Rightarrow> bool" where
  "sources_recorded c \<longleftrightarrow> (\<forall>d. listed c d \<longrightarrow> source_of c d < max_audio_sources \<and> voice_source_of c d < max_voice_sources)"

definition selection_ok :: "focus_world \<Rightarrow> bool" where
  "selection_ok w \<longleftrightarrow> registry_ok (audio_registry (service w)) \<and> length (telephony_control_interface w) = max_voice_sources \<and>
     length (voice_source_audio_interfaces w) = max_voice_sources \<and> last_routed_audio_source w < max_audio_sources \<and>
     devices_ok (focus_devices w) \<and> sources_recorded (focus_devices w)"

text \<open>Looking something up in the registry may add an empty entry, which changes nothing that is seen.\<close>

definition same_focus :: "focus_world \<Rightarrow> focus_world \<Rightarrow> bool" where
  "same_focus w w' \<longleftrightarrow> (\<exists>r. w' = w\<lparr>service := (service w)\<lparr>audio_registry := r\<rparr>\<rparr> \<and> registry_ok r \<and>
     registry_map r = registry_map (audio_registry (service w)))"

lemma same_focus_refl: "selection_ok w \<Longrightarrow> same_focus w w"
  unfolding same_focus_def selection_ok_def by (intro exI [of _ "audio_registry (service w)"]) simp

lemma same_focus_trans: "same_focus u v \<Longrightarrow> same_focus v w \<Longrightarrow> same_focus u w"
  by (fastforce simp: same_focus_def)

lemma same_focus_ok: "selection_ok w \<Longrightarrow> same_focus w w' \<Longrightarrow> selection_ok w'"
  by (auto simp: same_focus_def selection_ok_def focus_devices_def)

lemma same_focus_fields:
  assumes "same_focus w w'"
  shows "registry_map (audio_registry (service w')) = registry_map (audio_registry (service w))"
    "telephony_control_interface w' = telephony_control_interface w"
    "voice_source_audio_interfaces w' = voice_source_audio_interfaces w"
    "last_routed_audio_source w' = last_routed_audio_source w" "focus_devices w' = focus_devices w"
    "audio_source_tie_break_ordering w' = audio_source_tie_break_ordering w"
    "voice_source_tie_break_ordering w' = voice_source_tie_break_ordering w"
    "a2dp_barge_in_enabled w' = a2dp_barge_in_enabled w"
    "a2dp_barge_in_enabled_for_sass w' = a2dp_barge_in_enabled_for_sass w"
  using assms by (auto simp: same_focus_def focus_devices_def)

section \<open>Contexts\<close>

definition audio_context :: "focus_env \<Rightarrow> focus_world \<Rightarrow> nat \<Rightarrow> nat" where
  "audio_context env w s = (case registry_map (audio_registry (service w)) s audio_interface_type_media_control of
     [] \<Rightarrow> BAD_CONTEXT | p # _ \<Rightarrow> media_context env p s)"

definition voice_context :: "focus_env \<Rightarrow> focus_world \<Rightarrow> nat \<Rightarrow> nat" where
  "voice_context env w s = (case telephony_control_interface w ! s of
     None \<Rightarrow> context_voice_disconnected | Some p \<Rightarrow> call_context env p s)"

definition voice_channel :: "focus_env \<Rightarrow> focus_world \<Rightarrow> nat \<Rightarrow> bool" where
  "voice_channel env w s = (case Option.bind (voice_source_audio_interfaces w ! s) (VoiceChannelAvailable env) of
     None \<Rightarrow> False | Some f \<Rightarrow> f s)"

lemma same_contexts:
  assumes "same_focus w w'"
  shows "audio_context env w' = audio_context env w" "voice_context env w' = voice_context env w"
    "voice_channel env w' = voice_channel env w"
  by (simp_all add: fun_eq_iff audio_context_def voice_context_def voice_channel_def same_focus_fields [OF assms])

lemma focus_interfaces_wp:
  assumes "selection_ok w" and "audioInterface_SourceIsValid s"
  shows "wp (interfaces_of s ty (service w)) (\<lambda>(v, l, n). same_focus w (w\<lparr>service := v\<rparr>) \<and>
    l ! 0 = (case registry_map (audio_registry (service w)) s ty of [] \<Rightarrow> None | p # _ \<Rightarrow> Some p) \<and>
    n = length (registry_map (audio_registry (service w)) s ty))"
proof -
  have ok: "registry_ok (audio_registry (service w))"
    using assms(1) by (simp add: selection_ok_def)
  have "0 < max_interfaces ty"
    by (simp add: max_interfaces_def)
  then have "padded (max_interfaces ty) ps ! 0 = (case ps of [] \<Rightarrow> None | p # _ \<Rightarrow> Some p)" for ps
    by (simp add: padded_def nth_append split: list.split)
  then show ?thesis
    using get_refines [OF ok assms(2), of ty] by (auto simp: interfaces_of_def same_focus_def)
qed

lemma GetSourceContext_wp:
  assumes "selection_ok w" and "audioInterface_SourceIsValid s"
  shows "wp (AudioSources_GetSourceContext env s w) (\<lambda>(w', x). same_focus w w' \<and> x = audio_context env w s)"
  unfolding AudioSources_GetSourceContext_def
  by (rule wp_bindI [OF focus_interfaces_wp [OF assms]])
    (auto simp: audio_context_def media_context_def split: list.splits option.splits)

lemma validate_selected [simp]: "VoiceSource_IsValid s \<Longrightarrow> voiceSources_ValidateSource s = Inr ()"
  by (simp add: VoiceSource_IsValid_def voiceSources_ValidateSource_def)

lemma VoiceContext_eq [simp]:
  "VoiceSource_IsValid s \<Longrightarrow> VoiceSources_GetSourceContext env s w = Inr (voice_context env w s)"
  by (simp add: VoiceSources_GetSourceContext_def voice_context_def call_context_def split: option.split)

lemma VoiceChannel_eq [simp]:
  "VoiceSource_IsValid s \<Longrightarrow> VoiceSources_IsVoiceChannelAvailable env s w = Inr (voice_channel env w s)"
  by (simp add: VoiceSources_IsVoiceChannelAvailable_def voice_channel_def)

section \<open>The sources visited\<close>

definition voice_sources_of :: "focus_world \<Rightarrow> nat list" where
  "voice_sources_of w = filter (\<lambda>s. telephony_control_interface w ! s \<noteq> None) [1..<max_voice_sources]"

definition audio_sources_of :: "focus_world \<Rightarrow> nat list" where
  "audio_sources_of w =
     filter (\<lambda>s. registry_map (audio_registry (service w)) s audio_interface_type_media_control \<noteq> []) [1..<max_audio_sources]"

lemma same_sources:
  assumes "same_focus w w'"
  shows "voice_sources_of w' = voice_sources_of w" "audio_sources_of w' = audio_sources_of w"
  by (simp_all add: voice_sources_of_def audio_sources_of_def same_focus_fields [OF assms])

lemma sources_valid:
  "s \<in> set (voice_sources_of w) \<Longrightarrow> VoiceSource_IsValid s"
  "s \<in> set (audio_sources_of w) \<Longrightarrow> AudioSource_IsValid s"
  by (auto simp: voice_sources_of_def audio_sources_of_def VoiceSource_IsValid_def AudioSource_IsValid_def)

lemma valid_audio: "AudioSource_IsValid s \<longleftrightarrow> audioInterface_SourceIsValid s"
  by (auto simp: AudioSource_IsValid_def audioInterface_SourceIsValid_def)

lemma for_res_collect:
  assumes "\<And>s w it. s \<in> set xs \<Longrightarrow> P w \<Longrightarrow> length it < n \<Longrightarrow>
      wp (f s (w, it)) (\<lambda>(w', it'). same_focus w w' \<and> P w' \<and> it' = it @ (if Q s then [g s] else []))"
    and "P w" and "selection_ok w" and "length it + length xs \<le> n"
  shows "wp (for_res f xs (w, it)) (\<lambda>(w', it'). same_focus w w' \<and> P w' \<and> it' = it @ map g (filter Q xs))"
  using assms
proof (induction xs arbitrary: w it)
  case Nil
  then show ?case
    by (simp add: same_focus_refl)
next
  case (Cons s xs)
  have "wp (f s (w, it)) (\<lambda>(w', it'). same_focus w w' \<and> P w' \<and> it' = it @ (if Q s then [g s] else []))"
    by (rule Cons.prems(1)) (use Cons.prems in auto)
  then show ?case
    unfolding for_res.simps
  proof (rule wp_bind2I)
    fix w' it'
    assume *: "same_focus w w' \<and> P w' \<and> it' = it @ (if Q s then [g s] else [])"
    have "wp (for_res f xs (w', it')) (\<lambda>(w'', it''). same_focus w' w'' \<and> P w'' \<and> it'' = it' @ map g (filter Q xs))"
      by (rule Cons.IH) (use Cons.prems * in \<open>auto dest: same_focus_ok\<close>)
    then show "wp (for_res f xs (w', it')) (\<lambda>(w'', it''). same_focus w w'' \<and> P w'' \<and> it'' = it @ map g (filter Q (s # xs)))"
      by (rule wp_mono2) (use * in \<open>auto dest: same_focus_trans\<close>)
  qed
qed

definition selectable :: "bool \<Rightarrow> bool \<Rightarrow> focus_world \<Rightarrow> generic_source list" where
  "selectable voice audio w = (if voice then map source_type_voice (voice_sources_of w) else []) @
     (if audio then map source_type_audio (audio_sources_of w) else [])"

lemma Create_wp:
  assumes "selection_ok w"
  shows "wp (SourcesIterator_Create env voice audio w) (\<lambda>(w', it). same_focus w w' \<and> it = selectable voice audio w)"
proof -
  have v: "wp (if voice then sourcesIterator_AddVoiceSourcesWithContextFilter env [] (w, []) else Inr (w, []))
      (\<lambda>(w', it). same_focus w w' \<and> w' = w \<and> it = map source_type_voice (if voice then voice_sources_of w else []))"
  proof (cases voice)
    case True
    have "wp (sourcesIterator_AddVoiceSourcesWithContextFilter env [] (w, []))
        (\<lambda>(w', it'). same_focus w w' \<and> w' = w \<and>
          it' = [] @ map source_type_voice (filter (\<lambda>s. telephony_control_interface w ! s \<noteq> None) [1..<max_voice_sources]))"
      unfolding sourcesIterator_AddVoiceSourcesWithContextFilter_def
    proof (rule for_res_collect [where n = 12])
      fix s w' and it :: sources_iterator
      assume s: "s \<in> set [1..<max_voice_sources]" and w: "w' = w" and it: "length it < 12"
      from s have valid: "voiceSources_ValidateSource s = Inr ()"
        by (simp add: voiceSources_ValidateSource_def)
      show "wp ((\<lambda>(w, it). res_bind (VoiceSources_IsSourceRegisteredForTelephonyControl s w) (\<lambda>reg.
           if reg then res_bind (sourcesIterator_SourceContextIsAllowed env (source_type_voice s) [] w) (\<lambda>(w, allowed).
             if allowed then res_bind (sourcesIterator_AddSource (source_type_voice s) it) (\<lambda>it. Inr (w, it)) else Inr (w, it))
           else Inr (w, it))) (w', it))
          (\<lambda>(w'', it'). same_focus w' w'' \<and> w'' = w \<and>
            it' = it @ (if telephony_control_interface w ! s \<noteq> None then [source_type_voice s] else []))"
        using it w assms valid
        by (simp add: VoiceSources_IsSourceRegisteredForTelephonyControl_def sourcesIterator_SourceContextIsAllowed_def
            sourcesIterator_AddSource_def max_audio_sources_def max_voice_sources_def same_focus_refl)
    qed (use assms in \<open>simp_all add: max_voice_sources_def\<close>)
    then show ?thesis
      using True by (simp add: voice_sources_of_def)
  qed (simp add: same_focus_refl [OF assms])
  show ?thesis
    unfolding SourcesIterator_Create_def
  proof (rule wp_bind2I [OF v])
    fix w' it
    assume *: "same_focus w w' \<and> w' = w \<and> it = map source_type_voice (if voice then voice_sources_of w else [])"
    show "wp ((if audio then sourcesIterator_AddAudioSourcesWithContextFilter env [] else Inr) (w', it))
        (\<lambda>(w', it). same_focus w w' \<and> it = selectable voice audio w)"
    proof (cases audio)
      case True
      let ?Q = "\<lambda>s. registry_map (audio_registry (service w)) s audio_interface_type_media_control \<noteq> []"
      have "length it \<le> 4"
        using * length_filter_le [of "\<lambda>s. telephony_control_interface w ! s \<noteq> None" "[1..<max_voice_sources]"]
        by (auto simp: voice_sources_of_def max_voice_sources_def)
      then have "wp (sourcesIterator_AddAudioSourcesWithContextFilter env [] (w, it))
          (\<lambda>(w', it'). same_focus w w' \<and> same_focus w w' \<and> it' = it @ map source_type_audio (filter ?Q [1..<max_audio_sources]))"
        unfolding sourcesIterator_AddAudioSourcesWithContextFilter_def
      proof (intro for_res_collect [where n = 12])
        fix s w1 and it :: sources_iterator
        assume s: "s \<in> set [1..<max_audio_sources]" and w: "same_focus w w1" and it: "length it < 12"
        from s have valid: "audioInterface_SourceIsValid s"
          by (simp add: audioInterface_SourceIsValid_def)
        have ok: "selection_ok w1"
          using same_focus_ok [OF assms w] .
        show "wp ((\<lambda>(w, it). res_bind (interfaces_of s audio_interface_type_media_control (service w)) (\<lambda>(v, l, n).
             let w = w\<lparr>service := v\<rparr> in
             if n \<ge> 1 then res_bind (sourcesIterator_SourceContextIsAllowed env (source_type_audio s) [] w) (\<lambda>(w, allowed).
               if allowed then res_bind (sourcesIterator_AddSource (source_type_audio s) it) (\<lambda>it. Inr (w, it)) else Inr (w, it))
             else Inr (w, it))) (w1, it))
            (\<lambda>(w', it'). same_focus w1 w' \<and> same_focus w w' \<and> it' = it @ (if ?Q s then [source_type_audio s] else []))"
          unfolding split_conv
          by (rule wp_bindI [OF focus_interfaces_wp [OF ok valid]])
            (use it w in \<open>auto simp: Let_def sourcesIterator_SourceContextIsAllowed_def sourcesIterator_AddSource_def
              max_audio_sources_def max_voice_sources_def same_focus_fields(1) [OF w] Suc_le_eq
              dest: same_focus_trans [OF w]\<close>)
      qed (use assms in \<open>simp_all add: max_audio_sources_def same_focus_refl\<close>)
      then show ?thesis
        using * True by (auto simp: selectable_def audio_sources_of_def intro: wp_mono2)
    qed (use * in \<open>auto simp: selectable_def\<close>)
  qed
qed

section \<open>Compiling the status\<close>

definition source_valid :: "generic_source \<Rightarrow> bool" where
  "source_valid src = (case src of source_type_audio s \<Rightarrow> AudioSource_IsValid s | source_type_voice s \<Rightarrow> VoiceSource_IsValid s
     | source_type_other \<Rightarrow> False)"

definition arrays_ok :: "focus_status \<Rightarrow> bool" where
  "arrays_ok fs \<longleftrightarrow> length (cache_data_by_voice_source_array fs) = max_voice_sources - 1 \<and>
     length (cache_data_by_audio_source_array fs) = max_audio_sources - 1"

definition cached :: "focus_status \<Rightarrow> generic_source \<Rightarrow> source_cache_data" where
  "cached fs src = (case src of
     source_type_audio s \<Rightarrow> cache_data_by_audio_source_array fs ! (s - 1)
   | source_type_voice s \<Rightarrow> cache_data_by_voice_source_array fs ! (s - 1)
   | source_type_other \<Rightarrow> \<lparr>cache_context = 0, cache_has_audio = False, cache_priority = 0\<rparr>)"

definition no_data :: source_cache_data where
  "no_data = \<lparr>cache_context = 0, cache_has_audio = False, cache_priority = 0\<rparr>"

lemma GetCacheData_eq [simp]: "source_valid src \<Longrightarrow> focusSelect_GetCacheDataForSource fs src = Inr (cached fs src)"
  by (simp add: source_valid_def focusSelect_GetCacheDataForSource_def focusSelect_GetCacheDataForVoiceSource_def
      focusSelect_GetCacheDataForAudioSource_def cached_def split: generic_source.splits)

lemma SetCacheData_wp:
  assumes "source_valid src" and "arrays_ok fs"
  shows "wp (FocusSelect_SetCacheDataForSource fs src x audio prio) (\<lambda>(fs', c).
    c = \<lparr>cache_context = x, cache_has_audio = audio, cache_priority = prio\<rparr> \<and> arrays_ok fs' \<and>
    (\<forall>u. source_valid u \<longrightarrow> cached fs' u = (if u = src then c else cached fs u)) \<and>
    highest_priority_source fs' = highest_priority_source fs \<and> highest_priority fs' = highest_priority fs \<and>
    highest_priority_source_has_audio fs' = highest_priority_source_has_audio fs \<and>
    highest_priority_context fs' = highest_priority_context fs \<and>
    num_highest_priority_sources fs' = num_highest_priority_sources fs)"
  using assms
  by (cases src) (auto simp: FocusSelect_SetCacheDataForSource_def Let_def arrays_ok_def cached_def source_valid_def
      AudioSource_IsValid_def VoiceSource_IsValid_def nth_list_update split: generic_source.splits)

text \<open>The status after the sources of a list with the data \<open>val\<close>.\<close>

definition compiled :: "(generic_source \<Rightarrow> source_cache_data) \<Rightarrow> generic_source list \<Rightarrow> focus_status \<Rightarrow> bool" where
  "compiled val it fs \<longleftrightarrow> arrays_ok fs \<and>
     (\<forall>u. source_valid u \<longrightarrow> cached fs u = (if u \<in> set it then val u else no_data)) \<and>
     num_highest_priority_sources fs = word_of_nat (length (filter (\<lambda>u. cache_priority (val u) = highest_priority fs) it)) \<and>
     (if it = [] then highest_priority_source fs = source_type_other \<and> highest_priority_context fs = 0 \<and>
         \<not> highest_priority_source_has_audio fs
      else highest_priority_source fs \<in> set it \<and> highest_priority fs = cache_priority (val (highest_priority_source fs)) \<and>
        highest_priority_context fs = cache_context (val (highest_priority_source fs)) \<and>
        highest_priority_source_has_audio fs = cache_has_audio (val (highest_priority_source fs)) \<and>
        (\<forall>u \<in> set it. cache_priority (val u) \<le> highest_priority fs))"

text \<open>A calculator that stores the data \<open>val\<close> of the sources of \<open>P\<close>.\<close>

definition calculates ::
  "priority_calculator \<Rightarrow> (focus_world \<Rightarrow> generic_source \<Rightarrow> source_cache_data) \<Rightarrow> (focus_world \<Rightarrow> generic_source \<Rightarrow> bool) \<Rightarrow> bool" where
  "calculates calc val P \<longleftrightarrow> (\<forall>w fs src. selection_ok w \<longrightarrow> P w src \<longrightarrow> arrays_ok fs \<longrightarrow> source_valid src \<and>
     wp (calc fs src w) (\<lambda>(w', fs', c). same_focus w w' \<and> c = val w src \<and> arrays_ok fs' \<and>
       (\<forall>u. source_valid u \<longrightarrow> cached fs' u = (if u = src then c else cached fs u)) \<and>
       highest_priority_source fs' = highest_priority_source fs \<and> highest_priority fs' = highest_priority fs \<and>
       highest_priority_source_has_audio fs' = highest_priority_source_has_audio fs \<and>
       highest_priority_context fs' = highest_priority_context fs \<and>
       num_highest_priority_sources fs' = num_highest_priority_sources fs)) \<and>
   (\<forall>w w'. same_focus w w' \<longrightarrow> val w' = val w \<and> P w' = P w)"

lemma status_updates [simp]:
  "cached (fs\<lparr>highest_priority_source := a\<rparr>) = cached fs" "cached (fs\<lparr>highest_priority_source_has_audio := b\<rparr>) = cached fs"
  "cached (fs\<lparr>highest_priority_context := x\<rparr>) = cached fs" "cached (fs\<lparr>highest_priority := p\<rparr>) = cached fs"
  "cached (fs\<lparr>num_highest_priority_sources := n\<rparr>) = cached fs"
  "arrays_ok (fs\<lparr>highest_priority_source := a\<rparr>) = arrays_ok fs"
  "arrays_ok (fs\<lparr>highest_priority_source_has_audio := b\<rparr>) = arrays_ok fs"
  "arrays_ok (fs\<lparr>highest_priority_context := x\<rparr>) = arrays_ok fs" "arrays_ok (fs\<lparr>highest_priority := p\<rparr>) = arrays_ok fs"
  "arrays_ok (fs\<lparr>num_highest_priority_sources := n\<rparr>) = arrays_ok fs"
  by (simp_all add: cached_def arrays_ok_def fun_eq_iff split: generic_source.split)

lemma no_status_compiled: "compiled val [] no_status"
  by (auto simp: compiled_def arrays_ok_def no_status_def cached_def no_data_def source_valid_def AudioSource_IsValid_def
      VoiceSource_IsValid_def Let_def split: generic_source.split)

lemma compile_source_wp:
  assumes "calculates calc val P" and "selection_ok w" and "P w src" and "src \<notin> set it" and "compiled (val w) it fs"
  shows "wp (compile_source calc src (w, fs, it \<noteq> [])) (\<lambda>(w', fs', found). same_focus w w' \<and> compiled (val w) (it @ [src]) fs' \<and> found)"
proof -
  have fs: "arrays_ok fs"
    using assms(5) by (simp add: compiled_def)
  have calc: "wp (calc fs src w) (\<lambda>(w', fs', c). same_focus w w' \<and> c = val w src \<and> arrays_ok fs' \<and>
       (\<forall>u. source_valid u \<longrightarrow> cached fs' u = (if u = src then c else cached fs u)) \<and>
       highest_priority_source fs' = highest_priority_source fs \<and> highest_priority fs' = highest_priority fs \<and>
       highest_priority_source_has_audio fs' = highest_priority_source_has_audio fs \<and>
       highest_priority_context fs' = highest_priority_context fs \<and>
       num_highest_priority_sources fs' = num_highest_priority_sources fs)"
    using assms(1-3) fs unfolding calculates_def by blast
  define same where "same fs' \<longleftrightarrow> arrays_ok fs' \<and>
      (\<forall>u. source_valid u \<longrightarrow> cached fs' u = (if u = src then val w src else cached fs u)) \<and>
      highest_priority_source fs' = highest_priority_source fs \<and> highest_priority fs' = highest_priority fs \<and>
      highest_priority_source_has_audio fs' = highest_priority_source_has_audio fs \<and>
      highest_priority_context fs' = highest_priority_context fs \<and>
      num_highest_priority_sources fs' = num_highest_priority_sources fs" for fs'
  let ?c = "val w src"
  have caches: "same fs' \<Longrightarrow> source_valid u \<Longrightarrow> cached fs' u = (if u \<in> set (it @ [src]) then val w u else no_data)" for u fs'
    using assms(5) by (auto simp: compiled_def same_def)
  have new: "filter (\<lambda>u. cache_priority (val w u) = cache_priority ?c) it = []" "\<forall>u \<in> set it. cache_priority (val w u) \<le> cache_priority ?c"
    if "it = [] \<or> highest_priority fs < cache_priority ?c"
    using that assms(5) by (cases "it = []"; auto simp: compiled_def filter_empty_conv not_le [symmetric])+
  have best: "compiled (val w) (it @ [src]) (fs'\<lparr>highest_priority_source := src, highest_priority_context := cache_context ?c,
      highest_priority_source_has_audio := cache_has_audio ?c, highest_priority := cache_priority ?c, num_highest_priority_sources := 1\<rparr>)"
    if "same fs'" and "it = [] \<or> highest_priority fs < cache_priority ?c" for fs'
    using new [OF that(2)] that(1) caches [OF that(1)] by (simp add: compiled_def same_def)
  have tie: "compiled (val w) (it @ [src]) (fs'\<lparr>num_highest_priority_sources := num_highest_priority_sources fs + 1\<rparr>)"
    if "same fs'" and "it \<noteq> []" and "cache_priority ?c = highest_priority fs" for fs'
    using that caches [OF that(1)] assms(5) by (auto simp: compiled_def same_def)
  have less: "compiled (val w) (it @ [src]) fs'"
    if "same fs'" and "it \<noteq> []" and "\<not> highest_priority fs < cache_priority ?c" and "cache_priority ?c \<noteq> highest_priority fs" for fs'
    using that caches [OF that(1)] assms(5) by (auto simp: compiled_def same_def)
  show ?thesis
    unfolding compile_source_def split_conv
  proof (rule wp_bindI [OF calc])
    fix x
    assume x: "case x of (w', fs', c) \<Rightarrow> same_focus w w' \<and> c = val w src \<and> arrays_ok fs' \<and>
       (\<forall>u. source_valid u \<longrightarrow> cached fs' u = (if u = src then c else cached fs u)) \<and>
       highest_priority_source fs' = highest_priority_source fs \<and> highest_priority fs' = highest_priority fs \<and>
       highest_priority_source_has_audio fs' = highest_priority_source_has_audio fs \<and>
       highest_priority_context fs' = highest_priority_context fs \<and>
       num_highest_priority_sources fs' = num_highest_priority_sources fs"
    obtain w' fs' c where [simp]: "x = (w', fs', c)"
      by (cases x)
    have f: "same_focus w w'" "same fs'" "c = ?c" "highest_priority fs' = highest_priority fs"
      "num_highest_priority_sources fs' = num_highest_priority_sources fs"
      using x by (simp_all add: same_def)
    show "wp (case x of (w, fs, c) \<Rightarrow>
        Inr (if \<not> it \<noteq> [] \<or> cache_priority c > highest_priority fs
         then (w, fs\<lparr>highest_priority_source := src, highest_priority_context := cache_context c,
             highest_priority_source_has_audio := cache_has_audio c, highest_priority := cache_priority c,
             num_highest_priority_sources := 1\<rparr>, True)
         else if cache_priority c = highest_priority fs
         then (w, fs\<lparr>num_highest_priority_sources := num_highest_priority_sources fs + 1\<rparr>, it \<noteq> [])
         else (w, fs, it \<noteq> []))) (\<lambda>(w', fs', found). same_focus w w' \<and> compiled (val w) (it @ [src]) fs' \<and> found)"
      using f(1) best [OF f(2)] tie [OF f(2)] less [OF f(2)] by (simp add: f(3-5))
  qed
qed

lemma Compile_wp:
  assumes "calculates calc val P" and "selection_ok w" and "\<And>src. src \<in> set it \<Longrightarrow> P w src" and "distinct it"
  shows "wp (FocusSelect_CompileFocusStatus calc it (w, no_status)) (\<lambda>(w', fs, found).
    same_focus w w' \<and> compiled (val w) it fs \<and> found = (it \<noteq> []))"
  using assms(3,4) unfolding FocusSelect_CompileFocusStatus_def split_conv
proof (induction it rule: rev_induct)
  case Nil
  show ?case
    by (simp add: same_focus_refl [OF assms(2)] no_status_compiled)
next
  case (snoc src it)
  have "wp (for_res (compile_source calc) it (w, no_status, False)) (\<lambda>(w', fs, found).
      same_focus w w' \<and> compiled (val w) it fs \<and> found = (it \<noteq> []))"
    using snoc by simp
  then show ?case
    unfolding for_res_append
  proof (rule wp_bindI)
    fix x
    assume x: "case x of (w', fs, found) \<Rightarrow> same_focus w w' \<and> compiled (val w) it fs \<and> found = (it \<noteq> [])"
    obtain w' fs found where [simp]: "x = (w', fs, found)"
      by (cases x)
    have w': "same_focus w w'" "compiled (val w') it fs" "found = (it \<noteq> [])" "val w' = val w" "P w' src"
      using x assms(1) snoc.prems(1) [of src] by (auto simp: calculates_def)
    show "wp (for_res (compile_source calc) [src] x) (\<lambda>(w', fs, found).
        same_focus w w' \<and> compiled (val w) (it @ [src]) fs \<and> found = (it @ [src] \<noteq> []))"
      using compile_source_wp [OF assms(1) same_focus_ok [OF assms(2) w'(1)] w'(5) _ w'(2)] snoc.prems(2) w'(3,4)
      by (auto simp: wp_def split: sum.splits dest: same_focus_trans [OF w'(1)])
  qed
qed

text \<open>Sources of equal priority, and of the best.\<close>

definition best :: "(generic_source \<Rightarrow> source_cache_data) \<Rightarrow> generic_source list \<Rightarrow> generic_source \<Rightarrow> bool" where
  "best val it src \<longleftrightarrow> src \<in> set it \<and> (\<forall>u \<in> set it. cache_priority (val u) \<le> cache_priority (val src))"

lemma compiled_best:
  assumes "compiled val it fs" and "it \<noteq> []"
  shows "best val it (highest_priority_source fs)" "highest_priority_context fs = cache_context (val (highest_priority_source fs))"
    "highest_priority_source_has_audio fs = cache_has_audio (val (highest_priority_source fs))"
    "highest_priority fs = cache_priority (val (highest_priority_source fs))"
  using assms by (auto simp: compiled_def best_def)

lemma best_iff:
  assumes "compiled val it fs"
  shows "best val it u \<longleftrightarrow> u \<in> set it \<and> cache_priority (val u) = highest_priority fs"
  using assms by (cases "it = []") (auto simp: compiled_def best_def intro: antisym)

lemma single_best:
  assumes "compiled val it fs" and "distinct it" and "best val it x" and "\<And>u. best val it u \<Longrightarrow> u = x"
  shows "num_highest_priority_sources fs = 1"
proof -
  have "cache_priority (val u) = highest_priority fs \<longleftrightarrow> u = x" if "u \<in> set it" for u
    using best_iff [OF assms(1), of u] that assms(3,4) by metis
  then have "filter (\<lambda>u. cache_priority (val u) = highest_priority fs) it = filter (\<lambda>u. u = x) it"
    by (rule filter_cong [OF refl])
  moreover have "{u. u = x} \<inter> set it = {x}"
    using assms(3) by (auto simp: best_def)
  ultimately show ?thesis
    using assms(1,2) by (simp add: compiled_def distinct_length_filter)
qed

text \<open>A source that is not visited has priority zero, which only a disconnected source has as well.\<close>

lemma highest_priority_iff:
  assumes "compiled val it fs" and "source_valid u" and "highest_priority fs \<noteq> 0"
  shows "FocusSelect_IsSourceContextHighestPriority fs u = Inr (best val it u)"
proof -
  have "it \<noteq> []" if "u \<in> set it"
    using that by auto
  then show ?thesis
    using assms by (fastforce simp: FocusSelect_IsSourceContextHighestPriority_def compiled_def best_def no_data_def)
qed

section \<open>Tie breaks\<close>

lemma recorded_sources:
  assumes "selection_ok w" and "listed (focus_devices w) d"
  shows "DeviceProperties_GetAudioSource (focus_devices w) d = Inr (source_of (focus_devices w) d)"
    "DeviceProperties_GetVoiceSource (focus_devices w) d = Inr (voice_source_of (focus_devices w) d)"
    "source_of (focus_devices w) d < max_audio_sources" "voice_source_of (focus_devices w) d < max_voice_sources"
proof -
  have "devices_ok (focus_devices w)" "sources_recorded (focus_devices w)" "d \<noteq> 0"
    using assms by (simp_all add: selection_ok_def listed_def)
  then show "DeviceProperties_GetAudioSource (focus_devices w) d = Inr (source_of (focus_devices w) d)"
    "DeviceProperties_GetVoiceSource (focus_devices w) d = Inr (voice_source_of (focus_devices w) d)"
    "source_of (focus_devices w) d < max_audio_sources" "voice_source_of (focus_devices w) d < max_voice_sources"
    using GetProperty_of [OF _ assms(2)] assms(2)
    by (simp_all add: DeviceProperties_GetAudioSource_def DeviceProperties_GetVoiceSource_def source_of_def voice_source_of_def
        sources_recorded_def split: option.splits)
qed

lemma MruAudioSource_wp:
  assumes "selection_ok w"
  shows "wp (FocusSelect_GetMruAudioSource w) (\<lambda>s. s < max_audio_sources)"
proof -
  have dev: "devices_ok (focus_devices w)"
    using assms by (simp add: selection_ok_def)
  have "wp (DeviceProperties_GetAudioSource (focus_devices w) (first_with (focus_devices w) k v)) (\<lambda>s. s < max_audio_sources)"
    if "first_with (focus_devices w) k v \<noteq> 0" for k v
    using recorded_sources(1,3) [OF assms first_listed [OF that]] by simp
  then show ?thesis
    by (simp add: FocusSelect_GetMruAudioSource_def first_device_with [OF dev] max_audio_sources_def)
qed

lemma MruVoiceSource_wp:
  assumes "selection_ok w"
  shows "wp (FocusSelect_GetMruVoiceSource w) (\<lambda>s. s < max_voice_sources)"
proof -
  have dev: "devices_ok (focus_devices w)"
    using assms by (simp add: selection_ok_def)
  have "wp (DeviceProperties_GetVoiceSource (focus_devices w) (first_with (focus_devices w) k v)) (\<lambda>s. s < max_voice_sources)"
    if "first_with (focus_devices w) k v \<noteq> 0" for k v
    using recorded_sources(2,4) [OF assms first_listed [OF that]] by simp
  then show ?thesis
    by (simp add: FocusSelect_GetMruVoiceSource_def first_device_with [OF dev] max_voice_sources_def)
qed

lemmas source_numbers = audio_source_line_in_def audio_source_usb_def voice_source_usb_def audio_source_le_audio_unicast_def
  audio_source_le_audio_broadcast_def voice_source_hfp_1_def voice_source_hfp_2_def voice_source_le_audio_unicast_def
  audio_source_a2dp_1_def audio_source_a2dp_2_def max_audio_sources_def max_voice_sources_def

lemma ConvertAudioTieBreak_wp:
  assumes "selection_ok w"
  shows "wp (focusSelect_ConvertAudioTieBreakToSource w prio) (\<lambda>s. s < max_audio_sources)"
  using MruAudioSource_wp [OF assms] assms
  by (auto simp: focusSelect_ConvertAudioTieBreakToSource_def selection_ok_def source_numbers split: focus_select_audio_tie_break.split)

lemma audio_tie_break_loop_wp:
  assumes "selection_ok w" and "compiled val it fs" and "highest_priority fs \<noteq> 0" and "\<And>i. i \<in> set is \<Longrightarrow> i < length order"
    and "best val it (highest_priority_source fs)"
  shows "wp (audio_tie_break_loop w order is fs) (\<lambda>fs'. \<exists>src. fs' = fs\<lparr>highest_priority_source := src\<rparr> \<and> best val it src \<and>
    (src = highest_priority_source fs \<or> (\<exists>s. src = source_type_audio s)))"
  using assms(4)
proof (induction "is")
  case Nil
  show ?case
    using assms(5) by (auto intro!: exI [of _ "highest_priority_source fs"])
next
  case (Cons i "is")
  have get: "array_get order i = Inr (order ! i)"
    using Cons.prems by simp
  have IH: "wp (audio_tie_break_loop w order is fs) (\<lambda>fs'. \<exists>src. fs' = fs\<lparr>highest_priority_source := src\<rparr> \<and> best val it src \<and>
    (src = highest_priority_source fs \<or> (\<exists>s. src = source_type_audio s)))"
    using Cons by simp
  show ?case
    unfolding audio_tie_break_loop.simps get res_bind_simps
  proof (rule wp_bindI [OF ConvertAudioTieBreak_wp [OF assms(1)]])
    fix s
    assume "s < max_audio_sources"
    then have "s \<noteq> 0 \<Longrightarrow> source_valid (source_type_audio s)"
      by (simp add: source_valid_def AudioSource_IsValid_def)
    then show "wp (res_bind (if s \<noteq> 0 then FocusSelect_IsSourceContextHighestPriority fs (source_type_audio s) else Inr False)
        (\<lambda>hit. if hit then Inr (fs\<lparr>highest_priority_source := source_type_audio s\<rparr>) else audio_tie_break_loop w order is fs))
       (\<lambda>fs'. \<exists>src. fs' = fs\<lparr>highest_priority_source := src\<rparr> \<and> best val it src \<and>
         (src = highest_priority_source fs \<or> (\<exists>s. src = source_type_audio s)))"
      using IH highest_priority_iff [OF assms(2) _ assms(3)] by (cases "s = 0") auto
  qed
qed

text \<open>
  A tie break of audio sources ends with one of the best, or with the source routed last, when that one is connected
  but silent.
\<close>

lemma AudioTieBreak_wp:
  assumes "selection_ok w" and "compiled val it fs" and "best val it (highest_priority_source fs)"
    and "highest_priority_context fs \<noteq> context_audio_disconnected \<Longrightarrow> highest_priority fs \<noteq> 0"
    and "audio_source_tie_break_ordering w = Some order" and "FOCUS_SELECT_AUDIO_MAX_SOURCES \<le> length order"
  shows "wp (FocusSelect_HandleTieBreak w fs) (\<lambda>fs'. \<exists>src. fs' = fs\<lparr>highest_priority_source := src\<rparr> \<and>
    (best val it src \<and> (src = highest_priority_source fs \<or> (\<exists>s. src = source_type_audio s)) \<or>
     num_highest_priority_sources fs \<noteq> 1 \<and> src = source_type_audio (last_routed_audio_source w) \<and> src \<in> set it \<and>
     cache_context (val src) = context_audio_connected))"
proof (cases "highest_priority_context fs = context_audio_disconnected \<or> num_highest_priority_sources fs = 1")
  case True
  then show ?thesis
    using assms(3) by (auto simp: FocusSelect_HandleTieBreak_def intro!: exI [of _ "highest_priority_source fs"])
next
  case False
  define r where "r = last_routed_audio_source w"
  have r: "FocusSelect_IsAudioSourceContextConnected fs r =
      Inr (source_type_audio r \<in> set it \<and> cache_context (val (source_type_audio r)) = context_audio_connected)" if "r \<noteq> 0"
  proof -
    have "source_valid (source_type_audio r)"
      using that assms(1) by (simp add: r_def selection_ok_def source_valid_def AudioSource_IsValid_def)
    then show ?thesis
      using assms(2) by (auto simp: FocusSelect_IsAudioSourceContextConnected_def focusSelect_GetContext_def compiled_def
          no_data_def context_defs)
  qed
  have i: "i < length order" if "i \<in> set [0..<FOCUS_SELECT_AUDIO_MAX_SOURCES]" for i
    using that assms(6) by auto
  note loop = audio_tie_break_loop_wp [OF assms(1,2) assms(4) i assms(3)]
  have "wp (audio_tie_break_loop w order [0..<FOCUS_SELECT_AUDIO_MAX_SOURCES] fs) (\<lambda>fs'. \<exists>src. fs' = fs\<lparr>highest_priority_source := src\<rparr> \<and>
    (best val it src \<and> (src = highest_priority_source fs \<or> (\<exists>s. src = source_type_audio s)) \<or>
     num_highest_priority_sources fs \<noteq> 1 \<and> src = source_type_audio (last_routed_audio_source w) \<and> src \<in> set it \<and>
     cache_context (val src) = context_audio_connected))"
    by (rule wp_mono [OF loop]) (use False in auto)
  then show ?thesis
    using False r assms(5) by (auto simp: FocusSelect_HandleTieBreak_def Let_def r_def [symmetric])
qed

lemma VoiceTieBreak_wp:
  assumes "selection_ok w" and "compiled val it fs" and "best val it (highest_priority_source fs)"
    and "highest_priority_context fs \<noteq> context_voice_disconnected \<Longrightarrow> highest_priority fs \<noteq> 0"
    and "voice_source_tie_break_ordering w = Some (FOCUS_SELECT_VOICE_HFP # FOCUS_SELECT_VOICE_USB # order)"
    and voice: "\<And>u. best val it u \<Longrightarrow> \<exists>s. u = source_type_voice s \<and> VoiceSource_IsValid s" and "distinct it"
  shows "wp (FocusSelect_HandleVoiceTieBreak w fs) (\<lambda>fs'. \<exists>src. fs' = fs\<lparr>highest_priority_source := src\<rparr> \<and> best val it src)"
proof (cases "highest_priority_context fs = context_voice_disconnected \<or> num_highest_priority_sources fs = 1")
  case True
  then show ?thesis
    using assms(3) by (auto simp: FocusSelect_HandleVoiceTieBreak_def intro!: exI [of _ "highest_priority_source fs"])
next
  case False
  define B where "B s \<longleftrightarrow> best val it (source_type_voice s)" for s
  have hit: "FocusSelect_IsSourceContextHighestPriority fs (source_type_voice s) = Inr (B s)" if "0 < s" "s < max_voice_sources" for s
    using highest_priority_iff [OF assms(2)] that assms(4) False by (simp add: B_def source_valid_def VoiceSource_IsValid_def)
  have two: "B 1 \<or> B 2 \<or> B 3"
  proof (rule ccontr)
    assume no: "\<not> (B 1 \<or> B 2 \<or> B 3)"
    have only: "u = source_type_voice 4" if "best val it u" for u
    proof -
      from voice [OF that] obtain s where s: "u = source_type_voice s" "0 < s" "s < 5"
        by (auto simp: VoiceSource_IsValid_def max_voice_sources_def)
      then have "s \<in> {1, 2, 3, 4}" by auto
      with no that s(1) show ?thesis by (auto simp: B_def)
    qed
    show False
      using single_best [OF assms(2,7,3)] only only [OF assms(3)] False by simp
  qed
  obtain m where m: "FocusSelect_GetMruVoiceSource w = Inr m" "m < max_voice_sources"
    using wpD [OF MruVoiceSource_wp [OF assms(1)]] by blast
  define h where "h = (if B 1 \<and> B 2 then if m \<noteq> 0 \<and> B m then m else 1 else if B 1 then 1 else if B 2 then 2 else 0)"
  have hfp: "focusSelect_ConvertVoiceTieBreakToSource w fs FOCUS_SELECT_VOICE_HFP = Inr h"
    using hit [of 1] hit [of 2] hit [of m] m
    by (simp add: focusSelect_ConvertVoiceTieBreakToSource_def h_def source_numbers)
  have h: "h < max_voice_sources" "h \<noteq> 0 \<longleftrightarrow> B 1 \<or> B 2" "h \<noteq> 0 \<Longrightarrow> B h"
    using m(2) by (auto simp: h_def max_voice_sources_def)
  let ?order = "FOCUS_SELECT_VOICE_HFP # FOCUS_SELECT_VOICE_USB # order"
  have three: "[0..<FOCUS_SELECT_VOICE_MAX_SOURCES] = [0, 1, 2]"
    by (simp add: FOCUS_SELECT_VOICE_MAX_SOURCES_def upt_rec)
  have "voice_tie_break_loop w ?order [0, 1, 2] fs = Inr (fs\<lparr>highest_priority_source := source_type_voice (if h \<noteq> 0 then h else 3)\<rparr>)"
  proof (cases "h = 0")
    case True
    then have "B 3"
      using two h(2) by blast
    with True hit [of 3] hfp show ?thesis
      by (simp add: focusSelect_ConvertVoiceTieBreakToSource_def source_numbers)
  next
    case False
    with h hit [of h] hfp show ?thesis
      by simp
  qed
  moreover have "B (if h \<noteq> 0 then h else 3)"
    using h two by auto
  ultimately show ?thesis
    using False assms(5) by (auto simp: FocusSelect_HandleVoiceTieBreak_def three B_def)
qed

section \<open>Routing\<close>

definition voice_priority :: "nat \<Rightarrow> bool \<Rightarrow> u8" where
  "voice_priority x audio =
     push_bit 1 (voice_context_to_audio_prio_mapping ! x OR (if audio then SOURCE_HAS_AUDIO else 0)) OR SOURCE_TYPE_HAS_PRIORITY"

definition audio_priority :: "nat \<Rightarrow> u8" where
  "audio_priority x = push_bit 1 (audio_context_to_audio_prio_mapping ! x)"

definition routing_data :: "focus_env \<Rightarrow> focus_world \<Rightarrow> generic_source \<Rightarrow> source_cache_data" where
  "routing_data env w src = (case src of
     source_type_voice s \<Rightarrow> \<lparr>cache_context = voice_context env w s, cache_has_audio = voice_channel env w s,
       cache_priority = voice_priority (voice_context env w s) (voice_channel env w s)\<rparr>
   | source_type_audio s \<Rightarrow> \<lparr>cache_context = audio_context env w s, cache_has_audio = False,
       cache_priority = audio_priority (audio_context env w s)\<rparr>
   | source_type_other \<Rightarrow> no_data)"

text \<open>A source is active when it plays something, or might.\<close>

definition routing_active :: "focus_env \<Rightarrow> focus_world \<Rightarrow> generic_source \<Rightarrow> bool" where
  "routing_active env w src = (case src of
     source_type_voice s \<Rightarrow> voice_context env w s \<notin> {context_voice_disconnected, context_voice_connected} \<or> voice_channel env w s
   | source_type_audio s \<Rightarrow> audio_context env w s \<notin> {context_audio_disconnected, context_audio_connected}
   | source_type_other \<Rightarrow> False)"

lemma below_cases: "x < (10 :: nat) \<longleftrightarrow> x \<in> {0, 1, 2, 3, 4, 5, 6, 7, 8, 9}"
  by auto

lemma voice_priorities:
  assumes "x < max_voice_contexts"
  shows "bit (voice_priority x a) 0" "4 \<le> voice_priority x a \<longleftrightarrow> x \<notin> {context_voice_disconnected, context_voice_connected} \<or> a"
    "x \<notin> {context_voice_disconnected, context_voice_connected} \<or> a \<Longrightarrow> 15 \<le> voice_priority x a"
  using assms unfolding max_voice_contexts_def below_cases
  by (auto simp: voice_priority_def voice_context_to_audio_prio_mapping_def SOURCE_HAS_AUDIO_def SOURCE_TYPE_HAS_PRIORITY_def context_defs
      word_le_nat_alt)

lemma audio_priorities:
  assumes "x < max_audio_contexts"
  shows "\<not> bit (audio_priority x) 0" "4 \<le> audio_priority x \<longleftrightarrow> x \<notin> {context_audio_disconnected, context_audio_connected}"
    "audio_priority x \<le> 14" "audio_priority x = 0 \<longleftrightarrow> x = context_audio_disconnected"
proof -
  have "x \<in> {0, 1, 2, 3, 4, 5, 6, 7}"
    using assms by (auto simp: max_audio_contexts_def)
  then show "\<not> bit (audio_priority x) 0" "4 \<le> audio_priority x \<longleftrightarrow> x \<notin> {context_audio_disconnected, context_audio_connected}"
    "audio_priority x \<le> 14" "audio_priority x = 0 \<longleftrightarrow> x = context_audio_disconnected"
    by (auto simp: audio_priority_def audio_context_to_audio_prio_mapping_def context_defs)
qed

lemma contexts_ok:
  assumes "env_ok env"
  shows "voice_context env w s < max_voice_contexts" "s \<in> set (audio_sources_of w) \<Longrightarrow> audio_context env w s < max_audio_contexts"
  using assms by (auto simp: env_ok_def voice_context_def audio_context_def audio_sources_of_def context_defs split: option.split list.split)

lemma set_priority_wp:
  assumes "source_valid src" and "arrays_ok fs" and "same_focus w w'" and "x \<noteq> BAD_CONTEXT"
  shows "wp (set_priority src x audio p w' fs) (\<lambda>(w', fs', c). same_focus w w' \<and>
     c = \<lparr>cache_context = x, cache_has_audio = audio, cache_priority = p\<rparr> \<and> arrays_ok fs' \<and>
     (\<forall>u. source_valid u \<longrightarrow> cached fs' u = (if u = src then c else cached fs u)) \<and>
     highest_priority_source fs' = highest_priority_source fs \<and> highest_priority fs' = highest_priority fs \<and>
     highest_priority_source_has_audio fs' = highest_priority_source_has_audio fs \<and>
     highest_priority_context fs' = highest_priority_context fs \<and>
     num_highest_priority_sources fs' = num_highest_priority_sources fs)"
  unfolding set_priority_def using assms(4)
  by (simp, intro wp_bindI [OF SetCacheData_wp [OF assms(1,2)]]) (use assms(3) in auto)

lemma routing_calculates:
  assumes "env_ok env"
  shows "calculates (focusSelect_CalculatePriorityForAudio env) (routing_data env) (\<lambda>w src. src \<in> set (selectable True True w))"
  unfolding calculates_def
proof (intro conjI allI impI)
  fix w fs src
  assume ok: "selection_ok w" and src: "src \<in> set (selectable True True w)" and fs: "arrays_ok fs"
  show valid: "source_valid src"
    using src sources_valid [of _ w] by (auto simp: selectable_def source_valid_def)
  show "wp (focusSelect_CalculatePriorityForAudio env fs src w) (\<lambda>(w', fs', c). same_focus w w' \<and> c = routing_data env w src \<and> arrays_ok fs' \<and>
       (\<forall>u. source_valid u \<longrightarrow> cached fs' u = (if u = src then c else cached fs u)) \<and>
       highest_priority_source fs' = highest_priority_source fs \<and> highest_priority fs' = highest_priority fs \<and>
       highest_priority_source_has_audio fs' = highest_priority_source_has_audio fs \<and>
       highest_priority_context fs' = highest_priority_context fs \<and>
       num_highest_priority_sources fs' = num_highest_priority_sources fs)"
  proof (cases src)
    case (source_type_voice s)
    let ?x = "voice_context env w s"
    have s: "VoiceSource_IsValid s" "?x < length voice_context_to_audio_prio_mapping" "?x \<noteq> BAD_CONTEXT"
      using valid contexts_ok(1) [OF assms, of w s] source_type_voice
      by (simp_all add: source_valid_def voice_context_to_audio_prio_mapping_def context_defs)
    show ?thesis
      using set_priority_wp [OF valid fs same_focus_refl [OF ok] s(3)] s(1,2) source_type_voice
      by (simp add: focusSelect_CalculatePriorityForAudio_def routing_data_def voice_priority_def voice_sources_have_priority_def)
  next
    case (source_type_audio s)
    let ?x = "audio_context env w s"
    have s: "audioInterface_SourceIsValid s" "?x < length audio_context_to_audio_prio_mapping" "?x \<noteq> BAD_CONTEXT"
      using valid contexts_ok(2) [OF assms, of s w] source_type_audio src
      by (auto simp: source_valid_def valid_audio selectable_def audio_context_to_audio_prio_mapping_def context_defs)
    obtain w' where w': "AudioSources_GetSourceContext env s w = Inr (w', ?x)" "same_focus w w'"
      using wpD [OF GetSourceContext_wp [OF ok s(1)]] by force
    show ?thesis
      using set_priority_wp [OF valid fs w'(2) s(3)] s(2) source_type_audio
      by (simp add: focusSelect_CalculatePriorityForAudio_def w'(1) routing_data_def audio_priority_def voice_sources_have_priority_def)
  next
    case source_type_other
    then show ?thesis
      using valid by (simp add: source_valid_def)
  qed
next
  fix w w'
  assume "same_focus w w'"
  show "routing_data env w' = routing_data env w" "(\<lambda>src. src \<in> set (selectable True True w')) = (\<lambda>src. src \<in> set (selectable True True w))"
    by (simp_all add: fun_eq_iff [of "routing_data env w'"] routing_data_def selectable_def same_contexts [OF \<open>same_focus w w'\<close>]
        same_sources [OF \<open>same_focus w w'\<close>] split: generic_source.split)
qed


lemma selectable_distinct: "distinct (selectable v a w)"
  by (auto simp: selectable_def distinct_map inj_on_def voice_sources_of_def audio_sources_of_def)

lemma routing_priorities:
  assumes "env_ok env" and "src \<in> set (selectable True True w)"
  shows "4 \<le> cache_priority (routing_data env w src) \<longleftrightarrow> routing_active env w src"
    "bit (cache_priority (routing_data env w src)) 0 \<longleftrightarrow> (\<exists>s. src = source_type_voice s)"
    "cache_priority (routing_data env w src) = 0 \<longleftrightarrow> (\<exists>s. src = source_type_audio s \<and> audio_context env w s = context_audio_disconnected)"
proof -
  have nz: "x \<noteq> 0" if "bit x 0" for x :: u8
    using that by auto
  have zero: "audio_priority context_audio_disconnected = 0"
    by (simp add: audio_priorities(4) context_defs)
  show "4 \<le> cache_priority (routing_data env w src) \<longleftrightarrow> routing_active env w src"
    "bit (cache_priority (routing_data env w src)) 0 \<longleftrightarrow> (\<exists>s. src = source_type_voice s)"
    "cache_priority (routing_data env w src) = 0 \<longleftrightarrow> (\<exists>s. src = source_type_audio s \<and> audio_context env w s = context_audio_disconnected)"
    using assms(2) contexts_ok(1) [OF assms(1)] contexts_ok(2) [OF assms(1), where w = w] nz [OF voice_priorities(1)]
    by (auto simp: selectable_def routing_data_def routing_active_def voice_priorities audio_priorities zero)
qed

text \<open>The best sources are all of voice or all of audio, and all active or none.\<close>

lemma best_alike:
  assumes "env_ok env" and "best (routing_data env w) (selectable True True w) u" and "best (routing_data env w) (selectable True True w) v"
  shows "routing_active env w u \<longleftrightarrow> routing_active env w v" "(\<exists>s. u = source_type_voice s) \<longleftrightarrow> (\<exists>s. v = source_type_voice s)"
proof -
  have "cache_priority (routing_data env w u) = cache_priority (routing_data env w v)"
    using assms(2,3) by (auto simp: best_def intro: antisym)
  then show "routing_active env w u \<longleftrightarrow> routing_active env w v" "(\<exists>s. u = source_type_voice s) \<longleftrightarrow> (\<exists>s. v = source_type_voice s)"
    using assms routing_priorities [OF assms(1), of u w] routing_priorities [OF assms(1), of v w] by (simp_all add: best_def)
qed

lemma best_active:
  assumes "env_ok env" and "best (routing_data env w) (selectable True True w) u"
  shows "routing_active env w u \<longleftrightarrow> (\<exists>v \<in> set (selectable True True w). routing_active env w v)"
proof -
  have "4 \<le> cache_priority (routing_data env w u)" if "v \<in> set (selectable True True w)" "4 \<le> cache_priority (routing_data env w v)" for v
    using assms(2) that order_trans by (auto simp: best_def)
  then show ?thesis
    using assms routing_priorities(1) [OF assms(1), of _ w] by (auto simp: best_def)
qed


text \<open>The orders that end a tie without reading past their arrays.\<close>

definition audio_order_ok :: "focus_world \<Rightarrow> bool" where
  "audio_order_ok w \<longleftrightarrow> (case audio_source_tie_break_ordering w of None \<Rightarrow> False
     | Some order \<Rightarrow> FOCUS_SELECT_AUDIO_MAX_SOURCES \<le> length order)"

definition voice_order_ok :: "focus_world \<Rightarrow> bool" where
  "voice_order_ok w \<longleftrightarrow> (\<exists>order. voice_source_tie_break_ordering w = Some (FOCUS_SELECT_VOICE_HFP # FOCUS_SELECT_VOICE_USB # order))"

definition routing_best :: "focus_env \<Rightarrow> focus_world \<Rightarrow> generic_source \<Rightarrow> bool" where
  "routing_best env w = best (routing_data env w) (selectable True True w)"

definition any_active :: "focus_env \<Rightarrow> focus_world \<Rightarrow> bool" where
  "any_active env w \<longleftrightarrow> (\<exists>src \<in> set (selectable True True w). routing_active env w src)"

text \<open>The source routed last is connected, but silent.\<close>

definition idle_last :: "focus_env \<Rightarrow> focus_world \<Rightarrow> bool" where
  "idle_last env w \<longleftrightarrow> last_routed_audio_source w \<in> set (audio_sources_of w) \<and>
     audio_context env w (last_routed_audio_source w) = context_audio_connected"

text \<open>The rest of the selection, from the compiled status.\<close>

definition break_tie :: "focus_world \<Rightarrow> focus_status \<Rightarrow> focus_status res" where
  "break_tie w fs = (if num_highest_priority_sources fs \<noteq> 1
     then (case highest_priority_source fs of
         source_type_voice _ \<Rightarrow> FocusSelect_HandleVoiceTieBreak w fs
       | source_type_audio _ \<Rightarrow> FocusSelect_HandleTieBreak w fs
       | source_type_other \<Rightarrow> Inr fs)
     else Inr fs)"

lemma compiled_num:
  assumes "compiled val it fs" and "best val it u" and "distinct it" and "num_highest_priority_sources fs \<noteq> 1"
  shows "\<exists>v. best val it v \<and> v \<noteq> u"
  using single_best [OF assms(1,3,2)] assms(4) by blast

lemma break_tie_wp:
  assumes "env_ok env" and "selection_ok w" and "compiled (routing_data env w) (selectable True True w) fs"
    and "voice_order_ok w" and "audio_order_ok w \<or> (\<exists>s. routing_best env w (source_type_voice s))"
  shows "wp (break_tie w fs) (\<lambda>fs'. (\<exists>src. fs' = fs\<lparr>highest_priority_source := src\<rparr>) \<and>
    (if selectable True True w = [] then highest_priority_source fs' = source_type_other
     else routing_best env w (highest_priority_source fs') \<or>
       highest_priority_source fs' = source_type_audio (last_routed_audio_source w) \<and> idle_last env w \<and>
       (\<exists>s t. s \<noteq> t \<and> routing_best env w (source_type_audio s) \<and> routing_best env w (source_type_audio t))))"
    (is "wp _ ?P")
proof (cases "selectable True True w = []")
  case True
  then have "highest_priority_source fs = source_type_other"
    using assms(3) by (simp add: compiled_def)
  then show ?thesis
    using True by (auto simp: break_tie_def intro: exI [of _ source_type_other])
next
  case False
  let ?it = "selectable True True w" and ?val = "routing_data env w" and ?src = "highest_priority_source fs"
  note b = compiled_best [OF assms(3) False]
  have rest: "?P fs'" if "fs' = fs\<lparr>highest_priority_source := src\<rparr>" "best ?val ?it src" for fs' src
    using that False by (auto simp: routing_best_def)
  show ?thesis
  proof (cases "num_highest_priority_sources fs = 1")
    case True
    then show ?thesis
      using rest [of fs ?src] b(1) by (simp add: break_tie_def)
  next
    case tie: False
    have in_it: "?src \<in> set ?it"
      using b(1) by (simp add: best_def)
    show ?thesis
    proof (cases "?src")
      case (source_type_voice s)
      have voice: "\<exists>s. u = source_type_voice s \<and> VoiceSource_IsValid s" if "best ?val ?it u" for u
        using best_alike(2) [OF assms(1) that b(1)] source_type_voice that sources_valid(1) [of _ w]
        by (auto simp: best_def selectable_def)
      have nz: "highest_priority fs \<noteq> 0"
        using routing_priorities(3) [OF assms(1) in_it] b(4) source_type_voice by simp
      obtain order where order: "voice_source_tie_break_ordering w = Some (FOCUS_SELECT_VOICE_HFP # FOCUS_SELECT_VOICE_USB # order)"
        using assms(4) by (auto simp: voice_order_ok_def)
      have "break_tie w fs = FocusSelect_HandleVoiceTieBreak w fs"
        using tie source_type_voice by (simp add: break_tie_def)
      moreover have "wp (FocusSelect_HandleVoiceTieBreak w fs) ?P"
        by (rule wp_mono [OF VoiceTieBreak_wp [OF assms(2,3) b(1) nz order voice selectable_distinct]], assumption, elim exE conjE, rule rest)
      ultimately show ?thesis
        by simp
    next
      case (source_type_audio s)
      have "\<not> (\<exists>s. routing_best env w (source_type_voice s))"
        using best_alike(2) [OF assms(1) b(1)] source_type_audio by (auto simp: routing_best_def)
      then obtain order where order: "audio_source_tie_break_ordering w = Some order" "FOCUS_SELECT_AUDIO_MAX_SOURCES \<le> length order"
        using assms(5) by (auto simp: audio_order_ok_def split: option.splits)
      have nz: "highest_priority_context fs \<noteq> context_audio_disconnected \<Longrightarrow> highest_priority fs \<noteq> 0"
        using routing_priorities(3) [OF assms(1) in_it] b(2,4) source_type_audio by (simp add: routing_data_def)
      obtain v where v: "best ?val ?it v" "v \<noteq> ?src"
        using compiled_num [OF assms(3) b(1) selectable_distinct tie] by blast
      have "v \<noteq> source_type_other"
        using v(1) by (auto simp: best_def selectable_def)
      with v source_type_audio have two: "\<exists>s t. s \<noteq> t \<and> routing_best env w (source_type_audio s) \<and> routing_best env w (source_type_audio t)"
        using best_alike(2) [OF assms(1) b(1) v(1)] b(1) by (cases v) (auto simp: routing_best_def)
      have last: "source_type_audio (last_routed_audio_source w) \<in> set ?it \<Longrightarrow>
          cache_context (?val (source_type_audio (last_routed_audio_source w))) = context_audio_connected \<Longrightarrow> idle_last env w"
        by (auto simp: selectable_def idle_last_def routing_data_def)
      have "break_tie w fs = FocusSelect_HandleTieBreak w fs"
        using tie source_type_audio by (simp add: break_tie_def)
      moreover have "wp (FocusSelect_HandleTieBreak w fs) ?P"
      proof (rule wp_mono [OF AudioTieBreak_wp [OF assms(2,3) b(1) nz order]])
        fix fs'
        assume "\<exists>src. fs' = fs\<lparr>highest_priority_source := src\<rparr> \<and>
          (best ?val ?it src \<and> (src = ?src \<or> (\<exists>s. src = source_type_audio s)) \<or>
           num_highest_priority_sources fs \<noteq> 1 \<and> src = source_type_audio (last_routed_audio_source w) \<and> src \<in> set ?it \<and>
           cache_context (?val src) = context_audio_connected)"
        then obtain src where src: "fs' = fs\<lparr>highest_priority_source := src\<rparr>"
          "best ?val ?it src \<or> src = source_type_audio (last_routed_audio_source w) \<and> idle_last env w"
          using last by blast
        then show "?P fs'"
          using rest two False by (elim disjE) auto
      qed
      ultimately show ?thesis
        by simp
    next
      case source_type_other
      then show ?thesis
        using in_it by (auto simp: selectable_def)
    qed
  qed
qed


lemma FocusedSource_eq:
  "FocusSelect_GetFocusedSourceForAudioRouting env w =
     res_bind (SourcesIterator_Create env True True w) (\<lambda>(w, it).
     res_bind (FocusSelect_CompileFocusStatus (focusSelect_CalculatePriorityForAudio env) it (w, no_status)) (\<lambda>(w, fs, _).
     res_bind (break_tie w fs) (\<lambda>fs.
     res_bind (focusSelect_VoiceSourceIsActive env fs w) (\<lambda>voice.
     res_bind (if voice then Inr True else focusSelect_AudioSourceIsActive fs) (\<lambda>active.
       Inr (w, if active \<or> highest_priority_source_has_audio fs then highest_priority_source fs else source_type_other))))))"
  by (simp add: FocusSelect_GetFocusedSourceForAudioRouting_def break_tie_def)

lemma compiled_status:
  assumes "env_ok env" and "selection_ok w"
  obtains w' fs where "same_focus w w'" "selection_ok w'" "compiled (routing_data env w) (selectable True True w) fs"
    "FocusSelect_GetFocusedSourceForAudioRouting env w =
      res_bind (break_tie w' fs) (\<lambda>fs.
      res_bind (focusSelect_VoiceSourceIsActive env fs w') (\<lambda>voice.
      res_bind (if voice then Inr True else focusSelect_AudioSourceIsActive fs) (\<lambda>active.
        Inr (w', if active \<or> highest_priority_source_has_audio fs then highest_priority_source fs else source_type_other))))"
proof -
  obtain w1 where w1: "SourcesIterator_Create env True True w = Inr (w1, selectable True True w)" "same_focus w w1"
    using wpD [OF Create_wp [OF assms(2), of env True True]] by auto
  have it: "selectable True True w1 = selectable True True w" "routing_data env w1 = routing_data env w"
    using same_sources [OF w1(2)] routing_calculates [OF assms(1)] w1(2) by (simp_all add: selectable_def calculates_def)
  have "wp (FocusSelect_CompileFocusStatus (focusSelect_CalculatePriorityForAudio env) (selectable True True w) (w1, no_status))
      (\<lambda>(w', fs, found). same_focus w1 w' \<and> compiled (routing_data env w1) (selectable True True w) fs \<and> found = (selectable True True w \<noteq> []))"
    by (rule Compile_wp [OF routing_calculates [OF assms(1)] same_focus_ok [OF assms(2) w1(2)] _ selectable_distinct]) (simp add: it(1))
  then obtain w' fs found where w': "FocusSelect_CompileFocusStatus (focusSelect_CalculatePriorityForAudio env) (selectable True True w) (w1, no_status)
      = Inr (w', fs, found)" "same_focus w1 w'" "compiled (routing_data env w) (selectable True True w) fs"
    by (auto dest!: wpD simp: it(2))
  show ?thesis
    using that [OF same_focus_trans [OF w1(2) w'(2)] same_focus_ok [OF assms(2) same_focus_trans [OF w1(2) w'(2)]] w'(3)]
    by (simp add: FocusedSource_eq w1(1) w'(1))
qed

lemma same_routing:
  assumes "same_focus w w'" and "env_ok env"
  shows "selectable v a w' = selectable v a w" "routing_data env w' = routing_data env w" "routing_best env w' = routing_best env w"
    "routing_active env w' = routing_active env w" "idle_last env w' = idle_last env w" "any_active env w' = any_active env w"
    "voice_order_ok w' = voice_order_ok w" "audio_order_ok w' = audio_order_ok w"
proof -
  show sel: "selectable v a w' = selectable v a w" for v a
    using same_sources [OF assms(1)] by (simp add: selectable_def)
  show data: "routing_data env w' = routing_data env w"
    using routing_calculates [OF assms(2)] assms(1) by (simp add: calculates_def)
  show "routing_best env w' = routing_best env w"
    by (simp add: routing_best_def sel data)
  show act: "routing_active env w' = routing_active env w"
    by (rule ext) (simp add: routing_active_def same_contexts [OF assms(1)] split: generic_source.split)
  show "idle_last env w' = idle_last env w"
    by (simp add: idle_last_def same_contexts [OF assms(1)] same_sources [OF assms(1)] same_focus_fields [OF assms(1)])
  show "any_active env w' = any_active env w"
    by (simp add: any_active_def sel act)
  show "voice_order_ok w' = voice_order_ok w" "audio_order_ok w' = audio_order_ok w"
    by (simp_all add: voice_order_ok_def audio_order_ok_def same_focus_fields [OF assms(1)])
qed

text \<open>The two tests for activity read the context of the first of the best sources.\<close>

lemma status_active:
  assumes "env_ok env" and "selection_ok w" and "compiled (routing_data env w) (selectable True True w) fs"
    and "selectable True True w \<noteq> []" and "routing_best env w src \<or> (\<exists>s. src = source_type_audio s \<and> routing_best env w (source_type_audio t))"
    and "fs' = fs\<lparr>highest_priority_source := src\<rparr>"
  shows "\<exists>v a. focusSelect_VoiceSourceIsActive env fs' w = Inr v \<and> focusSelect_AudioSourceIsActive fs' = Inr a \<and>
    (v \<or> a \<or> highest_priority_source_has_audio fs') = any_active env w"
proof -
  let ?it = "selectable True True w" and ?val = "routing_data env w" and ?first = "highest_priority_source fs"
  note b = compiled_best [OF assms(3,4)]
  have any: "any_active env w = routing_active env w ?first"
    using best_active [OF assms(1) b(1)] by (simp add: any_active_def)
  have src: "src \<in> set ?it \<and> routing_active env w src = routing_active env w ?first" if "routing_best env w src"
    using that best_alike(1) [OF assms(1) _ b(1)] by (auto simp: routing_best_def best_def)
  have kind: "(\<exists>s. src = source_type_voice s) \<longleftrightarrow> (\<exists>s. ?first = source_type_voice s)"
    using assms(5) best_alike(2) [OF assms(1) _ b(1)] by (auto simp: routing_best_def)
  have in_it: "?first \<in> set ?it"
    using b(1) by (simp add: best_def)
  show ?thesis
  proof (cases ?first)
    case (source_type_voice s)
    then obtain t where t: "src = source_type_voice t"
      using kind by auto
    then have best: "routing_best env w src"
      using assms(5) by auto
    have valid: "VoiceSource_IsValid t"
      using src [OF best] t sources_valid(1) by (auto simp: selectable_def)
    have "voice_context env w s < max_voice_contexts"
      using contexts_ok(1) [OF assms(1)] .
    then show ?thesis
      using any b(2,3) source_type_voice t src [OF best] valid assms(6)
      by (auto simp: focusSelect_VoiceSourceIsActive_def focusSelect_AudioSourceIsActive_def routing_active_def routing_data_def)
  next
    case (source_type_audio s)
    then have "src \<noteq> source_type_other"
      using assms(5) src by (auto simp: selectable_def)
    then obtain t where t: "src = source_type_audio t"
      using kind source_type_audio by (cases src) auto
    have "audio_context env w s < max_audio_contexts"
      using contexts_ok(2) [OF assms(1)] in_it source_type_audio by (auto simp: selectable_def)
    then show ?thesis
      using any b(2,3) source_type_audio t assms(6)
      by (auto simp: focusSelect_VoiceSourceIsActive_def focusSelect_AudioSourceIsActive_def routing_active_def routing_data_def)
  next
    case source_type_other
    then show ?thesis
      using in_it by (auto simp: selectable_def)
  qed
qed


text \<open>
  The selection: a best source that is active if there is one, unless several sources of audio are best and the one
  routed last is connected but silent, which is then taken.
\<close>

lemma focus_wp:
  assumes "env_ok env" and "selection_ok w" and "voice_order_ok w"
    and "audio_order_ok w \<or> (\<exists>s. routing_best env w (source_type_voice s))"
  shows "wp (FocusSelect_GetFocusedSourceForAudioRouting env w) (\<lambda>(w', src). same_focus w w' \<and>
    (if any_active env w
     then routing_best env w src \<or> src = source_type_audio (last_routed_audio_source w) \<and> idle_last env w \<and>
       (\<exists>s t. s \<noteq> t \<and> routing_best env w (source_type_audio s) \<and> routing_best env w (source_type_audio t))
     else src = source_type_other))"
proof (rule compiled_status [OF assms(1,2)])
  fix w' fs
  assume w': "same_focus w w'" "selection_ok w'" "compiled (routing_data env w) (selectable True True w) fs"
    and focus: "FocusSelect_GetFocusedSourceForAudioRouting env w =
      res_bind (break_tie w' fs) (\<lambda>fs.
      res_bind (focusSelect_VoiceSourceIsActive env fs w') (\<lambda>voice.
      res_bind (if voice then Inr True else focusSelect_AudioSourceIsActive fs) (\<lambda>active.
        Inr (w', if active \<or> highest_priority_source_has_audio fs then highest_priority_source fs else source_type_other))))"
  note same = same_routing [OF w'(1) assms(1)] same_focus_fields(4) [OF w'(1)]
  have comp: "compiled (routing_data env w') (selectable True True w') fs"
    using w'(3) by (simp add: same)
  have "voice_order_ok w'" "audio_order_ok w' \<or> (\<exists>s. routing_best env w' (source_type_voice s))"
    using assms(3,4) by (simp_all add: same)
  from wpD [OF break_tie_wp [OF assms(1) w'(2) comp this]] obtain fs' src where fs':
    "break_tie w' fs = Inr fs'" "fs' = fs\<lparr>highest_priority_source := src\<rparr>"
    "if selectable True True w = [] then src = source_type_other
     else routing_best env w src \<or> src = source_type_audio (last_routed_audio_source w) \<and> idle_last env w \<and>
       (\<exists>s t. s \<noteq> t \<and> routing_best env w (source_type_audio s) \<and> routing_best env w (source_type_audio t))"
    by (auto simp: same cong: if_cong)
  show ?thesis
  proof (cases "selectable True True w = []")
    case True
    then show ?thesis
      using fs' w'(1,3) by (simp add: focus focusSelect_VoiceSourceIsActive_def focusSelect_AudioSourceIsActive_def any_active_def
          compiled_def)
  next
    case False
    have "\<exists>t. routing_best env w' src \<or> (\<exists>s. src = source_type_audio s \<and> routing_best env w' (source_type_audio t))"
      using fs'(3) False by (auto simp: same)
    then obtain t where t: "routing_best env w' src \<or> (\<exists>s. src = source_type_audio s \<and> routing_best env w' (source_type_audio t))"
      by blast
    have "selectable True True w' \<noteq> []"
      using False by (simp add: same)
    from status_active [OF assms(1) w'(2) comp this t fs'(2)] obtain v a where
      "focusSelect_VoiceSourceIsActive env fs' w' = Inr v" "focusSelect_AudioSourceIsActive fs' = Inr a"
      "(v \<or> a \<or> highest_priority_source_has_audio fs') = any_active env w"
      by (auto simp: same)
    then show ?thesis
      using fs' w'(1) False by (auto simp: focus split: if_splits)
  qed
qed

lemma routing_best_valid:
  assumes "routing_best env w src"
  shows "source_valid src" "src \<in> set (selectable True True w)"
  using assms sources_valid [of _ w] by (auto simp: routing_best_def best_def selectable_def source_valid_def)

lemma any_active_best:
  assumes "env_ok env" and "routing_best env w src"
  shows "routing_active env w src = any_active env w"
  using best_active [OF assms(1)] assms(2) by (simp add: routing_best_def any_active_def)

text \<open>A source of voice that is active is above every source of audio.\<close>

lemma voice_above_audio:
  assumes "env_ok env" and "source_type_voice s \<in> set (selectable True True w)" and "routing_active env w (source_type_voice s)"
    and "routing_best env w src"
  shows "\<exists>s. src = source_type_voice s"
proof (rule ccontr)
  assume "\<nexists>s. src = source_type_voice s"
  then obtain t where t: "src = source_type_audio t" "t \<in> set (audio_sources_of w)"
    using routing_best_valid(2) [OF assms(4)] by (auto simp: selectable_def)
  have "voice_priority (voice_context env w s) (voice_channel env w s) \<le> audio_priority (audio_context env w t)"
    using assms(2,4) t(1) by (auto simp: routing_best_def best_def routing_data_def)
  also have "\<dots> \<le> 14"
    by (rule audio_priorities(3) [OF contexts_ok(2) [OF assms(1) t(2)]])
  finally have "\<not> 15 \<le> voice_priority (voice_context env w s) (voice_channel env w s)"
    by (simp add: word_le_nat_alt)
  then show False
    using assms(3) voice_priorities(3) [OF contexts_ok(1) [OF assms(1)], of w s "voice_channel env w s"]
    by (simp add: routing_active_def)
qed


lemma best_exists:
  assumes "src \<in> set it"
  shows "\<exists>u. best val it u"
proof -
  let ?P = "(\<lambda>u. cache_priority (val u)) ` set it"
  have "Max ?P \<in> ?P"
    using assms by (intro Max_in) auto
  then obtain u where "u \<in> set it" "cache_priority (val u) = Max ?P"
    by auto
  then show ?thesis
    by (auto simp: best_def)
qed

text \<open>Two of the best, in a list of fewer than \<open>256\<close> sources, make the count of eight bits differ from one.\<close>

lemma tie_counted:
  assumes "compiled val it fs" and "best val it u" and "best val it v" and "u \<noteq> v" and "length it < 256"
  shows "num_highest_priority_sources fs \<noteq> 1"
proof -
  let ?f = "filter (\<lambda>u. cache_priority (val u) = highest_priority fs) it"
  have "{u, v} \<subseteq> set ?f"
    using assms(2,3) best_iff [OF assms(1)] by auto
  then have "card {u, v} \<le> card (set ?f)"
    by (rule card_mono [rotated]) simp
  then have two: "2 \<le> length ?f"
    using assms(4) card_length [of ?f] by simp
  have "length ?f < 256"
    using length_filter_le [of _ it] assms(5) order_le_less_trans by blast
  then have "unat (word_of_nat (length ?f) :: u8) = length ?f"
    by (simp add: unat_of_nat take_bit_nat_eq_self_iff)
  then have "(word_of_nat (length ?f) :: u8) \<noteq> 1"
    using two by (metis One_nat_def Suc_1 not_less_eq_eq order_refl unat_1)
  then show ?thesis
    using assms(1) by (simp add: compiled_def)
qed

lemma length_selectable: "length (selectable v a w) < 256"
proof -
  have "length (voice_sources_of w) \<le> 10" "length (audio_sources_of w) \<le> 10"
    using length_filter_le [of "\<lambda>s. telephony_control_interface w ! s \<noteq> None" "[1..<max_voice_sources]"]
      length_filter_le [of "\<lambda>s. registry_map (audio_registry (service w)) s audio_interface_type_media_control \<noteq> []" "[1..<max_audio_sources]"]
    by (simp_all add: voice_sources_of_def audio_sources_of_def max_voice_sources_def max_audio_sources_def)
  then show ?thesis
    by (simp add: selectable_def)
qed

text \<open>What several best sources of audio that are active lead to: the status before the tie is broken.\<close>

lemma audio_tie:
  assumes "env_ok env" and "selection_ok w" and "routing_best env w (source_type_audio s)" and "routing_best env w (source_type_audio t)"
    and "s \<noteq> t" and "any_active env w"
  obtains w' fs where "same_focus w w'" "selection_ok w'" "compiled (routing_data env w) (selectable True True w) fs"
    "highest_priority_context fs \<notin> {context_audio_disconnected, context_audio_connected, max_audio_contexts}"
    "num_highest_priority_sources fs \<noteq> 1" "highest_priority fs \<noteq> 0"
    "FocusSelect_GetFocusedSourceForAudioRouting env w = res_bind (FocusSelect_HandleTieBreak w' fs) (\<lambda>fs.
      res_bind (focusSelect_VoiceSourceIsActive env fs w') (\<lambda>voice.
      res_bind (if voice then Inr True else focusSelect_AudioSourceIsActive fs) (\<lambda>active.
        Inr (w', if active \<or> highest_priority_source_has_audio fs then highest_priority_source fs else source_type_other))))"
proof (rule compiled_status [OF assms(1,2)])
  fix w' fs
  assume w': "same_focus w w'" "selection_ok w'" "compiled (routing_data env w) (selectable True True w) fs"
    "FocusSelect_GetFocusedSourceForAudioRouting env w =
      res_bind (break_tie w' fs) (\<lambda>fs.
      res_bind (focusSelect_VoiceSourceIsActive env fs w') (\<lambda>voice.
      res_bind (if voice then Inr True else focusSelect_AudioSourceIsActive fs) (\<lambda>active.
        Inr (w', if active \<or> highest_priority_source_has_audio fs then highest_priority_source fs else source_type_other))))"
  have "selectable True True w \<noteq> []"
    using routing_best_valid(2) [OF assms(3)] by auto
  note b = compiled_best [OF w'(3) this]
  note best = assms(3,4) [unfolded routing_best_def]
  have num: "num_highest_priority_sources fs \<noteq> 1"
    using tie_counted [OF w'(3) best] assms(5) length_selectable by simp
  have "highest_priority_source fs \<noteq> source_type_other"
    using b(1) by (auto simp: best_def selectable_def)
  then obtain r where r: "highest_priority_source fs = source_type_audio r"
    using best_alike(2) [OF assms(1) b(1) best(1)] by (cases "highest_priority_source fs") auto
  then have in_it: "source_type_audio r \<in> set (selectable True True w)" "r \<in> set (audio_sources_of w)"
    using b(1) by (auto simp: best_def selectable_def)
  have act: "routing_active env w (source_type_audio r)"
    using best_active [OF assms(1) b(1)] assms(6) r by (simp add: any_active_def)
  then have ctx: "highest_priority_context fs \<notin> {context_audio_disconnected, context_audio_connected, max_audio_contexts}"
    using contexts_ok(2) [OF assms(1) in_it(2)] r b(2) by (auto simp: routing_active_def routing_data_def)
  have "4 \<le> highest_priority fs"
    using act routing_priorities(1) [OF assms(1) in_it(1)] b(4) r by simp
  then have nz: "highest_priority fs \<noteq> 0"
    by auto
  show thesis
    by (rule that [OF w'(1-3) ctx num nz]) (use w'(4) num r in \<open>simp add: break_tie_def\<close>)
qed


section \<open>User inputs\<close>

definition ui_data :: "focus_env \<Rightarrow> focus_world \<Rightarrow> generic_source \<Rightarrow> source_cache_data" where
  "ui_data env w src = (case src of
     source_type_voice s \<Rightarrow> \<lparr>cache_context = voice_context env w s, cache_has_audio = False,
       cache_priority = voice_context_to_ui_prio_mapping ! voice_context env w s\<rparr>
   | source_type_audio s \<Rightarrow> \<lparr>cache_context = audio_context env w s, cache_has_audio = False,
       cache_priority = audio_context_to_ui_prio_mapping ! audio_context env w s\<rparr>
   | source_type_other \<Rightarrow> no_data)"

lemma same_ui:
  assumes "same_focus w w'"
  shows "ui_data env w' = ui_data env w" "selectable v a w' = selectable v a w"
proof -
  show "ui_data env w' = ui_data env w"
    by (rule ext) (simp add: ui_data_def same_contexts [OF assms] split: generic_source.split)
  show "selectable v a w' = selectable v a w"
    by (simp add: selectable_def same_sources [OF assms])
qed

lemma selectable_valid: "src \<in> set (selectable v a w) \<Longrightarrow> source_valid src"
  using sources_valid [of _ w] by (auto simp: selectable_def source_valid_def split: if_splits)

lemma ui_calculates:
  assumes "env_ok env"
  shows "calculates (focusSelect_VoiceSourceCalculatePriorityForUi env) (ui_data env) (\<lambda>w src. src \<in> set (selectable True False w))"
    "calculates (focusSelect_AudioSourceCalculatePriorityForUi env) (ui_data env) (\<lambda>w src. src \<in> set (selectable False True w))"
proof -
  show "calculates (focusSelect_VoiceSourceCalculatePriorityForUi env) (ui_data env) (\<lambda>w src. src \<in> set (selectable True False w))"
    unfolding calculates_def
  proof (intro conjI allI impI)
    fix w fs src
    assume ok: "selection_ok w" and src: "src \<in> set (selectable True False w)" and fs: "arrays_ok fs"
    then obtain s where s: "src = source_type_voice s"
      by (auto simp: selectable_def)
    show valid: "source_valid src"
      by (rule selectable_valid [OF src])
    let ?x = "voice_context env w s"
    have x: "VoiceSource_IsValid s" "?x < length voice_context_to_ui_prio_mapping" "?x \<noteq> BAD_CONTEXT"
      using valid contexts_ok(1) [OF assms, of w s] s
      by (simp_all add: source_valid_def voice_context_to_ui_prio_mapping_def context_defs)
    show "wp (focusSelect_VoiceSourceCalculatePriorityForUi env fs src w) (\<lambda>(w', fs', c). same_focus w w' \<and> c = ui_data env w src \<and> arrays_ok fs' \<and>
       (\<forall>u. source_valid u \<longrightarrow> cached fs' u = (if u = src then c else cached fs u)) \<and>
       highest_priority_source fs' = highest_priority_source fs \<and> highest_priority fs' = highest_priority fs \<and>
       highest_priority_source_has_audio fs' = highest_priority_source_has_audio fs \<and>
       highest_priority_context fs' = highest_priority_context fs \<and>
       num_highest_priority_sources fs' = num_highest_priority_sources fs)"
      using set_priority_wp [OF valid fs same_focus_refl [OF ok] x(3)] x(1,2) s
      by (simp add: focusSelect_VoiceSourceCalculatePriorityForUi_def ui_data_def)
  qed (simp_all add: same_ui)
  show "calculates (focusSelect_AudioSourceCalculatePriorityForUi env) (ui_data env) (\<lambda>w src. src \<in> set (selectable False True w))"
    unfolding calculates_def
  proof (intro conjI allI impI)
    fix w fs src
    assume ok: "selection_ok w" and src: "src \<in> set (selectable False True w)" and fs: "arrays_ok fs"
    then obtain s where s: "src = source_type_audio s" "s \<in> set (audio_sources_of w)"
      by (auto simp: selectable_def)
    show valid: "source_valid src"
      by (rule selectable_valid [OF src])
    let ?x = "audio_context env w s"
    have x: "audioInterface_SourceIsValid s" "?x < length audio_context_to_ui_prio_mapping" "?x \<noteq> BAD_CONTEXT"
      using valid contexts_ok(2) [OF assms s(2)] s
      by (auto simp: source_valid_def valid_audio audio_context_to_ui_prio_mapping_def context_defs)
    obtain w' where w': "AudioSources_GetSourceContext env s w = Inr (w', ?x)" "same_focus w w'"
      using wpD [OF GetSourceContext_wp [OF ok x(1)]] by force
    show "wp (focusSelect_AudioSourceCalculatePriorityForUi env fs src w) (\<lambda>(w', fs', c). same_focus w w' \<and> c = ui_data env w src \<and> arrays_ok fs' \<and>
       (\<forall>u. source_valid u \<longrightarrow> cached fs' u = (if u = src then c else cached fs u)) \<and>
       highest_priority_source fs' = highest_priority_source fs \<and> highest_priority fs' = highest_priority fs \<and>
       highest_priority_source_has_audio fs' = highest_priority_source_has_audio fs \<and>
       highest_priority_context fs' = highest_priority_context fs \<and>
       num_highest_priority_sources fs' = num_highest_priority_sources fs)"
      using set_priority_wp [OF valid fs w'(2) x(3)] x(2) s
      by (simp add: focusSelect_AudioSourceCalculatePriorityForUi_def w'(1) ui_data_def)
  qed (simp_all add: same_ui)
qed

lemma ui_priority_zero:
  assumes "env_ok env"
  shows "cache_context (ui_data env w (source_type_voice s)) \<noteq> context_voice_disconnected \<Longrightarrow> cache_priority (ui_data env w (source_type_voice s)) \<noteq> 0"
    "s \<in> set (audio_sources_of w) \<Longrightarrow> cache_context (ui_data env w (source_type_audio s)) \<noteq> context_audio_disconnected \<Longrightarrow>
      cache_priority (ui_data env w (source_type_audio s)) \<noteq> 0"
proof -
  show "cache_context (ui_data env w (source_type_voice s)) \<noteq> context_voice_disconnected \<Longrightarrow> cache_priority (ui_data env w (source_type_voice s)) \<noteq> 0"
    using contexts_ok(1) [OF assms, of w s] unfolding max_voice_contexts_def below_cases
    by (auto simp: ui_data_def voice_context_to_ui_prio_mapping_def context_defs)
  assume "s \<in> set (audio_sources_of w)"
  from contexts_ok(2) [OF assms this] have "audio_context env w s \<in> {0, 1, 2, 3, 4, 5, 6, 7}"
    by (auto simp: max_audio_contexts_def)
  then show "cache_context (ui_data env w (source_type_audio s)) \<noteq> context_audio_disconnected \<Longrightarrow>
      cache_priority (ui_data env w (source_type_audio s)) \<noteq> 0"
    by (auto simp: ui_data_def audio_context_to_ui_prio_mapping_def context_defs)
qed

text \<open>The compiled status for a user input.\<close>

lemma ui_compiled:
  assumes "calculates calc (ui_data env) (\<lambda>w src. src \<in> set (selectable v a w))" and "selection_ok w"
  obtains w' fs where "same_focus w w'" "selection_ok w'" "compiled (ui_data env w') (selectable v a w') fs"
    "res_bind (SourcesIterator_Create env v a w) (\<lambda>(w, it). FocusSelect_CompileFocusStatus calc it (w, no_status)) =
      Inr (w', fs, selectable v a w \<noteq> [])"
proof -
  obtain w1 where w1: "SourcesIterator_Create env v a w = Inr (w1, selectable v a w)" "same_focus w w1"
    using wpD [OF Create_wp [OF assms(2), of env v a]] by auto
  have "wp (FocusSelect_CompileFocusStatus calc (selectable v a w) (w1, no_status))
      (\<lambda>(w', fs, found). same_focus w1 w' \<and> compiled (ui_data env w1) (selectable v a w) fs \<and> found = (selectable v a w \<noteq> []))"
    by (rule Compile_wp [OF assms(1) same_focus_ok [OF assms(2) w1(2)] _ selectable_distinct]) (simp add: same_ui [OF w1(2)])
  then obtain w' fs where w': "FocusSelect_CompileFocusStatus calc (selectable v a w) (w1, no_status) = Inr (w', fs, selectable v a w \<noteq> [])"
    "same_focus w1 w'" "compiled (ui_data env w1) (selectable v a w) fs"
    by (auto dest!: wpD)
  note same = same_focus_trans [OF w1(2) w'(2)]
  show thesis
    by (rule that [OF same same_focus_ok [OF assms(2) same]]) (use w'(1,3) w1(1) in \<open>simp_all add: same_ui [OF same] same_ui [OF w1(2)]\<close>)
qed

text \<open>A key for a call is for the registered source of voice of the highest priority for user inputs, if there is one.\<close>

lemma ui_voice_wp:
  assumes "env_ok env" and "selection_ok w" and "voice_order_ok w"
  shows "wp (FocusSelect_GetVoiceSourceForUiInput env w) (\<lambda>(w', r). same_focus w w' \<and> (case r of
    None \<Rightarrow> voice_sources_of w = []
  | Some s \<Rightarrow> best (ui_data env w) (selectable True False w) (source_type_voice s)))"
proof (rule ui_compiled [OF ui_calculates(1) [OF assms(1)] assms(2)])
  fix w' fs
  let ?it = "selectable True False w'"
  assume w': "same_focus w w'" "selection_ok w'" "compiled (ui_data env w') ?it fs"
    and run: "res_bind (SourcesIterator_Create env True False w) (\<lambda>(w, it).
      FocusSelect_CompileFocusStatus (focusSelect_VoiceSourceCalculatePriorityForUi env) it (w, no_status)) =
      Inr (w', fs, selectable True False w \<noteq> [])"
  note same = same_ui [OF w'(1)]
  have eq: "FocusSelect_GetVoiceSourceForUiInput env w = (if ?it \<noteq> [] then res_bind (FocusSelect_HandleVoiceTieBreak w' fs) (\<lambda>fs.
         Inr (w', case highest_priority_source fs of source_type_voice s \<Rightarrow> Some s | source_type_audio s \<Rightarrow> Some s | source_type_other \<Rightarrow> Some 0))
       else Inr (w', None))"
    using run by (cases "SourcesIterator_Create env True False w")
      (auto simp: FocusSelect_GetVoiceSourceForUiInput_def focusSelect_GetVoiceSourceForUiInteraction_def
        focusSelect_GetVoiceSourceForUiInteractionWithIterator_def same)
  show ?thesis
  proof (cases "?it = []")
    case True
    then show ?thesis
      using w'(1) same_sources [OF w'(1)] by (simp add: eq selectable_def)
  next
    case False
    note b = compiled_best [OF w'(3) False]
    have voice: "\<exists>s. u = source_type_voice s \<and> VoiceSource_IsValid s" if "best (ui_data env w') ?it u" for u
      using that sources_valid(1) [of _ w'] by (auto simp: best_def selectable_def)
    have nz: "highest_priority_context fs \<noteq> context_voice_disconnected \<Longrightarrow> highest_priority fs \<noteq> 0"
      using voice [OF b(1)] b(2,4) ui_priority_zero(1) [OF assms(1)] by auto
    obtain order where order: "voice_source_tie_break_ordering w' = Some (FOCUS_SELECT_VOICE_HFP # FOCUS_SELECT_VOICE_USB # order)"
      using assms(3) same_focus_fields(7) [OF w'(1)] by (auto simp: voice_order_ok_def)
    have tie: "wp (FocusSelect_HandleVoiceTieBreak w' fs) (\<lambda>fs'. \<exists>src. fs' = fs\<lparr>highest_priority_source := src\<rparr> \<and> best (ui_data env w') ?it src)"
      by (rule VoiceTieBreak_wp [OF w'(2,3) b(1) nz order voice selectable_distinct])
    from wpD [OF tie] obtain src where src: "FocusSelect_HandleVoiceTieBreak w' fs = Inr (fs\<lparr>highest_priority_source := src\<rparr>)"
      "best (ui_data env w') ?it src"
      by blast
    from voice [OF src(2)] src False w'(1) show ?thesis
      by (auto simp: eq same)
  qed
qed

text \<open>
  A key for media is for the registered source of audio of the highest priority for user inputs, if there is one, or,
  in a tie, for the source routed last, if it is connected.
\<close>

lemma ui_audio_wp:
  assumes "env_ok env" and "selection_ok w" and "audio_order_ok w"
  shows "wp (FocusSelect_GetAudioSourceForUiInput env w) (\<lambda>(w', r). same_focus w w' \<and> (case r of
    None \<Rightarrow> audio_sources_of w = []
  | Some s \<Rightarrow> best (ui_data env w) (selectable False True w) (source_type_audio s) \<or> s = last_routed_audio_source w \<and> idle_last env w))"
proof (rule ui_compiled [OF ui_calculates(2) [OF assms(1)] assms(2)])
  fix w' fs
  let ?it = "selectable False True w'"
  assume w': "same_focus w w'" "selection_ok w'" "compiled (ui_data env w') ?it fs"
    and run: "res_bind (SourcesIterator_Create env False True w) (\<lambda>(w, it).
      FocusSelect_CompileFocusStatus (focusSelect_AudioSourceCalculatePriorityForUi env) it (w, no_status)) =
      Inr (w', fs, selectable False True w \<noteq> [])"
  note same = same_ui [OF w'(1)] same_routing(5) [OF w'(1) assms(1)] same_focus_fields(4) [OF w'(1)]
  have eq: "FocusSelect_GetAudioSourceForUiInput env w = (if ?it \<noteq> [] then res_bind (FocusSelect_HandleTieBreak w' fs) (\<lambda>fs.
         Inr (w', case highest_priority_source fs of source_type_audio s \<Rightarrow> Some s | source_type_voice s \<Rightarrow> Some s | source_type_other \<Rightarrow> Some 0))
       else Inr (w', None))"
    using run by (cases "SourcesIterator_Create env False True w") (auto simp: FocusSelect_GetAudioSourceForUiInput_def same)
  show ?thesis
  proof (cases "?it = []")
    case True
    then show ?thesis
      using w'(1) same_sources [OF w'(1)] by (simp add: eq selectable_def)
  next
    case False
    note b = compiled_best [OF w'(3) False]
    have audio: "\<exists>s. u = source_type_audio s \<and> s \<in> set (audio_sources_of w')" if "u \<in> set ?it" for u
      using that by (auto simp: selectable_def)
    have "highest_priority_source fs \<in> set ?it"
      using b(1) by (simp add: best_def)
    from audio [OF this] have nz: "highest_priority_context fs \<noteq> context_audio_disconnected \<Longrightarrow> highest_priority fs \<noteq> 0"
      using b(2,4) ui_priority_zero(2) [OF assms(1)] by auto
    obtain order where order: "audio_source_tie_break_ordering w' = Some order" "FOCUS_SELECT_AUDIO_MAX_SOURCES \<le> length order"
      using assms(3) same_focus_fields(6) [OF w'(1)] by (auto simp: audio_order_ok_def split: option.splits)
    from wpD [OF AudioTieBreak_wp [OF w'(2,3) b(1) nz order]] obtain src where src:
      "FocusSelect_HandleTieBreak w' fs = Inr (fs\<lparr>highest_priority_source := src\<rparr>)" "src \<in> set ?it"
      "best (ui_data env w') ?it src \<or> src = source_type_audio (last_routed_audio_source w') \<and> cache_context (ui_data env w' src) = context_audio_connected"
      by (auto simp: best_def)
    from audio [OF src(2)] obtain s where s: "src = source_type_audio s" "s \<in> set (audio_sources_of w')"
      by blast
    have "idle_last env w'" if "s = last_routed_audio_source w'" "cache_context (ui_data env w' src) = context_audio_connected"
      using that s by (simp add: idle_last_def ui_data_def)
    then show ?thesis
      using src(1,3) s(1) False w'(1) by (auto simp: eq same [symmetric])
  qed
qed

end
