(* ===== verification/Focus_Properties.thy ===== *)
theory Focus_Properties
  imports Focus_Control Volume_Properties
begin

text \<open>
  Properties of the selection of the focus, with the orders of the product and any contexts the profiles may answer.
\<close>

section \<open>Registration\<close>

text \<open>The start: nothing registered, and the default orders.\<close>

definition focus_start :: "headset_devices \<Rightarrow> focus_world" where
  "focus_start c = FocusSelect_TieBreakInit
     \<lparr>service = service_start c, telephony_control_interface = replicate max_voice_sources None,
      voice_source_audio_interfaces = replicate max_voice_sources None, last_routed_audio_source = 0,
      audio_source_tie_break_ordering = None, voice_source_tie_break_ordering = None,
      a2dp_barge_in_enabled = False, a2dp_barge_in_enabled_for_sass = False\<rparr>"

lemma focus_start_ok:
  assumes "devices_ok c" and "sources_recorded c"
  shows "selection_ok (focus_start c)" "audio_order_ok (focus_start c)" "voice_order_ok (focus_start c)"
  using assms registry_ok_init
  by (simp_all add: focus_start_def selection_ok_def FocusSelect_TieBreakInit_def service_start_def focus_devices_def max_audio_sources_def
      audio_order_ok_def voice_order_ok_def audio_tie_break_default_def voice_tie_break_default_def FOCUS_SELECT_AUDIO_MAX_SOURCES_def)

lemma RegisterMediaControl_wp:
  assumes "selection_ok w" and "audioInterface_SourceIsValid s"
  shows "wp (AudioSources_RegisterMediaControlInterface s (Some p) w) (\<lambda>w'. \<exists>r. w' = w\<lparr>service := (service w)\<lparr>audio_registry := r\<rparr>\<rparr> \<and>
    selection_ok w' \<and> registry_map r = (registry_map (audio_registry (service w)))
      (s := (registry_map (audio_registry (service w)) s)(audio_interface_type_media_control := [p])))"
proof -
  let ?ty = audio_interface_type_media_control
  let ?new = "res_bind (interfaces_of s ?ty (service w)) (\<lambda>(v, l, n).
       if n \<noteq> 0
       then if Some p = l ! 0 then Inr v
         else res_bind (unregister_interface s ?ty (l ! 0) v) (register_interface s ?ty (Some p))
       else register_interface s ?ty (Some p) v)"
  have ok: "registry_ok (audio_registry (service w))"
    using assms(1) by (simp add: selection_ok_def)
  have one: "max_interfaces ?ty = 1"
    by (simp add: max_interfaces_def)
  have "AudioSources_RegisterMediaControlInterface s (Some p) w = res_bind ?new (\<lambda>v. Inr (w\<lparr>service := v\<rparr>))"
    by (cases "interfaces_of s ?ty (service w)") (auto simp: AudioSources_RegisterMediaControlInterface_def res_bind_assoc)
  then show ?thesis
    using register_replaces [OF ok assms(2) one, of p] assms(1) by (auto simp: selection_ok_def focus_devices_def)
qed

lemma RegisterTelephony_wp:
  assumes "selection_ok w" and "VoiceSource_IsValid s"
  shows "wp (VoiceSources_RegisterTelephonyControlInterface s (Some p) w) (\<lambda>w'. selection_ok w' \<and>
    w' = w\<lparr>telephony_control_interface := (telephony_control_interface w)[s := Some p]\<rparr>)"
  using assms by (simp add: VoiceSources_RegisterTelephonyControlInterface_def selection_ok_def focus_devices_def)

text \<open>
  An example: two handsets play, USB is connected and was routed last, and a registered source of voice is in a call.
\<close>

definition example_env :: focus_env where
  "example_env = \<lparr>Context = (\<lambda>p. Some (\<lambda>s. if s = audio_source_usb then context_audio_connected else context_audio_is_playing)),
     ContextOverride = None, GetUiProviderContext = (\<lambda>p. Some (\<lambda>s. 5)), VoiceChannelAvailable = (\<lambda>p. None),
     connected_handsets = [], connected_to = (\<lambda>a. False), indexed_address = (\<lambda>i. None)\<rparr>"

definition example_focus :: "nat list \<Rightarrow> focus_world res" where
  "example_focus ss = for_res (\<lambda>s. AudioSources_RegisterMediaControlInterface s (Some 7)) ss
     ((focus_start example_devices)\<lparr>last_routed_audio_source := audio_source_usb\<rparr>)"

lemma RegisterMediaControls_wp:
  assumes "selection_ok w" and "\<forall>s \<in> set ss. audioInterface_SourceIsValid s"
  shows "wp (for_res (\<lambda>s. AudioSources_RegisterMediaControlInterface s (Some p)) ss w) (\<lambda>w'.
    \<exists>r. w' = w\<lparr>service := (service w)\<lparr>audio_registry := r\<rparr>\<rparr> \<and> selection_ok w' \<and>
      (\<forall>s. registry_map r s audio_interface_type_media_control =
        (if s \<in> set ss then [p] else registry_map (audio_registry (service w)) s audio_interface_type_media_control)))"
  using assms
proof (induction ss arbitrary: w)
  case Nil
  then show ?case
    by (auto intro!: exI [of _ "audio_registry (service w)"])
next
  case (Cons s ss)
  show ?case
    unfolding for_res.simps
  proof (rule wp_bindI [OF RegisterMediaControl_wp])
    fix w1
    assume "\<exists>r. w1 = w\<lparr>service := (service w)\<lparr>audio_registry := r\<rparr>\<rparr> \<and> selection_ok w1 \<and>
      registry_map r = (registry_map (audio_registry (service w)))
        (s := (registry_map (audio_registry (service w)) s)(audio_interface_type_media_control := [p]))"
    then obtain r where r: "w1 = w\<lparr>service := (service w)\<lparr>audio_registry := r\<rparr>\<rparr>" "selection_ok w1"
      "registry_map r = (registry_map (audio_registry (service w)))
        (s := (registry_map (audio_registry (service w)) s)(audio_interface_type_media_control := [p]))"
      by blast
    show "wp (for_res (\<lambda>s. AudioSources_RegisterMediaControlInterface s (Some p)) ss w1) (\<lambda>w'.
      \<exists>r. w' = w\<lparr>service := (service w)\<lparr>audio_registry := r\<rparr>\<rparr> \<and> selection_ok w' \<and>
        (\<forall>x. registry_map r x audio_interface_type_media_control =
          (if x \<in> set (s # ss) then [p] else registry_map (audio_registry (service w)) x audio_interface_type_media_control)))"
      by (rule wp_mono [OF Cons.IH [OF r(2)]]) (use Cons.prems(2) r(1,3) in auto)
  qed (use Cons.prems in auto)
qed

lemma example_focus_ok:
  assumes "set ss \<subseteq> {1, 2, 3}"
  obtains w where "example_focus ss = Inr w" "selection_ok w" "audio_order_ok w" "voice_order_ok w"
    "last_routed_audio_source w = audio_source_usb" "\<not> a2dp_barge_in_enabled w" "\<not> a2dp_barge_in_enabled_for_sass w"
    "telephony_control_interface w = replicate max_voice_sources None"
    "\<forall>s. registry_map (audio_registry (service w)) s audio_interface_type_media_control = (if s \<in> set ss then [7] else [])"
proof -
  let ?w = "(focus_start example_devices)\<lparr>last_routed_audio_source := audio_source_usb\<rparr>"
  have dev: "devices_ok example_devices" "sources_recorded example_devices"
    using example_devices_ok by (auto simp: sources_recorded_def listed_def example_devices_def Device_List.slots_def)
  have ok: "selection_ok ?w"
    using focus_start_ok(1) [OF dev] by (simp add: selection_ok_def focus_devices_def source_numbers)
  have "registry_map (audio_registry (service ?w)) s audio_interface_type_media_control = []" for s
    by (simp add: focus_start_def FocusSelect_TieBreakInit_def service_start_def registry_map_init)
  moreover have "\<forall>s \<in> set ss. audioInterface_SourceIsValid s"
    using assms by (auto simp: audioInterface_SourceIsValid_def max_audio_sources_def)
  ultimately obtain w r where w: "example_focus ss = Inr w" "w = ?w\<lparr>service := (service ?w)\<lparr>audio_registry := r\<rparr>\<rparr>" "selection_ok w"
    "\<forall>s. registry_map r s audio_interface_type_media_control = (if s \<in> set ss then [7] else [])"
    using wpD [OF RegisterMediaControls_wp [OF ok, of ss 7]] by (auto simp: example_focus_def)
  show thesis
    by (rule that [OF w(1,3)])
      (use w(4) in \<open>simp_all add: w(2) focus_start_def FocusSelect_TieBreakInit_def audio_order_ok_def voice_order_ok_def
        audio_tie_break_default_def voice_tie_break_default_def FOCUS_SELECT_AUDIO_MAX_SOURCES_def ENABLE_A2DP_BARGE_IN_def\<close>)
qed

lemma example_env_ok: "env_ok example_env"
  by (simp add: env_ok_def example_env_def media_context_def call_context_def context_defs)

lemma example_selectable:
  assumes "telephony_control_interface w = replicate max_voice_sources None"
    and "\<forall>s. registry_map (audio_registry (service w)) s audio_interface_type_media_control = (if s \<in> set ss then [7] else [])"
  shows "selectable True True w = map source_type_audio (filter (\<lambda>s. s \<in> set ss) [1, 2, 3, 4, 5, 6])"
    "s \<in> set ss \<Longrightarrow> audio_context example_env w s = (if s = audio_source_usb then context_audio_connected else context_audio_is_playing)"
proof -
  have "filter (\<lambda>s. telephony_control_interface w ! s \<noteq> None) [1..<max_voice_sources] = []"
    by (simp add: assms(1) filter_empty_conv)
  moreover have "[1..<max_audio_sources] = [1, 2, 3, 4, 5, 6]"
    by (simp add: max_audio_sources_def upt_rec)
  ultimately show "selectable True True w = map source_type_audio (filter (\<lambda>s. s \<in> set ss) [1, 2, 3, 4, 5, 6])"
    using assms(2) by (simp add: selectable_def voice_sources_of_def audio_sources_of_def)
  show "s \<in> set ss \<Longrightarrow> audio_context example_env w s = (if s = audio_source_usb then context_audio_connected else context_audio_is_playing)"
    using assms(2) by (simp add: audio_context_def example_env_def media_context_def)
qed

lemma example_priorities:
  "cache_priority (routing_data example_env w (source_type_audio s)) = audio_priority (audio_context example_env w s)"
  "audio_priority context_audio_is_playing = 10" "audio_priority context_audio_connected = 2"
  by (simp_all add: routing_data_def audio_priority_def audio_context_to_audio_prio_mapping_def context_defs)

text \<open>Among the handsets \<open>1\<close> and \<open>2\<close>, with USB or without, both handsets are the best and active.\<close>

lemma example_best:
  assumes "telephony_control_interface w = replicate max_voice_sources None" and "{1, 2} \<subseteq> set ss" and "set ss \<subseteq> {1, 2, 3}"
    and "\<forall>s. registry_map (audio_registry (service w)) s audio_interface_type_media_control = (if s \<in> set ss then [7] else [])"
  shows "routing_best example_env w (source_type_audio s) \<longleftrightarrow> s \<in> {1, 2}"
    "routing_active example_env w (source_type_audio 1)"
proof -
  note ctx = example_selectable(2) [OF assms(1,4)]
  have cases: "x \<in> set ss \<Longrightarrow> x \<in> {1, 2, 3}" for x
    using assms(3) by auto
  have set: "set (selectable True True w) = source_type_audio ` set ss"
    using assms(2,3) by (auto simp: example_selectable(1) [OF assms(1,4)])
  have usb: "audio_source_usb = 3"
    by (simp add: audio_source_usb_def)
  have prio: "cache_priority (routing_data example_env w (source_type_audio x)) = (if x = 3 then 2 else 10)" if "x \<in> set ss" for x
    using that by (simp add: example_priorities ctx usb)
  have in_ss: "1 \<in> set ss" "2 \<in> set ss"
    using assms(2) by auto
  show "routing_best example_env w (source_type_audio s) \<longleftrightarrow> s \<in> {1, 2}"
  proof
    assume best: "routing_best example_env w (source_type_audio s)"
    then have s: "s \<in> set ss" "cache_priority (routing_data example_env w (source_type_audio 1)) \<le>
        cache_priority (routing_data example_env w (source_type_audio s))"
      using in_ss by (auto simp: routing_best_def best_def set)
    have "s \<noteq> 3"
    proof
      assume "s = 3"
      then have "(10 :: u8) \<le> 2"
        using s prio [OF in_ss(1)] prio [of 3] by simp
      then show False
        by (simp add: word_le_nat_alt)
    qed
    then show "s \<in> {1, 2}"
      using cases [OF s(1)] by auto
  next
    assume s: "s \<in> {1, 2}"
    then have "s \<in> set ss" "cache_priority (routing_data example_env w (source_type_audio s)) = 10"
      using in_ss prio [of s] by auto
    then show "routing_best example_env w (source_type_audio s)"
      using prio by (auto simp: routing_best_def best_def set word_le_nat_alt)
  qed
  show "routing_active example_env w (source_type_audio 1)"
    using in_ss by (simp add: routing_active_def ctx usb context_defs)
qed

section \<open>The focused source\<close>

lemma selectable_focus_ok: "src \<in> set (selectable True True w) \<Longrightarrow> focus_ok src"
  using sources_valid [of _ w] valid_audio
  by (auto simp: selectable_def focus_ok_def source_ok_def voice_source_ok_def VoiceSource_IsValid_def)

text \<open>
  C17. The focus is on the best source: whatever is registered and whatever contexts the profiles answer, with
  an audio order of full length and a voice order that begins with HFP and USB, the selection returns, and unless the source routed
  last is connected but silent, the source it selects is registered, is active and has the highest priority of all; when no
  registered source is active nothing is selected.
\<close>

theorem focus_is_best:
  assumes "env_ok env" and "selection_ok w" and "voice_order_ok w" and "audio_order_ok w" and "\<not> idle_last env w"
  shows "\<exists>w' src. FocusSelect_GetFocusedSourceForAudioRouting env w = Inr (w', src) \<and> selection_ok w' \<and> focus_ok src \<and>
    (if any_active env w then routing_best env w src \<and> routing_active env w src else src = source_type_other)"
  using wpD [OF focus_wp [OF assms(1-3)]] assms(4,5) routing_best_valid(2) selectable_focus_ok any_active_best [OF assms(1)]
    same_focus_ok [OF assms(2)]
  by (fastforce simp: focus_ok_def split: if_splits)

theorem focus_is_best_witness:
  "\<exists>w w' s. example_focus [1, 2] = Inr w \<and> FocusSelect_GetFocusedSourceForAudioRouting example_env w = Inr (w', source_type_audio s) \<and>
    s \<in> {1, 2}"
proof (rule example_focus_ok)
  show "set [1, 2] \<subseteq> {1, 2, 3 :: nat}"
    by simp
next
  fix w
  assume w: "example_focus [1, 2] = Inr w" "selection_ok w" "audio_order_ok w" "voice_order_ok w"
    "last_routed_audio_source w = audio_source_usb" "telephony_control_interface w = replicate max_voice_sources None"
    "\<forall>s. registry_map (audio_registry (service w)) s audio_interface_type_media_control = (if s \<in> set [1, 2] then [7] else [])"
  note best = example_best [OF w(6) _ _ w(7)]
  have "\<not> idle_last example_env w"
    using w(5,7) by (simp add: idle_last_def audio_sources_of_def audio_source_usb_def)
  from focus_is_best [OF example_env_ok w(2,4,3) this] obtain w' src where f:
    "FocusSelect_GetFocusedSourceForAudioRouting example_env w = Inr (w', src)"
    "if any_active example_env w then routing_best example_env w src \<and> routing_active example_env w src else src = source_type_other"
    by blast
  have "any_active example_env w"
    using any_active_best [OF example_env_ok, of w "source_type_audio 1"] best by simp
  then have "routing_best example_env w src"
    using f(2) by simp
  moreover from this have "src \<in> source_type_audio ` {1, 2}"
    using routing_best_valid(2) by (force simp: example_selectable(1) [OF w(6,7)])
  ultimately show ?thesis
    using w(1) f(1) by auto
qed

text \<open>
  C18. A call takes the focus: with the orders of the headset, when a registered source of voice has a call or an audio channel,
  the focus is on such a source and not on one of audio, whatever plays there.
\<close>

theorem call_takes_focus:
  assumes "env_ok env" and "selection_ok u" and "w = HeadsetUi_ConfigureFocusSelection u"
    and "VoiceSource_IsValid s" and "telephony_control_interface w ! s \<noteq> None"
    and "voice_context env w s \<notin> {context_voice_disconnected, context_voice_connected} \<or> voice_channel env w s"
  shows "\<exists>w' t. FocusSelect_GetFocusedSourceForAudioRouting env w = Inr (w', source_type_voice t) \<and>
    VoiceSource_IsValid t \<and> telephony_control_interface w ! t \<noteq> None \<and>
    (voice_context env w t \<notin> {context_voice_disconnected, context_voice_connected} \<or> voice_channel env w t)"
proof -
  have ok: "selection_ok w" "voice_order_ok w"
    using assms(2) by (simp_all add: assms(3) HeadsetUi_ConfigureFocusSelection_def FocusSelect_ConfigureVoiceSourceTieBreakOrder_def
        FocusSelect_ConfigureAudioSourceTieBreakOrder_def selection_ok_def focus_devices_def voice_order_ok_def voice_source_focus_priority_def)
  have s: "source_type_voice s \<in> set (selectable True True w)"
    using assms(4,5) by (auto simp: selectable_def voice_sources_of_def VoiceSource_IsValid_def)
  have act: "routing_active env w (source_type_voice s)"
    using assms(6) by (simp add: routing_active_def)
  then have any: "any_active env w"
    using s by (auto simp: any_active_def)
  obtain best where "routing_best env w best"
    using best_exists [OF s, of "routing_data env w"] by (auto simp: routing_best_def)
  then obtain t where "routing_best env w (source_type_voice t)"
    using voice_above_audio [OF assms(1) s act] by blast
  then obtain w' src where src: "FocusSelect_GetFocusedSourceForAudioRouting env w = Inr (w', src)"
    "routing_best env w src \<or> (\<exists>s. routing_best env w (source_type_audio s))"
    using wpD [OF focus_wp [OF assms(1) ok]] any by auto
  then have best: "routing_best env w src"
    using voice_above_audio [OF assms(1) s act] by blast
  then obtain t where t: "src = source_type_voice t"
    using voice_above_audio [OF assms(1) s act] by blast
  show ?thesis
    using src(1) t any_active_best [OF assms(1) best] any routing_best_valid(2) [OF best]
    by (auto simp: routing_active_def selectable_def voice_sources_of_def VoiceSource_IsValid_def)
qed

theorem call_takes_focus_witness:
  "\<exists>w w' u. example_focus [1, 2] = Inr w \<and> VoiceSources_RegisterTelephonyControlInterface 3 (Some 8) w = Inr u \<and>
    FocusSelect_GetFocusedSourceForAudioRouting example_env (HeadsetUi_ConfigureFocusSelection u) = Inr (w', source_type_voice 3)"
proof (rule example_focus_ok)
  show "set [1, 2] \<subseteq> {1, 2, 3 :: nat}"
    by simp
next
  fix w
  assume w: "example_focus [1, 2] = Inr w" "selection_ok w" "telephony_control_interface w = replicate max_voice_sources None"
  have valid: "VoiceSource_IsValid 3"
    by (simp add: VoiceSource_IsValid_def max_voice_sources_def)
  obtain u where u: "VoiceSources_RegisterTelephonyControlInterface 3 (Some 8) w = Inr u" "selection_ok u"
    "u = w\<lparr>telephony_control_interface := (replicate max_voice_sources None)[3 := Some 8]\<rparr>"
    using wpD [OF RegisterTelephony_wp [OF w(2) valid, of 8]] w(3) by auto
  let ?v = "HeadsetUi_ConfigureFocusSelection u"
  have tel: "telephony_control_interface ?v = (replicate max_voice_sources None)[3 := Some 8]"
    by (simp add: u(3) HeadsetUi_ConfigureFocusSelection_def FocusSelect_ConfigureVoiceSourceTieBreakOrder_def
        FocusSelect_ConfigureAudioSourceTieBreakOrder_def)
  have "telephony_control_interface ?v ! 3 \<noteq> None"
    by (simp add: tel max_voice_sources_def)
  moreover have "voice_context example_env ?v 3 \<notin> {context_voice_disconnected, context_voice_connected} \<or> voice_channel example_env ?v 3"
    by (simp add: voice_context_def tel max_voice_sources_def call_context_def example_env_def context_defs)
  ultimately obtain v' t where t: "FocusSelect_GetFocusedSourceForAudioRouting example_env ?v = Inr (v', source_type_voice t)"
    "telephony_control_interface ?v ! t \<noteq> None" "VoiceSource_IsValid t"
    using call_takes_focus [OF example_env_ok u(2) refl valid] that by blast
  then have "t = 3"
    by (auto simp: tel nth_list_update VoiceSource_IsValid_def max_voice_sources_def split: if_splits)
  then show ?thesis
    using w(1) u(1) t(1) by blast
qed

text \<open>
  Keys find their source: with an audio order of full length and a voice order that begins with HFP and USB, a key for media is for
  a registered source of audio with the highest priority for user inputs, or for the source routed last if that is idle, and
  for none exactly when none is registered; a key for a call is for a registered source of voice with the highest priority.
\<close>

theorem keys_find_sources:
  assumes "env_ok env" and "selection_ok w" and "voice_order_ok w" and "audio_order_ok w"
  shows "\<exists>w' a w'' v. FocusSelect_GetAudioSourceForUiInput env w = Inr (w', a) \<and> FocusSelect_GetVoiceSourceForUiInput env w' = Inr (w'', v) \<and>
    (case a of None \<Rightarrow> audio_sources_of w = []
     | Some s \<Rightarrow> best (ui_data env w) (selectable False True w) (source_type_audio s) \<or> s = last_routed_audio_source w \<and> idle_last env w) \<and>
    (case v of None \<Rightarrow> voice_sources_of w = []
     | Some s \<Rightarrow> best (ui_data env w) (selectable True False w) (source_type_voice s))"
proof -
  obtain w' a where a: "FocusSelect_GetAudioSourceForUiInput env w = Inr (w', a)" "same_focus w w'"
    "case a of None \<Rightarrow> audio_sources_of w = []
     | Some s \<Rightarrow> best (ui_data env w) (selectable False True w) (source_type_audio s) \<or> s = last_routed_audio_source w \<and> idle_last env w"
    using wpD [OF ui_audio_wp [OF assms(1,2,4)]] by blast
  have "voice_order_ok w'"
    using same_routing(7) [OF a(2) assms(1)] assms(3) by simp
  from wpD [OF ui_voice_wp [OF assms(1) same_focus_ok [OF assms(2) a(2)] this]] obtain w'' v where
    "FocusSelect_GetVoiceSourceForUiInput env w' = Inr (w'', v)"
    "case v of None \<Rightarrow> voice_sources_of w' = []
     | Some s \<Rightarrow> best (ui_data env w') (selectable True False w') (source_type_voice s)"
    by auto
  with a show ?thesis
    by (cases v) (auto simp: same_ui [OF a(2)] same_sources [OF a(2)])
qed

theorem keys_find_sources_witness:
  "\<exists>w w' w'' s. example_focus [1, 2, 3] = Inr w \<and> FocusSelect_GetAudioSourceForUiInput example_env w = Inr (w', Some s) \<and>
    FocusSelect_GetVoiceSourceForUiInput example_env w' = Inr (w'', None)"
proof (rule example_focus_ok)
  show "set [1, 2, 3] \<subseteq> {1, 2, 3 :: nat}"
    by simp
next
  fix w
  assume w: "example_focus [1, 2, 3] = Inr w" "selection_ok w" "audio_order_ok w" "voice_order_ok w"
    "telephony_control_interface w = replicate max_voice_sources None"
    "\<forall>s. registry_map (audio_registry (service w)) s audio_interface_type_media_control = (if s \<in> set [1, 2, 3] then [7] else [])"
  have "1 \<in> set (audio_sources_of w)"
    using w(6) by (simp add: audio_sources_of_def max_audio_sources_def)
  then have none: "audio_sources_of w \<noteq> []" "selectable True False w = []"
    by (auto simp: selectable_def voice_sources_of_def w(5) filter_empty_conv)
  from keys_find_sources [OF example_env_ok w(2,4,3)] obtain w' a w'' v where
    "FocusSelect_GetAudioSourceForUiInput example_env w = Inr (w', a)" "FocusSelect_GetVoiceSourceForUiInput example_env w' = Inr (w'', v)"
    "case a of None \<Rightarrow> audio_sources_of w = [] | Some s \<Rightarrow> True" "case v of None \<Rightarrow> True | Some s \<Rightarrow> False"
    by (auto simp: best_def none split: option.splits)
  with w(1) none show ?thesis
    by (cases a; cases v) auto
qed

text \<open>
  C37. The focus can go to a source that is silent: when several sources of audio tie for the best and are active, the tie
  goes to the source routed last if that one is merely connected, and it passes the test for activity, which looks at the context of
  the source it has displaced. So with two handsets that play and a third source that was routed before them, the third one is routed.
\<close>

theorem idle_source_takes_focus:
  assumes "env_ok env" and "selection_ok w" and "routing_best env w (source_type_audio s)" and "routing_best env w (source_type_audio t)"
    and "s \<noteq> t" and "routing_active env w (source_type_audio s)" and "idle_last env w"
  shows "\<exists>w'. FocusSelect_GetFocusedSourceForAudioRouting env w = Inr (w', source_type_audio (last_routed_audio_source w)) \<and>
    \<not> routing_active env w (source_type_audio (last_routed_audio_source w))"
proof -
  let ?r = "last_routed_audio_source w"
  have any: "any_active env w"
    using any_active_best [OF assms(1,3)] assms(6) by simp
  obtain w' fs where w': "same_focus w w'" "selection_ok w'" "compiled (routing_data env w) (selectable True True w) fs"
    "highest_priority_context fs \<notin> {context_audio_disconnected, context_audio_connected, max_audio_contexts}"
    "num_highest_priority_sources fs \<noteq> 1"
    and focus: "FocusSelect_GetFocusedSourceForAudioRouting env w = res_bind (FocusSelect_HandleTieBreak w' fs) (\<lambda>fs.
      res_bind (focusSelect_VoiceSourceIsActive env fs w') (\<lambda>voice.
      res_bind (if voice then Inr True else focusSelect_AudioSourceIsActive fs) (\<lambda>active.
        Inr (w', if active \<or> highest_priority_source_has_audio fs then highest_priority_source fs else source_type_other))))"
    by (rule audio_tie [OF assms(1-5) any])
  have r: "AudioSource_IsValid ?r" "source_type_audio ?r \<in> set (selectable True True w)"
    "cache_context (routing_data env w (source_type_audio ?r)) = context_audio_connected"
    using assms(7) sources_valid(2) by (auto simp: idle_last_def selectable_def routing_data_def)
  have "FocusSelect_IsAudioSourceContextConnected fs ?r = Inr True"
    using w'(3) r by (simp add: FocusSelect_IsAudioSourceContextConnected_def focusSelect_GetContext_def compiled_def source_valid_def)
  then have "FocusSelect_HandleTieBreak w' fs = Inr (fs\<lparr>highest_priority_source := source_type_audio ?r\<rparr>)"
    using w'(4,5) r(1) same_focus_fields(4) [OF w'(1)] by (simp add: FocusSelect_HandleTieBreak_def AudioSource_IsValid_def Let_def)
  then show ?thesis
    using w'(4) assms(7)
    by (simp add: focus focusSelect_VoiceSourceIsActive_def focusSelect_AudioSourceIsActive_def routing_active_def idle_last_def)
qed

theorem idle_source_takes_focus_witness:
  "\<exists>w w'. example_focus [1, 2, 3] = Inr w \<and> audio_context example_env w 1 = context_audio_is_playing \<and>
    audio_context example_env w audio_source_usb = context_audio_connected \<and>
    FocusSelect_GetFocusedSourceForAudioRouting example_env w = Inr (w', source_type_audio audio_source_usb)"
proof (rule example_focus_ok)
  show "set [1, 2, 3] \<subseteq> {1, 2, 3 :: nat}"
    by simp
next
  fix w
  assume w: "example_focus [1, 2, 3] = Inr w" "selection_ok w" "last_routed_audio_source w = audio_source_usb"
    "telephony_control_interface w = replicate max_voice_sources None"
    "\<forall>s. registry_map (audio_registry (service w)) s audio_interface_type_media_control = (if s \<in> set [1, 2, 3] then [7] else [])"
  note best = example_best [OF w(4) _ _ w(5)] and ctx = example_selectable(2) [OF w(4,5)]
  have usb: "audio_source_usb = 3"
    by (simp add: audio_source_usb_def)
  have "idle_last example_env w"
    using w(5) ctx [of 3] by (simp add: w(3) usb idle_last_def audio_sources_of_def max_audio_sources_def)
  with idle_source_takes_focus [OF example_env_ok w(2), of 1 2] w(1,3) ctx [of 1] ctx [of 3] best show ?thesis
    by (auto simp: usb)
qed



end
