(* ===== verification/Rwcp_Server.thy ===== *)
theory Rwcp_Server
  imports Mh40_Prelude "HOL-Library.Signed_Division"
begin

text \<open>
  The RWCP server (\<^verbatim>\<open>adk/src/libs/rwcp_server/rwcp_server.c\<close>): the receiver of the
  sliding-window protocol that carries firmware upgrade data. The record \<open>server_data\<close> is
  \<open>SERVER_DATA_T\<close>; a call of the GAIA transport is an \<open>rwcp_output\<close> in the list a
  function returns. The abstract receiver is \<open>go_back_n\<close>, which counts the segments
  accepted in order.
\<close>

section \<open>Model\<close>

datatype rwcp_protocol_state = RWCP_LISTEN | RWCP_SYN_RCVD | RWCP_ESTABLISHED

record server_data =
  protocol_state :: rwcp_protocol_state
  out_of_sequence_status :: bool
  last_sequence_number :: u8
  rwcp_upgrade_header_size :: u8
  accept_segments :: bool
  client_task :: task

abbreviation RWCP_CLIENT_CMD_DATA :: u8 where "RWCP_CLIENT_CMD_DATA \<equiv> 0x00"
abbreviation RWCP_CLIENT_CMD_SYN :: u8 where "RWCP_CLIENT_CMD_SYN \<equiv> 0x40"
abbreviation RWCP_CLIENT_CMD_RST :: u8 where "RWCP_CLIENT_CMD_RST \<equiv> 0x80"

abbreviation RWCP_SERVER_CMD_DATA_ACK :: u8 where "RWCP_SERVER_CMD_DATA_ACK \<equiv> 0x00"
abbreviation RWCP_SERVER_CMD_SYN_ACK :: u8 where "RWCP_SERVER_CMD_SYN_ACK \<equiv> 0x40"
abbreviation RWCP_SERVER_CMD_RST :: u8 where "RWCP_SERVER_CMD_RST \<equiv> 0x80"
abbreviation RWCP_SERVER_CMD_GAP :: u8 where "RWCP_SERVER_CMD_GAP \<equiv> 0xc0"

datatype rwcp_data_pkts =
    RWCP_DATA_PKT_IN_SEQUENCE
  | RWCP_DATA_PKT_DUPLICATE
  | RWCP_DATA_PKT_OUT_OF_SEQUENCE
  | RWCP_DATA_PKT_DISCARDED

abbreviation RWCP_COMMAND_MASK :: u8 where "RWCP_COMMAND_MASK \<equiv> 0xc0"
abbreviation RWCP_SEQUENCE_MASK :: u8 where "RWCP_SEQUENCE_MASK \<equiv> 0x3f"
abbreviation RWCP_SEQUENCE_NUMBER_MAX :: nat where "RWCP_SEQUENCE_NUMBER_MAX \<equiv> 64"
abbreviation RWCP_RECEIVE_WINDOW_MAX :: u16 where "RWCP_RECEIVE_WINDOW_MAX \<equiv> 32"

text \<open>
  Calls out of the server: a one-byte notification to the client, and the payload (pointer
  and size) handed to the GAIA command processor.
\<close>

datatype rwcp_output =
    GaiaRwcpSendNotification u8
  | GaiaRwcpProcessCommand "u8 list" u16

definition rwcpSendNotification :: "u8 \<Rightarrow> u8 \<Rightarrow> rwcp_output" where
  "rwcpSendNotification seq command =
     GaiaRwcpSendNotification
       ((0 OR (seq AND RWCP_SEQUENCE_MASK)) OR (command AND RWCP_COMMAND_MASK))"

definition rwcpDataAck :: "u8 \<Rightarrow> rwcp_output" where
  "rwcpDataAck seq = rwcpSendNotification seq RWCP_SERVER_CMD_DATA_ACK"

definition rwcpRstAck :: "u8 \<Rightarrow> rwcp_output" where
  "rwcpRstAck seq = rwcpSendNotification seq RWCP_SERVER_CMD_RST"

definition rwcpRst :: "u8 \<Rightarrow> rwcp_output" where
  "rwcpRst seq = rwcpSendNotification seq RWCP_SERVER_CMD_RST"

definition rwcpSynAck :: "u8 \<Rightarrow> rwcp_output" where
  "rwcpSynAck seq = rwcpSendNotification seq RWCP_SERVER_CMD_SYN_ACK"

definition rwcpGap :: "u8 \<Rightarrow> rwcp_output" where
  "rwcpGap seq = rwcpSendNotification seq RWCP_SERVER_CMD_GAP"

text \<open>
  The arithmetic is in \<open>int\<close> after promotion. The parameter of the first function is unused
  in the source; the second subtraction can be negative, so \<open>%\<close> is the truncating
  remainder, and its result is stored in a \<open>uint16\<close>.
\<close>

definition nextExpectedSequenceNumber :: "server_data \<Rightarrow> u8" where
  "nextExpectedSequenceNumber s =
     word_of_nat ((unat (last_sequence_number s) + 1) mod RWCP_SEQUENCE_NUMBER_MAX)"

definition isNextSequence :: "server_data \<Rightarrow> u8 \<Rightarrow> bool" where
  "isNextSequence s seq \<longleftrightarrow> seq = nextExpectedSequenceNumber s"

definition isOutOfSequence :: "server_data \<Rightarrow> u8 \<Rightarrow> bool" where
  "isOutOfSequence s seq \<longleftrightarrow>
     (let norm = (word_of_int ((uint seq - uint (last_sequence_number s) + 64) smod 64) :: u16)
      in norm > 0 \<and> norm \<le> RWCP_RECEIVE_WINDOW_MAX)"

definition handleDataSegment ::
    "server_data \<Rightarrow> u8 \<Rightarrow> u8 list \<Rightarrow> u16 \<Rightarrow> server_data \<times> rwcp_output list \<times> rwcp_data_pkts" where
  "handleDataSegment s seq data sz =
     (if accept_segments s then
        if isNextSequence s seq then
          (s\<lparr>out_of_sequence_status := False, last_sequence_number := seq\<rparr>,
           [rwcpDataAck seq, GaiaRwcpProcessCommand (drop 1 data) (sz - 1)],
           RWCP_DATA_PKT_IN_SEQUENCE)
        else if isOutOfSequence s seq then
          (if \<not> out_of_sequence_status s
           then (s\<lparr>out_of_sequence_status := True\<rparr>,
                 [rwcpGap (last_sequence_number s)], RWCP_DATA_PKT_OUT_OF_SEQUENCE)
           else (s, [], RWCP_DATA_PKT_OUT_OF_SEQUENCE))
        else (s, [rwcpDataAck seq], RWCP_DATA_PKT_DUPLICATE)
      else (s, [], RWCP_DATA_PKT_DISCARDED))"

definition RwcpGetProtocolState :: "server_data \<Rightarrow> rwcp_protocol_state" where
  "RwcpGetProtocolState s = protocol_state s"

definition RwcpGetOutOfSequenceStatus :: "server_data \<Rightarrow> bool" where
  "RwcpGetOutOfSequenceStatus s = out_of_sequence_status s"

definition isRWwcpControlCmd :: "u8 \<Rightarrow> bool" where
  "isRWwcpControlCmd command \<longleftrightarrow>
     command = RWCP_CLIENT_CMD_SYN \<or> command = RWCP_CLIENT_CMD_RST"

text \<open>The three state handlers of the \<open>switch\<close> in \<open>RwcpServerHandleMessage\<close>.\<close>

definition handleListen :: "server_data \<Rightarrow> u8 \<Rightarrow> u8 \<Rightarrow> server_data \<times> rwcp_output list" where
  "handleListen s command seq =
     (if command = RWCP_CLIENT_CMD_SYN then
        (s\<lparr>last_sequence_number := seq, protocol_state := RWCP_SYN_RCVD\<rparr>, [rwcpSynAck seq])
      else if command = RWCP_CLIENT_CMD_RST then (s, [rwcpRstAck seq])
      else (s, [rwcpRst seq]))"

definition handleSynRcvd ::
    "server_data \<Rightarrow> u8 \<Rightarrow> u8 \<Rightarrow> u8 list \<Rightarrow> u16 \<Rightarrow> server_data \<times> rwcp_output list \<times> rwcp_data_pkts" where
  "handleSynRcvd s command seq data sz =
     (if command = RWCP_CLIENT_CMD_SYN then
        (s\<lparr>last_sequence_number := seq\<rparr>, [rwcpSynAck seq], RWCP_DATA_PKT_IN_SEQUENCE)
      else if command = RWCP_CLIENT_CMD_RST then
        (s\<lparr>protocol_state := RWCP_LISTEN\<rparr>, [rwcpRstAck seq], RWCP_DATA_PKT_IN_SEQUENCE)
      else if command = RWCP_CLIENT_CMD_DATA then
        (case handleDataSegment (s\<lparr>out_of_sequence_status := False\<rparr>) seq data sz of
           (s', out, pkt) \<Rightarrow> (s'\<lparr>protocol_state := RWCP_ESTABLISHED\<rparr>, out, pkt))
      else
        (s\<lparr>protocol_state := RWCP_LISTEN\<rparr>, [rwcpRst seq], RWCP_DATA_PKT_IN_SEQUENCE))"

definition handleEstablished ::
    "server_data \<Rightarrow> u8 \<Rightarrow> u8 \<Rightarrow> u8 list \<Rightarrow> u16 \<Rightarrow> server_data \<times> rwcp_output list \<times> rwcp_data_pkts" where
  "handleEstablished s command seq data sz =
     (if command = RWCP_CLIENT_CMD_RST then
        (s\<lparr>protocol_state := RWCP_LISTEN\<rparr>, [rwcpRstAck seq], RWCP_DATA_PKT_IN_SEQUENCE)
      else if command = RWCP_CLIENT_CMD_DATA then handleDataSegment s seq data sz
      else
        (s\<lparr>protocol_state := RWCP_LISTEN\<rparr>, [rwcpRst seq], RWCP_DATA_PKT_IN_SEQUENCE))"

text \<open>
  \<open>None\<close> is a \<open>NULL\<close> buffer. Reading the header of an empty buffer is out of bounds.
\<close>

definition RwcpServerHandleMessage ::
    "server_data \<Rightarrow> u8 list option \<Rightarrow> u16 \<Rightarrow> (server_data \<times> rwcp_output list \<times> bool) res" where
  "RwcpServerHandleMessage s data sz =
     (case data of None \<Rightarrow> Inr (s, [], False)
      | Some d \<Rightarrow>
        res_bind (array_get d 0) (\<lambda>rwcp_header.
          let seq = rwcp_header AND RWCP_SEQUENCE_MASK;
              command = rwcp_header AND RWCP_COMMAND_MASK;
              (s', out, pkt) =
                (case protocol_state s of
                   RWCP_LISTEN \<Rightarrow>
                     (case handleListen s command seq of (s1, out) \<Rightarrow>
                        (s1, out, RWCP_DATA_PKT_IN_SEQUENCE))
                 | RWCP_SYN_RCVD \<Rightarrow> handleSynRcvd s command seq d sz
                 | RWCP_ESTABLISHED \<Rightarrow> handleEstablished s command seq d sz);
              status = \<not> (isRWwcpControlCmd command \<or>
                          pkt = RWCP_DATA_PKT_OUT_OF_SEQUENCE \<or>
                          pkt = RWCP_DATA_PKT_DUPLICATE)
          in Inr (s', out, status)))"

definition RwcpServerFlowControl :: "server_data \<Rightarrow> bool \<Rightarrow> server_data" where
  "RwcpServerFlowControl s accept = s\<lparr>accept_segments := accept\<rparr>"

definition RwcpSetClientTask :: "server_data \<Rightarrow> task \<Rightarrow> server_data" where
  "RwcpSetClientTask s t = s\<lparr>client_task := t\<rparr>"

definition RwcpServerInit :: "server_data \<Rightarrow> u8 \<Rightarrow> server_data" where
  "RwcpServerInit s header_size =
     s\<lparr>protocol_state := RWCP_LISTEN, accept_segments := True, client_task := 0,
       last_sequence_number := 0, rwcp_upgrade_header_size := header_size\<rparr>"

text \<open>The static object before initialisation: all zero.\<close>

definition server_data_zero :: server_data where
  "server_data_zero =
     \<lparr>protocol_state = RWCP_LISTEN, out_of_sequence_status = False, last_sequence_number = 0,
      rwcp_upgrade_header_size = 0, accept_segments = False, client_task = 0\<rparr>"

section \<open>The server as a reactive component\<close>

datatype rwcp_event =
    Receive "u8 list option" u16
  | FlowControl bool
  | SetClientTask task
  | ServerInit u8

fun rwcp_step :: "server_data \<Rightarrow> rwcp_event \<Rightarrow> server_data" where
  "rwcp_step s (Receive data sz) =
     (case RwcpServerHandleMessage s data sz of Inl _ \<Rightarrow> s | Inr (s', _, _) \<Rightarrow> s')"
| "rwcp_step s (FlowControl b) = RwcpServerFlowControl s b"
| "rwcp_step s (SetClientTask t) = RwcpSetClientTask s t"
| "rwcp_step s (ServerInit h) = RwcpServerInit s h"

text \<open>Sequence numbers stay in the six bits the header has for them.\<close>

definition sequence_in_range :: "server_data \<Rightarrow> bool" where
  "sequence_in_range s \<longleftrightarrow> unat (last_sequence_number s) < 64"

lemma unat_and_sequence_mask: "unat (w AND RWCP_SEQUENCE_MASK) < 64" for w :: u8
proof -
  have "w AND 0x3f \<le> 0x3f" by (rule word_and_le1)
  then have "unat (w AND 0x3f) \<le> unat (0x3f :: u8)" by (simp only: word_le_nat_alt)
  then show ?thesis by simp
qed

lemmas rwcp_handlers =
  handleListen_def handleSynRcvd_def handleEstablished_def handleDataSegment_def

lemma handle_message_in_range:
  assumes "sequence_in_range s" and "RwcpServerHandleMessage s data sz = Inr (s', out, b)"
  shows "sequence_in_range s'"
  using assms
  by (auto simp: RwcpServerHandleMessage_def rwcp_handlers sequence_in_range_def Let_def
      res_simps unat_and_sequence_mask
      split: option.splits rwcp_protocol_state.splits if_splits prod.splits)

interpretation rwcp: reactive "RwcpServerInit server_data_zero h" rwcp_step sequence_in_range
proof unfold_locales
  show "sequence_in_range (RwcpServerInit server_data_zero h)"
    by (simp add: sequence_in_range_def RwcpServerInit_def)
next
  fix s e
  assume ok: "sequence_in_range s"
  show "sequence_in_range (rwcp_step s e)"
  proof (cases e)
    case (Receive data sz)
    with ok show ?thesis
      by (auto split: sum.splits intro: handle_message_in_range)
  qed (use ok in \<open>auto simp: sequence_in_range_def RwcpServerFlowControl_def
        RwcpSetClientTask_def RwcpServerInit_def\<close>)
qed

section \<open>Sequence numbers modulo 64\<close>

text \<open>
  The client's stream: segment \<open>i\<close> after the SYN with number \<open>n\<close> carries the sequence
  number \<open>n + 1 + i\<close> modulo 64. After \<open>d\<close> deliveries the server's last number is
  \<open>n + d\<close> modulo 64.
\<close>

definition stream_number :: "nat \<Rightarrow> nat \<Rightarrow> u8" where
  "stream_number n i = word_of_nat ((n + 1 + i) mod 64)"

definition data_segment :: "nat \<Rightarrow> (nat \<Rightarrow> u8 list) \<Rightarrow> nat \<Rightarrow> u8 list" where
  "data_segment n p i = stream_number n i # p i"

definition delivered_up_to :: "server_data \<Rightarrow> nat \<Rightarrow> nat \<Rightarrow> bool" where
  "delivered_up_to s n d \<longleftrightarrow> unat (last_sequence_number s) = (n + d) mod 64"

lemma unat_stream_number [simp]: "unat (stream_number n i) = (n + 1 + i) mod 64"
proof -
  have "(n + 1 + i) mod 64 < 2 ^ LENGTH(8)" by (rule less_trans [of _ 64]) simp_all
  then show ?thesis unfolding stream_number_def by (rule unat_of_nat_small)
qed

lemma header_of_data: "w AND RWCP_SEQUENCE_MASK = w" "w AND RWCP_COMMAND_MASK = 0"
  if "unat w < 64" for w :: u8
proof -
  have "\<forall>k \<in> set [0..<64]. (word_of_nat k :: u8) AND 0x3f = word_of_nat k \<and>
          (word_of_nat k :: u8) AND 0xc0 = 0"
    by code_simp
  moreover have "unat w \<in> set [0..<64]" using that by simp
  ultimately have "(word_of_nat (unat w) :: u8) AND 0x3f = word_of_nat (unat w) \<and>
          (word_of_nat (unat w) :: u8) AND 0xc0 = 0"
    by (rule bspec)
  then show "w AND RWCP_SEQUENCE_MASK = w" "w AND RWCP_COMMAND_MASK = 0" by simp_all
qed

lemma mod64_shift: "(n + a) mod 64 = (n + b) mod 64 \<longleftrightarrow> a mod 64 = b mod 64" for n a b :: nat
  by (simp add: nat_mod_eq_iff add.assoc)

lemma isNextSequence_stream:
  assumes "delivered_up_to s n d"
  shows "isNextSequence s (stream_number n i) \<longleftrightarrow> i mod 64 = d mod 64"
proof -
  have small: "(n + 1 + d) mod 64 < 2 ^ LENGTH(8)" by (rule less_trans [of _ 64]) simp_all
  have "nextExpectedSequenceNumber s = word_of_nat ((n + 1 + d) mod 64)"
    using assms by (simp add: nextExpectedSequenceNumber_def delivered_up_to_def mod_Suc_eq)
  then have "unat (nextExpectedSequenceNumber s) = (n + 1 + d) mod 64"
    using unat_of_nat_small [OF small] by simp
  then have "isNextSequence s (stream_number n i) \<longleftrightarrow> (n + 1 + i) mod 64 = (n + 1 + d) mod 64"
    by (metis isNextSequence_def unat_stream_number word_unat_eq_iff)
  then show ?thesis by (simp only: mod64_shift)
qed

lemma isOutOfSequence_stream:
  assumes "delivered_up_to s n d"
  shows "isOutOfSequence s (stream_number n i) \<longleftrightarrow>
           0 < (int i + 1 - int d) mod 64 \<and> (int i + 1 - int d) mod 64 \<le> 32"
proof -
  define a where "a = uint (stream_number n i) - uint (last_sequence_number s) + 64"
  define k where "k = (int i + 1 - int d) mod 64"
  have ua: "uint (stream_number n i) = int (n + 1 + i) mod 64"
    by (simp add: uint_nat zmod_int del: unat_of_nat)
  have ul: "uint (last_sequence_number s) = int (n + d) mod 64"
    using assms by (simp add: delivered_up_to_def uint_nat zmod_int)
  have "0 \<le> int (n + 1 + i) mod 64" "int (n + d) mod 64 < 64" by simp_all
  then have "0 \<le> a" unfolding a_def ua ul by linarith
  then have "a smod 64 = a mod 64" by (simp add: signed_modulo_int_def signed_divide_int_def
        sgn_if minus_div_mult_eq_mod)
  also have "\<dots> = (int (n + 1 + i) mod 64 - int (n + d) mod 64) mod 64"
    by (simp add: a_def ua ul)
  also have "\<dots> = k" by (simp add: mod_diff_eq k_def algebra_simps)
  finally have ak: "a smod 64 = k" .
  have k: "0 \<le> k" "k < 64" by (simp_all add: k_def)
  then have "uint (word_of_int k :: u16) = k" by (simp add: uint_word_of_int)
  then have "(word_of_int k :: u16) > 0 \<longleftrightarrow> k > 0"
      "(word_of_int k :: u16) \<le> 32 \<longleftrightarrow> k \<le> 32"
    by (simp_all add: word_less_def word_le_def)
  then show ?thesis
    by (simp add: isOutOfSequence_def Let_def ak [unfolded a_def] k_def [symmetric])
qed

section \<open>Delivery against the go-back-N receiver\<close>

text \<open>
  \<open>rwcp_receive\<close> feeds a list of packets to the server, each with its own length as the
  size argument. \<open>payloads\<close> are the bytes handed to the GAIA command processor.
\<close>

fun rwcp_receive :: "server_data \<Rightarrow> u8 list list \<Rightarrow> server_data \<times> rwcp_output list" where
  "rwcp_receive s [] = (s, [])"
| "rwcp_receive s (m # ms) =
     (case RwcpServerHandleMessage s (Some m) (word_of_nat (length m)) of
        Inl _ \<Rightarrow> (s, [])
      | Inr (s', out, _) \<Rightarrow> (case rwcp_receive s' ms of (s'', out') \<Rightarrow> (s'', out @ out')))"

fun payloads :: "rwcp_output list \<Rightarrow> u8 list list" where
  "payloads [] = []"
| "payloads (GaiaRwcpProcessCommand d n # out) = take (unat n) d # payloads out"
| "payloads (GaiaRwcpSendNotification h # out) = payloads out"

lemma payloads_append [simp]: "payloads (xs @ ys) = payloads xs @ payloads ys"
  by (induction xs rule: payloads.induct) auto

fun go_back_n :: "nat \<Rightarrow> nat list \<Rightarrow> nat" where
  "go_back_n d [] = d"
| "go_back_n d (i # is) = go_back_n (if i = d then Suc d else d) is"

text \<open>
  What the network may do: lose, repeat and reorder segments, as long as no segment is 64
  or more away from the one expected when it arrives.
\<close>

fun in_window :: "nat \<Rightarrow> nat list \<Rightarrow> bool" where
  "in_window d [] = True"
| "in_window d (i # is) =
     (i < d + 64 \<and> d < i + 64 \<and> in_window (if i = d then Suc d else d) is)"

lemma same_residue_in_window: "i mod 64 = d mod 64 \<longleftrightarrow> i = d"
  if "i < d + 64" "d < i + 64" for i d :: nat
proof
  assume "i mod 64 = d mod 64"
  with that show "i = d"
    by (metis add_diff_cancel_left' less_imp_add_positive linorder_neqE_nat mod_eq_dvd_iff_nat
        nat_dvd_not_less order_less_imp_le add_less_cancel_left)
qed simp

lemma go_back_n_ge: "d \<le> go_back_n d is"
  by (induction d "is" rule: go_back_n.induct) (auto split: if_splits)

definition receiving :: "server_data \<Rightarrow> nat \<Rightarrow> nat \<Rightarrow> bool" where
  "receiving s n d \<longleftrightarrow>
     protocol_state s \<noteq> RWCP_LISTEN \<and> accept_segments s \<and> delivered_up_to s n d"

lemma stream_header [simp]:
  "stream_number n i AND RWCP_SEQUENCE_MASK = stream_number n i"
  "stream_number n i AND RWCP_COMMAND_MASK = 0"
  by (rule header_of_data, simp)+

lemma data_segment_handled:
  "RwcpServerHandleMessage s (Some (data_segment n p i)) sz =
     (case handleDataSegment
             (if protocol_state s = RWCP_SYN_RCVD then s\<lparr>out_of_sequence_status := False\<rparr> else s)
             (stream_number n i) (data_segment n p i) sz of
        (s', out, pkt) \<Rightarrow>
          Inr (s'\<lparr>protocol_state := RWCP_ESTABLISHED\<rparr>, out,
               pkt \<noteq> RWCP_DATA_PKT_OUT_OF_SEQUENCE \<and> pkt \<noteq> RWCP_DATA_PKT_DUPLICATE))"
  if "protocol_state s \<noteq> RWCP_LISTEN"
  using that
  by (cases "protocol_state s")
    (auto simp: RwcpServerHandleMessage_def data_segment_def handleSynRcvd_def
      handleEstablished_def isRWwcpControlCmd_def Let_def handleDataSegment_def array_get_def
      split: prod.splits)

lemma payload_size: "unat ((word_of_nat (Suc k) :: u16) - 1) = k" if "k < 65535"
  using that by (simp add: unat_of_nat_small)

lemma receive_segment:
  assumes "receiving s n d" and "i < d + 64" "d < i + 64" and "length (p i) < 65535"
  obtains s' out b where
    "RwcpServerHandleMessage s (Some (data_segment n p i))
       (word_of_nat (length (data_segment n p i))) = Inr (s', out, b)"
    and "receiving s' n (if i = d then Suc d else d)"
    and "payloads out = (if i = d then [p i] else [])"
proof -
  let ?s = "if protocol_state s = RWCP_SYN_RCVD then s\<lparr>out_of_sequence_status := False\<rparr> else s"
  let ?sz = "word_of_nat (length (data_segment n p i)) :: u16"
  have d: "delivered_up_to ?s n d" "accept_segments ?s"
    using assms(1) by (auto simp: receiving_def delivered_up_to_def)
  obtain s' out pkt where
    h: "handleDataSegment ?s (stream_number n i) (data_segment n p i) ?sz = (s', out, pkt)"
    by (metis prod_cases3)
  have next_iff: "isNextSequence ?s (stream_number n i) \<longleftrightarrow> i = d"
    using isNextSequence_stream [OF d(1)] same_residue_in_window [OF assms(2,3)] by simp
  have "payloads out = (if i = d then [p i] else [])"
    using h d(2) next_iff payload_size [OF assms(4)]
    by (auto simp: handleDataSegment_def rwcpDataAck_def rwcpGap_def rwcpSendNotification_def
        data_segment_def split: if_splits)
  moreover have "receiving (s'\<lparr>protocol_state := RWCP_ESTABLISHED\<rparr>) n (if i = d then Suc d else d)"
    using h d next_iff
    by (auto simp: handleDataSegment_def receiving_def delivered_up_to_def split: if_splits)
  moreover have "protocol_state s \<noteq> RWCP_LISTEN" using assms(1) by (simp add: receiving_def)
  ultimately show thesis
    using that data_segment_handled [of s n p i ?sz] h by simp
qed

text \<open>
  C1. In-order reliable delivery: from a state that has acknowledged \<open>d\<close> segments of a
  stream that began with SYN number \<open>n\<close>, and whatever segments the network loses,
  repeats or reorders within the sequence space, the payloads handed to the upgrade
  library are exactly the stream's next segments in order, as many as an ideal go-back-N
  receiver accepts.
\<close>

theorem rwcp_in_order_delivery:
  assumes "receiving s n d" and "in_window d is" and "\<forall>i \<in> set is. length (p i) < 65535"
  shows "payloads (snd (rwcp_receive s (map (data_segment n p) is))) =
           map p [d..<go_back_n d is]"
  using assms
proof (induction "is" arbitrary: s d)
  case Nil
  then show ?case by simp
next
  case (Cons i "is")
  let ?d = "if i = d then Suc d else d"
  from Cons.prems(2) have w: "i < d + 64" "d < i + 64" "in_window ?d is" by auto
  from Cons.prems(3) have "length (p i) < 65535" by simp
  with Cons.prems(1) w(1,2) obtain s' out b where step:
    "RwcpServerHandleMessage s (Some (data_segment n p i))
       (word_of_nat (length (data_segment n p i))) = Inr (s', out, b)"
    "receiving s' n ?d" "payloads out = (if i = d then [p i] else [])"
    by (rule receive_segment)
  have "payloads (snd (rwcp_receive s' (map (data_segment n p) is))) =
      map p [?d..<go_back_n ?d is]"
    using Cons.prems(3) by (intro Cons.IH step(2) w(3)) simp
  moreover have "d < go_back_n (Suc d) is" by (rule Suc_le_lessD [OF go_back_n_ge])
  ultimately show ?case
    using step(1,3) by (auto split: prod.splits simp: upt_conv_Cons)
qed

definition example_server :: server_data where
  "example_server = \<lparr>protocol_state = RWCP_SYN_RCVD, out_of_sequence_status = False,
     last_sequence_number = 62, rwcp_upgrade_header_size = 0, accept_segments = True,
     client_task = 0\<rparr>"

theorem rwcp_in_order_delivery_witness:
  "payloads (snd (rwcp_receive example_server
     (map (data_segment 62 (\<lambda>i. [word_of_nat i, 7])) [0, 2, 1, 1, 2, 0, 3]))) =
   [[0, 7], [1, 7], [2, 7], [3, 7]]"
proof -
  have r: "receiving example_server 62 0"
    by (simp add: receiving_def delivered_up_to_def example_server_def)
  have "payloads (snd (rwcp_receive example_server
      (map (data_segment 62 (\<lambda>i. [word_of_nat i, 7])) [0, 2, 1, 1, 2, 0, 3]))) =
    map (\<lambda>i. [word_of_nat i, 7]) [0..<go_back_n 0 [0, 2, 1, 1, 2, 0, 3]]"
    by (rule rwcp_in_order_delivery [OF r]) simp_all
  also have "[0..<go_back_n 0 [0, 2, 1, 1, 2, 0, 3]] = [0, 1, 2, 3]"
    by (simp add: upt_rec)
  finally show ?thesis by simp
qed

section \<open>Replies, session start and return value\<close>

lemma out_of_sequence_iff_ahead:
  "0 < (int i + 1 - int d) mod 64 \<and> (int i + 1 - int d) mod 64 \<le> 32 \<longleftrightarrow> d < i"
  if "i \<le> d + 31" "d \<le> i + 32" "i \<noteq> d" for i d :: nat
proof (cases "d < i")
  case True
  with that(1) have "(int i + 1 - int d) mod 64 = int i + 1 - int d" by (intro mod_pos_pos_trivial) auto
  with True that(1) show ?thesis by auto
next
  case False
  with that have b: "- 31 \<le> int i + 1 - int d" "int i + 1 - int d \<le> 0" by auto
  have "(int i + 1 - int d + 64) mod 64 = (int i + 1 - int d) mod 64" by (rule mod_add_self2)
  with b have "(int i + 1 - int d) mod 64 = 0 \<or> (int i + 1 - int d) mod 64 \<ge> 33"
    by (cases "int i + 1 - int d = 0") (smt (verit) mod_pos_pos_trivial)+
  with False show ?thesis by auto
qed

text \<open>
  Acknowledgement soundness: while the client keeps its window of 32 segments, a
  segment that was delivered before is acknowledged again, the expected one is
  acknowledged and delivered, and one that arrives early is never acknowledged: the server
  answers with one GAP carrying its last number and stays silent until the gap closes. The
  return value tells whether the segment was consumed.
\<close>

theorem rwcp_segment_response:
  assumes "receiving s n d" and "i \<le> d + 31" "d \<le> i + 32"
  shows "\<exists>s'. RwcpServerHandleMessage s (Some (data_segment n p i)) sz =
    Inr (s',
      (if i = d then [rwcpDataAck (stream_number n i), GaiaRwcpProcessCommand (p i) (sz - 1)]
       else if i < d then [rwcpDataAck (stream_number n i)]
       else if protocol_state s = RWCP_ESTABLISHED \<and> out_of_sequence_status s then []
       else [rwcpGap (last_sequence_number s)]),
      i = d)"
proof -
  let ?s = "if protocol_state s = RWCP_SYN_RCVD then s\<lparr>out_of_sequence_status := False\<rparr> else s"
  have d: "delivered_up_to ?s n d" "accept_segments ?s"
    "protocol_state s \<noteq> RWCP_LISTEN"
    using assms(1) by (auto simp: receiving_def delivered_up_to_def)
  have nxt: "isNextSequence ?s (stream_number n i) \<longleftrightarrow> i = d"
    using isNextSequence_stream [OF d(1), of i] same_residue_in_window [of i d] assms(2,3)
    by auto
  have ooo: "i \<noteq> d \<Longrightarrow> isOutOfSequence ?s (stream_number n i) \<longleftrightarrow> d < i"
    using isOutOfSequence_stream [OF d(1), of i] out_of_sequence_iff_ahead [OF assms(2,3)]
    by simp
  have muted: "out_of_sequence_status ?s \<longleftrightarrow>
      protocol_state s = RWCP_ESTABLISHED \<and> out_of_sequence_status s"
    using d(3) by (cases "protocol_state s") auto
  have "last_sequence_number ?s = last_sequence_number s" by simp
  then show ?thesis
    using d(2) nxt ooo muted data_segment_handled [OF d(3), of n p i sz]
    by (cases "i = d"; cases "i < d")
      (auto simp: handleDataSegment_def data_segment_def)
qed

theorem rwcp_segment_response_witness:
  "\<exists>s'. RwcpServerHandleMessage example_server (Some (data_segment 62 (\<lambda>i. [9]) 3)) 2 =
     Inr (s', [rwcpGap 62], False)"
proof -
  have r: "receiving example_server 62 0"
    by (simp add: receiving_def delivered_up_to_def example_server_def)
  show ?thesis
    using rwcp_segment_response [OF r, of 3 "\<lambda>i. [9]" 2] by (simp add: example_server_def)
qed

lemma listen_without_syn:
  assumes "protocol_state s = RWCP_LISTEN" and "m = [] \<or> hd m AND RWCP_COMMAND_MASK \<noteq> RWCP_CLIENT_CMD_SYN"
    and "RwcpServerHandleMessage s (Some m) sz = Inr (s', out, b)"
  shows "protocol_state s' = RWCP_LISTEN \<and> payloads out = []"
  using assms
  by (cases m) (auto simp: RwcpServerHandleMessage_def handleListen_def rwcpRst_def rwcpRstAck_def
      rwcpSendNotification_def array_get_def Let_def split: if_splits)

text \<open>
  No data without a session: a server in LISTEN that sees no SYN hands nothing to the
  upgrade library, whatever packets arrive, and stays in LISTEN.
\<close>

theorem rwcp_no_data_before_syn:
  assumes "protocol_state s = RWCP_LISTEN"
    and "\<forall>m \<in> set ms. m = [] \<or> hd m AND RWCP_COMMAND_MASK \<noteq> RWCP_CLIENT_CMD_SYN"
  shows "payloads (snd (rwcp_receive s ms)) = [] \<and>
         protocol_state (fst (rwcp_receive s ms)) = RWCP_LISTEN"
  using assms
proof (induction ms arbitrary: s)
  case Nil
  then show ?case by simp
next
  case (Cons m ms)
  show ?case
  proof (cases "RwcpServerHandleMessage s (Some m) (word_of_nat (length m))")
    case (Inl e)
    with Cons.prems(1) show ?thesis by simp
  next
    case (Inr r)
    then obtain s' out b where r:
      "RwcpServerHandleMessage s (Some m) (word_of_nat (length m)) = Inr (s', out, b)"
      by (cases r) auto
    have "protocol_state s' = RWCP_LISTEN \<and> payloads out = []"
      using Cons.prems r by (intro listen_without_syn [of s m _ s' out b]) auto
    with Cons.IH [of s'] Cons.prems(2) r show ?thesis by (auto split: prod.splits)
  qed
qed

theorem rwcp_no_data_before_syn_witness:
  "payloads (snd (rwcp_receive (RwcpServerInit server_data_zero 4) [[1, 2], [0x80], [0xff, 3]])) = []"
  using rwcp_no_data_before_syn
    [of "RwcpServerInit server_data_zero 4" "[[1, 2], [0x80], [0xff, 3]]"]
  by (simp add: RwcpServerInit_def)

text \<open>
  The return value of the message handler on a non-empty packet: false for SYN and RST
  and for a duplicate or early segment, true otherwise. In particular it is true for a
  DATA packet that was rejected in LISTEN, or discarded because segments are not
  accepted, although the interface promises true for segments in sequence only.
\<close>

theorem rwcp_return_value:
  "\<exists>s' out. RwcpServerHandleMessage s (Some (h # d)) sz =
     Inr (s', out,
       h AND RWCP_COMMAND_MASK \<noteq> RWCP_CLIENT_CMD_SYN \<and>
       h AND RWCP_COMMAND_MASK \<noteq> RWCP_CLIENT_CMD_RST \<and>
       (h AND RWCP_COMMAND_MASK \<noteq> RWCP_CLIENT_CMD_DATA \<or> protocol_state s = RWCP_LISTEN \<or>
        \<not> accept_segments s \<or> isNextSequence s (h AND RWCP_SEQUENCE_MASK)))"
  by (cases "protocol_state s")
    (auto simp: RwcpServerHandleMessage_def rwcp_handlers isRWwcpControlCmd_def Let_def
      isNextSequence_def nextExpectedSequenceNumber_def array_get_def)

theorem rwcp_return_value_witness:
  "\<exists>s' out. RwcpServerHandleMessage (RwcpServerInit server_data_zero 4) (Some [1, 7]) 2 =
     Inr (s', out, True)"
  using rwcp_return_value [of "RwcpServerInit server_data_zero 4" 1 "[7]" 2]
  by (simp add: RwcpServerInit_def)

end
