(* ===== verification/Byte_Utils.thy ===== *)
theory Byte_Utils
  imports Mh40_Prelude
begin

text \<open>
  Byte array utilities (\<^verbatim>\<open>adk/src/libs/byte_utils/byte_utils.c\<close>), in the \<open>HYDRACORE\<close>
  configuration all headset projects build with. A buffer is a list of octets or of 16-bit
  words; an index outside it is a \<open>BadAccess\<close>. A function that returns a count and writes
  through a pointer returns the new buffer and the count.
\<close>

section \<open>Model\<close>

definition hi8 :: "u16 \<Rightarrow> u8" where
  "hi8 w = ucast (drop_bit 8 w)"

definition lo8 :: "u16 \<Rightarrow> u8" where
  "lo8 w = ucast (w AND 0xFF)"

text \<open>\<open>memcpy(dst + di, src + si, n)\<close> on disjoint buffers.\<close>

definition mem_copy :: "'a list \<Rightarrow> nat \<Rightarrow> 'a list \<Rightarrow> nat \<Rightarrow> nat \<Rightarrow> 'a list res" where
  "mem_copy dst di src si n =
     (if di + n \<le> length dst \<and> si + n \<le> length src
      then Inr (take di dst @ take n (drop si src) @ drop (di + n) dst) else Inl BadAccess)"

definition ByteUtilsMemCpyToStream :: "u8 list \<Rightarrow> u8 list \<Rightarrow> u16 \<Rightarrow> (u8 list \<times> u16) res" where
  "ByteUtilsMemCpyToStream dst src sz =
     res_bind (mem_copy dst 0 src 0 (unat sz)) (\<lambda>dst'. Inr (dst', sz))"

definition ByteUtilsMemCpyUnpackString :: "u8 list \<Rightarrow> u16 list \<Rightarrow> u16 \<Rightarrow> (u8 list \<times> u16) res" where
  "ByteUtilsMemCpyUnpackString dst src sz =
     res_bind
       (for_res (\<lambda>i dst.
            res_bind (array_get src (i div 2)) (\<lambda>w.
              array_set dst i (if i mod 2 \<noteq> 0 then lo8 w else hi8 w)))
          [0..<unat sz] dst)
       (\<lambda>dst'. Inr (dst', sz))"

text \<open>
  The packing loop: \<open>di\<close> and \<open>si\<close> are how far \<open>dst\<close> and \<open>src\<close> have advanced, \<open>n\<close> is the
  remaining size.
\<close>

fun pack_loop :: "u16 list \<Rightarrow> nat \<Rightarrow> u8 list \<Rightarrow> nat \<Rightarrow> nat \<Rightarrow> u16 \<Rightarrow> (u16 list \<times> u16) res" where
  "pack_loop dst di src si (Suc (Suc n)) count =
     res_bind (array_get src si) (\<lambda>a.
     res_bind (array_set dst di (push_bit 8 (ucast a))) (\<lambda>dst1.
     res_bind (array_get src (si + 1)) (\<lambda>b.
     res_bind (array_set dst1 di (dst1 ! di OR ucast b)) (\<lambda>dst2.
       pack_loop dst2 (di + 1) src (si + 2) n (count + 1)))))"
| "pack_loop dst di src si (Suc 0) count =
     res_bind (array_get src si) (\<lambda>a.
     res_bind (array_set dst di (push_bit 8 (ucast a))) (\<lambda>dst1. Inr (dst1, count + 1)))"
| "pack_loop dst di src si 0 count = Inr (dst, count)"

definition ByteUtilsMemCpyPackString :: "u16 list \<Rightarrow> u8 list \<Rightarrow> u16 \<Rightarrow> (u16 list \<times> u16) res" where
  "ByteUtilsMemCpyPackString dst src sz = pack_loop dst 0 src 0 (unat sz) 0"

fun packed_len_loop :: "u16 list \<Rightarrow> nat \<Rightarrow> u16 \<Rightarrow> u16 res" where
  "packed_len_loop src 0 n = Inr n"
| "packed_len_loop [] (Suc k) n = Inl BadAccess"
| "packed_len_loop (w # ws) (Suc k) n =
     (if hi8 w = 0 then Inr n
      else if lo8 w = 0 then Inr (n + 1)
      else packed_len_loop ws k (n + 1 + 1))"

definition ByteUtilsGetPackedStringLen :: "u16 list \<Rightarrow> u16 \<Rightarrow> u16 res" where
  "ByteUtilsGetPackedStringLen src max_len =
     (if max_len \<noteq> 0 then packed_len_loop src (unat max_len) 0 else Inr 0)"

definition ByteUtilsSet1Byte :: "u8 list \<Rightarrow> u16 \<Rightarrow> u8 \<Rightarrow> (u8 list \<times> u16) res" where
  "ByteUtilsSet1Byte dst byteIndex val =
     res_bind (array_set dst (unat byteIndex) val) (\<lambda>dst'. Inr (dst', 1))"

definition ByteUtilsMemCpyFromStream :: "u8 list \<Rightarrow> u8 list \<Rightarrow> u16 \<Rightarrow> (u8 list \<times> u16) res" where
  "ByteUtilsMemCpyFromStream dst src sz =
     res_bind
       (for_res (\<lambda>i dst.
            res_bind (array_get src i) (\<lambda>b.
            res_bind (ByteUtilsSet1Byte dst (word_of_nat i) b) (\<lambda>(dst', _). Inr dst')))
          [0..<unat sz] dst)
       (\<lambda>dst'. Inr (dst', sz))"

definition ByteUtilsMemCpy :: "u8 list \<Rightarrow> u16 \<Rightarrow> u8 list \<Rightarrow> u16 \<Rightarrow> u16 \<Rightarrow> (u8 list \<times> u16) res" where
  "ByteUtilsMemCpy dst dstIndex src srcIndex sz =
     res_bind (mem_copy dst (unat dstIndex) src (unat srcIndex) (unat sz)) (\<lambda>dst'. Inr (dst', sz))"

text \<open>The half of the source word is chosen by the parity of \<open>i\<close>, not of \<open>i + srcIndex\<close>.\<close>

definition ByteUtilsMemCpy16 :: "u8 list \<Rightarrow> u16 \<Rightarrow> u16 list \<Rightarrow> u16 \<Rightarrow> u16 \<Rightarrow> (u8 list \<times> u16) res" where
  "ByteUtilsMemCpy16 dst dstIndex src srcIndex sz =
     res_bind
       (for_res (\<lambda>i dst.
            res_bind (array_get src ((i + unat srcIndex) div 2)) (\<lambda>w.
              array_set dst (i + unat dstIndex) (if i mod 2 \<noteq> 0 then lo8 w else hi8 w)))
          [0..<unat sz] dst)
       (\<lambda>dst'. Inr (dst', sz))"

definition ByteUtilsSet2Bytes :: "u8 list \<Rightarrow> u16 \<Rightarrow> u16 \<Rightarrow> (u8 list \<times> u16) res" where
  "ByteUtilsSet2Bytes dst byteIndex val =
     res_bind (array_set dst (unat byteIndex) (ucast (drop_bit 8 val))) (\<lambda>dst1.
     res_bind (array_set dst1 (unat byteIndex + 1) (ucast val)) (\<lambda>dst2. Inr (dst2, 2)))"

definition ByteUtilsSet4Bytes :: "u8 list \<Rightarrow> u16 \<Rightarrow> u32 \<Rightarrow> (u8 list \<times> u16) res" where
  "ByteUtilsSet4Bytes dst byteIndex val =
     res_bind (ByteUtilsSet2Bytes dst byteIndex (ucast (drop_bit 16 val))) (\<lambda>(dst1, n).
     res_bind (ByteUtilsSet2Bytes dst1 (byteIndex + n) (ucast val)) (\<lambda>(dst2, _). Inr (dst2, 4)))"

definition ByteUtilsGet1ByteFromStream :: "u8 list \<Rightarrow> u8 res" where
  "ByteUtilsGet1ByteFromStream src = array_get src 0"

definition ByteUtilsGet2BytesFromStream :: "u8 list \<Rightarrow> u16 res" where
  "ByteUtilsGet2BytesFromStream src =
     res_bind (array_get src 1) (\<lambda>b1.
     res_bind (array_get src 0) (\<lambda>b0. Inr (ucast b1 OR push_bit 8 (ucast b0))))"

definition ByteUtilsGet4BytesFromStream :: "u8 list \<Rightarrow> u32 res" where
  "ByteUtilsGet4BytesFromStream src =
     res_bind (array_get src 3) (\<lambda>b3.
     res_bind (array_get src 2) (\<lambda>b2.
     res_bind (array_get src 1) (\<lambda>b1.
     res_bind (array_get src 0) (\<lambda>b0.
       Inr ((ucast b3 AND 0xff) OR push_bit 8 (ucast b2 AND 0xff) OR
            push_bit 16 (ucast b1 AND 0xff) OR push_bit 24 (ucast b0 AND 0xff))))))"

definition ByteUtilsGet1Byte :: "u8 list \<Rightarrow> u16 \<Rightarrow> (u8 \<times> u16) res" where
  "ByteUtilsGet1Byte src byteIndex =
     res_bind (array_get src (unat byteIndex)) (\<lambda>v. Inr (v, 1))"

definition ByteUtilsGet2Bytes :: "u8 list \<Rightarrow> u16 \<Rightarrow> (u16 \<times> u16) res" where
  "ByteUtilsGet2Bytes src byteIndex =
     res_bind (array_get src (unat byteIndex)) (\<lambda>b0.
     res_bind (array_get src (unat byteIndex + 1)) (\<lambda>b1.
       Inr (ucast b0 OR push_bit 8 (ucast b1), 2)))"

definition ByteUtilsGet4Bytes :: "u8 list \<Rightarrow> u16 \<Rightarrow> (u32 \<times> u16) res" where
  "ByteUtilsGet4Bytes src byteIndex =
     res_bind (ByteUtilsGet2Bytes src byteIndex) (\<lambda>(msb, n).
     res_bind (ByteUtilsGet2Bytes src (byteIndex + n)) (\<lambda>(lsb, _).
       Inr (push_bit 16 (ucast msb) OR ucast lsb, 4)))"

text \<open>
  The copy loop of \<open>ByteUtilsStrLCpyUnpack\<close>: \<open>store_char\<close> is the guarded \<open>*dst++ = data\<close>;
  the loop ends at the first zero octet and fails when \<open>src\<close> has none.
\<close>

definition store_char :: "u16 \<Rightarrow> u16 \<Rightarrow> u8 \<Rightarrow> u8 list \<times> nat \<Rightarrow> (u8 list \<times> nat) res" where
  "store_char srclen dstsize data = (\<lambda>(dst, di).
     if srclen < dstsize then res_bind (array_set dst di data) (\<lambda>dst'. Inr (dst', di + 1))
     else Inr (dst, di))"

fun strlcpy_loop :: "u16 list \<Rightarrow> u16 \<Rightarrow> u16 \<Rightarrow> u8 list \<times> nat \<Rightarrow> ((u8 list \<times> nat) \<times> u16) res" where
  "strlcpy_loop [] dstsize srclen d = Inl BadAccess"
| "strlcpy_loop (w # ws) dstsize srclen d =
     (if hi8 w = 0 then Inr (d, srclen)
      else res_bind (store_char (srclen + 1) dstsize (hi8 w) d) (\<lambda>d1.
        if lo8 w = 0 then Inr (d1, srclen + 1)
        else res_bind (store_char (srclen + 1 + 1) dstsize (lo8 w) d1) (\<lambda>d2.
          strlcpy_loop ws dstsize (srclen + 1 + 1) d2)))"

definition ByteUtilsStrLCpyUnpack :: "u8 list \<Rightarrow> u16 list \<Rightarrow> u16 \<Rightarrow> (u8 list \<times> u16) res" where
  "ByteUtilsStrLCpyUnpack dst src dstsize =
     (if dstsize \<noteq> 0 then
        res_bind (strlcpy_loop src dstsize 0 (dst, 0)) (\<lambda>((dst1, di), srclen).
        res_bind (array_set dst1 di 0) (\<lambda>dst2. Inr (dst2, srclen)))
      else Inr (dst, 0))"

fun strnlen_loop :: "u8 list \<Rightarrow> nat \<Rightarrow> u16 \<Rightarrow> u16 res" where
  "strnlen_loop string 0 offset = Inr offset"
| "strnlen_loop [] (Suc k) offset = Inl BadAccess"
| "strnlen_loop (c # cs) (Suc k) offset =
     (if c \<noteq> 0 then strnlen_loop cs k (offset + 1) else Inr offset)"

definition ByteUtilsStrnlen_S :: "u8 list option \<Rightarrow> u16 \<Rightarrow> u16 res" where
  "ByteUtilsStrnlen_S string max_length =
     (case string of None \<Rightarrow> Inr 0 | Some cs \<Rightarrow> strnlen_loop cs (unat max_length) 0)"

section \<open>Fields in a byte stream\<close>

text \<open>
  The contract of a fixed-width field: writing it inside the buffer succeeds, touches its
  own octets only, and reading the stream at its offset gives the value back.
\<close>

locale field_codec =
  fixes put :: "u8 list \<Rightarrow> u16 \<Rightarrow> 'v \<Rightarrow> (u8 list \<times> u16) res"
    and get :: "u8 list \<Rightarrow> 'v res"
    and width :: nat
  assumes put_get: "unat i + width \<le> length d \<Longrightarrow> unat i + width \<le> 2 ^ 16 \<Longrightarrow>
      \<exists>d'. put d i v = Inr (d', word_of_nat width) \<and> length d' = length d \<and>
           (\<forall>k. k < unat i \<or> unat i + width \<le> k \<longrightarrow> d' ! k = d ! k) \<and>
           get (drop (unat i) d') = Inr v"
    and get_local: "width \<le> length xs \<Longrightarrow> width \<le> length ys \<Longrightarrow>
      (\<forall>k < width. xs ! k = ys ! k) \<Longrightarrow> get xs = get ys"
begin

lemma get_frame:
  assumes "length d' = length d" and "i + width \<le> length d"
    and "\<forall>k. i \<le> k \<and> k < i + width \<longrightarrow> d' ! k = d ! k"
  shows "get (drop i d') = get (drop i d)"
  by (rule get_local) (use assms in auto)

end

text \<open>Two adjacent fields written one after the other, as the message builders do.\<close>

locale field_pair = a: field_codec puta geta wa + b: field_codec putb getb wb
  for puta :: "u8 list \<Rightarrow> u16 \<Rightarrow> 'a \<Rightarrow> (u8 list \<times> u16) res" and geta and wa
    and putb :: "u8 list \<Rightarrow> u16 \<Rightarrow> 'b \<Rightarrow> (u8 list \<times> u16) res" and getb and wb
begin

lemma pair_put_get:
  assumes "unat i + wa + wb \<le> length d" and "unat i + wa + wb \<le> 2 ^ 16" and "0 < wb"
  shows "\<exists>d1 d2. puta d i x = Inr (d1, word_of_nat wa) \<and>
    putb d1 (i + word_of_nat wa) y = Inr (d2, word_of_nat wb) \<and> length d2 = length d \<and>
    geta (drop (unat i) d2) = Inr x \<and> getb (drop (unat i + wa) d2) = Inr y"
proof -
  have "unat (word_of_nat wa :: u16) = wa" using assms(2,3) by (intro unat_of_nat_small) simp
  then have j: "unat (i + word_of_nat wa) = unat i + wa"
    using assms(2,3) by (subst unat_add_lem [THEN iffD1]) auto
  have "unat i + wa \<le> length d" "unat i + wa \<le> 2 ^ 16" using assms(1,2) by simp_all
  from a.put_get [OF this, of x] obtain d1 where d1: "puta d i x = Inr (d1, word_of_nat wa)"
      "length d1 = length d" "geta (drop (unat i) d1) = Inr x"
    by blast
  have "unat (i + word_of_nat wa) + wb \<le> length d1"
       "unat (i + word_of_nat wa) + wb \<le> 2 ^ 16"
    using assms(1,2) d1(2) j by simp_all
  from b.put_get [OF this, of y] obtain d2
    where d2: "putb d1 (i + word_of_nat wa) y = Inr (d2, word_of_nat wb)"
      "length d2 = length d1" "getb (drop (unat i + wa) d2) = Inr y"
      "\<forall>k. k < unat i + wa \<or> unat i + wa + wb \<le> k \<longrightarrow> d2 ! k = d1 ! k"
    by (auto simp: j)
  have "geta (drop (unat i) d2) = geta (drop (unat i) d1)"
    by (rule a.get_frame) (use d1(2) d2(2,4) assms(1) in auto)
  with d1 d2 show ?thesis by auto
qed

end

section \<open>Octets and words\<close>

lemma ucast_or_bytes [word_facts]:
  "(ucast (ucast v :: u8) :: u16) OR push_bit 8 (ucast (ucast (drop_bit 8 v) :: u8)) = v" for v :: u16
  by (rule bit_word_eqI) (auto simp: bit_simps)

lemma hi8_packed [word_facts]:
  "hi8 (push_bit 8 (ucast a) OR ucast b) = a" "hi8 (push_bit 8 (ucast a)) = a" for a b :: u8
  unfolding hi8_def by (rule bit_word_eqI, auto simp: bit_simps bit_u8_ge)+

lemma lo8_packed [word_facts]:
  "lo8 (push_bit 8 (ucast a) OR ucast b) = b" "lo8 (push_bit 8 (ucast a)) = 0" for a b :: u8
  unfolding lo8_def and_0xff by (rule bit_word_eqI, auto simp: bit_simps)+

lemma ucast_or_words [word_facts]:
  "(ucast (ucast (ucast v :: u16) :: u8) AND 0xff) OR
   push_bit 8 (ucast (ucast (drop_bit 8 (ucast v :: u16)) :: u8) AND 0xff) OR
   push_bit 16 (ucast (ucast (ucast (drop_bit 16 v) :: u16) :: u8) AND 0xff) OR
   push_bit 24 (ucast (ucast (drop_bit 8 (ucast (drop_bit 16 v) :: u16)) :: u8) AND 0xff) = v"
  for v :: u32
  unfolding and_0xff
proof (rule bit_word_eqI)
  fix n
  assume "n < LENGTH(32)"
  then show "bit (take_bit 8 (ucast (ucast (ucast v :: u16) :: u8) :: u32) OR
      push_bit 8 (take_bit 8 (ucast (ucast (drop_bit 8 (ucast v :: u16)) :: u8))) OR
      push_bit 16 (take_bit 8 (ucast (ucast (ucast (drop_bit 16 v) :: u16) :: u8))) OR
      push_bit 24 (take_bit 8 (ucast (ucast (drop_bit 8 (ucast (drop_bit 16 v) :: u16)) :: u8)))) n =
    bit v n"
    by (cases "n < 8"; cases "n < 16"; cases "n < 24") (auto simp: bit_simps)
qed

section \<open>The setters are codecs of the stream readers\<close>

lemma Set1_Inr: "unat i < length d \<Longrightarrow> ByteUtilsSet1Byte d i v = Inr (d[unat i := v], 1)"
  by (simp add: ByteUtilsSet1Byte_def)

lemma Set2_Inr:
  "unat i + 1 < length d \<Longrightarrow>
   ByteUtilsSet2Bytes d i v = Inr (d[unat i := ucast (drop_bit 8 v), unat i + 1 := ucast v], 2)"
  by (simp add: ByteUtilsSet2Bytes_def)

lemma unat_add_2: "unat i + 4 \<le> 2 ^ 16 \<Longrightarrow> unat (i + 2) = unat i + 2" for i :: u16
  by (subst unat_add_lem [THEN iffD1]) auto

lemma Set4_Inr:
  assumes "unat i + 4 \<le> length d" and "unat i + 4 \<le> 2 ^ 16"
  shows "ByteUtilsSet4Bytes d i v = Inr (d[
     unat i := ucast (drop_bit 8 (ucast (drop_bit 16 v) :: u16)),
     unat i + 1 := ucast (ucast (drop_bit 16 v) :: u16),
     unat i + 2 := ucast (drop_bit 8 (ucast v :: u16)),
     unat i + 3 := ucast (ucast v :: u16)], 4)"
  using assms unat_add_2 [of i]
  by (simp add: ByteUtilsSet4Bytes_def Set2_Inr numeral_3_eq_3)

interpretation f1: field_codec ByteUtilsSet1Byte ByteUtilsGet1ByteFromStream 1
  by unfold_locales (auto simp: Set1_Inr ByteUtilsGet1ByteFromStream_def array_get_def)

interpretation f2: field_codec ByteUtilsSet2Bytes ByteUtilsGet2BytesFromStream 2
proof unfold_locales
  fix i :: u16 and d :: "u8 list" and v :: u16
  assume "unat i + 2 \<le> length d"
  then show "\<exists>d'. ByteUtilsSet2Bytes d i v = Inr (d', word_of_nat 2) \<and> length d' = length d \<and>
      (\<forall>k. k < unat i \<or> unat i + 2 \<le> k \<longrightarrow> d' ! k = d ! k) \<and>
      ByteUtilsGet2BytesFromStream (drop (unat i) d') = Inr v"
    by (simp add: Set2_Inr ByteUtilsGet2BytesFromStream_def word_facts)
next
  fix xs ys :: "u8 list"
  assume "2 \<le> length xs" "2 \<le> length ys" "\<forall>k < 2. xs ! k = ys ! k"
  then have "array_get xs k = array_get ys k" if "k < 2" for k
    using that by (simp add: array_get_def)
  then show "ByteUtilsGet2BytesFromStream xs = ByteUtilsGet2BytesFromStream ys"
    by (simp add: ByteUtilsGet2BytesFromStream_def)
qed

interpretation f4: field_codec ByteUtilsSet4Bytes ByteUtilsGet4BytesFromStream 4
proof unfold_locales
  fix i :: u16 and d :: "u8 list" and v :: u32
  assume "unat i + 4 \<le> length d" "unat i + 4 \<le> 2 ^ 16"
  then show "\<exists>d'. ByteUtilsSet4Bytes d i v = Inr (d', word_of_nat 4) \<and> length d' = length d \<and>
      (\<forall>k. k < unat i \<or> unat i + 4 \<le> k \<longrightarrow> d' ! k = d ! k) \<and>
      ByteUtilsGet4BytesFromStream (drop (unat i) d') = Inr v"
    using ucast_or_words [of v]
    by (simp add: Set4_Inr ByteUtilsGet4BytesFromStream_def)
next
  fix xs ys :: "u8 list"
  assume "4 \<le> length xs" "4 \<le> length ys" "\<forall>k < 4. xs ! k = ys ! k"
  then have "array_get xs k = array_get ys k" if "k < 4" for k
    using that by (simp add: array_get_def)
  then show "ByteUtilsGet4BytesFromStream xs = ByteUtilsGet4BytesFromStream ys"
    by (simp add: ByteUtilsGet4BytesFromStream_def)
qed

interpretation f24: field_pair ByteUtilsSet2Bytes ByteUtilsGet2BytesFromStream 2
  ByteUtilsSet4Bytes ByteUtilsGet4BytesFromStream 4
  by unfold_locales

section \<open>Packed strings\<close>

text \<open>The packed form of an octet string: two octets per word, the first in the high half.\<close>

fun packed :: "u8 list \<Rightarrow> u16 list" where
  "packed (a # b # cs) = (push_bit 8 (ucast a) OR ucast b) # packed cs"
| "packed [a] = [push_bit 8 (ucast a)]"
| "packed [] = []"

lemma length_packed: "length (packed cs) = (length cs + 1) div 2"
  by (induction cs rule: packed.induct) auto

lemma packed_nth:
  "i < length cs \<Longrightarrow>
   (if i mod 2 \<noteq> 0 then lo8 (packed cs ! (i div 2)) else hi8 (packed cs ! (i div 2))) = cs ! i"
proof (induction cs arbitrary: i rule: packed.induct)
  case (1 a b cs)
  show ?case
  proof (cases "i < 2")
    case True
    then have "i = 0 \<or> i = 1" by auto
    then show ?thesis by (auto simp: word_facts)
  next
    case False
    then obtain k where "i = Suc (Suc k)" by (metis add_2_eq_Suc le_Suc_ex not_less)
    with 1(1) [of k] 1(2) show ?thesis by (auto split: if_splits)
  qed
qed (auto simp: word_facts)

lemma pack_loop_packed:
  "si + n \<le> length src \<Longrightarrow> di + (n + 1) div 2 \<le> length dst \<Longrightarrow>
   pack_loop dst di src si n count =
     Inr (take di dst @ packed (take n (drop si src)) @ drop (di + (n + 1) div 2) dst,
          count + word_of_nat ((n + 1) div 2))"
proof (induction dst di src si n count rule: pack_loop.induct)
  case (1 dst di src si n count)
  have s: "drop si src = src ! si # src ! (si + 1) # drop (si + 2) src"
    using 1(2) by (simp add: Cons_nth_drop_Suc)
  have d: "take (Suc di) (dst[di := x]) = take di dst @ [x]"
       "drop (Suc di + k) (dst[di := x]) = drop (Suc di + k) dst" for x k
    using 1(3) by (simp_all add: take_Suc_conv_app_nth)
  have w: "word_of_nat (Suc k) = (1 + word_of_nat k :: u16)" for k by simp
  show ?case
    using 1 by (simp add: s d w add.assoc)
next
  case (2 dst di src si count)
  then have "take (Suc 0) (drop si src) = [src ! si]"
    by (simp add: take_Suc_conv_app_nth)
  moreover have "dst[di := x] = take di dst @ x # drop (Suc di) dst" for x
    using 2 by (simp add: upd_conv_take_nth_drop)
  ultimately show ?case using 2 by simp
qed simp

lemma MemCpyPackString_packed:
  assumes "unat sz \<le> length src" and "(unat sz + 1) div 2 \<le> length dst"
  shows "ByteUtilsMemCpyPackString dst src sz =
    Inr (packed (take (unat sz) src) @ drop ((unat sz + 1) div 2) dst,
         word_of_nat ((unat sz + 1) div 2))"
  using pack_loop_packed [of 0 "unat sz" src 0 dst 0] assms
  by (simp add: ByteUtilsMemCpyPackString_def)

lemma MemCpyUnpackString_unpacked:
  assumes "unat sz = length cs" and "length cs \<le> length dst"
  shows "ByteUtilsMemCpyUnpackString dst (packed cs @ rest) sz = Inr (cs @ drop (length cs) dst, sz)"
proof -
  have "for_res (\<lambda>i dst. res_bind (array_get (packed cs @ rest) (i div 2)) (\<lambda>w.
          array_set dst i (if i mod 2 \<noteq> 0 then lo8 w else hi8 w))) [0..<length cs] dst =
        Inr (map (\<lambda>i. cs ! i) [0..<length cs] @ drop (length cs) dst)"
  proof (rule for_res_fill)
    fix i and d' :: "u8 list"
    assume "i < length cs" "length d' = length dst"
    moreover from this have "i div 2 < length (packed cs)" by (auto simp: length_packed)
    ultimately show "res_bind (array_get (packed cs @ rest) (i div 2)) (\<lambda>w.
        array_set d' i (if i mod 2 \<noteq> 0 then lo8 w else hi8 w)) = Inr (d'[i := cs ! i])"
      using packed_nth [of i cs] assms(2) by (simp add: nth_append)
  qed (rule assms(2))
  then show ?thesis
    by (simp add: ByteUtilsMemCpyUnpackString_def assms(1) map_nth)
qed

section \<open>Bounded copy of a packed string\<close>

definition write_at :: "nat \<Rightarrow> 'a list \<Rightarrow> 'a list \<Rightarrow> 'a list" where
  "write_at di xs dst = take di dst @ xs @ drop (di + length xs) dst"

lemma write_at_Nil [simp]: "write_at di [] dst = dst"
  by (simp add: write_at_def)

lemma write_at_Cons: "di < length dst \<Longrightarrow> write_at (Suc di) xs (dst[di := x]) = write_at di (x # xs) dst"
  by (simp add: write_at_def take_Suc_conv_app_nth)

lemma write_at_single [simp]: "di < length dst \<Longrightarrow> write_at di [x] dst = dst[di := x]"
  using write_at_Cons [of di dst "[]" x] by simp

lemma store_char_in:
  "srclen < dstsize \<Longrightarrow> di < length dst \<Longrightarrow>
   store_char srclen dstsize x (dst, di) = Inr (dst[di := x], Suc di)"
  by (simp add: store_char_def)

lemma store_char_full: "\<not> srclen < dstsize \<Longrightarrow> store_char srclen dstsize x d = Inr d"
  by (cases d) (simp add: store_char_def)

lemma unat_plus_1: "unat x + 1 < 65536 \<Longrightarrow> unat (x + 1) = unat x + 1" for x :: u16
  by (subst unat_add_lem [THEN iffD1]) auto

text \<open>One guarded store, described by the number \<open>n\<close> of characters that still fit.\<close>

lemma store_char_step:
  assumes "n = unat dstsize - 1 - unat srclen" and "unat srclen + 1 < 65536"
    and "di + min (Suc k) n \<le> length dst"
  shows "store_char (srclen + 1) dstsize x (dst, di) =
     Inr (if 0 < n then (dst[di := x], Suc di) else (dst, di))"
  using assms unat_plus_1 [of srclen]
  by (auto simp: word_less_nat_alt store_char_in store_char_full)

lemma store_char_left:
  fixes srclen dstsize :: u16
  assumes "n = unat dstsize - 1 - unat srclen" and "unat srclen + 1 < 65536"
  shows "n - 1 = unat dstsize - 1 - unat (srclen + 1)"
  using assms unat_plus_1 [of srclen] by simp

lemma strlcpy_loop_copies:
  assumes "\<forall>c \<in> set cs. c \<noteq> 0" and "unat srclen + length cs < 65536"
    and "n = unat dstsize - 1 - unat srclen" and "di + min (length cs) n \<le> length dst"
  shows "strlcpy_loop (packed (cs @ [0]) @ rest) dstsize srclen (dst, di) =
    Inr ((write_at di (take n cs) dst, di + min (length cs) n), srclen + word_of_nat (length cs))"
  using assms
proof (induction cs arbitrary: srclen n dst di rule: packed.induct)
  case (1 a b cs)
  have l: "unat srclen + 1 < 65536" "unat (srclen + 1) + 1 < 65536"
    using 1(3) unat_plus_1 [of srclen] by auto
  have l2: "unat (srclen + 1 + 1) = unat srclen + 2" using unat_plus_1 [OF l(1)] unat_plus_1 [OF l(2)] by (simp only: numeral_2_eq_2)
  note s1 = store_char_step [OF 1(4) l(1), of di "Suc (length cs)" dst a]
  note left = store_char_left [OF 1(4) l(1)]
  let ?d1 = "if 0 < n then (dst[di := a], Suc di) else (dst, di)"
  let ?d2 = "if 0 < n - 1 then ((fst ?d1)[snd ?d1 := b], Suc (snd ?d1)) else ?d1"
  have s2: "store_char (srclen + 1 + 1) dstsize b ?d1 = Inr ?d2"
    using store_char_step [OF left l(2), of "snd ?d1" "length cs" "fst ?d1" b] 1(5) by auto
  have IH: "strlcpy_loop (packed (cs @ [0]) @ rest) dstsize (srclen + 1 + 1) (fst ?d2, snd ?d2) =
      Inr ((write_at (snd ?d2) (take (n - 2) cs) (fst ?d2), snd ?d2 + min (length cs) (n - 2)),
           srclen + 1 + 1 + word_of_nat (length cs))"
    using 1(2-5) l2 by (intro 1(1)) auto
  have n: "n = 0 \<or> n = 1 \<or> (\<exists>m. n = Suc (Suc m))" by (metis One_nat_def not0_implies_Suc)
  show ?case
    using 1(2,3,5) s1 s2 IH n
    by (auto simp: word_facts write_at_Cons add.assoc)
next
  case (2 a)
  then show ?case
    using store_char_step [OF 2(3), of di 0 dst a] by (auto simp: word_facts write_at_Cons [of di dst "[]"])
next
  case 3
  then show ?case by (simp add: hi8_def)
qed

section \<open>Properties\<close>

text \<open>
  C33. Message fields: a 16-bit and a 32-bit field written one after the other inside a
  buffer are both read back by the stream readers, and the setters return the field
  widths that advance the index.
\<close>

theorem stream_fields_roundtrip:
  assumes "unat i + 6 \<le> length d" and "unat i + 6 \<le> 2 ^ 16"
  shows "\<exists>d1 d2. ByteUtilsSet2Bytes d i x = Inr (d1, 2) \<and>
    ByteUtilsSet4Bytes d1 (i + 2) y = Inr (d2, 4) \<and> length d2 = length d \<and>
    ByteUtilsGet2BytesFromStream (drop (unat i) d2) = Inr x \<and>
    ByteUtilsGet4BytesFromStream (drop (unat i + 2) d2) = Inr y"
  using f24.pair_put_get [of i d x y] assms by simp

theorem stream_fields_roundtrip_witness:
  "\<exists>d1 d2. ByteUtilsSet2Bytes (replicate 7 0) 1 0x1234 = Inr (d1, 2) \<and>
    ByteUtilsSet4Bytes d1 3 0x89ABCDEF = Inr (d2, 4) \<and> length d2 = 7 \<and>
    ByteUtilsGet2BytesFromStream (drop 1 d2) = Inr 0x1234 \<and>
    ByteUtilsGet4BytesFromStream (drop 3 d2) = Inr 0x89ABCDEF"
  using stream_fields_roundtrip [of 1 "replicate 7 0" "0x1234" "0x89ABCDEF"]
  by (simp add: numeral_3_eq_3)

lemma Get2_swapped:
  "ucast (ucast (drop_bit 8 v) :: u8) OR push_bit 8 (ucast (ucast v :: u8)) = word_rotr 8 v"
  for v :: u16
proof (rule bit_word_eqI)
  fix n
  assume "n < LENGTH(16)"
  then have "(n + 8) mod 16 = (if n < 8 then n + 8 else n - 8)" by (auto simp: mod_if)
  with \<open>n < LENGTH(16)\<close>
  show "bit (ucast (ucast (drop_bit 8 v) :: u8) OR push_bit 8 (ucast (ucast v :: u8)) :: u16) n =
      bit (word_rotr 8 v) n"
    by (auto simp: bit_simps bit_word_rotr_iff add.commute)
qed

text \<open>
  The indexed reader is not the inverse of the indexed writer: in the build
  configuration of the headset \<open>ByteUtilsSet2Bytes\<close> stores the high octet first and
  \<open>ByteUtilsGet2Bytes\<close> reads the low octet first, so a value comes back with its octets
  exchanged.
\<close>

theorem set2_get2_swaps:
  assumes "unat i + 1 < length d"
  shows "\<exists>d'. ByteUtilsSet2Bytes d i v = Inr (d', 2) \<and>
    ByteUtilsGet2Bytes d' i = Inr (word_rotr 8 v, 2)"
  using assms Get2_swapped [of v] by (simp add: Set2_Inr ByteUtilsGet2Bytes_def)

theorem set2_get2_swaps_witness:
  "\<exists>d'. ByteUtilsSet2Bytes [0, 0] 0 0x1234 = Inr (d', 2) \<and>
    ByteUtilsGet2Bytes d' 0 = Inr (word_rotr 8 0x1234, 2)"
  using set2_get2_swaps [of 0 "[0, 0]" "0x1234"] by simp

text \<open>
  Packing and unpacking: packing \<open>sz\<close> octets reports the number of words written,
  and unpacking the same number of octets restores them and leaves the rest of the
  destination alone.
\<close>

theorem pack_unpack_roundtrip:
  assumes "unat sz \<le> length src" and "(unat sz + 1) div 2 \<le> length words"
    and "unat sz \<le> length dst"
  shows "\<exists>words'. ByteUtilsMemCpyPackString words src sz =
      Inr (words', word_of_nat ((unat sz + 1) div 2)) \<and>
    ByteUtilsMemCpyUnpackString dst words' sz =
      Inr (take (unat sz) src @ drop (unat sz) dst, sz)"
  using MemCpyPackString_packed [OF assms(1,2)]
    MemCpyUnpackString_unpacked [of sz "take (unat sz) src" dst] assms by simp

theorem pack_unpack_roundtrip_witness:
  "\<exists>words'. ByteUtilsMemCpyPackString [0, 0, 0] [1, 2, 3] 3 = Inr (words', 2) \<and>
    ByteUtilsMemCpyUnpackString [0, 0, 0, 9] words' 3 = Inr ([1, 2, 3, 9], 3)"
  using pack_unpack_roundtrip [of 3 "[1, 2, 3]" "[0, 0, 0]" "[0, 0, 0, 9]"] by simp

text \<open>
  Bounded unpacking copy: for a packed, zero-terminated string and a destination of
  the stated size, the copy stores the characters that fit and a terminating zero,
  touches nothing behind it, and returns the full length of the source so that the caller
  can detect truncation.
\<close>

theorem strlcpy_unpack_bounded:
  assumes "\<forall>c \<in> set cs. c \<noteq> 0" and "length cs < 65536"
    and "0 < unat dstsize" and "unat dstsize \<le> length dst"
  shows "ByteUtilsStrLCpyUnpack dst (packed (cs @ [0]) @ rest) dstsize =
    Inr (write_at 0 (take (unat dstsize - 1) cs @ [0]) dst, word_of_nat (length cs))"
proof -
  have "strlcpy_loop (packed (cs @ [0]) @ rest) dstsize 0 (dst, 0) =
      Inr ((write_at 0 (take (unat dstsize - 1) cs) dst, min (length cs) (unat dstsize - 1)),
           word_of_nat (length cs))"
    using strlcpy_loop_copies [of cs 0 "unat dstsize - 1" dstsize 0 dst rest] assms by auto
  moreover have "dstsize \<noteq> 0" using assms(3) by auto
  ultimately show ?thesis
    using assms
    by (simp add: ByteUtilsStrLCpyUnpack_def write_at_def list_update_append
        Cons_nth_drop_Suc [symmetric] min_def)
qed

theorem strlcpy_unpack_bounded_witness:
  "ByteUtilsStrLCpyUnpack [9, 9, 9, 9, 9] (packed ([1, 2, 3, 4, 5] @ [0]) @ []) 4 =
     Inr ([1, 2, 3, 0, 9], 5)"
  using strlcpy_unpack_bounded [of "[1, 2, 3, 4, 5]" 4 "[9, 9, 9, 9, 9]" "[]"]
  by (simp add: write_at_def)

end
