(* ===== verification/Rules_Engine.thy ===== *)
theory Rules_Engine
  imports Task_List
begin

text \<open>
  The rules engine (\<^verbatim>\<open>adk/src/common/rules_engine/rules_engine.c\<close>): a table of rules, each
  triggered by a set of events, and the status of every rule. A rule is application code: a
  function of the state \<open>'w\<close> of the rest of the system that returns the new state, an
  action and the parameters it left with \<open>RulesEngine_CopyRunParams\<close>, if any. The engine's
  messages are returned as a list.
\<close>

section \<open>Model\<close>

datatype rule_status =
    rule_status_not_done
  | rule_status_ignored
  | rule_status_in_progress
  | rule_status_complete
  | rule_status_deferred

datatype rule_action =
    rule_action_run
  | rule_action_complete
  | rule_action_ignore
  | rule_action_defer
  | rule_action_run_with_param

datatype rule_flags = rule_flag_no_flags | rule_flag_always_evaluate | rule_flag_progress_matters

abbreviation RULE_EVENT_ALL_EVENTS_MASK :: u64 where
  "RULE_EVENT_ALL_EVENTS_MASK \<equiv> 0xFFFFFFFFFFFFFFFF"

record 'w rule_entry =
  entry_events :: u64
  flags :: rule_flags
  rule :: "'w \<Rightarrow> 'w \<times> rule_action \<times> u8 list option"
  message :: message_id

record 'w rule_set =
  events :: u64
  rules :: "'w rule_entry list"
  rules_state :: "rule_status list"
  rule_message_data :: "u8 list option"
  size_rule_message_data :: nat
  event_task :: task
  nop_tasks :: task_list
  nop_message_id :: message_id

datatype rule_output =
    MessageSend task message_id "u8 list option"
  | NopSend "unit task_list_send"

text \<open>Rules are numbered by their position; the state array has the length of the table.\<close>

definition RulesEngine_SetRuleStatus ::
  "'w rule_entry \<Rightarrow> nat \<Rightarrow> rule_status \<Rightarrow> rule_status list \<Rightarrow> rule_status list res" where
  "RulesEngine_SetRuleStatus r i new_status sts =
     (if flags r = rule_flag_always_evaluate then Inl Panic else array_set sts i new_status)"

definition RulesEngine_ResetEvent :: "'w rule_set \<Rightarrow> u64 \<Rightarrow> 'w rule_set res" where
  "RulesEngine_ResetEvent rs event =
     res_bind
       (for_res (\<lambda>i sts.
            if entry_events (rules rs ! i) AND event \<noteq> 0 \<and>
               flags (rules rs ! i) \<noteq> rule_flag_always_evaluate
            then RulesEngine_SetRuleStatus (rules rs ! i) i rule_status_not_done sts
            else Inr sts)
          [0..<length (rules rs)] (rules_state rs))
       (\<lambda>sts. Inr (rs\<lparr>events := events rs AND NOT event, rules_state := sts\<rparr>))"

text \<open>The first loop of \<open>RulesEngine_UpdateRuleStatus\<close>: statuses, event mask, result.\<close>

definition update_step ::
  "'w rule_set \<Rightarrow> message_id \<Rightarrow> rule_status \<Rightarrow> rule_status \<Rightarrow> u64 \<Rightarrow> nat \<Rightarrow>
   rule_status list \<times> u64 \<times> bool \<Rightarrow> (rule_status list \<times> u64 \<times> bool) res" where
  "update_step rs mid status new_status event i = (\<lambda>(sts, emask, did).
     res_bind (array_get sts i) (\<lambda>st.
       if message (rules rs ! i) = mid \<and> st = status \<and> entry_events (rules rs ! i) AND event \<noteq> 0 then
         res_bind (RulesEngine_SetRuleStatus (rules rs ! i) i new_status sts) (\<lambda>sts'.
           Inr (sts', emask OR entry_events (rules rs ! i), True))
       else Inr (sts, emask, did)))"

text \<open>The second loop, which keeps the events whose rules are all complete.\<close>

definition completed_mask :: "'w rule_set \<Rightarrow> u64 \<Rightarrow> rule_status list \<Rightarrow> u64 \<Rightarrow> u64 res" where
  "completed_mask rs event sts emask =
     for_res (\<lambda>i emask. res_bind (array_get sts i) (\<lambda>st.
         Inr (if entry_events (rules rs ! i) AND event \<noteq> 0 \<and> st \<noteq> rule_status_complete
              then emask AND NOT (entry_events (rules rs ! i)) else emask)))
       [0..<length (rules rs)] emask"

definition RulesEngine_UpdateRuleStatus ::
  "'w rule_set \<Rightarrow> message_id \<Rightarrow> rule_status \<Rightarrow> rule_status \<Rightarrow> u64 \<Rightarrow> ('w rule_set \<times> bool) res" where
  "RulesEngine_UpdateRuleStatus rs mid status new_status event =
     res_bind (for_res (update_step rs mid status new_status event)
                 [0..<length (rules rs)] (rules_state rs, 0, False)) (\<lambda>(sts, emask, did).
     res_bind (completed_mask rs event sts emask) (\<lambda>emask'.
       let rs' = rs\<lparr>rules_state := sts\<rparr> in
       if emask' \<noteq> 0 then res_bind (RulesEngine_ResetEvent rs' emask') (\<lambda>rs''. Inr (rs'', did))
       else Inr (rs', did)))"

definition RulesEngine_CopyRunParams :: "'w rule_set \<Rightarrow> u8 list \<Rightarrow> 'w rule_set res" where
  "RulesEngine_CopyRunParams rs param =
     (if rule_message_data rs \<noteq> None then Inl Panic
      else Inr (rs\<lparr>rule_message_data := Some param, size_rule_message_data := length param\<rparr>))"

definition RulesEngine_RunRule :: "'w rule_set \<Rightarrow> 'w \<Rightarrow> nat \<Rightarrow> ('w rule_set \<times> 'w \<times> rule_action) res" where
  "RulesEngine_RunRule rs w rule_index =
     (case rule (rules rs ! rule_index) w of
        (w', action, None) \<Rightarrow> Inr (rs, w', action)
      | (w', action, Some param) \<Rightarrow>
          res_bind (RulesEngine_CopyRunParams rs param) (\<lambda>rs'. Inr (rs', w', action)))"

text \<open>Sending the message of a rule that asked to run.\<close>

definition send_rule_message ::
  "'w rule_set \<Rightarrow> 'w rule_entry \<Rightarrow> rule_action \<Rightarrow> ('w rule_set \<times> rule_output list) res" where
  "send_rule_message rs r action =
     (if action = rule_action_run then
        res_bind (panic_unless (size_rule_message_data rs = 0)) (\<lambda>_.
        res_bind (panic_unless (rule_message_data rs = None)) (\<lambda>_.
          Inr (rs, [MessageSend (event_task rs) (message r) None])))
      else
        res_bind (panic_unless (size_rule_message_data rs \<noteq> 0)) (\<lambda>_.
        res_bind (panic_unless (rule_message_data rs \<noteq> None)) (\<lambda>_.
          Inr (rs\<lparr>rule_message_data := None, size_rule_message_data := 0\<rparr>,
               [MessageSend (event_task rs) (message r) (rule_message_data rs)]))))"

text \<open>What the loop of \<open>RulesEngine_RunRules\<close> does with the action of a rule.\<close>

definition handle_action ::
  "'w rule_set \<Rightarrow> nat \<Rightarrow> rule_action \<Rightarrow> u64 \<Rightarrow> ('w rule_set \<times> u64 \<times> rule_output list) res" where
  "handle_action rs i action evs =
     (let r = rules rs ! i; always = (flags r = rule_flag_always_evaluate) in
      case action of
        rule_action_defer \<Rightarrow>
          res_bind (RulesEngine_SetRuleStatus r i rule_status_deferred (rules_state rs)) (\<lambda>sts.
            Inr (rs\<lparr>rules_state := sts\<rparr>, evs, []))
      | rule_action_complete \<Rightarrow>
          if always then Inr (rs, evs, [])
          else res_bind (RulesEngine_UpdateRuleStatus rs (message r) (rules_state rs ! i)
                          rule_status_complete (entry_events r)) (\<lambda>(rs', _). Inr (rs', evs, []))
      | rule_action_ignore \<Rightarrow>
          if always then Inr (rs, evs, [])
          else res_bind (RulesEngine_UpdateRuleStatus rs (message r) (rules_state rs ! i)
                          rule_status_complete (entry_events r)) (\<lambda>(rs', _). Inr (rs', evs, []))
      | _ \<Rightarrow>
          res_bind (if always then Inr (rules_state rs)
                    else RulesEngine_SetRuleStatus r i rule_status_in_progress (rules_state rs)) (\<lambda>sts.
          res_bind (send_rule_message (rs\<lparr>rules_state := sts\<rparr>) r action) (\<lambda>(rs', out).
            Inr (rs', if always then evs else evs AND NOT (entry_events r), out))))"

definition run_rules_step ::
  "nat \<Rightarrow> 'w rule_set \<times> 'w \<times> u64 \<times> rule_output list \<Rightarrow>
   ('w rule_set \<times> 'w \<times> u64 \<times> rule_output list) res" where
  "run_rules_step i = (\<lambda>(rs, w, evs, out).
     let r = rules rs ! i in
     if entry_events r AND evs = entry_events r \<or> flags r = rule_flag_always_evaluate then
       res_bind (array_get (rules_state rs) i) (\<lambda>st.
         if st = rule_status_complete then Inr (rs, w, evs, out)
         else if st = rule_status_in_progress then Inr (rs, w, evs AND NOT (entry_events r), out)
         else
           res_bind (RulesEngine_RunRule rs w i) (\<lambda>(rs1, w', action).
           res_bind (handle_action rs1 i action evs) (\<lambda>(rs2, evs', o2).
             Inr (rs2, w', evs', out @ o2))))
     else Inr (rs, w, evs, out))"

definition RulesEngine_RunRules :: "'w rule_set \<Rightarrow> 'w \<Rightarrow> ('w rule_set \<times> 'w \<times> rule_output list) res" where
  "RulesEngine_RunRules rs w =
     res_bind (for_res run_rules_step [0..<length (rules rs)] (rs, w, events rs, []))
       (\<lambda>(rs', w', _, out). Inr (rs', w', out))"

definition RulesEngine_Check :: "'w rule_set \<Rightarrow> 'w \<Rightarrow> ('w rule_set \<times> 'w \<times> rule_output list) res" where
  "RulesEngine_Check rs w = RulesEngine_RunRules rs w"

definition RulesEngine_CreateRuleSet ::
  "'w rule_entry list \<Rightarrow> message_id \<Rightarrow> task \<Rightarrow> 'w rule_set res" where
  "RulesEngine_CreateRuleSet rules_table nop_id etask =
     res_bind (panic_unless (etask \<noteq> 0)) (\<lambda>_.
     res_bind TaskList_Initialise (\<lambda>tl.
       Inr \<lparr>events = 0, rules = rules_table,
            rules_state = replicate (length rules_table) rule_status_not_done,
            rule_message_data = None, size_rule_message_data = 0, event_task = etask,
            nop_tasks = tl, nop_message_id = nop_id\<rparr>))"

definition RulesEngine_DestroyRuleSet :: "'w rule_set \<Rightarrow> unit res" where
  "RulesEngine_DestroyRuleSet rs =
     res_bind (TaskList_RemoveAllTasks (Some (nop_tasks rs))) (\<lambda>_. Inr ())"

definition RulesEngine_SetEvent :: "'w rule_set \<Rightarrow> 'w \<Rightarrow> u64 \<Rightarrow> ('w rule_set \<times> 'w \<times> rule_output list) res" where
  "RulesEngine_SetEvent rs w event_mask =
     RulesEngine_Check (rs\<lparr>events := events rs OR event_mask\<rparr>) w"

definition RulesEngine_GetEvents :: "'w rule_set \<Rightarrow> u64" where
  "RulesEngine_GetEvents rs = events rs"

definition RulesEngine_InProgress :: "'w rule_set \<Rightarrow> bool res" where
  "RulesEngine_InProgress rs =
     for_res (\<lambda>i rc. res_bind (array_get (rules_state rs) i) (\<lambda>st.
         Inr (if flags (rules rs ! i) = rule_flag_progress_matters \<and> st = rule_status_in_progress
              then True else rc)))
       [0..<length (rules rs)] False"

definition RulesEngine_SetRuleWithEventComplete ::
  "'w rule_set \<Rightarrow> 'w \<Rightarrow> message_id \<Rightarrow> u64 \<Rightarrow> ('w rule_set \<times> 'w \<times> rule_output list) res" where
  "RulesEngine_SetRuleWithEventComplete rs w mid event =
     res_bind (RulesEngine_UpdateRuleStatus rs mid rule_status_in_progress rule_status_complete event)
       (\<lambda>(rs1, did).
     res_bind
       (if did then
          res_bind (RulesEngine_InProgress rs1) (\<lambda>busy.
            if \<not> busy then res_bind (TaskList_MessageSendId (nop_tasks rs1) (nop_message_id rs1))
                             (\<lambda>sends. Inr (map NopSend sends))
            else Inr [])
        else Inr []) (\<lambda>nops.
     res_bind (RulesEngine_Check rs1 w) (\<lambda>(rs2, w', out). Inr (rs2, w', nops @ out))))"

definition RulesEngine_SetRuleComplete ::
  "'w rule_set \<Rightarrow> 'w \<Rightarrow> message_id \<Rightarrow> ('w rule_set \<times> 'w \<times> rule_output list) res" where
  "RulesEngine_SetRuleComplete rs w mid =
     RulesEngine_SetRuleWithEventComplete rs w mid RULE_EVENT_ALL_EVENTS_MASK"

definition RulesEngine_NopClientRegister :: "'w rule_set \<Rightarrow> task \<Rightarrow> 'w rule_set res" where
  "RulesEngine_NopClientRegister rs t =
     res_bind (TaskList_AddTask (Some (nop_tasks rs)) t) (\<lambda>(l, _). Inr (rs\<lparr>nop_tasks := l\<rparr>))"

section \<open>Statuses\<close>

lemma ResetEvent_eq:
  assumes "length (rules_state rs) = length (rules rs)"
  shows "RulesEngine_ResetEvent rs event = Inr (rs\<lparr>events := events rs AND NOT event,
    rules_state := map (\<lambda>i. if entry_events (rules rs ! i) AND event \<noteq> 0 \<and>
        flags (rules rs ! i) \<noteq> rule_flag_always_evaluate
      then rule_status_not_done else rules_state rs ! i) [0..<length (rules rs)]\<rparr>)"
proof -
  let ?n = "length (rules rs)"
  let ?g = "\<lambda>i. if entry_events (rules rs ! i) AND event \<noteq> 0 \<and>
        flags (rules rs ! i) \<noteq> rule_flag_always_evaluate
      then rule_status_not_done else rules_state rs ! i"
  have "for_res (\<lambda>i sts. if entry_events (rules rs ! i) AND event \<noteq> 0 \<and>
               flags (rules rs ! i) \<noteq> rule_flag_always_evaluate
            then RulesEngine_SetRuleStatus (rules rs ! i) i rule_status_not_done sts
            else Inr sts) [0..<?n] (rules_state rs) = Inr (map ?g [0..<?n] @ drop ?n (rules_state rs))"
    by (rule for_res_fill) (use assms in \<open>auto simp: RulesEngine_SetRuleStatus_def intro: list_update_nth_same\<close>)
  with assms show ?thesis by (simp add: RulesEngine_ResetEvent_def)
qed

text \<open>
  The statuses of a well-formed set: one per rule, and the rules that are always evaluated
  are never marked.
\<close>

definition statuses_ok :: "'w rule_entry list \<Rightarrow> rule_status list \<Rightarrow> bool" where
  "statuses_ok rls sts \<longleftrightarrow> length sts = length rls \<and>
     (\<forall>i < length rls. flags (rls ! i) = rule_flag_always_evaluate \<longrightarrow> sts ! i = rule_status_not_done)"

definition rs_ok :: "'w rule_set \<Rightarrow> bool" where
  "rs_ok rs \<longleftrightarrow> statuses_ok (rules rs) (rules_state rs) \<and> rule_message_data rs = None \<and>
     size_rule_message_data rs = 0 \<and> tl_ok (nop_tasks rs)"

text \<open>What no operation of the engine changes.\<close>

definition same_table :: "'w rule_set \<Rightarrow> 'w rule_set \<Rightarrow> bool" where
  "same_table rs rs' \<longleftrightarrow> rules rs' = rules rs \<and> event_task rs' = event_task rs \<and>
     nop_tasks rs' = nop_tasks rs \<and> nop_message_id rs' = nop_message_id rs"

lemma ResetEvent_ok:
  assumes "rs_ok rs"
  shows "\<exists>rs'. RulesEngine_ResetEvent rs event = Inr rs' \<and> rs_ok rs' \<and> same_table rs rs' \<and>
    events rs' = events rs AND NOT event"
  using assms ResetEvent_eq [of rs event] by (auto simp: rs_ok_def statuses_ok_def same_table_def)

lemma Update_ok:
  assumes "rs_ok rs"
    and "\<forall>i < length (rules rs). flags (rules rs ! i) = rule_flag_always_evaluate \<longrightarrow>
           message (rules rs ! i) \<noteq> mid \<or> status \<noteq> rule_status_not_done"
  shows "\<exists>rs' did. RulesEngine_UpdateRuleStatus rs mid status new_status event = Inr (rs', did) \<and>
    rs_ok rs' \<and> same_table rs rs'"
proof -
  let ?n = "length (rules rs)"
  let ?P = "\<lambda>(sts, emask, did). statuses_ok (rules rs) sts"
  have "\<exists>t. for_res (update_step rs mid status new_status event) [0..<?n] (rules_state rs, 0, False) = Inr t \<and> ?P t"
  proof (rule for_res_total [of ?P])
    show "?P (rules_state rs, 0, False)" using assms(1) by (simp add: rs_ok_def)
  next
    fix i and t :: "rule_status list \<times> u64 \<times> bool"
    assume "i \<in> set [0..<?n]" "?P t"
    then show "\<exists>t'. update_step rs mid status new_status event i t = Inr t' \<and> ?P t'"
      using assms(2)
      by (auto simp: update_step_def RulesEngine_SetRuleStatus_def statuses_ok_def nth_list_update
          split: prod.splits)
  qed
  then obtain sts emask did where u: "for_res (update_step rs mid status new_status event) [0..<?n]
      (rules_state rs, 0, False) = Inr (sts, emask, did)" "statuses_ok (rules rs) sts"
    by auto
  have "\<exists>m. completed_mask rs event sts emask = Inr m \<and> True"
    unfolding completed_mask_def using u(2)
    by (intro for_res_total) (auto simp: statuses_ok_def)
  then obtain m where m: "completed_mask rs event sts emask = Inr m" by blast
  have ok: "rs_ok (rs\<lparr>rules_state := sts\<rparr>)" using assms(1) u(2) by (simp add: rs_ok_def)
  show ?thesis
  proof (cases "m = 0")
    case True
    with u m ok show ?thesis by (simp add: RulesEngine_UpdateRuleStatus_def same_table_def)
  next
    case False
    with u m ResetEvent_ok [OF ok, of m] show ?thesis
      by (auto simp: RulesEngine_UpdateRuleStatus_def same_table_def)
  qed
qed

section \<open>A pass over the rules\<close>

text \<open>
  What the engine relies on from the rules of the application: parameters are left if and
  only if the rule asks to run with parameters, and they are not empty; a rule that is
  always evaluated does not defer and shares its message with no other kind of rule.
\<close>

definition rule_protocol :: "'w rule_entry \<Rightarrow> bool" where
  "rule_protocol r \<longleftrightarrow> (\<forall>w. case rule r w of (_, action, param) \<Rightarrow>
     (if action = rule_action_run_with_param then \<exists>bs. param = Some bs \<and> bs \<noteq> [] else param = None) \<and>
     (flags r = rule_flag_always_evaluate \<longrightarrow> action \<noteq> rule_action_defer))"

definition table_ok :: "'w rule_entry list \<Rightarrow> bool" where
  "table_ok rls \<longleftrightarrow> (\<forall>r \<in> set rls. rule_protocol r) \<and>
     (\<forall>r \<in> set rls. \<forall>r' \<in> set rls. flags r = rule_flag_always_evaluate \<longrightarrow>
        flags r' \<noteq> rule_flag_always_evaluate \<longrightarrow> message r \<noteq> message r')"

lemma RunRule_ok:
  assumes "rs_ok rs" and "rule_protocol (rules rs ! i)"
  obtains w' action param where
    "RulesEngine_RunRule rs w i = Inr (rs\<lparr>rule_message_data := param,
       size_rule_message_data := (case param of None \<Rightarrow> 0 | Some bs \<Rightarrow> length bs)\<rparr>, w', action)"
    "if action = rule_action_run_with_param then \<exists>bs. param = Some bs \<and> bs \<noteq> [] else param = None"
    "flags (rules rs ! i) = rule_flag_always_evaluate \<Longrightarrow> action \<noteq> rule_action_defer"
proof -
  obtain w' action param where r: "rule (rules rs ! i) w = (w', action, param)" by (metis prod_cases3)
  have same: "rs\<lparr>rule_message_data := None, size_rule_message_data := 0\<rparr> = rs"
    using assms(1) by (cases rs) (simp add: rs_ok_def)
  show thesis
  proof (rule that)
    show "RulesEngine_RunRule rs w i = Inr (rs\<lparr>rule_message_data := param,
       size_rule_message_data := (case param of None \<Rightarrow> 0 | Some bs \<Rightarrow> length bs)\<rparr>, w', action)"
      using assms(1) r same
      by (auto simp: RulesEngine_RunRule_def RulesEngine_CopyRunParams_def rs_ok_def split: option.splits)
  qed (use assms(2) r in \<open>auto simp: rule_protocol_def split: prod.splits\<close>)
qed

lemma rs_ok_status:
  "rs_ok rs \<Longrightarrow> i < length (rules rs) \<Longrightarrow> flags (rules rs ! i) \<noteq> rule_flag_always_evaluate \<Longrightarrow>
   rs_ok (rs\<lparr>rules_state := (rules_state rs)[i := st]\<rparr>)"
  by (auto simp: rs_ok_def statuses_ok_def nth_list_update)

lemma handle_action_ok:
  assumes "rs_ok rs" and "table_ok (rules rs)" and "i < length (rules rs)"
    and "if action = rule_action_run_with_param then \<exists>bs. param = Some bs \<and> bs \<noteq> [] else param = None"
    and "flags (rules rs ! i) = rule_flag_always_evaluate \<Longrightarrow> action \<noteq> rule_action_defer"
  shows "\<exists>rs' evs' out. handle_action (rs\<lparr>rule_message_data := param,
       size_rule_message_data := (case param of None \<Rightarrow> 0 | Some bs \<Rightarrow> length bs)\<rparr>) i action evs =
       Inr (rs', evs', out) \<and> rs_ok rs' \<and> same_table rs rs'"
proof -
  have len: "length (rules_state rs) = length (rules rs)" using assms(1) by (simp add: rs_ok_def statuses_ok_def)
  have same: "rs\<lparr>rule_message_data := None, size_rule_message_data := 0\<rparr> = rs"
    using assms(1) by (cases rs) (simp add: rs_ok_def)
  have upd: "\<exists>rs' did. RulesEngine_UpdateRuleStatus rs (message (rules rs ! i)) (rules_state rs ! i)
      rule_status_complete (entry_events (rules rs ! i)) = Inr (rs', did) \<and> rs_ok rs' \<and> same_table rs rs'"
    if "flags (rules rs ! i) \<noteq> rule_flag_always_evaluate"
    using assms(1-3) that by (intro Update_ok) (auto simp: table_ok_def)
  show ?thesis
  proof (cases action)
    case rule_action_run
    with assms len same rs_ok_status [OF assms(1,3), of rule_status_in_progress] show ?thesis
      by (auto simp: handle_action_def Let_def send_rule_message_def RulesEngine_SetRuleStatus_def
          same_table_def rs_ok_def)
  next
    case rule_action_run_with_param
    with assms len rs_ok_status [OF assms(1,3), of rule_status_in_progress] show ?thesis
      by (auto simp: handle_action_def Let_def send_rule_message_def RulesEngine_SetRuleStatus_def
          same_table_def rs_ok_def)
  next
    case rule_action_defer
    with assms len same rs_ok_status [OF assms(1,3), of rule_status_deferred] show ?thesis
      by (auto simp: handle_action_def Let_def RulesEngine_SetRuleStatus_def same_table_def)
  next
    case rule_action_complete
    with assms same upd show ?thesis
      by (cases "flags (rules rs ! i) = rule_flag_always_evaluate")
        (auto simp: handle_action_def Let_def same_table_def)
  next
    case rule_action_ignore
    with assms same upd show ?thesis
      by (cases "flags (rules rs ! i) = rule_flag_always_evaluate")
        (auto simp: handle_action_def Let_def same_table_def)
  qed
qed

lemma run_rules_step_ok:
  assumes "rs_ok rs" and "table_ok (rules rs)" and "i < length (rules rs)"
  shows "\<exists>rs' w' evs' out'. run_rules_step i (rs, w, evs, out) = Inr (rs', w', evs', out') \<and>
    rs_ok rs' \<and> same_table rs rs'"
proof -
  have len: "i < length (rules_state rs)" using assms(1,3) by (simp add: rs_ok_def statuses_ok_def)
  have "rule_protocol (rules rs ! i)" using assms(2,3) by (simp add: table_ok_def)
  from RunRule_ok [OF assms(1) this, of w] obtain w' action param where
    r: "RulesEngine_RunRule rs w i = Inr (rs\<lparr>rule_message_data := param,
       size_rule_message_data := (case param of None \<Rightarrow> 0 | Some bs \<Rightarrow> length bs)\<rparr>, w', action)"
    "if action = rule_action_run_with_param then \<exists>bs. param = Some bs \<and> bs \<noteq> [] else param = None"
    "flags (rules rs ! i) = rule_flag_always_evaluate \<Longrightarrow> action \<noteq> rule_action_defer"
    by blast
  from handle_action_ok [OF assms r(2,3), of evs] show ?thesis
    using r(1) len assms(1) by (auto simp: run_rules_step_def Let_def same_table_def)
qed

lemma RunRules_ok:
  assumes "rs_ok rs" and "table_ok (rules rs)"
  shows "\<exists>rs' w' out. RulesEngine_RunRules rs w = Inr (rs', w', out) \<and> rs_ok rs' \<and> same_table rs rs'"
proof -
  let ?P = "\<lambda>(rs', _ :: 'a, _ :: u64, _ :: rule_output list). rs_ok rs' \<and> same_table rs rs'"
  have "\<exists>t. for_res run_rules_step [0..<length (rules rs)] (rs, w, events rs, []) = Inr t \<and> ?P t"
  proof (rule for_res_total [of ?P])
    show "?P (rs, w, events rs, [])" using assms(1) by (simp add: same_table_def)
  next
    fix i and t :: "'a rule_set \<times> 'a \<times> u64 \<times> rule_output list"
    assume i: "i \<in> set [0..<length (rules rs)]" and t: "?P t"
    obtain rs1 w1 e1 o1 where tt: "t = (rs1, w1, e1, o1)" by (cases t) auto
    with i t assms(2) have "rs_ok rs1" "table_ok (rules rs1)" "i < length (rules rs1)"
      by (auto simp: same_table_def)
    from run_rules_step_ok [OF this, of w1 e1 o1] t tt
    show "\<exists>t'. run_rules_step i t = Inr t' \<and> ?P t'" by (fastforce simp: same_table_def)
  qed
  then show ?thesis by (auto simp: RulesEngine_RunRules_def)
qed

section \<open>Which statuses change\<close>

text \<open>Each status is kept, or was the old one of a rule with the message and became the new one.\<close>

lemma update_loop:
  assumes "for_res (update_step rs mid status new_status event) [0..<length (rules rs)]
      (rules_state rs, 0, False) = Inr (sts, emask, did)"
    and "length (rules_state rs) = length (rules rs)" and "new_status \<noteq> status"
  shows "length sts = length (rules rs) \<and> (\<forall>i < length (rules rs). sts ! i = rules_state rs ! i \<or>
    sts ! i = new_status \<and> message (rules rs ! i) = mid \<and> rules_state rs ! i = status)"
proof -
  let ?P = "\<lambda>(sts, _ :: u64, _ :: bool). length sts = length (rules rs) \<and>
    (\<forall>i < length (rules rs). sts ! i = rules_state rs ! i \<or>
      sts ! i = new_status \<and> message (rules rs ! i) = mid \<and> rules_state rs ! i = status)"
  have "?P (sts, emask, did)"
  proof (rule for_res_invariant [OF assms(1), of ?P])
    show "?P (rules_state rs, 0, False)" using assms(2) by simp
  next
    fix i and t t' :: "rule_status list \<times> u64 \<times> bool"
    assume "i \<in> set [0..<length (rules rs)]" "?P t" "update_step rs mid status new_status event i t = Inr t'"
    with assms(3) show "?P t'"
      by (auto simp: update_step_def RulesEngine_SetRuleStatus_def res_simps nth_list_update
          split: prod.splits if_splits)
  qed
  then show ?thesis by simp
qed

lemma completed_mask_bit:
  assumes "completed_mask rs event sts emask = Inr m" and "bit m b" and "i < length (rules rs)"
    and "entry_events (rules rs ! i) AND event \<noteq> 0" and "sts ! i \<noteq> rule_status_complete"
  shows "\<not> bit (entry_events (rules rs ! i)) b"
proof -
  let ?f = "\<lambda>i emask. res_bind (array_get sts i) (\<lambda>st.
         Inr (if entry_events (rules rs ! i) AND event \<noteq> 0 \<and> st \<noteq> rule_status_complete
              then emask AND NOT (entry_events (rules rs ! i)) else emask))"
  have "for_res ?f [0..<n] emask = Inr m \<Longrightarrow> bit m b \<Longrightarrow> i < n \<Longrightarrow> \<not> bit (entry_events (rules rs ! i)) b"
    for n m
  proof (induction n arbitrary: m)
    case 0
    then show ?case by simp
  next
    case (Suc n)
    from Suc.prems(1) obtain m1 where m1: "for_res ?f [0..<n] emask = Inr m1" "?f n m1 = Inr m"
      by (auto simp: for_res_append res_simps)
    show ?case
    proof (cases "i = n")
      case True
      with m1(2) Suc.prems(2) assms(4,5) show ?thesis
        by (auto simp: res_simps bit_simps split: if_splits)
    next
      case False
      moreover have "bit m1 b" using m1(2) Suc.prems(2) by (auto simp: res_simps bit_simps split: if_splits)
      ultimately show ?thesis using Suc.IH [OF m1(1)] Suc.prems(3) by simp
    qed
  qed
  with assms(1-3) show ?thesis by (simp add: completed_mask_def)
qed

lemma Update_result:
  assumes "RulesEngine_UpdateRuleStatus rs mid status new_status event = Inr (rs', did)"
    and "length (rules_state rs) = length (rules rs)" and "new_status \<noteq> status"
  obtains sts emask m where
    "length sts = length (rules rs)"
    "\<forall>i < length (rules rs). sts ! i = rules_state rs ! i \<or>
       sts ! i = new_status \<and> message (rules rs ! i) = mid \<and> rules_state rs ! i = status"
    "completed_mask rs event sts emask = Inr m"
    "rules rs' = rules rs" "events rs' = events rs AND NOT m"
    "\<forall>i < length (rules rs). rules_state rs' ! i = sts ! i \<or> rules_state rs' ! i = rule_status_not_done"
    "length (rules_state rs') = length (rules rs)"
proof -
  from assms(1) obtain sts emask m where
    u: "for_res (update_step rs mid status new_status event) [0..<length (rules rs)]
      (rules_state rs, 0, False) = Inr (sts, emask, did)"
    and m: "completed_mask rs event sts emask = Inr m"
    and r: "(if m \<noteq> 0 then RulesEngine_ResetEvent (rs\<lparr>rules_state := sts\<rparr>) m else Inr (rs\<lparr>rules_state := sts\<rparr>))
      = Inr rs'"
    by (auto simp: RulesEngine_UpdateRuleStatus_def Let_def res_simps split: if_splits)
  note l = update_loop [OF u assms(2,3)]
  then have "length (rules_state (rs\<lparr>rules_state := sts\<rparr>)) = length (rules (rs\<lparr>rules_state := sts\<rparr>))" by simp
  note reset = ResetEvent_eq [OF this, of m]
  show thesis
    by (rule that [OF _ _ m]) (use l r reset in \<open>auto split: if_splits\<close>)
qed

section \<open>One rule per event in a pass\<close>

text \<open>\<open>rule_started\<close>: the rule was not in progress and now is.\<close>

definition rule_started :: "'w rule_set \<Rightarrow> 'w rule_set \<Rightarrow> nat \<Rightarrow> bool" where
  "rule_started rs rs' i \<longleftrightarrow> i < length (rules rs) \<and> rules_state rs ! i \<noteq> rule_status_in_progress \<and>
     rules_state rs' ! i = rule_status_in_progress"

text \<open>The invariant of a pass that has looked at the first \<open>k\<close> rules.\<close>

definition pass_inv :: "'w rule_set \<Rightarrow> nat \<Rightarrow> 'w rule_set \<Rightarrow> u64 \<Rightarrow> bool" where
  "pass_inv rs k rs' evs \<longleftrightarrow> rules rs' = rules rs \<and> length (rules_state rs') = length (rules rs) \<and>
     (\<forall>i. rule_started rs rs' i \<longrightarrow> i < k \<and> evs AND entry_events (rules rs ! i) = 0) \<and>
     (\<forall>i j. rule_started rs rs' i \<longrightarrow> rule_started rs rs' j \<longrightarrow> i \<noteq> j \<longrightarrow>
        entry_events (rules rs ! i) AND entry_events (rules rs ! j) = 0)"

lemma and_mono_zero: "(a :: u64) AND e = 0 \<Longrightarrow> (a AND x) AND e = 0"
proof -
  assume "a AND e = 0"
  moreover have "(a AND x) AND e = x AND (a AND e)" by (simp add: ac_simps)
  ultimately show ?thesis by simp
qed

lemma pass_inv_shrink:
  assumes "pass_inv rs k rs1 evs" and "rules rs2 = rules rs1"
    and "length (rules_state rs2) = length (rules rs1)"
    and "\<forall>i < length (rules rs). rules_state rs2 ! i = rule_status_in_progress \<longrightarrow>
           rules_state rs1 ! i = rule_status_in_progress"
  shows "pass_inv rs (Suc k) rs2 (evs AND x)"
proof -
  have st: "rule_started rs rs1 i" if "rule_started rs rs2 i" for i
    using that assms(4) by (auto simp: rule_started_def)
  then show ?thesis
    using assms(1-3) unfolding pass_inv_def by (metis and_mono_zero less_SucI)
qed

lemma subset_and_disjoint: "(e :: u64) AND evs = e \<Longrightarrow> evs AND f = 0 \<Longrightarrow> e AND f = 0"
  by (metis and.assoc and_zero_eq)

lemma pass_inv_start:
  assumes "pass_inv rs k rs1 evs" and "k < length (rules rs)" and "rules rs2 = rules rs1"
    and "rules_state rs2 = (rules_state rs1)[k := rule_status_in_progress]"
    and "entry_events (rules rs ! k) AND evs = entry_events (rules rs ! k)"
  shows "pass_inv rs (Suc k) rs2 (evs AND NOT (entry_events (rules rs ! k)))"
proof -
  let ?e = "entry_events (rules rs ! k)"
  have st: "rule_started rs rs1 i" if "rule_started rs rs2 i" "i \<noteq> k" for i
    using that assms(1,4) by (auto simp: rule_started_def pass_inv_def)
  have disj: "?e AND entry_events (rules rs ! i) = 0" "i < k" if "rule_started rs rs1 i" for i
    using that assms(1,5) by (auto simp: pass_inv_def intro: subset_and_disjoint)
  have z: "(evs AND NOT ?e) AND ?e = 0" by (simp add: and.assoc)
  show ?thesis
    unfolding pass_inv_def
  proof (intro conjI allI impI)
    show "rules rs2 = rules rs" "length (rules_state rs2) = length (rules rs)"
      using assms(1,3,4) by (simp_all add: pass_inv_def)
    fix i
    assume i: "rule_started rs rs2 i"
    show "i < Suc k" using disj(2) [OF st [OF i]] by (cases "i = k") auto
    show "(evs AND NOT ?e) AND entry_events (rules rs ! i) = 0"
    proof (cases "i = k")
      case False
      then have "evs AND entry_events (rules rs ! i) = 0" using st [OF i] assms(1) by (simp add: pass_inv_def)
      then show ?thesis by (rule and_mono_zero)
    qed (simp add: z)
    fix j
    assume j: "rule_started rs rs2 j" "i \<noteq> j"
    show "entry_events (rules rs ! i) AND entry_events (rules rs ! j) = 0"
    proof (cases "i = k \<or> j = k")
      case True
      then show ?thesis using j(2) disj(1) [OF st [OF i]] disj(1) [OF st [OF j(1)]]
        by (auto simp: and.commute)
    next
      case False
      then show ?thesis using st [OF i] st [OF j(1)] j(2) assms(1) by (simp add: pass_inv_def)
    qed
  qed
qed

lemma pass_inv_same: "pass_inv rs k rs1 evs \<Longrightarrow> rules rs2 = rules rs1 \<Longrightarrow>
    rules_state rs2 = rules_state rs1 \<Longrightarrow> pass_inv rs (Suc k) rs2 (evs AND x)"
  using pass_inv_shrink [of rs k rs1 evs rs2 x] by (auto simp: pass_inv_def)

lemma RunRule_statuses:
  "RulesEngine_RunRule rs w i = Inr (rs', w', action) \<Longrightarrow>
   rules rs' = rules rs \<and> rules_state rs' = rules_state rs"
  by (auto simp: RulesEngine_RunRule_def RulesEngine_CopyRunParams_def res_simps
      split: prod.splits option.splits if_splits)

lemma send_statuses:
  "send_rule_message rs r action = Inr (rs', out) \<Longrightarrow>
   rules rs' = rules rs \<and> rules_state rs' = rules_state rs"
  by (auto simp: send_rule_message_def res_simps split: if_splits)

lemma pass_action:
  assumes "pass_inv rs k rs1 evs" and "k < length (rules rs)"
    and "rules_state rs1 ! k \<noteq> rule_status_complete"
    and "flags (rules rs ! k) = rule_flag_always_evaluate \<or>
         entry_events (rules rs ! k) AND evs = entry_events (rules rs ! k)"
    and "handle_action rs1 k action evs = Inr (rs2, evs2, out)"
  shows "pass_inv rs (Suc k) rs2 evs2"
proof -
  have t: "rules rs1 = rules rs" "length (rules_state rs1) = length (rules rs)"
    using assms(1) by (auto simp: pass_inv_def)
  let ?always = "flags (rules rs ! k) = rule_flag_always_evaluate"
  have keep: "pass_inv rs (Suc k) rs2 evs" if "rules rs2 = rules rs1" "rules_state rs2 = rules_state rs1"
    using pass_inv_same [OF assms(1) that, of "- 1"] by simp
  have upd: "pass_inv rs (Suc k) rs2 evs"
    if u: "RulesEngine_UpdateRuleStatus rs1 (message (rules rs ! k)) (rules_state rs1 ! k)
      rule_status_complete (entry_events (rules rs ! k)) = Inr (rs2, did)" for did
  proof -
    from t have "length (rules_state rs1) = length (rules rs1)" by simp
    from Update_result [OF u this] assms(3) obtain sts where
      "\<forall>i < length (rules rs1). sts ! i = rules_state rs1 ! i \<or> sts ! i = rule_status_complete"
      "rules rs2 = rules rs1"
      "\<forall>i < length (rules rs1). rules_state rs2 ! i = sts ! i \<or> rules_state rs2 ! i = rule_status_not_done"
      "length (rules_state rs2) = length (rules rs1)"
      by metis
    then have "pass_inv rs (Suc k) rs2 (evs AND - 1)"
      using t by (intro pass_inv_shrink [OF assms(1)]) (auto, metis rule_status.distinct)
    then show ?thesis by simp
  qed
  have run: "pass_inv rs (Suc k) rs2 evs2"
    if r: "action = rule_action_run \<or> action = rule_action_run_with_param"
  proof -
    from assms(5) r obtain sts where
      sts: "(if ?always then Inr (rules_state rs1) else
         RulesEngine_SetRuleStatus (rules rs ! k) k rule_status_in_progress (rules_state rs1)) = Inr sts"
      and s: "send_rule_message (rs1\<lparr>rules_state := sts\<rparr>) (rules rs ! k) action = Inr (rs2, out)"
      and e: "evs2 = (if ?always then evs else evs AND NOT (entry_events (rules rs ! k)))"
      by (auto simp: handle_action_def Let_def t(1) res_simps)
    have f: "rules rs2 = rules rs1" "rules_state rs2 = sts" using send_statuses [OF s] by simp_all
    show ?thesis
    proof (cases ?always)
      case True
      with sts e f keep show ?thesis by simp
    next
      case False
      with sts have "sts = (rules_state rs1)[k := rule_status_in_progress]"
        by (auto simp: RulesEngine_SetRuleStatus_def res_simps)
      with False e f assms(4) pass_inv_start [OF assms(1,2)] show ?thesis by simp
    qed
  qed
  have unchanged: "pass_inv rs (Suc k) rs1 evs"
    using pass_inv_same [OF assms(1) refl refl, of "- 1"] by simp
  have deferred: "pass_inv rs (Suc k) rs2 evs2" if "action = rule_action_defer"
  proof -
    from assms(5) that have "rules rs2 = rules rs1" "evs2 = evs"
        "rules_state rs2 = (rules_state rs1)[k := rule_status_deferred]"
      by (auto simp: handle_action_def Let_def RulesEngine_SetRuleStatus_def res_simps split: if_splits)
    moreover from this have "pass_inv rs (Suc k) rs2 (evs AND - 1)"
      using t assms(2) by (intro pass_inv_shrink [OF assms(1)]) (auto simp: nth_list_update split: if_splits)
    ultimately show ?thesis by simp
  qed
  show ?thesis
    using assms(5) run deferred unchanged upd
    by (cases action) (auto simp: handle_action_def Let_def t(1) res_simps split: if_splits)
qed

lemma pass_step:
  assumes "pass_inv rs k rs1 evs" and "k < length (rules rs)"
    and "run_rules_step k (rs1, w, evs, out) = Inr (rs2, w', evs2, out2)"
  shows "pass_inv rs (Suc k) rs2 evs2"
proof -
  have t: "rules rs1 = rules rs" "length (rules_state rs1) = length (rules rs)"
    using assms(1) by (auto simp: pass_inv_def)
  let ?hit = "entry_events (rules rs ! k) AND evs = entry_events (rules rs ! k) \<or>
    flags (rules rs ! k) = rule_flag_always_evaluate"
  have skip: "pass_inv rs (Suc k) rs1 (evs AND x)" for x using pass_inv_same [OF assms(1) refl refl] .
  consider "\<not> ?hit \<or> rules_state rs1 ! k = rule_status_complete"
    | "?hit" "rules_state rs1 ! k = rule_status_in_progress"
    | "?hit" "rules_state rs1 ! k \<noteq> rule_status_complete" "rules_state rs1 ! k \<noteq> rule_status_in_progress"
    by blast
  then show ?thesis
  proof cases
    case 1
    with assms(2,3) t have "rs2 = rs1" "evs2 = evs"
      by (auto simp: run_rules_step_def Let_def split: if_splits)
    with skip [of "- 1"] show ?thesis by simp
  next
    case 2
    with assms(2,3) t have "rs2 = rs1" "evs2 = evs AND NOT (entry_events (rules rs ! k))"
      by (auto simp: run_rules_step_def Let_def)
    with skip show ?thesis by simp
  next
    case 3
    with assms(2,3) t obtain rs3 action o2 where
      r: "RulesEngine_RunRule rs1 w k = Inr (rs3, w', action)"
      and h: "handle_action rs3 k action evs = Inr (rs2, evs2, o2)"
      by (auto simp: run_rules_step_def Let_def res_simps)
    note f = RunRule_statuses [OF r]
    have "pass_inv rs k rs3 evs"
      using assms(1) f by (simp add: pass_inv_def rule_started_def)
    from pass_action [OF this assms(2) _ _ h] 3 f show ?thesis by auto
  qed
qed

lemma pass_loop:
  assumes "for_res run_rules_step [0..<k] (rs, w, evs, out) = Inr (rs', w', evs', out')"
    and "k \<le> length (rules rs)" and "length (rules_state rs) = length (rules rs)"
  shows "pass_inv rs k rs' evs'"
  using assms(1,2)
proof (induction k arbitrary: rs' w' evs' out')
  case 0
  with assms(3) show ?case by (auto simp: pass_inv_def rule_started_def)
next
  case (Suc k)
  from Suc.prems(1) obtain rs1 w1 e1 o1 where
    "for_res run_rules_step [0..<k] (rs, w, evs, out) = Inr (rs1, w1, e1, o1)"
    "run_rules_step k (rs1, w1, e1, o1) = Inr (rs', w', evs', out')"
    by (auto simp: for_res_append res_simps)
  with Suc.IH Suc.prems(2) show ?case by (auto intro: pass_step)
qed

section \<open>Properties\<close>

lemma InProgress_ok:
  assumes "rs_ok rs"
  shows "\<exists>b. RulesEngine_InProgress rs = Inr b"
proof -
  have "\<exists>b. RulesEngine_InProgress rs = Inr b \<and> True"
    unfolding RulesEngine_InProgress_def using assms
    by (intro for_res_total) (auto simp: rs_ok_def statuses_ok_def)
  then show ?thesis by simp
qed

lemma SetEvent_ok:
  assumes "rs_ok rs" and "table_ok (rules rs)"
  shows "\<exists>r1 w1 o1. RulesEngine_SetEvent rs w ev = Inr (r1, w1, o1) \<and> rs_ok r1 \<and> same_table rs r1"
proof -
  have "rs_ok (rs\<lparr>events := events rs OR ev\<rparr>)" "table_ok (rules (rs\<lparr>events := events rs OR ev\<rparr>))"
    using assms by (simp_all add: rs_ok_def)
  from RunRules_ok [OF this, of w] show ?thesis
    by (auto simp: RulesEngine_SetEvent_def RulesEngine_Check_def same_table_def)
qed

lemma SetRuleWithEventComplete_ok:
  assumes "rs_ok rs" and "table_ok (rules rs)"
  shows "\<exists>r2 w2 o2. RulesEngine_SetRuleWithEventComplete rs w mid ev = Inr (r2, w2, o2) \<and> rs_ok r2 \<and> same_table rs r2"
proof -
  from Update_ok [OF assms(1), of mid rule_status_in_progress rule_status_complete ev] obtain r did where
    u: "RulesEngine_UpdateRuleStatus rs mid rule_status_in_progress rule_status_complete ev = Inr (r, did)"
      "rs_ok r" "same_table rs r"
    by auto
  obtain busy where b: "RulesEngine_InProgress r = Inr busy" using InProgress_ok [OF u(2)] by blast
  have "table_ok (rules r)" using assms(2) u(3) by (simp add: same_table_def)
  from RunRules_ok [OF u(2) this, of w] obtain r2 w2 o2 where
    2: "RulesEngine_Check r w = Inr (r2, w2, o2)" "rs_ok r2" "same_table r r2"
    by (auto simp: RulesEngine_Check_def)
  have "tl_ok (nop_tasks r)" using u(2) by (simp add: rs_ok_def)
  then obtain sends :: "unit task_list_send list" where "TaskList_MessageSendId (nop_tasks r) (nop_message_id r) = Inr sends"
    by (auto simp: MessageSendId_ok)
  with u b 2 have "\<exists>o3. RulesEngine_SetRuleWithEventComplete rs w mid ev = Inr (r2, w2, o3)"
    by (auto simp: RulesEngine_SetRuleWithEventComplete_def)
  with 2 u(3) show ?thesis by (auto simp: same_table_def)
qed

text \<open>
  C7. The engine does not fault: with rules that keep to the protocol, setting events and
  completing a rule on a well-formed set always succeed, leave the set well formed and
  keep its table.
\<close>

theorem rules_engine_safe:
  assumes "rs_ok rs" and "table_ok (rules rs)"
  shows "\<exists>r1 w1 o1 r2 w2 o2. RulesEngine_SetEvent rs w ev = Inr (r1, w1, o1) \<and> rs_ok r1 \<and> same_table rs r1 \<and>
    RulesEngine_SetRuleWithEventComplete rs w mid ev = Inr (r2, w2, o2) \<and> rs_ok r2 \<and> same_table rs r2"
  using SetEvent_ok [OF assms] SetRuleWithEventComplete_ok [OF assms] by blast

definition example_rules :: "bool rule_entry list" where
  "example_rules =
     [\<lparr>entry_events = 1, flags = rule_flag_no_flags, rule = (\<lambda>w. (w, if w then rule_action_run else rule_action_defer, None)), message = 10\<rparr>,
      \<lparr>entry_events = 3, flags = rule_flag_progress_matters, rule = (\<lambda>w. (w, rule_action_run_with_param, Some [7])), message = 11\<rparr>,
      \<lparr>entry_events = 4, flags = rule_flag_always_evaluate, rule = (\<lambda>w. (w, rule_action_ignore, None)), message = 12\<rparr>,
      \<lparr>entry_events = 8, flags = rule_flag_no_flags, rule = (\<lambda>w. (w, rule_action_run, None)), message = 13\<rparr>]"

definition example_set :: "bool rule_set" where
  "example_set = \<lparr>events = 0, rules = example_rules, rules_state = [rule_status_not_done, rule_status_not_done,
       rule_status_not_done, rule_status_not_done],
     rule_message_data = None, size_rule_message_data = 0, event_task = 1, nop_tasks = example_list,
     nop_message_id = 20\<rparr>"

lemma example_set_ok: "rs_ok example_set" "table_ok (rules example_set)"
proof -
  have "length (rules example_set) = 4" by (simp add: example_set_def example_rules_def)
  then show "rs_ok example_set"
    using example_list_ok
    by (auto simp: rs_ok_def statuses_ok_def example_set_def less_Suc_eq eval_nat_numeral)
  show "table_ok (rules example_set)"
    by (simp add: table_ok_def rule_protocol_def example_set_def example_rules_def)
qed

theorem rules_engine_safe_witness:
  "\<exists>r1 w1 o1. RulesEngine_SetEvent example_set True 3 = Inr (r1, w1, o1) \<and> rs_ok r1"
  using rules_engine_safe [OF example_set_ok, of True 3 0] by blast

text \<open>
  One rule per event: in one pass over the rules, two different rules that are started
  never share an event, so an event starts at most one rule until that rule is complete.
\<close>

theorem rules_one_per_event:
  assumes "length (rules_state rs) = length (rules rs)"
    and "RulesEngine_SetEvent rs w ev = Inr (rs', w', out)"
    and "rule_started rs rs' i" and "rule_started rs rs' j" and "i \<noteq> j"
  shows "entry_events (rules rs ! i) AND entry_events (rules rs ! j) = 0"
proof -
  let ?rs = "rs\<lparr>events := events rs OR ev\<rparr>"
  from assms(2) obtain w1 e1 o1 where
    "for_res run_rules_step [0..<length (rules ?rs)] (?rs, w, events ?rs, []) = Inr (rs', w1, e1, o1)"
    by (auto simp: RulesEngine_SetEvent_def RulesEngine_Check_def RulesEngine_RunRules_def res_simps)
  from pass_loop [OF this] assms(1) have "pass_inv ?rs (length (rules ?rs)) rs' e1" by simp
  with assms(3-5) show ?thesis by (auto simp: pass_inv_def rule_started_def)
qed

lemma example_run:
  "RulesEngine_SetEvent example_set True 9 =
     Inr (example_set\<lparr>events := 9, rules_state := [rule_status_in_progress, rule_status_not_done,
            rule_status_not_done, rule_status_in_progress]\<rparr>, True,
          [MessageSend 1 10 None, MessageSend 1 13 None])"
  by (simp add: RulesEngine_SetEvent_def RulesEngine_Check_def RulesEngine_RunRules_def
      example_set_def example_rules_def run_rules_step_def RulesEngine_RunRule_def handle_action_def
      send_rule_message_def RulesEngine_SetRuleStatus_def upt_rec Let_def)

theorem rules_one_per_event_witness:
  "entry_events (rules example_set ! 0) AND entry_events (rules example_set ! 3) = 0"
  by (rule rules_one_per_event [OF _ example_run])
    (simp_all add: rule_started_def example_set_def example_rules_def)

text \<open>
  An event is cleared only when it is dealt with: when completing a message clears an
  active event, every rule for that event was complete already, or was in progress with
  this message.
\<close>

theorem rules_event_cleared:
  assumes "length (rules_state rs) = length (rules rs)"
    and "RulesEngine_UpdateRuleStatus rs mid rule_status_in_progress rule_status_complete
           RULE_EVENT_ALL_EVENTS_MASK = Inr (rs', did)"
    and "bit (events rs) b" and "\<not> bit (events rs') b"
    and "i < length (rules rs)" and "bit (entry_events (rules rs ! i)) b"
  shows "rules_state rs ! i = rule_status_complete \<or>
    rules_state rs ! i = rule_status_in_progress \<and> message (rules rs ! i) = mid"
proof -
  obtain sts emask m where
    sts: "\<forall>i < length (rules rs). sts ! i = rules_state rs ! i \<or>
       sts ! i = rule_status_complete \<and> message (rules rs ! i) = mid \<and>
       rules_state rs ! i = rule_status_in_progress"
    and m: "completed_mask rs RULE_EVENT_ALL_EVENTS_MASK sts emask = Inr m"
    and ev: "events rs' = events rs AND NOT m"
    by (rule Update_result [OF assms(2,1)]) simp
  have "bit m b" using assms(3,4) ev by (auto simp: bit_simps dest: bit_imp_le_length)
  moreover have "entry_events (rules rs ! i) AND RULE_EVENT_ALL_EVENTS_MASK \<noteq> 0"
  proof -
    have all: "RULE_EVENT_ALL_EVENTS_MASK = - 1" by simp
    show ?thesis unfolding all using assms(6) by auto
  qed
  ultimately have "sts ! i = rule_status_complete"
    using completed_mask_bit [OF m _ assms(5)] assms(6) by blast
  with sts assms(5) show ?thesis by auto
qed

definition example_busy :: "bool rule_set" where
  "example_busy = example_set\<lparr>events := 9, rules_state := [rule_status_in_progress, rule_status_not_done,
     rule_status_not_done, rule_status_in_progress]\<rparr>"

lemma example_complete:
  "\<exists>rs' did. RulesEngine_UpdateRuleStatus example_busy 13 rule_status_in_progress rule_status_complete
     RULE_EVENT_ALL_EVENTS_MASK = Inr (rs', did) \<and> events rs' = 1"
  by (simp add: RulesEngine_UpdateRuleStatus_def update_step_def completed_mask_def example_busy_def
      example_set_def example_rules_def RulesEngine_SetRuleStatus_def RulesEngine_ResetEvent_def
      upt_rec Let_def) blast

theorem rules_event_cleared_witness:
  "rules_state example_busy ! 3 = rule_status_complete \<or>
   rules_state example_busy ! 3 = rule_status_in_progress \<and> message (rules example_busy ! 3) = 13"
proof -
  obtain rs' did where r: "RulesEngine_UpdateRuleStatus example_busy 13 rule_status_in_progress
      rule_status_complete RULE_EVENT_ALL_EVENTS_MASK = Inr (rs', did)" "events rs' = 1"
    using example_complete by blast
  show ?thesis
    by (rule rules_event_cleared [OF _ r(1), of 3])
      (simp_all add: r(2) example_busy_def example_set_def example_rules_def)
qed

end
