(* ===== verification/Script_Engine.thy ===== *)
theory Script_Engine
  imports Mh40_Prelude
begin

text \<open>
  The script engine (\<^verbatim>\<open>adk/src/topologies/common/script_engine/script_engine.c\<close>), which runs
  the procedures of a script one after the other on behalf of a goal. Procedures and
  callbacks are named by numbers; calling one is an output. A procedure may not confirm its
  completion or cancellation from within its own start or cancel function
  (\<^verbatim>\<open>procedures.h\<close>), so the confirmations are separate events.
\<close>

section \<open>Model\<close>

datatype procedure_result = procedure_result_success | procedure_result_failed | procedure_result_timeout

datatype script_engine_state = script_engine_idle | script_engine_active | script_engine_cancelling

record procedure_script =
  script_procs :: "nat list"
  script_procs_data :: "nat list"
  script_proc_list_size :: nat

record ScriptEngineTaskData =
  se_state :: script_engine_state
  next_step :: nat
  script :: "procedure_script option"
  se_proc :: u16
  script_client :: task
  start_fn :: nat
  complete_fn :: nat
  cancel_fn :: nat

text \<open>
  Outputs: starting a procedure (its number, the client task, its data), cancelling one,
  and calling the complete or cancel callback of the client.
\<close>

datatype script_output =
    ProcStart nat task nat
  | ProcCancel nat
  | CallComplete nat u16 procedure_result
  | CallCancel nat u16 procedure_result

definition scriptEngine_EngineReset :: "ScriptEngineTaskData \<Rightarrow> ScriptEngineTaskData" where
  "scriptEngine_EngineReset td = td\<lparr>se_state := script_engine_idle, next_step := 0, script := None\<rparr>"

definition scriptEngine_StartCurrentStep ::
  "ScriptEngineTaskData \<Rightarrow> (ScriptEngineTaskData \<times> script_output list) res" where
  "scriptEngine_StartCurrentStep td = (case script td of None \<Rightarrow> Inl BadAccess
     | Some s \<Rightarrow>
         if next_step td < script_proc_list_size s then
           res_bind (array_get (script_procs s) (next_step td)) (\<lambda>p.
           res_bind (array_get (script_procs_data s) (next_step td)) (\<lambda>d.
             Inr (td, [ProcStart p (script_client td) d])))
         else if next_step td = script_proc_list_size s then
           Inr (scriptEngine_EngineReset td, [CallComplete (complete_fn td) (se_proc td) procedure_result_success])
         else Inl Panic)"

definition scriptEngine_ProcStartCfm ::
  "ScriptEngineTaskData \<Rightarrow> procedure_result \<Rightarrow> (ScriptEngineTaskData \<times> script_output list) res" where
  "scriptEngine_ProcStartCfm td result =
     (if result \<noteq> procedure_result_success then Inl Panic else Inr (td, []))"

definition scriptEngine_ProcCompleteCfm ::
  "ScriptEngineTaskData \<Rightarrow> procedure_result \<Rightarrow> (ScriptEngineTaskData \<times> script_output list) res" where
  "scriptEngine_ProcCompleteCfm td result =
     (if se_state td = script_engine_active then
        (case result of
           procedure_result_success \<Rightarrow> scriptEngine_StartCurrentStep (td\<lparr>next_step := next_step td + 1\<rparr>)
         | procedure_result_timeout \<Rightarrow>
             Inr (scriptEngine_EngineReset td, [CallComplete (complete_fn td) (se_proc td) procedure_result_timeout])
         | procedure_result_failed \<Rightarrow>
             Inr (scriptEngine_EngineReset td, [CallComplete (complete_fn td) (se_proc td) procedure_result_failed]))
      else Inr (td, []))"

definition scriptEngine_ProcCancelCfm ::
  "ScriptEngineTaskData \<Rightarrow> procedure_result \<Rightarrow> (ScriptEngineTaskData \<times> script_output list) res" where
  "scriptEngine_ProcCancelCfm td result =
     res_bind (panic_unless (se_state td = script_engine_cancelling)) (\<lambda>_.
       Inr (scriptEngine_EngineReset td, [CallCancel (cancel_fn td) (se_proc td) result]))"

definition ScriptEngine_StartScript ::
  "ScriptEngineTaskData \<Rightarrow> task \<Rightarrow> procedure_script \<Rightarrow> u16 \<Rightarrow> nat \<Rightarrow> nat \<Rightarrow>
   (ScriptEngineTaskData \<times> script_output list) res" where
  "ScriptEngine_StartScript td client s proc_id start_cfm complete_cfm =
     res_bind (panic_unless (se_state td = script_engine_idle)) (\<lambda>_.
       scriptEngine_StartCurrentStep (td\<lparr>start_fn := start_cfm, complete_fn := complete_cfm,
         se_proc := proc_id, script_client := client, se_state := script_engine_active,
         next_step := 0, script := Some s\<rparr>))"

definition ScriptEngine_CancelScript ::
  "ScriptEngineTaskData \<Rightarrow> task \<Rightarrow> nat \<Rightarrow> (ScriptEngineTaskData \<times> script_output list \<times> bool) res" where
  "ScriptEngine_CancelScript td client cancel_cfm =
     res_bind (panic_unless (script_client td = client)) (\<lambda>_.
       if se_state td \<noteq> script_engine_active then Inr (td, [], False)
       else (case script td of None \<Rightarrow> Inl BadAccess
         | Some s \<Rightarrow>
             res_bind (array_get (script_procs s) (next_step td)) (\<lambda>p.
               Inr (td\<lparr>se_state := script_engine_cancelling, cancel_fn := cancel_cfm\<rparr>,
                    [ProcCancel p], True))))"

section \<open>The engine as a state machine\<close>

datatype script_event =
    StartScript task procedure_script u16 nat nat
  | CancelScript task nat
  | StartCfm procedure_result
  | CompleteCfm procedure_result
  | CancelCfm procedure_result

definition script_step :: "ScriptEngineTaskData \<Rightarrow> script_event \<Rightarrow> (ScriptEngineTaskData \<times> script_output list) res" where
  "script_step td e = (case e of
     StartScript client s p f g \<Rightarrow> ScriptEngine_StartScript td client s p f g
   | CancelScript client f \<Rightarrow> res_bind (ScriptEngine_CancelScript td client f) (\<lambda>(td', out, _). Inr (td', out))
   | StartCfm r \<Rightarrow> scriptEngine_ProcStartCfm td r
   | CompleteCfm r \<Rightarrow> scriptEngine_ProcCompleteCfm td r
   | CancelCfm r \<Rightarrow> scriptEngine_ProcCancelCfm td r)"

definition script_ok :: "procedure_script \<Rightarrow> bool" where
  "script_ok s \<longleftrightarrow> length (script_procs s) = script_proc_list_size s \<and>
     length (script_procs_data s) = script_proc_list_size s"

text \<open>An engine that is not idle is at a step of a well-formed script.\<close>

definition se_ok :: "ScriptEngineTaskData \<Rightarrow> bool" where
  "se_ok td \<longleftrightarrow> (case script td of
     None \<Rightarrow> se_state td = script_engine_idle
   | Some s \<Rightarrow> se_state td \<noteq> script_engine_idle \<and> script_ok s \<and> next_step td < script_proc_list_size s)"

text \<open>The engine after an event; an event that faults is one the client may not issue.\<close>

fun script_event_ok :: "script_event \<Rightarrow> bool" where
  "script_event_ok (StartScript client s p f g) = script_ok s"
| "script_event_ok _ = True"

definition script_next :: "ScriptEngineTaskData \<Rightarrow> script_event \<Rightarrow> ScriptEngineTaskData" where
  "script_next td e = (if script_event_ok e
     then (case script_step td e of Inr (td', _) \<Rightarrow> td' | Inl _ \<Rightarrow> td) else td)"

definition script_engine_zero :: ScriptEngineTaskData where
  "script_engine_zero = \<lparr>se_state = script_engine_idle, next_step = 0, script = None, se_proc = 0,
     script_client = 0, start_fn = 0, complete_fn = 0, cancel_fn = 0\<rparr>"

lemmas script_defs = ScriptEngine_StartScript_def ScriptEngine_CancelScript_def
  scriptEngine_ProcStartCfm_def scriptEngine_ProcCompleteCfm_def scriptEngine_ProcCancelCfm_def
  scriptEngine_StartCurrentStep_def scriptEngine_EngineReset_def

lemma script_step_ok:
  assumes "se_ok td" and "script_step td e = Inr (td', out)"
    and "script_event_ok e"
  shows "se_ok td'"
  using assms
  by (cases e)
    (auto simp: script_step_def script_defs se_ok_def script_ok_def res_simps
      split: option.splits if_splits procedure_result.splits)

interpretation se: reactive script_engine_zero script_next se_ok
proof unfold_locales
  show "se_ok script_engine_zero" by (simp add: se_ok_def script_engine_zero_def)
next
  fix td e
  assume "se_ok td"
  then show "se_ok (script_next td e)"
    by (auto simp: script_next_def split: sum.splits dest: script_step_ok)
qed

section \<open>Runs\<close>

fun script_run :: "ScriptEngineTaskData \<Rightarrow> script_event list \<Rightarrow> (ScriptEngineTaskData \<times> script_output list) res" where
  "script_run td [] = Inr (td, [])"
| "script_run td (e # es) = res_bind (script_step td e) (\<lambda>(td', out).
     res_bind (script_run td' es) (\<lambda>(td'', out'). Inr (td'', out @ out')))"

lemma script_run_append:
  "script_run td (es @ fs) = res_bind (script_run td es) (\<lambda>(td', out).
     res_bind (script_run td' fs) (\<lambda>(td'', out'). Inr (td'', out @ out')))"
proof (induction es arbitrary: td)
  case Nil
  show ?case by (cases "script_run td fs") auto
next
  case (Cons e es)
  show ?case
  proof (cases "script_step td e")
    case (Inr r)
    obtain td' out where r: "r = (td', out)" by (cases r)
    show ?thesis
      by (cases "script_run td' es"; cases "script_run (fst (projr (script_run td' es))) fs")
        (auto simp: Inr r Cons.IH split: prod.splits)
  qed simp
qed

text \<open>The output that starts one step of a script, and the engine while it runs a step.\<close>

definition step_start :: "procedure_script \<Rightarrow> task \<Rightarrow> nat \<Rightarrow> script_output" where
  "step_start s client i = ProcStart (script_procs s ! i) client (script_procs_data s ! i)"

definition at_step :: "ScriptEngineTaskData \<Rightarrow> task \<Rightarrow> procedure_script \<Rightarrow> u16 \<Rightarrow> nat \<Rightarrow> nat \<Rightarrow> nat \<Rightarrow> ScriptEngineTaskData" where
  "at_step td client s p f g i = td\<lparr>start_fn := f, complete_fn := g, se_proc := p, script_client := client,
     se_state := script_engine_active, next_step := i, script := Some s\<rparr>"

lemma at_step_sel [simp]:
  "se_state (at_step td client s p f g i) = script_engine_active"
  "next_step (at_step td client s p f g i) = i"
  "script (at_step td client s p f g i) = Some s"
  "script_client (at_step td client s p f g i) = client"
  "complete_fn (at_step td client s p f g i) = g"
  "se_proc (at_step td client s p f g i) = p"
  "(at_step td client s p f g i)\<lparr>next_step := j\<rparr> = at_step td client s p f g j"
  by (simp_all add: at_step_def)

lemma start_step:
  "script_ok s \<Longrightarrow> i < script_proc_list_size s \<Longrightarrow>
   scriptEngine_StartCurrentStep (at_step td client s p f g i)
     = Inr (at_step td client s p f g i, [step_start s client i])"
  by (simp add: scriptEngine_StartCurrentStep_def script_ok_def step_start_def)

lemma finish_step:
  "i = script_proc_list_size s \<Longrightarrow>
   scriptEngine_StartCurrentStep (at_step td client s p f g i)
     = Inr (scriptEngine_EngineReset (at_step td client s p f g i), [CallComplete g p procedure_result_success])"
  by (simp add: scriptEngine_StartCurrentStep_def)

lemma script_prefix:
  assumes "se_state td = script_engine_idle" and "script_ok s" and "k < script_proc_list_size s"
  shows "script_run td (StartScript client s p f g # replicate k (CompleteCfm procedure_result_success))
    = Inr (at_step td client s p f g k, map (step_start s client) [0..<Suc k])"
  using assms
proof (induction k)
  case 0
  then show ?case
    by (simp add: script_step_def ScriptEngine_StartScript_def at_step_def [symmetric] start_step)
next
  case (Suc k)
  then have IH: "script_run td (StartScript client s p f g # replicate k (CompleteCfm procedure_result_success))
    = Inr (at_step td client s p f g k, map (step_start s client) [0..<Suc k])" by simp
  have "StartScript client s p f g # replicate (Suc k) (CompleteCfm procedure_result_success)
     = (StartScript client s p f g # replicate k (CompleteCfm procedure_result_success))
       @ [CompleteCfm procedure_result_success]"
    by (simp add: replicate_append_same)
  moreover have "script_step (at_step td client s p f g k) (CompleteCfm procedure_result_success)
    = Inr (at_step td client s p f g (Suc k), [step_start s client (Suc k)])"
    using Suc.prems by (simp add: script_step_def scriptEngine_ProcCompleteCfm_def start_step)
  ultimately show ?case by (simp only: script_run_append IH) simp
qed

section \<open>Properties\<close>

text \<open>
  No access outside a script: in every state the engine can reach through well-formed
  scripts, whatever the order of starts, cancellations and confirmations, an event either
  is handled, or is refused by a panic; it never runs past the script or through a script
  that is gone.
\<close>

theorem script_engine_no_bad_access:
  assumes "script_event_ok e"
  shows "script_step (foldl script_next script_engine_zero es) e \<noteq> Inl BadAccess"
proof -
  have "se_ok (foldl script_next script_engine_zero es)" by (rule se.run_ok)
  then show ?thesis
    using assms
    by (cases e)
      (auto simp: script_step_def script_defs se_ok_def script_ok_def res_simps panic_unless_def
        split: option.splits if_splits procedure_result.splits)
qed

theorem script_engine_no_bad_access_witness:
  "script_step (foldl script_next script_engine_zero
     [StartScript 1 \<lparr>script_procs = [10, 11], script_procs_data = [0, 0], script_proc_list_size = 2\<rparr> 5 1 2,
      CompleteCfm procedure_result_success]) (CompleteCfm procedure_result_success) \<noteq> Inl BadAccess"
  by (rule script_engine_no_bad_access) simp

text \<open>
  C23. A script runs to its end: from an idle engine, starting a well-formed script and
  confirming each step with success starts every procedure of the script exactly once, in
  the order of the script and with its own data, then calls the client's complete callback
  exactly once with success, and leaves the engine idle for the next script.
\<close>

theorem script_runs_to_end:
  assumes "se_state td = script_engine_idle" and "script_ok s" and "n = script_proc_list_size s"
  shows "\<exists>td'. script_run td (StartScript client s p f g # replicate n (CompleteCfm procedure_result_success))
      = Inr (td', map (step_start s client) [0..<n] @ [CallComplete g p procedure_result_success])
    \<and> se_state td' = script_engine_idle \<and> script td' = None"
proof (cases n)
  case 0
  then show ?thesis
    using assms by (simp add: script_step_def ScriptEngine_StartScript_def at_step_def [symmetric] finish_step)
      (simp add: scriptEngine_EngineReset_def)
next
  case (Suc k)
  have pre: "script_run td (StartScript client s p f g # replicate k (CompleteCfm procedure_result_success))
    = Inr (at_step td client s p f g k, map (step_start s client) [0..<Suc k])"
    using assms Suc by (intro script_prefix) simp_all
  have split: "StartScript client s p f g # replicate n (CompleteCfm procedure_result_success)
     = (StartScript client s p f g # replicate k (CompleteCfm procedure_result_success))
       @ [CompleteCfm procedure_result_success]"
    using Suc by (simp add: replicate_append_same)
  have "script_step (at_step td client s p f g k) (CompleteCfm procedure_result_success)
    = Inr (scriptEngine_EngineReset (at_step td client s p f g n), [CallComplete g p procedure_result_success])"
    using assms(3) Suc by (simp add: script_step_def scriptEngine_ProcCompleteCfm_def finish_step)
  then show ?thesis
    by (simp only: split script_run_append pre) (simp add: scriptEngine_EngineReset_def Suc)
qed

definition example_script :: procedure_script where
  "example_script = \<lparr>script_procs = [10, 11], script_procs_data = [7, 8], script_proc_list_size = 2\<rparr>"

lemma example_script_ok: "script_ok example_script"
  by (simp add: script_ok_def example_script_def)

theorem script_runs_to_end_witness:
  "\<exists>td'. script_run script_engine_zero [StartScript 1 example_script 5 1 2,
      CompleteCfm procedure_result_success, CompleteCfm procedure_result_success]
    = Inr (td', [ProcStart 10 1 7, ProcStart 11 1 8, CallComplete 2 5 procedure_result_success])
    \<and> se_state td' = script_engine_idle \<and> script td' = None"
  using script_runs_to_end [of script_engine_zero example_script 2 1 5 1 2] example_script_ok
  by (simp add: script_engine_zero_def example_script_def step_start_def numeral_2_eq_2 del: script_run.simps)

text \<open>
  A failing step ends the script: when the first \<open>k\<close> steps succeed and the next one
  fails or times out, the procedures up to that step have been started and no later one,
  the client's complete callback is called exactly once with the step's result, and the
  engine is idle.
\<close>

theorem script_failure_ends:
  assumes "se_state td = script_engine_idle" and "script_ok s" and "k < script_proc_list_size s"
    and "r \<noteq> procedure_result_success"
  shows "\<exists>td'. script_run td (StartScript client s p f g #
        replicate k (CompleteCfm procedure_result_success) @ [CompleteCfm r])
      = Inr (td', map (step_start s client) [0..<Suc k] @ [CallComplete g p r])
    \<and> se_state td' = script_engine_idle \<and> script td' = None"
proof -
  have pre: "script_run td (StartScript client s p f g # replicate k (CompleteCfm procedure_result_success))
    = Inr (at_step td client s p f g k, map (step_start s client) [0..<Suc k])"
    using assms by (intro script_prefix) simp_all
  have "script_step (at_step td client s p f g k) (CompleteCfm r)
    = Inr (scriptEngine_EngineReset (at_step td client s p f g k), [CallComplete g p r])"
    using assms(4) by (cases r) (simp_all add: script_step_def scriptEngine_ProcCompleteCfm_def)
  then show ?thesis
    by (simp only: append_Cons [symmetric] script_run_append pre) (simp add: scriptEngine_EngineReset_def)
qed

theorem script_failure_ends_witness:
  "\<exists>td'. script_run script_engine_zero (StartScript 1 example_script 5 1 2 #
      replicate 1 (CompleteCfm procedure_result_success) @ [CompleteCfm procedure_result_timeout])
    = Inr (td', map (step_start example_script 1) [0..<Suc 1] @ [CallComplete 2 5 procedure_result_timeout])
    \<and> se_state td' = script_engine_idle \<and> script td' = None"
  by (rule script_failure_ends)
    (simp_all add: example_script_ok, simp_all add: script_engine_zero_def example_script_def)

text \<open>
  Cancelling a running script: the step that is running is told to cancel, every
  completion that still arrives is ignored, so no further procedure is started, and the
  cancel confirmation calls the cancel callback exactly once with its result and leaves the
  engine idle. The complete callback is not called.
\<close>

theorem script_cancel:
  assumes "se_ok td" and "se_state td = script_engine_active" and "script td = Some s"
  shows "\<exists>td'. script_run td (CancelScript (script_client td) h # map CompleteCfm rs @ [CancelCfm r])
      = Inr (td', [ProcCancel (script_procs s ! next_step td), CallCancel h (se_proc td) r])
    \<and> se_state td' = script_engine_idle \<and> script td' = None"
proof -
  let ?c = "td\<lparr>se_state := script_engine_cancelling, cancel_fn := h\<rparr>"
  have "script_step td (CancelScript (script_client td) h) = Inr (?c, [ProcCancel (script_procs s ! next_step td)])"
    using assms by (simp add: script_step_def ScriptEngine_CancelScript_def se_ok_def script_ok_def)
  moreover have "script_run ?c (map CompleteCfm rs) = Inr (?c, [])"
    by (induction rs) (simp_all add: script_step_def scriptEngine_ProcCompleteCfm_def)
  moreover have "script_step ?c (CancelCfm r) = Inr (scriptEngine_EngineReset ?c, [CallCancel h (se_proc td) r])"
    by (simp add: script_step_def scriptEngine_ProcCancelCfm_def)
  ultimately show ?thesis
    by (simp add: script_run_append) (simp add: scriptEngine_EngineReset_def)
qed

theorem script_cancel_witness:
  "\<exists>td'. script_run (at_step script_engine_zero 1 example_script 5 1 2 1)
       (CancelScript (script_client (at_step script_engine_zero 1 example_script 5 1 2 1)) 3 #
        map CompleteCfm [procedure_result_success] @ [CancelCfm procedure_result_success])
      = Inr (td', [ProcCancel (script_procs example_script !
                     next_step (at_step script_engine_zero 1 example_script 5 1 2 1)),
                   CallCancel 3 (se_proc (at_step script_engine_zero 1 example_script 5 1 2 1))
                     procedure_result_success])
    \<and> se_state td' = script_engine_idle \<and> script td' = None"
proof (rule script_cancel)
  show "se_ok (at_step script_engine_zero 1 example_script 5 1 2 1)"
    by (simp add: se_ok_def example_script_ok) (simp add: example_script_def)
qed simp_all

end
