(* ===== verification/Goals_Engine.thy ===== *)
theory Goals_Engine
  imports Script_Engine
begin

text \<open>
  The goals engine (\<^verbatim>\<open>adk/src/topologies/common/goals_engine/goals_engine.c\<close>): it decides whether
  the goal a rule asked for starts now, waits in a queue, cancels what is running or runs
  beside it, and starts and cancels procedures and scripts accordingly.

  The queue of decisions is a list of messages held for the queue task; each is conditional
  on the lock of one of the eight slots of the goal set. Scripted goals go through the
  model of the script engine. A procedure may not confirm from within its start or cancel
  function (\<^verbatim>\<open>procedures.h\<close>), so starting and cancelling one are outputs.
\<close>

section \<open>Data\<close>

text \<open>
  A \<open>goal_id\<close> is an octet between 1 and 63 (0 is \<open>GOAL_ID_NONE\<close>), used as an index into
  the goal table and as a bit position.
\<close>

type_synonym goal_id = nat
type_synonym goal_mask = u64

datatype goal_contention = goal_contention_wait | goal_contention_cancel | goal_contention_concurrent

record goal_entry =
  proc :: u16
  contention :: goal_contention
  exclusive_goal :: goal_id
  success_event :: u64
  timeout_event :: u64
  failed_event :: u64
  proc_fns :: "nat option"
  proc_script :: "procedure_script option"
  concurrent_goals :: "goal_id list option"

record pending_goal_entry =
  pe_id :: goal_id
  pe_rule_id :: message_id
  pe_lock :: u16
  pe_lock_mask :: goal_mask

record goal_set =
  goals :: "goal_entry list"
  goals_count :: nat
  proc_result_task :: task
  proc_start_cfm_fn :: nat
  proc_cancel_cfm_fn :: nat
  proc_complete_cfm_fn :: nat
  active_goals_mask :: goal_mask
  queue_task :: task
  queue_msg_count :: u8
  queue_msg_count_max :: u8
  pending_goals_alloc_count :: nat
  pending_goals :: "pending_goal_entry list"

record goal_set_init_params =
  ip_goals :: "goal_entry list option"
  ip_goals_count :: nat
  ip_proc_result_task :: task
  ip_proc_start_cfm_fn :: nat
  ip_proc_cancel_cfm_fn :: nat
  ip_proc_complete_cfm_fn :: nat
  ip_pending_goal_queue_task :: task

text \<open>
  A decision held for the queue task: its message id, the slot whose lock it is conditional
  on, and its payload.
\<close>

record queued_decision =
  qd_id :: message_id
  qd_slot :: nat
  qd_data :: "u8 list option"

text \<open>
  What the engine does to the outside: starting a procedure with the goal's data,
  cancelling one, and what the script engine does on its behalf.
\<close>

datatype goals_output =
    GoalProcStart goal_id "u8 list option"
  | GoalProcCancel goal_id
  | GoalScript script_output

record goals_world =
  gset :: goal_set
  queue :: "queued_decision list"
  engine :: ScriptEngineTaskData
  outs :: "goals_output list"

definition GOAL_ID_NONE :: goal_id where "GOAL_ID_NONE = 0"
definition GOAL_ID_MIN :: goal_id where "GOAL_ID_MIN = 1"
definition GOAL_ID_MAX :: goal_id where "GOAL_ID_MAX = 63"
definition INITIAL_GOAL_QUEUE_COUNT :: nat where "INITIAL_GOAL_QUEUE_COUNT = 8"

definition GOAL_MASK :: "goal_id \<Rightarrow> goal_mask" where
  "GOAL_MASK g = push_bit g 1"

definition REMOVE_GOAL_FROM_MASK :: "goal_mask \<Rightarrow> goal_id \<Rightarrow> goal_mask" where
  "REMOVE_GOAL_FROM_MASK m g = m AND NOT (GOAL_MASK g)"

definition SET_LOCK_FROM_MASK :: "pending_goal_entry \<Rightarrow> pending_goal_entry" where
  "SET_LOCK_FROM_MASK e = e\<lparr>pe_lock := (if pe_lock_mask e \<noteq> 0 then 1 else 0)\<rparr>"

section \<open>Operations\<close>

definition goalsEngine_ValidateInitParams :: "goal_set_init_params \<Rightarrow> bool" where
  "goalsEngine_ValidateInitParams p \<longleftrightarrow>
     ip_goals p \<noteq> None \<and> \<not> (ip_goals_count p < GOAL_ID_MIN \<or> ip_goals_count p > GOAL_ID_MAX)"

definition GoalsEngine_FindGoalForProcedure :: "goal_set \<Rightarrow> u16 \<Rightarrow> goal_id res" where
  "GoalsEngine_FindGoalForProcedure gs p =
     res_bind (scan (\<lambda>e. proc e = p) (goals gs) 1 (goals_count gs - 1)) panic_null"

text \<open>
  The loop of \<open>goalsEngine_FirstGoalFromMask\<close>. It shifts a 64-bit value, so an iteration
  after the 64th sees zero again, for ever.
\<close>

fun first_goal_loop :: "nat \<Rightarrow> goal_id \<Rightarrow> goal_mask \<Rightarrow> goal_id res" where
  "first_goal_loop 0 goal m = Inl Hang"
| "first_goal_loop (Suc n) goal m =
     (let goal = goal + 1; m = drop_bit 1 m
      in if m AND 1 \<noteq> 0 then Inr goal else first_goal_loop n goal m)"

definition goalsEngine_FirstGoalFromMask :: "goal_set \<Rightarrow> goal_mask \<Rightarrow> goal_id res" where
  "goalsEngine_FirstGoalFromMask gs m =
     (if m = 0 then Inl Panic
      else res_bind (first_goal_loop 64 GOAL_ID_NONE m) (\<lambda>goal.
        if goal < goals_count gs then Inr goal else Inl Panic))"

definition empty_entry :: pending_goal_entry where
  "empty_entry = \<lparr>pe_id = 0, pe_rule_id = 0, pe_lock = 0, pe_lock_mask = 0\<rparr>"

definition goalsEngine_ClearGoalEntry :: "pending_goal_entry \<Rightarrow> pending_goal_entry" where
  "goalsEngine_ClearGoalEntry e = empty_entry"

definition goalsEngine_IsScriptedGoal :: "goal_set \<Rightarrow> goal_id \<Rightarrow> bool res" where
  "goalsEngine_IsScriptedGoal gs goal = res_bind (array_get (goals gs) goal) (\<lambda>e. Inr (proc_script e \<noteq> None))"

definition goalsEngine_GoalCancelsActive :: "goal_set \<Rightarrow> goal_id \<Rightarrow> bool res" where
  "goalsEngine_GoalCancelsActive gs goal =
     res_bind (array_get (goals gs) goal) (\<lambda>e. Inr (contention e = goal_contention_cancel))"

definition goalsEngine_GoalRunsConcurrently :: "goal_set \<Rightarrow> goal_id \<Rightarrow> bool res" where
  "goalsEngine_GoalRunsConcurrently gs goal =
     res_bind (array_get (goals gs) goal) (\<lambda>e. Inr (contention e = goal_contention_concurrent))"

text \<open>The slot for a goal: the one that already holds it, else the first that is free.\<close>

definition queue_index :: "goal_set \<Rightarrow> goal_id \<Rightarrow> nat res" where
  "queue_index gs new_goal =
     res_bind (scan (\<lambda>e. pe_id e = new_goal) (pending_goals gs) 0 (pending_goals_alloc_count gs)) (\<lambda>i.
       case i of Some i \<Rightarrow> Inr i
       | None \<Rightarrow> res_bind (scan (\<lambda>e. pe_id e = GOAL_ID_NONE) (pending_goals gs) 0
                    (pending_goals_alloc_count gs)) panic_null)"

definition copy_goal_data :: "u8 list option \<Rightarrow> nat \<Rightarrow> u8 list option res" where
  "copy_goal_data goal_data n = (case goal_data of None \<Rightarrow> Inr None
     | Some d \<Rightarrow> if n \<le> length d then Inr (Some (take n d)) else Inl BadAccess)"

definition goalsEngine_QueueGoal ::
  "goals_world \<Rightarrow> message_id \<Rightarrow> u8 list option \<Rightarrow> nat \<Rightarrow> goal_mask \<Rightarrow> goal_id \<Rightarrow> goals_world res" where
  "goalsEngine_QueueGoal w rule_id goal_data goal_data_size wait_mask new_goal =
     res_bind (queue_index (gset w) new_goal) (\<lambda>i.
     res_bind (array_set (pending_goals (gset w)) i
         ((SET_LOCK_FROM_MASK ((pending_goals (gset w) ! i)\<lparr>pe_lock_mask := wait_mask\<rparr>))
           \<lparr>pe_rule_id := rule_id, pe_id := new_goal\<rparr>)) (\<lambda>ps.
     res_bind (copy_goal_data goal_data goal_data_size) (\<lambda>message.
       let count = queue_msg_count (gset w) + 1;
           gs = (gset w)\<lparr>pending_goals := ps, queue_msg_count := count,
                  queue_msg_count_max := (if count > queue_msg_count_max (gset w) then count
                                          else queue_msg_count_max (gset w))\<rparr>
       in Inr (w\<lparr>gset := gs, queue := queue w @ [\<lparr>qd_id = rule_id, qd_slot = i, qd_data = message\<rparr>]\<rparr>))))"

definition goalsEngine_DequeGoal :: "goals_world \<Rightarrow> goal_id \<Rightarrow> goals_world res" where
  "goalsEngine_DequeGoal w goal =
     res_bind (scan (\<lambda>e. pe_id e = goal) (pending_goals (gset w)) 0 (pending_goals_alloc_count (gset w))) (\<lambda>i.
       case i of None \<Rightarrow> Inr w
       | Some i \<Rightarrow>
           let entry = pending_goals (gset w) ! i;
               kept = filter (\<lambda>q. qd_id q \<noteq> pe_rule_id entry) (queue w);
               cancelled_count = length (queue w) - length kept
           in Inr (w\<lparr>queue := kept,
                     gset := (gset w)\<lparr>queue_msg_count := queue_msg_count (gset w) - word_of_nat cancelled_count,
                       pending_goals := (pending_goals (gset w))[i := goalsEngine_ClearGoalEntry entry]\<rparr>\<rparr>))"

definition goalsEngine_GoalQueueSize :: "goal_set \<Rightarrow> nat" where
  "goalsEngine_GoalQueueSize gs = unat (queue_msg_count gs)"

definition goalsEngine_GoalCanRunNow :: "goal_set \<Rightarrow> bool \<Rightarrow> bool" where
  "goalsEngine_GoalCanRunNow gs is_new_goal \<longleftrightarrow>
     active_goals_mask gs = 0 \<and> (goalsEngine_GoalQueueSize gs = 0 \<or> \<not> is_new_goal)"

definition GoalsEngine_IsGoalActive :: "goal_set \<Rightarrow> goal_id \<Rightarrow> bool" where
  "GoalsEngine_IsGoalActive gs goal \<longleftrightarrow> active_goals_mask gs AND GOAL_MASK goal = GOAL_MASK goal"

definition GoalsEngine_IsGoalQueued :: "goal_set \<Rightarrow> goal_id \<Rightarrow> bool res" where
  "GoalsEngine_IsGoalQueued gs goal =
     res_bind (scan (\<lambda>e. pe_id e = goal) (pending_goals gs) 0 (pending_goals_alloc_count gs)) (\<lambda>i. Inr (i \<noteq> None))"

definition GoalsEngine_IsAnyGoalPending :: "goal_set \<Rightarrow> bool" where
  "GoalsEngine_IsAnyGoalPending gs \<longleftrightarrow> queue_msg_count gs \<noteq> 0"

definition goalsEngine_CancelGoal :: "goals_world \<Rightarrow> goal_id \<Rightarrow> goals_world res" where
  "goalsEngine_CancelGoal w goal =
     res_bind (goalsEngine_IsScriptedGoal (gset w) goal) (\<lambda>scripted.
       if scripted then
         res_bind (ScriptEngine_CancelScript (engine w) (proc_result_task (gset w)) (proc_cancel_cfm_fn (gset w)))
           (\<lambda>(td, out, _). Inr (w\<lparr>engine := td, outs := outs w @ map GoalScript out\<rparr>))
       else
         res_bind (array_get (goals (gset w)) goal) (\<lambda>e.
           case proc_fns e of None \<Rightarrow> Inl BadAccess
           | Some _ \<Rightarrow> Inr (w\<lparr>outs := outs w @ [GoalProcCancel goal]\<rparr>)))"

definition goalsEngine_HandleExclusiveGoals ::
  "goals_world \<Rightarrow> goal_id \<Rightarrow> goal_mask \<Rightarrow> (goals_world \<times> goal_mask \<times> bool) res" where
  "goalsEngine_HandleExclusiveGoals w new_goal wait_mask =
     res_bind (array_get (goals (gset w)) new_goal) (\<lambda>e.
       let ex = exclusive_goal e in
       if ex \<noteq> GOAL_ID_NONE \<and> ex < goals_count (gset w) \<and> GoalsEngine_IsGoalActive (gset w) ex then
         res_bind (goalsEngine_DequeGoal w ex) (\<lambda>w.
         res_bind (goalsEngine_CancelGoal w ex) (\<lambda>w.
           Inr (w, (if \<not> GoalsEngine_IsGoalActive (gset w) ex
                    then REMOVE_GOAL_FROM_MASK wait_mask ex else wait_mask), True)))
       else Inr (w, wait_mask, False))"

definition goalsEngine_ResetPendingQueueIfEmpty :: "goal_set \<Rightarrow> goal_set" where
  "goalsEngine_ResetPendingQueueIfEmpty gs =
     (if goalsEngine_GoalQueueSize gs = 0
      then gs\<lparr>pending_goals := replicate (pending_goals_alloc_count gs) empty_entry\<rparr> else gs)"

definition goalsEngine_ClearPendingGoalsQueue :: "goals_world \<Rightarrow> goals_world" where
  "goalsEngine_ClearPendingGoalsQueue w =
     w\<lparr>queue := [], gset := goalsEngine_ResetPendingQueueIfEmpty ((gset w)\<lparr>queue_msg_count := 0\<rparr>)\<rparr>"

text \<open>
  The loop that cancels every active goal; each iteration clears a bit of a 64-bit mask.
\<close>

fun cancel_loop :: "nat \<Rightarrow> goals_world \<Rightarrow> goal_mask \<Rightarrow> goals_world res" where
  "cancel_loop n w m =
     (if m = 0 then Inr w
      else case n of 0 \<Rightarrow> Inl Hang
        | Suc n \<Rightarrow>
            res_bind (goalsEngine_FirstGoalFromMask (gset w) m) (\<lambda>goal.
            res_bind (goalsEngine_CancelGoal w goal) (\<lambda>w.
              cancel_loop n w (REMOVE_GOAL_FROM_MASK m goal))))"

definition goalsEngine_CheckIfNewGoalCancelsActiveGoals ::
  "goals_world \<Rightarrow> goal_id \<Rightarrow> goal_mask \<Rightarrow> (goals_world \<times> goal_mask \<times> bool) res" where
  "goalsEngine_CheckIfNewGoalCancelsActiveGoals w new_goal wait_mask =
     (let working_cancel_mask = active_goals_mask (gset w) in
      res_bind (goalsEngine_GoalCancelsActive (gset w) new_goal) (\<lambda>cancels.
        if cancels then
          res_bind (cancel_loop 64 (goalsEngine_ClearPendingGoalsQueue w) working_cancel_mask) (\<lambda>w.
            Inr (w, active_goals_mask (gset w), True))
        else Inr (w, wait_mask, False)))"

definition goalsEngine_HandleDuplicateCancellationGoal ::
  "goals_world \<Rightarrow> goal_id \<Rightarrow> (goals_world \<times> bool) res" where
  "goalsEngine_HandleDuplicateCancellationGoal w new_goal =
     res_bind (goalsEngine_GoalCancelsActive (gset w) new_goal) (\<lambda>cancels.
       if cancels \<and> GoalsEngine_IsGoalActive (gset w) new_goal
       then Inr (goalsEngine_ClearPendingGoalsQueue w, True)
       else Inr (w, False))"

fun concurrent_loop :: "goal_id list \<Rightarrow> goal_mask \<Rightarrow> goal_mask res" where
  "concurrent_loop [] m = Inl BadAccess"
| "concurrent_loop (g # gs) m = (if g = GOAL_ID_NONE then Inr m else concurrent_loop gs (m OR GOAL_MASK g))"

definition goalsEngine_GetConcurrentGoalsMask :: "goal_entry \<Rightarrow> goal_mask res" where
  "goalsEngine_GetConcurrentGoalsMask e =
     (case concurrent_goals e of None \<Rightarrow> Inr 0 | Some gs \<Rightarrow> concurrent_loop gs 0)"

definition goalsEngine_HandleConcurrentGoals ::
  "goal_set \<Rightarrow> goal_id \<Rightarrow> goal_mask \<Rightarrow> (goal_mask \<times> bool) res" where
  "goalsEngine_HandleConcurrentGoals gs new_goal wait_mask =
     res_bind (array_get (goals gs) new_goal) (\<lambda>e.
     res_bind (goalsEngine_GoalRunsConcurrently gs new_goal) (\<lambda>concurrent.
       if concurrent then
         res_bind (goalsEngine_GetConcurrentGoalsMask e) (\<lambda>m. Inr (wait_mask AND NOT m, True))
       else Inr (wait_mask, False)))"

text \<open>One iteration of \<open>goalsEngine_UpdateQueueMasks\<close>.\<close>

definition update_entry :: "goals_world \<Rightarrow> pending_goal_entry \<Rightarrow> pending_goal_entry res" where
  "update_entry w e =
     (if \<not> (\<exists>q \<in> set (queue w). qd_id q = pe_rule_id e) then Inr (goalsEngine_ClearGoalEntry e)
      else if pe_rule_id e \<noteq> 0 then
        res_bind (array_get (goals (gset w)) (pe_id e)) (\<lambda>g.
        res_bind (if contention g = goal_contention_concurrent
                  then res_bind (goalsEngine_GetConcurrentGoalsMask g) (\<lambda>m.
                         Inr (active_goals_mask (gset w) AND NOT m))
                  else Inr (active_goals_mask (gset w))) (\<lambda>wait_mask.
          if wait_mask \<noteq> pe_lock_mask e then Inr (SET_LOCK_FROM_MASK (e\<lparr>pe_lock_mask := wait_mask\<rparr>))
          else Inr e))
      else Inr e)"

definition update_slot :: "nat \<Rightarrow> goals_world \<Rightarrow> goals_world res" where
  "update_slot i w =
     res_bind (array_get (pending_goals (gset w)) i) (\<lambda>e.
     res_bind (update_entry w e) (\<lambda>e.
       Inr (w\<lparr>gset := (gset w)\<lparr>pending_goals := (pending_goals (gset w))[i := e]\<rparr>\<rparr>)))"

definition goalsEngine_UpdateQueueMasks :: "goals_world \<Rightarrow> goals_world res" where
  "goalsEngine_UpdateQueueMasks w =
     (if queue_msg_count (gset w) \<noteq> 0
      then for_res update_slot [0..<pending_goals_alloc_count (gset w)] w else Inr w)"

definition goalsEngine_StartGoal :: "goals_world \<Rightarrow> goal_id \<Rightarrow> u8 list option \<Rightarrow> goals_world res" where
  "goalsEngine_StartGoal w goal goal_data =
     res_bind (array_get (goals (gset w)) goal) (\<lambda>e.
     res_bind (goalsEngine_IsScriptedGoal (gset w) goal) (\<lambda>_.
       let w = w\<lparr>gset := (gset w)\<lparr>active_goals_mask := active_goals_mask (gset w) OR GOAL_MASK goal\<rparr>\<rparr> in
       res_bind (case proc_script e of
           Some s \<Rightarrow>
             res_bind (ScriptEngine_StartScript (engine w) (proc_result_task (gset w)) s (proc e)
                 (proc_start_cfm_fn (gset w)) (proc_complete_cfm_fn (gset w)))
               (\<lambda>(td, out). Inr (w\<lparr>engine := td, outs := outs w @ map GoalScript out\<rparr>))
         | None \<Rightarrow>
             (case proc_fns e of None \<Rightarrow> Inl BadAccess
              | Some _ \<Rightarrow> Inr (w\<lparr>outs := outs w @ [GoalProcStart goal goal_data]\<rparr>)))
         goalsEngine_UpdateQueueMasks))"

definition GoalsEngine_CreateGoalSet :: "goal_set_init_params \<Rightarrow> goal_set res" where
  "GoalsEngine_CreateGoalSet p =
     res_bind (panic_unless (goalsEngine_ValidateInitParams p)) (\<lambda>_.
     res_bind (panic_null (ip_goals p)) (\<lambda>table.
       Inr \<lparr>goals = table, goals_count = ip_goals_count p,
            proc_result_task = ip_proc_result_task p,
            proc_start_cfm_fn = ip_proc_start_cfm_fn p,
            proc_cancel_cfm_fn = ip_proc_cancel_cfm_fn p,
            proc_complete_cfm_fn = ip_proc_complete_cfm_fn p,
            active_goals_mask = 0,
            queue_task = ip_pending_goal_queue_task p,
            queue_msg_count = 0, queue_msg_count_max = 0,
            pending_goals_alloc_count = INITIAL_GOAL_QUEUE_COUNT,
            pending_goals = replicate INITIAL_GOAL_QUEUE_COUNT empty_entry\<rparr>))"

definition start_or_queue ::
  "goals_world \<Rightarrow> bool \<Rightarrow> goal_id \<Rightarrow> message_id \<Rightarrow> u8 list option \<Rightarrow> nat \<Rightarrow> goals_world res" where
  "start_or_queue w is_new_goal new_goal rule_id goal_data goal_data_size =
     (let wait_mask = active_goals_mask (gset w) in
      res_bind (goalsEngine_CheckIfNewGoalCancelsActiveGoals w new_goal wait_mask) (\<lambda>(w, wait_mask, cancels).
        if cancels then
          (if wait_mask = 0 \<and> goalsEngine_GoalCanRunNow (gset w) is_new_goal
           then goalsEngine_StartGoal w new_goal goal_data
           else goalsEngine_QueueGoal w rule_id goal_data goal_data_size wait_mask new_goal)
        else
          res_bind (goalsEngine_HandleConcurrentGoals (gset w) new_goal wait_mask) (\<lambda>(wait_mask, concurrent).
          res_bind (goalsEngine_HandleExclusiveGoals w new_goal wait_mask) (\<lambda>(w, wait_mask, _).
            if concurrent \<and> wait_mask = 0 \<or> goalsEngine_GoalCanRunNow (gset w) is_new_goal
            then goalsEngine_StartGoal w new_goal goal_data
            else goalsEngine_QueueGoal w rule_id goal_data goal_data_size wait_mask new_goal))))"

definition GoalsEngine_ActivateGoal ::
  "goals_world \<Rightarrow> goal_id \<Rightarrow> task \<Rightarrow> message_id \<Rightarrow> u8 list option \<Rightarrow> nat \<Rightarrow> goals_world res" where
  "GoalsEngine_ActivateGoal w new_goal task rule_id goal_data goal_data_size =
     (let is_new_goal = (task \<noteq> queue_task (gset w)) in
      if GOAL_ID_NONE = new_goal then Inr w
      else
        let w = (if \<not> is_new_goal
                 then w\<lparr>gset := (gset w)\<lparr>queue_msg_count := queue_msg_count (gset w) - 1\<rparr>\<rparr> else w) in
        res_bind (goalsEngine_HandleDuplicateCancellationGoal w new_goal) (\<lambda>(w, ignore).
          if ignore then Inr w
          else
            res_bind (if goalsEngine_GoalCanRunNow (gset w) is_new_goal
                      then goalsEngine_StartGoal w new_goal goal_data
                      else start_or_queue w is_new_goal new_goal rule_id goal_data goal_data_size) (\<lambda>w.
              Inr (w\<lparr>gset := goalsEngine_ResetPendingQueueIfEmpty (gset w)\<rparr>))))"

definition clear_goal_entry :: "goal_id \<Rightarrow> pending_goal_entry \<Rightarrow> pending_goal_entry" where
  "clear_goal_entry goal e =
     (if pe_id e \<noteq> GOAL_ID_NONE
      then SET_LOCK_FROM_MASK (e\<lparr>pe_lock_mask := REMOVE_GOAL_FROM_MASK (pe_lock_mask e) goal\<rparr>) else e)"

definition clear_goal_slot :: "goal_id \<Rightarrow> nat \<Rightarrow> goal_set \<Rightarrow> goal_set res" where
  "clear_goal_slot goal i gs =
     res_bind (array_get (pending_goals gs) i) (\<lambda>e.
       Inr (gs\<lparr>pending_goals := (pending_goals gs)[i := clear_goal_entry goal e]\<rparr>))"

definition GoalsEngine_ClearGoal :: "goal_set \<Rightarrow> goal_id \<Rightarrow> goal_set res" where
  "GoalsEngine_ClearGoal gs goal =
     for_res (clear_goal_slot goal) [0..<pending_goals_alloc_count gs]
       (gs\<lparr>active_goals_mask := REMOVE_GOAL_FROM_MASK (active_goals_mask gs) goal\<rparr>)"

definition GoalsEngine_GetGoalCompleteEvent :: "goal_set \<Rightarrow> goal_id \<Rightarrow> procedure_result \<Rightarrow> u64 res" where
  "GoalsEngine_GetGoalCompleteEvent gs goal result =
     res_bind (array_get (goals gs) goal) (\<lambda>e.
       Inr (case result of
              procedure_result_success \<Rightarrow> success_event e
            | procedure_result_timeout \<Rightarrow> timeout_event e
            | procedure_result_failed \<Rightarrow> failed_event e))"

section \<open>Masks\<close>

lemma bit_GOAL_MASK [simp]: "bit (GOAL_MASK g) k \<longleftrightarrow> k = g \<and> g < 64"
  by (auto simp: GOAL_MASK_def bit_simps)

lemma bit_REMOVE [simp]:
  "bit (REMOVE_GOAL_FROM_MASK m g) k \<longleftrightarrow> bit m k \<and> k \<noteq> g"
  using bit_imp_le_length [of m k] by (auto simp: REMOVE_GOAL_FROM_MASK_def bit_simps)

lemma mask_eq_iff_bits: "(m :: goal_mask) = n \<longleftrightarrow> (\<forall>k < 64. bit m k \<longleftrightarrow> bit n k)"
  by (auto simp: bit_eq_iff)

lemma mask_zero_iff: "(m :: goal_mask) = 0 \<longleftrightarrow> (\<forall>k < 64. \<not> bit m k)"
  by (simp add: mask_eq_iff_bits)

lemma is_goal_active_iff: "g < 64 \<Longrightarrow> GoalsEngine_IsGoalActive gs g \<longleftrightarrow> bit (active_goals_mask gs) g"
  by (auto simp: GoalsEngine_IsGoalActive_def mask_eq_iff_bits bit_simps)

lemma sub_mask_iff: "(m :: goal_mask) AND a = m \<longleftrightarrow> (\<forall>k < 64. bit m k \<longrightarrow> bit a k)"
  by (auto simp: mask_eq_iff_bits bit_simps)

text \<open>The goals of a mask, in ascending order.\<close>

definition goals_of :: "goal_mask \<Rightarrow> goal_id list" where
  "goals_of m = filter (bit m) [0..<64]"

lemma first_goal_loop_least:
  assumes "bit m k" and "0 < k" and "\<forall>j. 0 < j \<longrightarrow> j < k \<longrightarrow> \<not> bit m j" and "k \<le> n"
  shows "first_goal_loop n g m = Inr (g + k)"
  using assms
proof (induction n arbitrary: g m k)
  case 0
  then show ?case by simp
next
  case (Suc n)
  have one: "drop_bit 1 m AND 1 \<noteq> 0 \<longleftrightarrow> bit m 1"
    by (simp add: and_one_eq bit_drop_bit_eq [symmetric] odd_iff_mod_2_eq_one [symmetric] bit_0 [symmetric])
      (simp add: bit_drop_bit_eq)
  show ?case
  proof (cases "k = 1")
    case True
    then show ?thesis using one Suc.prems(1) by (simp add: Let_def del: One_nat_def)
  next
    case False
    then obtain k' where k: "k = Suc k'" "0 < k'" using Suc.prems(2) by (cases k) auto
    have nb: "\<not> bit m 1" using Suc.prems(3) False Suc.prems(2) by auto
    have "first_goal_loop n (g + 1) (drop_bit 1 m) = Inr (g + 1 + k')"
    proof (rule Suc.IH)
      show "bit (drop_bit 1 m) k'" using Suc.prems(1) k by (simp add: bit_drop_bit_eq)
      show "\<forall>j. 0 < j \<longrightarrow> j < k' \<longrightarrow> \<not> bit (drop_bit 1 m) j"
        using Suc.prems(3) k by (simp add: bit_drop_bit_eq)
    qed (use Suc.prems(4) k in simp_all)
    then show ?thesis using one nb k by (simp add: Let_def del: One_nat_def)
  qed
qed

text \<open>The masks the engine builds have only bits of goals of the table.\<close>

definition mask_ok :: "goal_set \<Rightarrow> goal_mask \<Rightarrow> bool" where
  "mask_ok gs m \<longleftrightarrow> (\<forall>g < 64. bit m g \<longrightarrow> 0 < g \<and> g < goals_count gs)"

lemma first_goal_from_mask:
  assumes "mask_ok gs m" and "m \<noteq> 0"
  shows "\<exists>g. goalsEngine_FirstGoalFromMask gs m = Inr g \<and> bit m g \<and> 0 < g \<and> g < goals_count gs \<and> g < 64
    \<and> (\<forall>j < g. \<not> bit m j)"
proof -
  define g where "g = (LEAST k. bit m k)"
  obtain k where "bit m k" "k < 64" using assms(2) by (auto simp: mask_zero_iff)
  then have g: "bit m g" "g \<le> k" unfolding g_def by (auto intro: LeastI Least_le)
  have least: "\<not> bit m j" if "j < g" for j using that not_less_Least unfolding g_def by blast
  have "g < 64" using g(2) \<open>k < 64\<close> by simp
  then have range: "0 < g" "g < goals_count gs" using assms(1) g(1) by (auto simp: mask_ok_def)
  have "first_goal_loop 64 GOAL_ID_NONE m = Inr (GOAL_ID_NONE + g)"
    using g(1) range(1) least \<open>g < 64\<close> by (intro first_goal_loop_least) auto
  then have "goalsEngine_FirstGoalFromMask gs m = Inr g"
    using assms(2) range(2) by (simp add: goalsEngine_FirstGoalFromMask_def GOAL_ID_NONE_def)
  with g(1) range \<open>g < 64\<close> least show ?thesis by blast
qed

lemma goals_of_first:
  assumes "bit m g" and "g < 64" and "\<forall>j < g. \<not> bit m j"
  shows "goals_of m = g # goals_of (REMOVE_GOAL_FROM_MASK m g)"
proof -
  have split: "[0..<64] = [0..<g] @ g # [Suc g..<64]"
    using assms(2) by (metis le_add_same_cancel1 less_imp_add_positive less_imp_le_nat upt_add_eq_append upt_conv_Cons zero_le)
  have "filter (bit m) [0..<g] = []" using assms(3) by (simp add: filter_empty_conv)
  moreover have "filter (\<lambda>k. bit m k \<and> k \<noteq> g) [0..<g] = []" using assms(3) by (simp add: filter_empty_conv)
  moreover have "filter (\<lambda>k. bit m k \<and> k \<noteq> g) [Suc g..<64] = filter (bit m) [Suc g..<64]"
    by (intro filter_cong) auto
  moreover have "bit (REMOVE_GOAL_FROM_MASK m g) = (\<lambda>k. bit m k \<and> k \<noteq> g)" by (simp add: fun_eq_iff)
  ultimately show ?thesis unfolding goals_of_def split using assms(1) by simp
qed

lemma goals_of_empty: "goals_of 0 = []"
  by (simp add: goals_of_def)

lemma goals_of_Nil_iff: "goals_of m = [] \<longleftrightarrow> m = 0"
  by (auto simp: goals_of_def filter_empty_conv mask_zero_iff)

section \<open>What the operations keep\<close>

lemma cancel_goal_frame:
  "goalsEngine_CancelGoal w g = Inr w' \<Longrightarrow> gset w' = gset w \<and> queue w' = queue w"
  by (auto simp: goalsEngine_CancelGoal_def res_simps split: if_splits option.splits)

lemma cancel_loop_all:
  assumes "mask_ok (gset w) m" and "length (goals_of m) \<le> n"
  shows "cancel_loop n w m = for_res (\<lambda>g w. goalsEngine_CancelGoal w g) (goals_of m) w"
  using assms
proof (induction n arbitrary: w m)
  case 0
  then show ?case by (simp add: goals_of_empty goals_of_Nil_iff)
next
  case (Suc n)
  show ?case
  proof (cases "m = 0")
    case True
    then show ?thesis by (simp add: goals_of_empty)
  next
    case False
    then obtain g where g: "goalsEngine_FirstGoalFromMask (gset w) m = Inr g" "bit m g" "g < 64" "\<forall>j < g. \<not> bit m j"
      using first_goal_from_mask [OF Suc.prems(1)] by blast
    note first = goals_of_first [OF g(2-4)]
    have "cancel_loop n w' (REMOVE_GOAL_FROM_MASK m g)
       = for_res (\<lambda>g w. goalsEngine_CancelGoal w g) (goals_of (REMOVE_GOAL_FROM_MASK m g)) w'"
      if "goalsEngine_CancelGoal w g = Inr w'" for w'
      using Suc.prems cancel_goal_frame [OF that] first by (intro Suc.IH) (auto simp: mask_ok_def)
    then show ?thesis using False g(1) first
      by (cases "goalsEngine_CancelGoal w g") auto
  qed
qed

lemma length_goals_of: "length (goals_of m) \<le> 64"
  unfolding goals_of_def using length_filter_le [of "bit m" "[0..<64]"] by simp

lemma cancel_loop_64:
  "mask_ok (gset w) m \<Longrightarrow>
   cancel_loop 64 w m = for_res (\<lambda>g w. goalsEngine_CancelGoal w g) (goals_of m) w"
  by (rule cancel_loop_all) (simp_all add: length_goals_of)

section \<open>The invariant\<close>

text \<open>
  A slot locks its decision exactly when its mask has a goal, waits only for goals that are
  active, and is cleared when it is not in use.
\<close>

definition entry_ok :: "goal_set \<Rightarrow> pending_goal_entry \<Rightarrow> bool" where
  "entry_ok gs e \<longleftrightarrow> pe_lock e = (if pe_lock_mask e \<noteq> 0 then 1 else 0)
     \<and> (\<forall>k < 64. bit (pe_lock_mask e) k \<longrightarrow> bit (active_goals_mask gs) k)
     \<and> (pe_id e = 0 \<longrightarrow> e = empty_entry) \<and> pe_id e < goals_count gs"

definition goal_table_ok :: "goal_entry list \<Rightarrow> bool" where
  "goal_table_ok table \<longleftrightarrow> 0 < length table \<and> length table \<le> 63 \<and>
     (\<forall>e \<in> set table. \<forall>cs. concurrent_goals e = Some cs \<longrightarrow> 0 \<in> set cs)"

definition goal_valid :: "goal_set \<Rightarrow> goal_id \<Rightarrow> bool" where
  "goal_valid gs g \<longleftrightarrow> 0 < g \<and> g < goals_count gs"

text \<open>
  The invariant of a goal set: \<open>f\<close> is the topology's map from decision messages to goals.
\<close>

definition gs_ok :: "goal_set \<Rightarrow> bool" where
  "gs_ok gs \<longleftrightarrow> length (pending_goals gs) = pending_goals_alloc_count gs
     \<and> (\<forall>e \<in> set (pending_goals gs). entry_ok gs e)
     \<and> goals_count gs = length (goals gs) \<and> goal_table_ok (goals gs)
     \<and> mask_ok gs (active_goals_mask gs)"

definition queue_ok :: "(message_id \<Rightarrow> goal_id) \<Rightarrow> goals_world \<Rightarrow> bool" where
  "queue_ok f w \<longleftrightarrow> queue_msg_count (gset w) = word_of_nat (length (queue w))
     \<and> (\<forall>q \<in> set (queue w). qd_slot q < pending_goals_alloc_count (gset w) \<and> goal_valid (gset w) (f (qd_id q)))"

definition ge_ok :: "(message_id \<Rightarrow> goal_id) \<Rightarrow> goals_world \<Rightarrow> bool" where
  "ge_ok f w \<longleftrightarrow> gs_ok (gset w) \<and> queue_ok f w"

text \<open>The part of a goal set no operation changes.\<close>

definition same_goals :: "goal_set \<Rightarrow> goal_set \<Rightarrow> bool" where
  "same_goals gs gs' \<longleftrightarrow> goals gs' = goals gs \<and> goals_count gs' = goals_count gs
     \<and> pending_goals_alloc_count gs' = pending_goals_alloc_count gs
     \<and> queue_task gs' = queue_task gs \<and> proc_result_task gs' = proc_result_task gs"

lemma same_goals_refl [simp]: "same_goals gs gs"
  by (simp add: same_goals_def)

lemma same_goals_trans: "same_goals a b \<Longrightarrow> same_goals b c \<Longrightarrow> same_goals a c"
  by (simp add: same_goals_def)

lemma entry_ok_empty: "gs_ok gs \<Longrightarrow> entry_ok gs empty_entry"
  by (simp add: entry_ok_def empty_entry_def gs_ok_def goal_table_ok_def)

lemma entry_ok_lock:
  "pe_id e < goals_count gs \<Longrightarrow> pe_id e \<noteq> 0 \<Longrightarrow>
   (\<And>k. bit m k \<Longrightarrow> bit (active_goals_mask gs) k) \<Longrightarrow>
   entry_ok gs (SET_LOCK_FROM_MASK (e\<lparr>pe_lock_mask := m\<rparr>))"
  by (simp add: entry_ok_def SET_LOCK_FROM_MASK_def)

text \<open>The invariant looks at the active goals, the table and the slots only.\<close>

lemma gs_ok_cong:
  assumes "gs_ok gs" and "same_goals gs gs'" and "active_goals_mask gs' = active_goals_mask gs"
    and "length (pending_goals gs') = length (pending_goals gs)"
    and "\<And>e. e \<in> set (pending_goals gs') \<Longrightarrow> entry_ok gs e"
  shows "gs_ok gs'"
  using assms by (auto simp: gs_ok_def same_goals_def entry_ok_def mask_ok_def)

lemma in_set_update: "x \<in> set (xs[i := y]) \<Longrightarrow> x = y \<or> x \<in> set xs"
  by (metis insertE set_update_subset_insert subsetD)

lemma gs_ok_slot:
  assumes "gs_ok gs" and "same_goals gs gs'" and "active_goals_mask gs' = active_goals_mask gs"
    and "pending_goals gs' = (pending_goals gs)[i := e]" and "entry_ok gs e"
  shows "gs_ok gs'"
proof (rule gs_ok_cong [OF assms(1-3)])
  show "length (pending_goals gs') = length (pending_goals gs)" using assms(4) by simp
  fix x
  assume "x \<in> set (pending_goals gs')"
  then have "x \<in> set ((pending_goals gs)[i := e])" using assms(4) by simp
  then have "x = e \<or> x \<in> set (pending_goals gs)" by (rule in_set_update)
  then show "entry_ok gs x" using assms(1,5) by (auto simp: gs_ok_def)
qed

lemma queue_ok_cong:
  "queue_ok f w \<Longrightarrow> queue w' = queue w \<Longrightarrow> queue_msg_count (gset w') = queue_msg_count (gset w) \<Longrightarrow>
   same_goals (gset w) (gset w') \<Longrightarrow> queue_ok f w'"
  by (auto simp: queue_ok_def same_goals_def goal_valid_def)

lemma queue_index_in:
  "gs_ok gs \<Longrightarrow> queue_index gs g = Inr i \<Longrightarrow> i < length (pending_goals gs)"
  by (auto simp: queue_index_def gs_ok_def scan_all res_simps panic_null_def
      dest: find_index_SomeD split: option.splits)

lemma queue_goal_ok:
  assumes "ge_ok f w" and "goalsEngine_QueueGoal w r d n m g = Inr w'" and "f r = g"
    and "goal_valid (gset w) g" and "\<And>k. bit m k \<Longrightarrow> bit (active_goals_mask (gset w)) k"
  shows "ge_ok f w' \<and> same_goals (gset w) (gset w')
    \<and> active_goals_mask (gset w') = active_goals_mask (gset w) \<and> outs w' = outs w"
proof -
  let ?ps = "pending_goals (gset w)"
  have ok: "gs_ok (gset w)" "queue_ok f w" using assms(1) by (auto simp: ge_ok_def)
  define e where "e i = (SET_LOCK_FROM_MASK ((?ps ! i)\<lparr>pe_lock_mask := m\<rparr>))\<lparr>pe_rule_id := r, pe_id := g\<rparr>" for i
  have e: "entry_ok (gset w) (e i)" for i
    using assms(4,5) by (auto simp: e_def entry_ok_def SET_LOCK_FROM_MASK_def goal_valid_def)
  obtain i msg where i: "queue_index (gset w) g = Inr i" "i < length ?ps" and msg: "copy_goal_data d n = Inr msg"
    using assms(2) by (fastforce simp: goalsEngine_QueueGoal_def res_bind_Inr_iff array_set_Inr_iff)
  define c where "c = queue_msg_count (gset w) + 1"
  have w': "w' = w\<lparr>gset := (gset w)\<lparr>pending_goals := ?ps[i := e i], queue_msg_count := c,
        queue_msg_count_max := (if c > queue_msg_count_max (gset w) then c else queue_msg_count_max (gset w))\<rparr>,
      queue := queue w @ [\<lparr>qd_id = r, qd_slot = i, qd_data = msg\<rparr>]\<rparr>"
    using assms(2) by (simp add: goalsEngine_QueueGoal_def i msg Let_def e_def [symmetric] c_def [symmetric] del: if_split)
  have gs': "same_goals (gset w) (gset w')" "active_goals_mask (gset w') = active_goals_mask (gset w)"
        "pending_goals (gset w') = ?ps[i := e i]" "outs w' = outs w"
        "queue_msg_count (gset w') = queue_msg_count (gset w) + 1"
    unfolding w' by (simp_all add: same_goals_def c_def)
  have q: "queue w' = queue w @ [\<lparr>qd_id = r, qd_slot = i, qd_data = msg\<rparr>]" unfolding w' by simp
  have "gs_ok (gset w')"
    by (rule gs_ok_slot [OF ok(1) gs'(1-3) e])
  moreover have "queue_ok f w'"
    using ok i gs' q assms(3,4) by (auto simp: queue_ok_def same_goals_def goal_valid_def gs_ok_def)
  ultimately show ?thesis using gs' by (simp add: ge_ok_def)
qed

lemma deque_goal_ok:
  assumes "ge_ok f w" and "goalsEngine_DequeGoal w g = Inr w'"
  shows "ge_ok f w' \<and> same_goals (gset w) (gset w')
    \<and> active_goals_mask (gset w') = active_goals_mask (gset w) \<and> outs w' = outs w \<and> engine w' = engine w"
proof -
  have ok: "gs_ok (gset w)" "queue_ok f w" using assms(1) by (auto simp: ge_ok_def)
  have "length (filter P (queue w)) \<le> length (queue w)" for P by (rule length_filter_le)
  then have count: "word_of_nat (length (queue w)) - word_of_nat (length (queue w) - length (filter P (queue w)))
      = (word_of_nat (length (filter P (queue w))) :: u8)" for P
    by (simp add: of_nat_diff)
  have slots: "gs_ok ((gset w)\<lparr>queue_msg_count := c, pending_goals := (pending_goals (gset w))[i := empty_entry]\<rparr>)" for c i
    by (rule gs_ok_slot [OF ok(1) _ _ _ entry_ok_empty [OF ok(1)]]) (simp_all add: same_goals_def)
  have scan: "scan (\<lambda>e. pe_id e = g) (pending_goals (gset w)) 0 (pending_goals_alloc_count (gset w))
      = Inr (find_index (\<lambda>e. pe_id e = g) (pending_goals (gset w)))"
    using ok(1) by (intro scan_all) (simp add: gs_ok_def)
  show ?thesis
  proof (cases "find_index (\<lambda>e. pe_id e = g) (pending_goals (gset w))")
    case None
    then have "w' = w" using assms(2) by (simp add: goalsEngine_DequeGoal_def scan)
    then show ?thesis using assms(1) by simp
  next
    case (Some i)
    define kept where "kept = filter (\<lambda>q. qd_id q \<noteq> pe_rule_id (pending_goals (gset w) ! i)) (queue w)"
    define c where "c = queue_msg_count (gset w) - word_of_nat (length (queue w) - length kept)"
    have w': "w' = w\<lparr>queue := kept, gset := (gset w)\<lparr>queue_msg_count := c,
        pending_goals := (pending_goals (gset w))[i := empty_entry]\<rparr>\<rparr>"
      using assms(2) Some
      by (simp add: goalsEngine_DequeGoal_def scan Let_def kept_def c_def goalsEngine_ClearGoalEntry_def)
    have "c = word_of_nat (length kept)" using ok(2) count by (simp add: c_def queue_ok_def kept_def)
    then have "queue_ok f w'" using ok(2) by (simp add: w' queue_ok_def kept_def goal_valid_def)
    then show ?thesis using slots by (simp add: w' ge_ok_def same_goals_def)
  qed
qed

lemma reset_ok:
  assumes "gs_ok gs"
  shows "gs_ok (goalsEngine_ResetPendingQueueIfEmpty gs)"
proof (cases "goalsEngine_GoalQueueSize gs = 0")
  case True
  then show ?thesis
    using assms entry_ok_empty [OF assms]
    by (intro gs_ok_cong [OF assms]) (auto simp: goalsEngine_ResetPendingQueueIfEmpty_def same_goals_def gs_ok_def)
qed (simp add: goalsEngine_ResetPendingQueueIfEmpty_def assms)

lemma reset_frame:
  "same_goals gs (goalsEngine_ResetPendingQueueIfEmpty gs)"
  "active_goals_mask (goalsEngine_ResetPendingQueueIfEmpty gs) = active_goals_mask gs"
  "queue_msg_count (goalsEngine_ResetPendingQueueIfEmpty gs) = queue_msg_count gs"
  by (simp_all add: goalsEngine_ResetPendingQueueIfEmpty_def same_goals_def)

lemma clear_queue_ok:
  assumes "gs_ok (gset w)"
  shows "ge_ok f (goalsEngine_ClearPendingGoalsQueue w)"
    and "same_goals (gset w) (gset (goalsEngine_ClearPendingGoalsQueue w))"
    and "active_goals_mask (gset (goalsEngine_ClearPendingGoalsQueue w)) = active_goals_mask (gset w)"
    and "outs (goalsEngine_ClearPendingGoalsQueue w) = outs w"
    and "engine (goalsEngine_ClearPendingGoalsQueue w) = engine w"
    and "queue (goalsEngine_ClearPendingGoalsQueue w) = []"
    and "pending_goals (gset (goalsEngine_ClearPendingGoalsQueue w))
      = replicate (pending_goals_alloc_count (gset w)) empty_entry"
proof -
  have "gs_ok ((gset w)\<lparr>queue_msg_count := 0\<rparr>)"
    using assms by (auto simp: gs_ok_def entry_ok_def mask_ok_def)
  then have "gs_ok (goalsEngine_ResetPendingQueueIfEmpty ((gset w)\<lparr>queue_msg_count := 0\<rparr>))" by (rule reset_ok)
  then show "ge_ok f (goalsEngine_ClearPendingGoalsQueue w)"
    by (simp add: goalsEngine_ClearPendingGoalsQueue_def ge_ok_def queue_ok_def reset_frame)
qed (simp_all add: goalsEngine_ClearPendingGoalsQueue_def goalsEngine_ResetPendingQueueIfEmpty_def
    same_goals_def goalsEngine_GoalQueueSize_def)

lemma cancel_goal_ok:
  assumes "ge_ok f w" and "goalsEngine_CancelGoal w g = Inr w'"
  shows "ge_ok f w'" and "same_goals (gset w) (gset w')"
    and "active_goals_mask (gset w') = active_goals_mask (gset w)"
  using assms cancel_goal_frame [OF assms(2)] by (simp_all add: ge_ok_def queue_ok_def)

text \<open>Updating the masks of the queued goals changes the slots only.\<close>

definition slots_only :: "goals_world \<Rightarrow> goals_world \<Rightarrow> bool" where
  "slots_only w w' \<longleftrightarrow> w' = w\<lparr>gset := (gset w)\<lparr>pending_goals := pending_goals (gset w')\<rparr>\<rparr>"

lemma slots_only_refl [simp]: "slots_only w w"
  by (simp add: slots_only_def)

lemma slots_onlyD:
  assumes "slots_only w w'"
  shows "queue w' = queue w" and "outs w' = outs w" and "engine w' = engine w"
    and "active_goals_mask (gset w') = active_goals_mask (gset w)"
    and "queue_msg_count (gset w') = queue_msg_count (gset w)" and "same_goals (gset w) (gset w')"
proof -
  have eq: "w' = w\<lparr>gset := (gset w)\<lparr>pending_goals := pending_goals (gset w')\<rparr>\<rparr>"
    using assms by (simp only: slots_only_def)
  show "queue w' = queue w" "outs w' = outs w" "engine w' = engine w"
    "active_goals_mask (gset w') = active_goals_mask (gset w)"
    "queue_msg_count (gset w') = queue_msg_count (gset w)" "same_goals (gset w) (gset w')"
    by (subst eq, simp add: same_goals_def)+
qed

lemma update_entry_ok:
  assumes "gs_ok (gset w)" and "entry_ok (gset w) e"
  shows "\<exists>e'. update_entry w e = Inr e' \<and> entry_ok (gset w) e'"
proof -
  let ?g = "goals (gset w) ! pe_id e"
  have id: "pe_id e < length (goals (gset w))" using assms by (simp add: entry_ok_def gs_ok_def)
  have conc: "\<exists>m. concurrent_loop cs a = Inr m" if "0 \<in> set cs" for cs a
    using that by (induction cs arbitrary: a) (auto simp: GOAL_ID_NONE_def)
  have "\<exists>m. goalsEngine_GetConcurrentGoalsMask ?g = Inr m"
  proof (cases "concurrent_goals ?g")
    case (Some cs)
    then have "0 \<in> set cs" using assms(1) nth_mem [OF id] by (auto simp: gs_ok_def goal_table_ok_def)
    then show ?thesis using conc Some by (simp add: goalsEngine_GetConcurrentGoalsMask_def)
  qed (simp add: goalsEngine_GetConcurrentGoalsMask_def)
  then obtain m where m: "goalsEngine_GetConcurrentGoalsMask ?g = Inr m" ..
  define wait where "wait = (if contention ?g = goal_contention_concurrent
    then active_goals_mask (gset w) AND NOT m else active_goals_mask (gset w))"
  have wait: "bit (active_goals_mask (gset w)) k" if "bit wait k" for k
    using that by (auto simp: wait_def bit_simps split: if_splits)
  have "entry_ok (gset w) (SET_LOCK_FROM_MASK (e\<lparr>pe_lock_mask := wait\<rparr>))" if "pe_rule_id e \<noteq> 0"
  proof (rule entry_ok_lock [OF _ _ wait])
    show "pe_id e \<noteq> 0" using assms(2) that by (auto simp: entry_ok_def empty_entry_def)
  qed (use assms(2) in \<open>auto simp: entry_ok_def\<close>)
  moreover have "update_entry w e = Inr (
      if \<not> (\<exists>q \<in> set (queue w). qd_id q = pe_rule_id e) then empty_entry
      else if pe_rule_id e \<noteq> 0 \<and> wait \<noteq> pe_lock_mask e then SET_LOCK_FROM_MASK (e\<lparr>pe_lock_mask := wait\<rparr>) else e)"
    using id m by (auto simp: update_entry_def goalsEngine_ClearGoalEntry_def wait_def)
  ultimately show ?thesis using assms entry_ok_empty by simp
qed

lemma update_slot_ok:
  assumes "gs_ok (gset w)" and "i < pending_goals_alloc_count (gset w)"
  shows "\<exists>w'. update_slot i w = Inr w' \<and> gs_ok (gset w') \<and> slots_only w w'"
proof -
  let ?ps = "pending_goals (gset w)"
  have i: "i < length ?ps" using assms by (simp add: gs_ok_def)
  then have "entry_ok (gset w) (?ps ! i)" using assms(1) by (simp add: gs_ok_def)
  then obtain e where e: "update_entry w (?ps ! i) = Inr e" "entry_ok (gset w) e"
    using update_entry_ok [OF assms(1)] by blast
  let ?w = "w\<lparr>gset := (gset w)\<lparr>pending_goals := ?ps[i := e]\<rparr>\<rparr>"
  have "update_slot i w = Inr ?w" using i e(1) by (simp add: update_slot_def)
  moreover have "gs_ok (gset ?w)"
    by (rule gs_ok_slot [OF assms(1) _ _ _ e(2)]) (simp_all add: same_goals_def)
  moreover have "slots_only w ?w" by (simp add: slots_only_def)
  ultimately show ?thesis by blast
qed

lemma slots_only_trans:
  assumes "slots_only a b" and "slots_only b c"
  shows "slots_only a c"
proof -
  have "c = b\<lparr>gset := (gset b)\<lparr>pending_goals := pending_goals (gset c)\<rparr>\<rparr>"
    using assms(2) by (simp only: slots_only_def)
  also have "b = a\<lparr>gset := (gset a)\<lparr>pending_goals := pending_goals (gset b)\<rparr>\<rparr>"
    using assms(1) by (simp only: slots_only_def)
  finally show ?thesis by (simp add: slots_only_def)
qed

lemma update_masks_ok:
  assumes "gs_ok (gset w)"
  shows "\<exists>w'. goalsEngine_UpdateQueueMasks w = Inr w' \<and> gs_ok (gset w') \<and> slots_only w w'"
proof (cases "queue_msg_count (gset w) = 0")
  case True
  then show ?thesis using assms by (simp add: goalsEngine_UpdateQueueMasks_def)
next
  case False
  have "\<exists>t. for_res update_slot [0..<pending_goals_alloc_count (gset w)] w = Inr t
     \<and> (gs_ok (gset t) \<and> slots_only w t)"
  proof (rule for_res_total)
    show "gs_ok (gset w) \<and> slots_only w w" using assms by simp
  next
    fix i u
    assume i: "i \<in> set [0..<pending_goals_alloc_count (gset w)]" and u: "gs_ok (gset u) \<and> slots_only w u"
    then have "i < pending_goals_alloc_count (gset u)"
      using slots_onlyD(6) [of w u] by (simp add: same_goals_def)
    then obtain t where "update_slot i u = Inr t" "gs_ok (gset t)" "slots_only u t"
      using update_slot_ok u by blast
    with u show "\<exists>t. update_slot i u = Inr t \<and> (gs_ok (gset t) \<and> slots_only w t)"
      using slots_only_trans by blast
  qed
  then show ?thesis using False by (simp add: goalsEngine_UpdateQueueMasks_def)
qed

lemma update_masks_D:
  "gs_ok (gset w) \<Longrightarrow> goalsEngine_UpdateQueueMasks w = Inr w' \<Longrightarrow> gs_ok (gset w') \<and> slots_only w w'"
  using update_masks_ok [of w] by auto

text \<open>The world in which a goal has become active.\<close>

definition activated :: "goals_world \<Rightarrow> goal_id \<Rightarrow> goals_world" where
  "activated w g = w\<lparr>gset := (gset w)\<lparr>active_goals_mask := active_goals_mask (gset w) OR GOAL_MASK g\<rparr>\<rparr>"

lemma activated_gs_ok:
  "gs_ok (gset w) \<Longrightarrow> goal_valid (gset w) g \<Longrightarrow> gs_ok (gset (activated w g))"
  by (auto simp: gs_ok_def activated_def mask_ok_def goal_valid_def entry_ok_def bit_simps)

text \<open>What the engine does when it starts a goal; a start of a procedure is one of these outputs.\<close>

definition is_start :: "goals_output \<Rightarrow> bool" where
  "is_start x = (case x of GoalProcStart _ _ \<Rightarrow> True | GoalProcCancel _ \<Rightarrow> False
     | GoalScript y \<Rightarrow> (case y of ProcStart _ _ _ \<Rightarrow> True | _ \<Rightarrow> False))"

lemma start_goal_D:
  assumes "goalsEngine_StartGoal w g d = Inr w'" and "gs_ok (gset w)" and "goal_valid (gset w) g"
  shows "gs_ok (gset w')" and "queue w' = queue w"
    and "queue_msg_count (gset w') = queue_msg_count (gset w)"
    and "active_goals_mask (gset w') = active_goals_mask (gset w) OR GOAL_MASK g"
    and "same_goals (gset w) (gset w')"
proof -
  have "\<exists>u. goalsEngine_UpdateQueueMasks u = Inr w' \<and> gset u = gset (activated w g) \<and> queue u = queue w"
    using assms(1)
    by (force simp: goalsEngine_StartGoal_def res_bind_Inr_iff Let_def activated_def split: option.splits)
  then obtain u where u: "gset u = gset (activated w g)" "queue u = queue w" "goalsEngine_UpdateQueueMasks u = Inr w'"
    by blast
  have "gs_ok (gset u)" using u(1) activated_gs_ok assms(2,3) by simp
  from update_masks_D [OF this u(3)] have up: "gs_ok (gset w')" "slots_only u w'" by auto
  note sl = slots_onlyD [OF up(2)]
  show "gs_ok (gset w')" by (rule up(1))
  show "queue w' = queue w" using sl(1) u(2) by simp
  show "queue_msg_count (gset w') = queue_msg_count (gset w)" using sl(5) u(1) by (simp add: activated_def)
  show "active_goals_mask (gset w') = active_goals_mask (gset w) OR GOAL_MASK g"
    using sl(4) u(1) by (simp add: activated_def)
  show "same_goals (gset w) (gset w')" using sl(6) u(1) by (simp add: activated_def same_goals_def)
qed

lemma start_goal_ok:
  assumes "goalsEngine_StartGoal w g d = Inr w'" and "ge_ok f w" and "goal_valid (gset w) g"
  shows "ge_ok f w'"
proof -
  have "gs_ok (gset w)" "queue_ok f w" using assms(2) by (simp_all add: ge_ok_def)
  note D = start_goal_D [OF assms(1) this(1) assms(3)]
  have "queue_ok f w'" by (rule queue_ok_cong [OF \<open>queue_ok f w\<close> D(2,3,5)])
  then show ?thesis using D(1) by (simp add: ge_ok_def)
qed

lemma start_goal_runs:
  assumes "gs_ok (gset w)" and "goal_valid (gset w) g"
    and "proc_script (goals (gset w) ! g) = None" and "proc_fns (goals (gset w) ! g) \<noteq> None"
  shows "\<exists>w'. goalsEngine_StartGoal w g d = Inr w' \<and> outs w' = outs w @ [GoalProcStart g d]"
proof -
  have g: "g < length (goals (gset w))" using assms(1,2) by (simp add: goal_valid_def gs_ok_def)
  let ?u = "(activated w g)\<lparr>outs := outs w @ [GoalProcStart g d]\<rparr>"
  have "gs_ok (gset ?u)" using activated_gs_ok [OF assms(1,2)] by simp
  then obtain w' where w': "goalsEngine_UpdateQueueMasks ?u = Inr w'" "slots_only ?u w'"
    using update_masks_ok by blast
  have "goalsEngine_StartGoal w g d = goalsEngine_UpdateQueueMasks ?u"
    using g assms(3,4)
    by (auto simp: goalsEngine_StartGoal_def goalsEngine_IsScriptedGoal_def Let_def activated_def)
  with w' slots_onlyD(2) [OF w'(2)] show ?thesis by simp
qed

text \<open>The goals and scripts an engine has started so far.\<close>

definition started :: "goals_world \<Rightarrow> goals_output list" where
  "started w = filter is_start (outs w)"

lemma cancel_goal_started:
  "goalsEngine_CancelGoal w g = Inr w' \<Longrightarrow> started w' = started w"
  by (auto simp: goalsEngine_CancelGoal_def ScriptEngine_CancelScript_def started_def is_start_def res_bind_Inr_iff
      array_get_Inr_iff split: if_splits option.splits)

lemma cancel_for_ok:
  assumes "for_res (\<lambda>g w. goalsEngine_CancelGoal w g) gl w = Inr w'"
  shows "gset w' = gset w \<and> queue w' = queue w \<and> started w' = started w"
  by (rule for_res_invariant [OF assms]) (auto dest: cancel_goal_frame cancel_goal_started)

lemma check_cancels_D:
  assumes "goalsEngine_CheckIfNewGoalCancelsActiveGoals w g m = Inr (w', m', c)" and "gs_ok (gset w)"
  shows "c = (contention (goals (gset w) ! g) = goal_contention_cancel) \<and>
    (if c then
       for_res (\<lambda>g w. goalsEngine_CancelGoal w g) (goals_of (active_goals_mask (gset w)))
         (goalsEngine_ClearPendingGoalsQueue w) = Inr w'
       \<and> gset w' = gset (goalsEngine_ClearPendingGoalsQueue w) \<and> queue w' = []
       \<and> m' = active_goals_mask (gset w) \<and> started w' = started w
     else w' = w \<and> m' = m)"
proof -
  let ?u = "goalsEngine_ClearPendingGoalsQueue w"
  have "mask_ok (gset ?u) (active_goals_mask (gset w))"
    using clear_queue_ok(2) [OF assms(2)] assms(2) by (auto simp: gs_ok_def mask_ok_def same_goals_def)
  note loop = cancel_loop_64 [OF this]
  have act: "active_goals_mask (gset ?u) = active_goals_mask (gset w)" "queue ?u = []" "started ?u = started w"
    using clear_queue_ok(3,4,6) [OF assms(2)] by (simp_all add: started_def)
  show ?thesis
    using assms(1) cancel_for_ok [of "goals_of (active_goals_mask (gset w))" ?u] act
    by (auto simp: goalsEngine_CheckIfNewGoalCancelsActiveGoals_def goalsEngine_GoalCancelsActive_def
        res_bind_Inr_iff array_get_Inr_iff loop Let_def simp del: cancel_loop.simps split: if_splits)
qed

lemma exclusive_D:
  assumes "goalsEngine_HandleExclusiveGoals w g m = Inr (w', m', b)" and "ge_ok f w"
  shows "ge_ok f w' \<and> same_goals (gset w) (gset w') \<and> active_goals_mask (gset w') = active_goals_mask (gset w)
    \<and> m' = m \<and> started w' = started w"
proof (cases "b")
  case False
  then show ?thesis
    using assms by (auto simp: goalsEngine_HandleExclusiveGoals_def res_bind_Inr_iff Let_def split: if_splits)
next
  case True
  then obtain ex u where ex: "GoalsEngine_IsGoalActive (gset w) ex" "goalsEngine_DequeGoal w ex = Inr u"
      "goalsEngine_CancelGoal u ex = Inr w'"
      "m' = (if \<not> GoalsEngine_IsGoalActive (gset w') ex then REMOVE_GOAL_FROM_MASK m ex else m)"
    using assms(1) by (auto simp: goalsEngine_HandleExclusiveGoals_def res_bind_Inr_iff Let_def split: if_splits)
  have d: "ge_ok f u" "same_goals (gset w) (gset u)" "active_goals_mask (gset u) = active_goals_mask (gset w)"
      "started u = started w"
    using deque_goal_ok [OF assms(2) ex(2)] by (auto simp: started_def)
  note c = cancel_goal_ok [OF d(1) ex(3)]
  have act: "active_goals_mask (gset w') = active_goals_mask (gset w)" using c(3) d(3) by simp
  then have "m' = m" using ex(1,4) by (simp add: GoalsEngine_IsGoalActive_def)
  then show ?thesis using c(1,2) d(2,4) act cancel_goal_started [OF ex(3)] same_goals_trans by metis
qed

lemma concurrent_D:
  assumes "goalsEngine_HandleConcurrentGoals gs g m = Inr (m', c)"
  shows "c = (contention (goals gs ! g) = goal_contention_concurrent)"
    and "bit m' k \<Longrightarrow> bit m k"
    and "c \<Longrightarrow> \<exists>cm. goalsEngine_GetConcurrentGoalsMask (goals gs ! g) = Inr cm \<and> m' = m AND NOT cm"
    and "\<not> c \<Longrightarrow> m' = m"
  using assms
  by (auto simp: goalsEngine_HandleConcurrentGoals_def goalsEngine_GoalRunsConcurrently_def
      res_bind_Inr_iff array_get_Inr_iff bit_simps split: if_splits)

text \<open>
  The outcome of deciding about a goal that cannot simply start: it is started in a world
  with the same active goals, and only when none is active or all of them are goals it
  runs beside; or it is queued.
\<close>

definition may_start :: "goal_set \<Rightarrow> goal_id \<Rightarrow> bool" where
  "may_start gs g \<longleftrightarrow> active_goals_mask gs = 0
     \<or> contention (goals gs ! g) = goal_contention_concurrent
       \<and> (\<exists>cm. goalsEngine_GetConcurrentGoalsMask (goals gs ! g) = Inr cm
            \<and> active_goals_mask gs AND NOT cm = 0)"

lemma start_or_queue_D:
  assumes "start_or_queue w new g r d n = Inr w'" and "ge_ok f w"
  shows "\<exists>u. ge_ok f u \<and> same_goals (gset w) (gset u) \<and> active_goals_mask (gset u) = active_goals_mask (gset w) \<and>
    started u = started w \<and> (goalsEngine_StartGoal u g d = Inr w' \<and> may_start (gset w) g
     \<or> (\<exists>m. goalsEngine_QueueGoal u r d n m g = Inr w' \<and> (\<forall>k. bit m k \<longrightarrow> bit (active_goals_mask (gset w)) k)))"
proof -
  have ok: "gs_ok (gset w)" using assms(2) by (simp add: ge_ok_def)
  obtain u m c where check: "goalsEngine_CheckIfNewGoalCancelsActiveGoals w g (active_goals_mask (gset w)) = Inr (u, m, c)"
    and rest: "(if c then if m = 0 \<and> goalsEngine_GoalCanRunNow (gset u) new then goalsEngine_StartGoal u g d
         else goalsEngine_QueueGoal u r d n m g
       else res_bind (goalsEngine_HandleConcurrentGoals (gset u) g m) (\<lambda>(m, cc).
          res_bind (goalsEngine_HandleExclusiveGoals u g m) (\<lambda>(v, m, _).
            if cc \<and> m = 0 \<or> goalsEngine_GoalCanRunNow (gset v) new
            then goalsEngine_StartGoal v g d else goalsEngine_QueueGoal v r d n m g))) = Inr w'"
    using assms(1) by (fastforce simp: start_or_queue_def res_bind_Inr_iff Let_def)
  note chk = check_cancels_D [OF check ok]
  show ?thesis
  proof (cases c)
    case True
    have m: "m = active_goals_mask (gset w)" and u: "gset u = gset (goalsEngine_ClearPendingGoalsQueue w)" "queue u = []"
        "started u = started w"
      using chk True by auto
    have "ge_ok f u" using clear_queue_ok(1) [OF ok, of f] clear_queue_ok(6) [OF ok] u
      by (simp add: ge_ok_def queue_ok_def)
    moreover have "same_goals (gset w) (gset u)" "active_goals_mask (gset u) = active_goals_mask (gset w)"
      using clear_queue_ok(2,3) [OF ok] u by simp_all
    ultimately show ?thesis using rest True m u(3)
      by (intro exI [of _ u]) (auto simp: may_start_def split: if_splits)
  next
    case False
    then have u: "u = w" "m = active_goals_mask (gset w)" using chk by auto
    obtain v m1 m2 cc b where conc: "goalsEngine_HandleConcurrentGoals (gset w) g m = Inr (m1, cc)"
      and ex: "goalsEngine_HandleExclusiveGoals w g m1 = Inr (v, m2, b)"
      and fin: "(if cc \<and> m2 = 0 \<or> goalsEngine_GoalCanRunNow (gset v) new
            then goalsEngine_StartGoal v g d else goalsEngine_QueueGoal v r d n m2 g) = Inr w'"
      using rest False u by (fastforce simp: res_bind_Inr_iff)
    note exd = exclusive_D [OF ex assms(2)]
    note cd = concurrent_D [OF conc]
    have "may_start (gset w) g" if "cc \<and> m2 = 0 \<or> goalsEngine_GoalCanRunNow (gset v) new"
      using that exd cd(1,3) u(2) by (auto simp: may_start_def goalsEngine_GoalCanRunNow_def)
    moreover have "\<forall>k. bit m2 k \<longrightarrow> bit (active_goals_mask (gset w)) k" using cd(2) exd u(2) by auto
    ultimately show ?thesis using exd fin by (intro exI [of _ v]) (auto split: if_splits)
  qed
qed

lemma reset_world_ok:
  assumes "ge_ok f v"
  shows "ge_ok f (v\<lparr>gset := goalsEngine_ResetPendingQueueIfEmpty (gset v)\<rparr>)"
proof -
  have "gs_ok (gset v)" "queue_ok f v" using assms by (simp_all add: ge_ok_def)
  moreover have "queue_ok f (v\<lparr>gset := goalsEngine_ResetPendingQueueIfEmpty (gset v)\<rparr>)"
    by (rule queue_ok_cong [OF calculation(2)]) (simp_all add: reset_frame)
  ultimately show ?thesis by (simp add: ge_ok_def reset_ok)
qed

text \<open>The world as it is once a decision taken from the queue is accounted for.\<close>

definition taken :: "goals_world \<Rightarrow> task \<Rightarrow> goals_world" where
  "taken w t = (if t = queue_task (gset w)
     then w\<lparr>gset := (gset w)\<lparr>queue_msg_count := queue_msg_count (gset w) - 1\<rparr>\<rparr> else w)"

lemma taken_frame:
  "same_goals (gset w) (gset (taken w t))" "active_goals_mask (gset (taken w t)) = active_goals_mask (gset w)"
  "started (taken w t) = started w" "goals (gset (taken w t)) = goals (gset w)" "outs (taken w t) = outs w"
  "queue (taken w t) = queue w"
  by (simp_all add: taken_def same_goals_def started_def)

lemma may_start_cong:
  "same_goals gs gs' \<Longrightarrow> active_goals_mask gs' = active_goals_mask gs \<Longrightarrow> may_start gs' g = may_start gs g"
  by (simp add: may_start_def same_goals_def)

lemma activate_unfold:
  assumes "g \<noteq> 0"
  shows "GoalsEngine_ActivateGoal w g t r d n =
    res_bind (goalsEngine_HandleDuplicateCancellationGoal (taken w t) g) (\<lambda>(w', ignore).
      if ignore then Inr w' else
        res_bind (if goalsEngine_GoalCanRunNow (gset w') (t \<noteq> queue_task (gset w))
                  then goalsEngine_StartGoal w' g d
                  else start_or_queue w' (t \<noteq> queue_task (gset w)) g r d n) (\<lambda>v.
          Inr (v\<lparr>gset := goalsEngine_ResetPendingQueueIfEmpty (gset v)\<rparr>)))"
  using assms by (simp add: GoalsEngine_ActivateGoal_def GOAL_ID_NONE_def taken_def Let_def cong: if_cong)

text \<open>
  What activating a goal comes to: the queue is dropped for a cancelling goal that already
  runs, or the goal starts, or it is queued.
\<close>

lemma activate_cases:
  assumes "GoalsEngine_ActivateGoal w g t r d n = Inr w'" and "goal_valid (gset w) g" and "ge_ok f (taken w t)"
  obtains (dropped) "w' = goalsEngine_ClearPendingGoalsQueue (taken w t)"
  | (starts) u v where "ge_ok f u" "same_goals (gset w) (gset u)"
      "active_goals_mask (gset u) = active_goals_mask (gset w)"
      "goalsEngine_StartGoal u g d = Inr v" "w' = v\<lparr>gset := goalsEngine_ResetPendingQueueIfEmpty (gset v)\<rparr>"
      "may_start (gset w) g"
  | (queued) u v m where "ge_ok f u" "same_goals (gset w) (gset u)"
      "active_goals_mask (gset u) = active_goals_mask (gset w)" "started u = started w"
      "goalsEngine_QueueGoal u r d n m g = Inr v" "w' = v\<lparr>gset := goalsEngine_ResetPendingQueueIfEmpty (gset v)\<rparr>"
      "\<forall>k. bit m k \<longrightarrow> bit (active_goals_mask (gset w)) k"
proof -
  let ?w = "taken w t" and ?new = "t \<noteq> queue_task (gset w)"
  have g: "g \<noteq> 0" using assms(2) by (simp add: goal_valid_def)
  obtain u ignore where dup: "goalsEngine_HandleDuplicateCancellationGoal ?w g = Inr (u, ignore)"
    and rest: "(if ignore then Inr u else
        res_bind (if goalsEngine_GoalCanRunNow (gset u) ?new then goalsEngine_StartGoal u g d
                  else start_or_queue u ?new g r d n) (\<lambda>v.
          Inr (v\<lparr>gset := goalsEngine_ResetPendingQueueIfEmpty (gset v)\<rparr>))) = Inr w'"
    using assms(1) unfolding activate_unfold [OF g] by (fastforce simp: res_bind_Inr_iff)
  show thesis
  proof (cases ignore)
    case True
    then have "u = goalsEngine_ClearPendingGoalsQueue ?w"
      using dup by (auto simp: goalsEngine_HandleDuplicateCancellationGoal_def res_bind_Inr_iff split: if_splits)
    then show thesis using rest True by (intro dropped) simp
  next
    case False
    then have u: "u = ?w"
      using dup by (auto simp: goalsEngine_HandleDuplicateCancellationGoal_def res_bind_Inr_iff split: if_splits)
    obtain v where v: "(if goalsEngine_GoalCanRunNow (gset ?w) ?new then goalsEngine_StartGoal ?w g d
        else start_or_queue ?w ?new g r d n) = Inr v"
      and w': "w' = v\<lparr>gset := goalsEngine_ResetPendingQueueIfEmpty (gset v)\<rparr>"
      using rest False u by (auto simp: res_bind_Inr_iff)
    note same = may_start_cong [OF taken_frame(1,2)]
    show thesis
    proof (cases "goalsEngine_GoalCanRunNow (gset ?w) ?new")
      case True
      then show thesis using v w' assms(3)
        by (intro starts [of ?w v]) (auto simp: taken_frame may_start_def goalsEngine_GoalCanRunNow_def)
    next
      case False
      then have "start_or_queue ?w ?new g r d n = Inr v" using v by simp
      from start_or_queue_D [OF this assms(3)] obtain x where x: "ge_ok f x" "same_goals (gset w) (gset x)"
        "active_goals_mask (gset x) = active_goals_mask (gset w)" "started x = started w"
        "goalsEngine_StartGoal x g d = Inr v \<and> may_start (gset w) g
          \<or> (\<exists>m. goalsEngine_QueueGoal x r d n m g = Inr v \<and> (\<forall>k. bit m k \<longrightarrow> bit (active_goals_mask (gset w)) k))"
        unfolding taken_frame(2,3) same using same_goals_trans [OF taken_frame(1)] by metis
      from x(5) show thesis
      proof (elim disjE exE conjE)
        assume "goalsEngine_StartGoal x g d = Inr v" "may_start (gset w) g"
        then show thesis using x(1-3) w' by (intro starts)
      next
        fix m
        assume "goalsEngine_QueueGoal x r d n m g = Inr v" "\<forall>k. bit m k \<longrightarrow> bit (active_goals_mask (gset w)) k"
        then show thesis using x(1-4) w' by (intro queued)
      qed
    qed
  qed
qed

lemma activate_D:
  assumes "GoalsEngine_ActivateGoal w g t r d n = Inr w'" and "goal_valid (gset w) g" and "ge_ok f (taken w t)"
    and "f r = g"
  shows "ge_ok f w' \<and> same_goals (gset w) (gset w')
    \<and> (active_goals_mask (gset w') = active_goals_mask (gset w) \<and> started w' = started w
       \<or> active_goals_mask (gset w') = active_goals_mask (gset w) OR GOAL_MASK g \<and> may_start (gset w) g)"
  using assms(1-3)
proof (cases rule: activate_cases)
  case dropped
  have "gs_ok (gset (taken w t))" using assms(3) by (simp add: ge_ok_def)
  from clear_queue_ok(1) [OF this, of f] clear_queue_ok(2-4) [OF this] dropped taken_frame(1-3)
  show ?thesis using same_goals_trans [OF taken_frame(1)] by (simp add: started_def)
next
  case (starts u v)
  have valid: "goal_valid (gset u) g" using assms(2) starts(2) by (simp add: goal_valid_def same_goals_def)
  have "gs_ok (gset u)" using starts(1) by (simp add: ge_ok_def)
  note D = start_goal_D [OF starts(4) this valid]
  have "ge_ok f v" by (rule start_goal_ok [OF starts(4,1) valid])
  then show ?thesis
    using reset_world_ok D(4,5) starts(2,3,5,6) same_goals_trans reset_frame by (metis (no_types, lifting)
      goals_world.ext_inject goals_world.surjective goals_world.update_convs(1))
next
  case (queued u v m)
  have valid: "goal_valid (gset u) g" using assms(2) queued(2) by (simp add: goal_valid_def same_goals_def)
  from queue_goal_ok [OF queued(1,5) assms(4) valid] queued(3,7)
  have v: "ge_ok f v" "same_goals (gset u) (gset v)" "active_goals_mask (gset v) = active_goals_mask (gset u)"
    "outs v = outs u" by auto
  have "same_goals (gset w) (goalsEngine_ResetPendingQueueIfEmpty (gset v))"
    using same_goals_trans [OF same_goals_trans [OF queued(2) v(2)] reset_frame(1)] .
  moreover have "started w' = started w" using queued(4,6) v(4) by (simp add: started_def)
  ultimately show ?thesis using reset_world_ok [OF v(1)] v(3) queued(3,6) by (simp add: reset_frame)
qed

subsection \<open>Which goals become active\<close>

text \<open>What the parts of \<open>GoalsEngine_ActivateGoal\<close> leave as it is, in whatever state they run.\<close>

definition same_active :: "goals_world \<Rightarrow> goals_world \<Rightarrow> bool" where
  "same_active w w' \<longleftrightarrow> goals (gset w') = goals (gset w) \<and> queue_task (gset w') = queue_task (gset w)
     \<and> active_goals_mask (gset w') = active_goals_mask (gset w)"

lemma same_active_refl [simp]: "same_active w w"
  by (simp add: same_active_def)

lemma same_active_trans: "same_active a b \<Longrightarrow> same_active b c \<Longrightarrow> same_active a c"
  by (simp add: same_active_def)

lemma same_active_gset: "gset w' = gset w \<Longrightarrow> same_active w w'"
  by (simp add: same_active_def)

lemma update_slot_active: "update_slot i w = Inr w' \<Longrightarrow> same_active w w'"
  by (auto simp: update_slot_def res_bind_Inr_iff same_active_def)

lemma update_masks_active:
  assumes "goalsEngine_UpdateQueueMasks w = Inr w'"
  shows "same_active w w'"
proof (cases "queue_msg_count (gset w) = 0")
  case False
  then have "for_res update_slot [0..<pending_goals_alloc_count (gset w)] w = Inr w'"
    using assms by (simp add: goalsEngine_UpdateQueueMasks_def)
  then show ?thesis
    by (rule for_res_invariant) (auto intro: same_active_trans update_slot_active)
qed (use assms in \<open>simp add: goalsEngine_UpdateQueueMasks_def\<close>)

lemma queue_goal_active: "goalsEngine_QueueGoal w r d n m g = Inr w' \<Longrightarrow> same_active w w'"
  by (auto simp: goalsEngine_QueueGoal_def res_bind_Inr_iff Let_def same_active_def)

lemma deque_goal_active: "goalsEngine_DequeGoal w g = Inr w' \<Longrightarrow> same_active w w'"
  by (auto simp: goalsEngine_DequeGoal_def res_bind_Inr_iff Let_def same_active_def split: option.splits)

lemma clear_queue_active [simp]: "same_active w (goalsEngine_ClearPendingGoalsQueue w)"
  by (simp add: goalsEngine_ClearPendingGoalsQueue_def goalsEngine_ResetPendingQueueIfEmpty_def same_active_def)

lemma reset_queue_active [simp]: "same_active w (w\<lparr>gset := goalsEngine_ResetPendingQueueIfEmpty (gset w)\<rparr>)"
  by (simp add: goalsEngine_ResetPendingQueueIfEmpty_def same_active_def)

lemma cancel_loop_active: "cancel_loop n w m = Inr w' \<Longrightarrow> gset w' = gset w"
proof (induction n arbitrary: w m)
  case 0
  then show ?case by (simp split: if_splits)
next
  case (Suc n)
  show ?case
  proof (cases "m = 0")
    case False
    then obtain g v where "goalsEngine_CancelGoal w g = Inr v" "cancel_loop n v (REMOVE_GOAL_FROM_MASK m g) = Inr w'"
      using Suc.prems by (auto simp: res_bind_Inr_iff simp del: cancel_loop.simps simp: cancel_loop.simps [of "Suc n"])
    then show ?thesis using Suc.IH cancel_goal_frame by metis
  qed (use Suc.prems in simp)
qed

lemma exclusive_active:
  assumes "goalsEngine_HandleExclusiveGoals w g m = Inr (w', m', b)"
  shows "same_active w w'" and "m' = m"
proof -
  have "same_active w w' \<and> m' = m"
  proof (cases b)
    case False
    then show ?thesis
      using assms by (auto simp: goalsEngine_HandleExclusiveGoals_def res_bind_Inr_iff Let_def split: if_splits)
  next
    case True
    then obtain ex v where ex: "GoalsEngine_IsGoalActive (gset w) ex" "goalsEngine_DequeGoal w ex = Inr v"
        "goalsEngine_CancelGoal v ex = Inr w'"
        "m' = (if \<not> GoalsEngine_IsGoalActive (gset w') ex then REMOVE_GOAL_FROM_MASK m ex else m)"
      using assms by (auto simp: goalsEngine_HandleExclusiveGoals_def res_bind_Inr_iff Let_def split: if_splits)
    have "same_active w w'"
      using deque_goal_active [OF ex(2)] cancel_goal_frame [OF ex(3)] by (simp add: same_active_def)
    then show ?thesis using ex(1,4) by (simp add: same_active_def GoalsEngine_IsGoalActive_def)
  qed
  then show "same_active w w'" "m' = m" by auto
qed

lemma start_goal_active:
  assumes "goalsEngine_StartGoal w g d = Inr w'"
  shows "same_active (activated w g) w'"
proof -
  have "\<exists>v. goalsEngine_UpdateQueueMasks v = Inr w' \<and> gset v = gset (activated w g)"
    using assms by (force simp: goalsEngine_StartGoal_def res_bind_Inr_iff Let_def activated_def split: option.splits)
  then obtain v where v: "goalsEngine_UpdateQueueMasks v = Inr w'" "gset v = gset (activated w g)" by blast
  show ?thesis using update_masks_active [OF v(1)] v(2) by (simp add: same_active_def)
qed

lemma check_cancels_active:
  assumes "goalsEngine_CheckIfNewGoalCancelsActiveGoals w g m = Inr (w', m', c)"
  shows "same_active w w'" and "m' = (if c then active_goals_mask (gset w) else m)"
proof -
  have "same_active w w' \<and> m' = (if c then active_goals_mask (gset w') else m)"
  proof (cases c)
    case False
    then show ?thesis using assms
      by (auto simp: goalsEngine_CheckIfNewGoalCancelsActiveGoals_def res_bind_Inr_iff Let_def
          simp del: cancel_loop.simps split: if_splits)
  next
    case True
    then have w: "cancel_loop 64 (goalsEngine_ClearPendingGoalsQueue w) (active_goals_mask (gset w)) = Inr w'"
        "m' = active_goals_mask (gset w')"
      using assms by (auto simp: goalsEngine_CheckIfNewGoalCancelsActiveGoals_def res_bind_Inr_iff Let_def
          simp del: cancel_loop.simps split: if_splits)
    show ?thesis
      using True w(2) same_active_trans [OF clear_queue_active same_active_gset [OF cancel_loop_active [OF w(1)]]]
      by simp
  qed
  then show "same_active w w'" "m' = (if c then active_goals_mask (gset w) else m)"
    by (auto simp: same_active_def)
qed

text \<open>
  Whatever the state: activating a goal leaves the active goals as they are, or adds the
  goal to them when none is active or it may run beside all of them.
\<close>

definition may_add :: "goals_world \<Rightarrow> goal_id \<Rightarrow> goals_world \<Rightarrow> bool" where
  "may_add w g w' \<longleftrightarrow> goals (gset w') = goals (gset w) \<and> queue_task (gset w') = queue_task (gset w)
     \<and> (active_goals_mask (gset w') = active_goals_mask (gset w)
        \<or> active_goals_mask (gset w') = active_goals_mask (gset w) OR GOAL_MASK g \<and> may_start (gset w) g)"

lemma may_add_same: "same_active w w' \<Longrightarrow> may_add w g w'"
  by (simp add: may_add_def same_active_def)

lemma may_add_start:
  "goalsEngine_StartGoal v g d = Inr w' \<Longrightarrow> same_active w v \<Longrightarrow> may_start (gset w) g \<Longrightarrow> may_add w g w'"
  by (drule start_goal_active) (simp add: may_add_def same_active_def activated_def)

lemma may_add_queue:
  "goalsEngine_QueueGoal v r d n m g = Inr w' \<Longrightarrow> same_active w v \<Longrightarrow> may_add w g w'"
  by (drule queue_goal_active) (simp add: may_add_def same_active_def)

lemma may_add_left: "same_active v w \<Longrightarrow> may_add w g w' \<Longrightarrow> may_add v g w'"
  by (simp add: may_add_def same_active_def may_start_def)

lemma may_add_right: "may_add v g w \<Longrightarrow> same_active w w' \<Longrightarrow> may_add v g w'"
  by (simp add: may_add_def same_active_def)

lemma start_or_queue_active:
  assumes "start_or_queue w new g r d n = Inr w'"
  shows "may_add w g w'"
proof -
  obtain a m c where check: "goalsEngine_CheckIfNewGoalCancelsActiveGoals w g (active_goals_mask (gset w)) = Inr (a, m, c)"
    and rest: "(if c then if m = 0 \<and> goalsEngine_GoalCanRunNow (gset a) new then goalsEngine_StartGoal a g d
         else goalsEngine_QueueGoal a r d n m g
       else res_bind (goalsEngine_HandleConcurrentGoals (gset a) g m) (\<lambda>(m, cc).
          res_bind (goalsEngine_HandleExclusiveGoals a g m) (\<lambda>(v, m, _).
            if cc \<and> m = 0 \<or> goalsEngine_GoalCanRunNow (gset v) new
            then goalsEngine_StartGoal v g d else goalsEngine_QueueGoal v r d n m g))) = Inr w'"
    using assms by (fastforce simp: start_or_queue_def res_bind_Inr_iff Let_def)
  note chk = check_cancels_active [OF check]
  show ?thesis
  proof (cases c)
    case True
    show ?thesis
    proof (cases "m = 0 \<and> goalsEngine_GoalCanRunNow (gset a) new")
      case go: True
      then show ?thesis using rest True chk by (intro may_add_start [of a g d]) (auto simp: may_start_def)
    next
      case wait: False
      then show ?thesis using rest True chk(1) by (auto intro: may_add_queue)
    qed
  next
    case False
    then obtain v m1 m2 cc b where conc: "goalsEngine_HandleConcurrentGoals (gset a) g m = Inr (m1, cc)"
      and ex: "goalsEngine_HandleExclusiveGoals a g m1 = Inr (v, m2, b)"
      and fin: "(if cc \<and> m2 = 0 \<or> goalsEngine_GoalCanRunNow (gset v) new
            then goalsEngine_StartGoal v g d else goalsEngine_QueueGoal v r d n m2 g) = Inr w'"
      using rest by (fastforce simp: res_bind_Inr_iff)
    have v: "same_active w v" using same_active_trans [OF chk(1) exclusive_active(1) [OF ex]] .
    have "may_start (gset w) g" if "cc \<and> m2 = 0 \<or> goalsEngine_GoalCanRunNow (gset v) new"
      using that v chk False concurrent_D(1,3) [OF conc] exclusive_active(2) [OF ex]
      by (auto simp: may_start_def goalsEngine_GoalCanRunNow_def same_active_def)
    then show ?thesis using fin v
      by (cases "cc \<and> m2 = 0 \<or> goalsEngine_GoalCanRunNow (gset v) new") (auto intro: may_add_start may_add_queue)
  qed
qed

lemma activate_active:
  assumes "GoalsEngine_ActivateGoal w g t r d n = Inr w'"
  shows "may_add w g w'"
proof (cases "g = 0")
  case True
  then show ?thesis using assms by (simp add: GoalsEngine_ActivateGoal_def GOAL_ID_NONE_def may_add_same)
next
  case False
  let ?new = "t \<noteq> queue_task (gset w)"
  obtain a ignore where dup: "goalsEngine_HandleDuplicateCancellationGoal (taken w t) g = Inr (a, ignore)"
    and rest: "(if ignore then Inr a else
        res_bind (if goalsEngine_GoalCanRunNow (gset a) ?new then goalsEngine_StartGoal a g d
                  else start_or_queue a ?new g r d n) (\<lambda>v.
          Inr (v\<lparr>gset := goalsEngine_ResetPendingQueueIfEmpty (gset v)\<rparr>))) = Inr w'"
    using assms unfolding activate_unfold [OF False] by (fastforce simp: res_bind_Inr_iff)
  have "same_active w (taken w t)" by (simp add: taken_def same_active_def)
  moreover have "same_active (taken w t) a"
    using dup by (auto simp: goalsEngine_HandleDuplicateCancellationGoal_def res_bind_Inr_iff split: if_splits)
  ultimately have a: "same_active w a" by (rule same_active_trans)
  show ?thesis
  proof (cases ignore)
    case True
    then show ?thesis using rest a by (simp add: may_add_same)
  next
    case False
    then obtain v where v: "(if goalsEngine_GoalCanRunNow (gset a) ?new then goalsEngine_StartGoal a g d
        else start_or_queue a ?new g r d n) = Inr v"
      and w': "w' = v\<lparr>gset := goalsEngine_ResetPendingQueueIfEmpty (gset v)\<rparr>"
      using rest by (auto simp: res_bind_Inr_iff)
    have "may_add a g v"
      using v may_add_start [of a g d v a] start_or_queue_active [of a]
      by (auto simp: may_start_def goalsEngine_GoalCanRunNow_def split: if_splits)
    then show ?thesis unfolding w' by (rule may_add_right [OF may_add_left [OF a] reset_queue_active])
  qed
qed

subsection \<open>Clearing a goal\<close>

lemma clear_goal_slots:
  assumes "length (pending_goals gs) = pending_goals_alloc_count gs"
  shows "GoalsEngine_ClearGoal gs g =
    Inr (gs\<lparr>active_goals_mask := REMOVE_GOAL_FROM_MASK (active_goals_mask gs) g,
            pending_goals := map (clear_goal_entry g) (pending_goals gs)\<rparr>)"
proof -
  let ?gs = "gs\<lparr>active_goals_mask := REMOVE_GOAL_FROM_MASK (active_goals_mask gs) g\<rparr>"
  have "for_res (clear_goal_slot g) [0..<n] ?gs = Inr (?gs\<lparr>pending_goals :=
      map (clear_goal_entry g) (take n (pending_goals gs)) @ drop n (pending_goals gs)\<rparr>)"
    if "n \<le> length (pending_goals gs)" for n
    using that
  proof (induction n)
    case 0
    show ?case by simp
  next
    case (Suc n)
    then have n: "n < length (pending_goals gs)" by simp
    have "clear_goal_slot g n (?gs\<lparr>pending_goals :=
        map (clear_goal_entry g) (take n (pending_goals gs)) @ drop n (pending_goals gs)\<rparr>)
      = Inr (?gs\<lparr>pending_goals := (map (clear_goal_entry g) (take n (pending_goals gs)) @ drop n (pending_goals gs))
          [n := clear_goal_entry g (pending_goals gs ! n)]\<rparr>)"
      using n by (simp add: clear_goal_slot_def nth_append)
    moreover have "(map (clear_goal_entry g) (take n (pending_goals gs)) @ drop n (pending_goals gs))
          [n := clear_goal_entry g (pending_goals gs ! n)]
      = map (clear_goal_entry g) (take (Suc n) (pending_goals gs)) @ drop (Suc n) (pending_goals gs)"
      using n by (simp add: list_update_append take_Suc_conv_app_nth Cons_nth_drop_Suc [symmetric])
    ultimately show ?case using Suc by (simp add: for_res_append)
  qed
  from this [of "length (pending_goals gs)"] assms show ?thesis by (simp add: GoalsEngine_ClearGoal_def)
qed

lemma clear_goal_ok:
  assumes "gs_ok gs" and "GoalsEngine_ClearGoal gs g = Inr gs'"
  shows "gs_ok gs'" and "same_goals gs gs'" and "queue_msg_count gs' = queue_msg_count gs"
    and "active_goals_mask gs' = REMOVE_GOAL_FROM_MASK (active_goals_mask gs) g"
proof -
  have len: "length (pending_goals gs) = pending_goals_alloc_count gs" using assms(1) by (simp add: gs_ok_def)
  have gs': "gs' = gs\<lparr>active_goals_mask := REMOVE_GOAL_FROM_MASK (active_goals_mask gs) g,
      pending_goals := map (clear_goal_entry g) (pending_goals gs)\<rparr>"
    using assms(2) clear_goal_slots [OF len] by simp
  have "entry_ok gs' (clear_goal_entry g e)" if "e \<in> set (pending_goals gs)" for e
  proof -
    have e: "entry_ok gs e" using that assms(1) by (simp add: gs_ok_def)
    show ?thesis
    proof (cases "pe_id e = 0")
      case True
      then have "clear_goal_entry g e = empty_entry" "pe_id e < goals_count gs"
        using e by (auto simp: entry_ok_def clear_goal_entry_def GOAL_ID_NONE_def)
      then show ?thesis using True by (simp add: gs' entry_ok_def empty_entry_def)
    next
      case False
      then show ?thesis
        using e by (simp add: gs' clear_goal_entry_def GOAL_ID_NONE_def SET_LOCK_FROM_MASK_def entry_ok_def)
    qed
  qed
  then show "gs_ok gs'"
    using assms(1) by (auto simp: gs_ok_def gs' mask_ok_def)
qed (use assms clear_goal_slots [of gs g] in \<open>auto simp: gs_ok_def same_goals_def\<close>)

section \<open>The engine as a state machine\<close>

text \<open>
  The topology passes a rule decision to the engine as the goal it stands for, with its
  payload; a decision held in the queue is delivered again once its lock is released; a
  goal is cleared when its procedure has completed or been cancelled; and the script engine
  goes on with its own events. \<open>t\<close> is the task of the topology, \<open>f\<close> its map from decision
  messages to goals.
\<close>

datatype goals_event =
    Decision message_id "u8 list option"
  | Deliver nat
  | Clear goal_id
  | ScriptEvent script_event

definition data_size :: "u8 list option \<Rightarrow> nat" where
  "data_size d = (case d of None \<Rightarrow> 0 | Some xs \<Rightarrow> length xs)"

definition deliverable :: "goals_world \<Rightarrow> nat \<Rightarrow> bool" where
  "deliverable w k \<longleftrightarrow> k < length (queue w) \<and> pe_lock (pending_goals (gset w) ! qd_slot (queue w ! k)) = 0"

definition goals_step :: "(message_id \<Rightarrow> goal_id) \<Rightarrow> task \<Rightarrow> goals_world \<Rightarrow> goals_event \<Rightarrow> goals_world res" where
  "goals_step f t w e = (case e of
     Decision r d \<Rightarrow> GoalsEngine_ActivateGoal w (f r) t r d (data_size d)
   | Deliver k \<Rightarrow>
       if deliverable w k then
         let q = queue w ! k in
         GoalsEngine_ActivateGoal (w\<lparr>queue := remove_at k (queue w)\<rparr>) (f (qd_id q)) (queue_task (gset w))
           (qd_id q) (qd_data q) (data_size (qd_data q))
       else Inr w
   | Clear g \<Rightarrow> res_bind (GoalsEngine_ClearGoal (gset w) g) (\<lambda>gs. Inr (w\<lparr>gset := gs\<rparr>))
   | ScriptEvent se \<Rightarrow> res_bind (script_step (engine w) se) (\<lambda>(td, _). Inr (w\<lparr>engine := td\<rparr>)))"

text \<open>A panic resets the device; no event follows it.\<close>

definition goals_next :: "(message_id \<Rightarrow> goal_id) \<Rightarrow> task \<Rightarrow> goals_world \<Rightarrow> goals_event \<Rightarrow> goals_world" where
  "goals_next f t w e = (case goals_step f t w e of Inr w' \<Rightarrow> w' | Inl _ \<Rightarrow> w)"

text \<open>
  What the topology guarantees: decisions stand for goals of the table or for none, and it
  is not itself the queue task.
\<close>

definition topology_ok :: "(message_id \<Rightarrow> goal_id) \<Rightarrow> task \<Rightarrow> goal_set \<Rightarrow> bool" where
  "topology_ok f t gs \<longleftrightarrow> (\<forall>r. f r < goals_count gs) \<and> t \<noteq> queue_task gs"

lemma set_remove_at_subset: "set (remove_at k xs) \<subseteq> set xs"
  by (auto simp: remove_at_def dest: in_set_takeD in_set_dropD)

lemma taken_delivered_ok:
  assumes "ge_ok f w" and "k < length (queue w)"
  shows "ge_ok f (taken (w\<lparr>queue := remove_at k (queue w)\<rparr>) (queue_task (gset w)))"
proof -
  have "word_of_nat (length (queue w)) - 1 = (word_of_nat (length (queue w) - 1) :: u8)"
    using assms(2) by (cases "length (queue w)") simp_all
  then show ?thesis
    using assms set_remove_at_subset [of k "queue w"]
    by (auto simp: ge_ok_def queue_ok_def gs_ok_def entry_ok_def mask_ok_def taken_def goal_valid_def)
qed

lemma goals_step_D:
  assumes "ge_ok f w" and "topology_ok f t (gset w)" and "goals_step f t w e = Inr w'"
  shows "ge_ok f w' \<and> same_goals (gset w) (gset w') \<and>
    ((\<forall>k. bit (active_goals_mask (gset w')) k \<longrightarrow> bit (active_goals_mask (gset w)) k) \<and> started w' = started w
     \<or> (\<exists>g. goal_valid (gset w) g \<and> active_goals_mask (gset w') = active_goals_mask (gset w) OR GOAL_MASK g
          \<and> may_start (gset w) g))"
proof (cases e)
  case (Decision r d)
  have taken: "taken w t = w" using assms(2) by (auto simp: taken_def topology_ok_def)
  show ?thesis
  proof (cases "f r = 0")
    case True
    then have "w' = w" using assms(3) Decision by (simp add: goals_step_def GoalsEngine_ActivateGoal_def GOAL_ID_NONE_def)
    then show ?thesis using assms(1) by simp
  next
    case False
    then have valid: "goal_valid (gset w) (f r)" using assms(2) by (simp add: goal_valid_def topology_ok_def)
    have "GoalsEngine_ActivateGoal w (f r) t r d (data_size d) = Inr w'"
      using assms(3) Decision by (simp add: goals_step_def)
    from activate_D [OF this valid, of f] assms(1) taken valid show ?thesis by auto
  qed
next
  case (Deliver k)
  show ?thesis
  proof (cases "deliverable w k")
    case True
    let ?q = "queue w ! k" and ?u = "w\<lparr>queue := remove_at k (queue w)\<rparr>"
    have k: "k < length (queue w)" using True by (simp add: deliverable_def)
    then have valid: "goal_valid (gset ?u) (f (qd_id ?q))" using assms(1) by (simp add: ge_ok_def queue_ok_def)
    have "GoalsEngine_ActivateGoal ?u (f (qd_id ?q)) (queue_task (gset w)) (qd_id ?q) (qd_data ?q) (data_size (qd_data ?q))
      = Inr w'" using assms(3) Deliver True by (simp add: goals_step_def Let_def)
    from activate_D [OF this valid taken_delivered_ok [OF assms(1) k]] valid show ?thesis
      by (auto simp: started_def)
  next
    case False
    then have "w' = w" using assms(3) Deliver by (simp add: goals_step_def)
    then show ?thesis using assms(1) by simp
  qed
next
  case (Clear g)
  then obtain gs where gs: "GoalsEngine_ClearGoal (gset w) g = Inr gs" "w' = w\<lparr>gset := gs\<rparr>"
    using assms(3) by (auto simp: goals_step_def res_bind_Inr_iff)
  have "gs_ok (gset w)" "queue_ok f w" using assms(1) by (simp_all add: ge_ok_def)
  note D = clear_goal_ok [OF this(1) gs(1)]
  have "queue_ok f w'" by (rule queue_ok_cong [OF \<open>queue_ok f w\<close>]) (simp_all add: gs(2) D)
  then show ?thesis using D gs(2) by (simp add: ge_ok_def started_def)
next
  case (ScriptEvent se)
  then obtain td where "w' = w\<lparr>engine := td\<rparr>"
    using assms(3) by (auto simp: goals_step_def res_bind_Inr_iff)
  then show ?thesis using assms(1) by (simp add: ge_ok_def queue_ok_def started_def)
qed

text \<open>A goal set just created, with no decision queued and the script engine idle.\<close>

definition goals_start :: "goal_set \<Rightarrow> goals_world" where
  "goals_start gs = \<lparr>gset = gs, queue = [], engine = script_engine_zero, outs = []\<rparr>"

lemma created_ok:
  assumes "GoalsEngine_CreateGoalSet p = Inr gs" and "ip_goals p = Some table"
    and "ip_goals_count p = length table" and "goal_table_ok table"
  shows "gs_ok gs" and "active_goals_mask gs = 0" and "queue_msg_count gs = 0"
    and "goals gs = table" and "goals_count gs = length table"
    and "queue_task gs = ip_pending_goal_queue_task p"
  using assms
  by (auto simp: GoalsEngine_CreateGoalSet_def res_bind_Inr_iff gs_ok_def mask_ok_def entry_ok_def empty_entry_def
      goal_table_ok_def)

lemma goals_reactive:
  assumes "gs_ok gs" and "queue_msg_count gs = 0" and "topology_ok f t gs"
  shows "reactive (goals_start gs) (goals_next f t)
    (\<lambda>w. ge_ok f w \<and> topology_ok f t (gset w) \<and> same_goals gs (gset w))"
proof
  show "ge_ok f (goals_start gs) \<and> topology_ok f t (gset (goals_start gs)) \<and> same_goals gs (gset (goals_start gs))"
    using assms by (simp add: goals_start_def ge_ok_def queue_ok_def)
next
  fix w e
  assume w: "ge_ok f w \<and> topology_ok f t (gset w) \<and> same_goals gs (gset w)"
  show "ge_ok f (goals_next f t w e) \<and> topology_ok f t (gset (goals_next f t w e))
    \<and> same_goals gs (gset (goals_next f t w e))"
  proof (cases "goals_step f t w e")
    case (Inr w')
    then show ?thesis using goals_step_D [of f w t e w'] w
      by (auto simp: goals_next_def topology_ok_def same_goals_def)
  qed (use w in \<open>simp add: goals_next_def\<close>)
qed

lemma goals_run_ok:
  assumes "GoalsEngine_CreateGoalSet p = Inr gs" and "ip_goals p = Some table"
    and "ip_goals_count p = length table" and "goal_table_ok table" and "topology_ok f t gs"
  shows "ge_ok f (foldl (goals_next f t) (goals_start gs) es)
    \<and> topology_ok f t (gset (foldl (goals_next f t) (goals_start gs) es))
    \<and> same_goals gs (gset (foldl (goals_next f t) (goals_start gs) es))"
  by (rule reactive.run_ok [OF goals_reactive [OF created_ok(1,3) [OF assms(1-4)] assms(5)]])

section \<open>Properties\<close>

text \<open>An example: a waiting goal, one that runs beside it, and one that cancels.\<close>

definition example_goal :: "u16 \<Rightarrow> goal_contention \<Rightarrow> goal_id list option \<Rightarrow> goal_entry" where
  "example_goal p c cs = \<lparr>proc = p, contention = c, exclusive_goal = 0, success_event = 1, timeout_event = 2,
     failed_event = 4, proc_fns = Some (unat p), proc_script = None, concurrent_goals = cs\<rparr>"

definition example_table :: "goal_entry list" where
  "example_table = [example_goal 0 goal_contention_wait None, example_goal 1 goal_contention_wait None,
     example_goal 2 goal_contention_concurrent (Some [1, 0]), example_goal 3 goal_contention_cancel None]"

definition example_params :: goal_set_init_params where
  "example_params = \<lparr>ip_goals = Some example_table, ip_goals_count = 4, ip_proc_result_task = 1,
     ip_proc_start_cfm_fn = 1, ip_proc_cancel_cfm_fn = 2, ip_proc_complete_cfm_fn = 3,
     ip_pending_goal_queue_task = 2\<rparr>"

definition example_gs :: goal_set where
  "example_gs = projr (GoalsEngine_CreateGoalSet example_params)"

definition example_rule :: "message_id \<Rightarrow> goal_id" where
  "example_rule r = (if r < 4 then r else 0)"

definition example_run :: "goals_event list \<Rightarrow> goals_world" where
  "example_run es = foldl (goals_next example_rule 1) (goals_start example_gs) es"

lemma example_created:
  "GoalsEngine_CreateGoalSet example_params = Inr example_gs"
  "ip_goals example_params = Some example_table" "ip_goals_count example_params = length example_table"
  "goal_table_ok example_table" "topology_ok example_rule 1 example_gs"
  by (auto simp: example_gs_def example_params_def GoalsEngine_CreateGoalSet_def goalsEngine_ValidateInitParams_def
      GOAL_ID_MIN_def GOAL_ID_MAX_def example_table_def example_goal_def goal_table_ok_def topology_ok_def
      example_rule_def)

text \<open>
  The first goal of a mask: for a non-empty mask of goals of the table,
  \<open>goalsEngine_FirstGoalFromMask\<close> ends and returns the goal of the least significant bit.
\<close>

theorem goals_first_goal:
  assumes "m \<noteq> 0" and "\<forall>g < 64. bit m g \<longrightarrow> 0 < g \<and> g < goals_count gs"
  shows "\<exists>g. goalsEngine_FirstGoalFromMask gs m = Inr g \<and> bit m g \<and> (\<forall>j < g. \<not> bit m j)"
proof -
  have "mask_ok gs m" using assms(2) by (simp add: mask_ok_def)
  from first_goal_from_mask [OF this assms(1)] show ?thesis by blast
qed

theorem goals_first_goal_witness:
  "\<exists>g. goalsEngine_FirstGoalFromMask example_gs 0b1010 = Inr g \<and> bit (0b1010 :: goal_mask) g
    \<and> (\<forall>j < g. \<not> bit (0b1010 :: goal_mask) j)"
proof (rule goals_first_goal)
  show "\<forall>g < 64. bit (0b1010 :: goal_mask) g \<longrightarrow> 0 < g \<and> g < goals_count example_gs"
  proof -
    have "\<forall>g \<in> set [0..<64]. bit (0b1010 :: goal_mask) g \<longrightarrow> 0 < g \<and> g < goals_count example_gs" by code_simp
    then show ?thesis unfolding set_upt by simp
  qed
qed simp


lemma example_concurrent:
  "goals_step example_rule 1 (example_run [Decision 1 None]) (Decision 2 None)
    = Inr (example_run [Decision 1 None, Decision 2 None])"
  "active_goals_mask (gset (example_run [Decision 1 None])) = 2"
  "active_goals_mask (gset (example_run [Decision 1 None, Decision 2 None])) = 6"
  by (code_simp, code_simp, code_simp)



lemma example_idle:
  "active_goals_mask (gset (example_run [Decision 1 None, Decision 3 None, Clear 1])) = 0"
  "length (queue (example_run [Decision 1 None, Decision 3 None, Clear 1])) = 1"
  "example_rule (qd_id (queue (example_run [Decision 1 None, Decision 3 None, Clear 1]) ! 0)) = 3"
  "proc_script (example_table ! 3) = None \<and> proc_fns (example_table ! 3) \<noteq> None"
  by (code_simp, code_simp, code_simp, code_simp)


lemma cancel_for_plain:
  assumes "\<forall>g \<in> set gl. g < length (goals (gset w)) \<and> proc_script (goals (gset w) ! g) = None
    \<and> proc_fns (goals (gset w) ! g) \<noteq> None"
  shows "for_res (\<lambda>g w. goalsEngine_CancelGoal w g) gl w = Inr (w\<lparr>outs := outs w @ map GoalProcCancel gl\<rparr>)"
  using assms
proof (induction gl arbitrary: w)
  case Nil
  show ?case by simp
next
  case (Cons g gl)
  then have "goalsEngine_CancelGoal w g = Inr (w\<lparr>outs := outs w @ [GoalProcCancel g]\<rparr>)"
    by (auto simp: goalsEngine_CancelGoal_def goalsEngine_IsScriptedGoal_def)
  with Cons show ?case by simp
qed

text \<open>
  A cancelling goal that finds others active: every one of them is cancelled, and the goal
  takes the first slot of the empty queue.
\<close>

lemma cancelling_goal_check:
  assumes "gs_ok (gset w)" and "active_goals_mask (gset w) = m" and "goals (gset w) = table"
    and "g < length table" and "contention (table ! g) = goal_contention_cancel"
    and "\<forall>g < length table. bit m g \<longrightarrow> proc_script (table ! g) = None \<and> proc_fns (table ! g) \<noteq> None"
  shows "goalsEngine_CheckIfNewGoalCancelsActiveGoals w g m = Inr
    ((goalsEngine_ClearPendingGoalsQueue w)\<lparr>outs := outs w @ map GoalProcCancel (goals_of m)\<rparr>, m, True)"
proof -
  let ?c = "goalsEngine_ClearPendingGoalsQueue w"
  let ?u = "?c\<lparr>outs := outs w @ map GoalProcCancel (goals_of m)\<rparr>"
  note c = clear_queue_ok [OF assms(1)]
  have "\<forall>g \<in> set (goals_of m). g < length (goals (gset ?c)) \<and> proc_script (goals (gset ?c) ! g) = None
    \<and> proc_fns (goals (gset ?c) ! g) \<noteq> None"
    using assms(1,2,3,6) c(2) by (auto simp: goals_of_def gs_ok_def mask_ok_def same_goals_def)
  from cancel_for_plain [OF this] have loop: "for_res (\<lambda>g w. goalsEngine_CancelGoal w g) (goals_of m) ?c = Inr ?u"
    using c(4) by simp
  have "mask_ok (gset ?c) m" using assms(1,2) c(2) by (auto simp: gs_ok_def mask_ok_def same_goals_def)
  from cancel_loop_64 [OF this] loop have "cancel_loop 64 ?c m = Inr ?u" by (simp only:)
  then show ?thesis
    using assms(2-5) c(3)
    by (simp add: goalsEngine_CheckIfNewGoalCancelsActiveGoals_def goalsEngine_GoalCancelsActive_def
        del: cancel_loop.simps)
qed

lemma queue_in_empty:
  assumes "pending_goals (gset w) = replicate 8 empty_entry" and "pending_goals_alloc_count (gset w) = 8"
    and "queue w = []" and "queue_msg_count (gset w) = 0" and "g \<noteq> 0"
  shows "\<exists>v. goalsEngine_QueueGoal w r d (data_size d) m g = Inr v \<and> outs v = outs w
    \<and> queue v = [\<lparr>qd_id = r, qd_slot = 0, qd_data = d\<rparr>] \<and> active_goals_mask (gset v) = active_goals_mask (gset w)
    \<and> pe_lock_mask (pending_goals (gset v) ! 0) = m \<and> queue_msg_count (gset v) = 1"
proof -
  have "find_index (\<lambda>e. pe_id e = g) (replicate 8 empty_entry) = None"
    using assms(5) by (simp add: find_index_None_iff empty_entry_def)
  moreover have "find_index (\<lambda>e. pe_id e = GOAL_ID_NONE) (replicate 8 empty_entry) = Some 0"
    by (simp add: eval_nat_numeral empty_entry_def GOAL_ID_NONE_def)
  ultimately have idx: "queue_index (gset w) g = Inr 0"
    using assms(1,2) by (simp add: queue_index_def scan_all)
  have "copy_goal_data d (data_size d) = Inr d" by (simp add: copy_goal_data_def data_size_def split: option.splits)
  then show ?thesis
    using idx assms(1-4) by (simp add: goalsEngine_QueueGoal_def SET_LOCK_FROM_MASK_def Let_def)
qed

text \<open>
  A cancelling goal: when a decision for it arrives while other goals are active, each
  active goal is told to cancel exactly once, in the order of the table, everything that
  was queued is dropped, and the decision itself is the only one left in the queue, with
  its payload, locked until all the goals that were active have been cleared.
\<close>

theorem goals_cancel_all:
  assumes "GoalsEngine_CreateGoalSet p = Inr gs" and "ip_goals p = Some table"
    and "ip_goals_count p = length table" and "goal_table_ok table" and "topology_ok f t gs"
    and "w = foldl (goals_next f t) (goals_start gs) es" and "active_goals_mask (gset w) = m" and "m \<noteq> 0"
    and "goal_valid gs (f r)" and "contention (table ! f r) = goal_contention_cancel" and "\<not> bit m (f r)"
    and "\<forall>g < length table. bit m g \<longrightarrow> proc_script (table ! g) = None \<and> proc_fns (table ! g) \<noteq> None"
  shows "\<exists>w'. goals_step f t w (Decision r d) = Inr w' \<and> outs w' = outs w @ map GoalProcCancel (goals_of m)
    \<and> queue w' = [\<lparr>qd_id = r, qd_slot = 0, qd_data = d\<rparr>] \<and> active_goals_mask (gset w') = m
    \<and> pe_lock_mask (pending_goals (gset w') ! 0) = m"
proof -
  have ok: "gs_ok (gset w)" "topology_ok f t (gset w)" "same_goals gs (gset w)"
    using goals_run_ok [OF assms(1-5)] assms(6) by (auto simp: ge_ok_def)
  have tab: "goals (gset w) = table" "length table = goals_count (gset w)" "length table \<le> 63"
    using ok(1,3) created_ok(4) [OF assms(1-4)] assms(4) by (simp_all add: same_goals_def gs_ok_def goal_table_ok_def)
  have alloc: "pending_goals_alloc_count (gset w) = 8"
    using ok(3) assms(1) by (auto simp: same_goals_def GoalsEngine_CreateGoalSet_def INITIAL_GOAL_QUEUE_COUNT_def res_bind_Inr_iff)
  have g: "f r \<noteq> 0" "f r < length table" using assms(9) ok(3) tab by (auto simp: goal_valid_def same_goals_def)
  have taken: "taken w t = w" using ok(2) by (auto simp: taken_def topology_ok_def)
  let ?c = "goalsEngine_ClearPendingGoalsQueue w"
  let ?u = "?c\<lparr>outs := outs w @ map GoalProcCancel (goals_of m)\<rparr>"
  note c = clear_queue_ok [OF ok(1)]
  note check = cancelling_goal_check [OF ok(1) assms(7) tab(1) g(2) assms(10,12)]
  have slots: "pending_goals (gset ?u) = replicate 8 empty_entry" "pending_goals_alloc_count (gset ?u) = 8"
    "queue ?u = []" "queue_msg_count (gset ?u) = 0"
    using c(2,6,7) alloc by (simp_all add: same_goals_def goalsEngine_ClearPendingGoalsQueue_def reset_frame)
  obtain v where v: "goalsEngine_QueueGoal ?u r d (data_size d) m (f r) = Inr v" "outs v = outs ?u"
      "queue v = [\<lparr>qd_id = r, qd_slot = 0, qd_data = d\<rparr>]" "active_goals_mask (gset v) = m"
      "pe_lock_mask (pending_goals (gset v) ! 0) = m" "queue_msg_count (gset v) = 1"
    using queue_in_empty [OF slots g(1), of r d m] c(3) assms(7) by auto
  have "start_or_queue w True (f r) r d (data_size d) = Inr v"
    using check v(1) assms(7,8) by (simp add: start_or_queue_def)
  moreover have "goalsEngine_HandleDuplicateCancellationGoal w (f r) = Inr (w, False)"
    using g tab assms(7,11) by (simp add: goalsEngine_HandleDuplicateCancellationGoal_def
        goalsEngine_GoalCancelsActive_def is_goal_active_iff)
  moreover have "\<not> goalsEngine_GoalCanRunNow (gset w) True" using assms(7,8) by (simp add: goalsEngine_GoalCanRunNow_def)
  moreover have "t \<noteq> queue_task (gset w)" using ok(2) by (simp add: topology_ok_def)
  ultimately have "goals_step f t w (Decision r d) = Inr (v\<lparr>gset := goalsEngine_ResetPendingQueueIfEmpty (gset v)\<rparr>)"
    by (simp add: goals_step_def activate_unfold [OF g(1)] taken)
  moreover have "goalsEngine_ResetPendingQueueIfEmpty (gset v) = gset v"
    using v(6) by (simp add: goalsEngine_ResetPendingQueueIfEmpty_def goalsEngine_GoalQueueSize_def)
  ultimately show ?thesis using v by simp
qed

lemma example_active:
  "active_goals_mask (gset (example_run [Decision 1 None, Decision 2 None])) = 6"
  "goal_valid example_gs (example_rule 3)"
  "contention (example_table ! example_rule 3) = goal_contention_cancel"
  "\<not> bit (6 :: goal_mask) (example_rule 3)"
  "\<forall>g \<in> set [0..<length example_table]. bit (6 :: goal_mask) g \<longrightarrow>
     proc_script (example_table ! g) = None \<and> proc_fns (example_table ! g) \<noteq> None"
  "goals_of 6 = [1, 2]"
  by (code_simp, code_simp, code_simp, code_simp, code_simp, code_simp)

theorem goals_cancel_all_witness:
  "\<exists>w'. goals_step example_rule 1 (example_run [Decision 1 None, Decision 2 None]) (Decision 3 None) = Inr w'
    \<and> outs w' = outs (example_run [Decision 1 None, Decision 2 None]) @ [GoalProcCancel 1, GoalProcCancel 2]
    \<and> queue w' = [\<lparr>qd_id = 3, qd_slot = 0, qd_data = None\<rparr>]"
proof -
  have "\<forall>g < length example_table. bit (6 :: goal_mask) g \<longrightarrow>
      proc_script (example_table ! g) = None \<and> proc_fns (example_table ! g) \<noteq> None"
    using example_active(5) unfolding set_upt by simp
  from goals_cancel_all [OF example_created example_run_def example_active(1) _ example_active(2-4) this, of None]
  show ?thesis unfolding example_active(6) by auto
qed

end
