(* ===== verification/Stereo_Procedures.thy ===== *)
theory Stereo_Procedures
  imports Script_Engine
begin

text \<open>
  The procedures of the headset's topology
  (\<^verbatim>\<open>adk/src/topologies/stereo_topology/procedures/*.c\<close>) and the delayed confirmations they use
  (\<^verbatim>\<open>adk/src/topologies/common/procedures/procedures.c\<close>).

  A procedure is started and cancelled by its caller, a goal or a script, and confirms to
  it through callbacks. The callbacks are named, calling one is an effect, and so are the
  requests to the handset service, the connection manager and the advertising manager.
  Messages that are posted wait in \<open>mbox\<close>, in the order in which they were sent.
\<close>

section \<open>Model\<close>

datatype callback = CbGoal | CbScript

definition stereo_topology_procedure_enable_connectable_handset :: u16 where
  "stereo_topology_procedure_enable_connectable_handset = 1"
definition stereo_topology_procedure_allow_handset_connection :: u16 where
  "stereo_topology_procedure_allow_handset_connection = 2"
definition stereo_topology_procedure_connect_handset :: u16 where
  "stereo_topology_procedure_connect_handset = 3"
definition stereo_topology_procedure_disconnect_handset :: u16 where
  "stereo_topology_procedure_disconnect_handset = 4"
definition stereo_topology_procedure_allow_le_connection :: u16 where
  "stereo_topology_procedure_allow_le_connection = 5"
definition stereo_topology_procedure_system_stop :: u16 where
  "stereo_topology_procedure_system_stop = 6"
definition stereo_topology_procedure_start_stop_script :: u16 where
  "stereo_topology_procedure_start_stop_script = 7"
definition stereo_topology_procedure_send_message_to_topology :: u16 where
  "stereo_topology_procedure_send_message_to_topology = 8"
definition stereo_topology_procedure_disconnect_le :: u16 where
  "stereo_topology_procedure_disconnect_le = 9"
definition stereo_topology_procedure_disconnect_lru_handset :: u16 where
  "stereo_topology_procedure_disconnect_lru_handset = 10"

lemmas proc_ids = stereo_topology_procedure_enable_connectable_handset_def
  stereo_topology_procedure_allow_handset_connection_def stereo_topology_procedure_connect_handset_def
  stereo_topology_procedure_disconnect_handset_def stereo_topology_procedure_allow_le_connection_def
  stereo_topology_procedure_system_stop_def stereo_topology_procedure_start_stop_script_def
  stereo_topology_procedure_send_message_to_topology_def stereo_topology_procedure_disconnect_le_def
  stereo_topology_procedure_disconnect_lru_handset_def

text \<open>A delayed confirmation: its message id, the function to call and the arguments.\<close>

record delay_cfm =
  dc_id :: u16
  dc_fn :: callback
  dc_proc :: u16
  dc_result :: procedure_result

datatype post =
    PostDelay delay_cfm
  | PostTopology message_id
  | PostDecision message_id "u8 list option"

datatype handset_service_status = handset_service_status_success | handset_service_status_failed
  | handset_service_status_cancelled | handset_service_status_no_mru | handset_service_status_connected
  | handset_service_status_disconnected | handset_service_status_link_loss

datatype service_call =
    ConManagerAllowHandsetConnect bool
  | HandsetService_ConnectableRequest
  | HandsetService_CancelConnectableRequest
  | HandsetService_DisconnectAll
  | HandsetService_DisconnectLruHandsetRequest
  | HandsetService_ReconnectRequest
  | HandsetService_ReconnectLinkLossRequest
  | HandsetService_StopReconnect
  | HandsetService_ClientRegister
  | HandsetService_ClientUnregister
  | HandsetService_SetBleConnectable bool
  | ConManagerDisconnectAllLeConnectionsRequest
  | ConManagerAllowConnectionBle bool
  | LeAdvertisingManager_AllowAdvertising bool
  | SendHandsetDisconnectedIndication handset_service_status

text \<open>
  What a procedure does, in order: a request to a service, a call of one of the callbacks it
  was given, and a reset of its own data after such a call.
\<close>

datatype reset = ResetDisconnectHandset | ResetDisconnectLe | ResetConnectComplete | ResetConnectCancel | ResetAllowLe

datatype proc_effect =
    Service service_call
  | StartConfirm callback u16 procedure_result
  | CompleteCall callback u16 procedure_result
  | CancelCall callback u16 procedure_result
  | ResetCall reset

record stereo_procs =
  mbox :: "post list"
  connectable_enable :: bool
  dh_complete_fn :: "callback option"
  dl_complete_fn :: "callback option"
  ch_complete_fn :: "callback option"
  ch_cancel_fn :: "callback option"
  al_complete_fn :: "callback option"
  al_cancel_fn :: "callback option"
  le_connectable :: bool
  le_advertising :: bool

subsection \<open>Delayed confirmations\<close>

definition PROCEDURE_ID_MAX :: u16 where "PROCEDURE_ID_MAX = 0xFF"
definition DELAY_COMPLETE_CFM :: u16 where "DELAY_COMPLETE_CFM = 0x100"
definition DELAY_CANCEL_CFM :: u16 where "DELAY_CANCEL_CFM = 0x200"

definition MESSAGE_ID_TO_DELAY_CFM_TYPE :: "u16 \<Rightarrow> u16" where
  "MESSAGE_ID_TO_DELAY_CFM_TYPE mid = mid AND (DELAY_COMPLETE_CFM OR DELAY_CANCEL_CFM)"

definition PROC_ID_TO_DELAY_CFM_MESSAGE_ID :: "u16 \<Rightarrow> u16 \<Rightarrow> u16" where
  "PROC_ID_TO_DELAY_CFM_MESSAGE_ID p base = base + p"

definition Procedures_DelayedCompleteCfmCallback ::
  "post list \<Rightarrow> callback \<Rightarrow> u16 \<Rightarrow> procedure_result \<Rightarrow> post list res" where
  "Procedures_DelayedCompleteCfmCallback mb comp_fn p result =
     res_bind (panic_unless (PROCEDURE_ID_MAX \<ge> p)) (\<lambda>_.
       Inr (mb @ [PostDelay \<lparr>dc_id = PROC_ID_TO_DELAY_CFM_MESSAGE_ID p DELAY_COMPLETE_CFM, dc_fn = comp_fn,
          dc_proc = p, dc_result = result\<rparr>]))"

text \<open>\<open>MessageCancelAll\<close> on the task of the delayed confirmations.\<close>

definition cancel_delayed :: "u16 \<Rightarrow> post list \<Rightarrow> post list" where
  "cancel_delayed mid mb = filter (\<lambda>m. case m of PostDelay c \<Rightarrow> dc_id c \<noteq> mid | _ \<Rightarrow> True) mb"

definition Procedures_DelayedCancelCfmCallback ::
  "post list \<Rightarrow> callback \<Rightarrow> u16 \<Rightarrow> procedure_result \<Rightarrow> post list res" where
  "Procedures_DelayedCancelCfmCallback mb cfm_fn p result =
     res_bind (panic_unless (PROCEDURE_ID_MAX \<ge> p)) (\<lambda>_.
       Inr (cancel_delayed (PROC_ID_TO_DELAY_CFM_MESSAGE_ID p DELAY_COMPLETE_CFM)
         (mb @ [PostDelay \<lparr>dc_id = PROC_ID_TO_DELAY_CFM_MESSAGE_ID p DELAY_CANCEL_CFM, dc_fn = cfm_fn,
            dc_proc = p, dc_result = result\<rparr>])))"

definition Procedures_DelayCfmHandleMessage :: "delay_cfm \<Rightarrow> proc_effect list" where
  "Procedures_DelayCfmHandleMessage c =
     (let ty = MESSAGE_ID_TO_DELAY_CFM_TYPE (dc_id c) in
      if ty = DELAY_COMPLETE_CFM then [CompleteCall (dc_fn c) (dc_proc c) (dc_result c)]
      else if ty = DELAY_CANCEL_CFM then [CancelCall (dc_fn c) (dc_proc c) (dc_result c)]
      else [])"

text \<open>
  Posting a confirmation from a procedure, after the effects it already had. The result of
  every start function that completes at once.
\<close>

definition complete_later ::
  "stereo_procs \<Rightarrow> callback \<Rightarrow> u16 \<Rightarrow> proc_effect list \<Rightarrow> (stereo_procs \<times> proc_effect list) res" where
  "complete_later ps cb p effects =
     res_bind (Procedures_DelayedCompleteCfmCallback (mbox ps) cb p procedure_result_success) (\<lambda>mb.
       Inr (ps\<lparr>mbox := mb\<rparr>, effects))"

definition cancel_later ::
  "stereo_procs \<Rightarrow> callback \<Rightarrow> u16 \<Rightarrow> proc_effect list \<Rightarrow> (stereo_procs \<times> proc_effect list) res" where
  "cancel_later ps cb p effects =
     res_bind (Procedures_DelayedCancelCfmCallback (mbox ps) cb p procedure_result_success) (\<lambda>mb.
       Inr (ps\<lparr>mbox := mb\<rparr>, effects))"

text \<open>
  The payload of a procedure: a structure with one member of type \<open>bool\<close>, an unsigned
  integer of four octets. Reading it through \<open>NULL\<close> or past the end faults.
\<close>

definition flag_struct :: "bool \<Rightarrow> u8 list" where
  "flag_struct b = [if b then 1 else 0, 0, 0, 0]"

definition read_flag :: "u8 list option \<Rightarrow> bool res" where
  "read_flag d = (case d of None \<Rightarrow> Inl BadAccess
     | Some bs \<Rightarrow> if length bs < 4 then Inl BadAccess else Inr (list_ex (\<lambda>b. b \<noteq> 0) (take 4 bs)))"

lemma read_flag_struct [simp]: "read_flag (Some (flag_struct b)) = Inr b"
  by (simp add: read_flag_def flag_struct_def)

subsection \<open>Allow handset connect\<close>

definition StereoTopology_ProcedureAllowHandsetConnectStart ::
  "stereo_procs \<Rightarrow> callback \<Rightarrow> u8 list option \<Rightarrow> (stereo_procs \<times> proc_effect list) res" where
  "StereoTopology_ProcedureAllowHandsetConnectStart ps cb goal_data =
     res_bind (read_flag goal_data) (\<lambda>enable.
       complete_later ps cb stereo_topology_procedure_allow_handset_connection
         [Service (ConManagerAllowHandsetConnect enable),
          StartConfirm cb stereo_topology_procedure_allow_handset_connection procedure_result_success])"

definition StereoTopology_ProcedureAllowHandsetConnectCancel ::
  "stereo_procs \<Rightarrow> callback \<Rightarrow> (stereo_procs \<times> proc_effect list) res" where
  "StereoTopology_ProcedureAllowHandsetConnectCancel ps cb =
     cancel_later ps cb stereo_topology_procedure_allow_handset_connection []"

subsection \<open>Enable connectable handset\<close>

definition StereoTopology_ProcedureEnableConnectableHandsetStart ::
  "stereo_procs \<Rightarrow> callback \<Rightarrow> u8 list option \<Rightarrow> (stereo_procs \<times> proc_effect list) res" where
  "StereoTopology_ProcedureEnableConnectableHandsetStart ps cb goal_data =
     res_bind (read_flag goal_data) (\<lambda>enable.
       complete_later (ps\<lparr>connectable_enable := enable\<rparr>) cb stereo_topology_procedure_enable_connectable_handset
         [Service (if enable then HandsetService_ConnectableRequest else HandsetService_CancelConnectableRequest),
          StartConfirm cb stereo_topology_procedure_enable_connectable_handset procedure_result_success])"

definition StereoTopology_ProcedureEnableConnectableHandsetCancel ::
  "stereo_procs \<Rightarrow> callback \<Rightarrow> (stereo_procs \<times> proc_effect list) res" where
  "StereoTopology_ProcedureEnableConnectableHandsetCancel ps cb =
     cancel_later ps cb stereo_topology_procedure_enable_connectable_handset
       [Service (if connectable_enable ps then HandsetService_CancelConnectableRequest
                 else HandsetService_ConnectableRequest)]"

subsection \<open>Disconnect handset\<close>

definition stereoTopology_ProcDisconnectHandsetResetProc :: "stereo_procs \<Rightarrow> stereo_procs" where
  "stereoTopology_ProcDisconnectHandsetResetProc ps = ps\<lparr>dh_complete_fn := None\<rparr>"

definition StereoTopology_ProcedureDisconnectLruHandsetStart ::
  "stereo_procs \<Rightarrow> callback \<Rightarrow> u8 list option \<Rightarrow> (stereo_procs \<times> proc_effect list) res" where
  "StereoTopology_ProcedureDisconnectLruHandsetStart ps cb goal_data =
     Inr (ps\<lparr>dh_complete_fn := Some cb\<rparr>,
       [Service HandsetService_DisconnectLruHandsetRequest,
        StartConfirm cb stereo_topology_procedure_disconnect_lru_handset procedure_result_success])"

definition StereoTopology_ProcedureDisconnectLruHandsetCancel ::
  "stereo_procs \<Rightarrow> callback \<Rightarrow> (stereo_procs \<times> proc_effect list) res" where
  "StereoTopology_ProcedureDisconnectLruHandsetCancel ps cb =
     cancel_later (stereoTopology_ProcDisconnectHandsetResetProc ps) cb
       stereo_topology_procedure_disconnect_lru_handset []"

definition StereoTopology_ProcedureDisconnectHandsetStart ::
  "stereo_procs \<Rightarrow> callback \<Rightarrow> u8 list option \<Rightarrow> (stereo_procs \<times> proc_effect list) res" where
  "StereoTopology_ProcedureDisconnectHandsetStart ps cb goal_data =
     Inr (ps\<lparr>dh_complete_fn := Some cb\<rparr>,
       [Service HandsetService_DisconnectAll,
        StartConfirm cb stereo_topology_procedure_disconnect_handset procedure_result_success])"

definition StereoTopology_ProcedureDisconnectHandsetCancel ::
  "stereo_procs \<Rightarrow> callback \<Rightarrow> (stereo_procs \<times> proc_effect list) res" where
  "StereoTopology_ProcedureDisconnectHandsetCancel ps cb =
     cancel_later (stereoTopology_ProcDisconnectHandsetResetProc ps) cb
       stereo_topology_procedure_disconnect_handset []"

datatype proc_message =
    HANDSET_SERVICE_MP_DISCONNECT_ALL_CFM handset_service_status
  | HANDSET_SERVICE_DISCONNECT_CFM handset_service_status
  | CON_MANAGER_DISCONNECT_ALL_LE_CONNECTIONS_CFM
  | HANDSET_SERVICE_MP_CONNECT_CFM handset_service_status
  | HANDSET_SERVICE_MP_CONNECT_STOP_CFM handset_service_status
  | HANDSET_SERVICE_LE_CONNECTABLE_IND
  | LE_ADV_MGR_ALLOW_ADVERTISING_CFM bool

definition stereoTopology_ProcDisconnectHandsetHandleHandsetMpDisconnectAllCfm ::
  "callback \<Rightarrow> handset_service_status \<Rightarrow> proc_effect list" where
  "stereoTopology_ProcDisconnectHandsetHandleHandsetMpDisconnectAllCfm cb st =
     [CompleteCall cb stereo_topology_procedure_disconnect_handset procedure_result_success,
      ResetCall ResetDisconnectHandset, Service (SendHandsetDisconnectedIndication st)]"

definition stereoTopology_ProcDisconnectHandsetHandleHandsetDisconnectCfm ::
  "callback \<Rightarrow> handset_service_status \<Rightarrow> proc_effect list" where
  "stereoTopology_ProcDisconnectHandsetHandleHandsetDisconnectCfm cb st =
     [CompleteCall cb stereo_topology_procedure_disconnect_lru_handset procedure_result_success,
      ResetCall ResetDisconnectHandset, Service (SendHandsetDisconnectedIndication st)]"

text \<open>The handler ignores everything unless the procedure is active.\<close>

definition stereoTopology_ProcDisconnectHandsetHandleMessage ::
  "stereo_procs \<Rightarrow> proc_message \<Rightarrow> (stereo_procs \<times> proc_effect list) res" where
  "stereoTopology_ProcDisconnectHandsetHandleMessage ps m =
     (case dh_complete_fn ps of None \<Rightarrow> Inr (ps, [])
      | Some cb \<Rightarrow> (case m of
          HANDSET_SERVICE_MP_DISCONNECT_ALL_CFM st \<Rightarrow>
            Inr (ps, stereoTopology_ProcDisconnectHandsetHandleHandsetMpDisconnectAllCfm cb st)
        | HANDSET_SERVICE_DISCONNECT_CFM st \<Rightarrow>
            Inr (ps, stereoTopology_ProcDisconnectHandsetHandleHandsetDisconnectCfm cb st)
        | _ \<Rightarrow> Inr (ps, [])))"

subsection \<open>Disconnect LE\<close>

definition stereoTopology_ProcDisconnectLeResetProc :: "stereo_procs \<Rightarrow> stereo_procs" where
  "stereoTopology_ProcDisconnectLeResetProc ps = ps\<lparr>dl_complete_fn := None\<rparr>"

definition StereoTopology_ProcedureDisconnectLeStart ::
  "stereo_procs \<Rightarrow> callback \<Rightarrow> u8 list option \<Rightarrow> (stereo_procs \<times> proc_effect list) res" where
  "StereoTopology_ProcedureDisconnectLeStart ps cb goal_data =
     Inr (ps\<lparr>dl_complete_fn := Some cb\<rparr>,
       [Service ConManagerDisconnectAllLeConnectionsRequest,
        StartConfirm cb stereo_topology_procedure_disconnect_le procedure_result_success])"

definition StereoTopology_ProcedureDisconnectLeCancel ::
  "stereo_procs \<Rightarrow> callback \<Rightarrow> (stereo_procs \<times> proc_effect list) res" where
  "StereoTopology_ProcedureDisconnectLeCancel ps cb =
     cancel_later (stereoTopology_ProcDisconnectLeResetProc ps) cb stereo_topology_procedure_disconnect_le []"

definition stereoTopology_ProcDisconnectLeHandleLeDisconnectCfm :: "callback \<Rightarrow> proc_effect list" where
  "stereoTopology_ProcDisconnectLeHandleLeDisconnectCfm cb =
     [CompleteCall cb stereo_topology_procedure_disconnect_le procedure_result_success, ResetCall ResetDisconnectLe]"

definition stereoTopology_ProcDisconnectLeHandleMessage ::
  "stereo_procs \<Rightarrow> proc_message \<Rightarrow> (stereo_procs \<times> proc_effect list) res" where
  "stereoTopology_ProcDisconnectLeHandleMessage ps m =
     (case dl_complete_fn ps of None \<Rightarrow> Inr (ps, [])
      | Some cb \<Rightarrow> (case m of
          CON_MANAGER_DISCONNECT_ALL_LE_CONNECTIONS_CFM \<Rightarrow>
            Inr (ps, stereoTopology_ProcDisconnectLeHandleLeDisconnectCfm cb)
        | _ \<Rightarrow> Inr (ps, [])))"

subsection \<open>Connect handset\<close>

definition stereoTopology_ProcConnectHandsetResetTaskData :: "stereo_procs \<Rightarrow> stereo_procs" where
  "stereoTopology_ProcConnectHandsetResetTaskData ps = ps\<lparr>ch_complete_fn := None, ch_cancel_fn := None\<rparr>"

definition stereoTopology_ProcConnectHandsetResetCompleteFunc :: "stereo_procs \<Rightarrow> stereo_procs" where
  "stereoTopology_ProcConnectHandsetResetCompleteFunc ps = ps\<lparr>ch_complete_fn := None\<rparr>"

definition stereoTopology_ProcConnectHandsetResetCancelFunc :: "stereo_procs \<Rightarrow> stereo_procs" where
  "stereoTopology_ProcConnectHandsetResetCancelFunc ps = ps\<lparr>ch_cancel_fn := None\<rparr>"

text \<open>\<open>handset_paired\<close> is the result of \<open>appDeviceGetHandsetBdAddr\<close>.\<close>

definition StereoTopology_ProcedureConnectHandsetStart ::
  "stereo_procs \<Rightarrow> bool \<Rightarrow> callback \<Rightarrow> u8 list option \<Rightarrow> (stereo_procs \<times> proc_effect list) res" where
  "StereoTopology_ProcedureConnectHandsetStart ps handset_paired cb goal_data =
     (let ps = (stereoTopology_ProcConnectHandsetResetTaskData ps)\<lparr>ch_complete_fn := Some cb\<rparr> in
      if handset_paired then
        res_bind (read_flag goal_data) (\<lambda>link_loss.
          Inr (ps,
            [Service (if link_loss then HandsetService_ReconnectLinkLossRequest else HandsetService_ReconnectRequest),
             StartConfirm cb stereo_topology_procedure_connect_handset procedure_result_success]))
      else Inl Panic)"

definition StereoTopology_ProcedureConnectHandsetCancel ::
  "stereo_procs \<Rightarrow> callback \<Rightarrow> (stereo_procs \<times> proc_effect list) res" where
  "StereoTopology_ProcedureConnectHandsetCancel ps cb =
     Inr (ps\<lparr>ch_complete_fn := None, ch_cancel_fn := Some cb\<rparr>, [Service HandsetService_StopReconnect])"

definition stereoTopology_ProcConnectHandsetHandleHandsetMpConnectCfm ::
  "stereo_procs \<Rightarrow> handset_service_status \<Rightarrow> proc_effect list" where
  "stereoTopology_ProcConnectHandsetHandleHandsetMpConnectCfm ps status =
     (if status \<noteq> handset_service_status_cancelled then
        (if status = handset_service_status_success then
           (case ch_complete_fn ps of
              Some cb \<Rightarrow> [CompleteCall cb stereo_topology_procedure_connect_handset procedure_result_success]
            | None \<Rightarrow> (case ch_cancel_fn ps of
                Some cb \<Rightarrow> [CancelCall cb stereo_topology_procedure_connect_handset procedure_result_success]
              | None \<Rightarrow> []))
         else
           (case ch_complete_fn ps of
              Some cb \<Rightarrow> [CompleteCall cb stereo_topology_procedure_connect_handset procedure_result_failed]
            | None \<Rightarrow> (case ch_cancel_fn ps of
                Some cb \<Rightarrow> [CancelCall cb stereo_topology_procedure_connect_handset procedure_result_success,
                            ResetCall ResetConnectCancel]
              | None \<Rightarrow> [])))
        @ [ResetCall ResetConnectComplete]
      else [])"

definition stereoTopology_ProcConnectHandsetHandleHandsetMpConnectStopCfm ::
  "stereo_procs \<Rightarrow> proc_effect list" where
  "stereoTopology_ProcConnectHandsetHandleHandsetMpConnectStopCfm ps =
     (case ch_cancel_fn ps of
        Some cb \<Rightarrow> [CancelCall cb stereo_topology_procedure_connect_handset procedure_result_success,
                    ResetCall ResetConnectCancel]
      | None \<Rightarrow> [])"

definition stereoTopology_ProcConnectHandsetHandleMessage ::
  "stereo_procs \<Rightarrow> proc_message \<Rightarrow> (stereo_procs \<times> proc_effect list) res" where
  "stereoTopology_ProcConnectHandsetHandleMessage ps m =
     (if ch_complete_fn ps = None \<and> ch_cancel_fn ps = None then Inr (ps, [])
      else case m of
        HANDSET_SERVICE_MP_CONNECT_CFM st \<Rightarrow> Inr (ps, stereoTopology_ProcConnectHandsetHandleHandsetMpConnectCfm ps st)
      | HANDSET_SERVICE_MP_CONNECT_STOP_CFM st \<Rightarrow> Inr (ps, stereoTopology_ProcConnectHandsetHandleHandsetMpConnectStopCfm ps)
      | _ \<Rightarrow> Inr (ps, []))"

subsection \<open>Allow LE connection\<close>

definition stereoTopology_ProcAllowLEConnectionResetProc :: "stereo_procs \<Rightarrow> stereo_procs" where
  "stereoTopology_ProcAllowLEConnectionResetProc ps =
     ps\<lparr>al_complete_fn := None, al_cancel_fn := None, le_advertising := False, le_connectable := False\<rparr>"

definition StereoTopology_ProcAllowLEConnectionStart ::
  "stereo_procs \<Rightarrow> callback \<Rightarrow> u8 list option \<Rightarrow> (stereo_procs \<times> proc_effect list) res" where
  "StereoTopology_ProcAllowLEConnectionStart ps cb goal_data =
     res_bind (read_flag goal_data) (\<lambda>enable.
       Inr (ps\<lparr>al_complete_fn := Some cb, le_advertising := True, le_connectable := True\<rparr>,
         [Service HandsetService_ClientRegister,
          Service (LeAdvertisingManager_AllowAdvertising enable),
          Service (ConManagerAllowConnectionBle enable),
          Service (HandsetService_SetBleConnectable enable),
          StartConfirm cb stereo_topology_procedure_allow_le_connection procedure_result_success]))"

definition StereoTopology_ProcAllowLEConnectionCancel ::
  "stereo_procs \<Rightarrow> callback \<Rightarrow> (stereo_procs \<times> proc_effect list) res" where
  "StereoTopology_ProcAllowLEConnectionCancel ps cb =
     cancel_later (stereoTopology_ProcAllowLEConnectionResetProc (ps\<lparr>al_complete_fn := None\<rparr>)) cb
       stereo_topology_procedure_allow_le_connection [Service HandsetService_ClientUnregister]"

definition stereoTopology_ProcAllowLEConnectionCompleteCancel :: "stereo_procs \<Rightarrow> stereo_procs \<times> proc_effect list" where
  "stereoTopology_ProcAllowLEConnectionCompleteCancel ps =
     (ps, if \<not> le_connectable ps \<or> \<not> le_advertising ps then
            (case al_complete_fn ps of
               Some cb \<Rightarrow> [CompleteCall cb stereo_topology_procedure_allow_le_connection procedure_result_success]
             | None \<Rightarrow> []) @ [Service HandsetService_ClientUnregister, ResetCall ResetAllowLe]
          else [])"

definition stereoTopology_ProcAllowLEConnectionHandleAllowLEConnectionCfm ::
  "stereo_procs \<Rightarrow> stereo_procs \<times> proc_effect list" where
  "stereoTopology_ProcAllowLEConnectionHandleAllowLEConnectionCfm ps =
     stereoTopology_ProcAllowLEConnectionCompleteCancel (ps\<lparr>le_connectable := False\<rparr>)"

definition stereoTopology_ProcAllowLEConnectionHandleAllowLEAdvertisingCfm ::
  "stereo_procs \<Rightarrow> bool \<Rightarrow> (stereo_procs \<times> proc_effect list) res" where
  "stereoTopology_ProcAllowLEConnectionHandleAllowLEAdvertisingCfm ps error_unknown =
     (if error_unknown then Inl Panic
      else Inr (stereoTopology_ProcAllowLEConnectionCompleteCancel (ps\<lparr>le_advertising := False\<rparr>)))"

definition stereoTopology_ProcAllowLEConnectionHandleMessage ::
  "stereo_procs \<Rightarrow> proc_message \<Rightarrow> (stereo_procs \<times> proc_effect list) res" where
  "stereoTopology_ProcAllowLEConnectionHandleMessage ps m =
     (if al_complete_fn ps = None \<and> al_cancel_fn ps = None then Inr (ps, [])
      else case m of
        HANDSET_SERVICE_LE_CONNECTABLE_IND \<Rightarrow>
          Inr (stereoTopology_ProcAllowLEConnectionHandleAllowLEConnectionCfm ps)
      | LE_ADV_MGR_ALLOW_ADVERTISING_CFM err \<Rightarrow>
          stereoTopology_ProcAllowLEConnectionHandleAllowLEAdvertisingCfm ps err
      | _ \<Rightarrow> Inr (ps, []))"

subsection \<open>The procedures of the stop script\<close>

definition StereoTopology_ProcedureStartStopScriptStart ::
  "stereo_procs \<Rightarrow> callback \<Rightarrow> u8 list option \<Rightarrow> (stereo_procs \<times> proc_effect list) res" where
  "StereoTopology_ProcedureStartStopScriptStart ps cb goal_data =
     complete_later ps cb stereo_topology_procedure_start_stop_script
       [StartConfirm cb stereo_topology_procedure_start_stop_script procedure_result_success]"

definition StereoTopology_ProcedureStartStopScriptCancel ::
  "stereo_procs \<Rightarrow> callback \<Rightarrow> (stereo_procs \<times> proc_effect list) res" where
  "StereoTopology_ProcedureStartStopScriptCancel ps cb = Inl Panic"

definition PROC_SEND_STEREO_TOPOLOGY_MESSAGE_SYSTEM_STOP_FINISHED :: message_id where
  "PROC_SEND_STEREO_TOPOLOGY_MESSAGE_SYSTEM_STOP_FINISHED = 0x206"

definition StereoTopology_ProcedureSendTopologyMessageStart ::
  "stereo_procs \<Rightarrow> callback \<Rightarrow> message_id option \<Rightarrow> (stereo_procs \<times> proc_effect list) res" where
  "StereoTopology_ProcedureSendTopologyMessageStart ps cb params =
     (case params of None \<Rightarrow> Inl BadAccess
      | Some mid \<Rightarrow>
          complete_later (ps\<lparr>mbox := mbox ps @ [PostTopology mid]\<rparr>) cb
            stereo_topology_procedure_send_message_to_topology
            [StartConfirm cb stereo_topology_procedure_send_message_to_topology procedure_result_success])"

definition StereoTopology_ProcedureSendTopologyMessageCancel ::
  "stereo_procs \<Rightarrow> callback \<Rightarrow> (stereo_procs \<times> proc_effect list) res" where
  "StereoTopology_ProcedureSendTopologyMessageCancel ps cb = Inl Panic"

subsection \<open>Resets\<close>

fun apply_reset :: "reset \<Rightarrow> stereo_procs \<Rightarrow> stereo_procs" where
  "apply_reset ResetDisconnectHandset ps = stereoTopology_ProcDisconnectHandsetResetProc ps"
| "apply_reset ResetDisconnectLe ps = stereoTopology_ProcDisconnectLeResetProc ps"
| "apply_reset ResetConnectComplete ps = stereoTopology_ProcConnectHandsetResetCompleteFunc ps"
| "apply_reset ResetConnectCancel ps = stereoTopology_ProcConnectHandsetResetCancelFunc ps"
| "apply_reset ResetAllowLe ps = stereoTopology_ProcAllowLEConnectionResetProc ps"

section \<open>Delayed confirmations\<close>

text \<open>
  A delayed confirmation as the two functions build it: a procedure id that fits, added to
  the base of its kind. The confirmation a posted message leads to when it is delivered.
\<close>

definition delay_ok :: "post \<Rightarrow> bool" where
  "delay_ok m = (case m of PostDelay c \<Rightarrow> dc_proc c \<le> PROCEDURE_ID_MAX \<and>
     (dc_id c = PROC_ID_TO_DELAY_CFM_MESSAGE_ID (dc_proc c) DELAY_COMPLETE_CFM \<or>
      dc_id c = PROC_ID_TO_DELAY_CFM_MESSAGE_ID (dc_proc c) DELAY_CANCEL_CFM) | _ \<Rightarrow> True)"

definition confirms :: "post \<Rightarrow> proc_effect list" where
  "confirms m = (case m of PostDelay c \<Rightarrow> Procedures_DelayCfmHandleMessage c | _ \<Rightarrow> [])"

definition completes :: "u16 \<Rightarrow> proc_effect \<Rightarrow> bool" where
  "completes p e = (case e of CompleteCall _ q _ \<Rightarrow> q = p | _ \<Rightarrow> False)"

lemmas delay_ids = PROCEDURE_ID_MAX_def DELAY_COMPLETE_CFM_def DELAY_CANCEL_CFM_def
  MESSAGE_ID_TO_DELAY_CFM_TYPE_def PROC_ID_TO_DELAY_CFM_MESSAGE_ID_def

text \<open>The procedure id occupies the bits below the two bases, so the kind can be read back.\<close>

lemma delay_base_low:
  assumes "p \<le> PROCEDURE_ID_MAX"
  shows "p AND 0x300 = 0" and "0x100 + p = 0x100 OR p" and "0x200 + p = 0x200 OR p"
proof -
  have "p < 2 ^ 8" using assms by (simp add: PROCEDURE_ID_MAX_def word_le_nat_alt word_less_nat_alt)
  then have p: "p AND mask 8 = p" by (rule less_mask_eq)
  have "p AND 0x300 = p AND (mask 8 AND 0x300)" by (simp only: p and.assoc [symmetric])
  then show z: "p AND 0x300 = 0" by (simp add: mask_eq_exp_minus_1)
  have "p AND 0x100 = (p AND 0x300) AND 0x100" "p AND 0x200 = (p AND 0x300) AND 0x200"
    by (simp_all add: and.assoc)
  then have "0x100 AND p = 0" "0x200 AND p = 0" using z by (simp_all add: and.commute)
  then show "0x100 + p = 0x100 OR p" "0x200 + p = 0x200 OR p" by (simp_all add: disjunctive_add_eq_or)
qed

lemma delay_type:
  assumes "p \<le> PROCEDURE_ID_MAX"
  shows "MESSAGE_ID_TO_DELAY_CFM_TYPE (PROC_ID_TO_DELAY_CFM_MESSAGE_ID p DELAY_COMPLETE_CFM) = DELAY_COMPLETE_CFM"
    and "MESSAGE_ID_TO_DELAY_CFM_TYPE (PROC_ID_TO_DELAY_CFM_MESSAGE_ID p DELAY_CANCEL_CFM) = DELAY_CANCEL_CFM"
  using delay_base_low [OF assms] by (simp_all add: delay_ids bit.conj_disj_distrib and.commute)

text \<open>The id of a confirmation determines its kind and its procedure.\<close>

lemma delay_id_eq:
  assumes "p \<le> PROCEDURE_ID_MAX" and "q \<le> PROCEDURE_ID_MAX"
  shows "PROC_ID_TO_DELAY_CFM_MESSAGE_ID q DELAY_COMPLETE_CFM = PROC_ID_TO_DELAY_CFM_MESSAGE_ID p DELAY_COMPLETE_CFM \<longleftrightarrow> q = p"
    and "PROC_ID_TO_DELAY_CFM_MESSAGE_ID q DELAY_CANCEL_CFM \<noteq> PROC_ID_TO_DELAY_CFM_MESSAGE_ID p DELAY_COMPLETE_CFM"
proof -
  show "PROC_ID_TO_DELAY_CFM_MESSAGE_ID q DELAY_CANCEL_CFM \<noteq> PROC_ID_TO_DELAY_CFM_MESSAGE_ID p DELAY_COMPLETE_CFM"
    using delay_type(1) [OF assms(1)] delay_type(2) [OF assms(2)]
    by (auto simp: DELAY_COMPLETE_CFM_def DELAY_CANCEL_CFM_def)
qed (simp add: PROC_ID_TO_DELAY_CFM_MESSAGE_ID_def)

lemma confirms_filter:
  assumes "p \<le> PROCEDURE_ID_MAX" and "delay_ok m"
  shows "filter (\<lambda>e. \<not> completes p e) (confirms m)
    = concat (map confirms (cancel_delayed (PROC_ID_TO_DELAY_CFM_MESSAGE_ID p DELAY_COMPLETE_CFM) [m]))"
proof (cases m)
  case (PostDelay c)
  then have c: "dc_proc c \<le> PROCEDURE_ID_MAX" using assms(2) by (simp add: delay_ok_def)
  have "DELAY_CANCEL_CFM \<noteq> DELAY_COMPLETE_CFM" by (simp add: DELAY_COMPLETE_CFM_def DELAY_CANCEL_CFM_def)
  with delay_id_eq [OF assms(1) c] delay_type [OF c] assms(2) PostDelay show ?thesis
    by (auto simp: delay_ok_def confirms_def completes_def cancel_delayed_def Procedures_DelayCfmHandleMessage_def)
qed (simp_all add: confirms_def cancel_delayed_def)

lemma confirms_cancel_delayed:
  assumes "p \<le> PROCEDURE_ID_MAX" and "\<forall>m \<in> set mb. delay_ok m"
  shows "concat (map confirms (cancel_delayed (PROC_ID_TO_DELAY_CFM_MESSAGE_ID p DELAY_COMPLETE_CFM) mb))
    = filter (\<lambda>e. \<not> completes p e) (concat (map confirms mb))"
  using assms(2)
proof (induction mb)
  case (Cons m mb)
  have "cancel_delayed k (m # mb) = cancel_delayed k [m] @ cancel_delayed k mb" for k
    by (simp add: cancel_delayed_def)
  then show ?case using Cons confirms_filter [OF assms(1), of m] by simp
qed (simp add: cancel_delayed_def)

lemma delayed_ok:
  "Procedures_DelayedCompleteCfmCallback mb cb p r = Inr mb' \<Longrightarrow> \<forall>m \<in> set mb. delay_ok m \<Longrightarrow> \<forall>m \<in> set mb'. delay_ok m"
  "Procedures_DelayedCancelCfmCallback mb cb p r = Inr mb' \<Longrightarrow> \<forall>m \<in> set mb. delay_ok m \<Longrightarrow> \<forall>m \<in> set mb'. delay_ok m"
  by (auto simp: Procedures_DelayedCompleteCfmCallback_def Procedures_DelayedCancelCfmCallback_def
      res_bind_Inr_iff panic_unless_def cancel_delayed_def delay_ok_def split: if_splits)

text \<open>
  A cancelled procedure does not complete any more: once the cancellation of a procedure
  is to be confirmed, the confirmations still to be delivered are those that were posted
  before, in their order, without any completion of that procedure, followed by exactly one
  cancellation with the callback and the result given.
\<close>

theorem delayed_cancel_wins:
  assumes "p \<le> PROCEDURE_ID_MAX" and "\<forall>m \<in> set mb. delay_ok m"
  shows "\<exists>mb'. Procedures_DelayedCancelCfmCallback mb cb p r = Inr mb'
    \<and> concat (map confirms mb') = filter (\<lambda>e. \<not> completes p e) (concat (map confirms mb)) @ [CancelCall cb p r]"
proof -
  let ?c = "PostDelay \<lparr>dc_id = PROC_ID_TO_DELAY_CFM_MESSAGE_ID p DELAY_CANCEL_CFM, dc_fn = cb, dc_proc = p, dc_result = r\<rparr>"
  have "\<forall>m \<in> set (mb @ [?c]). delay_ok m" using assms by (simp add: delay_ok_def)
  from confirms_cancel_delayed [OF assms(1) this] have
    "concat (map confirms (cancel_delayed (PROC_ID_TO_DELAY_CFM_MESSAGE_ID p DELAY_COMPLETE_CFM) (mb @ [?c])))
      = filter (\<lambda>e. \<not> completes p e) (concat (map confirms mb)) @ [CancelCall cb p r]"
    using delay_type(2) [OF assms(1)]
    by (simp add: confirms_def Procedures_DelayCfmHandleMessage_def completes_def DELAY_CANCEL_CFM_def DELAY_COMPLETE_CFM_def)
  then show ?thesis using assms(1) by (simp add: Procedures_DelayedCancelCfmCallback_def panic_unless_def)
qed

theorem delayed_cancel_wins_witness:
  "\<exists>mb'. Procedures_DelayedCancelCfmCallback
      [PostDelay \<lparr>dc_id = 0x104, dc_fn = CbGoal, dc_proc = 4, dc_result = procedure_result_success\<rparr>,
       PostDelay \<lparr>dc_id = 0x105, dc_fn = CbScript, dc_proc = 5, dc_result = procedure_result_failed\<rparr>]
      CbGoal 4 procedure_result_success = Inr mb'
    \<and> concat (map confirms mb') = [CompleteCall CbScript 5 procedure_result_failed,
         CancelCall CbGoal 4 procedure_result_success]"
proof -
  let ?mb = "[PostDelay \<lparr>dc_id = 0x104, dc_fn = CbGoal, dc_proc = 4, dc_result = procedure_result_success\<rparr>,
       PostDelay \<lparr>dc_id = 0x105, dc_fn = CbScript, dc_proc = 5, dc_result = procedure_result_failed\<rparr>]"
  have "filter (\<lambda>e. \<not> completes 4 e) (concat (map confirms ?mb)) = [CompleteCall CbScript 5 procedure_result_failed]"
    by code_simp
  moreover have "\<forall>m \<in> set ?mb. delay_ok m" by code_simp
  moreover have "(4 :: u16) \<le> PROCEDURE_ID_MAX" by code_simp
  ultimately show ?thesis using delayed_cancel_wins [of 4 ?mb CbGoal procedure_result_success] by simp
qed

section \<open>Cancelling a connection attempt\<close>

text \<open>Delivering messages to the connect procedure, with the resets its handler asks for.\<close>

definition resets_of :: "proc_effect list \<Rightarrow> stereo_procs \<Rightarrow> stereo_procs" where
  "resets_of es ps = fold (\<lambda>e. case e of ResetCall r \<Rightarrow> apply_reset r | _ \<Rightarrow> (\<lambda>ps. ps)) es ps"

fun connect_run :: "stereo_procs \<Rightarrow> proc_message list \<Rightarrow> proc_effect list res" where
  "connect_run ps [] = Inr []"
| "connect_run ps (m # ms) =
     res_bind (stereoTopology_ProcConnectHandsetHandleMessage ps m) (\<lambda>(ps', es).
     res_bind (connect_run (resets_of es ps') ms) (\<lambda>es'. Inr (es @ es')))"

definition cancel_calls :: "proc_effect list \<Rightarrow> nat" where
  "cancel_calls es = length (filter (\<lambda>e. case e of CancelCall _ _ _ \<Rightarrow> True | _ \<Rightarrow> False) es)"

text \<open>
  Cancelling a connection attempt is confirmed more than once when the attempt succeeds
  at the same time. After \<open>StereoTopology_ProcedureConnectHandsetCancel\<close> the handset
  service reports the outcome of the attempt and the end of its cancellation, in either
  order. When the attempt failed, the cancel callback is called exactly once; when it
  succeeded and is reported first, the callback is not reset and is called twice.
\<close>

theorem connect_cancel_confirmed_twice:
  "res_bind (StereoTopology_ProcedureConnectHandsetCancel ps cb) (\<lambda>(ps', _). res_bind (connect_run ps'
       [HANDSET_SERVICE_MP_CONNECT_CFM handset_service_status_failed, HANDSET_SERVICE_MP_CONNECT_STOP_CFM st])
     (\<lambda>es. Inr (cancel_calls es))) = Inr 1
   \<and> res_bind (StereoTopology_ProcedureConnectHandsetCancel ps cb) (\<lambda>(ps', _). res_bind (connect_run ps'
       [HANDSET_SERVICE_MP_CONNECT_STOP_CFM st, HANDSET_SERVICE_MP_CONNECT_CFM handset_service_status_success])
     (\<lambda>es. Inr (cancel_calls es))) = Inr 1
   \<and> res_bind (StereoTopology_ProcedureConnectHandsetCancel ps cb) (\<lambda>(ps', _). res_bind (connect_run ps'
       [HANDSET_SERVICE_MP_CONNECT_CFM handset_service_status_success, HANDSET_SERVICE_MP_CONNECT_STOP_CFM st])
     (\<lambda>es. Inr (cancel_calls es))) = Inr 2"
  by (simp add: StereoTopology_ProcedureConnectHandsetCancel_def stereoTopology_ProcConnectHandsetHandleMessage_def
      stereoTopology_ProcConnectHandsetHandleHandsetMpConnectCfm_def
      stereoTopology_ProcConnectHandsetHandleHandsetMpConnectStopCfm_def resets_of_def cancel_calls_def
      stereoTopology_ProcConnectHandsetResetCompleteFunc_def stereoTopology_ProcConnectHandsetResetCancelFunc_def)

end
