(* ===== verification/Stereo_Topology.thy ===== *)
theory Stereo_Topology
  imports Goals_Engine Rules_Engine Stereo_Procedures
begin

text \<open>
  The topology of the headset (\<^verbatim>\<open>adk/src/topologies/stereo_topology/core/*.c\<close>): the rules that
  decide what to do, the goals they ask for, the procedures and the stop script behind the
  goals, and the state machine that starts and stops the whole. It composes the rules
  engine, the goals engine, the script engine and the procedures.

  What other modules answer (is a handset paired, is it connected, ...) is the record
  \<open>stereo_env\<close>, an argument of every operation that asks. Posted messages wait in the
  mailbox of the procedures' state, decisions that wait for goals in the queue of the goals
  engine; both are delivered by events of their own, so every interleaving with calls from
  the application and messages from other modules is a sequence of events.
\<close>

section \<open>Configuration\<close>

definition stereo_topology_goal_none :: goal_id where "stereo_topology_goal_none = 0"
definition stereo_topology_goal_connectable_handset :: goal_id where "stereo_topology_goal_connectable_handset = 1"
definition stereo_topology_goal_allow_handset_connect :: goal_id where "stereo_topology_goal_allow_handset_connect = 2"
definition stereo_topology_goal_connect_handset :: goal_id where "stereo_topology_goal_connect_handset = 3"
definition stereo_topology_goal_disconnect_handset :: goal_id where "stereo_topology_goal_disconnect_handset = 4"
definition stereo_topology_goal_allow_le_connection :: goal_id where "stereo_topology_goal_allow_le_connection = 5"
definition stereo_topology_goal_system_stop :: goal_id where "stereo_topology_goal_system_stop = 6"
definition stereo_topology_goal_disconnect_lru_handset :: goal_id where "stereo_topology_goal_disconnect_lru_handset = 7"

lemmas stereo_goal_ids = stereo_topology_goal_none_def stereo_topology_goal_connectable_handset_def
  stereo_topology_goal_allow_handset_connect_def stereo_topology_goal_connect_handset_def
  stereo_topology_goal_disconnect_handset_def stereo_topology_goal_allow_le_connection_def
  stereo_topology_goal_system_stop_def stereo_topology_goal_disconnect_lru_handset_def

definition STEREOTOP_GOAL_CONNECTABLE_HANDSET :: message_id where "STEREOTOP_GOAL_CONNECTABLE_HANDSET = 0x100"
definition STEREOTOP_GOAL_CONNECT_HANDSET :: message_id where "STEREOTOP_GOAL_CONNECT_HANDSET = 0x101"
definition STEREOTOP_GOAL_ALLOW_HANDSET_CONNECT :: message_id where "STEREOTOP_GOAL_ALLOW_HANDSET_CONNECT = 0x102"
definition STEREOTOP_GOAL_DISCONNECT_HANDSET :: message_id where "STEREOTOP_GOAL_DISCONNECT_HANDSET = 0x103"
definition STEREOTOP_GOAL_ALLOW_LE_CONNECTION :: message_id where "STEREOTOP_GOAL_ALLOW_LE_CONNECTION = 0x104"
definition STEREOTOP_GOAL_SYSTEM_STOP :: message_id where "STEREOTOP_GOAL_SYSTEM_STOP = 0x105"
definition STEREOTOP_GOAL_DISCONNECT_LRU_HANDSET :: message_id where "STEREOTOP_GOAL_DISCONNECT_LRU_HANDSET = 0x106"
definition STEREOTOP_GOAL_NOP :: message_id where "STEREOTOP_GOAL_NOP = 0x107"

lemmas stereo_decision_ids = STEREOTOP_GOAL_CONNECTABLE_HANDSET_def STEREOTOP_GOAL_CONNECT_HANDSET_def
  STEREOTOP_GOAL_ALLOW_HANDSET_CONNECT_def STEREOTOP_GOAL_DISCONNECT_HANDSET_def
  STEREOTOP_GOAL_ALLOW_LE_CONNECTION_def STEREOTOP_GOAL_SYSTEM_STOP_def
  STEREOTOP_GOAL_DISCONNECT_LRU_HANDSET_def STEREOTOP_GOAL_NOP_def

definition STEREOTOP_RULE_EVENT_START :: u64 where "STEREOTOP_RULE_EVENT_START = 0x1"
definition STEREOTOP_RULE_EVENT_HANDSET_LINKLOSS :: u64 where "STEREOTOP_RULE_EVENT_HANDSET_LINKLOSS = 0x2"
definition STEREOTOP_RULE_EVENT_PROHIBIT_CONNECT_TO_HANDSET :: u64 where
  "STEREOTOP_RULE_EVENT_PROHIBIT_CONNECT_TO_HANDSET = 0x4"
definition STEREOTOP_RULE_EVENT_STOP :: u64 where "STEREOTOP_RULE_EVENT_STOP = 0x8"
definition STEREOTOP_RULE_EVENT_USER_REQUEST_CONNECT_HANDSET :: u64 where
  "STEREOTOP_RULE_EVENT_USER_REQUEST_CONNECT_HANDSET = 0x10"
definition STEREOTOP_RULE_EVENT_USER_REQUEST_DISCONNECT_ALL_HANDSETS :: u64 where
  "STEREOTOP_RULE_EVENT_USER_REQUEST_DISCONNECT_ALL_HANDSETS = 0x20"
definition STEREOTOP_RULE_EVENT_USER_REQUEST_DISCONNECT_LRU_HANDSET :: u64 where
  "STEREOTOP_RULE_EVENT_USER_REQUEST_DISCONNECT_LRU_HANDSET = 0x40"

text \<open>The three tasks of the topology's task data, at distinct addresses.\<close>

definition StereoTopologyGetTask :: task where "StereoTopologyGetTask = 1"
definition StereoTopologyGetGoalTask :: task where "StereoTopologyGetGoalTask = 2"
definition pending_goal_queue_task :: task where "pending_goal_queue_task = 3"

subsection \<open>Goals and the stop script\<close>

text \<open>
  The tables of functions of the procedures are named by the ids of the procedures, and the
  data of the steps of the script by 0 (none), 1 (a flag that disables) and 2 (the message
  that tells the topology that the stop has finished).
\<close>

definition stereo_system_stop_script :: procedure_script where
  "stereo_system_stop_script = \<lparr>
     script_procs = map unat [stereo_topology_procedure_start_stop_script,
       stereo_topology_procedure_allow_handset_connection, stereo_topology_procedure_enable_connectable_handset,
       stereo_topology_procedure_allow_le_connection, stereo_topology_procedure_disconnect_handset,
       stereo_topology_procedure_disconnect_le, stereo_topology_procedure_send_message_to_topology],
     script_procs_data = [0, 1, 1, 1, 0, 0, 2],
     script_proc_list_size = 7\<rparr>"

definition no_goal :: goal_entry where
  "no_goal = \<lparr>proc = 0, contention = goal_contention_wait, exclusive_goal = 0, success_event = 0,
     timeout_event = 0, failed_event = 0, proc_fns = None, proc_script = None, concurrent_goals = None\<rparr>"

definition GOAL :: "u16 \<Rightarrow> goal_id \<Rightarrow> goal_entry" where
  "GOAL p ex = no_goal\<lparr>proc := p, proc_fns := Some (unat p), exclusive_goal := ex\<rparr>"

definition GOAL_WITH_CONCURRENCY :: "u16 \<Rightarrow> goal_id \<Rightarrow> goal_id list \<Rightarrow> goal_entry" where
  "GOAL_WITH_CONCURRENCY p ex cs = no_goal\<lparr>proc := p, proc_fns := Some (unat p), exclusive_goal := ex,
     contention := goal_contention_concurrent, concurrent_goals := Some (cs @ [GOAL_ID_NONE])\<rparr>"

definition SCRIPT_GOAL_CANCEL :: "u16 \<Rightarrow> procedure_script \<Rightarrow> goal_id \<Rightarrow> goal_entry" where
  "SCRIPT_GOAL_CANCEL p s ex = no_goal\<lparr>proc := p, proc_script := Some s, exclusive_goal := ex,
     contention := goal_contention_cancel\<rparr>"

text \<open>The table, in the order of the goal ids that index it.\<close>

definition stereogoals :: "goal_entry list" where
  "stereogoals =
    [no_goal,
     GOAL_WITH_CONCURRENCY stereo_topology_procedure_enable_connectable_handset stereo_topology_goal_none
       [stereo_topology_goal_allow_handset_connect, stereo_topology_goal_allow_le_connection],
     GOAL_WITH_CONCURRENCY stereo_topology_procedure_allow_handset_connection stereo_topology_goal_none
       [stereo_topology_goal_connectable_handset, stereo_topology_goal_allow_le_connection],
     GOAL stereo_topology_procedure_connect_handset stereo_topology_goal_disconnect_handset,
     GOAL stereo_topology_procedure_disconnect_handset stereo_topology_goal_connect_handset,
     GOAL_WITH_CONCURRENCY stereo_topology_procedure_allow_le_connection stereo_topology_goal_none
       [stereo_topology_goal_connectable_handset, stereo_topology_goal_allow_handset_connect],
     SCRIPT_GOAL_CANCEL stereo_topology_procedure_system_stop stereo_system_stop_script stereo_topology_goal_none,
     GOAL stereo_topology_procedure_disconnect_lru_handset stereo_topology_goal_connect_handset]"

section \<open>Rules\<close>

text \<open>
  What other modules answer: \<open>appDeviceGetHandsetBdAddr\<close>, \<open>ConManagerIsConnected\<close> of that
  address, \<open>ConManagerIsHandsetPairingMode\<close>, whether \<open>Dfu_GetRebootReason\<close> is a reset by an
  upgrade, \<open>appGetAllowPoweronReconnectFlag\<close>, \<open>HandsetService_IsAnyBredrConnected\<close>, and the
  base of the topology's message ids.
\<close>

record stereo_env =
  handset_paired :: bool
  handset_connected :: bool
  handset_pairing_mode :: bool
  reboot_reason_dfu_reset :: bool
  poweron_reconnect_flag :: bool
  any_bredr_connected :: bool
  STEREO_TOPOLOGY_MESSAGE_BASE :: message_id

text \<open>What the rules look at: the environment, and the topology's own flags and goals.\<close>

record stereo_view =
  view_env :: stereo_env
  view_shutdown :: bool
  view_prohibit :: bool
  view_goals :: goal_set

datatype rule_connect_reason = rule_auto_connect | rule_connect_linkloss | rule_connect_user

definition ruleStereoTopEnableConnectableHandset :: "stereo_view \<Rightarrow> stereo_view \<times> rule_action \<times> u8 list option" where
  "ruleStereoTopEnableConnectableHandset v =
     (if \<not> handset_paired (view_env v) then (v, rule_action_ignore, None)
      else if handset_connected (view_env v) then (v, rule_action_ignore, None)
      else if view_shutdown v then (v, rule_action_ignore, None)
      else (v, rule_action_run_with_param, Some (flag_struct True)))"

definition ruleStereoTopAllowHandsetConnect :: "stereo_view \<Rightarrow> stereo_view \<times> rule_action \<times> u8 list option" where
  "ruleStereoTopAllowHandsetConnect v =
     (if view_shutdown v then (v, rule_action_ignore, None)
      else (v, rule_action_run_with_param, Some (flag_struct True)))"

definition ruleStereoTopConnectHandset ::
  "rule_connect_reason \<Rightarrow> stereo_view \<Rightarrow> stereo_view \<times> rule_action \<times> u8 list option" where
  "ruleStereoTopConnectHandset reason v =
     (if \<not> handset_paired (view_env v) then (v, rule_action_ignore, None)
      else if view_prohibit v then (v, rule_action_ignore, None)
      else if handset_pairing_mode (view_env v) then (v, rule_action_ignore, None)
      else if \<not> reboot_reason_dfu_reset (view_env v) \<and> poweron_reconnect_flag (view_env v)
      then (v, rule_action_ignore, None)
      else if reason = rule_connect_linkloss
      then (v, rule_action_run_with_param, Some (flag_struct True))
      else (v, rule_action_run_with_param, Some (flag_struct False)))"

definition ruleStereoTopAutoConnectHandset :: "stereo_view \<Rightarrow> stereo_view \<times> rule_action \<times> u8 list option" where
  "ruleStereoTopAutoConnectHandset v = ruleStereoTopConnectHandset rule_auto_connect v"

definition ruleStereoTopAllowLEConnection :: "stereo_view \<Rightarrow> stereo_view \<times> rule_action \<times> u8 list option" where
  "ruleStereoTopAllowLEConnection v = (v, rule_action_run_with_param, Some (flag_struct True))"

definition ruleStereoTopHandsetLinkLossReconnect :: "stereo_view \<Rightarrow> stereo_view \<times> rule_action \<times> u8 list option" where
  "ruleStereoTopHandsetLinkLossReconnect v = ruleStereoTopConnectHandset rule_connect_linkloss v"

definition ruleStereoTopDisconnectHandset :: "stereo_view \<Rightarrow> stereo_view \<times> rule_action \<times> u8 list option" where
  "ruleStereoTopDisconnectHandset v = (v, rule_action_run, None)"

definition ruleStereoTopDisconnectLruHandset :: "stereo_view \<Rightarrow> stereo_view \<times> rule_action \<times> u8 list option" where
  "ruleStereoTopDisconnectLruHandset v =
     (if GoalsEngine_IsGoalActive (view_goals v) stereo_topology_goal_disconnect_handset
         \<or> GoalsEngine_IsGoalActive (view_goals v) stereo_topology_goal_connect_handset
         \<or> \<not> any_bredr_connected (view_env v)
      then (v, rule_action_ignore, None) else (v, rule_action_run, None))"

definition ruleStereoTopStop :: "stereo_view \<Rightarrow> stereo_view \<times> rule_action \<times> u8 list option" where
  "ruleStereoTopStop v = (v, rule_action_run, None)"

definition ruleStereoTopUserRequestConnectHandset :: "stereo_view \<Rightarrow> stereo_view \<times> rule_action \<times> u8 list option" where
  "ruleStereoTopUserRequestConnectHandset v = ruleStereoTopConnectHandset rule_connect_user v"

definition RULE ::
  "u64 \<Rightarrow> (stereo_view \<Rightarrow> stereo_view \<times> rule_action \<times> u8 list option) \<Rightarrow> message_id \<Rightarrow> stereo_view rule_entry" where
  "RULE event fn mid = \<lparr>entry_events = event, flags = rule_flag_no_flags, rule = fn, message = mid\<rparr>"

definition stereotop_rules_set :: "stereo_view rule_entry list" where
  "stereotop_rules_set =
    [RULE STEREOTOP_RULE_EVENT_STOP ruleStereoTopStop STEREOTOP_GOAL_SYSTEM_STOP,
     RULE STEREOTOP_RULE_EVENT_HANDSET_LINKLOSS ruleStereoTopHandsetLinkLossReconnect STEREOTOP_GOAL_CONNECT_HANDSET,
     RULE STEREOTOP_RULE_EVENT_START ruleStereoTopAllowLEConnection STEREOTOP_GOAL_ALLOW_LE_CONNECTION,
     RULE STEREOTOP_RULE_EVENT_START ruleStereoTopEnableConnectableHandset STEREOTOP_GOAL_CONNECTABLE_HANDSET,
     RULE STEREOTOP_RULE_EVENT_START ruleStereoTopAllowHandsetConnect STEREOTOP_GOAL_ALLOW_HANDSET_CONNECT,
     RULE STEREOTOP_RULE_EVENT_START ruleStereoTopAutoConnectHandset STEREOTOP_GOAL_CONNECT_HANDSET,
     RULE STEREOTOP_RULE_EVENT_PROHIBIT_CONNECT_TO_HANDSET ruleStereoTopDisconnectHandset
       STEREOTOP_GOAL_DISCONNECT_HANDSET,
     RULE STEREOTOP_RULE_EVENT_USER_REQUEST_CONNECT_HANDSET ruleStereoTopUserRequestConnectHandset
       STEREOTOP_GOAL_CONNECT_HANDSET,
     RULE STEREOTOP_RULE_EVENT_USER_REQUEST_DISCONNECT_ALL_HANDSETS ruleStereoTopDisconnectHandset
       STEREOTOP_GOAL_DISCONNECT_HANDSET,
     RULE STEREOTOP_RULE_EVENT_USER_REQUEST_DISCONNECT_LRU_HANDSET ruleStereoTopDisconnectLruHandset
       STEREOTOP_GOAL_DISCONNECT_LRU_HANDSET]"

section \<open>State\<close>

datatype stereo_topology_sm = STEREO_TOPOLOGY_STATE_STOPPED | STEREO_TOPOLOGY_STATE_STOPPING
  | STEREO_TOPOLOGY_STATE_STARTED | STEREO_TOPOLOGY_STATE_STARTING

datatype stereo_topology_status = stereo_topology_status_success | stereo_topology_status_fail

text \<open>What the topology does to the outside.\<close>

datatype stereo_output =
    ServiceOut service_call
  | StopCfm task stereo_topology_status
  | ClientSend "handset_service_status task_list_send"
  | ShutdownPrepareResponse task
  | PowerClientRegister task
  | PowerClientAllowSleep task
  | HandsetServiceClientRegister task
  | ConManagerClientRegister task
  | PairingActivityClientRegister task
  | PageScanParametersRegister
  | InquiryScanParametersRegister
  | LedOta
  | LedIdleConnected
  | LedRefresh

text \<open>
  The task data of the topology, with its rule set, the goals engine, the procedures, the
  number of stop time-outs that are running, and the outputs so far.
\<close>

record stereo_topology =
  stereo_topology_state :: stereo_topology_sm
  app_task :: task
  prohibit_connect_to_handset :: bool
  shutdown_in_progress :: bool
  ota_enable :: bool
  message_client_tasks :: task_list
  stereo_rules :: "stereo_view rule_set"
  stereo_goals :: goals_world
  stereo_procedures :: stereo_procs
  stop_timeouts :: nat
  log :: "stereo_output list"

definition emit :: "stereo_output list \<Rightarrow> stereo_topology \<Rightarrow> stereo_topology" where
  "emit out s = s\<lparr>log := log s @ out\<rparr>"

definition post_messages :: "post list \<Rightarrow> stereo_topology \<Rightarrow> stereo_topology" where
  "post_messages ms s = s\<lparr>stereo_procedures := (stereo_procedures s)\<lparr>mbox := mbox (stereo_procedures s) @ ms\<rparr>\<rparr>"

section \<open>Rule events\<close>

definition stereo_view_of :: "stereo_env \<Rightarrow> stereo_topology \<Rightarrow> stereo_view" where
  "stereo_view_of env s = \<lparr>view_env = env, view_shutdown = shutdown_in_progress s,
     view_prohibit = prohibit_connect_to_handset s, view_goals = gset (stereo_goals s)\<rparr>"

text \<open>
  The engine's messages to the goal task are posted; no task registers for its messages
  about rules that are done (\<open>NopSend\<close>).
\<close>

definition decisions_of :: "rule_output list \<Rightarrow> post list" where
  "decisions_of out = concat (map (\<lambda>x. case x of MessageSend _ mid data \<Rightarrow> [PostDecision mid data] | NopSend _ \<Rightarrow> []) out)"

definition StereoTopologyRules_SetEvent :: "stereo_env \<Rightarrow> u64 \<Rightarrow> stereo_topology \<Rightarrow> stereo_topology res" where
  "StereoTopologyRules_SetEvent env event_mask s =
     res_bind (RulesEngine_SetEvent (stereo_rules s) (stereo_view_of env s) event_mask) (\<lambda>(rs, _, out).
       Inr (post_messages (decisions_of out) (s\<lparr>stereo_rules := rs\<rparr>)))"

definition StereoTopologyRules_ResetEvent :: "u64 \<Rightarrow> stereo_topology \<Rightarrow> stereo_topology res" where
  "StereoTopologyRules_ResetEvent event s =
     res_bind (RulesEngine_ResetEvent (stereo_rules s) event) (\<lambda>rs. Inr (s\<lparr>stereo_rules := rs\<rparr>))"

definition StereoTopologyRules_GetEvents :: "stereo_topology \<Rightarrow> u64" where
  "StereoTopologyRules_GetEvents s = RulesEngine_GetEvents (stereo_rules s)"

definition StereoTopologyRules_SetRuleComplete :: "stereo_env \<Rightarrow> message_id \<Rightarrow> stereo_topology \<Rightarrow> stereo_topology res" where
  "StereoTopologyRules_SetRuleComplete env mid s =
     res_bind (RulesEngine_SetRuleComplete (stereo_rules s) (stereo_view_of env s) mid) (\<lambda>(rs, _, out).
       Inr (post_messages (decisions_of out) (s\<lparr>stereo_rules := rs\<rparr>)))"

definition StereoTopologyRules_SetRuleWithEventComplete ::
  "stereo_env \<Rightarrow> message_id \<Rightarrow> u64 \<Rightarrow> stereo_topology \<Rightarrow> stereo_topology res" where
  "StereoTopologyRules_SetRuleWithEventComplete env mid event s =
     res_bind (RulesEngine_SetRuleWithEventComplete (stereo_rules s) (stereo_view_of env s) mid event) (\<lambda>(rs, _, out).
       Inr (post_messages (decisions_of out) (s\<lparr>stereo_rules := rs\<rparr>)))"

section \<open>The state machine\<close>

definition StereoTopology_SendStopCfm :: "stereo_topology_status \<Rightarrow> stereo_topology \<Rightarrow> stereo_topology" where
  "StereoTopology_SendStopCfm status s = emit [StopCfm (app_task s) status] (s\<lparr>stop_timeouts := 0\<rparr>)"

definition StereoTopology_SendHandsetDisconnectedIndication ::
  "stereo_env \<Rightarrow> handset_service_status \<Rightarrow> stereo_topology \<Rightarrow> stereo_topology res" where
  "StereoTopology_SendHandsetDisconnectedIndication env status s =
     res_bind (TaskList_MessageSend (message_client_tasks s) (STEREO_TOPOLOGY_MESSAGE_BASE env) (Some status) 4)
       (\<lambda>sends. Inr (emit (map ClientSend sends) s))"

definition StereoTopologyConfig_StereoTopologyStopTimeoutS :: nat where
  "StereoTopologyConfig_StereoTopologyStopTimeoutS = 10"

definition stereoTopologyEnterStoppedState :: "stereo_topology \<Rightarrow> stereo_topology" where
  "stereoTopologyEnterStoppedState s = s\<lparr>app_task := 0\<rparr>"

definition stereoTopologyEnterStoppingState :: "stereo_env \<Rightarrow> stereo_topology \<Rightarrow> stereo_topology res" where
  "stereoTopologyEnterStoppingState env s =
     (let timeout_ms = 1000 * StereoTopologyConfig_StereoTopologyStopTimeoutS;
          s = (if timeout_ms \<noteq> 0 then s\<lparr>stop_timeouts := stop_timeouts s + 1\<rparr> else s)
      in StereoTopologyRules_SetEvent env STEREOTOP_RULE_EVENT_STOP s)"

definition stereoTopologyEnterStartingState :: "stereo_env \<Rightarrow> stereo_topology \<Rightarrow> stereo_topology res" where
  "stereoTopologyEnterStartingState env s =
     (let s = s\<lparr>prohibit_connect_to_handset := False, shutdown_in_progress := False\<rparr> in
      res_bind (StereoTopologyRules_ResetEvent RULE_EVENT_ALL_EVENTS_MASK s) (\<lambda>s.
        StereoTopologyRules_SetEvent env STEREOTOP_RULE_EVENT_START s))"

text \<open>Leaving a state does nothing, and so does entering the started state.\<close>

definition StereoTopology_SetState :: "stereo_env \<Rightarrow> stereo_topology_sm \<Rightarrow> stereo_topology \<Rightarrow> stereo_topology res" where
  "StereoTopology_SetState env new_state s =
     (let s = s\<lparr>stereo_topology_state := new_state\<rparr> in
      case new_state of
        STEREO_TOPOLOGY_STATE_STOPPED \<Rightarrow> Inr (stereoTopologyEnterStoppedState s)
      | STEREO_TOPOLOGY_STATE_STOPPING \<Rightarrow> stereoTopologyEnterStoppingState env s
      | STEREO_TOPOLOGY_STATE_STARTED \<Rightarrow> Inr s
      | STEREO_TOPOLOGY_STATE_STARTING \<Rightarrow> stereoTopologyEnterStartingState env s)"

definition StereoTopology_Start :: "stereo_env \<Rightarrow> stereo_topology \<Rightarrow> stereo_topology res" where
  "StereoTopology_Start env s =
     (if stereo_topology_state s = STEREO_TOPOLOGY_STATE_STOPPED
      then StereoTopology_SetState env STEREO_TOPOLOGY_STATE_STARTING s else Inr s)"

definition StereoTopology_Stop :: "stereo_env \<Rightarrow> task \<Rightarrow> stereo_topology \<Rightarrow> stereo_topology res" where
  "StereoTopology_Stop env requesting_task s =
     (let s = s\<lparr>app_task := requesting_task\<rparr> in
      if stereo_topology_state s = STEREO_TOPOLOGY_STATE_STARTED
      then StereoTopology_SetState env STEREO_TOPOLOGY_STATE_STOPPING s
      else if stereo_topology_state s = STEREO_TOPOLOGY_STATE_STOPPED
      then Inr (StereoTopology_SendStopCfm stereo_topology_status_success s)
      else Inr s)"

definition stereoTopology_IsRunning :: "stereo_topology \<Rightarrow> bool" where
  "stereoTopology_IsRunning s \<longleftrightarrow> app_task s \<noteq> 0 \<and> stereo_topology_state s \<noteq> STEREO_TOPOLOGY_STATE_STOPPED"

definition StereoTopology_ProhibitHandsetConnection :: "stereo_env \<Rightarrow> bool \<Rightarrow> stereo_topology \<Rightarrow> stereo_topology res" where
  "StereoTopology_ProhibitHandsetConnection env prohibit s =
     (let s = s\<lparr>prohibit_connect_to_handset := prohibit\<rparr> in
      if prohibit then StereoTopologyRules_SetEvent env STEREOTOP_RULE_EVENT_PROHIBIT_CONNECT_TO_HANDSET s else Inr s)"

definition StereoTopology_ConnectMruHandset :: "stereo_env \<Rightarrow> stereo_topology \<Rightarrow> stereo_topology res" where
  "StereoTopology_ConnectMruHandset env s =
     StereoTopologyRules_SetEvent env STEREOTOP_RULE_EVENT_USER_REQUEST_CONNECT_HANDSET s"

definition StereoTopology_DisconnectLruHandset :: "stereo_env \<Rightarrow> stereo_topology \<Rightarrow> stereo_topology res" where
  "StereoTopology_DisconnectLruHandset env s =
     StereoTopologyRules_SetEvent env STEREOTOP_RULE_EVENT_USER_REQUEST_DISCONNECT_LRU_HANDSET s"

definition StereoTopology_DisconnectAllHandsets :: "stereo_env \<Rightarrow> stereo_topology \<Rightarrow> stereo_topology res" where
  "StereoTopology_DisconnectAllHandsets env s =
     StereoTopologyRules_SetEvent env STEREOTOP_RULE_EVENT_USER_REQUEST_DISCONNECT_ALL_HANDSETS s"

definition StereoTopology_RegisterMessageClient :: "task \<Rightarrow> stereo_topology \<Rightarrow> stereo_topology res" where
  "StereoTopology_RegisterMessageClient client_task s =
     res_bind (TaskList_AddTask (Some (message_client_tasks s)) client_task) (\<lambda>(l, _).
       Inr (s\<lparr>message_client_tasks := l\<rparr>))"

definition StereoTopology_UnRegisterMessageClient :: "task \<Rightarrow> stereo_topology \<Rightarrow> stereo_topology res" where
  "StereoTopology_UnRegisterMessageClient client_task s =
     res_bind (TaskList_RemoveTask (Some (message_client_tasks s)) client_task) (\<lambda>(l, _).
       Inr (s\<lparr>message_client_tasks := l\<rparr>))"

definition TwsTopology_SetOtaEnable :: "bool \<Rightarrow> stereo_topology \<Rightarrow> stereo_topology" where
  "TwsTopology_SetOtaEnable val s =
     emit (if val then [LedOta] else [LedIdleConnected, LedRefresh]) (s\<lparr>ota_enable := val\<rparr>)"

definition TwsTopology_IsOtaEnable :: "stereo_topology \<Rightarrow> bool" where
  "TwsTopology_IsOtaEnable s = ota_enable s"

definition StereoTopology_IsGoalActive :: "goal_id \<Rightarrow> stereo_topology \<Rightarrow> bool" where
  "StereoTopology_IsGoalActive goal s = GoalsEngine_IsGoalActive (gset (stereo_goals s)) goal"

definition StereoTopology_IsAnyGoalPending :: "stereo_topology \<Rightarrow> bool" where
  "StereoTopology_IsAnyGoalPending s = GoalsEngine_IsAnyGoalPending (gset (stereo_goals s))"

section \<open>Goals and procedures\<close>

text \<open>Callbacks of the goals: a start needs no action, a completion or cancellation clears the goal.\<close>

definition clear_stereo_goal :: "goal_id \<Rightarrow> stereo_topology \<Rightarrow> stereo_topology res" where
  "clear_stereo_goal goal s =
     res_bind (GoalsEngine_ClearGoal (gset (stereo_goals s)) goal) (\<lambda>gs.
       Inr (s\<lparr>stereo_goals := (stereo_goals s)\<lparr>gset := gs\<rparr>\<rparr>))"

definition stereoTopology_GoalProcStartCfm :: "u16 \<Rightarrow> procedure_result \<Rightarrow> stereo_topology \<Rightarrow> stereo_topology res" where
  "stereoTopology_GoalProcStartCfm p result s = Inr s"

definition stereoTopology_GoalProcComplete ::
  "stereo_env \<Rightarrow> u16 \<Rightarrow> procedure_result \<Rightarrow> stereo_topology \<Rightarrow> stereo_topology res" where
  "stereoTopology_GoalProcComplete env p result s =
     res_bind (GoalsEngine_FindGoalForProcedure (gset (stereo_goals s)) p) (\<lambda>completed_goal.
     res_bind (GoalsEngine_GetGoalCompleteEvent (gset (stereo_goals s)) completed_goal result) (\<lambda>complete_event.
     res_bind (if stereo_topology_state s = STEREO_TOPOLOGY_STATE_STARTING
                  \<and> completed_goal = stereo_topology_goal_allow_handset_connect
               then StereoTopology_SetState env STEREO_TOPOLOGY_STATE_STARTED s else Inr s) (\<lambda>s.
     res_bind (if complete_event \<noteq> 0 then StereoTopologyRules_SetEvent env complete_event s else Inr s) (\<lambda>s.
       clear_stereo_goal completed_goal s))))"

definition stereoTopology_GoalProcCancelCfm :: "u16 \<Rightarrow> procedure_result \<Rightarrow> stereo_topology \<Rightarrow> stereo_topology res" where
  "stereoTopology_GoalProcCancelCfm p result s =
     res_bind (GoalsEngine_FindGoalForProcedure (gset (stereo_goals s)) p) (\<lambda>goal. clear_stereo_goal goal s)"

text \<open>
  The start and cancel functions behind the names used in the goal table and the script.
  Each returns the new data of the procedures and what it does, in order.
\<close>

definition stereo_proc_start ::
  "stereo_env \<Rightarrow> stereo_procs \<Rightarrow> nat \<Rightarrow> callback \<Rightarrow> u8 list option \<Rightarrow> message_id option \<Rightarrow> (stereo_procs \<times> proc_effect list) res" where
  "stereo_proc_start env ps n cb data send =
     (if n = 1 then StereoTopology_ProcedureEnableConnectableHandsetStart ps cb data
      else if n = 2 then StereoTopology_ProcedureAllowHandsetConnectStart ps cb data
      else if n = 3 then StereoTopology_ProcedureConnectHandsetStart ps (handset_paired env) cb data
      else if n = 4 then StereoTopology_ProcedureDisconnectHandsetStart ps cb data
      else if n = 5 then StereoTopology_ProcAllowLEConnectionStart ps cb data
      else if n = 7 then StereoTopology_ProcedureStartStopScriptStart ps cb data
      else if n = 8 then StereoTopology_ProcedureSendTopologyMessageStart ps cb send
      else if n = 9 then StereoTopology_ProcedureDisconnectLeStart ps cb data
      else if n = 10 then StereoTopology_ProcedureDisconnectLruHandsetStart ps cb data
      else Inl BadAccess)"

definition stereo_proc_cancel :: "stereo_procs \<Rightarrow> nat \<Rightarrow> callback \<Rightarrow> (stereo_procs \<times> proc_effect list) res" where
  "stereo_proc_cancel ps n cb =
     (if n = 1 then StereoTopology_ProcedureEnableConnectableHandsetCancel ps cb
      else if n = 2 then StereoTopology_ProcedureAllowHandsetConnectCancel ps cb
      else if n = 3 then StereoTopology_ProcedureConnectHandsetCancel ps cb
      else if n = 4 then StereoTopology_ProcedureDisconnectHandsetCancel ps cb
      else if n = 5 then StereoTopology_ProcAllowLEConnectionCancel ps cb
      else if n = 7 then StereoTopology_ProcedureStartStopScriptCancel ps cb
      else if n = 8 then StereoTopology_ProcedureSendTopologyMessageCancel ps cb
      else if n = 9 then StereoTopology_ProcedureDisconnectLeCancel ps cb
      else if n = 10 then StereoTopology_ProcedureDisconnectLruHandsetCancel ps cb
      else Inl BadAccess)"

text \<open>
  The effects of a start or cancel function: requests, and the confirmation of the start to
  the goals or to the script engine. None of these functions completes at once
  (lemma \<open>start_effects_flat\<close> of \<open>Stereo_Control\<close>), so the last case is never met.
\<close>

definition start_effect :: "stereo_env \<Rightarrow> proc_effect \<Rightarrow> stereo_topology \<Rightarrow> stereo_topology res" where
  "start_effect env e s = (case e of
     Service (SendHandsetDisconnectedIndication st) \<Rightarrow> StereoTopology_SendHandsetDisconnectedIndication env st s
   | Service c \<Rightarrow> Inr (emit [ServiceOut c] s)
   | StartConfirm CbGoal p r \<Rightarrow> stereoTopology_GoalProcStartCfm p r s
   | StartConfirm CbScript p r \<Rightarrow>
       res_bind (scriptEngine_ProcStartCfm (engine (stereo_goals s)) r) (\<lambda>(td, _).
         Inr (s\<lparr>stereo_goals := (stereo_goals s)\<lparr>engine := td\<rparr>\<rparr>))
   | ResetCall r \<Rightarrow> Inr (s\<lparr>stereo_procedures := apply_reset r (stereo_procedures s)\<rparr>)
   | _ \<Rightarrow> Inl BadAccess)"

definition run_proc :: "stereo_env \<Rightarrow> (stereo_procs \<times> proc_effect list) res \<Rightarrow> stereo_topology \<Rightarrow> stereo_topology res" where
  "run_proc env r s = res_bind r (\<lambda>(ps, es). for_res (start_effect env) es (s\<lparr>stereo_procedures := ps\<rparr>))"

text \<open>The data of a step of the script.\<close>

definition step_data :: "nat \<Rightarrow> u8 list option" where
  "step_data d = (if d = 1 then Some (flag_struct False) else None)"

definition step_send :: "nat \<Rightarrow> message_id option" where
  "step_send d = (if d = 2 then Some PROC_SEND_STEREO_TOPOLOGY_MESSAGE_SYSTEM_STOP_FINISHED else None)"

definition script_output_step :: "stereo_env \<Rightarrow> script_output \<Rightarrow> stereo_topology \<Rightarrow> stereo_topology res" where
  "script_output_step env out s = (case out of
     ProcStart n _ d \<Rightarrow> run_proc env (stereo_proc_start env (stereo_procedures s) n CbScript (step_data d) (step_send d)) s
   | ProcCancel n \<Rightarrow> run_proc env (stereo_proc_cancel (stereo_procedures s) n CbScript) s
   | CallComplete _ p r \<Rightarrow> stereoTopology_GoalProcComplete env p r s
   | CallCancel _ p r \<Rightarrow> stereoTopology_GoalProcCancelCfm p r s)"

text \<open>What the goals engine asked for, carried out in order.\<close>

definition goals_output_step :: "stereo_env \<Rightarrow> goals_output \<Rightarrow> stereo_topology \<Rightarrow> stereo_topology res" where
  "goals_output_step env out s = (case out of
     GoalProcStart g d \<Rightarrow>
       res_bind (array_get (goals (gset (stereo_goals s))) g) (\<lambda>e.
       res_bind (case proc_fns e of None \<Rightarrow> Inl BadAccess | Some n \<Rightarrow> Inr n) (\<lambda>n.
         run_proc env (stereo_proc_start env (stereo_procedures s) n CbGoal d None) s))
   | GoalProcCancel g \<Rightarrow>
       res_bind (array_get (goals (gset (stereo_goals s))) g) (\<lambda>e.
       res_bind (case proc_fns e of None \<Rightarrow> Inl BadAccess | Some n \<Rightarrow> Inr n) (\<lambda>n.
         run_proc env (stereo_proc_cancel (stereo_procedures s) n CbGoal) s))
   | GoalScript so \<Rightarrow> script_output_step env so s)"

definition activate_stereo_goal ::
  "stereo_env \<Rightarrow> goal_id \<Rightarrow> task \<Rightarrow> message_id \<Rightarrow> u8 list option \<Rightarrow> nat \<Rightarrow> stereo_topology \<Rightarrow> stereo_topology res" where
  "activate_stereo_goal env goal t mid data n s =
     res_bind (GoalsEngine_ActivateGoal (stereo_goals s) goal t mid data n) (\<lambda>w.
       for_res (goals_output_step env) (outs w) (s\<lparr>stereo_goals := w\<lparr>outs := []\<rparr>\<rparr>))"

text \<open>
  The callbacks of a procedure that has completed or been cancelled, and the resets that
  follow them.
\<close>

definition script_callback ::
  "stereo_env \<Rightarrow> (ScriptEngineTaskData \<times> script_output list) res \<Rightarrow> stereo_topology \<Rightarrow> stereo_topology res" where
  "script_callback env r s =
     res_bind r (\<lambda>(td, out).
       for_res (script_output_step env) out (s\<lparr>stereo_goals := (stereo_goals s)\<lparr>engine := td\<rparr>\<rparr>))"

definition proc_effect_step :: "stereo_env \<Rightarrow> proc_effect \<Rightarrow> stereo_topology \<Rightarrow> stereo_topology res" where
  "proc_effect_step env e s = (case e of
     CompleteCall CbGoal p r \<Rightarrow> stereoTopology_GoalProcComplete env p r s
   | CompleteCall CbScript p r \<Rightarrow> script_callback env (scriptEngine_ProcCompleteCfm (engine (stereo_goals s)) r) s
   | CancelCall CbGoal p r \<Rightarrow> stereoTopology_GoalProcCancelCfm p r s
   | CancelCall CbScript p r \<Rightarrow> script_callback env (scriptEngine_ProcCancelCfm (engine (stereo_goals s)) r) s
   | _ \<Rightarrow> start_effect env e s)"

subsection \<open>Decisions\<close>

definition StereoTopology_HandleGoalDecision ::
  "stereo_env \<Rightarrow> task \<Rightarrow> message_id \<Rightarrow> u8 list option \<Rightarrow> stereo_topology \<Rightarrow> stereo_topology res" where
  "StereoTopology_HandleGoalDecision env t mid data s =
     (let is_starting = (stereo_topology_state s = STEREO_TOPOLOGY_STATE_STARTING);
          is_started = (stereo_topology_state s = STEREO_TOPOLOGY_STATE_STARTED) in
      res_bind
        (if mid = STEREOTOP_GOAL_CONNECTABLE_HANDSET then
           (if is_starting then activate_stereo_goal env stereo_topology_goal_connectable_handset t mid data 4 s else Inr s)
         else if mid = STEREOTOP_GOAL_CONNECT_HANDSET then
           (if is_started then activate_stereo_goal env stereo_topology_goal_connect_handset t mid data 4 s else Inr s)
         else if mid = STEREOTOP_GOAL_ALLOW_HANDSET_CONNECT then
           (if is_starting then activate_stereo_goal env stereo_topology_goal_allow_handset_connect t mid data 4 s else Inr s)
         else if mid = STEREOTOP_GOAL_DISCONNECT_HANDSET then
           (if is_started then activate_stereo_goal env stereo_topology_goal_disconnect_handset t mid data 0 s else Inr s)
         else if mid = STEREOTOP_GOAL_DISCONNECT_LRU_HANDSET then
           (if is_started then activate_stereo_goal env stereo_topology_goal_disconnect_lru_handset t mid data 0 s else Inr s)
         else if mid = STEREOTOP_GOAL_ALLOW_LE_CONNECTION then
           (if is_starting then activate_stereo_goal env stereo_topology_goal_allow_le_connection t mid data 4 s else Inr s)
         else if mid = STEREOTOP_GOAL_SYSTEM_STOP then
           activate_stereo_goal env stereo_topology_goal_system_stop t mid None 0 s
         else Inr s)
        (StereoTopologyRules_SetRuleComplete env mid))"

subsection \<open>Messages\<close>

datatype stereo_message =
    PAIRING_ACTIVITY
  | HANDSET_SERVICE_CONNECTED_IND
  | HANDSET_SERVICE_DISCONNECTED_IND handset_service_status
  | CON_MANAGER_CONNECTION_IND
  | APP_POWER_SHUTDOWN_PREPARE_IND
  | InternalMessage message_id

definition STEREOTOP_INTERNAL_TIMEOUT_TOPOLOGY_STOP :: message_id where
  "STEREOTOP_INTERNAL_TIMEOUT_TOPOLOGY_STOP = 0"

definition stereoTopology_HandlePowerShutdownPrepareInd :: "stereo_topology \<Rightarrow> stereo_topology" where
  "stereoTopology_HandlePowerShutdownPrepareInd s =
     emit [ShutdownPrepareResponse StereoTopologyGetTask] (s\<lparr>shutdown_in_progress := True\<rparr>)"

definition stereoTopology_HandleHandsetServiceDisconnectedInd ::
  "stereo_env \<Rightarrow> handset_service_status \<Rightarrow> stereo_topology \<Rightarrow> stereo_topology res" where
  "stereoTopology_HandleHandsetServiceDisconnectedInd env status s =
     (if status = handset_service_status_link_loss
      then StereoTopologyRules_SetEvent env STEREOTOP_RULE_EVENT_HANDSET_LINKLOSS s else Inr s)"

definition stereoTopology_HandleStopTimeout :: "stereo_env \<Rightarrow> stereo_topology \<Rightarrow> stereo_topology res" where
  "stereoTopology_HandleStopTimeout env s =
     StereoTopology_SetState env STEREO_TOPOLOGY_STATE_STOPPED
       (StereoTopology_SendStopCfm stereo_topology_status_fail s)"

definition stereoTopology_HandleStopCompletion :: "stereo_env \<Rightarrow> stereo_topology \<Rightarrow> stereo_topology res" where
  "stereoTopology_HandleStopCompletion env s =
     (if stereo_topology_state s = STEREO_TOPOLOGY_STATE_STOPPING
      then StereoTopology_SetState env STEREO_TOPOLOGY_STATE_STOPPED
             (StereoTopology_SendStopCfm stereo_topology_status_success s)
      else Inr s)"

definition stereoTopology_HandleMessage :: "stereo_env \<Rightarrow> stereo_message \<Rightarrow> stereo_topology \<Rightarrow> stereo_topology res" where
  "stereoTopology_HandleMessage env m s = (case m of
     HANDSET_SERVICE_DISCONNECTED_IND st \<Rightarrow> stereoTopology_HandleHandsetServiceDisconnectedInd env st s
   | APP_POWER_SHUTDOWN_PREPARE_IND \<Rightarrow> Inr (stereoTopology_HandlePowerShutdownPrepareInd s)
   | InternalMessage mid \<Rightarrow>
       (if mid = STEREOTOP_INTERNAL_TIMEOUT_TOPOLOGY_STOP then stereoTopology_HandleStopTimeout env s
        else if mid = PROC_SEND_STEREO_TOPOLOGY_MESSAGE_SYSTEM_STOP_FINISHED then stereoTopology_HandleStopCompletion env s
        else Inr s)
   | _ \<Rightarrow> Inr s)"

subsection \<open>Initialisation\<close>

definition StereoTopologyRules_Init :: "task \<Rightarrow> stereo_topology \<Rightarrow> stereo_topology res" where
  "StereoTopologyRules_Init result_task s =
     res_bind (RulesEngine_CreateRuleSet stereotop_rules_set STEREOTOP_GOAL_NOP result_task) (\<lambda>rs.
       Inr (s\<lparr>stereo_rules := rs\<rparr>))"

definition stereo_goal_params :: goal_set_init_params where
  "stereo_goal_params = \<lparr>ip_goals = Some stereogoals, ip_goals_count = length stereogoals,
     ip_proc_result_task = StereoTopologyGetTask, ip_proc_start_cfm_fn = 1, ip_proc_cancel_cfm_fn = 2,
     ip_proc_complete_cfm_fn = 3, ip_pending_goal_queue_task = pending_goal_queue_task\<rparr>"

definition StereoTopology_GoalsInit :: "stereo_topology \<Rightarrow> stereo_topology res" where
  "StereoTopology_GoalsInit s =
     res_bind (GoalsEngine_CreateGoalSet stereo_goal_params) (\<lambda>gs.
       Inr (s\<lparr>stereo_goals := (stereo_goals s)\<lparr>gset := gs\<rparr>\<rparr>))"

definition StereoTopology_Init :: "stereo_env \<Rightarrow> stereo_topology \<Rightarrow> stereo_topology res" where
  "StereoTopology_Init env s =
     res_bind (StereoTopology_SetState env STEREO_TOPOLOGY_STATE_STOPPED
         (s\<lparr>prohibit_connect_to_handset := False, shutdown_in_progress := False\<rparr>)) (\<lambda>s.
     res_bind (StereoTopologyRules_Init StereoTopologyGetGoalTask s) (\<lambda>s.
     res_bind (StereoTopology_GoalsInit s) (\<lambda>s.
     let s = emit [PowerClientRegister StereoTopologyGetTask, PowerClientAllowSleep StereoTopologyGetTask,
         HandsetServiceClientRegister StereoTopologyGetTask, ConManagerClientRegister StereoTopologyGetTask,
         PairingActivityClientRegister StereoTopologyGetTask, PageScanParametersRegister,
         InquiryScanParametersRegister] s in
     res_bind (TaskList_InitialiseWithCapacity 1) (\<lambda>l. Inr (s\<lparr>message_client_tasks := l\<rparr>)))))"

section \<open>The topology as a state machine\<close>

datatype proc_task = ProcDisconnectHandset | ProcDisconnectLe | ProcConnectHandset | ProcAllowLe

definition proc_handler :: "proc_task \<Rightarrow> stereo_procs \<Rightarrow> proc_message \<Rightarrow> (stereo_procs \<times> proc_effect list) res" where
  "proc_handler t = (case t of
     ProcDisconnectHandset \<Rightarrow> stereoTopology_ProcDisconnectHandsetHandleMessage
   | ProcDisconnectLe \<Rightarrow> stereoTopology_ProcDisconnectLeHandleMessage
   | ProcConnectHandset \<Rightarrow> stereoTopology_ProcConnectHandsetHandleMessage
   | ProcAllowLe \<Rightarrow> stereoTopology_ProcAllowLEConnectionHandleMessage)"

text \<open>
  Calls of the application, messages of other modules to the topology and to its
  procedures, the stop time-out, delivery of the oldest posted message, and delivery of a
  queued decision whose lock is released.
\<close>

datatype stereo_event =
    CallStart
  | CallStop task
  | CallProhibit bool
  | CallConnectMru
  | CallDisconnectLru
  | CallDisconnectAll
  | CallRegister task
  | CallUnregister task
  | CallSetOta bool
  | TopologyMessage stereo_message
  | ProcMessage proc_task proc_message
  | StopTimeout
  | DeliverPosted
  | DeliverQueued nat

definition deliver_post :: "stereo_env \<Rightarrow> post \<Rightarrow> stereo_topology \<Rightarrow> stereo_topology res" where
  "deliver_post env m s = (case m of
     PostDelay c \<Rightarrow> for_res (proc_effect_step env) (Procedures_DelayCfmHandleMessage c) s
   | PostTopology mid \<Rightarrow> stereoTopology_HandleMessage env (InternalMessage mid) s
   | PostDecision mid data \<Rightarrow> StereoTopology_HandleGoalDecision env StereoTopologyGetGoalTask mid data s)"

definition stereo_step :: "stereo_env \<Rightarrow> stereo_event \<Rightarrow> stereo_topology \<Rightarrow> stereo_topology res" where
  "stereo_step env e s = (case e of
     CallStart \<Rightarrow> StereoTopology_Start env s
   | CallStop t \<Rightarrow> StereoTopology_Stop env t s
   | CallProhibit b \<Rightarrow> StereoTopology_ProhibitHandsetConnection env b s
   | CallConnectMru \<Rightarrow> StereoTopology_ConnectMruHandset env s
   | CallDisconnectLru \<Rightarrow> StereoTopology_DisconnectLruHandset env s
   | CallDisconnectAll \<Rightarrow> StereoTopology_DisconnectAllHandsets env s
   | CallRegister t \<Rightarrow> StereoTopology_RegisterMessageClient t s
   | CallUnregister t \<Rightarrow> StereoTopology_UnRegisterMessageClient t s
   | CallSetOta b \<Rightarrow> Inr (TwsTopology_SetOtaEnable b s)
   | TopologyMessage m \<Rightarrow> (case m of InternalMessage _ \<Rightarrow> Inr s | _ \<Rightarrow> stereoTopology_HandleMessage env m s)
   | ProcMessage t m \<Rightarrow>
       res_bind (proc_handler t (stereo_procedures s) m) (\<lambda>(ps, es).
         for_res (proc_effect_step env) es (s\<lparr>stereo_procedures := ps\<rparr>))
   | StopTimeout \<Rightarrow>
       if stop_timeouts s = 0 then Inr s
       else stereoTopology_HandleMessage env (InternalMessage STEREOTOP_INTERNAL_TIMEOUT_TOPOLOGY_STOP)
              (s\<lparr>stop_timeouts := stop_timeouts s - 1\<rparr>)
   | DeliverPosted \<Rightarrow>
       (case mbox (stereo_procedures s) of [] \<Rightarrow> Inr s
        | m # ms \<Rightarrow> deliver_post env m (s\<lparr>stereo_procedures := (stereo_procedures s)\<lparr>mbox := ms\<rparr>\<rparr>))
   | DeliverQueued k \<Rightarrow>
       let w = stereo_goals s in
       if deliverable w k then
         let q = queue w ! k in
         StereoTopology_HandleGoalDecision env (queue_task (gset w)) (qd_id q) (qd_data q)
           (s\<lparr>stereo_goals := w\<lparr>queue := remove_at k (queue w)\<rparr>\<rparr>)
       else Inr s)"

fun stereo_run :: "(stereo_env \<times> stereo_event) list \<Rightarrow> stereo_topology \<Rightarrow> stereo_topology res" where
  "stereo_run [] s = Inr s"
| "stereo_run ((env, e) # es) s = res_bind (stereo_step env e s) (stereo_run es)"

text \<open>The topology when its memory is zero, and after initialisation.\<close>

definition goal_set_zero :: goal_set where
  "goal_set_zero = \<lparr>goals = [], goals_count = 0, proc_result_task = 0, proc_start_cfm_fn = 0,
     proc_cancel_cfm_fn = 0, proc_complete_cfm_fn = 0, active_goals_mask = 0, queue_task = 0,
     queue_msg_count = 0, queue_msg_count_max = 0, pending_goals_alloc_count = 0, pending_goals = []\<rparr>"

definition task_list_zero :: task_list where
  "task_list_zero = \<lparr>size_list = 0, size_flexible_tasks = 0, list_type = TASKLIST_TYPE_STANDARD,
     no_destroy = False, u = UTask 0, flexible_tasks = [], tl_data = []\<rparr>"

definition stereo_topology_zero :: stereo_topology where
  "stereo_topology_zero = \<lparr>stereo_topology_state = STEREO_TOPOLOGY_STATE_STOPPED, app_task = 0,
     prohibit_connect_to_handset = False, shutdown_in_progress = False, ota_enable = False,
     message_client_tasks = task_list_zero,
     stereo_rules = \<lparr>events = 0, rules = [], rules_state = [], rule_message_data = None,
       size_rule_message_data = 0, event_task = 0, nop_tasks = task_list_zero, nop_message_id = 0\<rparr>,
     stereo_goals = \<lparr>gset = goal_set_zero, queue = [], engine = script_engine_zero, outs = []\<rparr>,
     stereo_procedures = \<lparr>mbox = [], connectable_enable = False, dh_complete_fn = None, dl_complete_fn = None,
       ch_complete_fn = None, ch_cancel_fn = None, al_complete_fn = None, al_cancel_fn = None,
       le_connectable = False, le_advertising = False\<rparr>,
     stop_timeouts = 0, log = []\<rparr>"

definition stereo_start :: "stereo_env \<Rightarrow> stereo_topology" where
  "stereo_start env = (case StereoTopology_Init env stereo_topology_zero of Inr s \<Rightarrow> s | Inl _ \<Rightarrow> stereo_topology_zero)"

text \<open>A panic resets the device; no event follows it.\<close>

definition stereo_next :: "stereo_topology \<Rightarrow> stereo_env \<times> stereo_event \<Rightarrow> stereo_topology" where
  "stereo_next s = (\<lambda>(env, e). case stereo_step env e s of Inr s' \<Rightarrow> s' | Inl _ \<Rightarrow> s)"

end
