(* ===== verification/Stereo_Control.thy ===== *)
theory Stereo_Control
  imports Stereo_Topology
begin

text \<open>
  Properties of the headset's topology that hold in every state it can reach, whatever the
  application, the other modules and the order of messages do: the handshake that stops it,
  and which of its goals are pursued at the same time; and what it does when it is started
  and stopped.
\<close>

section \<open>What the parts leave as it is\<close>

definition is_stop_cfm :: "stereo_output \<Rightarrow> bool" where
  "is_stop_cfm x = (case x of StopCfm _ _ \<Rightarrow> True | _ \<Rightarrow> False)"

text \<open>The confirmations of a stop sent so far.\<close>

definition stop_cfms :: "stereo_topology \<Rightarrow> stereo_output list" where
  "stop_cfms s = filter is_stop_cfm (log s)"

abbreviation active :: "stereo_topology \<Rightarrow> goal_mask" where
  "active s \<equiv> active_goals_mask (gset (stereo_goals s))"

text \<open>
  The messages that are ever posted: decisions, well-formed delayed confirmations, and the
  end of the stop script.
\<close>

definition mail_ok :: "stereo_procs \<Rightarrow> bool" where
  "mail_ok ps \<longleftrightarrow> list_all (\<lambda>m. delay_ok m \<and>
     (case m of PostTopology mid \<Rightarrow> mid = PROC_SEND_STEREO_TOPOLOGY_MESSAGE_SYSTEM_STOP_FINISHED | _ \<Rightarrow> True)) (mbox ps)"

lemma mail_ok_mbox: "mbox ps' = mbox ps \<Longrightarrow> mail_ok ps \<Longrightarrow> mail_ok ps'"
  by (simp add: mail_ok_def)

lemma mail_ok_fields [simp]:
  "mail_ok (ps\<lparr>connectable_enable := b\<rparr>) = mail_ok ps" "mail_ok (ps\<lparr>dh_complete_fn := f\<rparr>) = mail_ok ps"
  "mail_ok (ps\<lparr>dl_complete_fn := f\<rparr>) = mail_ok ps" "mail_ok (ps\<lparr>ch_complete_fn := f\<rparr>) = mail_ok ps"
  "mail_ok (ps\<lparr>ch_cancel_fn := f\<rparr>) = mail_ok ps" "mail_ok (ps\<lparr>al_complete_fn := f\<rparr>) = mail_ok ps"
  "mail_ok (ps\<lparr>al_cancel_fn := f\<rparr>) = mail_ok ps" "mail_ok (ps\<lparr>le_connectable := b\<rparr>) = mail_ok ps"
  "mail_ok (ps\<lparr>le_advertising := b\<rparr>) = mail_ok ps"
  "mail_ok (ps\<lparr>mbox := mbox ps @ [PostTopology PROC_SEND_STEREO_TOPOLOGY_MESSAGE_SYSTEM_STOP_FINISHED]\<rparr>) = mail_ok ps"
  by (simp_all add: mail_ok_def delay_ok_def)

lemma complete_later_mail: "complete_later ps cb p es = Inr (ps', es') \<Longrightarrow> mail_ok ps \<Longrightarrow> mail_ok ps'"
  by (auto simp: complete_later_def Procedures_DelayedCompleteCfmCallback_def res_bind_Inr_iff panic_unless_def
      mail_ok_def delay_ok_def split: if_splits)

lemma cancel_later_mail: "cancel_later ps cb p es = Inr (ps', es') \<Longrightarrow> mail_ok ps \<Longrightarrow> mail_ok ps'"
  by (auto simp: cancel_later_def Procedures_DelayedCancelCfmCallback_def res_bind_Inr_iff panic_unless_def
      mail_ok_def delay_ok_def cancel_delayed_def list_all_iff split: if_splits)

lemmas start_defs = StereoTopology_ProcedureEnableConnectableHandsetStart_def
  StereoTopology_ProcedureAllowHandsetConnectStart_def StereoTopology_ProcedureConnectHandsetStart_def
  StereoTopology_ProcedureDisconnectHandsetStart_def StereoTopology_ProcAllowLEConnectionStart_def
  StereoTopology_ProcedureStartStopScriptStart_def StereoTopology_ProcedureSendTopologyMessageStart_def
  StereoTopology_ProcedureDisconnectLeStart_def StereoTopology_ProcedureDisconnectLruHandsetStart_def

lemmas cancel_defs = StereoTopology_ProcedureEnableConnectableHandsetCancel_def
  StereoTopology_ProcedureAllowHandsetConnectCancel_def StereoTopology_ProcedureConnectHandsetCancel_def
  StereoTopology_ProcedureDisconnectHandsetCancel_def StereoTopology_ProcAllowLEConnectionCancel_def
  StereoTopology_ProcedureStartStopScriptCancel_def StereoTopology_ProcedureSendTopologyMessageCancel_def
  StereoTopology_ProcedureDisconnectLeCancel_def StereoTopology_ProcedureDisconnectLruHandsetCancel_def

lemmas handler_defs = stereoTopology_ProcDisconnectHandsetHandleMessage_def
  stereoTopology_ProcDisconnectLeHandleMessage_def stereoTopology_ProcConnectHandsetHandleMessage_def
  stereoTopology_ProcAllowLEConnectionHandleMessage_def
  stereoTopology_ProcAllowLEConnectionHandleAllowLEConnectionCfm_def
  stereoTopology_ProcAllowLEConnectionHandleAllowLEAdvertisingCfm_def
  stereoTopology_ProcAllowLEConnectionCompleteCancel_def

lemma proc_start_mail:
  assumes "stereo_proc_start env ps n cb d send = Inr (ps', es)" and "mail_ok ps"
    and "send = None \<or> send = Some PROC_SEND_STEREO_TOPOLOGY_MESSAGE_SYSTEM_STOP_FINISHED"
  shows "mail_ok ps'"
  using assms unfolding stereo_proc_start_def start_defs
  by (auto simp: res_bind_Inr_iff Let_def stereoTopology_ProcConnectHandsetResetTaskData_def
      dest!: complete_later_mail split: if_splits)

lemma proc_cancel_mail:
  "stereo_proc_cancel ps n cb = Inr (ps', es) \<Longrightarrow> mail_ok ps \<Longrightarrow> mail_ok ps'"
  unfolding stereo_proc_cancel_def cancel_defs
  by (auto simp: stereoTopology_ProcDisconnectHandsetResetProc_def stereoTopology_ProcDisconnectLeResetProc_def
      stereoTopology_ProcAllowLEConnectionResetProc_def
      dest!: cancel_later_mail split: if_splits)

text \<open>A start or cancel function calls neither the complete nor the cancel callback itself.\<close>

definition calls_back :: "proc_effect \<Rightarrow> bool" where
  "calls_back e = (case e of CompleteCall _ _ _ \<Rightarrow> True | CancelCall _ _ _ \<Rightarrow> True | _ \<Rightarrow> False)"

lemma start_effects_flat:
  "stereo_proc_start env ps n cb d send = Inr (ps', es) \<Longrightarrow> \<not> list_ex calls_back es"
  "stereo_proc_cancel ps n cb = Inr (ps', es) \<Longrightarrow> \<not> list_ex calls_back es"
  unfolding stereo_proc_start_def stereo_proc_cancel_def start_defs cancel_defs
  by (auto simp: complete_later_def cancel_later_def res_bind_Inr_iff Let_def calls_back_def
      split: if_splits option.splits)

lemma handler_mail: "proc_handler t ps m = Inr (ps', es) \<Longrightarrow> mbox ps' = mbox ps"
  by (cases t) (auto simp: proc_handler_def handler_defs split: option.splits proc_message.splits if_splits)

lemma reset_mail: "mbox (apply_reset r ps) = mbox ps"
  by (cases r) (simp_all add: stereoTopology_ProcDisconnectHandsetResetProc_def
      stereoTopology_ProcDisconnectLeResetProc_def stereoTopology_ProcConnectHandsetResetCompleteFunc_def
      stereoTopology_ProcConnectHandsetResetCancelFunc_def stereoTopology_ProcAllowLEConnectionResetProc_def)

text \<open>The rule set is well formed, with the table of the topology, whose rules keep to the engine's protocol.\<close>

definition rules_good :: "stereo_topology \<Rightarrow> bool" where
  "rules_good s \<longleftrightarrow> rs_ok (stereo_rules s) \<and> rules (stereo_rules s) = stereotop_rules_set"

lemma rules_good_fields [simp]:
  "rules_good (s\<lparr>stereo_goals := w\<rparr>) = rules_good s" "rules_good (s\<lparr>stereo_procedures := ps\<rparr>) = rules_good s"
  "rules_good (s\<lparr>app_task := t\<rparr>) = rules_good s" "rules_good (s\<lparr>stop_timeouts := n\<rparr>) = rules_good s"
  "rules_good (s\<lparr>log := out\<rparr>) = rules_good s" "rules_good (s\<lparr>stereo_topology_state := st\<rparr>) = rules_good s"
  by (simp_all add: rules_good_def)

lemma stereotop_rules_protocol: "table_ok stereotop_rules_set"
  unfolding table_ok_def stereotop_rules_set_def
  by (simp add: rule_protocol_def RULE_def flag_struct_def ruleStereoTopStop_def ruleStereoTopHandsetLinkLossReconnect_def
      ruleStereoTopConnectHandset_def ruleStereoTopAllowLEConnection_def ruleStereoTopEnableConnectableHandset_def
      ruleStereoTopAllowHandsetConnect_def ruleStereoTopAutoConnectHandset_def ruleStereoTopDisconnectHandset_def
      ruleStereoTopUserRequestConnectHandset_def ruleStereoTopDisconnectLruHandset_def)

lemma rules_good_table: "rules_good s \<Longrightarrow> table_ok (rules (stereo_rules s))"
  by (simp add: rules_good_def stereotop_rules_protocol)

lemma SetEvent_good:
  assumes "rules_good s" and "RulesEngine_SetEvent (stereo_rules s) w ev = Inr (rs, x, out)"
  shows "rules_good (s\<lparr>stereo_rules := rs\<rparr>)"
  using SetEvent_ok [OF _ rules_good_table [OF assms(1)], of w ev] assms by (auto simp: rules_good_def same_table_def)

lemma SetRuleComplete_good:
  assumes "rules_good s" and "RulesEngine_SetRuleComplete (stereo_rules s) w mid = Inr (rs, x, out)"
  shows "rules_good (s\<lparr>stereo_rules := rs\<rparr>)"
  using SetRuleWithEventComplete_ok [OF _ rules_good_table [OF assms(1)], of w mid RULE_EVENT_ALL_EVENTS_MASK] assms
  by (auto simp: rules_good_def same_table_def RulesEngine_SetRuleComplete_def)

lemma ResetEvent_good:
  assumes "rules_good s" and "RulesEngine_ResetEvent (stereo_rules s) ev = Inr rs"
  shows "rules_good (s\<lparr>stereo_rules := rs\<rparr>)"
  using ResetEvent_ok [of "stereo_rules s" ev] assms by (auto simp: rules_good_def same_table_def)

text \<open>
  Two relations between the topology before and after: \<open>calm\<close> when the stop handshake is
  untouched, the table of goals is the same, no goal has become active, and the state is
  the same except that starting may have ended; \<open>steady\<close> when the state is the same too.
\<close>

definition calm :: "stereo_topology \<Rightarrow> stereo_topology \<Rightarrow> bool" where
  "calm s s' \<longleftrightarrow> stop_timeouts s' = stop_timeouts s \<and> app_task s' = app_task s \<and> stop_cfms s' = stop_cfms s
     \<and> goals (gset (stereo_goals s')) = goals (gset (stereo_goals s))
     \<and> queue_task (gset (stereo_goals s')) = queue_task (gset (stereo_goals s))
     \<and> (\<forall>k. bit (active s') k \<longrightarrow> bit (active s) k)
     \<and> (mail_ok (stereo_procedures s) \<longrightarrow> mail_ok (stereo_procedures s')) \<and> (rules_good s \<longrightarrow> rules_good s')
     \<and> (stereo_topology_state s' = stereo_topology_state s
        \<or> stereo_topology_state s = STEREO_TOPOLOGY_STATE_STARTING \<and> stereo_topology_state s' = STEREO_TOPOLOGY_STATE_STARTED)"

definition steady :: "stereo_topology \<Rightarrow> stereo_topology \<Rightarrow> bool" where
  "steady s s' \<longleftrightarrow> calm s s' \<and> stereo_topology_state s' = stereo_topology_state s"

lemma calm_refl [simp]: "calm s s" and steady_refl [simp]: "steady s s"
  by (simp_all add: calm_def steady_def)

lemma calm_trans: "calm a b \<Longrightarrow> calm b c \<Longrightarrow> calm a c"
  by (auto simp: calm_def)

lemma steady_trans: "steady a b \<Longrightarrow> steady b c \<Longrightarrow> steady a c"
  by (auto simp: calm_def steady_def)

lemma steady_calm: "steady s s' \<Longrightarrow> calm s s'"
  by (simp add: steady_def)

lemma for_res_calm: "for_res f xs s = Inr t \<Longrightarrow> (\<And>x s t. f x s = Inr t \<Longrightarrow> calm s t) \<Longrightarrow> calm s t"
  by (rule for_res_invariant [where P = "calm s"]) (auto intro: calm_trans)

lemma for_res_steady: "for_res f xs s = Inr t \<Longrightarrow> (\<And>x s t. f x s = Inr t \<Longrightarrow> steady s t) \<Longrightarrow> steady s t"
  by (rule for_res_invariant [where P = "steady s"]) (auto intro: steady_trans)

text \<open>Fields that do not matter to either relation.\<close>

lemma steady_fields [simp]:
  "steady s (s\<lparr>stereo_goals := (stereo_goals s)\<lparr>engine := td\<rparr>\<rparr>)" "steady s (s\<lparr>message_client_tasks := l\<rparr>)"
  "steady s (s\<lparr>stereo_goals := (stereo_goals s)\<lparr>queue := q\<rparr>\<rparr>)"
  "steady s (s\<lparr>prohibit_connect_to_handset := b\<rparr>)" "steady s (s\<lparr>shutdown_in_progress := b\<rparr>)" "steady s (s\<lparr>ota_enable := b\<rparr>)"
  by (simp_all add: steady_def calm_def stop_cfms_def rules_good_def)

lemma steady_rules: "(rules_good s \<Longrightarrow> rules_good (s\<lparr>stereo_rules := rs\<rparr>)) \<Longrightarrow> steady s (s\<lparr>stereo_rules := rs\<rparr>)"
  by (simp add: steady_def calm_def stop_cfms_def)

lemma steady_procs:
  "(mail_ok (stereo_procedures s) \<Longrightarrow> mail_ok ps) \<Longrightarrow> steady s (s\<lparr>stereo_procedures := ps\<rparr>)"
  by (simp add: steady_def calm_def stop_cfms_def rules_good_def)

lemma steady_decisions [simp]: "steady s (post_messages (decisions_of out) s)"
  unfolding post_messages_def
  by (rule steady_procs) (auto simp: mail_ok_def decisions_of_def delay_ok_def list_all_iff split: rule_output.splits)

lemma steady_emit [simp]: "list_all (\<lambda>x. \<not> is_stop_cfm x) out \<Longrightarrow> steady s (emit out s)"
  by (simp add: steady_def calm_def emit_def stop_cfms_def filter_empty_conv list_all_iff rules_good_def)

lemma SetEvent_steady: "StereoTopologyRules_SetEvent env ev s = Inr s' \<Longrightarrow> steady s s'"
  by (auto simp: StereoTopologyRules_SetEvent_def res_bind_Inr_iff
      intro: steady_trans [OF steady_rules steady_decisions] SetEvent_good)

lemma ResetEvent_steady: "StereoTopologyRules_ResetEvent ev s = Inr s' \<Longrightarrow> steady s s'"
  by (auto simp: StereoTopologyRules_ResetEvent_def res_bind_Inr_iff intro: steady_rules ResetEvent_good)

lemma SetRuleComplete_steady: "StereoTopologyRules_SetRuleComplete env mid s = Inr s' \<Longrightarrow> steady s s'"
  by (auto simp: StereoTopologyRules_SetRuleComplete_def res_bind_Inr_iff
      intro: steady_trans [OF steady_rules steady_decisions] SetRuleComplete_good)

lemma indication_steady: "StereoTopology_SendHandsetDisconnectedIndication env st s = Inr s' \<Longrightarrow> steady s s'"
  by (auto simp: StereoTopology_SendHandsetDisconnectedIndication_def res_bind_Inr_iff list_all_iff is_stop_cfm_def)

lemma clear_goal_active:
  assumes "GoalsEngine_ClearGoal gs g = Inr gs'"
  shows "goals gs' = goals gs \<and> queue_task gs' = queue_task gs
    \<and> active_goals_mask gs' = REMOVE_GOAL_FROM_MASK (active_goals_mask gs) g"
  using assms unfolding GoalsEngine_ClearGoal_def
  by (rule for_res_invariant) (auto simp: clear_goal_slot_def res_bind_Inr_iff)

lemma clear_goal_steady: "clear_stereo_goal g s = Inr s' \<Longrightarrow> steady s s'"
  by (auto simp: clear_stereo_goal_def res_bind_Inr_iff steady_def calm_def stop_cfms_def rules_good_def dest!: clear_goal_active)

lemma cancel_cfm_steady: "stereoTopology_GoalProcCancelCfm p r s = Inr s' \<Longrightarrow> steady s s'"
  by (auto simp: stereoTopology_GoalProcCancelCfm_def res_bind_Inr_iff intro: clear_goal_steady)

lemma started_calm:
  "stereo_topology_state s = STEREO_TOPOLOGY_STATE_STARTING \<Longrightarrow>
   StereoTopology_SetState env STEREO_TOPOLOGY_STATE_STARTED s = Inr s' \<Longrightarrow> calm s s'"
  by (auto simp: StereoTopology_SetState_def calm_def stop_cfms_def rules_good_def)

lemma complete_calm:
  assumes "stereoTopology_GoalProcComplete env p r s = Inr s'"
  shows "calm s s'"
proof -
  obtain g ev a b where 
      1: "(if stereo_topology_state s = STEREO_TOPOLOGY_STATE_STARTING \<and> g = stereo_topology_goal_allow_handset_connect
       then StereoTopology_SetState env STEREO_TOPOLOGY_STATE_STARTED s else Inr s) = Inr a"
    and 2: "(if ev \<noteq> 0 then StereoTopologyRules_SetEvent env ev a else Inr a) = Inr b"
    and 3: "clear_stereo_goal g b = Inr s'"
    using assms by (auto simp: stereoTopology_GoalProcComplete_def res_bind_Inr_iff)
  have "calm s a" using 1 by (auto dest: started_calm split: if_splits)
  moreover have "steady a b" using 2 by (auto dest: SetEvent_steady split: if_splits)
  ultimately show ?thesis using clear_goal_steady [OF 3] by (blast intro: calm_trans steady_calm)
qed

lemma start_effect_steady: "start_effect env e s = Inr s' \<Longrightarrow> steady s s'"
  by (auto simp: start_effect_def stereoTopology_GoalProcStartCfm_def res_bind_Inr_iff is_stop_cfm_def
      dest: indication_steady intro!: steady_procs elim: mail_ok_mbox [OF reset_mail]
      split: proc_effect.splits service_call.splits callback.splits)

lemma run_proc_steady:
  assumes "run_proc env r s = Inr s'"
    and "\<And>ps es. r = Inr (ps, es) \<Longrightarrow> mail_ok (stereo_procedures s) \<Longrightarrow> mail_ok ps"
  shows "steady s s'"
proof -
  obtain ps es where r: "r = Inr (ps, es)"
    and f: "for_res (start_effect env) es (s\<lparr>stereo_procedures := ps\<rparr>) = Inr s'"
    using assms(1) by (auto simp: run_proc_def res_bind_Inr_iff)
  have "steady s (s\<lparr>stereo_procedures := ps\<rparr>)" by (rule steady_procs) (rule assms(2) [OF r])
  then show ?thesis by (rule steady_trans [OF _ for_res_steady [OF f start_effect_steady]])
qed

lemma script_output_calm: "script_output_step env x s = Inr s' \<Longrightarrow> calm s s'"
  by (auto simp: script_output_step_def step_send_def
      dest!: run_proc_steady complete_calm cancel_cfm_steady
      intro: steady_calm proc_start_mail proc_cancel_mail split: script_output.splits if_splits)

lemma goals_output_calm: "goals_output_step env x s = Inr s' \<Longrightarrow> calm s s'"
  by (auto simp: goals_output_step_def res_bind_Inr_iff
      dest!: run_proc_steady script_output_calm
      intro: steady_calm proc_start_mail proc_cancel_mail split: goals_output.splits option.splits)

lemma script_callback_calm: "script_callback env r s = Inr s' \<Longrightarrow> calm s s'"
  by (auto simp: script_callback_def res_bind_Inr_iff
      dest!: for_res_calm [OF _ script_output_calm] intro: calm_trans [OF steady_calm [OF steady_fields(1)]])

lemma proc_effect_calm: "proc_effect_step env e s = Inr s' \<Longrightarrow> calm s s'"
  by (auto simp: proc_effect_step_def dest: complete_calm cancel_cfm_steady script_callback_calm start_effect_steady
      intro: steady_calm split: proc_effect.splits callback.splits)

text \<open>
  A step of the goals: at most one goal of the table becomes active, and when it does it
  was allowed to; the stop handshake is untouched.
\<close>

definition goal_step :: "stereo_topology \<Rightarrow> stereo_topology \<Rightarrow> bool" where
  "goal_step s s' \<longleftrightarrow> (\<exists>g w. g < 8 \<and> may_add (stereo_goals s) g w \<and> calm (s\<lparr>stereo_goals := w\<rparr>) s')"

lemma goal_step_calm:
  assumes "calm s s'"
  shows "goal_step s s'"
proof -
  have "calm (s\<lparr>stereo_goals := stereo_goals s\<rparr>) s'" using assms by simp
  then show ?thesis unfolding goal_step_def using may_add_same [OF same_active_refl] by (blast intro: zero_less_numeral)
qed

lemma goal_step_right: "goal_step a b \<Longrightarrow> calm b c \<Longrightarrow> goal_step a c"
  unfolding goal_step_def by (blast intro: calm_trans)

lemma goal_step_procs:
  "goal_step (s\<lparr>stereo_procedures := ps\<rparr>) s' \<Longrightarrow> (mail_ok (stereo_procedures s) \<Longrightarrow> mail_ok ps) \<Longrightarrow> goal_step s s'"
  unfolding goal_step_def by (elim exE, intro exI) (auto simp: calm_def stop_cfms_def rules_good_def)

lemma goal_step_queue: "goal_step (s\<lparr>stereo_goals := (stereo_goals s)\<lparr>queue := q\<rparr>\<rparr>) s' \<Longrightarrow> goal_step s s'"
  unfolding goal_step_def
  by (elim exE, intro exI) (auto simp: calm_def stop_cfms_def may_add_def may_start_def rules_good_def)

lemma activate_goal_step:
  assumes "activate_stereo_goal env g t mid d n s = Inr s'" and "g < 8"
  shows "goal_step s s'"
proof -
  obtain w where w: "GoalsEngine_ActivateGoal (stereo_goals s) g t mid d n = Inr w"
    and f: "for_res (goals_output_step env) (outs w) (s\<lparr>stereo_goals := w\<lparr>outs := []\<rparr>\<rparr>) = Inr s'"
    using assms(1) by (auto simp: activate_stereo_goal_def res_bind_Inr_iff)
  have "calm (s\<lparr>stereo_goals := w\<lparr>outs := []\<rparr>\<rparr>) s'" by (rule for_res_calm [OF f goals_output_calm])
  then have "calm (s\<lparr>stereo_goals := w\<rparr>) s'" by (simp add: calm_def stop_cfms_def rules_good_def)
  then show ?thesis unfolding goal_step_def using activate_active [OF w] assms(2) by blast
qed

lemma decision_goal_step:
  assumes "StereoTopology_HandleGoalDecision env t mid d s = Inr s'"
  shows "goal_step s s'"
proof -
  have "\<exists>a. goal_step s a \<and> StereoTopologyRules_SetRuleComplete env mid a = Inr s'"
    using assms unfolding StereoTopology_HandleGoalDecision_def Let_def res_bind_Inr_iff
    by (elim exE conjE, intro exI conjI)
      (auto intro: goal_step_calm elim!: activate_goal_step simp: stereo_goal_ids split: if_splits)
  then show ?thesis using goal_step_right [OF _ steady_calm [OF SetRuleComplete_steady]] by blast
qed

section \<open>The steps of the state machine\<close>

text \<open>The fields that entering a state changes.\<close>

definition entered :: "stereo_topology_sm \<Rightarrow> stereo_topology \<Rightarrow> stereo_topology" where
  "entered st s = s\<lparr>stereo_topology_state := st,
     app_task := (if st = STEREO_TOPOLOGY_STATE_STOPPED then 0 else app_task s),
     stop_timeouts := (if st = STEREO_TOPOLOGY_STATE_STOPPING then stop_timeouts s + 1 else stop_timeouts s)\<rparr>"

lemma SetState_entered:
  assumes "StereoTopology_SetState env st s = Inr s'"
  shows "steady (entered st s) s'"
proof (cases st)
  case STEREO_TOPOLOGY_STATE_STARTING
  let ?e = "entered st s"
  let ?a = "?e\<lparr>prohibit_connect_to_handset := False, shutdown_in_progress := False\<rparr>"
  have "s\<lparr>stereo_topology_state := st, prohibit_connect_to_handset := False, shutdown_in_progress := False\<rparr> = ?a"
    using STEREO_TOPOLOGY_STATE_STARTING by (simp add: entered_def)
  then obtain b where b: "StereoTopologyRules_ResetEvent RULE_EVENT_ALL_EVENTS_MASK ?a = Inr b"
      "StereoTopologyRules_SetEvent env STEREOTOP_RULE_EVENT_START b = Inr s'"
    using assms STEREO_TOPOLOGY_STATE_STARTING
    by (auto simp: StereoTopology_SetState_def stereoTopologyEnterStartingState_def res_bind_Inr_iff)
  have "steady ?e ?a" by (simp add: steady_def calm_def stop_cfms_def rules_good_def)
  then show ?thesis using steady_trans ResetEvent_steady [OF b(1)] SetEvent_steady [OF b(2)] by blast
next
  case STEREO_TOPOLOGY_STATE_STOPPING
  then have "StereoTopologyRules_SetEvent env STEREOTOP_RULE_EVENT_STOP (entered st s) = Inr s'"
    using assms by (simp add: StereoTopology_SetState_def stereoTopologyEnterStoppingState_def entered_def
        StereoTopologyConfig_StereoTopologyStopTimeoutS_def)
  then show ?thesis by (rule SetEvent_steady)
qed (use assms in \<open>auto simp: StereoTopology_SetState_def entered_def stereoTopologyEnterStoppedState_def\<close>)

text \<open>
  What an event does to the state, to the time-out and to the confirmations of a stop, for a
  topology whose time-out runs exactly while it is stopping.
\<close>

definition handshake :: "stereo_topology \<Rightarrow> bool" where
  "handshake s \<longleftrightarrow> stop_timeouts s = (if stereo_topology_state s = STEREO_TOPOLOGY_STATE_STOPPING then 1 else 0)"

definition transition :: "stereo_event \<Rightarrow> stereo_topology \<Rightarrow> stereo_topology \<Rightarrow> bool" where
  "transition e s s' \<longleftrightarrow>
     stereo_topology_state s' = stereo_topology_state s
   \<or> stereo_topology_state s = STEREO_TOPOLOGY_STATE_STOPPED \<and> stereo_topology_state s' = STEREO_TOPOLOGY_STATE_STARTING \<and> e = CallStart
   \<or> stereo_topology_state s = STEREO_TOPOLOGY_STATE_STARTING \<and> stereo_topology_state s' = STEREO_TOPOLOGY_STATE_STARTED
   \<or> stereo_topology_state s = STEREO_TOPOLOGY_STATE_STARTED \<and> stereo_topology_state s' = STEREO_TOPOLOGY_STATE_STOPPING \<and> (\<exists>t. e = CallStop t)
   \<or> stereo_topology_state s = STEREO_TOPOLOGY_STATE_STOPPING \<and> stereo_topology_state s' = STEREO_TOPOLOGY_STATE_STOPPED"

definition stop_answer :: "stereo_event \<Rightarrow> stereo_topology \<Rightarrow> stereo_topology \<Rightarrow> stereo_output list" where
  "stop_answer e s s' =
     (if stereo_topology_state s = STEREO_TOPOLOGY_STATE_STOPPING \<and> stereo_topology_state s' = STEREO_TOPOLOGY_STATE_STOPPED
      then [StopCfm (app_task s) (if e = StopTimeout then stereo_topology_status_fail else stereo_topology_status_success)]
      else case e of CallStop t \<Rightarrow>
             if stereo_topology_state s = STEREO_TOPOLOGY_STATE_STOPPED then [StopCfm t stereo_topology_status_success] else []
           | _ \<Rightarrow> [])"

definition control :: "stereo_event \<Rightarrow> stereo_topology \<Rightarrow> stereo_topology \<Rightarrow> bool" where
  "control e s s' \<longleftrightarrow> handshake s' \<and> transition e s s' \<and> stop_cfms s' = stop_cfms s @ stop_answer e s s'"

lemmas control_defs = control_def handshake_def transition_def stop_answer_def

lemma control_calm:
  "calm s s' \<Longrightarrow> handshake s \<Longrightarrow> (\<And>t. e = CallStop t \<Longrightarrow> False) \<Longrightarrow> control e s s'"
  by (cases e) (auto simp: control_defs calm_def)

lemma goal_step_control_calm: "goal_step s s' \<Longrightarrow> calm s s' \<or> (\<exists>w. calm (s\<lparr>stereo_goals := w\<rparr>) s')"
  unfolding goal_step_def by blast

lemma control_goal_step:
  assumes "goal_step s s'" and "handshake s" and "\<And>t. e = CallStop t \<Longrightarrow> False"
  shows "control e s s'"
proof -
  obtain w where w: "calm (s\<lparr>stereo_goals := w\<rparr>) s'" using assms(1) unfolding goal_step_def by blast
  have "control e (s\<lparr>stereo_goals := w\<rparr>) s'"
    using control_calm [OF w _ assms(3)] assms(2) by (simp add: handshake_def)
  then show ?thesis by (simp add: control_defs stop_cfms_def cong: stereo_event.case_cong)
qed

lemma steady_entered_control:
  assumes "steady (entered st s) s'"
  shows "stereo_topology_state s' = st \<and> stop_cfms s' = stop_cfms s
    \<and> stop_timeouts s' = (if st = STEREO_TOPOLOGY_STATE_STOPPING then stop_timeouts s + 1 else stop_timeouts s)"
  using assms by (simp add: steady_def calm_def entered_def stop_cfms_def)

lemma for_effects_calm: "for_res (proc_effect_step env) es s = Inr s' \<Longrightarrow> calm s s'"
  by (erule for_res_calm) (rule proc_effect_calm)

lemma pop_mail: "mbox (stereo_procedures s) = m # ms \<Longrightarrow> mail_ok (stereo_procedures s) \<Longrightarrow>
   mail_ok ((stereo_procedures s)\<lparr>mbox := ms\<rparr>)"
  by (simp add: mail_ok_def)

text \<open>Events other than those that stop or start the topology are steps of the goals.\<close>

definition own_transition :: "stereo_event \<Rightarrow> stereo_topology \<Rightarrow> bool" where
  "own_transition e s = (case e of CallStart \<Rightarrow> True | CallStop _ \<Rightarrow> True | StopTimeout \<Rightarrow> True
     | DeliverPosted \<Rightarrow> (case mbox (stereo_procedures s) of PostTopology _ # _ \<Rightarrow> True | _ \<Rightarrow> False) | _ \<Rightarrow> False)"

lemma other_messages_steady:
  "stereoTopology_HandleMessage env m s = Inr s' \<Longrightarrow> (\<And>mid. m \<noteq> InternalMessage mid) \<Longrightarrow> steady s s'"
  by (auto simp: stereoTopology_HandleMessage_def stereoTopology_HandleHandsetServiceDisconnectedInd_def
      stereoTopology_HandlePowerShutdownPrepareInd_def is_stop_cfm_def
      intro: steady_trans [OF steady_fields(5) steady_emit] dest: SetEvent_steady
      split: stereo_message.splits if_splits)

lemma posted_goal_step:
  assumes "deliver_post env m s = Inr s'" and "\<And>mid. m \<noteq> PostTopology mid"
  shows "goal_step s s'"
  using assms by (cases m) (auto simp: deliver_post_def intro: goal_step_calm for_effects_calm decision_goal_step)

lemma stereo_step_goals:
  assumes "stereo_step env e s = Inr s'" and "\<not> own_transition e s"
  shows "goal_step s s'"
proof (cases e)
  case (ProcMessage t m)
  then obtain ps es where h: "proc_handler t (stereo_procedures s) m = Inr (ps, es)"
    and f: "for_res (proc_effect_step env) es (s\<lparr>stereo_procedures := ps\<rparr>) = Inr s'"
    using assms(1) by (auto simp: stereo_step_def res_bind_Inr_iff)
  have "steady s (s\<lparr>stereo_procedures := ps\<rparr>)"
    by (rule steady_procs) (rule mail_ok_mbox [OF handler_mail [OF h]])
  then show ?thesis using for_effects_calm [OF f] by (blast intro: goal_step_calm calm_trans steady_calm)
next
  case DeliverPosted
  show ?thesis
  proof (cases "mbox (stereo_procedures s)")
    case (Cons m ms)
    have "deliver_post env m (s\<lparr>stereo_procedures := (stereo_procedures s)\<lparr>mbox := ms\<rparr>\<rparr>) = Inr s'"
      using assms(1) DeliverPosted Cons by (simp add: stereo_step_def)
    moreover have "m \<noteq> PostTopology mid" for mid using assms(2) DeliverPosted Cons by (auto simp: own_transition_def)
    ultimately show ?thesis by (blast intro: goal_step_procs posted_goal_step pop_mail [OF Cons])
  qed (use assms(1) DeliverPosted in \<open>simp add: stereo_step_def goal_step_calm\<close>)
next
  case (DeliverQueued k)
  then show ?thesis using assms(1)
    by (auto simp: stereo_step_def Let_def intro: goal_step_calm goal_step_queue decision_goal_step split: if_splits)
next
  case (TopologyMessage m)
  then show ?thesis using assms(1) other_messages_steady [of env m s s']
    by (auto simp: stereo_step_def intro: goal_step_calm steady_calm split: stereo_message.splits)
qed (use assms in \<open>auto simp: stereo_step_def own_transition_def StereoTopology_ProhibitHandsetConnection_def Let_def
       StereoTopology_ConnectMruHandset_def StereoTopology_DisconnectLruHandset_def StereoTopology_DisconnectAllHandsets_def
       StereoTopology_RegisterMessageClient_def StereoTopology_UnRegisterMessageClient_def TwsTopology_SetOtaEnable_def
       res_bind_Inr_iff is_stop_cfm_def split: if_splits
       intro!: goal_step_calm steady_calm dest: SetEvent_steady
       intro: steady_trans [OF steady_fields(4) SetEvent_steady] steady_trans [OF steady_fields(6) steady_emit]\<close>)

lemma stop_confirmed:
  assumes "StereoTopology_SetState env STEREO_TOPOLOGY_STATE_STOPPED (StereoTopology_SendStopCfm st s) = Inr s'"
  shows "stereo_topology_state s' = STEREO_TOPOLOGY_STATE_STOPPED \<and> stop_timeouts s' = 0
    \<and> stop_cfms s' = stop_cfms s @ [StopCfm (app_task s) st]
    \<and> stereo_goals s' = stereo_goals s \<and> stereo_procedures s' = stereo_procedures s
    \<and> (rules_good s \<longrightarrow> rules_good s')"
  using assms by (auto simp: StereoTopology_SetState_def StereoTopology_SendStopCfm_def stereoTopologyEnterStoppedState_def
      emit_def stop_cfms_def is_stop_cfm_def)

lemmas message_defs = stereoTopology_HandleMessage_def stereoTopology_HandleStopTimeout_def
  stereoTopology_HandleStopCompletion_def STEREOTOP_INTERNAL_TIMEOUT_TOPOLOGY_STOP_def
  PROC_SEND_STEREO_TOPOLOGY_MESSAGE_SYSTEM_STOP_FINISHED_def

text \<open>The posted message that ends the stop script, and the time-out.\<close>

lemma finished_step:
  assumes "stereo_step env DeliverPosted s = Inr s'" and "mail_ok (stereo_procedures s)"
    and "mbox (stereo_procedures s) = PostTopology mid # ms"
  shows "s' = s\<lparr>stereo_procedures := (stereo_procedures s)\<lparr>mbox := ms\<rparr>\<rparr>
      \<and> stereo_topology_state s \<noteq> STEREO_TOPOLOGY_STATE_STOPPING
    \<or> stereo_topology_state s = STEREO_TOPOLOGY_STATE_STOPPING
      \<and> StereoTopology_SetState env STEREO_TOPOLOGY_STATE_STOPPED (StereoTopology_SendStopCfm stereo_topology_status_success
          (s\<lparr>stereo_procedures := (stereo_procedures s)\<lparr>mbox := ms\<rparr>\<rparr>)) = Inr s'"
  using assms by (auto simp: stereo_step_def deliver_post_def message_defs mail_ok_def split: if_splits)

lemma timeout_step:
  assumes "stereo_step env StopTimeout s = Inr s'"
  shows "s' = s \<and> stop_timeouts s = 0
    \<or> 0 < stop_timeouts s \<and> StereoTopology_SetState env STEREO_TOPOLOGY_STATE_STOPPED
        (StereoTopology_SendStopCfm stereo_topology_status_fail (s\<lparr>stop_timeouts := stop_timeouts s - 1\<rparr>)) = Inr s'"
  using assms by (auto simp: stereo_step_def message_defs split: if_splits)

lemma start_step_cases:
  assumes "stereo_step env CallStart s = Inr s'"
  shows "s' = s \<or> stereo_topology_state s = STEREO_TOPOLOGY_STATE_STOPPED
    \<and> steady (entered STEREO_TOPOLOGY_STATE_STARTING s) s'"
  using assms by (auto simp: stereo_step_def StereoTopology_Start_def split: if_splits dest: SetState_entered)

lemma stop_step_cases:
  assumes "stereo_step env (CallStop t) s = Inr s'"
  shows "stereo_topology_state s = STEREO_TOPOLOGY_STATE_STARTED
      \<and> steady (entered STEREO_TOPOLOGY_STATE_STOPPING (s\<lparr>app_task := t\<rparr>)) s'
    \<or> stereo_topology_state s = STEREO_TOPOLOGY_STATE_STOPPED
      \<and> s' = StereoTopology_SendStopCfm stereo_topology_status_success (s\<lparr>app_task := t\<rparr>)
    \<or> stereo_topology_state s \<in> {STEREO_TOPOLOGY_STATE_STARTING, STEREO_TOPOLOGY_STATE_STOPPING}
      \<and> s' = s\<lparr>app_task := t\<rparr>"
  using assms by (cases "stereo_topology_state s")
    (auto simp: stereo_step_def StereoTopology_Stop_def split: if_splits dest: SetState_entered)

lemma own_transition_cases:
  assumes "own_transition e s"
  obtains "e = CallStart" | t where "e = CallStop t" | "e = StopTimeout"
  | mid ms where "e = DeliverPosted" "mbox (stereo_procedures s) = PostTopology mid # ms"
  using assms by (auto simp: own_transition_def split: stereo_event.splits list.splits post.splits)

lemma stereo_step_control:
  assumes "handshake s" and "mail_ok (stereo_procedures s)" and "stereo_step env e s = Inr s'"
  shows "control e s s'"
proof (cases "own_transition e s")
  case False
  then have "e \<noteq> CallStop t" for t by (auto simp: own_transition_def)
  with stereo_step_goals [OF assms(3) False] assms(1) show ?thesis by (blast intro: control_goal_step)
next
  case True
  then show ?thesis
  proof (cases rule: own_transition_cases)
    case 1
    with start_step_cases [of env s s'] assms(1,3) show ?thesis
      by (auto simp: control_defs dest!: steady_entered_control)
  next
    case (2 t)
    with stop_step_cases [of env t s s'] assms(1,3) show ?thesis
      by (auto simp: control_defs StereoTopology_SendStopCfm_def emit_def stop_cfms_def is_stop_cfm_def
          dest!: steady_entered_control)
  next
    case 3
    with timeout_step [of env s s'] assms(1,3) show ?thesis
      by (auto simp: control_defs stop_cfms_def dest!: stop_confirmed split: if_splits)
  next
    case (4 mid ms)
    then have "stereo_step env DeliverPosted s = Inr s'" using assms(3) by simp
    with finished_step [OF this assms(2) 4(2)] assms(1) 4(1) show ?thesis
      by (auto simp: control_defs stop_cfms_def dest!: stop_confirmed)
  qed
qed

section \<open>The invariant of the topology\<close>

text \<open>
  Goals that are active together are among the three that enable connections; a goal that
  may start keeps it so.
\<close>

definition compatible :: "goal_mask \<Rightarrow> bool" where
  "compatible m \<longleftrightarrow> (\<forall>g h. bit m g \<longrightarrow> bit m h \<longrightarrow> g \<noteq> h \<longrightarrow> {g, h} \<subseteq> {1, 2, 5})"

lemma compatible_shrink: "compatible m \<Longrightarrow> (\<And>k. bit n k \<Longrightarrow> bit m k) \<Longrightarrow> compatible n"
  unfolding compatible_def by blast

lemma stereogoals_concurrent:
  assumes "g < 8" and "contention (stereogoals ! g) = goal_contention_concurrent"
    and "goalsEngine_GetConcurrentGoalsMask (stereogoals ! g) = Inr cm" and "bit cm k"
  shows "g \<in> {1, 2, 5} \<and> k \<in> {1, 2, 5}"
  using assms
  by (auto simp: stereogoals_def less_Suc_eq numeral_eq_Suc GOAL_def GOAL_WITH_CONCURRENCY_def SCRIPT_GOAL_CANCEL_def
      no_goal_def goalsEngine_GetConcurrentGoalsMask_def stereo_goal_ids GOAL_ID_NONE_def bit_simps)

lemma may_add_compatible:
  assumes "goals (gset w) = stereogoals" and "compatible (active_goals_mask (gset w))" and "may_add w g w'" and "g < 8"
  shows "compatible (active_goals_mask (gset w'))"
proof (cases "active_goals_mask (gset w') = active_goals_mask (gset w)")
  case False
  then have act: "active_goals_mask (gset w') = active_goals_mask (gset w) OR GOAL_MASK g" and may: "may_start (gset w) g"
    using assms(3) by (auto simp: may_add_def)
  have "g' \<in> {1, 2, 5} \<and> g \<in> {1, 2, 5}" if "bit (active_goals_mask (gset w)) g'" for g'
  proof -
    have "active_goals_mask (gset w) \<noteq> 0" using that by auto
    then obtain cm where "contention (stereogoals ! g) = goal_contention_concurrent"
        "goalsEngine_GetConcurrentGoalsMask (stereogoals ! g) = Inr cm" "active_goals_mask (gset w) AND NOT cm = 0"
      using may assms(1) by (auto simp: may_start_def)
    moreover from this(3) that have "bit cm g'" using bit_imp_le_length [OF that] by (auto simp: bit_eq_iff bit_simps)
    ultimately show ?thesis using stereogoals_concurrent [OF assms(4)] by blast
  qed
  then show ?thesis unfolding act compatible_def by (auto simp: bit_simps)
qed (use assms(2) in simp)

definition stereo_ok :: "stereo_topology \<Rightarrow> bool" where
  "stereo_ok s \<longleftrightarrow> handshake s \<and> mail_ok (stereo_procedures s) \<and> rules_good s
     \<and> goals (gset (stereo_goals s)) = stereogoals \<and> compatible (active s)"

lemma goal_step_ok:
  assumes "goal_step s s'" and "stereo_ok s"
  shows "mail_ok (stereo_procedures s') \<and> rules_good s' \<and> goals (gset (stereo_goals s')) = stereogoals \<and> compatible (active s')"
proof -
  obtain g w where gw: "g < 8" "may_add (stereo_goals s) g w" "calm (s\<lparr>stereo_goals := w\<rparr>) s'"
    using assms(1) unfolding goal_step_def by blast
  have "compatible (active_goals_mask (gset w))"
    using may_add_compatible [OF _ _ gw(2,1)] assms(2) by (simp add: stereo_ok_def)
  then show ?thesis using gw(2,3) assms(2) by (auto simp: calm_def stereo_ok_def may_add_def intro: compatible_shrink)
qed

lemma own_transition_ok:
  assumes "own_transition e s" and "stereo_ok s" and "stereo_step env e s = Inr s'"
  shows "mail_ok (stereo_procedures s') \<and> rules_good s' \<and> goals (gset (stereo_goals s')) = stereogoals \<and> compatible (active s')"
  using assms(1)
proof (cases rule: own_transition_cases)
  case 1
  with start_step_cases [of env s s'] assms(2,3) show ?thesis
    by (auto simp: stereo_ok_def steady_def calm_def entered_def intro: compatible_shrink)
next
  case (2 t)
  with stop_step_cases [of env t s s'] assms(2,3) show ?thesis
    by (auto simp: stereo_ok_def steady_def calm_def entered_def StereoTopology_SendStopCfm_def emit_def
        intro: compatible_shrink)
next
  case 3
  with timeout_step [of env s s'] assms(2,3) show ?thesis
    by (auto simp: stereo_ok_def dest!: stop_confirmed)
next
  case (4 mid ms)
  have m: "mail_ok ((stereo_procedures s)\<lparr>mbox := ms\<rparr>)" using pop_mail [OF 4(2)] assms(2) by (simp add: stereo_ok_def)
  have "stereo_step env DeliverPosted s = Inr s'" "mail_ok (stereo_procedures s)"
    using assms(2,3) 4 by (simp_all add: stereo_ok_def)
  from finished_step [OF this 4(2)] assms(2) m show ?thesis
    by (auto simp: stereo_ok_def dest!: stop_confirmed)
qed

lemma stereo_step_ok:
  assumes "stereo_ok s" and "stereo_step env e s = Inr s'"
  shows "stereo_ok s'"
proof -
  have "handshake s'" using stereo_step_control [OF _ _ assms(2)] assms(1) by (simp add: stereo_ok_def control_def)
  then show ?thesis
    using own_transition_ok [OF _ assms] goal_step_ok [OF stereo_step_goals [OF assms(2)] assms(1)]
    by (cases "own_transition e s") (simp_all add: stereo_ok_def)
qed

lemma stereo_start_ok: "stereo_ok (stereo_start env)"
  by (simp add: stereo_start_def StereoTopology_Init_def StereoTopology_SetState_def StereoTopologyRules_Init_def
      RulesEngine_CreateRuleSet_def StereoTopologyGetGoalTask_def StereoTopology_GoalsInit_def panic_unless_def
      GoalsEngine_CreateGoalSet_def goalsEngine_ValidateInitParams_def stereo_goal_params_def GOAL_ID_MIN_def
      GOAL_ID_MAX_def TaskList_Initialise_def TaskList_InitialiseWithCapacity_def stereogoals_def
      stereo_ok_def handshake_def mail_ok_def compatible_def emit_def stereoTopologyEnterStoppedState_def
      stereo_topology_zero_def panic_null_def Let_def rules_good_def rs_ok_def statuses_ok_def tl_ok_def tl_shape_def
      tl_placed_def tasks_def)

interpretation st: reactive "stereo_start env" stereo_next stereo_ok for env
proof unfold_locales
  show "stereo_ok (stereo_start env)" by (rule stereo_start_ok)
next
  fix s and m :: "stereo_env \<times> stereo_event"
  assume "stereo_ok s"
  then show "stereo_ok (stereo_next s m)"
    by (cases m) (auto simp: stereo_next_def split: sum.splits dest: stereo_step_ok)
qed

text \<open>A topology that starts or has started stays so until it is asked to stop.\<close>

lemma running_step:
  assumes "stereo_ok s" and "stereo_topology_state s \<in> {STEREO_TOPOLOGY_STATE_STARTING, STEREO_TOPOLOGY_STATE_STARTED}"
    and "\<forall>(env, e) \<in> set (f # fs). \<forall>t. e \<noteq> CallStop t"
  shows "stop_cfms (stereo_next s f) = stop_cfms s \<and>
    stereo_topology_state (stereo_next s f) \<in> {STEREO_TOPOLOGY_STATE_STARTING, STEREO_TOPOLOGY_STATE_STARTED}"
proof -
  obtain env e where f: "f = (env, e)" by (cases f)
  have e: "e \<noteq> CallStop t" for t using assms(3) f by simp
  show ?thesis
  proof (cases "stereo_step env e s")
    case (Inr s')
    have "control e s s'" using stereo_step_control [OF _ _ Inr] assms(1) by (simp add: stereo_ok_def)
    then show ?thesis using assms(2) e by (auto simp: f stereo_next_def Inr control_defs split: stereo_event.splits)
  qed (use assms(2) in \<open>simp add: f stereo_next_def\<close>)
qed

text \<open>A headset that is paired with a handset and not connected to it.\<close>

definition paired_env :: stereo_env where
  "paired_env = \<lparr>handset_paired = True, handset_connected = False, handset_pairing_mode = False,
     reboot_reason_dfu_reset = False, poweron_reconnect_flag = False, any_bredr_connected = False,
     STEREO_TOPOLOGY_MESSAGE_BASE = 0\<rparr>"

lemma not_isl_Inr: "\<not> isl r \<Longrightarrow> \<exists>x. r = Inr x"
  by (cases r) auto

section \<open>Properties of every reachable state\<close>

text \<open>
  C3. The stop handshake. In every state the topology can reach, whatever the events so far:
  the stop time-out runs exactly while the topology is stopping; it moves only from stopped
  to starting (when asked to start), from starting to started, from started to stopping
  (when asked to stop) and from stopping to stopped; and a step sends exactly one stop
  confirmation when it ends a stop (a failure when the time-out ended it) or when a stop is
  requested of a stopped topology, and none otherwise.
\<close>

theorem stereo_stop_handshake:
  assumes "s = foldl stereo_next (stereo_start env0) es" and "stereo_step env e s = Inr s'"
  shows "stop_timeouts s = (if stereo_topology_state s = STEREO_TOPOLOGY_STATE_STOPPING then 1 else 0)
    \<and> transition e s s' \<and> stop_cfms s' = stop_cfms s @ stop_answer e s s'"
proof -
  have "stereo_ok s" unfolding assms(1) by (rule st.run_ok)
  then show ?thesis using stereo_step_control [OF _ _ assms(2)] by (simp add: stereo_ok_def control_def handshake_def)
qed

theorem stereo_stop_handshake_witness:
  "\<exists>s'. stereo_step paired_env (CallStop 7) (stereo_start paired_env) = Inr s'
    \<and> transition (CallStop 7) (stereo_start paired_env) s' \<and> stop_cfms s' = [StopCfm 7 stereo_topology_status_success]"
proof -
  have "\<not> isl (stereo_step paired_env (CallStop 7) (stereo_start paired_env))" by code_simp
  then obtain s' where s': "stereo_step paired_env (CallStop 7) (stereo_start paired_env) = Inr s'"
    using not_isl_Inr by blast
  have st: "stereo_topology_state (stereo_start paired_env) = STEREO_TOPOLOGY_STATE_STOPPED"
    "stop_cfms (stereo_start paired_env) = []"
    by (code_simp, code_simp)
  have "stereo_start paired_env = foldl stereo_next (stereo_start paired_env) []" by simp
  from stereo_stop_handshake [OF this s'] s' show ?thesis by (simp add: st stop_answer_def)
qed

text \<open>
  C4. Which goals are pursued together. In every state the topology can reach, two different
  goals are active at the same time only if both are among making the headset connectable,
  allowing handsets to connect and allowing LE connections; connecting, disconnecting and
  the stop script always run alone.
\<close>

theorem stereo_goals_exclusive:
  assumes "s = foldl stereo_next (stereo_start env) es" and "g < 8" and "h < 8" and "g \<noteq> h"
    and "StereoTopology_IsGoalActive g s" and "StereoTopology_IsGoalActive h s"
  shows "{g, h} \<subseteq> {stereo_topology_goal_connectable_handset, stereo_topology_goal_allow_handset_connect,
    stereo_topology_goal_allow_le_connection}"
proof -
  have "stereo_ok s" unfolding assms(1) by (rule st.run_ok)
  moreover have "bit (active s) g" "bit (active s) h"
    using assms(2,3,5,6) by (simp_all add: StereoTopology_IsGoalActive_def is_goal_active_iff)
  ultimately show ?thesis using assms(4) unfolding stereo_ok_def compatible_def stereo_goal_ids by blast
qed

theorem stereo_goals_exclusive_witness:
  "{1, 5} \<subseteq> {stereo_topology_goal_connectable_handset, stereo_topology_goal_allow_handset_connect,
    stereo_topology_goal_allow_le_connection}"
proof (rule stereo_goals_exclusive [OF refl])
  let ?s = "foldl stereo_next (stereo_start paired_env) (map (Pair paired_env) [CallStart, DeliverPosted, DeliverPosted])"
  show "StereoTopology_IsGoalActive 1 ?s" by code_simp
  show "StereoTopology_IsGoalActive 5 ?s" by code_simp
qed simp_all

text \<open>
  C24. The rules are always ready. In every state the topology can reach there is one status
  per rule of its table and no parameter left over from an earlier decision, so setting any
  event and completing any decision succeed, whatever the other modules answer.
\<close>

theorem stereo_rules_ready:
  assumes "s = foldl stereo_next (stereo_start env0) es"
  shows "length (rules_state (stereo_rules s)) = length stereotop_rules_set \<and> rule_message_data (stereo_rules s) = None
    \<and> (\<exists>s'. StereoTopologyRules_SetEvent env ev s = Inr s') \<and> (\<exists>s'. StereoTopologyRules_SetRuleComplete env mid s = Inr s')"
proof -
  have good: "rules_good s" using st.run_ok [of env0 es] unfolding assms stereo_ok_def by blast
  then have ok: "rs_ok (stereo_rules s)" by (simp add: rules_good_def)
  note table = rules_good_table [OF good]
  show ?thesis
    using good SetEvent_ok [OF ok table, of "stereo_view_of env s" ev]
      SetRuleWithEventComplete_ok [OF ok table, of "stereo_view_of env s" mid RULE_EVENT_ALL_EVENTS_MASK]
    by (auto simp: rules_good_def rs_ok_def statuses_ok_def StereoTopologyRules_SetEvent_def
        StereoTopologyRules_SetRuleComplete_def RulesEngine_SetRuleComplete_def)
qed

theorem stereo_rules_ready_witness:
  "length (rules_state (stereo_rules (stereo_start paired_env))) = length stereotop_rules_set"
  using stereo_rules_ready [of "stereo_start paired_env" paired_env "[]"] by simp

text \<open>
  C39. A request to stop that arrives while the topology is starting is lost: the topology
  neither stops nor confirms, then or at any later time, until the application asks again.
\<close>

theorem stereo_stop_while_starting_lost:
  assumes "s = foldl stereo_next (stereo_start env0) es"
    and "stereo_topology_state s = STEREO_TOPOLOGY_STATE_STARTING" and "stereo_step env (CallStop t) s = Inr s'"
    and "\<forall>(env, e) \<in> set fs. \<forall>t. e \<noteq> CallStop t"
  shows "stop_cfms (foldl stereo_next s' fs) = stop_cfms s
    \<and> stereo_topology_state (foldl stereo_next s' fs) \<in> {STEREO_TOPOLOGY_STATE_STARTING, STEREO_TOPOLOGY_STATE_STARTED}"
proof -
  have s': "s' = s\<lparr>app_task := t\<rparr>" using stop_step_cases [OF assms(3)] assms(2) by auto
  have "stereo_ok s" unfolding assms(1) by (rule st.run_ok)
  then have "stereo_ok s'" by (rule stereo_step_ok [OF _ assms(3)])
  moreover have "stereo_topology_state s' \<in> {STEREO_TOPOLOGY_STATE_STARTING, STEREO_TOPOLOGY_STATE_STARTED}"
    using assms(2) s' by simp
  ultimately have "stop_cfms (foldl stereo_next s' fs) = stop_cfms s' \<and>
      stereo_topology_state (foldl stereo_next s' fs) \<in> {STEREO_TOPOLOGY_STATE_STARTING, STEREO_TOPOLOGY_STATE_STARTED}"
    using assms(4)
  proof (induction fs arbitrary: s')
    case (Cons f fs)
    have "stop_cfms (stereo_next s' f) = stop_cfms s' \<and>
        stereo_topology_state (stereo_next s' f) \<in> {STEREO_TOPOLOGY_STATE_STARTING, STEREO_TOPOLOGY_STATE_STARTED}"
      using Cons.prems by (rule running_step)
    then show ?case using Cons.IH [of "stereo_next s' f"] Cons.prems st.ok_handle by auto
  qed simp
  then show ?thesis by (simp add: s' stop_cfms_def)
qed

theorem stereo_stop_while_starting_lost_witness:
  "\<exists>s'. stereo_step paired_env (CallStop 7) (foldl stereo_next (stereo_start paired_env) [(paired_env, CallStart)]) = Inr s'
    \<and> stop_cfms (foldl stereo_next s' [(paired_env, DeliverPosted)]) = []"
proof -
  let ?s = "foldl stereo_next (stereo_start paired_env) [(paired_env, CallStart)]"
  have "\<not> isl (stereo_step paired_env (CallStop 7) ?s)" by code_simp
  then obtain s' where s': "stereo_step paired_env (CallStop 7) ?s = Inr s'" using not_isl_Inr by blast
  have st: "stereo_topology_state ?s = STEREO_TOPOLOGY_STATE_STARTING" by code_simp
  have "stop_cfms ?s = []" by code_simp
  with stereo_stop_while_starting_lost [OF refl st s', of "[(paired_env, DeliverPosted)]"] s' show ?thesis by simp
qed

end
