(* ===== verification/Stereo_Scenarios.thy ===== *)
theory Stereo_Scenarios
  imports Stereo_Control
begin

text \<open>
  The headset's topology started and stopped, with all its parts at work: the state machine,
  the rules, the goals, the procedures and the stop script. The messages are delivered in
  the order in which they were sent.
\<close>

section \<open>Starting\<close>

definition service_calls :: "stereo_output list \<Rightarrow> service_call list" where
  "service_calls out = concat (map (\<lambda>x. case x of ServiceOut c \<Rightarrow> [c] | _ \<Rightarrow> []) out)"

text \<open>What can be observed of a run: the state it ends in, and the requests it made.\<close>

definition observe :: "stereo_topology res \<Rightarrow> (stereo_topology_sm \<times> service_call list) res" where
  "observe r = res_bind r (\<lambda>s. Inr (stereo_topology_state s, service_calls (log s)))"

text \<open>
  The application starts the topology, the six messages that follow are delivered, the
  handset service reports that the headset is connectable over LE, and the decision that
  waited for that is delivered. With fewer messages the last deliveries do nothing.
\<close>

definition start_up :: "stereo_event list" where
  "start_up = [CallStart, DeliverPosted, DeliverPosted, DeliverPosted, DeliverPosted, DeliverPosted, DeliverPosted,
     ProcMessage ProcAllowLe HANDSET_SERVICE_LE_CONNECTABLE_IND, DeliverQueued 0]"

definition start_up_services :: "stereo_env \<Rightarrow> service_call list" where
  "start_up_services env =
     [HandsetService_ClientRegister, LeAdvertisingManager_AllowAdvertising True, ConManagerAllowConnectionBle True,
      HandsetService_SetBleConnectable True]
     @ (if handset_paired env \<and> \<not> handset_connected env then [HandsetService_ConnectableRequest] else [])
     @ [ConManagerAllowHandsetConnect True, HandsetService_ClientUnregister]
     @ (if handset_paired env \<and> \<not> handset_pairing_mode env
           \<and> (reboot_reason_dfu_reset env \<or> \<not> poweron_reconnect_flag env)
        then [HandsetService_ReconnectRequest] else [])"

definition start_up_ok :: "stereo_env \<Rightarrow> bool" where
  "start_up_ok env \<longleftrightarrow> observe (stereo_run (map (Pair env) start_up) (stereo_start env))
     = Inr (STEREO_TOPOLOGY_STATE_STARTED, start_up_services env)"

definition env_of :: "bool \<Rightarrow> bool \<Rightarrow> bool \<Rightarrow> bool \<Rightarrow> bool \<Rightarrow> bool \<Rightarrow> message_id \<Rightarrow> stereo_env" where
  "env_of p c m d f a b = \<lparr>handset_paired = p, handset_connected = c, handset_pairing_mode = m,
     reboot_reason_dfu_reset = d, poweron_reconnect_flag = f, any_bredr_connected = a, STEREO_TOPOLOGY_MESSAGE_BASE = b\<rparr>"

lemma env_cases: obtains p c m d f a b where "env = env_of p c m d f a b"
  by (cases env) (simp add: env_of_def)

lemma start_up_unpaired: "start_up_ok (env_of False c m d f a b)"
  by code_simp

lemma start_up_pairing:
  "start_up_ok (env_of True True True d f a b)" "start_up_ok (env_of True False True d f a b)"
  by (code_simp, code_simp)

lemma start_up_connected:
  "start_up_ok (env_of True True False True f a b)" "start_up_ok (env_of True True False False True a b)"
  "start_up_ok (env_of True True False False False a b)"
  by (code_simp, code_simp, code_simp)

lemma start_up_reconnects:
  "start_up_ok (env_of True False False True f a b)" "start_up_ok (env_of True False False False True a b)"
  "start_up_ok (env_of True False False False False a b)"
  by (code_simp, code_simp, code_simp)

text \<open>
  C5. Starting the topology. From its initial state, whatever the other modules answer, the
  topology becomes started and makes exactly these requests, in this order: it allows LE
  connections; when a handset is paired and not connected it makes the headset connectable;
  it allows handsets to connect; and when LE connections are confirmed and a handset is
  paired, the headset is not in pairing mode and the power key was not held at power on
  (unless an upgrade rebooted the device), it reconnects to the handset.
\<close>

theorem stereo_start_up:
  "observe (stereo_run (map (Pair env) start_up) (stereo_start env))
     = Inr (STEREO_TOPOLOGY_STATE_STARTED, start_up_services env)"
proof (cases env rule: env_cases)
  case (1 p c m d f a b)
  have "start_up_ok (env_of p c m d f a b)"
    by (cases p; cases c; cases m; cases d; cases f)
      (simp_all add: start_up_unpaired start_up_pairing start_up_connected start_up_reconnects)
  then show ?thesis by (simp add: start_up_ok_def 1)
qed

section \<open>Stopping\<close>

text \<open>
  The application (task 7) stops the topology while it is connecting to a handset: the
  attempt is cancelled, then the steps of the stop script run, each when the one before it
  has been confirmed.
\<close>

definition shut_down :: "stereo_event list" where
  "shut_down = [CallStop 7, DeliverPosted,
     ProcMessage ProcConnectHandset (HANDSET_SERVICE_MP_CONNECT_STOP_CFM handset_service_status_success),
     DeliverQueued 0, DeliverPosted, DeliverPosted, DeliverPosted,
     ProcMessage ProcAllowLe (LE_ADV_MGR_ALLOW_ADVERTISING_CFM False),
     ProcMessage ProcDisconnectHandset (HANDSET_SERVICE_MP_DISCONNECT_ALL_CFM handset_service_status_disconnected),
     ProcMessage ProcDisconnectLe CON_MANAGER_DISCONNECT_ALL_LE_CONNECTIONS_CFM, DeliverPosted, DeliverPosted]"

definition connecting :: stereo_topology where
  "connecting = foldl stereo_next (stereo_start paired_env) (map (Pair paired_env) start_up)"


section \<open>Errors\<close>

text \<open>
  A decision that waits in the queue and is delivered once the topology no longer allows
  it is dropped without telling the goals engine: the count of queued decisions is one too
  high, and the topology reports a pending goal although nothing is queued or active.
\<close>

theorem stereo_dropped_decision_counted:
  "res_bind (stereo_run (map (Pair paired_env) [CallDisconnectAll, DeliverPosted, CallStop 7,
         ProcMessage ProcConnectHandset (HANDSET_SERVICE_MP_CONNECT_STOP_CFM handset_service_status_success),
         DeliverQueued 0]) connecting) (\<lambda>s.
       Inr (queue (stereo_goals s), active_goals_mask (gset (stereo_goals s)), queue_msg_count (gset (stereo_goals s)),
            StereoTopology_IsAnyGoalPending s)) = Inr ([], 0, 1, True)"
  by code_simp


end
