(* ===== verification/State_Of_Charge.thy ===== *)
theory State_Of_Charge
  imports Mh40_Prelude
begin

text \<open>
  The battery state of charge (\<^verbatim>\<open>adk/src/domains/power/state_of_charge/state_of_charge.c\<close> and the
  headset's voltage table \<^verbatim>\<open>headset/src/headset_soc_config.c\<close>), in the configuration the headset
  is built with. The persistent store, the upgrade library and the charger are seen through
  their answers, which the events and calls carry; messages and calls to other components
  are outputs.
\<close>

section \<open>Model\<close>

record soc_lookup =
  voltage :: u16
  percentage :: u8

record socRegisteredClient =
  soc_client_task :: task
  soc_hysteresis :: u16
  soc_percent :: u8

record soc_data =
  soc_config_table :: "soc_lookup list"
  soc_config_size :: nat
  state_of_charge :: u16
  save_battery_percent :: u16
  charger_connected :: bool
  config_index :: u8
  low_battery_percent :: u8
  full_battery_percent :: u8
  client_list :: "socRegisteredClient list"
  soc_context :: nat

datatype soc_message = SOC_UPDATE_IND u8 | SOC_BATTERY_BECAME_LOW | SOC_BATTERY_BECAME_OK | SOC_BATTERY_BECAME_FULL

datatype soc_output =
    SocSend task soc_message
  | PsStore u16
  | Ui_InformContextChange nat
  | BatteryRegister
  | ChargerRegister
  | UiRegister

text \<open>The contexts of the battery UI provider, in the order of the enumeration.\<close>

definition context_battery_low :: nat where "context_battery_low = 0"
definition context_battery_ok :: nat where "context_battery_ok = 1"
definition context_battery_full :: nat where "context_battery_full = 2"
definition context_charging_battery_low :: nat where "context_charging_battery_low = 3"
definition context_charging_battery_ok :: nat where "context_charging_battery_ok = 4"
definition context_charging_battery_full :: nat where "context_charging_battery_full = 5"

lemmas context_defs = context_battery_low_def context_battery_ok_def context_battery_full_def
  context_charging_battery_low_def context_charging_battery_ok_def context_charging_battery_full_def

definition appConfigBatteryVoltageCritical :: u16 where "appConfigBatteryVoltageCritical = 3251"
definition appConfigBatteryFullyCharged :: u16 where "appConfigBatteryFullyCharged = 4150"
definition SOC_MIN_INDEX :: nat where "SOC_MIN_INDEX = 0"

fun service_loop :: "u8 \<Rightarrow> socRegisteredClient list \<Rightarrow> socRegisteredClient list \<times> soc_output list" where
  "service_loop p [] = ([], [])"
| "service_loop p (c # cs) = (case service_loop p cs of (cs', out) \<Rightarrow>
     if p \<noteq> soc_percent c
     then (c\<lparr>soc_percent := p\<rparr> # cs', SocSend (soc_client_task c) (SOC_UPDATE_IND p) # out)
     else (c # cs', out))"

definition soc_ServiceClients :: "soc_data \<Rightarrow> soc_data \<times> soc_output list" where
  "soc_ServiceClients d = (case service_loop (ucast (state_of_charge d)) (client_list d) of
     (cs, out) \<Rightarrow> (d\<lparr>client_list := cs\<rparr>, out))"

definition soc_ClientAdd :: "soc_data \<Rightarrow> task \<Rightarrow> u16 \<Rightarrow> soc_data" where
  "soc_ClientAdd d t h =
     d\<lparr>client_list := \<lparr>soc_client_task = t, soc_hysteresis = h, soc_percent = 0\<rparr> # client_list d\<rparr>"

fun remove_client :: "task \<Rightarrow> socRegisteredClient list \<Rightarrow> socRegisteredClient list" where
  "remove_client t [] = []"
| "remove_client t (c # cs) = (if soc_client_task c = t then cs else c # remove_client t cs)"

definition soc_ClientRemove :: "soc_data \<Rightarrow> task \<Rightarrow> soc_data" where
  "soc_ClientRemove d t = d\<lparr>client_list := remove_client t (client_list d)\<rparr>"

definition appSocCurrentContext :: "soc_data \<Rightarrow> nat" where
  "appSocCurrentContext d =
     (let context = (if unat (state_of_charge d) < unat (low_battery_percent d) then context_battery_low
                     else if unat (state_of_charge d) > unat (full_battery_percent d) then context_battery_full
                     else context_battery_ok)
      in if charger_connected d then context + context_charging_battery_low else context)"

definition Soc_NotifyBatteryChanged :: "soc_data \<Rightarrow> nat \<Rightarrow> soc_output list" where
  "Soc_NotifyBatteryChanged d new_context =
     (let msg = (if new_context = context_battery_low \<or> new_context = context_charging_battery_low
                 then SOC_BATTERY_BECAME_LOW
                 else if new_context = context_battery_ok \<or> new_context = context_charging_battery_ok
                 then SOC_BATTERY_BECAME_OK
                 else if new_context = context_battery_full \<or> new_context = context_charging_battery_full
                 then SOC_BATTERY_BECAME_FULL
                 else SOC_BATTERY_BECAME_LOW)
      in map (\<lambda>c. SocSend (soc_client_task c) msg) (client_list d))"

definition clamp_voltage :: "u16 \<Rightarrow> u16" where
  "clamp_voltage v =
     (if v < appConfigBatteryVoltageCritical then appConfigBatteryVoltageCritical
      else if v > appConfigBatteryFullyCharged then appConfigBatteryFullyCharged else v)"

text \<open>The search forwards, over the remaining number of entries, and the one backwards.\<close>

fun search_forward :: "soc_lookup list \<Rightarrow> u16 \<Rightarrow> u16 \<Rightarrow> nat \<Rightarrow> nat \<Rightarrow> nat option res" where
  "search_forward table v prev_mv index 0 = Inr None"
| "search_forward table v prev_mv index (Suc n) = res_bind (array_get table index) (\<lambda>e.
     let this_mv = prev_mv; prev_mv = voltage e in
     if v < prev_mv \<and> v \<ge> this_mv then Inr (Some (index - 1))
     else search_forward table v prev_mv (index + 1) n)"

fun search_backward :: "soc_lookup list \<Rightarrow> u16 \<Rightarrow> u16 \<Rightarrow> nat \<Rightarrow> nat option res" where
  "search_backward table v prev_mv 0 = Inr None"
| "search_backward table v prev_mv (Suc i) = res_bind (array_get table i) (\<lambda>e.
     let this_mv = prev_mv; prev_mv = voltage e in
     if v < this_mv \<and> v \<ge> prev_mv then Inr (Some i)
     else search_backward table v prev_mv i)"

definition soc_StateOfChargeUpdate :: "soc_data \<Rightarrow> u16 \<Rightarrow> soc_data res" where
  "soc_StateOfChargeUpdate d battery_voltage =
     (let v = clamp_voltage battery_voltage; prev_index = unat (config_index d) in
      res_bind (array_get (soc_config_table d) prev_index) (\<lambda>e.
        if v \<ge> voltage e then
          res_bind (search_forward (soc_config_table d) v (voltage e) (prev_index + 1)
              (soc_config_size d - (prev_index + 1))) (\<lambda>r.
            Inr (d\<lparr>config_index := word_of_nat (case r of Some i \<Rightarrow> i | None \<Rightarrow> soc_config_size d - 1)\<rparr>))
        else
          res_bind (search_backward (soc_config_table d) v (voltage e) prev_index) (\<lambda>r.
            Inr (d\<lparr>config_index := word_of_nat (case r of Some i \<Rightarrow> i | None \<Rightarrow> SOC_MIN_INDEX)\<rparr>))))"

text \<open>
  The messages the component handles. Each carries whether the upgrade library is checking
  a data hash, which blocks the persistent store.
\<close>

datatype soc_event =
    MESSAGE_BATTERY_LEVEL_UPDATE_VOLTAGE u16
  | CHARGER_MESSAGE_ATTACHED
  | CHARGER_MESSAGE_DETACHED
  | OtherMessage

definition update_percentage :: "soc_data \<Rightarrow> u8 \<Rightarrow> bool \<Rightarrow> soc_data \<times> soc_output list" where
  "update_percentage d p dfu_blocked =
     (if dfu_blocked then (d, [])
      else
        let d = d\<lparr>state_of_charge := ucast p\<rparr> in
        case soc_ServiceClients d of (d', out) \<Rightarrow> (d', PsStore (state_of_charge d) # out))"

definition soc_HandleMessage :: "soc_data \<Rightarrow> soc_event \<Rightarrow> bool \<Rightarrow> (soc_data \<times> soc_output list) res" where
  "soc_HandleMessage d e dfu_blocked =
     res_bind (case e of
         MESSAGE_BATTERY_LEVEL_UPDATE_VOLTAGE v \<Rightarrow> soc_StateOfChargeUpdate d v
       | CHARGER_MESSAGE_ATTACHED \<Rightarrow> Inr (d\<lparr>charger_connected := True\<rparr>)
       | CHARGER_MESSAGE_DETACHED \<Rightarrow> Inr (d\<lparr>charger_connected := False\<rparr>)
       | OtherMessage \<Rightarrow> Inr d) (\<lambda>d.
     res_bind (array_get (soc_config_table d) (unat (config_index d))) (\<lambda>entry.
       let (d, out1) =
             (if charger_connected d then
                if percentage entry \<noteq> ucast (state_of_charge d)
                then update_percentage d (percentage entry) dfu_blocked else (d, [])
              else
                if percentage entry < ucast (state_of_charge d)
                then update_percentage d (percentage entry) dfu_blocked else (d, []));
           (d, out2) =
             (if soc_context d \<noteq> appSocCurrentContext d
              then (d\<lparr>soc_context := appSocCurrentContext d\<rparr>, Soc_NotifyBatteryChanged d (appSocCurrentContext d))
              else (d, []))
       in Inr (d, out1 @ out2 @ [Ui_InformContextChange (appSocCurrentContext d)])))"

text \<open>
  \<open>soc_getIndex\<close> counts with an octet; the loop ends because the table has fewer than 256
  entries, otherwise it does not.
\<close>

definition soc_getIndex :: "soc_data \<Rightarrow> u16 \<Rightarrow> nat res" where
  "soc_getIndex d v =
     (if soc_config_size d > 255 then Inl Hang
      else res_bind (array_get (soc_config_table d) SOC_MIN_INDEX) (\<lambda>e.
        res_bind (search_forward (soc_config_table d) v (voltage e) 1 (soc_config_size d - 1)) (\<lambda>r.
          Inr (case r of Some i \<Rightarrow> i | None \<Rightarrow> soc_config_size d - 1))))"

definition Soc_SetReportingLimits :: "soc_data \<Rightarrow> u8 \<Rightarrow> u8 \<Rightarrow> soc_data" where
  "Soc_SetReportingLimits d low high = d\<lparr>low_battery_percent := low, full_battery_percent := high\<rparr>"

text \<open>The stored value and the state of the charger are parameters.\<close>

definition Soc_Init :: "soc_data \<Rightarrow> u16 option \<Rightarrow> bool \<Rightarrow> soc_data \<times> soc_output list" where
  "Soc_Init d stored connected =
     (let soc = (case stored of Some s \<Rightarrow> s | None \<Rightarrow> 100)
      in (\<lparr>soc_config_table = soc_config_table d, soc_config_size = soc_config_size d,
           state_of_charge = soc, save_battery_percent = soc, charger_connected = connected,
           config_index = 0, low_battery_percent = 30, full_battery_percent = 90,
           client_list = [], soc_context = 0\<rparr>,
          [BatteryRegister, ChargerRegister, UiRegister]))"

definition Soc_Register :: "soc_data \<Rightarrow> task \<Rightarrow> u16 \<Rightarrow> soc_data \<times> soc_output list" where
  "Soc_Register d t h = soc_ServiceClients (soc_ClientAdd d t h)"

definition Soc_Unregister :: "soc_data \<Rightarrow> task \<Rightarrow> soc_data" where
  "Soc_Unregister d t = soc_ClientRemove d t"

definition Soc_GetBatterySoc :: "soc_data \<Rightarrow> u8" where
  "Soc_GetBatterySoc d = ucast (state_of_charge d)"

definition Soc_GetSaveBatteryVoltage :: "soc_data \<Rightarrow> u16 res" where
  "Soc_GetSaveBatteryVoltage d =
     (let percent = ucast (save_battery_percent d) :: u8;
          percent = (if percent < 100 then percent + 1 else percent)
      in res_bind (array_get (soc_config_table d) (unat percent)) (\<lambda>e. Inr (voltage e)))"

definition Soc_SetConfigurationTable :: "soc_data \<Rightarrow> soc_lookup list \<Rightarrow> nat \<Rightarrow> soc_data" where
  "Soc_SetConfigurationTable d table n = d\<lparr>soc_config_table := table, soc_config_size := n\<rparr>"

definition Soc_ConvertLevelToPercentage :: "soc_data \<Rightarrow> u16 \<Rightarrow> u8 res" where
  "Soc_ConvertLevelToPercentage d battery_level =
     res_bind (soc_getIndex d (clamp_voltage battery_level)) (\<lambda>index.
     res_bind (array_get (soc_config_table d) index) (\<lambda>e. Inr (percentage e)))"

definition Soc_RegisterMessageGroup :: "soc_data \<Rightarrow> task \<Rightarrow> bool \<Rightarrow> (soc_data \<times> soc_output list) res" where
  "Soc_RegisterMessageGroup d t is_soc_group =
     res_bind (panic_unless is_soc_group) (\<lambda>_. Inr (Soc_Register d t 255))"

definition Soc_ForceNotifyBatteryChanged :: "soc_data \<Rightarrow> soc_output list" where
  "Soc_ForceNotifyBatteryChanged d = Soc_NotifyBatteryChanged d (appSocCurrentContext d)"

definition headset_soc_config_table :: "soc_lookup list" where
  "headset_soc_config_table = map (\<lambda>(v, p). \<lparr>voltage = v, percentage = p\<rparr>) [
     (3251, 0), (3343, 1), (3412, 2), (3466, 3), (3506, 4), (3530, 5), (3550, 6), (3568, 7),
     (3585, 8), (3601, 9), (3617, 10), (3633, 11), (3645, 12), (3654, 13), (3664, 14), (3674,
     15), (3686, 16), (3695, 17), (3705, 18), (3712, 19), (3718, 20), (3722, 21), (3725, 22),
     (3731, 23), (3735, 24), (3739, 25), (3742, 26), (3745, 27), (3746, 28), (3750, 29), (3751,
     30), (3753, 31), (3753, 32), (3753, 33), (3755, 34), (3757, 35), (3757, 36), (3759, 37),
     (3759, 38), (3759, 39), (3761, 40), (3762, 41), (3763, 42), (3766, 43), (3768, 44), (3770,
     45), (3773, 46), (3776, 47), (3778, 48), (3782, 49), (3784, 50), (3788, 51), (3792, 52),
     (3797, 53), (3801, 54), (3807, 55), (3814, 56), (3820, 57), (3827, 58), (3835, 59), (3843,
     60), (3850, 61), (3857, 62), (3863, 63), (3869, 64), (3874, 65), (3882, 66), (3887, 67),
     (3893, 68), (3898, 69), (3906, 70), (3913, 71), (3919, 72), (3924, 73), (3933, 74), (3938,
     75), (3946, 76), (3951, 77), (3957, 78), (3960, 79), (3964, 80), (3970, 81), (3978, 82),
     (3987, 83), (3999, 84), (4011, 85), (4023, 86), (4036, 87), (4044, 88), (4050, 89), (4056,
     90), (4064, 91), (4071, 92), (4081, 93), (4090, 94), (4099, 95), (4108, 96), (4118, 97),
     (4128, 98), (4138, 99), (4150, 100)]"

definition HeadsetSoC_GetConfigTable :: "soc_lookup list \<times> nat" where
  "HeadsetSoC_GetConfigTable = (headset_soc_config_table, length headset_soc_config_table)"

section \<open>The table search\<close>

text \<open>A table in ascending order of voltage that covers the voltages the clamp lets through.\<close>

definition soc_table_ok :: "soc_data \<Rightarrow> bool" where
  "soc_table_ok d \<longleftrightarrow> soc_config_size d = length (soc_config_table d)
     \<and> 0 < soc_config_size d \<and> soc_config_size d \<le> 255
     \<and> sorted (map voltage (soc_config_table d))
     \<and> voltage (soc_config_table d ! 0) \<le> appConfigBatteryVoltageCritical"

text \<open>
  The reference: the entry of a voltage is the last one whose voltage it reaches.
\<close>

definition soc_entry :: "soc_lookup list \<Rightarrow> u16 \<Rightarrow> nat \<Rightarrow> bool" where
  "soc_entry table v i \<longleftrightarrow> i < length table \<and> voltage (table ! i) \<le> v
     \<and> (\<forall>j. i < j \<and> j < length table \<longrightarrow> v < voltage (table ! j))"

lemma soc_entry_unique: "soc_entry table v i \<Longrightarrow> soc_entry table v j \<Longrightarrow> i = j"
  unfolding soc_entry_def by (metis linorder_neqE_nat linorder_not_less)

lemma sorted_voltage:
  "sorted (map voltage table) \<Longrightarrow> i \<le> j \<Longrightarrow> j < length table \<Longrightarrow> voltage (table ! i) \<le> voltage (table ! j)"
  using sorted_nth_mono [of "map voltage table" i j] by simp

lemma search_forward_entry:
  assumes "sorted (map voltage table)" and "k + n = length table" and "0 < k"
    and "voltage (table ! (k - 1)) \<le> v"
  shows "\<exists>r. search_forward table v (voltage (table ! (k - 1))) k n = Inr r
    \<and> soc_entry table v (case r of Some i \<Rightarrow> i | None \<Rightarrow> length table - 1)"
  using assms(2-4)
proof (induction n arbitrary: k)
  case 0
  then show ?case by (auto simp: soc_entry_def)
next
  case (Suc n)
  show ?case
  proof (cases "v < voltage (table ! k)")
    case True
    have "v < voltage (table ! j)" if "k - 1 < j" "j < length table" for j
      using sorted_voltage [OF assms(1), of k j] that True Suc.prems(2) by (auto intro: less_le_trans)
    then show ?thesis using Suc.prems True by (simp add: soc_entry_def)
  next
    case False
    then have "voltage (table ! (Suc k - 1)) \<le> v" by simp
    from Suc.IH [OF _ _ this] Suc.prems(1) False show ?thesis by simp
  qed
qed

lemma search_backward_entry:
  assumes "sorted (map voltage table)" and "k < length table" and "v < voltage (table ! k)"
    and "voltage (table ! 0) \<le> v"
  shows "\<exists>i. search_backward table v (voltage (table ! k)) k = Inr (Some i) \<and> soc_entry table v i"
  using assms(2-4)
proof (induction k)
  case 0
  then show ?case by auto
next
  case (Suc k)
  show ?case
  proof (cases "voltage (table ! k) \<le> v")
    case True
    have "v < voltage (table ! j)" if "k < j" "j < length table" for j
      using sorted_voltage [OF assms(1), of "Suc k" j] that Suc.prems(2) by (auto intro: less_le_trans)
    then show ?thesis using Suc.prems True by (simp add: soc_entry_def)
  next
    case False
    then show ?thesis using Suc.IH Suc.prems by simp
  qed
qed

lemma clamp_covered:
  "soc_table_ok d \<Longrightarrow> voltage (soc_config_table d ! 0) \<le> clamp_voltage v"
  unfolding soc_table_ok_def clamp_voltage_def appConfigBatteryFullyCharged_def appConfigBatteryVoltageCritical_def
  by (auto intro: order_trans)

lemma get_index_entry:
  assumes "soc_table_ok d"
  shows "\<exists>i. soc_getIndex d (clamp_voltage v) = Inr i \<and> soc_entry (soc_config_table d) (clamp_voltage v) i"
proof -
  have ok: "soc_config_size d = length (soc_config_table d)" "0 < length (soc_config_table d)"
      "soc_config_size d \<le> 255" "sorted (map voltage (soc_config_table d))"
    using assms by (auto simp: soc_table_ok_def)
  have "\<exists>r. search_forward (soc_config_table d) (clamp_voltage v) (voltage (soc_config_table d ! (1 - 1))) 1
        (length (soc_config_table d) - 1) = Inr r
    \<and> soc_entry (soc_config_table d) (clamp_voltage v) (case r of Some i \<Rightarrow> i | None \<Rightarrow> length (soc_config_table d) - 1)"
    using ok clamp_covered [OF assms] by (intro search_forward_entry) auto
  then show ?thesis using ok by (auto simp: soc_getIndex_def SOC_MIN_INDEX_def cong: option.case_cong)
qed

lemma update_entry_index:
  assumes "soc_table_ok d" and "unat (config_index d) < soc_config_size d"
  shows "\<exists>i. soc_StateOfChargeUpdate d v = Inr (d\<lparr>config_index := word_of_nat i\<rparr>)
    \<and> soc_entry (soc_config_table d) (clamp_voltage v) i"
proof -
  let ?t = "soc_config_table d" and ?k = "unat (config_index d)" and ?v = "clamp_voltage v"
  have ok: "soc_config_size d = length ?t" "sorted (map voltage ?t)" "?k < length ?t"
    using assms by (auto simp: soc_table_ok_def)
  show ?thesis
  proof (cases "voltage (?t ! ?k) \<le> ?v")
    case True
    have "\<exists>r. search_forward ?t ?v (voltage (?t ! (Suc ?k - 1))) (Suc ?k) (length ?t - Suc ?k) = Inr r
      \<and> soc_entry ?t ?v (case r of Some i \<Rightarrow> i | None \<Rightarrow> length ?t - 1)"
      using ok True by (intro search_forward_entry) auto
    then obtain r where r: "search_forward ?t ?v (voltage (?t ! ?k)) (Suc ?k) (length ?t - Suc ?k) = Inr r"
      and entry: "soc_entry ?t ?v (case r of Some i \<Rightarrow> i | None \<Rightarrow> length ?t - 1)" by auto
    have "soc_StateOfChargeUpdate d v
        = Inr (d\<lparr>config_index := word_of_nat (case r of Some i \<Rightarrow> i | None \<Rightarrow> length ?t - 1)\<rparr>)"
      using ok True r by (simp add: soc_StateOfChargeUpdate_def Let_def cong: option.case_cong)
    with entry show ?thesis by blast
  next
    case False
    then have "\<exists>i. search_backward ?t ?v (voltage (?t ! ?k)) ?k = Inr (Some i) \<and> soc_entry ?t ?v i"
      using ok clamp_covered [OF assms(1)] by (intro search_backward_entry) auto
    then show ?thesis using ok False by (auto simp: soc_StateOfChargeUpdate_def Let_def)
  qed
qed

lemma entry_index_small:
  "soc_table_ok d \<Longrightarrow> soc_entry (soc_config_table d) v i \<Longrightarrow> unat (word_of_nat i :: u8) = i \<and> i < soc_config_size d"
  by (auto simp: soc_table_ok_def soc_entry_def intro!: unat_of_nat_small)

section \<open>The component as a state machine\<close>

text \<open>A well-formed state: the table, a position in it, and clients that know the percentage.\<close>

definition soc_ok :: "soc_data \<Rightarrow> bool" where
  "soc_ok d \<longleftrightarrow> soc_table_ok d \<and> unat (config_index d) < soc_config_size d
     \<and> (\<forall>c \<in> set (client_list d). soc_percent c = Soc_GetBatterySoc d)"

lemma service_loop_synced: "\<forall>c \<in> set (fst (service_loop p cs)). soc_percent c = p"
  by (induction cs) (auto split: prod.splits)

lemma service_loop_tasks: "map soc_client_task (fst (service_loop p cs)) = map soc_client_task cs"
  by (induction cs) (auto split: prod.splits)

lemma service_clients_frame:
  assumes "soc_ServiceClients d = (d', out)"
  shows "\<exists>cs. d' = d\<lparr>client_list := cs\<rparr> \<and> (\<forall>c \<in> set cs. soc_percent c = Soc_GetBatterySoc d)"
proof -
  obtain cs where cs: "service_loop (ucast (state_of_charge d)) (client_list d) = (cs, out)" "d' = d\<lparr>client_list := cs\<rparr>"
    using assms by (auto simp: soc_ServiceClients_def split: prod.splits)
  then show ?thesis using service_loop_synced [of "ucast (state_of_charge d)" "client_list d"]
    by (auto simp: Soc_GetBatterySoc_def)
qed

lemma ucast_u8_u16 [simp]: "(ucast (ucast (p :: u8) :: u16) :: u8) = p"
  by (rule bit_word_eqI) (simp add: bit_simps)

text \<open>Reporting a percentage: when the store is not blocked it becomes the one reported to all clients.\<close>

lemma update_percentage_D:
  assumes "update_percentage d p b = (d', out)" and "soc_ok d"
  shows "soc_ok d' \<and> charger_connected d' = charger_connected d
    \<and> Soc_GetBatterySoc d' = (if b then Soc_GetBatterySoc d else p)"
proof (cases b)
  case True
  then show ?thesis using assms by (simp add: update_percentage_def)
next
  case False
  obtain d1 o1 where s: "soc_ServiceClients (d\<lparr>state_of_charge := ucast p\<rparr>) = (d1, o1)" by (cases rule: prod.exhaust)
  then have "d' = d1" using assms(1) False by (simp add: update_percentage_def)
  with service_clients_frame [OF s] assms(2) False show ?thesis
    by (auto simp: soc_ok_def Soc_GetBatterySoc_def soc_table_ok_def)
qed

text \<open>The first part of the handler, which only moves in the table or records the charger.\<close>

definition note_event :: "soc_data \<Rightarrow> soc_event \<Rightarrow> soc_data res" where
  "note_event d e = (case e of
         MESSAGE_BATTERY_LEVEL_UPDATE_VOLTAGE v \<Rightarrow> soc_StateOfChargeUpdate d v
       | CHARGER_MESSAGE_ATTACHED \<Rightarrow> Inr (d\<lparr>charger_connected := True\<rparr>)
       | CHARGER_MESSAGE_DETACHED \<Rightarrow> Inr (d\<lparr>charger_connected := False\<rparr>)
       | OtherMessage \<Rightarrow> Inr d)"

lemma note_event_ok:
  assumes "soc_ok d"
  shows "\<exists>d'. note_event d e = Inr d' \<and> soc_ok d' \<and> Soc_GetBatterySoc d' = Soc_GetBatterySoc d
    \<and> charger_connected d' = (if e = CHARGER_MESSAGE_ATTACHED then True
         else if e = CHARGER_MESSAGE_DETACHED then False else charger_connected d)"
proof (cases e)
  case (MESSAGE_BATTERY_LEVEL_UPDATE_VOLTAGE v)
  obtain i where "soc_StateOfChargeUpdate d v = Inr (d\<lparr>config_index := word_of_nat i\<rparr>)"
      "soc_entry (soc_config_table d) (clamp_voltage v) i"
    using update_entry_index assms unfolding soc_ok_def by blast
  moreover have "unat (word_of_nat i :: u8) < soc_config_size d"
    using entry_index_small [of d _ i] assms calculation(2) by (simp add: soc_ok_def)
  ultimately show ?thesis using assms MESSAGE_BATTERY_LEVEL_UPDATE_VOLTAGE
    by (auto simp: note_event_def soc_ok_def soc_table_ok_def Soc_GetBatterySoc_def)
qed (use assms in \<open>auto simp: note_event_def soc_ok_def soc_table_ok_def Soc_GetBatterySoc_def\<close>)

lemma soc_message_ok:
  assumes "soc_ok d"
  shows "\<exists>d' out. soc_HandleMessage d e b = Inr (d', out) \<and> soc_ok d'
    \<and> charger_connected d' = (if e = CHARGER_MESSAGE_ATTACHED then True
         else if e = CHARGER_MESSAGE_DETACHED then False else charger_connected d)
    \<and> (\<not> charger_connected d' \<longrightarrow> Soc_GetBatterySoc d' \<le> Soc_GetBatterySoc d)"
proof -
  obtain d1 where d1: "note_event d e = Inr d1" "soc_ok d1" "Soc_GetBatterySoc d1 = Soc_GetBatterySoc d"
      "charger_connected d1 = (if e = CHARGER_MESSAGE_ATTACHED then True
         else if e = CHARGER_MESSAGE_DETACHED then False else charger_connected d)"
    using note_event_ok [OF assms] by blast
  define entry where "entry = soc_config_table d1 ! unat (config_index d1)"
  have get: "array_get (soc_config_table d1) (unat (config_index d1)) = Inr entry"
    using d1(2) by (simp add: soc_ok_def soc_table_ok_def entry_def)
  define step where "step = (if charger_connected d1 then
                if percentage entry \<noteq> ucast (state_of_charge d1)
                then update_percentage d1 (percentage entry) b else (d1, [])
              else
                if percentage entry < ucast (state_of_charge d1)
                then update_percentage d1 (percentage entry) b else (d1, []))"
  obtain d2 o2 where d2: "step = (d2, o2)" by (cases step)
  have "soc_ok d2 \<and> charger_connected d2 = charger_connected d1
      \<and> (\<not> charger_connected d1 \<longrightarrow> Soc_GetBatterySoc d2 \<le> Soc_GetBatterySoc d1)"
    using d2 d1(2) update_percentage_D [of d1 "percentage entry" b d2 o2]
    by (auto simp: step_def Soc_GetBatterySoc_def split: if_splits)
  moreover have "soc_ok (d2\<lparr>soc_context := c\<rparr>) = soc_ok d2" for c
    by (simp add: soc_ok_def soc_table_ok_def Soc_GetBatterySoc_def)
  moreover have "soc_HandleMessage d e b = res_bind (Inr step) (\<lambda>(d, out1).
      let (d, out2) =
             (if soc_context d \<noteq> appSocCurrentContext d
              then (d\<lparr>soc_context := appSocCurrentContext d\<rparr>, Soc_NotifyBatteryChanged d (appSocCurrentContext d))
              else (d, []))
       in Inr (d, out1 @ out2 @ [Ui_InformContextChange (appSocCurrentContext d)]))"
    unfolding soc_HandleMessage_def note_event_def [symmetric] d1(1) by (simp add: get step_def Let_def split_def)
  ultimately show ?thesis using d1(3,4) d2
    by (auto simp: Let_def Soc_GetBatterySoc_def)
qed

datatype soc_call =
    Handle soc_event bool
  | Register task u16
  | Unregister task
  | SetReportingLimits u8 u8

definition soc_step :: "soc_data \<Rightarrow> soc_call \<Rightarrow> (soc_data \<times> soc_output list) res" where
  "soc_step d c = (case c of
     Handle e b \<Rightarrow> soc_HandleMessage d e b
   | Register t h \<Rightarrow> Inr (Soc_Register d t h)
   | Unregister t \<Rightarrow> Inr (Soc_Unregister d t, [])
   | SetReportingLimits l h \<Rightarrow> Inr (Soc_SetReportingLimits d l h, []))"

definition soc_next :: "soc_data \<Rightarrow> soc_call \<Rightarrow> soc_data" where
  "soc_next d c = (case soc_step d c of Inr (d', _) \<Rightarrow> d' | Inl _ \<Rightarrow> d)"

definition soc_zero :: soc_data where
  "soc_zero = \<lparr>soc_config_table = [], soc_config_size = 0, state_of_charge = 0, save_battery_percent = 0,
     charger_connected = False, config_index = 0, low_battery_percent = 0, full_battery_percent = 0,
     client_list = [], soc_context = 0\<rparr>"

text \<open>The component as the headset starts it.\<close>

definition soc_start :: "u16 option \<Rightarrow> bool \<Rightarrow> soc_data" where
  "soc_start stored connected =
     fst (Soc_Init (Soc_SetConfigurationTable soc_zero (fst HeadsetSoC_GetConfigTable)
       (snd HeadsetSoC_GetConfigTable)) stored connected)"

lemma headset_table_facts:
  "length headset_soc_config_table = 101"
  "sorted (map voltage headset_soc_config_table)"
  "voltage (headset_soc_config_table ! 0) = appConfigBatteryVoltageCritical"
  "map percentage headset_soc_config_table = map word_of_nat [0..<101]"
  by (code_simp, code_simp, code_simp, code_simp)

lemma soc_start_ok: "soc_ok (soc_start stored connected)"
  by (simp add: soc_ok_def soc_start_def Soc_Init_def Let_def Soc_SetConfigurationTable_def
      HeadsetSoC_GetConfigTable_def soc_table_ok_def headset_table_facts)

lemma remove_client_subset: "set (remove_client t cs) \<subseteq> set cs"
  by (induction t cs rule: remove_client.induct) auto

lemma soc_step_ok:
  assumes "soc_ok d"
  shows "\<exists>d' out. soc_step d c = Inr (d', out) \<and> soc_ok d'"
proof (cases c)
  case (Handle e b)
  then show ?thesis using soc_message_ok [OF assms, of e b] by (auto simp: soc_step_def)
next
  case (Register t h)
  obtain d' out where s: "Soc_Register d t h = (d', out)" by (cases "Soc_Register d t h")
  with service_clients_frame [of "soc_ClientAdd d t h" d' out] assms Register show ?thesis
    by (auto simp: soc_step_def Soc_Register_def soc_ok_def soc_table_ok_def soc_ClientAdd_def Soc_GetBatterySoc_def)
next
  case (Unregister t)
  then show ?thesis using assms remove_client_subset [of t "client_list d"]
    by (auto simp: soc_step_def Soc_Unregister_def soc_ClientRemove_def soc_ok_def soc_table_ok_def
        Soc_GetBatterySoc_def)
next
  case (SetReportingLimits l h)
  then show ?thesis using assms
    by (auto simp: soc_step_def Soc_SetReportingLimits_def soc_ok_def soc_table_ok_def Soc_GetBatterySoc_def)
qed

interpretation soc: reactive "soc_start stored connected" soc_next soc_ok for stored connected
proof unfold_locales
  show "soc_ok (soc_start stored connected)" by (rule soc_start_ok)
next
  fix d c
  assume "soc_ok d"
  then show "soc_ok (soc_next d c)" using soc_step_ok [of d c] by (auto simp: soc_next_def)
qed

section \<open>Properties\<close>

text \<open>
  C25. The incremental search finds what a search from the start finds: from any position
  in an ascending table, \<open>soc_StateOfChargeUpdate\<close> moves to the position \<open>soc_getIndex\<close>
  computes from scratch, which is the last entry whose voltage the (clamped) battery
  voltage reaches.
\<close>

theorem soc_incremental_search:
  assumes "soc_table_ok d" and "unat (config_index d) < soc_config_size d"
  shows "\<exists>d' i. soc_StateOfChargeUpdate d v = Inr d' \<and> soc_getIndex d (clamp_voltage v) = Inr i
    \<and> unat (config_index d') = i \<and> soc_entry (soc_config_table d) (clamp_voltage v) i"
proof -
  obtain i where i: "soc_StateOfChargeUpdate d v = Inr (d\<lparr>config_index := word_of_nat i\<rparr>)"
      "soc_entry (soc_config_table d) (clamp_voltage v) i"
    using update_entry_index [OF assms] by blast
  obtain j where j: "soc_getIndex d (clamp_voltage v) = Inr j" "soc_entry (soc_config_table d) (clamp_voltage v) j"
    using get_index_entry [OF assms(1)] by blast
  have "j = i" using soc_entry_unique i(2) j(2) by blast
  then show ?thesis using i j entry_index_small [OF assms(1) i(2)] by simp
qed

theorem soc_incremental_search_witness:
  "\<exists>d' i. soc_StateOfChargeUpdate (soc_start None False) 3753 = Inr d'
    \<and> soc_getIndex (soc_start None False) (clamp_voltage 3753) = Inr i
    \<and> unat (config_index d') = i
    \<and> soc_entry (soc_config_table (soc_start None False)) (clamp_voltage 3753) i"
  by (rule soc_incremental_search) (use soc_start_ok [of None False] in \<open>simp_all add: soc_ok_def\<close>)

text \<open>
  C31. While the charger is not connected the reported charge does not rise: after any
  sequence of messages that does not attach the charger, whatever the voltages measured
  and whether or not the store was blocked, the percentage is at most what it was.
\<close>

theorem soc_discharge_falls:
  assumes "d = foldl soc_next (soc_start stored connected) calls" and "\<not> charger_connected d"
    and "\<forall>(e, b) \<in> set es. e \<noteq> CHARGER_MESSAGE_ATTACHED"
  shows "\<exists>d'. for_res (\<lambda>(e, b) d. res_bind (soc_HandleMessage d e b) (\<lambda>(d', _). Inr d')) es d = Inr d'
    \<and> Soc_GetBatterySoc d' \<le> Soc_GetBatterySoc d"
proof -
  have "soc_ok d" unfolding assms(1) by (rule soc.run_ok)
  then have "\<exists>d'. for_res (\<lambda>(e, b) d. res_bind (soc_HandleMessage d e b) (\<lambda>(d', _). Inr d')) es d = Inr d'
    \<and> (soc_ok d' \<and> \<not> charger_connected d' \<and> Soc_GetBatterySoc d' \<le> Soc_GetBatterySoc d)"
  proof (intro for_res_total)
    fix x u
    assume x: "x \<in> set es" and u: "soc_ok u \<and> \<not> charger_connected u \<and> Soc_GetBatterySoc u \<le> Soc_GetBatterySoc d"
    obtain e b where eb: "x = (e, b)" by (cases x)
    then have "e \<noteq> CHARGER_MESSAGE_ATTACHED" using assms(3) x by auto
    moreover obtain t out where t: "soc_HandleMessage u e b = Inr (t, out)" "soc_ok t"
        "charger_connected t = (if e = CHARGER_MESSAGE_ATTACHED then True
           else if e = CHARGER_MESSAGE_DETACHED then False else charger_connected u)"
        "\<not> charger_connected t \<longrightarrow> Soc_GetBatterySoc t \<le> Soc_GetBatterySoc u"
      using soc_message_ok [of u e b] u by blast
    ultimately have "\<not> charger_connected t" "Soc_GetBatterySoc t \<le> Soc_GetBatterySoc d" using u by (auto split: if_splits)
    with t(1,2) eb show "\<exists>t. (case x of (e, b) \<Rightarrow> \<lambda>d. res_bind (soc_HandleMessage d e b) (\<lambda>(d', _). Inr d')) u = Inr t
      \<and> (soc_ok t \<and> \<not> charger_connected t \<and> Soc_GetBatterySoc t \<le> Soc_GetBatterySoc d)"
      by simp
  qed (use assms(2) in simp)
  then show ?thesis by blast
qed

theorem soc_discharge_falls_witness:
  "\<exists>d'. for_res (\<lambda>(e, b) d. res_bind (soc_HandleMessage d e b) (\<lambda>(d', _). Inr d'))
      [(MESSAGE_BATTERY_LEVEL_UPDATE_VOLTAGE 3700, False), (MESSAGE_BATTERY_LEVEL_UPDATE_VOLTAGE 4000, False)]
      (soc_start None False) = Inr d'
    \<and> Soc_GetBatterySoc d' \<le> Soc_GetBatterySoc (soc_start None False)"
  by (rule soc_discharge_falls [of _ None False "[]"])
    (simp_all add: soc_start_def Soc_Init_def Let_def)


lemma headset_percentage:
  assumes "i < 101"
  shows "percentage (headset_soc_config_table ! i) = word_of_nat i"
proof -
  have "map percentage headset_soc_config_table ! i = map word_of_nat [0..<101] ! i"
    by (simp only: headset_table_facts(4))
  then show ?thesis using assms by (simp add: headset_table_facts(1))
qed

text \<open>
  The headset's table: for every voltage \<open>Soc_ConvertLevelToPercentage\<close> returns a
  percentage of at most 100, and a higher voltage never gives a lower percentage.
\<close>

theorem soc_headset_monotone:
  assumes "v \<le> v'" and "d = soc_start stored connected"
  shows "\<exists>p p'. Soc_ConvertLevelToPercentage d v = Inr p \<and> Soc_ConvertLevelToPercentage d v' = Inr p'
    \<and> p \<le> p' \<and> p' \<le> 100"
proof -
  have tab: "soc_config_table d = headset_soc_config_table" and ok: "soc_table_ok d"
    using soc_start_ok [of stored connected] assms(2)
    by (auto simp: soc_ok_def soc_start_def Soc_Init_def Let_def Soc_SetConfigurationTable_def HeadsetSoC_GetConfigTable_def)
  obtain i j where ij: "soc_getIndex d (clamp_voltage v) = Inr i" "soc_entry headset_soc_config_table (clamp_voltage v) i"
      "soc_getIndex d (clamp_voltage v') = Inr j" "soc_entry headset_soc_config_table (clamp_voltage v') j"
    using get_index_entry [OF ok] tab by metis
  have len: "i < 101" "j < 101" using ij by (auto simp: soc_entry_def headset_table_facts(1))
  have "clamp_voltage v \<le> clamp_voltage v'"
    using assms(1) by (auto simp: clamp_voltage_def appConfigBatteryVoltageCritical_def appConfigBatteryFullyCharged_def)
  then have "i \<le> j" using ij(2,4) unfolding soc_entry_def by (metis linorder_not_less order_trans)
  then have "(word_of_nat i :: u8) \<le> word_of_nat j \<and> (word_of_nat j :: u8) \<le> 100"
    using len by (simp add: word_le_nat_alt unat_of_nat_small)
  then show ?thesis using ij(1,3) len
    by (simp add: Soc_ConvertLevelToPercentage_def tab headset_table_facts(1) headset_percentage)
qed

theorem soc_headset_monotone_witness:
  "\<exists>p p'. Soc_ConvertLevelToPercentage (soc_start None False) 3600 = Inr p
    \<and> Soc_ConvertLevelToPercentage (soc_start None False) 4100 = Inr p' \<and> p \<le> p' \<and> p' \<le> 100"
  by (rule soc_headset_monotone [of _ _ _ None False]) simp_all

end
