(* ===== verification/Battery_Region.thy ===== *)
theory Battery_Region
  imports Task_List
begin

text \<open>
  The battery operating regions (\<^verbatim>\<open>adk/src/domains/power/battery_region/battery_region.c\<close> with the
  headset's tables in \<^verbatim>\<open>headset/src/headset_region_config.c\<close>), in the configuration the headset
  is built with: which charging current the battery voltage and temperature allow. Clients
  are kept in a task list. The averages measured and the state of the charger are
  parameters, calls to the charger and to the handlers are outputs.
\<close>

section \<open>Model\<close>

text \<open>Signed octets and half-words are words read by \<open>sint\<close>.\<close>

type_synonym i8 = "8 word"

datatype charger_region_type = NORMAL_REGION | CRITICAL_REGION | SAFETY_REGION

datatype battery_region_state = battery_region_unknown | battery_region_unsafe | battery_region_critical
  | battery_region_ok

datatype charge_mode = DISCHARGE_MODE | CHARGE_MODE

record charge_region =
  current :: u16
  voltage_min :: u16
  voltage_max :: u16
  voltage_hysteresis :: u8
  temp_min :: i8
  temp_max :: i8
  temp_hysteresis :: u8
  region_type :: charger_region_type
  charging_timer :: u16

text \<open>A table is an array at an address; address 0 is \<open>NULL\<close>.\<close>

type_synonym region_table_ptr = "nat \<times> charge_region list"

record battery_region_handlers =
  has_safety_handler :: bool
  has_charging_timeout_handler :: bool
  has_transition_handler :: bool

record battery_region_data =
  charge_table :: region_table_ptr
  charge_table_len :: nat
  discharge_table :: region_table_ptr
  discharge_table_len :: nat
  handler_funcs :: "battery_region_handlers option"
  charging_timer_timeout :: bool
  client_tasks_list :: task_list
  period :: u16
  region_table :: region_table_ptr
  region_table_len :: u8
  region :: u8
  region_state :: battery_region_state
  timers :: "nat list"

text \<open>\<open>timers\<close> are the charging timer messages that are pending, by their delay in minutes.\<close>

datatype region_output =
    Charger_UpdateCurrent
  | TransitionHandler u8 u8
  | SafetyHandler u8 u8
  | ChargingTimeoutHandler
  | ChargerDisableTimeout bool
  | ScheduleUpdate nat
  | ClientSend "battery_region_state task_list_send"
  | ChargingCompleteHandle
  | ChargerClientRegister

definition BATTERY_REGION_UNDEFINED :: u8 where "BATTERY_REGION_UNDEFINED = 0xFF"
definition APP_CHARGING_REGION_ID :: nat where "APP_CHARGING_REGION_ID = 3"
definition MESSAGE_BATTERY_REGION_UPDATE :: message_id where "MESSAGE_BATTERY_REGION_UPDATE = 1"

definition batteryRegion_ScheduleNextRegionUpdate :: "nat \<Rightarrow> region_output list" where
  "batteryRegion_ScheduleNextRegionUpdate delay = [ScheduleUpdate delay]"

definition batteryRegion_ServiceClients :: "battery_region_data \<Rightarrow> region_output list res" where
  "batteryRegion_ServiceClients d =
     (if TaskList_Size (Some (client_tasks_list d)) \<noteq> 0 then
        res_bind (TaskList_MessageSend (client_tasks_list d) MESSAGE_BATTERY_REGION_UPDATE
            (Some (region_state d)) 4) (\<lambda>sends. Inr (map ClientSend sends))
      else Inr [])"

text \<open>
  The limits widened by the hysteresis; the lower limit of the voltage is kept in a signed
  half-word, and everything wraps at its width.
\<close>

definition in_limits :: "charge_region \<Rightarrow> u16 \<Rightarrow> i8 \<Rightarrow> bool \<Rightarrow> bool" where
  "in_limits r v t apply_hysteresis =
     (let vmin = (if apply_hysteresis then voltage_min r - ucast (voltage_hysteresis r) else voltage_min r);
          vmax = (if apply_hysteresis then voltage_max r + ucast (voltage_hysteresis r) else voltage_max r);
          tmin = (if apply_hysteresis then temp_min r - temp_hysteresis r else temp_min r);
          tmax = (if apply_hysteresis then temp_max r + temp_hysteresis r else temp_max r)
      in (uint v \<ge> sint vmin \<and> v \<le> vmax) \<and> (sint t \<ge> sint tmin \<and> sint t \<le> sint tmax))"

definition batteryRegion_VolTempInRegion ::
  "battery_region_data \<Rightarrow> u8 \<Rightarrow> u16 \<Rightarrow> i8 \<Rightarrow> bool \<Rightarrow> bool res" where
  "batteryRegion_VolTempInRegion d r v t apply_hysteresis =
     (if r = BATTERY_REGION_UNDEFINED then Inr False
      else res_bind (array_get (snd (region_table d)) (unat r)) (\<lambda>limits. Inr (in_limits limits v t apply_hysteresis)))"

text \<open>Choosing the table for the mode; a change of table leaves no region.\<close>

definition select_table :: "battery_region_data \<Rightarrow> bool \<Rightarrow> battery_region_data" where
  "select_table d is_connected =
     (let table = (if is_connected then charge_table d else discharge_table d);
          len = (if is_connected then charge_table_len d else discharge_table_len d)
      in if fst (region_table d) \<noteq> fst table
         then d\<lparr>region := BATTERY_REGION_UNDEFINED, region_table := table, region_table_len := word_of_nat len\<rparr>
         else d)"

text \<open>Entering a region.\<close>

definition enter_region ::
  "battery_region_data \<Rightarrow> u8 \<Rightarrow> bool \<Rightarrow> (battery_region_data \<times> region_output list) res" where
  "enter_region d i is_connected =
     res_bind (array_get (snd (region_table d)) (unat i)) (\<lambda>new_region.
       let prev_region = region d;
           st = (case region_type new_region of CRITICAL_REGION \<Rightarrow> battery_region_critical
                 | SAFETY_REGION \<Rightarrow> battery_region_unsafe | NORMAL_REGION \<Rightarrow> battery_region_ok);
           tm = (if current new_region \<noteq> 0 \<and> charging_timer new_region \<noteq> 0
                 then [unat (charging_timer new_region)] else []);
           d = d\<lparr>region := i, region_state := st, timers := tm\<rparr>
       in case handler_funcs d of None \<Rightarrow> Inl BadAccess
          | Some h \<Rightarrow>
              res_bind (batteryRegion_ServiceClients d) (\<lambda>sends.
                Inr (d, [Charger_UpdateCurrent]
                  @ (if has_transition_handler h then [TransitionHandler prev_region i] else [])
                  @ (if st = battery_region_unsafe \<and> has_safety_handler h then [SafetyHandler prev_region i] else [])
                  @ sends
                  @ (if is_connected \<and> unat i < APP_CHARGING_REGION_ID then [ChargingCompleteHandle] else []))))"

fun region_loop ::
  "battery_region_data \<Rightarrow> u16 \<Rightarrow> i8 \<Rightarrow> bool \<Rightarrow> nat \<Rightarrow> nat \<Rightarrow> (battery_region_data \<times> region_output list) res" where
  "region_loop d v t is_connected i 0 = Inr (d, [])"
| "region_loop d v t is_connected i (Suc n) =
     res_bind (batteryRegion_VolTempInRegion d (word_of_nat i) v t False) (\<lambda>inside.
       if inside then enter_region d (word_of_nat i) is_connected
       else region_loop d v t is_connected (Suc i) n)"

definition batteryRegion_UpdateRegion ::
  "battery_region_data \<Rightarrow> u16 \<Rightarrow> i8 \<Rightarrow> bool \<Rightarrow> (battery_region_data \<times> region_output list) res" where
  "batteryRegion_UpdateRegion d v t is_connected =
     (let d = select_table d is_connected in
      res_bind (batteryRegion_VolTempInRegion d (region d) v t True) (\<lambda>same.
        if same then Inr (d, [])
        else region_loop d v t is_connected 0 (unat (region_table_len d))))"

datatype region_event =
    INTERNAL_CHARGING_TIMER
  | INTERNAL_UPDATE_TRIGGER u16 i8 bool
  | CHARGER_MESSAGE_DETACHED
  | OtherMessage

definition batteryRegion_HandleMessage ::
  "battery_region_data \<Rightarrow> region_event \<Rightarrow> (battery_region_data \<times> region_output list) res" where
  "batteryRegion_HandleMessage d e = (case e of
     INTERNAL_CHARGING_TIMER \<Rightarrow>
       (case handler_funcs d of None \<Rightarrow> Inl BadAccess
        | Some h \<Rightarrow> Inr (d\<lparr>charging_timer_timeout := True, timers := tl (timers d)\<rparr>,
            (if has_charging_timeout_handler h then [ChargingTimeoutHandler] else []) @ [ChargerDisableTimeout True]))
   | INTERNAL_UPDATE_TRIGGER v t is_connected \<Rightarrow>
       res_bind (batteryRegion_UpdateRegion d v t is_connected) (\<lambda>(d, out).
         Inr (d, out @ batteryRegion_ScheduleNextRegionUpdate (unat (period d))))
   | CHARGER_MESSAGE_DETACHED \<Rightarrow>
       Inr (d\<lparr>timers := [], charging_timer_timeout := False\<rparr>, [ChargerDisableTimeout False])
   | OtherMessage \<Rightarrow> Inr (d, []))"

definition BatteryRegion_Init :: "battery_region_data \<Rightarrow> (battery_region_data \<times> region_output list) res" where
  "BatteryRegion_Init d =
     res_bind (TaskList_InitialiseWithCapacity 5) (\<lambda>l.
       Inr (d\<lparr>client_tasks_list := l, period := 1000, region_table := (0, []), region_table_len := 0,
              region := BATTERY_REGION_UNDEFINED, region_state := battery_region_unknown\<rparr>,
            ChargerClientRegister # batteryRegion_ScheduleNextRegionUpdate 0))"

definition BatteryRegion_SetChargeRegionConfigTable ::
  "battery_region_data \<Rightarrow> charge_mode \<Rightarrow> region_table_ptr \<Rightarrow> nat \<Rightarrow> battery_region_data" where
  "BatteryRegion_SetChargeRegionConfigTable d mode table len =
     (if mode = CHARGE_MODE then d\<lparr>charge_table := table, charge_table_len := len\<rparr>
      else d\<lparr>discharge_table := table, discharge_table_len := len\<rparr>)"

definition BatteryRegion_SetHandlerStructure ::
  "battery_region_data \<Rightarrow> battery_region_handlers option \<Rightarrow> battery_region_data" where
  "BatteryRegion_SetHandlerStructure d h = d\<lparr>handler_funcs := h\<rparr>"

definition BatteryRegion_Register :: "battery_region_data \<Rightarrow> task \<Rightarrow> (battery_region_data \<times> bool) res" where
  "BatteryRegion_Register d t =
     res_bind (TaskList_AddTask (Some (client_tasks_list d)) t) (\<lambda>(l, added).
       Inr (d\<lparr>client_tasks_list := l\<rparr>, added))"

definition BatteryRegion_Unregister :: "battery_region_data \<Rightarrow> task \<Rightarrow> battery_region_data res" where
  "BatteryRegion_Unregister d t =
     res_bind (TaskList_RemoveTask (Some (client_tasks_list d)) t) (\<lambda>(l, _). Inr (d\<lparr>client_tasks_list := l\<rparr>))"

definition BatteryRegion_GetState :: "battery_region_data \<Rightarrow> battery_region_state" where
  "BatteryRegion_GetState d = region_state d"

definition BatteryRegion_GetCurrent :: "battery_region_data \<Rightarrow> u16 res" where
  "BatteryRegion_GetCurrent d =
     (if region d = BATTERY_REGION_UNDEFINED \<or> region_state d = battery_region_unknown then Inr 0
      else res_bind (array_get (snd (region_table d)) (unat (region d))) (\<lambda>r. Inr (current r)))"

section \<open>The headset's tables\<close>

definition mk_region ::
  "u16 \<Rightarrow> u16 \<Rightarrow> u16 \<Rightarrow> u8 \<Rightarrow> int \<Rightarrow> int \<Rightarrow> u8 \<Rightarrow> charger_region_type \<Rightarrow> u16 \<Rightarrow> charge_region" where
  "mk_region c vmin vmax vh tmin tmax th ty tm =
     \<lparr>current = c, voltage_min = vmin, voltage_max = vmax, voltage_hysteresis = vh,
      temp_min = word_of_int tmin, temp_max = word_of_int tmax, temp_hysteresis = th,
      region_type = ty, charging_timer = tm\<rparr>"

definition Vpre :: u16 where "Vpre = 2100"
definition Vfast :: u16 where "Vfast = 3000"
definition Vcrit :: u16 where "Vcrit = 3300"
definition Vfloat :: u16 where "Vfloat = 4200"
definition CHARGING_TIMER_TIMEOUT :: u16 where "CHARGING_TIMER_TIMEOUT = 509"

text \<open>The fast, pre-charge and trickle currents are build parameters.\<close>

definition headset_charge_mode_config_table :: "u16 \<Rightarrow> u16 \<Rightarrow> u16 \<Rightarrow> charge_region list" where
  "headset_charge_mode_config_table FAST PRE TRICKLE = [
     mk_region 0 Vfloat 4350 100 (-40) 0 1 NORMAL_REGION 0,
     mk_region 0 Vfloat 4350 100 0 45 1 NORMAL_REGION 0,
     mk_region 0 Vfloat 4350 100 45 85 1 NORMAL_REGION 0,
     mk_region 0 3600 Vfloat 10 (-40) 0 0 NORMAL_REGION 0,
     mk_region 70 3600 Vfloat 10 1 14 0 NORMAL_REGION CHARGING_TIMER_TIMEOUT,
     mk_region FAST 3600 Vfloat 10 15 45 0 NORMAL_REGION CHARGING_TIMER_TIMEOUT,
     mk_region 0 3600 Vfloat 10 46 85 0 NORMAL_REGION 0,
     mk_region 0 Vcrit 3600 10 (-40) 0 0 NORMAL_REGION 0,
     mk_region 70 Vcrit 3600 10 1 14 0 NORMAL_REGION CHARGING_TIMER_TIMEOUT,
     mk_region FAST Vcrit 3600 10 15 45 0 NORMAL_REGION CHARGING_TIMER_TIMEOUT,
     mk_region 0 Vcrit 3600 10 46 85 0 NORMAL_REGION 0,
     mk_region 0 Vfast Vcrit 10 (-40) 0 0 CRITICAL_REGION 0,
     mk_region 70 Vfast Vcrit 10 1 14 0 CRITICAL_REGION 0,
     mk_region FAST Vfast Vcrit 10 15 45 0 CRITICAL_REGION 0,
     mk_region 0 Vfast Vcrit 10 46 85 0 CRITICAL_REGION 0,
     mk_region 0 Vpre Vfast 10 (-40) 0 1 CRITICAL_REGION 0,
     mk_region PRE Vpre Vfast 10 0 45 1 CRITICAL_REGION 0,
     mk_region 0 Vpre Vfast 10 45 85 1 CRITICAL_REGION 0,
     mk_region 0 0 Vpre 10 (-40) 0 1 CRITICAL_REGION 0,
     mk_region TRICKLE 0 Vpre 10 0 45 1 CRITICAL_REGION 0,
     mk_region 0 0 Vpre 10 45 85 1 CRITICAL_REGION 0]"

definition headset_discharge_mode_config_table :: "charge_region list" where
  "headset_discharge_mode_config_table = [
     mk_region 0 4200 4350 100 (-40) (-20) 1 NORMAL_REGION 0,
     mk_region 0 4200 4350 100 (-20) 60 1 NORMAL_REGION 0,
     mk_region 0 4200 4350 100 60 85 1 NORMAL_REGION 0,
     mk_region 0 3300 4200 50 (-40) (-20) 1 NORMAL_REGION 0,
     mk_region 0 3300 4200 50 (-20) 60 1 NORMAL_REGION 0,
     mk_region 0 3300 4200 50 60 85 1 NORMAL_REGION 0,
     mk_region 0 3000 3300 50 (-40) (-20) 1 CRITICAL_REGION 0,
     mk_region 0 3000 3300 50 (-20) 60 1 CRITICAL_REGION 0,
     mk_region 0 3000 3300 50 60 85 1 CRITICAL_REGION 0,
     mk_region 0 0 3000 50 (-40) (-20) 1 SAFETY_REGION 0,
     mk_region 0 0 3000 50 (-20) 60 1 SAFETY_REGION 0,
     mk_region 0 0 3000 50 60 85 1 SAFETY_REGION 0]"

definition headset_region_handlers :: battery_region_handlers where
  "headset_region_handlers = \<lparr>has_safety_handler = False, has_charging_timeout_handler = False,
     has_transition_handler = False\<rparr>"

section \<open>The tables\<close>

lemma in_limits_mk:
  "in_limits (mk_region c vmin vmax vh tmin tmax th ty tm) v t False \<longleftrightarrow>
     sint vmin \<le> uint v \<and> uint v \<le> uint vmax
     \<and> sint (word_of_int tmin :: i8) \<le> sint t \<and> sint t \<le> sint (word_of_int tmax :: i8)"
  by (simp add: in_limits_def mk_region_def word_le_def)

text \<open>The rows of the charge table for one band of voltages cover every temperature.\<close>

abbreviation table_band :: "u16 \<Rightarrow> u16 \<Rightarrow> u16 \<Rightarrow> nat \<Rightarrow> nat \<Rightarrow> charge_region list" where
  "table_band FAST PRE TRICKLE i n \<equiv> take n (drop i (headset_charge_mode_config_table FAST PRE TRICKLE))"

lemma band_covers:
  assumes "\<exists>r \<in> set (table_band FAST PRE TRICKLE i n). P r"
  shows "\<exists>r \<in> set (headset_charge_mode_config_table FAST PRE TRICKLE). P r"
  using assms by (meson in_set_dropD in_set_takeD)

lemma charge_table_covers:
  assumes "uint v \<le> 4350" and "- 40 \<le> sint t" and "sint t \<le> 85"
  shows "\<exists>r \<in> set (headset_charge_mode_config_table FAST PRE TRICKLE). in_limits r v t False"
proof -
  note defs = headset_charge_mode_config_table_def Vpre_def Vfast_def Vcrit_def Vfloat_def in_limits_mk
  consider "uint v \<le> 2100" | "2100 \<le> uint v" "uint v \<le> 3000" | "3000 \<le> uint v" "uint v \<le> 3300"
    | "3300 \<le> uint v" "uint v \<le> 3600" | "3600 \<le> uint v" "uint v \<le> 4200" | "4200 \<le> uint v"
    by linarith
  then show ?thesis
  proof cases
    case 1
    show ?thesis by (rule band_covers [where i = 18 and n = 3]) (use assms 1 in \<open>simp add: defs, arith\<close>)
  next
    case 2
    show ?thesis by (rule band_covers [where i = 15 and n = 3]) (use assms 2 in \<open>simp add: defs, arith\<close>)
  next
    case 3
    show ?thesis by (rule band_covers [where i = 11 and n = 4]) (use assms 3 in \<open>simp add: defs, arith\<close>)
  next
    case 4
    show ?thesis by (rule band_covers [where i = 7 and n = 4]) (use assms 4 in \<open>simp add: defs, arith\<close>)
  next
    case 5
    show ?thesis by (rule band_covers [where i = 3 and n = 4]) (use assms 5 in \<open>simp add: defs, arith\<close>)
  next
    case 6
    show ?thesis by (rule band_covers [where i = 0 and n = 3]) (use assms 6 in \<open>simp add: defs, arith\<close>)
  qed
qed

text \<open>Only the regions between freezing and 45 degrees have a charging current.\<close>

lemma charge_table_hot:
  assumes "r \<in> set (headset_charge_mode_config_table FAST PRE TRICKLE)" and "in_limits r v t h"
    and "sint t < - 1 \<or> 46 < sint t"
  shows "current r = 0"
proof -
  have "list_all (\<lambda>r. current r = 0 \<or>
      - 1 \<le> sint (temp_min r - temp_hysteresis r) \<and> sint (temp_max r + temp_hysteresis r) \<le> 46
      \<and> - 1 \<le> sint (temp_min r) \<and> sint (temp_max r) \<le> 46)
    (headset_charge_mode_config_table FAST PRE TRICKLE)"
    by (simp add: headset_charge_mode_config_table_def mk_region_def)
  then have "current r = 0 \<or>
      - 1 \<le> sint (temp_min r - temp_hysteresis r) \<and> sint (temp_max r + temp_hysteresis r) \<le> 46
      \<and> - 1 \<le> sint (temp_min r) \<and> sint (temp_max r) \<le> 46"
    using assms(1) by (auto simp: list_all_iff)
  then show ?thesis using assms(2,3) by (auto simp: in_limits_def Let_def split: if_splits)
qed

section \<open>The invariant\<close>

definition state_of_type :: "charger_region_type \<Rightarrow> battery_region_state" where
  "state_of_type ty = (case ty of CRITICAL_REGION \<Rightarrow> battery_region_critical
     | SAFETY_REGION \<Rightarrow> battery_region_unsafe | NORMAL_REGION \<Rightarrow> battery_region_ok)"

text \<open>The tables the component was given: different arrays of fewer than 255 regions.\<close>

definition tables_ok :: "battery_region_data \<Rightarrow> bool" where
  "tables_ok d \<longleftrightarrow> handler_funcs d \<noteq> None \<and> tl_ok (client_tasks_list d)
     \<and> fst (charge_table d) \<noteq> fst (discharge_table d)
     \<and> charge_table_len d = length (snd (charge_table d)) \<and> charge_table_len d < 255
     \<and> discharge_table_len d = length (snd (discharge_table d)) \<and> discharge_table_len d < 255
     \<and> fst (charge_table d) \<noteq> 0 \<and> fst (discharge_table d) \<noteq> 0"

text \<open>
  The table in use is one of them or none yet, and a region that is set is a region of that
  table whose type the state reports.
\<close>

definition br_ok :: "battery_region_data \<Rightarrow> bool" where
  "br_ok d \<longleftrightarrow> tables_ok d
     \<and> region_table d \<in> {(0, []), charge_table d, discharge_table d}
     \<and> unat (region_table_len d) = length (snd (region_table d))
     \<and> (region d = BATTERY_REGION_UNDEFINED
        \<or> unat (region d) < length (snd (region_table d))
          \<and> region_state d = state_of_type (region_type (snd (region_table d) ! unat (region d))))"

definition mode_table :: "battery_region_data \<Rightarrow> bool \<Rightarrow> charge_region list" where
  "mode_table d is_connected = snd (if is_connected then charge_table d else discharge_table d)"

lemma u8_255: "n < 255 \<Longrightarrow> (word_of_nat n :: u8) \<noteq> BATTERY_REGION_UNDEFINED"
proof
  assume "n < 255" and eq: "(word_of_nat n :: u8) = BATTERY_REGION_UNDEFINED"
  then have "unat (word_of_nat n :: u8) = n" by (intro unat_of_nat_small) simp
  then show False using \<open>n < 255\<close> eq by (simp add: BATTERY_REGION_UNDEFINED_def)
qed

lemma select_table_ok:
  assumes "br_ok d"
  shows "br_ok (select_table d c)" and "snd (region_table (select_table d c)) = mode_table d c"
    and "mode_table (select_table d c) c = mode_table d c" and "length (mode_table d c) < 255"
  using assms
  by (cases c; auto simp: br_ok_def tables_ok_def select_table_def mode_table_def Let_def unat_of_nat_small)+

lemma service_clients_ok:
  "tl_ok (client_tasks_list d) \<Longrightarrow> \<exists>sends. batteryRegion_ServiceClients d = Inr sends"
  by (simp add: batteryRegion_ServiceClients_def MessageSend_ok)

lemma enter_region_ok:
  assumes "br_ok d" and "i < length (snd (region_table d))"
  shows "\<exists>d' out. enter_region d (word_of_nat i) c = Inr (d', out) \<and> br_ok d'
    \<and> region d' = word_of_nat i \<and> region_table d' = region_table d
    \<and> region_state d' = state_of_type (region_type (snd (region_table d) ! i))
    \<and> charge_table d' = charge_table d \<and> discharge_table d' = discharge_table d"
proof -
  have i: "unat (word_of_nat i :: u8) = i"
    using assms by (intro unat_of_nat_small) (auto simp: br_ok_def tables_ok_def)
  obtain h where h: "handler_funcs d = Some h" using assms(1) by (auto simp: br_ok_def tables_ok_def)
  let ?r = "snd (region_table d) ! i"
  define d1 where "d1 = d\<lparr>region := word_of_nat i, region_state := state_of_type (region_type ?r),
      timers := (if current ?r \<noteq> 0 \<and> charging_timer ?r \<noteq> 0 then [unat (charging_timer ?r)] else [])\<rparr>"
  have "tl_ok (client_tasks_list d1)" using assms(1) by (simp add: d1_def br_ok_def tables_ok_def)
  then obtain sends where "batteryRegion_ServiceClients d1 = Inr sends" using service_clients_ok by blast
  then have "\<exists>out. enter_region d (word_of_nat i) c = Inr (d1, out)"
    using assms(2) i h by (simp add: enter_region_def Let_def d1_def state_of_type_def)
  moreover have "br_ok d1" using assms i by (auto simp: d1_def br_ok_def tables_ok_def)
  ultimately show ?thesis by (auto simp: d1_def)
qed

text \<open>The loop enters the first region that holds the reading, or changes nothing.\<close>

lemma region_loop_result:
  assumes "br_ok d" and "i + n = length (snd (region_table d))"
    and "\<forall>k < i. \<not> in_limits (snd (region_table d) ! k) v t False"
  shows "\<exists>d' out. region_loop d v t c i n = Inr (d', out) \<and> br_ok d' \<and> region_table d' = region_table d
    \<and> charge_table d' = charge_table d \<and> discharge_table d' = discharge_table d
    \<and> (unat (region d') < length (snd (region_table d)) \<and> region d' \<noteq> BATTERY_REGION_UNDEFINED
         \<and> in_limits (snd (region_table d) ! unat (region d')) v t False
       \<or> d' = d \<and> out = [] \<and> (\<forall>r \<in> set (snd (region_table d)). \<not> in_limits r v t False))"
  using assms(2,3)
proof (induction n arbitrary: i)
  case 0
  then show ?case using assms(1) by (auto simp: in_set_conv_nth)
next
  case (Suc n)
  let ?t = "snd (region_table d)"
  have len: "length ?t < 255" using assms(1) by (auto simp: br_ok_def tables_ok_def)
  have i: "i < length ?t" using Suc.prems(1) by simp
  then have wi: "unat (word_of_nat i :: u8) = i" "(word_of_nat i :: u8) \<noteq> BATTERY_REGION_UNDEFINED"
    using len u8_255 by (auto intro: unat_of_nat_small)
  have test: "batteryRegion_VolTempInRegion d (word_of_nat i) v t False = Inr (in_limits (?t ! i) v t False)"
    using i wi by (simp add: batteryRegion_VolTempInRegion_def)
  show ?case
  proof (cases "in_limits (?t ! i) v t False")
    case True
    then show ?thesis using enter_region_ok [OF assms(1) i, of c] test wi i by auto
  next
    case False
    then have "\<forall>k < Suc i. \<not> in_limits (?t ! k) v t False" using Suc.prems(2) by (auto simp: less_Suc_eq)
    from Suc.IH [OF _ this] Suc.prems(1) test False show ?thesis by simp
  qed
qed

text \<open>
  After an update the region holds the reading, widened by the hysteresis if the region did
  not change; or no region of the table holds it and nothing changed but the table.
\<close>

lemma update_region_result:
  assumes "br_ok d"
  shows "\<exists>d' out. batteryRegion_UpdateRegion d v t c = Inr (d', out) \<and> br_ok d'
    \<and> charge_table d' = charge_table d \<and> discharge_table d' = discharge_table d
    \<and> snd (region_table d') = mode_table d c
    \<and> (\<exists>h. unat (region d') < length (mode_table d c) \<and> region d' \<noteq> BATTERY_REGION_UNDEFINED
           \<and> in_limits (mode_table d c ! unat (region d')) v t h
       \<or> d' = select_table d c \<and> out = [] \<and> (\<forall>r \<in> set (mode_table d c). \<not> in_limits r v t False))"
proof -
  let ?d = "select_table d c"
  note sel = select_table_ok [OF assms, of c]
  have frame: "charge_table ?d = charge_table d" "discharge_table ?d = discharge_table d"
    by (simp_all add: select_table_def Let_def)
  define same where "same = (region ?d \<noteq> BATTERY_REGION_UNDEFINED
      \<and> in_limits (mode_table d c ! unat (region ?d)) v t True)"
  have bound: "unat (region ?d) < length (mode_table d c)" if "region ?d \<noteq> BATTERY_REGION_UNDEFINED"
    using sel(1,2) that by (simp add: br_ok_def)
  then have same: "batteryRegion_VolTempInRegion ?d (region ?d) v t True = Inr same"
    using sel(2) by (simp add: batteryRegion_VolTempInRegion_def same_def)
  show ?thesis
  proof (cases same)
    case True
    then have "batteryRegion_UpdateRegion d v t c = Inr (?d, [])"
      using same by (simp add: batteryRegion_UpdateRegion_def Let_def)
    moreover have "unat (region ?d) < length (mode_table d c) \<and> region ?d \<noteq> BATTERY_REGION_UNDEFINED
        \<and> in_limits (mode_table d c ! unat (region ?d)) v t True"
      using True bound by (simp add: same_def)
    ultimately show ?thesis using sel frame by blast
  next
    case False
    have len: "0 + unat (region_table_len ?d) = length (snd (region_table ?d))" using sel(1) by (simp add: br_ok_def)
    obtain d' out where d': "region_loop ?d v t c 0 (unat (region_table_len ?d)) = Inr (d', out)" "br_ok d'"
        "region_table d' = region_table ?d" "charge_table d' = charge_table ?d" "discharge_table d' = discharge_table ?d"
        "unat (region d') < length (snd (region_table ?d)) \<and> region d' \<noteq> BATTERY_REGION_UNDEFINED
           \<and> in_limits (snd (region_table ?d) ! unat (region d')) v t False
         \<or> d' = ?d \<and> out = [] \<and> (\<forall>r \<in> set (snd (region_table ?d)). \<not> in_limits r v t False)"
      using region_loop_result [OF sel(1) len, of v t c] by auto
    have "batteryRegion_UpdateRegion d v t c = Inr (d', out)"
      using same False d'(1) by (simp add: batteryRegion_UpdateRegion_def Let_def)
    with d' sel frame show ?thesis by auto
  qed
qed

section \<open>The component as a state machine\<close>

datatype region_call =
    HandleMessage region_event
  | RegisterClient task
  | UnregisterClient task

definition region_step :: "battery_region_data \<Rightarrow> region_call \<Rightarrow> (battery_region_data \<times> region_output list) res" where
  "region_step d x = (case x of
     HandleMessage e \<Rightarrow> batteryRegion_HandleMessage d e
   | RegisterClient t \<Rightarrow> res_bind (BatteryRegion_Register d t) (\<lambda>(d', _). Inr (d', []))
   | UnregisterClient t \<Rightarrow> res_bind (BatteryRegion_Unregister d t) (\<lambda>d'. Inr (d', [])))"

text \<open>
  A registration of no task or of more than 15 tasks is one the clients do not make.
\<close>

definition region_next :: "battery_region_data \<Rightarrow> region_call \<Rightarrow> battery_region_data" where
  "region_next d x = (if (case x of RegisterClient t \<Rightarrow> t \<noteq> 0 \<and> length (tasks (client_tasks_list d)) < 15
       | UnregisterClient t \<Rightarrow> t \<noteq> 0 | _ \<Rightarrow> True)
     then (case region_step d x of Inr (d', _) \<Rightarrow> d' | Inl _ \<Rightarrow> d) else d)"

definition region_zero :: battery_region_data where
  "region_zero = \<lparr>charge_table = (0, []), charge_table_len = 0, discharge_table = (0, []), discharge_table_len = 0,
     handler_funcs = None, charging_timer_timeout = False, client_tasks_list = example_list, period = 0,
     region_table = (0, []), region_table_len = 0, region = 0, region_state = battery_region_unknown, timers = []\<rparr>"

text \<open>The component as the headset starts it: the two tables, the handlers, then \<open>BatteryRegion_Init\<close>.\<close>

definition region_start :: "u16 \<Rightarrow> u16 \<Rightarrow> u16 \<Rightarrow> battery_region_data" where
  "region_start FAST PRE TRICKLE =
     (let d = BatteryRegion_SetChargeRegionConfigTable region_zero CHARGE_MODE
                (1, headset_charge_mode_config_table FAST PRE TRICKLE) 21;
          d = BatteryRegion_SetChargeRegionConfigTable d DISCHARGE_MODE (2, headset_discharge_mode_config_table) 12;
          d = BatteryRegion_SetHandlerStructure d (Some headset_region_handlers)
      in fst (projr (BatteryRegion_Init d)))"

lemma initialised_list_ok:
  "\<exists>l. TaskList_InitialiseWithCapacity 5 = Inr l \<and> tl_ok l \<and> tasks l = []"
  by (simp add: TaskList_InitialiseWithCapacity_def tl_ok_def tl_shape_def tl_placed_def tasks_def)

lemma region_start_ok:
  "br_ok (region_start FAST PRE TRICKLE)"
  "charge_table (region_start FAST PRE TRICKLE) = (1, headset_charge_mode_config_table FAST PRE TRICKLE)"
proof -
  obtain l where l: "TaskList_InitialiseWithCapacity 5 = Inr l" "tl_ok l" using initialised_list_ok by blast
  then show "br_ok (region_start FAST PRE TRICKLE)"
    by (simp add: region_start_def Let_def BatteryRegion_Init_def BatteryRegion_SetHandlerStructure_def
        BatteryRegion_SetChargeRegionConfigTable_def region_zero_def br_ok_def tables_ok_def
        headset_charge_mode_config_table_def headset_discharge_mode_config_table_def)
  show "charge_table (region_start FAST PRE TRICKLE) = (1, headset_charge_mode_config_table FAST PRE TRICKLE)"
    using l by (simp add: region_start_def Let_def BatteryRegion_Init_def BatteryRegion_SetHandlerStructure_def
        BatteryRegion_SetChargeRegionConfigTable_def region_zero_def)
qed

lemma clients_update_ok: "br_ok d \<Longrightarrow> tl_ok l \<Longrightarrow> br_ok (d\<lparr>client_tasks_list := l\<rparr>)"
  by (simp add: br_ok_def tables_ok_def)

lemma region_message_ok:
  assumes "br_ok d"
  shows "\<exists>d' out. batteryRegion_HandleMessage d e = Inr (d', out) \<and> br_ok d' \<and> charge_table d' = charge_table d"
proof (cases e)
  case INTERNAL_CHARGING_TIMER
  then show ?thesis using assms by (auto simp: batteryRegion_HandleMessage_def br_ok_def tables_ok_def)
next
  case (INTERNAL_UPDATE_TRIGGER v t c)
  then show ?thesis using update_region_result [OF assms, of v t c]
    by (auto simp: batteryRegion_HandleMessage_def)
qed (use assms in \<open>simp_all add: batteryRegion_HandleMessage_def br_ok_def tables_ok_def\<close>)

lemma region_next_ok:
  assumes "br_ok d"
  shows "br_ok (region_next d x) \<and> charge_table (region_next d x) = charge_table d"
proof (cases x)
  case (HandleMessage e)
  then show ?thesis using region_message_ok [OF assms, of e] by (auto simp: region_next_def region_step_def)
next
  case (RegisterClient t)
  let ?l = "client_tasks_list d"
  have l: "tl_ok ?l" using assms by (simp add: br_ok_def tables_ok_def)
  show ?thesis
  proof (cases "t \<noteq> 0 \<and> length (tasks ?l) < 15")
    case True
    then have "\<exists>l' b. TaskList_AddTask (Some ?l) t = Inr (l', b) \<and> tl_ok l'"
      using l tl.add_new [of ?l t] tl.add_old [of ?l t] by (cases "t \<in> set (tasks ?l)") auto
    then show ?thesis using RegisterClient True clients_update_ok [OF assms]
      by (auto simp: region_next_def region_step_def BatteryRegion_Register_def)
  qed (use assms RegisterClient in \<open>auto simp: region_next_def\<close>)
next
  case (UnregisterClient t)
  let ?l = "client_tasks_list d"
  have l: "tl_ok ?l" using assms by (simp add: br_ok_def tables_ok_def)
  show ?thesis
  proof (cases "t = 0")
    case False
    then have "\<exists>l' b. TaskList_RemoveTask (Some ?l) t = Inr (l', b) \<and> tl_ok l'"
      using l tl.remove_in [of ?l t] tl.remove_out [of ?l t] by (cases "t \<in> set (tasks ?l)") auto
    then show ?thesis using UnregisterClient False clients_update_ok [OF assms]
      by (auto simp: region_next_def region_step_def BatteryRegion_Unregister_def)
  qed (use assms UnregisterClient in \<open>simp add: region_next_def\<close>)
qed

interpretation br: reactive "region_start FAST PRE TRICKLE" region_next
  "\<lambda>d. br_ok d \<and> charge_table d = (1, headset_charge_mode_config_table FAST PRE TRICKLE)" for FAST PRE TRICKLE
  by unfold_locales (auto simp: region_start_ok region_next_ok)

section \<open>Properties\<close>

text \<open>
  The region matches the reading: after an update in any state the component can
  reach, either the region is set, its limits (widened by its hysteresis if it has not
  changed) hold the measured voltage and temperature, and the state reports its type; or
  no region of the table holds the reading.
\<close>

theorem battery_region_matches:
  "\<exists>d' out. batteryRegion_UpdateRegion (foldl region_next (region_start FAST PRE TRICKLE) xs) v t c = Inr (d', out)
    \<and> ((\<exists>r h. r = snd (region_table d') ! unat (region d') \<and> unat (region d') < length (snd (region_table d'))
          \<and> in_limits r v t h \<and> BatteryRegion_GetState d' = state_of_type (region_type r))
       \<or> list_all (\<lambda>r. \<not> in_limits r v t False) (snd (region_table d')))"
proof -
  have ok: "br_ok (foldl region_next (region_start FAST PRE TRICKLE) xs)" using br.run_ok by blast
  obtain d' out where d': "batteryRegion_UpdateRegion (foldl region_next (region_start FAST PRE TRICKLE) xs) v t c = Inr (d', out)"
      "br_ok d'"
      "(\<exists>h. unat (region d') < length (snd (region_table d')) \<and> region d' \<noteq> BATTERY_REGION_UNDEFINED
           \<and> in_limits (snd (region_table d') ! unat (region d')) v t h)
       \<or> (\<forall>r \<in> set (snd (region_table d')). \<not> in_limits r v t False)"
    using update_region_result [OF ok, of v t c] by metis
  then show ?thesis
    by (auto simp: br_ok_def BatteryRegion_GetState_def list_all_iff)
qed

text \<open>
  C28. No charging in the cold or the heat: with the headset's charge table, a charger
  connected and a reading within the table (at most 4350 mV, -40 to 85 degrees), the
  charging current after an update is 0 whenever the temperature is below -1 or above 46
  degrees, from any state the component can reach.
\<close>

theorem battery_region_temperature_limit:
  assumes "uint v \<le> 4350" and "- 40 \<le> sint t" and "sint t \<le> 85" and "sint t < - 1 \<or> 46 < sint t"
  shows "\<exists>d' out. batteryRegion_UpdateRegion (foldl region_next (region_start FAST PRE TRICKLE) xs) v t True = Inr (d', out)
    \<and> BatteryRegion_GetCurrent d' = Inr 0"
proof -
  let ?d = "foldl region_next (region_start FAST PRE TRICKLE) xs"
  let ?t = "headset_charge_mode_config_table FAST PRE TRICKLE"
  have ok: "br_ok ?d" "mode_table ?d True = ?t"
    using br.run_ok [of FAST PRE TRICKLE xs] by (simp_all add: mode_table_def)
  obtain d' out where d': "batteryRegion_UpdateRegion ?d v t True = Inr (d', out)" "snd (region_table d') = ?t"
      "\<exists>h. unat (region d') < length ?t \<and> in_limits (?t ! unat (region d')) v t h"
    using update_region_result [OF ok(1), of v t True] charge_table_covers [OF assms(1-3), of FAST PRE TRICKLE]
    unfolding ok(2) by blast
  then have "current (?t ! unat (region d')) = 0"
    using charge_table_hot [OF nth_mem _ assms(4)] by blast
  with d' show ?thesis by (auto simp: BatteryRegion_GetCurrent_def)
qed

theorem battery_region_temperature_limit_witness:
  "\<exists>d' out. batteryRegion_UpdateRegion (foldl region_next (region_start 100 50 10) []) 3800 60 True = Inr (d', out)
    \<and> BatteryRegion_GetCurrent d' = Inr 0"
  by (rule battery_region_temperature_limit) simp_all

text \<open>
  A reading no region holds keeps the charging current: when the battery is charging
  in a region and the next reading is outside every region of the table, for instance above
  85 degrees, the region and its current stay as they were.
\<close>

theorem battery_region_outside_keeps_current:
  assumes "br_ok d" and "region_table d = charge_table d"
    and "list_all (\<lambda>r. \<not> in_limits r v t False) (snd (charge_table d))"
    and "\<not> in_limits (snd (charge_table d) ! unat (region d)) v t True"
  shows "batteryRegion_UpdateRegion d v t True = Inr (d, [])"
proof -
  have sel: "select_table d True = d" using assms(2) by (simp add: select_table_def)
  have tab: "mode_table d True = snd (charge_table d)" by (simp add: mode_table_def)
  have no: "\<forall>r \<in> set (snd (region_table d)). \<not> in_limits r v t False"
    using assms(2,3) by (simp add: list_all_iff)
  have len: "0 + unat (region_table_len d) = length (snd (region_table d))" using assms(1) by (simp add: br_ok_def)
  from region_loop_result [OF assms(1) len, of v t True] no nth_mem [of _ "snd (region_table d)"]
  have loop: "region_loop d v t True 0 (unat (region_table_len d)) = Inr (d, [])" by auto
  have "batteryRegion_VolTempInRegion d (region d) v t True = Inr False"
    using assms by (auto simp: batteryRegion_VolTempInRegion_def br_ok_def)
  then show ?thesis using loop sel by (simp add: batteryRegion_UpdateRegion_def)
qed

definition example_charging :: battery_region_data where
  "example_charging = region_next (region_start 100 50 10) (HandleMessage (INTERNAL_UPDATE_TRIGGER 3800 25 True))"

theorem battery_region_outside_keeps_current_witness:
  "batteryRegion_UpdateRegion example_charging 3800 90 True = Inr (example_charging, [])
    \<and> BatteryRegion_GetCurrent example_charging = Inr 100"
proof
  show "batteryRegion_UpdateRegion example_charging 3800 90 True = Inr (example_charging, [])"
  proof (rule battery_region_outside_keeps_current)
    show "br_ok example_charging" unfolding example_charging_def using region_next_ok region_start_ok(1) by blast
    show "region_table example_charging = charge_table example_charging" by code_simp
    show "list_all (\<lambda>r. \<not> in_limits r 3800 90 False) (snd (charge_table example_charging))" by code_simp
    show "\<not> in_limits (snd (charge_table example_charging) ! unat (region example_charging)) 3800 90 True" by code_simp
  qed
  show "BatteryRegion_GetCurrent example_charging = Inr 100" by code_simp
qed

end
