(* ===== verification/Spec2Isabelle.thy ===== *)
theory Spec2Isabelle
  imports Input_Event_Properties Voice_Ui_Properties Volume_Properties Focus_Properties Rwcp_Server Byte_Utils Device_List Task_List Rules_Engine Goals_Engine Stereo_Scenarios State_Of_Charge Battery_Region
begin

text \<open>
  \<^bold>\<open>Verification of the application framework of the MH40 Bluetooth headset.\<close>

  \<^bold>\<open>The program.\<close> The repository holds the firmware of a headset built on Qualcomm's ADK: the
  product code under \<^verbatim>\<open>src/headset/src\<close>, the application framework under \<^verbatim>\<open>src/adk/src\<close>, and below
  them the operating system (\<^verbatim>\<open>src/os\<close>) and the DSP code (\<^verbatim>\<open>src/audio\<close>) of the vendor. The framework
  is a set of modules, each a task with a message handler and some static data, that call
  each other and post messages to each other through one scheduler. This development models
  modules of the framework that hold the logic of the application and do not touch the
  hardware:

  \<^item> what the headset does: the topology of the product decides with \<^emph>\<open>rules\<close> what to do,
    which \<^emph>\<open>goals\<close> to pursue next, together or one after the other, and which \<^emph>\<open>procedures\<close> or
    \<^emph>\<open>scripts\<close> of procedures achieve a goal;
  \<^item> what it remembers: the key-value lists that hold the properties of devices, the list of
    devices, and the lists of tasks that are told about something;
  \<^item> the battery: state of charge from the voltage, and the region of voltage and
    temperature that decides about charging;
  \<^item> what the user does: the pins of the buttons, and the patterns of presses that become inputs;
  \<^item> who has the microphone and how loud it is: the manager of features that exclude each other, the voice
    user interface with its capture and wake-up-word detection, the arithmetic of volumes, and the volume service
    with the sources whose volumes it changes;
  \<^item> which source of audio or voice is heard, and which one a key press is for: the selection of the focus;
  \<^item> the receiving end of the reliable transfer of upgrade images, and octet utilities.

  \<^bold>\<open>Conventions.\<close> Every function of C is a HOL function of the same name. State is passed
  explicitly, as a record with the fields of the C structure. A result of type \<^typ>\<open>'a res\<close> is
  a value (\<open>Inr\<close>) or a fault (\<open>Inl\<close>): \<open>Panic\<close> where the code panics, \<open>BadAccess\<close> where it would
  read or write outside an array or through \<open>NULL\<close>, \<open>Hang\<close> where a loop would not end, \<open>DivideByZero\<close>
  where it would divide by zero.
  Integers keep their width (\<open>u8\<close>, \<open>u16\<close>, \<open>u32\<close>, \<open>u64\<close> are words, so they wrap). Messages and
  calls to modules that are not modelled are outputs, lists in the order of the code; what
  such modules answer is an argument. Memory allocation does not fail (the code panics
  when it does). A component that handles messages is an instance of the locale
  \<open>reactive\<close> of the prelude: an initial state, a handler and an invariant that the handler
  keeps, which then holds after every sequence of messages. A fault resets the device, so
  sequences of events go on from the states the successful events lead to.

  \<^bold>\<open>Theories, and the code they model\<close> (paths under \<^verbatim>\<open>src/adk/src\<close> unless they start with \<^verbatim>\<open>src\<close>).

  \<^item> \<open>Mh40_Prelude\<close>: words, faults and loops over arrays as above, lists with insertion and
    removal, and the locale \<open>reactive\<close>.
  \<^item> \<open>Rwcp_Server\<close>: \<^verbatim>\<open>libs/rwcp_server/rwcp_server.c\<close>. The record \<open>server_data\<close> is \<^verbatim>\<open>SERVER_DATA_T\<close>,
    the three state cases of \<open>RwcpServerHandleMessage\<close> are \<open>handleListen\<close>, \<open>handleSynRcvd\<close> and
    \<open>handleEstablished\<close>. Shown: the data handed on is the in-order data of the sender, without
    loss, repetition or reordering (a refinement of a reliable channel), and what is
    acknowledged.
  \<^item> \<open>Byte_Utils\<close>: \<^verbatim>\<open>libs/byte_utils/byte_utils.c\<close>. Shown: round trips of the stream of bit fields
    and of packed strings, bounds of the copies, and that the two-octet setter and getter
    disagree on the order of octets.
  \<^item> \<open>Key_Value_List\<close>: \<^verbatim>\<open>libs/key_value_list/key_value_list.c\<close>: one array of keys in three sections
    and arrays of values of one, two and four octets and a list of larger ones. Shown: a map (what lookup
    returns after add, remove and merge), and that a counter of keys wraps.
  \<^item> \<open>Device\<close> and \<open>Device_List\<close>: \<^verbatim>\<open>libs/device/device.c\<close>, \<^verbatim>\<open>libs/device_list/device_list.c\<close>. Shown:
    typed properties read back, search returns exactly the matching devices, indices round
    trip, and that adding after a removal can duplicate a device.
  \<^item> \<open>Task_List\<close>: \<^verbatim>\<open>libs/task_list/task_list.c\<close> with its packed layout (an inline task, flexible
    slots, an array). Shown: it refines a set of registered tasks in order of registration;
    a multicast reaches each exactly once; what happens at its capacity.
  \<^item> \<open>Rules_Engine\<close>: \<^verbatim>\<open>common/rules_engine/rules_engine.c\<close>. Rules are functions of an arbitrary
    world. Shown: no fault when rules keep to their protocol, at most one rule is started per
    event and pass, and when an event is cleared.
  \<^item> \<open>Script_Engine\<close>: \<^verbatim>\<open>topologies/common/script_engine/script_engine.c\<close>. Shown: a script runs its
    procedures in order, once each, to its end, and what failure and cancellation do.
  \<^item> \<open>Goals_Engine\<close>: \<^verbatim>\<open>topologies/common/goals_engine/goals_engine.c\<close>. The record \<open>goals_world\<close> is the
    goal set with the messages held for the queue task, the script engine and the outputs.
    Shown: goals start only beside goals they may run beside; queued decisions are not stuck;
    a cancelling goal cancels all others, each once.
  \<^item> \<open>Stereo_Procedures\<close>: \<^verbatim>\<open>topologies/common/procedures/procedures.c\<close> and
    \<^verbatim>\<open>topologies/stereo_topology/procedures/*.c\<close>. A procedure's effects are a list in the order of
    the code, with the callbacks and the resets that follow them as effects. Shown: a
    cancelled procedure does not complete any more; a cancelled connection attempt that
    succeeds is confirmed twice.
  \<^item> \<open>Stereo_Topology\<close>: \<^verbatim>\<open>topologies/stereo_topology/core/*.c\<close>, which composes all of these: rule
    functions and table, goal table, stop script, state machine (\<open>StereoTopology_SetState\<close>),
    decisions (\<open>StereoTopology_HandleGoalDecision\<close>), callbacks of goals and scripts, message
    handler, initialisation. Calls nest in the code (an activated goal starts a procedure,
    which confirms its start); the model carries out the outputs of the engines in order,
    which comes to the same because no start or cancel function completes within itself.
  \<^item> \<open>Stereo_Control\<close>: what holds in every state the topology can reach under every
    interleaving of calls, messages and time-outs: the stop handshake, which goals are
    pursued together, that the rules are always ready, and that a stop requested while
    starting is lost. \<open>Stereo_Scenarios\<close>: what starting and stopping do from end to end.
  \<^item> \<open>Pio_Monitor\<close>: \<^verbatim>\<open>libs/pio_monitor/pio_monitor.c\<close>. The linked client objects of a task, each with a
    few pins and a bit of state for each, are a list. Shown: it refines a map from tasks to the
    pins they watch with the level last reported, and a change of the pins is reported to
    exactly the tasks that watch one.
  \<^item> \<open>Input_Event_Manager\<close>: \<^verbatim>\<open>libs/input_event_manager/input_event_manager.c\<close>, the step from levels of
    pins to messages: press, release, held, held and released, repeat, single, double and further
    clicks. The three timers are part of the state, with the values the code looks up in the
    configuration. \<open>Input_Event_Properties\<close>: held messages come only while the button is pressed, clicks
    are counted, copies of an action do not act twice, and where the actions of
    different buttons disturb each other.
  \<^item> \<open>Feature_Manager\<close>: \<^verbatim>\<open>domains/feature_manager/feature_manager.c\<close> and the lists of
    \<^verbatim>\<open>src/headset/src/headset_feature_manager_priority_list.c\<close>. What the manager asks of its clients (a
    state that suspending and resuming change as their names say, and that no client changes
    for another) is the locale \<open>features\<close>; mutual exclusion along each list is proved in it, and what
    starting and stopping guarantee. It is interpreted on plain features here and on the headset's own
    clients in \<open>Voice_Ui_Control\<close>.
  \<^item> \<open>Voice_Ui\<close>: \<^verbatim>\<open>services/voice_ui/voice_audio_manager/*.c\<close>, \<^verbatim>\<open>voice_ui_audio.c\<close>, \<^verbatim>\<open>voice_ui_session.c\<close>,
    \<^verbatim>\<open>voice_ui_container.c\<close> and parts of \<^verbatim>\<open>voice_ui.c\<close> of \<^verbatim>\<open>services/voice_ui/voice_ui\<close>, and the parts of
    \<^verbatim>\<open>domains/audio/audio_router/audio_router/audio_router.c\<close> and \<^verbatim>\<open>domains/audio/wired_source\<close> that use the
    feature manager. The record \<open>voice_world\<close> has the static variables of all. An assistant may
    call back from its callbacks; such calls are events of their own. \<open>Voice_Ui_Control\<close>: the events and
    the invariant of every reachable state; \<open>Voice_Ui_Properties\<close>: calls, the analog input and the
    assistant do not use the microphone together, a suspended detection resumes after the call, the
    state machine keeps capture and detection apart, and what is lost in a stop by an assistant
    that is not active and in a capture that times out.
  \<^item> \<open>Volume\<close>: \<^verbatim>\<open>domains/audio/volume/*.c\<close>, with the conversions of C integers written out. Shown: the
    conversion between ranges agrees with exact arithmetic (\<open>converted\<close>), is monotone, bounded and within
    half a step of the proportion, and comes back unchanged from a finer range; the output volume is
    bounded by source and limit; and the configurations in which it fails.
  \<^item> \<open>Audio_Registry\<close>: \<^verbatim>\<open>domains/audio/audio_sources/audio_sources_interface_registry.c\<close>, arrays of pointers for
    every source and type of interface. Shown: it refines a map from source and type to a bounded list, and panics only
    at an invalid source, a null table or a full list.
  \<^item> \<open>Audio_Sources\<close>: the volumes, remote volume controls and observers of \<^verbatim>\<open>domains/audio/audio_sources\<close> and
    \<^verbatim>\<open>domains/audio/voice_sources\<close>. A table of functions is a record; the functions that read and write a volume act on the
    state of their owner. What the volume service relies on (a volume in its range, in steps of one from zero,
    that reads back what was written) is the locale \<open>volume_tables\<close>.
  \<^item> \<open>Volume_Service\<close>: \<^verbatim>\<open>services/volume_service/volume_service.c\<close> and \<^verbatim>\<open>domains/audio/volume/volume_messages.c\<close>; the
    record \<open>volume_service\<close> adds to the sources the requests and the internal messages not yet delivered. \<open>service_step\<close>
    is one event: an input of the user, a delivery, a request from elsewhere, a registration, a change of a setting.
    \<open>Volume_Safety\<close> and \<open>Volume_Events\<close> prove in the locale, by weakest preconditions (\<open>wp\<close>), that no function and no
    event faults, and how a ramp goes on.
  \<^item> \<open>Volume_Tables\<close>: the tables of the headset, \<^verbatim>\<open>a2dp_profile_volume.c\<close> and \<^verbatim>\<open>hfp_profile_volume.c\<close> under
    \<^verbatim>\<open>domains/bt/profiles\<close>, \<^verbatim>\<open>domains/usb/usb_audio/usb_audio_volume_*.c\<close> and
    \<^verbatim>\<open>domains/audio/wired_source/wired_audio_volume_interface.c\<close>, over the device list and the device properties.
    \<open>Volume_Control\<close> proves the contract for them, the interpretation \<open>sv\<close> of \<open>volume_tables\<close>; \<open>Volume_Properties\<close>: the
    volume service on these tables never faults, a ramp ends at the end of the range, a requested volume
    is what the source says afterwards, and ramps that are started twice are not stopped by one stop.
  \<^item> \<open>Focus_Select\<close>: \<^verbatim>\<open>domains/focus/focus_select/*.c\<close> with the iterator
    \<^verbatim>\<open>domains/audio/types/sources_iterator.c\<close>, the contexts of \<^verbatim>\<open>audio_sources_media_control.c\<close> and
    \<^verbatim>\<open>voice_sources_telephony_control.c\<close>, the channels of \<^verbatim>\<open>voice_sources_audio.c\<close> and the orders of
    \<^verbatim>\<open>src/headset/src/headset_ui_config.c\<close>. The record \<open>focus_world\<close> is the volume service (with the
    registry of audio sources and the devices), the registries of voice sources and the static variables; what
    profiles and libraries answer is the record \<open>focus_env\<close>. \<open>Focus_Control\<close>: the compiled status is the
    maximum of the priorities, for any table of priorities (\<open>calculates\<close>), and what a tie break may choose.
    \<open>Focus_Properties\<close>: the focus is on an active source of the highest priority, a call takes it from any audio,
    keys find their source; a tie can give it to a silent source, and the order of the headset
    is read past its end.
  \<^item> \<open>State_Of_Charge\<close>: \<^verbatim>\<open>domains/power/state_of_charge/state_of_charge.c\<close> and the table of
    \<^verbatim>\<open>src/headset/src/headset_soc_config.c\<close>. Shown: the incremental search from the last position
    finds what a search of the whole table finds; the level does not rise while
    discharging; clients are told of every change they asked for.
  \<^item> \<open>Battery_Region\<close>: \<^verbatim>\<open>domains/power/battery_region/battery_region.c\<close> and the tables of
    \<^verbatim>\<open>src/headset/src/headset_region_config.c\<close>. Shown: the region chosen contains the voltage and the
    temperature; no charging current above the highest temperature of the table; what
    happens outside every region.

  \<^bold>\<open>Bounds and fuel.\<close> Loops over arrays are bounded by the arrays. The search for the first
  goal of a mask and the loop that cancels goals carry 64 iterations, one per bit of the
  mask; that they are enough is part of the lemmas \<open>first_goal_from_mask\<close> and \<open>cancel_loop_64\<close>.
  The while loops over task lists carry fuel 16, one more than the 15 tasks a list can
  hold, and \<open>task_list_multicast\<close> shows that it suffices.

  \<^bold>\<open>Configuration.\<close> Conditional code is modelled as the headset is built: \<^verbatim>\<open>HYDRACORE\<close>,
  \<^verbatim>\<open>ENABLE_APP_POWERON_ENTER_PAIRING\<close>, \<^verbatim>\<open>ENABLE_APP_OTA_LED\<close>, \<^verbatim>\<open>INCLUDE_VOICE_UI\<close>,
  \<^verbatim>\<open>INCLUDE_WIRED_ANALOG_AUDIO\<close>, \<^verbatim>\<open>ENABLE_APP_PC_VOLUME_SYNC\<close> and \<^verbatim>\<open>ENABLE_WIRED_AUDIO_FEATURE_PRIORITY\<close> defined, no peer
  (\<^verbatim>\<open>INCLUDE_TWS\<close>); whether the wake-up word is included is a parameter.

  \<^bold>\<open>Not modelled.\<close> The vendor's operating system and DSP code, the libraries of the Bluetooth
  profiles, the connection manager, audio chains, upgrade and GAIA commands, pairing, USB
  and the prompts and LEDs of the user interface: their behaviour is that of the Bluetooth stack, the DSP or
  hardware behind traps. Debug logging is left out everywhere. The scheduler is represented
  by what it guarantees to its clients: posted messages are delivered in order, messages
  conditional on a lock once it is zero, timed messages at any later time. Of the
  voice user interface the override of the media context during a session is left out, as it
  belongs to the registry of audio sources. Of the sources of audio
  and voice the interfaces that start, stop and route media and calls are left out, as they dispatch to the profiles, as
  are the volume tables of LE audio and of the audio gateway. The volume service takes the source in focus as an argument; that
  the selection gives such a source is part of \<open>focus_is_best\<close>. The code not modelled whose logic does not depend on hardware,
  and where the development would go on: the states of the audio router, the battery and charger monitors and the power
  manager, and the serialiser of the device database.
\<close>

end
